(* ===== verification/Prelude.thy ===== *)
theory Prelude
  imports Main
begin

text \<open>
  Shared ground of the development.

  \<^item> Operations on the control plane state: a Rust function that takes a connection and
    returns a \<open>Result\<close> is a function from the state to an error or a value, together with the
    state it leaves behind. \<open>bindM\<close> is the \<open>?\<close> operator, \<open>mapErr\<close> is \<open>map_err\<close>,
    \<open>forM\<close> a \<open>for\<close> loop whose body may return early with an error.
  \<^item> \<open>triple\<close>, a partial-correctness triple over such operations, with one rule per
    combinator, collected in \<open>triple_rules\<close>.
  \<^item> Tables: a table is the list of its rows; \<open>find_row\<close> and \<open>update_row\<close> read and write
    the row with a given key. Their laws are proved once in the locale \<open>keyed_table\<close> and
    interpreted for every table of the state.
  \<^item> 64-bit and 32-bit integer conversions of Rust, on \<open>int\<close> and \<open>nat\<close>.
\<close>

section \<open>Operations\<close>

type_synonym ('s, 'e, 'a) oper = "'s \<Rightarrow> ('e + 'a) \<times> 's"

definition retM :: "'a \<Rightarrow> ('s, 'e, 'a) oper" where
  "retM a s = (Inr a, s)"

definition failM :: "'e \<Rightarrow> ('s, 'e, 'a) oper" where
  "failM e s = (Inl e, s)"

definition bindM :: "('s, 'e, 'a) oper \<Rightarrow> ('a \<Rightarrow> ('s, 'e, 'b) oper) \<Rightarrow> ('s, 'e, 'b) oper" where
  "bindM m k s = (case m s of (Inl e, s') \<Rightarrow> (Inl e, s') | (Inr a, s') \<Rightarrow> k a s')"

definition mapErr :: "('e \<Rightarrow> 'f) \<Rightarrow> ('s, 'e, 'a) oper \<Rightarrow> ('s, 'f, 'a) oper" where
  "mapErr f m s = (case m s of (Inl e, s') \<Rightarrow> (Inl (f e), s') | (Inr a, s') \<Rightarrow> (Inr a, s'))"

definition getM :: "('s \<Rightarrow> 'a) \<Rightarrow> ('s, 'e, 'a) oper" where
  "getM f s = (Inr (f s), s)"

definition putM :: "('s \<Rightarrow> 's) \<Rightarrow> ('s, 'e, unit) oper" where
  "putM f s = (Inr (), f s)"

definition okOr :: "'e \<Rightarrow> 'a option \<Rightarrow> ('s, 'e, 'a) oper" where
  "okOr e x = (case x of None \<Rightarrow> failM e | Some a \<Rightarrow> retM a)"

definition liftR :: "'e + 'a \<Rightarrow> ('s, 'e, 'a) oper" where
  "liftR r = (case r of Inl e \<Rightarrow> failM e | Inr a \<Rightarrow> retM a)"

primrec forM :: "'a list \<Rightarrow> ('a \<Rightarrow> ('s, 'e, unit) oper) \<Rightarrow> ('s, 'e, unit) oper" where
  "forM [] f = retM ()"
| "forM (x # xs) f = bindM (f x) (\<lambda>_. forM xs f)"

lemmas oper_defs = retM_def failM_def bindM_def mapErr_def getM_def putM_def okOr_def liftR_def

lemma okOr_simps [simp]:
  "okOr e None = failM e"
  "okOr e (Some a) = retM a"
  by (simp_all add: okOr_def)

lemma liftR_simps [simp]:
  "liftR (Inl e) = failM e"
  "liftR (Inr a) = retM a"
  by (simp_all add: liftR_def)

lemma bindM_simps [simp]:
  "bindM (retM a) k = k a"
  "bindM (failM e) k = failM e"
  "bindM m retM = m"
  by (auto simp: fun_eq_iff oper_defs split: prod.splits sum.splits)

lemma mapErr_simps [simp]:
  "mapErr f (retM a) = retM a"
  "mapErr f (failM e) = failM (f e)"
  by (simp_all add: fun_eq_iff oper_defs)

text \<open>A sequence succeeds exactly when both of its halves do.\<close>

lemma bindM_Inr: "bindM m k s = (Inr b, t) \<longleftrightarrow> (\<exists>a u. m s = (Inr a, u) \<and> k a u = (Inr b, t))"
  by (auto simp: bindM_def split: prod.splits sum.splits)

lemma mapErr_Inr: "mapErr f m s = (Inr b, t) \<longleftrightarrow> m s = (Inr b, t)"
  by (auto simp: mapErr_def split: prod.splits sum.splits)

lemma retM_Inr: "retM a s = (Inr b, t) \<longleftrightarrow> b = a \<and> t = s"
  by (auto simp: retM_def)

lemma failM_Inr: "failM e s \<noteq> (Inr b, t)"
  by (simp add: failM_def)

lemma getM_Inr: "getM f s = (Inr b, t) \<longleftrightarrow> b = f s \<and> t = s"
  by (auto simp: getM_def)

lemma putM_Inr: "putM f s = (Inr b, t) \<longleftrightarrow> t = f s"
  by (auto simp: putM_def)

lemma okOr_Inr: "okOr e x s = (Inr b, t) \<longleftrightarrow> x = Some b \<and> t = s"
  by (cases x) (auto simp: oper_defs)

lemma liftR_Inr: "liftR r s = (Inr b, t) \<longleftrightarrow> r = Inr b \<and> t = s"
  by (cases r) (auto simp: oper_defs)

lemmas oper_Inr = bindM_Inr mapErr_Inr retM_Inr failM_Inr getM_Inr putM_Inr okOr_Inr liftR_Inr

text \<open>Running a successful prefix: used to compute what an operation does.\<close>

lemma bindM_run: "m s = (Inr a, t) \<Longrightarrow> bindM m k s = k a t"
  by (simp add: bindM_def)

lemma bindM_fail: "m s = (Inl e, t) \<Longrightarrow> bindM m k s = (Inl e, t)"
  by (simp add: bindM_def)

lemma mapErr_run: "m s = (Inr a, t) \<Longrightarrow> mapErr f m s = (Inr a, t)"
  by (simp add: mapErr_def)

lemma mapErr_fail: "m s = (Inl e, t) \<Longrightarrow> mapErr f m s = (Inl (f e), t)"
  by (simp add: mapErr_def)


section \<open>Triples\<close>

definition triple ::
  "('s \<Rightarrow> bool) \<Rightarrow> ('s, 'e, 'a) oper \<Rightarrow> ('a \<Rightarrow> 's \<Rightarrow> bool) \<Rightarrow> bool" where
  "triple P m Q \<longleftrightarrow> (\<forall>s a t. P s \<longrightarrow> m s = (Inr a, t) \<longrightarrow> Q a t)"

text \<open>\<open>keeps I m\<close>: every successful run of \<open>m\<close> keeps the invariant \<open>I\<close>.\<close>

definition keeps :: "('s \<Rightarrow> bool) \<Rightarrow> ('s, 'e, 'a) oper \<Rightarrow> bool" where
  "keeps I m \<longleftrightarrow> (\<forall>s a t. I s \<longrightarrow> m s = (Inr a, t) \<longrightarrow> I t)"

named_theorems keeps_rules

lemma tripleD: "triple P m Q \<Longrightarrow> P s \<Longrightarrow> m s = (Inr a, t) \<Longrightarrow> Q a t"
  by (auto simp: triple_def)

lemma keepsD: "keeps I m \<Longrightarrow> m s = (Inr a, t) \<Longrightarrow> I s \<Longrightarrow> I t"
  by (auto simp: keeps_def)

lemma keepsI: "(\<And>s a t. I s \<Longrightarrow> m s = (Inr a, t) \<Longrightarrow> I t) \<Longrightarrow> keeps I m"
  by (auto simp: keeps_def)

lemma keeps_retM [keeps_rules]: "keeps I (retM a)"
  by (auto simp: keeps_def oper_Inr)

lemma keeps_failM [keeps_rules]: "keeps I (failM e)"
  by (auto simp: keeps_def oper_Inr)

lemma keeps_getM [keeps_rules]: "keeps I (getM f)"
  by (auto simp: keeps_def oper_Inr)

lemma keeps_okOr [keeps_rules]: "keeps I (okOr e x)"
  by (auto simp: keeps_def oper_Inr)

lemma keeps_liftR [keeps_rules]: "keeps I (liftR r)"
  by (auto simp: keeps_def oper_Inr)

lemma keeps_bindM [keeps_rules]: "keeps I m \<Longrightarrow> (\<And>a. keeps I (k a)) \<Longrightarrow> keeps I (bindM m k)"
  unfolding keeps_def bindM_Inr by blast

lemma keeps_mapErr [keeps_rules]: "keeps I m \<Longrightarrow> keeps I (mapErr f m)"
  by (auto simp: keeps_def oper_Inr)

lemma keeps_If [keeps_rules]:
  "(b \<Longrightarrow> keeps I m) \<Longrightarrow> (\<not> b \<Longrightarrow> keeps I n) \<Longrightarrow> keeps I (if b then m else n)"
  by simp

lemma keeps_case_option [keeps_rules]:
  "(x = None \<Longrightarrow> keeps I m) \<Longrightarrow> (\<And>a. x = Some a \<Longrightarrow> keeps I (k a)) \<Longrightarrow>
   keeps I (case x of None \<Rightarrow> m | Some a \<Rightarrow> k a)"
  by (cases x) simp_all

lemma keeps_forM [keeps_rules]: "(\<And>x. keeps I (f x)) \<Longrightarrow> keeps I (forM xs f)"
  by (induction xs) (auto intro: keeps_rules)

lemma keeps_putM: "(\<And>s. I s \<Longrightarrow> I (f s)) \<Longrightarrow> keeps I (putM f)"
  by (auto simp: keeps_def oper_Inr)

lemma keeps_conj: "keeps I m \<Longrightarrow> keeps J m \<Longrightarrow> keeps (\<lambda>s. I s \<and> J s) m"
  by (fastforce simp: keeps_def)


section \<open>What every run does\<close>

text \<open>
  \<open>runs R m\<close>: the state before and after \<open>m\<close> are related by \<open>R\<close>, whether \<open>m\<close> succeeds or not. For a
  reflexive and transitive \<open>R\<close> the property passes through every combinator, which is proved
  once in the locale.
\<close>

definition runs :: "('s \<Rightarrow> 's \<Rightarrow> bool) \<Rightarrow> ('s, 'e, 'a) oper \<Rightarrow> bool" where
  "runs R m \<longleftrightarrow> (\<forall>s. R s (snd (m s)))"

lemma runsD: "runs R m \<Longrightarrow> m s = (r, t) \<Longrightarrow> R s t"
  unfolding runs_def by (metis snd_conv)

lemma runsI: "(\<And>s r t. m s = (r, t) \<Longrightarrow> R s t) \<Longrightarrow> runs R m"
  by (metis runs_def prod.collapse)

locale run_relation =
  fixes R :: "'s \<Rightarrow> 's \<Rightarrow> bool"
  assumes same: "R s s"
    and join: "R s t \<Longrightarrow> R t u \<Longrightarrow> R s u"
begin

lemma retM_ok: "runs R (retM a)"
  and failM_ok: "runs R (failM e)"
  and getM_ok: "runs R (getM f)"
  and okOr_ok: "runs R (okOr e x)"
  and liftR_ok: "runs R (liftR r)"
  by (auto simp: runs_def oper_defs same split: option.splits sum.splits)

lemma putM_ok: "(\<And>s. R s (f s)) \<Longrightarrow> runs R (putM f)"
  by (simp add: runs_def putM_def)

lemma bindM_ok:
  assumes "runs R m" and "\<And>a. runs R (k a)"
  shows "runs R (bindM m k)"
proof (rule runsI)
  fix s r t
  assume run: "bindM m k s = (r, t)"
  obtain x u where m: "m s = (x, u)" by (cases "m s")
  then have first: "R s u" by (rule runsD[OF assms(1)])
  show "R s t"
  proof (cases x)
    case (Inl e)
    with run m first show ?thesis by (simp add: bindM_def)
  next
    case (Inr a)
    with run m have "k a u = (r, t)" by (simp add: bindM_def)
    then have "R u t" by (rule runsD[OF assms(2)])
    with first show ?thesis by (rule join)
  qed
qed

lemma mapErr_ok: "runs R m \<Longrightarrow> runs R (mapErr f m)"
  by (auto simp: runs_def mapErr_def split: prod.splits sum.splits) (metis snd_conv)+

lemma If_ok: "runs R m \<Longrightarrow> runs R n \<Longrightarrow> runs R (if b then m else n)"
  by simp

lemma option_ok:
  "runs R m \<Longrightarrow> (\<And>a. runs R (k a)) \<Longrightarrow> runs R (case x of None \<Rightarrow> m | Some a \<Rightarrow> k a)"
  by (cases x) simp_all

lemma sum_ok:
  "(\<And>e. runs R (f e)) \<Longrightarrow> (\<And>a. runs R (k a)) \<Longrightarrow> runs R (case x of Inl e \<Rightarrow> f e | Inr a \<Rightarrow> k a)"
  by (cases x) simp_all

lemma prod_ok: "(\<And>a b. runs R (k a b)) \<Longrightarrow> runs R (case x of (a, b) \<Rightarrow> k a b)"
  by (cases x) simp_all

lemma forM_ok: "(\<And>x. runs R (f x)) \<Longrightarrow> runs R (forM xs f)"
  by (induction xs) (auto intro: retM_ok bindM_ok)

lemmas rules = retM_ok failM_ok getM_ok okOr_ok liftR_ok bindM_ok mapErr_ok If_ok option_ok
  sum_ok prod_ok forM_ok

end


section \<open>Tables\<close>

definition find_row :: "('r \<Rightarrow> 'k) \<Rightarrow> 'k \<Rightarrow> 'r list \<Rightarrow> 'r option" where
  "find_row key k rows = find (\<lambda>r. key r = k) rows"

definition update_where :: "('r \<Rightarrow> bool) \<Rightarrow> ('r \<Rightarrow> 'r) \<Rightarrow> 'r list \<Rightarrow> 'r list" where
  "update_where p f rows = map (\<lambda>r. if p r then f r else r) rows"

lemma find_Some_iff_mem: "find p xs = Some x \<Longrightarrow> x \<in> set xs \<and> p x"
  by (induction xs) (auto split: if_splits)

lemma find_None_iff_ball: "find p xs = None \<longleftrightarrow> (\<forall>x\<in>set xs. \<not> p x)"
  by (induction xs) auto

lemma set_update_where: "set (update_where p f rows) = (\<lambda>r. if p r then f r else r) ` set rows"
  by (simp add: update_where_def)

lemma length_update_where [simp]: "length (update_where p f rows) = length rows"
  by (simp add: update_where_def)

lemma find_row_mem: "find_row key k rows = Some r \<Longrightarrow> r \<in> set rows \<and> key r = k"
  unfolding find_row_def by (rule find_Some_iff_mem)

lemma find_row_None: "find_row key k rows = None \<longleftrightarrow> k \<notin> key ` set rows"
  by (auto simp: find_row_def find_None_iff_ball)

lemma find_row_distinct:
  "distinct (map key rows) \<Longrightarrow> r \<in> set rows \<Longrightarrow> find_row key (key r) rows = Some r"
  by (induction rows) (auto simp: find_row_def)

lemma find_row_update:
  assumes "\<And>r. key (f r) = key r"
  shows "find_row key k (update_where p f rows) =
    map_option (\<lambda>r. if p r then f r else r) (find_row key k rows)"
  using assms by (induction rows) (auto simp: find_row_def update_where_def)

lemma find_row_insert:
  "find_row key k (rows @ [r]) =
    (case find_row key k rows of Some x \<Rightarrow> Some x | None \<Rightarrow> if key r = k then Some r else None)"
  by (induction rows) (auto simp: find_row_def)

lemma map_update_where:
  assumes "\<And>r. g (f r) = g r"
  shows "map g (update_where p f rows) = map g rows"
  using assms by (simp add: update_where_def)

text \<open>
  The contract of a table: its schema constraints (a predicate on the rows, checked by the
  database at every statement) imply that the key column tells the rows apart. The laws of
  reading a row back are proved once and used for every table of the state.
\<close>

locale keyed_table =
  fixes key :: "'r \<Rightarrow> 'k" and ok :: "'r list \<Rightarrow> bool"
  assumes ok_distinct: "ok rows \<Longrightarrow> distinct (map key rows)"
begin

lemma row_unique: "ok rows \<Longrightarrow> r \<in> set rows \<Longrightarrow> q \<in> set rows \<Longrightarrow> key r = key q \<Longrightarrow> r = q"
  using ok_distinct by (auto simp: distinct_map inj_on_def)

lemma row_found: "ok rows \<Longrightarrow> r \<in> set rows \<Longrightarrow> find_row key (key r) rows = Some r"
  using ok_distinct by (simp add: find_row_distinct)

lemma found_iff: "ok rows \<Longrightarrow> find_row key k rows = Some r \<longleftrightarrow> r \<in> set rows \<and> key r = k"
  using row_found find_row_mem by metis

lemma found_after_update:
  "find_row key k rows = Some r \<Longrightarrow> (\<And>x. key (f x) = key x) \<Longrightarrow>
   find_row key k (update_where (\<lambda>x. key x = k) f rows) = Some (f r)"
  by (auto simp: find_row_update dest: find_row_mem)

lemma other_after_update:
  "j \<noteq> k \<Longrightarrow> (\<And>x. key (f x) = key x) \<Longrightarrow>
   find_row key j (update_where (\<lambda>x. key x = k) f rows) = find_row key j rows"
  by (cases "find_row key j rows") (auto simp: find_row_update dest: find_row_mem)

lemma update_only_row:
  assumes "ok rows" and "find_row key k rows = Some r"
  shows "set (update_where (\<lambda>x. key x = k) f rows) = insert (f r) (set rows - {r})"
proof -
  have r: "r \<in> set rows" "key r = k"
    using assms(2) by (auto dest: find_row_mem)
  have "key x = k \<longleftrightarrow> x = r" if "x \<in> set rows" for x
    using row_unique[OF assms(1) that r(1)] r(2) by auto
  then have "(\<lambda>x. if key x = k then f x else x) ` set rows =
      (\<lambda>x. if x = r then f x else x) ` set rows"
    by (intro image_cong) auto
  with r show ?thesis by (auto simp: set_update_where)
qed

end


text \<open>
  Statements against one table of the state: \<open>get\<close> and \<open>put\<close> read and replace the table,
  \<open>con\<close> names the first schema constraint that a list of rows violates. The database checks the
  constraints at each statement; a violated constraint is the error of the statement and leaves
  the table as it was. \<open>exec_update\<close> is sea-orm's \<open>ActiveModel::update\<close> (the columns that are
  \<open>Set\<close> are written to the row with the primary key, and the row is read back),
  \<open>exec_update_many\<close> its \<open>update_many\<close>, which returns the number of rows affected.
\<close>

datatype dberr =
    RecordNotUpdated
  | UniqueViolation string
  | CheckViolation string
  | BigintOutOfRange
  | DbCustom string

definition exec_update ::
  "('r list \<Rightarrow> dberr option) \<Rightarrow> ('r \<Rightarrow> 'k) \<Rightarrow> ('s \<Rightarrow> 'r list) \<Rightarrow> ('r list \<Rightarrow> 's \<Rightarrow> 's) \<Rightarrow>
   'k \<Rightarrow> ('r \<Rightarrow> 'r) \<Rightarrow> ('s, dberr, 'r) oper" where
  "exec_update con key get put k f s =
     (case find_row key k (get s) of
        None \<Rightarrow> (Inl RecordNotUpdated, s)
      | Some r \<Rightarrow>
          (let rows = update_where (\<lambda>x. key x = k) f (get s)
           in case con rows of Some e \<Rightarrow> (Inl e, s) | None \<Rightarrow> (Inr (f r), put rows s)))"

definition exec_insert ::
  "('r list \<Rightarrow> dberr option) \<Rightarrow> ('s \<Rightarrow> 'r list) \<Rightarrow> ('r list \<Rightarrow> 's \<Rightarrow> 's) \<Rightarrow> 'r \<Rightarrow>
   ('s, dberr, 'r) oper" where
  "exec_insert con get put r s =
     (let rows = get s @ [r]
      in case con rows of Some e \<Rightarrow> (Inl e, s) | None \<Rightarrow> (Inr r, put rows s))"

definition exec_update_many ::
  "('r list \<Rightarrow> dberr option) \<Rightarrow> ('s \<Rightarrow> 'r list) \<Rightarrow> ('r list \<Rightarrow> 's \<Rightarrow> 's) \<Rightarrow>
   ('r \<Rightarrow> bool) \<Rightarrow> ('r \<Rightarrow> 'r) \<Rightarrow> ('s, dberr, nat) oper" where
  "exec_update_many con get put p f s =
     (let rows = update_where p f (get s)
      in case con rows of
           Some e \<Rightarrow> (Inl e, s)
         | None \<Rightarrow> (Inr (length (filter p (get s))), put rows s))"

text \<open>The contract between a table of the state and the statements against it.\<close>

locale stored_table = keyed_table key "\<lambda>rows. con rows = None"
  for key :: "'r \<Rightarrow> 'k" and con :: "'r list \<Rightarrow> dberr option" +
  fixes get :: "'s \<Rightarrow> 'r list" and put :: "'r list \<Rightarrow> 's \<Rightarrow> 's"
  assumes get_put: "get (put rows s) = rows"
begin

lemma update_Inr:
  "exec_update con key get put k f s = (Inr q, t) \<longleftrightarrow>
   (\<exists>r. find_row key k (get s) = Some r \<and> q = f r \<and>
        con (update_where (\<lambda>x. key x = k) f (get s)) = None \<and>
        t = put (update_where (\<lambda>x. key x = k) f (get s)) s)"
  by (auto simp: exec_update_def Let_def split: option.splits)

lemma update_run:
  assumes "find_row key k (get s) = Some r"
    and "con (update_where (\<lambda>x. key x = k) f (get s)) = None"
  shows "exec_update con key get put k f s =
    (Inr (f r), put (update_where (\<lambda>x. key x = k) f (get s)) s)"
  using assms by (simp add: exec_update_def Let_def)

lemma update_keeps_con:
  "exec_update con key get put k f s = (Inr q, t) \<Longrightarrow> con (get t) = None"
  by (auto simp: update_Inr get_put)

lemma insert_Inr:
  "exec_insert con get put r s = (Inr q, t) \<longleftrightarrow>
   q = r \<and> con (get s @ [r]) = None \<and> t = put (get s @ [r]) s"
  by (auto simp: exec_insert_def Let_def split: option.splits)

lemma insert_keeps_con:
  "exec_insert con get put r s = (Inr q, t) \<Longrightarrow> con (get t) = None"
  by (auto simp: insert_Inr get_put)

lemma update_many_Inr:
  "exec_update_many con get put p f s = (Inr n, t) \<longleftrightarrow>
   n = length (filter p (get s)) \<and> con (update_where p f (get s)) = None \<and>
   t = put (update_where p f (get s)) s"
  by (auto simp: exec_update_many_def Let_def split: option.splits)

end


section \<open>Integers of fixed width\<close>

text \<open>\<open>u64::try_from(i64)\<close>, \<open>i64::try_from(u64)\<close>, \<open>i32::try_from\<close> and the u64 additions.\<close>

definition u64_max :: nat where
  "u64_max = 2 ^ 64 - 1"

definition try_u64 :: "int \<Rightarrow> nat option" where
  "try_u64 x = (if 0 \<le> x then Some (nat x) else None)"

definition try_i64 :: "nat \<Rightarrow> int option" where
  "try_i64 x = (if x < 2 ^ 63 then Some (int x) else None)"

definition try_i32 :: "nat \<Rightarrow> int option" where
  "try_i32 x = (if x < 2 ^ 31 then Some (int x) else None)"

definition sat_add_u64 :: "nat \<Rightarrow> nat \<Rightarrow> nat" where
  "sat_add_u64 a b = min u64_max (a + b)"

definition checked_add_u64 :: "nat \<Rightarrow> nat \<Rightarrow> nat option" where
  "checked_add_u64 a b = (if a + b \<le> u64_max then Some (a + b) else None)"

text \<open>Wrapping addition of two i64 values, as the release profile compiles \<open>+\<close>.\<close>

definition wrap_i64 :: "int \<Rightarrow> int" where
  "wrap_i64 x = (x + 2 ^ 63) mod 2 ^ 64 - 2 ^ 63"

lemma wrap_i64_id: "- (2 ^ 63) \<le> x \<Longrightarrow> x < 2 ^ 63 \<Longrightarrow> wrap_i64 x = x"
  by (simp add: wrap_i64_def)

lemma try_u64_Some: "try_u64 x = Some n \<longleftrightarrow> 0 \<le> x \<and> n = nat x"
  by (auto simp: try_u64_def)

lemma checked_add_u64_Some: "checked_add_u64 a b = Some c \<longleftrightarrow> a + b \<le> u64_max \<and> c = a + b"
  by (auto simp: checked_add_u64_def)

end
