(* ===== verification/Entities.thy ===== *)
theory Entities
  imports Prelude
begin

text \<open>
  The rows of the Control API database (\<open>infra/database/entity\<close>), the enums of
  \<open>entity/enums.rs\<close> and the state every operation of the control plane works on.

  The constructors carry the initial of their enum (\<open>BReady\<close> is
  \<open>DeploymentBuildStatus::Ready\<close>, \<open>SReady\<close> is \<open>DeploymentServeStatus::Ready\<close>); the record fields
  carry the initial of their table. A \<open>Uuid\<close> is its 128-bit number, which is also its order; an
  \<open>OffsetDateTime\<close> is the number of nanoseconds since the Unix epoch. An \<open>i64\<close> or \<open>i32\<close> column is
  an \<open>int\<close>. Text that the code inspects character by character is a list of code points
  (\<open>ustr\<close>), other text is a \<open>string\<close>.

  \<open>OffsetDateTime::now_utc\<close>, \<open>Uuid::now_v7\<close> and the random choice of the scheduler are answers
  of the environment: the state holds the sequence of answers still to come and the number
  consumed. \<open>sql_now\<close> is PostgreSQL's \<open>NOW()\<close>, the start of the current transaction.
\<close>

section \<open>Scalars\<close>

type_synonym uuid = nat
type_synonym time = int
type_synonym ustr = "nat list"

definition seconds :: "int \<Rightarrow> int" where
  "seconds n = n * 1000000000"

datatype json =
    JNull
  | JBool bool
  | JNum int
  | JStr string
  | JUuid uuid \<comment> \<open>the string serde writes for a \<open>Uuid\<close>\<close>
  | JTime time
  | JArr "json list"
  | JObj "(string \<times> json) list"

fun json_get :: "string \<Rightarrow> json \<Rightarrow> json option" where
  "json_get k (JObj kvs) = map_of kvs k"
| "json_get k _ = None"

fun json_as_str :: "json \<Rightarrow> string option" where
  "json_as_str (JStr s) = Some s"
| "json_as_str _ = None"

definition json_as_u64 :: "json \<Rightarrow> nat option" where
  "json_as_u64 j = (case j of JNum n \<Rightarrow> if 0 \<le> n \<and> n < 2 ^ 64 then Some (nat n) else None | _ \<Rightarrow> None)"

definition jopt :: "('a \<Rightarrow> json) \<Rightarrow> 'a option \<Rightarrow> json" where
  "jopt f x = (case x of None \<Rightarrow> JNull | Some a \<Rightarrow> f a)"

section \<open>Enums\<close>

datatype project_runtime = Static | Ssr | Hybrid | Serverless | Edge

datatype deployment_environment = Production | Preview

datatype build_status = BPending | BClaimed | BQueued | BBuilding | BReady | BFailed | BCanceled

datatype release_status = RDraft | RPendingReview | RApproved | RRejected | RActive

datatype serve_status = SPending | SSyncing | SReady | SFailed | SRetired

datatype event_kind = EvSystem | EvBuild | EvServe | EvRelease | EvReview | EvHost

datatype artifact_kind = GrassOutput | BuildLog | StaticSite | Screenshot

datatype review_status = VPending | VApproved | VRejected

datatype release_reason = ReasonAuto | ReasonPromote | ReasonRollback

datatype team_kind = Personal | SharedTeam

datatype team_member_role = RoleOwner | RoleAdmin | RoleMember | RoleViewer

datatype setting_value_kind = KindString | KindNumber | KindBoolean | KindJson | KindSecretRef

datatype host_binding_kind = HostPlatform | HostCustom

datatype host_binding_environment = HostProduction | HostPreview | HostAll

datatype host_binding_status = HPending | HActive | HFailed | HDisabled

datatype host_review_status = HrNotRequired | HrPending | HrApproved | HrRejected

datatype config_sync_status = CfgPending | CfgApplying | CfgApplied | CfgFailed

datatype quota_event_kind = QReserve | QConsume | QRelease | QDeny | QAdjust

datatype quota_period = PeriodNone | PeriodMonthly

datatype node_status = NPending | NActive | NDraining | NOffline | NDisabled

datatype node_deletion_status = JQueued | JMigrating | JDraining | JDeleting | JFailed | JCompleted

datatype migration_status = MPending | MSyncing | MReady | MFailed

datatype audit_result = AuditSuccess | AuditFailure | AuditDenied

datatype audit_actor_type = ActorAnonymous | ActorUser | ActorSystem | ActorNode

datatype audit_visibility = VisPlatform | VisTeam

datatype auth_token_kind = TokenEmailVerification | TokenPasswordReset

datatype mfa_factor_kind = FactorTotp | FactorEmail

datatype invitation_status = InvPending | InvAccepted | InvExpired | InvRevoked

datatype host_source_kind = SourceWildcard | SourceDnsProvider | SourceManual

datatype provision_event_status = ProvSuccess | ProvPending | ProvFailed

text \<open>
  An idempotency key is \<open>format!("prefix:{uuid}")\<close> or \<open>format!("prefix:{uuid}:{timestamp}")\<close>; the
  prefixes hold no colon and the text of a \<open>Uuid\<close> has a fixed width, so the parts determine
  the text and the model keeps the parts.
\<close>

datatype idem_key = IdemKey string uuid "int option"

section \<open>Rows\<close>

record deployment =
  d_id :: uuid
  d_project_id :: uuid
  d_team_id :: uuid
  d_region :: string
  d_build_node_id :: "uuid option"
  d_serve_node_id :: "uuid option"
  d_environment :: deployment_environment
  d_runtime_kind :: project_runtime
  d_build_status :: build_status
  d_serve_status :: serve_status
  d_release_status :: release_status
  d_serve_cpu_millicores :: int
  d_serve_memory_mb :: int
  d_serve_disk_mb :: int
  d_overcommitted :: bool
  d_source_repository_url :: "string option"
  d_source_credential_version_id :: "uuid option"
  d_source_branch :: "string option"
  d_commit_hash :: "string option"
  d_commit_message :: "string option"
  d_triggered_by_user_id :: "uuid option"
  d_install_command :: "string option"
  d_build_command :: "string option"
  d_output_directory :: "string option"
  d_source_metadata :: json
  d_preview_host :: "string option"
  d_build_stage :: "string option"
  d_failure_code :: "string option"
  d_failure_message :: "string option"
  d_serve_failure_code :: "string option"
  d_serve_failure_message :: "string option"
  d_pending_release_reason :: "release_reason option"
  d_pending_release_actor_user_id :: "uuid option"
  d_pending_release_audit_visibility :: "audit_visibility option"
  d_pending_release_requested_at :: "time option"
  d_claimed_at :: "time option"
  d_build_started_at :: "time option"
  d_build_finished_at :: "time option"
  d_serve_started_at :: "time option"
  d_serve_finished_at :: "time option"
  d_deleted_at :: "time option"
  d_created_at :: time
  d_updated_at :: time

record deployment_event =
  e_id :: uuid
  e_deployment_id :: uuid
  e_kind :: event_kind
  e_message :: string
  e_metadata :: json
  e_created_at :: time

record release =
  r_id :: uuid
  r_project_id :: uuid
  r_deployment_id :: uuid
  r_environment :: deployment_environment
  r_reason :: release_reason
  r_actor_user_id :: "uuid option"
  r_previous_deployment_id :: "uuid option"
  r_created_at :: time

record deployment_review =
  v_id :: uuid
  v_deployment_id :: uuid
  v_reviewer_user_id :: "uuid option"
  v_status :: review_status
  v_reason :: "string option"
  v_requested_at :: time
  v_reviewed_at :: "time option"
  v_created_at :: time

record deployment_artifact =
  a_id :: uuid
  a_deployment_id :: uuid
  a_kind :: artifact_kind
  a_storage_path :: string
  a_checksum_sha256 :: "string option"
  a_size_bytes :: "int option"
  a_manifest :: json
  a_deleted_at :: "time option"
  a_created_at :: time

record node =
  n_id :: uuid
  n_name :: string
  n_region :: string
  n_token_hash :: string
  n_status :: node_status
  n_build_enabled :: bool
  n_serve_enabled :: bool
  n_build_concurrency :: int
  n_base_url :: "ustr option"
  n_work_root :: "string option"
  n_capacity_cpu_millicores :: int
  n_capacity_memory_mb :: int
  n_capacity_disk_mb :: int
  n_max_deployments :: int
  n_metadata :: json
  n_last_heartbeat_at :: "time option"
  n_desired_config :: "json option"
  n_desired_config_revision :: int
  n_effective_config :: "json option"
  n_effective_config_revision :: int
  n_config_sync_status :: config_sync_status
  n_config_sync_error :: "string option"
  n_node_token_configured :: bool
  n_config_updated_at :: "time option"
  n_config_applied_at :: "time option"
  n_deleted_at :: "time option"
  n_created_at :: time
  n_updated_at :: time

record node_deletion_job =
  j_id :: uuid
  j_node_id :: uuid
  j_target_node_id :: "uuid option"
  j_requested_by_user_id :: "uuid option"
  j_status :: node_deletion_status
  j_total_deployments :: int
  j_migrated_deployments :: int
  j_active_builds :: int
  j_error :: "string option"
  j_created_at :: time
  j_updated_at :: time
  j_completed_at :: "time option"

record migration =
  m_id :: uuid
  m_job_id :: uuid
  m_deployment_id :: uuid
  m_source_node_id :: uuid
  m_target_node_id :: uuid
  m_status :: migration_status
  m_error :: "string option"
  m_created_at :: time
  m_updated_at :: time
  m_ready_at :: "time option"

record audit_event =
  u_id :: uuid
  u_actor_user_id :: "uuid option"
  u_actor_node_id :: "uuid option"
  u_team_id :: "uuid option"
  u_actor_type :: audit_actor_type
  u_visibility :: audit_visibility
  u_action :: string
  u_target_type :: string
  u_target_id :: "uuid option"
  u_result :: audit_result
  u_reason :: "string option"
  u_metadata :: json
  u_request_id :: "uuid option"
  u_source_ip :: "string option"
  u_user_agent :: "string option"
  u_http_method :: "string option"
  u_request_path :: "string option"
  u_status_code :: "int option"
  u_duration_ms :: "int option"
  u_changes :: json
  u_created_at :: time

record team =
  t_id :: uuid
  t_slug :: string
  t_name :: string
  t_avatar_version :: "uuid option"
  t_kind :: team_kind
  t_group_id :: "uuid option"
  t_explicit_quota_plan_id :: "uuid option"
  t_owner_user_id :: "uuid option"
  t_deleted_at :: "time option"
  t_created_at :: time
  t_updated_at :: time

record team_group =
  g_id :: uuid
  g_code :: string
  g_name :: string
  g_description :: "string option"
  g_quota_plan_id :: "uuid option"
  g_review_policy :: "json option"
  g_is_default :: bool
  g_deleted_at :: "time option"
  g_created_at :: time
  g_updated_at :: time

record system_setting =
  s_id :: uuid
  s_key :: string
  s_value_kind :: setting_value_kind
  s_value :: json
  s_is_secret :: bool
  s_created_at :: time
  s_updated_at :: time

record project =
  p_id :: uuid
  p_team_id :: uuid
  p_created_by_user_id :: "uuid option"
  p_slug :: string
  p_name :: string
  p_runtime :: project_runtime
  p_repository_url :: "string option"
  p_default_branch :: "string option"
  p_install_command :: "string option"
  p_build_command :: "string option"
  p_output_directory :: "string option"
  p_source_config :: json
  p_build_config :: json
  p_archived_at :: "time option"
  p_deleted_at :: "time option"
  p_created_at :: time
  p_updated_at :: time

record team_member =
  tm_id :: uuid
  tm_team_id :: uuid
  tm_user_id :: uuid
  tm_role :: team_member_role
  tm_invited_by_user_id :: "uuid option"
  tm_joined_at :: time
  tm_deleted_at :: "time option"
  tm_created_at :: time
  tm_updated_at :: time

datatype source_credential_kind = CredHttps | CredSsh

record source_credential =
  sc_id :: uuid
  sc_team_id :: uuid
  sc_name :: string
  sc_kind :: source_credential_kind
  sc_host :: ustr
  sc_port :: int
  sc_username :: "ustr option"
  sc_current_version_id :: "uuid option"
  sc_revoked_at :: "time option"
  sc_created_by_user_id :: "uuid option"
  sc_created_at :: time
  sc_updated_at :: time

record source_credential_version =
  cv_id :: uuid
  cv_credential_id :: uuid
  cv_version :: int
  cv_key_id :: string
  cv_encrypted_payload :: json
  cv_revoked_at :: "time option"
  cv_created_by_user_id :: "uuid option"
  cv_created_at :: time

record source_credential_lease =
  cl_id :: uuid
  cl_token_hash :: string
  cl_node_id :: uuid
  cl_deployment_id :: uuid
  cl_credential_version_id :: uuid
  cl_expires_at :: time
  cl_consumed_at :: "time option"
  cl_created_at :: time

record project_source_credential =
  pc_project_id :: uuid
  pc_credential_id :: uuid
  pc_team_id :: uuid
  pc_bound_by_user_id :: "uuid option"
  pc_created_at :: time
  pc_updated_at :: time

datatype user_status = UserActive | UserDisabled

datatype platform_role = PlatformUser | PlatformAdministrator

record user =
  us_id :: uuid
  us_email :: string
  us_display_name :: "string option"
  us_avatar_version :: "uuid option"
  us_status :: user_status
  us_auth_version :: int
  us_platform_role :: platform_role
  us_email_verified_at :: "time option"
  us_last_login_at :: "time option"
  us_deleted_at :: "time option"
  us_created_at :: time
  us_updated_at :: time

record team_invitation =
  ti_id :: uuid
  ti_team_id :: uuid
  ti_email :: string
  ti_role :: team_member_role
  ti_status :: invitation_status
  ti_invited_by_user_id :: "uuid option"
  ti_token_hash :: "string option"
  ti_expires_at :: time
  ti_accepted_at :: "time option"
  ti_created_at :: time
  ti_updated_at :: time

record code_row =
  co_id :: uuid
  co_scope :: string
  co_token_hash :: string
  co_token_prefix :: string
  co_token_suffix :: string
  co_expires_at :: "time option"
  co_used_at :: "time option"
  co_used_by_user_id :: "uuid option"
  co_revoked_at :: "time option"
  co_created_by_user_id :: "uuid option"
  co_created_at :: time

record allowlist_entry =
  al_id :: uuid
  al_email :: string
  al_created_by_user_id :: "uuid option"
  al_created_at :: time

record password_credential =
  pw_id :: uuid
  pw_user_id :: uuid
  pw_password_hash :: string
  pw_must_change_password :: bool
  pw_created_at :: time
  pw_updated_at :: time

record password_history =
  ph_id :: uuid
  ph_user_id :: uuid
  ph_password_hash :: string
  ph_created_at :: time

record auth_token =
  at_id :: uuid
  at_user_id :: uuid
  at_kind :: auth_token_kind
  at_token_hash :: string
  at_expires_at :: time
  at_used_at :: "time option"
  at_created_at :: time

record mfa_factor =
  mf_id :: uuid
  mf_user_id :: uuid
  mf_kind :: mfa_factor_kind
  mf_label :: "string option"
  mf_secret_envelope :: "json option"
  mf_verified_at :: "time option"
  mf_last_used_at :: "time option"
  mf_created_at :: time
  mf_updated_at :: time

record user_mfa_row =
  um_user_id :: uuid
  um_inherit_platform :: bool
  um_minimum_factors :: int
  um_required_factors :: json
  um_created_at :: time
  um_updated_at :: time

record user_notification =
  nf_id :: uuid
  nf_recipient_user_id :: uuid
  nf_actor_user_id :: "uuid option"
  nf_team_id :: "uuid option"
  nf_project_id :: "uuid option"
  nf_announcement_id :: "uuid option"
  nf_action :: string
  nf_project_name :: "string option"
  nf_project_slug :: "string option"
  nf_actor_label :: string
  nf_title :: "string option"
  nf_content :: "string option"
  nf_reason :: "string option"
  nf_target_url :: string
  nf_read_at :: "time option"
  nf_created_at :: time

record host_binding =
  h_id :: uuid
  h_project_id :: uuid
  h_team_id :: uuid
  h_host_source_id :: "uuid option"
  h_host :: string
  h_region :: string
  h_kind :: host_binding_kind
  h_environment :: host_binding_environment
  h_status :: host_binding_status
  h_failure_reason :: "string option"
  h_is_primary :: bool
  h_review_status :: host_review_status
  h_reviewed_by_user_id :: "uuid option"
  h_reviewed_at :: "time option"
  h_review_reason :: "string option"
  h_ownership_status :: string
  h_ownership_checked_at :: "time option"
  h_ownership_error :: "string option"
  h_deleted_at :: "time option"
  h_created_at :: time
  h_updated_at :: time

record host_source =
  hs_id :: uuid
  hs_kind :: host_source_kind
  hs_label :: string
  hs_base_domain :: string
  hs_region :: string
  hs_enabled :: bool
  hs_allows_auto_assign :: bool
  hs_is_default :: bool
  hs_provider :: "string option"
  hs_config :: json
  hs_deleted_at :: "time option"
  hs_created_at :: time
  hs_updated_at :: time

record host_provision_event =
  he_id :: uuid
  he_host_binding_id :: uuid
  he_host_source_id :: "uuid option"
  he_status :: provision_event_status
  he_operation :: string
  he_provider_request_id :: "string option"
  he_error_code :: "string option"
  he_error_message :: "string option"
  he_metadata :: json
  he_created_at :: time

record quota_plan =
  q_id :: uuid
  q_code :: string
  q_name :: string
  q_description :: "string option"
  q_is_default :: bool
  q_enabled :: bool
  q_created_at :: time
  q_updated_at :: time

record quota_limit =
  l_id :: uuid
  l_quota_plan_id :: uuid
  l_dimension :: string
  l_limit_value :: int
  l_period :: quota_period
  l_created_at :: time
  l_updated_at :: time

record quota_event =
  k_id :: uuid
  k_team_id :: uuid
  k_dimension :: string
  k_kind :: quota_event_kind
  k_delta_value :: int
  k_idempotency_key :: "idem_key option"
  k_resource_type :: "string option"
  k_resource_id :: "uuid option"
  k_metadata :: json
  k_created_at :: time

record usage_counter =
  c_id :: uuid
  c_team_id :: uuid
  c_dimension :: string
  c_used_value :: int
  c_period_start :: "time option"
  c_period_end :: "time option"
  c_updated_at :: time

record ssr_lease =
  x_id :: uuid
  x_deployment_id :: uuid
  x_team_id :: uuid
  x_node_id :: uuid
  x_started_at :: time
  x_renewed_at :: time
  x_expires_at :: time
  x_hour_block_start :: time
  x_released_at :: "time option"

section \<open>The state\<close>

text \<open>
  What \<open>url::Url::parse\<close> (a crate the code uses) says of a text that is a URL: the parser is a
  parameter of the model, held in the state.
\<close>

record url_parts =
  url_scheme :: string
  url_username :: string
  url_password :: "string option"
  url_query_keys :: "string list"

record world =
  deployments :: "deployment list"
  events :: "deployment_event list"
  releases :: "release list"
  reviews :: "deployment_review list"
  artifacts :: "deployment_artifact list"
  nodes :: "node list"
  jobs :: "node_deletion_job list"
  migrations :: "migration list"
  audit_log :: "audit_event list"
  committed_audits :: "audit_event list"
  teams :: "team list"
  team_groups :: "team_group list"
  settings :: "system_setting list"
  projects :: "project list"
  team_members :: "team_member list"
  users :: "user list"
  notifications :: "user_notification list"
  host_bindings :: "host_binding list"
  quota_plans :: "quota_plan list"
  quota_limits :: "quota_limit list"
  quota_events :: "quota_event list"
  usage_counters :: "usage_counter list"
  leases :: "ssr_lease list"
  source_credentials :: "source_credential list"
  credential_versions :: "source_credential_version list"
  credential_leases :: "source_credential_lease list"
  project_credentials :: "project_source_credential list"
  invitations :: "team_invitation list"
  codes :: "code_row list"
  email_allowlist :: "allowlist_entry list"
  password_credentials :: "password_credential list"
  password_histories :: "password_history list"
  auth_tokens :: "auth_token list"
  mfa_factors :: "mfa_factor list"
  user_mfa_rows :: "user_mfa_row list"
  host_sources :: "host_source list"
  provision_events :: "host_provision_event list"
  clock :: "nat \<Rightarrow> time"
  clock_pos :: nat
  uuids :: "nat \<Rightarrow> uuid"
  uuid_pos :: nat
  dice :: "nat \<Rightarrow> nat"
  dice_pos :: nat
  sql_now :: time
  request_id :: "uuid option"
  url_parse :: "string \<Rightarrow> url_parts option"

type_synonym ('e, 'a) dbm = "(world, 'e, 'a) oper"

definition now_utc :: "('e, time) dbm" where
  "now_utc w = (Inr (clock w (clock_pos w)), w\<lparr>clock_pos := Suc (clock_pos w)\<rparr>)"

definition now_v7 :: "('e, uuid) dbm" where
  "now_v7 w = (Inr (uuids w (uuid_pos w)), w\<lparr>uuid_pos := Suc (uuid_pos w)\<rparr>)"

text \<open>
  A transaction: \<open>NOW()\<close> is fixed at its start, and an error leaves the tables as they were
  (the transaction is dropped without a commit). The clock and the supply of identifiers go on.
  On commit the audit events written since the start reach the log of committed events
  (\<open>AuditTransaction::commit\<close>).
\<close>

definition rollback_to :: "world \<Rightarrow> world \<Rightarrow> world" where
  "rollback_to w v = w\<lparr>clock_pos := clock_pos v, uuid_pos := uuid_pos v, dice_pos := dice_pos v\<rparr>"

definition begin_tx :: "world \<Rightarrow> world" where
  "begin_tx w = w\<lparr>sql_now := clock w (clock_pos w), clock_pos := Suc (clock_pos w)\<rparr>"

definition commit_audits :: "world \<Rightarrow> world \<Rightarrow> world" where
  "commit_audits w v =
     v\<lparr>committed_audits := committed_audits v @ drop (length (audit_log w)) (audit_log v)\<rparr>"

definition transaction :: "('e, 'a) dbm \<Rightarrow> ('e, 'a) dbm" where
  "transaction m w =
     (case m (begin_tx w) of
        (Inl e, v) \<Rightarrow> (Inl e, rollback_to w v)
      | (Inr a, v) \<Rightarrow> (Inr a, commit_audits w v))"

lemma transaction_Inr:
  "transaction m w = (Inr a, w') \<longleftrightarrow>
   (\<exists>v. m (begin_tx w) = (Inr a, v) \<and> w' = commit_audits w v)"
  by (auto simp: transaction_def split: prod.splits sum.splits)

lemma transaction_Inl:
  "transaction m w = (Inl e, w') \<longleftrightarrow>
   (\<exists>v. m (begin_tx w) = (Inl e, v) \<and> w' = rollback_to w v)"
  by (auto simp: transaction_def split: prod.splits sum.splits)


section \<open>Schema constraints\<close>

text \<open>
  The primary keys, the partial unique indexes and the check constraints that the statements
  below can violate. Foreign keys are not modelled: the operations insert references to rows
  they have just read.
\<close>

definition is_active :: "deployment \<Rightarrow> bool" where
  "is_active d \<longleftrightarrow> d_release_status d = RActive \<and> d_deleted_at d = None"

definition is_pending :: "deployment \<Rightarrow> bool" where
  "is_pending d \<longleftrightarrow> d_pending_release_reason d \<noteq> None \<and> d_deleted_at d = None"

definition env_key :: "deployment \<Rightarrow> uuid \<times> deployment_environment" where
  "env_key d = (d_project_id d, d_environment d)"

definition one_active_index :: "deployment list \<Rightarrow> bool" where
  "one_active_index rows \<longleftrightarrow> distinct (map env_key (filter is_active rows))"

definition one_pending_index :: "deployment list \<Rightarrow> bool" where
  "one_pending_index rows \<longleftrightarrow> distinct (map env_key (filter is_pending rows))"

definition deployment_checks :: "deployment \<Rightarrow> bool" where
  "deployment_checks d \<longleftrightarrow>
     d_pending_release_reason d \<noteq> Some ReasonAuto \<and>
     (d_pending_release_reason d = None \<or> d_pending_release_requested_at d \<noteq> None) \<and>
     0 < d_serve_cpu_millicores d \<and> 0 < d_serve_memory_mb d \<and> 0 < d_serve_disk_mb d"

definition deployments_con :: "deployment list \<Rightarrow> dberr option" where
  "deployments_con rows =
     (if \<not> distinct (map d_id rows) then Some (UniqueViolation ''deployments_pkey'')
      else if \<not> one_active_index rows
        then Some (UniqueViolation ''ux_deployments_one_active_per_project_environment'')
      else if \<not> one_pending_index rows
        then Some (UniqueViolation ''ux_deployments_one_pending_release_per_environment'')
      else if \<not> list_all deployment_checks rows then Some (CheckViolation ''deployments'')
      else None)"

definition nodes_con :: "node list \<Rightarrow> dberr option" where
  "nodes_con rows =
     (if \<not> distinct (map n_id rows) then Some (UniqueViolation ''nodes_pkey'')
      else if \<not> distinct (map n_name (filter (\<lambda>n. n_deleted_at n = None) rows))
        then Some (UniqueViolation ''ux_nodes_name'')
      else if \<not> list_all (\<lambda>n. 0 \<le> n_capacity_cpu_millicores n \<and> 0 \<le> n_capacity_memory_mb n \<and>
            0 \<le> n_capacity_disk_mb n \<and> 0 < n_max_deployments n) rows
        then Some (CheckViolation ''nodes'')
      else None)"

definition job_checks :: "node_deletion_job \<Rightarrow> bool" where
  "job_checks j \<longleftrightarrow>
     j_target_node_id j \<noteq> Some (j_node_id j) \<and>
     0 \<le> j_total_deployments j \<and> 0 \<le> j_migrated_deployments j \<and> 0 \<le> j_active_builds j \<and>
     j_migrated_deployments j \<le> j_total_deployments j \<and>
     (j_status j = JCompleted) = (j_completed_at j \<noteq> None)"

definition jobs_con :: "node_deletion_job list \<Rightarrow> dberr option" where
  "jobs_con rows =
     (if \<not> distinct (map j_id rows) then Some (UniqueViolation ''node_deletion_jobs_pkey'')
      else if \<not> distinct (map j_node_id (filter (\<lambda>j. j_status j \<noteq> JCompleted) rows))
        then Some (UniqueViolation ''ux_node_deletion_jobs_active_node'')
      else if \<not> list_all job_checks rows then Some (CheckViolation ''node_deletion_jobs'')
      else None)"

definition migration_checks :: "migration \<Rightarrow> bool" where
  "migration_checks m \<longleftrightarrow>
     m_source_node_id m \<noteq> m_target_node_id m \<and> (m_status m = MReady) = (m_ready_at m \<noteq> None)"

definition migrations_con :: "migration list \<Rightarrow> dberr option" where
  "migrations_con rows =
     (if \<not> distinct (map m_id rows) then Some (UniqueViolation ''node_deployment_migrations_pkey'')
      else if \<not> distinct (map (\<lambda>m. (m_job_id m, m_deployment_id m)) rows)
        then Some (UniqueViolation ''ux_node_deployment_migrations_job_deployment'')
      else if \<not> list_all migration_checks rows
        then Some (CheckViolation ''node_deployment_migrations'')
      else None)"

definition reviews_con :: "deployment_review list \<Rightarrow> dberr option" where
  "reviews_con rows =
     (if distinct (map v_id rows) then None else Some (UniqueViolation ''deployment_reviews_pkey''))"

definition notifications_con :: "user_notification list \<Rightarrow> dberr option" where
  "notifications_con rows =
     (if distinct (map nf_id rows) then None else Some (UniqueViolation ''user_notifications_pkey''))"

definition quota_events_con :: "quota_event list \<Rightarrow> dberr option" where
  "quota_events_con rows =
     (if \<not> distinct (map k_id rows) then Some (UniqueViolation ''quota_events_pkey'')
      else if \<not> distinct (List.map_filter k_idempotency_key rows)
        then Some (UniqueViolation ''ux_quota_events_idempotency_key'')
      else None)"

definition leases_con :: "ssr_lease list \<Rightarrow> dberr option" where
  "leases_con rows =
     (if \<not> distinct (map x_id rows) then Some (UniqueViolation ''ssr_process_leases_pkey'')
      else if \<not> distinct (map (\<lambda>x. (x_deployment_id x, x_node_id x))
            (filter (\<lambda>x. x_released_at x = None) rows))
        then Some (UniqueViolation ''uq_ssr_process_leases_active_deployment_node'')
      else None)"

definition source_credentials_con :: "source_credential list \<Rightarrow> dberr option" where
  "source_credentials_con rows =
     (if \<not> distinct (map sc_id rows) then Some (UniqueViolation ''source_credentials_pkey'')
      else if \<not> distinct (map (\<lambda>c. (sc_team_id c, sc_name c)) (filter (\<lambda>c. sc_revoked_at c = None) rows))
        then Some (UniqueViolation ''uq_source_credentials_active_name'')
      else if \<not> list_all (\<lambda>c. 1 \<le> sc_port c \<and> sc_port c \<le> 65535) rows
        then Some (CheckViolation ''source_credentials'')
      else None)"

definition credential_versions_con :: "source_credential_version list \<Rightarrow> dberr option" where
  "credential_versions_con rows =
     (if \<not> distinct (map cv_id rows) then Some (UniqueViolation ''source_credential_versions_pkey'')
      else if \<not> distinct (map (\<lambda>v. (cv_credential_id v, cv_version v)) rows)
        then Some (UniqueViolation ''source_credential_versions_credential_id_version_key'')
      else if \<not> list_all (\<lambda>v. 0 < cv_version v) rows
        then Some (CheckViolation ''source_credential_versions'')
      else None)"

definition credential_leases_con :: "source_credential_lease list \<Rightarrow> dberr option" where
  "credential_leases_con rows =
     (if \<not> distinct (map cl_id rows) then Some (UniqueViolation ''source_credential_leases_pkey'')
      else if \<not> distinct (map cl_token_hash rows)
        then Some (UniqueViolation ''source_credential_leases_token_hash_key'')
      else if \<not> distinct (map cl_deployment_id rows)
        then Some (UniqueViolation ''source_credential_leases_deployment_id_key'')
      else if \<not> list_all (\<lambda>l. length (cl_token_hash l) = 64) rows
        then Some (CheckViolation ''source_credential_leases'')
      else None)"

definition project_credentials_con :: "project_source_credential list \<Rightarrow> dberr option" where
  "project_credentials_con rows =
     (if distinct (map pc_project_id rows) then None
      else Some (UniqueViolation ''project_source_credentials_pkey''))"

definition artifacts_con :: "deployment_artifact list \<Rightarrow> dberr option" where
  "artifacts_con rows =
     (if \<not> distinct (map a_id rows) then Some (UniqueViolation ''deployment_artifacts_pkey'')
      else if \<not> distinct (map (\<lambda>a. (a_deployment_id a, a_kind a)) rows)
        then Some (UniqueViolation ''uq_deployment_artifacts_deployment_kind'')
      else None)"

end
