(* ===== verification/Store.thy ===== *)
theory Store
  imports Entities "HOL-Library.Sublist"
begin

text \<open>
  The statements the code runs against each table, as instances of the generic statements of
  the prelude, and the interpretation of \<open>stored_table\<close> for each of them.

  A \<open>BEFORE UPDATE\<close> trigger of the schema (\<open>migration/m20260525_000002_lifecycle.rs\<close>) writes
  \<open>NOW()\<close> to \<open>updated_at\<close> of deployments, nodes, quota plans, limits and counters;
  \<open>node_deletion_jobs\<close>, \<open>node_deployment_migrations\<close> and \<open>ssr_process_leases\<close> have no trigger.
\<close>

text \<open>\<open>anyhow::Error\<close>: a database error or a message.\<close>

datatype anyhow = AnyDb dberr | AnyMsg string

section \<open>Deployments\<close>

definition touch_deployment :: "time \<Rightarrow> deployment \<Rightarrow> deployment" where
  "touch_deployment now d = d\<lparr>d_updated_at := now\<rparr>"

definition put_deployments :: "deployment list \<Rightarrow> world \<Rightarrow> world" where
  "put_deployments rows w = w\<lparr>deployments := rows\<rparr>"

definition update_deployment ::
  "uuid \<Rightarrow> (deployment \<Rightarrow> deployment) \<Rightarrow> (dberr, deployment) dbm" where
  "update_deployment i f w =
     exec_update deployments_con d_id deployments put_deployments i
       (\<lambda>d. touch_deployment (sql_now w) (f d)) w"

definition insert_deployment :: "deployment \<Rightarrow> (dberr, deployment) dbm" where
  "insert_deployment = exec_insert deployments_con deployments put_deployments"

definition update_deployments_where ::
  "(deployment \<Rightarrow> bool) \<Rightarrow> (deployment \<Rightarrow> deployment) \<Rightarrow> (dberr, nat) dbm" where
  "update_deployments_where p f w =
     exec_update_many deployments_con deployments put_deployments p
       (\<lambda>d. touch_deployment (sql_now w) (f d)) w"

lemma deployments_con_None:
  "deployments_con rows = None \<longleftrightarrow>
   distinct (map d_id rows) \<and> one_active_index rows \<and> one_pending_index rows \<and>
   list_all deployment_checks rows"
  by (simp add: deployments_con_def)

lemma deployments_put [simp]: "deployments (put_deployments rows w) = rows"
  by (simp add: put_deployments_def)

interpretation dep: stored_table d_id deployments_con deployments put_deployments
  by unfold_locales (simp_all add: deployments_con_None)

lemma touch_deployment_fields [simp]:
  "d_id (touch_deployment now d) = d_id d"
  "d_project_id (touch_deployment now d) = d_project_id d"
  "d_team_id (touch_deployment now d) = d_team_id d"
  "d_region (touch_deployment now d) = d_region d"
  "d_build_node_id (touch_deployment now d) = d_build_node_id d"
  "d_serve_node_id (touch_deployment now d) = d_serve_node_id d"
  "d_environment (touch_deployment now d) = d_environment d"
  "d_runtime_kind (touch_deployment now d) = d_runtime_kind d"
  "d_build_status (touch_deployment now d) = d_build_status d"
  "d_serve_status (touch_deployment now d) = d_serve_status d"
  "d_release_status (touch_deployment now d) = d_release_status d"
  "d_serve_cpu_millicores (touch_deployment now d) = d_serve_cpu_millicores d"
  "d_serve_memory_mb (touch_deployment now d) = d_serve_memory_mb d"
  "d_serve_disk_mb (touch_deployment now d) = d_serve_disk_mb d"
  "d_overcommitted (touch_deployment now d) = d_overcommitted d"
  "d_pending_release_reason (touch_deployment now d) = d_pending_release_reason d"
  "d_pending_release_actor_user_id (touch_deployment now d) = d_pending_release_actor_user_id d"
  "d_pending_release_requested_at (touch_deployment now d) = d_pending_release_requested_at d"
  "d_deleted_at (touch_deployment now d) = d_deleted_at d"
  "d_created_at (touch_deployment now d) = d_created_at d"
  by (simp_all add: touch_deployment_def)

lemma update_deployment_Inr:
  "update_deployment i f w = (Inr q, v) \<longleftrightarrow>
   (\<exists>d. find_row d_id i (deployments w) = Some d \<and> q = touch_deployment (sql_now w) (f d) \<and>
      deployments_con (update_where (\<lambda>x. d_id x = i)
        (\<lambda>x. touch_deployment (sql_now w) (f x)) (deployments w)) = None \<and>
      v = put_deployments (update_where (\<lambda>x. d_id x = i)
        (\<lambda>x. touch_deployment (sql_now w) (f x)) (deployments w)) w)"
  by (simp add: update_deployment_def dep.update_Inr)

lemma update_deployment_run:
  assumes "find_row d_id i (deployments w) = Some d"
    and "deployments_con (update_where (\<lambda>x. d_id x = i)
        (\<lambda>x. touch_deployment (sql_now w) (f x)) (deployments w)) = None"
  shows "update_deployment i f w = (Inr (touch_deployment (sql_now w) (f d)),
    put_deployments (update_where (\<lambda>x. d_id x = i)
        (\<lambda>x. touch_deployment (sql_now w) (f x)) (deployments w)) w)"
  using dep.update_run[OF assms] by (simp add: update_deployment_def)

section \<open>Nodes\<close>

definition put_nodes :: "node list \<Rightarrow> world \<Rightarrow> world" where
  "put_nodes rows w = w\<lparr>nodes := rows\<rparr>"

definition update_node :: "uuid \<Rightarrow> (node \<Rightarrow> node) \<Rightarrow> (dberr, node) dbm" where
  "update_node i f w =
     exec_update nodes_con n_id nodes put_nodes i (\<lambda>n. (f n)\<lparr>n_updated_at := sql_now w\<rparr>) w"

lemma nodes_put [simp]: "nodes (put_nodes rows w) = rows"
  by (simp add: put_nodes_def)

interpretation nod: stored_table n_id nodes_con nodes put_nodes
  by unfold_locales (simp_all add: nodes_con_def split: if_splits)

section \<open>Node deletion jobs and shadow migrations\<close>

definition put_jobs :: "node_deletion_job list \<Rightarrow> world \<Rightarrow> world" where
  "put_jobs rows w = w\<lparr>jobs := rows\<rparr>"

definition update_job ::
  "uuid \<Rightarrow> (node_deletion_job \<Rightarrow> node_deletion_job) \<Rightarrow> (dberr, node_deletion_job) dbm" where
  "update_job = exec_update jobs_con j_id jobs put_jobs"

definition insert_job :: "node_deletion_job \<Rightarrow> (dberr, node_deletion_job) dbm" where
  "insert_job = exec_insert jobs_con jobs put_jobs"

lemma jobs_put [simp]: "jobs (put_jobs rows w) = rows"
  by (simp add: put_jobs_def)

lemma jobs_con_None:
  "jobs_con rows = None \<longleftrightarrow> distinct (map j_id rows) \<and>
   distinct (map j_node_id (filter (\<lambda>j. j_status j \<noteq> JCompleted) rows)) \<and> list_all job_checks rows"
  by (simp add: jobs_con_def)

interpretation job: stored_table j_id jobs_con jobs put_jobs
  by unfold_locales (simp_all add: jobs_con_None)

definition put_migrations :: "migration list \<Rightarrow> world \<Rightarrow> world" where
  "put_migrations rows w = w\<lparr>migrations := rows\<rparr>"

definition update_migration :: "uuid \<Rightarrow> (migration \<Rightarrow> migration) \<Rightarrow> (dberr, migration) dbm" where
  "update_migration = exec_update migrations_con m_id migrations put_migrations"

definition insert_migration :: "migration \<Rightarrow> (dberr, migration) dbm" where
  "insert_migration = exec_insert migrations_con migrations put_migrations"

definition update_migrations_where ::
  "(migration \<Rightarrow> bool) \<Rightarrow> (migration \<Rightarrow> migration) \<Rightarrow> (dberr, nat) dbm" where
  "update_migrations_where = exec_update_many migrations_con migrations put_migrations"

definition delete_migrations_where :: "(migration \<Rightarrow> bool) \<Rightarrow> (dberr, nat) dbm" where
  "delete_migrations_where p w =
     (Inr (length (filter p (migrations w))),
      w\<lparr>migrations := filter (\<lambda>m. \<not> p m) (migrations w)\<rparr>)"

lemma migrations_put [simp]: "migrations (put_migrations rows w) = rows"
  by (simp add: put_migrations_def)

lemma migrations_con_None:
  "migrations_con rows = None \<longleftrightarrow> distinct (map m_id rows) \<and>
   distinct (map (\<lambda>m. (m_job_id m, m_deployment_id m)) rows) \<and> list_all migration_checks rows"
  by (simp add: migrations_con_def)

interpretation mig: stored_table m_id migrations_con migrations put_migrations
  by unfold_locales (simp_all add: migrations_con_None)

section \<open>Reviews, quota events and leases\<close>

definition put_reviews :: "deployment_review list \<Rightarrow> world \<Rightarrow> world" where
  "put_reviews rows w = w\<lparr>reviews := rows\<rparr>"

definition update_review ::
  "uuid \<Rightarrow> (deployment_review \<Rightarrow> deployment_review) \<Rightarrow> (dberr, deployment_review) dbm" where
  "update_review = exec_update reviews_con v_id reviews put_reviews"

definition insert_review :: "deployment_review \<Rightarrow> (dberr, deployment_review) dbm" where
  "insert_review = exec_insert reviews_con reviews put_reviews"

lemma reviews_put [simp]: "reviews (put_reviews rows w) = rows"
  by (simp add: put_reviews_def)

interpretation rev: stored_table v_id reviews_con reviews put_reviews
  by unfold_locales (simp_all add: reviews_con_def split: if_splits)

definition put_quota_events :: "quota_event list \<Rightarrow> world \<Rightarrow> world" where
  "put_quota_events rows w = w\<lparr>quota_events := rows\<rparr>"

definition insert_quota_event :: "quota_event \<Rightarrow> (dberr, quota_event) dbm" where
  "insert_quota_event = exec_insert quota_events_con quota_events put_quota_events"

lemma quota_events_put [simp]: "quota_events (put_quota_events rows w) = rows"
  by (simp add: put_quota_events_def)

interpretation qev: stored_table k_id quota_events_con quota_events put_quota_events
  by unfold_locales (simp_all add: quota_events_con_def split: if_splits)

definition put_leases :: "ssr_lease list \<Rightarrow> world \<Rightarrow> world" where
  "put_leases rows w = w\<lparr>leases := rows\<rparr>"

definition update_lease :: "uuid \<Rightarrow> (ssr_lease \<Rightarrow> ssr_lease) \<Rightarrow> (dberr, ssr_lease) dbm" where
  "update_lease = exec_update leases_con x_id leases put_leases"

definition insert_lease :: "ssr_lease \<Rightarrow> (dberr, ssr_lease) dbm" where
  "insert_lease = exec_insert leases_con leases put_leases"

lemma leases_put [simp]: "leases (put_leases rows w) = rows"
  by (simp add: put_leases_def)

lemma leases_con_None:
  "leases_con rows = None \<longleftrightarrow> distinct (map x_id rows) \<and>
   distinct (map (\<lambda>x. (x_deployment_id x, x_node_id x)) (filter (\<lambda>x. x_released_at x = None) rows))"
  by (simp add: leases_con_def)

interpretation lea: stored_table x_id leases_con leases put_leases
  by unfold_locales (simp_all add: leases_con_None)

section \<open>Append-only logs\<close>

definition insert_event :: "deployment_event \<Rightarrow> (dberr, deployment_event) dbm" where
  "insert_event e w = (Inr e, w\<lparr>events := events w @ [e]\<rparr>)"

definition insert_release :: "release \<Rightarrow> (dberr, release) dbm" where
  "insert_release r w = (Inr r, w\<lparr>releases := releases w @ [r]\<rparr>)"

lemmas statement_defs =
  insert_event_def insert_release_def update_job_def insert_job_def update_migration_def
  insert_migration_def update_migrations_where_def update_review_def insert_review_def
  insert_quota_event_def update_lease_def insert_lease_def insert_deployment_def

lemmas statement_Inr =
  update_deployment_Inr dep.update_many_Inr dep.insert_Inr nod.update_Inr job.update_Inr
  job.insert_Inr mig.update_Inr mig.insert_Inr mig.update_many_Inr rev.update_Inr rev.insert_Inr
  qev.insert_Inr lea.update_Inr lea.insert_Inr

section \<open>What every delivery operation leaves behind\<close>

text \<open>
  \<open>extends w v\<close>: from \<open>w\<close> to \<open>v\<close> the logs only grew, no deployment row disappeared or changed its
  identity columns, the schema constraints on deployments still hold if they held, and no table
  other than deployments, events, releases, reviews and the audit log changed.
\<close>

definition outside :: "world \<Rightarrow> world" where
  "outside w = w\<lparr>deployments := [], events := [], releases := [], reviews := [], audit_log := [],
     clock_pos := 0, uuid_pos := 0, dice_pos := 0\<rparr>"

definition identity_of ::
  "deployment \<Rightarrow> uuid \<times> uuid \<times> uuid \<times> deployment_environment \<times> project_runtime \<times> time" where
  "identity_of d =
     (d_id d, d_project_id d, d_team_id d, d_environment d, d_runtime_kind d, d_created_at d)"

definition extends :: "world \<Rightarrow> world \<Rightarrow> bool" where
  "extends w v \<longleftrightarrow>
     outside v = outside w \<and>
     prefix (events w) (events v) \<and> prefix (releases w) (releases v) \<and>
     prefix (audit_log w) (audit_log v) \<and>
     prefix (map identity_of (deployments w)) (map identity_of (deployments v)) \<and>
     (deployments_con (deployments w) = None \<longrightarrow> deployments_con (deployments v) = None)"

interpretation ext: run_relation extends
  by unfold_locales (auto simp: extends_def intro: prefix_order.trans)

lemma outside_eqD:
  assumes "outside v = outside w"
  shows "nodes v = nodes w" "jobs v = jobs w" "migrations v = migrations w" "teams v = teams w"
    "team_groups v = team_groups w" "settings v = settings w" "projects v = projects w"
    "artifacts v = artifacts w" "leases v = leases w" "quota_events v = quota_events w"
    "usage_counters v = usage_counters w" "committed_audits v = committed_audits w"
    "sql_now v = sql_now w" "clock v = clock w" "uuids v = uuids w" "dice v = dice w"
    "request_id v = request_id w" "url_parse v = url_parse w"
    "team_members v = team_members w" "users v = users w" "notifications v = notifications w"
  using assms[THEN arg_cong, of nodes] assms[THEN arg_cong, of jobs]
    assms[THEN arg_cong, of migrations] assms[THEN arg_cong, of teams]
    assms[THEN arg_cong, of team_groups] assms[THEN arg_cong, of settings]
    assms[THEN arg_cong, of projects] assms[THEN arg_cong, of artifacts]
    assms[THEN arg_cong, of leases] assms[THEN arg_cong, of quota_events]
    assms[THEN arg_cong, of usage_counters] assms[THEN arg_cong, of committed_audits]
    assms[THEN arg_cong, of sql_now] assms[THEN arg_cong, of clock]
    assms[THEN arg_cong, of uuids] assms[THEN arg_cong, of dice]
    assms[THEN arg_cong, of request_id] assms[THEN arg_cong, of url_parse]
    assms[THEN arg_cong, of team_members] assms[THEN arg_cong, of users]
    assms[THEN arg_cong, of notifications]
  by (simp_all add: outside_def)

lemma outside_put [simp]: "outside (put_deployments rows w) = outside w"
  by (simp add: outside_def put_deployments_def)

lemma extends_put:
  assumes "map identity_of rows = map identity_of (deployments w)" and "deployments_con rows = None"
  shows "extends w (put_deployments rows w)"
  using assms by (simp add: extends_def put_deployments_def outside_def)

lemma update_deployment_ok:
  assumes "\<And>d. identity_of (f d) = identity_of d"
  shows "runs extends (update_deployment i f)"
proof (rule runsI)
  fix s r t
  assume run: "update_deployment i f s = (r, t)"
  have ident: "identity_of (touch_deployment now (f d)) = identity_of d" for now d
    using assms[of d] by (simp add: identity_of_def)
  show "extends s t"
  proof (cases r)
    case (Inl e)
    with run have "t = s"
      by (auto simp: update_deployment_def exec_update_def Let_def split: option.splits)
    then show ?thesis by (simp add: ext.same)
  next
    case (Inr q)
    with run show ?thesis
      by (auto simp: update_deployment_Inr map_update_where ident intro!: extends_put)
  qed
qed

lemma insert_deployment_ok: "runs extends (insert_deployment d)"
  by (rule runsI)
    (auto simp: insert_deployment_def exec_insert_def Let_def put_deployments_def extends_def
      outside_def split: option.splits)

lemma insert_event_ok: "runs extends (insert_event e)"
  and insert_release_ok: "runs extends (insert_release r)"
  and now_utc_ok: "runs extends now_utc"
  and now_v7_ok: "runs extends now_v7"
  by (auto simp: runs_def insert_event_def insert_release_def now_utc_def now_v7_def extends_def
      outside_def)

lemma reviews_ok:
  "runs extends (insert_review v)"
  "runs extends (update_review i g)"
  by (auto simp: insert_review_def update_review_def exec_insert_def exec_update_def Let_def
      put_reviews_def extends_def outside_def split: option.splits intro!: runsI)

lemmas statement_ok = update_deployment_ok insert_deployment_ok insert_event_ok insert_release_ok
  now_utc_ok now_v7_ok reviews_ok

end
