(* ===== verification/Float64.thy ===== *)
theory Float64
  imports Complex_Main
begin

text \<open>
  The part of IEEE 754 double precision that the scheduler's ratios use: the conversion
  \<open>u64 as f64\<close> and the quotient of two non-negative numbers, both rounded to 53 significant
  bits, ties to even. The arguments stay below \<open>2 ^ 64\<close>, so no result is subnormal and none
  overflows; a value is a non-negative rational or infinity, and \<open>f64::total_cmp\<close> is the order
  of these values.
\<close>

datatype f64 = Fin rat | Infinite

instantiation f64 :: linorder
begin

fun less_eq_f64 :: "f64 \<Rightarrow> f64 \<Rightarrow> bool" where
  "less_eq_f64 (Fin a) (Fin b) = (a \<le> b)"
| "less_eq_f64 _ Infinite = True"
| "less_eq_f64 Infinite (Fin _) = False"

definition less_f64 :: "f64 \<Rightarrow> f64 \<Rightarrow> bool" where
  "less_f64 x y = (x \<le> y \<and> \<not> y \<le> (x :: f64))"

instance
proof
  fix x y z :: f64
  show "x < y \<longleftrightarrow> x \<le> y \<and> \<not> y \<le> x" by (simp add: less_f64_def)
  show "x \<le> x" by (cases x) auto
  show "x \<le> y \<Longrightarrow> y \<le> z \<Longrightarrow> x \<le> z" by (cases x; cases y; cases z) auto
  show "x \<le> y \<Longrightarrow> y \<le> x \<Longrightarrow> x = y" by (cases x; cases y) auto
  show "x \<le> y \<or> y \<le> x" by (cases x; cases y) auto
qed

end

text \<open>The integer nearest to \<open>n / d\<close>, ties to even.\<close>

definition round_even :: "nat \<Rightarrow> nat \<Rightarrow> nat" where
  "round_even n d =
     (let q = n div d; r = n mod d
      in if 2 * r < d \<or> (2 * r = d \<and> even q) then q else Suc q)"

text \<open>The binary scaling that brings \<open>n / d\<close> to 53 bits.\<close>

function up_shift :: "nat \<Rightarrow> nat \<Rightarrow> nat" where
  "up_shift n d = (if n = 0 \<or> 2 ^ 52 * d \<le> n then 0 else Suc (up_shift (2 * n) d))"
  by pat_completeness auto
termination
  by (relation "measure (\<lambda>(n, d). 2 ^ 52 * d - n)") auto

function down_shift :: "nat \<Rightarrow> nat \<Rightarrow> nat" where
  "down_shift n d = (if d = 0 \<or> n < 2 ^ 53 * d then 0 else Suc (down_shift n (2 * d)))"
  by pat_completeness auto
termination
proof (relation "measure (\<lambda>(n, d). Suc n - 2 ^ 53 * d)")
  fix n d :: nat
  assume "\<not> (d = 0 \<or> n < 2 ^ 53 * d)"
  then have "2 ^ 53 * d < 2 ^ 53 * (2 * d)" and "2 ^ 53 * d < Suc n" by auto
  then show "((n, 2 * d), (n, d)) \<in> measure (\<lambda>(n, d). Suc n - 2 ^ 53 * d)"
    unfolding in_measure prod.case by (rule diff_less_mono2)
qed simp

declare up_shift.simps [simp del] down_shift.simps [simp del]

definition f64_of_u64 :: "nat \<Rightarrow> nat" where
  "f64_of_u64 n = (let t = down_shift n 1 in round_even n (2 ^ t) * 2 ^ t)"

definition f64_div :: "nat \<Rightarrow> nat \<Rightarrow> f64" where
  "f64_div n d =
     (let s = up_shift n d; t = down_shift n d
      in Fin (of_nat (round_even (n * 2 ^ s) (d * 2 ^ t) * 2 ^ t) / of_nat (2 ^ s)))"

lemma round_even_le: "0 < d \<Longrightarrow> n \<le> k * d \<Longrightarrow> round_even n d \<le> k"
proof -
  assume d: "0 < d" and n: "n \<le> k * d"
  have q: "n div d \<le> k"
    using d n by (metis div_le_mono nonzero_mult_div_cancel_right not_gr_zero)
  show ?thesis
  proof (cases "n div d = k")
    case True
    then have "n mod d = 0"
      using n by (metis add_diff_cancel_left' diff_is_0_eq div_mult_mod_eq)
    with True d show ?thesis by (simp add: round_even_def)
  next
    case False
    with q show ?thesis by (simp add: round_even_def Let_def)
  qed
qed

lemma round_even_ge: "0 < d \<Longrightarrow> k * d \<le> n \<Longrightarrow> k \<le> round_even n d"
  by (simp add: round_even_def Let_def less_eq_div_iff_mult_less_eq le_Suc_eq)

lemma round_even_gt:
  assumes "0 < d" and "(2 * k + 1) * d < 2 * n"
  shows "Suc k \<le> round_even n d"
proof (cases "Suc k \<le> n div d")
  case True
  then show ?thesis by (simp add: round_even_def Let_def)
next
  case False
  have "k * d \<le> n" using assms(2) by (simp add: algebra_simps)
  then have "k \<le> n div d" using assms(1) by (simp add: less_eq_div_iff_mult_less_eq)
  with False have q: "n div d = k" by simp
  have "n = k * d + n mod d" using q div_mult_mod_eq[of n d] by simp
  then have "d < 2 * (n mod d)" using assms(2) by (simp add: algebra_simps)
  with q show ?thesis by (simp add: round_even_def Let_def)
qed

lemma round_even_one [simp]: "round_even n (Suc 0) = n"
  by (simp add: round_even_def)

lemma up_shift_reaches: "0 < n \<Longrightarrow> 2 ^ 52 * d \<le> n * 2 ^ up_shift n d"
proof (induction n d rule: up_shift.induct)
  case (1 n d)
  show ?case
  proof (cases "2 ^ 52 * d \<le> n")
    case True
    with 1 show ?thesis by (subst up_shift.simps) simp
  next
    case False
    with 1 have "2 ^ 52 * d \<le> 2 * n * 2 ^ up_shift (2 * n) d" by simp
    with False "1.prems" show ?thesis
      by (subst up_shift.simps) (simp add: mult.assoc mult.left_commute)
  qed
qed

lemma up_shift_le: "2 ^ 52 * d \<le> n * 2 ^ k \<Longrightarrow> up_shift n d \<le> k"
proof (induction k arbitrary: n)
  case 0
  then show ?case by (subst up_shift.simps) simp
next
  case (Suc k)
  then have "up_shift (2 * n) d \<le> k" by (simp add: mult.assoc mult.left_commute)
  then show ?case by (subst up_shift.simps) simp
qed

lemma down_shift_small: "n < 2 ^ 53 * d \<Longrightarrow> down_shift n d = 0"
  by (subst down_shift.simps) simp

lemma f64_of_u64_exact: "n < 2 ^ 53 \<Longrightarrow> f64_of_u64 n = n"
  by (simp add: f64_of_u64_def down_shift_small)

text \<open>
  Below \<open>2 ^ 53\<close> the rounded quotient is at most one exactly when the integers are in order:
  rounding never carries a ratio above one down to one, nor one below up past it.
\<close>

lemma f64_div_le_one:
  assumes "0 < b" and "a < 2 ^ 53" and "b < 2 ^ 53"
  shows "f64_div a b \<le> Fin 1 \<longleftrightarrow> a \<le> b"
proof -
  let ?s = "up_shift a b"
  let ?m = "round_even (a * 2 ^ ?s) b"
  have "2 ^ 53 * 1 \<le> 2 ^ 53 * b" using assms(1) by (intro mult_le_mono) auto
  then have t: "down_shift a b = 0"
    using assms(2) by (intro down_shift_small) linarith
  have le: "f64_div a b \<le> Fin 1 \<longleftrightarrow> ?m \<le> 2 ^ ?s"
  proof -
    have "(of_nat ?m / of_nat (2 ^ ?s) \<le> (1 :: rat)) \<longleftrightarrow> (of_nat ?m :: rat) \<le> of_nat (2 ^ ?s)"
      by (simp add: divide_le_eq_1)
    then show ?thesis unfolding of_nat_le_iff by (simp add: f64_div_def t Let_def)
  qed
  show ?thesis
  proof (cases "a \<le> b")
    case True
    then have "a * 2 ^ ?s \<le> 2 ^ ?s * b" by simp
    then have "?m \<le> 2 ^ ?s" by (rule round_even_le[OF assms(1)])
    with True le show ?thesis by simp
  next
    case False
    then have ab: "b < a" by simp
    then have "2 ^ 52 * b \<le> a * 2 ^ 52" by simp
    then have s: "?s \<le> 52" by (rule up_shift_le)
    have "2 ^ ?s < ?m"
    proof (cases "?s = 52")
      case True
      have "(2 * 2 ^ 52 + 1) * b < 2 * (2 ^ 52 * (b + 1))" using assms(3) by simp
      also have "\<dots> \<le> 2 * (a * 2 ^ ?s)" using ab True by simp
      finally have "Suc (2 ^ 52) \<le> ?m" by (rule round_even_gt[OF assms(1)])
      with True show ?thesis by simp
    next
      case False
      with s have "?s < 52" by simp
      then have "(2::nat) ^ ?s < 2 ^ 52" by (intro power_strict_increasing) auto
      also have "2 ^ 52 \<le> ?m"
        using up_shift_reaches[of a b] ab by (intro round_even_ge[OF assms(1)]) simp
      finally show ?thesis .
    qed
    with \<open>\<not> a \<le> b\<close> le show ?thesis by simp
  qed
qed

lemma down_shift_reaches: "0 < d \<Longrightarrow> 2 ^ 52 * d \<le> n \<Longrightarrow> 2 ^ 52 * (d * 2 ^ down_shift n d) \<le> n"
proof (induction n d rule: down_shift.induct)
  case (1 n d)
  show ?case
  proof (cases "n < 2 ^ 53 * d")
    case True
    with 1 show ?thesis by (subst down_shift.simps) simp
  next
    case False
    then have "2 ^ 52 * (2 * d) \<le> n" by simp
    with False 1 have "2 ^ 52 * (2 * d * 2 ^ down_shift n (2 * d)) \<le> n" by simp
    with False "1.prems" show ?thesis
      by (subst down_shift.simps) (simp add: mult.assoc mult.left_commute)
  qed
qed

end
