(* ===== verification/Samples.thy ===== *)
theory Samples
  imports Store
begin

text \<open>
  Small concrete rows and states, on which the properties with hypotheses are applied.
\<close>

definition sample_deployment ::
  "uuid \<Rightarrow> deployment_environment \<Rightarrow> build_status \<Rightarrow> serve_status \<Rightarrow> release_status \<Rightarrow>
   uuid option \<Rightarrow> deployment" where
  "sample_deployment i env build serve release nid =
     \<lparr>d_id = i, d_project_id = 100, d_team_id = 200, d_region = ''eu'',
      d_build_node_id = None, d_serve_node_id = nid, d_environment = env, d_runtime_kind = Static,
      d_build_status = build, d_serve_status = serve, d_release_status = release,
      d_serve_cpu_millicores = 50, d_serve_memory_mb = 64, d_serve_disk_mb = 256,
      d_overcommitted = False, d_source_repository_url = None,
      d_source_credential_version_id = None, d_source_branch = Some ''main'',
      d_commit_hash = None, d_commit_message = None, d_triggered_by_user_id = None,
      d_install_command = None, d_build_command = None, d_output_directory = None,
      d_source_metadata = JNull, d_preview_host = None, d_build_stage = None,
      d_failure_code = None, d_failure_message = None, d_serve_failure_code = None,
      d_serve_failure_message = None, d_pending_release_reason = None,
      d_pending_release_actor_user_id = None, d_pending_release_audit_visibility = None,
      d_pending_release_requested_at = None, d_claimed_at = None, d_build_started_at = None,
      d_build_finished_at = None, d_serve_started_at = None, d_serve_finished_at = None,
      d_deleted_at = None, d_created_at = int i, d_updated_at = int i\<rparr>"

definition sample_node :: "uuid \<Rightarrow> node" where
  "sample_node i =
     \<lparr>n_id = i, n_name = ''node'', n_region = ''eu'', n_token_hash = ''hash'', n_status = NActive,
      n_build_enabled = True, n_serve_enabled = True, n_build_concurrency = 1,
      n_base_url = Some [104], n_work_root = None, n_capacity_cpu_millicores = 1000,
      n_capacity_memory_mb = 1024, n_capacity_disk_mb = 4096, n_max_deployments = 10,
      n_metadata = JNull, n_last_heartbeat_at = Some 0, n_desired_config = None,
      n_desired_config_revision = 0, n_effective_config = None, n_effective_config_revision = 0,
      n_config_sync_status = CfgPending, n_config_sync_error = None,
      n_node_token_configured = True, n_config_updated_at = None, n_config_applied_at = None,
      n_deleted_at = None, n_created_at = 0, n_updated_at = 0\<rparr>"

definition sample_world :: "deployment list \<Rightarrow> node list \<Rightarrow> world" where
  "sample_world ds ns =
     \<lparr>deployments = ds, events = [], releases = [], reviews = [], artifacts = [], nodes = ns,
      jobs = [], migrations = [], audit_log = [], committed_audits = [], teams = [],
      team_groups = [], settings = [], projects = [], team_members = [], users = [],
      notifications = [], host_bindings = [],
      quota_plans = [], quota_limits = [], quota_events = [], usage_counters = [], leases = [],
      source_credentials = [], credential_versions = [], credential_leases = [], project_credentials = [],
      invitations = [], codes = [], email_allowlist = [], password_credentials = [], password_histories = [],
      auth_tokens = [], mfa_factors = [], user_mfa_rows = [], host_sources = [], provision_events = [],
      clock = (\<lambda>n. int n), clock_pos = 0, uuids = (\<lambda>n. 1000 + n), uuid_pos = 0, dice = (\<lambda>n. n),
      dice_pos = 0, sql_now = 0, request_id = None, url_parse = (\<lambda>_. None)\<rparr>"

lemma sample_world_simps [simp]:
  "deployments (sample_world ds ns) = ds" "nodes (sample_world ds ns) = ns"
  "migrations (sample_world ds ns) = []" "jobs (sample_world ds ns) = []"
  "sql_now (sample_world ds ns) = 0" "clock (sample_world ds ns) = (\<lambda>n. int n)"
  "clock_pos (sample_world ds ns) = 0" "dice (sample_world ds ns) = (\<lambda>n. n)"
  "dice_pos (sample_world ds ns) = 0" "uuids (sample_world ds ns) = (\<lambda>n. 1000 + n)"
  "uuid_pos (sample_world ds ns) = 0" "leases (sample_world ds ns) = []"
  "teams (sample_world ds ns) = []" "settings (sample_world ds ns) = []"
  "quota_events (sample_world ds ns) = []" "usage_counters (sample_world ds ns) = []"
  "releases (sample_world ds ns) = []" "audit_log (sample_world ds ns) = []"
  by (simp_all add: sample_world_def)

lemma sample_deployment_simps [simp]:
  "d_id (sample_deployment i env b s r n) = i"
  "d_project_id (sample_deployment i env b s r n) = 100"
  "d_environment (sample_deployment i env b s r n) = env"
  "d_region (sample_deployment i env b s r n) = ''eu''"
  "d_build_status (sample_deployment i env b s r n) = b"
  "d_serve_status (sample_deployment i env b s r n) = s"
  "d_release_status (sample_deployment i env b s r n) = r"
  "d_serve_node_id (sample_deployment i env b s r n) = n"
  "d_serve_cpu_millicores (sample_deployment i env b s r n) = 50"
  "d_serve_memory_mb (sample_deployment i env b s r n) = 64"
  "d_serve_disk_mb (sample_deployment i env b s r n) = 256"
  "d_pending_release_reason (sample_deployment i env b s r n) = None"
  "d_deleted_at (sample_deployment i env b s r n) = None"
  "d_created_at (sample_deployment i env b s r n) = int i"
  "d_team_id (sample_deployment i env b s r n) = 200"
  by (simp_all add: sample_deployment_def)

definition sample_team :: team where
  "sample_team =
     \<lparr>t_id = 200, t_slug = ''team'', t_name = ''Team'', t_avatar_version = None, t_kind = SharedTeam,
      t_group_id = None, t_explicit_quota_plan_id = None, t_owner_user_id = None,
      t_deleted_at = None, t_created_at = 0, t_updated_at = 0\<rparr>"

definition sample_project :: project where
  "sample_project =
     \<lparr>p_id = 100, p_team_id = 200, p_created_by_user_id = None, p_slug = ''site'', p_name = ''Site'',
      p_runtime = Static, p_repository_url = None, p_default_branch = None,
      p_install_command = None, p_build_command = None, p_output_directory = None,
      p_source_config = JNull, p_build_config = JNull, p_archived_at = None, p_deleted_at = None,
      p_created_at = 0, p_updated_at = 0\<rparr>"

text \<open>The constraints on sample rows: what each check asks of them.\<close>

lemma sample_flags [simp]:
  "is_active (sample_deployment i env b s r n) \<longleftrightarrow> r = RActive"
  "\<not> is_pending (sample_deployment i env b s r n)"
  "env_key (sample_deployment i env b s r n) = (100, env)"
  "deployment_checks (sample_deployment i env b s r n)"
  by (simp_all add: is_active_def is_pending_def env_key_def deployment_checks_def)

lemmas sample_con = deployments_con_def one_active_index_def one_pending_index_def

end
