(* ===== verification/Scheduler.thy ===== *)
theory Scheduler
  imports Store Float64 Samples
begin

text \<open>
  Placement of deployments on Serve nodes (\<open>domain/scheduler.rs\<close>): the capacity queries over
  nodes, deployments and shadow migrations, the projected usage of a candidate as
  double-precision ratios, and the choice of a candidate: an explicit node, else the least
  loaded node with room, else the least loaded node with an overflow slot.

  The final choice among equally loaded nodes is \<open>SliceRandom::choose\<close>; the index it draws is an
  argument (\<open>pick\<close>), taken modulo the number of ties.
\<close>

section \<open>Resources, candidates, placements\<close>

record serve_resources =
  sr_cpu_millicores :: nat
  sr_memory_mb :: nat
  sr_disk_mb :: nat

record node_resources =
  nr_cpu_millicores :: nat
  nr_memory_mb :: nat
  nr_disk_mb :: nat
  nr_max_deployments :: nat

record node_usage_row =
  us_cpu_millicores :: nat
  us_memory_mb :: nat
  us_disk_mb :: nat
  us_deployments :: nat

record candidate =
  cd_node_id :: uuid
  cd_region :: string
  cd_capacity :: node_resources
  cd_usage :: node_usage_row

datatype placement_mode = Automatic | Manual

record placement =
  pl_node_id :: uuid
  pl_region :: string
  pl_overcommitted :: bool
  pl_mode :: placement_mode

datatype schedule_error =
    NoCapacity
  | NoCapacityInRegion string
  | SelectedNodeUnavailable
  | SelectedNodeCapacity
  | InvalidData
  | ScheduleDb dberr

section \<open>Projected usage\<close>

definition ratio :: "nat \<Rightarrow> nat \<Rightarrow> f64" where
  "ratio used capacity =
     (if capacity = 0 then Infinite else f64_div (f64_of_u64 used) (f64_of_u64 capacity))"

record projected_usage =
  pu_cpu_ratio :: f64
  pu_memory_ratio :: f64
  pu_disk_ratio :: f64
  pu_deployment_ratio :: f64
  pu_disk_mb :: nat
  pu_deployments :: nat

definition all_at_most_one :: "projected_usage \<Rightarrow> bool" where
  "all_at_most_one p \<longleftrightarrow>
     pu_cpu_ratio p \<le> Fin 1 \<and> pu_memory_ratio p \<le> Fin 1 \<and>
     pu_disk_ratio p \<le> Fin 1 \<and> pu_deployment_ratio p \<le> Fin 1"

definition dominant_ratio :: "projected_usage \<Rightarrow> f64" where
  "dominant_ratio p =
     max (max (max (pu_cpu_ratio p) (pu_memory_ratio p)) (pu_disk_ratio p)) (pu_deployment_ratio p)"

definition has_positive_capacity :: "candidate \<Rightarrow> bool" where
  "has_positive_capacity c \<longleftrightarrow>
     0 < nr_cpu_millicores (cd_capacity c) \<and> 0 < nr_memory_mb (cd_capacity c) \<and>
     0 < nr_disk_mb (cd_capacity c) \<and> 0 < nr_max_deployments (cd_capacity c)"

definition projected :: "candidate \<Rightarrow> serve_resources \<Rightarrow> projected_usage" where
  "projected c req =
     (let cpu = sat_add_u64 (us_cpu_millicores (cd_usage c)) (sr_cpu_millicores req);
          memory = sat_add_u64 (us_memory_mb (cd_usage c)) (sr_memory_mb req);
          disk = sat_add_u64 (us_disk_mb (cd_usage c)) (sr_disk_mb req);
          deps = sat_add_u64 (us_deployments (cd_usage c)) 1
      in \<lparr>pu_cpu_ratio = ratio cpu (nr_cpu_millicores (cd_capacity c)),
          pu_memory_ratio = ratio memory (nr_memory_mb (cd_capacity c)),
          pu_disk_ratio = ratio disk (nr_disk_mb (cd_capacity c)),
          pu_deployment_ratio = ratio deps (nr_max_deployments (cd_capacity c)),
          pu_disk_mb = disk,
          pu_deployments = deps\<rparr>)"

definition can_overflow :: "candidate \<Rightarrow> serve_resources \<Rightarrow> bool" where
  "can_overflow c req \<longleftrightarrow>
     pu_disk_mb (projected c req) \<le> nr_disk_mb (cd_capacity c) \<and>
     pu_deployments (projected c req) \<le> sat_add_u64 (nr_max_deployments (cd_capacity c)) 2"

section \<open>Choosing the least loaded candidate\<close>

text \<open>
  The loop of \<open>choose_lowest_random\<close>: the least score so far and the candidates that have it,
  in the order of the input.
\<close>

definition lowest_step ::
  "('c \<Rightarrow> 'b::linorder) \<Rightarrow> 'b option \<times> 'c list \<Rightarrow> 'c \<Rightarrow> 'b option \<times> 'c list" where
  "lowest_step score acc c =
     (let (minimum, tied) = acc; s = score c
      in case minimum of
           None \<Rightarrow> (Some s, [c])
         | Some m \<Rightarrow>
             if s < m then (Some s, [c])
             else if s = m then (minimum, tied @ [c])
             else (minimum, tied))"

definition lowest_tied :: "('c \<Rightarrow> 'b::linorder) \<Rightarrow> 'c list \<Rightarrow> 'c list" where
  "lowest_tied score cs = snd (foldl (lowest_step score) (None, []) cs)"

definition choose_tied :: "nat \<Rightarrow> 'c list \<Rightarrow> 'c option" where
  "choose_tied pick tied = (if tied = [] then None else Some (tied ! (pick mod length tied)))"

definition choose_lowest_random ::
  "nat \<Rightarrow> candidate list \<Rightarrow> serve_resources \<Rightarrow> candidate option" where
  "choose_lowest_random pick cs req =
     choose_tied pick (lowest_tied (\<lambda>c. dominant_ratio (projected c req)) cs)"

definition choose_candidate_with_rng ::
  "nat \<Rightarrow> candidate list \<Rightarrow> serve_resources \<Rightarrow> uuid option \<Rightarrow> schedule_error + placement" where
  "choose_candidate_with_rng pick cs req selected =
     (case selected of
        Some sel \<Rightarrow>
          (case find (\<lambda>c. cd_node_id c = sel \<and> has_positive_capacity c) cs of
             None \<Rightarrow> Inl SelectedNodeUnavailable
           | Some c \<Rightarrow>
               if \<not> can_overflow c req then Inl SelectedNodeCapacity
               else Inr \<lparr>pl_node_id = cd_node_id c, pl_region = cd_region c,
                         pl_overcommitted = \<not> all_at_most_one (projected c req),
                         pl_mode = Manual\<rparr>)
      | None \<Rightarrow>
          (let eligible = filter has_positive_capacity cs
           in case choose_lowest_random pick
                  (filter (\<lambda>c. all_at_most_one (projected c req)) eligible) req of
                Some c \<Rightarrow> Inr \<lparr>pl_node_id = cd_node_id c, pl_region = cd_region c,
                              pl_overcommitted = False, pl_mode = Automatic\<rparr>
              | None \<Rightarrow>
                  (case choose_lowest_random pick (filter (\<lambda>c. can_overflow c req) eligible) req of
                     Some c \<Rightarrow> Inr \<lparr>pl_node_id = cd_node_id c, pl_region = cd_region c,
                                   pl_overcommitted = True, pl_mode = Automatic\<rparr>
                   | None \<Rightarrow> Inl NoCapacity)))"

definition choose_candidate_in_region ::
  "nat \<Rightarrow> candidate list \<Rightarrow> serve_resources \<Rightarrow> string option \<Rightarrow> uuid option \<Rightarrow>
   schedule_error + placement" where
  "choose_candidate_in_region pick cs req region selected =
     (let filtered =
        (case region of Some r \<Rightarrow> filter (\<lambda>c. cd_region c = r) cs | None \<Rightarrow> cs)
      in case region of
           Some r \<Rightarrow>
             if filtered = [] then Inl (NoCapacityInRegion r)
             else choose_candidate_with_rng pick filtered req selected
         | None \<Rightarrow> choose_candidate_with_rng pick filtered req selected)"

section \<open>Capacity queries\<close>

text \<open>\<open>SUM(\<dots>)::BIGINT\<close>: a sum outside the range of a bigint fails the query.\<close>

definition to_bigint :: "int \<Rightarrow> dberr + int" where
  "to_bigint x = (if - (2 ^ 63) \<le> x \<and> x < 2 ^ 63 then Inr x else Inl BigintOutOfRange)"

text \<open>The deployments that occupy a node: the join condition of both queries.\<close>

definition counts_for_capacity :: "deployment \<Rightarrow> bool" where
  "counts_for_capacity d \<longleftrightarrow>
     d_deleted_at d = None \<and> d_build_status d \<noteq> BFailed \<and> d_build_status d \<noteq> BCanceled \<and>
     d_serve_status d \<noteq> SRetired"

definition occupies :: "uuid \<Rightarrow> deployment \<Rightarrow> bool" where
  "occupies nid d \<longleftrightarrow> d_serve_node_id d = Some nid \<and> counts_for_capacity d"

text \<open>Deployments that a running migration is about to bring to the node.\<close>

definition shadow_deployments :: "world \<Rightarrow> uuid \<Rightarrow> deployment list" where
  "shadow_deployments w nid =
     List.map_filter
       (\<lambda>m. if m_target_node_id m = nid \<and> m_status m \<in> {MPending, MSyncing, MReady}
            then (case find_row d_id (m_deployment_id m) (deployments w) of
                    None \<Rightarrow> None
                  | Some d \<Rightarrow>
                      if d_serve_node_id d \<noteq> Some nid \<and> counts_for_capacity d then Some d else None)
            else None)
       (migrations w)"

record candidate_row =
  cr_node_id :: uuid
  cr_region :: string
  cr_capacity_cpu_millicores :: int
  cr_capacity_memory_mb :: int
  cr_capacity_disk_mb :: int
  cr_max_deployments :: int
  cr_used_cpu_millicores :: int
  cr_used_memory_mb :: int
  cr_used_disk_mb :: int
  cr_used_deployments :: int

definition eligible_node :: "time \<Rightarrow> node \<Rightarrow> bool" where
  "eligible_node now n \<longleftrightarrow>
     n_deleted_at n = None \<and> n_status n = NActive \<and> n_serve_enabled n \<and>
     (case n_last_heartbeat_at n of None \<Rightarrow> False | Some t \<Rightarrow> now - seconds 90 \<le> t) \<and>
     (case n_base_url n of None \<Rightarrow> False | Some url \<Rightarrow> \<exists>c\<in>set url. c \<noteq> 32) \<and>
     0 < n_capacity_cpu_millicores n \<and> 0 < n_capacity_memory_mb n \<and>
     0 < n_capacity_disk_mb n \<and> 0 < n_max_deployments n"

definition sum_col :: "(deployment \<Rightarrow> int) \<Rightarrow> deployment list \<Rightarrow> int" where
  "sum_col f ds = sum_list (map f ds)"

definition andThenR :: "'e + 'a \<Rightarrow> ('a \<Rightarrow> 'e + 'b) \<Rightarrow> 'e + 'b" where
  "andThenR r k = (case r of Inl e \<Rightarrow> Inl e | Inr a \<Rightarrow> k a)"

fun traverseR :: "('a \<Rightarrow> 'e + 'b) \<Rightarrow> 'a list \<Rightarrow> 'e + 'b list" where
  "traverseR f [] = Inr []"
| "traverseR f (x # xs) = andThenR (f x) (\<lambda>y. andThenR (traverseR f xs) (\<lambda>ys. Inr (y # ys)))"

definition used_bigint ::
  "(deployment \<Rightarrow> int) \<Rightarrow> deployment list \<Rightarrow> deployment list \<Rightarrow> dberr + int" where
  "used_bigint f own shadow =
     andThenR (to_bigint (sum_col f shadow)) (\<lambda>s. to_bigint (sum_col f own + s))"

definition candidate_row_of :: "world \<Rightarrow> node \<Rightarrow> dberr + candidate_row" where
  "candidate_row_of w n =
     (let own = filter (occupies (n_id n)) (deployments w);
          shadow = shadow_deployments w (n_id n)
      in andThenR (used_bigint d_serve_cpu_millicores own shadow) (\<lambda>cpu.
         andThenR (used_bigint d_serve_memory_mb own shadow) (\<lambda>memory.
         andThenR (used_bigint d_serve_disk_mb own shadow) (\<lambda>disk.
         Inr \<lparr>cr_node_id = n_id n, cr_region = n_region n,
              cr_capacity_cpu_millicores = n_capacity_cpu_millicores n,
              cr_capacity_memory_mb = n_capacity_memory_mb n,
              cr_capacity_disk_mb = n_capacity_disk_mb n,
              cr_max_deployments = n_max_deployments n,
              cr_used_cpu_millicores = cpu, cr_used_memory_mb = memory, cr_used_disk_mb = disk,
              cr_used_deployments = int (length own + length shadow)\<rparr>))))"

definition candidate_rows :: "world \<Rightarrow> dberr + candidate_row list" where
  "candidate_rows w =
     traverseR (candidate_row_of w) (sort_key n_id (filter (eligible_node (sql_now w)) (nodes w)))"

definition as_u64 :: "int \<Rightarrow> schedule_error + nat" where
  "as_u64 x = (case try_u64 x of None \<Rightarrow> Inl InvalidData | Some n \<Rightarrow> Inr n)"

definition candidate_try_from :: "candidate_row \<Rightarrow> schedule_error + candidate" where
  "candidate_try_from row =
     andThenR (as_u64 (cr_capacity_cpu_millicores row)) (\<lambda>ccpu.
     andThenR (as_u64 (cr_capacity_memory_mb row)) (\<lambda>cmem.
     andThenR (as_u64 (cr_capacity_disk_mb row)) (\<lambda>cdisk.
     andThenR (as_u64 (cr_max_deployments row)) (\<lambda>cmax.
     andThenR (as_u64 (cr_used_cpu_millicores row)) (\<lambda>ucpu.
     andThenR (as_u64 (cr_used_memory_mb row)) (\<lambda>umem.
     andThenR (as_u64 (cr_used_disk_mb row)) (\<lambda>udisk.
     andThenR (as_u64 (cr_used_deployments row)) (\<lambda>udep.
     Inr \<lparr>cd_node_id = cr_node_id row, cd_region = cr_region row,
          cd_capacity = \<lparr>nr_cpu_millicores = ccpu, nr_memory_mb = cmem, nr_disk_mb = cdisk,
                         nr_max_deployments = cmax\<rparr>,
          cd_usage = \<lparr>us_cpu_millicores = ucpu, us_memory_mb = umem, us_disk_mb = udisk,
                      us_deployments = udep\<rparr>\<rparr>))))))))"

definition eligible_candidates :: "(schedule_error, candidate list) dbm" where
  "eligible_candidates w =
     (case candidate_rows w of
        Inl e \<Rightarrow> (Inl (ScheduleDb e), w)
      | Inr rows \<Rightarrow> (traverseR candidate_try_from rows, w))"

definition usage_of :: "world \<Rightarrow> uuid \<Rightarrow> schedule_error + (uuid \<times> node_usage_row)" where
  "usage_of w nid =
     (let own = filter (occupies nid) (deployments w);
          col = (\<lambda>f. case to_bigint (sum_col f own) of
                   Inl e \<Rightarrow> Inl (ScheduleDb e) | Inr x \<Rightarrow> as_u64 x)
      in andThenR (col d_serve_cpu_millicores) (\<lambda>cpu.
         andThenR (col d_serve_memory_mb) (\<lambda>memory.
         andThenR (col d_serve_disk_mb) (\<lambda>disk.
         Inr (nid, \<lparr>us_cpu_millicores = cpu, us_memory_mb = memory, us_disk_mb = disk,
                    us_deployments = length own\<rparr>)))))"

definition node_usage :: "world \<Rightarrow> schedule_error + (uuid \<times> node_usage_row) list" where
  "node_usage w =
     traverseR (usage_of w)
       (remdups (List.map_filter
         (\<lambda>d. if counts_for_capacity d then d_serve_node_id d else None) (deployments w)))"

section \<open>Placement\<close>

text \<open>
  \<open>lock_placement\<close> takes a PostgreSQL advisory lock until the end of the transaction; here each
  transaction already runs alone, so it changes nothing.
\<close>

definition lock_placement :: "('e, unit) dbm" where
  "lock_placement = retM ()"

definition draw :: "('e, nat) dbm" where
  "draw w = (Inr (dice w (dice_pos w)), w\<lparr>dice_pos := Suc (dice_pos w)\<rparr>)"

definition place_deployment_in_region ::
  "serve_resources \<Rightarrow> uuid option \<Rightarrow> string option \<Rightarrow> (schedule_error, placement) dbm" where
  "place_deployment_in_region req selected region =
     bindM lock_placement (\<lambda>_.
     bindM eligible_candidates (\<lambda>cs.
     bindM draw (\<lambda>pick.
     liftR (choose_candidate_in_region pick cs req region selected))))"

section \<open>The least loaded candidates\<close>

lemma lowest_step_Some:
  "lowest_step score (Some m, tied) c =
     (if score c < m then (Some (score c), [c])
      else if score c = m then (Some m, tied @ [c]) else (Some m, tied))"
  by (simp add: lowest_step_def)

lemma lowest_state:
  "foldl (lowest_step score) (None, []) cs =
     (if cs = [] then None else Some (Min (score ` set cs)),
      filter (\<lambda>c. score c = Min (score ` set cs)) cs)"
proof (induction cs rule: rev_induct)
  case (snoc c cs)
  define m where "m = Min (score ` set cs)"
  show ?case
  proof (cases "cs = []")
    case True
    then show ?thesis by (simp add: lowest_step_def)
  next
    case False
    then have min: "Min (score ` set (cs @ [c])) = min (score c) m" by (simp add: m_def)
    have le: "\<And>x. x \<in> set cs \<Longrightarrow> m \<le> score x" by (simp add: m_def)
    have step: "foldl (lowest_step score) (None, []) (cs @ [c]) =
        lowest_step score (Some m, filter (\<lambda>x. score x = m) cs) c"
      using snoc.IH False by (simp add: m_def)
    have empty: "filter (\<lambda>x. score x = score c) cs = []" if "score c < m"
      using le that by (force simp: filter_empty_conv)
    show ?thesis
      unfolding step lowest_step_Some min using empty by (auto simp: min_def)
  qed
qed simp

text \<open>
  The contract of a choice by score: the candidates with the least score, in order, and a way
  to pick one of them that never fails on a non-empty list.
\<close>

locale lowest_choice =
  fixes score :: "'c \<Rightarrow> 'b::linorder" and pick :: "'c list \<Rightarrow> 'c option"
  assumes pick_mem: "pick xs = Some x \<Longrightarrow> x \<in> set xs"
    and pick_total: "pick xs = None \<Longrightarrow> xs = []"
begin

lemma tied_eq: "lowest_tied score cs = filter (\<lambda>c. \<forall>d\<in>set cs. score c \<le> score d) cs"
proof -
  have "score c = Min (score ` set cs) \<longleftrightarrow> (\<forall>d\<in>set cs. score c \<le> score d)"
    if "c \<in> set cs" for c
    using that by (auto intro!: Min_eqI[symmetric])
  then show ?thesis by (auto simp: lowest_tied_def lowest_state intro!: filter_cong)
qed

lemma tied_empty: "lowest_tied score cs = [] \<longleftrightarrow> cs = []"
proof
  assume e: "lowest_tied score cs = []"
  show "cs = []"
  proof (rule ccontr)
    assume "cs \<noteq> []"
    then have "Min (score ` set cs) \<in> score ` set cs" by (intro Min_in) auto
    then obtain c where "c \<in> set cs" "score c = Min (score ` set cs)" by auto
    with e show False by (auto simp: lowest_tied_def lowest_state filter_empty_conv)
  qed
qed (simp add: lowest_tied_def)

lemma chosen_mem: "pick (lowest_tied score cs) = Some c \<Longrightarrow> c \<in> set cs"
  by (auto dest!: pick_mem simp: tied_eq)

lemma chosen_least: "pick (lowest_tied score cs) = Some c \<Longrightarrow> d \<in> set cs \<Longrightarrow> score c \<le> score d"
  by (auto dest!: pick_mem simp: tied_eq)

lemma chosen_none: "pick (lowest_tied score cs) = None \<longleftrightarrow> cs = []"
  using pick_total[of "lowest_tied score cs"] pick_mem[of "lowest_tied score cs"]
  by (cases "pick (lowest_tied score cs)") (auto simp: tied_empty, simp add: lowest_tied_def)

end

interpretation low: lowest_choice "\<lambda>c. dominant_ratio (projected c req)" "choose_tied pick"
  for req pick
  by unfold_locales (auto simp: choose_tied_def split: if_splits)

lemma choose_lowest_random_Some:
  assumes "choose_lowest_random pick cs req = Some c"
  shows "c \<in> set cs"
    and "\<And>d. d \<in> set cs \<Longrightarrow> dominant_ratio (projected c req) \<le> dominant_ratio (projected d req)"
  using assms low.chosen_mem low.chosen_least unfolding choose_lowest_random_def by blast+

lemma choose_lowest_random_None: "choose_lowest_random pick cs req = None \<longleftrightarrow> cs = []"
  unfolding choose_lowest_random_def by (rule low.chosen_none)

section \<open>What a placement promises\<close>

definition fits :: "candidate \<Rightarrow> serve_resources \<Rightarrow> bool" where
  "fits c req \<longleftrightarrow> has_positive_capacity c \<and> all_at_most_one (projected c req)"

definition overflows :: "candidate \<Rightarrow> serve_resources \<Rightarrow> bool" where
  "overflows c req \<longleftrightarrow> has_positive_capacity c \<and> can_overflow c req"

definition in_region :: "string option \<Rightarrow> candidate \<Rightarrow> bool" where
  "in_region region c \<longleftrightarrow> (case region of None \<Rightarrow> True | Some r \<Rightarrow> cd_region c = r)"

definition placement_of :: "candidate \<Rightarrow> bool \<Rightarrow> placement_mode \<Rightarrow> placement" where
  "placement_of c over mode =
     \<lparr>pl_node_id = cd_node_id c, pl_region = cd_region c, pl_overcommitted = over, pl_mode = mode\<rparr>"

lemma choose_manual_Inr:
  assumes "choose_candidate_with_rng pick cs req (Some sel) = Inr p"
  obtains c where "c \<in> set cs" "cd_node_id c = sel" "overflows c req"
    "p = placement_of c (\<not> all_at_most_one (projected c req)) Manual"
  using assms that
  by (auto simp: choose_candidate_with_rng_def overflows_def placement_of_def
      split: option.splits if_splits dest: find_Some_iff_mem)

lemma choose_automatic_Inr:
  assumes "choose_candidate_with_rng pick cs req None = Inr p"
  obtains (room) c where "c \<in> set cs" "fits c req" "p = placement_of c False Automatic"
      "\<And>d. d \<in> set cs \<Longrightarrow> fits d req \<Longrightarrow>
         dominant_ratio (projected c req) \<le> dominant_ratio (projected d req)"
    | (overflow) c where "c \<in> set cs" "overflows c req" "p = placement_of c True Automatic"
      "\<And>d. d \<in> set cs \<Longrightarrow> \<not> fits d req"
      "\<And>d. d \<in> set cs \<Longrightarrow> overflows d req \<Longrightarrow>
         dominant_ratio (projected c req) \<le> dominant_ratio (projected d req)"
proof -
  let ?room = "filter (\<lambda>c. all_at_most_one (projected c req)) (filter has_positive_capacity cs)"
  let ?over = "filter (\<lambda>c. can_overflow c req) (filter has_positive_capacity cs)"
  show thesis
  proof (cases "choose_lowest_random pick ?room req")
    case (Some c)
    from choose_lowest_random_Some[OF Some] assms Some show thesis
      by (intro room[of c]) (auto simp: choose_candidate_with_rng_def placement_of_def fits_def)
  next
    case None
    then have none: "\<And>d. d \<in> set cs \<Longrightarrow> \<not> fits d req"
      by (auto simp: choose_lowest_random_None filter_empty_conv fits_def)
    show thesis
    proof (cases "choose_lowest_random pick ?over req")
      case (Some c)
      from choose_lowest_random_Some[OF Some] assms Some None none show thesis
        by (intro overflow[of c])
          (auto simp: choose_candidate_with_rng_def placement_of_def overflows_def)
    next
      case c: None
      from assms None c show thesis by (simp add: choose_candidate_with_rng_def)
    qed
  qed
qed

lemma choose_automatic_Inl:
  "choose_candidate_with_rng pick cs req None = Inl e \<longleftrightarrow>
   e = NoCapacity \<and> (\<forall>c\<in>set cs. \<not> fits c req \<and> \<not> overflows c req)"
proof -
  let ?room = "filter (\<lambda>c. all_at_most_one (projected c req)) (filter has_positive_capacity cs)"
  let ?over = "filter (\<lambda>c. can_overflow c req) (filter has_positive_capacity cs)"
  have "choose_candidate_with_rng pick cs req None = Inl e \<longleftrightarrow>
      e = NoCapacity \<and> choose_lowest_random pick ?room req = None \<and>
      choose_lowest_random pick ?over req = None"
    by (auto simp: choose_candidate_with_rng_def Let_def split: option.splits)
  then show ?thesis
    by (auto simp: choose_lowest_random_None filter_empty_conv fits_def overflows_def)
qed

lemma in_region_simps [simp]:
  "in_region None = (\<lambda>c. True)"
  "in_region (Some r) = (\<lambda>c. cd_region c = r)"
  by (simp_all add: in_region_def fun_eq_iff)

lemma choose_in_region_Inr:
  assumes "choose_candidate_in_region pick cs req region sel = Inr p"
  shows "choose_candidate_with_rng pick (filter (in_region region) cs) req sel = Inr p"
  using assms by (auto simp: choose_candidate_in_region_def Let_def split: option.splits if_splits)

text \<open>Integer reading of the double-precision tests, for loads below \<open>2 ^ 53\<close>.\<close>

definition in_range :: "candidate \<Rightarrow> serve_resources \<Rightarrow> bool" where
  "in_range c req \<longleftrightarrow>
     us_cpu_millicores (cd_usage c) + sr_cpu_millicores req < 2 ^ 53 \<and>
     us_memory_mb (cd_usage c) + sr_memory_mb req < 2 ^ 53 \<and>
     us_disk_mb (cd_usage c) + sr_disk_mb req < 2 ^ 53 \<and>
     us_deployments (cd_usage c) + 1 < 2 ^ 53 \<and>
     nr_cpu_millicores (cd_capacity c) < 2 ^ 53 \<and> nr_memory_mb (cd_capacity c) < 2 ^ 53 \<and>
     nr_disk_mb (cd_capacity c) < 2 ^ 53 \<and> nr_max_deployments (cd_capacity c) < 2 ^ 32"

definition fits_exactly :: "candidate \<Rightarrow> serve_resources \<Rightarrow> bool" where
  "fits_exactly c req \<longleftrightarrow>
     us_cpu_millicores (cd_usage c) + sr_cpu_millicores req \<le> nr_cpu_millicores (cd_capacity c) \<and>
     us_memory_mb (cd_usage c) + sr_memory_mb req \<le> nr_memory_mb (cd_capacity c) \<and>
     us_disk_mb (cd_usage c) + sr_disk_mb req \<le> nr_disk_mb (cd_capacity c) \<and>
     us_deployments (cd_usage c) + 1 \<le> nr_max_deployments (cd_capacity c)"

lemma sat_add_small: "a + b < 2 ^ 53 \<Longrightarrow> sat_add_u64 a b = a + b"
  by (simp add: sat_add_u64_def u64_max_def)

lemma ratio_le_one:
  "0 < cap \<Longrightarrow> used < 2 ^ 53 \<Longrightarrow> cap < 2 ^ 53 \<Longrightarrow> ratio used cap \<le> Fin 1 \<longleftrightarrow> used \<le> cap"
  by (simp add: ratio_def f64_of_u64_exact f64_div_le_one)

lemma all_at_most_one_exact:
  assumes "has_positive_capacity c" and "in_range c req"
  shows "all_at_most_one (projected c req) \<longleftrightarrow> fits_exactly c req"
  using assms
  by (simp add: all_at_most_one_def projected_def Let_def fits_exactly_def in_range_def
      has_positive_capacity_def sat_add_small ratio_le_one)

lemma can_overflow_exact:
  assumes "in_range c req"
  shows "can_overflow c req \<longleftrightarrow>
    us_disk_mb (cd_usage c) + sr_disk_mb req \<le> nr_disk_mb (cd_capacity c) \<and>
    us_deployments (cd_usage c) + 1 \<le> nr_max_deployments (cd_capacity c) + 2"
proof -
  have "sat_add_u64 (nr_max_deployments (cd_capacity c)) 2 = nr_max_deployments (cd_capacity c) + 2"
    using assms by (intro sat_add_small) (simp add: in_range_def)
  with assms show ?thesis
    by (simp add: can_overflow_def projected_def Let_def in_range_def sat_add_small)
qed

section \<open>From the tables to the placement\<close>

lemma andThenR_Inr: "andThenR r k = Inr b \<longleftrightarrow> (\<exists>a. r = Inr a \<and> k a = Inr b)"
  by (cases r) (simp_all add: andThenR_def)

lemma traverseR_Inr: "traverseR f xs = Inr ys \<longleftrightarrow> list_all2 (\<lambda>x y. f x = Inr y) xs ys"
proof (induction xs arbitrary: ys)
  case Nil
  show ?case by auto
next
  case (Cons x xs)
  show ?case by (cases ys) (auto simp: andThenR_Inr Cons.IH)
qed

lemma list_all2_mem: "list_all2 P xs ys \<Longrightarrow> y \<in> set ys \<Longrightarrow> \<exists>x\<in>set xs. P x y"
  by (induction rule: list_all2_induct) auto

text \<open>The candidate that stands for a node.\<close>

definition candidate_of :: "world \<Rightarrow> node \<Rightarrow> candidate \<Rightarrow> bool" where
  "candidate_of w n c \<longleftrightarrow>
     (\<exists>row. candidate_row_of w n = Inr row \<and> candidate_try_from row = Inr c)"

lemma candidate_of_fields:
  "candidate_of w n c \<Longrightarrow> cd_node_id c = n_id n \<and> cd_region c = n_region n"
  by (auto simp: candidate_of_def candidate_row_of_def candidate_try_from_def Let_def andThenR_Inr)

lemma eligible_candidates_Inr:
  assumes "eligible_candidates w = (Inr cs, v)"
  shows "v = w" and "c \<in> set cs \<Longrightarrow>
    \<exists>n\<in>set (nodes w). eligible_node (sql_now w) n \<and> candidate_of w n c"
proof -
  show "v = w" using assms by (auto simp: eligible_candidates_def split: sum.splits)
  from assms obtain rows where rows: "candidate_rows w = Inr rows"
    and cs: "traverseR candidate_try_from rows = Inr cs"
    by (auto simp: eligible_candidates_def split: sum.splits)
  assume "c \<in> set cs"
  with cs obtain row where row: "row \<in> set rows" "candidate_try_from row = Inr c"
    unfolding traverseR_Inr by (blast dest: list_all2_mem)
  with rows obtain n where "n \<in> set (filter (eligible_node (sql_now w)) (nodes w))"
    "candidate_row_of w n = Inr row"
    unfolding candidate_rows_def traverseR_Inr by (auto dest!: list_all2_mem)
  with row show "\<exists>n\<in>set (nodes w). eligible_node (sql_now w) n \<and> candidate_of w n c"
    by (auto simp: candidate_of_def)
qed

lemma choose_Inr_mem:
  assumes "choose_candidate_with_rng pick cs req sel = Inr p"
  obtains c where "c \<in> set cs" "pl_node_id p = cd_node_id c" "pl_region p = cd_region c"
    "overflows c req \<or> fits c req" "\<not> pl_overcommitted p \<Longrightarrow> fits c req"
    "\<And>s. sel = Some s \<Longrightarrow> cd_node_id c = s"
proof (cases sel)
  case None
  with assms that show thesis
    by (auto elim!: choose_automatic_Inr simp: placement_of_def)
next
  case (Some s)
  with assms that show thesis
    by (auto elim!: choose_manual_Inr simp: placement_of_def overflows_def fits_def)
qed

lemma place_Inr:
  assumes "place_deployment_in_region req sel region w = (Inr p, v)"
  obtains n c where "n \<in> set (nodes w)" "eligible_node (sql_now w) n" "candidate_of w n c"
    "pl_node_id p = n_id n" "pl_region p = n_region n" "in_region region c"
    "overflows c req \<or> fits c req" "\<not> pl_overcommitted p \<Longrightarrow> fits c req"
    "\<And>s. sel = Some s \<Longrightarrow> n_id n = s"
    "v = w\<lparr>dice_pos := Suc (dice_pos w)\<rparr>"
proof -
  from assms obtain cs where cs: "eligible_candidates w = (Inr cs, w)"
    and choice: "choose_candidate_in_region (dice w (dice_pos w)) cs req region sel = Inr p"
    and v: "v = w\<lparr>dice_pos := Suc (dice_pos w)\<rparr>"
    by (auto simp: place_deployment_in_region_def lock_placement_def oper_Inr draw_def
        dest: eligible_candidates_Inr(1))
  from choose_in_region_Inr[OF choice] obtain c where
    mem: "c \<in> set (filter (in_region region) cs)" and
    c: "pl_node_id p = cd_node_id c" "pl_region p = cd_region c"
      "overflows c req \<or> fits c req" "\<not> pl_overcommitted p \<Longrightarrow> fits c req"
      "\<And>s. sel = Some s \<Longrightarrow> cd_node_id c = s"
    by (rule choose_Inr_mem) blast
  from mem have mem: "c \<in> set cs" "in_region region c" by auto
  from eligible_candidates_Inr(2)[OF cs mem(1)] obtain n where
    n: "n \<in> set (nodes w)" "eligible_node (sql_now w) n" "candidate_of w n c" by blast
  with c mem v candidate_of_fields[OF n(3)] show thesis by (intro that[of n c]) auto
qed

text \<open>The load the tables put on a node: what it serves and what migrations bring to it.\<close>

definition node_load :: "world \<Rightarrow> (deployment \<Rightarrow> int) \<Rightarrow> uuid \<Rightarrow> int" where
  "node_load w f nid =
     sum_col f (filter (occupies nid) (deployments w)) + sum_col f (shadow_deployments w nid)"

lemma to_bigint_Inr: "to_bigint x = Inr y \<Longrightarrow> y = x"
  by (auto simp: to_bigint_def split: if_splits)

lemma as_u64_Inr: "as_u64 x = Inr n \<Longrightarrow> int n = x"
  by (auto simp: as_u64_def try_u64_def split: if_splits)

lemma used_bigint_Inr: "used_bigint f own shadow = Inr x \<Longrightarrow> x = sum_col f own + sum_col f shadow"
  by (auto simp: used_bigint_def andThenR_Inr dest!: to_bigint_Inr)

lemma candidate_of_load:
  assumes "candidate_of w n c"
  shows "int (us_cpu_millicores (cd_usage c)) = node_load w d_serve_cpu_millicores (n_id n)"
    "int (us_memory_mb (cd_usage c)) = node_load w d_serve_memory_mb (n_id n)"
    "int (us_disk_mb (cd_usage c)) = node_load w d_serve_disk_mb (n_id n)"
    "int (us_deployments (cd_usage c)) = node_load w (\<lambda>_. 1) (n_id n)"
    "int (nr_cpu_millicores (cd_capacity c)) = n_capacity_cpu_millicores n"
    "int (nr_memory_mb (cd_capacity c)) = n_capacity_memory_mb n"
    "int (nr_disk_mb (cd_capacity c)) = n_capacity_disk_mb n"
    "int (nr_max_deployments (cd_capacity c)) = n_max_deployments n"
  using assms
  by (auto simp: candidate_of_def candidate_row_of_def candidate_try_from_def Let_def andThenR_Inr
      node_load_def sum_list_triv sum_col_def dest!: used_bigint_Inr as_u64_Inr)

text \<open>Loads and capacities at which the double-precision ratios are exact.\<close>

definition exact_loads :: "world \<Rightarrow> serve_resources \<Rightarrow> bool" where
  "exact_loads w req \<longleftrightarrow>
     (\<forall>n\<in>set (nodes w).
        node_load w d_serve_cpu_millicores (n_id n) + int (sr_cpu_millicores req) < 2 ^ 53 \<and>
        node_load w d_serve_memory_mb (n_id n) + int (sr_memory_mb req) < 2 ^ 53 \<and>
        node_load w d_serve_disk_mb (n_id n) + int (sr_disk_mb req) < 2 ^ 53 \<and>
        node_load w (\<lambda>_. 1) (n_id n) + 1 < 2 ^ 53 \<and>
        n_capacity_cpu_millicores n < 2 ^ 53 \<and> n_capacity_memory_mb n < 2 ^ 53 \<and>
        n_capacity_disk_mb n < 2 ^ 53 \<and> n_max_deployments n < 2 ^ 32)"

lemma exact_loads_in_range:
  assumes loads: "exact_loads w req" and n: "n \<in> set (nodes w)" and c: "candidate_of w n c"
  shows "in_range c req"
proof -
  note load = candidate_of_load[OF c, symmetric]
  show ?thesis
    using bspec[OF loads[unfolded exact_loads_def] n] unfolding load in_range_def
    by (elim conjE, intro conjI; simp; linarith)
qed

text \<open>
  C9. A placement that succeeds is on a node that is active, enabled for serving, heard of within 90
  seconds and has a base URL; it is in the requested region and is the selected node when one is
  selected; nothing but the random draw changes. With the deployment the node's disk is within its
  capacity and it exceeds its deployment limit by at most two; unless the placement says it is
  overcommitted, CPU, memory and the deployment limit are within capacity as well.
\<close>

theorem placement_respects_capacity:
  assumes place: "place_deployment_in_region req sel region w = (Inr p, v)"
    and loads: "exact_loads w req"
  shows "v = w\<lparr>dice_pos := Suc (dice_pos w)\<rparr> \<and>
    (\<exists>n\<in>set (nodes w). n_id n = pl_node_id p \<and> n_region n = pl_region p \<and>
       eligible_node (sql_now w) n \<and> region \<in> {None, Some (n_region n)} \<and>
       sel \<in> {None, Some (n_id n)} \<and>
       node_load w d_serve_disk_mb (n_id n) + int (sr_disk_mb req) \<le> n_capacity_disk_mb n \<and>
       node_load w (\<lambda>_. 1) (n_id n) + 1 \<le> n_max_deployments n + 2 \<and>
       (\<not> pl_overcommitted p \<longrightarrow>
          node_load w d_serve_cpu_millicores (n_id n) + int (sr_cpu_millicores req)
            \<le> n_capacity_cpu_millicores n \<and>
          node_load w d_serve_memory_mb (n_id n) + int (sr_memory_mb req)
            \<le> n_capacity_memory_mb n \<and>
          node_load w (\<lambda>_. 1) (n_id n) + 1 \<le> n_max_deployments n))"
proof -
  from place obtain n c where n: "n \<in> set (nodes w)" "eligible_node (sql_now w) n"
    and c: "candidate_of w n c" and p: "pl_node_id p = n_id n" "pl_region p = n_region n"
    and region: "in_region region c" and cap: "overflows c req \<or> fits c req"
    and exact: "\<not> pl_overcommitted p \<Longrightarrow> fits c req"
    and sel: "\<And>s. sel = Some s \<Longrightarrow> n_id n = s" and v: "v = w\<lparr>dice_pos := Suc (dice_pos w)\<rparr>"
    by (rule place_Inr) blast
  note range = exact_loads_in_range[OF loads n(1) c]
  have room: "us_disk_mb (cd_usage c) + sr_disk_mb req \<le> nr_disk_mb (cd_capacity c) \<and>
      us_deployments (cd_usage c) + 1 \<le> nr_max_deployments (cd_capacity c) + 2"
    using cap can_overflow_exact[OF range] all_at_most_one_exact[OF _ range]
    by (auto simp: overflows_def fits_def fits_exactly_def)
  have "int (us_disk_mb (cd_usage c)) + int (sr_disk_mb req) \<le> int (nr_disk_mb (cd_capacity c))"
    "int (us_deployments (cd_usage c)) + 1 \<le> int (nr_max_deployments (cd_capacity c)) + 2"
    using room by linarith+
  then have room': "node_load w d_serve_disk_mb (n_id n) + int (sr_disk_mb req) \<le> n_capacity_disk_mb n"
    "node_load w (\<lambda>_. 1) (n_id n) + 1 \<le> n_max_deployments n + 2"
    unfolding candidate_of_load[OF c] .
  have full: "node_load w d_serve_cpu_millicores (n_id n) + int (sr_cpu_millicores req)
        \<le> n_capacity_cpu_millicores n"
      "node_load w d_serve_memory_mb (n_id n) + int (sr_memory_mb req) \<le> n_capacity_memory_mb n"
      "node_load w (\<lambda>_. 1) (n_id n) + 1 \<le> n_max_deployments n"
    if "\<not> pl_overcommitted p"
  proof -
    have "fits_exactly c req"
      using exact[OF that] all_at_most_one_exact[OF _ range] by (simp add: fits_def)
    then have "int (us_cpu_millicores (cd_usage c)) + int (sr_cpu_millicores req)
        \<le> int (nr_cpu_millicores (cd_capacity c))"
      "int (us_memory_mb (cd_usage c)) + int (sr_memory_mb req) \<le> int (nr_memory_mb (cd_capacity c))"
      "int (us_deployments (cd_usage c)) + 1 \<le> int (nr_max_deployments (cd_capacity c))"
      unfolding fits_exactly_def by linarith+
    then show "node_load w d_serve_cpu_millicores (n_id n) + int (sr_cpu_millicores req)
        \<le> n_capacity_cpu_millicores n"
      "node_load w d_serve_memory_mb (n_id n) + int (sr_memory_mb req) \<le> n_capacity_memory_mb n"
      "node_load w (\<lambda>_. 1) (n_id n) + 1 \<le> n_max_deployments n"
      unfolding candidate_of_load[OF c] .
  qed
  have "region \<in> {None, Some (n_region n)}"
    using region candidate_of_fields[OF c] by (cases region) auto
  moreover have "sel \<in> {None, Some (n_id n)}" using sel by (cases sel) auto
  ultimately show ?thesis using n p v room' full by auto
qed

text \<open>
  The automatic choice is the best one: it is a candidate of the list; unless it is marked
  overcommitted it fits and no other candidate that fits has a smaller dominant load, and it is
  overcommitted only when no candidate fits, and then it has the smallest dominant load among
  those that can overflow.
\<close>

theorem automatic_choice_is_best:
  assumes "choose_candidate_with_rng pick cs req None = Inr p"
  shows "\<exists>c\<in>set cs. p = placement_of c (pl_overcommitted p) Automatic \<and>
    (\<not> pl_overcommitted p \<longrightarrow> fits c req \<and>
       (\<forall>d\<in>set cs. fits d req \<longrightarrow>
          dominant_ratio (projected c req) \<le> dominant_ratio (projected d req))) \<and>
    (pl_overcommitted p \<longrightarrow> overflows c req \<and> (\<forall>d\<in>set cs. \<not> fits d req) \<and>
       (\<forall>d\<in>set cs. overflows d req \<longrightarrow>
          dominant_ratio (projected c req) \<le> dominant_ratio (projected d req)))"
  using assms
proof (cases rule: choose_automatic_Inr)
  case (room c)
  then show ?thesis by (intro bexI[of _ c]) (simp_all add: placement_of_def)
next
  case (overflow c)
  then show ?thesis by (intro bexI[of _ c]) (simp_all add: placement_of_def)
qed

lemma find_filter: "find p (filter q xs) = find (\<lambda>x. q x \<and> p x) xs"
  by (induction xs) auto

lemma find_unique:
  "(\<And>x y. x \<in> set xs \<Longrightarrow> y \<in> set xs \<Longrightarrow> p x \<Longrightarrow> p y \<Longrightarrow> x = y) \<Longrightarrow>
   c \<in> set xs \<Longrightarrow> p c \<Longrightarrow> find p xs = Some c"
  by (cases "find p xs") (auto simp: find_None_iff_ball dest!: find_Some_iff_mem)

text \<open>
  Every refusal of the scheduler has its reason: \<open>NoCapacityInRegion\<close> exactly when a region is
  given and no candidate is in it; without a selected node \<open>NoCapacity\<close> exactly when no candidate of
  the region fits or can overflow; with a selected node \<open>SelectedNodeUnavailable\<close> exactly when it is
  not a candidate with capacity in the region, and \<open>SelectedNodeCapacity\<close> exactly when it is one that
  cannot overflow.
\<close>

theorem choice_refusals:
  assumes dist: "distinct (map cd_node_id cs)"
  shows "choose_candidate_in_region pick cs req region sel = Inl e \<longleftrightarrow>
    (if region \<noteq> None \<and> (\<forall>c\<in>set cs. \<not> in_region region c)
     then e = NoCapacityInRegion (the region)
     else case sel of
       None \<Rightarrow> e = NoCapacity \<and> (\<forall>c\<in>set cs. in_region region c \<longrightarrow> \<not> fits c req \<and> \<not> overflows c req)
     | Some s \<Rightarrow>
         e = SelectedNodeUnavailable \<and>
           (\<forall>c\<in>set cs. in_region region c \<longrightarrow> cd_node_id c = s \<longrightarrow> \<not> has_positive_capacity c) \<or>
         e = SelectedNodeCapacity \<and>
           (\<exists>c\<in>set cs. in_region region c \<and> cd_node_id c = s \<and> has_positive_capacity c \<and>
              \<not> can_overflow c req))"
proof (cases "region \<noteq> None \<and> (\<forall>c\<in>set cs. \<not> in_region region c)")
  case True
  then show ?thesis
    by (auto simp: choose_candidate_in_region_def filter_empty_conv)
next
  case False
  then have step: "choose_candidate_in_region pick cs req region sel =
      choose_candidate_with_rng pick (filter (in_region region) cs) req sel"
    by (cases region) (auto simp: choose_candidate_in_region_def filter_empty_conv)
  show ?thesis
  proof (cases sel)
    case None
    with False step show ?thesis by (auto simp: choose_automatic_Inl)
  next
    case (Some s)
    let ?p = "\<lambda>c. in_region region c \<and> cd_node_id c = s \<and> has_positive_capacity c"
    have same: "x = y" if "x \<in> set cs" "y \<in> set cs" "cd_node_id x = cd_node_id y" for x y
      using dist that by (auto simp: distinct_map inj_on_def)
    have choice: "choose_candidate_in_region pick cs req region sel = Inl e \<longleftrightarrow>
        (case find ?p cs of
           None \<Rightarrow> e = SelectedNodeUnavailable
         | Some c \<Rightarrow> \<not> can_overflow c req \<and> e = SelectedNodeCapacity)"
      unfolding step by (auto simp: Some choose_candidate_with_rng_def find_filter split: option.split)
    show ?thesis
    proof (cases "find ?p cs")
      case None
      with choice False Some show ?thesis by (auto simp: find_None_iff_ball)
    next
      case (Some c)
      note c = find_Some_iff_mem[OF this]
      have "x = c" if "x \<in> set cs" "?p x" for x using that c same by auto
      with choice False \<open>sel = Some s\<close> Some c show ?thesis by auto
    qed
  qed
qed

section \<open>Witnesses\<close>

definition sample_request :: serve_resources where
  "sample_request = \<lparr>sr_cpu_millicores = 50, sr_memory_mb = 64, sr_disk_mb = 256\<rparr>"

definition sample_candidate :: "uuid \<Rightarrow> nat \<Rightarrow> candidate" where
  "sample_candidate i used =
     \<lparr>cd_node_id = i, cd_region = ''eu'',
      cd_capacity = \<lparr>nr_cpu_millicores = 100, nr_memory_mb = 100, nr_disk_mb = 1000,
        nr_max_deployments = 4\<rparr>,
      cd_usage = \<lparr>us_cpu_millicores = used, us_memory_mb = 0, us_disk_mb = 0,
        us_deployments = 1\<rparr>\<rparr>"

definition idle_candidate :: candidate where
  "idle_candidate =
     \<lparr>cd_node_id = 7, cd_region = ''eu'',
      cd_capacity = \<lparr>nr_cpu_millicores = 1000, nr_memory_mb = 1024, nr_disk_mb = 4096,
        nr_max_deployments = 10\<rparr>,
      cd_usage = \<lparr>us_cpu_millicores = 0, us_memory_mb = 0, us_disk_mb = 0, us_deployments = 0\<rparr>\<rparr>"

lemma sample_fits:
  "fits idle_candidate sample_request"
  "fits (sample_candidate 2 10) sample_request"
  "\<not> fits (sample_candidate 1 99) sample_request"
proof -
  have "in_range c sample_request \<and> has_positive_capacity c"
    if "c \<in> {idle_candidate, sample_candidate 2 10, sample_candidate 1 99}" for c
    using that by (auto simp: in_range_def has_positive_capacity_def idle_candidate_def
        sample_candidate_def sample_request_def)
  then show "fits idle_candidate sample_request" "fits (sample_candidate 2 10) sample_request"
    "\<not> fits (sample_candidate 1 99) sample_request"
    by (simp_all add: fits_def all_at_most_one_exact)
      (simp_all add: fits_exactly_def idle_candidate_def sample_candidate_def sample_request_def)
qed

lemma choose_single:
  "choose_lowest_random pick [c] req = Some c"
  by (simp add: choose_lowest_random_def choose_tied_def lowest_tied_def lowest_step_def)

lemma idle_candidates:
  assumes "nodes w = [sample_node 7]" "deployments w = []" "migrations w = []" "sql_now w = 0"
  shows "eligible_candidates w = (Inr [idle_candidate], w)"
  using assms
  by (simp add: eligible_candidates_def candidate_rows_def eligible_node_def sample_node_def
      seconds_def candidate_row_of_def shadow_deployments_def List.map_filter_def used_bigint_def
      sum_col_def to_bigint_def andThenR_def candidate_try_from_def as_u64_def try_u64_def
      idle_candidate_def Let_def)

lemma idle_placement:
  assumes "nodes w = [sample_node 7]" "deployments w = []" "migrations w = []" "sql_now w = 0"
  shows "place_deployment_in_region sample_request None (Some ''eu'') w =
    (Inr (placement_of idle_candidate False Automatic), w\<lparr>dice_pos := Suc (dice_pos w)\<rparr>)"
proof -
  have "choose_candidate_in_region pick [idle_candidate] sample_request (Some ''eu'') None =
      Inr (placement_of idle_candidate False Automatic)" for pick
    using sample_fits(1)
    by (simp add: choose_candidate_in_region_def choose_candidate_with_rng_def fits_def choose_single
        placement_of_def idle_candidate_def[THEN arg_cong, of cd_region])
  then show ?thesis
    by (simp add: place_deployment_in_region_def lock_placement_def bindM_def
        idle_candidates[OF assms] draw_def retM_def)
qed

theorem placement_respects_capacity_witness:
  "\<exists>p v. place_deployment_in_region sample_request None (Some ''eu'')
       (sample_world [] [sample_node 7]) = (Inr p, v) \<and> pl_node_id p = 7"
proof -
  let ?w = "sample_world [] [sample_node 7]"
  have run: "place_deployment_in_region sample_request None (Some ''eu'') ?w =
    (Inr (placement_of idle_candidate False Automatic), ?w\<lparr>dice_pos := Suc (dice_pos ?w)\<rparr>)"
    by (rule idle_placement) simp_all
  have "exact_loads ?w sample_request"
    by (simp add: exact_loads_def node_load_def sum_col_def shadow_deployments_def sample_request_def
        sample_node_def List.map_filter_def)
  from placement_respects_capacity[OF run this] run show ?thesis
    by (auto simp: sample_node_def)
qed

theorem automatic_choice_is_best_witness:
  "\<exists>p. choose_candidate_with_rng 0 [sample_candidate 1 99, sample_candidate 2 10] sample_request None
       = Inr p \<and> pl_node_id p = 2"
proof -
  have run: "choose_candidate_with_rng 0 [sample_candidate 1 99, sample_candidate 2 10]
      sample_request None = Inr (placement_of (sample_candidate 2 10) False Automatic)"
    using sample_fits(2,3)
    by (simp add: choose_candidate_with_rng_def choose_single fits_def placement_of_def)
  from automatic_choice_is_best[OF run] run show ?thesis
    by (auto simp: placement_of_def sample_candidate_def)
qed

theorem choice_refusals_witness:
  "choose_candidate_in_region 0 [sample_candidate 1 40] sample_request (Some ''us'') None =
     Inl (NoCapacityInRegion ''us'')"
proof -
  have "distinct (map cd_node_id [sample_candidate 1 40])" by simp
  from choice_refusals[OF this, of 0 sample_request "Some ''us''" None "NoCapacityInRegion ''us''"]
  show ?thesis by (simp add: sample_candidate_def)
qed

end
