(* ===== verification/Text.thy ===== *)
theory Text
  imports Main "HOL-Library.Sublist"
begin

text \<open>
  Rust's text operations. They are stated on lists, so that they serve both readings of text in
  this development: \<open>nat list\<close> (all Unicode code points, used by the validators) and \<open>string\<close>
  (code points below 256, used for the text columns of the database). The character classes
  are those of \<open>char::is_whitespace\<close>, \<open>char::is_control\<close> and the \<open>is_ascii_\<close> functions.
\<close>

section \<open>Lists\<close>

definition trim_start_by :: "('a \<Rightarrow> bool) \<Rightarrow> 'a list \<Rightarrow> 'a list" where
  "trim_start_by p xs = dropWhile p xs"

definition trim_end_by :: "('a \<Rightarrow> bool) \<Rightarrow> 'a list \<Rightarrow> 'a list" where
  "trim_end_by p xs = rev (dropWhile p (rev xs))"

definition trim_by :: "('a \<Rightarrow> bool) \<Rightarrow> 'a list \<Rightarrow> 'a list" where
  "trim_by p xs = trim_end_by p (trim_start_by p xs)"

text \<open>\<open>str::split\<close> on a single character: always at least one part.\<close>

fun split_on :: "'a \<Rightarrow> 'a list \<Rightarrow> 'a list list" where
  "split_on c [] = [[]]"
| "split_on c (x # xs) =
     (if x = c then [] # split_on c xs
      else (case split_on c xs of [] \<Rightarrow> [[x]] | p # ps \<Rightarrow> (x # p) # ps))"

text \<open>\<open>str::split_once\<close>: around the first occurrence; \<open>rsplit_once\<close>: around the last.\<close>

fun split_once :: "'a \<Rightarrow> 'a list \<Rightarrow> ('a list \<times> 'a list) option" where
  "split_once c [] = None"
| "split_once c (x # xs) =
     (if x = c then Some ([], xs) else map_option (\<lambda>(a, b). (x # a, b)) (split_once c xs))"

definition rsplit_once :: "'a \<Rightarrow> 'a list \<Rightarrow> ('a list \<times> 'a list) option" where
  "rsplit_once c xs = map_option (\<lambda>(a, b). (rev b, rev a)) (split_once c (rev xs))"

text \<open>\<open>str::split_whitespace\<close>: the maximal runs of characters outside \<open>p\<close>.\<close>

function words_by :: "('a \<Rightarrow> bool) \<Rightarrow> 'a list \<Rightarrow> 'a list list" where
  "words_by p xs =
     (case dropWhile p xs of
        [] \<Rightarrow> []
      | y # ys \<Rightarrow> (y # takeWhile (\<lambda>z. \<not> p z) ys) # words_by p (dropWhile (\<lambda>z. \<not> p z) ys))"
  by pat_completeness auto
termination
proof (relation "measure (\<lambda>(p, xs). length xs)")
  fix p :: "'a \<Rightarrow> bool" and xs y ys
  assume "dropWhile p xs = y # ys"
  then have "length (y # ys) \<le> length xs"
    using length_dropWhile_le[of p xs] by simp
  moreover have "length (dropWhile (\<lambda>z. \<not> p z) ys) \<le> length ys"
    by (rule length_dropWhile_le)
  ultimately show "((p, dropWhile (\<lambda>z. \<not> p z) ys), (p, xs)) \<in> measure (\<lambda>(p, xs). length xs)"
    by simp
qed simp

declare words_by.simps [simp del]

definition contains :: "'a list \<Rightarrow> 'a list \<Rightarrow> bool" where
  "contains pat xs \<longleftrightarrow> sublist pat xs"

definition starts_with :: "'a list \<Rightarrow> 'a list \<Rightarrow> bool" where
  "starts_with pat xs \<longleftrightarrow> prefix pat xs"

definition ends_with :: "'a list \<Rightarrow> 'a list \<Rightarrow> bool" where
  "ends_with pat xs \<longleftrightarrow> suffix pat xs"

fun join_with :: "'a list \<Rightarrow> 'a list list \<Rightarrow> 'a list" where
  "join_with sep [] = []"
| "join_with sep [x] = x"
| "join_with sep (x # y # xs) = x @ sep @ join_with sep (y # xs)"

lemma split_on_nonempty [simp]: "split_on c xs \<noteq> []"
  by (cases xs) (auto split: list.splits)

text \<open>Splitting and joining are inverse to each other.\<close>

lemma join_split_on: "join_with [c] (split_on c xs) = xs"
proof (induction xs)
  case (Cons x xs)
  show ?case
  proof (cases "split_on c xs")
    case (Cons p ps)
    with \<open>join_with [c] (split_on c xs) = xs\<close> show ?thesis
      by (cases ps) auto
  qed simp
qed simp

lemma split_on_no_sep: "p \<in> set (split_on c xs) \<Longrightarrow> c \<notin> set p"
  by (induction xs arbitrary: p) (auto split: list.splits if_splits)

lemma set_split_on: "p \<in> set (split_on c xs) \<Longrightarrow> set p \<subseteq> set xs"
  by (induction xs arbitrary: p) (fastforce split: list.splits if_splits)+

lemma split_once_Some: "split_once c xs = Some (a, b) \<Longrightarrow> xs = a @ c # b \<and> c \<notin> set a"
  by (induction xs arbitrary: a b) (auto split: if_splits)

lemma split_once_None: "split_once c xs = None \<longleftrightarrow> c \<notin> set xs"
  by (induction xs) auto

lemma split_once_append: "c \<notin> set a \<Longrightarrow> split_once c (a @ c # b) = Some (a, b)"
  by (induction a) auto

lemma set_trim_by: "set (trim_by p xs) \<subseteq> set xs"
  by (auto simp: trim_by_def trim_end_by_def trim_start_by_def dest!: set_dropWhileD)

lemma trim_end_by_id: "xs = [] \<or> \<not> p (last xs) \<Longrightarrow> trim_end_by p xs = xs"
  by (cases xs rule: rev_cases) (auto simp: trim_end_by_def)

lemma trim_by_id:
  assumes "xs = [] \<or> \<not> p (hd xs) \<and> \<not> p (last xs)"
  shows "trim_by p xs = xs"
  using assms by (cases xs) (auto simp: trim_by_def trim_start_by_def trim_end_by_id)

lemma trim_by_id_all: "(\<forall>x\<in>set xs. \<not> p x) \<Longrightarrow> trim_by p xs = xs"
  by (rule trim_by_id) (cases xs; auto)


section \<open>Character classes\<close>

definition is_ascii_upper :: "nat \<Rightarrow> bool" where
  "is_ascii_upper c \<longleftrightarrow> 65 \<le> c \<and> c \<le> 90"

definition is_ascii_lower :: "nat \<Rightarrow> bool" where
  "is_ascii_lower c \<longleftrightarrow> 97 \<le> c \<and> c \<le> 122"

definition is_ascii_digit :: "nat \<Rightarrow> bool" where
  "is_ascii_digit c \<longleftrightarrow> 48 \<le> c \<and> c \<le> 57"

definition is_ascii_alnum :: "nat \<Rightarrow> bool" where
  "is_ascii_alnum c \<longleftrightarrow> is_ascii_upper c \<or> is_ascii_lower c \<or> is_ascii_digit c"

definition is_ascii_hexdigit :: "nat \<Rightarrow> bool" where
  "is_ascii_hexdigit c \<longleftrightarrow> is_ascii_digit c \<or> (65 \<le> c \<and> c \<le> 70) \<or> (97 \<le> c \<and> c \<le> 102)"

text \<open>\<open>u8::is_ascii_whitespace\<close> leaves the vertical tab out; \<open>char::is_whitespace\<close> does not.\<close>

definition is_ascii_ws :: "nat \<Rightarrow> bool" where
  "is_ascii_ws c \<longleftrightarrow> c \<in> {9, 10, 12, 13, 32}"

definition is_ws :: "nat \<Rightarrow> bool" where
  "is_ws c \<longleftrightarrow> (9 \<le> c \<and> c \<le> 13) \<or> c = 32 \<or> c = 133 \<or> c = 160 \<or> c = 5760 \<or>
     (8192 \<le> c \<and> c \<le> 8202) \<or> c = 8232 \<or> c = 8233 \<or> c = 8239 \<or> c = 8287 \<or> c = 12288"

definition is_ctrl :: "nat \<Rightarrow> bool" where
  "is_ctrl c \<longleftrightarrow> c < 32 \<or> (127 \<le> c \<and> c < 160)"

definition is_ascii_ctrl :: "nat \<Rightarrow> bool" where
  "is_ascii_ctrl c \<longleftrightarrow> c < 32 \<or> c = 127"

definition to_lower :: "nat \<Rightarrow> nat" where
  "to_lower c = (if is_ascii_upper c then c + 32 else c)"

definition to_upper :: "nat \<Rightarrow> nat" where
  "to_upper c = (if is_ascii_lower c then c - 32 else c)"

definition utf8_width :: "nat \<Rightarrow> nat" where
  "utf8_width c = (if c < 128 then 1 else if c < 2048 then 2 else if c < 65536 then 3 else 4)"

text \<open>\<open>str::len\<close> counts bytes.\<close>

definition utf8_len :: "nat list \<Rightarrow> nat" where
  "utf8_len s = sum_list (map utf8_width s)"

definition pts :: "string \<Rightarrow> nat list" where
  "pts s = map of_char s"

definition lower_char :: "char \<Rightarrow> char" where
  "lower_char c = char_of (to_lower (of_char c))"

definition upper_char :: "char \<Rightarrow> char" where
  "upper_char c = char_of (to_upper (of_char c))"

lemma utf8_len_simps [simp]:
  "utf8_len [] = 0"
  "utf8_len (c # s) = utf8_width c + utf8_len s"
  "utf8_len (s @ t) = utf8_len s + utf8_len t"
  by (simp_all add: utf8_len_def)

lemma utf8_width_pos [simp]: "0 < utf8_width c"
  by (simp add: utf8_width_def)

lemma utf8_len_ascii: "\<forall>c\<in>set s. c < 128 \<Longrightarrow> utf8_len s = length s"
  by (induction s) (auto simp: utf8_width_def)

lemma utf8_len_ge: "length s \<le> utf8_len s"
proof (induction s)
  case (Cons c s)
  moreover have "Suc 0 \<le> utf8_width c" by (simp add: Suc_leI)
  ultimately show ?case by simp
qed simp

lemma to_lower_idem [simp]: "to_lower (to_lower c) = to_lower c"
  by (simp add: to_lower_def is_ascii_upper_def)

lemma to_lower_not_upper [simp]: "\<not> is_ascii_upper (to_lower c)"
  by (simp add: to_lower_def is_ascii_upper_def)

lemma to_lower_alnum [simp]: "is_ascii_alnum (to_lower c) = is_ascii_alnum c"
  by (auto simp: to_lower_def is_ascii_alnum_def is_ascii_upper_def is_ascii_lower_def is_ascii_digit_def)

lemma to_lower_other: "\<not> is_ascii_upper c \<Longrightarrow> to_lower c = c"
  by (simp add: to_lower_def)

lemma alnum_not_ws: "is_ascii_alnum c \<Longrightarrow> \<not> is_ws c"
  by (auto simp: is_ascii_alnum_def is_ws_def is_ascii_upper_def is_ascii_lower_def is_ascii_digit_def)

lemma alnum_ascii: "is_ascii_alnum c \<Longrightarrow> c < 128"
  by (auto simp: is_ascii_alnum_def is_ascii_upper_def is_ascii_lower_def is_ascii_digit_def)

lemma to_lower_width [simp]: "utf8_width (to_lower c) = utf8_width c"
  by (auto simp: to_lower_def utf8_width_def is_ascii_upper_def)

end
