(* ===== verification/AuditLog.thy ===== *)
theory AuditLog
  imports Store Text
begin

text \<open>
  Audit events (\<open>infra/audit\<close>): the redaction of secrets (\<open>redaction.rs\<close>), actor type and
  visibility (\<open>event.rs\<close>) and the writer (\<open>writer.rs\<close>). Every domain operation of the
  development records its audit event through \<open>create_domain_audit_event\<close>.
\<close>

section \<open>Redaction\<close>

definition REDACTED :: string where
  "REDACTED = ''[REDACTED]''"

definition sensitive_names :: "string list" where
  "sensitive_names =
    [''authorization'', ''cookie'', ''set_cookie'', ''password'', ''password_hash'', ''passphrase'',
     ''secret'', ''secret_key'', ''secret_ref'', ''api_key'', ''access_key'', ''client_secret'',
     ''signing_key'', ''token'', ''token_hash'', ''access_token'', ''refresh_token'', ''csrf_token'',
     ''session_id'', ''private_key'', ''master_key'', ''credential'', ''credentials'',
     ''git_credentials'', ''database_url'', ''redis_url'', ''connection_string'']"

definition sensitive_suffixes :: "string list" where
  "sensitive_suffixes =
    [''_password'', ''_passphrase'', ''_secret'', ''_api_key'', ''_access_key'', ''_signing_key'',
     ''_token'', ''_cookie'', ''_private_key'', ''_credential'', ''_credentials'',
     ''_connection_string'']"

definition ascii_lowercase :: "string \<Rightarrow> string" where
  "ascii_lowercase s = map lower_char s"

definition ascii_uppercase :: "string \<Rightarrow> string" where
  "ascii_uppercase s = map upper_char s"

definition sensitive_key :: "string \<Rightarrow> bool" where
  "sensitive_key key =
     (let normalized = map (\<lambda>c. if c = CHR ''-'' then CHR ''_'' else c) (ascii_lowercase key)
      in List.member sensitive_names normalized \<or>
         list_ex (\<lambda>e. ends_with e normalized) sensitive_suffixes)"

definition sensitive_string :: "(string \<Rightarrow> url_parts option) \<Rightarrow> string \<Rightarrow> bool" where
  "sensitive_string parse value =
     (if ascii_lowercase (take 7 value) = ''bearer '' then True
      else
        (let upper = ascii_uppercase value
         in if contains ''-----BEGIN '' upper \<and> contains ''PRIVATE KEY-----'' upper then True
            else
              (case parse value of
                 None \<Rightarrow> False
               | Some url \<Rightarrow>
                   if list_ex sensitive_key (url_query_keys url) then True
                   else if url_scheme url = ''http'' \<or> url_scheme url = ''https''
                     then url_username url \<noteq> [] \<or> url_password url \<noteq> None
                   else if List.member [''postgres'', ''postgresql'', ''redis'', ''rediss'', ''mysql'']
                       (url_scheme url) then True
                   else url_password url \<noteq> None)))"

fun redact_json :: "(string \<Rightarrow> url_parts option) \<Rightarrow> json \<Rightarrow> json"
  and redact_fields :: "(string \<Rightarrow> url_parts option) \<Rightarrow> (string \<times> json) list \<Rightarrow> (string \<times> json) list"
  and redact_items :: "(string \<Rightarrow> url_parts option) \<Rightarrow> json list \<Rightarrow> json list" where
  "redact_json p (JObj kvs) = JObj (redact_fields p kvs)"
| "redact_json p (JArr xs) = JArr (redact_items p xs)"
| "redact_json p (JStr s) = (if sensitive_string p s then JStr REDACTED else JStr s)"
| "redact_json p other = other"
| "redact_fields p [] = []"
| "redact_fields p ((k, v) # kvs) =
     (k, if sensitive_key k then JStr REDACTED else redact_json p v) # redact_fields p kvs"
| "redact_items p [] = []"
| "redact_items p (x # xs) = redact_json p x # redact_items p xs"

definition char_ws :: "char \<Rightarrow> bool" where
  "char_ws c = is_ws (of_char c)"

definition redact_text :: "(string \<Rightarrow> url_parts option) \<Rightarrow> string \<Rightarrow> string" where
  "redact_text parse value =
     (let lower = ascii_lowercase value;
          embedded = list_ex (\<lambda>marker. contains marker lower)
            [''bearer '', ''password='', ''password:'', ''secret='', ''token='', ''cookie:'',
             ''-----begin '']
      in if embedded \<or>
            list_ex (\<lambda>part. sensitive_string parse
                (trim_by (\<lambda>c. c \<in> {CHR 0x22, CHR 0x27, CHR ''('', CHR '')'', CHR '','', CHR '';''}) part))
              (words_by char_ws value)
         then REDACTED else value)"

section \<open>Events\<close>

definition domain_actor_type :: "uuid option \<Rightarrow> uuid option \<Rightarrow> audit_actor_type" where
  "domain_actor_type user node =
     (case (user, node) of
        (Some _, _) \<Rightarrow> ActorUser
      | (None, Some _) \<Rightarrow> ActorNode
      | (None, None) \<Rightarrow> ActorSystem)"

definition visibility_for_domain_event ::
  "uuid option \<Rightarrow> audit_visibility option \<Rightarrow> audit_visibility" where
  "visibility_for_domain_event team override =
     (case override of
        Some v \<Rightarrow> v
      | None \<Rightarrow> if team \<noteq> None then VisTeam else VisPlatform)"

record audit_params =
  ap_actor_user_id :: "uuid option"
  ap_actor_node_id :: "uuid option"
  ap_team_id :: "uuid option"
  ap_action :: string
  ap_target_type :: string
  ap_target_id :: "uuid option"
  ap_result :: audit_result
  ap_reason :: "string option"
  ap_metadata :: json

section \<open>Writer\<close>

definition persist_audit :: "audit_event \<Rightarrow> (dberr, unit) dbm" where
  "persist_audit event w =
     (let event' = event\<lparr>u_reason := map_option (redact_text (url_parse w)) (u_reason event)\<rparr>
      in (Inr (), w\<lparr>audit_log := audit_log w @ [event']\<rparr>))"

definition create_domain_audit_event ::
  "audit_params \<Rightarrow> audit_visibility option \<Rightarrow> json \<Rightarrow> (dberr, unit) dbm" where
  "create_domain_audit_event params visibility changes =
     bindM now_v7 (\<lambda>i.
     bindM (getM request_id) (\<lambda>req.
     bindM (getM url_parse) (\<lambda>parse.
     bindM now_utc (\<lambda>now.
     persist_audit
       \<lparr>u_id = i,
        u_actor_user_id = ap_actor_user_id params,
        u_actor_node_id = ap_actor_node_id params,
        u_team_id = ap_team_id params,
        u_actor_type = domain_actor_type (ap_actor_user_id params) (ap_actor_node_id params),
        u_visibility = visibility_for_domain_event (ap_team_id params) visibility,
        u_action = ap_action params,
        u_target_type = ap_target_type params,
        u_target_id = ap_target_id params,
        u_result = ap_result params,
        u_reason = ap_reason params,
        u_metadata = redact_json parse (ap_metadata params),
        u_request_id = req,
        u_source_ip = None, u_user_agent = None, u_http_method = None, u_request_path = None,
        u_status_code = None, u_duration_ms = None,
        u_changes = redact_json parse changes,
        u_created_at = now\<rparr>))))"

definition create_audit_event :: "audit_params \<Rightarrow> (dberr, unit) dbm" where
  "create_audit_event params = create_domain_audit_event params None (JObj [])"

definition create_audit_event_with_changes :: "audit_params \<Rightarrow> json \<Rightarrow> (dberr, unit) dbm" where
  "create_audit_event_with_changes params changes = create_domain_audit_event params None changes"

definition create_platform_audit_event :: "audit_params \<Rightarrow> (dberr, unit) dbm" where
  "create_platform_audit_event params =
     create_domain_audit_event params (Some VisPlatform) (JObj [])"

definition create_audit_event_with_visibility ::
  "audit_params \<Rightarrow> audit_visibility \<Rightarrow> (dberr, unit) dbm" where
  "create_audit_event_with_visibility params visibility =
     create_domain_audit_event params (Some visibility) (JObj [])"

text \<open>
  Writing an audit event always succeeds, appends one event and consumes one identifier and one
  reading of the clock; every other table is as it was.
\<close>

lemma create_domain_audit_event_ok:
  "\<exists>e. create_domain_audit_event params vis changes w =
     (Inr (), w\<lparr>uuid_pos := Suc (uuid_pos w), clock_pos := Suc (clock_pos w),
                audit_log := audit_log w @ [e]\<rparr>) \<and>
     u_action e = ap_action params \<and> u_target_id e = ap_target_id params \<and>
     u_result e = ap_result params \<and> u_team_id e = ap_team_id params \<and>
     u_actor_user_id e = ap_actor_user_id params \<and>
     u_visibility e = visibility_for_domain_event (ap_team_id params) vis"
  unfolding create_domain_audit_event_def bindM_def now_v7_def now_utc_def getM_def
      persist_audit_def Let_def
  by (simp, intro exI conjI, rule refl, simp_all)

text \<open>Redaction: applying it twice is applying it once, and no value survives under a secret's name.\<close>

lemma redact_idem:
  "redact_json p (redact_json p j) = redact_json p j"
  "redact_fields p (redact_fields p kvs) = redact_fields p kvs"
  "redact_items p (redact_items p xs) = redact_items p xs"
  by (induction p j and p kvs and p xs rule: redact_json_redact_fields_redact_items.induct) auto

fun leaks :: "json \<Rightarrow> bool" and leaks_fields :: "(string \<times> json) list \<Rightarrow> bool"
  and leaks_items :: "json list \<Rightarrow> bool" where
  "leaks (JObj kvs) = leaks_fields kvs"
| "leaks (JArr xs) = leaks_items xs"
| "leaks _ = False"
| "leaks_fields [] = False"
| "leaks_fields ((k, v) # kvs) =
     ((sensitive_key k \<and> v \<noteq> JStr REDACTED) \<or> leaks v \<or> leaks_fields kvs)"
| "leaks_items [] = False"
| "leaks_items (x # xs) = (leaks x \<or> leaks_items xs)"

lemma redact_no_leak:
  "\<not> leaks (redact_json p j)"
  "\<not> leaks_fields (redact_fields p kvs)"
  "\<not> leaks_items (redact_items p xs)"
  by (induction p j and p kvs and p xs rule: redact_json_redact_fields_redact_items.induct) auto

lemmas audit_writers = create_audit_event_def create_audit_event_with_changes_def
  create_platform_audit_event_def create_audit_event_with_visibility_def

end
