(* ===== verification/Deployments.thy ===== *)
theory Deployments
  imports Scheduler AuditLog Samples
begin

text \<open>
  Deployment state (\<open>domain/deployments.rs\<close>): the three status machines, creation, the event
  timeline, the transitions, activation, reviews and the review policy.
\<close>

section \<open>State machines\<close>

fun can_transition_build :: "build_status \<Rightarrow> build_status \<Rightarrow> bool" where
  "can_transition_build BPending BClaimed = True"
| "can_transition_build BPending BCanceled = True"
| "can_transition_build BPending BFailed = True"
| "can_transition_build BClaimed BQueued = True"
| "can_transition_build BClaimed BBuilding = True"
| "can_transition_build BClaimed BFailed = True"
| "can_transition_build BClaimed BCanceled = True"
| "can_transition_build BQueued BBuilding = True"
| "can_transition_build BQueued BFailed = True"
| "can_transition_build BQueued BCanceled = True"
| "can_transition_build BBuilding BReady = True"
| "can_transition_build BBuilding BFailed = True"
| "can_transition_build BBuilding BCanceled = True"
| "can_transition_build _ _ = False"

fun can_transition_release :: "release_status \<Rightarrow> release_status \<Rightarrow> bool" where
  "can_transition_release RDraft RPendingReview = True"
| "can_transition_release RDraft RActive = True"
| "can_transition_release RPendingReview RApproved = True"
| "can_transition_release RPendingReview RRejected = True"
| "can_transition_release RRejected RPendingReview = True"
| "can_transition_release RApproved RActive = True"
| "can_transition_release RActive RApproved = True"
| "can_transition_release RActive RDraft = True"
| "can_transition_release _ _ = False"

fun can_transition_serve :: "serve_status \<Rightarrow> serve_status \<Rightarrow> bool" where
  "can_transition_serve SPending SSyncing = True"
| "can_transition_serve SFailed SSyncing = True"
| "can_transition_serve SReady SSyncing = True"
| "can_transition_serve SSyncing SReady = True"
| "can_transition_serve SSyncing SFailed = True"
| "can_transition_serve SPending SRetired = True"
| "can_transition_serve SSyncing SRetired = True"
| "can_transition_serve SFailed SRetired = True"
| "can_transition_serve SReady SRetired = True"
| "can_transition_serve SRetired SPending = True"
| "can_transition_serve _ _ = False"

datatype deployment_state_error =
    InvalidBuildTransition string string
  | InvalidReleaseTransition string string
  | InvalidServeTransition string string
  | BuildNotReady
  | ServeNotReady
  | StateDb dberr

fun build_status_value :: "build_status \<Rightarrow> string" where
  "build_status_value BPending = ''pending''"
| "build_status_value BClaimed = ''claimed''"
| "build_status_value BQueued = ''queued''"
| "build_status_value BBuilding = ''building''"
| "build_status_value BReady = ''ready''"
| "build_status_value BFailed = ''failed''"
| "build_status_value BCanceled = ''canceled''"

fun release_status_value :: "release_status \<Rightarrow> string" where
  "release_status_value RDraft = ''draft''"
| "release_status_value RPendingReview = ''pending_review''"
| "release_status_value RApproved = ''approved''"
| "release_status_value RRejected = ''rejected''"
| "release_status_value RActive = ''active''"

fun environment_value :: "deployment_environment \<Rightarrow> string" where
  "environment_value Production = ''production''"
| "environment_value Preview = ''preview''"

fun serve_status_value :: "serve_status \<Rightarrow> string" where
  "serve_status_value SPending = ''pending''"
| "serve_status_value SSyncing = ''syncing''"
| "serve_status_value SReady = ''ready''"
| "serve_status_value SFailed = ''failed''"
| "serve_status_value SRetired = ''retired''"

fun release_reason_value :: "release_reason \<Rightarrow> string" where
  "release_reason_value ReasonAuto = ''auto''"
| "release_reason_value ReasonPromote = ''promote''"
| "release_reason_value ReasonRollback = ''rollback''"

definition validate_release_readiness ::
  "release_status \<Rightarrow> release_status \<Rightarrow> build_status \<Rightarrow> serve_status \<Rightarrow>
   deployment_state_error + unit" where
  "validate_release_readiness from to build serve =
     (if from = RActive \<and> (to = RApproved \<or> to = RDraft) then Inr ()
      else if build \<noteq> BReady then Inl BuildNotReady
      else if from = RDraft \<and> to = RPendingReview then Inr ()
      else if serve = SRetired \<and> from = RPendingReview \<and> (to = RApproved \<or> to = RRejected)
        then Inr ()
      else if serve \<noteq> SReady then Inl ServeNotReady
      else Inr ())"

fun runtime_serve_resources :: "project_runtime \<Rightarrow> serve_resources" where
  "runtime_serve_resources Ssr =
     \<lparr>sr_cpu_millicores = 200, sr_memory_mb = 256, sr_disk_mb = 512\<rparr>"
| "runtime_serve_resources _ =
     \<lparr>sr_cpu_millicores = 50, sr_memory_mb = 64, sr_disk_mb = 256\<rparr>"

definition artifact_unpacked_size_bytes :: "json \<Rightarrow> nat option" where
  "artifact_unpacked_size_bytes manifest =
     (case json_get ''unpacked_size_bytes'' manifest of
        Some v \<Rightarrow> json_as_u64 v
      | None \<Rightarrow> Some 0)"

section \<open>Events and creation\<close>

definition append_event ::
  "uuid \<Rightarrow> event_kind \<Rightarrow> string \<Rightarrow> json \<Rightarrow> (anyhow, deployment_event) dbm" where
  "append_event did kind message metadata =
     bindM now_v7 (\<lambda>i.
     bindM now_utc (\<lambda>now.
     mapErr AnyDb (insert_event
       \<lparr>e_id = i, e_deployment_id = did, e_kind = kind, e_message = message,
        e_metadata = metadata, e_created_at = now\<rparr>)))"

record create_deployment_params =
  cp_project :: project
  cp_environment :: deployment_environment
  cp_triggered_by_user_id :: "uuid option"
  cp_branch :: "string option"
  cp_commit_hash :: "string option"
  cp_commit_message :: "string option"
  cp_preview_host :: "string option"
  cp_source_credential_version_id :: "uuid option"

definition try_i64_any :: "nat \<Rightarrow> (anyhow, int) dbm" where
  "try_i64_any n =
     okOr (AnyMsg ''out of range integral type conversion attempted'') (try_i64 n)"

definition new_deployment ::
  "create_deployment_params \<Rightarrow> placement \<Rightarrow> uuid \<Rightarrow> time \<Rightarrow> int \<Rightarrow> int \<Rightarrow> int \<Rightarrow> deployment" where
  "new_deployment params pl i now cpu memory disk =
     (let p = cp_project params in
      \<lparr>d_id = i, d_project_id = p_id p, d_team_id = p_team_id p, d_region = pl_region pl,
       d_build_node_id = None, d_serve_node_id = Some (pl_node_id pl),
       d_environment = cp_environment params, d_runtime_kind = p_runtime p,
       d_build_status = BPending, d_serve_status = SPending, d_release_status = RDraft,
       d_serve_cpu_millicores = cpu, d_serve_memory_mb = memory, d_serve_disk_mb = disk,
       d_overcommitted = pl_overcommitted pl,
       d_source_repository_url = p_repository_url p,
       d_source_credential_version_id = cp_source_credential_version_id params,
       d_source_branch =
         (case cp_branch params of
            Some b \<Rightarrow> Some b
          | None \<Rightarrow> (case p_default_branch p of Some b \<Rightarrow> Some b | None \<Rightarrow> Some ''main'')),
       d_commit_hash = cp_commit_hash params, d_commit_message = cp_commit_message params,
       d_triggered_by_user_id = cp_triggered_by_user_id params,
       d_install_command = p_install_command p, d_build_command = p_build_command p,
       d_output_directory = p_output_directory p, d_source_metadata = p_source_config p,
       d_preview_host = cp_preview_host params, d_build_stage = None,
       d_failure_code = None, d_failure_message = None,
       d_serve_failure_code = None, d_serve_failure_message = None,
       d_pending_release_reason = None, d_pending_release_actor_user_id = None,
       d_pending_release_audit_visibility = None, d_pending_release_requested_at = None,
       d_claimed_at = None, d_build_started_at = None, d_build_finished_at = None,
       d_serve_started_at = None, d_serve_finished_at = None, d_deleted_at = None,
       d_created_at = now, d_updated_at = now\<rparr>)"

definition create_deployment ::
  "create_deployment_params \<Rightarrow> placement \<Rightarrow> (anyhow, deployment) dbm" where
  "create_deployment params pl =
     bindM now_utc (\<lambda>now.
     (let res = runtime_serve_resources (p_runtime (cp_project params)) in
     bindM now_v7 (\<lambda>i.
     bindM (try_i64_any (sr_cpu_millicores res)) (\<lambda>cpu.
     bindM (try_i64_any (sr_memory_mb res)) (\<lambda>memory.
     bindM (try_i64_any (sr_disk_mb res)) (\<lambda>disk.
     bindM (mapErr AnyDb (insert_deployment (new_deployment params pl i now cpu memory disk))) (\<lambda>d.
     bindM (append_event (d_id d) EvSystem ''deployment created''
       (JObj [(''environment'', JStr (environment_value (d_environment d)))])) (\<lambda>_.
     retM d))))))))"

section \<open>Queries\<close>

definition list_events :: "world \<Rightarrow> uuid \<Rightarrow> deployment_event list" where
  "list_events w did = sort_key e_created_at (filter (\<lambda>e. e_deployment_id e = did) (events w))"

definition was_serve_ready :: "world \<Rightarrow> uuid \<Rightarrow> bool" where
  "was_serve_ready w did =
     list_ex (\<lambda>e. Option.bind (json_get ''status'' (e_metadata e)) json_as_str = Some ''ready'')
       (filter (\<lambda>e. e_deployment_id e = did \<and> e_kind e = EvServe) (events w))"

definition get_by_id :: "world \<Rightarrow> uuid \<Rightarrow> deployment option" where
  "get_by_id w did = find (\<lambda>d. d_id d = did \<and> d_deleted_at d = None) (deployments w)"

definition get_by_id_for_update :: "uuid \<Rightarrow> ('e, deployment option) dbm" where
  "get_by_id_for_update did = getM (\<lambda>w. get_by_id w did)"

definition list_for_project ::
  "world \<Rightarrow> uuid \<Rightarrow> deployment_environment option \<Rightarrow> build_status option \<Rightarrow> nat \<Rightarrow> nat \<Rightarrow>
   deployment list" where
  "list_for_project w pid env status limit offset =
     take (max 1 (min 100 limit)) (drop offset
       (sort_key (\<lambda>d. - d_created_at d)
         (filter (\<lambda>d. d_project_id d = pid \<and> d_deleted_at d = None \<and>
             (env = None \<or> env = Some (d_environment d)) \<and>
             (status = None \<or> status = Some (d_build_status d))) (deployments w))))"

definition find_active :: "world \<Rightarrow> uuid \<Rightarrow> deployment_environment \<Rightarrow> deployment option" where
  "find_active w pid env =
     find (\<lambda>d. d_project_id d = pid \<and> d_environment d = env \<and> d_release_status d = RActive \<and>
       d_deleted_at d = None) (deployments w)"

definition find_by_preview_host :: "world \<Rightarrow> string \<Rightarrow> deployment option" where
  "find_by_preview_host w host =
     find (\<lambda>d. d_preview_host d = Some host \<and> d_deleted_at d = None) (deployments w)"

definition list_artifacts :: "world \<Rightarrow> uuid \<Rightarrow> deployment_artifact list" where
  "list_artifacts w did =
     sort_key a_created_at
       (filter (\<lambda>a. a_deployment_id a = did \<and> a_deleted_at a = None) (artifacts w))"

definition was_active :: "world \<Rightarrow> uuid \<Rightarrow> bool" where
  "was_active w did = (find (\<lambda>r. r_deployment_id r = did) (releases w) \<noteq> None)"

section \<open>Transitions\<close>

record build_transition =
  bt_to :: build_status
  bt_stage :: "string option"
  bt_failure_code :: "string option"
  bt_failure_message :: "string option"
  bt_build_node_id :: "uuid option"

record serve_transition =
  st_to :: serve_status
  st_failure_code :: "string option"
  st_failure_message :: "string option"

text \<open>
  The errors of the timeline are wrapped as \<open>DbErr::Custom\<close> with the text of the error; the
  text is not inspected anywhere.
\<close>

definition as_state_db :: "anyhow \<Rightarrow> deployment_state_error" where
  "as_state_db e = StateDb (DbCustom (case e of AnyMsg m \<Rightarrow> m | AnyDb _ \<Rightarrow> ''database error''))"

definition apply_serve :: "time \<Rightarrow> serve_transition \<Rightarrow> deployment \<Rightarrow> deployment" where
  "apply_serve now t d =
     (case st_to t of
        SSyncing \<Rightarrow> d\<lparr>d_serve_status := SSyncing, d_serve_started_at := Some now,
          d_serve_finished_at := None, d_serve_failure_code := None,
          d_serve_failure_message := None\<rparr>
      | SReady \<Rightarrow> d\<lparr>d_serve_status := SReady, d_serve_finished_at := Some now,
          d_serve_failure_code := None, d_serve_failure_message := None\<rparr>
      | SFailed \<Rightarrow> d\<lparr>d_serve_status := SFailed, d_serve_finished_at := Some now,
          d_serve_failure_code := st_failure_code t,
          d_serve_failure_message := st_failure_message t\<rparr>
      | other \<Rightarrow> d\<lparr>d_serve_status := other\<rparr>)"

definition transition_serve ::
  "deployment \<Rightarrow> serve_transition \<Rightarrow> (deployment_state_error, deployment) dbm" where
  "transition_serve d t =
     (if \<not> can_transition_serve (d_serve_status d) (st_to t)
      then failM (InvalidServeTransition (serve_status_value (d_serve_status d))
             (serve_status_value (st_to t)))
      else
        bindM now_utc (\<lambda>now.
        bindM (mapErr StateDb (update_deployment (d_id d) (apply_serve now t))) (\<lambda>updated.
        bindM (mapErr as_state_db (append_event (d_id d) EvServe
            (''serve status changed to '' @ serve_status_value (st_to t))
            (JObj [(''status'', JStr (serve_status_value (st_to t))),
                   (''failure_code'', jopt JStr (st_failure_code t)),
                   (''failure_message'', jopt JStr (st_failure_message t))]))) (\<lambda>_.
        retM updated))))"

definition apply_build :: "time \<Rightarrow> build_transition \<Rightarrow> deployment \<Rightarrow> deployment" where
  "apply_build now t d =
     (let d1 = d\<lparr>d_build_status := bt_to t\<rparr>;
          d2 = (case bt_stage t of Some s \<Rightarrow> d1\<lparr>d_build_stage := Some s\<rparr> | None \<Rightarrow> d1)
      in case bt_to t of
           BClaimed \<Rightarrow>
             (let d3 = d2\<lparr>d_claimed_at := Some now\<rparr>
              in case bt_build_node_id t of
                   Some n \<Rightarrow> d3\<lparr>d_build_node_id := Some n\<rparr>
                 | None \<Rightarrow> d3)
         | BBuilding \<Rightarrow> d2\<lparr>d_build_started_at := Some now\<rparr>
         | BReady \<Rightarrow> d2\<lparr>d_build_finished_at := Some now, d_failure_code := bt_failure_code t,
             d_failure_message := bt_failure_message t\<rparr>
         | BFailed \<Rightarrow> d2\<lparr>d_build_finished_at := Some now, d_failure_code := bt_failure_code t,
             d_failure_message := bt_failure_message t\<rparr>
         | BCanceled \<Rightarrow> d2\<lparr>d_build_finished_at := Some now, d_failure_code := bt_failure_code t,
             d_failure_message := bt_failure_message t\<rparr>
         | _ \<Rightarrow> d2)"

definition transition_build ::
  "deployment \<Rightarrow> build_transition \<Rightarrow> (deployment_state_error, deployment) dbm" where
  "transition_build d t =
     (if \<not> can_transition_build (d_build_status d) (bt_to t)
      then failM (InvalidBuildTransition (build_status_value (d_build_status d))
             (build_status_value (bt_to t)))
      else
        bindM now_utc (\<lambda>now.
        bindM (mapErr StateDb (update_deployment (d_id d) (apply_build now t))) (\<lambda>updated.
        bindM (mapErr as_state_db (append_event (d_id d) EvBuild
            (''build status changed to '' @ build_status_value (bt_to t))
            (JObj [(''status'', JStr (build_status_value (bt_to t))),
                   (''stage'', jopt JStr (bt_stage t)),
                   (''failure_code'', jopt JStr (bt_failure_code t)),
                   (''failure_message'', jopt JStr (bt_failure_message t))]))) (\<lambda>_.
        retM updated))))"

definition update_stage :: "deployment \<Rightarrow> string \<Rightarrow> (anyhow, deployment) dbm" where
  "update_stage d stage =
     bindM (mapErr AnyDb
       (update_deployment (d_id d) (\<lambda>r. r\<lparr>d_build_stage := Some stage\<rparr>))) (\<lambda>updated.
     bindM (append_event (d_id d) EvBuild (''stage changed to '' @ stage)
       (JObj [(''stage'', JStr stage)])) (\<lambda>_.
     retM updated))"

definition transition_release ::
  "deployment \<Rightarrow> release_status \<Rightarrow> json \<Rightarrow> (deployment_state_error, deployment) dbm" where
  "transition_release d to metadata =
     (if \<not> can_transition_release (d_release_status d) to
      then failM (InvalidReleaseTransition (release_status_value (d_release_status d))
             (release_status_value to))
      else
        bindM (liftR (validate_release_readiness (d_release_status d) to (d_build_status d)
            (d_serve_status d))) (\<lambda>_.
        bindM (mapErr StateDb
            (update_deployment (d_id d) (\<lambda>r. r\<lparr>d_release_status := to\<rparr>))) (\<lambda>updated.
        bindM (mapErr as_state_db (append_event (d_id d) EvRelease
            (''release status changed to '' @ release_status_value to) metadata)) (\<lambda>_.
        retM updated))))"

section \<open>Activation\<close>

text \<open>The row that holds the environment, other than the target.\<close>

definition previous_active :: "world \<Rightarrow> deployment \<Rightarrow> deployment option" where
  "previous_active w target =
     find (\<lambda>d. d_project_id d = d_project_id target \<and> d_environment d = d_environment target \<and>
       d_release_status d = RActive \<and> d_id d \<noteq> d_id target \<and> d_deleted_at d = None)
       (deployments w)"

definition activate ::
  "deployment \<Rightarrow> release_reason \<Rightarrow> uuid option \<Rightarrow> (deployment_state_error, deployment) dbm" where
  "activate target reason actor =
     bindM (liftR (validate_release_readiness (d_release_status target) RActive
       (d_build_status target) (d_serve_status target))) (\<lambda>_.
     bindM (getM (\<lambda>w. previous_active w target)) (\<lambda>previous.
     bindM (case previous of
              Some prev \<Rightarrow>
                bindM (transition_release prev RApproved
                  (JObj [(''demoted_by'', JUuid (d_id target))])) (\<lambda>demoted.
                retM (Some (d_id demoted)))
            | None \<Rightarrow> retM None) (\<lambda>previous_id.
     bindM (transition_release target RActive
       (JObj [(''reason'', JStr (release_reason_value reason)),
              (''previous_deployment_id'', jopt JUuid previous_id)])) (\<lambda>activated.
     bindM now_v7 (\<lambda>i.
     bindM now_utc (\<lambda>now.
     bindM (mapErr StateDb (insert_release
       \<lparr>r_id = i, r_project_id = d_project_id target, r_deployment_id = d_id activated,
        r_environment = d_environment target, r_reason = reason, r_actor_user_id = actor,
        r_previous_deployment_id = previous_id, r_created_at = now\<rparr>)) (\<lambda>_.
     retM activated)))))))"

section \<open>Reviews\<close>

definition create_review :: "uuid \<Rightarrow> (dberr, deployment_review) dbm" where
  "create_review did =
     bindM now_utc (\<lambda>now.
     bindM now_v7 (\<lambda>i.
     insert_review
       \<lparr>v_id = i, v_deployment_id = did, v_reviewer_user_id = None, v_status = VPending,
        v_reason = None, v_requested_at = now, v_reviewed_at = None, v_created_at = now\<rparr>))"

definition request_review ::
  "deployment \<Rightarrow> uuid option \<Rightarrow> (deployment_state_error, deployment \<times> deployment_review) dbm" where
  "request_review d requested_by =
     bindM (transition_release d RPendingReview
       (JObj [(''requested_by'', jopt JUuid requested_by)])) (\<lambda>d'.
     bindM (mapErr StateDb (create_review (d_id d'))) (\<lambda>review.
     bindM (mapErr as_state_db (append_event (d_id d') EvReview ''review requested''
       (JObj [(''review_id'', JUuid (v_id review))]))) (\<lambda>_.
     retM (d', review))))"

definition latest_pending_review :: "world \<Rightarrow> uuid \<Rightarrow> deployment_review option" where
  "latest_pending_review w did =
     (case sort_key (\<lambda>v. - v_requested_at v)
         (filter (\<lambda>v. v_deployment_id v = did \<and> v_status v = VPending) (reviews w)) of
        [] \<Rightarrow> None
      | v # _ \<Rightarrow> Some v)"

definition resolve_review ::
  "deployment_review \<Rightarrow> uuid \<Rightarrow> bool \<Rightarrow> string option \<Rightarrow> (anyhow, deployment_review) dbm" where
  "resolve_review review reviewer approved reason =
     bindM now_utc (\<lambda>now.
     mapErr AnyDb (update_review (v_id review)
       (\<lambda>v. v\<lparr>v_reviewer_user_id := Some reviewer,
              v_status := (if approved then VApproved else VRejected),
              v_reason := reason, v_reviewed_at := Some now\<rparr>)))"

definition list_reviews :: "world \<Rightarrow> uuid \<Rightarrow> deployment_review list" where
  "list_reviews w did =
     sort_key (\<lambda>v. - v_requested_at v) (filter (\<lambda>v. v_deployment_id v = did) (reviews w))"

section \<open>Review policy\<close>

datatype review_mode = ModeManual | ModeAuto

datatype ready_release_action = ActActivate | ActRequestReview | ActNone

definition ready_release_action :: "review_mode \<Rightarrow> release_status \<Rightarrow> ready_release_action" where
  "ready_release_action mode status =
     (if status \<noteq> RDraft then ActNone
      else case mode of ModeManual \<Rightarrow> ActRequestReview | ModeAuto \<Rightarrow> ActNone)"

definition serve_ready_release_action ::
  "review_mode \<Rightarrow> release_status \<Rightarrow> ready_release_action" where
  "serve_ready_release_action mode status =
     (if mode = ModeAuto \<and> status = RDraft then ActActivate else ActNone)"

record review_policy =
  rp_production :: review_mode
  rp_preview :: review_mode

definition mode_for :: "review_policy \<Rightarrow> deployment_environment \<Rightarrow> review_mode" where
  "mode_for policy env = (case env of Production \<Rightarrow> rp_production policy | Preview \<Rightarrow> rp_preview policy)"

definition default_review_policy :: review_policy where
  "default_review_policy = \<lparr>rp_production = ModeManual, rp_preview = ModeAuto\<rparr>"

definition parse_mode :: "json option \<Rightarrow> review_mode \<Rightarrow> review_mode" where
  "parse_mode value dflt =
     (case Option.bind value json_as_str of
        Some s \<Rightarrow> if s = ''auto'' then ModeAuto else if s = ''manual'' then ModeManual else dflt
      | None \<Rightarrow> dflt)"

definition get_setting :: "world \<Rightarrow> string \<Rightarrow> system_setting option" where
  "get_setting w key = find (\<lambda>s. s_key s = key) (settings w)"

definition review_policy :: "world \<Rightarrow> review_policy" where
  "review_policy w =
     (case get_setting w ''release_review_policy.default'' of
        Some s \<Rightarrow>
          \<lparr>rp_production = parse_mode (json_get ''production'' (s_value s))
             (rp_production default_review_policy),
           rp_preview = parse_mode (json_get ''preview'' (s_value s))
             (rp_preview default_review_policy)\<rparr>
      | None \<Rightarrow> default_review_policy)"

definition apply_review_policy_override :: "review_policy \<Rightarrow> json option \<Rightarrow> review_policy" where
  "apply_review_policy_override defaults policy =
     \<lparr>rp_production = parse_mode (Option.bind policy (json_get ''production''))
        (rp_production defaults),
      rp_preview = parse_mode (Option.bind policy (json_get ''preview'')) (rp_preview defaults)\<rparr>"

definition review_policy_for_team :: "uuid \<Rightarrow> (anyhow, review_policy) dbm" where
  "review_policy_for_team tid =
     bindM (getM review_policy) (\<lambda>defaults.
     bindM (getM (\<lambda>w. find_row t_id tid (teams w))) (\<lambda>found.
     bindM (okOr (AnyMsg ''team not found while resolving review policy'') found) (\<lambda>team.
     (case t_group_id team of
        None \<Rightarrow> retM defaults
      | Some gid \<Rightarrow>
          bindM (getM (\<lambda>w. find (\<lambda>g. g_id g = gid \<and> g_deleted_at g = None) (team_groups w))) (\<lambda>group.
          retM (apply_review_policy_override defaults
            (Option.bind group g_review_policy)))))))"

fun runtime_failure :: "project_runtime \<Rightarrow> (string \<times> string) option" where
  "runtime_failure Static = None"
| "runtime_failure Ssr = None"
| "runtime_failure Hybrid =
     Some (''runtime_not_implemented'', ''Hybrid runtime is not implemented yet'')"
| "runtime_failure Serverless =
     Some (''runtime_not_implemented'', ''Serverless runtime is not implemented yet'')"
| "runtime_failure Edge =
     Some (''runtime_not_implemented'', ''Edge runtime is not implemented yet'')"

section \<open>Every operation only extends the state\<close>

lemma identity_update [simp]:
  "identity_of (d\<lparr>d_release_status := a\<rparr>) = identity_of d"
  "identity_of (d\<lparr>d_build_stage := b\<rparr>) = identity_of d"
  "identity_of (apply_serve now st d) = identity_of d"
  "identity_of (apply_build now bt d) = identity_of d"
  by (simp_all add: identity_of_def apply_serve_def apply_build_def Let_def
      split: serve_status.splits build_status.splits option.splits)

lemma append_event_ok: "runs extends (append_event did kind message metadata)"
  unfolding append_event_def by (intro ext.rules statement_ok)

lemma transition_serve_ok: "runs extends (transition_serve d st)"
  unfolding transition_serve_def by (intro ext.rules statement_ok append_event_ok identity_update)

lemma transition_build_ok: "runs extends (transition_build d bt)"
  unfolding transition_build_def by (intro ext.rules statement_ok append_event_ok identity_update)

lemma transition_release_ok: "runs extends (transition_release d to metadata)"
  unfolding transition_release_def by (intro ext.rules statement_ok append_event_ok identity_update)

lemma update_stage_ok: "runs extends (update_stage d stage)"
  unfolding update_stage_def by (intro ext.rules statement_ok append_event_ok identity_update)

lemma activate_ok: "runs extends (activate target reason actor)"
  unfolding activate_def by (intro ext.rules statement_ok transition_release_ok)

lemma create_deployment_ok: "runs extends (create_deployment params pl)"
  unfolding create_deployment_def Let_def try_i64_any_def
  by (intro ext.rules statement_ok append_event_ok)

lemma request_review_ok: "runs extends (request_review d by_user)"
  unfolding request_review_def create_review_def
  by (intro ext.rules statement_ok append_event_ok transition_release_ok)

lemma review_policy_for_team_ok: "runs extends (review_policy_for_team tid)"
  unfolding review_policy_for_team_def by (intro ext.rules)

lemmas deployment_ok = append_event_ok transition_serve_ok transition_build_ok
  transition_release_ok update_stage_ok activate_ok create_deployment_ok request_review_ok
  review_policy_for_team_ok

section \<open>The constraints, row by row\<close>

text \<open>A partial unique index: at most one row per value of \<open>g\<close> among those that satisfy \<open>P\<close>.\<close>

definition unique_on :: "('r \<Rightarrow> bool) \<Rightarrow> ('r \<Rightarrow> 'k) \<Rightarrow> 'r list \<Rightarrow> bool" where
  "unique_on P g rows \<longleftrightarrow>
     (\<forall>x\<in>set rows. \<forall>y\<in>set rows. P x \<longrightarrow> P y \<longrightarrow> g x = g y \<longrightarrow> x = y)"

lemma unique_onD: "unique_on P g rows \<Longrightarrow> x \<in> set rows \<Longrightarrow> y \<in> set rows \<Longrightarrow> P x \<Longrightarrow> P y \<Longrightarrow>
  g x = g y \<Longrightarrow> x = y"
  by (simp add: unique_on_def)

lemma unique_on_update:
  assumes uniq: "unique_on P g rows"
    and f: "\<And>d. d \<in> set rows \<Longrightarrow> p d \<Longrightarrow> g (f d) = g d" "\<And>d. d \<in> set rows \<Longrightarrow> p d \<Longrightarrow> P (f d) \<Longrightarrow> P d"
  shows "unique_on P g (update_where p f rows)"
proof -
  let ?h = "\<lambda>d. if p d then f d else d"
  have "?h x = ?h y" if "x \<in> set rows" "y \<in> set rows" "P (?h x)" "P (?h y)" "g (?h x) = g (?h y)" for x y
  proof -
    have "P x" "P y" "g x = g y" using that f by (auto split: if_splits)
    then have "x = y" using uniq that(1,2) by (simp add: unique_on_def)
    then show ?thesis by simp
  qed
  then show ?thesis unfolding unique_on_def set_update_where ball_simps by blast
qed

lemma unique_on_promote:
  assumes uniq: "unique_on P g rows" and d: "d \<in> set rows"
    and one: "\<And>x. x \<in> set rows \<Longrightarrow> p x \<Longrightarrow> x = d"
    and free: "\<And>x. x \<in> set rows \<Longrightarrow> P x \<Longrightarrow> \<not> p x \<Longrightarrow> g x \<noteq> g (f d)"
  shows "unique_on P g (update_where p f rows)"
proof -
  have "set (update_where p f rows) \<subseteq> insert (f d) {x \<in> set rows. \<not> p x}"
    using one by (auto simp: set_update_where)
  moreover have "unique_on P g (f d # filter (\<lambda>x. \<not> p x) rows)"
    using uniq free by (auto simp: unique_on_def) metis
  ultimately show ?thesis by (auto simp: unique_on_def)
qed

lemma deployments_con_iff:
  "deployments_con rows = None \<longleftrightarrow>
   distinct (map d_id rows) \<and> unique_on is_active env_key rows \<and>
   unique_on is_pending env_key rows \<and> (\<forall>d\<in>set rows. deployment_checks d)"
proof -
  have "distinct (map env_key (filter P rows)) \<longleftrightarrow> unique_on P env_key rows"
    if "distinct (map d_id rows)" for P
    using that by (auto simp: distinct_map inj_on_def unique_on_def)
  then show ?thesis
    by (auto simp: deployments_con_None one_active_index_def one_pending_index_def list_all_iff)
qed

lemma con_row_unique:
  "deployments_con rows = None \<Longrightarrow> x \<in> set rows \<Longrightarrow> y \<in> set rows \<Longrightarrow> d_id x = d_id y \<Longrightarrow> x = y"
  using dep.row_unique by blast

lemma con_update:
  assumes con: "deployments_con rows = None"
    and f: "\<And>d. d \<in> set rows \<Longrightarrow> p d \<Longrightarrow> d_id (f d) = d_id d"
      "\<And>d. d \<in> set rows \<Longrightarrow> p d \<Longrightarrow> env_key (f d) = env_key d"
      "\<And>d. d \<in> set rows \<Longrightarrow> p d \<Longrightarrow> is_active (f d) \<Longrightarrow> is_active d"
      "\<And>d. d \<in> set rows \<Longrightarrow> p d \<Longrightarrow> is_pending (f d) \<Longrightarrow> is_pending d"
      "\<And>d. d \<in> set rows \<Longrightarrow> p d \<Longrightarrow> deployment_checks d \<Longrightarrow> deployment_checks (f d)"
  shows "deployments_con (update_where p f rows) = None"
proof -
  have "map d_id (update_where p f rows) = map d_id rows"
    using f(1) by (simp add: update_where_def)
  moreover have "unique_on is_active env_key (update_where p f rows)"
    using con f(2,3) by (intro unique_on_update) (auto simp: deployments_con_iff)
  moreover have "unique_on is_pending env_key (update_where p f rows)"
    using con f(2,4) by (intro unique_on_update) (auto simp: deployments_con_iff)
  moreover have "\<forall>d\<in>set (update_where p f rows). deployment_checks d"
    using con f(5) by (auto simp: deployments_con_iff set_update_where)
  ultimately show ?thesis using con by (simp add: deployments_con_iff)
qed

text \<open>A row may become active when no other row of its environment is.\<close>

lemma con_promote:
  assumes con: "deployments_con rows = None" and target: "target \<in> set rows"
    and f: "\<And>d. d_id (f d) = d_id d" "\<And>d. env_key (f d) = env_key d"
      "\<And>d. is_pending (f d) \<Longrightarrow> is_pending d" "\<And>d. deployment_checks d \<Longrightarrow> deployment_checks (f d)"
    and free: "\<And>d. d \<in> set rows \<Longrightarrow> is_active d \<Longrightarrow> d_id d \<noteq> d_id target \<Longrightarrow>
      env_key d \<noteq> env_key target"
  shows "deployments_con (update_where (\<lambda>d. d_id d = d_id target) f rows) = None"
proof -
  let ?rows = "update_where (\<lambda>d. d_id d = d_id target) f rows"
  have "map d_id ?rows = map d_id rows" using f(1) by (simp add: map_update_where)
  moreover have "unique_on is_active env_key ?rows"
    using con target free f(2)
    by (intro unique_on_promote[where d = target]) (auto simp: deployments_con_iff intro: con_row_unique[OF con])
  moreover have "unique_on is_pending env_key ?rows"
    using con f(2,3) by (intro unique_on_update) (auto simp: deployments_con_iff)
  moreover have "\<forall>d\<in>set ?rows. deployment_checks d"
    using con f(4) by (auto simp: deployments_con_iff set_update_where)
  ultimately show ?thesis using con by (simp add: deployments_con_iff)
qed

section \<open>What a transition does to the state\<close>

definition set_row :: "uuid \<Rightarrow> (deployment \<Rightarrow> deployment) \<Rightarrow> world \<Rightarrow> world" where
  "set_row i f w =
     put_deployments (update_where (\<lambda>d. d_id d = i) (\<lambda>d. touch_deployment (sql_now w) (f d))
       (deployments w)) w"

definition event_at :: "world \<Rightarrow> uuid \<Rightarrow> event_kind \<Rightarrow> string \<Rightarrow> json \<Rightarrow> deployment_event" where
  "event_at w did kind message metadata =
     \<lparr>e_id = uuids w (uuid_pos w), e_deployment_id = did, e_kind = kind, e_message = message,
      e_metadata = metadata, e_created_at = clock w (clock_pos w)\<rparr>"

definition log_event :: "uuid \<Rightarrow> event_kind \<Rightarrow> string \<Rightarrow> json \<Rightarrow> world \<Rightarrow> world" where
  "log_event did kind message metadata w =
     w\<lparr>events := events w @ [event_at w did kind message metadata],
       clock_pos := Suc (clock_pos w), uuid_pos := Suc (uuid_pos w)\<rparr>"

lemma append_event_run:
  "append_event did kind message metadata w =
   (Inr (event_at w did kind message metadata), log_event did kind message metadata w)"
  by (simp add: append_event_def bindM_def now_v7_def now_utc_def mapErr_def insert_event_def
      event_at_def log_event_def)

lemma set_row_simps [simp]:
  "deployments (set_row i f w) =
     update_where (\<lambda>d. d_id d = i) (\<lambda>d. touch_deployment (sql_now w) (f d)) (deployments w)"
  "events (set_row i f w) = events w" "releases (set_row i f w) = releases w"
  "reviews (set_row i f w) = reviews w" "audit_log (set_row i f w) = audit_log w"
  "clock_pos (set_row i f w) = clock_pos w" "uuid_pos (set_row i f w) = uuid_pos w"
  "dice_pos (set_row i f w) = dice_pos w" "outside (set_row i f w) = outside w"
  "sql_now (set_row i f w) = sql_now w"
  by (simp_all add: set_row_def put_deployments_def outside_def)

lemma log_event_simps [simp]:
  "deployments (log_event did k m j w) = deployments w"
  "events (log_event did k m j w) = events w @ [event_at w did k m j]"
  "releases (log_event did k m j w) = releases w"
  "reviews (log_event did k m j w) = reviews w" "audit_log (log_event did k m j w) = audit_log w"
  "outside (log_event did k m j w) = outside w" "sql_now (log_event did k m j w) = sql_now w"
  by (simp_all add: log_event_def outside_def)

lemma update_deployment_set_row:
  "find_row d_id i (deployments w) = Some d \<Longrightarrow>
   deployments_con (deployments (set_row i f w)) = None \<Longrightarrow>
   update_deployment i f w = (Inr (touch_deployment (sql_now w) (f d)), set_row i f w)"
  by (simp add: update_deployment_run set_row_def)

lemma status_update_flags [simp]:
  "env_key (d\<lparr>d_release_status := a\<rparr>) = env_key d"
  "is_pending (d\<lparr>d_release_status := a\<rparr>) = is_pending d"
  "is_active (d\<lparr>d_release_status := a\<rparr>) \<longleftrightarrow> a = RActive \<and> d_deleted_at d = None"
  "deployment_checks (d\<lparr>d_release_status := a\<rparr>) = deployment_checks d"
  "env_key (touch_deployment now d) = env_key d"
  "is_pending (touch_deployment now d) = is_pending d"
  "is_active (touch_deployment now d) = is_active d"
  "deployment_checks (touch_deployment now d) = deployment_checks d"
  by (simp_all add: env_key_def is_pending_def is_active_def deployment_checks_def)

lemma apply_serve_flags [simp]:
  "env_key (apply_serve now st d) = env_key d"
  "is_pending (apply_serve now st d) = is_pending d"
  "is_active (apply_serve now st d) = is_active d"
  "deployment_checks (apply_serve now st d) = deployment_checks d"
  "d_id (apply_serve now st d) = d_id d"
  "d_serve_status (apply_serve now st d) = st_to st"
  "d_build_status (apply_serve now st d) = d_build_status d"
  "d_release_status (apply_serve now st d) = d_release_status d"
  "d_serve_node_id (apply_serve now st d) = d_serve_node_id d"
  "d_pending_release_reason (apply_serve now st d) = d_pending_release_reason d"
  "d_deleted_at (apply_serve now st d) = d_deleted_at d"
  by (simp_all add: apply_serve_def env_key_def is_pending_def is_active_def deployment_checks_def
      split: serve_status.splits)

lemma apply_build_flags [simp]:
  "env_key (apply_build now bt d) = env_key d"
  "is_pending (apply_build now bt d) = is_pending d"
  "is_active (apply_build now bt d) = is_active d"
  "deployment_checks (apply_build now bt d) = deployment_checks d"
  "d_id (apply_build now bt d) = d_id d"
  "d_build_status (apply_build now bt d) = bt_to bt"
  "d_serve_status (apply_build now bt d) = d_serve_status d"
  "d_release_status (apply_build now bt d) = d_release_status d"
  "d_serve_node_id (apply_build now bt d) = d_serve_node_id d"
  "d_pending_release_reason (apply_build now bt d) = d_pending_release_reason d"
  "d_deleted_at (apply_build now bt d) = d_deleted_at d"
  by (simp_all add: apply_build_def Let_def env_key_def is_pending_def is_active_def
      deployment_checks_def split: build_status.splits option.splits)

lemma transition_serve_run:
  assumes "can_transition_serve (d_serve_status d) (st_to st)"
    and "find_row d_id (d_id d) (deployments w) = Some r"
    and "deployments_con (deployments w) = None"
  shows "transition_serve d st w =
    (Inr (touch_deployment (sql_now w) (apply_serve (clock w (clock_pos w)) st r)),
     log_event (d_id d) EvServe (''serve status changed to '' @ serve_status_value (st_to st))
       (JObj [(''status'', JStr (serve_status_value (st_to st))),
              (''failure_code'', jopt JStr (st_failure_code st)),
              (''failure_message'', jopt JStr (st_failure_message st))])
       (set_row (d_id d) (apply_serve (clock w (clock_pos w)) st)
         (w\<lparr>clock_pos := Suc (clock_pos w)\<rparr>)))"
proof -
  let ?w = "w\<lparr>clock_pos := Suc (clock_pos w)\<rparr>"
  have "update_deployment (d_id d) (apply_serve (clock w (clock_pos w)) st) ?w =
      (Inr (touch_deployment (sql_now ?w) (apply_serve (clock w (clock_pos w)) st r)),
       set_row (d_id d) (apply_serve (clock w (clock_pos w)) st) ?w)"
    using assms by (intro update_deployment_set_row) (auto intro!: con_update)
  with assms(1) show ?thesis
    by (simp add: transition_serve_def bindM_def now_utc_def mapErr_def append_event_run retM_def)
qed

lemma transition_build_run:
  assumes "can_transition_build (d_build_status d) (bt_to bt)"
    and "find_row d_id (d_id d) (deployments w) = Some r"
    and "deployments_con (deployments w) = None"
  shows "transition_build d bt w =
    (Inr (touch_deployment (sql_now w) (apply_build (clock w (clock_pos w)) bt r)),
     log_event (d_id d) EvBuild (''build status changed to '' @ build_status_value (bt_to bt))
       (JObj [(''status'', JStr (build_status_value (bt_to bt))),
              (''stage'', jopt JStr (bt_stage bt)),
              (''failure_code'', jopt JStr (bt_failure_code bt)),
              (''failure_message'', jopt JStr (bt_failure_message bt))])
       (set_row (d_id d) (apply_build (clock w (clock_pos w)) bt)
         (w\<lparr>clock_pos := Suc (clock_pos w)\<rparr>)))"
proof -
  let ?w = "w\<lparr>clock_pos := Suc (clock_pos w)\<rparr>"
  have "update_deployment (d_id d) (apply_build (clock w (clock_pos w)) bt) ?w =
      (Inr (touch_deployment (sql_now ?w) (apply_build (clock w (clock_pos w)) bt r)),
       set_row (d_id d) (apply_build (clock w (clock_pos w)) bt) ?w)"
    using assms by (intro update_deployment_set_row) (auto intro!: con_update)
  with assms(1) show ?thesis
    by (simp add: transition_build_def bindM_def now_utc_def mapErr_def append_event_run retM_def)
qed

lemma transition_release_run:
  assumes "can_transition_release (d_release_status d) to"
    and "validate_release_readiness (d_release_status d) to (d_build_status d) (d_serve_status d) = Inr ()"
    and "find_row d_id (d_id d) (deployments w) = Some r"
    and "deployments_con (deployments (set_row (d_id d) (\<lambda>r. r\<lparr>d_release_status := to\<rparr>) w)) = None"
  shows "transition_release d to metadata w =
    (Inr (touch_deployment (sql_now w) (r\<lparr>d_release_status := to\<rparr>)),
     log_event (d_id d) EvRelease (''release status changed to '' @ release_status_value to) metadata
       (set_row (d_id d) (\<lambda>r. r\<lparr>d_release_status := to\<rparr>) w))"
  using assms
  by (simp add: transition_release_def bindM_def mapErr_def append_event_run retM_def
      update_deployment_set_row)

text \<open>What a successful transition has checked.\<close>

lemma transition_release_Inr:
  "transition_release d to metadata w = (Inr q, v) \<Longrightarrow>
   can_transition_release (d_release_status d) to \<and>
   validate_release_readiness (d_release_status d) to (d_build_status d) (d_serve_status d) = Inr () \<and>
   (\<exists>r. find_row d_id (d_id d) (deployments w) = Some r \<and>
      q = touch_deployment (sql_now w) (r\<lparr>d_release_status := to\<rparr>)) \<and>
   deployments v = deployments (set_row (d_id d) (\<lambda>r. r\<lparr>d_release_status := to\<rparr>) w)"
  by (auto simp: transition_release_def oper_Inr append_event_run update_deployment_Inr failM_def
      split: if_splits)

lemma transition_serve_Inr:
  "transition_serve d st w = (Inr q, v) \<Longrightarrow>
   can_transition_serve (d_serve_status d) (st_to st) \<and>
   (\<exists>r now. find_row d_id (d_id d) (deployments w) = Some r \<and>
      q = touch_deployment (sql_now w) (apply_serve now st r) \<and>
      deployments v = deployments (set_row (d_id d) (apply_serve now st) w))"
  by (auto simp: transition_serve_def oper_Inr append_event_run update_deployment_Inr failM_def
      now_utc_def split: if_splits)

lemma transition_build_Inr:
  "transition_build d bt w = (Inr q, v) \<Longrightarrow>
   can_transition_build (d_build_status d) (bt_to bt) \<and>
   (\<exists>r now. find_row d_id (d_id d) (deployments w) = Some r \<and>
      q = touch_deployment (sql_now w) (apply_build now bt r) \<and>
      deployments v = deployments (set_row (d_id d) (apply_build now bt) w))"
  by (auto simp: transition_build_def oper_Inr append_event_run update_deployment_Inr failM_def
      now_utc_def split: if_splits)

section \<open>Activation takes over the environment\<close>

definition after_activation :: "time \<Rightarrow> deployment \<Rightarrow> deployment \<Rightarrow> deployment" where
  "after_activation now target d =
     (if d_id d = d_id target then touch_deployment now (d\<lparr>d_release_status := RActive\<rparr>)
      else if is_active d \<and> env_key d = env_key target
        then touch_deployment now (d\<lparr>d_release_status := RApproved\<rparr>)
      else d)"

lemma previous_active_eq:
  "previous_active w target =
   find (\<lambda>d. is_active d \<and> env_key d = env_key target \<and> d_id d \<noteq> d_id target) (deployments w)"
  unfolding previous_active_def
  by (rule arg_cong[where f = "\<lambda>p. find p (deployments w)"])
    (auto simp: fun_eq_iff is_active_def env_key_def)

lemma previous_active_Some:
  "previous_active w target = Some prev \<Longrightarrow>
   prev \<in> set (deployments w) \<and> is_active prev \<and> env_key prev = env_key target \<and>
   d_id prev \<noteq> d_id target"
  unfolding previous_active_eq using find_Some_iff_mem by fastforce

lemma release_readiness_demote [simp]:
  "validate_release_readiness RActive RApproved build serve = Inr ()"
  "validate_release_readiness RActive RDraft build serve = Inr ()"
  by (simp_all add: validate_release_readiness_def)

lemma demote_run:
  assumes con: "deployments_con (deployments w) = None"
    and prev: "prev \<in> set (deployments w)" "is_active prev"
    and to: "to = RApproved \<or> to = RDraft"
  shows "transition_release prev to metadata w =
    (Inr (touch_deployment (sql_now w) (prev\<lparr>d_release_status := to\<rparr>)),
     log_event (d_id prev) EvRelease (''release status changed to '' @ release_status_value to)
       metadata (set_row (d_id prev) (\<lambda>r. r\<lparr>d_release_status := to\<rparr>) w))"
    and "deployments_con (deployments (set_row (d_id prev) (\<lambda>r. r\<lparr>d_release_status := to\<rparr>) w)) = None"
proof -
  show c: "deployments_con (deployments (set_row (d_id prev) (\<lambda>r. r\<lparr>d_release_status := to\<rparr>) w)) = None"
    using con to by (auto intro!: con_update)
  show "transition_release prev to metadata w =
    (Inr (touch_deployment (sql_now w) (prev\<lparr>d_release_status := to\<rparr>)),
     log_event (d_id prev) EvRelease (''release status changed to '' @ release_status_value to)
       metadata (set_row (d_id prev) (\<lambda>r. r\<lparr>d_release_status := to\<rparr>) w))"
    using con prev to c by (intro transition_release_run) (auto simp: is_active_def dep.row_found)
qed

lemma promote_run:
  assumes con: "deployments_con (deployments w) = None" and target: "target \<in> set (deployments w)"
    and ready: "d_build_status target = BReady" "d_serve_status target = SReady"
      "d_release_status target = RDraft \<or> d_release_status target = RApproved"
    and free: "\<And>d. d \<in> set (deployments w) \<Longrightarrow> is_active d \<Longrightarrow> d_id d \<noteq> d_id target \<Longrightarrow>
      env_key d \<noteq> env_key target"
  shows "transition_release target RActive metadata w =
    (Inr (touch_deployment (sql_now w) (target\<lparr>d_release_status := RActive\<rparr>)),
     log_event (d_id target) EvRelease (''release status changed to '' @ release_status_value RActive)
       metadata (set_row (d_id target) (\<lambda>r. r\<lparr>d_release_status := RActive\<rparr>) w))"
proof (rule transition_release_run)
  show "deployments_con (deployments (set_row (d_id target)
      (\<lambda>r. r\<lparr>d_release_status := RActive\<rparr>) w)) = None"
    using con target free by (auto intro!: con_promote)
qed (use con target ready in \<open>auto simp: dep.row_found validate_release_readiness_def\<close>)

lemma activate_after_demotion:
  assumes con: "deployments_con (deployments w) = None" and target: "target \<in> set (deployments w)"
    and prev: "prev \<in> set (deployments w)" "is_active prev" "env_key prev = env_key target"
      "d_id prev \<noteq> d_id target"
  defines "rows \<equiv> deployments (set_row (d_id prev) (\<lambda>r. r\<lparr>d_release_status := RApproved\<rparr>) w)"
  shows "target \<in> set rows"
    and "\<And>d. d \<in> set rows \<Longrightarrow> is_active d \<Longrightarrow> env_key d \<noteq> env_key target"
    and "update_where (\<lambda>d. d_id d = d_id target)
        (\<lambda>d. touch_deployment (sql_now w) (d\<lparr>d_release_status := RActive\<rparr>)) rows =
      map (after_activation (sql_now w) target) (deployments w)"
proof -
  have only: "d = prev" if "d \<in> set (deployments w)" "is_active d" "env_key d = env_key target" for d
    using con that prev unfolding deployments_con_iff by (auto elim: unique_onD)
  have prev_id: "d = prev" if "d \<in> set (deployments w)" "d_id d = d_id prev" for d
    using con_row_unique[OF con] that prev by blast
  show "target \<in> set rows"
    using target prev(4) unfolding rows_def set_row_simps set_update_where by force
  show "env_key d \<noteq> env_key target" if "d \<in> set rows" "is_active d" for d
    using that only unfolding rows_def set_row_simps set_update_where by (auto split: if_splits)
  show "update_where (\<lambda>d. d_id d = d_id target)
        (\<lambda>d. touch_deployment (sql_now w) (d\<lparr>d_release_status := RActive\<rparr>)) rows =
      map (after_activation (sql_now w) target) (deployments w)"
    unfolding rows_def set_row_simps update_where_def map_map
  proof (rule map_cong[OF refl])
    fix d
    assume d: "d \<in> set (deployments w)"
    show "((\<lambda>d. if d_id d = d_id target
          then touch_deployment (sql_now w) (d\<lparr>d_release_status := RActive\<rparr>) else d) \<circ>
        (\<lambda>d. if d_id d = d_id prev
          then touch_deployment (sql_now w) (d\<lparr>d_release_status := RApproved\<rparr>) else d)) d =
      after_activation (sql_now w) target d"
    proof (cases "d = prev")
      case True
      with prev show ?thesis by (simp add: after_activation_def)
    next
      case False
      then have "d_id d \<noteq> d_id prev" "\<not> (is_active d \<and> env_key d = env_key target)"
        using prev_id[OF d] only[OF d] by blast+
      then show ?thesis by (auto simp: after_activation_def)
    qed
  qed
qed

definition activation_release ::
  "world \<Rightarrow> world \<Rightarrow> deployment \<Rightarrow> release_reason \<Rightarrow> uuid option \<Rightarrow> release \<Rightarrow> bool" where
  "activation_release w v target reason actor r \<longleftrightarrow>
     releases v = releases w @ [r] \<and> r_project_id r = d_project_id target \<and>
     r_deployment_id r = d_id target \<and> r_environment r = d_environment target \<and>
     r_reason r = reason \<and> r_actor_user_id r = actor \<and>
     r_previous_deployment_id r = map_option d_id (previous_active w target)"

lemma activate_run:
  assumes con: "deployments_con (deployments w) = None" and target: "target \<in> set (deployments w)"
    and ready: "d_build_status target = BReady" "d_serve_status target = SReady"
      "d_release_status target = RDraft \<or> d_release_status target = RApproved"
  shows "\<exists>v r. activate target reason actor w =
      (Inr (touch_deployment (sql_now w) (target\<lparr>d_release_status := RActive\<rparr>)), v) \<and>
    deployments v = map (after_activation (sql_now w) target) (deployments w) \<and>
    activation_release w v target reason actor r"
proof (cases "previous_active w target")
  case None
  then have free: "\<And>d. d \<in> set (deployments w) \<Longrightarrow> is_active d \<Longrightarrow> d_id d \<noteq> d_id target \<Longrightarrow>
      env_key d \<noteq> env_key target"
    by (auto simp: previous_active_eq find_None_iff_ball)
  have rows: "update_where (\<lambda>d. d_id d = d_id target)
        (\<lambda>d. touch_deployment (sql_now w) (d\<lparr>d_release_status := RActive\<rparr>)) (deployments w) =
      map (after_activation (sql_now w) target) (deployments w)"
    using free by (auto simp: update_where_def after_activation_def)
  show ?thesis
    using None ready rows promote_run[OF con target ready free]
    by (auto simp: activate_def bindM_def getM_def retM_def now_v7_def now_utc_def mapErr_def
        insert_release_def validate_release_readiness_def activation_release_def)
next
  case (Some prev)
  note prev = previous_active_Some[OF Some]
  let ?m = "JObj [(''demoted_by'', JUuid (d_id target))]"
  let ?w = "log_event (d_id prev) EvRelease (''release status changed to '' @ release_status_value RApproved)
       ?m (set_row (d_id prev) (\<lambda>r. r\<lparr>d_release_status := RApproved\<rparr>) w)"
  note after = activate_after_demotion[OF con target, of prev]
  have demote: "transition_release prev RApproved ?m w =
      (Inr (touch_deployment (sql_now w) (prev\<lparr>d_release_status := RApproved\<rparr>)), ?w)"
    and con': "deployments_con (deployments ?w) = None"
    using demote_run[OF con, of prev RApproved] prev by auto
  have promote: "transition_release target RActive metadata ?w =
    (Inr (touch_deployment (sql_now ?w) (target\<lparr>d_release_status := RActive\<rparr>)),
     log_event (d_id target) EvRelease (''release status changed to '' @ release_status_value RActive)
       metadata (set_row (d_id target) (\<lambda>r. r\<lparr>d_release_status := RActive\<rparr>) ?w))" for metadata
    using after prev by (intro promote_run[OF con' _ ready]) auto
  have rows: "deployments (set_row (d_id target) (\<lambda>r. r\<lparr>d_release_status := RActive\<rparr>) ?w) =
      map (after_activation (sql_now w) target) (deployments w)"
    using after(3) prev by simp
  show ?thesis
    using Some ready rows[simplified]
    by (simp add: activate_def bindM_def getM_def retM_def now_v7_def now_utc_def mapErr_def
        insert_release_def validate_release_readiness_def activation_release_def
        demote promote[simplified])
qed

text \<open>
  C1. Activating a deployment with a ready build and a ready Serve state, from draft or approved,
  always succeeds: the deployment that held the project environment is demoted to approved
  before the target becomes active, so the one-active-per-environment index is never violated;
  no other row changes, the target is the deployment \<open>find_active\<close> returns afterwards, and one
  release row records the reason, the actor and the deployment replaced.
\<close>

theorem activate_takes_over:
  assumes con: "deployments_con (deployments w) = None" and target: "target \<in> set (deployments w)"
    and live: "d_deleted_at target = None"
    and ready: "d_build_status target = BReady" "d_serve_status target = SReady"
      "d_release_status target = RDraft \<or> d_release_status target = RApproved"
  shows "\<exists>t v r. activate target reason actor w = (Inr t, v) \<and>
    t = touch_deployment (sql_now w) (target\<lparr>d_release_status := RActive\<rparr>) \<and>
    deployments v = map (after_activation (sql_now w) target) (deployments w) \<and>
    deployments_con (deployments v) = None \<and>
    find_active v (d_project_id target) (d_environment target) = Some t \<and>
    activation_release w v target reason actor r"
proof -
  let ?t = "touch_deployment (sql_now w) (target\<lparr>d_release_status := RActive\<rparr>)"
  from activate_run[OF con target ready] obtain v r where
    run: "activate target reason actor w = (Inr ?t, v)" and
    rows: "deployments v = map (after_activation (sql_now w) target) (deployments w)" and
    rel: "activation_release w v target reason actor r" by blast
  have con': "deployments_con (deployments v) = None"
    using runsD[OF activate_ok run] con by (simp add: extends_def)
  have t: "?t \<in> set (deployments v)"
    using target unfolding rows by (force simp: after_activation_def)
  have only: "d = ?t" if "d \<in> set (deployments v)" "is_active d" "env_key d = env_key target" for d
    using con' t that live unfolding deployments_con_iff by (auto elim: unique_onD)
  have "find_active v (d_project_id target) (d_environment target) = Some ?t"
  proof (cases "find_active v (d_project_id target) (d_environment target)")
    case None
    with t live show ?thesis by (auto simp: find_active_def find_None_iff_ball)
  next
    case (Some d)
    then have "d \<in> set (deployments v)" "is_active d" "env_key d = env_key target"
      unfolding find_active_def by (auto dest!: find_Some_iff_mem simp: is_active_def env_key_def)
    with Some only show ?thesis by simp
  qed
  with run rows con' rel show ?thesis by blast
qed

text \<open>Deployment 1 is live in production and deployment 2 takes over.\<close>

theorem activate_takes_over_witness:
  "let live = sample_deployment 1 Production BReady SReady RActive (Some 7);
       ready = sample_deployment 2 Production BReady SReady RApproved (Some 7)
   in \<exists>t v. activate ready ReasonPromote (Some 9) (sample_world [live, ready] []) = (Inr t, v) \<and>
        find_active v 100 Production = Some t \<and> d_id t = 2 \<and>
        map d_release_status (deployments v) = [RApproved, RActive]"
proof -
  let ?live = "sample_deployment 1 Production BReady SReady RActive (Some 7)"
  let ?ready = "sample_deployment 2 Production BReady SReady RApproved (Some 7)"
  have "deployments_con (deployments (sample_world [?live, ?ready] [])) = None"
    by (simp add: sample_con)
  from activate_takes_over[OF this, of ?ready ReasonPromote "Some 9"] show ?thesis
    by (auto simp: after_activation_def Let_def)
qed

end
