(* ===== verification/Delivery.thy ===== *)
theory Delivery
  imports Deployments "HOL-Library.Product_Lexorder"
begin

text \<open>
  Delivery (\<open>domain/delivery.rs\<close>): which deployments of a project environment keep a Serve
  assignment, the release request with its waiting state, its completion once the Node reports
  ready, the removal of a publication and the reconciliation of the environment.
\<close>

section \<open>Errors and outcomes\<close>

datatype delivery_error =
    DelDatabase dberr
  | DelSchedule schedule_error
  | DelState deployment_state_error
  | ReleaseAlreadyPending
  | InvalidResources
  | InvalidUnsuccessfulBuildTransition
  | DelOther anyhow

datatype release_request_action = RqActivate | RqQueueSync

datatype release_request_outcome = RqActivated deployment | RqSyncQueued deployment

datatype publication_removal_kind = TeamUser | PlatformAdmin

fun publication_removal_target :: "publication_removal_kind \<Rightarrow> release_status" where
  "publication_removal_target TeamUser = RApproved"
| "publication_removal_target PlatformAdmin = RDraft"

definition publication_removal_is_complete ::
  "release_status \<Rightarrow> serve_status \<Rightarrow> publication_removal_kind \<Rightarrow> bool" where
  "publication_removal_is_complete release serve kind \<longleftrightarrow>
     release = publication_removal_target kind \<and> serve = SRetired"

section \<open>Which deployments keep an assignment\<close>

record delivery_candidate =
  dc_id :: uuid
  dc_environment :: deployment_environment
  dc_build_status :: build_status
  dc_serve_status :: serve_status
  dc_release_status :: release_status
  dc_pending_release :: bool
  dc_created_at :: time

definition candidate_from_model :: "deployment \<Rightarrow> delivery_candidate" where
  "candidate_from_model d =
     \<lparr>dc_id = d_id d, dc_environment = d_environment d, dc_build_status = d_build_status d,
      dc_serve_status = d_serve_status d, dc_release_status = d_release_status d,
      dc_pending_release = (d_pending_release_reason d \<noteq> None), dc_created_at = d_created_at d\<rparr>"

definition build_in_progress :: "build_status \<Rightarrow> bool" where
  "build_in_progress b \<longleftrightarrow> b \<in> {BPending, BClaimed, BQueued, BBuilding}"

text \<open>The order of \<open>sort_by_key\<close>: the time of creation, then the identifier.\<close>

definition age_key :: "delivery_candidate \<Rightarrow> time \<times> uuid" where
  "age_key c = (dc_created_at c, dc_id c)"

text \<open>The sorted vector of \<open>desired_delivery_ids\<close>; \<open>pop\<close> takes its last element.\<close>

definition ready_builds :: "delivery_candidate list \<Rightarrow> delivery_candidate list" where
  "ready_builds cs =
     sort_key age_key
       (filter (\<lambda>c. dc_serve_status c \<noteq> SRetired \<or> dc_pending_release c)
         (filter (\<lambda>c. dc_build_status c = BReady) cs))"

definition desired_delivery_ids :: "delivery_candidate list \<Rightarrow> uuid set" where
  "desired_delivery_ids cs =
     (let desired =
        set (map dc_id (filter (\<lambda>c. build_in_progress (dc_build_status c)) cs)) \<union>
        set (map dc_id (filter (\<lambda>c. dc_pending_release c \<or>
          (dc_environment c = Production \<and> dc_release_status c = RActive)) cs));
          ready = ready_builds cs
      in if ready = [] then desired
         else
           (let newest = last ready; desired = insert (dc_id newest) desired
            in if dc_serve_status newest \<noteq> SReady
               then (case find (\<lambda>c. dc_serve_status c = SReady) (rev (butlast ready)) of
                       Some previous \<Rightarrow> insert (dc_id previous) desired
                     | None \<Rightarrow> desired)
               else desired))"

text \<open>\<open>Iterator::max_by_key\<close>: the last of the greatest elements.\<close>

fun max_by_key :: "('a \<Rightarrow> 'k::linorder) \<Rightarrow> 'a list \<Rightarrow> 'a option" where
  "max_by_key f [] = None"
| "max_by_key f (x # xs) =
     (case max_by_key f xs of
        None \<Rightarrow> Some x
      | Some y \<Rightarrow> if f y < f x then Some x else Some y)"

definition effective_preview_id :: "delivery_candidate list \<Rightarrow> uuid option" where
  "effective_preview_id cs =
     (case max_by_key age_key (filter (\<lambda>c. dc_build_status c = BReady) cs) of
        Some c \<Rightarrow> if dc_serve_status c = SReady then Some (dc_id c) else None
      | None \<Rightarrow> None)"

definition release_request_action :: "serve_status \<Rightarrow> bool \<Rightarrow> release_request_action" where
  "release_request_action serve has_assignment =
     (if has_assignment \<and> serve = SReady then RqActivate else RqQueueSync)"

fun release_audit_action :: "release_reason \<Rightarrow> bool \<Rightarrow> string" where
  "release_audit_action ReasonPromote True = ''deployment.promotion_queued''"
| "release_audit_action ReasonPromote False = ''deployment.promoted''"
| "release_audit_action ReasonRollback True = ''deployment.rollback_queued''"
| "release_audit_action ReasonRollback False = ''deployment.rolled_back''"
| "release_audit_action ReasonAuto _ = ''deployment.auto_activated''"

definition serve_resources_of :: "deployment \<Rightarrow> delivery_error + serve_resources" where
  "serve_resources_of d =
     (case try_u64 (d_serve_cpu_millicores d) of
        None \<Rightarrow> Inl InvalidResources
      | Some cpu \<Rightarrow>
          (case try_u64 (d_serve_memory_mb d) of
             None \<Rightarrow> Inl InvalidResources
           | Some memory \<Rightarrow>
               (case try_u64 (d_serve_disk_mb d) of
                  None \<Rightarrow> Inl InvalidResources
                | Some disk \<Rightarrow>
                    Inr \<lparr>sr_cpu_millicores = cpu, sr_memory_mb = memory, sr_disk_mb = disk\<rparr>)))"

text \<open>\<open>ORDER BY created_at DESC, id DESC\<close>, first row, kept only when it serves.\<close>

definition effective_preview ::
  "world \<Rightarrow> uuid \<Rightarrow> deployment_environment \<Rightarrow> deployment option" where
  "effective_preview w pid env =
     (case sort_key (\<lambda>d. (- d_created_at d, - int (d_id d)))
         (filter (\<lambda>d. d_project_id d = pid \<and> d_environment d = env \<and> d_build_status d = BReady \<and>
             d_preview_host d \<noteq> None \<and> d_deleted_at d = None) (deployments w)) of
        [] \<Rightarrow> None
      | d # _ \<Rightarrow> if d_serve_status d = SReady then Some d else None)"

section \<open>Reconciliation\<close>

definition retired_transition :: serve_transition where
  "retired_transition =
     \<lparr>st_to = SRetired, st_failure_code = None, st_failure_message = None\<rparr>"

text \<open>Retiring a row that is not retired yet.\<close>

definition retire_step :: "deployment \<Rightarrow> (delivery_error, deployment) dbm" where
  "retire_step item =
     (if d_serve_status item = SRetired then retM item
      else mapErr DelState (transition_serve item retired_transition))"

definition environment_items :: "world \<Rightarrow> uuid \<Rightarrow> deployment_environment \<Rightarrow> deployment list" where
  "environment_items w pid env =
     filter (\<lambda>d. d_project_id d = pid \<and> d_environment d = env \<and> d_deleted_at d = None)
       (deployments w)"

text \<open>The body of the loop for an item that loses its assignment.\<close>

definition drop_assignment :: "deployment \<Rightarrow> (delivery_error, unit) dbm" where
  "drop_assignment item =
     bindM (retire_step item) (\<lambda>retired.
     bindM (mapErr DelDatabase
       (update_deployment (d_id retired) (\<lambda>r. r\<lparr>d_serve_node_id := None\<rparr>))) (\<lambda>_.
     retM ()))"

definition reconcile_item :: "uuid set \<Rightarrow> deployment \<Rightarrow> (delivery_error, unit) dbm" where
  "reconcile_item desired item =
     (if build_in_progress (d_build_status item) \<or> d_id item \<in> desired then retM ()
      else if d_serve_node_id item = None \<and> d_serve_status item = SRetired then retM ()
      else drop_assignment item)"

definition reconcile_environment ::
  "uuid \<Rightarrow> deployment_environment \<Rightarrow> (delivery_error, unit) dbm" where
  "reconcile_environment pid env =
     bindM lock_placement (\<lambda>_.
     bindM (getM (\<lambda>w. environment_items w pid env)) (\<lambda>items.
     forM items (reconcile_item (desired_delivery_ids (map candidate_from_model items)))))"

section \<open>Removing a publication\<close>

definition clear_pending :: "deployment \<Rightarrow> deployment" where
  "clear_pending d =
     d\<lparr>d_pending_release_reason := None, d_pending_release_actor_user_id := None,
       d_pending_release_audit_visibility := None, d_pending_release_requested_at := None\<rparr>"

definition get_for_update :: "uuid \<Rightarrow> (delivery_error, deployment) dbm" where
  "get_for_update did =
     bindM (get_by_id_for_update did) (okOr (DelOther (AnyMsg ''deployment disappeared'')))"

definition remove_publication ::
  "uuid \<Rightarrow> publication_removal_kind \<Rightarrow> (delivery_error, deployment) dbm" where
  "remove_publication did kind =
     bindM lock_placement (\<lambda>_.
     bindM (get_for_update did) (\<lambda>target.
     if publication_removal_is_complete (d_release_status target) (d_serve_status target) kind
     then retM target
     else
       bindM (mapErr DelState (transition_release target (publication_removal_target kind)
         (JObj [(''publication_removed_by'',
           JStr (case kind of TeamUser \<Rightarrow> ''team_user'' | PlatformAdmin \<Rightarrow> ''platform_admin''))])))
       (\<lambda>released.
       bindM (retire_step released) (\<lambda>retired.
       bindM (mapErr DelDatabase (update_deployment (d_id retired)
         (\<lambda>r. clear_pending (r\<lparr>d_serve_node_id := None\<rparr>)))) (\<lambda>removed.
       bindM (reconcile_environment (d_project_id target) (d_environment target)) (\<lambda>_.
       retM removed))))))"

definition transition_unsuccessful_build ::
  "uuid \<Rightarrow> build_transition \<Rightarrow> (delivery_error, deployment) dbm" where
  "transition_unsuccessful_build did bt =
     (if bt_to bt \<notin> {BFailed, BCanceled} then failM InvalidUnsuccessfulBuildTransition
      else
        bindM lock_placement (\<lambda>_.
        bindM (get_for_update did) (\<lambda>target.
        bindM (mapErr DelState (transition_build target bt)) (\<lambda>_.
        bindM (reconcile_environment (d_project_id target) (d_environment target)) (\<lambda>_.
        bindM (getM (\<lambda>w. find_row d_id did (deployments w)))
          (okOr (DelOther (AnyMsg ''deployment disappeared''))))))))"

section \<open>Requesting and completing a release\<close>

definition pending_release_in :: "world \<Rightarrow> uuid \<Rightarrow> deployment_environment \<Rightarrow> deployment option" where
  "pending_release_in w pid env =
     find (\<lambda>d. d_project_id d = pid \<and> d_environment d = env \<and> d_pending_release_reason d \<noteq> None \<and>
       d_deleted_at d = None) (deployments w)"

definition assign_placement :: "placement option \<Rightarrow> deployment \<Rightarrow> deployment" where
  "assign_placement pl d =
     (case pl of
        Some p \<Rightarrow> d\<lparr>d_serve_node_id := Some (pl_node_id p), d_overcommitted := pl_overcommitted p,
          d_serve_status := SPending, d_serve_started_at := None, d_serve_finished_at := None,
          d_serve_failure_code := None, d_serve_failure_message := None\<rparr>
      | None \<Rightarrow> d)"

definition set_pending ::
  "release_reason \<Rightarrow> uuid \<Rightarrow> audit_visibility \<Rightarrow> time \<Rightarrow> deployment \<Rightarrow> deployment" where
  "set_pending reason actor vis now d =
     d\<lparr>d_pending_release_reason := Some reason, d_pending_release_actor_user_id := Some actor,
       d_pending_release_audit_visibility := Some vis, d_pending_release_requested_at := Some now\<rparr>"

text \<open>
  \<open>place\<close> is the scheduler's placement, a parameter here so that the contract the client relies
  on can be stated; \<open>request_release\<close> below is its instance at \<open>place_deployment_in_region\<close>.
\<close>

definition needs_placement :: "deployment \<Rightarrow> bool" where
  "needs_placement d \<longleftrightarrow> d_serve_node_id d = None \<or> d_serve_status d = SRetired"

definition request_release_with ::
  "(serve_resources \<Rightarrow> uuid option \<Rightarrow> string option \<Rightarrow> (schedule_error, placement) dbm) \<Rightarrow>
   uuid \<Rightarrow> release_reason \<Rightarrow> uuid \<Rightarrow> audit_visibility \<Rightarrow>
   (delivery_error, release_request_outcome) dbm" where
  "request_release_with place did reason actor vis =
     bindM lock_placement (\<lambda>_.
     bindM (get_for_update did) (\<lambda>target.
     bindM (getM (\<lambda>w. pending_release_in w (d_project_id target) (d_environment target))) (\<lambda>pending.
     if pending \<noteq> None then failM ReleaseAlreadyPending
     else if release_request_action (d_serve_status target) (d_serve_node_id target \<noteq> None)
         = RqActivate then
       bindM (mapErr DelState (activate target reason (Some actor))) (\<lambda>activated.
       bindM (reconcile_environment (d_project_id activated) (d_environment activated)) (\<lambda>_.
       retM (RqActivated activated)))
     else
       bindM (if needs_placement target
              then bindM (liftR (serve_resources_of target)) (\<lambda>res.
                   bindM (mapErr DelSchedule (place res None (Some (d_region target)))) (\<lambda>p.
                   retM (Some p)))
              else retM None) (\<lambda>pl.
       bindM now_utc (\<lambda>now.
       bindM (mapErr DelDatabase (update_deployment (d_id target)
         (\<lambda>r. set_pending reason actor vis now (assign_placement pl r)))) (\<lambda>queued.
       bindM (mapErr DelOther (append_event (d_id target) EvRelease
         ''release waiting for Serve synchronization''
         (JObj [(''reason'', JStr (release_reason_value reason)),
                (''serve_node_id'', jopt JUuid (d_serve_node_id queued))]))) (\<lambda>_.
       bindM (reconcile_environment (d_project_id target) (d_environment target)) (\<lambda>_.
       retM (RqSyncQueued queued)))))))))"

definition request_release ::
  "uuid \<Rightarrow> release_reason \<Rightarrow> uuid \<Rightarrow> audit_visibility \<Rightarrow>
   (delivery_error, release_request_outcome) dbm" where
  "request_release = request_release_with place_deployment_in_region"

definition complete_pending_release ::
  "deployment \<Rightarrow> (delivery_error, deployment option) dbm" where
  "complete_pending_release target =
     (case d_pending_release_reason target of
        None \<Rightarrow> retM None
      | Some reason \<Rightarrow>
          if d_serve_status target \<noteq> SReady then retM None
          else
            (let actor = d_pending_release_actor_user_id target;
                 vis = (case d_pending_release_audit_visibility target of
                          Some v \<Rightarrow> v | None \<Rightarrow> VisPlatform)
             in
             bindM (mapErr DelState (activate target reason actor)) (\<lambda>activated.
             bindM (mapErr DelDatabase (update_deployment (d_id activated) clear_pending)) (\<lambda>cleared.
             bindM (reconcile_environment (d_project_id activated) (d_environment activated)) (\<lambda>_.
             bindM (mapErr (\<lambda>e. DelOther (AnyDb e)) (create_audit_event_with_visibility
               \<lparr>ap_actor_user_id = actor, ap_actor_node_id = None,
                ap_team_id = Some (d_team_id cleared),
                ap_action = release_audit_action reason False,
                ap_target_type = ''deployment'', ap_target_id = Some (d_id cleared),
                ap_result = AuditSuccess, ap_reason = None,
                ap_metadata = JObj [(''project_id'', JUuid (d_project_id cleared)),
                  (''release_pending'', JBool False), (''completed_after_sync'', JBool True)]\<rparr>
               vis)) (\<lambda>_.
             retM (Some cleared)))))))"

section \<open>Every delivery operation only extends the state\<close>

lemma identity_delivery [simp]:
  "identity_of (d\<lparr>d_serve_node_id := n\<rparr>) = identity_of d"
  "identity_of (clear_pending d) = identity_of d"
  "identity_of (set_pending reason actor vis now d) = identity_of d"
  "identity_of (assign_placement pl d) = identity_of d"
  by (simp_all add: identity_of_def clear_pending_def set_pending_def assign_placement_def
      split: option.splits)

lemma reconcile_ok: "runs extends (reconcile_environment pid env)"
  unfolding reconcile_environment_def reconcile_item_def drop_assignment_def retire_step_def lock_placement_def
  by (intro ext.rules statement_ok deployment_ok identity_delivery)

lemma get_for_update_ok: "runs extends (get_for_update did)"
  unfolding get_for_update_def get_by_id_for_update_def by (intro ext.rules)

lemma remove_publication_ok: "runs extends (remove_publication did kind)"
  unfolding remove_publication_def retire_step_def lock_placement_def
  by (intro ext.rules statement_ok deployment_ok get_for_update_ok reconcile_ok)
    (simp add: identity_delivery)

lemma transition_unsuccessful_build_ok: "runs extends (transition_unsuccessful_build did bt)"
  unfolding transition_unsuccessful_build_def lock_placement_def
  by (intro ext.rules deployment_ok get_for_update_ok reconcile_ok)

lemma place_ok: "runs extends (place_deployment_in_region req sel region)"
proof -
  have "runs extends eligible_candidates"
    by (auto simp: runs_def eligible_candidates_def ext.same split: sum.splits)
  moreover have "runs extends draw"
    by (auto simp: runs_def draw_def extends_def outside_def)
  ultimately show ?thesis
    unfolding place_deployment_in_region_def lock_placement_def by (intro ext.rules)
qed

lemma request_release_with_ok:
  assumes "\<And>req sel region. runs extends (place req sel region)"
  shows "runs extends (request_release_with place did reason actor vis)"
  unfolding request_release_with_def lock_placement_def
  by (intro ext.rules statement_ok deployment_ok get_for_update_ok reconcile_ok assms)
    (simp add: identity_delivery)

lemma request_release_ok: "runs extends (request_release did reason actor vis)"
  unfolding request_release_def by (intro request_release_with_ok place_ok)

lemma audit_ok: "runs extends (create_domain_audit_event params vis changes)"
proof (rule runsI)
  fix s r t
  assume "create_domain_audit_event params vis changes s = (r, t)"
  then show "extends s t"
    using create_domain_audit_event_ok[of params vis changes s]
    by (auto simp: extends_def outside_def)
qed

lemma complete_pending_release_ok: "runs extends (complete_pending_release d)"
  unfolding complete_pending_release_def Let_def audit_writers
  by (intro ext.rules statement_ok deployment_ok reconcile_ok audit_ok identity_delivery)

lemmas delivery_ok = reconcile_ok remove_publication_ok transition_unsuccessful_build_ok
  request_release_ok complete_pending_release_ok place_ok audit_ok

section \<open>The desired set\<close>

definition deliverable :: "delivery_candidate \<Rightarrow> bool" where
  "deliverable c \<longleftrightarrow>
     dc_build_status c = BReady \<and> (dc_serve_status c \<noteq> SRetired \<or> dc_pending_release c)"

text \<open>The newest deliverable candidate, and the one that serves until the newest is ready.\<close>

definition newest_of :: "delivery_candidate list \<Rightarrow> delivery_candidate \<Rightarrow> bool" where
  "newest_of cs c \<longleftrightarrow>
     c \<in> set cs \<and> deliverable c \<and> (\<forall>b\<in>set cs. deliverable b \<longrightarrow> age_key b \<le> age_key c)"

definition fallback_of :: "delivery_candidate list \<Rightarrow> delivery_candidate \<Rightarrow> bool" where
  "fallback_of cs c \<longleftrightarrow>
     c \<in> set cs \<and> deliverable c \<and> dc_serve_status c = SReady \<and>
     (\<exists>n. newest_of cs n \<and> dc_serve_status n \<noteq> SReady) \<and>
     (\<forall>b\<in>set cs. deliverable b \<longrightarrow> dc_serve_status b = SReady \<longrightarrow> age_key b \<le> age_key c)"

definition protected_candidate :: "delivery_candidate \<Rightarrow> bool" where
  "protected_candidate c \<longleftrightarrow>
     build_in_progress (dc_build_status c) \<or> dc_pending_release c \<or>
     dc_environment c = Production \<and> dc_release_status c = RActive"

lemma sorted_last_max: "sorted (map f xs) \<Longrightarrow> x \<in> set xs \<Longrightarrow> f x \<le> f (last xs)"
  by (induction xs) auto

lemma sorted_find_rev:
  assumes "sorted (map f xs)" and "find p (rev xs) = Some y"
  shows "y \<in> set xs \<and> p y \<and> (\<forall>x\<in>set xs. p x \<longrightarrow> f x \<le> f y)"
  using assms
  by (induction xs rule: rev_induct) (auto simp: sorted_append split: if_splits)

lemma distinct_age:
  "distinct (map dc_id cs) \<Longrightarrow> x \<in> set cs \<Longrightarrow> y \<in> set cs \<Longrightarrow> age_key x = age_key y \<Longrightarrow> x = y"
  by (auto simp: age_key_def distinct_map inj_on_def)

lemma ready_builds_facts:
  "set (ready_builds cs) = {c \<in> set cs. deliverable c}"
  "sorted (map age_key (ready_builds cs))"
  by (auto simp: ready_builds_def deliverable_def)

lemma desired_unfold:
  "desired_delivery_ids cs =
     dc_id ` {c \<in> set cs. protected_candidate c} \<union>
     (if ready_builds cs = [] then {}
      else insert (dc_id (last (ready_builds cs)))
        (if dc_serve_status (last (ready_builds cs)) \<noteq> SReady
         then (case find (\<lambda>c. dc_serve_status c = SReady) (rev (butlast (ready_builds cs))) of
                 Some previous \<Rightarrow> {dc_id previous} | None \<Rightarrow> {})
         else {}))"
  unfolding desired_delivery_ids_def Let_def protected_candidate_def
  by (auto split: option.splits)

lemma newest_of_last:
  assumes "distinct (map dc_id cs)"
  shows "newest_of cs c \<longleftrightarrow> ready_builds cs \<noteq> [] \<and> c = last (ready_builds cs)"
proof
  assume n: "newest_of cs c"
  then have c: "c \<in> set (ready_builds cs)" by (simp add: newest_of_def ready_builds_facts)
  then have l: "last (ready_builds cs) \<in> set (ready_builds cs)" by (intro last_in_set) auto
  have "age_key c \<le> age_key (last (ready_builds cs))"
    using sorted_last_max[OF ready_builds_facts(2) c] .
  with n l have "age_key c = age_key (last (ready_builds cs))"
    by (auto simp: newest_of_def ready_builds_facts intro: order.antisym)
  then have "c = last (ready_builds cs)"
    using l n by (intro distinct_age[OF assms]) (auto simp: newest_of_def ready_builds_facts)
  with c show "ready_builds cs \<noteq> [] \<and> c = last (ready_builds cs)" by auto
next
  assume c: "ready_builds cs \<noteq> [] \<and> c = last (ready_builds cs)"
  then have "c \<in> set (ready_builds cs)" by simp
  moreover have "age_key b \<le> age_key c" if "b \<in> set cs" "deliverable b" for b
    using sorted_last_max[OF ready_builds_facts(2), of b cs] that c
    by (simp add: ready_builds_facts)
  ultimately show "newest_of cs c" by (auto simp: newest_of_def ready_builds_facts)
qed

lemma fallback_of_find:
  assumes "distinct (map dc_id cs)"
  shows "fallback_of cs c \<longleftrightarrow> ready_builds cs \<noteq> [] \<and>
    dc_serve_status (last (ready_builds cs)) \<noteq> SReady \<and>
    find (\<lambda>c. dc_serve_status c = SReady) (rev (butlast (ready_builds cs))) = Some c"
    (is "_ \<longleftrightarrow> ?found")
proof (cases "ready_builds cs \<noteq> [] \<and> dc_serve_status (last (ready_builds cs)) \<noteq> SReady")
  case False
  then show ?thesis by (auto simp: fallback_of_def newest_of_last[OF assms])
next
  case True
  define older where "older = butlast (ready_builds cs)"
  have split: "ready_builds cs = older @ [last (ready_builds cs)]"
    using True by (simp add: older_def)
  have serving: "b \<in> set cs \<and> deliverable b \<and> dc_serve_status b = SReady \<longleftrightarrow>
      b \<in> set older \<and> dc_serve_status b = SReady" for b
  proof -
    have "set (ready_builds cs) = insert (last (ready_builds cs)) (set older)"
      by (subst split) simp
    then have "b \<in> set cs \<and> deliverable b \<longleftrightarrow> b = last (ready_builds cs) \<or> b \<in> set older"
      unfolding ready_builds_facts by (metis (mono_tags, lifting) insert_iff mem_Collect_eq)
    then show ?thesis using True by blast
  qed
  have sorted: "sorted (map age_key older)"
    using ready_builds_facts(2)[of cs] by (subst (asm) split) (simp add: sorted_append)
  have fall: "fallback_of cs x \<longleftrightarrow> x \<in> set older \<and> dc_serve_status x = SReady \<and>
      (\<forall>b\<in>set older. dc_serve_status b = SReady \<longrightarrow> age_key b \<le> age_key x)" for x
    using True serving by (auto simp: fallback_of_def newest_of_last[OF assms])
  show ?thesis
  proof (cases "find (\<lambda>c. dc_serve_status c = SReady) (rev older)")
    case None
    then have "\<not> fallback_of cs c" by (auto simp: fall find_None_iff_ball)
    with None show ?thesis by (simp add: older_def)
  next
    case (Some p)
    note p = sorted_find_rev[OF sorted Some]
    have "x = p" if "fallback_of cs x" for x
      using that p serving[of x] serving[of p] unfolding fall
      by (intro distinct_age[OF assms]) (auto intro: order.antisym)
    moreover have "fallback_of cs p" using p by (simp add: fall)
    ultimately have "fallback_of cs c \<longleftrightarrow> c = p" by blast
    with Some True show ?thesis unfolding older_def by (simp add: eq_commute[of c p])
  qed
qed

lemma desired_iff:
  assumes dist: "distinct (map dc_id cs)" and c: "c \<in> set cs"
  shows "dc_id c \<in> desired_delivery_ids cs \<longleftrightarrow>
    protected_candidate c \<or> newest_of cs c \<or> fallback_of cs c"
proof -
  have same: "x = c" if "x \<in> set cs" "dc_id x = dc_id c" for x
    using dist c that by (auto simp: distinct_map inj_on_def)
  have newest: "last (ready_builds cs) \<in> set cs" if "ready_builds cs \<noteq> []"
    using last_in_set[OF that] by (simp add: ready_builds_facts)
  have older: "x \<in> set cs"
    if "find (\<lambda>c. dc_serve_status c = SReady) (rev (butlast (ready_builds cs))) = Some x" for x
    using find_Some_iff_mem[OF that] in_set_butlastD[of x "ready_builds cs"]
    by (auto simp: ready_builds_facts)
  show ?thesis
    unfolding desired_unfold newest_of_last[OF dist] fallback_of_find[OF dist]
    using same newest older c by (auto split: option.splits)
qed

section \<open>What reconciliation does to the rows\<close>

definition drop_row :: "time \<Rightarrow> deployment \<Rightarrow> deployment" where
  "drop_row now d =
     touch_deployment now (d\<lparr>d_serve_status := SRetired, d_serve_node_id := None\<rparr>)"

definition loses_assignment :: "uuid set \<Rightarrow> deployment \<Rightarrow> bool" where
  "loses_assignment desired d \<longleftrightarrow>
     \<not> build_in_progress (d_build_status d) \<and> d_id d \<notin> desired \<and>
     \<not> (d_serve_node_id d = None \<and> d_serve_status d = SRetired)"

lemma drop_row_flags [simp]:
  "d_id (drop_row now d) = d_id d" "env_key (drop_row now d) = env_key d"
  "is_active (drop_row now d) = is_active d" "is_pending (drop_row now d) = is_pending d"
  "deployment_checks (drop_row now d) = deployment_checks d"
  "d_serve_status (drop_row now d) = SRetired" "d_serve_node_id (drop_row now d) = None"
  "d_build_status (drop_row now d) = d_build_status d"
  "d_release_status (drop_row now d) = d_release_status d"
  "d_pending_release_reason (drop_row now d) = d_pending_release_reason d"
  "d_deleted_at (drop_row now d) = d_deleted_at d"
  "d_project_id (drop_row now d) = d_project_id d"
  "d_environment (drop_row now d) = d_environment d"
  "d_created_at (drop_row now d) = d_created_at d"
  by (simp_all add: drop_row_def env_key_def is_active_def is_pending_def deployment_checks_def)

lemma node_update_flags [simp]:
  "env_key (d\<lparr>d_serve_node_id := n\<rparr>) = env_key d"
  "is_active (d\<lparr>d_serve_node_id := n\<rparr>) = is_active d"
  "is_pending (d\<lparr>d_serve_node_id := n\<rparr>) = is_pending d"
  "deployment_checks (d\<lparr>d_serve_node_id := n\<rparr>) = deployment_checks d"
  by (simp_all add: env_key_def is_active_def is_pending_def deployment_checks_def)

lemma can_retire: "s \<noteq> SRetired \<Longrightarrow> can_transition_serve s SRetired"
  by (cases s) simp_all

lemma update_where_twice:
  assumes "\<And>d. p (f d) = p d"
  shows "update_where p g (update_where p f rows) = update_where p (\<lambda>d. g (f d)) rows"
  using assms by (auto simp: update_where_def)

lemma update_where_cong:
  "(\<And>d. d \<in> set rows \<Longrightarrow> p d \<Longrightarrow> f d = g d) \<Longrightarrow> update_where p f rows = update_where p g rows"
  by (auto simp: update_where_def)

lemma retire_fields:
  "apply_serve now retired_transition = (\<lambda>d. d\<lparr>d_serve_status := SRetired\<rparr>)"
  by (simp add: fun_eq_iff apply_serve_def retired_transition_def)

lemma retired_transition_to [simp]: "st_to retired_transition = SRetired"
  by (simp add: retired_transition_def)

lemma same_serve_status: "d_serve_status d = s \<Longrightarrow> d\<lparr>d_serve_status := s\<rparr> = d"
  by (rule deployment.equality) simp_all

lemma clear_node_run:
  assumes con: "deployments_con (deployments w) = None" and item: "item \<in> set (deployments w)"
  shows "update_deployment (d_id item) (\<lambda>r. r\<lparr>d_serve_node_id := None\<rparr>) w =
    (Inr (touch_deployment (sql_now w) (item\<lparr>d_serve_node_id := None\<rparr>)),
     set_row (d_id item) (\<lambda>r. r\<lparr>d_serve_node_id := None\<rparr>) w)"
  using con item dep.row_found[OF con item]
  by (intro update_deployment_set_row) (auto intro!: con_update)

lemma drop_assignment_run:
  assumes con: "deployments_con (deployments w) = None" and item: "item \<in> set (deployments w)"
  shows "\<exists>v. drop_assignment item w = (Inr (), v) \<and>
    deployments v = update_where (\<lambda>d. d_id d = d_id item) (drop_row (sql_now w)) (deployments w)"
proof (cases "d_serve_status item = SRetired")
  case True
  have one: "d = item" if "d \<in> set (deployments w)" "d_id d = d_id item" for d
    using con_row_unique[OF con] that item by blast
  have "drop_assignment item w =
      (Inr (), set_row (d_id item) (\<lambda>r. r\<lparr>d_serve_node_id := None\<rparr>) w)"
    using True by (simp add: drop_assignment_def retire_step_def bindM_def mapErr_def retM_def clear_node_run[OF con item])
  moreover have "update_where (\<lambda>d. d_id d = d_id item)
      (\<lambda>d. touch_deployment (sql_now w) (d\<lparr>d_serve_node_id := None\<rparr>)) (deployments w) =
    update_where (\<lambda>d. d_id d = d_id item) (drop_row (sql_now w)) (deployments w)"
    using same_serve_status[OF True]
    by (intro update_where_cong) (auto dest!: one simp: drop_row_def)
  ultimately show ?thesis by simp
next
  case False
  let ?st = "retired_transition"
  from transition_serve_run[of item ?st w item] False con item obtain r u where
    run: "transition_serve item ?st w = (Inr r, u)" and r: "d_id r = d_id item" and
    u: "deployments u = update_where (\<lambda>d. d_id d = d_id item)
      (\<lambda>d. touch_deployment (sql_now w) (d\<lparr>d_serve_status := SRetired\<rparr>)) (deployments w)"
      "sql_now u = sql_now w"
    by (simp add: can_retire dep.row_found retire_fields)
  have con_u: "deployments_con (deployments u) = None"
    using runsD[OF transition_serve_ok run] con by (simp add: extends_def)
  have "map d_id (deployments u) = map d_id (deployments w)" by (simp add: u map_update_where)
  from arg_cong[OF this, of set] item have "d_id item \<in> d_id ` set (deployments u)" by auto
  then obtain q where q: "q \<in> set (deployments u)" "d_id q = d_id item" by force
  then have "drop_assignment item w =
      (Inr (), set_row (d_id item) (\<lambda>r. r\<lparr>d_serve_node_id := None\<rparr>) u)"
    using False r clear_node_run[OF con_u q(1)]
    by (simp add: drop_assignment_def retire_step_def bindM_def mapErr_def retM_def run)
  moreover have "deployments (set_row (d_id item) (\<lambda>r. r\<lparr>d_serve_node_id := None\<rparr>) u) =
      update_where (\<lambda>d. d_id d = d_id item) (drop_row (sql_now w)) (deployments w)"
    by (simp add: u update_where_twice) (simp add: drop_row_def[abs_def] touch_deployment_def)
  ultimately show ?thesis by blast
qed

lemma drop_row_again:
  assumes con: "deployments_con rows = None" and "x \<in> set rows" and "y \<in> set rows" "d_id x \<noteq> d_id y"
  shows "x \<in> set (update_where (\<lambda>d. d_id d = d_id y) f rows)"
  using assms(2,4) by (force simp: set_update_where)

lemma reconcile_items_run:
  assumes "deployments_con (deployments w) = None" and "distinct (map d_id items)"
    and "set items \<subseteq> set (deployments w)"
  shows "\<exists>v. forM items (reconcile_item desired) w = (Inr (), v) \<and>
    deployments v = map (\<lambda>d. if d_id d \<in> d_id ` set (filter (loses_assignment desired) items)
        then drop_row (sql_now w) d else d) (deployments w)"
  using assms
proof (induction items arbitrary: w)
  case Nil
  then show ?case by (simp add: retM_def)
next
  case (Cons item items)
  show ?case
  proof (cases "loses_assignment desired item")
    case False
    then have "reconcile_item desired item w = (Inr (), w)"
      by (auto simp: reconcile_item_def loses_assignment_def retM_def)
    with False Cons.IH[of w] Cons.prems show ?thesis by (simp add: bindM_def)
  next
    case True
    then have item: "reconcile_item desired item = drop_assignment item"
      by (auto simp: reconcile_item_def loses_assignment_def)
    from drop_assignment_run[of w item] Cons.prems obtain u where
      run: "drop_assignment item w = (Inr (), u)" and
      rows: "deployments u = update_where (\<lambda>d. d_id d = d_id item) (drop_row (sql_now w))
        (deployments w)" by auto
    have "runs extends (drop_assignment item)"
      unfolding drop_assignment_def retire_step_def by (intro ext.rules statement_ok deployment_ok identity_delivery)
    from runsD[OF this run] have ext: "extends w u" .
    have con: "deployments_con (deployments u) = None" and now: "sql_now u = sql_now w"
      using ext Cons.prems(1) by (auto simp: extends_def dest: outside_eqD)
    have "x \<in> set (deployments u)" if "x \<in> set items" for x
    proof -
      have "d_id x \<noteq> d_id item"
        using Cons.prems(2) that by (metis distinct.simps(2) imageI list.set_map list.simps(9))
      then show ?thesis unfolding rows using Cons.prems that by (intro drop_row_again) auto
    qed
    with Cons.IH[OF con] Cons.prems(2) obtain v where
      rest: "forM items (reconcile_item desired) u = (Inr (), v)" and
      fin: "deployments v = map (\<lambda>d. if d_id d \<in> d_id ` set (filter (loses_assignment desired) items)
        then drop_row (sql_now w) d else d) (deployments u)"
      unfolding now by auto
    have "d_id item \<notin> d_id ` set (filter (loses_assignment desired) items)"
      using Cons.prems(2) by auto
    then have "deployments v = map (\<lambda>d. if d_id d \<in> d_id ` set (filter (loses_assignment desired) (item # items))
        then drop_row (sql_now w) d else d) (deployments w)"
      using True unfolding fin rows update_where_def by (simp add: comp_def)
    moreover have "forM (item # items) (reconcile_item desired) w = (Inr (), v)"
      by (simp add: bindM_def item run rest)
    ultimately show ?thesis by blast
  qed
qed

definition environment_candidates ::
  "world \<Rightarrow> uuid \<Rightarrow> deployment_environment \<Rightarrow> delivery_candidate list" where
  "environment_candidates w pid env = map candidate_from_model (environment_items w pid env)"

definition reconciled_row ::
  "world \<Rightarrow> uuid \<Rightarrow> deployment_environment \<Rightarrow> deployment \<Rightarrow> deployment" where
  "reconciled_row w pid env d =
     (if d \<in> set (environment_items w pid env) \<and>
         loses_assignment (desired_delivery_ids (environment_candidates w pid env)) d
      then drop_row (sql_now w) d else d)"

lemma candidate_from_model_simps [simp]:
  "dc_id (candidate_from_model d) = d_id d"
  "dc_environment (candidate_from_model d) = d_environment d"
  "dc_build_status (candidate_from_model d) = d_build_status d"
  "dc_serve_status (candidate_from_model d) = d_serve_status d"
  "dc_release_status (candidate_from_model d) = d_release_status d"
  "dc_pending_release (candidate_from_model d) \<longleftrightarrow> d_pending_release_reason d \<noteq> None"
  "dc_created_at (candidate_from_model d) = d_created_at d"
  by (simp_all add: candidate_from_model_def)

lemma items_distinct:
  "deployments_con (deployments w) = None \<Longrightarrow> distinct (map d_id (environment_items w pid env))"
  unfolding environment_items_def deployments_con_iff by (simp add: distinct_map_filter)

lemma items_subset: "set (environment_items w pid env) \<subseteq> set (deployments w)"
  by (auto simp: environment_items_def)

lemma reconcile_run:
  assumes con: "deployments_con (deployments w) = None"
  shows "\<exists>v. reconcile_environment pid env w = (Inr (), v) \<and>
    deployments v = map (reconciled_row w pid env) (deployments w) \<and> extends w v"
proof -
  let ?items = "environment_items w pid env"
  let ?desired = "desired_delivery_ids (environment_candidates w pid env)"
  from reconcile_items_run[OF con items_distinct[OF con] items_subset] obtain v where
    run: "forM ?items (reconcile_item ?desired) w = (Inr (), v)" and
    rows: "deployments v = map (\<lambda>d. if d_id d \<in> d_id ` set (filter (loses_assignment ?desired) ?items)
        then drop_row (sql_now w) d else d) (deployments w)" by blast
  have "reconcile_environment pid env w = (Inr (), v)"
    using run by (simp add: reconcile_environment_def lock_placement_def bindM_def retM_def getM_def
        environment_candidates_def)
  moreover have "d_id d \<in> d_id ` set (filter (loses_assignment ?desired) ?items) \<longleftrightarrow>
      d \<in> set ?items \<and> loses_assignment ?desired d" if "d \<in> set (deployments w)" for d
    using that items_subset[of w pid env] con_row_unique[OF con] by (auto simp: image_iff)
  then have "deployments v = map (reconciled_row w pid env) (deployments w)"
    unfolding rows reconciled_row_def by (intro map_cong) auto
  ultimately show ?thesis using runsD[OF reconcile_ok] by blast
qed

section \<open>Who keeps the assignment\<close>

definition keeps_assignment ::
  "world \<Rightarrow> uuid \<Rightarrow> deployment_environment \<Rightarrow> deployment \<Rightarrow> bool" where
  "keeps_assignment w pid env d \<longleftrightarrow>
     (let c = candidate_from_model d; cs = environment_candidates w pid env
      in protected_candidate c \<or> newest_of cs c \<or> fallback_of cs c)"

definition serving :: "deployment \<Rightarrow> bool" where
  "serving d \<longleftrightarrow> d_build_status d = BReady \<and> d_serve_status d = SReady"

lemma candidates_distinct:
  "deployments_con (deployments w) = None \<Longrightarrow> distinct (map dc_id (environment_candidates w pid env))"
  using items_distinct[of w pid env] by (simp add: environment_candidates_def comp_def)

lemma desired_keeps:
  assumes "deployments_con (deployments w) = None" and "d \<in> set (environment_items w pid env)"
  shows "d_id d \<in> desired_delivery_ids (environment_candidates w pid env) \<longleftrightarrow>
    keeps_assignment w pid env d"
  using desired_iff[OF candidates_distinct[OF assms(1)], of "candidate_from_model d" pid env] assms(2)
  by (simp add: keeps_assignment_def environment_candidates_def Let_def)

lemma loses_iff:
  assumes "deployments_con (deployments w) = None" and "d \<in> set (environment_items w pid env)"
  shows "loses_assignment (desired_delivery_ids (environment_candidates w pid env)) d \<longleftrightarrow>
    \<not> keeps_assignment w pid env d \<and> \<not> (d_serve_node_id d = None \<and> d_serve_status d = SRetired)"
  using desired_keeps[OF assms]
  by (auto simp: loses_assignment_def keeps_assignment_def protected_candidate_def Let_def)

lemma reconciled_row_cases:
  assumes "deployments_con (deployments w) = None" and "d \<in> set (environment_items w pid env)"
  shows "reconciled_row w pid env d =
    (if keeps_assignment w pid env d \<or> d_serve_node_id d = None \<and> d_serve_status d = SRetired
     then d else drop_row (sql_now w) d)"
  using loses_iff[OF assms] assms(2) by (auto simp: reconciled_row_def)

lemma reconciled_row_other:
  "d \<notin> set (environment_items w pid env) \<Longrightarrow> reconciled_row w pid env d = d"
  by (simp add: reconciled_row_def)

lemma in_butlast: "x \<in> set xs \<Longrightarrow> x \<noteq> last xs \<Longrightarrow> x \<in> set (butlast xs)"
  by (induction xs rule: rev_induct) auto

text \<open>A candidate that serves is either outlived by a newer one that serves or kept.\<close>

lemma serving_candidate_kept:
  assumes dist: "distinct (map dc_id cs)" and c: "c \<in> set cs" "deliverable c" "dc_serve_status c = SReady"
  shows "\<exists>k\<in>set cs. deliverable k \<and> dc_serve_status k = SReady \<and> (newest_of cs k \<or> fallback_of cs k)"
proof -
  have ne: "c \<in> set (ready_builds cs)" using c by (simp add: ready_builds_facts)
  then have last: "newest_of cs (last (ready_builds cs))"
    using newest_of_last[OF dist] by auto
  show ?thesis
  proof (cases "dc_serve_status (last (ready_builds cs)) = SReady")
    case True
    with last show ?thesis by (auto simp: newest_of_def)
  next
    case False
    then have "c \<in> set (butlast (ready_builds cs))"
      using ne c(3) by (intro in_butlast) auto
    then obtain k where
      "find (\<lambda>c. dc_serve_status c = SReady) (rev (butlast (ready_builds cs))) = Some k"
      using c(3) by (cases "find (\<lambda>c. dc_serve_status c = SReady) (rev (butlast (ready_builds cs)))")
        (auto simp: find_None_iff_ball)
    then have "fallback_of cs k" using False ne fallback_of_find[OF dist] by auto
    then show ?thesis by (auto simp: fallback_of_def)
  qed
qed

lemma reconcile_continuity:
  assumes con: "deployments_con (deployments w) = None"
    and d: "d \<in> set (environment_items w pid env)" "serving d"
  shows "\<exists>k\<in>set (environment_items w pid env). serving k \<and> keeps_assignment w pid env k"
proof -
  have "candidate_from_model d \<in> set (environment_candidates w pid env)"
    "deliverable (candidate_from_model d)" "dc_serve_status (candidate_from_model d) = SReady"
    using d by (auto simp: environment_candidates_def deliverable_def serving_def)
  from serving_candidate_kept[OF candidates_distinct[OF con] this] obtain k where
    "k \<in> set (environment_items w pid env)" "deliverable (candidate_from_model k)"
    "d_serve_status k = SReady" "keeps_assignment w pid env k"
    by (auto simp: environment_candidates_def keeps_assignment_def Let_def)
  then show ?thesis by (auto simp: serving_def deliverable_def)
qed

section \<open>Reconciling twice\<close>

text \<open>
  Dropping candidates that are not wanted changes none of the choices: a dropped candidate has
  no pending release, so it is no longer deliverable, and the choices are among the kept ones.
\<close>

lemma choices_stable:
  assumes kept: "\<And>c. c \<in> set cs \<Longrightarrow> protected_candidate c \<or> newest_of cs c \<or> fallback_of cs c \<Longrightarrow>
      c \<in> set cs'"
    and prior: "\<And>c. c \<in> set cs' \<Longrightarrow> deliverable c \<Longrightarrow> c \<in> set cs"
    and c: "c \<in> set cs" "protected_candidate c \<or> newest_of cs c \<or> fallback_of cs c"
  shows "protected_candidate c \<or> newest_of cs' c \<or> fallback_of cs' c"
proof -
  have newest: "newest_of cs' n" if "newest_of cs n" for n
    using that kept[of n] prior by (auto simp: newest_of_def)
  moreover have "fallback_of cs' n" if "fallback_of cs n" for n
    using that kept[of n] prior newest by (auto simp: fallback_of_def)
  ultimately show ?thesis using c by blast
qed

lemma reconciled_items:
  assumes con: "deployments_con (deployments w) = None"
    and rows: "deployments v = map (reconciled_row w pid env) (deployments w)"
  shows "environment_items v pid env = map (reconciled_row w pid env) (environment_items w pid env)"
proof -
  have "d_project_id (reconciled_row w pid env d) = d_project_id d"
    "d_environment (reconciled_row w pid env d) = d_environment d"
    "d_deleted_at (reconciled_row w pid env d) = d_deleted_at d" for d
    by (simp_all add: reconciled_row_def)
  then show ?thesis by (simp add: environment_items_def rows filter_map comp_def)
qed

lemma reconcile_again:
  assumes con: "deployments_con (deployments w) = None" and ext: "extends w v"
    and rows: "deployments v = map (reconciled_row w pid env) (deployments w)"
    and d: "d \<in> set (environment_items v pid env)"
  shows "\<not> loses_assignment (desired_delivery_ids (environment_candidates v pid env)) d"
proof -
  let ?cs = "environment_candidates w pid env" and ?cs' = "environment_candidates v pid env"
  have con': "deployments_con (deployments v) = None" using con ext by (simp add: extends_def)
  note items = reconciled_items[OF con rows]
  from d items obtain b where b: "b \<in> set (environment_items w pid env)"
    and db: "d = reconciled_row w pid env b" by auto
  have kept: "c \<in> set ?cs'"
    if "c \<in> set ?cs" "protected_candidate c \<or> newest_of ?cs c \<or> fallback_of ?cs c" for c
  proof -
    from that obtain x where x: "x \<in> set (environment_items w pid env)" "c = candidate_from_model x"
      by (auto simp: environment_candidates_def)
    with that have "reconciled_row w pid env x = x"
      by (simp add: reconciled_row_cases[OF con] keeps_assignment_def Let_def)
    with x show ?thesis unfolding environment_candidates_def items by (force simp: image_iff)
  qed
  have prior: "c \<in> set ?cs" if "c \<in> set ?cs'" "deliverable c" for c
  proof -
    from that(1) obtain x where x: "x \<in> set (environment_items w pid env)"
      "c = candidate_from_model (reconciled_row w pid env x)"
      by (auto simp: environment_candidates_def items)
    have "reconciled_row w pid env x = x"
      using that(2) x reconciled_row_cases[OF con x(1)]
      by (auto simp: deliverable_def keeps_assignment_def Let_def protected_candidate_def
          split: if_splits)
    with x show ?thesis by (auto simp: environment_candidates_def)
  qed
  show ?thesis
  proof (cases "keeps_assignment w pid env b")
    case True
    then have d_eq: "d = b" using db reconciled_row_cases[OF con b] by simp
    have "keeps_assignment v pid env d"
      using choices_stable[OF kept prior, of "candidate_from_model b"] True b d_eq
      by (simp add: keeps_assignment_def Let_def environment_candidates_def)
    then show ?thesis by (simp add: loses_iff[OF con' d])
  next
    case False
    then have "d_serve_node_id d = None \<and> d_serve_status d = SRetired"
      using db reconciled_row_cases[OF con b] by auto
    then show ?thesis by (simp add: loses_iff[OF con' d])
  qed
qed

lemma forM_idle: "(\<And>x. x \<in> set xs \<Longrightarrow> f x s = (Inr (), s)) \<Longrightarrow> forM xs f s = (Inr (), s)"
  by (induction xs) (simp_all add: retM_def bindM_def)

lemma reconcile_idle:
  assumes "\<And>d. d \<in> set (environment_items w pid env) \<Longrightarrow>
    \<not> loses_assignment (desired_delivery_ids (environment_candidates w pid env)) d"
  shows "reconcile_environment pid env w = (Inr (), w)"
proof -
  have "forM (environment_items w pid env)
      (reconcile_item (desired_delivery_ids (environment_candidates w pid env))) w = (Inr (), w)"
    using assms by (intro forM_idle) (fastforce simp: reconcile_item_def loses_assignment_def retM_def)
  then show ?thesis
    by (simp add: reconcile_environment_def lock_placement_def bindM_def retM_def getM_def
        environment_candidates_def)
qed

text \<open>
  C2. Reconciling an environment always succeeds, and it changes exactly the rows of the environment
  that have an assignment or a live Serve state and are not kept: not in progress, not pending
  release, not the active production deployment, not the newest deliverable build and not the
  newest serving build that stands in while the newest is not ready. Those lose their node and
  become retired; every other row is as it was.
\<close>

theorem reconcile_exact:
  assumes "deployments_con (deployments w) = None"
  shows "\<exists>v. reconcile_environment pid env w = (Inr (), v) \<and>
    deployments v = map (\<lambda>d.
      if d \<in> set (environment_items w pid env) \<and> \<not> keeps_assignment w pid env d \<and>
         \<not> (d_serve_node_id d = None \<and> d_serve_status d = SRetired)
      then d\<lparr>d_serve_status := SRetired, d_serve_node_id := None, d_updated_at := sql_now w\<rparr>
      else d) (deployments w)"
proof -
  obtain v where v: "reconcile_environment pid env w = (Inr (), v)"
    "deployments v = map (reconciled_row w pid env) (deployments w)"
    using reconcile_run[OF assms] by blast
  have "reconciled_row w pid env d =
      (if d \<in> set (environment_items w pid env) \<and> \<not> keeps_assignment w pid env d \<and>
         \<not> (d_serve_node_id d = None \<and> d_serve_status d = SRetired)
      then d\<lparr>d_serve_status := SRetired, d_serve_node_id := None, d_updated_at := sql_now w\<rparr>
      else d)" for d
    by (cases "d \<in> set (environment_items w pid env)")
      (simp_all add: reconciled_row_cases[OF assms] reconciled_row_other drop_row_def
        touch_deployment_def)
  with v show ?thesis by auto
qed

text \<open>
  C3. Reconciliation never takes the last serving deployment of an environment away: if some
  deployment of the environment serves a ready build, then afterwards one of them still does,
  with its row, node included, untouched.
\<close>

theorem reconcile_keeps_service:
  assumes con: "deployments_con (deployments w) = None"
    and d: "d \<in> set (environment_items w pid env)" "serving d"
  shows "\<exists>v k. reconcile_environment pid env w = (Inr (), v) \<and>
    k \<in> set (environment_items w pid env) \<and> k \<in> set (environment_items v pid env) \<and> serving k"
proof -
  obtain v where v: "reconcile_environment pid env w = (Inr (), v)"
    "deployments v = map (reconciled_row w pid env) (deployments w)"
    using reconcile_run[OF con] by blast
  obtain k where k: "k \<in> set (environment_items w pid env)" "serving k" "keeps_assignment w pid env k"
    using reconcile_continuity[OF con d] by blast
  then have "reconciled_row w pid env k = k" by (simp add: reconciled_row_cases[OF con])
  with k(1) have "k \<in> set (environment_items v pid env)"
    unfolding reconciled_items[OF con v(2)] by (force simp: image_iff)
  with v k show ?thesis by blast
qed

text \<open>
  Reconciliation is idempotent: a second run right after the first changes nothing at all, no
  row and no event.
\<close>

theorem reconcile_idempotent:
  assumes "deployments_con (deployments w) = None" and "reconcile_environment pid env w = (Inr (), v)"
  shows "reconcile_environment pid env v = (Inr (), v)"
proof -
  have "deployments v = map (reconciled_row w pid env) (deployments w)" "extends w v"
    using reconcile_run[OF assms(1), of pid env] assms(2) by auto
  from reconcile_again[OF assms(1) this(2,1)] show ?thesis by (rule reconcile_idle)
qed

section \<open>Release requests\<close>

lemma get_for_update_Inr:
  "get_for_update did w = (Inr t, v) \<longleftrightarrow> v = w \<and> get_by_id w did = Some t"
  by (auto simp: get_for_update_def get_by_id_for_update_def oper_Inr)

lemma get_by_id_Some:
  "get_by_id w did = Some t \<Longrightarrow> t \<in> set (deployments w) \<and> d_id t = did \<and> d_deleted_at t = None"
  unfolding get_by_id_def using find_Some_iff_mem by fastforce

lemma get_by_id_row:
  assumes con: "deployments_con (deployments w) = None"
    and t: "t \<in> set (deployments w)" "d_deleted_at t = None"
  shows "get_by_id w (d_id t) = Some t"
  unfolding get_by_id_def
  by (rule find_unique) (use t con_row_unique[OF con] in auto)

lemma queued_Inr:
  assumes "request_release_with place did reason actor vis w = (Inr (RqSyncQueued q), v)"
  obtains t pl u now u' where "get_by_id w did = Some t"
    "pending_release_in w (d_project_id t) (d_environment t) = None"
    "release_request_action (d_serve_status t) (d_serve_node_id t \<noteq> None) = RqQueueSync"
    "(\<exists>res p. needs_placement t \<and> serve_resources_of t = Inr res \<and>
        place res None (Some (d_region t)) w = (Inr p, u) \<and> pl = Some p) \<or>
     \<not> needs_placement t \<and> pl = None \<and> u = w"
    "update_deployment (d_id t) (\<lambda>r. set_pending reason actor vis now (assign_placement pl r))
       (u\<lparr>clock_pos := Suc (clock_pos u)\<rparr>) = (Inr q, u')"
    "reconcile_environment (d_project_id t) (d_environment t)
       (log_event (d_id t) EvRelease ''release waiting for Serve synchronization''
         (JObj [(''reason'', JStr (release_reason_value reason)),
                (''serve_node_id'', jopt JUuid (d_serve_node_id q))]) u') = (Inr (), v)"
proof -
  have act: "x = RqQueueSync" if "x \<noteq> RqActivate" for x
    using that by (cases x) auto
  show thesis
    using assms
    by (auto simp: request_release_with_def lock_placement_def get_for_update_Inr now_utc_def
        append_event_run oper_Inr failM_def split: if_splits
        intro!: that dest: act)
qed

lemma pending_flags [simp]:
  "d_id (set_pending reason actor vis now d) = d_id d"
  "env_key (set_pending reason actor vis now d) = env_key d"
  "is_active (set_pending reason actor vis now d) = is_active d"
  "is_pending (set_pending reason actor vis now d) \<longleftrightarrow> d_deleted_at d = None"
  "d_release_status (set_pending reason actor vis now d) = d_release_status d"
  "d_pending_release_reason (set_pending reason actor vis now d) = Some reason"
  "d_pending_release_actor_user_id (set_pending reason actor vis now d) = Some actor"
  "d_deleted_at (set_pending reason actor vis now d) = d_deleted_at d"
  "d_serve_node_id (set_pending reason actor vis now d) = d_serve_node_id d"
  "d_serve_status (set_pending reason actor vis now d) = d_serve_status d"
  "d_project_id (set_pending reason actor vis now d) = d_project_id d"
  "d_environment (set_pending reason actor vis now d) = d_environment d"
  "d_region (set_pending reason actor vis now d) = d_region d"
  by (simp_all add: set_pending_def env_key_def is_active_def is_pending_def)

lemma placement_flags [simp]:
  "d_id (assign_placement pl d) = d_id d"
  "env_key (assign_placement pl d) = env_key d"
  "is_active (assign_placement pl d) = is_active d"
  "is_pending (assign_placement pl d) = is_pending d"
  "d_release_status (assign_placement pl d) = d_release_status d"
  "d_pending_release_reason (assign_placement pl d) = d_pending_release_reason d"
  "d_deleted_at (assign_placement pl d) = d_deleted_at d"
  "d_serve_node_id (assign_placement None d) = d_serve_node_id d"
  "d_serve_node_id (assign_placement (Some p) d) = Some (pl_node_id p)"
  "d_serve_status (assign_placement None d) = d_serve_status d"
  "d_serve_status (assign_placement (Some p) d) = SPending"
  "d_project_id (assign_placement pl d) = d_project_id d"
  "d_environment (assign_placement pl d) = d_environment d"
  "d_region (assign_placement pl d) = d_region d"
  by (simp_all add: assign_placement_def env_key_def is_active_def is_pending_def
      split: option.splits)

lemma reconciled_row_flags [simp]:
  "d_id (reconciled_row w pid env d) = d_id d" "env_key (reconciled_row w pid env d) = env_key d"
  "is_active (reconciled_row w pid env d) = is_active d"
  "is_pending (reconciled_row w pid env d) = is_pending d"
  "d_release_status (reconciled_row w pid env d) = d_release_status d"
  "d_pending_release_reason (reconciled_row w pid env d) = d_pending_release_reason d"
  "d_deleted_at (reconciled_row w pid env d) = d_deleted_at d"
  by (simp_all add: reconciled_row_def)

lemma fixed_in_map: "x \<in> set xs \<Longrightarrow> f x = x \<Longrightarrow> x \<in> set (map f xs)"
  by (metis imageI list.set_map)

lemma reconciled_protected:
  assumes "deployments_con (deployments w) = None" and "protected_candidate (candidate_from_model d)"
  shows "reconciled_row w pid env d = d"
  by (cases "d \<in> set (environment_items w pid env)")
    (simp_all add: reconciled_row_cases[OF assms(1)] keeps_assignment_def Let_def assms(2)
      reconciled_row_other)

lemma reconcile_Inr:
  assumes "deployments_con (deployments w) = None" and "reconcile_environment pid env w = (Inr x, v)"
  shows "deployments v = map (reconciled_row w pid env) (deployments w)"
    and "deployments_con (deployments v) = None"
    and "extends w v"
  using reconcile_run[OF assms(1), of pid env] assms by (auto simp: extends_def)

text \<open>
  The contract between the release request and the scheduler: a placement changes no deployment,
  names an eligible node of the requested region, and only extends the state.
\<close>

definition assigned_well :: "world \<Rightarrow> string \<Rightarrow> uuid \<Rightarrow> bool" where
  "assigned_well w region nid \<longleftrightarrow>
     (\<exists>n\<in>set (nodes w). n_id n = nid \<and> n_region n = region \<and> eligible_node (sql_now w) n)"

locale placer =
  fixes place :: "serve_resources \<Rightarrow> uuid option \<Rightarrow> string option \<Rightarrow> (schedule_error, placement) dbm"
  assumes place_extends: "runs extends (place req sel region)"
    and place_rows: "place req sel region w = (Inr p, v) \<Longrightarrow> deployments v = deployments w"
    and place_region: "place req sel (Some r) w = (Inr p, v) \<Longrightarrow> assigned_well w r (pl_node_id p)"
begin

lemma request_extends: "runs extends (request_release_with place did reason actor vis)"
  by (rule request_release_with_ok[OF place_extends])

lemma queued:
  assumes con: "deployments_con (deployments w) = None"
    and run: "request_release_with place did reason actor vis w = (Inr (RqSyncQueued q), v)"
  obtains t where "get_by_id w did = Some t"
    "pending_release_in w (d_project_id t) (d_environment t) = None"
    "get_by_id v did = Some q" "d_pending_release_reason q = Some reason"
    "d_pending_release_actor_user_id q = Some actor"
    "env_key q = env_key t" "d_release_status q = d_release_status t"
    "d_serve_node_id q \<noteq> None" "d_serve_status q \<noteq> SRetired"
    "needs_placement t \<Longrightarrow> assigned_well w (d_region t) (the (d_serve_node_id q))"
    "\<And>d. d \<in> set (deployments w) \<Longrightarrow> d_id d \<noteq> did \<Longrightarrow> is_active d \<Longrightarrow>
       d_environment d = Production \<Longrightarrow> d \<in> set (deployments v)"
proof -
  from run show thesis
  proof (cases rule: queued_Inr)
    case (1 t pl u now u')
    note t = get_by_id_Some[OF 1(1)]
    let ?f = "\<lambda>r. set_pending reason actor vis now (assign_placement pl r)"
    let ?u = "log_event (d_id t) EvRelease ''release waiting for Serve synchronization''
         (JObj [(''reason'', JStr (release_reason_value reason)),
                (''serve_node_id'', jopt JUuid (d_serve_node_id q))]) u'"
    have rows: "deployments u = deployments w" using 1(4) place_rows by auto
    have find: "find_row d_id (d_id t) (deployments w) = Some t"
      using con t by (intro dep.row_found) auto
    have q: "q = touch_deployment (sql_now u) (?f t)"
      and u': "deployments u' = update_where (\<lambda>x. d_id x = d_id t)
        (\<lambda>x. touch_deployment (sql_now u) (?f x)) (deployments w)"
      and con': "deployments_con (deployments u') = None"
      using 1(5) find unfolding update_deployment_Inr by (auto simp: rows)
    have q_in: "q \<in> set (deployments u')" unfolding u' q set_update_where using t by force
    note fin = reconcile_Inr[OF _ 1(6), simplified, OF con']
    have prot: "reconciled_row ?u pid env d = d" if "protected_candidate (candidate_from_model d)" for pid env d
      using con' that by (intro reconciled_protected) simp_all
    have q_v: "q \<in> set (deployments v)"
      unfolding fin using q_in by (rule fixed_in_map) (rule prot, simp add: protected_candidate_def q)
    have others: "d \<in> set (deployments v)" if "d \<in> set (deployments w)" "d_id d \<noteq> did" "is_active d"
      "d_environment d = Production" for d
    proof -
      have "d \<in> set (deployments u')" unfolding u' set_update_where using that t by force
      then show ?thesis
        unfolding fin using that
        by (intro fixed_in_map prot) (auto simp: protected_candidate_def is_active_def)
    qed
    have node: "d_serve_node_id q \<noteq> None" "d_serve_status q \<noteq> SRetired"
      "needs_placement t \<Longrightarrow> assigned_well w (d_region t) (the (d_serve_node_id q))"
      using 1(4) place_region by (auto simp: q needs_placement_def)
    have "get_by_id v did = Some q"
      using get_by_id_row[OF fin(2) q_v] t by (simp add: q)
    with 1(1,2) node others show thesis by (intro that[of t]) (auto simp: q)
  qed
qed

end

interpretation sched: placer place_deployment_in_region
proof
  fix req sel region w p v
  assume run: "place_deployment_in_region req sel region w = (Inr p, v)"
  show "deployments v = deployments w"
    by (rule place_Inr[OF run]) simp
next
  fix req sel r w p v
  assume run: "place_deployment_in_region req sel (Some r) w = (Inr p, v)"
  show "assigned_well w r (pl_node_id p)"
    by (rule place_Inr[OF run]) (auto simp: assigned_well_def dest!: candidate_of_fields)
qed (rule place_ok)

lemma find_active_row:
  assumes con: "deployments_con (deployments w) = None"
    and x: "x \<in> set (deployments w)" "is_active x"
  shows "find_active w (d_project_id x) (d_environment x) = Some x"
proof -
  have uniq: "unique_on is_active env_key (deployments w)"
    using con by (simp add: deployments_con_iff)
  have "find (\<lambda>d. is_active d \<and> env_key d = env_key x) (deployments w) = Some x"
    by (rule find_unique) (use x unique_onD[OF uniq] in auto)
  moreover have "(\<lambda>d. is_active d \<and> env_key d = env_key x) =
      (\<lambda>d. d_project_id d = d_project_id x \<and> d_environment d = d_environment x \<and>
        d_release_status d = RActive \<and> d_deleted_at d = None)"
    by (auto simp: fun_eq_iff is_active_def env_key_def)
  ultimately show ?thesis by (simp add: find_active_def)
qed

lemma find_active_None:
  "(\<And>x. x \<in> set (deployments w) \<Longrightarrow> env_key x = (pid, env) \<Longrightarrow> \<not> is_active x) \<Longrightarrow>
   find_active w pid env = None"
  by (auto simp: find_active_def find_None_iff_ball is_active_def env_key_def)

lemma pending_in_iff:
  "pending_release_in w pid env = None \<longleftrightarrow>
   (\<forall>d\<in>set (deployments w). env_key d = (pid, env) \<longrightarrow> \<not> is_pending d)"
  by (auto simp: pending_release_in_def find_None_iff_ball is_pending_def env_key_def)

lemma env_key_eq: "env_key d = env_key t \<longleftrightarrow> d_project_id d = d_project_id t \<and> d_environment d = d_environment t"
  by (simp add: env_key_def)

lemma after_activation_flags [simp]:
  "d_id (after_activation now t d) = d_id d" "env_key (after_activation now t d) = env_key d"
  "is_pending (after_activation now t d) = is_pending d"
  "d_deleted_at (after_activation now t d) = d_deleted_at d"
  by (simp_all add: after_activation_def)

text \<open>Reconciliation writes no release, no review and no audit event.\<close>

definition same_records :: "world \<Rightarrow> world \<Rightarrow> bool" where
  "same_records w v \<longleftrightarrow>
     releases v = releases w \<and> reviews v = reviews w \<and> audit_log v = audit_log w"

interpretation records: run_relation same_records
  by unfold_locales (simp_all add: same_records_def)

lemma statement_same_records:
  "runs same_records (update_deployment i f)"
  "runs same_records (append_event did kind message metadata)"
  "runs same_records now_utc"
  by (auto simp: runs_def same_records_def update_deployment_def exec_update_def Let_def
      put_deployments_def append_event_run now_utc_def split: option.split)

lemma transition_serve_records: "runs same_records (transition_serve d st)"
  unfolding transition_serve_def by (intro records.rules statement_same_records)

lemma reconcile_records: "runs same_records (reconcile_environment pid env)"
  unfolding reconcile_environment_def reconcile_item_def drop_assignment_def retire_step_def lock_placement_def
  by (intro records.rules statement_same_records transition_serve_records)

lemma reconcile_releases: "reconcile_environment pid env w = (r, v) \<Longrightarrow> releases v = releases w"
  and reconcile_audit_log: "reconcile_environment pid env w = (r, v) \<Longrightarrow> audit_log v = audit_log w"
  using runsD[OF reconcile_records] by (auto simp: same_records_def)

lemma transition_release_records: "runs same_records (transition_release d to metadata)"
  unfolding transition_release_def by (intro records.rules statement_same_records)

definition same_audits :: "world \<Rightarrow> world \<Rightarrow> bool" where
  "same_audits w v \<longleftrightarrow> audit_log v = audit_log w"

interpretation audits: run_relation same_audits
  by unfold_locales (simp_all add: same_audits_def)

lemma activate_audits: "runs same_audits (activate t reason actor)"
proof -
  have "runs same_audits (transition_release d to metadata)" for d to metadata
    using transition_release_records by (auto simp: runs_def same_records_def same_audits_def)
  moreover have "runs same_audits (insert_release r)" "runs same_audits now_v7"
    "runs same_audits now_utc" for r
    by (auto simp: runs_def same_audits_def insert_release_def now_v7_def now_utc_def)
  ultimately show ?thesis unfolding activate_def by (intro audits.rules)
qed

lemma activate_audit_log: "activate t reason actor w = (r, v) \<Longrightarrow> audit_log v = audit_log w"
  using runsD[OF activate_audits] by (simp add: same_audits_def)

text \<open>Activating and then reconciling: the state both kinds of release end in.\<close>

lemma activate_reconcile_run:
  assumes con: "deployments_con (deployments w) = None"
    and t: "t \<in> set (deployments w)" "d_deleted_at t = None"
    and ready: "d_build_status t = BReady" "d_serve_status t = SReady"
      "d_release_status t = RDraft \<or> d_release_status t = RApproved"
  obtains u v where
    "activate t reason actor w =
       (Inr (touch_deployment (sql_now w) (t\<lparr>d_release_status := RActive\<rparr>)), u)"
    "deployments u = map (after_activation (sql_now w) t) (deployments w)"
    "deployments_con (deployments u) = None" "extends w u" "sql_now u = sql_now w"
    "\<exists>r. releases u = releases w @ [r] \<and> r_deployment_id r = d_id t \<and> r_reason r = reason"
proof -
  from activate_run[OF con t(1) ready, of reason actor] obtain u r where
    run: "activate t reason actor w =
       (Inr (touch_deployment (sql_now w) (t\<lparr>d_release_status := RActive\<rparr>)), u)" and
    rows: "deployments u = map (after_activation (sql_now w) t) (deployments w)" and
    rel: "activation_release w u t reason actor r" by blast
  have "extends w u" using runsD[OF activate_ok run] .
  with that[OF run rows] rel con show thesis
    by (auto simp: extends_def activation_release_def dest: outside_eqD)
qed

text \<open>
  C4. A release request for a deployment that already serves takes effect at once: without another
  release waiting in the environment it activates the deployment, which afterwards is the one
  \<open>find_active\<close> returns, records one release, and leaves no release waiting. In production the
  returned row is exactly the stored one: the reconciliation that follows does not touch it.
\<close>

theorem request_release_activates:
  assumes con: "deployments_con (deployments w) = None"
    and found: "get_by_id w did = Some t"
    and free: "pending_release_in w (d_project_id t) (d_environment t) = None"
    and serves: "d_serve_status t = SReady" "d_serve_node_id t \<noteq> None"
    and ready: "d_build_status t = BReady"
      "d_release_status t = RDraft \<or> d_release_status t = RApproved"
  shows "\<exists>a v d r. request_release did reason actor vis w = (Inr (RqActivated a), v) \<and>
    find_active v (d_project_id t) (d_environment t) = Some d \<and> d_id d = did \<and>
    (d_environment t = Production \<longrightarrow> d = a) \<and>
    pending_release_in v (d_project_id t) (d_environment t) = None \<and>
    releases v = releases w @ [r] \<and> r_deployment_id r = did \<and> r_reason r = reason"
proof -
  note t = get_by_id_Some[OF found]
  let ?a = "touch_deployment (sql_now w) (t\<lparr>d_release_status := RActive\<rparr>)"
  from t obtain u where
    act: "activate t reason (Some actor) w = (Inr ?a, u)" and
    rows: "deployments u = map (after_activation (sql_now w) t) (deployments w)" and
    con_u: "deployments_con (deployments u) = None" and
    rel: "\<exists>r. releases u = releases w @ [r] \<and> r_deployment_id r = d_id t \<and> r_reason r = reason"
    by (elim conjE) (rule activate_reconcile_run[OF con _ _ ready(1) serves(1) ready(2)])
  obtain v where rec: "reconcile_environment (d_project_id t) (d_environment t) u = (Inr (), v)"
    using reconcile_run[OF con_u] by blast
  note fin = reconcile_Inr[OF con_u rec]
  have run: "request_release did reason actor vis w = (Inr (RqActivated ?a), v)"
    using found free serves act rec
    by (simp add: request_release_def request_release_with_def lock_placement_def bindM_def
        get_for_update_def get_by_id_for_update_def getM_def retM_def okOr_def mapErr_def
        release_request_action_def)
  have a_u: "?a \<in> set (deployments u)"
    using t unfolding rows by (force simp: after_activation_def)
  let ?d = "reconciled_row u (d_project_id t) (d_environment t) ?a"
  have d_v: "?d \<in> set (deployments v)" using a_u unfolding fin(1) by auto
  have d_key: "d_project_id ?d = d_project_id t" "d_environment ?d = d_environment t"
    using reconciled_row_flags(2)[of u _ _ ?a] by (simp_all add: env_key_def)
  have active: "find_active v (d_project_id t) (d_environment t) = Some ?d"
    using find_active_row[OF fin(2) d_v] t d_key by simp
  have prod: "?d = ?a" if "d_environment t = Production"
    using that by (intro reconciled_protected[OF con_u]) (simp add: protected_candidate_def)
  have "pending_release_in v (d_project_id t) (d_environment t) = None"
    using free unfolding pending_in_iff fin(1) rows by simp
  moreover have "releases v = releases u"
    using reconcile_releases[OF rec] .
  moreover from rel obtain r where
    "releases u = releases w @ [r]" "r_deployment_id r = d_id t" "r_reason r = reason" by blast
  ultimately show ?thesis
    using run active prod t
    by (intro exI[of _ ?a] exI[of _ v] exI[of _ ?d] exI[of _ r]) simp
qed

text \<open>
  A release request that has to wait for Serve synchronization marks exactly that deployment as
  waiting: afterwards it has the reason and the actor, a Serve node and a Serve state that is not
  retired; when it needed a new assignment the node is an eligible one of its region; its release
  status is unchanged, and every other active production deployment keeps its row, so the live
  site goes on until the release completes.
\<close>

theorem request_release_queues:
  assumes "deployments_con (deployments w) = None"
    and "request_release did reason actor vis w = (Inr (RqSyncQueued q), v)"
  shows "\<exists>t. get_by_id w did = Some t \<and> get_by_id v did = Some q \<and>
    d_pending_release_reason q = Some reason \<and> d_pending_release_actor_user_id q = Some actor \<and>
    d_serve_node_id q \<noteq> None \<and> d_serve_status q \<noteq> SRetired \<and>
    d_release_status q = d_release_status t \<and>
    (needs_placement t \<longrightarrow> assigned_well w (d_region t) (the (d_serve_node_id q))) \<and>
    (\<forall>d\<in>set (deployments w). d_id d \<noteq> did \<and> is_active d \<and> d_environment d = Production \<longrightarrow>
       d \<in> set (deployments v))"
  using assms(2) unfolding request_release_def
  by (rule sched.queued[OF assms(1)]) blast

lemma request_refused:
  assumes "get_by_id w did = Some t" and "pending_release_in w (d_project_id t) (d_environment t) \<noteq> None"
  shows "request_release_with place did reason actor vis w = (Inl ReleaseAlreadyPending, w)"
  using assms
  by (simp add: request_release_with_def lock_placement_def bindM_def get_for_update_def
      get_by_id_for_update_def getM_def retM_def okOr_def failM_def)

text \<open>
  C5. At most one release waits per project environment: once a request is queued, every further
  request for a deployment of the same environment, the same one or another, is refused with
  \<open>ReleaseAlreadyPending\<close> and changes nothing.
\<close>

theorem pending_release_is_exclusive:
  assumes "deployments_con (deployments w) = None"
    and "request_release did reason actor vis w = (Inr (RqSyncQueued q), v)"
    and "get_by_id v other = Some t" and "env_key t = env_key q"
  shows "request_release other reason' actor' vis' v = (Inl ReleaseAlreadyPending, v)"
proof -
  obtain s where "get_by_id v did = Some q" "d_pending_release_reason q = Some reason"
    using assms(2) unfolding request_release_def by (rule sched.queued[OF assms(1)]) blast
  then have "q \<in> set (deployments v)" "is_pending q"
    using get_by_id_Some by (auto simp: is_pending_def)
  with assms(4) have "pending_release_in v (d_project_id t) (d_environment t) \<noteq> None"
    unfolding pending_in_iff by (auto simp: env_key_def)
  with assms(3) show ?thesis unfolding request_release_def by (rule request_refused)
qed

section \<open>Removing a publication\<close>

lemma retire_step_run:
  assumes con: "deployments_con (deployments w) = None" and item: "item \<in> set (deployments w)"
  obtains r u where "retire_step item w = (Inr r, u)" "r \<in> set (deployments u)" "d_id r = d_id item"
    "d_serve_status r = SRetired" "d_release_status r = d_release_status item"
    "d_deleted_at r = d_deleted_at item" "env_key r = env_key item"
    "deployments_con (deployments u) = None" "sql_now u = sql_now w"
    "\<And>d. d \<in> set (deployments u) \<Longrightarrow> d_id d \<noteq> d_id item \<Longrightarrow> d \<in> set (deployments w)"
proof (cases "d_serve_status item = SRetired")
  case True
  then show thesis using con item by (intro that[of item w]) (auto simp: retire_step_def retM_def)
next
  case False
  note run = transition_serve_run[of item retired_transition w item, simplified,
      OF can_retire[OF False] dep.row_found[OF con item] con]
  let ?u = "log_event (d_id item) EvServe (''serve status changed to '' @ serve_status_value SRetired)
       (JObj [(''status'', JStr (serve_status_value SRetired)),
              (''failure_code'', jopt JStr (st_failure_code retired_transition)),
              (''failure_message'', jopt JStr (st_failure_message retired_transition))])
       (set_row (d_id item) (apply_serve (clock w (clock_pos w)) retired_transition)
         (w\<lparr>clock_pos := Suc (clock_pos w)\<rparr>))"
  let ?r = "touch_deployment (sql_now w) (apply_serve (clock w (clock_pos w)) retired_transition item)"
  have "retire_step item w = (Inr ?r, ?u)"
    using False run by (simp add: retire_step_def mapErr_def)
  moreover from this have "extends w ?u"
    using transition_serve_ok[THEN runsD, OF run] by simp
  then have "deployments_con (deployments ?u) = None" using con by (simp add: extends_def)
  ultimately show thesis
    using item by (intro that[of ?r ?u]) (auto simp: set_update_where split: if_splits)
qed

lemma removal_flags [simp]:
  "d_id (clear_pending d) = d_id d" "env_key (clear_pending d) = env_key d"
  "is_active (clear_pending d) = is_active d" "\<not> is_pending (clear_pending d)"
  "deployment_checks d \<Longrightarrow> deployment_checks (clear_pending d)"
  "d_release_status (clear_pending d) = d_release_status d"
  "d_serve_status (clear_pending d) = d_serve_status d"
  "d_serve_node_id (clear_pending d) = d_serve_node_id d"
  "d_build_status (clear_pending d) = d_build_status d"
  "d_deleted_at (clear_pending d) = d_deleted_at d"
  "d_project_id (clear_pending d) = d_project_id d"
  "d_environment (clear_pending d) = d_environment d"
  "d_team_id (clear_pending d) = d_team_id d"
  "d_pending_release_reason (clear_pending d) = None"
  by (simp_all add: clear_pending_def env_key_def is_active_def is_pending_def
      deployment_checks_def)

lemma removal_target_cases:
  "publication_removal_target kind = RApproved \<or> publication_removal_target kind = RDraft"
  by (cases kind) simp_all

text \<open>
  C7. Removing the publication of the active deployment always succeeds and takes the environment
  off the air: the deployment ends approved (team user) or draft (platform admin), retired, with
  no node and no release waiting; no deployment of the environment is active afterwards, and the
  release status of every other deployment is as it was: nothing older is activated.
\<close>

theorem remove_publication_takes_down:
  assumes con: "deployments_con (deployments w) = None"
    and found: "get_by_id w did = Some target" and active: "d_release_status target = RActive"
  shows "\<exists>t v. remove_publication did kind w = (Inr t, v) \<and>
    t \<in> set (deployments v) \<and> d_id t = did \<and>
    d_release_status t = publication_removal_target kind \<and>
    d_serve_status t = SRetired \<and> d_serve_node_id t = None \<and> d_pending_release_reason t = None \<and>
    find_active v (d_project_id target) (d_environment target) = None \<and>
    (\<forall>d'\<in>set (deployments v). d_id d' \<noteq> did \<longrightarrow>
       (\<exists>d\<in>set (deployments w). d_id d = d_id d' \<and> d_release_status d = d_release_status d'))"
proof -
  note target = get_by_id_Some[OF found]
  let ?to = "publication_removal_target kind"
  let ?m = "JObj [(''publication_removed_by'',
    JStr (case kind of TeamUser \<Rightarrow> ''team_user'' | PlatformAdmin \<Rightarrow> ''platform_admin''))]"
  have act: "is_active target" using target active by (simp add: is_active_def)
  from target have mem: "target \<in> set (deployments w)" by simp
  let ?r1 = "touch_deployment (sql_now w) (target\<lparr>d_release_status := ?to\<rparr>)"
  obtain u1 where run1: "transition_release target ?to ?m w = (Inr ?r1, u1)"
    and rows1: "deployments u1 = update_where (\<lambda>d. d_id d = d_id target)
      (\<lambda>d. touch_deployment (sql_now w) (d\<lparr>d_release_status := ?to\<rparr>)) (deployments w)"
    and con1: "deployments_con (deployments u1) = None"
    using demote_run(1)[OF con mem act removal_target_cases[of kind], of ?m]
      demote_run(2)[OF con mem act removal_target_cases[of kind]] by simp
  have r1: "?r1 \<in> set (deployments u1)" unfolding rows1 set_update_where using mem by force
  obtain r2 u2 where run2: "retire_step ?r1 u1 = (Inr r2, u2)" and r2: "r2 \<in> set (deployments u2)"
    "d_id r2 = d_id target" "d_serve_status r2 = SRetired" "d_release_status r2 = ?to"
    "d_deleted_at r2 = d_deleted_at target" "env_key r2 = env_key target"
    and con2: "deployments_con (deployments u2) = None"
    and rows2: "\<And>d. d \<in> set (deployments u2) \<Longrightarrow> d_id d \<noteq> d_id target \<Longrightarrow> d \<in> set (deployments u1)"
    by (rule retire_step_run[OF con1 r1, simplified]) blast
  let ?f = "\<lambda>r. clear_pending (r\<lparr>d_serve_node_id := None\<rparr>)"
  let ?r3 = "touch_deployment (sql_now u2) (?f r2)" and ?u3 = "set_row (d_id r2) ?f u2"
  have con3: "deployments_con (deployments ?u3) = None"
    using con2 by (auto intro!: con_update)
  have run3: "update_deployment (d_id r2) ?f u2 = (Inr ?r3, ?u3)"
    by (rule update_deployment_set_row[OF dep.row_found[OF con2 r2(1)] con3])
  obtain v where run4: "reconcile_environment (d_project_id target) (d_environment target) ?u3 = (Inr (), v)"
    using reconcile_run[OF con3] by blast
  note fin = reconcile_Inr[OF con3 run4]
  have run: "remove_publication did kind w = (Inr ?r3, v)"
    using found active run1 run2 run3 run4 removal_target_cases[of kind]
    by (auto simp: remove_publication_def lock_placement_def bindM_def retM_def getM_def okOr_def
        get_for_update_def get_by_id_for_update_def mapErr_def publication_removal_is_complete_def)
  have "?r3 \<in> set (deployments ?u3)" unfolding set_row_simps set_update_where using r2(1) by force
  then have r3: "?r3 \<in> set (deployments v)"
    unfolding fin(1) using r2
    by (intro fixed_in_map) (auto simp: reconciled_row_def loses_assignment_def)
  have others: "\<exists>d\<in>set (deployments w). d_id d = d_id d' \<and> d_release_status d = d_release_status d' \<and>
      env_key d = env_key d' \<and> is_active d = is_active d'"
    if d': "d' \<in> set (deployments v)" "d_id d' \<noteq> did" for d'
  proof -
    from d' obtain x where x: "x \<in> set (deployments ?u3)"
      "d' = reconciled_row ?u3 (d_project_id target) (d_environment target) x"
      unfolding fin(1) by auto
    with d' target r2 have "x \<in> set (deployments u2)" "d_id x \<noteq> d_id target"
      by (auto simp: set_update_where split: if_splits)
    with rows2[of x] have "x \<in> set (deployments w)"
      unfolding rows1 by (auto simp: set_update_where)
    with x show ?thesis by (intro bexI[of _ x]) auto
  qed
  have "find_active v (d_project_id target) (d_environment target) = None"
  proof (rule find_active_None)
    fix x
    assume x: "x \<in> set (deployments v)" "env_key x = (d_project_id target, d_environment target)"
    show "\<not> is_active x"
    proof (cases "d_id x = did")
      case True
      then have "x = ?r3" using con_row_unique[OF fin(2) x(1) r3] r2 target by simp
      then show ?thesis using r2 removal_target_cases[of kind] by (auto simp: is_active_def)
    next
      case False
      from others[OF x(1) False] obtain d where d: "d \<in> set (deployments w)" "d_id d = d_id x"
        "env_key d = env_key target" "is_active d = is_active x"
        using x(2) by (auto simp: env_key_def)
      have "unique_on is_active env_key (deployments w)" using con by (simp add: deployments_con_iff)
      from unique_onD[OF this d(1) mem _ act d(3)] d False target show ?thesis by auto
    qed
  qed
  with run r3 r2 target others show ?thesis
    by (intro exI[of _ ?r3] exI[of _ v]) (auto dest: others)
qed

section \<open>Completing a waiting release\<close>

text \<open>
  C6. When the Node reports a waiting deployment ready, its release completes: it becomes the active
  deployment of the environment, stops waiting, so the environment accepts release requests again,
  and the audit log gains exactly one event, with the visibility stored with the request. In
  production the returned row is exactly the stored one.
\<close>

theorem complete_pending_release_activates:
  assumes con: "deployments_con (deployments w) = None"
    and t: "t \<in> set (deployments w)" "d_deleted_at t = None"
    and waits: "d_pending_release_reason t = Some reason"
    and ready: "d_build_status t = BReady" "d_serve_status t = SReady"
      "d_release_status t = RDraft \<or> d_release_status t = RApproved"
  shows "\<exists>c v d e. complete_pending_release t w = (Inr (Some c), v) \<and>
    d_id c = d_id t \<and> d_release_status c = RActive \<and> d_pending_release_reason c = None \<and>
    find_active v (d_project_id t) (d_environment t) = Some d \<and> d_id d = d_id t \<and>
    (d_environment t = Production \<longrightarrow> d = c) \<and>
    pending_release_in v (d_project_id t) (d_environment t) = None \<and>
    audit_log v = audit_log w @ [e] \<and> u_target_id e = Some (d_id t) \<and>
    u_action e = release_audit_action reason False \<and>
    u_visibility e = (case d_pending_release_audit_visibility t of Some x \<Rightarrow> x | None \<Rightarrow> VisPlatform)"
proof -
  let ?actor = "d_pending_release_actor_user_id t"
  let ?vis = "case d_pending_release_audit_visibility t of Some x \<Rightarrow> x | None \<Rightarrow> VisPlatform"
  let ?a = "touch_deployment (sql_now w) (t\<lparr>d_release_status := RActive\<rparr>)"
  let ?pid = "d_project_id t" and ?env = "d_environment t"
  obtain u where act: "activate t reason ?actor w = (Inr ?a, u)"
    and rows: "deployments u = map (after_activation (sql_now w) t) (deployments w)"
    and con_u: "deployments_con (deployments u) = None"
    by (rule activate_reconcile_run[OF con t ready])
  have audit_u: "audit_log u = audit_log w" by (rule activate_audit_log[OF act])
  have a_u: "?a \<in> set (deployments u)" using t unfolding rows by (force simp: after_activation_def)
  let ?c = "touch_deployment (sql_now u) (clear_pending ?a)" and ?u = "set_row (d_id t) clear_pending u"
  have con_c: "deployments_con (deployments ?u) = None" using con_u by (auto intro!: con_update)
  have upd: "update_deployment (d_id t) clear_pending u = (Inr ?c, ?u)"
    using update_deployment_set_row[OF _ con_c, of ?a] dep.row_found[OF con_u a_u] by simp
  obtain v1 where rec: "reconcile_environment ?pid ?env ?u = (Inr (), v1)"
    using reconcile_run[OF con_c] by blast
  note fin = reconcile_Inr[OF con_c rec]
  let ?p = "\<lparr>ap_actor_user_id = ?actor, ap_actor_node_id = None, ap_team_id = Some (d_team_id t),
    ap_action = release_audit_action reason False, ap_target_type = ''deployment'',
    ap_target_id = Some (d_id t), ap_result = AuditSuccess, ap_reason = None,
    ap_metadata = JObj [(''project_id'', JUuid ?pid), (''release_pending'', JBool False),
      (''completed_after_sync'', JBool True)]\<rparr>"
  obtain e where e: "create_domain_audit_event ?p (Some ?vis) (JObj []) v1 =
      (Inr (), v1\<lparr>uuid_pos := Suc (uuid_pos v1), clock_pos := Suc (clock_pos v1),
                audit_log := audit_log v1 @ [e]\<rparr>)"
    "u_action e = release_audit_action reason False" "u_target_id e = Some (d_id t)"
    "u_visibility e = ?vis"
    using create_domain_audit_event_ok[of ?p "Some ?vis" "JObj []" v1]
    by (auto simp: visibility_for_domain_event_def)
  let ?v = "v1\<lparr>uuid_pos := Suc (uuid_pos v1), clock_pos := Suc (clock_pos v1),
    audit_log := audit_log v1 @ [e]\<rparr>"
  have run: "complete_pending_release t w = (Inr (Some ?c), ?v)"
    using waits ready act upd rec e(1)
    by (simp add: complete_pending_release_def Let_def bindM_def mapErr_def retM_def audit_writers)
  let ?d = "reconciled_row ?u ?pid ?env ?c"
  have "?c \<in> set (deployments ?u)" unfolding set_row_simps set_update_where using a_u by force
  then have d_v: "?d \<in> set (deployments v1)" unfolding fin(1) by auto
  have d_key: "d_project_id ?d = ?pid" "d_environment ?d = ?env"
    using reconciled_row_flags(2)[of ?u _ _ ?c] by (simp_all add: env_key_def)
  have active: "find_active ?v ?pid ?env = Some ?d"
    using find_active_row[OF fin(2) d_v] t d_key by (simp add: find_active_def)
  have prod: "?d = ?c" if "?env = Production"
    using that by (intro reconciled_protected[OF con_c]) (simp add: protected_candidate_def)
  have pend: "is_pending t" using waits t by (simp add: is_pending_def)
  have free: "pending_release_in ?v ?pid ?env = None"
    unfolding pending_in_iff
  proof (intro ballI impI)
    fix d
    assume "d \<in> set (deployments ?v)" and key: "env_key d = (?pid, ?env)"
    then obtain y where y: "y \<in> set (deployments ?u)" "d = reconciled_row ?u ?pid ?env y"
      by (auto simp: fin(1))
    from y(1) obtain x where x: "x \<in> set (deployments w)"
      "y = (if d_id x = d_id t then touch_deployment (sql_now u) (clear_pending (after_activation (sql_now w) t x))
            else after_activation (sql_now w) t x)"
      by (auto simp: rows set_update_where)
    have kt: "env_key t = (?pid, ?env)" by (simp add: env_key_def)
    have x': "is_pending d = is_pending (if d_id x = d_id t then clear_pending x else x)"
      "env_key x = env_key t"
      using key unfolding kt y(2) x(2) by (auto split: if_splits)
    have "x = t" if "is_pending x"
      using con x(1) x'(2) t(1) that pend unfolding deployments_con_iff by (auto elim: unique_onD)
    with x'(1) show "\<not> is_pending d" by (auto split: if_splits)
  qed
  show ?thesis
    using run active prod free e(2-4) reconcile_audit_log[OF rec] audit_u
    by (intro exI[of _ ?c] exI[of _ ?v] exI[of _ ?d] exI[of _ e]) simp
qed

section \<open>Unsuccessful builds\<close>

lemma unsuccessful_build_audit_log:
  assumes "transition_unsuccessful_build did bt w = (r, v)"
  shows "audit_log v = audit_log w"
proof -
  have "runs same_records (transition_build d bt)" for d
    unfolding transition_build_def by (intro records.rules statement_same_records)
  then have "runs same_records (transition_unsuccessful_build did bt)"
    unfolding transition_unsuccessful_build_def get_for_update_def get_by_id_for_update_def
      lock_placement_def
    by (intro records.rules reconcile_records)
  from runsD[OF this assms] show ?thesis by (simp add: same_records_def)
qed

lemma unsuccessful_build_run:
  assumes con: "deployments_con (deployments w) = None"
    and found: "get_by_id w did = Some t"
    and to: "bt_to bt = BFailed \<or> bt_to bt = BCanceled"
    and opened: "can_transition_build (d_build_status t) (bt_to bt)"
    and idle: "d_pending_release_reason t = None" "d_release_status t \<noteq> RActive"
  shows "\<exists>r v. transition_unsuccessful_build did bt w = (Inr r, v) \<and>
    r \<in> set (deployments v) \<and> d_id r = did \<and> d_build_status r = bt_to bt \<and>
    d_serve_status r = SRetired \<and> d_serve_node_id r = None \<and> (\<forall>n. \<not> occupies n r)"
proof -
  note t = get_by_id_Some[OF found]
  from t have mem: "t \<in> set (deployments w)" by simp
  let ?r = "touch_deployment (sql_now w) (apply_build (clock w (clock_pos w)) bt t)"
  obtain u where run1: "transition_build t bt w = (Inr ?r, u)"
    and rows: "deployments u = update_where (\<lambda>d. d_id d = d_id t)
      (\<lambda>d. touch_deployment (sql_now w) (apply_build (clock w (clock_pos w)) bt d)) (deployments w)"
    using transition_build_run[OF opened dep.row_found[OF con mem] con] by simp
  have con_u: "deployments_con (deployments u) = None"
    using runsD[OF transition_build_ok run1] con by (simp add: extends_def)
  have r_u: "?r \<in> set (deployments u)" unfolding rows set_update_where using mem by force
  obtain v where rec: "reconcile_environment (d_project_id t) (d_environment t) u = (Inr (), v)"
    using reconcile_run[OF con_u] by blast
  note fin = reconcile_Inr[OF con_u rec]
  let ?f = "reconciled_row u (d_project_id t) (d_environment t) ?r"
  have f_v: "?f \<in> set (deployments v)" using r_u unfolding fin(1) by auto
  have "identity_of ?r = identity_of t" by (simp add: identity_of_def[of "touch_deployment _ _"])
      (metis (no_types, lifting) Pair_inject identity_of_def identity_update(4))
  then have "?r \<in> set (environment_items u (d_project_id t) (d_environment t))"
    using r_u t by (auto simp: environment_items_def identity_of_def)
  moreover have "\<not> keeps_assignment u (d_project_id t) (d_environment t) ?r"
    using to idle
    by (auto simp: keeps_assignment_def Let_def protected_candidate_def newest_of_def fallback_of_def
        deliverable_def build_in_progress_def)
  ultimately have f: "d_serve_status ?f = SRetired" "d_serve_node_id ?f = None"
      "d_build_status ?f = bt_to bt"
    by (auto simp: reconciled_row_cases[OF con_u])
  have "transition_unsuccessful_build did bt w = (Inr ?f, v)"
    using to found run1 rec dep.row_found[OF fin(2) f_v] t
    by (auto simp: transition_unsuccessful_build_def lock_placement_def bindM_def retM_def getM_def
        get_for_update_def get_by_id_for_update_def okOr_def mapErr_def)
  with f f_v t show ?thesis
    by (intro exI[of _ ?f] exI[of _ v]) (auto simp: occupies_def)
qed

text \<open>
  C8. Failing or canceling a build that is still open always succeeds and gives its capacity back in
  the same transaction: unless the deployment waits for a release or is the live production one,
  its row ends with the terminal build status, retired and without a node, so it occupies no node
  any more.
\<close>

theorem unsuccessful_build_frees_capacity:
  assumes con: "deployments_con (deployments w) = None"
    and found: "get_by_id w did = Some t"
    and to: "bt_to bt = BFailed \<or> bt_to bt = BCanceled"
    and opened: "can_transition_build (d_build_status t) (bt_to bt)"
    and idle: "d_pending_release_reason t = None" "d_release_status t \<noteq> RActive"
  shows "\<exists>r v. transition_unsuccessful_build did bt w = (Inr r, v) \<and>
    r \<in> set (deployments v) \<and> d_id r = did \<and> d_build_status r = bt_to bt \<and>
    d_serve_status r = SRetired \<and> d_serve_node_id r = None \<and> (\<forall>n. \<not> occupies n r)"
  using assms by (rule unsuccessful_build_run)

section \<open>Witnesses\<close>

text \<open>An old live production deployment, a newer one that serves and one whose build failed.\<close>

definition sample_rows :: "deployment list" where
  "sample_rows =
     [sample_deployment 1 Production BReady SReady RActive (Some 7),
      sample_deployment 2 Production BReady SReady RApproved (Some 7),
      sample_deployment 3 Production BFailed SPending RDraft (Some 7)]"

lemma sample_rows_con: "deployments_con (deployments (sample_world sample_rows [])) = None"
  by (simp add: sample_rows_def sample_con)

lemma sample_items:
  "environment_items (sample_world sample_rows []) 100 Production = sample_rows"
  by (simp add: environment_items_def sample_rows_def)

theorem reconcile_exact_witness:
  "\<exists>v. reconcile_environment 100 Production (sample_world sample_rows []) = (Inr (), v) \<and>
     map d_serve_node_id (deployments v) = [Some 7, Some 7, None]"
proof -
  let ?w = "sample_world sample_rows []"
  have "keeps_assignment ?w 100 Production (sample_deployment 1 Production BReady SReady RActive (Some 7))"
    by (simp add: keeps_assignment_def Let_def protected_candidate_def)
  moreover have "keeps_assignment ?w 100 Production (sample_deployment 2 Production BReady SReady RApproved (Some 7))"
    unfolding keeps_assignment_def Let_def environment_candidates_def sample_items
    by (auto simp: newest_of_def sample_rows_def age_key_def deliverable_def)
  moreover have "\<not> keeps_assignment ?w 100 Production (sample_deployment 3 Production BFailed SPending RDraft (Some 7))"
    by (simp add: keeps_assignment_def Let_def protected_candidate_def newest_of_def fallback_of_def
        deliverable_def build_in_progress_def)
  ultimately show ?thesis
    using reconcile_exact[OF sample_rows_con, of 100 Production] unfolding sample_items
    by (auto simp: sample_rows_def)
qed

theorem reconcile_keeps_service_witness:
  "\<exists>v k. reconcile_environment 100 Production (sample_world sample_rows []) = (Inr (), v) \<and>
     k \<in> set (environment_items v 100 Production) \<and> serving k"
proof -
  let ?d = "sample_deployment 2 Production BReady SReady RApproved (Some 7)"
  have "?d \<in> set (environment_items (sample_world sample_rows []) 100 Production)"
    unfolding sample_items by (simp add: sample_rows_def)
  from reconcile_keeps_service[OF sample_rows_con this] show ?thesis
    by (auto simp: serving_def)
qed

theorem reconcile_idempotent_witness:
  "\<exists>v. reconcile_environment 100 Production (sample_world sample_rows []) = (Inr (), v) \<and>
     reconcile_environment 100 Production v = (Inr (), v)"
proof -
  obtain v where v: "reconcile_environment 100 Production (sample_world sample_rows []) = (Inr (), v)"
    using reconcile_run[OF sample_rows_con] by blast
  from reconcile_idempotent[OF sample_rows_con v] v show ?thesis by blast
qed

theorem request_release_activates_witness:
  "\<exists>a v. request_release 2 ReasonPromote 9 VisTeam (sample_world sample_rows []) =
     (Inr (RqActivated a), v) \<and> find_active v 100 Production = Some a \<and> d_id a = 2"
proof -
  let ?w = "sample_world sample_rows []"
  let ?t = "sample_deployment 2 Production BReady SReady RApproved (Some 7)"
  have "get_by_id ?w 2 = Some ?t" "pending_release_in ?w (d_project_id ?t) (d_environment ?t) = None"
    by (simp_all add: get_by_id_def pending_release_in_def sample_rows_def)
  from request_release_activates[OF sample_rows_con this, of ReasonPromote 9 VisTeam] show ?thesis
    by auto
qed

text \<open>A deployment that is syncing: its release has to wait.\<close>

definition waiting_world :: world where
  "waiting_world =
     sample_world [sample_deployment 4 Production BReady SSyncing RApproved (Some 7)] []"

lemma waiting_world_simps [simp]:
  "deployments waiting_world = [sample_deployment 4 Production BReady SSyncing RApproved (Some 7)]"
  "clock_pos waiting_world = 0" "clock waiting_world = (\<lambda>n. int n)" "sql_now waiting_world = 0"
  by (simp_all add: waiting_world_def)

lemma waiting_con: "deployments_con (deployments waiting_world) = None"
  by (simp add: sample_con)

lemma waiting_run:
  "\<exists>q v. request_release 4 ReasonPromote 9 VisTeam waiting_world = (Inr (RqSyncQueued q), v)"
proof -
  let ?t = "sample_deployment 4 Production BReady SSyncing RApproved (Some 7)"
  let ?w = "waiting_world\<lparr>clock_pos := Suc (clock_pos waiting_world)\<rparr>"
  let ?f = "\<lambda>r. set_pending ReasonPromote 9 VisTeam 0 (assign_placement None r)"
  have con: "deployments_con (deployments (set_row 4 ?f ?w)) = None"
    by (simp add: update_where_def sample_con env_key_def is_active_def
        is_pending_def deployment_checks_def set_pending_def assign_placement_def)
  have upd: "update_deployment 4 ?f ?w = (Inr (touch_deployment (sql_now ?w) (?f ?t)), set_row 4 ?f ?w)"
    by (rule update_deployment_set_row[OF _ con]) (simp add: find_row_def)
  let ?q = "touch_deployment (sql_now ?w) (?f ?t)"
  let ?u = "log_event 4 EvRelease ''release waiting for Serve synchronization''
         (JObj [(''reason'', JStr (release_reason_value ReasonPromote)),
                (''serve_node_id'', jopt JUuid (d_serve_node_id ?q))]) (set_row 4 ?f ?w)"
  obtain v where "reconcile_environment 100 Production ?u = (Inr (), v)"
    using reconcile_run[of ?u] con by auto
  then have "request_release 4 ReasonPromote 9 VisTeam waiting_world = (Inr (RqSyncQueued ?q), v)"
    using upd
    by (simp add: request_release_def request_release_with_def lock_placement_def bindM_def retM_def
        get_for_update_def get_by_id_for_update_def getM_def okOr_def mapErr_def get_by_id_def
        pending_release_in_def release_request_action_def needs_placement_def now_utc_def
        append_event_run)
  then show ?thesis by blast
qed

theorem request_release_queues_witness:
  "\<exists>q v. request_release 4 ReasonPromote 9 VisTeam waiting_world = (Inr (RqSyncQueued q), v) \<and>
     get_by_id v 4 = Some q \<and> d_pending_release_reason q = Some ReasonPromote"
proof -
  obtain q v where run:
    "request_release 4 ReasonPromote 9 VisTeam waiting_world = (Inr (RqSyncQueued q), v)"
    using waiting_run by blast
  from request_release_queues[OF waiting_con run] run show ?thesis by blast
qed

theorem pending_release_is_exclusive_witness:
  "\<exists>q v. request_release 4 ReasonPromote 9 VisTeam waiting_world = (Inr (RqSyncQueued q), v) \<and>
     request_release 4 ReasonRollback 8 VisTeam v = (Inl ReleaseAlreadyPending, v)"
proof -
  obtain q v where run:
    "request_release 4 ReasonPromote 9 VisTeam waiting_world = (Inr (RqSyncQueued q), v)"
    using waiting_run by blast
  have "get_by_id v 4 = Some q"
    using run unfolding request_release_def by (rule sched.queued[OF waiting_con]) blast
  from pending_release_is_exclusive[OF waiting_con run this refl] run show ?thesis by blast
qed

theorem remove_publication_takes_down_witness:
  "\<exists>t v. remove_publication 1 TeamUser (sample_world sample_rows []) = (Inr t, v) \<and>
     d_release_status t = RApproved \<and> find_active v 100 Production = None"
proof -
  let ?t = "sample_deployment 1 Production BReady SReady RActive (Some 7)"
  have "get_by_id (sample_world sample_rows []) 1 = Some ?t"
    by (simp add: get_by_id_def sample_rows_def)
  from remove_publication_takes_down[OF sample_rows_con this, of TeamUser] show ?thesis by auto
qed

theorem complete_pending_release_activates_witness:
  "let t = set_pending ReasonPromote 9 VisTeam 5
         (sample_deployment 4 Production BReady SReady RApproved (Some 7))
   in \<exists>c v e. complete_pending_release t (sample_world [t] []) = (Inr (Some c), v) \<and>
        find_active v 100 Production = Some c \<and> audit_log v = [e] \<and> u_visibility e = VisTeam"
proof -
  let ?t = "set_pending ReasonPromote 9 VisTeam 5
         (sample_deployment 4 Production BReady SReady RApproved (Some 7))"
  have "deployments_con (deployments (sample_world [?t] [])) = None"
    by (simp add: sample_con deployment_checks_def set_pending_def is_active_def)
  from complete_pending_release_activates[OF this, of ?t ReasonPromote] show ?thesis
    by (auto simp: set_pending_def)
qed

theorem unsuccessful_build_frees_capacity_witness:
  "\<exists>r v. transition_unsuccessful_build 5
       \<lparr>bt_to = BCanceled, bt_stage = None, bt_failure_code = None, bt_failure_message = None,
        bt_build_node_id = None\<rparr>
       (sample_world [sample_deployment 5 Preview BBuilding SPending RDraft (Some 7)] []) = (Inr r, v) \<and>
     d_build_status r = BCanceled \<and> \<not> occupies 7 r"
proof -
  let ?t = "sample_deployment 5 Preview BBuilding SPending RDraft (Some 7)"
  let ?w = "sample_world [?t] []"
  have "deployments_con (deployments ?w) = None" by (simp add: sample_con)
  moreover have "get_by_id ?w 5 = Some ?t" by (simp add: get_by_id_def)
  ultimately show ?thesis
    using unsuccessful_build_frees_capacity[of ?w 5 ?t
        "\<lparr>bt_to = BCanceled, bt_stage = None, bt_failure_code = None, bt_failure_message = None,
        bt_build_node_id = None\<rparr>"] by auto
qed

end
