(* ===== verification/AppErrors.thy ===== *)
theory AppErrors
  imports Delivery
begin

text \<open>
  The errors of the HTTP interface (\<open>infra/error.rs\<close>) and the translation of the domain errors
  into them (\<open>infra/http/deployment_errors.rs\<close>).
\<close>

datatype app_error =
    Validation string string
  | Unauthorized string string
  | Forbidden string string
  | NotFound string string
  | Gone string string
  | Conflict string string
  | TooManyRequests string string
  | QuotaExceeded string string
  | Infrastructure string anyhow
  | Internal string string
  | SetupNotAllowed string string

fun app_status_code :: "app_error \<Rightarrow> nat" where
  "app_status_code (Validation _ _) = 400"
| "app_status_code (Unauthorized _ _) = 401"
| "app_status_code (Forbidden _ _) = 403"
| "app_status_code (NotFound _ _) = 404"
| "app_status_code (Gone _ _) = 410"
| "app_status_code (Conflict _ _) = 409"
| "app_status_code (TooManyRequests _ _) = 429"
| "app_status_code (QuotaExceeded _ _) = 429"
| "app_status_code (Infrastructure _ _) = 500"
| "app_status_code (Internal _ _) = 500"
| "app_status_code (SetupNotAllowed _ _) = 403"

fun app_error_code :: "app_error \<Rightarrow> nat" where
  "app_error_code (Validation _ _) = 40001"
| "app_error_code (Unauthorized _ _) = 40101"
| "app_error_code (Forbidden _ _) = 40301"
| "app_error_code (NotFound _ _) = 40401"
| "app_error_code (Gone _ _) = 41001"
| "app_error_code (Conflict _ _) = 40901"
| "app_error_code (TooManyRequests _ _) = 42901"
| "app_error_code (QuotaExceeded _ _) = 42902"
| "app_error_code (Infrastructure _ _) = 50001"
| "app_error_code (Internal _ _) = 50099"
| "app_error_code (SetupNotAllowed _ _) = 40302"

fun app_op :: "app_error \<Rightarrow> string" where
  "app_op (Validation op _) = op"
| "app_op (Unauthorized op _) = op"
| "app_op (Forbidden op _) = op"
| "app_op (NotFound op _) = op"
| "app_op (Gone op _) = op"
| "app_op (Conflict op _) = op"
| "app_op (TooManyRequests op _) = op"
| "app_op (QuotaExceeded op _) = op"
| "app_op (Infrastructure op _) = op"
| "app_op (Internal op _) = op"
| "app_op (SetupNotAllowed op _) = op"

text \<open>The text of an \<open>AppError\<close>: the cause of an infrastructure error is never shown.\<close>

fun app_message :: "app_error \<Rightarrow> string" where
  "app_message (Validation _ m) = m"
| "app_message (Unauthorized _ m) = m"
| "app_message (Forbidden _ m) = m"
| "app_message (NotFound _ m) = m"
| "app_message (Gone _ m) = m"
| "app_message (Conflict _ m) = m"
| "app_message (TooManyRequests _ m) = m"
| "app_message (QuotaExceeded _ m) = m"
| "app_message (Infrastructure _ _) = ''infrastructure service unavailable''"
| "app_message (Internal _ m) = m"
| "app_message (SetupNotAllowed _ m) = m"

text \<open>
  The texts of the domain errors (their \<open>#[error]\<close> attributes). The text of a database error
  comes from the database driver; it never reaches a client.
\<close>

fun state_error_text :: "deployment_state_error \<Rightarrow> string" where
  "state_error_text (InvalidBuildTransition from to) =
     ''invalid build status transition from '' @ from @ '' to '' @ to"
| "state_error_text (InvalidReleaseTransition from to) =
     ''invalid release status transition from '' @ from @ '' to '' @ to"
| "state_error_text (InvalidServeTransition from to) =
     ''invalid serve status transition from '' @ from @ '' to '' @ to"
| "state_error_text BuildNotReady = ''only ready deployments can enter the release flow''"
| "state_error_text ServeNotReady =
     ''only deployments with a ready Serve artifact can enter the release flow''"
| "state_error_text (StateDb _) = ''database error''"

fun schedule_error_text :: "schedule_error \<Rightarrow> string" where
  "schedule_error_text NoCapacity = ''no serve node has enough capacity''"
| "schedule_error_text (NoCapacityInRegion r) =
     ''no healthy serve node is available in region '' @ [CHR 0x27] @ r @ [CHR 0x27]"
| "schedule_error_text SelectedNodeUnavailable = ''selected serve node is unavailable''"
| "schedule_error_text SelectedNodeCapacity = ''selected serve node has no remaining capacity''"
| "schedule_error_text InvalidData = ''serve node resource data is invalid''"
| "schedule_error_text (ScheduleDb _) = ''database error''"

fun map_state_error :: "string \<Rightarrow> deployment_state_error \<Rightarrow> app_error" where
  "map_state_error op (StateDb e) = Infrastructure op (AnyDb e)"
| "map_state_error op e = Conflict op (state_error_text e)"

fun map_schedule_error :: "string \<Rightarrow> schedule_error \<Rightarrow> app_error" where
  "map_schedule_error op (ScheduleDb e) = Infrastructure op (AnyDb e)"
| "map_schedule_error op InvalidData = Infrastructure op (AnyMsg (schedule_error_text InvalidData))"
| "map_schedule_error op e = Conflict op (schedule_error_text e)"

fun map_delivery_error :: "string \<Rightarrow> delivery_error \<Rightarrow> app_error" where
  "map_delivery_error op ReleaseAlreadyPending =
     Conflict op ''another release operation is already waiting for Serve synchronization''"
| "map_delivery_error op (DelState e) = map_state_error op e"
| "map_delivery_error op (DelSchedule e) = map_schedule_error op e"
| "map_delivery_error op (DelDatabase e) = Infrastructure op (AnyDb e)"
| "map_delivery_error op InvalidResources =
     Infrastructure op (AnyMsg ''deployment has invalid Serve resource data'')"
| "map_delivery_error op InvalidUnsuccessfulBuildTransition =
     Infrastructure op (AnyMsg
       ''delivery reconciliation requires a failed or canceled build transition'')"
| "map_delivery_error op (DelOther e) = Infrastructure op e"

text \<open>The error as an \<open>anyhow::Error\<close>, where a caller does not tell the variants apart.\<close>

fun delivery_anyhow :: "delivery_error \<Rightarrow> anyhow" where
  "delivery_anyhow (DelDatabase e) = AnyDb e"
| "delivery_anyhow (DelSchedule (ScheduleDb e)) = AnyDb e"
| "delivery_anyhow (DelSchedule e) = AnyMsg (schedule_error_text e)"
| "delivery_anyhow (DelState (StateDb e)) = AnyDb e"
| "delivery_anyhow (DelState e) = AnyMsg (state_error_text e)"
| "delivery_anyhow ReleaseAlreadyPending =
     AnyMsg ''another release operation is already waiting for Serve synchronization''"
| "delivery_anyhow InvalidResources = AnyMsg ''deployment has invalid Serve resource data''"
| "delivery_anyhow InvalidUnsuccessfulBuildTransition =
     AnyMsg ''delivery reconciliation requires a failed or canceled build transition''"
| "delivery_anyhow (DelOther e) = e"

text \<open>
  Every domain error of a release operation reaches the client as 409 or 500, with the operation
  that was asked for; it is 409 exactly when the caller can do something about it (a status
  transition that is not allowed, a release already waiting, no capacity), and a 500 never shows
  what failed inside.
\<close>

theorem delivery_errors_mapped:
  "app_op (map_delivery_error op e) = op \<and>
   app_status_code (map_delivery_error op e) \<in> {409, 500} \<and>
   (app_status_code (map_delivery_error op e) = 409) =
     (e = ReleaseAlreadyPending \<or>
      (\<exists>s. e = DelState s \<and> (\<forall>d. s \<noteq> StateDb d)) \<or>
      (\<exists>s. e = DelSchedule s \<and> s \<noteq> InvalidData \<and> (\<forall>d. s \<noteq> ScheduleDb d))) \<and>
   (app_status_code (map_delivery_error op e) = 409 \<or>
    app_message (map_delivery_error op e) = ''infrastructure service unavailable'')"
proof (cases e)
  case (DelState s)
  then show ?thesis by (cases s) simp_all
next
  case (DelSchedule s)
  then show ?thesis by (cases s) simp_all
qed simp_all

end
