(* ===== verification/Activation.thy ===== *)
theory Activation
  imports AppErrors
begin

text \<open>
  The use cases of delivery: activation by a user (\<open>domain/deployment_activation.rs\<close>), the end of
  a Serve synchronization, the report of a Node (\<open>internal/serve/.../status.rs\<close>), cancellation
  (\<open>domain/deployment_cancellation.rs\<close>) and creation with a placement
  (\<open>domain/deployment_placement.rs\<close>). Each opens one transaction.
\<close>

section \<open>Activation by a user\<close>

record activation_outcome =
  ao_deployment :: deployment
  ao_release_pending :: bool
  ao_review_id :: "uuid option"

datatype activation_kind = ActionRelease | ActionRequestReview

fun activation_action :: "release_status \<Rightarrow> bool \<Rightarrow> string + activation_kind" where
  "activation_action RRejected _ = Inl ''rejected deployments must be re-submitted for review''"
| "activation_action RPendingReview _ = Inl ''deployment is waiting for review''"
| "activation_action RDraft True = Inr ActionRequestReview"
| "activation_action _ _ = Inr ActionRelease"

definition outcome_parts :: "release_request_outcome \<Rightarrow> deployment \<times> bool" where
  "outcome_parts outcome =
     (case outcome of RqActivated d \<Rightarrow> (d, False) | RqSyncQueued d \<Rightarrow> (d, True))"

definition activation_step ::
  "activation_kind \<Rightarrow> deployment \<Rightarrow> uuid \<Rightarrow> release_reason \<Rightarrow> string \<Rightarrow>
   (app_error, deployment \<times> bool \<times> uuid option \<times> string) dbm" where
  "activation_step action d actor reason op =
     (case action of
        ActionRequestReview \<Rightarrow>
          bindM (get_by_id_for_update (d_id d)) (\<lambda>found.
          bindM (okOr (NotFound op ''deployment not found'') found) (\<lambda>current.
          bindM (mapErr (map_state_error op) (request_review current (Some actor))) (\<lambda>(d', review).
          retM (d', False, Some (v_id review), ''deployment.review_requested''))))
      | ActionRelease \<Rightarrow>
          bindM (mapErr (map_delivery_error op) (request_release (d_id d) reason actor VisTeam))
            (\<lambda>outcome.
          (let (d', pending) = outcome_parts outcome
           in retM (d', pending, None, release_audit_action reason pending))))"

definition activate_deployment ::
  "deployment \<Rightarrow> uuid \<Rightarrow> release_reason \<Rightarrow> string \<Rightarrow> (app_error, activation_outcome) dbm" where
  "activate_deployment d actor reason op =
     (if d_build_status d \<noteq> BReady then
        failM (Conflict op ''only deployments with a ready build can be activated'')
      else if d_release_status d = RActive then
        failM (Conflict op ''deployment is already active'')
      else
        bindM (mapErr (Infrastructure op) (review_policy_for_team (d_team_id d))) (\<lambda>policy.
        bindM (liftR (case activation_action (d_release_status d)
                   (mode_for policy (d_environment d) = ModeManual) of
                 Inl m \<Rightarrow> Inl (Conflict op m) | Inr a \<Rightarrow> Inr a)) (\<lambda>action.
        transaction (
          bindM (activation_step action d actor reason op) (\<lambda>(d', pending, review, audit_action).
          bindM (mapErr (\<lambda>e. Infrastructure op (AnyDb e)) (create_audit_event
            \<lparr>ap_actor_user_id = Some actor, ap_actor_node_id = None,
             ap_team_id = Some (d_team_id d), ap_action = audit_action,
             ap_target_type = ''deployment'', ap_target_id = Some (d_id d'),
             ap_result = AuditSuccess, ap_reason = None,
             ap_metadata = JObj [(''project_id'', JUuid (d_project_id d)),
               (''release_pending'', JBool pending), (''review_id'', jopt JUuid review)]\<rparr>)) (\<lambda>_.
          retM \<lparr>ao_deployment = d', ao_release_pending = pending, ao_review_id = review\<rparr>))))))"

section \<open>The end of a Serve synchronization\<close>

definition auto_activate_op :: string where
  "auto_activate_op = ''internal.deployments.auto_activate''"

definition complete_serve_ready :: "deployment \<Rightarrow> (app_error, unit) dbm" where
  "complete_serve_ready d =
     bindM
       (if d_pending_release_reason d \<noteq> None then
          bindM (mapErr (map_delivery_error auto_activate_op) (complete_pending_release d)) (\<lambda>_.
          retM ())
        else
          bindM (mapErr (Infrastructure auto_activate_op) (review_policy_for_team (d_team_id d)))
            (\<lambda>policy.
          if serve_ready_release_action (mode_for policy (d_environment d)) (d_release_status d)
              = ActActivate then
            bindM (mapErr (map_state_error auto_activate_op) (activate d ReasonAuto None)) (\<lambda>a.
            mapErr (\<lambda>e. Infrastructure auto_activate_op (AnyDb e)) (create_audit_event
              \<lparr>ap_actor_user_id = None, ap_actor_node_id = None, ap_team_id = Some (d_team_id a),
               ap_action = ''deployment.auto_activated'', ap_target_type = ''deployment'',
               ap_target_id = Some (d_id a), ap_result = AuditSuccess, ap_reason = None,
               ap_metadata = JObj [(''project_id'', JUuid (d_project_id d)),
                 (''environment'', JStr (environment_value (d_environment d)))]\<rparr>))
          else retM ())) (\<lambda>_.
     mapErr (\<lambda>e. Infrastructure auto_activate_op (delivery_anyhow e))
       (reconcile_environment (d_project_id d) (d_environment d)))"

section \<open>The report of a Node\<close>

definition shadow_migration_statuses :: "migration_status list" where
  "shadow_migration_statuses = [MPending, MSyncing, MReady]"

definition migration_is_shadow_assignment :: "migration_status \<Rightarrow> bool" where
  "migration_is_shadow_assignment s \<longleftrightarrow> s \<in> set shadow_migration_statuses"

datatype reported_serve_status = ReportedSyncing | ReportedReady | ReportedFailed

record status_report =
  sp_status :: reported_serve_status
  sp_failure_code :: "string option"
  sp_failure_message :: "string option"

definition text_bytes :: "string \<Rightarrow> nat" where
  "text_bytes s = utf8_len (map of_char s)"

definition failure_code_char :: "char \<Rightarrow> bool" where
  "failure_code_char c \<longleftrightarrow>
     is_ascii_lower (of_char c) \<or> is_ascii_digit (of_char c) \<or> c = CHR ''_'' \<or> c = CHR ''-''"

definition validate_status_report :: "status_report \<Rightarrow> string + unit" where
  "validate_status_report r =
     (if (case sp_failure_message r of Some m \<Rightarrow> 1024 < text_bytes m | None \<Rightarrow> False)
      then Inl ''failure_message must be at most 1024 bytes''
      else if sp_status r \<noteq> ReportedFailed then
        (if sp_failure_code r \<noteq> None \<or> sp_failure_message r \<noteq> None
         then Inl ''failure details are only allowed for failed status'' else Inr ())
      else
        (case sp_failure_code r of
           None \<Rightarrow> Inl ''failed status requires failure_code''
         | Some code \<Rightarrow>
             if code = [] \<or> 64 < text_bytes code \<or> \<not> list_all failure_code_char code
             then Inl ''failure_code must be a lowercase identifier of at most 64 bytes''
             else Inr ()))"

definition report_op :: string where
  "report_op = ''internal.serve.report_status''"

definition ensure_serve_node :: "node \<Rightarrow> string \<Rightarrow> app_error + unit" where
  "ensure_serve_node n op =
     (if n_serve_enabled n then Inr ()
      else Inl (Forbidden op ''node does not have Serve capability''))"

definition shadow_migration :: "world \<Rightarrow> uuid \<Rightarrow> uuid \<Rightarrow> migration option" where
  "shadow_migration w did nid =
     find (\<lambda>m. m_deployment_id m = did \<and> m_target_node_id m = nid \<and>
       m_status m \<in> set shadow_migration_statuses) (migrations w)"

definition apply_migration_report :: "time \<Rightarrow> status_report \<Rightarrow> migration \<Rightarrow> migration" where
  "apply_migration_report now r m =
     (case sp_status r of
        ReportedSyncing \<Rightarrow>
          m\<lparr>m_status := MSyncing, m_error := None, m_ready_at := None, m_updated_at := now\<rparr>
      | ReportedReady \<Rightarrow>
          m\<lparr>m_status := MReady, m_error := None, m_ready_at := Some now, m_updated_at := now\<rparr>
      | ReportedFailed \<Rightarrow>
          m\<lparr>m_status := MFailed,
            m_error := (case sp_failure_message r of Some x \<Rightarrow> Some x | None \<Rightarrow> sp_failure_code r),
            m_ready_at := None, m_updated_at := now\<rparr>)"

fun reported_target :: "reported_serve_status \<Rightarrow> serve_status" where
  "reported_target ReportedSyncing = SSyncing"
| "reported_target ReportedReady = SReady"
| "reported_target ReportedFailed = SFailed"

definition report_shadow :: "migration \<Rightarrow> status_report \<Rightarrow> (app_error, unit) dbm" where
  "report_shadow m r =
     bindM now_utc (\<lambda>now.
     bindM (mapErr (\<lambda>e. Infrastructure report_op (AnyDb e))
       (update_migration (m_id m) (apply_migration_report now r))) (\<lambda>_.
     retM ()))"

definition report_live :: "deployment \<Rightarrow> status_report \<Rightarrow> (app_error, unit) dbm" where
  "report_live d r =
     bindM (mapErr (map_state_error report_op) (transition_serve d
       \<lparr>st_to = reported_target (sp_status r), st_failure_code = sp_failure_code r,
        st_failure_message = sp_failure_message r\<rparr>)) (\<lambda>updated.
     if reported_target (sp_status r) = SReady then complete_serve_ready updated else retM ())"

definition report_body :: "node \<Rightarrow> uuid \<Rightarrow> status_report \<Rightarrow> (app_error, unit) dbm" where
  "report_body n did r =
     bindM lock_placement (\<lambda>_.
     bindM (get_by_id_for_update did) (\<lambda>found.
     bindM (okOr (NotFound report_op ''deployment not found'') found) (\<lambda>d.
     bindM (getM (\<lambda>w. shadow_migration w did (n_id n))) (\<lambda>shadow.
     case shadow of
       Some m \<Rightarrow>
         if d_serve_node_id d \<noteq> Some (n_id n) then report_shadow m r
         else if d_build_status d \<noteq> BReady then
           failM (Conflict report_op ''deployment build is not ready'')
         else report_live d r
     | None \<Rightarrow>
         if d_serve_node_id d \<noteq> Some (n_id n) then
           failM (Forbidden report_op ''deployment is not assigned to this Serve Node'')
         else if d_build_status d \<noteq> BReady then
           failM (Conflict report_op ''deployment build is not ready'')
         else report_live d r))))"

definition report_status :: "node \<Rightarrow> uuid \<Rightarrow> status_report \<Rightarrow> (app_error, unit) dbm" where
  "report_status n did r =
     bindM (liftR (ensure_serve_node n report_op)) (\<lambda>_.
     bindM (liftR (case validate_status_report r of
              Inl m \<Rightarrow> Inl (Validation report_op m) | Inr x \<Rightarrow> Inr x)) (\<lambda>_.
     transaction (report_body n did r)))"

section \<open>Cancellation\<close>

definition cancellation_was_requested :: "build_status \<Rightarrow> bool \<Rightarrow> bool" where
  "cancellation_was_requested status flagged \<longleftrightarrow> status = BCanceled \<or> flagged"

definition cancellation_releases_build_slot :: "build_status \<Rightarrow> bool" where
  "cancellation_releases_build_slot status \<longleftrightarrow> status \<in> {BClaimed, BQueued, BBuilding}"

definition canceled_by_user :: build_transition where
  "canceled_by_user =
     \<lparr>bt_to = BCanceled, bt_stage = None, bt_failure_code = None,
      bt_failure_message = Some ''canceled by user'', bt_build_node_id = None\<rparr>"

text \<open>
  After the commit the code sets the cancel flag in the cache for a day and releases the build slot
  of the team; the calls on the cache are returned as effects, in order.
\<close>

datatype cancel_effect = SetCancelFlag uuid int | ReleaseBuildSlotOnce uuid uuid

definition cancel_deployment_core ::
  "deployment \<Rightarrow> uuid \<Rightarrow> string \<Rightarrow> (app_error, deployment \<times> cancel_effect list) dbm" where
  "cancel_deployment_core d actor op =
     bindM (transaction (
       bindM (mapErr (map_delivery_error op)
         (transition_unsuccessful_build (d_id d) canceled_by_user)) (\<lambda>d'.
       bindM (mapErr (\<lambda>e. Infrastructure op (AnyDb e)) (create_audit_event
         \<lparr>ap_actor_user_id = Some actor, ap_actor_node_id = None, ap_team_id = Some (d_team_id d),
          ap_action = ''deployment.canceled'', ap_target_type = ''deployment'',
          ap_target_id = Some (d_id d'), ap_result = AuditSuccess, ap_reason = None,
          ap_metadata = JObj []\<rparr>)) (\<lambda>_.
       retM d')))) (\<lambda>d'.
     retM (d',
       if cancellation_releases_build_slot (d_build_status d)
       then [SetCancelFlag (d_id d') (60 * 60 * 24), ReleaseBuildSlotOnce (d_team_id d) (d_id d')]
       else []))"

section \<open>Creation with a placement\<close>

fun placement_mode_value :: "placement_mode \<Rightarrow> string" where
  "placement_mode_value Automatic = ''automatic''"
| "placement_mode_value Manual = ''manual''"

definition resources_json :: "serve_resources \<Rightarrow> json" where
  "resources_json r =
     JObj [(''cpu_millicores'', JNum (int (sr_cpu_millicores r))),
           (''memory_mb'', JNum (int (sr_memory_mb r))), (''disk_mb'', JNum (int (sr_disk_mb r)))]"

definition create_placed_deployment ::
  "create_deployment_params \<Rightarrow> uuid option \<Rightarrow> string option \<Rightarrow> string \<Rightarrow>
   (app_error, deployment) dbm" where
  "create_placed_deployment params selected region op =
     (let requested = runtime_serve_resources (p_runtime (cp_project params)) in
     transaction (
       bindM (mapErr (map_schedule_error op)
         (place_deployment_in_region requested selected region)) (\<lambda>pl.
       bindM (mapErr (Infrastructure op) (create_deployment params pl)) (\<lambda>d.
       bindM (mapErr (Infrastructure op) (append_event (d_id d) EvServe
         ''deployment assigned to serve node''
         (JObj [(''mode'', JStr (placement_mode_value (pl_mode pl))),
                (''serve_node_id'', JUuid (pl_node_id pl)), (''resources'', resources_json requested),
                (''overcommitted'', JBool (pl_overcommitted pl))]))) (\<lambda>_.
       bindM (mapErr (\<lambda>e. Infrastructure op (AnyDb e)) (create_audit_event
         \<lparr>ap_actor_user_id = d_triggered_by_user_id d, ap_actor_node_id = None,
          ap_team_id = Some (d_team_id d), ap_action = ''deployment.created'',
          ap_target_type = ''deployment'', ap_target_id = Some (d_id d),
          ap_result = AuditSuccess, ap_reason = None,
          ap_metadata = JObj [(''project_id'', JUuid (d_project_id d)),
            (''environment'', JStr (environment_value (d_environment d)))]\<rparr>)) (\<lambda>_.
       retM d))))))"

section \<open>Transactions\<close>

lemma begin_tx_simps [simp]:
  "deployments (begin_tx w) = deployments w" "migrations (begin_tx w) = migrations w"
  "nodes (begin_tx w) = nodes w" "settings (begin_tx w) = settings w" "teams (begin_tx w) = teams w"
  "team_groups (begin_tx w) = team_groups w" "releases (begin_tx w) = releases w"
  "events (begin_tx w) = events w" "audit_log (begin_tx w) = audit_log w"
  "reviews (begin_tx w) = reviews w" "jobs (begin_tx w) = jobs w"
  "artifacts (begin_tx w) = artifacts w" "leases (begin_tx w) = leases w"
  "quota_events (begin_tx w) = quota_events w" "usage_counters (begin_tx w) = usage_counters w"
  by (simp_all add: begin_tx_def)

lemma commit_audits_simps [simp]:
  "deployments (commit_audits w v) = deployments v" "migrations (commit_audits w v) = migrations v"
  "nodes (commit_audits w v) = nodes v" "releases (commit_audits w v) = releases v"
  "events (commit_audits w v) = events v" "audit_log (commit_audits w v) = audit_log v"
  "reviews (commit_audits w v) = reviews v" "jobs (commit_audits w v) = jobs v"
  "artifacts (commit_audits w v) = artifacts v" "leases (commit_audits w v) = leases v"
  "quota_events (commit_audits w v) = quota_events v"
  "usage_counters (commit_audits w v) = usage_counters v"
  by (simp_all add: commit_audits_def)

lemma rollback_to_simps [simp]:
  "deployments (rollback_to w v) = deployments w" "migrations (rollback_to w v) = migrations w"
  "nodes (rollback_to w v) = nodes w" "releases (rollback_to w v) = releases w"
  "events (rollback_to w v) = events w" "audit_log (rollback_to w v) = audit_log w"
  "reviews (rollback_to w v) = reviews w" "jobs (rollback_to w v) = jobs w"
  "committed_audits (rollback_to w v) = committed_audits w"
  by (simp_all add: rollback_to_def)

lemma find_active_cong: "deployments v = deployments w \<Longrightarrow> find_active v pid env = find_active w pid env"
  by (simp add: find_active_def)

lemma find_active_frame [simp]:
  "find_active (commit_audits w v) pid env = find_active v pid env"
  "find_active (begin_tx w) pid env = find_active w pid env"
  by (simp_all add: find_active_def)

lemma get_by_id_frame [simp]:
  "get_by_id (begin_tx w) did = get_by_id w did"
  "get_by_id (commit_audits w v) did = get_by_id v did"
  by (simp_all add: get_by_id_def)

text \<open>Reading the review policy changes nothing and looks at three tables only.\<close>

lemma review_policy_pure: "snd (review_policy_for_team tid w) = w"
  by (simp add: review_policy_for_team_def bindM_def getM_def okOr_def retM_def failM_def
      split: option.splits)

lemma review_policy_cong:
  assumes "settings v = settings w" "teams v = teams w" "team_groups v = team_groups w"
  shows "fst (review_policy_for_team tid v) = fst (review_policy_for_team tid w)"
  using assms
  by (simp add: review_policy_for_team_def bindM_def getM_def okOr_def retM_def failM_def
      review_policy_def get_setting_def split: option.splits)

definition team_policy :: "world \<Rightarrow> uuid \<Rightarrow> review_policy \<Rightarrow> bool" where
  "team_policy w tid policy \<longleftrightarrow> fst (review_policy_for_team tid w) = Inr policy"

lemma team_policy_run:
  assumes "team_policy w tid policy" and "settings v = settings w" "teams v = teams w"
    "team_groups v = team_groups w"
  shows "review_policy_for_team tid v = (Inr policy, v)"
  using assms review_policy_pure[of tid v] review_policy_cong[of v w tid]
  by (simp add: team_policy_def prod_eq_iff)

section \<open>What a Node's report can do\<close>

text \<open>
  C10. A Node reaches only what is assigned to it. Its report about a deployment that it does not
  serve never changes a deployment, an event or a release, whatever the report says; at most the
  shadow migration of that deployment to this Node changes. A report that is refused changes no
  table at all.
\<close>

theorem report_status_isolated:
  assumes run: "report_status n did r w = (x, v)"
  shows "(\<forall>d. get_by_id w did = Some d \<and> d_serve_node_id d \<noteq> Some (n_id n) \<longrightarrow>
      deployments v = deployments w \<and> events v = events w \<and> releases v = releases w \<and>
      (\<forall>m\<in>set (migrations w). m_deployment_id m \<noteq> did \<or> m_target_node_id m \<noteq> n_id n \<longrightarrow>
         distinct (map m_id (migrations w)) \<longrightarrow> m \<in> set (migrations v))) \<and>
    (\<forall>e. x = Inl e \<longrightarrow> deployments v = deployments w \<and> migrations v = migrations w \<and>
      events v = events w \<and> releases v = releases w \<and> audit_log v = audit_log w)"
proof -
  have failed: "deployments v = deployments w \<and> migrations v = migrations w \<and>
      events v = events w \<and> releases v = releases w \<and> audit_log v = audit_log w" if "x = Inl e" for e
  proof (cases "n_serve_enabled n \<and> validate_status_report r = Inr ()")
    case True
    then have "transaction (report_body n did r) w = (Inl e, v)"
      using run that by (simp add: report_status_def ensure_serve_node_def)
    then show ?thesis by (auto simp: transaction_Inl)
  next
    case False
    then show ?thesis
      using run that
      by (auto simp: report_status_def ensure_serve_node_def failM_def bindM_def retM_def
          split: if_splits sum.splits)
  qed
  have foreign: "deployments v = deployments w \<and> events v = events w \<and> releases v = releases w \<and>
      (\<forall>m\<in>set (migrations w). m_deployment_id m \<noteq> did \<or> m_target_node_id m \<noteq> n_id n \<longrightarrow>
         distinct (map m_id (migrations w)) \<longrightarrow> m \<in> set (migrations v))"
    if d: "get_by_id w did = Some d" "d_serve_node_id d \<noteq> Some (n_id n)" and ok: "x = Inr ()" for d
  proof -
    from run ok obtain u where u: "report_body n did r (begin_tx w) = (Inr (), u)"
      "v = commit_audits w u"
      by (auto simp: report_status_def oper_Inr transaction_Inr)
    with d obtain m where m: "shadow_migration w did (n_id n) = Some m"
      and step: "report_shadow m r (begin_tx w) = (Inr (), u)"
      by (auto simp: report_body_def lock_placement_def oper_Inr get_by_id_for_update_def
          shadow_migration_def split: option.splits)
    have m': "m \<in> set (migrations w)" "m_deployment_id m = did" "m_target_node_id m = n_id n"
      using find_Some_iff_mem[OF m[unfolded shadow_migration_def]] by auto
    from step obtain now rows where upd: "u = put_migrations rows ((begin_tx w)\<lparr>clock_pos := Suc (clock_pos (begin_tx w))\<rparr>)"
      "rows = update_where (\<lambda>x. m_id x = m_id m) (apply_migration_report now r) (migrations w)"
      by (auto simp: report_shadow_def oper_Inr now_utc_def update_migration_def mig.update_Inr)
    have "q \<in> set rows"
      if "q \<in> set (migrations w)" "m_deployment_id q \<noteq> did \<or> m_target_node_id q \<noteq> n_id n"
        "distinct (map m_id (migrations w))" for q
    proof -
      have "m_id q \<noteq> m_id m" using that m' by (auto simp: distinct_map inj_on_def)
      then show ?thesis using that unfolding upd set_update_where by force
    qed
    then show ?thesis by (auto simp: u(2) upd(1) put_migrations_def)
  qed
  show ?thesis
  proof (cases x)
    case (Inl e)
    then show ?thesis using failed[OF Inl] by auto
  next
    case (Inr y)
    then show ?thesis using foreign by auto
  qed
qed

section \<open>Going live\<close>

lemma create_audit_event_run:
  "\<exists>e. create_audit_event params w =
     (Inr (), w\<lparr>uuid_pos := Suc (uuid_pos w), clock_pos := Suc (clock_pos w),
                audit_log := audit_log w @ [e]\<rparr>) \<and>
     u_action e = ap_action params \<and> u_target_id e = ap_target_id params \<and>
     u_actor_user_id e = ap_actor_user_id params"
  using create_domain_audit_event_ok[of params None "JObj []" w]
  by (auto simp: create_audit_event_def)

text \<open>The end of a synchronization of a draft under automatic review.\<close>

lemma complete_serve_ready_auto:
  assumes con: "deployments_con (deployments w) = None"
    and t: "t \<in> set (deployments w)" "d_deleted_at t = None"
    and policy: "team_policy w (d_team_id t) policy" "mode_for policy (d_environment t) = ModeAuto"
    and ready: "d_build_status t = BReady" "d_serve_status t = SReady" "d_release_status t = RDraft"
    and idle: "d_pending_release_reason t = None"
  shows "\<exists>v d. complete_serve_ready t w = (Inr (), v) \<and>
    find_active v (d_project_id t) (d_environment t) = Some d \<and> d_id d = d_id t"
proof -
  let ?pid = "d_project_id t" and ?env = "d_environment t"
  let ?a = "touch_deployment (sql_now w) (t\<lparr>d_release_status := RActive\<rparr>)"
  have draft: "d_release_status t = RDraft \<or> d_release_status t = RApproved" using ready by simp
  obtain u where act: "activate t ReasonAuto None w = (Inr ?a, u)"
    and rows: "deployments u = map (after_activation (sql_now w) t) (deployments w)"
    and con_u: "deployments_con (deployments u) = None"
    by (rule activate_reconcile_run[OF con t ready(1,2) draft])
  let ?p = "\<lparr>ap_actor_user_id = None, ap_actor_node_id = None, ap_team_id = Some (d_team_id t),
     ap_action = ''deployment.auto_activated'', ap_target_type = ''deployment'',
     ap_target_id = Some (d_id t), ap_result = AuditSuccess, ap_reason = None,
     ap_metadata = JObj [(''project_id'', JUuid ?pid),
       (''environment'', JStr (environment_value ?env))]\<rparr>"
  obtain e where audit: "create_audit_event ?p u = (Inr (), u\<lparr>uuid_pos := Suc (uuid_pos u),
      clock_pos := Suc (clock_pos u), audit_log := audit_log u @ [e]\<rparr>)"
    using create_audit_event_run by blast
  let ?u = "u\<lparr>uuid_pos := Suc (uuid_pos u), clock_pos := Suc (clock_pos u),
    audit_log := audit_log u @ [e]\<rparr>"
  have con': "deployments_con (deployments ?u) = None" using con_u by simp
  obtain v where rec: "reconcile_environment ?pid ?env ?u = (Inr (), v)"
    using reconcile_run[OF con'] by blast
  note fin = reconcile_Inr[OF con' rec]
  have a_u: "?a \<in> set (deployments ?u)"
    using t unfolding rows by (force simp: rows after_activation_def)
  let ?d = "reconciled_row ?u ?pid ?env ?a"
  have d_v: "?d \<in> set (deployments v)" using a_u unfolding fin(1) by auto
  have d_key: "d_project_id ?d = ?pid" "d_environment ?d = ?env"
    using reconciled_row_flags(2)[of ?u _ _ ?a] by (simp_all add: env_key_def)
  have "find_active v ?pid ?env = Some ?d"
    using find_active_row[OF fin(2) d_v] t d_key by simp
  moreover have "complete_serve_ready t w = (Inr (), v)"
    using idle policy(2) ready act audit rec team_policy_run[OF policy(1) refl refl refl]
    by (simp add: complete_serve_ready_def bindM_def mapErr_def retM_def
        serve_ready_release_action_def)
  ultimately show ?thesis by auto
qed

text \<open>
  C11. Under automatic review a site goes live without anyone touching it: when the assigned Node
  reports a synchronized draft with a ready build as ready, the report succeeds and in the same
  transaction the deployment becomes the active one of its environment.
\<close>

theorem ready_report_goes_live:
  assumes con: "deployments_con (deployments w) = None"
    and found: "get_by_id w did = Some t"
    and node: "n_serve_enabled n" "d_serve_node_id t = Some (n_id n)"
    and policy: "team_policy w (d_team_id t) policy" "mode_for policy (d_environment t) = ModeAuto"
    and state: "d_build_status t = BReady" "d_serve_status t = SSyncing" "d_release_status t = RDraft"
      "d_pending_release_reason t = None"
  shows "\<exists>v d. report_status n did
      \<lparr>sp_status = ReportedReady, sp_failure_code = None, sp_failure_message = None\<rparr> w = (Inr (), v) \<and>
    find_active v (d_project_id t) (d_environment t) = Some d \<and> d_id d = did"
proof -
  let ?r = "\<lparr>sp_status = ReportedReady, sp_failure_code = None, sp_failure_message = None\<rparr>"
  let ?w = "begin_tx w"
  let ?st = "\<lparr>st_to = SReady, st_failure_code = None, st_failure_message = None\<rparr>"
  note t = get_by_id_Some[OF found]
  from t have mem: "t \<in> set (deployments ?w)" by simp
  have con': "deployments_con (deployments ?w) = None" using con by simp
  let ?t = "touch_deployment (sql_now ?w) (apply_serve (clock ?w (clock_pos ?w)) ?st t)"
  have can: "can_transition_serve (d_serve_status t) (st_to ?st)" using state by simp
  obtain u where run: "transition_serve t ?st ?w = (Inr ?t, u)"
    and rows: "deployments u = update_where (\<lambda>d. d_id d = d_id t)
      (\<lambda>d. touch_deployment (sql_now ?w) (apply_serve (clock ?w (clock_pos ?w)) ?st d)) (deployments w)"
    using transition_serve_run[OF can dep.row_found[OF con' mem] con'] by simp
  have ext: "extends ?w u" using runsD[OF transition_serve_ok run] .
  have con_u: "deployments_con (deployments u) = None" using ext con by (simp add: extends_def)
  have t_u: "?t \<in> set (deployments u)" unfolding rows set_update_where using mem by force
  have ident: "identity_of ?t = identity_of t"
    using identity_update(3) by (simp add: identity_of_def)
  have "outside u = outside ?w" using ext by (simp add: extends_def)
  note same = outside_eqD[OF this, simplified]
  have "d_team_id ?t = d_team_id t" using ident by (simp add: identity_of_def)
  with policy(1) have pol: "team_policy u (d_team_id ?t) policy"
    using review_policy_cong[OF same(6,4,5)] by (simp add: team_policy_def)
  obtain v d where fin: "complete_serve_ready ?t u = (Inr (), v)"
    "find_active v (d_project_id ?t) (d_environment ?t) = Some d" "d_id d = d_id ?t"
    using complete_serve_ready_auto[OF con_u t_u _ pol] policy(2) state t ident
    by (auto simp: identity_of_def)
  have "report_body n did ?r ?w = (Inr (), v)"
    using found node state run fin(1)
    by (simp add: report_body_def lock_placement_def bindM_def retM_def getM_def okOr_def mapErr_def
        get_by_id_for_update_def report_live_def split: option.split)
  then have "report_status n did ?r w = (Inr (), commit_audits w v)"
    using node
    by (simp add: report_status_def ensure_serve_node_def validate_status_report_def transaction_def)
  with fin ident t show ?thesis by (auto simp: identity_of_def)
qed

section \<open>Review before release\<close>

lemma find_update_skip:
  assumes "\<And>r. r \<in> set rows \<Longrightarrow> q r \<Longrightarrow> \<not> p r \<and> \<not> p (f r)"
  shows "find p (update_where q f rows) = find p rows"
  using assms by (induction rows) (auto simp: update_where_def)

text \<open>
  C12. Where the review policy of the team is manual, activating a draft never puts it live: a
  successful call leaves every environment's active deployment as it was, moves the draft to
  pending review and creates one pending review of it, whose identifier it returns.
\<close>

theorem manual_review_blocks_release:
  assumes con: "deployments_con (deployments w) = None"
    and policy: "team_policy w (d_team_id d) policy" "mode_for policy (d_environment d) = ModeManual"
    and draft: "d_release_status d = RDraft"
    and run: "activate_deployment d actor reason op w = (Inr out, v)"
  shows "find_active v pid env = find_active w pid env \<and>
    d_release_status (ao_deployment out) = RPendingReview \<and> \<not> ao_release_pending out \<and>
    (\<exists>r. reviews v = reviews w @ [r] \<and> ao_review_id out = Some (v_id r) \<and>
       v_status r = VPending \<and> v_deployment_id r = d_id d)"
proof -
  let ?w = "begin_tx w"
  have pol: "review_policy_for_team (d_team_id d) w = (Inr policy, w)"
    by (rule team_policy_run[OF policy(1) refl refl refl])
  from run pol policy(2) draft obtain u current d' review u1 where
    cur: "get_by_id w (d_id d) = Some current" and
    req: "request_review current (Some actor) ?w = (Inr (d', review), u1)" and
    audit: "\<exists>p. create_audit_event p u1 = (Inr (), u)" and
    out: "out = \<lparr>ao_deployment = d', ao_release_pending = False, ao_review_id = Some (v_id review)\<rparr>"
      "v = commit_audits w u"
    by (fastforce simp: activate_deployment_def oper_Inr failM_def transaction_Inr activation_step_def
        get_by_id_for_update_def split: if_splits)
  from req obtain u2 u3 where
    rel: "transition_release current RPendingReview
       (JObj [(''requested_by'', jopt JUuid (Some actor))]) ?w = (Inr d', u2)" and
    rev: "create_review (d_id d') u2 = (Inr review, u3)" and
    ev: "u1 = log_event (d_id d') EvReview ''review requested''
       (JObj [(''review_id'', JUuid (v_id review))]) u3"
    by (auto simp: request_review_def oper_Inr append_event_run)
  note cur' = get_by_id_Some[OF cur]
  from transition_release_Inr[OF rel] obtain r where
    can: "can_transition_release (d_release_status current) RPendingReview" and
    r: "find_row d_id (d_id current) (deployments w) = Some r"
      "d' = touch_deployment (sql_now ?w) (r\<lparr>d_release_status := RPendingReview\<rparr>)" and
    rows: "deployments u2 = update_where (\<lambda>x. d_id x = d_id current)
      (\<lambda>x. touch_deployment (sql_now ?w) (x\<lparr>d_release_status := RPendingReview\<rparr>)) (deployments w)"
    by auto
  have not_active: "d_release_status current \<noteq> RActive" using can by auto
  have reviews2: "reviews u2 = reviews w"
    using runsD[OF transition_release_records rel] by (simp add: same_records_def)
  from rev have u3: "deployments u3 = deployments u2" "reviews u3 = reviews u2 @ [review]"
    "v_status review = VPending" "v_deployment_id review = d_id d'"
    by (auto simp: create_review_def oper_Inr now_utc_def now_v7_def insert_review_def rev.insert_Inr
        put_reviews_def)
  from audit obtain p where p: "create_audit_event p u1 = (Inr (), u)" by blast
  obtain e where "create_audit_event p u1 = (Inr (), u1\<lparr>uuid_pos := Suc (uuid_pos u1),
      clock_pos := Suc (clock_pos u1), audit_log := audit_log u1 @ [e]\<rparr>)"
    using create_audit_event_run by blast
  with p have fin: "deployments u = deployments u2" "reviews u = reviews w @ [review]"
    by (auto simp: ev u3 reviews2)
  have one: "x = current" if "x \<in> set (deployments w)" "d_id x = d_id current" for x
    using con_row_unique[OF con that(1) _ that(2)] cur' by blast
  have "find_active u pid env = find_active w pid env"
    unfolding find_active_def fin(1) rows
    by (rule find_update_skip) (auto dest!: one simp: not_active)
  moreover have "d_id d' = d_id d" using r find_row_mem[OF r(1)] cur' by simp
  ultimately show ?thesis using r u3 fin by (simp add: out)
qed

section \<open>Canceling and creating\<close>

text \<open>
  Canceling a deployment whose build is still open succeeds, in one transaction frees its
  capacity and writes one audit event; afterwards, and only when the build had been claimed, the
  cancel flag is set and the build slot of the team is released, each exactly once.
\<close>

theorem cancel_frees_capacity:
  assumes con: "deployments_con (deployments w) = None"
    and found: "get_by_id w (d_id d) = Some t"
    and opened: "can_transition_build (d_build_status t) BCanceled"
    and idle: "d_pending_release_reason t = None" "d_release_status t \<noteq> RActive"
  shows "\<exists>r effects v e. cancel_deployment_core d actor op w = (Inr (r, effects), v) \<and>
    d_build_status r = BCanceled \<and> r \<in> set (deployments v) \<and> (\<forall>n. \<not> occupies n r) \<and>
    committed_audits v = committed_audits w @ [e] \<and> u_action e = ''deployment.canceled'' \<and>
    effects = (if d_build_status d \<in> {BClaimed, BQueued, BBuilding}
      then [SetCancelFlag (d_id d) 86400, ReleaseBuildSlotOnce (d_team_id d) (d_id d)] else [])"
proof -
  let ?w = "begin_tx w"
  have con': "deployments_con (deployments ?w) = None" using con by simp
  from unsuccessful_build_run[OF con', of "d_id d" t canceled_by_user] found opened idle
  obtain r u where step: "transition_unsuccessful_build (d_id d) canceled_by_user ?w = (Inr r, u)"
    "r \<in> set (deployments u)" "d_id r = d_id d" "d_build_status r = BCanceled" "\<forall>n. \<not> occupies n r"
    by (auto simp: canceled_by_user_def)
  let ?p = "\<lparr>ap_actor_user_id = Some actor, ap_actor_node_id = None, ap_team_id = Some (d_team_id d),
     ap_action = ''deployment.canceled'', ap_target_type = ''deployment'',
     ap_target_id = Some (d_id r), ap_result = AuditSuccess, ap_reason = None,
     ap_metadata = JObj []\<rparr>"
  obtain e where audit: "create_audit_event ?p u = (Inr (), u\<lparr>uuid_pos := Suc (uuid_pos u),
      clock_pos := Suc (clock_pos u), audit_log := audit_log u @ [e]\<rparr>)"
    "u_action e = ''deployment.canceled''"
    using create_audit_event_run[of ?p u] by auto
  let ?u = "u\<lparr>uuid_pos := Suc (uuid_pos u), clock_pos := Suc (clock_pos u),
    audit_log := audit_log u @ [e]\<rparr>"
  have same: "audit_log u = audit_log w" "committed_audits u = committed_audits w"
    using unsuccessful_build_audit_log[OF step(1)]
      runsD[OF transition_unsuccessful_build_ok step(1)]
    by (auto simp: extends_def begin_tx_def dest: outside_eqD)
  have "cancel_deployment_core d actor op w = (Inr (r,
      if cancellation_releases_build_slot (d_build_status d)
      then [SetCancelFlag (d_id r) (60 * 60 * 24), ReleaseBuildSlotOnce (d_team_id d) (d_id r)]
      else []), commit_audits w ?u)"
    using step(1) audit(1)
    by (simp add: cancel_deployment_core_def bindM_def mapErr_def retM_def transaction_def)
  moreover have "committed_audits (commit_audits w ?u) = committed_audits w @ [e]"
    by (simp add: commit_audits_def same)
  ultimately show ?thesis
    using step audit(2)
    by (intro exI[of _ r] exI[of _ "if cancellation_releases_build_slot (d_build_status d)
      then [SetCancelFlag (d_id r) (60 * 60 * 24), ReleaseBuildSlotOnce (d_team_id d) (d_id r)]
      else []"] exI[of _ "commit_audits w ?u"] exI[of _ e])
      (simp add: cancellation_releases_build_slot_def)
qed

text \<open>
  A created deployment is placed: on success the only new row is the one returned, a pending
  draft with the resources of its runtime, assigned to a node that exists, is eligible, and is in
  the deployment's region; the event log gains its creation and its assignment, and one audit
  event is committed. On an error no table changes.
\<close>

theorem create_placed_deployment_sound:
  assumes run: "create_placed_deployment params selected region op w = (x, v)"
  shows "(\<forall>d. x = Inr d \<longrightarrow>
      deployments v = deployments w @ [d] \<and> d_project_id d = p_id (cp_project params) \<and>
      d_build_status d = BPending \<and> d_serve_status d = SPending \<and> d_release_status d = RDraft \<and>
      d_serve_disk_mb d = int (sr_disk_mb (runtime_serve_resources (p_runtime (cp_project params)))) \<and>
      (\<exists>n\<in>set (nodes w). d_serve_node_id d = Some (n_id n) \<and> n_region n = d_region d \<and>
         eligible_node (sql_now (begin_tx w)) n \<and> region \<in> {None, Some (d_region d)} \<and>
         selected \<in> {None, Some (n_id n)}) \<and>
      (\<exists>e f. events v = events w @ [e, f] \<and> e_deployment_id e = d_id d \<and> e_deployment_id f = d_id d) \<and>
      (\<exists>a. committed_audits v = committed_audits w @ [a] \<and> u_target_id a = Some (d_id d))) \<and>
    (\<forall>e. x = Inl e \<longrightarrow> deployments v = deployments w \<and> events v = events w \<and>
      committed_audits v = committed_audits w)"
proof -
  let ?w = "begin_tx w" and ?req = "runtime_serve_resources (p_runtime (cp_project params))"
  have "deployments v = deployments w \<and> events v = events w \<and> committed_audits v = committed_audits w"
    if "x = Inl e" for e
    using run that by (auto simp: create_placed_deployment_def Let_def transaction_Inl)
  moreover have "deployments v = deployments w @ [d] \<and> d_project_id d = p_id (cp_project params) \<and>
      d_build_status d = BPending \<and> d_serve_status d = SPending \<and> d_release_status d = RDraft \<and>
      d_serve_disk_mb d = int (sr_disk_mb ?req) \<and>
      (\<exists>n\<in>set (nodes w). d_serve_node_id d = Some (n_id n) \<and> n_region n = d_region d \<and>
         eligible_node (sql_now ?w) n \<and> region \<in> {None, Some (d_region d)} \<and>
         selected \<in> {None, Some (n_id n)}) \<and>
      (\<exists>e f. events v = events w @ [e, f] \<and> e_deployment_id e = d_id d \<and> e_deployment_id f = d_id d) \<and>
      (\<exists>a. committed_audits v = committed_audits w @ [a] \<and> u_target_id a = Some (d_id d))"
    if "x = Inr d" for d
  proof -
    from run that obtain pl u1 u2 k m j p u4 where
      place: "place_deployment_in_region ?req selected region ?w = (Inr pl, u1)" and
      create: "create_deployment params pl u1 = (Inr d, u2)" and
      audit: "create_audit_event p (log_event (d_id d) k m j u2) = (Inr (), u4)"
        "ap_target_id p = Some (d_id d)" and
      v: "v = commit_audits w u4"
      by (fastforce simp: create_placed_deployment_def Let_def transaction_Inr oper_Inr append_event_run)
    define u3 where "u3 = log_event (d_id d) k m j u2"
    note event = u3_def
    from place obtain n c where n: "n \<in> set (nodes w)" "eligible_node (sql_now ?w) n"
      "pl_node_id pl = n_id n" "pl_region pl = n_region n" "in_region region c" "candidate_of ?w n c"
      "\<And>s. selected = Some s \<Longrightarrow> n_id n = s" and u1: "u1 = ?w\<lparr>dice_pos := Suc (dice_pos ?w)\<rparr>"
      by (rule place_Inr) simp
    have region: "region \<in> {None, Some (n_region n)}"
      using n(5) candidate_of_fields[OF n(6)] by (cases region) auto
    have sel: "selected \<in> {None, Some (n_id n)}" using n(7) by (cases selected) auto
    from create obtain i now cpu memory disk m' j' k' where
      d: "d = new_deployment params pl i now cpu memory disk" "disk = int (sr_disk_mb ?req)" and
      u2: "u2 = log_event (d_id d) k' m' j' (put_deployments (deployments w @ [d])
        (u1\<lparr>clock_pos := Suc (clock_pos u1), uuid_pos := Suc (uuid_pos u1)\<rparr>))"
      by (auto simp: create_deployment_def Let_def oper_Inr now_utc_def now_v7_def try_i64_any_def
          try_i64_def insert_deployment_def dep.insert_Inr append_event_run u1 split: if_splits)
    obtain a where "create_audit_event p u3 = (Inr (), u3\<lparr>uuid_pos := Suc (uuid_pos u3),
        clock_pos := Suc (clock_pos u3), audit_log := audit_log u3 @ [a]\<rparr>)" "u_target_id a = Some (d_id d)"
      using create_audit_event_run[of p u3] audit(2) by auto
    with audit(1)[folded u3_def] have u4: "u4 = u3\<lparr>uuid_pos := Suc (uuid_pos u3),
        clock_pos := Suc (clock_pos u3), audit_log := audit_log u3 @ [a]\<rparr>" by simp
    have rows: "deployments v = deployments w @ [d]"
      using event by (auto simp: v u4 u2)
    have evs: "\<exists>e f. events v = events w @ [e, f] \<and> e_deployment_id e = d_id d \<and> e_deployment_id f = d_id d"
      using event by (auto simp: v u4 u2 u1 event_at_def put_deployments_def)
    have aud: "committed_audits v = committed_audits w @ [a]"
      using event
      by (auto simp: v u4 u2 u1 commit_audits_def put_deployments_def log_event_def begin_tx_def)
    show ?thesis
      using rows evs aud n region sel \<open>u_target_id a = Some (d_id d)\<close>
      by (auto simp: d new_deployment_def Let_def)
  qed
  ultimately show ?thesis by blast
qed

section \<open>Witnesses\<close>

definition team_world :: "deployment list \<Rightarrow> world" where
  "team_world ds = (sample_world ds [sample_node 7])\<lparr>teams := [sample_team]\<rparr>"

lemma team_world_simps [simp]:
  "deployments (team_world ds) = ds" "teams (team_world ds) = [sample_team]"
  "settings (team_world ds) = []" "migrations (team_world ds) = []"
  by (simp_all add: team_world_def)

lemma team_world_policy: "team_policy (team_world ds) 200 default_review_policy"
  by (simp add: team_policy_def review_policy_for_team_def bindM_def getM_def okOr_def retM_def
      find_row_def sample_team_def review_policy_def get_setting_def)

theorem report_status_isolated_witness:
  "\<exists>x v. report_status (sample_node 8) 4
       \<lparr>sp_status = ReportedReady, sp_failure_code = None, sp_failure_message = None\<rparr>
       waiting_world = (x, v) \<and> deployments v = deployments waiting_world"
proof -
  let ?r = "\<lparr>sp_status = ReportedReady, sp_failure_code = None, sp_failure_message = None\<rparr>"
  obtain x v where run: "report_status (sample_node 8) 4 ?r waiting_world = (x, v)"
    by (cases "report_status (sample_node 8) 4 ?r waiting_world")
  have "get_by_id waiting_world 4 =
      Some (sample_deployment 4 Production BReady SSyncing RApproved (Some 7))"
    by (simp add: get_by_id_def)
  with report_status_isolated[OF run] run show ?thesis by (auto simp: sample_node_def)
qed

theorem ready_report_goes_live_witness:
  "\<exists>v d. report_status (sample_node 7) 6
       \<lparr>sp_status = ReportedReady, sp_failure_code = None, sp_failure_message = None\<rparr>
       (team_world [sample_deployment 6 Preview BReady SSyncing RDraft (Some 7)]) = (Inr (), v) \<and>
     find_active v 100 Preview = Some d \<and> d_id d = 6"
proof -
  let ?t = "sample_deployment 6 Preview BReady SSyncing RDraft (Some 7)"
  have "deployments_con (deployments (team_world [?t])) = None" by (simp add: sample_con)
  moreover have "get_by_id (team_world [?t]) 6 = Some ?t" by (simp add: get_by_id_def)
  moreover have "n_serve_enabled (sample_node 7)" "d_serve_node_id ?t = Some (n_id (sample_node 7))"
    by (simp_all add: sample_node_def)
  moreover have "mode_for default_review_policy (d_environment ?t) = ModeAuto"
    by (simp add: mode_for_def default_review_policy_def)
  ultimately show ?thesis
    using ready_report_goes_live[of "team_world [?t]" 6 ?t "sample_node 7" default_review_policy]
      team_world_policy by simp
qed

theorem manual_review_blocks_release_witness:
  "\<exists>out v. activate_deployment (sample_deployment 6 Production BReady SReady RDraft (Some 7)) 9
       ReasonPromote ''op'' (team_world [sample_deployment 6 Production BReady SReady RDraft (Some 7)])
       = (Inr out, v) \<and>
     d_release_status (ao_deployment out) = RPendingReview \<and> find_active v 100 Production = None"
proof -
  let ?t = "sample_deployment 6 Production BReady SReady RDraft (Some 7)"
  let ?run = "activate_deployment ?t 9 ReasonPromote ''op'' (team_world [?t])"
  have "(case fst ?run of Inl _ \<Rightarrow> False | Inr _ \<Rightarrow> True)" by code_simp
  then obtain out v where run: "?run = (Inr out, v)"
    by (cases ?run) (auto split: sum.splits)
  have "deployments_con (deployments (team_world [?t])) = None" by (simp add: sample_con)
  moreover have "mode_for default_review_policy (d_environment ?t) = ModeManual"
    by (simp add: mode_for_def default_review_policy_def)
  ultimately have "find_active v 100 Production = find_active (team_world [?t]) 100 Production \<and>
      d_release_status (ao_deployment out) = RPendingReview"
    using manual_review_blocks_release[OF _ _ _ _ run, of default_review_policy] team_world_policy
    by simp
  with run show ?thesis by (auto simp: find_active_def)
qed

theorem cancel_frees_capacity_witness:
  "\<exists>r v. cancel_deployment_core (sample_deployment 5 Preview BBuilding SPending RDraft (Some 7)) 9 ''op''
       (sample_world [sample_deployment 5 Preview BBuilding SPending RDraft (Some 7)] []) =
       (Inr (r, [SetCancelFlag 5 86400, ReleaseBuildSlotOnce 200 5]), v) \<and> \<not> occupies 7 r"
proof -
  let ?t = "sample_deployment 5 Preview BBuilding SPending RDraft (Some 7)"
  let ?w = "sample_world [?t] []"
  have "deployments_con (deployments ?w) = None" by (simp add: sample_con)
  moreover have "get_by_id ?w (d_id ?t) = Some ?t" by (simp add: get_by_id_def)
  ultimately show ?thesis using cancel_frees_capacity[of ?w ?t ?t 9 "''op''"] by auto
qed

theorem create_placed_deployment_sound_witness:
  "\<exists>d v. create_placed_deployment
       \<lparr>cp_project = sample_project, cp_environment = Preview, cp_triggered_by_user_id = None,
        cp_branch = None, cp_commit_hash = None, cp_commit_message = None, cp_preview_host = None,
        cp_source_credential_version_id = None\<rparr> None (Some ''eu'') ''op''
       (sample_world [] [sample_node 7]) = (Inr d, v) \<and>
     deployments v = [d] \<and> d_serve_node_id d = Some 7"
proof -
  let ?p = "\<lparr>cp_project = sample_project, cp_environment = Preview, cp_triggered_by_user_id = None,
        cp_branch = None, cp_commit_hash = None, cp_commit_message = None, cp_preview_host = None,
        cp_source_credential_version_id = None\<rparr>"
  let ?w = "sample_world [] [sample_node 7]"
  let ?run = "create_placed_deployment ?p None (Some ''eu'') ''op'' ?w"
  have place: "place_deployment_in_region (runtime_serve_resources Static) None (Some ''eu'') (begin_tx ?w) =
      (Inr (placement_of idle_candidate False Automatic),
       (begin_tx ?w)\<lparr>dice_pos := Suc (dice_pos (begin_tx ?w))\<rparr>)"
    using idle_placement[of "begin_tx ?w"] by (simp add: sample_request_def begin_tx_def)
  have some: "\<exists>d v. create_deployment ?p (placement_of idle_candidate False Automatic) u = (Inr d, v)"
    if "deployments u = []" for u
    using that
    by (simp add: create_deployment_def bindM_def now_utc_def now_v7_def try_i64_any_def try_i64_def
        sample_project_def retM_def mapErr_def insert_deployment_def exec_insert_def sample_con
        append_event_run new_deployment_def Let_def deployment_checks_def is_active_def is_pending_def)
  obtain d u where create: "create_deployment ?p (placement_of idle_candidate False Automatic)
      ((begin_tx ?w)\<lparr>dice_pos := Suc (dice_pos (begin_tx ?w))\<rparr>) = (Inr d, u)"
    using some[of "(begin_tx ?w)\<lparr>dice_pos := Suc (dice_pos (begin_tx ?w))\<rparr>"] by auto
  have "\<exists>v. create_audit_event p s = (Inr (), v)" for p s
    using create_audit_event_run by blast
  then obtain v where run: "?run = (Inr d, v)"
    using place create
    by (fastforce simp: create_placed_deployment_def transaction_Inr oper_Inr Let_def append_event_run
        sample_project_def)
  from create_placed_deployment_sound[OF run] run show ?thesis
    by (auto simp: sample_node_def)
qed

end
