(* ===== verification/NodeDeletions.thy ===== *)
theory NodeDeletions
  imports Activation "HOL-Library.List_Lexorder" "HOL-Library.Char_ord"
begin

text \<open>
  Deleting a Node (\<open>domain/node_deletions.rs\<close>): the plan, the queue and the job that first brings a
  shadow copy of every deployment up on the target, then switches all routes at once, waits for
  the builds of the Node, and only then disables it.
\<close>

section \<open>Phases and plans\<close>

datatype deletion_phase = PhaseMigrating | PhaseDraining | PhaseDeleting | PhaseFailed

definition next_phase :: "nat \<Rightarrow> nat \<Rightarrow> nat \<Rightarrow> nat \<Rightarrow> deletion_phase" where
  "next_phase planned ready failed builds =
     (if 0 < failed then PhaseFailed
      else if ready < planned then PhaseMigrating
      else if 0 < builds then PhaseDraining
      else PhaseDeleting)"

record eligible_target =
  et_id :: uuid
  et_name :: string
  et_available_deployments :: nat

record deletion_plan =
  dp_node_id :: uuid
  dp_assigned_deployments :: nat
  dp_active_builds :: nat
  dp_requires_target :: bool
  dp_eligible_targets :: "eligible_target list"

text \<open>\<open>assigned_filter\<close> is the condition under which a deployment occupies the node.\<close>

definition assigned_deployments :: "world \<Rightarrow> uuid \<Rightarrow> deployment list" where
  "assigned_deployments w nid = sort_key d_created_at (filter (occupies nid) (deployments w))"

definition active_build_count :: "world \<Rightarrow> uuid \<Rightarrow> nat" where
  "active_build_count w nid =
     length (filter (\<lambda>d. d_build_node_id d = Some nid \<and>
       d_build_status d \<in> {BClaimed, BQueued, BBuilding} \<and> d_deleted_at d = None) (deployments w))"

definition requested_total :: "(deployment \<Rightarrow> int) \<Rightarrow> deployment list \<Rightarrow> nat option" where
  "requested_total f ds =
     foldl (\<lambda>planned d. Option.bind planned (\<lambda>t.
       Option.bind (try_u64 (f d)) (\<lambda>v. checked_add_u64 t v))) (Some 0) ds"

definition fits_after :: "nat \<Rightarrow> nat \<Rightarrow> nat \<Rightarrow> bool" where
  "fits_after used requested capacity \<longleftrightarrow>
     (case checked_add_u64 used requested of Some v \<Rightarrow> v \<le> capacity | None \<Rightarrow> False)"

definition candidate_can_host :: "candidate \<Rightarrow> deployment list \<Rightarrow> bool" where
  "candidate_can_host c ds \<longleftrightarrow>
     (case (requested_total d_serve_cpu_millicores ds, requested_total d_serve_memory_mb ds,
            requested_total d_serve_disk_mb ds) of
        (Some cpu, Some memory, Some disk) \<Rightarrow>
          fits_after (us_cpu_millicores (cd_usage c)) cpu (nr_cpu_millicores (cd_capacity c)) \<and>
          fits_after (us_memory_mb (cd_usage c)) memory (nr_memory_mb (cd_capacity c)) \<and>
          fits_after (us_disk_mb (cd_usage c)) disk (nr_disk_mb (cd_capacity c)) \<and>
          fits_after (us_deployments (cd_usage c)) (length ds) (nr_max_deployments (cd_capacity c))
      | _ \<Rightarrow> False)"

fun schedule_anyhow :: "schedule_error \<Rightarrow> anyhow" where
  "schedule_anyhow (ScheduleDb e) = AnyDb e"
| "schedule_anyhow e = AnyMsg (schedule_error_text e)"

definition eligible_target_of :: "candidate list \<Rightarrow> node \<Rightarrow> eligible_target option" where
  "eligible_target_of cs n =
     (case find (\<lambda>c. cd_node_id c = n_id n) (rev cs) of
        None \<Rightarrow> None
      | Some c \<Rightarrow> Some \<lparr>et_id = n_id n, et_name = n_name n,
          et_available_deployments =
            nr_max_deployments (cd_capacity c) - us_deployments (cd_usage c)\<rparr>)"

definition deletion_plan_of :: "node \<Rightarrow> (anyhow, deletion_plan) dbm" where
  "deletion_plan_of source =
     bindM (getM (\<lambda>w. assigned_deployments w (n_id source))) (\<lambda>ds.
     bindM (getM (\<lambda>w. active_build_count w (n_id source))) (\<lambda>builds.
     bindM (mapErr schedule_anyhow eligible_candidates) (\<lambda>cs.
     (let ids = map cd_node_id
            (filter (\<lambda>c. candidate_can_host c ds) (filter (\<lambda>c. cd_node_id c \<noteq> n_id source) cs)) in
     bindM (getM (\<lambda>w. if ids = [] then [] else filter (\<lambda>n. n_id n \<in> set ids) (nodes w))) (\<lambda>names.
     retM \<lparr>dp_node_id = n_id source, dp_assigned_deployments = length ds,
           dp_active_builds = builds, dp_requires_target = (ds \<noteq> []),
           dp_eligible_targets =
             sort_key et_name (List.map_filter (eligible_target_of cs) names)\<rparr>)))))"

definition active_job :: "world \<Rightarrow> uuid \<Rightarrow> node_deletion_job option" where
  "active_job w nid =
     (case sort_key (\<lambda>j. - j_created_at j)
         (filter (\<lambda>j. j_node_id j = nid \<and> j_status j \<noteq> JCompleted) (jobs w)) of
        [] \<Rightarrow> None
      | j # _ \<Rightarrow> Some j)"

fun deletion_status_value :: "node_deletion_status \<Rightarrow> string" where
  "deletion_status_value JQueued = ''queued''"
| "deletion_status_value JMigrating = ''migrating''"
| "deletion_status_value JDraining = ''draining''"
| "deletion_status_value JDeleting = ''deleting''"
| "deletion_status_value JFailed = ''failed''"
| "deletion_status_value JCompleted = ''completed''"

section \<open>Jobs\<close>

definition create_job_audit ::
  "node_deletion_job \<Rightarrow> string \<Rightarrow> audit_result \<Rightarrow> string option \<Rightarrow> json \<Rightarrow> (anyhow, unit) dbm" where
  "create_job_audit job action result reason metadata =
     mapErr AnyDb (create_platform_audit_event
       \<lparr>ap_actor_user_id = j_requested_by_user_id job, ap_actor_node_id = None, ap_team_id = None,
        ap_action = action, ap_target_type = ''node'', ap_target_id = Some (j_node_id job),
        ap_result = result, ap_reason = reason, ap_metadata = metadata\<rparr>)"

definition bounded_job_error :: "string \<Rightarrow> string" where
  "bounded_job_error text = take 2048 text"

fun anyhow_text :: "anyhow \<Rightarrow> string" where
  "anyhow_text (AnyMsg m) = m"
| "anyhow_text (AnyDb _) = ''database error''"

definition i32_of :: "nat \<Rightarrow> (anyhow, int) dbm" where
  "i32_of n = okOr (AnyMsg ''out of range integral type conversion attempted'') (try_i32 n)"

definition insert_migrations :: "migration list \<Rightarrow> (dberr, unit) dbm" where
  "insert_migrations rows w =
     (case migrations_con (migrations w @ rows) of
        Some e \<Rightarrow> (Inl e, w)
      | None \<Rightarrow> (Inr (), put_migrations (migrations w @ rows) w))"

primrec mapM :: "'a list \<Rightarrow> ('a \<Rightarrow> ('s, 'e, 'b) oper) \<Rightarrow> ('s, 'e, 'b list) oper" where
  "mapM [] f = retM []"
| "mapM (x # xs) f = bindM (f x) (\<lambda>y. bindM (mapM xs f) (\<lambda>ys. retM (y # ys)))"

definition pending_migration ::
  "node_deletion_job \<Rightarrow> uuid \<Rightarrow> uuid \<Rightarrow> time \<Rightarrow> deployment \<Rightarrow> (anyhow, migration) dbm" where
  "pending_migration job source target now d =
     bindM now_v7 (\<lambda>i.
     retM \<lparr>m_id = i, m_job_id = j_id job, m_deployment_id = d_id d, m_source_node_id = source,
           m_target_node_id = target, m_status = MPending, m_error = None, m_created_at = now,
           m_updated_at = now, m_ready_at = None\<rparr>)"

definition check_target :: "deletion_plan \<Rightarrow> uuid option \<Rightarrow> (anyhow, unit) dbm" where
  "check_target p target =
     (if dp_requires_target p then
        bindM (okOr (AnyMsg ''replacement Serve Node required'') target) (\<lambda>t.
        if t \<notin> et_id ` set (dp_eligible_targets p) then
          failM (AnyMsg ''selected replacement Serve Node is unavailable or lacks capacity'')
        else retM ())
      else retM ())"

definition requeue_job ::
  "node_deletion_job \<Rightarrow> uuid option \<Rightarrow> nat \<Rightarrow> nat \<Rightarrow> time \<Rightarrow> (anyhow, node_deletion_job) dbm" where
  "requeue_job job target planned builds now =
     (if j_status job \<noteq> JFailed then failM (AnyMsg ''node deletion is already in progress'')
      else
        bindM (mapErr AnyDb (delete_migrations_where (\<lambda>m. m_job_id m = j_id job))) (\<lambda>_.
        bindM (i32_of planned) (\<lambda>planned.
        bindM (i32_of builds) (\<lambda>builds.
        mapErr AnyDb (update_job (j_id job) (\<lambda>j. j\<lparr>j_target_node_id := target,
          j_status := JQueued, j_total_deployments := planned, j_migrated_deployments := 0,
          j_active_builds := builds, j_error := None, j_updated_at := now\<rparr>))))))"

definition new_job ::
  "uuid \<Rightarrow> uuid option \<Rightarrow> uuid \<Rightarrow> nat \<Rightarrow> nat \<Rightarrow> time \<Rightarrow> (anyhow, node_deletion_job) dbm" where
  "new_job source target requested_by planned builds now =
     bindM now_v7 (\<lambda>i.
     bindM (i32_of planned) (\<lambda>planned.
     bindM (i32_of builds) (\<lambda>builds.
     mapErr AnyDb (insert_job
       \<lparr>j_id = i, j_node_id = source, j_target_node_id = target,
        j_requested_by_user_id = Some requested_by, j_status = JQueued,
        j_total_deployments = planned, j_migrated_deployments = 0, j_active_builds = builds,
        j_error = None, j_created_at = now, j_updated_at = now, j_completed_at = None\<rparr>))))"

definition enqueue :: "node \<Rightarrow> uuid option \<Rightarrow> uuid \<Rightarrow> (anyhow, node_deletion_job) dbm" where
  "enqueue source target requested_by =
     bindM (deletion_plan_of source) (\<lambda>p.
     bindM (check_target p target) (\<lambda>_.
     bindM (getM (\<lambda>w. assigned_deployments w (n_id source))) (\<lambda>ds.
     bindM now_utc (\<lambda>now.
     bindM (getM (\<lambda>w. active_job w (n_id source))) (\<lambda>existing.
     bindM (case existing of
              Some job \<Rightarrow> requeue_job job target (length ds) (dp_active_builds p) now
            | None \<Rightarrow> new_job (n_id source) target requested_by (length ds) (dp_active_builds p) now)
       (\<lambda>job.
     bindM (case target of
              Some t \<Rightarrow>
                if ds \<noteq> [] then
                  bindM (mapM ds (pending_migration job (n_id source) t now)) (\<lambda>rows.
                  mapErr AnyDb (insert_migrations rows))
                else retM ()
            | None \<Rightarrow> retM ()) (\<lambda>_.
     bindM (mapErr AnyDb (update_node (n_id source) (\<lambda>n. n\<lparr>n_status := NDraining\<rparr>))) (\<lambda>_.
     bindM (create_job_audit job
       (if existing \<noteq> None then ''node.deletion_retried'' else ''node.deletion_queued'')
       AuditSuccess None
       (JObj [(''job_id'', JUuid (j_id job)), (''target_node_id'', jopt JUuid (j_target_node_id job)),
              (''deployments'', JNum (j_total_deployments job)),
              (''active_builds'', JNum (j_active_builds job))])) (\<lambda>_.
     retM job)))))))))"

section \<open>Running a job\<close>

definition update_job_phase ::
  "node_deletion_job \<Rightarrow> node_deletion_status \<Rightarrow> nat \<Rightarrow> nat \<Rightarrow> string option \<Rightarrow>
   (anyhow, node_deletion_job) dbm" where
  "update_job_phase job status ready builds error =
     bindM (i32_of ready) (\<lambda>ready.
     bindM (i32_of builds) (\<lambda>builds.
     bindM now_utc (\<lambda>now.
     mapErr AnyDb (update_job (j_id job) (\<lambda>j. j\<lparr>j_status := status, j_migrated_deployments := ready,
       j_active_builds := builds, j_error := error, j_updated_at := now\<rparr>)))))"

definition fail_migration :: "string \<Rightarrow> time \<Rightarrow> migration \<Rightarrow> migration" where
  "fail_migration message now m =
     m\<lparr>m_status := MFailed, m_error := Some message, m_ready_at := None, m_updated_at := now\<rparr>"

definition fail_job ::
  "node_deletion_job \<Rightarrow> nat \<Rightarrow> nat \<Rightarrow> string \<Rightarrow> string \<Rightarrow> (anyhow, node_deletion_job) dbm" where
  "fail_job job ready builds text stage =
     (let message = bounded_job_error text in
     bindM now_utc (\<lambda>now.
     bindM (mapErr AnyDb (update_migrations_where
       (\<lambda>m. m_job_id m = j_id job \<and> m_status m \<noteq> MFailed) (fail_migration message now))) (\<lambda>_.
     bindM (update_job_phase job JFailed ready builds (Some message)) (\<lambda>failed.
     bindM (create_job_audit failed ''node.deletion_failed'' AuditFailure (Some message)
       (JObj [(''job_id'', JUuid (j_id failed)),
              (''target_node_id'', jopt JUuid (j_target_node_id failed)),
              (''migrated_deployments'', JNum (int ready)),
              (''total_deployments'', JNum (j_total_deployments failed)),
              (''active_builds'', JNum (int builds)), (''stage'', JStr stage)])) (\<lambda>_.
     retM failed)))))"

definition artifact_validation_error :: "deployment_artifact \<Rightarrow> string option" where
  "artifact_validation_error a =
     (if \<not> (case a_checksum_sha256 a of
               Some c \<Rightarrow> text_bytes c = 64 \<and> list_all (\<lambda>x. is_ascii_hexdigit (of_char x)) c
             | None \<Rightarrow> False)
      then Some ''Grass Output artifact checksum metadata is missing or invalid''
      else if (case a_size_bytes a of Some bytes \<Rightarrow> bytes < 0 | None \<Rightarrow> True)
      then Some ''Grass Output artifact size metadata is missing or invalid''
      else if artifact_unpacked_size_bytes (a_manifest a) = None
      then Some ''Grass Output artifact unpacked size metadata is invalid''
      else None)"

text \<open>\<open>Duration::whole_seconds\<close> truncates toward zero.\<close>

definition whole_seconds :: "int \<Rightarrow> int" where
  "whole_seconds d = (if 0 \<le> d then d div 1000000000 else - ((- d) div 1000000000))"

definition is_healthy :: "node \<Rightarrow> time \<Rightarrow> int \<Rightarrow> bool" where
  "is_healthy n now stale_after \<longleftrightarrow>
     n_status n = NActive \<and>
     (case n_last_heartbeat_at n of Some t \<Rightarrow> whole_seconds (now - t) \<le> stale_after | None \<Rightarrow> False)"

definition target_is_available :: "node \<Rightarrow> time \<Rightarrow> bool" where
  "target_is_available n now \<longleftrightarrow>
     n_serve_enabled n \<and>
     (case n_base_url n of Some url \<Rightarrow> trim_by is_ws url \<noteq> [] | None \<Rightarrow> False) \<and>
     is_healthy n now 90"

definition switch_ready_routes ::
  "node_deletion_job \<Rightarrow> migration list \<Rightarrow> (anyhow, nat) dbm" where
  "switch_ready_routes job ms =
     (case j_target_node_id job of
        None \<Rightarrow> retM 0
      | Some target \<Rightarrow>
          if ms = [] then retM 0
          else
            bindM (mapErr AnyDb (update_deployments_where
              (\<lambda>d. d_id d \<in> m_deployment_id ` set ms \<and> occupies (j_node_id job) d)
              (\<lambda>d. d\<lparr>d_serve_node_id := Some target, d_overcommitted := False\<rparr>))) (\<lambda>updated.
            bindM (create_job_audit job ''node.deletion_route_switched'' AuditSuccess None
              (JObj [(''job_id'', JUuid (j_id job)), (''source_node_id'', JUuid (j_node_id job)),
                     (''target_node_id'', JUuid target),
                     (''ready_deployments'', JNum (int (length ms))),
                     (''routes_updated'', JNum (int updated))])) (\<lambda>_.
            retM updated)))"

definition job_migrations :: "world \<Rightarrow> node_deletion_job \<Rightarrow> migration list" where
  "job_migrations w job = filter (\<lambda>m. m_job_id m = j_id job) (migrations w)"

definition target_available ::
  "node_deletion_job \<Rightarrow> migration list \<Rightarrow> (anyhow, bool) dbm" where
  "target_available job ms =
     (case j_target_node_id job of
        Some target \<Rightarrow>
          bindM (getM (\<lambda>w. find_row n_id target (nodes w))) (\<lambda>found.
          (case found of
             Some n \<Rightarrow> bindM now_utc (\<lambda>now. retM (target_is_available n now))
           | None \<Rightarrow> retM False))
      | None \<Rightarrow> retM (ms = []))"

text \<open>Terminal or retired deployments no longer need a shadow copy.\<close>

definition needs_no_copy :: "deployment option \<Rightarrow> bool" where
  "needs_no_copy found \<longleftrightarrow>
     (case found of
        None \<Rightarrow> True
      | Some d \<Rightarrow> d_deleted_at d \<noteq> None \<or> d_build_status d \<in> {BFailed, BCanceled} \<or>
          d_serve_status d = SRetired)"

definition grass_output :: "world \<Rightarrow> uuid \<Rightarrow> deployment_artifact option" where
  "grass_output w did =
     find (\<lambda>a. a_deployment_id a = did \<and> a_kind a = GrassOutput \<and> a_deleted_at a = None)
       (artifacts w)"

definition refresh_migration :: "migration \<Rightarrow> (anyhow, unit) dbm" where
  "refresh_migration m =
     (if m_status m = MReady then retM ()
      else
        bindM (getM (\<lambda>w. find_row d_id (m_deployment_id m) (deployments w))) (\<lambda>found.
        if needs_no_copy found then
          bindM now_utc (\<lambda>ready.
          bindM now_utc (\<lambda>now.
          bindM (mapErr AnyDb (update_migration (m_id m) (\<lambda>x. x\<lparr>m_status := MReady,
            m_error := None, m_ready_at := Some ready, m_updated_at := now\<rparr>))) (\<lambda>_. retM ())))
        else if (case found of Some d \<Rightarrow> d_build_status d = BReady | None \<Rightarrow> False) then
          bindM (getM (\<lambda>w. grass_output w (m_deployment_id m))) (\<lambda>artifact.
          (case (case artifact of
                   Some a \<Rightarrow> artifact_validation_error a
                 | None \<Rightarrow> Some ''Grass Output artifact is missing'') of
             Some error \<Rightarrow>
               bindM now_utc (\<lambda>now.
               bindM (mapErr AnyDb (update_migration (m_id m) (\<lambda>x. x\<lparr>m_status := MFailed,
                 m_error := Some error, m_ready_at := None, m_updated_at := now\<rparr>))) (\<lambda>_. retM ()))
           | None \<Rightarrow> retM ()))
        else retM ()))"

text \<open>
  The body of \<open>process_job\<close> returns whether it reached the commit: an early \<open>return Ok(())\<close> drops the
  transaction.
\<close>

definition finish_deletion ::
  "node_deletion_job \<Rightarrow> nat \<Rightarrow> (anyhow, bool) dbm" where
  "finish_deletion job ready =
     bindM now_utc (\<lambda>now.
     bindM (getM (\<lambda>w. find_row n_id (j_node_id job) (nodes w))) (\<lambda>source.
     (case source of
        None \<Rightarrow> retM False
      | Some n \<Rightarrow>
          bindM (mapErr AnyDb (update_node (n_id n) (\<lambda>r. r\<lparr>n_status := NDisabled,
            n_deleted_at := Some now\<rparr>))) (\<lambda>_.
          bindM (i32_of ready) (\<lambda>migrated.
          bindM (mapErr AnyDb (update_job (j_id job) (\<lambda>j. j\<lparr>j_status := JCompleted,
            j_migrated_deployments := migrated, j_active_builds := 0, j_error := None,
            j_updated_at := now, j_completed_at := Some now\<rparr>))) (\<lambda>_.
          bindM (mapErr AnyDb (create_platform_audit_event
            \<lparr>ap_actor_user_id = j_requested_by_user_id job, ap_actor_node_id = None,
             ap_team_id = None, ap_action = ''node.deleted'', ap_target_type = ''node'',
             ap_target_id = Some (j_node_id job), ap_result = AuditSuccess, ap_reason = None,
             ap_metadata = JObj [(''job_id'', JUuid (j_id job)),
               (''target_node_id'', jopt JUuid (j_target_node_id job)),
               (''migrated_deployments'', JNum (int ready))]\<rparr>)) (\<lambda>_.
          retM True)))))))"

definition advance_job ::
  "node_deletion_job \<Rightarrow> migration list \<Rightarrow> nat \<Rightarrow> (anyhow, bool) dbm" where
  "advance_job job ms builds =
     (let ready = length (filter (\<lambda>m. m_status m = MReady) ms);
          failed = length (filter (\<lambda>m. m_status m = MFailed) ms)
      in case next_phase (length ms) ready failed builds of
           PhaseFailed \<Rightarrow>
             bindM (fail_job job ready builds
               (case List.map_filter m_error ms of e # _ \<Rightarrow> e | [] \<Rightarrow> ''deployment migration failed'')
               ''shadow_migration'') (\<lambda>_. retM True)
         | PhaseMigrating \<Rightarrow>
             bindM (update_job_phase job JMigrating ready builds None) (\<lambda>_. retM True)
         | PhaseDraining \<Rightarrow>
             bindM (if ready = length ms \<and> j_migrated_deployments job < j_total_deployments job
                    then bindM (switch_ready_routes job ms) (\<lambda>_. retM ()) else retM ()) (\<lambda>_.
             bindM (update_job_phase job JDraining ready builds None) (\<lambda>_. retM True))
         | PhaseDeleting \<Rightarrow>
             bindM (if j_migrated_deployments job < j_total_deployments job
                    then bindM (switch_ready_routes job ms) (\<lambda>_. retM ()) else retM ()) (\<lambda>_.
             if j_status job \<noteq> JDeleting then
               bindM (update_job_phase job JDeleting ready 0 None) (\<lambda>_. retM True)
             else finish_deletion job ready))"

definition process_body :: "uuid \<Rightarrow> (anyhow, bool) dbm" where
  "process_body jid =
     bindM lock_placement (\<lambda>_.
     bindM (getM (\<lambda>w. find_row j_id jid (jobs w))) (\<lambda>found.
     (case found of
        None \<Rightarrow> retM False
      | Some job \<Rightarrow>
          if j_status job \<in> {JFailed, JCompleted} then retM False
          else
            bindM (getM (\<lambda>w. job_migrations w job)) (\<lambda>ms.
            bindM (if j_migrated_deployments job < j_total_deployments job
                   then target_available job ms else retM True) (\<lambda>available.
            if \<not> available then
              bindM (getM (\<lambda>w. active_build_count w (j_node_id job))) (\<lambda>builds.
              bindM (fail_job job (length (filter (\<lambda>m. m_status m = MReady) ms)) builds
                ''replacement Serve Node is no longer active and healthy'' ''target_validation'')
                (\<lambda>_. retM True))
            else
              bindM (forM ms refresh_migration) (\<lambda>_.
              bindM (getM (\<lambda>w. job_migrations w job)) (\<lambda>ms.
              bindM (getM (\<lambda>w. active_build_count w (j_node_id job))) (\<lambda>builds.
              advance_job job ms builds))))))))"

definition transaction_or_drop :: "('e, bool) dbm \<Rightarrow> ('e, unit) dbm" where
  "transaction_or_drop m w =
     (case m (begin_tx w) of
        (Inl e, v) \<Rightarrow> (Inl e, rollback_to w v)
      | (Inr commit, v) \<Rightarrow> (Inr (), if commit then commit_audits w v else rollback_to w v))"

definition process_job :: "uuid \<Rightarrow> (anyhow, unit) dbm" where
  "process_job jid = transaction_or_drop (process_body jid)"

text \<open>The second transaction, opened when a job fails with an error.\<close>

definition record_failure :: "node_deletion_job \<Rightarrow> anyhow \<Rightarrow> (anyhow, unit) dbm" where
  "record_failure job error =
     transaction (
       bindM (getM (\<lambda>w. find_row j_id (j_id job) (jobs w))) (\<lambda>found.
       (case found of
          Some current \<Rightarrow>
            if j_status current \<in> {JFailed, JCompleted} then retM ()
            else
              bindM (fail_job current (nat (max 0 (j_migrated_deployments job)))
                (nat (max 0 (j_active_builds job))) (bounded_job_error (anyhow_text error))
                ''queue_processing'') (\<lambda>_. retM ())
        | None \<Rightarrow> retM ())))"

definition process_one :: "node_deletion_job \<Rightarrow> (anyhow, unit) dbm" where
  "process_one job w =
     (case process_job (j_id job) w of
        (Inr _, v) \<Rightarrow> (Inr (), v)
      | (Inl e, v) \<Rightarrow> record_failure job e v)"

definition process_pending_jobs :: "(anyhow, nat) dbm" where
  "process_pending_jobs =
     bindM (getM (\<lambda>w. sort_key j_updated_at
       (filter (\<lambda>j. j_status j \<in> {JQueued, JMigrating, JDraining, JDeleting}) (jobs w)))) (\<lambda>queue.
     bindM (forM queue process_one) (\<lambda>_.
     retM (length queue)))"

section \<open>What leaves the routes alone\<close>

definition same_routes :: "world \<Rightarrow> world \<Rightarrow> bool" where
  "same_routes w v \<longleftrightarrow> deployments v = deployments w \<and> sql_now v = sql_now w"

definition same_copies :: "world \<Rightarrow> world \<Rightarrow> bool" where
  "same_copies w v \<longleftrightarrow> migrations v = migrations w"

interpretation routes: run_relation same_routes
  by unfold_locales (simp_all add: same_routes_def)

interpretation copies: run_relation same_copies
  by unfold_locales (simp_all add: same_copies_def)

lemma audit_leaves:
  "runs same_routes (create_domain_audit_event params vis changes)"
  "runs same_copies (create_domain_audit_event params vis changes)"
proof -
  have "same_routes s t \<and> same_copies s t"
    if "create_domain_audit_event params vis changes s = (r, t)" for s r t
    using create_domain_audit_event_ok[of params vis changes s] that
    by (auto simp: same_routes_def same_copies_def)
  then show "runs same_routes (create_domain_audit_event params vis changes)"
    "runs same_copies (create_domain_audit_event params vis changes)"
    by (auto intro: runsI)
qed

lemma statements_leave_routes:
  "runs same_routes now_utc" "runs same_routes now_v7" "runs same_routes (update_job i f)"
  "runs same_routes (update_migration i g)" "runs same_routes (update_migrations_where q g)"
  "runs same_routes (update_node i h)"
  by (auto simp: runs_def same_routes_def now_utc_def now_v7_def update_job_def update_migration_def
      update_migrations_where_def update_node_def exec_update_def exec_update_many_def Let_def
      put_jobs_def put_migrations_def put_nodes_def split: option.split)

lemma statements_leave_copies:
  "runs same_copies now_utc" "runs same_copies now_v7" "runs same_copies (update_job i f)"
  "runs same_copies (update_node i h)" "runs same_copies (update_deployments_where q k)"
  by (auto simp: runs_def same_copies_def now_utc_def now_v7_def update_job_def update_node_def
      update_deployments_where_def exec_update_def exec_update_many_def Let_def
      put_jobs_def put_deployments_def put_nodes_def split: option.split)

lemma job_audit_leaves:
  "runs same_routes (create_job_audit job action result reason metadata)"
  "runs same_copies (create_job_audit job action result reason metadata)"
  unfolding create_job_audit_def audit_writers
  by (intro routes.rules copies.rules audit_leaves)+

lemma phase_leaves:
  "runs same_routes (update_job_phase job status ready builds error)"
  "runs same_copies (update_job_phase job status ready builds error)"
  unfolding update_job_phase_def i32_of_def
  by (intro routes.rules copies.rules statements_leave_routes statements_leave_copies)+

lemma fail_job_leaves: "runs same_routes (fail_job job ready builds text stage)"
  unfolding fail_job_def Let_def
  by (intro routes.rules statements_leave_routes phase_leaves job_audit_leaves)

lemma refresh_leaves: "runs same_routes (refresh_migration m)"
  unfolding refresh_migration_def by (intro routes.rules statements_leave_routes)

lemma finish_leaves:
  "runs same_routes (finish_deletion job ready)" "runs same_copies (finish_deletion job ready)"
  unfolding finish_deletion_def i32_of_def audit_writers
  by (intro routes.rules copies.rules statements_leave_routes statements_leave_copies audit_leaves)+

lemma target_available_leaves:
  "runs same_routes (target_available job ms)"
  unfolding target_available_def by (intro routes.rules statements_leave_routes)

section \<open>Switching the routes\<close>

definition switched ::
  "time \<Rightarrow> node_deletion_job \<Rightarrow> uuid \<Rightarrow> uuid set \<Rightarrow> deployment \<Rightarrow> deployment" where
  "switched now job target ids d =
     (if d_id d \<in> ids \<and> occupies (j_node_id job) d
      then touch_deployment now (d\<lparr>d_serve_node_id := Some target, d_overcommitted := False\<rparr>)
      else d)"

lemma switch_Inr:
  assumes "switch_ready_routes job ms w = (Inr k, v)"
  shows "migrations v = migrations w \<and> sql_now v = sql_now w \<and>
    (deployments v = deployments w \<or>
     (\<exists>t. j_target_node_id job = Some t \<and>
        deployments v = map (switched (sql_now w) job t (m_deployment_id ` set ms)) (deployments w)))"
proof (cases "j_target_node_id job = None \<or> ms = []")
  case True
  with assms show ?thesis by (auto simp: switch_ready_routes_def retM_def split: option.splits)
next
  case False
  then obtain t where t: "j_target_node_id job = Some t" by auto
  from assms False t obtain n u m where
    upd: "update_deployments_where
      (\<lambda>d. d_id d \<in> m_deployment_id ` set ms \<and> occupies (j_node_id job) d)
      (\<lambda>d. d\<lparr>d_serve_node_id := Some t, d_overcommitted := False\<rparr>) w = (Inr n, u)" and
    audit: "create_job_audit job ''node.deletion_route_switched'' AuditSuccess None m u = (Inr (), v)"
    by (auto simp: switch_ready_routes_def oper_Inr)
  have u: "deployments u = map (switched (sql_now w) job t (m_deployment_id ` set ms)) (deployments w)"
    "migrations u = migrations w" "sql_now u = sql_now w"
    using upd
    by (auto simp: update_deployments_where_def dep.update_many_Inr put_deployments_def update_where_def
        switched_def[abs_def])
  have "same_routes u v" "same_copies u v"
    using runsD[OF job_audit_leaves(1) audit] runsD[OF job_audit_leaves(2) audit] by auto
  with u t show ?thesis by (auto simp: same_routes_def same_copies_def)
qed

lemma all_by_count:
  assumes "length xs \<le> length (filter P xs)" and "x \<in> set xs"
  shows "P x"
  using assms by (metis filter_id_conv length_filter_le nle_le length_filter_less not_less)

lemma next_phase_switching:
  "next_phase planned ready failed builds \<in> {PhaseDraining, PhaseDeleting} \<Longrightarrow> planned \<le> ready \<and> failed = 0"
  by (auto simp: next_phase_def split: if_splits)

lemma maybe_switch_Inr:
  assumes "(if b then bindM (switch_ready_routes job ms) (\<lambda>_. retM ()) else retM ()) w = (Inr x, v)"
  shows "migrations v = migrations w \<and>
    (deployments v = deployments w \<or>
     (\<exists>t. j_target_node_id job = Some t \<and>
        deployments v = map (switched (sql_now w) job t (m_deployment_id ` set ms)) (deployments w)))"
  using assms by (auto simp: oper_Inr split: if_splits dest!: switch_Inr)

lemma phase_step_leaves:
  "runs same_routes (bindM (fail_job job r b t s) (\<lambda>_. retM True))"
  "runs same_routes (bindM (update_job_phase job st r b e) (\<lambda>_. retM True))"
  "runs same_copies (bindM (update_job_phase job st r b e) (\<lambda>_. retM True))"
  by (intro routes.rules copies.rules fail_job_leaves phase_leaves)+

lemma advance_waiting:
  assumes "next_phase (length ms) (length (filter (\<lambda>m. m_status m = MReady) ms))
      (length (filter (\<lambda>m. m_status m = MFailed) ms)) builds = phase"
    and "phase \<in> {PhaseFailed, PhaseMigrating}" and "advance_job job ms builds w = (r, v)"
  shows "same_routes w v"
  using assms
  by (elim insertE emptyE)
    (auto simp: advance_job_def intro: runsD[OF phase_step_leaves(1)] runsD[OF phase_step_leaves(2)])

lemma advance_moving:
  assumes "next_phase (length ms) (length (filter (\<lambda>m. m_status m = MReady) ms))
      (length (filter (\<lambda>m. m_status m = MFailed) ms)) builds = phase"
    and "phase \<in> {PhaseDraining, PhaseDeleting}" and run: "advance_job job ms builds w = (Inr c, v)"
  shows "\<exists>b u x. (if b then bindM (switch_ready_routes job ms) (\<lambda>_. retM ()) else retM ()) w = (Inr x, u) \<and>
    same_routes u v \<and> same_copies u v"
proof -
  let ?sw = "\<lambda>b. if b then bindM (switch_ready_routes job ms) (\<lambda>_. retM ()) else retM ()"
  have rest: "same_routes u v \<and> same_copies u v"
    if "bindM (update_job_phase job s r n e) (\<lambda>_. retM True) u = (Inr c, v)" for s r n e u
    using runsD[OF phase_step_leaves(2) that] runsD[OF phase_step_leaves(3) that] by simp
  have fin: "same_routes u v \<and> same_copies u v" if "finish_deletion job r u = (Inr c, v)" for r u
    using runsD[OF finish_leaves(1) that] runsD[OF finish_leaves(2) that] by simp
  have waits: "?thesis" if "phase = PhaseDraining"
  proof -
    from run have "bindM (?sw (length (filter (\<lambda>m. m_status m = MReady) ms) = length ms \<and>
          j_migrated_deployments job < j_total_deployments job)) (\<lambda>_.
        bindM (update_job_phase job JDraining (length (filter (\<lambda>m. m_status m = MReady) ms)) builds None)
         (\<lambda>_. retM True)) w = (Inr c, v)"
      unfolding advance_job_def Let_def assms(1) that by simp
    then obtain x u where sw: "?sw (length (filter (\<lambda>m. m_status m = MReady) ms) = length ms \<and>
          j_migrated_deployments job < j_total_deployments job) w = (Inr x, u)" and
      more: "bindM (update_job_phase job JDraining (length (filter (\<lambda>m. m_status m = MReady) ms)) builds None)
        (\<lambda>_. retM True) u = (Inr c, v)"
      by (subst (asm) bindM_Inr) (elim exE conjE)
    show ?thesis by (rule exI, rule exI, rule exI, rule conjI, rule sw, rule rest, rule more)
  qed
  have finishes: "?thesis" if "phase = PhaseDeleting"
  proof -
    from run have "bindM (?sw (j_migrated_deployments job < j_total_deployments job)) (\<lambda>_.
        if j_status job \<noteq> JDeleting
        then bindM (update_job_phase job JDeleting (length (filter (\<lambda>m. m_status m = MReady) ms)) 0 None)
          (\<lambda>_. retM True)
        else finish_deletion job (length (filter (\<lambda>m. m_status m = MReady) ms))) w = (Inr c, v)"
      unfolding advance_job_def Let_def assms(1) that by simp
    then obtain x u where
      sw: "?sw (j_migrated_deployments job < j_total_deployments job) w = (Inr x, u)" and
      more: "(if j_status job \<noteq> JDeleting
        then bindM (update_job_phase job JDeleting (length (filter (\<lambda>m. m_status m = MReady) ms)) 0 None)
          (\<lambda>_. retM True)
        else finish_deletion job (length (filter (\<lambda>m. m_status m = MReady) ms))) u = (Inr c, v)"
      by (subst (asm) bindM_Inr) (elim exE conjE)
    have after: "same_routes u v \<and> same_copies u v"
    proof (cases "j_status job = JDeleting")
      case True
      with more show ?thesis by (intro fin) simp
    next
      case False
      with more show ?thesis by (intro rest) simp
    qed
    show ?thesis by (rule exI, rule exI, rule exI, rule conjI, rule sw, rule after)
  qed
  from assms(2) show ?thesis using waits finishes by blast
qed

lemma advance_Inr:
  assumes run: "advance_job job ms builds w = (Inr c, v)" and moved: "deployments v \<noteq> deployments w"
  shows "(\<forall>m\<in>set ms. m_status m = MReady) \<and> migrations v = migrations w \<and>
    (\<exists>t. j_target_node_id job = Some t \<and>
       deployments v = map (switched (sql_now w) job t (m_deployment_id ` set ms)) (deployments w))"
proof -
  let ?ready = "length (filter (\<lambda>m. m_status m = MReady) ms)"
  let ?phase = "next_phase (length ms) ?ready (length (filter (\<lambda>m. m_status m = MFailed) ms)) builds"
  have "?phase \<notin> {PhaseFailed, PhaseMigrating}"
    using advance_waiting[OF refl _ run] moved by (auto simp: same_routes_def)
  then have switching: "?phase \<in> {PhaseDraining, PhaseDeleting}" by (cases ?phase) auto
  then have ready: "\<forall>m\<in>set ms. m_status m = MReady"
    using next_phase_switching[OF switching] by (intro ballI all_by_count[where P = "\<lambda>m. m_status m = MReady"]) simp_all
  obtain b u x where
    sw: "(if b then bindM (switch_ready_routes job ms) (\<lambda>_. retM ()) else retM ()) w = (Inr x, u)" and
    rest: "same_routes u v" "same_copies u v"
    using advance_moving[OF refl switching run] by blast
  from maybe_switch_Inr[OF sw] ready moved rest show ?thesis
    by (auto simp: same_routes_def same_copies_def)
qed


lemma body_stages:
  assumes "process_body jid w = (Inr c, v)"
  obtains (skipped) "same_routes w v" "nodes v = nodes w"
  | (unavailable) job u where "find_row j_id jid (jobs w) = Some job"
      "j_status job \<notin> {JFailed, JCompleted}"
      "target_available job (job_migrations w job) w = (Inr False, u)"
      "bindM (fail_job job (length (filter (\<lambda>m. m_status m = MReady) (job_migrations w job)))
         (active_build_count u (j_node_id job))
         ''replacement Serve Node is no longer active and healthy'' ''target_validation'')
         (\<lambda>_. retM True) u = (Inr c, v)"
  | (advanced) job u t where "find_row j_id jid (jobs w) = Some job"
      "j_status job \<notin> {JFailed, JCompleted}"
      "(if j_migrated_deployments job < j_total_deployments job
        then target_available job (job_migrations w job) else retM True) w = (Inr True, u)"
      "forM (job_migrations w job) refresh_migration u = (Inr (), t)"
      "advance_job job (job_migrations t job) (active_build_count t (j_node_id job)) t = (Inr c, v)"
proof (cases "find_row j_id jid (jobs w)")
  case None
  with assms show thesis
    by (intro skipped) (simp_all add: process_body_def lock_placement_def bindM_def getM_def retM_def same_routes_def)
next
  case (Some job)
  show thesis
  proof (cases "j_status job \<in> {JFailed, JCompleted}")
    case True
    with assms Some show thesis
      by (intro skipped) (simp_all add: process_body_def lock_placement_def bindM_def getM_def retM_def same_routes_def)
  next
    case False
    let ?check = "if j_migrated_deployments job < j_total_deployments job
        then target_available job (job_migrations w job) else retM True"
    from assms Some False obtain a u where check: "?check w = (Inr a, u)"
      by (auto simp: process_body_def lock_placement_def bindM_def getM_def retM_def split: prod.splits sum.splits)
    show thesis
    proof (cases a)
      case True
      from assms Some False check True obtain t where
        "forM (job_migrations w job) refresh_migration u = (Inr (), t)"
        "advance_job job (job_migrations t job) (active_build_count t (j_node_id job)) t = (Inr c, v)"
        by (auto simp: process_body_def lock_placement_def bindM_def getM_def retM_def split: prod.splits sum.splits)
      with Some False check True show thesis by (intro advanced[of job u t]) simp_all
    next
      case no: False
      then have av: "target_available job (job_migrations w job) w = (Inr False, u)"
        using check by (auto simp: retM_def split: if_splits)
      from assms Some False check no have
        "bindM (fail_job job (length (filter (\<lambda>m. m_status m = MReady) (job_migrations w job)))
         (active_build_count u (j_node_id job))
         ''replacement Serve Node is no longer active and healthy'' ''target_validation'')
         (\<lambda>_. retM True) u = (Inr c, v)"
        by (simp add: process_body_def lock_placement_def bindM_def getM_def retM_def)
      with Some False av show thesis by (intro unavailable[of job u]) simp_all
    qed
  qed
qed

lemma body_switches:
  assumes run: "process_body jid w = (Inr c, v)" and moved: "deployments v \<noteq> deployments w"
  shows "\<exists>job t. find_row j_id jid (jobs w) = Some job \<and> j_status job \<notin> {JFailed, JCompleted} \<and>
    j_target_node_id job = Some t \<and> (\<forall>m\<in>set (job_migrations v job). m_status m = MReady) \<and>
    deployments v = map (switched (sql_now w) job t (m_deployment_id ` set (job_migrations v job)))
      (deployments w)"
  using run
proof (cases rule: body_stages)
  case skipped
  with moved show ?thesis by (simp add: same_routes_def)
next
  case (unavailable job u)
  have "same_routes w u" by (rule runsD[OF target_available_leaves unavailable(3)])
  moreover have "same_routes u v" by (rule runsD[OF phase_step_leaves(1) unavailable(4)])
  ultimately show ?thesis using moved by (simp add: same_routes_def)
next
  case (advanced job u t)
  have "runs same_routes (if j_migrated_deployments job < j_total_deployments job
      then target_available job (job_migrations w job) else retM True)"
    by (intro routes.rules target_available_leaves)
  from runsD[OF this advanced(3)] have 1: "same_routes w u" .
  have "runs same_routes (forM (job_migrations w job) refresh_migration)"
    by (intro routes.rules refresh_leaves)
  from runsD[OF this advanced(4)] have "same_routes u t" .
  with 1 have same: "same_routes w t" by (simp add: same_routes_def)
  with moved have "deployments v \<noteq> deployments t" by (simp add: same_routes_def)
  from advance_Inr[OF advanced(5) this] obtain target where
    "\<forall>m\<in>set (job_migrations t job). m_status m = MReady" "migrations v = migrations t"
    "j_target_node_id job = Some target"
    "deployments v = map (switched (sql_now t) job target (m_deployment_id ` set (job_migrations t job)))
      (deployments t)" by blast
  with advanced(1,2) same show ?thesis
    by (intro exI[of _ job] exI[of _ target]) (simp add: job_migrations_def same_routes_def)
qed

lemma process_job_run:
  assumes "process_job jid w = (Inr (), v)"
  obtains (committed) u where "process_body jid (begin_tx w) = (Inr True, u)" "v = commit_audits w u"
  | (dropped) "deployments v = deployments w" "nodes v = nodes w" "jobs v = jobs w"
      "migrations v = migrations w"
  using assms
  by (auto simp: process_job_def transaction_or_drop_def split: prod.splits sum.splits if_splits)

end
