(* ===== verification/DeletionJobs.thy ===== *)
theory DeletionJobs
  imports NodeDeletions "HOL-Library.Code_Target_Numeral"
begin

text \<open>
  What a node deletion job does and does not do: routes move only to finished copies, the Node
  is disabled only when nothing depends on it any more, a target counts as eligible only if it can
  really take the whole load, and a failing job leaves every route where it was.
\<close>

section \<open>Routes\<close>

text \<open>
  C13. Routes move only to a finished copy. If running a node deletion job changes any
  deployment then the job is in progress and has a target node, every shadow copy of the job is
  ready, and the change is exactly this: each deployment of the job that still occupies the source
  node is now served by the target and no longer overcommitted; every other deployment is as before.
\<close>

theorem process_job_moves_only_ready:
  assumes "process_job jid w = (Inr (), v)" and "deployments v \<noteq> deployments w"
  shows "\<exists>job t. find_row j_id jid (jobs w) = Some job \<and> j_status job \<notin> {JFailed, JCompleted} \<and>
    j_target_node_id job = Some t \<and> (\<forall>m\<in>set (job_migrations v job). m_status m = MReady) \<and>
    deployments v = map (switched (clock w (clock_pos w)) job t
      (m_deployment_id ` set (job_migrations v job))) (deployments w)"
  using assms(1)
proof (cases rule: process_job_run)
  case (committed u)
  then have "deployments u \<noteq> deployments (begin_tx w)" using assms(2) by simp
  from body_switches[OF committed(1) this] committed(2) show ?thesis
    by (simp add: job_migrations_def begin_tx_def)
next
  case dropped
  with assms(2) show ?thesis by simp
qed

section \<open>Disabling the Node\<close>

definition same_fleet :: "world \<Rightarrow> world \<Rightarrow> bool" where
  "same_fleet w v \<longleftrightarrow> nodes v = nodes w"

interpretation fleet: run_relation same_fleet
  by unfold_locales (simp_all add: same_fleet_def)

lemma audit_leaves_fleet: "runs same_fleet (create_domain_audit_event params vis changes)"
proof -
  have "same_fleet s t" if "create_domain_audit_event params vis changes s = (r, t)" for s r t
    using create_domain_audit_event_ok[of params vis changes s] that
    by (auto simp: same_fleet_def)
  then show ?thesis by (auto intro: runsI)
qed

lemma statements_leave_fleet:
  "runs same_fleet now_utc" "runs same_fleet now_v7" "runs same_fleet (update_migration i g)"
  "runs same_fleet (update_migrations_where q g)" "runs same_fleet (update_deployments_where p k)"
  "runs same_fleet (update_job i f)"
  by (auto simp: runs_def same_fleet_def now_utc_def now_v7_def update_migration_def update_job_def
      update_migrations_where_def update_deployments_where_def exec_update_def exec_update_many_def
      Let_def put_migrations_def put_deployments_def put_jobs_def split: option.split)

lemma fleet_leaves:
  "runs same_fleet (create_job_audit job action result reason metadata)"
  "runs same_fleet (update_job_phase job status ready builds error)"
  "runs same_fleet (refresh_migration m)"
  "runs same_fleet (target_available job ms)"
  unfolding create_job_audit_def audit_writers update_job_phase_def i32_of_def refresh_migration_def
    target_available_def
  by (intro fleet.rules audit_leaves_fleet statements_leave_fleet)+

lemma fleet_leaves_more:
  "runs same_fleet (bindM (fail_job job ready builds text stage) (\<lambda>_. retM True))"
  "runs same_fleet (bindM (update_job_phase job status ready builds error) (\<lambda>_. retM True))"
  "runs same_fleet (if b then bindM (switch_ready_routes job ms) (\<lambda>_. retM ()) else retM ())"
  unfolding fail_job_def switch_ready_routes_def Let_def
  by (intro fleet.rules statements_leave_fleet fleet_leaves)+

text \<open>What a completed run of \<open>finish_deletion\<close> leaves behind.\<close>

definition disabled_node :: "uuid \<Rightarrow> time \<Rightarrow> time \<Rightarrow> node \<Rightarrow> node" where
  "disabled_node nid t now n =
     (if n_id n = nid then n\<lparr>n_status := NDisabled, n_deleted_at := Some now, n_updated_at := t\<rparr> else n)"

lemma update_where_if: "update_where p f rows = map (\<lambda>r. if p r then f r else r) rows"
  by (simp add: update_where_def)

lemma audit_keeps_jobs:
  assumes "create_platform_audit_event params w = (r, v)"
  shows "jobs v = jobs w" "nodes v = nodes w" "migrations v = migrations w"
  using create_domain_audit_event_ok[of params "Some VisPlatform" "JObj []" w] assms
  by (auto simp: audit_writers)

lemma finish_Inr:
  assumes "finish_deletion job ready w = (Inr c, v)" and "nodes v \<noteq> nodes w"
  shows "\<exists>now. nodes v = map (disabled_node (j_node_id job) (sql_now w) now) (nodes w) \<and>
    (\<exists>j. find_row j_id (j_id job) (jobs v) = Some j \<and> j_status j = JCompleted \<and>
      j_migrated_deployments j = int ready \<and> j_active_builds j = 0 \<and> j_completed_at j = Some now)"
proof -
  let ?done = "\<lambda>now j. j\<lparr>j_status := JCompleted, j_migrated_deployments := int ready,
    j_active_builds := 0, j_error := None, j_updated_at := now, j_completed_at := Some now\<rparr>"
  from assms obtain now n a1 a2 a3 w1 w2 w3 where
    clock: "now_utc w = (Inr now, w1)" and source: "find_row n_id (j_node_id job) (nodes w1) = Some n" and
    node: "update_node (n_id n) (\<lambda>r. r\<lparr>n_status := NDisabled, n_deleted_at := Some now\<rparr>) w1 = (Inr a1, w2)" and
    job: "update_job (j_id job) (?done now) w2 = (Inr a2, w3)" and
    audit: "create_platform_audit_event a3 w3 = (Inr (), v)"
    by (auto simp: finish_deletion_def oper_Inr i32_of_def try_i32_def now_utc_def split: option.splits if_splits)
  have w1: "nodes w1 = nodes w" "jobs w1 = jobs w" "sql_now w1 = sql_now w"
    using clock by (auto simp: now_utc_def)
  have id: "n_id n = j_node_id job" using find_row_mem[OF source] by simp
  have w2: "nodes w2 = map (disabled_node (j_node_id job) (sql_now w) now) (nodes w)" "jobs w2 = jobs w"
    using node w1 id
    by (auto simp: update_node_def nod.update_Inr put_nodes_def update_where_if disabled_node_def[abs_def])
  obtain r where r: "find_row j_id (j_id job) (jobs w) = Some r" and
    w3: "nodes w3 = nodes w2" "jobs w3 = update_where (\<lambda>j. j_id j = j_id job) (?done now) (jobs w)"
    using job w2 by (auto simp: update_job_def job.update_Inr put_jobs_def)
  have "find_row j_id (j_id job) (jobs w3) = Some (?done now r)"
    using r find_row_mem[OF r] by (simp add: w3 find_row_update)
  then show ?thesis
    using audit_keeps_jobs[OF audit] w2 w3 by (intro exI[of _ now]) simp
qed


lemma advance_not_deleting:
  assumes "next_phase (length ms) (length (filter (\<lambda>m. m_status m = MReady) ms))
      (length (filter (\<lambda>m. m_status m = MFailed) ms)) builds = phase"
    and "phase \<noteq> PhaseDeleting" and "advance_job job ms builds w = (r, v)"
  shows "same_fleet w v"
proof -
  have "runs same_fleet (bindM (if b then bindM (switch_ready_routes job ms) (\<lambda>_. retM ()) else retM ())
      (\<lambda>_. bindM (update_job_phase job s i n e) (\<lambda>_. retM True)))" for b s i n e
    by (rule fleet.bindM_ok) (rule fleet_leaves_more)+
  note switch = runsD[OF this]
  from assms show ?thesis
    by (cases phase)
      (simp_all only: advance_job_def Let_def deletion_phase.case,
       auto intro: switch runsD[OF fleet_leaves_more(1)] runsD[OF fleet_leaves_more(2)])
qed

lemma advance_disables:
  assumes run: "advance_job job ms builds w = (Inr c, v)" and changed: "nodes v \<noteq> nodes w"
  shows "builds = 0 \<and> (\<forall>m\<in>set ms. m_status m = MReady) \<and> j_status job = JDeleting \<and>
    (\<exists>u. nodes u = nodes w \<and> sql_now u = sql_now w \<and> migrations u = migrations w \<and>
       finish_deletion job (length (filter (\<lambda>m. m_status m = MReady) ms)) u = (Inr c, v))"
proof -
  let ?ready = "length (filter (\<lambda>m. m_status m = MReady) ms)"
  have phase: "next_phase (length ms) ?ready (length (filter (\<lambda>m. m_status m = MFailed) ms)) builds
      = PhaseDeleting"
    using advance_not_deleting[OF refl _ run] changed by (auto simp: same_fleet_def)
  let ?sw = "if j_migrated_deployments job < j_total_deployments job
    then bindM (switch_ready_routes job ms) (\<lambda>_. retM ()) else retM ()"
  from run have "bindM ?sw (\<lambda>_. if j_status job \<noteq> JDeleting
        then bindM (update_job_phase job JDeleting ?ready 0 None) (\<lambda>_. retM True)
        else finish_deletion job ?ready) w = (Inr c, v)"
    unfolding advance_job_def Let_def phase by simp
  then obtain x u where sw: "?sw w = (Inr x, u)" and
    more: "(if j_status job \<noteq> JDeleting then bindM (update_job_phase job JDeleting ?ready 0 None) (\<lambda>_. retM True)
      else finish_deletion job ?ready) u = (Inr c, v)"
    by (subst (asm) bindM_Inr) (elim exE conjE)
  have u: "nodes u = nodes w" "migrations u = migrations w" "sql_now u = sql_now w"
  proof -
    show "nodes u = nodes w" using runsD[OF fleet_leaves_more(3) sw] by (simp add: same_fleet_def)
    show "migrations u = migrations w" using maybe_switch_Inr[OF sw] by simp
    show "sql_now u = sql_now w" using sw switch_Inr[of job ms w] by (auto simp: oper_Inr split: if_splits)
  qed
  have deleting: "j_status job = JDeleting"
  proof (rule ccontr)
    assume "\<not> ?thesis"
    then have "bindM (update_job_phase job JDeleting ?ready 0 None) (\<lambda>_. retM True) u = (Inr c, v)"
      using more by simp
    from runsD[OF fleet_leaves_more(2) this] u changed show False by (simp add: same_fleet_def)
  qed
  have "length ms \<le> ?ready" "builds = 0" using phase by (auto simp: next_phase_def split: if_splits)
  moreover from this have "\<forall>m\<in>set ms. m_status m = MReady"
    by (intro ballI all_by_count[where P = "\<lambda>m. m_status m = MReady"]) simp_all
  moreover have "finish_deletion job ?ready u = (Inr c, v)" using more deleting by simp
  ultimately show ?thesis using deleting u by blast
qed

lemma body_before_advance:
  assumes "(if b then target_available job ms else retM True) w = (Inr True, x)"
    and "forM ms refresh_migration x = (Inr (), t)"
  shows "same_routes w t" and "same_fleet w t"
proof -
  have "runs same_routes (if b then target_available job ms else retM True)"
    "runs same_fleet (if b then target_available job ms else retM True)"
    "runs same_routes (forM ms refresh_migration)" "runs same_fleet (forM ms refresh_migration)"
    by (intro routes.rules fleet.rules target_available_leaves refresh_leaves fleet_leaves)+
  from runsD[OF this(1) assms(1)] runsD[OF this(2) assms(1)] runsD[OF this(3) assms(2)]
    runsD[OF this(4) assms(2)]
  show "same_routes w t" "same_fleet w t" by (simp_all add: same_routes_def same_fleet_def)
qed

lemma body_disables:
  assumes run: "process_body jid w = (Inr c, v)" and changed: "nodes v \<noteq> nodes w"
  shows "\<exists>job now. find_row j_id jid (jobs w) = Some job \<and> j_status job = JDeleting \<and>
    active_build_count w (j_node_id job) = 0 \<and>
    (\<forall>m\<in>set (job_migrations v job). m_status m = MReady) \<and>
    nodes v = map (disabled_node (j_node_id job) (sql_now w) now) (nodes w) \<and>
    (\<exists>j. find_row j_id jid (jobs v) = Some j \<and> j_status j = JCompleted \<and> j_completed_at j = Some now)"
  using run
proof (cases rule: body_stages)
  case skipped
  with changed show ?thesis by simp
next
  case (unavailable job u)
  from runsD[OF fleet_leaves(4) unavailable(3)] runsD[OF fleet_leaves_more(1) unavailable(4)] changed
  show ?thesis by (simp add: same_fleet_def)
next
  case (advanced job u t)
  note same = body_before_advance[OF advanced(3,4)]
  let ?ms = "job_migrations t job"
  let ?ready = "length (filter (\<lambda>m. m_status m = MReady) ?ms)"
  have "nodes v \<noteq> nodes t" using same changed by (simp add: same_fleet_def)
  from advance_disables[OF advanced(5) this] obtain s where
    none: "active_build_count t (j_node_id job) = 0" and ready: "\<forall>m\<in>set ?ms. m_status m = MReady" and
    deleting: "j_status job = JDeleting" and
    s: "nodes s = nodes t" "sql_now s = sql_now t" "migrations s = migrations t" and
    fin: "finish_deletion job ?ready s = (Inr c, v)" by blast
  have id: "j_id job = jid" using find_row_mem[OF advanced(1)] by simp
  have mig: "migrations v = migrations t" using runsD[OF finish_leaves(2) fin] s by (simp add: same_copies_def)
  have "nodes v \<noteq> nodes s" using s same changed by (simp add: same_fleet_def)
  from finish_Inr[OF fin this] obtain now j where
    "nodes v = map (disabled_node (j_node_id job) (sql_now s) now) (nodes s)"
    "find_row j_id (j_id job) (jobs v) = Some j" "j_status j = JCompleted" "j_completed_at j = Some now"
    by blast
  with advanced(1) deleting none ready s same mig id show ?thesis
    by (intro exI[of _ job] exI[of _ now])
      (simp add: same_routes_def same_fleet_def active_build_count_def job_migrations_def)
qed

text \<open>
  C14. A Node is disabled only when nothing depends on it. If running a node deletion job
  changes any node then the job was in its last phase, no build is claimed, queued or running on
  the node, every shadow copy of the job is ready, the change is to disable exactly the node of
  the job, and the job is completed at the same instant.
\<close>

theorem process_job_disables_only_drained:
  assumes "process_job jid w = (Inr (), v)" and "nodes v \<noteq> nodes w"
  shows "\<exists>job now. find_row j_id jid (jobs w) = Some job \<and> j_status job = JDeleting \<and>
    active_build_count w (j_node_id job) = 0 \<and>
    (\<forall>m\<in>set (job_migrations v job). m_status m = MReady) \<and>
    nodes v = map (disabled_node (j_node_id job) (clock w (clock_pos w)) now) (nodes w) \<and>
    (\<exists>j. find_row j_id jid (jobs v) = Some j \<and> j_status j = JCompleted \<and> j_completed_at j = Some now)"
  using assms(1)
proof (cases rule: process_job_run)
  case (committed u)
  then have "nodes u \<noteq> nodes (begin_tx w)" using assms(2) by simp
  from body_disables[OF committed(1) this] committed(2) show ?thesis
    by (simp add: job_migrations_def begin_tx_def active_build_count_def)
next
  case dropped
  with assms(2) show ?thesis by simp
qed

section \<open>Capacity of a target\<close>

lemma foldl_None: "(\<And>d. g None d = None) \<Longrightarrow> foldl g None ds = None"
  by (induction ds) simp_all

lemma requested_from:
  "a \<le> u64_max \<Longrightarrow>
   foldl (\<lambda>planned d. Option.bind planned (\<lambda>t. Option.bind (try_u64 (f d)) (\<lambda>v. checked_add_u64 t v)))
     (Some a) ds =
   (if (\<forall>d\<in>set ds. 0 \<le> f d) \<and> a + (\<Sum>d\<leftarrow>ds. nat (f d)) \<le> u64_max
    then Some (a + (\<Sum>d\<leftarrow>ds. nat (f d))) else None)"
proof (induction ds arbitrary: a)
  case Nil
  then show ?case by simp
next
  case (Cons d ds)
  show ?case
  proof (cases "0 \<le> f d \<and> a + nat (f d) \<le> u64_max")
    case True
    then show ?thesis using Cons.IH[of "a + nat (f d)"]
      by (simp add: try_u64_def checked_add_u64_def add.assoc)
  next
    case False
    then show ?thesis by (auto simp: try_u64_def checked_add_u64_def foldl_None)
  qed
qed

lemma requested_total_Some:
  "requested_total f ds = Some t \<longleftrightarrow>
   (\<forall>d\<in>set ds. 0 \<le> f d) \<and> t = (\<Sum>d\<leftarrow>ds. nat (f d)) \<and> t \<le> u64_max"
  using requested_from[of 0 f ds] by (auto simp: requested_total_def)

text \<open>
  A Node counts as able to take over exactly when it really is: no request is negative, and
  what it serves together with all deployments of the deleted Node stays within its CPU, memory,
  disk and deployment limits, computed without overflow.
\<close>

theorem candidate_can_host_exact:
  assumes "nr_cpu_millicores (cd_capacity c) \<le> u64_max" and "nr_memory_mb (cd_capacity c) \<le> u64_max"
    and "nr_disk_mb (cd_capacity c) \<le> u64_max" and "nr_max_deployments (cd_capacity c) \<le> u64_max"
  shows "candidate_can_host c ds \<longleftrightarrow>
    (\<forall>d\<in>set ds. 0 \<le> d_serve_cpu_millicores d \<and> 0 \<le> d_serve_memory_mb d \<and> 0 \<le> d_serve_disk_mb d) \<and>
    us_cpu_millicores (cd_usage c) + (\<Sum>d\<leftarrow>ds. nat (d_serve_cpu_millicores d))
      \<le> nr_cpu_millicores (cd_capacity c) \<and>
    us_memory_mb (cd_usage c) + (\<Sum>d\<leftarrow>ds. nat (d_serve_memory_mb d))
      \<le> nr_memory_mb (cd_capacity c) \<and>
    us_disk_mb (cd_usage c) + (\<Sum>d\<leftarrow>ds. nat (d_serve_disk_mb d)) \<le> nr_disk_mb (cd_capacity c) \<and>
    us_deployments (cd_usage c) + length ds \<le> nr_max_deployments (cd_capacity c)"
proof -
  have fits: "fits_after u r k \<longleftrightarrow> u + r \<le> k" if "k \<le> u64_max" for u r k
    using that by (auto simp: fits_after_def checked_add_u64_def)
  have host: "candidate_can_host c ds \<longleftrightarrow> (\<exists>cpu memory disk.
      requested_total d_serve_cpu_millicores ds = Some cpu \<and>
      requested_total d_serve_memory_mb ds = Some memory \<and>
      requested_total d_serve_disk_mb ds = Some disk \<and>
      us_cpu_millicores (cd_usage c) + cpu \<le> nr_cpu_millicores (cd_capacity c) \<and>
      us_memory_mb (cd_usage c) + memory \<le> nr_memory_mb (cd_capacity c) \<and>
      us_disk_mb (cd_usage c) + disk \<le> nr_disk_mb (cd_capacity c) \<and>
      us_deployments (cd_usage c) + length ds \<le> nr_max_deployments (cd_capacity c))"
    using assms by (auto simp: candidate_can_host_def fits split: option.splits)
  show ?thesis unfolding host requested_total_Some using assms by auto
qed

section \<open>Failing a job\<close>

lemma job_checks_fail:
  assumes "job_checks r" and "j_status r \<noteq> JCompleted" and "int ready \<le> j_total_deployments r"
  shows "job_checks (r\<lparr>j_status := JFailed, j_migrated_deployments := int ready,
    j_active_builds := int builds, j_error := e, j_updated_at := now\<rparr>)"
  using assms by (simp add: job_checks_def)

lemma jobs_con_update:
  assumes con: "jobs_con rows = None" and row: "find_row j_id i rows = Some r"
    and f: "\<And>x. j_id (f x) = j_id x" "\<And>x. j_node_id (f x) = j_node_id x"
    and "j_status r \<noteq> JCompleted" "j_status (f r) \<noteq> JCompleted" "job_checks (f r)"
  shows "jobs_con (update_where (\<lambda>x. j_id x = i) f rows) = None"
proof -
  have only: "x = r" if "x \<in> set rows" "j_id x = i" for x
    using job.row_unique[OF con that(1)] find_row_mem[OF row] that(2) by simp
  let ?g = "\<lambda>x. if j_id x = i then f x else x"
  have ids: "map j_id (map ?g rows) = map j_id rows" using f by simp
  have open_same: "(j_status (?g x) \<noteq> JCompleted) = (j_status x \<noteq> JCompleted)" if "x \<in> set rows" for x
    using only[OF that] assms(5,6) by auto
  then have "filter (\<lambda>j. j_status j \<noteq> JCompleted) (map ?g rows) =
      map ?g (filter (\<lambda>j. j_status j \<noteq> JCompleted) rows)"
    by (simp add: filter_map o_def cong: filter_cong)
  then have "map j_node_id (filter (\<lambda>j. j_status j \<noteq> JCompleted) (map ?g rows)) =
      map j_node_id (filter (\<lambda>j. j_status j \<noteq> JCompleted) rows)"
    using f by simp
  moreover have "list_all job_checks (map ?g rows)"
    using con only assms(7) by (auto simp: jobs_con_None list_all_iff)
  ultimately show ?thesis
    using con ids by (simp only: update_where_if jobs_con_None)
qed

lemma migrations_con_fail:
  assumes "migrations_con rows = None"
  shows "migrations_con (update_where p (fail_migration e now) rows) = None"
proof -
  let ?g = "\<lambda>m. if p m then fail_migration e now m else m"
  have "map m_id (map ?g rows) = map m_id rows"
    "map (\<lambda>m. (m_job_id m, m_deployment_id m)) (map ?g rows) = map (\<lambda>m. (m_job_id m, m_deployment_id m)) rows"
    by (simp_all add: fail_migration_def)
  moreover have "list_all migration_checks (map ?g rows)"
    using assms by (auto simp: migrations_con_None list_all_iff migration_checks_def fail_migration_def)
  ultimately show ?thesis
    using assms by (simp only: update_where_if migrations_con_None)
qed

lemma phase_run:
  assumes "jobs_con (jobs w) = None" and "find_row j_id (j_id job) (jobs w) = Some r"
    and "j_status r \<noteq> JCompleted" "int ready \<le> j_total_deployments r" "ready < 2 ^ 31" "builds < 2 ^ 31"
  shows "\<exists>v j. update_job_phase job JFailed ready builds e w = (Inr j, v) \<and>
    find_row j_id (j_id job) (jobs v) = Some j \<and> j_status j = JFailed \<and> j_error j = e \<and>
    j_migrated_deployments j = int ready \<and> migrations v = migrations w"
proof -
  let ?f = "\<lambda>now j. j\<lparr>j_status := JFailed, j_migrated_deployments := int ready,
    j_active_builds := int builds, j_error := e, j_updated_at := now\<rparr>"
  let ?now = "clock w (clock_pos w)"
  let ?w = "w\<lparr>clock_pos := Suc (clock_pos w)\<rparr>"
  have checks: "job_checks r"
    using assms(1) find_row_mem[OF assms(2)] by (simp add: jobs_con_None list_all_iff)
  have con: "jobs_con (update_where (\<lambda>x. j_id x = j_id job) (?f ?now) (jobs ?w)) = None"
    using jobs_con_update[OF assms(1,2), of "?f ?now"] job_checks_fail[OF checks assms(3,4)] assms(3)
    by simp
  have "update_job (j_id job) (?f ?now) ?w =
      (Inr (?f ?now r), put_jobs (update_where (\<lambda>x. j_id x = j_id job) (?f ?now) (jobs ?w)) ?w)"
    unfolding update_job_def using assms(2) con by (intro job.update_run) simp_all
  then have "update_job_phase job JFailed ready builds e w =
      (Inr (?f ?now r), put_jobs (update_where (\<lambda>x. j_id x = j_id job) (?f ?now) (jobs w)) ?w)"
    using assms(5,6)
    by (simp add: update_job_phase_def i32_of_def try_i32_def okOr_def bindM_def retM_def now_utc_def mapErr_def)
  then show ?thesis
    using job.found_after_update[OF assms(2), of "?f ?now"] by (simp add: put_jobs_def)
qed

definition job_failed :: "world \<Rightarrow> uuid \<Rightarrow> string \<Rightarrow> bool" where
  "job_failed v jid message \<longleftrightarrow>
     (\<exists>j. find_row j_id jid (jobs v) = Some j \<and> j_status j = JFailed \<and> j_error j = Some message \<and>
       (\<forall>m\<in>set (job_migrations v j). m_status m = MFailed))"

lemma fail_job_run:
  assumes "jobs_con (jobs w) = None" and "migrations_con (migrations w) = None"
    and row: "find_row j_id (j_id job) (jobs w) = Some r"
    and "j_status r \<noteq> JCompleted" "int ready \<le> j_total_deployments r" "ready < 2 ^ 31" "builds < 2 ^ 31"
  shows "\<exists>v j. fail_job job ready builds text stage w = (Inr j, v) \<and>
    job_failed v (j_id job) (bounded_job_error text)"
proof -
  let ?p = "\<lambda>m. m_job_id m = j_id job \<and> m_status m \<noteq> MFailed"
  let ?e = "bounded_job_error text" and ?now = "clock w (clock_pos w)"
  let ?w = "w\<lparr>clock_pos := Suc (clock_pos w)\<rparr>"
  let ?rows = "update_where ?p (fail_migration ?e ?now) (migrations w)"
  let ?u = "put_migrations ?rows ?w"
  have marked: "update_migrations_where ?p (fail_migration ?e ?now) ?w = (Inr (length (filter ?p (migrations w))), ?u)"
    unfolding update_migrations_where_def using migrations_con_fail[OF assms(2)] by (simp add: mig.update_many_Inr)
  have "jobs ?u = jobs w" by (simp add: put_migrations_def)
  then obtain v j where phase: "update_job_phase job JFailed ready builds (Some ?e) ?u = (Inr j, v)" and
    j: "find_row j_id (j_id job) (jobs v) = Some j" "j_status j = JFailed" "j_error j = Some ?e" and
    mig: "migrations v = ?rows"
    using phase_run[of ?u job r ready builds "Some ?e"] assms by auto
  obtain params where "create_job_audit j ''node.deletion_failed'' AuditFailure (Some ?e)
      (JObj [(''job_id'', JUuid (j_id j)), (''target_node_id'', jopt JUuid (j_target_node_id j)),
        (''migrated_deployments'', JNum (int ready)), (''total_deployments'', JNum (j_total_deployments j)),
        (''active_builds'', JNum (int builds)), (''stage'', JStr stage)])
      = mapErr AnyDb (create_platform_audit_event params)"
    unfolding create_job_audit_def by blast
  moreover obtain v' where audit: "create_platform_audit_event params v = (Inr (), v')"
    using create_domain_audit_event_ok[of params "Some VisPlatform" "JObj []" v] by (auto simp: audit_writers)
  ultimately have run: "fail_job job ready builds text stage w = (Inr j, v')"
    using marked phase
    by (simp add: fail_job_def Let_def bindM_def now_utc_def mapErr_def retM_def)
  have "m_status m = MFailed" if "m \<in> set ?rows" "m_job_id m = j_id job" for m
    using that by (auto simp: update_where_if fail_migration_def)
  then have "job_failed v' (j_id job) ?e"
    using j mig audit_keeps_jobs[OF audit] find_row_mem[OF j(1)]
    by (auto simp: job_failed_def job_migrations_def)
  with run show ?thesis by blast
qed

text \<open>The tables a job reads are consistent: the schema constraints hold and the counters fit.\<close>

definition job_tables_ok :: "world \<Rightarrow> node_deletion_job \<Rightarrow> bool" where
  "job_tables_ok w job \<longleftrightarrow>
     jobs_con (jobs w) = None \<and> migrations_con (migrations w) = None \<and>
     int (length (job_migrations w job)) \<le> j_total_deployments job \<and>
     j_total_deployments job < 2 ^ 31 \<and> length (deployments w) < 2 ^ 31"

lemma builds_bound: "length (deployments w) < 2 ^ 31 \<Longrightarrow> active_build_count w nid < 2 ^ 31"
  unfolding active_build_count_def by (rule le_less_trans[OF length_filter_le])

lemma counts_fit: "r \<le> l \<Longrightarrow> int l \<le> t \<Longrightarrow> t < 2 ^ 31 \<Longrightarrow> int r \<le> t \<and> r < 2 ^ 31"
  by simp

lemma clamped_fits: "m \<le> t \<Longrightarrow> 0 \<le> t \<Longrightarrow> t < 2 ^ 31 \<Longrightarrow>
  int (nat (max 0 m)) \<le> t \<and> nat (max 0 m) < 2 ^ 31"
  by (simp add: nat_less_iff)

lemma clamped_below: "m < 2 ^ 31 \<Longrightarrow> nat (max 0 m) < 2 ^ 31"
  by (simp add: nat_less_iff)

text \<open>
  A job whose target is gone fails and moves nothing. If an open job still has deployments
  to migrate and its target Node does not exist any more, or is not an active Serve Node with a base
  URL and a heartbeat of the last ninety seconds, then running the job succeeds, marks the job and
  each of its shadow copies failed with the reason, and leaves every deployment and every node as
  it was.
\<close>

theorem lost_target_fails_job:
  assumes row: "find_row j_id jid (jobs w) = Some job"
    and opened: "j_status job \<notin> {JFailed, JCompleted}"
    and work: "j_migrated_deployments job < j_total_deployments job"
    and target: "j_target_node_id job = Some t"
    and lost: "\<forall>n. find_row n_id t (nodes w) = Some n \<longrightarrow> \<not> target_is_available n (clock w (Suc (clock_pos w)))"
    and ok: "job_tables_ok w job"
  shows "\<exists>v. process_job jid w = (Inr (), v) \<and> deployments v = deployments w \<and> nodes v = nodes w \<and>
    job_failed v jid ''replacement Serve Node is no longer active and healthy''"
proof -
  let ?msg = "''replacement Serve Node is no longer active and healthy''"
  let ?b = "begin_tx w"
  let ?ready = "length (filter (\<lambda>m. m_status m = MReady) (job_migrations w job))"
  have id: "j_id job = jid" using find_row_mem[OF row] by simp
  obtain s where check: "target_available job (job_migrations w job) ?b = (Inr False, s)" and
    s: "jobs s = jobs w" "migrations s = migrations w" "nodes s = nodes w" "deployments s = deployments w"
    using target lost
    by (cases "find_row n_id t (nodes w)")
      (auto simp: target_available_def bindM_def getM_def now_utc_def retM_def begin_tx_def)
  have "?ready \<le> length (job_migrations w job)" by (rule length_filter_le)
  from counts_fit[OF this, of "j_total_deployments job"] ok
  have "int ?ready \<le> j_total_deployments job" "?ready < 2 ^ 31"
    by (simp_all add: job_tables_ok_def)
  then obtain v j where fail: "fail_job job ?ready (active_build_count s (j_node_id job)) ?msg
      ''target_validation'' s = (Inr j, v)" and failed: "job_failed v jid (bounded_job_error ?msg)"
    using fail_job_run[of s job job ?ready "active_build_count s (j_node_id job)" ?msg "''target_validation''"]
      ok row opened builds_bound[of s "j_node_id job"] s id by (auto simp: job_tables_ok_def)
  have "process_body jid ?b = (Inr True, v)"
    using row opened work check fail
    by (simp add: process_body_def lock_placement_def bindM_def getM_def retM_def job_migrations_def)
  then have run: "process_job jid w = (Inr (), commit_audits w v)"
    by (simp add: process_job_def transaction_or_drop_def)
  have "runs same_fleet (fail_job job r n e g)" for r n e g
    unfolding fail_job_def Let_def by (intro fleet.rules statements_leave_fleet fleet_leaves)
  from runsD[OF this fail] runsD[OF fail_job_leaves fail] s
  have "deployments v = deployments w" "nodes v = nodes w" by (simp_all add: same_fleet_def same_routes_def)
  with run failed show ?thesis by (simp add: job_failed_def job_migrations_def bounded_job_error_def)
qed


lemma process_job_error: "process_job jid w = (Inl e, v) \<Longrightarrow> \<exists>x. v = rollback_to w x"
  by (auto simp: process_job_def transaction_or_drop_def split: prod.splits sum.splits if_splits)

text \<open>
  An error while a job runs is recorded on the job. If \<open>process_job\<close> returns an error then
  \<open>process_one\<close> still succeeds: the aborted transaction leaves deployments and nodes as they were, and
  the job is failed with the text of the error, cut to 2048 characters.
\<close>

theorem failing_run_is_recorded:
  assumes error: "process_job (j_id job) w = (Inl e, x)"
    and row: "find_row j_id (j_id job) (jobs w) = Some current"
    and opened: "j_status current \<notin> {JFailed, JCompleted}"
    and ok: "job_tables_ok w current"
    and counts: "j_migrated_deployments job \<le> j_total_deployments current"
      "j_active_builds job < 2 ^ 31"
  shows "\<exists>v. process_one job w = (Inr (), v) \<and> deployments v = deployments w \<and> nodes v = nodes w \<and>
    job_failed v (j_id job) (take 2048 (anyhow_text e))"
proof -
  obtain x' where x: "x = rollback_to w x'" using process_job_error[OF error] by blast
  let ?b = "begin_tx x"
  let ?ready = "nat (max 0 (j_migrated_deployments job))" and ?builds = "nat (max 0 (j_active_builds job))"
  have id: "j_id current = j_id job" using find_row_mem[OF row] by simp
  have tables: "jobs ?b = jobs w" "migrations ?b = migrations w" "nodes ?b = nodes w"
    "deployments ?b = deployments w"
    by (simp_all add: x)
  have "0 \<le> j_total_deployments current"
    using ok find_row_mem[OF row] by (auto simp: job_tables_ok_def jobs_con_None list_all_iff job_checks_def)
  then have "int ?ready \<le> j_total_deployments current" "?ready < 2 ^ 31" "?builds < 2 ^ 31"
    using clamped_fits[OF counts(1)] clamped_below[OF counts(2)] ok
    by (simp_all add: job_tables_ok_def)
  then obtain v j where fail: "fail_job current ?ready ?builds (bounded_job_error (anyhow_text e))
      ''queue_processing'' ?b = (Inr j, v)" and
    failed: "job_failed v (j_id current) (bounded_job_error (bounded_job_error (anyhow_text e)))"
    using fail_job_run[of ?b current current ?ready ?builds "bounded_job_error (anyhow_text e)" "''queue_processing''"]
      ok row opened tables id by (auto simp: job_tables_ok_def)
  have "record_failure job e x = (Inr (), commit_audits x v)"
    using row opened fail tables
    by (simp add: record_failure_def transaction_def bindM_def getM_def retM_def)
  then have run: "process_one job w = (Inr (), commit_audits x v)"
    by (simp add: process_one_def error)
  have "runs same_fleet (fail_job j r n m g)" for j r n m g
    unfolding fail_job_def Let_def by (intro fleet.rules statements_leave_fleet fleet_leaves)
  from runsD[OF this fail] runsD[OF fail_job_leaves fail] tables
  have "deployments v = deployments w" "nodes v = nodes w" by (simp_all add: same_fleet_def same_routes_def)
  with run failed id show ?thesis by (simp add: job_failed_def job_migrations_def bounded_job_error_def)
qed

section \<open>Queueing a deletion\<close>

lemma eligible_candidates_same: "eligible_candidates w = (r, v) \<Longrightarrow> v = w"
  by (auto simp: eligible_candidates_def split: sum.splits)

lemma map_filter_mem: "y \<in> set (List.map_filter f xs) \<longleftrightarrow> (\<exists>x\<in>set xs. f x = Some y)"
  by (induction xs) (auto simp: List.map_filter_simps split: option.split)

lemma plan_Inr:
  assumes "deletion_plan_of source w = (Inr p, v)"
  shows "v = w" and "dp_requires_target p \<longleftrightarrow> assigned_deployments w (n_id source) \<noteq> []"
    and "t \<in> et_id ` set (dp_eligible_targets p) \<Longrightarrow> \<exists>cs c. eligible_candidates w = (Inr cs, w) \<and>
      c \<in> set cs \<and> cd_node_id c = t \<and> t \<noteq> n_id source \<and>
      candidate_can_host c (assigned_deployments w (n_id source))"
proof -
  let ?ds = "assigned_deployments w (n_id source)"
  let ?ids = "\<lambda>cs. map cd_node_id
    (filter (\<lambda>c. candidate_can_host c ?ds) (filter (\<lambda>c. cd_node_id c \<noteq> n_id source) cs))"
  from assms obtain cs where c: "eligible_candidates w = (Inr cs, v)" and
    req: "dp_requires_target p = (?ds \<noteq> [])" and
    el: "set (dp_eligible_targets p) = set (List.map_filter (eligible_target_of cs)
      (if ?ids cs = [] then [] else filter (\<lambda>n. n_id n \<in> set (?ids cs)) (nodes v)))"
    unfolding deletion_plan_of_def Let_def oper_Inr by (elim exE conjE) (simp only: deletion_plan.simps set_sort)
  have cs: "eligible_candidates w = (Inr cs, w)" "v = w"
    using c eligible_candidates_same[OF c] by simp_all
  show "v = w" by (rule cs(2))
  show "dp_requires_target p \<longleftrightarrow> ?ds \<noteq> []" by (rule req)
  assume "t \<in> et_id ` set (dp_eligible_targets p)"
  then obtain e where e: "e \<in> set (dp_eligible_targets p)" "et_id e = t" by blast
  from e(1) obtain n where n: "n_id n \<in> set (?ids cs)" "eligible_target_of cs n = Some e"
    unfolding el by (auto simp: map_filter_mem split: if_splits)
  have "n_id n = t" using n(2) e(2) by (auto simp: eligible_target_of_def split: option.splits)
  with n(1) cs(1) show "\<exists>cs c. eligible_candidates w = (Inr cs, w) \<and> c \<in> set cs \<and> cd_node_id c = t \<and>
      t \<noteq> n_id source \<and> candidate_can_host c ?ds"
    by auto
qed

definition copy_of :: "uuid \<Rightarrow> uuid \<Rightarrow> uuid \<Rightarrow> deployment \<Rightarrow> migration \<Rightarrow> bool" where
  "copy_of jid source target d m \<longleftrightarrow>
     m_job_id m = jid \<and> m_deployment_id m = d_id d \<and> m_source_node_id m = source \<and>
     m_target_node_id m = target \<and> m_status m = MPending \<and> m_error m = None \<and> m_ready_at m = None"

lemma pending_rows:
  "mapM ds (pending_migration job s t now) w = (Inr rows, v) \<Longrightarrow>
   list_all2 (copy_of (j_id job) s t) ds rows \<and> migrations v = migrations w \<and> jobs v = jobs w \<and>
   nodes v = nodes w \<and> deployments v = deployments w \<and> sql_now v = sql_now w"
proof (induction ds arbitrary: w rows v)
  case Nil
  then show ?case by (simp add: retM_def)
next
  case (Cons d ds)
  from Cons.prems obtain m ms u where
    head: "pending_migration job s t now d w = (Inr m, u)" and
    tail: "mapM ds (pending_migration job s t now) u = (Inr ms, v)" and rows: "rows = m # ms"
    by (auto simp: oper_Inr)
  have "copy_of (j_id job) s t d m" "migrations u = migrations w" "jobs u = jobs w" "nodes u = nodes w"
    "deployments u = deployments w" "sql_now u = sql_now w"
    using head by (auto simp: pending_migration_def now_v7_def oper_Inr copy_of_def)
  with Cons.IH[OF tail] rows show ?case by simp
qed

lemma stored_rows:
  assumes "insert_migrations rows w = (r, v)"
  shows "migrations v = (if r = Inr () then migrations w @ rows else migrations w)"
    "jobs v = jobs w" "nodes v = nodes w" "deployments v = deployments w" "sql_now v = sql_now w"
  using assms by (auto simp: insert_migrations_def put_migrations_def split: option.splits)

definition queued_job :: "world \<Rightarrow> uuid option \<Rightarrow> nat \<Rightarrow> node_deletion_job \<Rightarrow> bool" where
  "queued_job v target planned j \<longleftrightarrow>
     find_row j_id (j_id j) (jobs v) = Some j \<and> j_status j = JQueued \<and> j_target_node_id j = target \<and>
     j_total_deployments j = int planned \<and> j_migrated_deployments j = 0 \<and> j_error j = None"

lemma requeue_Inr:
  assumes "requeue_job job target planned builds now w = (Inr j, v)"
  shows "j_status job = JFailed" "queued_job v target planned j" "job_migrations v j = []"
    "deployments v = deployments w" "nodes v = nodes w" "sql_now v = sql_now w"
proof -
  let ?f = "\<lambda>j. j\<lparr>j_target_node_id := target, j_status := JQueued, j_total_deployments := int planned,
    j_migrated_deployments := 0, j_active_builds := int builds, j_error := None, j_updated_at := now\<rparr>"
  let ?w = "w\<lparr>migrations := filter (\<lambda>m. m_job_id m \<noteq> j_id job) (migrations w)\<rparr>"
  from assms have failed: "j_status job = JFailed" and run: "update_job (j_id job) ?f ?w = (Inr j, v)"
    by (auto simp: requeue_job_def delete_migrations_where_def oper_Inr i32_of_def try_i32_def split: if_splits)
  from run obtain r where r: "find_row j_id (j_id job) (jobs w) = Some r" "j = ?f r" and
    v: "v = put_jobs (update_where (\<lambda>x. j_id x = j_id job) ?f (jobs w)) ?w"
    by (auto simp: update_job_def job.update_Inr)
  have id: "j_id j = j_id job" using r find_row_mem[OF r(1)] by simp
  have "find_row j_id (j_id job) (jobs v) = Some (?f r)"
    unfolding v jobs_put by (rule job.found_after_update[OF r(1)]) simp
  with r id show "queued_job v target planned j" by (simp add: queued_job_def)
  show "j_status job = JFailed" by (rule failed)
  show "job_migrations v j = []" using id by (simp add: v put_jobs_def job_migrations_def filter_empty_conv)
  show "deployments v = deployments w" "nodes v = nodes w" "sql_now v = sql_now w"
    by (simp_all add: v put_jobs_def)
qed

lemma new_job_Inr:
  assumes "new_job source target requester planned builds now w = (Inr j, v)"
  shows "queued_job v target planned j" "j_id j \<notin> j_id ` set (jobs w)" "migrations v = migrations w"
    "deployments v = deployments w" "nodes v = nodes w" "sql_now v = sql_now w"
proof -
  from assms obtain u' where ins: "insert_job j u' = (Inr j, v)" and
    u': "jobs u' = jobs w" "migrations u' = migrations w" "deployments u' = deployments w"
      "nodes u' = nodes w" "sql_now u' = sql_now w" and
    j: "j_status j = JQueued" "j_target_node_id j = target" "j_total_deployments j = int planned"
      "j_migrated_deployments j = 0" "j_error j = None"
    by (auto simp: new_job_def now_v7_def oper_Inr i32_of_def try_i32_def insert_job_def job.insert_Inr
        split: if_splits)
  have con: "jobs_con (jobs w @ [j]) = None" and v: "v = put_jobs (jobs w @ [j]) u'"
    using ins u' by (auto simp: insert_job_def job.insert_Inr)
  from con show fresh: "j_id j \<notin> j_id ` set (jobs w)" by (auto simp: jobs_con_None)
  have "find_row j_id (j_id j) (jobs v) = Some j"
    unfolding v jobs_put by (rule job.row_found[OF con]) simp
  with j show "queued_job v target planned j" by (simp add: queued_job_def)
  show "migrations v = migrations w" "deployments v = deployments w" "nodes v = nodes w" "sql_now v = sql_now w"
    using u' by (simp_all add: v put_jobs_def)
qed

definition active_job_step ::
  "uuid \<Rightarrow> uuid option \<Rightarrow> uuid \<Rightarrow> nat \<Rightarrow> nat \<Rightarrow> time \<Rightarrow> node_deletion_job option \<Rightarrow>
   (anyhow, node_deletion_job) dbm" where
  "active_job_step source target requester planned builds now existing =
     (case existing of
        Some job \<Rightarrow> requeue_job job target planned builds now
      | None \<Rightarrow> new_job source target requester planned builds now)"

lemma job_step_Inr:
  assumes run: "active_job_step source target requester planned builds now existing w = (Inr job, v)"
    and fk: "\<forall>m\<in>set (migrations w). m_job_id m \<in> j_id ` set (jobs w)"
  shows "(case existing of None \<Rightarrow> True | Some old \<Rightarrow> j_status old = JFailed)"
    "queued_job v target planned job" "job_migrations v job = []"
    "deployments v = deployments w" "nodes v = nodes w" "sql_now v = sql_now w"
proof -
  have "(case existing of None \<Rightarrow> True | Some old \<Rightarrow> j_status old = JFailed) \<and>
    queued_job v target planned job \<and> job_migrations v job = [] \<and>
    deployments v = deployments w \<and> nodes v = nodes w \<and> sql_now v = sql_now w"
  proof (cases existing)
    case None
    with run have "new_job source target requester planned builds now w = (Inr job, v)"
      by (simp add: active_job_step_def)
    note new = new_job_Inr[OF this]
    have "m_job_id m \<noteq> j_id job" if "m \<in> set (migrations w)" for m
      using new(2) bspec[OF fk that] by auto
    then have "job_migrations v job = []"
      by (simp add: job_migrations_def filter_empty_conv new(3))
    with new None show ?thesis by simp
  next
    case (Some r)
    with run have "requeue_job r target planned builds now w = (Inr job, v)"
      by (simp add: active_job_step_def)
    with requeue_Inr[OF this] Some show ?thesis by simp
  qed
  then show "case existing of None \<Rightarrow> True | Some old \<Rightarrow> j_status old = JFailed"
    "queued_job v target planned job" "job_migrations v job = []"
    "deployments v = deployments w" "nodes v = nodes w" "sql_now v = sql_now w" by blast+
qed

lemma copies_Inr:
  assumes "(case target of Some t \<Rightarrow>
      if ds \<noteq> [] then
        bindM (mapM ds (pending_migration job source t now)) (\<lambda>rows. mapErr AnyDb (insert_migrations rows))
      else retM ()
    | None \<Rightarrow> retM ()) w = (Inr (), v)"
    and none: "job_migrations w job = []"
  shows "deployments v = deployments w" "nodes v = nodes w" "sql_now v = sql_now w" "jobs v = jobs w"
    "ds \<noteq> [] \<Longrightarrow> target = Some t \<Longrightarrow> list_all2 (copy_of (j_id job) source t) ds (job_migrations v job)"
proof -
  have "deployments v = deployments w \<and> nodes v = nodes w \<and> sql_now v = sql_now w \<and> jobs v = jobs w \<and>
    (ds \<noteq> [] \<longrightarrow> target = Some t \<longrightarrow> list_all2 (copy_of (j_id job) source t) ds (job_migrations v job))"
    for t
  proof (cases "ds = [] \<or> target = None")
    case True
    with assms(1) show ?thesis by (auto simp: oper_Inr split: option.splits)
  next
    case False
    then obtain t' where t': "target = Some t'" by auto
    with False assms(1) obtain ms s where
      ms: "mapM ds (pending_migration job source t' now) w = (Inr ms, s)" and
      ins: "insert_migrations ms s = (Inr (), v)"
      by (auto simp: oper_Inr)
    note p = pending_rows[OF ms] and q = stored_rows[OF ins]
    have "m_job_id m = j_id job" if "m \<in> set ms" for m
      using p that by (auto simp: list_all2_conv_all_nth in_set_conv_nth copy_of_def)
    then have "job_migrations v job = job_migrations w job @ ms"
      using p q by (simp add: job_migrations_def)
    with p q t' none show ?thesis by auto
  qed
  then show "deployments v = deployments w" "nodes v = nodes w" "sql_now v = sql_now w" "jobs v = jobs w"
    "ds \<noteq> [] \<Longrightarrow> target = Some t \<Longrightarrow> list_all2 (copy_of (j_id job) source t) ds (job_migrations v job)"
    by blast+
qed

text \<open>
  Accepting a deletion is sound. When \<open>enqueue\<close> accepts, no other deletion of the node is in
  progress; if deployments occupy the node, a target was given, it is another eligible Node that can
  really host all of them, and the queued job has exactly one pending shadow copy on the target for each
  of them, in order; the node is draining; no deployment has moved yet.
\<close>

theorem enqueue_sound:
  assumes run: "enqueue source target requester w = (Inr job, v)"
    and fk: "\<forall>m\<in>set (migrations w). m_job_id m \<in> j_id ` set (jobs w)"
  shows "(case active_job w (n_id source) of None \<Rightarrow> True | Some old \<Rightarrow> j_status old = JFailed) \<and>
    queued_job v target (length (assigned_deployments w (n_id source))) job \<and>
    deployments v = deployments w \<and>
    nodes v = update_where (\<lambda>n. n_id n = n_id source)
      (\<lambda>n. n\<lparr>n_status := NDraining, n_updated_at := sql_now w\<rparr>) (nodes w) \<and>
    (assigned_deployments w (n_id source) \<noteq> [] \<longrightarrow>
      (\<exists>t cs c. target = Some t \<and> eligible_candidates w = (Inr cs, w) \<and> c \<in> set cs \<and>
        cd_node_id c = t \<and> t \<noteq> n_id source \<and>
        candidate_can_host c (assigned_deployments w (n_id source)) \<and>
        list_all2 (copy_of (j_id job) (n_id source) t) (assigned_deployments w (n_id source))
          (job_migrations v job)))"
proof -
  let ?ds = "assigned_deployments w (n_id source)"
  from run obtain p w0 w0' builds w2 w3 n w4 params where
    plan: "deletion_plan_of source w = (Inr p, w0)" and check: "check_target p target w0 = (Inr (), w0')" and
    job: "active_job_step (n_id source) target requester (length (assigned_deployments w0' (n_id source))) builds
       (clock w0' (clock_pos w0')) (active_job w0' (n_id source)) (w0'\<lparr>clock_pos := Suc (clock_pos w0')\<rparr>)
      = (Inr job, w2)" and
    rows: "(case target of Some t \<Rightarrow>
        if assigned_deployments w0' (n_id source) \<noteq> [] then
          bindM (mapM (assigned_deployments w0' (n_id source))
            (pending_migration job (n_id source) t (clock w0' (clock_pos w0'))))
            (\<lambda>rows. mapErr AnyDb (insert_migrations rows))
        else retM ()
      | None \<Rightarrow> retM ()) w2 = (Inr (), w3)" and
    node: "update_node (n_id source) (\<lambda>n. n\<lparr>n_status := NDraining\<rparr>) w3 = (Inr n, w4)" and
    audit: "create_platform_audit_event params w4 = (Inr (), v)"
    unfolding enqueue_def create_job_audit_def active_job_step_def
    by (simp only: oper_Inr) (auto simp: now_utc_def active_job_def)
  have w0: "w0 = w" by (rule plan_Inr(1)[OF plan])
  have w0': "w0' = w" using check w0 by (auto simp: check_target_def oper_Inr split: if_splits)
  have fk': "\<forall>m\<in>set (migrations (w0'\<lparr>clock_pos := Suc (clock_pos w0')\<rparr>)).
      m_job_id m \<in> j_id ` set (jobs (w0'\<lparr>clock_pos := Suc (clock_pos w0')\<rparr>))"
    using fk by (simp add: w0')
  note job = job_step_Inr[OF job fk', unfolded w0']
  note copies = copies_Inr[OF rows[unfolded w0'] job(3)]
  have w4: "nodes w4 = update_where (\<lambda>n. n_id n = n_id source)
      (\<lambda>n. n\<lparr>n_status := NDraining, n_updated_at := sql_now w\<rparr>) (nodes w)"
    "deployments w4 = deployments w" "jobs w4 = jobs w2" "migrations w4 = migrations w3"
    using node copies job by (auto simp: update_node_def nod.update_Inr put_nodes_def)
  have v: "nodes v = nodes w4" "deployments v = deployments w4" "jobs v = jobs w4" "migrations v = migrations w4"
    using create_domain_audit_event_ok[of params "Some VisPlatform" "JObj []" w4] audit
    by (auto simp: audit_writers)
  have target: "\<exists>t cs c. target = Some t \<and> eligible_candidates w = (Inr cs, w) \<and> c \<in> set cs \<and>
      cd_node_id c = t \<and> t \<noteq> n_id source \<and> candidate_can_host c ?ds" if "?ds \<noteq> []"
    using check plan_Inr(2,3)[OF plan] that
    by (auto simp: check_target_def oper_Inr split: if_splits)
  have "queued_job v target (length ?ds) job" using job(2) v w4 by (simp add: queued_job_def)
  moreover have "job_migrations v job = job_migrations w3 job" using v w4 by (simp add: job_migrations_def)
  ultimately show ?thesis using job(1) v w4 target copies(5) by auto
qed

section \<open>Concrete runs\<close>

text \<open>Node 1 is being deleted; deployment 10 on it has a shadow copy on node 2.\<close>

definition sample_job :: "node_deletion_status \<Rightarrow> int \<Rightarrow> node_deletion_job" where
  "sample_job s k =
     \<lparr>j_id = 50, j_node_id = 1, j_target_node_id = Some 2, j_requested_by_user_id = Some 7,
      j_status = s, j_total_deployments = 1, j_migrated_deployments = k, j_active_builds = 0,
      j_error = None, j_created_at = 0, j_updated_at = 0, j_completed_at = None\<rparr>"

definition sample_copy :: "migration_status \<Rightarrow> migration" where
  "sample_copy s =
     \<lparr>m_id = 60, m_job_id = 50, m_deployment_id = 10, m_source_node_id = 1, m_target_node_id = 2,
      m_status = s, m_error = None, m_created_at = 0, m_updated_at = 0,
      m_ready_at = (if s = MReady then Some 0 else None)\<rparr>"

definition deletion_world :: "node_deletion_status \<Rightarrow> int \<Rightarrow> uuid \<Rightarrow> world" where
  "deletion_world s k nid =
     (sample_world [sample_deployment 10 Production BReady SReady RActive (Some nid)]
       [(sample_node 1)\<lparr>n_name := ''old'', n_status := NDraining\<rparr>, sample_node 2])
     \<lparr>jobs := [sample_job s k], migrations := [sample_copy MReady]\<rparr>"

lemma find_sample_job [simp]: "find_row j_id 50 (jobs (deletion_world s k n)) = Some (sample_job s k)"
  by (simp add: deletion_world_def sample_job_def find_row_def)

lemma moving_run:
  "fst (process_job 50 (deletion_world JMigrating 0 1)) = Inr () \<and>
   map d_serve_node_id (deployments (snd (process_job 50 (deletion_world JMigrating 0 1)))) = [Some 2]"
  by code_simp

lemma disabling_run:
  "fst (process_job 50 (deletion_world JDeleting 1 2)) = Inr () \<and>
   map n_status (nodes (snd (process_job 50 (deletion_world JDeleting 1 2)))) = [NDisabled, NActive]"
  by code_simp

theorem process_job_moves_only_ready_witness:
  "\<exists>v. process_job 50 (deletion_world JMigrating 0 1) = (Inr (), v) \<and>
     map d_serve_node_id (deployments v) = [Some 2] \<and>
     (\<forall>m\<in>set (job_migrations v (sample_job JMigrating 0)). m_status m = MReady)"
proof -
  let ?w = "deletion_world JMigrating 0 1"
  obtain v where run: "process_job 50 ?w = (Inr (), v)" "map d_serve_node_id (deployments v) = [Some 2]"
    using moving_run by (cases "process_job 50 ?w") auto
  then have "deployments v \<noteq> deployments ?w" by (auto simp: deletion_world_def)
  from process_job_moves_only_ready[OF run(1) this] run show ?thesis by auto
qed

theorem process_job_disables_only_drained_witness:
  "\<exists>v j. process_job 50 (deletion_world JDeleting 1 2) = (Inr (), v) \<and>
     map n_status (nodes v) = [NDisabled, NActive] \<and>
     find_row j_id 50 (jobs v) = Some j \<and> j_status j = JCompleted"
proof -
  let ?w = "deletion_world JDeleting 1 2"
  obtain v where run: "process_job 50 ?w = (Inr (), v)" "map n_status (nodes v) = [NDisabled, NActive]"
    using disabling_run by (cases "process_job 50 ?w") auto
  then have "nodes v \<noteq> nodes ?w" by (auto simp: deletion_world_def sample_node_def)
  from process_job_disables_only_drained[OF run(1) this] run show ?thesis by auto
qed

theorem candidate_can_host_exact_witness:
  "candidate_can_host idle_candidate [sample_deployment 10 Production BReady SReady RActive (Some 1)] \<and>
   \<not> candidate_can_host idle_candidate
     (replicate 21 (sample_deployment 10 Production BReady SReady RActive (Some 1)))"
proof -
  have "nr_cpu_millicores (cd_capacity idle_candidate) \<le> u64_max"
    "nr_memory_mb (cd_capacity idle_candidate) \<le> u64_max"
    "nr_disk_mb (cd_capacity idle_candidate) \<le> u64_max"
    "nr_max_deployments (cd_capacity idle_candidate) \<le> u64_max"
    by (simp_all add: idle_candidate_def u64_max_def)
  from candidate_can_host_exact[OF this] show ?thesis
    by (simp add: idle_candidate_def sum_list_replicate)
qed

text \<open>The target has gone silent: its last heartbeat is too old.\<close>

definition silent_world :: world where
  "silent_world = (deletion_world JMigrating 0 1)
     \<lparr>nodes := [(sample_node 1)\<lparr>n_name := ''old'', n_status := NDraining\<rparr>,
       (sample_node 2)\<lparr>n_last_heartbeat_at := None\<rparr>]\<rparr>"

lemma sample_tables_ok: "job_tables_ok (deletion_world JMigrating 0 1) (sample_job JMigrating 0)"
  by (simp add: job_tables_ok_def deletion_world_def jobs_con_None migrations_con_None job_migrations_def
      sample_job_def sample_copy_def job_checks_def migration_checks_def)

theorem lost_target_fails_job_witness:
  "\<exists>v. process_job 50 silent_world = (Inr (), v) \<and> deployments v = deployments silent_world \<and>
     job_failed v 50 ''replacement Serve Node is no longer active and healthy''"
proof -
  have "find_row j_id 50 (jobs silent_world) = Some (sample_job JMigrating 0)"
    by (simp add: silent_world_def)
  moreover have "job_tables_ok silent_world (sample_job JMigrating 0)"
    using sample_tables_ok by (simp add: job_tables_ok_def silent_world_def job_migrations_def)
  moreover have "\<not> target_is_available n t" if "find_row n_id 2 (nodes silent_world) = Some n" for n t
    using that by (auto simp: silent_world_def find_row_def sample_node_def target_is_available_def is_healthy_def)
  ultimately show ?thesis
    using lost_target_fails_job[of 50 silent_world "sample_job JMigrating 0" 2]
    by (auto simp: sample_job_def)
qed

text \<open>Three nodes of one name: every write to the table is refused.\<close>

definition clashing_world :: world where
  "clashing_world = (deletion_world JDeleting 1 2)\<lparr>nodes := [sample_node 1, sample_node 2, sample_node 3]\<rparr>"

lemma clashing_run: "fst (process_job 50 clashing_world) = Inl (AnyDb (UniqueViolation ''ux_nodes_name''))"
  by code_simp

theorem failing_run_is_recorded_witness:
  "\<exists>v. process_one (sample_job JDeleting 1) clashing_world = (Inr (), v) \<and>
     deployments v = deployments clashing_world \<and> job_failed v 50 ''database error''"
proof -
  let ?job = "sample_job JDeleting 1"
  have id: "j_id ?job = 50" by (simp add: sample_job_def)
  obtain x where "process_job (j_id ?job) clashing_world = (Inl (AnyDb (UniqueViolation ''ux_nodes_name'')), x)"
    using clashing_run id by (cases "process_job 50 clashing_world") auto
  moreover have "find_row j_id (j_id ?job) (jobs clashing_world) = Some ?job"
    by (simp add: clashing_world_def id)
  moreover have "job_tables_ok clashing_world ?job"
    by (simp add: job_tables_ok_def clashing_world_def deletion_world_def jobs_con_None migrations_con_None
        job_migrations_def sample_job_def sample_copy_def job_checks_def migration_checks_def)
  ultimately show ?thesis
    using failing_run_is_recorded[of ?job clashing_world _ x ?job] by (auto simp: sample_job_def)
qed

definition crowded_world :: world where
  "crowded_world = sample_world [sample_deployment 10 Production BReady SReady RActive (Some 1)]
     [(sample_node 1)\<lparr>n_name := ''old''\<rparr>, sample_node 2]"

lemma enqueue_run:
  "(case fst (enqueue ((sample_node 1)\<lparr>n_name := ''old''\<rparr>) (Some 2) 7 crowded_world) of
      Inr j \<Rightarrow> True | Inl _ \<Rightarrow> False)"
  by code_simp

theorem enqueue_sound_witness:
  "\<exists>j v. enqueue ((sample_node 1)\<lparr>n_name := ''old''\<rparr>) (Some 2) 7 crowded_world = (Inr j, v) \<and>
     j_status j = JQueued \<and> map m_deployment_id (job_migrations v j) = [10]"
proof -
  let ?n = "(sample_node 1)\<lparr>n_name := ''old''\<rparr>"
  obtain j v where run: "enqueue ?n (Some 2) 7 crowded_world = (Inr j, v)"
    using enqueue_run by (cases "enqueue ?n (Some 2) 7 crowded_world") (auto split: sum.splits)
  have ds: "assigned_deployments crowded_world (n_id ?n) =
      [sample_deployment 10 Production BReady SReady RActive (Some 1)]"
    by (simp add: assigned_deployments_def crowded_world_def occupies_def counts_for_capacity_def sample_node_def)
  have "\<forall>m\<in>set (migrations crowded_world). m_job_id m \<in> j_id ` set (jobs crowded_world)"
    by (simp add: crowded_world_def)
  from enqueue_sound[OF run this] ds run show ?thesis
    by (auto simp: queued_job_def list_all2_Cons1 copy_of_def)
qed

end
