(* ===== verification/Quotas.thy ===== *)
theory Quotas
  imports AuditLog Samples "HOL-Library.Code_Target_Numeral"
begin

text \<open>
  Quotas in the database (\<open>domain/quotas.rs\<close>): the dimensions, the plan that applies to a team,
  the log of quota events and the usage counters that fold it, one per team, dimension and period.
  The calendar of the \<open>time\<close> crate is a parameter: it says in which month of UTC an instant lies and
  when a month begins. An instant inside JSON is kept as its number.
\<close>

section \<open>Dimensions\<close>

datatype quota_dimension =
    Projects | ProjectsStatic | ProjectsSsr | Members | Hosts | DeploymentsMonthly
  | BuildMinutesMonthly | BuildTimeoutSeconds | StorageMb | ArtifactMaxMb | ConcurrentBuilds
  | SsrProcesses | SsrHoursMonthly

definition all_dimensions :: "quota_dimension list" where
  "all_dimensions =
     [Projects, ProjectsStatic, ProjectsSsr, Members, Hosts, DeploymentsMonthly,
      BuildMinutesMonthly, BuildTimeoutSeconds, StorageMb, ArtifactMaxMb, ConcurrentBuilds,
      SsrProcesses, SsrHoursMonthly]"

fun dimension_str :: "quota_dimension \<Rightarrow> string" where
  "dimension_str Projects = ''projects''"
| "dimension_str ProjectsStatic = ''projects.static''"
| "dimension_str ProjectsSsr = ''projects.ssr''"
| "dimension_str Members = ''members''"
| "dimension_str Hosts = ''hosts''"
| "dimension_str DeploymentsMonthly = ''deployments.monthly''"
| "dimension_str BuildMinutesMonthly = ''build_minutes.monthly''"
| "dimension_str BuildTimeoutSeconds = ''build_timeout_seconds''"
| "dimension_str StorageMb = ''storage_mb''"
| "dimension_str ArtifactMaxMb = ''artifact_max_mb''"
| "dimension_str ConcurrentBuilds = ''concurrent_builds''"
| "dimension_str SsrProcesses = ''ssr_processes''"
| "dimension_str SsrHoursMonthly = ''ssr_hours.monthly''"

definition parse_dimension :: "string \<Rightarrow> quota_dimension option" where
  "parse_dimension value = find (\<lambda>d. dimension_str d = value) all_dimensions"

fun dimension_period :: "quota_dimension \<Rightarrow> quota_period" where
  "dimension_period DeploymentsMonthly = PeriodMonthly"
| "dimension_period BuildMinutesMonthly = PeriodMonthly"
| "dimension_period SsrHoursMonthly = PeriodMonthly"
| "dimension_period _ = PeriodNone"

definition is_counted :: "quota_dimension \<Rightarrow> bool" where
  "is_counted d \<longleftrightarrow> d \<notin> {BuildTimeoutSeconds, ArtifactMaxMb, ConcurrentBuilds}"

section \<open>The plan of a team\<close>

datatype quota_plan_source = SourceExplicit | SourceGroup | SourceDefault

fun plan_source_str :: "quota_plan_source \<Rightarrow> string" where
  "plan_source_str SourceExplicit = ''explicit''"
| "plan_source_str SourceGroup = ''group''"
| "plan_source_str SourceDefault = ''default''"

record resolved_quota =
  rq_plan :: quota_plan
  rq_source :: quota_plan_source
  rq_limits :: "(string \<times> int) list"

text \<open>The limits are collected into a \<open>HashMap\<close>: the last row of a dimension counts.\<close>

definition limit_for :: "resolved_quota \<Rightarrow> quota_dimension \<Rightarrow> int option" where
  "limit_for r d =
     (case map_of (rev (rq_limits r)) (dimension_str d) of
        None \<Rightarrow> None
      | Some limit \<Rightarrow>
          if 0 \<le> limit \<and> (d \<notin> {SsrProcesses, SsrHoursMonthly} \<or> 0 < limit)
          then Some limit else None)"

definition plan_by_id :: "world \<Rightarrow> uuid \<Rightarrow> quota_plan option" where
  "plan_by_id w i = find (\<lambda>q. q_id q = i \<and> q_enabled q) (quota_plans w)"

definition group_plan :: "world \<Rightarrow> uuid option \<Rightarrow> quota_plan option" where
  "group_plan w gid =
     (case gid of
        None \<Rightarrow> None
      | Some i \<Rightarrow>
          (case find (\<lambda>g. g_id g = i \<and> g_deleted_at g = None) (team_groups w) of
             None \<Rightarrow> None
           | Some g \<Rightarrow>
               (case g_quota_plan_id g of None \<Rightarrow> None | Some pid \<Rightarrow> plan_by_id w pid)))"

definition default_plan :: "world \<Rightarrow> quota_plan option" where
  "default_plan w = find (\<lambda>q. q_is_default q \<and> q_enabled q) (quota_plans w)"

definition resolve_plan :: "world \<Rightarrow> team \<Rightarrow> anyhow + (quota_plan \<times> quota_plan_source)" where
  "resolve_plan w t =
     (case t_explicit_quota_plan_id t of
        Some pid \<Rightarrow>
          (case plan_by_id w pid of
             Some q \<Rightarrow> Inr (q, SourceExplicit)
           | None \<Rightarrow> Inl (AnyMsg ''explicit quota plan not found''))
      | None \<Rightarrow>
          (case group_plan w (t_group_id t) of
             Some q \<Rightarrow> Inr (q, SourceGroup)
           | None \<Rightarrow>
               (case default_plan w of
                  Some q \<Rightarrow> Inr (q, SourceDefault)
                | None \<Rightarrow> Inl (AnyMsg ''no default quota plan is configured''))))"

definition resolve_team_quota :: "team \<Rightarrow> (anyhow, resolved_quota) dbm" where
  "resolve_team_quota t =
     bindM (getM (\<lambda>w. resolve_plan w t)) (\<lambda>found.
     bindM (liftR found) (\<lambda>(q, source).
     getM (\<lambda>w. \<lparr>rq_plan = q, rq_source = source,
       rq_limits = map (\<lambda>l. (l_dimension l, l_limit_value l))
         (filter (\<lambda>l. l_quota_plan_id l = q_id q) (quota_limits w))\<rparr>)))"

section \<open>Periods\<close>

record calendar =
  cal_month :: "time \<Rightarrow> int \<times> nat"
  cal_start :: "int \<times> nat \<Rightarrow> time"

fun next_month :: "int \<times> nat \<Rightarrow> int \<times> nat" where
  "next_month (y, m) = (if m = 12 then (y + 1, 1) else (y, m + 1))"

definition current_period_window :: "calendar \<Rightarrow> time \<Rightarrow> time \<times> time" where
  "current_period_window cal now =
     (cal_start cal (cal_month cal now), cal_start cal (next_month (cal_month cal now)))"

definition dimension_window ::
  "calendar \<Rightarrow> quota_dimension \<Rightarrow> time \<Rightarrow> time option \<times> time option" where
  "dimension_window cal d now =
     (case dimension_period d of
        PeriodMonthly \<Rightarrow> map_prod Some Some (current_period_window cal now)
      | PeriodNone \<Rightarrow> (None, None))"

section \<open>Events and counters\<close>

record record_event_params =
  re_team_id :: uuid
  re_dimension :: quota_dimension
  re_kind :: quota_event_kind
  re_delta_value :: int
  re_resource_type :: "string option"
  re_resource_id :: "uuid option"
  re_metadata :: json

definition counted_kind :: "quota_event_kind \<Rightarrow> bool" where
  "counted_kind k \<longleftrightarrow> k \<in> {QConsume, QRelease, QAdjust}"

definition new_quota_event ::
  "uuid \<Rightarrow> time \<Rightarrow> idem_key option \<Rightarrow> record_event_params \<Rightarrow> quota_event" where
  "new_quota_event i now key p =
     \<lparr>k_id = i, k_team_id = re_team_id p, k_dimension = dimension_str (re_dimension p),
      k_kind = re_kind p, k_delta_value = re_delta_value p, k_idempotency_key = key,
      k_resource_type = re_resource_type p, k_resource_id = re_resource_id p,
      k_metadata = re_metadata p, k_created_at = now\<rparr>"

text \<open>
  The unique index of the counters does not see rows without a period, since NULLs are distinct
  there.
\<close>

definition counters_con :: "usage_counter list \<Rightarrow> dberr option" where
  "counters_con rows =
     (if \<not> distinct (map c_id rows) then Some (UniqueViolation ''quota_usage_counters_pkey'')
      else if \<not> distinct (map (\<lambda>c. (c_team_id c, c_dimension c, c_period_start c, c_period_end c))
            (filter (\<lambda>c. c_period_start c \<noteq> None \<and> c_period_end c \<noteq> None) rows))
        then Some (UniqueViolation ''ux_quota_usage_counters_team_dimension_period'')
      else None)"

definition put_counters :: "usage_counter list \<Rightarrow> world \<Rightarrow> world" where
  "put_counters rows w = w\<lparr>usage_counters := rows\<rparr>"

definition update_counter :: "uuid \<Rightarrow> (usage_counter \<Rightarrow> usage_counter) \<Rightarrow> (dberr, usage_counter) dbm" where
  "update_counter i f w =
     exec_update counters_con c_id usage_counters put_counters i
       (\<lambda>c. (f c)\<lparr>c_updated_at := sql_now w\<rparr>) w"

definition insert_counter :: "usage_counter \<Rightarrow> (dberr, usage_counter) dbm" where
  "insert_counter = exec_insert counters_con usage_counters put_counters"

definition find_counter :: "world \<Rightarrow> uuid \<Rightarrow> string \<Rightarrow> time option \<Rightarrow> usage_counter option" where
  "find_counter w team dim start =
     find (\<lambda>c. c_team_id c = team \<and> c_dimension c = dim \<and> c_period_start c = start) (usage_counters w)"

definition apply_counter_delta ::
  "calendar \<Rightarrow> uuid \<Rightarrow> quota_dimension \<Rightarrow> int \<Rightarrow> time \<Rightarrow> (anyhow, unit) dbm" where
  "apply_counter_delta cal team d delta now =
     (let (start, end_at) = dimension_window cal d now in
     bindM (getM (\<lambda>w. find_counter w team (dimension_str d) start)) (\<lambda>found.
     (case found of
        Some c \<Rightarrow>
          bindM (mapErr AnyDb (update_counter (c_id c)
            (\<lambda>r. r\<lparr>c_used_value := max 0 (wrap_i64 (c_used_value c + delta))\<rparr>))) (\<lambda>_. retM ())
      | None \<Rightarrow>
          bindM now_v7 (\<lambda>i.
          bindM (mapErr AnyDb (insert_counter
            \<lparr>c_id = i, c_team_id = team, c_dimension = dimension_str d, c_used_value = max 0 delta,
             c_period_start = start, c_period_end = end_at, c_updated_at = now\<rparr>)) (\<lambda>_. retM ())))))"

definition fold_event :: "calendar \<Rightarrow> record_event_params \<Rightarrow> time \<Rightarrow> (anyhow, unit) dbm" where
  "fold_event cal p now =
     (if counted_kind (re_kind p)
      then apply_counter_delta cal (re_team_id p) (re_dimension p) (re_delta_value p) now
      else retM ())"

definition record_event :: "calendar \<Rightarrow> record_event_params \<Rightarrow> (anyhow, unit) dbm" where
  "record_event cal p =
     bindM now_utc (\<lambda>now.
     bindM now_v7 (\<lambda>i.
     bindM (mapErr AnyDb (insert_quota_event (new_quota_event i now None p))) (\<lambda>_.
     fold_event cal p now)))"

fun is_unique_violation :: "anyhow \<Rightarrow> bool" where
  "is_unique_violation (AnyDb (UniqueViolation _)) = True"
| "is_unique_violation _ = False"

text \<open>
  A transaction on the connection itself (\<open>DatabaseConnection::begin\<close>); its body says whether it
  commits. \<open>tryM\<close> hands the result of a statement to the code that matches on it.
\<close>

definition tryM :: "('s, 'e, 'a) oper \<Rightarrow> ('s, 'f, 'e + 'a) oper" where
  "tryM m s = (case m s of (r, t) \<Rightarrow> (Inr r, t))"

definition db_transaction :: "('e, bool \<times> 'a) dbm \<Rightarrow> ('e, 'a) dbm" where
  "db_transaction m w =
     (case m (begin_tx w) of
        (Inl e, v) \<Rightarrow> (Inl e, rollback_to w v)
      | (Inr (commit, a), v) \<Rightarrow> (Inr a, if commit then v else rollback_to w v))"

definition record_event_once ::
  "calendar \<Rightarrow> idem_key \<Rightarrow> record_event_params \<Rightarrow> (anyhow, bool) dbm" where
  "record_event_once cal key p =
     db_transaction (
       bindM now_utc (\<lambda>now.
       bindM now_v7 (\<lambda>i.
       bindM (tryM (mapErr AnyDb (insert_quota_event (new_quota_event i now (Some key) p)))) (\<lambda>inserted.
       (case inserted of
          Inl e \<Rightarrow> if is_unique_violation e then retM (False, False) else failM e
        | Inr _ \<Rightarrow> bindM (fold_event cal p now) (\<lambda>_. retM (True, True)))))))"

definition durable_usage :: "calendar \<Rightarrow> uuid \<Rightarrow> quota_dimension \<Rightarrow> (anyhow, int) dbm" where
  "durable_usage cal team d =
     bindM (case dimension_period d of
              PeriodMonthly \<Rightarrow> bindM now_utc (\<lambda>now. retM (Some (fst (current_period_window cal now))))
            | PeriodNone \<Rightarrow> retM None) (\<lambda>start.
     getM (\<lambda>w. case find_counter w team (dimension_str d) start of
                 Some c \<Rightarrow> c_used_value c | None \<Rightarrow> 0))"

definition live_projects :: "world \<Rightarrow> uuid \<Rightarrow> project_runtime option \<Rightarrow> nat" where
  "live_projects w team runtime =
     length (filter (\<lambda>p. p_team_id p = team \<and> p_deleted_at p = None \<and>
       (case runtime of Some r \<Rightarrow> p_runtime p = r | None \<Rightarrow> True)) (projects w))"

definition effective_usage :: "calendar \<Rightarrow> uuid \<Rightarrow> quota_dimension \<Rightarrow> (anyhow, int) dbm" where
  "effective_usage cal team d =
     (case d of
        Projects \<Rightarrow> getM (\<lambda>w. int (live_projects w team None))
      | ProjectsStatic \<Rightarrow> getM (\<lambda>w. int (live_projects w team (Some Static)))
      | ProjectsSsr \<Rightarrow> getM (\<lambda>w. int (live_projects w team (Some Ssr)))
      | Members \<Rightarrow> getM (\<lambda>w. int (length
          (filter (\<lambda>m. tm_team_id m = team \<and> tm_deleted_at m = None) (team_members w))))
      | Hosts \<Rightarrow> getM (\<lambda>w. int (length
          (filter (\<lambda>h. h_team_id h = team \<and> h_deleted_at h = None) (host_bindings w))))
      | _ \<Rightarrow> durable_usage cal team d)"

section \<open>Plans\<close>

definition plans_con :: "quota_plan list \<Rightarrow> dberr option" where
  "plans_con rows =
     (if \<not> distinct (map q_id rows) then Some (UniqueViolation ''quota_plans_pkey'')
      else if \<not> distinct (map q_code rows) then Some (UniqueViolation ''ux_quota_plans_code'')
      else if 1 < length (filter q_is_default rows)
        then Some (UniqueViolation ''ux_quota_plans_single_default'')
      else None)"

definition limits_con :: "quota_limit list \<Rightarrow> dberr option" where
  "limits_con rows =
     (if \<not> distinct (map l_id rows) then Some (UniqueViolation ''quota_limits_pkey'')
      else if \<not> distinct (map (\<lambda>l. (l_quota_plan_id l, l_dimension l, l_period l)) rows)
        then Some (UniqueViolation ''ux_quota_limits_plan_dimension_period'')
      else None)"

definition put_plans :: "quota_plan list \<Rightarrow> world \<Rightarrow> world" where
  "put_plans rows w = w\<lparr>quota_plans := rows\<rparr>"

definition put_limits :: "quota_limit list \<Rightarrow> world \<Rightarrow> world" where
  "put_limits rows w = w\<lparr>quota_limits := rows\<rparr>"

definition update_plans_where :: "(quota_plan \<Rightarrow> bool) \<Rightarrow> (quota_plan \<Rightarrow> quota_plan) \<Rightarrow> (dberr, nat) dbm" where
  "update_plans_where p f w =
     exec_update_many plans_con quota_plans put_plans p (\<lambda>q. (f q)\<lparr>q_updated_at := sql_now w\<rparr>) w"

definition upsert_limit :: "uuid \<Rightarrow> quota_dimension \<Rightarrow> int \<Rightarrow> (anyhow, unit) dbm" where
  "upsert_limit plan d value =
     bindM now_utc (\<lambda>now.
     bindM (getM (\<lambda>w. find (\<lambda>l. l_quota_plan_id l = plan \<and> l_dimension l = dimension_str d)
       (quota_limits w))) (\<lambda>existing.
     (case existing of
        Some l \<Rightarrow>
          bindM (getM sql_now) (\<lambda>t.
          bindM (mapErr AnyDb (exec_update limits_con l_id quota_limits put_limits (l_id l)
            (\<lambda>r. r\<lparr>l_limit_value := value, l_updated_at := t\<rparr>))) (\<lambda>_. retM ()))
      | None \<Rightarrow>
          bindM now_v7 (\<lambda>i.
          bindM (mapErr AnyDb (exec_insert limits_con quota_limits put_limits
            \<lparr>l_id = i, l_quota_plan_id = plan, l_dimension = dimension_str d, l_limit_value = value,
             l_period = dimension_period d, l_created_at = now, l_updated_at = now\<rparr>)) (\<lambda>_. retM ())))))"

record create_plan_params =
  cq_code :: string
  cq_name :: string
  cq_description :: "string option"
  cq_limits :: "(quota_dimension \<times> int) list"

definition create_plan :: "create_plan_params \<Rightarrow> (anyhow, quota_plan) dbm" where
  "create_plan p =
     bindM now_utc (\<lambda>now.
     bindM now_v7 (\<lambda>i.
     bindM (mapErr AnyDb (exec_insert plans_con quota_plans put_plans
       \<lparr>q_id = i, q_code = cq_code p, q_name = cq_name p, q_description = cq_description p,
        q_is_default = False, q_enabled = True, q_created_at = now, q_updated_at = now\<rparr>)) (\<lambda>plan.
     bindM (forM (cq_limits p) (\<lambda>(d, v). upsert_limit (q_id plan) d v)) (\<lambda>_.
     retM plan))))"

record update_plan_params =
  uq_name :: "string option"
  uq_description :: "string option"
  uq_enabled :: "bool option"
  uq_limits :: "(quota_dimension \<times> int) list"

definition get_plan :: "world \<Rightarrow> uuid \<Rightarrow> quota_plan option" where
  "get_plan w i = find (\<lambda>q. q_id q = i) (quota_plans w)"

definition apply_plan_params :: "update_plan_params \<Rightarrow> quota_plan \<Rightarrow> quota_plan" where
  "apply_plan_params p q =
     q\<lparr>q_name := (case uq_name p of Some n \<Rightarrow> n | None \<Rightarrow> q_name q),
       q_description := (case uq_description p of Some x \<Rightarrow> Some x | None \<Rightarrow> q_description q),
       q_enabled := (case uq_enabled p of Some b \<Rightarrow> b | None \<Rightarrow> q_enabled q)\<rparr>"

text \<open>sea-orm sends no statement when no column is \<open>Set\<close>; the row is returned as it is.\<close>

definition update_plan :: "uuid \<Rightarrow> update_plan_params \<Rightarrow> (anyhow, quota_plan option) dbm" where
  "update_plan i p =
     bindM (getM (\<lambda>w. get_plan w i)) (\<lambda>found.
     (case found of
        None \<Rightarrow> retM None
      | Some q \<Rightarrow>
          bindM (getM sql_now) (\<lambda>t.
          bindM (if uq_name p = None \<and> uq_description p = None \<and> uq_enabled p = None then retM q
                 else mapErr AnyDb (exec_update plans_con q_id quota_plans put_plans (q_id q)
                   (\<lambda>r. (apply_plan_params p r)\<lparr>q_updated_at := t\<rparr>))) (\<lambda>plan.
          bindM (forM (uq_limits p) (\<lambda>(d, v). upsert_limit (q_id plan) d v)) (\<lambda>_.
          retM (Some plan))))))"

definition set_default_plan :: "uuid \<Rightarrow> (anyhow, unit) dbm" where
  "set_default_plan i =
     bindM (mapErr AnyDb (update_plans_where q_is_default (\<lambda>q. q\<lparr>q_is_default := False\<rparr>))) (\<lambda>_.
     bindM (mapErr AnyDb (update_plans_where (\<lambda>q. q_id q = i) (\<lambda>q. q\<lparr>q_is_default := True\<rparr>))) (\<lambda>_.
     retM ()))"

definition delete_limit :: "uuid \<Rightarrow> quota_dimension \<Rightarrow> (anyhow, unit) dbm" where
  "delete_limit plan d w =
     (Inr (), put_limits (filter (\<lambda>l. \<not> (l_quota_plan_id l = plan \<and> l_dimension l = dimension_str d))
        (quota_limits w)) w)"

definition list_plans :: "world \<Rightarrow> (quota_plan \<times> quota_limit list) list" where
  "list_plans w =
     map (\<lambda>q. (q, filter (\<lambda>l. l_quota_plan_id l = q_id q) (quota_limits w))) (quota_plans w)"

section \<open>Round trip of the dimensions\<close>

lemma all_dimensions_complete: "d \<in> set all_dimensions"
  by (cases d) (simp_all add: all_dimensions_def)

lemma parse_dimension_str [simp]: "parse_dimension (dimension_str d) = Some d"
  by (cases d) (simp_all add: parse_dimension_def all_dimensions_def)

lemma dimension_str_inject [simp]: "dimension_str a = dimension_str b \<longleftrightarrow> a = b"
  by (metis option.inject parse_dimension_str)

section \<open>The counters replay the log\<close>

definition counter_slot :: "usage_counter \<Rightarrow> uuid \<times> string \<times> time option" where
  "counter_slot c = (c_team_id c, c_dimension c, c_period_start c)"

lemma find_counter_slot: "find_counter w team dim start = find_row counter_slot (team, dim, start) (usage_counters w)"
  unfolding find_counter_def find_row_def counter_slot_def by (rule arg_cong2[where f = find]) auto

definition period_of :: "calendar \<Rightarrow> string \<Rightarrow> time \<Rightarrow> time option" where
  "period_of cal dim t =
     (case parse_dimension dim of Some d \<Rightarrow> fst (dimension_window cal d t) | None \<Rightarrow> None)"

definition deltas :: "calendar \<Rightarrow> world \<Rightarrow> uuid \<Rightarrow> string \<Rightarrow> time option \<Rightarrow> int list" where
  "deltas cal w team dim start =
     map k_delta_value (filter (\<lambda>e. k_team_id e = team \<and> k_dimension e = dim \<and>
       counted_kind (k_kind e) \<and> period_of cal dim (k_created_at e) = start) (quota_events w))"

definition replay :: "int list \<Rightarrow> int" where
  "replay ds = foldl (\<lambda>u d. max 0 (wrap_i64 (u + d))) 0 ds"

definition used :: "world \<Rightarrow> uuid \<Rightarrow> string \<Rightarrow> time option \<Rightarrow> int" where
  "used w team dim start =
     (case find_counter w team dim start of Some c \<Rightarrow> c_used_value c | None \<Rightarrow> 0)"

definition ledger :: "calendar \<Rightarrow> world \<Rightarrow> bool" where
  "ledger cal w \<longleftrightarrow>
     counters_con (usage_counters w) = None \<and>
     (\<forall>team dim start. used w team dim start = replay (deltas cal w team dim start))"

definition is_i64 :: "int \<Rightarrow> bool" where
  "is_i64 x \<longleftrightarrow> - (2 ^ 63) \<le> x \<and> x < 2 ^ 63"

lemma replay_snoc: "replay (ds @ [d]) = max 0 (wrap_i64 (replay ds + d))"
  by (simp add: replay_def)

lemma replay_nonneg: "0 \<le> replay ds"
  by (induction ds rule: rev_induct) (simp_all add: replay_def)

lemma counters_put [simp]: "usage_counters (put_counters rows w) = rows"
  by (simp add: put_counters_def)

interpretation ctr: stored_table c_id counters_con usage_counters put_counters
  by unfold_locales (simp_all add: counters_con_def split: if_splits)

lemma dimension_window_start: "fst (dimension_window cal d now) = period_of cal (dimension_str d) now"
  by (simp add: period_of_def)

text \<open>One delta reaches exactly one slot.\<close>

lemma apply_delta_Inr:
  assumes run: "apply_counter_delta cal team d delta now w = (Inr (), v)"
    and con: "counters_con (usage_counters w) = None" and i64: "is_i64 delta"
  shows "counters_con (usage_counters v) = None \<and> quota_events v = quota_events w \<and>
    used v t dim start = (if (t, dim, start) = (team, dimension_str d, period_of cal (dimension_str d) now)
      then max 0 (wrap_i64 (used w t dim start + delta)) else used w t dim start)"
proof -
  let ?s = "period_of cal (dimension_str d) now"
  let ?slot = "(team, dimension_str d, ?s)"
  obtain end_at where win: "dimension_window cal d now = (?s, end_at)"
    by (cases "dimension_window cal d now") (use dimension_window_start[of cal d now] in simp)
  show ?thesis
  proof (cases "find_counter w team (dimension_str d) ?s")
    case None
    from run win None obtain i where v: "usage_counters v = usage_counters w @
        [\<lparr>c_id = i, c_team_id = team, c_dimension = dimension_str d, c_used_value = max 0 delta,
          c_period_start = ?s, c_period_end = end_at, c_updated_at = now\<rparr>]"
      "quota_events v = quota_events w" "counters_con (usage_counters v) = None"
      by (auto simp: apply_counter_delta_def oper_Inr now_v7_def insert_counter_def ctr.insert_Inr put_counters_def)
    have "wrap_i64 delta = delta" using i64 by (simp add: is_i64_def wrap_i64_id)
    with v None show ?thesis
      by (auto simp: used_def find_counter_slot find_row_insert counter_slot_def split: option.split)
  next
    case (Some c)
    let ?f = "\<lambda>r. (r\<lparr>c_used_value := max 0 (wrap_i64 (c_used_value c + delta))\<rparr>)\<lparr>c_updated_at := sql_now w\<rparr>"
    from run win Some have v: "usage_counters v = update_where (\<lambda>r. c_id r = c_id c) ?f (usage_counters w)"
      "quota_events v = quota_events w" "counters_con (usage_counters v) = None"
      by (auto simp: apply_counter_delta_def oper_Inr update_counter_def ctr.update_Inr put_counters_def)
    have c: "find_row counter_slot ?slot (usage_counters w) = Some c"
      using Some by (simp add: find_counter_slot)
    note mem = find_row_mem[OF c]
    have same: "counter_slot r = ?slot \<and> r = c"
      if "find_row counter_slot k (usage_counters w) = Some r" "c_id r = c_id c" for k r
      using ctr.row_unique[OF con _ conjunct1[OF mem]] find_row_mem[OF that(1)] that(2) mem by auto
    have "find_counter v t dim start = map_option (\<lambda>r. if c_id r = c_id c then ?f r else r)
        (find_counter w t dim start)"
      unfolding find_counter_slot v(1) by (rule find_row_update) (simp add: counter_slot_def)
    note found = this
    show ?thesis
    proof (cases "(t, dim, start) = ?slot")
      case True
      with found Some v mem show ?thesis by (simp add: used_def)
    next
      case False
      have "c_id r \<noteq> c_id c" if r: "find_counter w t dim start = Some r" for r
      proof
        assume "c_id r = c_id c"
        with r have "counter_slot r = ?slot" using same by (simp add: find_counter_slot)
        moreover have "counter_slot r = (t, dim, start)"
          using find_row_mem r by (metis find_counter_slot)
        ultimately show False using False by simp
      qed
      with found have "find_counter v t dim start = find_counter w t dim start"
        by (cases "find_counter w t dim start") simp_all
      with v False show ?thesis by (auto simp: used_def)
    qed
  qed
qed

lemma event_deltas:
  assumes "quota_events v = quota_events w @ [new_quota_event i now key p]"
  shows "deltas cal v team dim start =
    (if counted_kind (re_kind p) \<and> (team, dim, start) =
        (re_team_id p, dimension_str (re_dimension p), period_of cal (dimension_str (re_dimension p)) now)
     then deltas cal w team dim start @ [re_delta_value p] else deltas cal w team dim start)"
  using assms by (auto simp: deltas_def new_quota_event_def)

lemma fold_event_counts:
  assumes "fold_event cal p now w = (Inr (), v)" and "counters_con (usage_counters w) = None"
    and "is_i64 (re_delta_value p)"
  shows "quota_events v = quota_events w \<and> used v team dim start =
    (if counted_kind (re_kind p) \<and> team = re_team_id p \<and> dim = dimension_str (re_dimension p) \<and>
        start = period_of cal dim now
     then max 0 (wrap_i64 (used w team dim start + re_delta_value p)) else used w team dim start)"
proof (cases "counted_kind (re_kind p)")
  case False
  with assms(1) show ?thesis by (simp add: fold_event_def retM_def)
next
  case True
  with assms(1) have "apply_counter_delta cal (re_team_id p) (re_dimension p) (re_delta_value p) now w = (Inr (), v)"
    by (simp add: fold_event_def)
  from apply_delta_Inr[OF this assms(2,3), of team dim start] True show ?thesis by auto
qed

text \<open>An event that was just appended is folded into its counter.\<close>

lemma fold_event_ledger:
  assumes run: "fold_event cal p now w = (Inr (), v)" and old: "ledger cal w0"
    and log: "quota_events w = quota_events w0 @ [new_quota_event i now key p]"
    and counters: "usage_counters w = usage_counters w0" and i64: "is_i64 (re_delta_value p)"
  shows "ledger cal v \<and> quota_events v = quota_events w"
proof (cases "counted_kind (re_kind p)")
  case False
  with run have "v = w" by (simp add: fold_event_def retM_def)
  with False old log counters show ?thesis
    by (simp add: ledger_def event_deltas[OF log] used_def find_counter_def)
next
  case True
  with run have delta: "apply_counter_delta cal (re_team_id p) (re_dimension p) (re_delta_value p) now w = (Inr (), v)"
    by (simp add: fold_event_def)
  have con: "counters_con (usage_counters w) = None" using old counters by (simp add: ledger_def)
  note step = apply_delta_Inr[OF delta con i64]
  have same: "used w t dim start = used w0 t dim start" for t dim start
    using counters by (simp add: used_def find_counter_def)
  have log': "quota_events v = quota_events w0 @ [new_quota_event i now key p]" using step log by simp
  show ?thesis
    unfolding ledger_def event_deltas[OF log']
    using step old True by (auto simp: same ledger_def replay_snoc)
qed

lemma new_event_Inr:
  assumes "insert_quota_event e w = (Inr x, v)"
  shows "quota_events v = quota_events w @ [e]" "usage_counters v = usage_counters w"
  using assms by (auto simp: insert_quota_event_def qev.insert_Inr put_quota_events_def)

lemma record_event_ledger:
  assumes "record_event cal p w = (Inr (), v)" and "ledger cal w" and "is_i64 (re_delta_value p)"
  shows "ledger cal v"
proof -
  from assms(1) obtain now i x u' where
    ins: "insert_quota_event (new_quota_event i now None p) (w\<lparr>clock_pos := Suc (clock_pos w),
      uuid_pos := Suc (uuid_pos w)\<rparr>) = (Inr x, u')" and
    fold: "fold_event cal p now u' = (Inr (), v)"
    by (auto simp: record_event_def oper_Inr now_utc_def now_v7_def)
  show ?thesis
    using fold_event_ledger[OF fold assms(2) _ _ assms(3)] new_event_Inr[OF ins] by simp
qed

definition once_start :: "world \<Rightarrow> world" where
  "once_start w = w\<lparr>sql_now := clock w (clock_pos w), clock_pos := clock_pos w + 2,
     uuid_pos := Suc (uuid_pos w)\<rparr>"

lemma once_start_tables [simp]:
  "quota_events (once_start w) = quota_events w" "usage_counters (once_start w) = usage_counters w"
  by (simp_all add: once_start_def)

lemma rollback_quota [simp]:
  "quota_events (rollback_to w v) = quota_events w" "usage_counters (rollback_to w v) = usage_counters w"
  by (simp_all add: rollback_to_def)

lemma record_once_unfold:
  "record_event_once cal key p w =
     (let now = clock w (Suc (clock_pos w));
          e = new_quota_event (uuids w (uuid_pos w)) now (Some key) p in
      case insert_quota_event e (once_start w) of
        (Inl x, v) \<Rightarrow>
          (if is_unique_violation (AnyDb x) then Inr False else Inl (AnyDb x), rollback_to w v)
      | (Inr _, v) \<Rightarrow>
          (case fold_event cal p now v of
             (Inl x, v') \<Rightarrow> (Inl x, rollback_to w v') | (Inr _, v') \<Rightarrow> (Inr True, v')))"
  by (auto simp: record_event_once_def db_transaction_def tryM_def mapErr_def bindM_def now_utc_def
      now_v7_def begin_tx_def retM_def failM_def once_start_def Let_def split: prod.splits sum.splits)

lemma record_once_cases:
  assumes "record_event_once cal key p w = (r, v)"
  obtains (kept) "r \<noteq> Inr True" "quota_events v = quota_events w" "usage_counters v = usage_counters w"
  | (recorded) now i x w1 where "r = Inr True"
      "insert_quota_event (new_quota_event i now (Some key) p) (once_start w) = (Inr x, w1)"
      "fold_event cal p now w1 = (Inr (), v)" "now = clock w (Suc (clock_pos w))" "i = uuids w (uuid_pos w)"
proof -
  let ?now = "clock w (Suc (clock_pos w))"
  let ?e = "new_quota_event (uuids w (uuid_pos w)) ?now (Some key) p"
  obtain y w1 where ins: "insert_quota_event ?e (once_start w) = (y, w1)"
    by (cases "insert_quota_event ?e (once_start w)")
  show thesis
  proof (cases y)
    case (Inl x)
    with assms ins show thesis
      by (intro kept) (auto simp: record_once_unfold Let_def split: if_splits)
  next
    case outer: (Inr x)
    obtain z w2 where fold: "fold_event cal p ?now w1 = (z, w2)" by (cases "fold_event cal p ?now w1")
    show thesis
    proof (cases z)
      case (Inl q)
      with assms ins outer fold show thesis by (intro kept) (auto simp: record_once_unfold Let_def)
    next
      case (Inr q)
      with assms ins outer fold show thesis
        by (intro recorded[of _ ?now x w1]) (auto simp: record_once_unfold Let_def)
    qed
  qed
qed

lemma record_once_ledger:
  assumes run: "record_event_once cal key p w = (r, v)" and old: "ledger cal w"
    and i64: "is_i64 (re_delta_value p)"
  shows "ledger cal v"
  using run
proof (cases rule: record_once_cases)
  case kept
  with old show ?thesis by (simp add: ledger_def used_def find_counter_def deltas_def)
next
  case (recorded now i x w1)
  show ?thesis
    using fold_event_ledger[OF recorded(3) old _ _ i64] new_event_Inr[OF recorded(2)] by simp
qed

text \<open>
  Everything the quota operations can do to the log and the counters, from an empty database on.
\<close>

inductive quota_run :: "calendar \<Rightarrow> world \<Rightarrow> bool" for cal where
  quota_start: "quota_events w = [] \<Longrightarrow> usage_counters w = [] \<Longrightarrow> quota_run cal w"
| quota_event: "quota_run cal w \<Longrightarrow> is_i64 (re_delta_value p) \<Longrightarrow>
    record_event cal p w = (Inr (), v) \<Longrightarrow> quota_run cal v"
| quota_once: "quota_run cal w \<Longrightarrow> is_i64 (re_delta_value p) \<Longrightarrow>
    record_event_once cal key p w = (r, v) \<Longrightarrow> quota_run cal v"

lemma quota_run_ledger: "quota_run cal w \<Longrightarrow> ledger cal w"
proof (induction rule: quota_run.induct)
  case (quota_start w)
  then show ?case
    by (simp add: ledger_def counters_con_def used_def find_counter_def deltas_def replay_def)
next
  case (quota_event w p v)
  then show ?case by (blast intro: record_event_ledger)
next
  case (quota_once w p key r v)
  then show ?case by (blast intro: record_once_ledger)
qed

lemma durable_usage_Inr:
  assumes "durable_usage cal team d w = (Inr n, v)"
  shows "n = used w team (dimension_str d) (period_of cal (dimension_str d) (clock w (clock_pos w)))"
proof -
  have start: "period_of cal (dimension_str d) (clock w (clock_pos w)) = (case dimension_period d of
      PeriodMonthly \<Rightarrow> Some (fst (current_period_window cal (clock w (clock_pos w)))) | PeriodNone \<Rightarrow> None)"
    by (simp add: period_of_def dimension_window_def split: quota_period.split)
  show ?thesis
    using assms unfolding start
    by (auto simp: durable_usage_def oper_Inr now_utc_def used_def find_counter_def split: quota_period.splits)
qed

text \<open>
  C15. The usage counters can be rebuilt from the log. In every state reached from an empty
  quota database by recording events (once or not, failed attempts of \<open>record_event_once\<close> included), the
  durable usage of a team in a dimension is exactly the replay of the logged deltas of that team,
  dimension and current period, clamped at zero after each, and it is never negative.
\<close>

theorem counters_replay_log:
  assumes "quota_run cal w" and "durable_usage cal team d w = (Inr n, v)"
  shows "n = replay (deltas cal w team (dimension_str d)
      (period_of cal (dimension_str d) (clock w (clock_pos w)))) \<and> 0 \<le> n"
  using quota_run_ledger[OF assms(1)] durable_usage_Inr[OF assms(2)] by (simp add: ledger_def replay_nonneg)

lemma known_key:
  assumes "key \<in> set (List.map_filter k_idempotency_key (quota_events w))"
  shows "fst (record_event_once cal key p w) = Inr False"
proof -
  let ?e = "new_quota_event (uuids w (uuid_pos w)) (clock w (Suc (clock_pos w))) (Some key) p"
  have "List.map_filter k_idempotency_key (quota_events w @ [?e]) =
      List.map_filter k_idempotency_key (quota_events w) @ [key]"
    by (induction "quota_events w") (simp_all add: List.map_filter_def new_quota_event_def)
  with assms have "\<exists>x. quota_events_con (quota_events w @ [?e]) = Some (UniqueViolation x)"
    by (simp add: quota_events_con_def)
  then obtain x where "insert_quota_event ?e (once_start w) = (Inl (UniqueViolation x), once_start w)"
    by (auto simp: insert_quota_event_def exec_insert_def)
  then show ?thesis by (simp add: record_once_unfold Let_def)
qed

text \<open>
  C16. Recording with an idempotency key writes and counts exactly once. When \<open>record_event_once\<close> answers
  \<open>True\<close> the log has grown by the one event with the key, and the usage counter of the event's team,
  dimension and period, and no other counter, has moved by its delta (clamped at zero). Every later call with
  the same key, whatever it carries and whatever was recorded in between, succeeds with \<open>False\<close> and leaves
  the log and the counters as they are.
\<close>

theorem record_event_once_counts_once:
  assumes "record_event_once cal key p w = (Inr True, v)"
    and "counters_con (usage_counters w) = None" and "is_i64 (re_delta_value p)"
    and "quota_events v' = quota_events v @ later" and "record_event_once cal key q v' = (r, x)"
  shows "quota_events v = quota_events w @
      [new_quota_event (uuids w (uuid_pos w)) (clock w (Suc (clock_pos w))) (Some key) p] \<and>
    used v team dim start =
      (if counted_kind (re_kind p) \<and> team = re_team_id p \<and> dim = dimension_str (re_dimension p) \<and>
          start = period_of cal dim (clock w (Suc (clock_pos w)))
       then max 0 (wrap_i64 (used w team dim start + re_delta_value p)) else used w team dim start) \<and>
    r = Inr False \<and> quota_events x = quota_events v' \<and> usage_counters x = usage_counters v'"
proof -
  let ?now = "clock w (Suc (clock_pos w))" and ?i = "uuids w (uuid_pos w)"
  obtain y w1 where ins: "insert_quota_event (new_quota_event ?i ?now (Some key) p) (once_start w) = (Inr y, w1)"
    and fold: "fold_event cal p ?now w1 = (Inr (), v)"
    using assms(1) by (cases rule: record_once_cases) auto
  note new = new_event_Inr[OF ins]
  have before: "used w1 team dim start = used w team dim start"
    using new by (simp add: used_def find_counter_def)
  have con: "counters_con (usage_counters w1) = None" using new assms(2) by simp
  note step = fold_event_counts[OF fold con assms(3), of team dim start, unfolded before]
  have log: "quota_events v = quota_events w @ [new_quota_event ?i ?now (Some key) p]" using step new by simp
  have "key \<in> set (List.map_filter k_idempotency_key (quota_events v'))"
    unfolding assms(4) log by (force simp: map_filter_def new_quota_event_def)
  from known_key[OF this, of cal q] assms(5) have no: "r = Inr False" by simp
  with assms(5) have "quota_events x = quota_events v' \<and> usage_counters x = usage_counters v'"
    by (cases rule: record_once_cases) simp_all
  with step log no show ?thesis by blast
qed

text \<open>
  The stored names of the dimensions round-trip: parsing the name of a dimension gives it
  back, and a text that parses is the name of what it parses to.
\<close>

theorem dimension_round_trip: "parse_dimension s = Some d \<longleftrightarrow> s = dimension_str d"
proof
  assume "parse_dimension s = Some d"
  then show "s = dimension_str d" by (auto simp: parse_dimension_def find_Some_iff)
qed simp

section \<open>The default plan\<close>

lemma plans_con_None:
  "plans_con rows = None \<longleftrightarrow> distinct (map q_id rows) \<and> distinct (map q_code rows) \<and>
   length (filter q_is_default rows) \<le> 1"
  by (auto simp: plans_con_def)

lemma one_by_key:
  assumes "distinct (map f xs)"
  shows "length (filter (\<lambda>x. f x = k) xs) \<le> 1"
proof -
  have "distinct (map f (filter (\<lambda>x. f x = k) xs))" using assms by (rule distinct_map_filter)
  moreover have "map f (filter (\<lambda>x. f x = k) xs) = replicate (length (filter (\<lambda>x. f x = k) xs)) k"
    by (rule replicate_eqI) auto
  moreover have "n \<le> 1" if "distinct (replicate n k)" for n using that by (cases n) auto
  ultimately show ?thesis by metis
qed

definition made_default :: "uuid \<Rightarrow> time \<Rightarrow> quota_plan \<Rightarrow> quota_plan" where
  "made_default i t q =
     (if q_id q = i then q\<lparr>q_is_default := True, q_updated_at := t\<rparr>
      else if q_is_default q then q\<lparr>q_is_default := False, q_updated_at := t\<rparr> else q)"

text \<open>
  Changing the default plan never fails on the index that allows one default: the old
  default is demoted before the new one is promoted. Afterwards the plan with the given id, if there
  is one, is the only default, and no other column of any plan but the time of its update changed.
\<close>

theorem set_default_plan_single:
  assumes "plans_con (quota_plans w) = None"
  shows "\<exists>v. set_default_plan i w = (Inr (), v) \<and>
    quota_plans v = map (made_default i (sql_now w)) (quota_plans w) \<and>
    plans_con (quota_plans v) = None \<and>
    (\<forall>q\<in>set (quota_plans v). q_is_default q \<longleftrightarrow> q_id q = i)"
proof -
  let ?t = "sql_now w"
  let ?off = "\<lambda>q. (q\<lparr>q_is_default := False\<rparr>)\<lparr>q_updated_at := ?t\<rparr>"
  let ?on = "\<lambda>q. (q\<lparr>q_is_default := True\<rparr>)\<lparr>q_updated_at := ?t\<rparr>"
  let ?rows1 = "update_where q_is_default ?off (quota_plans w)"
  let ?rows2 = "update_where (\<lambda>q. q_id q = i) ?on ?rows1"
  have ids: "map q_id ?rows1 = map q_id (quota_plans w)" "map q_code ?rows1 = map q_code (quota_plans w)"
    "map q_id ?rows2 = map q_id (quota_plans w)" "map q_code ?rows2 = map q_code (quota_plans w)"
    by (simp_all add: map_update_where)
  have none: "filter q_is_default ?rows1 = []"
    by (auto simp: filter_empty_conv update_where_def)
  have off: "\<not> q_is_default q" if "q \<in> set ?rows1" for q
    using that by (auto simp: set_update_where)
  have only: "q_is_default q \<longleftrightarrow> q_id q = i" if "q \<in> set ?rows2" for q
  proof -
    from that obtain x where x: "x \<in> set ?rows1" and q: "q = (if q_id x = i then ?on x else x)"
      unfolding set_update_where[of _ _ ?rows1] by blast
    show ?thesis unfolding q using off[OF x] by simp
  qed
  have "filter q_is_default ?rows2 = filter (\<lambda>q. q_id q = i) ?rows2"
    using only by (intro filter_cong) auto
  moreover have "distinct (map q_id ?rows2)" using assms ids by (simp add: plans_con_None)
  ultimately have con2: "plans_con ?rows2 = None"
    using assms ids one_by_key[of q_id ?rows2 i] by (simp add: plans_con_None)
  have con1: "plans_con ?rows1 = None" using assms ids none by (simp add: plans_con_None)
  let ?v = "put_plans ?rows2 (put_plans ?rows1 w)"
  have "set_default_plan i w = (Inr (), ?v)"
    using con1 con2
    by (simp add: set_default_plan_def update_plans_where_def exec_update_many_def Let_def bindM_def
        mapErr_def retM_def put_plans_def)
  moreover have "quota_plans ?v = map (made_default i ?t) (quota_plans w)"
    by (simp add: put_plans_def update_where_def made_default_def)
  ultimately show ?thesis using con2 only by (auto simp: put_plans_def)
qed

section \<open>Concrete runs\<close>

text \<open>A calendar of months of thirty days, enough to compute with.\<close>

definition plain_calendar :: calendar where
  "plain_calendar =
     \<lparr>cal_month = (\<lambda>t. (t div (360 * 86400000000000), nat (t div (30 * 86400000000000)) mod 12 + 1)),
      cal_start = (\<lambda>(y, m). (y * 360 + (int m - 1) * 30) * 86400000000000)\<rparr>"

definition sample_charge :: "int \<Rightarrow> record_event_params" where
  "sample_charge delta =
     \<lparr>re_team_id = 200, re_dimension = DeploymentsMonthly, re_kind = QConsume, re_delta_value = delta,
      re_resource_type = None, re_resource_id = None, re_metadata = JObj []\<rparr>"

definition charged_world :: world where
  "charged_world = snd (record_event plain_calendar (sample_charge 3) (sample_world [] []))"

definition sample_key :: idem_key where
  "sample_key = IdemKey ''ssr-process'' 5 None"

definition once_world :: world where
  "once_world = snd (record_event_once plain_calendar sample_key (sample_charge (-1)) charged_world)"

lemma charged_run: "record_event plain_calendar (sample_charge 3) (sample_world [] []) = (Inr (), charged_world)"
proof -
  have "fst (record_event plain_calendar (sample_charge 3) (sample_world [] [])) = Inr ()" by code_simp
  then show ?thesis by (metis charged_world_def prod.collapse)
qed

lemma once_run: "record_event_once plain_calendar sample_key (sample_charge (-1)) charged_world = (Inr True, once_world)"
proof -
  have "fst (record_event_once plain_calendar sample_key (sample_charge (-1)) charged_world) = Inr True" by code_simp
  then show ?thesis by (metis once_world_def prod.collapse)
qed

lemma once_world_reached: "quota_run plain_calendar once_world"
proof -
  have "quota_run plain_calendar (sample_world [] [])" by (rule quota_start) simp_all
  then have "quota_run plain_calendar charged_world"
    by (rule quota_event[OF _ _ charged_run]) (simp add: is_i64_def sample_charge_def)
  then show ?thesis
    by (rule quota_once[OF _ _ once_run]) (simp add: is_i64_def sample_charge_def)
qed

theorem counters_replay_log_witness:
  "fst (durable_usage plain_calendar 200 DeploymentsMonthly once_world) = Inr 2 \<and>
   replay (deltas plain_calendar once_world 200 ''deployments.monthly''
     (period_of plain_calendar ''deployments.monthly'' (clock once_world (clock_pos once_world)))) = 2"
proof -
  have use: "fst (durable_usage plain_calendar 200 DeploymentsMonthly once_world) = Inr 2" by code_simp
  then obtain v where "durable_usage plain_calendar 200 DeploymentsMonthly once_world = (Inr 2, v)"
    by (cases "durable_usage plain_calendar 200 DeploymentsMonthly once_world") auto
  from counters_replay_log[OF once_world_reached this] use show ?thesis by simp
qed

theorem record_event_once_counts_once_witness:
  "map k_delta_value (quota_events once_world) = [3, -1] \<and>
   used once_world 200 ''deployments.monthly''
     (period_of plain_calendar ''deployments.monthly'' (clock charged_world (Suc (clock_pos charged_world)))) = 2 \<and>
   fst (record_event_once plain_calendar sample_key (sample_charge 9) once_world) = Inr False"
proof -
  let ?start = "period_of plain_calendar ''deployments.monthly'' (clock charged_world (Suc (clock_pos charged_world)))"
  obtain r x where again: "record_event_once plain_calendar sample_key (sample_charge 9) once_world = (r, x)"
    by (cases "record_event_once plain_calendar sample_key (sample_charge 9) once_world")
  have con: "counters_con (usage_counters charged_world) = None"
    and log: "map k_delta_value (quota_events charged_world) = [3]"
    and use: "used charged_world 200 ''deployments.monthly'' ?start = 3"
    by code_simp+
  from record_event_once_counts_once[OF once_run con _ _ again, of "[]" 200 "''deployments.monthly''" ?start]
  show ?thesis
    using again log use by (simp add: sample_charge_def is_i64_def new_quota_event_def wrap_i64_id counted_kind_def)
qed

definition two_plans :: world where
  "two_plans = (sample_world [] [])\<lparr>quota_plans :=
     [\<lparr>q_id = 1, q_code = ''free'', q_name = ''Free'', q_description = None, q_is_default = True,
       q_enabled = True, q_created_at = 0, q_updated_at = 0\<rparr>,
      \<lparr>q_id = 2, q_code = ''pro'', q_name = ''Pro'', q_description = None, q_is_default = False,
       q_enabled = True, q_created_at = 0, q_updated_at = 0\<rparr>]\<rparr>"

theorem set_default_plan_single_witness:
  "\<exists>v. set_default_plan 2 two_plans = (Inr (), v) \<and> map q_is_default (quota_plans v) = [False, True]"
proof -
  have "plans_con (quota_plans two_plans) = None" by (simp add: two_plans_def plans_con_None)
  from set_default_plan_single[OF this, of 2] show ?thesis
    by (auto simp: two_plans_def made_default_def)
qed

end
