(* ===== verification/SsrLeases.thy ===== *)
theory SsrLeases
  imports Quotas
begin

text \<open>
  Leases of SSR processes (\<open>domain/ssr_leases.rs\<close>): a Node acquires a lease before it runs a
  process of an SSR deployment, renews it while the process runs and releases it. Leases are bounded by
  the process quota of the team; runtime is charged by the hour.
\<close>

section \<open>Operations\<close>

definition lease_ttl :: int where
  "lease_ttl = 90 * 1000000000"

definition hour_block :: int where
  "hour_block = 3600 * 1000000000"

datatype lease_error =
    LeaseNotAssigned | LeaseProcessQuota | LeaseHourQuota | LeaseNotFound | LeaseWrongNode
  | LeaseDb anyhow

fun lease_error_text :: "lease_error \<Rightarrow> string" where
  "lease_error_text LeaseNotAssigned = ''deployment is not an SSR Serve assignment for this node''"
| "lease_error_text LeaseProcessQuota = ''SSR process quota exceeded''"
| "lease_error_text LeaseHourQuota = ''SSR monthly hour quota exceeded''"
| "lease_error_text LeaseNotFound = ''SSR lease not found''"
| "lease_error_text LeaseWrongNode = ''SSR lease belongs to another node''"
| "lease_error_text (LeaseDb e) = ''database error''"

abbreviation lease_db :: "dberr \<Rightarrow> lease_error" where
  "lease_db e \<equiv> LeaseDb (AnyDb e)"

text \<open>\<open>OffsetDateTime::unix_timestamp\<close>: whole seconds, rounded down.\<close>

definition unix_timestamp :: "time \<Rightarrow> int" where
  "unix_timestamp t = t div 1000000000"

definition lease_event ::
  "quota_dimension \<Rightarrow> quota_event_kind \<Rightarrow> int \<Rightarrow> json \<Rightarrow> ssr_lease \<Rightarrow> record_event_params" where
  "lease_event d kind delta metadata x =
     \<lparr>re_team_id = x_team_id x, re_dimension = d, re_kind = kind, re_delta_value = delta,
      re_resource_type = Some ''ssr_process_lease'', re_resource_id = Some (x_id x),
      re_metadata = metadata\<rparr>"

definition record_lease_event ::
  "calendar \<Rightarrow> idem_key \<Rightarrow> record_event_params \<Rightarrow> (lease_error, unit) dbm" where
  "record_lease_event cal key p =
     bindM (mapErr LeaseDb (record_event_once cal key p)) (\<lambda>_. retM ())"

definition record_block :: "calendar \<Rightarrow> ssr_lease \<Rightarrow> time \<Rightarrow> (lease_error, unit) dbm" where
  "record_block cal x now =
     record_lease_event cal (IdemKey ''ssr-hour'' (x_id x) (Some (unix_timestamp (x_hour_block_start x))))
       (lease_event SsrHoursMonthly QConsume 1
         (JObj [(''hour_block_start'', JTime (x_hour_block_start x)), (''at'', JTime now)]) x)"

definition release_process_event :: "calendar \<Rightarrow> ssr_lease \<Rightarrow> (lease_error, unit) dbm" where
  "release_process_event cal x =
     record_lease_event cal (IdemKey ''ssr-process-release'' (x_id x) None)
       (lease_event SsrProcesses QRelease (-1) (JObj []) x)"

definition record_process_event :: "calendar \<Rightarrow> ssr_lease \<Rightarrow> (lease_error, unit) dbm" where
  "record_process_event cal x =
     record_lease_event cal (IdemKey ''ssr-process'' (x_id x) None)
       (lease_event SsrProcesses QConsume 1 (JObj []) x)"

definition release_block_event :: "calendar \<Rightarrow> ssr_lease \<Rightarrow> (lease_error, unit) dbm" where
  "release_block_event cal x =
     record_lease_event cal
       (IdemKey ''ssr-hour-release'' (x_id x) (Some (unix_timestamp (x_hour_block_start x))))
       (lease_event SsrHoursMonthly QRelease (-1) (JObj []) x)"

definition may_run :: "uuid \<Rightarrow> deployment \<Rightarrow> bool" where
  "may_run nid d \<longleftrightarrow>
     d_runtime_kind d = Ssr \<and> d_serve_node_id d = Some nid \<and> d_build_status d = BReady \<and>
     d_release_status d \<noteq> RRejected"

definition held :: "uuid \<Rightarrow> uuid \<Rightarrow> ssr_lease \<Rightarrow> bool" where
  "held did nid x \<longleftrightarrow> x_deployment_id x = did \<and> x_node_id x = nid \<and> x_released_at x = None"

definition live_leases :: "world \<Rightarrow> uuid \<Rightarrow> time \<Rightarrow> nat" where
  "live_leases w team now =
     length (filter (\<lambda>x. x_team_id x = team \<and> x_released_at x = None \<and> now < x_expires_at x) (leases w))"

definition live_team :: "world \<Rightarrow> uuid \<Rightarrow> team option" where
  "live_team w i = find (\<lambda>t. t_id t = i \<and> t_deleted_at t = None) (teams w)"

definition new_lease :: "uuid \<Rightarrow> uuid \<Rightarrow> uuid \<Rightarrow> uuid \<Rightarrow> time \<Rightarrow> ssr_lease" where
  "new_lease i did team nid now =
     \<lparr>x_id = i, x_deployment_id = did, x_team_id = team, x_node_id = nid, x_started_at = now,
      x_renewed_at = now, x_expires_at = now + lease_ttl, x_hour_block_start = now,
      x_released_at = None\<rparr>"

definition limit_reached :: "resolved_quota \<Rightarrow> quota_dimension \<Rightarrow> int \<Rightarrow> bool" where
  "limit_reached r d usage \<longleftrightarrow>
     (case limit_for r d of Some limit \<Rightarrow> limit \<le> usage | None \<Rightarrow> False)"

text \<open>
  Inside its transaction \<open>acquire\<close> releases an expired lease of the pair, and either finds a lease that
  is still held or creates one; it returns the expired lease and whether the lease is new, since the
  quota events follow after the commit.
\<close>

definition take_expired :: "uuid \<Rightarrow> uuid \<Rightarrow> time \<Rightarrow> (lease_error, ssr_lease option) dbm" where
  "take_expired did nid now =
     bindM (getM (\<lambda>w. find (\<lambda>x. held did nid x \<and> x_expires_at x \<le> now) (leases w))) (\<lambda>expired.
     (case expired of
        None \<Rightarrow> retM None
      | Some x \<Rightarrow>
          bindM (mapErr lease_db (update_lease (x_id x) (\<lambda>r. r\<lparr>x_released_at := Some now\<rparr>))) (\<lambda>_.
          retM (Some x))))"

definition create_lease ::
  "calendar \<Rightarrow> deployment \<Rightarrow> uuid \<Rightarrow> time \<Rightarrow> (lease_error, ssr_lease) dbm" where
  "create_lease cal d nid now =
     bindM (getM (\<lambda>w. live_team w (d_team_id d))) (\<lambda>found.
     bindM (okOr LeaseNotAssigned found) (\<lambda>t.
     bindM (mapErr LeaseDb (resolve_team_quota t)) (\<lambda>resolved.
     bindM (getM (\<lambda>w. live_leases w (t_id t) now)) (\<lambda>count.
     if limit_reached resolved SsrProcesses (int count) then failM LeaseProcessQuota
     else
       bindM (mapErr LeaseDb (effective_usage cal (t_id t) SsrHoursMonthly)) (\<lambda>hours.
       if limit_reached resolved SsrHoursMonthly hours then failM LeaseHourQuota
       else
         bindM now_v7 (\<lambda>i.
         mapErr lease_db (insert_lease (new_lease i (d_id d) (t_id t) nid now))))))))"

definition acquire_body ::
  "calendar \<Rightarrow> uuid \<Rightarrow> uuid \<Rightarrow> time \<Rightarrow> (lease_error, ssr_lease option \<times> ssr_lease \<times> bool) dbm" where
  "acquire_body cal did nid now =
     bindM (getM (\<lambda>w. find (\<lambda>d. d_id d = did \<and> d_deleted_at d = None) (deployments w))) (\<lambda>found.
     bindM (okOr LeaseNotAssigned found) (\<lambda>d.
     if \<not> may_run nid d then failM LeaseNotAssigned
     else
       bindM (take_expired did nid now) (\<lambda>expired.
       bindM (getM (\<lambda>w. find (held did nid) (leases w))) (\<lambda>existing.
       (case existing of
          Some x \<Rightarrow> retM (expired, x, False)
        | None \<Rightarrow>
            bindM (create_lease cal d nid now) (\<lambda>x. retM (expired, x, True)))))))"

definition acquire :: "calendar \<Rightarrow> uuid \<Rightarrow> uuid \<Rightarrow> time \<Rightarrow> (lease_error, ssr_lease) dbm" where
  "acquire cal did nid now =
     bindM (db_transaction (bindM (acquire_body cal did nid now) (\<lambda>a. retM (True, a))))
       (\<lambda>(expired, x, is_new).
     if \<not> is_new then retM x
     else
       bindM (case expired of Some e \<Rightarrow> release_process_event cal e | None \<Rightarrow> retM ()) (\<lambda>_.
       bindM (record_process_event cal x) (\<lambda>_.
       bindM (record_block cal x now) (\<lambda>_.
       retM x))))"

definition next_block ::
  "calendar \<Rightarrow> uuid \<Rightarrow> ssr_lease \<Rightarrow> time \<Rightarrow> (lease_error, time option) dbm" where
  "next_block cal did x now =
     (if x_hour_block_start x + hour_block \<le> now then
        bindM (getM (\<lambda>w. find (\<lambda>d. d_id d = did \<and> d_deleted_at d = None) (deployments w))) (\<lambda>found.
        bindM (okOr LeaseNotFound found) (\<lambda>d.
        bindM (getM (\<lambda>w. live_team w (d_team_id d))) (\<lambda>found.
        bindM (okOr LeaseNotFound found) (\<lambda>t.
        bindM (mapErr LeaseDb (resolve_team_quota t)) (\<lambda>resolved.
        bindM (mapErr LeaseDb (effective_usage cal (t_id t) SsrHoursMonthly)) (\<lambda>hours.
        if limit_reached resolved SsrHoursMonthly hours then failM LeaseHourQuota
        else retM (Some (x_hour_block_start x + hour_block))))))))
      else retM None)"

definition lease_of :: "world \<Rightarrow> uuid \<Rightarrow> uuid \<Rightarrow> ssr_lease option" where
  "lease_of w lid did = find (\<lambda>x. x_id x = lid \<and> x_deployment_id x = did) (leases w)"

definition renewed :: "time \<Rightarrow> time option \<Rightarrow> ssr_lease \<Rightarrow> ssr_lease" where
  "renewed now block x =
     x\<lparr>x_renewed_at := now, x_expires_at := now + lease_ttl,
       x_hour_block_start := (case block of Some b \<Rightarrow> b | None \<Rightarrow> x_hour_block_start x)\<rparr>"

definition renew_body ::
  "calendar \<Rightarrow> uuid \<Rightarrow> uuid \<Rightarrow> uuid \<Rightarrow> time \<Rightarrow> (lease_error, ssr_lease \<times> bool) dbm" where
  "renew_body cal lid did nid now =
     bindM (getM (\<lambda>w. lease_of w lid did)) (\<lambda>found.
     bindM (okOr LeaseNotFound found) (\<lambda>x.
     if x_node_id x \<noteq> nid then failM LeaseWrongNode
     else if x_released_at x \<noteq> None \<or> x_expires_at x \<le> now then failM LeaseNotFound
     else
       bindM (next_block cal did x now) (\<lambda>block.
       bindM (mapErr lease_db (update_lease (x_id x) (renewed now block))) (\<lambda>y.
       retM (y, block \<noteq> None)))))"

definition renew ::
  "calendar \<Rightarrow> uuid \<Rightarrow> uuid \<Rightarrow> uuid \<Rightarrow> time \<Rightarrow> (lease_error, ssr_lease) dbm" where
  "renew cal lid did nid now =
     bindM (db_transaction (bindM (renew_body cal lid did nid now) (\<lambda>a. retM (True, a)))) (\<lambda>(x, charged).
     bindM (if charged then record_block cal x now else retM ()) (\<lambda>_.
     retM x))"

definition release_body ::
  "uuid \<Rightarrow> uuid \<Rightarrow> uuid \<Rightarrow> time \<Rightarrow> (lease_error, bool \<times> ssr_lease option) dbm" where
  "release_body lid did nid now =
     bindM (getM (\<lambda>w. lease_of w lid did)) (\<lambda>found.
     (case found of
        None \<Rightarrow> retM (False, None)
      | Some x \<Rightarrow>
          if x_node_id x \<noteq> nid then failM LeaseWrongNode
          else if x_released_at x \<noteq> None then retM (True, None)
          else
            bindM (mapErr lease_db (update_lease (x_id x) (\<lambda>r. r\<lparr>x_released_at := Some now\<rparr>))) (\<lambda>_.
            retM (True, Some x))))"

definition release_lease ::
  "calendar \<Rightarrow> uuid \<Rightarrow> uuid \<Rightarrow> uuid \<Rightarrow> time \<Rightarrow> (lease_error, bool) dbm" where
  "release_lease cal lid did nid now =
     bindM (db_transaction (release_body lid did nid now)) (\<lambda>released.
     (case released of
        None \<Rightarrow> retM False
      | Some x \<Rightarrow>
          bindM (release_process_event cal x) (\<lambda>_.
          bindM (if now < x_hour_block_start x + hour_block then release_block_event cal x else retM ())
            (\<lambda>_.
          retM True))))"

text \<open>Expired leases are released one by one; an error of one does not stop the others.\<close>

fun release_each :: "calendar \<Rightarrow> time \<Rightarrow> ssr_lease list \<Rightarrow> world \<Rightarrow> nat \<times> world" where
  "release_each cal now [] w = (0, w)"
| "release_each cal now (x # xs) w =
     (case release_lease cal (x_id x) (x_deployment_id x) (x_node_id x) now w of
        (r, v) \<Rightarrow>
          (case release_each cal now xs v of
             (n, t) \<Rightarrow> ((case r of Inr _ \<Rightarrow> Suc n | Inl _ \<Rightarrow> n), t)))"

definition release_expired :: "calendar \<Rightarrow> time \<Rightarrow> (anyhow, nat) dbm" where
  "release_expired cal now w =
     (case release_each cal now
         (filter (\<lambda>x. x_released_at x = None \<and> x_expires_at x \<le> now) (leases w)) w of
        (n, v) \<Rightarrow> (Inr n, v))"

section \<open>What the quota events leave alone\<close>

definition quota_side :: "world \<Rightarrow> world" where
  "quota_side w = w\<lparr>quota_events := [], usage_counters := [], clock_pos := 0, uuid_pos := 0, dice_pos := 0,
     sql_now := 0\<rparr>"

definition only_quota :: "world \<Rightarrow> world \<Rightarrow> bool" where
  "only_quota w v \<longleftrightarrow> quota_side v = quota_side w"

interpretation oq: run_relation only_quota
  by unfold_locales (simp_all add: only_quota_def)

lemma only_quotaD:
  assumes "only_quota w v"
  shows "leases v = leases w" "deployments v = deployments w" "teams v = teams w"
    "quota_plans v = quota_plans w" "quota_limits v = quota_limits w" "team_groups v = team_groups w"
proof -
  have side: "quota_side v = quota_side w" using assms by (simp add: only_quota_def)
  show "leases v = leases w" "deployments v = deployments w" "teams v = teams w"
    "quota_plans v = quota_plans w" "quota_limits v = quota_limits w" "team_groups v = team_groups w"
    using side[THEN arg_cong, of leases] side[THEN arg_cong, of deployments] side[THEN arg_cong, of teams]
      side[THEN arg_cong, of quota_plans] side[THEN arg_cong, of quota_limits]
      side[THEN arg_cong, of team_groups]
    by (simp_all add: quota_side_def)
qed

lemma quota_statements:
  "runs only_quota now_utc" "runs only_quota now_v7" "runs only_quota (update_counter i f)"
  "runs only_quota (insert_counter c)" "runs only_quota (insert_quota_event e)"
  by (auto simp: runs_def only_quota_def quota_side_def now_utc_def now_v7_def update_counter_def
      insert_counter_def insert_quota_event_def exec_update_def exec_insert_def Let_def
      put_counters_def put_quota_events_def split: option.splits)

lemma fold_event_only: "runs only_quota (fold_event cal p now)"
  unfolding fold_event_def apply_counter_delta_def Let_def
  by (intro oq.rules quota_statements)

lemma only_quota_rollback: "only_quota w v \<Longrightarrow> only_quota w (rollback_to w v)"
  by (simp add: only_quota_def quota_side_def rollback_to_def)

lemma only_quota_start: "only_quota (once_start w) v \<Longrightarrow> only_quota w v"
  by (simp add: only_quota_def quota_side_def once_start_def)

lemma record_once_only: "runs only_quota (record_event_once cal key p)"
proof (rule runsI)
  fix s r t
  assume run: "record_event_once cal key p s = (r, t)"
  let ?now = "clock s (Suc (clock_pos s))"
  let ?e = "new_quota_event (uuids s (uuid_pos s)) ?now (Some key) p"
  obtain y v where ins: "insert_quota_event ?e (once_start s) = (y, v)"
    by (cases "insert_quota_event ?e (once_start s)")
  have v: "only_quota s v" by (rule only_quota_start[OF runsD[OF quota_statements(5) ins]])
  obtain z x where fold: "fold_event cal p ?now v = (z, x)" by (cases "fold_event cal p ?now v")
  have x: "only_quota s x" using oq.join[OF v runsD[OF fold_event_only fold]] .
  from run ins fold v x only_quota_rollback show "only_quota s t"
    by (auto simp: record_once_unfold Let_def split: sum.splits)
qed

lemma lease_events_only:
  "runs only_quota (record_block cal x now)" "runs only_quota (release_process_event cal x)"
  "runs only_quota (record_process_event cal x)" "runs only_quota (release_block_event cal x)"
  unfolding record_block_def release_process_event_def record_process_event_def release_block_event_def
    record_lease_event_def
  by (intro oq.rules record_once_only)+

section \<open>Acquiring\<close>

definition expire_pair :: "uuid \<Rightarrow> uuid \<Rightarrow> time \<Rightarrow> ssr_lease list \<Rightarrow> ssr_lease list" where
  "expire_pair did nid now =
     map (\<lambda>x. if held did nid x \<and> x_expires_at x \<le> now then x\<lparr>x_released_at := Some now\<rparr> else x)"

lemma held_unique:
  assumes "leases_con xs = None" "x \<in> set xs" "y \<in> set xs" "held did nid x" "held did nid y"
  shows "x = y"
proof -
  let ?open = "filter (\<lambda>x. x_released_at x = None) xs"
  have "inj_on (\<lambda>x. (x_deployment_id x, x_node_id x)) (set ?open)"
    using assms(1) by (simp add: leases_con_None distinct_map)
  moreover have "x \<in> set ?open" "y \<in> set ?open" using assms by (auto simp: held_def)
  ultimately show ?thesis using assms(4,5) by (auto simp: held_def inj_on_def)
qed

lemma take_expired_Inr:
  assumes run: "take_expired did nid now w = (Inr e, v)" and con: "leases_con (leases w) = None"
  shows "v = put_leases (expire_pair did nid now (leases w)) w" and "leases_con (leases v) = None"
proof -
  have "v = put_leases (expire_pair did nid now (leases w)) w \<and> leases_con (leases v) = None"
  proof (cases "find (\<lambda>x. held did nid x \<and> x_expires_at x \<le> now) (leases w)")
    case None
    then have "expire_pair did nid now (leases w) = leases w"
      unfolding expire_pair_def find_None_iff by (intro map_idI) auto
    with run None con show ?thesis by (auto simp: take_expired_def oper_Inr put_leases_def)
  next
    case (Some x)
    then have x: "x \<in> set (leases w)" "held did nid x" "x_expires_at x \<le> now"
      by (auto simp: find_Some_iff in_set_conv_nth)
    have "x_id y = x_id x \<longleftrightarrow> held did nid y \<and> x_expires_at y \<le> now" if "y \<in> set (leases w)" for y
      using held_unique[OF con that x(1) _ x(2)] lea.row_unique[OF con that x(1)] x by auto
    then have "update_where (\<lambda>r. x_id r = x_id x) (\<lambda>r. r\<lparr>x_released_at := Some now\<rparr>) (leases w) =
        expire_pair did nid now (leases w)"
      unfolding update_where_def expire_pair_def by (intro map_cong) simp_all
    with run Some show ?thesis
      by (auto simp: take_expired_def oper_Inr update_lease_def lea.update_Inr)
  qed
  then show "v = put_leases (expire_pair did nid now (leases w)) w" "leases_con (leases v) = None" by blast+
qed

lemma expire_pair_live:
  assumes "held did nid x" and "x \<in> set (expire_pair did nid now xs)"
  shows "x \<in> set xs \<and> now < x_expires_at x"
proof -
  from assms(2) obtain y where y: "y \<in> set xs" and
    x: "x = (if held did nid y \<and> x_expires_at y \<le> now then y\<lparr>x_released_at := Some now\<rparr> else y)"
    unfolding expire_pair_def set_map by (elim imageE)
  show ?thesis
  proof (cases "held did nid y \<and> x_expires_at y \<le> now")
    case True
    with x have "x_released_at x = Some now" by simp
    with assms(1) show ?thesis by (simp add: held_def)
  next
    case False
    with x have "x = y" by (simp only: if_False)
    with y False assms(1) show ?thesis by simp
  qed
qed

lemma live_after_expiry:
  "live_leases (put_leases (expire_pair did nid now (leases w)) w) team now = live_leases w team now"
proof -
  have "length (filter (\<lambda>x. x_team_id x = team \<and> x_released_at x = None \<and> now < x_expires_at x)
      (expire_pair did nid now xs)) =
    length (filter (\<lambda>x. x_team_id x = team \<and> x_released_at x = None \<and> now < x_expires_at x) xs)" for xs
    by (induction xs) (auto simp: expire_pair_def held_def)
  then show ?thesis by (simp add: live_leases_def)
qed

lemma resolve_same:
  "resolve_team_quota t w = (r, v) \<Longrightarrow> v = w"
  by (auto simp: resolve_team_quota_def bindM_def getM_def liftR_def failM_def retM_def
      split: sum.splits prod.splits)

lemma resolve_cong:
  assumes "quota_plans v = quota_plans w" "quota_limits v = quota_limits w" "team_groups v = team_groups w"
  shows "fst (resolve_team_quota t v) = fst (resolve_team_quota t w)"
  using assms
  by (auto simp: resolve_team_quota_def resolve_plan_def plan_by_id_def group_plan_def default_plan_def
      bindM_def getM_def liftR_def failM_def retM_def split: sum.splits prod.splits option.splits)

lemma usage_only: "runs only_quota (effective_usage cal team d)"
proof -
  have "runs only_quota (durable_usage cal team d)"
    unfolding durable_usage_def
    by (cases "dimension_period d") (simp_all, (intro oq.rules quota_statements)+)
  then show ?thesis
    unfolding effective_usage_def by (cases d) (simp_all, (intro oq.rules)+)
qed

text \<open>The hours of the month on the books of a team at a time.\<close>

definition hours_used :: "calendar \<Rightarrow> world \<Rightarrow> uuid \<Rightarrow> time \<Rightarrow> int" where
  "hours_used cal w team t = used w team ''ssr_hours.monthly'' (period_of cal ''ssr_hours.monthly'' t)"

lemma create_lease_Inr:
  assumes run: "create_lease cal d nid now w = (Inr x, v)"
  shows "\<exists>t q. live_team w (d_team_id d) = Some t \<and> fst (resolve_team_quota t w) = Inr q \<and>
    \<not> limit_reached q SsrProcesses (int (live_leases w (t_id t) now)) \<and>
    \<not> limit_reached q SsrHoursMonthly (hours_used cal w (t_id t) (clock w (clock_pos w))) \<and>
    x = new_lease (x_id x) (d_id d) (t_id t) nid now \<and> t_id t = d_team_id d \<and>
    leases v = leases w @ [x] \<and> leases_con (leases v) = None"
proof -
  from run obtain t q w1 h w2 i w3 where
    t: "live_team w (d_team_id d) = Some t" and q: "resolve_team_quota t w = (Inr q, w1)" and
    below: "\<not> limit_reached q SsrProcesses (int (live_leases w1 (t_id t) now))" and
    hours: "effective_usage cal (t_id t) SsrHoursMonthly w1 = (Inr h, w2)" and
    within: "\<not> limit_reached q SsrHoursMonthly h" and
    i: "(now_v7 :: (lease_error, uuid) dbm) w2 = (Inr i, w3)" and
    ins: "insert_lease (new_lease i (d_id d) (t_id t) nid now) w3 = (Inr x, v)"
    by (auto simp: create_lease_def oper_Inr split: if_splits)
  have w1: "w1 = w" by (rule resolve_same[OF q])
  have "only_quota w w3"
    using oq.join[OF runsD[OF usage_only hours] runsD[OF quota_statements(2) i]] w1 by simp
  from only_quotaD(1)[OF this] ins have "x = new_lease i (d_id d) (t_id t) nid now"
    "leases v = leases w @ [x]" "leases_con (leases v) = None"
    by (auto simp: insert_lease_def lea.insert_Inr)
  moreover have "t_id t = d_team_id d" using t by (auto simp: live_team_def find_Some_iff)
  moreover have "h = hours_used cal w (t_id t) (clock w (clock_pos w))"
    using durable_usage_Inr[of cal "t_id t" SsrHoursMonthly w h w2] hours
    by (simp add: w1 effective_usage_def hours_used_def)
  ultimately show ?thesis using t q below within w1 by (intro exI[of _ t] exI[of _ q]) (auto simp: new_lease_def)
qed

text \<open>The transaction of \<open>acquire\<close>: the rows it leaves.\<close>

lemma acquire_body_Inr:
  assumes run: "acquire_body cal did nid now w = (Inr (e, x, is_new), v)"
    and con: "leases_con (leases w) = None"
  shows "\<exists>d. find (\<lambda>d. d_id d = did \<and> d_deleted_at d = None) (deployments w) = Some d \<and> may_run nid d \<and>
    leases_con (leases v) = None \<and>
    (if is_new then
       leases v = expire_pair did nid now (leases w) @ [x] \<and>
       x = new_lease (x_id x) did (d_team_id d) nid now \<and>
       (\<exists>t q. live_team w (d_team_id d) = Some t \<and> fst (resolve_team_quota t w) = Inr q \<and>
          \<not> limit_reached q SsrProcesses (int (live_leases w (d_team_id d) now)) \<and>
          \<not> limit_reached q SsrHoursMonthly (hours_used cal w (d_team_id d) (clock w (clock_pos w))))
     else v = w \<and> x \<in> set (leases w) \<and> held did nid x \<and> now < x_expires_at x)"
proof -
  let ?ls = "expire_pair did nid now (leases w)"
  from run obtain d w1 where
    found: "find (\<lambda>d. d_id d = did \<and> d_deleted_at d = None) (deployments w) = Some d" and
    may: "may_run nid d" and expired: "take_expired did nid now w = (Inr e, w1)" and
    rest: "(case find (held did nid) (leases w1) of
        Some y \<Rightarrow> retM (e, y, False)
      | None \<Rightarrow> bindM (create_lease cal d nid now) (\<lambda>y. retM (e, y, True))) w1 = (Inr (e, x, is_new), v)"
    by (auto simp: acquire_body_def oper_Inr split: if_splits option.splits)
  note w1 = take_expired_Inr[OF expired con]
  have d: "d \<in> set (deployments w)" "d_id d = did" "d_deleted_at d = None"
    using found by (auto simp: find_Some_iff)
  show ?thesis
  proof (cases "find (held did nid) (leases w1)")
    case None
    with rest have create: "create_lease cal d nid now w1 = (Inr x, v)" and new: "is_new"
      by (auto simp: oper_Inr)
    have tables: "teams w1 = teams w" "quota_plans w1 = quota_plans w" "quota_limits w1 = quota_limits w"
      "team_groups w1 = team_groups w" "leases w1 = ?ls"
      by (simp_all add: w1(1) put_leases_def)
    have "live_team w1 = live_team w" using tables(1) by (auto simp: live_team_def)
    moreover have "live_leases w1 team now = live_leases w team now" for team
      unfolding w1(1) by (rule live_after_expiry)
    moreover have "hours_used cal w1 team (clock w1 (clock_pos w1)) = hours_used cal w team (clock w (clock_pos w))" for team
      by (simp add: w1(1) put_leases_def hours_used_def used_def find_counter_def)
    ultimately show ?thesis
      using create_lease_Inr[OF create] resolve_cong[OF tables(2-4)] d found may new tables(5)
      by (intro exI[of _ d]) auto
  next
    case (Some y)
    with rest have y: "x = y" "\<not> is_new" "v = w1" by (auto simp: retM_def)
    have "y \<in> set (leases w1)" "held did nid y" using Some by (auto simp: find_Some_iff)
    then have live: "y \<in> set (leases w)" "now < x_expires_at y"
      using expire_pair_live[of did nid y now "leases w"] by (simp_all add: w1(1))
    have "\<not> (held did nid z \<and> x_expires_at z \<le> now)" if "z \<in> set (leases w)" for z
      using held_unique[OF con that live(1) _ \<open>held did nid y\<close>] live(2) by auto
    then have "?ls = leases w" unfolding expire_pair_def by (intro map_idI) auto
    then have "w1 = w" by (simp add: w1(1) put_leases_def)
    with y live d found may con \<open>held did nid y\<close> show ?thesis by (intro exI[of _ d]) simp
  qed
qed

lemma acquire_Inr:
  assumes run: "acquire cal did nid now w = (Inr x, v)"
  shows "\<exists>e is_new s. acquire_body cal did nid now (begin_tx w) = (Inr (e, x, is_new), s) \<and>
    only_quota s v \<and> (\<not> is_new \<longrightarrow> v = s)"
proof -
  from run obtain e is_new s where
    body: "acquire_body cal did nid now (begin_tx w) = (Inr (e, x, is_new), s)" and
    rest: "(if \<not> is_new then retM x else
      bindM (case e of Some e \<Rightarrow> release_process_event cal e | None \<Rightarrow> retM ()) (\<lambda>_.
       bindM (record_process_event cal x) (\<lambda>_.
       bindM (record_block cal x now) (\<lambda>_.
       retM x)))) s = (Inr x, v)"
    by (auto simp: acquire_def db_transaction_def bindM_def retM_def
        split: prod.splits sum.splits if_splits)
  have "runs only_quota (if \<not> is_new then retM x else
      bindM (case e of Some e \<Rightarrow> release_process_event cal e | None \<Rightarrow> retM ()) (\<lambda>_.
       bindM (record_process_event cal x) (\<lambda>_.
       bindM (record_block cal x now) (\<lambda>_.
       retM x))))"
    by (intro oq.rules lease_events_only)
  from runsD[OF this rest] body rest show ?thesis by (auto simp: retM_def)
qed

lemma filter_equal: "distinct xs \<Longrightarrow> x \<in> set xs \<Longrightarrow> filter (\<lambda>y. y = x) xs = [x]"
  by (induction xs) (auto simp: filter_empty_conv)

lemma filter_single:
  assumes "distinct xs" "x \<in> set xs" and "\<And>y. y \<in> set xs \<Longrightarrow> P y \<longleftrightarrow> y = x"
  shows "filter P xs = [x]"
proof -
  have "filter P xs = filter (\<lambda>y. y = x) xs" using assms(3) by (intro filter_cong) simp_all
  then show ?thesis using filter_equal[OF assms(1,2)] by simp
qed

lemma held_single:
  assumes "leases_con xs = None" "x \<in> set xs" "held did nid x"
  shows "filter (held did nid) xs = [x]"
proof (rule filter_single)
  show "distinct xs" using assms(1) by (simp add: leases_con_None distinct_map)
  show "held did nid y \<longleftrightarrow> y = x" if "y \<in> set xs" for y
    using held_unique[OF assms(1) that assms(2) _ assms(3)] assms(3) by auto
qed (rule assms(2))

lemma begin_leases [simp]: "live_leases (begin_tx w) t now = live_leases w t now"
  "live_team (begin_tx w) i = live_team w i"
  "leases (begin_tx w) = leases w" "deployments (begin_tx w) = deployments w"
  by (simp_all add: live_leases_def live_team_def begin_tx_def)

lemma begin_resolve [simp]: "fst (resolve_team_quota t (begin_tx w)) = fst (resolve_team_quota t w)"
  by (rule resolve_cong) (simp_all add: begin_tx_def)

lemma new_lease_fields:
  assumes "x = new_lease i did team nid now"
  shows "held did nid x" "now < x_expires_at x" "x_team_id x = team" "x_released_at x = None" "x_started_at x = now"
  unfolding assms by (simp_all add: held_def new_lease_def lease_ttl_def)

lemma acquire_holds:
  assumes run: "acquire cal did nid now w = (Inr x, v)" and con: "leases_con (leases w) = None"
  shows "filter (held did nid) (leases v) = [x] \<and> now < x_expires_at x"
proof -
  obtain e is_new s where body: "acquire_body cal did nid now (begin_tx w) = (Inr (e, x, is_new), s)" and
    after: "only_quota s v"
    using acquire_Inr[OF run] by blast
  have con': "leases_con (leases (begin_tx w)) = None" using con by simp
  note sound = acquire_body_Inr[OF body con']
  have v: "leases v = leases s" using only_quotaD(1)[OF after] .
  have con_s: "leases_con (leases s) = None" and new: "is_new \<Longrightarrow> \<exists>team. x = new_lease (x_id x) did team nid now"
    and old: "\<not> is_new \<Longrightarrow> held did nid x \<and> now < x_expires_at x"
    using sound by auto
  have "held did nid x \<and> now < x_expires_at x"
    using new old new_lease_fields(1,2) by (cases is_new) blast+
  moreover have "x \<in> set (leases s)" using sound by (cases is_new) auto
  ultimately show ?thesis using held_single[OF con_s] by (simp add: v)
qed

definition within :: "resolved_quota \<Rightarrow> quota_dimension \<Rightarrow> int \<Rightarrow> bool" where
  "within q d n \<longleftrightarrow> (case limit_for q d of Some limit \<Rightarrow> n \<le> limit | None \<Rightarrow> True)"

lemma not_reached: "\<not> limit_reached q d n \<Longrightarrow> within q d (n + 1)"
  by (simp add: limit_reached_def within_def split: option.splits)

lemma acquire_new:
  assumes run: "acquire cal did nid now w = (Inr x, v)" and con: "leases_con (leases w) = None"
    and free: "\<not> (\<exists>y\<in>set (leases w). held did nid y \<and> now < x_expires_at y)"
  shows "x_started_at x = now \<and> (\<exists>t q. live_team w (x_team_id x) = Some t \<and> fst (resolve_team_quota t w) = Inr q \<and>
    within q SsrProcesses (int (live_leases v (x_team_id x) now)) \<and>
    within q SsrHoursMonthly (hours_used cal w (x_team_id x) (clock w (Suc (clock_pos w))) + 1))"
proof -
  obtain e is_new s where body: "acquire_body cal did nid now (begin_tx w) = (Inr (e, x, is_new), s)" and
    after: "only_quota s v"
    using acquire_Inr[OF run] by blast
  have con': "leases_con (leases (begin_tx w)) = None" using con by simp
  note sound = acquire_body_Inr[OF body con']
  have new: is_new using sound free by (cases is_new) auto
  obtain d :: deployment and t q where s: "leases s = expire_pair did nid now (leases w) @ [x]"
    and x: "x = new_lease (x_id x) did (d_team_id d) nid now"
    and t: "live_team w (d_team_id d) = Some t" and q: "fst (resolve_team_quota t w) = Inr q"
    and below: "\<not> limit_reached q SsrProcesses (int (live_leases w (d_team_id d) now))"
    and hours: "\<not> limit_reached q SsrHoursMonthly
      (hours_used cal (begin_tx w) (d_team_id d) (clock (begin_tx w) (clock_pos (begin_tx w))))"
    using sound unfolding begin_leases begin_resolve if_P[OF new] by blast
  have fields: "now < x_expires_at x" "x_team_id x = d_team_id d" "x_released_at x = None" "x_started_at x = now"
    by (rule new_lease_fields[OF x])+
  have "live_leases v (d_team_id d) now = Suc (live_leases w (d_team_id d) now)"
    using live_after_expiry[of did nid now w "d_team_id d"] fields s only_quotaD(1)[OF after]
    by (simp add: live_leases_def)
  moreover have "hours_used cal (begin_tx w) (d_team_id d) (clock (begin_tx w) (clock_pos (begin_tx w))) =
      hours_used cal w (d_team_id d) (clock w (Suc (clock_pos w)))"
    by (simp add: hours_used_def used_def find_counter_def begin_tx_def)
  ultimately show ?thesis
    using not_reached[OF below] not_reached[OF hours] t q fields by (auto simp: add.commute)
qed

lemma acquire_again:
  assumes run: "acquire cal did nid now w = (Inr x, v)" and con: "leases_con (leases w) = None"
    and live: "\<exists>y\<in>set (leases w). held did nid y \<and> now < x_expires_at y"
  shows "leases v = leases w \<and> quota_events v = quota_events w"
proof -
  obtain e is_new s where body: "acquire_body cal did nid now (begin_tx w) = (Inr (e, x, is_new), s)" and
    after: "only_quota s v" "\<not> is_new \<longrightarrow> v = s"
    using acquire_Inr[OF run] by blast
  have con': "leases_con (leases (begin_tx w)) = None" using con by simp
  obtain y where y: "y \<in> set (leases w)" "held did nid y" "now < x_expires_at y" using live by blast
  have "\<not> is_new"
  proof
    assume is_new
    with acquire_body_Inr[OF body con'] obtain team where s: "leases s = expire_pair did nid now (leases w) @ [x]"
      and x: "x = new_lease (x_id x) did team nid now" and con_s: "leases_con (leases s) = None" by auto
    have "y \<in> set (leases s)" using y(1,3) unfolding s by (force simp: expire_pair_def)
    moreover have "held did nid x" by (rule new_lease_fields(1)[OF x])
    ultimately have "x = y" using held_unique[OF con_s _ _ _ y(2)] s by simp
    then have "\<not> distinct (leases s)" using y(1,3) unfolding s by (force simp: expire_pair_def)
    with con_s show False by (auto simp: leases_con_None distinct_map)
  qed
  with acquire_body_Inr[OF body con'] after show ?thesis by (auto simp: begin_tx_def)
qed

lemma acquire_assigned:
  assumes run: "acquire cal did nid now w = (Inr x, v)" and con: "leases_con (leases w) = None"
  shows "\<exists>d\<in>set (deployments w). d_id d = did \<and> d_deleted_at d = None \<and> may_run nid d"
proof -
  obtain e is_new s where body: "acquire_body cal did nid now (begin_tx w) = (Inr (e, x, is_new), s)"
    using acquire_Inr[OF run] by blast
  have "leases_con (leases (begin_tx w)) = None" using con by simp
  from acquire_body_Inr[OF body this] show ?thesis by (auto simp: find_Some_iff)
qed

text \<open>
  C17. A lease is exclusive and within the quotas of the team. When \<open>acquire\<close> succeeds, the deployment is a
  ready SSR deployment assigned to the Node, and the returned lease is the only one the pair holds and is not
  expired. If the pair held a live lease before, no lease and no quota event is written. Otherwise the lease
  starts now, the live processes of the team with the new one are within its limit of SSR processes, and the
  hours of the month on its books with the one that starts are within its limit of SSR hours; with either
  limit reached there is no lease.
\<close>

theorem acquire_within_quota:
  assumes run: "acquire cal did nid now w = (Inr x, v)" and con: "leases_con (leases w) = None"
  shows "filter (held did nid) (leases v) = [x] \<and> now < x_expires_at x \<and>
    (\<exists>d\<in>set (deployments w). d_id d = did \<and> d_deleted_at d = None \<and> may_run nid d) \<and>
    (if \<exists>y\<in>set (leases w). held did nid y \<and> now < x_expires_at y
     then leases v = leases w \<and> quota_events v = quota_events w
     else x_started_at x = now \<and>
       (\<exists>t q. live_team w (x_team_id x) = Some t \<and> fst (resolve_team_quota t w) = Inr q \<and>
          within q SsrProcesses (int (live_leases v (x_team_id x) now)) \<and>
          within q SsrHoursMonthly (hours_used cal w (x_team_id x) (clock w (Suc (clock_pos w))) + 1)))"
  using acquire_holds[OF run con] acquire_assigned[OF run con] acquire_again[OF run con] acquire_new[OF run con]
  by simp

definition same_rows :: "world \<Rightarrow> world \<Rightarrow> bool" where
  "same_rows w v \<longleftrightarrow> deployments v = deployments w"

interpretation rows: run_relation same_rows
  by unfold_locales (simp_all add: same_rows_def)

lemma resolve_keeps: "runs same_rows (resolve_team_quota t)"
  unfolding resolve_team_quota_def by (intro rows.rules)

lemma usage_keeps: "runs same_rows (effective_usage cal team d)"
  using usage_only[of cal team d] by (auto simp: runs_def same_rows_def dest: only_quotaD(2))

lemma acquire_body_keeps: "runs same_rows (acquire_body cal did nid now)"
proof -
  have "runs same_rows now_v7" "runs same_rows (insert_lease x)" "runs same_rows (update_lease i f)" for x i f
    by (auto simp: runs_def same_rows_def now_v7_def insert_lease_def update_lease_def exec_insert_def
        exec_update_def Let_def put_leases_def split: option.splits)
  then show ?thesis
    unfolding acquire_body_def take_expired_def create_lease_def
    by (intro rows.rules resolve_keeps usage_keeps)
qed

lemma find_single:
  assumes "x \<in> set xs" "P x" and "\<And>y. y \<in> set xs \<Longrightarrow> P y \<Longrightarrow> y = x"
  shows "find P xs = Some x"
proof (cases "find P xs")
  case None
  with assms(1,2) show ?thesis by (auto simp: find_None_iff)
next
  case (Some y)
  then have "y \<in> set xs" "P y" by (auto simp: find_Some_iff)
  with assms(3) Some show ?thesis by simp
qed

text \<open>
  Acquiring again is free. While a lease lives, acquiring it again for the same deployment and
  Node returns the same lease and records nothing: no row of the leases, the quota log or the
  counters changes.
\<close>

theorem acquire_is_sticky:
  assumes first: "acquire cal did nid now w = (Inr x, v)" and con: "leases_con (leases w) = None"
    and live: "now' < x_expires_at x" and again: "acquire cal did nid now' v = (r, v')"
  shows "r = Inr x \<and> leases v' = leases v \<and> quota_events v' = quota_events v \<and>
    usage_counters v' = usage_counters v"
proof -
  obtain e is_new s where body: "acquire_body cal did nid now (begin_tx w) = (Inr (e, x, is_new), s)" and
    after: "only_quota s v"
    using acquire_Inr[OF first] by blast
  have con': "leases_con (leases (begin_tx w)) = None" using con by simp
  from acquire_body_Inr[OF body con'] obtain d where
    d: "find (\<lambda>d. d_id d = did \<and> d_deleted_at d = None) (deployments w) = Some d" "may_run nid d"
      "leases_con (leases s) = None" by auto
  have "deployments v = deployments w"
    using runsD[OF acquire_body_keeps body] only_quotaD(2)[OF after] by (simp add: same_rows_def)
  with d have found: "find (\<lambda>d. d_id d = did \<and> d_deleted_at d = None) (deployments v) = Some d" by simp
  have con_v: "leases_con (leases v) = None" using d only_quotaD(1)[OF after] by simp
  have "x \<in> set (filter (held did nid) (leases v))" using acquire_holds[OF first con] by simp
  then have x: "x \<in> set (leases v)" "held did nid x" by simp_all
  have held: "find (held did nid) (leases v) = Some x"
    using x held_unique[OF con_v _ x(1) _ x(2)] by (rule find_single)
  have "find (\<lambda>y. held did nid y \<and> x_expires_at y \<le> now') (leases v) = None"
    using held_unique[OF con_v _ x(1) _ x(2)] live by (fastforce simp: find_None_iff)
  then have "acquire_body cal did nid now' (begin_tx v) = (Inr (None, x, False), begin_tx v)"
    using found d(2) held
    by (simp add: acquire_body_def take_expired_def bindM_def getM_def okOr_def retM_def)
  with again have "r = Inr x \<and> v' = begin_tx v"
    by (simp add: acquire_def db_transaction_def bindM_def retM_def)
  then show ?thesis by (simp add: begin_tx_def)
qed

section \<open>Releasing\<close>

lemma lease_of_mem: "lease_of w lid did = Some x \<Longrightarrow> x \<in> set (leases w) \<and> x_id x = lid \<and> x_deployment_id x = did"
  by (auto simp: lease_of_def find_Some_iff)

text \<open>After a successful release the lease is released or was never there.\<close>

lemma release_body_Inr:
  assumes run: "db_transaction (release_body lid did nid now) w = (Inr released, v)"
    and con: "leases_con (leases w) = None"
  shows "leases_con (leases v) = None \<and>
    (case lease_of v lid did of None \<Rightarrow> True | Some y \<Rightarrow> x_node_id y = nid \<and> x_released_at y \<noteq> None) \<and>
    (case released of
       None \<Rightarrow> leases v = leases w
     | Some x \<Rightarrow> lease_of w lid did = Some x \<and> x_node_id x = nid \<and> x_released_at x = None \<and>
         leases v = update_where (\<lambda>r. x_id r = lid) (\<lambda>r. r\<lparr>x_released_at := Some now\<rparr>) (leases w))"
proof (cases "lease_of w lid did")
  case None
  then have "lease_of (begin_tx w) lid did = None" by (simp add: lease_of_def)
  with run None con show ?thesis
    by (auto simp: db_transaction_def release_body_def bindM_def getM_def retM_def rollback_to_def lease_of_def)
next
  case (Some x)
  then have found: "lease_of (begin_tx w) lid did = Some x" by (simp add: lease_of_def)
  note mem = lease_of_mem[OF Some]
  show ?thesis
  proof (cases "x_released_at x = None")
    case False
    with run Some found con show ?thesis
      by (auto simp: db_transaction_def release_body_def bindM_def getM_def retM_def failM_def lease_of_def
          split: if_splits)
  next
    case True
    let ?rows = "update_where (\<lambda>r. x_id r = lid) (\<lambda>r. r\<lparr>x_released_at := Some now\<rparr>) (leases w)"
    from run found True mem have node: "x_node_id x = nid" and
      v: "v = put_leases ?rows (begin_tx w)" "leases_con ?rows = None" and rel: "released = Some x"
      by (auto simp: db_transaction_def release_body_def bindM_def getM_def retM_def failM_def mapErr_def
          update_lease_def lea.update_Inr split: if_splits prod.splits sum.splits)
    have "x_released_at y \<noteq> None \<and> x_node_id y = nid" if "lease_of v lid did = Some y" for y
    proof -
      have "y \<in> set ?rows" "x_id y = lid" using lease_of_mem[OF that] v(1) by simp_all
      then obtain r where r: "r \<in> set (leases w)" "x_id r = lid" "y = r\<lparr>x_released_at := Some now\<rparr>"
        unfolding set_update_where by auto
      with lea.row_unique[OF con r(1) conjunct1[OF mem]] mem node show ?thesis by simp
    qed
    with v rel node True Some show ?thesis by (auto split: option.splits)
  qed
qed

text \<open>
  A lease is released once. After a release has succeeded, releasing the lease again from the
  same Node answers \<open>False\<close> and changes no row of the leases, the quota log or the counters, so no process
  and no hour is given back twice.
\<close>

theorem release_once:
  assumes first: "release_lease cal lid did nid now w = (Inr b, v)"
    and con: "leases_con (leases w) = None"
    and again: "release_lease cal lid did nid now' v = (r, v')"
  shows "r = Inr False \<and> leases v' = leases v \<and> quota_events v' = quota_events v \<and>
    usage_counters v' = usage_counters v"
proof -
  from first obtain released s where tx: "db_transaction (release_body lid did nid now) w = (Inr released, s)" and
    rest: "(case released of None \<Rightarrow> retM False | Some x \<Rightarrow>
      bindM (release_process_event cal x) (\<lambda>_.
      bindM (if now < x_hour_block_start x + hour_block then release_block_event cal x else retM ()) (\<lambda>_.
      retM True))) s = (Inr b, v)"
    unfolding release_lease_def by (subst (asm) bindM_Inr) (elim exE conjE)
  have "runs only_quota (case released of None \<Rightarrow> retM False | Some x \<Rightarrow>
      bindM (release_process_event cal x) (\<lambda>_.
      bindM (if now < x_hour_block_start x + hour_block then release_block_event cal x else retM ()) (\<lambda>_.
      retM True)))"
    by (intro oq.rules lease_events_only)
  from only_quotaD(1)[OF runsD[OF this rest]] have same: "leases v = leases s" .
  have gone: "case lease_of v lid did of None \<Rightarrow> True | Some y \<Rightarrow> x_node_id y = nid \<and> x_released_at y \<noteq> None"
    using release_body_Inr[OF tx con] same by (simp add: lease_of_def)
  have at_start: "lease_of (begin_tx v) lid did = lease_of v lid did" by (simp add: lease_of_def)
  have "\<exists>t. db_transaction (release_body lid did nid now') v = (Inr None, t) \<and> leases t = leases v \<and>
      quota_events t = quota_events v \<and> usage_counters t = usage_counters v"
    using gone at_start
    by (auto simp: db_transaction_def release_body_def bindM_def getM_def retM_def rollback_to_def begin_tx_def
        split: option.splits)
  with again show ?thesis
    by (auto simp: release_lease_def bindM_def retM_def)
qed

section \<open>Concrete runs\<close>

definition ssr_world :: world where
  "ssr_world =
     (sample_world [(sample_deployment 10 Production BReady SReady RActive (Some 7))\<lparr>d_runtime_kind := Ssr\<rparr>] [])
     \<lparr>teams := [sample_team],
      quota_plans := [\<lparr>q_id = 1, q_code = ''free'', q_name = ''Free'', q_description = None,
        q_is_default = True, q_enabled = True, q_created_at = 0, q_updated_at = 0\<rparr>],
      quota_limits := [\<lparr>l_id = 2, l_quota_plan_id = 1, l_dimension = ''ssr_processes'', l_limit_value = 1,
        l_period = PeriodNone, l_created_at = 0, l_updated_at = 0\<rparr>,
       \<lparr>l_id = 3, l_quota_plan_id = 1, l_dimension = ''ssr_hours.monthly'', l_limit_value = 1,
        l_period = PeriodMonthly, l_created_at = 0, l_updated_at = 0\<rparr>]\<rparr>"

definition ssr_acquired :: "(lease_error + ssr_lease) \<times> world" where
  "ssr_acquired = acquire plain_calendar 10 7 5 ssr_world"

lemma ssr_run: "(case fst ssr_acquired of Inr x \<Rightarrow> x_id x = 1000 \<and> x_expires_at x = 90000000005 | Inl _ \<Rightarrow> False)"
  by code_simp

lemma ssr_team: "(case fst ssr_acquired of Inr x \<Rightarrow> x_team_id x = 200 | Inl _ \<Rightarrow> False)"
  by code_simp

lemma ssr_acquired_lease:
  obtains x v where "acquire plain_calendar 10 7 5 ssr_world = (Inr x, v)" "x_id x = 1000"
    "x_expires_at x = 90000000005"
  using ssr_run by (cases "acquire plain_calendar 10 7 5 ssr_world") (auto simp: ssr_acquired_def split: sum.splits)

lemma ssr_con: "leases_con (leases ssr_world) = None"
  by (simp add: ssr_world_def leases_con_None)

lemma ssr_limits:
  "live_team ssr_world 200 = Some sample_team \<and>
   (case fst (resolve_team_quota sample_team ssr_world) of
      Inr q \<Rightarrow> limit_for q SsrProcesses = Some 1 \<and> limit_for q SsrHoursMonthly = Some 1 | Inl _ \<Rightarrow> False)"
  by (rule conjI) code_simp+

theorem acquire_within_quota_witness:
  "\<exists>x v. acquire plain_calendar 10 7 5 ssr_world = (Inr x, v) \<and> filter (held 10 7) (leases v) = [x] \<and>
     live_leases v (x_team_id x) 5 \<le> 1 \<and>
     hours_used plain_calendar ssr_world (x_team_id x) (clock ssr_world (Suc (clock_pos ssr_world))) \<le> 0"
proof -
  obtain x v where run: "acquire plain_calendar 10 7 5 ssr_world = (Inr x, v)" by (rule ssr_acquired_lease)
  have team: "x_team_id x = 200" using ssr_team run by (simp add: ssr_acquired_def)
  have "leases ssr_world = []" by (simp add: ssr_world_def)
  with acquire_within_quota[OF run ssr_con] ssr_limits run team show ?thesis
    by (auto simp: within_def split: sum.splits)
qed

theorem acquire_is_sticky_witness:
  "\<exists>x v v'. acquire plain_calendar 10 7 5 ssr_world = (Inr x, v) \<and>
     acquire plain_calendar 10 7 80000000000 v = (Inr x, v') \<and> leases v' = leases v"
proof -
  obtain x v where run: "acquire plain_calendar 10 7 5 ssr_world = (Inr x, v)" and
    live: "80000000000 < x_expires_at x" by (rule ssr_acquired_lease) simp
  obtain r v' where again: "acquire plain_calendar 10 7 80000000000 v = (r, v')"
    by (cases "acquire plain_calendar 10 7 80000000000 v")
  from acquire_is_sticky[OF run ssr_con live again] run again show ?thesis by blast
qed

definition held_world :: world where
  "held_world = ssr_world\<lparr>leases := [new_lease 1 10 200 7 0]\<rparr>"

lemma release_run: "fst (release_lease plain_calendar 1 10 7 60 held_world) = Inr True"
  by code_simp

theorem release_once_witness:
  "\<exists>v v'. release_lease plain_calendar 1 10 7 60 held_world = (Inr True, v) \<and>
     release_lease plain_calendar 1 10 7 70 v = (Inr False, v') \<and> quota_events v' = quota_events v"
proof -
  obtain v where run: "release_lease plain_calendar 1 10 7 60 held_world = (Inr True, v)"
    using release_run by (cases "release_lease plain_calendar 1 10 7 60 held_world") auto
  have con: "leases_con (leases held_world) = None" by (simp add: held_world_def leases_con_None)
  obtain r v' where again: "release_lease plain_calendar 1 10 7 70 v = (r, v')"
    by (cases "release_lease plain_calendar 1 10 7 70 v")
  from release_once[OF run con again] run again show ?thesis by blast
qed

end
