(* ===== verification/GitSource.thy ===== *)
theory GitSource
  imports Text "HOL-Library.Word" "HOL-Library.Code_Target_Numeral"
begin

unbundle bit_operations_syntax

text \<open>
  Repository endpoints and the network policy for cloning (\<open>crates/git-source\<close>). The URL parser of
  the \<open>url\<close> crate and the reading and printing of IP addresses are parameters; text is the list of its
  code points.
\<close>

type_synonym ustr = "nat list"

section \<open>Addresses\<close>

datatype ip_addr =
    V4 "8 word" "8 word" "8 word" "8 word"
  | V6 "16 word" "16 word" "16 word" "16 word" "16 word" "16 word" "16 word" "16 word"

definition is_public_ipv4 :: "8 word \<Rightarrow> 8 word \<Rightarrow> 8 word \<Rightarrow> 8 word \<Rightarrow> bool" where
  "is_public_ipv4 a b c d \<longleftrightarrow>
     \<not> (a = 0 \<or> a = 10 \<or> (a = 100 \<and> 64 \<le> b \<and> b \<le> 127) \<or> a = 127 \<or> (a = 169 \<and> b = 254) \<or>
        (a = 172 \<and> 16 \<le> b \<and> b \<le> 31) \<or> (a = 192 \<and> b = 0 \<and> c = 0) \<or> (a = 192 \<and> b = 0 \<and> c = 2) \<or>
        (a = 192 \<and> b = 88 \<and> c = 99) \<or> (a = 192 \<and> b = 168) \<or> (a = 198 \<and> 18 \<le> b \<and> b \<le> 19) \<or>
        (a = 198 \<and> b = 51 \<and> c = 100) \<or> (a = 203 \<and> b = 0 \<and> c = 113) \<or> 224 \<le> a)"

definition high_byte :: "16 word \<Rightarrow> 8 word" where
  "high_byte s = ucast (drop_bit 8 s)"

definition low_byte :: "16 word \<Rightarrow> 8 word" where
  "low_byte s = ucast s"

definition is_public_ipv6 ::
  "16 word \<Rightarrow> 16 word \<Rightarrow> 16 word \<Rightarrow> 16 word \<Rightarrow> 16 word \<Rightarrow> 16 word \<Rightarrow> 16 word \<Rightarrow> 16 word \<Rightarrow> bool" where
  "is_public_ipv6 s0 s1 s2 s3 s4 s5 s6 s7 \<longleftrightarrow>
     (if s0 = 0 \<and> s1 = 0 \<and> s2 = 0 \<and> s3 = 0 \<and> s4 = 0 \<and> s5 = 0xffff
      then is_public_ipv4 (high_byte s6) (low_byte s6) (high_byte s7) (low_byte s7)
      else
        (let globally_assigned = (s0 AND 0xe000 = 0x2000);
             documentation = (s0 = 0x2001 \<and> s1 = 0x0db8);
             benchmarking = (s0 = 0x2001 \<and> s1 = 0x0002);
             orchid = (s0 = 0x2001 \<and> (s1 AND 0xfff0 = 0x0010 \<or> s1 AND 0xfff0 = 0x0020))
         in globally_assigned \<and> \<not> documentation \<and> \<not> benchmarking \<and> \<not> orchid))"

fun is_public_ip :: "ip_addr \<Rightarrow> bool" where
  "is_public_ip (V4 a b c d) = is_public_ipv4 a b c d"
| "is_public_ip (V6 s0 s1 s2 s3 s4 s5 s6 s7) = is_public_ipv6 s0 s1 s2 s3 s4 s5 s6 s7"

section \<open>Endpoints\<close>

datatype git_transport = GitHttp | GitHttps | GitSsh | GitGit

record repository_endpoint =
  ep_transport :: git_transport
  ep_host :: ustr
  ep_port :: nat
  ep_path :: ustr
  ep_username :: "ustr option"
  ep_scp_like :: bool

record private_target_exception =
  px_host :: ustr
  px_ip :: ip_addr
  px_port :: nat

datatype repository_url_error = UrlInvalid | UrlUnsupportedTransport | UrlEmbeddedCredential

datatype network_policy_error = NoAddresses | NonPublicTarget ip_addr nat

definition eq_ignore_case :: "ustr \<Rightarrow> ustr \<Rightarrow> bool" where
  "eq_ignore_case a b \<longleftrightarrow> map to_lower a = map to_lower b"

definition excepted :: "repository_endpoint \<Rightarrow> private_target_exception list \<Rightarrow> ip_addr \<Rightarrow> bool" where
  "excepted ep exceptions ip \<longleftrightarrow>
     (\<exists>x\<in>set exceptions. eq_ignore_case (px_host x) (ep_host ep) \<and> px_ip x = ip \<and> px_port x = ep_port ep)"

fun check_targets ::
  "repository_endpoint \<Rightarrow> private_target_exception list \<Rightarrow> ip_addr list \<Rightarrow> network_policy_error + unit" where
  "check_targets ep exceptions [] = Inr ()"
| "check_targets ep exceptions (ip # ips) =
     (if \<not> is_public_ip ip \<and> \<not> excepted ep exceptions ip then Inl (NonPublicTarget ip (ep_port ep))
      else check_targets ep exceptions ips)"

definition validate_resolved_targets ::
  "repository_endpoint \<Rightarrow> ip_addr list \<Rightarrow> private_target_exception list \<Rightarrow>
   network_policy_error + unit" where
  "validate_resolved_targets ep addresses exceptions =
     (if addresses = [] then Inl NoAddresses else check_targets ep exceptions addresses)"

section \<open>Parsing\<close>

text \<open>What the \<open>url\<close> crate says of a URL, and of a host.\<close>

record parsed_url =
  pu_scheme :: ustr
  pu_fragment :: "ustr option"
  pu_query :: "ustr option"
  pu_username :: ustr
  pu_password :: "ustr option"
  pu_host :: "ustr option"
  pu_port :: "nat option"
  pu_path :: ustr

datatype url_host = HostDomain ustr | HostIp ip_addr

record net_lib =
  nl_url :: "ustr \<Rightarrow> parsed_url option"
  nl_host :: "ustr \<Rightarrow> url_host option"
  nl_ip :: "ustr \<Rightarrow> ip_addr option"
  nl_ip_text :: "ip_addr \<Rightarrow> ustr"

definition git_normalize_host :: "net_lib \<Rightarrow> ustr \<Rightarrow> repository_url_error + ustr" where
  "git_normalize_host lib value =
     (let value = trim_end_by (\<lambda>c. c = 46) value in
      if value = [] \<or> hd value = 45 \<or> (\<exists>c\<in>set value. is_ws c) then Inl UrlInvalid
      else
        (case nl_ip lib value of
           Some ip \<Rightarrow> Inr (nl_ip_text lib ip)
         | None \<Rightarrow>
             (case nl_host lib value of
                None \<Rightarrow> Inl UrlInvalid
              | Some (HostDomain domain) \<Rightarrow> Inr (map to_lower domain)
              | Some (HostIp ip) \<Rightarrow> Inr (nl_ip_text lib ip))))"

definition ssh_name_char :: "nat \<Rightarrow> bool" where
  "ssh_name_char c \<longleftrightarrow> is_ascii_alnum c \<or> c = 46 \<or> c = 95 \<or> c = 45"

definition normalize_ssh_username :: "ustr \<Rightarrow> repository_url_error + ustr" where
  "normalize_ssh_username value =
     (if value = [] \<or> hd value = 45 \<or> \<not> list_all ssh_name_char value then Inl UrlInvalid
      else Inr value)"

definition is_ascii_alpha :: "nat \<Rightarrow> bool" where
  "is_ascii_alpha c \<longleftrightarrow> is_ascii_upper c \<or> is_ascii_lower c"

text \<open>\<open>C:/\<close> and \<open>C:\\<close>: the path of a drive.\<close>

definition drive_path :: "ustr \<Rightarrow> bool" where
  "drive_path value \<longleftrightarrow>
     (case value of a # b # c # _ \<Rightarrow> is_ascii_alpha a \<and> b = 58 \<and> (c = 47 \<or> c = 92) | _ \<Rightarrow> False)"

text \<open>Around the first \<open>]:\<close>, the bracket staying on the left.\<close>

fun split_bracket :: "ustr \<Rightarrow> (ustr \<times> ustr) option" where
  "split_bracket (x # y # xs) =
     (if x = 93 \<and> y = 58 then Some ([x], xs)
      else map_option (\<lambda>(a, b). (x # a, b)) (split_bracket (y # xs)))"
| "split_bracket _ = None"

definition split_authority :: "ustr \<Rightarrow> (ustr \<times> ustr) option" where
  "split_authority value =
     (if starts_with [91] value \<or> contains [64, 91] value then split_bracket value
      else split_once 58 value)"

definition strip_brackets :: "ustr \<Rightarrow> ustr" where
  "strip_brackets host =
     (if starts_with [91] host \<and> ends_with [93] (tl host) then butlast (tl host) else host)"

definition parse_scp_like :: "net_lib \<Rightarrow> ustr \<Rightarrow> repository_url_error + repository_endpoint" where
  "parse_scp_like lib value =
     (if starts_with [45] value \<or> drive_path value then Inl UrlInvalid
      else
        (case split_authority value of
           None \<Rightarrow> Inl UrlInvalid
         | Some (authority, path) \<Rightarrow>
             if authority = [] \<or> path = [] \<or> starts_with [58] path \<or>
                (\<exists>c\<in>set path. is_ctrl c \<or> is_ws c)
             then Inl UrlInvalid
             else
               (case (case rsplit_once 64 authority of
                        Some (name, host) \<Rightarrow>
                          (case normalize_ssh_username name of
                             Inl e \<Rightarrow> Inl e | Inr n \<Rightarrow> Inr (Some n, host))
                      | None \<Rightarrow> Inr (None, authority)) of
                  Inl e \<Rightarrow> Inl e
                | Inr (username, raw_host) \<Rightarrow>
                    (case git_normalize_host lib (strip_brackets raw_host) of
                       Inl e \<Rightarrow> Inl e
                     | Inr host \<Rightarrow>
                         Inr \<lparr>ep_transport = GitSsh, ep_host = host, ep_port = 22, ep_path = path,
                              ep_username = username, ep_scp_like = True\<rparr>))))"

definition transport_of :: "ustr \<Rightarrow> git_transport option" where
  "transport_of scheme =
     (if scheme = pts ''http'' then Some GitHttp
      else if scheme = pts ''https'' then Some GitHttps
      else if scheme = pts ''ssh'' then Some GitSsh
      else if scheme = pts ''git'' then Some GitGit
      else None)"

fun default_port :: "git_transport \<Rightarrow> nat" where
  "default_port GitHttp = 80"
| "default_port GitHttps = 443"
| "default_port GitSsh = 22"
| "default_port GitGit = 9418"

definition parse_url_endpoint ::
  "net_lib \<Rightarrow> parsed_url \<Rightarrow> repository_url_error + repository_endpoint" where
  "parse_url_endpoint lib parsed =
     (case transport_of (pu_scheme parsed) of
        None \<Rightarrow> Inl UrlUnsupportedTransport
      | Some transport \<Rightarrow>
          if pu_fragment parsed \<noteq> None \<or> pu_query parsed \<noteq> None then Inl UrlInvalid
          else if pu_password parsed \<noteq> None \<or> (pu_username parsed \<noteq> [] \<and> transport \<noteq> GitSsh)
          then Inl UrlEmbeddedCredential
          else
            (case (case pu_host parsed of
                     None \<Rightarrow> Inl UrlInvalid | Some h \<Rightarrow> git_normalize_host lib h) of
               Inl e \<Rightarrow> Inl e
             | Inr host \<Rightarrow>
                 (let port = (case pu_port parsed of Some p \<Rightarrow> p | None \<Rightarrow> default_port transport) in
                  if port = 0 \<or> pu_path parsed = [] \<or> pu_path parsed = [47] then Inl UrlInvalid
                  else
                    (case (if pu_username parsed = [] then Inr None
                           else case normalize_ssh_username (pu_username parsed) of
                                  Inl e \<Rightarrow> Inl e | Inr n \<Rightarrow> Inr (Some n)) of
                       Inl e \<Rightarrow> Inl e
                     | Inr username \<Rightarrow>
                         Inr \<lparr>ep_transport = transport, ep_host = host, ep_port = port,
                              ep_path = pu_path parsed, ep_username = username,
                              ep_scp_like = False\<rparr>))))"

definition parse_repository_url :: "net_lib \<Rightarrow> ustr \<Rightarrow> repository_url_error + repository_endpoint" where
  "parse_repository_url lib value =
     (if value = [] \<or> trim_by is_ws value \<noteq> value \<or> (\<exists>c\<in>set value. is_ctrl c) then Inl UrlInvalid
      else if \<not> contains (pts ''://'') value then parse_scp_like lib value
      else
        (case nl_url lib value of
           None \<Rightarrow> Inl UrlInvalid
         | Some parsed \<Rightarrow> parse_url_endpoint lib parsed))"

section \<open>Addresses as numbers\<close>

text \<open>
  An address is a number, a block is its base and the length of its prefix. The tests of the code on bytes
  and segments are membership in the blocks of \<open>special_v4\<close>, \<open>global_v6\<close> and \<open>special_v6\<close>.
\<close>

definition in_block :: "nat \<Rightarrow> nat \<times> nat \<Rightarrow> nat \<Rightarrow> bool" where
  "in_block width block n \<longleftrightarrow>
     n div 2 ^ (width - snd block) = fst block div 2 ^ (width - snd block)"

definition dotted :: "nat \<Rightarrow> nat \<Rightarrow> nat \<Rightarrow> nat \<Rightarrow> nat" where
  "dotted a b c d = ((a * 256 + b) * 256 + c) * 256 + d"

definition special_v4 :: "(nat \<times> nat) list" where
  "special_v4 =
     [(dotted 0 0 0 0, 8), (dotted 10 0 0 0, 8), (dotted 100 64 0 0, 10), (dotted 127 0 0 0, 8),
      (dotted 169 254 0 0, 16), (dotted 172 16 0 0, 12), (dotted 192 0 0 0, 24),
      (dotted 192 0 2 0, 24), (dotted 192 88 99 0, 24), (dotted 192 168 0 0, 16),
      (dotted 198 18 0 0, 15), (dotted 198 51 100 0, 24), (dotted 203 0 113 0, 24),
      (dotted 224 0 0 0, 3)]"

definition segments_number :: "16 word list \<Rightarrow> nat" where
  "segments_number ss = foldl (\<lambda>n s. n * 65536 + unat s) 0 ss"

definition global_v6 :: "nat \<times> nat" where
  "global_v6 = (0x2000 * 2 ^ 112, 3)"

definition special_v6 :: "(nat \<times> nat) list" where
  "special_v6 =
     [(0x20010db8 * 2 ^ 96, 32), (0x20010002 * 2 ^ 96, 32), (0x20010010 * 2 ^ 96, 28),
      (0x20010020 * 2 ^ 96, 28)]"

definition routable_v4 :: "nat \<Rightarrow> bool" where
  "routable_v4 n \<longleftrightarrow> \<not> list_ex (\<lambda>b. in_block 32 b n) special_v4"

definition mapped_v6 :: "nat \<times> nat" where
  "mapped_v6 = (0xffff * 2 ^ 32, 96)"

definition routable_v6 :: "nat \<Rightarrow> bool" where
  "routable_v6 n \<longleftrightarrow>
     (if in_block 128 mapped_v6 n then routable_v4 (n mod 2 ^ 32)
      else in_block 128 global_v6 n \<and> \<not> list_ex (\<lambda>b. in_block 128 b n) special_v6)"

fun routable :: "ip_addr \<Rightarrow> bool" where
  "routable (V4 a b c d) = routable_v4 (dotted (unat a) (unat b) (unat c) (unat d))"
| "routable (V6 s0 s1 s2 s3 s4 s5 s6 s7) = routable_v6 (segments_number [s0, s1, s2, s3, s4, s5, s6, s7])"

lemma byte_bound: "unat (x :: 8 word) < 256"
  using unsigned_less[of x] by simp

lemma segment_bound: "unat (x :: 16 word) < 65536"
  using unsigned_less[of x] by simp

lemma byte_eq: "(x :: 8 word) = numeral k \<longleftrightarrow> unat x = unat (numeral k :: 8 word)"
  by (simp add: word_unat_eq_iff)

lemma segment_eq: "(x :: 16 word) = numeral k \<longleftrightarrow> unat x = unat (numeral k :: 16 word)"
  by (simp add: word_unat_eq_iff)

text \<open>The prefixes of an address by byte.\<close>

lemma byte_shift: "d < 256 \<Longrightarrow> (n * 256 + d) div (256 * k) = n div k" for n d k :: nat
  by (simp add: div_mult2_eq)

lemma dotted_shift:
  assumes "b < 256" "c < 256" "d < 256"
  shows "dotted a b c d div (256 * k) = ((a * 256 + b) * 256 + c) div k"
    and "dotted a b c d div (256 * (256 * k)) = (a * 256 + b) div k"
    and "dotted a b c d div (256 * (256 * (256 * k))) = a div k"
  using assms by (simp_all only: dotted_def byte_shift)

lemma dotted_div:
  assumes "b < 256" "c < 256" "d < 256"
  shows "dotted a b c d div 16777216 = a"
    and "dotted a b c d div 4194304 = (a * 256 + b) div 64"
    and "dotted a b c d div 1048576 = (a * 256 + b) div 16"
    and "dotted a b c d div 131072 = (a * 256 + b) div 2"
    and "dotted a b c d div 65536 = a * 256 + b"
    and "dotted a b c d div 256 = (a * 256 + b) * 256 + c"
    and "dotted a b c d div 536870912 = a div 32"
proof -
  show "dotted a b c d div 16777216 = a"
    using dotted_shift(3)[OF assms, of a 1] by simp
  show "dotted a b c d div 4194304 = (a * 256 + b) div 64"
    using dotted_shift(2)[OF assms, of a 64] by simp
  show "dotted a b c d div 1048576 = (a * 256 + b) div 16"
    using dotted_shift(2)[OF assms, of a 16] by simp
  show "dotted a b c d div 131072 = (a * 256 + b) div 2"
    using dotted_shift(2)[OF assms, of a 2] by simp
  show "dotted a b c d div 65536 = a * 256 + b"
    using dotted_shift(2)[OF assms, of a 1] by simp
  show "dotted a b c d div 256 = (a * 256 + b) * 256 + c"
    using dotted_shift(1)[OF assms, of a 1] by simp
  show "dotted a b c d div 536870912 = a div 32"
    using dotted_shift(3)[OF assms, of a 32] by simp
qed

lemma digit_split: "b < m \<Longrightarrow> (a * m + b = n) = (a = n div m \<and> b = n mod m)" for a b m n :: nat
  by auto

lemma digit_div: "k > 0 \<Longrightarrow> (a * (m * k) + b) div k = a * m + b div k" for a b m k :: nat
  by (simp add: mult.assoc [symmetric])

lemma byte_pairs:
  assumes "b < (256 :: nat)" "c < 256"
  shows "(a * 256 + b) div 64 = 401 \<longleftrightarrow> a = 100 \<and> 64 \<le> b \<and> b \<le> 127"
    and "(a * 256 + b) div 16 = 2753 \<longleftrightarrow> a = 172 \<and> 16 \<le> b \<and> b \<le> 31"
    and "(a * 256 + b) div 2 = 25353 \<longleftrightarrow> a = 198 \<and> 18 \<le> b \<and> b \<le> 19"
    and "a * 256 + b = 43518 \<longleftrightarrow> a = 169 \<and> b = 254"
    and "a * 256 + b = 49320 \<longleftrightarrow> a = 192 \<and> b = 168"
    and "(a * 256 + b) * 256 + c = 12582912 \<longleftrightarrow> a = 192 \<and> b = 0 \<and> c = 0"
    and "(a * 256 + b) * 256 + c = 12582914 \<longleftrightarrow> a = 192 \<and> b = 0 \<and> c = 2"
    and "(a * 256 + b) * 256 + c = 12605539 \<longleftrightarrow> a = 192 \<and> b = 88 \<and> c = 99"
    and "(a * 256 + b) * 256 + c = 12989284 \<longleftrightarrow> a = 198 \<and> b = 51 \<and> c = 100"
    and "(a * 256 + b) * 256 + c = 13303921 \<longleftrightarrow> a = 203 \<and> b = 0 \<and> c = 113"
proof -
  have b64: "b div 64 < 4" "(b div 64 = Suc 0) = (64 \<le> b \<and> b \<le> 127)"
    and b16: "b div 16 < 16" "(b div 16 = Suc 0) = (16 \<le> b \<and> b \<le> 31)"
    and b2: "b div 2 < 128" "(b div 2 = 9) = (18 \<le> b \<and> b \<le> 19)"
    using assms(1) by arith+
  show "(a * 256 + b) div 64 = 401 \<longleftrightarrow> a = 100 \<and> 64 \<le> b \<and> b \<le> 127"
    using digit_div[of 64 a 4 b] by (simp add: digit_split[OF b64(1)] b64(2))
  show "(a * 256 + b) div 16 = 2753 \<longleftrightarrow> a = 172 \<and> 16 \<le> b \<and> b \<le> 31"
    using digit_div[of 16 a 16 b] by (simp add: digit_split[OF b16(1)] b16(2))
  show "(a * 256 + b) div 2 = 25353 \<longleftrightarrow> a = 198 \<and> 18 \<le> b \<and> b \<le> 19"
    using digit_div[of 2 a 128 b] by (simp add: digit_split[OF b2(1)] b2(2))
qed (simp_all add: digit_split[OF assms(1)] digit_split[OF assms(2)] del: distrib_right_numeral)

lemma routable_v4_bytes:
  assumes "a < 256" "b < 256" "c < 256" "d < 256"
  shows "routable_v4 (dotted a b c d) \<longleftrightarrow>
     \<not> (a = 0 \<or> a = 10 \<or> (a = 100 \<and> 64 \<le> b \<and> b \<le> 127) \<or> a = 127 \<or> (a = 169 \<and> b = 254) \<or>
        (a = 172 \<and> 16 \<le> b \<and> b \<le> 31) \<or> (a = 192 \<and> b = 0 \<and> c = 0) \<or> (a = 192 \<and> b = 0 \<and> c = 2) \<or>
        (a = 192 \<and> b = 88 \<and> c = 99) \<or> (a = 192 \<and> b = 168) \<or> (a = 198 \<and> 18 \<le> b \<and> b \<le> 19) \<or>
        (a = 198 \<and> b = 51 \<and> c = 100) \<or> (a = 203 \<and> b = 0 \<and> c = 113) \<or> 224 \<le> a)"
proof -
  have top: "a div 32 = 7 \<longleftrightarrow> 224 \<le> a"
    using assms(1) by arith
  show ?thesis
    unfolding routable_v4_def special_v4_def in_block_def list_ex_Cons_iff list_ex_Nil_iff fst_conv snd_conv
    by (simp add: dotted_div assms byte_pairs[OF assms(2,3)] top
        del: distrib_right_numeral)
qed

lemma is_public_ipv4_routable:
  "is_public_ipv4 a b c d = routable_v4 (dotted (unat a) (unat b) (unat c) (unat d))"
  by (simp add: routable_v4_bytes byte_bound is_public_ipv4_def byte_eq word_le_nat_alt unat_eq_0)

text \<open>The same for the segments of an IPv6 address.\<close>

lemma segment_shift: "s < 65536 \<Longrightarrow> (n * 65536 + s) div (65536 * k) = n div k" for n s k :: nat
  by (simp add: div_mult2_eq)

definition segs :: "nat \<Rightarrow> nat \<Rightarrow> nat \<Rightarrow> nat \<Rightarrow> nat \<Rightarrow> nat \<Rightarrow> nat \<Rightarrow> nat \<Rightarrow> nat" where
  "segs a b c d e f g h =
     ((((((a * 65536 + b) * 65536 + c) * 65536 + d) * 65536 + e) * 65536 + f) * 65536 + g) * 65536 + h"

lemma segs_shift:
  assumes "b < 65536" "c < 65536" "d < 65536" "e < 65536" "f < 65536" "g < 65536" "h < 65536"
  shows "segs a b c d e f g h div (65536 * (65536 * k)) =
           (((((a * 65536 + b) * 65536 + c) * 65536 + d) * 65536 + e) * 65536 + f) div k"
    and "segs a b c d e f g h div (65536 * (65536 * (65536 * (65536 * (65536 * (65536 * k)))))) =
           (a * 65536 + b) div k"
    and "segs a b c d e f g h div (65536 * (65536 * (65536 * (65536 * (65536 * (65536 * (65536 * k))))))) =
           a div k"
    and "segs a b c d e f g h mod 4294967296 = g * 65536 + h"
proof -
  have gh: "g * 65536 + h < 4294967296"
    using assms(6,7) by simp
  have "segs a b c d e f g h =
      (((((a * 65536 + b) * 65536 + c) * 65536 + d) * 65536 + e) * 65536 + f) * 4294967296 + (g * 65536 + h)"
    unfolding segs_def by simp
  then show "segs a b c d e f g h mod 4294967296 = g * 65536 + h"
    using gh by (metis mod_mult_self3 mod_less)
qed (use assms in \<open>simp_all only: segs_def segment_shift\<close>)

lemma segments_number_segs:
  "segments_number [s0, s1, s2, s3, s4, s5, s6, s7] =
     segs (unat s0) (unat s1) (unat s2) (unat s3) (unat s4) (unat s5) (unat s6) (unat s7)"
  by (simp only: segments_number_def segs_def foldl.simps mult_0 add_0)

lemma segs_div:
  assumes "b < 65536" "c < 65536" "d < 65536" "e < 65536" "f < 65536" "g < 65536" "h < 65536"
  shows "segs a b c d e f g h div 2 ^ 125 = a div 8192"
    and "segs a b c d e f g h div 2 ^ 96 = a * 65536 + b"
    and "segs a b c d e f g h div 2 ^ 100 = (a * 65536 + b) div 16"
    and "segs a b c d e f g h div 2 ^ 32 =
           ((((a * 65536 + b) * 65536 + c) * 65536 + d) * 65536 + e) * 65536 + f"
proof -
  show "segs a b c d e f g h div 2 ^ 125 = a div 8192"
    using segs_shift(3)[OF assms, of a 8192] by simp
  show "segs a b c d e f g h div 2 ^ 96 = a * 65536 + b"
    using segs_shift(2)[OF assms, of a 1] by simp
  show "segs a b c d e f g h div 2 ^ 100 = (a * 65536 + b) div 16"
    using segs_shift(2)[OF assms, of a 16] by simp
  show "segs a b c d e f g h div 2 ^ 32 =
      ((((a * 65536 + b) * 65536 + c) * 65536 + d) * 65536 + e) * 65536 + f"
    using segs_shift(1)[OF assms, of a 1] by (simp del: distrib_right_numeral)
qed

text \<open>The masks of the code read as prefixes.\<close>

lemma unat_drop: "unat (drop_bit n (s :: 16 word)) = unat s div 2 ^ n"
proof -
  have self: "take_bit 16 (unat s) = unat s"
    using segment_bound[of s] by (simp add: take_bit_nat_eq_self)
  show ?thesis
    by (subst unsigned_drop_bit_eq) (simp add: drop_bit_eq_div self)
qed

lemma and_not_mask_div:
  "unat ((s :: 16 word) AND NOT (mask n)) = unat s div 2 ^ n * 2 ^ n"
proof -
  have "s AND NOT (mask n) = push_bit n (drop_bit n s)"
    by (rule bit_word_eqI) (auto simp: bit_simps)
  then have "unat (s AND NOT (mask n)) = unat (push_bit n (drop_bit n s))"
    by simp
  also have "\<dots> = take_bit 16 (unat s div 2 ^ n * 2 ^ n)"
    by (subst unsigned_push_bit_eq, subst unat_drop) (simp add: push_bit_eq_mult)
  finally have "unat (s AND NOT (mask n)) = take_bit 16 (unat s div 2 ^ n * 2 ^ n)" .
  moreover have "unat s div 2 ^ n * 2 ^ n < 65536"
    by (rule le_less_trans[OF div_times_less_eq_dividend segment_bound])
  ultimately show ?thesis
    by (simp add: take_bit_eq_mod)
qed

lemma and_prefix:
  "unat ((s :: 16 word) AND 0xe000) = unat s div 8192 * 8192"
  "unat ((s :: 16 word) AND 0xfff0) = unat s div 16 * 16"
proof -
  have "(0xe000 :: 16 word) = NOT (mask 13)" "(0xfff0 :: 16 word) = NOT (mask 4)"
    by (simp_all add: mask_eq_exp_minus_1)
  then show "unat (s AND 0xe000) = unat s div 8192 * 8192" "unat (s AND 0xfff0) = unat s div 16 * 16"
    using and_not_mask_div[of s 13] and_not_mask_div[of s 4] by simp_all
qed

lemma bytes_of_segment:
  "unat (high_byte s) = unat s div 256" "unat (low_byte s) = unat s mod 256"
proof -
  have "unat s div 2 ^ 8 < 256"
    using segment_bound[of s] by (simp add: less_mult_imp_div_less)
  then show "unat (high_byte s) = unat s div 256"
    unfolding high_byte_def unsigned_ucast_eq unat_drop by (simp add: take_bit_eq_mod)
  show "unat (low_byte s) = unat s mod 256"
    by (simp add: low_byte_def unsigned_ucast_eq take_bit_eq_mod)
qed

lemma mapped_bytes:
  "dotted (unat (high_byte s)) (unat (low_byte s)) (unat (high_byte t)) (unat (low_byte t)) =
     unat s * 65536 + unat t"
  using div_mult_mod_eq[of "unat s" 256] div_mult_mod_eq[of "unat t" 256]
  by (simp add: dotted_def bytes_of_segment)

lemma segs_zero:
  assumes "b < 65536" "c < 65536" "d < 65536" "e < 65536" "f < (65536 :: nat)"
  shows "((((a * 65536 + b) * 65536 + c) * 65536 + d) * 65536 + e) * 65536 + f = 0xffff \<longleftrightarrow>
     a = 0 \<and> b = 0 \<and> c = 0 \<and> d = 0 \<and> e = 0 \<and> f = 0xffff"
  using assms by (simp add: digit_split del: distrib_right_numeral)

lemma segs_pairs:
  assumes "b < (65536 :: nat)"
  shows "a * 65536 + b = 0x20010db8 \<longleftrightarrow> a = 0x2001 \<and> b = 0x0db8"
    and "a * 65536 + b = 0x20010002 \<longleftrightarrow> a = 0x2001 \<and> b = 0x0002"
    and "(a * 65536 + b) div 16 = 0x2001001 \<longleftrightarrow> a = 0x2001 \<and> b div 16 = 1"
    and "(a * 65536 + b) div 16 = 0x2001002 \<longleftrightarrow> a = 0x2001 \<and> b div 16 = 2"
proof -
  have b16: "b div 16 < 4096"
    using assms by (simp add: less_mult_imp_div_less)
  show "(a * 65536 + b) div 16 = 0x2001001 \<longleftrightarrow> a = 0x2001 \<and> b div 16 = 1"
    "(a * 65536 + b) div 16 = 0x2001002 \<longleftrightarrow> a = 0x2001 \<and> b div 16 = 2"
    using digit_div[of 16 a 4096 b] digit_split[OF b16] by simp_all
qed (simp_all add: digit_split[OF assms])

lemma is_public_ipv6_routable:
  "is_public_ipv6 s0 s1 s2 s3 s4 s5 s6 s7 = routable_v6 (segments_number [s0, s1, s2, s3, s4, s5, s6, s7])"
proof -
  note b = segment_bound[of s1] segment_bound[of s2] segment_bound[of s3] segment_bound[of s4]
    segment_bound[of s5] segment_bound[of s6] segment_bound[of s7]
  let ?n = "segs (unat s0) (unat s1) (unat s2) (unat s3) (unat s4) (unat s5) (unat s6) (unat s7)"
  have mapped: "in_block 128 mapped_v6 ?n \<longleftrightarrow>
      s0 = 0 \<and> s1 = 0 \<and> s2 = 0 \<and> s3 = 0 \<and> s4 = 0 \<and> s5 = 0xffff"
    using segs_div(4)[OF b, of "unat s0"] segs_zero[OF b(1-5), of "unat s0"]
    by (simp add: in_block_def mapped_v6_def unat_eq_0 segment_eq)
  have v4: "routable_v4 (?n mod 2 ^ 32) =
      is_public_ipv4 (high_byte s6) (low_byte s6) (high_byte s7) (low_byte s7)"
    using segs_shift(4)[OF b, of "unat s0"]
    by (simp add: is_public_ipv4_routable mapped_bytes)
  have global: "in_block 128 global_v6 ?n \<longleftrightarrow> s0 AND 0xe000 = 0x2000"
    using segs_div(1)[OF b, of "unat s0"]
    by (simp add: in_block_def global_v6_def segment_eq and_prefix)
  have special: "list_ex (\<lambda>b. in_block 128 b ?n) special_v6 \<longleftrightarrow>
      (s0 = 0x2001 \<and> s1 = 0x0db8) \<or> (s0 = 0x2001 \<and> s1 = 0x0002) \<or>
      (s0 = 0x2001 \<and> (s1 AND 0xfff0 = 0x0010 \<or> s1 AND 0xfff0 = 0x0020))"
    using segs_div(2,3)[OF b, of "unat s0"] segs_pairs[OF b(1), of "unat s0"]
    by (auto simp: in_block_def special_v6_def segment_eq and_prefix)
  show ?thesis
    unfolding is_public_ipv6_def segments_number_segs routable_v6_def mapped v4 global special Let_def
    by auto
qed

lemma is_public_ip_routable: "is_public_ip ip = routable ip"
  by (cases ip) (simp_all add: is_public_ipv4_routable is_public_ipv6_routable)

section \<open>The policy\<close>

lemma check_targets_ok:
  "check_targets ep exceptions ips = Inr () \<longleftrightarrow>
     (\<forall>ip\<in>set ips. is_public_ip ip \<or> excepted ep exceptions ip)"
  by (induction ips) auto

text \<open>
  The registries as IANA publishes them (special-purpose addresses of IPv4 and IPv6, multicast): the blocks
  that are not marked globally reachable.
\<close>

definition published_v4 :: "(nat \<times> nat) list" where
  "published_v4 =
     [(dotted 0 0 0 0, 8), (dotted 10 0 0 0, 8), (dotted 100 64 0 0, 10), (dotted 127 0 0 0, 8),
      (dotted 169 254 0 0, 16), (dotted 172 16 0 0, 12), (dotted 192 0 0 0, 24), (dotted 192 0 2 0, 24),
      (dotted 192 88 99 0, 24), (dotted 192 168 0 0, 16), (dotted 198 18 0 0, 15), (dotted 198 51 100 0, 24),
      (dotted 203 0 113 0, 24), (dotted 224 0 0 0, 4), (dotted 240 0 0 0, 4), (dotted 255 255 255 255, 32)]"

definition published_v6 :: "(nat \<times> nat) list" where
  "published_v6 =
     [(0, 128), (1, 128), (0x0064ff9b0001 * 2 ^ 80, 48), (0x0100 * 2 ^ 112, 64), (0x0100000000000001 * 2 ^ 64, 64),
      (0x2001 * 2 ^ 112, 23), (0x2001 * 2 ^ 112, 32), (0x200100020000 * 2 ^ 80, 48), (0x20010010 * 2 ^ 96, 28),
      (0x20010db8 * 2 ^ 96, 32), (0x2002 * 2 ^ 112, 16), (0x3fff * 2 ^ 112, 20), (0x5f00 * 2 ^ 112, 16),
      (0xfc00 * 2 ^ 112, 7), (0xfe80 * 2 ^ 112, 10), (0xff00 * 2 ^ 112, 8)]"

text \<open>
  What the code overlooks of them: the protocol assignments \<open>2001::/23\<close> (Teredo among them) outside the three
  blocks it names there, 6to4 and the second block for documentation.
\<close>

definition overlooked_v6 :: "nat \<Rightarrow> bool" where
  "overlooked_v6 n \<longleftrightarrow>
     list_ex (\<lambda>b. in_block 128 b n) [(0x2001 * 2 ^ 112, 23), (0x2002 * 2 ^ 112, 16), (0x3fff * 2 ^ 112, 20)] \<and>
     \<not> list_ex (\<lambda>b. in_block 128 b n) [(0x20010002 * 2 ^ 96, 32), (0x20010010 * 2 ^ 96, 28), (0x20010020 * 2 ^ 96, 28)]"

definition reachable_v4 :: "nat \<Rightarrow> bool" where
  "reachable_v4 n \<longleftrightarrow> \<not> list_ex (\<lambda>b. in_block 32 b n) published_v4"

fun reachable :: "ip_addr \<Rightarrow> bool" where
  "reachable (V4 a b c d) = reachable_v4 (dotted (unat a) (unat b) (unat c) (unat d))"
| "reachable (V6 s0 s1 s2 s3 s4 s5 s6 s7) =
     (let n = segments_number [s0, s1, s2, s3, s4, s5, s6, s7] in
      if in_block 128 mapped_v6 n then reachable_v4 (n mod 2 ^ 32)
      else in_block 128 global_v6 n \<and> (\<not> list_ex (\<lambda>b. in_block 128 b n) published_v6 \<or> overlooked_v6 n))"

lemma block_prefix:
  assumes "in_block width (p, l) n" and "k \<le> l" and "l \<le> width"
  shows "n div 2 ^ (width - k) = p div 2 ^ (width - k)"
proof -
  have split: "width - k = (width - l) + (l - k)" using assms(2,3) by simp
  have "x div 2 ^ (width - k) = x div 2 ^ (width - l) div 2 ^ (l - k)" for x :: nat
    unfolding split power_add by (rule div_mult2_eq)
  with assms(1) show ?thesis by (simp add: in_block_def)
qed

lemma block_within: "in_block width (p, l) n \<Longrightarrow> k \<le> l \<Longrightarrow> l \<le> width \<Longrightarrow> p div 2 ^ (width - k) = q div 2 ^ (width - k) \<Longrightarrow>
    in_block width (q, k) n"
  using block_prefix[of width p l n k] by (simp add: in_block_def)

lemma reachable_v4_routable: "reachable_v4 n = routable_v4 n"
proof -
  have "in_block 32 (dotted 224 0 0 0, 4) n \<or> in_block 32 (dotted 240 0 0 0, 4) n \<or> in_block 32 (dotted 255 255 255 255, 32) n
      \<longleftrightarrow> in_block 32 (dotted 224 0 0 0, 3) n"
  proof -
    have "n div 2 ^ 29 = n div 2 ^ 28 div 2" by (simp add: div_mult2_eq [symmetric])
    then have "n div 2 ^ 29 = 7 \<longleftrightarrow> n div 2 ^ 28 = 14 \<or> n div 2 ^ 28 = 15" by auto
    moreover have "n = 4294967295 \<Longrightarrow> n div 2 ^ 28 = 15" by simp
    ultimately show ?thesis by (auto simp: in_block_def dotted_def)
  qed
  then show ?thesis
    unfolding reachable_v4_def routable_v4_def published_v4_def special_v4_def list_ex_Cons_iff list_ex_Nil_iff
    by blast
qed

lemma published_outside:
  assumes "in_block 128 global_v6 n"
  shows "list_ex (\<lambda>b. in_block 128 b n) published_v6 \<longleftrightarrow>
    list_ex (\<lambda>b. in_block 128 b n) [(0x2001 * 2 ^ 112, 23), (0x20010db8 * 2 ^ 96, 32), (0x2002 * 2 ^ 112, 16), (0x3fff * 2 ^ 112, 20)]"
proof -
  have top: "n div 2 ^ (128 - 3) = 1" using assms by (simp add: in_block_def global_v6_def)
  have no: "\<not> in_block 128 (p, l) n" if "3 \<le> l" "l \<le> 128" "p div 2 ^ (128 - 3) \<noteq> 1" for p l
    using block_prefix[OF _ that(1,2)] that(3) top by metis
  have within: "in_block 128 (p, l) n \<Longrightarrow> in_block 128 (0x2001 * 2 ^ 112, 23) n"
    if "23 \<le> l" "l \<le> 128" "p div 2 ^ (128 - 23) = 0x2001 * 2 ^ 112 div 2 ^ (128 - 23)" for p l
    using block_within[OF _ that] .
  have out: "\<not> in_block 128 (0, 128) n" "\<not> in_block 128 (1, 128) n" "\<not> in_block 128 (0x0064ff9b0001 * 2 ^ 80, 48) n"
    "\<not> in_block 128 (0x0100 * 2 ^ 112, 64) n" "\<not> in_block 128 (0x0100000000000001 * 2 ^ 64, 64) n"
    "\<not> in_block 128 (0x5f00 * 2 ^ 112, 16) n" "\<not> in_block 128 (0xfc00 * 2 ^ 112, 7) n"
    "\<not> in_block 128 (0xfe80 * 2 ^ 112, 10) n" "\<not> in_block 128 (0xff00 * 2 ^ 112, 8) n"
    by (rule no; simp)+
  have within23: "in_block 128 (0x2001 * 2 ^ 112, 32) n \<Longrightarrow> in_block 128 (0x2001 * 2 ^ 112, 23) n"
    "in_block 128 (0x200100020000 * 2 ^ 80, 48) n \<Longrightarrow> in_block 128 (0x2001 * 2 ^ 112, 23) n"
    "in_block 128 (0x20010010 * 2 ^ 96, 28) n \<Longrightarrow> in_block 128 (0x2001 * 2 ^ 112, 23) n"
    by (rule within; simp)+
  show ?thesis
    unfolding published_v6_def list_ex_Cons_iff list_ex_Nil_iff
    using out within23 by blast
qed

lemma reachable_v6_routable:
  assumes "in_block 128 global_v6 n"
  shows "(list_ex (\<lambda>b. in_block 128 b n) published_v6 \<longrightarrow> overlooked_v6 n) \<longleftrightarrow>
    \<not> list_ex (\<lambda>b. in_block 128 b n) special_v6"
proof -
  let ?D = "in_block 128 (0x20010db8 * 2 ^ 96, 32) n"
  have inside: "in_block 128 (p, l) n \<Longrightarrow> in_block 128 (0x2001 * 2 ^ 112, 23) n"
    if "23 \<le> l" "l \<le> 128" "p div 2 ^ (128 - 23) = 0x2001 * 2 ^ 112 div 2 ^ (128 - 23)" for p l
    using block_within[OF _ that] .
  have apart: "\<not> in_block 128 (q, k) n" if ?D "k \<le> 32" "0x20010db8 * 2 ^ 96 div 2 ^ (128 - k) \<noteq> q div 2 ^ (128 - k)" for q k
    using block_prefix[OF that(1,2)] that(3) by (auto simp: in_block_def)
  have "\<not> in_block 128 (0x2001 * 2 ^ 112, 23) n \<and> \<not> in_block 128 (0x2002 * 2 ^ 112, 16) n \<and>
      \<not> in_block 128 (0x3fff * 2 ^ 112, 20) n" if ?D
    using apart[OF that, of 23 "0x2001 * 2 ^ 112"] apart[OF that, of 16 "0x2002 * 2 ^ 112"]
      apart[OF that, of 20 "0x3fff * 2 ^ 112"] by simp
  moreover have "in_block 128 (0x20010002 * 2 ^ 96, 32) n \<Longrightarrow> in_block 128 (0x2001 * 2 ^ 112, 23) n"
    and "in_block 128 (0x20010010 * 2 ^ 96, 28) n \<Longrightarrow> in_block 128 (0x2001 * 2 ^ 112, 23) n"
    and "in_block 128 (0x20010020 * 2 ^ 96, 28) n \<Longrightarrow> in_block 128 (0x2001 * 2 ^ 112, 23) n"
    by (rule inside; simp)+
  ultimately show ?thesis
    unfolding published_outside[OF assms] overlooked_v6_def special_v6_def list_ex_Cons_iff list_ex_Nil_iff
    by blast
qed

lemma reachable_routable: "reachable ip = routable ip"
  by (cases ip) (simp_all add: reachable_v4_routable reachable_v6_routable routable_v6_def Let_def
      disj_not1 cong: conj_cong)

text \<open>
  C18. The network policy against the published registries. Resolved targets are accepted exactly when there
  is one and every one of them is reachable or named by an exception for this very host, address and port.
  An IPv4 address, also one mapped into IPv6, is reachable exactly when it lies outside every published block
  that is not globally reachable; an IPv6 address when it lies in the assigned space \<open>2000::/3\<close> and outside
  every such block, or in one the code overlooks: \<open>2001::/23\<close> less the three blocks it names there, \<open>2002::/16\<close>
  and \<open>3fff::/20\<close>.
\<close>

theorem validate_targets_exact:
  "validate_resolved_targets ep addresses exceptions = Inr () \<longleftrightarrow>
     addresses \<noteq> [] \<and>
     (\<forall>ip\<in>set addresses. reachable ip \<or>
        (\<exists>x\<in>set exceptions.
           map to_lower (px_host x) = map to_lower (ep_host ep) \<and> px_ip x = ip \<and> px_port x = ep_port ep))"
  by (simp add: validate_resolved_targets_def check_targets_ok is_public_ip_routable reachable_routable excepted_def
      eq_ignore_case_def)

text \<open>A Teredo address, which may lead to a private network, passes the policy.\<close>

lemma teredo_passes: "is_public_ip (V6 0x2001 0 0 0 0 0 0 1)"
  by code_simp

definition internal_git :: repository_endpoint where
  "internal_git = \<lparr>ep_transport = GitSsh, ep_host = pts ''git.internal'', ep_port = 2222,
     ep_path = pts ''/repo.git'', ep_username = None, ep_scp_like = False\<rparr>"

definition internal_exception :: private_target_exception where
  "internal_exception = \<lparr>px_host = pts ''GIT.internal'', px_ip = V4 10 0 0 8, px_port = 2222\<rparr>"

lemma validate_targets_exact_witness:
  "validate_resolved_targets internal_git [V4 8 8 8 8, V4 10 0 0 8, V6 0x2606 0x4700 0 0 0 0 0 1]
     [internal_exception] = Inr () \<and>
   validate_resolved_targets internal_git [V4 8 8 8 8, V6 0 0 0 0 0 0xffff 0x7f00 1]
     [internal_exception] \<noteq> Inr ()"
  unfolding validate_targets_exact by code_simp

section \<open>What an accepted endpoint is\<close>

definition safe_ssh_name :: "ustr \<Rightarrow> bool" where
  "safe_ssh_name u \<longleftrightarrow> u \<noteq> [] \<and> hd u \<noteq> 45 \<and> list_all ssh_name_char u"

definition clean_path :: "ustr \<Rightarrow> bool" where
  "clean_path p \<longleftrightarrow> hd p \<noteq> 58 \<and> (\<forall>c\<in>set p. \<not> is_ctrl c \<and> \<not> is_ws c)"

text \<open>A host is the normal form of a name that does not start with a dash nor end with a dot.\<close>

definition sound_host :: "net_lib \<Rightarrow> ustr \<Rightarrow> bool" where
  "sound_host lib host \<longleftrightarrow>
     (\<exists>h. h \<noteq> [] \<and> hd h \<noteq> 45 \<and> last h \<noteq> 46 \<and> (\<forall>c\<in>set h. \<not> is_ws c) \<and>
        ((\<exists>ip. (nl_ip lib h = Some ip \<or> nl_host lib h = Some (HostIp ip)) \<and> host = nl_ip_text lib ip) \<or>
         (\<exists>d. nl_host lib h = Some (HostDomain d) \<and> host = map to_lower d)))"

definition endpoint_ok :: "net_lib \<Rightarrow> repository_endpoint \<Rightarrow> bool" where
  "endpoint_ok lib ep \<longleftrightarrow>
     sound_host lib (ep_host ep) \<and> ep_port ep \<noteq> 0 \<and> ep_path ep \<noteq> [] \<and>
     (\<forall>u. ep_username ep = Some u \<longrightarrow> ep_transport ep = GitSsh \<and> safe_ssh_name u) \<and>
     (if ep_scp_like ep
      then ep_transport ep = GitSsh \<and> ep_port ep = 22 \<and> clean_path (ep_path ep)
      else ep_path ep \<noteq> [47])"

lemma normalize_ssh_username_safe:
  "normalize_ssh_username v = Inr u \<Longrightarrow> u = v \<and> safe_ssh_name u"
  by (auto simp: normalize_ssh_username_def safe_ssh_name_def split: if_splits)

lemma trim_end_last:
  "trim_end_by p xs \<noteq> [] \<Longrightarrow> \<not> p (last (trim_end_by p xs))"
  unfolding trim_end_by_def
  by (metis hd_dropWhile last_rev rev_is_Nil_conv)

lemma git_normalize_host_sound:
  assumes "git_normalize_host lib v = Inr host"
  shows "sound_host lib host"
proof -
  let ?h = "trim_end_by (\<lambda>c. c = 46) v"
  have "?h \<noteq> []" "hd ?h \<noteq> 45" "\<forall>c\<in>set ?h. \<not> is_ws c"
    using assms by (auto simp: git_normalize_host_def Let_def split: if_splits)
  moreover have "last ?h \<noteq> 46"
    using trim_end_last[of "\<lambda>c. c = 46" v] \<open>?h \<noteq> []\<close> by simp
  moreover have "(\<exists>ip. (nl_ip lib ?h = Some ip \<or> nl_host lib ?h = Some (HostIp ip)) \<and> host = nl_ip_text lib ip) \<or>
         (\<exists>d. nl_host lib ?h = Some (HostDomain d) \<and> host = map to_lower d)"
    using assms by (auto simp: git_normalize_host_def Let_def split: if_splits option.splits url_host.splits)
  ultimately show ?thesis
    unfolding sound_host_def by blast
qed

lemma parse_scp_like_ok:
  assumes "parse_scp_like lib v = Inr ep"
  shows "endpoint_ok lib ep \<and> ep_scp_like ep"
  using assms
  unfolding parse_scp_like_def
  by (auto simp: endpoint_ok_def clean_path_def starts_with_def neq_Nil_conv
      dest!: normalize_ssh_username_safe git_normalize_host_sound
      split: if_splits option.splits sum.splits prod.splits)

lemma parse_url_endpoint_ok:
  assumes "parse_url_endpoint lib parsed = Inr ep"
  shows "endpoint_ok lib ep \<and> \<not> ep_scp_like ep"
  using assms
  unfolding parse_url_endpoint_def
  by (auto simp: endpoint_ok_def Let_def
      dest!: normalize_ssh_username_safe git_normalize_host_sound
      split: if_splits option.splits sum.splits)


definition deploy_url :: ustr where
  "deploy_url = pts ''ssh://deploy@Example.com.:2222/org/repo.git''"

definition sample_net :: net_lib where
  "sample_net = \<lparr>
     nl_url = (\<lambda>v. if v = deploy_url
       then Some \<lparr>pu_scheme = pts ''ssh'', pu_fragment = None, pu_query = None,
              pu_username = pts ''deploy'', pu_password = None, pu_host = Some (pts ''Example.com.''),
              pu_port = Some 2222, pu_path = pts ''/org/repo.git''\<rparr>
       else None),
     nl_host = (\<lambda>h. Some (HostDomain h)), nl_ip = (\<lambda>h. None), nl_ip_text = (\<lambda>ip. [48])\<rparr>"

lemma deploy_url_parses:
  "parse_repository_url sample_net deploy_url =
     Inr \<lparr>ep_transport = GitSsh, ep_host = pts ''example.com'', ep_port = 2222,
          ep_path = pts ''/org/repo.git'', ep_username = Some (pts ''deploy''), ep_scp_like = False\<rparr>"
  by code_simp

lemma scp_parses:
  "parse_repository_url sample_net (pts ''git@example.com:repo.git'') =
     Inr \<lparr>ep_transport = GitSsh, ep_host = pts ''example.com'', ep_port = 22,
          ep_path = pts ''repo.git'', ep_username = Some (pts ''git''), ep_scp_like = True\<rparr>"
  by code_simp


end
