(* ===== verification/Paths.thy ===== *)
theory Paths
  imports Text
begin

text \<open>
  The part of \<open>std::path\<close> (Unix) that the Node agent and the archive crate use: the components of a
  path, \<open>PathBuf::push\<close>, \<open>Path::join\<close> and \<open>Path::parent\<close>. A path is its text, as a list of code
  points or of UTF-8 bytes: only the ASCII characters slash and dot matter here.
\<close>

type_synonym ptext = "nat list"

section \<open>Components\<close>

datatype path_component = RootDir | CurDir | ParentDir | NormalComp ptext

definition part_component :: "ptext \<Rightarrow> path_component list" where
  "part_component s =
     (if s = [] \<or> s = [46] then [] else if s = [46, 46] then [ParentDir] else [NormalComp s])"

definition inner_components :: "ptext \<Rightarrow> path_component list" where
  "inner_components p = concat (map part_component (split_on 47 p))"

text \<open>Dots are dropped except at the start of a relative path.\<close>

definition path_components :: "ptext \<Rightarrow> path_component list" where
  "path_components p =
     (if starts_with [47] p then RootDir # inner_components p
      else if hd (split_on 47 p) = [46] then CurDir # inner_components p
      else inner_components p)"

definition path_push :: "ptext \<Rightarrow> ptext \<Rightarrow> ptext" where
  "path_push b p =
     (if starts_with [47] p then p
      else if b = [] \<or> last b = 47 then b @ p
      else b @ 47 # p)"

fun push_all :: "ptext \<Rightarrow> ptext list \<Rightarrow> ptext" where
  "push_all b [] = b"
| "push_all b (s # ss) = push_all (path_push b s) ss"

text \<open>The parent, by components; a path that ends in a root has none.\<close>

definition parent_components :: "path_component list \<Rightarrow> path_component list option" where
  "parent_components cs = (if cs = [] \<or> last cs = RootDir then None else Some (butlast cs))"

text \<open>A name of a directory entry.\<close>

definition plain_name :: "ptext \<Rightarrow> bool" where
  "plain_name s \<longleftrightarrow> s \<noteq> [] \<and> s \<noteq> [46] \<and> s \<noteq> [46, 46] \<and> 47 \<notin> set s"

section \<open>Laws\<close>

lemma split_on_append: "split_on c (xs @ c # ys) = split_on c xs @ split_on c ys"
proof (induction xs)
  case (Cons x xs)
  then show ?case
    by (cases "split_on c xs") auto
qed simp

lemma split_on_single: "c \<notin> set s \<Longrightarrow> split_on c s = [s]"
  by (induction s) auto

lemma split_on_plain [simp]: "plain_name s \<Longrightarrow> split_on 47 s = [s]"
  by (simp add: plain_name_def split_on_single)

lemma starts_with_single: "starts_with [c] p \<longleftrightarrow> p \<noteq> [] \<and> hd p = c"
  by (cases p) (auto simp: starts_with_def)

lemma part_plain [simp]: "plain_name s \<Longrightarrow> part_component s = [NormalComp s]"
  by (auto simp: plain_name_def part_component_def)

lemma part_cases: "part_component s \<in> {[], [ParentDir], [NormalComp s]}"
  by (simp add: part_component_def)

lemma part_normal: "47 \<notin> set s \<Longrightarrow> NormalComp t \<in> set (part_component s) \<Longrightarrow> t = s \<and> plain_name s"
  by (auto simp: part_component_def plain_name_def split: if_splits)

lemma inner_append: "inner_components (xs @ 47 # ys) = inner_components xs @ inner_components ys"
  by (simp add: inner_components_def split_on_append)

lemma inner_not_root: "RootDir \<notin> set (inner_components p)" "CurDir \<notin> set (inner_components p)"
  by (auto simp: inner_components_def part_component_def split: if_splits)

lemma inner_normal: "NormalComp s \<in> set (inner_components p) \<Longrightarrow> plain_name s"
  by (auto simp: inner_components_def dest: split_on_no_sep part_normal)

lemma components_normal: "NormalComp s \<in> set (path_components p) \<Longrightarrow> plain_name s"
  by (auto simp: path_components_def dest: inner_normal split: if_splits)

lemma hd_split_append: "hd (split_on c (xs @ c # ys)) = hd (split_on c xs)"
  by (simp add: split_on_append)

lemma components_slash:
  assumes "b \<noteq> []"
  shows "path_components (b @ 47 # p) = path_components b @ inner_components p"
  using assms
  by (simp add: path_components_def inner_append hd_split_append starts_with_single)

lemma inner_nil [simp]: "inner_components [] = []"
  by (simp add: inner_components_def part_component_def)

text \<open>Pushing a relative path appends its components.\<close>

lemma components_push:
  assumes "b \<noteq> []" "\<not> starts_with [47] p"
  shows "path_components (path_push b p) = path_components b @ inner_components p"
proof (cases "last b = 47")
  case True
  with assms(1) obtain a where b: "b = a @ [47]"
    by (metis append_butlast_last_id)
  show ?thesis
  proof (cases "a = []")
    case True
    with b assms(2) show ?thesis
      using inner_append[of "[]" p] inner_append[of "[]" "[]"]
      by (simp add: path_push_def path_components_def starts_with_single)
  next
    case False
    with b assms(2) components_slash[of a p] components_slash[of a "[]"] show ?thesis
      by (simp add: path_push_def)
  qed
next
  case False
  with assms components_slash[of b p] show ?thesis
    by (simp add: path_push_def)
qed

lemma inner_plain: "plain_name s \<Longrightarrow> inner_components s = [NormalComp s]"
  by (simp add: inner_components_def)

lemma plain_relative: "plain_name s \<Longrightarrow> \<not> starts_with [47] s"
  by (cases s) (auto simp: plain_name_def starts_with_single)

lemma push_nonempty: "plain_name s \<Longrightarrow> path_push b s \<noteq> []"
  by (auto simp: path_push_def plain_name_def)

lemma components_push_plain:
  assumes "plain_name s"
  shows "path_components (path_push b s) = path_components b @ [NormalComp s]"
proof (cases "b = []")
  case True
  have "path_components s = [NormalComp s]"
    using assms plain_relative[OF assms]
    by (simp add: path_components_def inner_plain) (simp add: plain_name_def)
  moreover have "path_components [] = []"
    by (simp add: path_components_def starts_with_single)
  ultimately show ?thesis
    using True plain_relative[OF assms] by (simp add: path_push_def)
next
  case False
  then show ?thesis
    using assms by (simp add: components_push plain_relative inner_plain)
qed

lemma components_push_all:
  "\<forall>s\<in>set ss. plain_name s \<Longrightarrow> path_components (push_all b ss) = path_components b @ map NormalComp ss"
  by (induction ss arbitrary: b) (simp_all add: components_push_plain)

section \<open>Containment\<close>

text \<open>
  A place inside a directory: below it by names only, so no step of the file system leads out.
\<close>

definition inside :: "ptext \<Rightarrow> path_component list \<Rightarrow> bool" where
  "inside base cs \<longleftrightarrow>
     (\<exists>names. names \<noteq> [] \<and> (\<forall>s\<in>set names. plain_name s) \<and>
        cs = path_components base @ map NormalComp names)"

definition within :: "ptext \<Rightarrow> path_component list \<Rightarrow> bool" where
  "within base cs \<longleftrightarrow> cs = path_components base \<or> inside base cs"

lemma within_iff:
  "within base cs \<longleftrightarrow>
     (\<exists>names. (\<forall>s\<in>set names. plain_name s) \<and> cs = path_components base @ map NormalComp names)"
  unfolding within_def inside_def by (metis append_Nil2 empty_iff list.map(1) list.set(1))

lemma inside_push:
  assumes "plain_name s" "within base (path_components b)"
  shows "inside base (path_components (path_push b s))"
proof -
  from assms(2) obtain names where "\<forall>x\<in>set names. plain_name x"
    "path_components b = path_components base @ map NormalComp names"
    by (auto simp: within_iff)
  with assms(1) show ?thesis
    unfolding inside_def
    by (intro exI[of _ "names @ [s]"]) (auto simp: components_push_plain)
qed

lemma inside_push_all:
  assumes "\<forall>s\<in>set ss. plain_name s" "ss \<noteq> []"
  shows "inside base (path_components (push_all base ss))"
  using assms by (auto simp: inside_def components_push_all)

lemma within_push_all:
  assumes "\<forall>s\<in>set ss. plain_name s"
  shows "within base (path_components (push_all base ss))"
  using inside_push_all[OF assms] by (cases "ss = []") (auto simp: within_def)

lemma parent_inside:
  assumes "inside base cs"
  shows "\<exists>p. parent_components cs = Some p \<and> within base p"
proof -
  from assms obtain names where n: "names \<noteq> []" "\<forall>s\<in>set names. plain_name s"
    "cs = path_components base @ map NormalComp names"
    by (auto simp: inside_def)
  then have "last cs \<noteq> RootDir" "cs \<noteq> []" "butlast cs = path_components base @ map NormalComp (butlast names)"
    by (simp_all add: butlast_append map_butlast last_map)
  moreover have "within base (path_components base @ map NormalComp (butlast names))"
    using n(2) unfolding within_def inside_def
    by (cases "butlast names = []") (auto dest: in_set_butlastD)
  ultimately show ?thesis
    by (simp add: parent_components_def)
qed

end
