(* ===== verification/Archive.thy ===== *)
theory Archive
  imports Paths "HOL-Library.List_Lexorder" "HOL-Library.Code_Target_Numeral"
begin

text \<open>
  Packing and unpacking of build outputs (\<open>crates/archive\<close>). The zip format, the directory walk, the
  checksum and the answers of the operating system are parameters; the directories and files that
  unpacking creates are recorded in a \<open>disk\<close>, also when it fails half way.
\<close>

section \<open>Entry names\<close>

datatype archive_error =
    UnsafeEntryName ptext | EmptyEntryName | EntryCountLimit nat nat | EntrySizeLimit ptext
  | TotalSizeLimit | PackingLimits | SourceGrew | NotADirectory | PathSizeOverflow
  | OutsideSource | ZipFailure | IoFailure

fun sanitize_loop :: "ptext \<Rightarrow> path_component list \<Rightarrow> ptext \<times> nat \<Rightarrow> archive_error + (ptext \<times> nat)" where
  "sanitize_loop name [] st = Inr st"
| "sanitize_loop name (NormalComp s # cs) (safe, n) = sanitize_loop name cs (path_push safe s, Suc n)"
| "sanitize_loop name (CurDir # cs) st = sanitize_loop name cs st"
| "sanitize_loop name (ParentDir # cs) st = Inl (UnsafeEntryName name)"
| "sanitize_loop name (RootDir # cs) st = Inl (UnsafeEntryName name)"

definition sanitize_entry_name :: "ptext \<Rightarrow> archive_error + ptext" where
  "sanitize_entry_name name =
     (case sanitize_loop name (path_components (map (\<lambda>c. if c = 92 then 47 else c) name)) ([], 0) of
        Inl e \<Rightarrow> Inl e
      | Inr (safe, segments) \<Rightarrow> if segments = 0 then Inl EmptyEntryName else Inr safe)"

section \<open>Unpacking\<close>

definition max_entries :: nat where
  "max_entries = 50000"

definition max_total_unpacked_bytes :: nat where
  "max_total_unpacked_bytes = 4 * 1024 * 1024 * 1024"

definition max_entry_unpacked_bytes :: nat where
  "max_entry_unpacked_bytes = 2 * 1024 * 1024 * 1024"

record unpack_limits =
  ul_entries :: nat
  ul_entry_bytes :: nat
  ul_total_bytes :: nat

definition default_unpack_limits :: unpack_limits where
  "default_unpack_limits =
     \<lparr>ul_entries = max_entries, ul_entry_bytes = max_entry_unpacked_bytes,
      ul_total_bytes = max_total_unpacked_bytes\<rparr>"

text \<open>
  An entry as the zip crate presents it: the declared size may differ from what reading yields, and
  reading may fail after some data.
\<close>

record zip_entry =
  ze_name :: ptext
  ze_is_dir :: bool
  ze_size :: nat
  ze_data :: "nat list"
  ze_broken :: bool

record disk =
  dk_dirs :: "path_component list list"
  dk_files :: "(path_component list \<times> nat list) list"

text \<open>
  The operating system may refuse to create a directory or a file. \<open>create_dir_all\<close> records the directory it is
  asked for; the ancestors that it makes on the way when they are missing (of the destination itself, or
  between it and the directory) are not recorded.
\<close>

record os_answers =
  os_mkdir :: "disk \<Rightarrow> path_component list \<Rightarrow> bool"
  os_create :: "disk \<Rightarrow> path_component list \<Rightarrow> bool"

definition create_dir_all :: "os_answers \<Rightarrow> path_component list \<Rightarrow> disk \<Rightarrow> (archive_error + unit) \<times> disk" where
  "create_dir_all os p dk =
     (if os_mkdir os dk p then (Inr (), dk\<lparr>dk_dirs := dk_dirs dk @ [p]\<rparr>) else (Inl IoFailure, dk))"

text \<open>
  \<open>File::create\<close> and \<open>io::copy\<close> from the entry, of which at most \<open>cap + 1\<close> bytes are taken: the number
  of bytes written.
\<close>

definition write_entry ::
  "os_answers \<Rightarrow> path_component list \<Rightarrow> nat \<Rightarrow> zip_entry \<Rightarrow> disk \<Rightarrow> (archive_error + nat) \<times> disk" where
  "write_entry os p cap e dk =
     (if \<not> os_create os dk p then (Inl IoFailure, dk)
      else
        (let bytes = take (cap + 1) (ze_data e);
             dk' = dk\<lparr>dk_files := dk_files dk @ [(p, bytes)]\<rparr>
         in if ze_broken e \<and> length (ze_data e) \<le> cap then (Inl ZipFailure, dk')
            else (Inr (length bytes), dk')))"

definition unpack_entry ::
  "os_answers \<Rightarrow> ptext \<Rightarrow> unpack_limits \<Rightarrow> nat \<times> nat \<Rightarrow> zip_entry \<Rightarrow> disk \<Rightarrow>
   (archive_error + nat \<times> nat) \<times> disk" where
  "unpack_entry os dest limits st e dk =
     (let (extracted, total_written) = st in
      if ze_is_dir e then
        (case sanitize_entry_name (trim_end_by (\<lambda>c. c = 47) (ze_name e)) of
           Inl err \<Rightarrow> (Inl err, dk)
         | Inr safe \<Rightarrow>
             (case create_dir_all os (path_components (path_push dest safe)) dk of
                (Inl err, dk') \<Rightarrow> (Inl err, dk') | (Inr _, dk') \<Rightarrow> (Inr (extracted, total_written), dk')))
      else if ul_entry_bytes limits < ze_size e then (Inl (EntrySizeLimit (ze_name e)), dk)
      else if ul_total_bytes limits - total_written < ze_size e then (Inl TotalSizeLimit, dk)
      else
        (case sanitize_entry_name (ze_name e) of
           Inl err \<Rightarrow> (Inl err, dk)
         | Inr safe \<Rightarrow>
             (let target = path_components (path_push dest safe) in
              case (case parent_components target of
                      Some parent \<Rightarrow> create_dir_all os parent dk | None \<Rightarrow> (Inr (), dk)) of
                (Inl err, dk') \<Rightarrow> (Inl err, dk')
              | (Inr _, dk') \<Rightarrow>
                  (let remaining_total = ul_total_bytes limits - total_written;
                       entry_cap = min (ul_entry_bytes limits) remaining_total
                   in case write_entry os target entry_cap e dk' of
                        (Inl err, dk'') \<Rightarrow> (Inl err, dk'')
                      | (Inr written, dk'') \<Rightarrow>
                          if ul_entry_bytes limits < written then (Inl (EntrySizeLimit (ze_name e)), dk'')
                          else if remaining_total < written then (Inl TotalSizeLimit, dk'')
                          else (Inr (extracted + 1, total_written + written), dk'')))))"

text \<open>Reading an entry by its index may fail as well.\<close>

fun unpack_entries ::
  "os_answers \<Rightarrow> ptext \<Rightarrow> unpack_limits \<Rightarrow> zip_entry option list \<Rightarrow> nat \<times> nat \<Rightarrow> disk \<Rightarrow>
   (archive_error + nat \<times> nat) \<times> disk" where
  "unpack_entries os dest limits [] st dk = (Inr st, dk)"
| "unpack_entries os dest limits (None # es) st dk = (Inl ZipFailure, dk)"
| "unpack_entries os dest limits (Some e # es) st dk =
     (case unpack_entry os dest limits st e dk of
        (Inl err, dk') \<Rightarrow> (Inl err, dk')
      | (Inr st', dk') \<Rightarrow> unpack_entries os dest limits es st' dk')"

record unpacked_archive =
  ua_file_count :: nat
  ua_unpacked_size_bytes :: nat

definition unpack_zip_reader_with_limits ::
  "os_answers \<Rightarrow> zip_entry option list option \<Rightarrow> ptext \<Rightarrow> unpack_limits \<Rightarrow> disk \<Rightarrow>
   (archive_error + unpacked_archive) \<times> disk" where
  "unpack_zip_reader_with_limits os archive dest limits dk =
     (case archive of
        None \<Rightarrow> (Inl ZipFailure, dk)
      | Some entries \<Rightarrow>
          if ul_entries limits < length entries
          then (Inl (EntryCountLimit (length entries) (ul_entries limits)), dk)
          else
            (case create_dir_all os (path_components dest) dk of
               (Inl err, dk') \<Rightarrow> (Inl err, dk')
             | (Inr _, dk') \<Rightarrow>
                 (case unpack_entries os dest limits entries (0, 0) dk' of
                    (Inl err, dk'') \<Rightarrow> (Inl err, dk'')
                  | (Inr (extracted, total_written), dk'') \<Rightarrow>
                      (Inr \<lparr>ua_file_count = extracted, ua_unpacked_size_bytes = total_written\<rparr>, dk''))))"

definition unpack_zip ::
  "os_answers \<Rightarrow> (nat list \<Rightarrow> zip_entry option list option) \<Rightarrow> nat list option \<Rightarrow> ptext \<Rightarrow> disk \<Rightarrow>
   (archive_error + unpacked_archive) \<times> disk" where
  "unpack_zip os zip_read file dest dk =
     (case file of
        None \<Rightarrow> (Inl IoFailure, dk)
      | Some bytes \<Rightarrow> unpack_zip_reader_with_limits os (zip_read bytes) dest default_unpack_limits dk)"

section \<open>Packing\<close>

text \<open>
  What the walk of the source directory yields: names below the source, the size of the metadata, and
  the bytes that reading the file gives later (none when it cannot be opened).
\<close>

record walked =
  wk_names :: "ptext list"
  wk_is_file :: bool
  wk_len :: nat
  wk_data :: "nat list option"

definition max_name_bytes :: nat where
  "max_name_bytes = 16 * 1024 * 1024"

fun pack_collect ::
  "ptext \<Rightarrow> walked option list \<Rightarrow> walked list \<times> nat \<times> nat \<Rightarrow> archive_error + walked list" where
  "pack_collect source [] (entries, source_bytes, name_bytes) = Inr entries"
| "pack_collect source (None # ws) st = Inl IoFailure"
| "pack_collect source (Some w # ws) (entries, source_bytes, name_bytes) =
     (if \<not> wk_is_file w then pack_collect source ws (entries, source_bytes, name_bytes)
      else
        (let name_bytes = name_bytes + utf8_len (push_all source (wk_names w)) in
         if 2 ^ 64 \<le> name_bytes then Inl PathSizeOverflow
         else if max_entries \<le> length entries \<or> max_entry_unpacked_bytes < wk_len w \<or>
                 max_total_unpacked_bytes - source_bytes < wk_len w \<or> max_name_bytes < name_bytes
         then Inl PackingLimits
         else pack_collect source ws (entries @ [w], source_bytes + wk_len w, name_bytes)))"

definition entry_name :: "walked \<Rightarrow> ptext" where
  "entry_name w = join_with [47] (wk_names w)"

fun pack_write ::
  "walked list \<Rightarrow> (ptext \<times> nat list) list \<times> nat \<Rightarrow> archive_error + ((ptext \<times> nat list) list \<times> nat)" where
  "pack_write [] st = Inr st"
| "pack_write (w # ws) (out, unpacked) =
     (case wk_data w of
        None \<Rightarrow> Inl IoFailure
      | Some bytes \<Rightarrow>
          (let remaining = min max_entry_unpacked_bytes (max_total_unpacked_bytes - unpacked);
               copied = take (remaining + 1) bytes
           in if remaining < length copied then Inl SourceGrew
              else pack_write ws (out @ [(entry_name w, copied)], unpacked + length copied)))"

record packed_archive =
  pa_size_bytes :: nat
  pa_unpacked_size_bytes :: nat
  pa_checksum_sha256 :: ptext
  pa_file_count :: nat

text \<open>The zip crate and the checksum.\<close>

record archive_lib =
  al_write :: "(ptext \<times> nat list) list \<Rightarrow> nat list option"
  al_read :: "nat list \<Rightarrow> zip_entry option list option"
  al_sha256 :: "nat list \<Rightarrow> ptext"

definition pack_dir ::
  "archive_lib \<Rightarrow> ptext \<Rightarrow> bool \<Rightarrow> bool \<Rightarrow> walked option list \<Rightarrow> archive_error + (packed_archive \<times> nat list)" where
  "pack_dir lib source source_is_dir dest_ok walk =
     (if \<not> source_is_dir then Inl NotADirectory
      else if \<not> dest_ok then Inl IoFailure
      else
        (case pack_collect source walk ([], 0, 0) of
           Inl e \<Rightarrow> Inl e
         | Inr entries \<Rightarrow>
             (case pack_write (sort_key wk_names entries) ([], 0) of
                Inl e \<Rightarrow> Inl e
              | Inr (out, unpacked) \<Rightarrow>
                  (case al_write lib out of
                     None \<Rightarrow> Inl ZipFailure
                   | Some bytes \<Rightarrow>
                       Inr (\<lparr>pa_size_bytes = length bytes, pa_unpacked_size_bytes = unpacked,
                             pa_checksum_sha256 = al_sha256 lib bytes,
                             pa_file_count = length entries\<rparr>, bytes)))))"

section \<open>Sanitized names stay inside\<close>

lemma sanitize_loop_Inr:
  assumes "sanitize_loop name cs (safe, n) = Inr (safe', n')"
  shows "\<exists>ss. map NormalComp ss = filter (\<lambda>c. c \<noteq> CurDir) cs \<and> safe' = push_all safe ss \<and> n' = n + length ss"
  using assms
proof (induction name cs "(safe, n)" arbitrary: safe n rule: sanitize_loop.induct)
  case (2 name s cs safe n)
  then obtain ss where "map NormalComp ss = filter (\<lambda>c. c \<noteq> CurDir) cs"
    "safe' = push_all (path_push safe s) ss" "n' = Suc n + length ss"
    by auto
  then show ?case
    by (intro exI[of _ "s # ss"]) simp
qed auto

lemma components_empty [simp]: "path_components [] = []"
  by (simp add: path_components_def starts_with_single)

lemma names_relative:
  assumes "path_components p = map NormalComp ss"
  shows "\<not> starts_with [47] p \<and> inner_components p = map NormalComp ss"
  using assms by (auto simp: path_components_def split: if_splits)

lemma components_join:
  assumes "path_components p = map NormalComp ss"
  shows "path_components (path_push b p) = path_components b @ map NormalComp ss"
proof (cases "b = []")
  case True
  with assms names_relative[OF assms] show ?thesis
    by (simp add: path_push_def)
next
  case False
  with names_relative[OF assms] show ?thesis
    by (simp add: components_push)
qed

lemma sanitize_Inr:
  assumes "sanitize_entry_name name = Inr safe"
  shows "\<exists>ss. ss \<noteq> [] \<and> (\<forall>s\<in>set ss. plain_name s) \<and> path_components safe = map NormalComp ss \<and>
    map NormalComp ss =
      filter (\<lambda>c. c \<noteq> CurDir) (path_components (map (\<lambda>c. if c = 92 then 47 else c) name))"
proof -
  let ?cs = "path_components (map (\<lambda>c. if c = 92 then 47 else c) name)"
  from assms obtain k where "sanitize_loop name ?cs ([], 0) = Inr (safe, k)" "k \<noteq> 0"
    by (auto simp: sanitize_entry_name_def split: sum.splits prod.splits if_splits)
  then obtain ss where ss: "map NormalComp ss = filter (\<lambda>c. c \<noteq> CurDir) ?cs" "safe = push_all [] ss" "ss \<noteq> []"
    by (force dest: sanitize_loop_Inr)
  have "\<forall>s\<in>set ss. plain_name s"
  proof
    fix s assume "s \<in> set ss"
    then have "NormalComp s \<in> set (map NormalComp ss)" by simp
    then have "NormalComp s \<in> set ?cs" unfolding ss(1) by simp
    then show "plain_name s" by (rule components_normal)
  qed
  with ss show ?thesis
    by (auto simp: components_push_all)
qed

lemma sanitize_inside:
  assumes "sanitize_entry_name name = Inr safe"
  shows "inside dest (path_components (path_push dest safe))"
proof -
  from sanitize_Inr[OF assms] obtain ss where "ss \<noteq> []" "\<forall>s\<in>set ss. plain_name s"
    "path_components safe = map NormalComp ss"
    by blast
  then show ?thesis
    by (auto simp: inside_def components_join)
qed

section \<open>What unpacking writes\<close>

definition grows ::
  "disk \<Rightarrow> path_component list list \<Rightarrow> (path_component list \<times> nat list) list \<Rightarrow> disk \<Rightarrow> bool" where
  "grows dk ds fs dk' \<longleftrightarrow> dk' = dk\<lparr>dk_dirs := dk_dirs dk @ ds, dk_files := dk_files dk @ fs\<rparr>"

definition file_bytes :: "(path_component list \<times> nat list) list \<Rightarrow> nat" where
  "file_bytes fs = sum_list (map (\<lambda>f. length (snd f)) fs)"

definition confined ::
  "ptext \<Rightarrow> path_component list list \<Rightarrow> (path_component list \<times> nat list) list \<Rightarrow> bool" where
  "confined dest ds fs \<longleftrightarrow> (\<forall>p\<in>set ds. within dest p) \<and> (\<forall>f\<in>set fs. inside dest (fst f))"

lemma grows_refl [simp]: "grows dk [] [] dk"
  by (simp add: grows_def)

lemma grows_trans: "grows a ds fs b \<Longrightarrow> grows b ds' fs' c \<Longrightarrow> grows a (ds @ ds') (fs @ fs') c"
  by (simp add: grows_def)

lemma file_bytes_simps [simp]:
  "file_bytes [] = 0"
  "file_bytes (f # fs) = length (snd f) + file_bytes fs"
  "file_bytes (fs @ gs) = file_bytes fs + file_bytes gs"
  by (simp_all add: file_bytes_def)

lemma confined_append: "confined dest (ds @ ds') (fs @ fs') \<longleftrightarrow> confined dest ds fs \<and> confined dest ds' fs'"
  by (auto simp: confined_def)

lemma create_dir_grows:
  "create_dir_all os p dk = (r, dk') \<Longrightarrow>
     grows dk (if r = Inr () then [p] else []) [] dk'"
  by (auto simp: create_dir_all_def grows_def split: if_splits)

text \<open>The file an entry becomes.\<close>

definition entry_files :: "ptext \<Rightarrow> zip_entry \<Rightarrow> (path_component list \<times> nat list) list" where
  "entry_files dest e =
     (if ze_is_dir e then []
      else case sanitize_entry_name (ze_name e) of
             Inl _ \<Rightarrow> []
           | Inr safe \<Rightarrow> [(path_components (path_push dest safe), ze_data e)])"

text \<open>What one entry may do: nothing outside, no byte beyond the limits but the one that shows them exceeded.\<close>

definition entry_effect ::
  "ptext \<Rightarrow> unpack_limits \<Rightarrow> nat \<times> nat \<Rightarrow> disk \<Rightarrow> (archive_error + nat \<times> nat) \<Rightarrow> disk \<Rightarrow>
   path_component list list \<Rightarrow> (path_component list \<times> nat list) list \<Rightarrow> bool" where
  "entry_effect dest limits st dk r dk' ds fs \<longleftrightarrow>
     grows dk ds fs dk' \<and> confined dest ds fs \<and>
     (\<forall>f\<in>set fs. length (snd f) \<le> ul_entry_bytes limits + 1) \<and>
     (case r of
        Inl _ \<Rightarrow> snd st + file_bytes fs \<le> ul_total_bytes limits + 1
      | Inr (n, t) \<Rightarrow> n = fst st + length fs \<and> t = snd st + file_bytes fs \<and> t \<le> ul_total_bytes limits)"

lemma write_entry_effect:
  assumes "write_entry os p cap e dk = (r, dk')"
  shows "\<exists>fs. grows dk [] fs dk' \<and> (\<forall>f\<in>set fs. fst f = p) \<and> length fs \<le> 1 \<and> file_bytes fs \<le> cap + 1 \<and>
    (\<forall>w. r = Inr w \<longrightarrow> fs = [(p, take (cap + 1) (ze_data e))] \<and> w = length (take (cap + 1) (ze_data e)))"
proof (cases "os_create os dk p")
  case True
  with assms show ?thesis
    by (intro exI[of _ "[(p, take (cap + 1) (ze_data e))]"])
      (auto simp: write_entry_def Let_def grows_def split: if_splits)
next
  case False
  with assms show ?thesis
    by (intro exI[of _ "[]"]) (auto simp: write_entry_def)
qed

lemma entry_effect_idle:
  "snd st \<le> ul_total_bytes limits \<Longrightarrow> entry_effect dest limits st dk (Inl e) dk [] []"
  "snd st \<le> ul_total_bytes limits \<Longrightarrow> within dest p \<Longrightarrow> grows dk [p] [] dk' \<Longrightarrow>
     entry_effect dest limits st dk (Inl e) dk' [p] []"
  by (simp_all add: entry_effect_def confined_def)

lemma unpack_dir_effect:
  assumes "unpack_entry os dest limits st e dk = (r, dk')" "ze_is_dir e" "snd st \<le> ul_total_bytes limits"
  shows "\<exists>ds. entry_effect dest limits st dk r dk' ds []"
proof (cases "sanitize_entry_name (trim_end_by (\<lambda>c. c = 47) (ze_name e))")
  case (Inl err)
  with assms entry_effect_idle(1)[OF assms(3)] show ?thesis
    by (auto simp: unpack_entry_def split: prod.splits)
next
  case (Inr safe)
  let ?p = "path_components (path_push dest safe)"
  obtain q dk1 where run: "create_dir_all os ?p dk = (q, dk1)" by force
  have "r = (case q of Inl err \<Rightarrow> Inl err | Inr _ \<Rightarrow> Inr st)" "dk' = dk1"
    using assms(1,2) Inr run by (auto simp: unpack_entry_def split: prod.splits sum.splits)
  moreover have "within dest ?p"
    using sanitize_inside[OF Inr] by (simp add: within_def)
  ultimately show ?thesis
    using create_dir_grows[OF run] assms(3)
    by (intro exI[of _ "if q = Inr () then [?p] else []"])
      (auto simp: entry_effect_def confined_def split: sum.splits)
qed

lemma unpack_file_effect:
  assumes run: "unpack_entry os dest limits st e dk = (r, dk')" and plain: "\<not> ze_is_dir e"
    and below: "snd st \<le> ul_total_bytes limits"
  shows "\<exists>ds fs. entry_effect dest limits st dk r dk' ds fs \<and>
    length fs \<le> 1 \<and> (\<forall>x. r = Inr x \<longrightarrow> fs = entry_files dest e)"
proof (cases "\<exists>err. r = Inl err \<and> dk' = dk")
  case True
  with entry_effect_idle(1)[OF below] show ?thesis
    by (intro exI[of _ "[]"]) auto
next
  case active: False
  obtain n t where st: "st = (n, t)" by force
  from run plain active obtain safe where safe: "sanitize_entry_name (ze_name e) = Inr safe"
    by (auto simp: unpack_entry_def st split: if_splits sum.splits)
  let ?target = "path_components (path_push dest safe)"
  let ?cap = "min (ul_entry_bytes limits) (ul_total_bytes limits - t)"
  have target: "inside dest ?target"
    by (rule sanitize_inside[OF safe])
  then obtain parent where parent: "parent_components ?target = Some parent" "within dest parent"
    using parent_inside by blast
  obtain q dk1 where mk: "create_dir_all os parent dk = (q, dk1)" by force
  note grow1 = create_dir_grows[OF mk]
  show ?thesis
  proof (cases q)
    case (Inl err)
    then have "r = Inl err" "dk' = dk1"
      using run plain active safe parent mk by (auto simp: unpack_entry_def st Let_def split: if_splits)
    with Inl grow1 active show ?thesis
      by (auto simp: grows_def)
  next
    case (Inr unit)
    obtain w dk2 where wr: "write_entry os ?target ?cap e dk1 = (w, dk2)" by force
    from write_entry_effect[OF wr] obtain fs where fs: "grows dk1 [] fs dk2" "\<forall>f\<in>set fs. fst f = ?target"
      "length fs \<le> 1" "file_bytes fs \<le> ?cap + 1"
      "\<forall>k. w = Inr k \<longrightarrow> fs = [(?target, take (?cap + 1) (ze_data e))] \<and> k = length (take (?cap + 1) (ze_data e))"
      by blast
    have grow: "grows dk [parent] fs dk2"
      using grows_trans[OF grow1 fs(1)] Inr by simp
    have conf: "confined dest [parent] fs"
      using parent(2) target fs(2) by (auto simp: confined_def)
    have each: "\<forall>f\<in>set fs. length (snd f) \<le> ul_entry_bytes limits + 1"
    proof
      fix f assume "f \<in> set fs"
      with fs(3) have "fs = [f]" by (cases fs) auto
      with fs(4) show "length (snd f) \<le> ul_entry_bytes limits + 1" by simp
    qed
    have outcome: "dk' = dk2 \<and> r = (case w of
        Inl err \<Rightarrow> Inl err
      | Inr k \<Rightarrow> if ul_entry_bytes limits < k then Inl (EntrySizeLimit (ze_name e))
          else if ul_total_bytes limits - t < k then Inl TotalSizeLimit else Inr (n + 1, t + k))"
      using run plain active safe parent mk Inr wr
      by (auto simp: unpack_entry_def st Let_def split: if_splits sum.splits)
    have total: "t + file_bytes fs \<le> ul_total_bytes limits + 1"
      using fs(4) below st by auto
    have "entry_effect dest limits st dk r dk' [parent] fs \<and> (\<forall>x. r = Inr x \<longrightarrow> fs = entry_files dest e)"
    proof (cases r)
      case (Inl err)
      moreover have "dk' = dk2" using outcome by blast
      ultimately show ?thesis
        using grow conf each total st by (simp add: entry_effect_def)
    next
      case (Inr x)
      with outcome obtain k where k: "w = Inr k" "k \<le> ul_entry_bytes limits" "k \<le> ul_total_bytes limits - t"
        "x = (n + 1, t + k)"
        by (auto split: sum.splits if_splits)
      with fs(5) have "take (?cap + 1) (ze_data e) = ze_data e" "k = length (ze_data e)"
        by (auto simp: min_def split: if_splits)
      with k fs(5) have "fs = [(?target, ze_data e)]" by simp
      with Inr k grow conf each outcome st below \<open>k = length (ze_data e)\<close> safe plain show ?thesis
        by (auto simp: entry_effect_def entry_files_def)
    qed
    with fs(3) show ?thesis by blast
  qed
qed

lemma unpack_entry_effect:
  assumes "unpack_entry os dest limits st e dk = (r, dk')" "snd st \<le> ul_total_bytes limits"
  shows "\<exists>ds fs. entry_effect dest limits st dk r dk' ds fs \<and>
    length fs \<le> 1 \<and> (\<forall>x. r = Inr x \<longrightarrow> fs = entry_files dest e)"
proof (cases "ze_is_dir e")
  case True
  from unpack_dir_effect[OF assms(1) True assms(2)] obtain ds
    where "entry_effect dest limits st dk r dk' ds []" by blast
  with True show ?thesis
    by (intro exI[of _ ds] exI[of _ "[]"]) (simp add: entry_files_def)
next
  case False
  with assms show ?thesis by (intro unpack_file_effect) auto
qed

lemma unpack_entries_effect:
  assumes "unpack_entries os dest limits es st dk = (r, dk')" "snd st \<le> ul_total_bytes limits"
  shows "\<exists>ds fs. entry_effect dest limits st dk r dk' ds fs \<and> length fs \<le> length es \<and>
    (\<forall>x. r = Inr x \<longrightarrow> fs = concat (map (\<lambda>e. case e of Some z \<Rightarrow> entry_files dest z | None \<Rightarrow> []) es))"
  using assms
proof (induction os dest limits es st dk arbitrary: r dk' rule: unpack_entries.induct)
  case (1 os dest limits st dk)
  then show ?case
    by (intro exI[of _ "[]"]) (auto simp: entry_effect_def confined_def split: prod.splits)
next
  case (2 os dest limits es st dk)
  then show ?case
    using entry_effect_idle(1)[of st limits dest dk ZipFailure] by (intro exI[of _ "[]"]) auto
next
  case (3 os dest limits e es st dk)
  obtain q dk1 where one: "unpack_entry os dest limits st e dk = (q, dk1)" by force
  from unpack_entry_effect[OF one "3.prems"(2)] obtain ds fs where
    first: "entry_effect dest limits st dk q dk1 ds fs" "length fs \<le> 1"
      "\<forall>x. q = Inr x \<longrightarrow> fs = entry_files dest e"
    by blast
  show ?case
  proof (cases q)
    case (Inl err)
    with "3.prems" one have "r = Inl err" "dk' = dk1" by auto
    with first Inl show ?thesis by (intro exI[of _ ds] exI[of _ fs]) simp
  next
    case (Inr st1)
    have rest: "unpack_entries os dest limits es st1 dk1 = (r, dk')"
      using "3.prems"(1) one Inr by simp
    obtain n1 t1 where st1: "st1 = (n1, t1)" by force
    have below: "snd st1 \<le> ul_total_bytes limits"
      using first(1) Inr by (simp add: entry_effect_def split: prod.splits)
    from "3.IH"[OF one[symmetric] Inr rest below] obtain ds' fs' where
      more: "entry_effect dest limits st1 dk1 r dk' ds' fs'" "length fs' \<le> length es"
        "\<forall>x. r = Inr x \<longrightarrow> fs' = concat (map (\<lambda>e. case e of Some z \<Rightarrow> entry_files dest z | None \<Rightarrow> []) es)"
      by blast
    have "entry_effect dest limits st dk r dk' (ds @ ds') (fs @ fs')"
      using first(1) more(1) Inr grows_trans
      by (auto simp: entry_effect_def confined_append split: sum.splits prod.splits)
    moreover have "length (fs @ fs') \<le> length (Some e # es)"
      using first(2) more(2) by simp
    ultimately show ?thesis
      using first(3) more(3) Inr by (intro exI[of _ "ds @ ds'"] exI[of _ "fs @ fs'"]) auto
  qed
qed

text \<open>
  C20. Unpacking an archive, however hostile, creates directories and files inside the destination
  only, whether it succeeds or fails half way: every path it creates is the destination itself or below
  it by plain names. It writes at most as many files as entries are allowed, no file more than one
  byte over the entry limit and all files together at most one byte over the total limit; when it
  succeeds, the total is within the limit, and it reports exactly the files and bytes it wrote, the
  files being those of the entries with their whole contents.
\<close>

theorem unpack_confined:
  assumes "unpack_zip_reader_with_limits os (Some entries) dest limits dk = (r, dk')"
  shows "\<exists>ds fs. grows dk ds fs dk' \<and>
    (\<forall>p\<in>set ds. within dest p) \<and> (\<forall>f\<in>set fs. inside dest (fst f)) \<and>
    length fs \<le> ul_entries limits \<and>
    (\<forall>f\<in>set fs. length (snd f) \<le> ul_entry_bytes limits + 1) \<and>
    file_bytes fs \<le> ul_total_bytes limits + 1 \<and>
    (\<forall>a. r = Inr a \<longrightarrow>
       ua_file_count a = length fs \<and> ua_unpacked_size_bytes a = file_bytes fs \<and>
       file_bytes fs \<le> ul_total_bytes limits \<and>
       fs = concat (map (\<lambda>e. case e of Some z \<Rightarrow> entry_files dest z | None \<Rightarrow> []) entries))"
proof (cases "ul_entries limits < length entries")
  case True
  with assms show ?thesis
    by (intro exI[of _ "[]"]) (auto simp: unpack_zip_reader_with_limits_def)
next
  case few: False
  let ?root = "path_components dest"
  obtain q dk1 where mk: "create_dir_all os ?root dk = (q, dk1)" by force
  note grow1 = create_dir_grows[OF mk]
  show ?thesis
  proof (cases q)
    case (Inl err)
    with few assms mk grow1 show ?thesis
      by (intro exI[of _ "[]"]) (auto simp: unpack_zip_reader_with_limits_def)
  next
    case (Inr unit)
    obtain s dk2 where all: "unpack_entries os dest limits entries (0, 0) dk1 = (s, dk2)" by force
    obtain ds fs where eff: "entry_effect dest limits (0, 0) dk1 s dk2 ds fs" "length fs \<le> length entries"
      "\<forall>x. s = Inr x \<longrightarrow> fs = concat (map (\<lambda>e. case e of Some z \<Rightarrow> entry_files dest z | None \<Rightarrow> []) entries)"
      using unpack_entries_effect[OF all] by auto
    have "grows dk (?root # ds) fs dk2"
      using grows_trans[OF grow1, of ds fs dk2] eff(1) Inr by (simp add: entry_effect_def)
    moreover have "r = (case s of Inl err \<Rightarrow> Inl err
        | Inr (n, t) \<Rightarrow> Inr \<lparr>ua_file_count = n, ua_unpacked_size_bytes = t\<rparr>)" "dk' = dk2"
      using assms few mk Inr all
      by (auto simp: unpack_zip_reader_with_limits_def split: sum.splits prod.splits)
    moreover have "file_bytes fs \<le> ul_total_bytes limits + 1"
      using eff(1) by (auto simp: entry_effect_def split: sum.splits)
    ultimately show ?thesis
      using eff few
      by (intro exI[of _ "?root # ds"] exI[of _ fs])
        (auto simp: entry_effect_def confined_def within_def split: sum.splits)
  qed
qed

definition open_os :: os_answers where
  "open_os = \<lparr>os_mkdir = (\<lambda>_ _. True), os_create = (\<lambda>_ _. True)\<rparr>"

definition small_limits :: unpack_limits where
  "small_limits = \<lparr>ul_entries = 3, ul_entry_bytes = 4, ul_total_bytes = 6\<rparr>"

definition stored :: "ptext \<times> nat list \<Rightarrow> zip_entry" where
  "stored f = \<lparr>ze_name = fst f, ze_is_dir = False, ze_size = length (snd f), ze_data = snd f, ze_broken = False\<rparr>"

definition empty_disk :: disk where
  "empty_disk = \<lparr>dk_dirs = [], dk_files = []\<rparr>"

definition bomb :: zip_entry where
  "bomb = \<lparr>ze_name = pts ''b'', ze_is_dir = False, ze_size = 1, ze_data = [1, 2, 3, 4, 5, 6, 7, 8], ze_broken = False\<rparr>"

text \<open>A decompression bomb: the entry claims one byte and yields eight.\<close>

lemma bomb_run:
  "unpack_zip_reader_with_limits open_os (Some [Some (stored (pts ''./a'', [7])), Some bomb]) (pts ''/t'') small_limits
     empty_disk =
   (Inl (EntrySizeLimit (pts ''b'')),
    \<lparr>dk_dirs = [[RootDir, NormalComp (pts ''t'')], [RootDir, NormalComp (pts ''t'')],
                [RootDir, NormalComp (pts ''t'')]],
     dk_files = [([RootDir, NormalComp (pts ''t''), NormalComp (pts ''a'')], [7]),
                 ([RootDir, NormalComp (pts ''t''), NormalComp (pts ''b'')], [1, 2, 3, 4, 5])]\<rparr>)"
  by code_simp

lemma unpack_confined_witness:
  "\<exists>ds fs. grows empty_disk ds fs
      (snd (unpack_zip_reader_with_limits open_os
         (Some [Some (stored (pts ''./a'', [7])), Some bomb]) (pts ''/t'') small_limits empty_disk)) \<and>
    (\<forall>f\<in>set fs. inside (pts ''/t'') (fst f)) \<and> file_bytes fs \<le> 7"
  using unpack_confined[OF bomb_run] unfolding bomb_run
  by (auto simp: small_limits_def)

section \<open>Unpacking what was packed\<close>

lemma split_join:
  "xs \<noteq> [] \<Longrightarrow> \<forall>p\<in>set xs. c \<notin> set p \<Longrightarrow> split_on c (join_with [c] xs) = xs"
  by (induction "[c]" xs rule: join_with.induct) (simp_all add: split_on_append split_on_single)

definition portable :: "ptext list \<Rightarrow> bool" where
  "portable names \<longleftrightarrow> names \<noteq> [] \<and> (\<forall>s\<in>set names. plain_name s \<and> 92 \<notin> set s)"

lemma set_join: "set (join_with [c] xs) \<subseteq> insert c (\<Union>p\<in>set xs. set p)"
  by (induction "[c]" xs rule: join_with.induct) auto

lemma concat_parts: "\<forall>s\<in>set ss. plain_name s \<Longrightarrow> concat (map part_component ss) = map NormalComp ss"
  by (induction ss) simp_all

lemma joined_components:
  assumes "portable names"
  shows "path_components (map (\<lambda>c. if c = 92 then 47 else c) (join_with [47] names)) = map NormalComp names"
proof -
  let ?j = "join_with [47] names"
  have "map (\<lambda>c. if c = 92 then 47 else c) ?j = ?j"
    using assms set_join[of 47 names] by (intro map_idI) (auto simp: portable_def)
  moreover have split: "split_on 47 ?j = names"
    using assms by (intro split_join) (auto simp: portable_def plain_name_def)
  moreover have "hd names \<noteq> [46]" "plain_name (hd names)"
    using assms by (cases names; auto simp: portable_def plain_name_def)+
  moreover have "\<not> starts_with [47] ?j"
  proof
    assume "starts_with [47] ?j"
    then obtain r where "?j = [] @ 47 # r" by (cases ?j) (auto simp: starts_with_single)
    then have "hd (split_on 47 ?j) = []" by simp
    then show False using split \<open>plain_name (hd names)\<close> by (simp add: plain_name_def)
  qed
  ultimately show ?thesis
    using assms by (simp add: path_components_def inner_components_def portable_def concat_parts)
qed

lemma sanitize_loop_names:
  "sanitize_loop name (map NormalComp ss) (safe, n) = Inr (push_all safe ss, n + length ss)"
  by (induction ss arbitrary: safe n) simp_all

lemma sanitize_portable:
  assumes "portable names"
  shows "sanitize_entry_name (join_with [47] names) = Inr (push_all [] names)"
  using assms
  by (simp add: sanitize_entry_name_def joined_components sanitize_loop_names portable_def)

lemma joined_name:
  assumes "portable names"
  shows "join_with [47] names \<noteq> []" "last (join_with [47] names) \<noteq> 47"
proof -
  have split: "split_on 47 (join_with [47] names) = names"
    using assms by (intro split_join) (auto simp: portable_def plain_name_def)
  have "[] \<notin> set names"
    using assms by (auto simp: portable_def plain_name_def)
  then show ne: "join_with [47] names \<noteq> []"
    using split by (metis list.set_intros(1) split_on.simps(1))
  show "last (join_with [47] names) \<noteq> 47"
  proof
    assume "last (join_with [47] names) = 47"
    with ne obtain b where "join_with [47] names = b @ 47 # []"
      by (metis append_butlast_last_id)
    then have "names = split_on 47 b @ [[]]"
      using split split_on_append[of 47 b "[]"] by simp
    with \<open>[] \<notin> set names\<close> show False by (metis in_set_conv_decomp)
  qed
qed

lemma portable_file:
  assumes "portable names"
  shows "entry_files dest (stored (join_with [47] names, bytes)) =
    [(path_components dest @ map NormalComp names, bytes)]"
proof -
  have "path_components (push_all [] names) = map NormalComp names"
    using assms by (simp add: components_push_all portable_def)
  then show ?thesis
    using assms by (simp add: entry_files_def stored_def sanitize_portable components_join)
qed

lemma pack_collect_Inr:
  assumes "pack_collect source ws (es, sb, nb) = Inr r" "length es \<le> max_entries"
  shows "r = es @ filter wk_is_file (map the ws) \<and> length r \<le> max_entries"
  using assms
  by (induction source ws "(es, sb, nb)" arbitrary: es sb nb rule: pack_collect.induct)
    (auto simp: Let_def split: if_splits)

lemma pack_write_Inr:
  assumes "pack_write ws (out, u) = Inr (out', u')" "u \<le> max_total_unpacked_bytes"
  shows "out' = out @ map (\<lambda>w. (entry_name w, the (wk_data w))) ws \<and>
    u' = u + sum_list (map (\<lambda>w. length (the (wk_data w))) ws) \<and> u' \<le> max_total_unpacked_bytes \<and>
    (\<forall>w\<in>set ws. length (the (wk_data w)) \<le> max_entry_unpacked_bytes)"
  using assms
proof (induction ws arbitrary: out u)
  case (Cons w ws)
  let ?rem = "min max_entry_unpacked_bytes (max_total_unpacked_bytes - u)"
  from Cons.prems obtain bytes where b: "wk_data w = Some bytes" "\<not> ?rem < length (take (?rem + 1) bytes)"
    "pack_write ws (out @ [(entry_name w, take (?rem + 1) bytes)], u + length (take (?rem + 1) bytes)) =
       Inr (out', u')"
    by (auto simp: Let_def split: option.splits if_splits)
  then have short: "length bytes \<le> ?rem" "take (?rem + 1) bytes = bytes"
    by (simp_all add: min_def split: if_splits)
  then have "u + length bytes \<le> max_total_unpacked_bytes"
    using Cons.prems(2) by simp linarith
  with Cons.IH[of "out @ [(entry_name w, bytes)]" "u + length bytes"] b short show ?case
    by simp
qed simp

lemma unpack_stored:
  assumes "\<forall>dk p. os_mkdir os dk p \<and> os_create os dk p"
    and "\<forall>f\<in>set fs. sanitize_entry_name (fst f) \<noteq> Inl e \<and> (\<exists>safe. sanitize_entry_name (fst f) = Inr safe) \<and>
      length (snd f) \<le> ul_entry_bytes limits"
    and "t + sum_list (map (\<lambda>f. length (snd f)) fs) \<le> ul_total_bytes limits"
  shows "\<exists>dk'. unpack_entries os dest limits (map (\<lambda>f. Some (stored f)) fs) (n, t) dk =
    (Inr (n + length fs, t + sum_list (map (\<lambda>f. length (snd f)) fs)), dk')"
  using assms(2,3)
proof (induction fs arbitrary: n t dk)
  case (Cons f fs)
  from Cons.prems obtain safe where safe: "sanitize_entry_name (fst f) = Inr safe" by auto
  let ?target = "path_components (path_push dest safe)"
  obtain parent where parent: "parent_components ?target = Some parent"
    using parent_inside[OF sanitize_inside[OF safe]] by blast
  have fits: "length (snd f) \<le> min (ul_entry_bytes limits) (ul_total_bytes limits - t)"
    using Cons.prems by simp
  then have "min (length (snd f)) (Suc (min (ul_entry_bytes limits) (ul_total_bytes limits - t))) =
      length (snd f)"
    by linarith
  with fits have "\<exists>dk1. unpack_entry os dest limits (n, t) (stored f) dk = (Inr (n + 1, t + length (snd f)), dk1)"
    using assms(1) safe parent
    by (simp add: unpack_entry_def stored_def create_dir_all_def write_entry_def Let_def)
  then obtain dk1 where "unpack_entry os dest limits (n, t) (stored f) dk = (Inr (n + 1, t + length (snd f)), dk1)"
    by blast
  moreover obtain dk2 where "unpack_entries os dest limits (map (\<lambda>f. Some (stored f)) fs)
      (n + 1, t + length (snd f)) dk1 =
      (Inr (n + 1 + length fs, t + length (snd f) + sum_list (map (\<lambda>f. length (snd f)) fs)), dk2)"
    using Cons.IH[of "t + length (snd f)" "n + 1" dk1] Cons.prems by auto
  ultimately show ?case
    by (simp add: ac_simps)
qed simp

text \<open>
  C21. What was packed unpacks to the same files: whenever packing succeeds, no file name holds a
  backslash, the zip crate reads back what it wrote and the operating system lets the files be
  created, unpacking the archive succeeds, reports the counts that packing reported, and
  creates below the destination exactly the regular files of the walk, each under its own names and
  with its own bytes.
\<close>

theorem pack_unpack_roundtrip:
  assumes packed: "pack_dir lib source True dest_ok walk = Inr (pk, bytes)"
    and zip: "\<forall>fs b. al_write lib fs = Some b \<longrightarrow>
      (\<forall>f\<in>set fs. fst f \<noteq> [] \<and> last (fst f) \<noteq> 47) \<longrightarrow>
      al_read lib b = Some (map (\<lambda>f. Some (stored f)) fs)"
    and names: "\<forall>w\<in>set (filter wk_is_file (map the walk)). portable (wk_names w)"
    and os: "\<forall>dk p. os_mkdir os dk p \<and> os_create os dk p"
  shows "\<exists>dk'. unpack_zip os (al_read lib) (Some bytes) dest dk =
      (Inr \<lparr>ua_file_count = pa_file_count pk, ua_unpacked_size_bytes = pa_unpacked_size_bytes pk\<rparr>, dk') \<and>
    dk_files dk' = dk_files dk @
      map (\<lambda>w. (path_components dest @ map NormalComp (wk_names w), the (wk_data w)))
        (sort_key wk_names (filter wk_is_file (map the walk)))"
proof -
  let ?files = "filter wk_is_file (map the walk)"
  let ?sorted = "sort_key wk_names ?files"
  let ?out = "map (\<lambda>w. (entry_name w, the (wk_data w))) ?sorted"
  from packed obtain es unpacked out where "pack_collect source walk ([], 0, 0) = Inr es"
    "pack_write (sort_key wk_names es) ([], 0) = Inr (out, unpacked)" "al_write lib out = Some bytes"
    "pa_file_count pk = length es" "pa_unpacked_size_bytes pk = unpacked"
    by (auto simp: pack_dir_def split: if_splits sum.splits option.splits)
  moreover from this(1) have "es = ?files" "length es \<le> max_entries"
    using pack_collect_Inr by fastforce+
  ultimately have p: "length ?files \<le> max_entries" "pack_write ?sorted ([], 0) = Inr (out, unpacked)"
    "al_write lib out = Some bytes" "pa_file_count pk = length ?files" "pa_unpacked_size_bytes pk = unpacked"
    by blast+
  have w: "out = ?out" "unpacked = sum_list (map (\<lambda>f. length (snd f)) ?out)"
    "unpacked \<le> max_total_unpacked_bytes" "\<forall>f\<in>set ?out. length (snd f) \<le> max_entry_unpacked_bytes"
    using pack_write_Inr[OF p(2)] by (simp_all add: comp_def)
  have safe: "sanitize_entry_name (fst f) = Inr (push_all [] (wk_names x))"
    if "x \<in> set ?sorted" "f = (entry_name x, the (wk_data x))" for f x
    using that names by (simp add: entry_name_def sanitize_portable)
  have "\<forall>f\<in>set ?out. fst f \<noteq> [] \<and> last (fst f) \<noteq> 47"
    using names by (auto simp: entry_name_def joined_name)
  with zip p(3) w(1) have read: "al_read lib bytes = Some (map (\<lambda>f. Some (stored f)) ?out)"
    by blast
  let ?dk1 = "dk\<lparr>dk_dirs := dk_dirs dk @ [path_components dest]\<rparr>"
  have "\<exists>dk'. unpack_entries os dest default_unpack_limits (map (\<lambda>f. Some (stored f)) ?out) (0, 0) ?dk1 =
      (Inr (0 + length ?out, 0 + sum_list (map (\<lambda>f. length (snd f)) ?out)), dk')"
    using w safe os
    by (intro unpack_stored[where e = EmptyEntryName]) (auto simp: default_unpack_limits_def)
  then obtain dk' where run: "unpack_entries os dest default_unpack_limits
      (map (\<lambda>f. Some (stored f)) ?out) (0, 0) ?dk1 = (Inr (length ?out, unpacked), dk')"
    using w(2) by auto
  obtain ds fs where eff: "entry_effect dest default_unpack_limits (0, 0) ?dk1 (Inr (length ?out, unpacked)) dk' ds fs"
    "fs = concat (map (\<lambda>e. case e of Some z \<Rightarrow> entry_files dest z | None \<Rightarrow> [])
        (map (\<lambda>f. Some (stored f)) ?out))"
    using unpack_entries_effect[OF run] by auto
  have "fs = concat (map (\<lambda>w. entry_files dest (stored (entry_name w, the (wk_data w)))) ?sorted)"
    using eff(2) by (simp add: comp_def)
  also have "\<dots> = concat (map (\<lambda>w. [(path_components dest @ map NormalComp (wk_names w), the (wk_data w))]) ?sorted)"
    using names by (intro arg_cong[where f = concat] map_cong refl) (simp add: entry_name_def portable_file)
  finally have "fs = map (\<lambda>w. (path_components dest @ map NormalComp (wk_names w), the (wk_data w))) ?sorted"
    by (simp add: concat_map_singleton)
  moreover have "dk_files dk' = dk_files dk @ fs"
    using eff(1) by (simp add: entry_effect_def grows_def)
  moreover have "unpack_zip os (al_read lib) (Some bytes) dest dk =
      (Inr \<lparr>ua_file_count = pa_file_count pk, ua_unpacked_size_bytes = pa_unpacked_size_bytes pk\<rparr>, dk')"
    using run os p(1,4,5)
    by (simp add: unpack_zip_def unpack_zip_reader_with_limits_def read create_dir_all_def
        default_unpack_limits_def)
  ultimately show ?thesis by blast
qed

definition sample_walk :: "walked option list" where
  "sample_walk =
     [Some \<lparr>wk_names = [pts ''static''], wk_is_file = False, wk_len = 0, wk_data = None\<rparr>,
      Some \<lparr>wk_names = [pts ''static'', pts ''a''], wk_is_file = True, wk_len = 2, wk_data = Some [1, 2]\<rparr>,
      Some \<lparr>wk_names = [pts ''out''], wk_is_file = True, wk_len = 1, wk_data = Some [3]\<rparr>]"

definition sample_out :: "(ptext \<times> nat list) list" where
  "sample_out = [(pts ''out'', [3]), (pts ''static/a'', [1, 2])]"

definition sample_lib :: archive_lib where
  "sample_lib = \<lparr>al_write = (\<lambda>fs. if fs = sample_out then Some [80] else None),
     al_read = (\<lambda>b. if b = [80] then Some (map (\<lambda>f. Some (stored f)) sample_out) else None),
     al_sha256 = (\<lambda>b. [])\<rparr>"

lemma sample_packed:
  "pack_dir sample_lib (pts ''/s'') True True sample_walk =
     Inr (\<lparr>pa_size_bytes = 1, pa_unpacked_size_bytes = 3, pa_checksum_sha256 = [], pa_file_count = 2\<rparr>, [80])"
  by code_simp

lemma pack_unpack_roundtrip_witness:
  "\<exists>dk'. unpack_zip open_os (al_read sample_lib) (Some [80]) (pts ''/t'') empty_disk =
      (Inr \<lparr>ua_file_count = 2, ua_unpacked_size_bytes = 3\<rparr>, dk') \<and>
    length (dk_files dk') = 2"
proof -
  have files: "filter wk_is_file (map the sample_walk) = map the (tl sample_walk)"
    by (simp add: sample_walk_def)
  have law: "\<forall>fs b. al_write sample_lib fs = Some b \<longrightarrow>
      (\<forall>f\<in>set fs. fst f \<noteq> [] \<and> last (fst f) \<noteq> 47) \<longrightarrow>
      al_read sample_lib b = Some (map (\<lambda>f. Some (stored f)) fs)"
    by (simp add: sample_lib_def)
  have names: "\<forall>w\<in>set (filter wk_is_file (map the sample_walk)). portable (wk_names w)"
    unfolding files by code_simp
  show ?thesis
    using pack_unpack_roundtrip[OF sample_packed law names, of open_os "pts ''/t''" empty_disk]
    unfolding files by (auto simp: open_os_def empty_disk_def sample_walk_def)
qed

end
