(* ===== verification/Validator.thy ===== *)
theory Validator
  imports Text "HOL-Library.Code_Target_Numeral"
begin

text \<open>
  The normalizers of names (\<open>crates/validator\<close>): e-mail addresses, slugs, regions and host names.
  Text is the list of its Unicode code points; lengths are in bytes, as \<open>str::len\<close> counts.
\<close>

type_synonym ustr = "nat list"

section \<open>E-mail addresses\<close>

datatype email_error = EmailInvalid | EmailTooLong

definition normalize_email :: "ustr \<Rightarrow> email_error + ustr" where
  "normalize_email value =
     (let value = trim_by is_ws value in
      if 320 < utf8_len value then Inl EmailTooLong
      else
        (case split_once 64 value of
           None \<Rightarrow> Inl EmailInvalid
         | Some (local, domain) \<Rightarrow>
             if local = [] \<or> domain = [] \<or> 64 \<in> set domain \<or>
                (\<exists>c\<in>set value. \<not> c < 128 \<or> is_ascii_ws c \<or> is_ascii_ctrl c)
             then Inl EmailInvalid
             else Inr (map to_lower value)))"

section \<open>Slugs\<close>

datatype slug_error = SlugEmpty | SlugInvalidCharacter | SlugTooLong

definition is_separator :: "nat \<Rightarrow> bool" where
  "is_separator c \<longleftrightarrow> c = 45 \<or> c = 95 \<or> is_ascii_ws c"

text \<open>One round of the loop: the text so far and whether a separator waits.\<close>

definition slug_step :: "nat \<Rightarrow> ustr \<times> bool \<Rightarrow> slug_error + (ustr \<times> bool)" where
  "slug_step c st =
     (let (normalized, pending) = st in
      let next =
        (if is_ascii_alnum c then
           Inr ((if pending \<and> normalized \<noteq> [] then normalized @ [45] else normalized) @ [to_lower c], False)
         else if is_separator c then Inr (normalized, normalized \<noteq> [])
         else Inl SlugInvalidCharacter)
      in case next of
           Inl e \<Rightarrow> Inl e
         | Inr (n, p) \<Rightarrow> if 120 < utf8_len n then Inl SlugTooLong else Inr (n, p))"

fun slug_loop :: "ustr \<Rightarrow> ustr \<times> bool \<Rightarrow> slug_error + (ustr \<times> bool)" where
  "slug_loop [] st = Inr st"
| "slug_loop (c # cs) st =
     (case slug_step c st of Inl e \<Rightarrow> Inl e | Inr st' \<Rightarrow> slug_loop cs st')"

definition normalize_slug :: "ustr \<Rightarrow> slug_error + ustr" where
  "normalize_slug value =
     (case slug_loop (trim_by is_ws value) ([], False) of
        Inl e \<Rightarrow> Inl e
      | Inr (normalized, _) \<Rightarrow> if normalized = [] then Inl SlugEmpty else Inr normalized)"

section \<open>Regions\<close>

definition region_char :: "nat \<Rightarrow> bool" where
  "region_char c \<longleftrightarrow> is_ascii_alnum c \<or> c = 45 \<or> c = 95"

definition normalize_region :: "ustr \<Rightarrow> slug_error + ustr" where
  "normalize_region value =
     (let normalized = map to_lower (join_with [45] (words_by is_ws value)) in
      if normalized = [] then Inl SlugEmpty
      else if \<not> list_all region_char normalized then Inl SlugInvalidCharacter
      else if 64 < utf8_len normalized then Inl SlugTooLong
      else Inr normalized)"

section \<open>Host names\<close>

datatype host_error = HostEmpty | HostInvalidCharacter | HostInvalidLabel | HostTooLong

definition label_error :: "ustr \<Rightarrow> host_error option" where
  "label_error label =
     (if label = [] \<or> 63 < utf8_len label then Some HostInvalidLabel
      else if hd label = 45 \<or> last label = 45 then Some HostInvalidLabel
      else if \<not> list_all (\<lambda>c. is_ascii_alnum c \<or> c = 45) label then Some HostInvalidCharacter
      else None)"

fun labels_error :: "ustr list \<Rightarrow> host_error option" where
  "labels_error [] = None"
| "labels_error (l # ls) = (case label_error l of Some e \<Rightarrow> Some e | None \<Rightarrow> labels_error ls)"

definition normalize_host :: "ustr \<Rightarrow> host_error + ustr" where
  "normalize_host value =
     (let trimmed = trim_end_by (\<lambda>c. c = 46) (trim_by is_ws value) in
      if trimmed = [] then Inl HostEmpty
      else if 253 < utf8_len trimmed then Inl HostTooLong
      else
        (let normalized = map to_lower trimmed in
         case labels_error (split_on 46 normalized) of
           Some e \<Rightarrow> Inl e | None \<Rightarrow> Inr normalized))"

section \<open>What a normal slug is\<close>

text \<open>Lower-case letters and digits, joined by single dashes, at most 120 characters.\<close>

definition slug_char :: "nat \<Rightarrow> bool" where
  "slug_char c \<longleftrightarrow> is_ascii_lower c \<or> is_ascii_digit c"

definition valid_slug :: "ustr \<Rightarrow> bool" where
  "valid_slug s \<longleftrightarrow>
     length s \<le> 120 \<and> (\<forall>part\<in>set (split_on 45 s). part \<noteq> [] \<and> list_all slug_char part)"

lemma split_on_snoc:
  "split_on c (xs @ [x]) =
   (if x = c then split_on c xs @ [[]]
    else butlast (split_on c xs) @ [last (split_on c xs) @ [x]])"
proof (induction xs)
  case Nil
  then show ?case by simp
next
  case (Cons y ys)
  show ?case
  proof (cases "split_on c ys")
    case Nil
    then show ?thesis by simp
  next
    case split: (Cons p ps)
    show ?thesis using Cons split by (cases ps) auto
  qed
qed

lemma to_lower_slug: "is_ascii_alnum c \<Longrightarrow> slug_char (to_lower c)"
  by (auto simp: slug_char_def to_lower_def is_ascii_alnum_def is_ascii_upper_def is_ascii_lower_def
      is_ascii_digit_def)

lemma slug_charD:
  assumes "slug_char c"
  shows "is_ascii_alnum c" "to_lower c = c" "c \<noteq> 45" "c \<noteq> 46" "c < 128" "\<not> is_ws c"
  using assms
  by (auto simp: slug_char_def to_lower_def is_ascii_alnum_def is_ascii_upper_def is_ascii_lower_def
      is_ascii_digit_def is_ws_def)

definition slug_parts :: "ustr \<Rightarrow> bool" where
  "slug_parts s \<longleftrightarrow> (\<forall>part\<in>set (split_on 45 s). part \<noteq> [] \<and> list_all slug_char part)"

lemma slug_parts_snoc:
  assumes "slug_parts s" and "slug_char c"
  shows "slug_parts (s @ [c])" and "slug_parts (s @ [45, c])"
proof -
  have last: "last (split_on 45 s) \<in> set (split_on 45 s)" by (rule last_in_set) simp
  show "slug_parts (s @ [c])"
    using assms last slug_charD(3)[OF assms(2)]
    by (auto simp: slug_parts_def split_on_snoc dest: in_set_butlastD)
  have "split_on 45 (s @ [45, c]) = split_on 45 s @ [[c]]"
    using split_on_snoc[of 45 "s @ [45]" c] slug_charD(3)[OF assms(2)] split_on_snoc[of 45 s 45] by simp
  then show "slug_parts (s @ [45, c])" using assms by (auto simp: slug_parts_def)
qed

lemma slug_step_sound:
  assumes "slug_step c (n, p) = Inr (n', p')" and "n = [] \<or> slug_parts n"
  shows "(n' = [] \<or> slug_parts n') \<and> (length n \<le> 120 \<longrightarrow> length n' \<le> 120)"
proof -
  have bound: "length n' \<le> 120" if "utf8_len n' \<le> 120" using utf8_len_ge[of n'] that by simp
  have single: "slug_parts [to_lower c]" if "is_ascii_alnum c"
    using to_lower_slug[OF that] slug_charD(3)[OF to_lower_slug[OF that]] by (simp add: slug_parts_def)
  show ?thesis
    using assms bound single slug_parts_snoc[OF _ to_lower_slug, of n c]
    by (auto simp: slug_step_def Let_def split: if_splits)
qed

lemma slug_loop_sound:
  "slug_loop cs (n, p) = Inr (n', p') \<Longrightarrow> n = [] \<or> slug_parts n \<Longrightarrow> length n \<le> 120 \<Longrightarrow>
   (n' = [] \<or> slug_parts n') \<and> length n' \<le> 120"
proof (induction cs arbitrary: n p)
  case (Cons c cs)
  from Cons.prems(1) obtain m q where step: "slug_step c (n, p) = Inr (m, q)" and
    rest: "slug_loop cs (m, q) = Inr (n', p')"
    by (auto split: sum.splits prod.splits)
  from slug_step_sound[OF step Cons.prems(2)] Cons.prems(3) Cons.IH[OF rest] show ?case by blast
qed simp

text \<open>On a prefix of a normal slug the loop reproduces its input.\<close>

definition slug_prefix :: "ustr \<Rightarrow> bool" where
  "slug_prefix s \<longleftrightarrow> (\<forall>part\<in>set (butlast (split_on 45 s)). part \<noteq> []) \<and>
     (\<forall>part\<in>set (split_on 45 s). list_all slug_char part)"

lemma slug_prefix_snocD:
  assumes "slug_prefix (s @ [c])"
  shows "slug_prefix s" and "c = 45 \<or> slug_char c"
    and "c = 45 \<Longrightarrow> s \<noteq> [] \<and> last s \<noteq> 45"
proof -
  let ?ps = "split_on 45 s"
  have "?ps = butlast ?ps @ [last ?ps]" by simp
  then have set: "set ?ps = insert (last ?ps) (set (butlast ?ps))" by (metis set_append list.simps(15) list.set(1) Un_insert_right sup_bot_right)
  show "slug_prefix s" "c = 45 \<or> slug_char c"
    using assms set by (auto simp: slug_prefix_def split_on_snoc split: if_splits)
  show "s \<noteq> [] \<and> last s \<noteq> 45" if "c = 45"
  proof -
    have nonempty: "last ?ps \<noteq> []"
      using assms that set by (auto simp: slug_prefix_def split_on_snoc)
    have "s \<noteq> []" using nonempty by auto
    moreover have "last s \<noteq> 45"
    proof
      assume "last s = 45"
      with \<open>s \<noteq> []\<close> have "s = butlast s @ [45]" by (metis append_butlast_last_id)
      then have "last ?ps = []" using split_on_snoc[of 45 "butlast s" 45] by simp
      with nonempty show False by simp
    qed
    ultimately show ?thesis by simp
  qed
qed


lemma slug_loop_append:
  "slug_loop (xs @ ys) st = (case slug_loop xs st of Inl e \<Rightarrow> Inl e | Inr st' \<Rightarrow> slug_loop ys st')"
  by (induction xs arbitrary: st) (auto split: sum.splits)

lemma slug_prefix_ascii: "slug_prefix s \<Longrightarrow> c \<in> set s \<Longrightarrow> c < 128"
proof (induction s rule: rev_induct)
  case (snoc x xs)
  then show ?case using slug_prefix_snocD[of xs x] slug_charD(5)[of c] by auto
qed simp

lemma slug_loop_prefix:
  "slug_prefix s \<Longrightarrow> length s \<le> 120 \<Longrightarrow>
   slug_loop s ([], False) = Inr (if s \<noteq> [] \<and> last s = 45 then (butlast s, True) else (s, False))"
proof (induction s rule: rev_induct)
  case Nil
  then show ?case by simp
next
  case (snoc c s)
  note pre = slug_prefix_snocD[OF snoc.prems(1)]
  have ascii: "\<forall>x\<in>set (s @ [c]). x < 128" using slug_prefix_ascii[OF snoc.prems(1)] by blast
  have short: "utf8_len (s @ [c]) \<le> 120" using utf8_len_ascii[OF ascii] snoc.prems(2) by simp
  have IH: "slug_loop s ([], False) = Inr (if s \<noteq> [] \<and> last s = 45 then (butlast s, True) else (s, False))"
    using snoc pre(1) by simp
  show ?case
  proof (cases "c = 45")
    case True
    with pre(3) IH have "slug_loop s ([], False) = Inr (s, False)" by simp
    moreover have "\<not> is_ascii_alnum 45"
      by (simp add: is_ascii_alnum_def is_ascii_upper_def is_ascii_lower_def is_ascii_digit_def)
    ultimately show ?thesis using True short pre(3)
      by (simp add: slug_loop_append slug_step_def is_separator_def)
  next
    case False
    with pre(2) have c: "is_ascii_alnum c" "to_lower c = c" using slug_charD by blast+
    show ?thesis
    proof (cases "s \<noteq> [] \<and> last s = 45")
      case True
      then have s: "butlast s @ [45] = s" by (metis append_butlast_last_id)
      have "butlast s \<noteq> []"
      proof
        assume "butlast s = []"
        with s have "s = [45]" by simp
        with pre(1) show False by (simp add: slug_prefix_def)
      qed
      then have "slug_step c (butlast s, True) = Inr (s @ [c], False)"
        using c s short by (simp add: slug_step_def)
      with IH True False show ?thesis by (simp add: slug_loop_append)
    next
      case other: False
      have "slug_step c (s, False) = Inr (s @ [c], False)" using c short by (simp add: slug_step_def)
      with IH other False show ?thesis by (auto simp: slug_loop_append)
    qed
  qed
qed

lemma valid_slug_prefix: "valid_slug s \<Longrightarrow> slug_prefix s \<and> s \<noteq> [] \<and> last s \<noteq> 45"
proof -
  assume valid: "valid_slug s"
  have "s \<noteq> []" using valid by (auto simp: valid_slug_def)
  moreover have "last s \<noteq> 45"
  proof
    assume "last s = 45"
    with \<open>s \<noteq> []\<close> have "s = butlast s @ [45]" by (metis append_butlast_last_id)
    then have "[] \<in> set (split_on 45 s)" using split_on_snoc[of 45 "butlast s" 45] by simp
    with valid show False by (auto simp: valid_slug_def)
  qed
  ultimately show ?thesis using valid by (auto simp: valid_slug_def slug_prefix_def dest: in_set_butlastD)
qed

lemma valid_slug_chars: "valid_slug s \<Longrightarrow> c \<in> set s \<Longrightarrow> slug_char c \<or> c = 45"
  using valid_slug_prefix[of s]
proof (induction s rule: rev_induct)
  case (snoc x xs)
  have "slug_prefix t \<Longrightarrow> d \<in> set t \<Longrightarrow> slug_char d \<or> d = 45" for t d
    by (induction t rule: rev_induct) (use slug_prefix_snocD in auto)
  with snoc show ?case by blast
qed simp

text \<open>
  Slugs are normal forms. Whatever \<open>normalize_slug\<close> accepts it turns into lower-case letters and
  digits in non-empty groups joined by single dashes, at most 120 of them, and exactly such texts are
  left as they are; so normalizing twice is normalizing once.
\<close>

theorem normalize_slug_normal:
  "(normalize_slug s = Inr t \<longrightarrow> valid_slug t) \<and> (normalize_slug t = Inr t \<longleftrightarrow> valid_slug t)"
proof -
  have sound: "valid_slug t" if run: "normalize_slug s = Inr t" for s
  proof -
    from run obtain p where "slug_loop (trim_by is_ws s) ([], False) = Inr (t, p)" "t \<noteq> []"
      by (auto simp: normalize_slug_def split: sum.splits if_splits)
    from slug_loop_sound[OF this(1)] this(2) show ?thesis by (simp add: valid_slug_def slug_parts_def)
  qed
  have fixed: "normalize_slug t = Inr t" if valid: "valid_slug t"
  proof -
    have "\<not> is_ws c" if "c \<in> set t" for c
      using valid_slug_chars[OF valid that] slug_charD(6) by (auto simp: is_ws_def)
    then have "trim_by is_ws t = t" by (intro trim_by_id_all) simp
    moreover have "slug_loop t ([], False) = Inr (t, False)"
      using slug_loop_prefix[of t] valid_slug_prefix[OF valid] valid by (simp add: valid_slug_def)
    ultimately show ?thesis using valid_slug_prefix[OF valid] by (simp add: normalize_slug_def)
  qed
  from sound fixed show ?thesis by blast
qed

section \<open>What a normal host name is\<close>

text \<open>Labels of RFC 1123 joined by dots.\<close>

definition valid_label :: "ustr \<Rightarrow> bool" where
  "valid_label l \<longleftrightarrow>
     1 \<le> length l \<and> length l \<le> 63 \<and> hd l \<noteq> 45 \<and> last l \<noteq> 45 \<and> list_all (\<lambda>c. slug_char c \<or> c = 45) l"

definition valid_host :: "ustr \<Rightarrow> bool" where
  "valid_host h \<longleftrightarrow> length h \<le> 253 \<and> (\<forall>l\<in>set (split_on 46 h). valid_label l)"

lemma labels_error_None: "labels_error ls = None \<longleftrightarrow> (\<forall>l\<in>set ls. label_error l = None)"
  by (induction ls) (auto split: option.splits)

lemma label_ascii: "list_all (\<lambda>c. is_ascii_alnum c \<or> c = 45) l \<Longrightarrow> utf8_len l = length l"
  by (rule utf8_len_ascii) (auto simp: list_all_iff dest: alnum_ascii)

lemma label_error_lower:
  assumes "\<forall>c\<in>set l. \<not> is_ascii_upper c"
  shows "label_error l = None \<longleftrightarrow> valid_label l"
proof -
  have "is_ascii_alnum c \<longleftrightarrow> slug_char c" if "c \<in> set l" for c
    using assms that by (auto simp: is_ascii_alnum_def slug_char_def)
  then have chars: "list_all (\<lambda>c. is_ascii_alnum c \<or> c = 45) l \<longleftrightarrow> list_all (\<lambda>c. slug_char c \<or> c = 45) l"
    by (auto simp: list_all_iff)
  show ?thesis
    using label_ascii[of l] chars
    by (cases l) (auto simp: label_error_def valid_label_def split: if_splits)
qed

lemma utf8_len_lower [simp]: "utf8_len (map to_lower s) = utf8_len s"
  by (induction s) simp_all

lemma valid_host_chars:
  assumes "valid_host h" and "c \<in> set h"
  shows "slug_char c \<or> c = 45 \<or> c = 46"
proof -
  have "set (join_with [46] ps) \<subseteq> \<Union> (set ` set ps) \<union> {46}" for ps :: "ustr list"
    by (induction "[46::nat]" ps rule: join_with.induct) auto
  from this[of "split_on 46 h"] assms show ?thesis
    by (auto simp: join_split_on valid_host_def valid_label_def list_all_iff)
qed

lemma normal_host_valid:
  assumes run: "normalize_host s = Inr h"
  shows "valid_host h"
proof -
  let ?t = "trim_end_by (\<lambda>c. c = 46) (trim_by is_ws s)"
  from run have h: "h = map to_lower ?t" "utf8_len ?t \<le> 253" "labels_error (split_on 46 h) = None"
    by (auto simp: normalize_host_def Let_def split: if_splits option.splits)
  have "\<not> is_ascii_upper c" if "l \<in> set (split_on 46 h)" "c \<in> set l" for l c
    using set_split_on[OF that(1)] that(2) h(1) by auto
  then have "valid_label l" if "l \<in> set (split_on 46 h)" for l
    using h(3) that label_error_lower[of l] by (simp add: labels_error_None)
  moreover have "length h \<le> 253" using h utf8_len_ge[of ?t] by simp
  ultimately show ?thesis by (simp add: valid_host_def)
qed

lemma valid_host_plain:
  assumes "valid_host h" "c \<in> set h"
  shows "\<not> is_ws c" "c < 128" "to_lower c = c" "\<not> is_ascii_upper c"
  using valid_host_chars[OF assms] slug_charD[of c]
  by (auto simp: is_ws_def to_lower_def is_ascii_upper_def slug_char_def is_ascii_lower_def is_ascii_digit_def)

lemma valid_host_last:
  assumes "valid_host h"
  shows "h \<noteq> []" "last h \<noteq> 46"
proof -
  show nonempty: "h \<noteq> []" using assms by (auto simp: valid_host_def valid_label_def)
  show "last h \<noteq> 46"
  proof
    assume "last h = 46"
    with nonempty have "h = butlast h @ [46]" by (metis append_butlast_last_id)
    then have "[] \<in> set (split_on 46 h)" using split_on_snoc[of 46 "butlast h" 46] by simp
    with assms show False by (auto simp: valid_host_def valid_label_def)
  qed
qed

lemma valid_host_fixed:
  assumes valid: "valid_host h"
  shows "normalize_host h = Inr h"
proof -
  note plain = valid_host_plain[OF valid]
  have "trim_by is_ws h = h" using plain(1) by (intro trim_by_id_all) simp
  then have trimmed: "trim_end_by (\<lambda>c. c = 46) (trim_by is_ws h) = h"
    using valid_host_last[OF valid] by (simp add: trim_end_by_id)
  have low: "map to_lower h = h" using plain(3) by (intro map_idI) simp
  have len: "utf8_len h = length h" using plain(2) by (intro utf8_len_ascii) simp
  have "label_error l = None" if "l \<in> set (split_on 46 h)" for l
    using valid that set_split_on[OF that] plain(4) label_error_lower[of l]
    by (auto simp: valid_host_def)
  then have "labels_error (split_on 46 h) = None" by (simp add: labels_error_None)
  then show ?thesis
    using trimmed low len valid_host_last[OF valid] valid
    by (simp add: normalize_host_def valid_host_def)
qed

lemma normalize_host_idem: "normalize_host s = Inr h \<Longrightarrow> normalize_host h = Inr h"
  by (rule valid_host_fixed[OF normal_host_valid])

text \<open>
  Host names are normal forms. Whatever \<open>normalize_host\<close> accepts it turns into a lower-case RFC 1123
  host name without a trailing dot, at most 253 bytes long with labels of 1 to 63; exactly such
  names are left as they are.
\<close>

theorem normalize_host_normal:
  "(normalize_host s = Inr h \<longrightarrow> valid_host h) \<and> (normalize_host h = Inr h \<longleftrightarrow> valid_host h)"
  using normal_host_valid valid_host_fixed by blast

section \<open>E-mail addresses are normal forms\<close>

lemma split_once_map:
  "(\<And>x. x \<in> set xs \<Longrightarrow> f x = c \<longleftrightarrow> x = c) \<Longrightarrow>
   split_once c (map f xs) = map_option (\<lambda>(a, b). (map f a, map f b)) (split_once c xs)"
  by (induction xs) (auto simp: option.map_comp o_def split_def)

lemma lower_at: "to_lower x = 64 \<longleftrightarrow> x = 64"
  by (auto simp: to_lower_def is_ascii_upper_def)

lemma lower_plain:
  assumes "d < 128" "\<not> is_ascii_ws d" "\<not> is_ascii_ctrl d"
  shows "to_lower d < 128" "\<not> is_ascii_upper (to_lower d)" "\<not> is_ascii_ws (to_lower d)"
    "\<not> is_ascii_ctrl (to_lower d)" "\<not> is_ws (to_lower d)"
proof -
  have d: "32 < d" "d \<noteq> 127" using assms by (auto simp: is_ascii_ws_def is_ascii_ctrl_def)
  then have range: "32 < to_lower d" "to_lower d < 127" using assms(1)
    by (auto simp: to_lower_def is_ascii_upper_def)
  then show "to_lower d < 128" "\<not> is_ascii_ws (to_lower d)" "\<not> is_ascii_ctrl (to_lower d)"
    "\<not> is_ws (to_lower d)"
    by (simp_all add: is_ascii_ws_def is_ascii_ctrl_def is_ws_def)
qed simp

lemma normalize_email_idem:
  assumes "normalize_email s = Inr t"
  shows "normalize_email t = Inr t \<and> (\<forall>c\<in>set t. c < 128 \<and> \<not> is_ascii_upper c \<and> \<not> is_ascii_ws c)"
proof -
  let ?v = "trim_by is_ws s"
  from assms obtain a b where split: "split_once 64 ?v = Some (a, b)" and len: "utf8_len ?v \<le> 320" and
    ok: "a \<noteq> []" "b \<noteq> []" "64 \<notin> set b" "\<forall>c\<in>set ?v. c < 128 \<and> \<not> is_ascii_ws c \<and> \<not> is_ascii_ctrl c" and
    t: "t = map to_lower ?v"
    by (auto simp: normalize_email_def Let_def split: if_splits option.splits)
  have plain: "c < 128 \<and> \<not> is_ascii_upper c \<and> \<not> is_ascii_ws c \<and> \<not> is_ascii_ctrl c \<and> \<not> is_ws c"
    if "c \<in> set t" for c
  proof -
    from that obtain d where "d \<in> set ?v" "c = to_lower d" unfolding t by auto
    with lower_plain[of d] ok(4) show ?thesis by simp
  qed
  have "trim_by is_ws t = t" using plain by (intro trim_by_id_all) blast
  moreover have "split_once 64 t = Some (map to_lower a, map to_lower b)"
    unfolding t by (subst split_once_map) (simp_all add: lower_at split)
  moreover have "64 \<notin> set (map to_lower b)" using ok(3) lower_at by auto
  moreover have "map to_lower t = t" unfolding t by simp
  ultimately have "normalize_email t = Inr t"
    using ok(1,2) len plain by (auto simp: normalize_email_def t)
  with plain show ?thesis by blast
qed

section \<open>Examples\<close>

theorem normalize_slug_normal_witness:
  "normalize_slug (map of_char ''  My__Team -- Name  '') = Inr (map of_char ''my-team-name'') \<and>
   valid_slug (map of_char ''my-team-name'')"
proof -
  have run: "normalize_slug (map of_char ''  My__Team -- Name  '') = Inr (map of_char ''my-team-name'')"
    by code_simp
  with normalize_slug_normal[of "map of_char ''  My__Team -- Name  ''" "map of_char ''my-team-name''"]
  show ?thesis by blast
qed

theorem normalize_host_normal_witness:
  "normalize_host (map of_char '' App.Example.COM. '') = Inr (map of_char ''app.example.com'') \<and>
   valid_host (map of_char ''app.example.com'')"
proof -
  have run: "normalize_host (map of_char '' App.Example.COM. '') = Inr (map of_char ''app.example.com'')"
    by code_simp
  with normalize_host_normal[of "map of_char '' App.Example.COM. ''" "map of_char ''app.example.com''"]
  show ?thesis by blast
qed

text \<open>Every trailing dot goes, not only one.\<close>

lemma every_trailing_dot: "normalize_host (map of_char ''example.com...'') = Inr (map of_char ''example.com'')"
  by code_simp

end
