(* ===== verification/RouteTable.thy ===== *)
theory RouteTable
  imports Scheduler Validator
begin

text \<open>
  The route table of a Node (\<open>serve/routes.rs\<close>): the last valid snapshot of the control plane's routes, by
  host. The answer of the control plane to a refresh is an input. A refresh holds a lock over its whole
  request and a withdrawal waits for it; \<open>node_step\<close> takes the request apart into its steps, so that
  the control plane may change while an answer is on its way. A hash map is the list of its pairs with
  distinct keys.
\<close>

section \<open>Operations\<close>

datatype gateway_authentication_mode = GatewayToken | GatewayNone

datatype serve_access = AccessPublic | AccessTeamOrPlatformAdmin

record serve_route =
  rt_host :: "nat list"
  rt_region :: string
  rt_deployment_id :: uuid
  rt_target_node_id :: uuid
  rt_target_base_url :: "nat list"
  rt_gateway_authentication :: gateway_authentication_mode
  rt_resources :: serve_resources
  rt_access :: serve_access

record route_snapshot_response =
  sn_revision :: string
  sn_routes :: "serve_route list"

record route_snapshot =
  tb_revision :: "string option"
  tb_routes :: "(nat list \<times> serve_route) list"

datatype route_error = InvalidRouteHost "nat list" host_error | DuplicateHost "nat list" | RefreshFailed

definition empty_table :: route_snapshot where
  "empty_table = \<lparr>tb_revision = None, tb_routes = []\<rparr>"

fun collect_routes ::
  "serve_route list \<Rightarrow> (nat list \<times> serve_route) list \<Rightarrow> route_error + (nat list \<times> serve_route) list" where
  "collect_routes [] acc = Inr acc"
| "collect_routes (r # rs) acc =
     (case normalize_host (rt_host r) of
        Inl e \<Rightarrow> Inl (InvalidRouteHost (rt_host r) e)
      | Inr host \<Rightarrow>
          if map_of acc host \<noteq> None then Inl (DuplicateHost host)
          else collect_routes rs (acc @ [(host, r\<lparr>rt_host := host\<rparr>)]))"

definition apply_snapshot ::
  "route_snapshot_response \<Rightarrow> route_snapshot \<Rightarrow> (route_error + bool) \<times> route_snapshot" where
  "apply_snapshot s t =
     (if tb_revision t = Some (sn_revision s) then (Inr False, t)
      else
        (case collect_routes (sn_routes s) [] of
           Inl e \<Rightarrow> (Inl e, t)
         | Inr routes \<Rightarrow> (Inr True, \<lparr>tb_revision = Some (sn_revision s), tb_routes = routes\<rparr>)))"

definition lookup_route :: "route_snapshot \<Rightarrow> nat list \<Rightarrow> serve_route option" where
  "lookup_route t host = (case normalize_host host of Inl _ \<Rightarrow> None | Inr h \<Rightarrow> map_of (tb_routes t) h)"

definition clear_table :: "route_snapshot \<Rightarrow> bool \<times> route_snapshot" where
  "clear_table t = (tb_revision t \<noteq> None \<or> tb_routes t \<noteq> [], empty_table)"

definition remove_deployment :: "uuid \<Rightarrow> route_snapshot \<Rightarrow> bool \<times> route_snapshot" where
  "remove_deployment d t =
     (let kept = filter (\<lambda>(_, r). rt_deployment_id r \<noteq> d) (tb_routes t);
          changed = (length kept \<noteq> length (tb_routes t))
      in (changed, \<lparr>tb_revision = (if changed then None else tb_revision t), tb_routes = kept\<rparr>))"

definition local_deployment_ids :: "route_snapshot \<Rightarrow> uuid \<Rightarrow> uuid set" where
  "local_deployment_ids t n =
     set (map (\<lambda>(_, r). rt_deployment_id r) (filter (\<lambda>(_, r). rt_target_node_id r = n) (tb_routes t)))"

definition deployment_ids :: "route_snapshot \<Rightarrow> uuid set" where
  "deployment_ids t = set (map (\<lambda>(_, r). rt_deployment_id r) (tb_routes t))"

datatype snapshot_answer = Answered route_snapshot_response | AuthorizationRevoked | RefreshError

definition refresh_routes :: "snapshot_answer \<Rightarrow> route_snapshot \<Rightarrow> (route_error + bool) \<times> route_snapshot" where
  "refresh_routes a t =
     (case a of
        Answered s \<Rightarrow> apply_snapshot s t
      | AuthorizationRevoked \<Rightarrow> (case clear_table t of (changed, t') \<Rightarrow> (Inr changed, t'))
      | RefreshError \<Rightarrow> (Inl RefreshFailed, t))"

section \<open>The table as a map\<close>

text \<open>
  What a name normalizer promises to the table: a normal name is left as it is.
\<close>

locale normalizer =
  fixes norm :: "'a \<Rightarrow> 'e + 'a"
  assumes norm_idem: "norm x = Inr y \<Longrightarrow> norm y = Inr y"
begin

definition normal :: "'a \<Rightarrow> bool" where
  "normal x \<longleftrightarrow> norm x = Inr x"

lemma norm_normal: "norm x = Inr y \<Longrightarrow> normal y"
  by (simp add: normal_def norm_idem)

lemma normal_unique: "normal x \<Longrightarrow> norm x = Inr y \<Longrightarrow> y = x"
  by (simp add: normal_def)

end

interpretation hosts: normalizer normalize_host
  by unfold_locales (rule normalize_host_idem)

text \<open>The invariant: one route per host, filed under the normal form of its own host.\<close>

definition table_ok :: "route_snapshot \<Rightarrow> bool" where
  "table_ok t \<longleftrightarrow>
     distinct (map fst (tb_routes t)) \<and>
     (\<forall>(h, r)\<in>set (tb_routes t). rt_host r = h \<and> normalize_host h = Inr h)"

lemma map_of_snoc: "map_of (xs @ [(k, v)]) h = (case map_of xs h of Some x \<Rightarrow> Some x | None \<Rightarrow> if h = k then Some v else None)"
  by (simp add: map_add_def split: option.splits)

definition filed :: "serve_route \<Rightarrow> (nat list \<times> serve_route) option" where
  "filed r = (case normalize_host (rt_host r) of Inl _ \<Rightarrow> None | Inr h \<Rightarrow> Some (h, r\<lparr>rt_host := h\<rparr>))"

lemma collect_routes_iff:
  "distinct (map fst acc) \<Longrightarrow>
   collect_routes rs acc = Inr out \<longleftrightarrow>
     (\<exists>new. map filed rs = map Some new \<and> out = acc @ new \<and> distinct (map fst (acc @ new)))"
proof (induction rs acc rule: collect_routes.induct)
  case (1 acc)
  then show ?case by auto
next
  case (2 r rs acc)
  show ?case
  proof (cases "normalize_host (rt_host r)")
    case (Inl e)
    then show ?thesis by (auto simp: filed_def)
  next
    case (Inr host)
    let ?x = "(host, r\<lparr>rt_host := host\<rparr>)"
    have filed: "filed r = Some ?x" using Inr by (simp add: filed_def)
    show ?thesis
    proof (cases "map_of acc host = None")
      case True
      then have "host \<notin> set (map fst acc)" by (simp add: map_of_eq_None_iff)
      with "2.prems" have d: "distinct (map fst (acc @ [?x]))" by simp
      have "collect_routes (r # rs) acc = collect_routes rs (acc @ [?x])"
        using Inr True by simp
      with "2.IH"[OF Inr _ d] True have step: "collect_routes (r # rs) acc = Inr out \<longleftrightarrow>
          (\<exists>new. map filed rs = map Some new \<and> out = (acc @ [?x]) @ new \<and> distinct (map fst ((acc @ [?x]) @ new)))"
        by simp
      show ?thesis
        unfolding step by (auto simp: filed Cons_eq_map_conv)
    next
      case False
      then have "host \<in> set (map fst acc)" by (simp add: map_of_eq_None_iff)
      with Inr False show ?thesis
        by (auto simp: filed Cons_eq_map_conv)
    qed
  qed
qed

lemma collect_start:
  "collect_routes rs [] = Inr out \<longleftrightarrow> map filed rs = map Some out \<and> distinct (map fst out)"
  using collect_routes_iff[of "[]" rs out] by auto

lemma filed_Some: "filed r = Some x \<longleftrightarrow> normalize_host (rt_host r) = Inr (fst x) \<and> snd x = r\<lparr>rt_host := fst x\<rparr>"
  by (cases x) (auto simp: filed_def split: sum.splits)

lemma filed_table_ok:
  assumes "map filed rs = map Some out" "distinct (map fst out)"
  shows "table_ok \<lparr>tb_revision = v, tb_routes = out\<rparr>"
proof -
  have "rt_host r = h \<and> normalize_host h = Inr h" if "(h, r) \<in> set out" for h r
  proof -
    from that have "Some (h, r) \<in> set (map filed rs)" unfolding assms(1) by simp
    then obtain q where "filed q = Some (h, r)" by auto
    then show ?thesis
      using hosts.norm_idem by (auto simp: filed_Some)
  qed
  with assms(2) show ?thesis by (auto simp: table_ok_def)
qed

lemma filed_lookup:
  "map filed rs = map Some out \<Longrightarrow>
     map_of out h = map_option (\<lambda>r. r\<lparr>rt_host := h\<rparr>) (find (\<lambda>r. normalize_host (rt_host r) = Inr h) rs)"
proof (induction rs arbitrary: out)
  case (Cons r rs)
  then obtain x xs where out: "out = x # xs" "filed r = Some x" "map filed rs = map Some xs"
    by (auto simp: map_eq_Cons_conv)
  with Cons.IH[of xs] show ?case
    by (cases x) (auto simp: filed_Some)
qed simp

lemma filed_exists:
  "(\<exists>out. map filed rs = map Some out \<and> distinct (map fst out)) \<longleftrightarrow>
     (\<forall>r\<in>set rs. \<exists>h. normalize_host (rt_host r) = Inr h) \<and>
     distinct (map (\<lambda>r. normalize_host (rt_host r)) rs)"
proof (induction rs)
  case (Cons r rs)
  have keys: "map (\<lambda>r. normalize_host (rt_host r)) rs = map (\<lambda>x. Inr (fst x)) xs"
    if "map filed rs = map Some xs" for xs
    using that
  proof (induction rs arbitrary: xs)
    case (Cons q qs)
    then show ?case by (auto simp: map_eq_Cons_conv filed_Some)
  qed simp
  show ?case
  proof
    assume "\<exists>out. map filed (r # rs) = map Some out \<and> distinct (map fst out)"
    then obtain x xs where x: "filed r = Some x" "map filed rs = map Some xs" "fst x \<notin> set (map fst xs)"
      "distinct (map fst xs)"
      by (auto simp: Cons_eq_map_conv)
    then have "normalize_host (rt_host r) = Inr (fst x)" by (simp add: filed_Some)
    moreover have "Inr (fst x) \<notin> set (map (\<lambda>r. normalize_host (rt_host r)) rs)"
      unfolding keys[OF x(2)] using x(3) by auto
    ultimately show "(\<forall>r\<in>set (r # rs). \<exists>h. normalize_host (rt_host r) = Inr h) \<and>
        distinct (map (\<lambda>r. normalize_host (rt_host r)) (r # rs))"
      using Cons.IH x(2,4) by auto
  next
    assume ok: "(\<forall>r\<in>set (r # rs). \<exists>h. normalize_host (rt_host r) = Inr h) \<and>
        distinct (map (\<lambda>r. normalize_host (rt_host r)) (r # rs))"
    then obtain xs where xs: "map filed rs = map Some xs" "distinct (map fst xs)"
      using Cons.IH by auto
    obtain h where h: "normalize_host (rt_host r) = Inr h" using ok by auto
    have "Inr h \<notin> set (map (\<lambda>r. normalize_host (rt_host r)) rs)" using ok h by auto
    then have "h \<notin> set (map fst xs)" unfolding keys[OF xs(1)] by auto
    with h xs show "\<exists>out. map filed (r # rs) = map Some out \<and> distinct (map fst out)"
      by (intro exI[of _ "(h, r\<lparr>rt_host := h\<rparr>) # xs"]) (auto simp: filed_def)
  qed
qed simp

text \<open>
  C24. Applying a snapshot is all or nothing. A snapshot of a new revision is accepted exactly when
  every host in it is valid and no two hosts have the same normal form; then the table is well
  formed, carries the revision and answers every host name with the one route of the snapshot for
  that name, and otherwise the table with its last valid routes is left untouched.
\<close>

theorem apply_snapshot_exact:
  assumes "tb_revision t \<noteq> Some (sn_revision s)"
  shows "if (\<forall>r\<in>set (sn_routes s). \<exists>h. normalize_host (rt_host r) = Inr h) \<and>
        distinct (map (\<lambda>r. normalize_host (rt_host r)) (sn_routes s))
     then \<exists>t'. apply_snapshot s t = (Inr True, t') \<and> table_ok t' \<and> tb_revision t' = Some (sn_revision s) \<and>
       (\<forall>host. lookup_route t' host =
          (case normalize_host host of
             Inl _ \<Rightarrow> None
           | Inr h \<Rightarrow> map_option (\<lambda>r. r\<lparr>rt_host := h\<rparr>)
               (find (\<lambda>r. normalize_host (rt_host r) = Inr h) (sn_routes s))))
     else \<exists>e. apply_snapshot s t = (Inl e, t)"
proof (cases "collect_routes (sn_routes s) []")
  case (Inl e)
  then have "\<nexists>out. map filed (sn_routes s) = map Some out \<and> distinct (map fst out)"
    by (metis Inl_Inr_False collect_start)
  with assms Inl show ?thesis
    unfolding filed_exists by (simp add: apply_snapshot_def)
next
  case (Inr out)
  then have out: "map filed (sn_routes s) = map Some out" "distinct (map fst out)"
    by (simp_all add: collect_start)
  then have good: "(\<forall>r\<in>set (sn_routes s). \<exists>h. normalize_host (rt_host r) = Inr h) \<and>
      distinct (map (\<lambda>r. normalize_host (rt_host r)) (sn_routes s))"
    using filed_exists by blast
  from assms Inr have "apply_snapshot s t = (Inr True, \<lparr>tb_revision = Some (sn_revision s), tb_routes = out\<rparr>)"
    by (simp add: apply_snapshot_def)
  with good filed_table_ok[OF out] filed_lookup[OF out(1)] show ?thesis
    by (simp add: lookup_route_def split: sum.split)
qed

section \<open>Every reachable table\<close>

datatype route_event = Refresh snapshot_answer | Withdraw uuid

fun route_step :: "route_event \<Rightarrow> route_snapshot \<Rightarrow> route_snapshot" where
  "route_step (Refresh a) t = snd (refresh_routes a t)"
| "route_step (Withdraw d) t = snd (remove_deployment d t)"

definition run_events :: "route_event list \<Rightarrow> route_snapshot \<Rightarrow> route_snapshot" where
  "run_events es t = foldl (\<lambda>t e. route_step e t) t es"

lemma apply_cases:
  obtains e where "apply_snapshot s t = (Inl e, t)" | "apply_snapshot s t = (Inr False, t)"
  | out where "apply_snapshot s t = (Inr True, \<lparr>tb_revision = Some (sn_revision s), tb_routes = out\<rparr>)"
      "map filed (sn_routes s) = map Some out" "distinct (map fst out)"
proof (cases "tb_revision t = Some (sn_revision s)")
  case True
  then show ?thesis using that(2) by (simp add: apply_snapshot_def)
next
  case False
  then show ?thesis
    using that(1,3) by (cases "collect_routes (sn_routes s) []") (auto simp: apply_snapshot_def collect_start)
qed

lemma step_keeps_ok: "table_ok t \<Longrightarrow> table_ok (route_step e t)"
proof (cases e)
  case (Refresh a)
  assume ok: "table_ok t"
  show ?thesis
  proof (cases a)
    case (Answered s)
    then show ?thesis
      using Refresh ok filed_table_ok by (cases s t rule: apply_cases) (auto simp: refresh_routes_def)
  qed (use Refresh ok in \<open>auto simp: refresh_routes_def clear_table_def table_ok_def empty_table_def\<close>)
next
  case (Withdraw d)
  assume "table_ok t"
  with Withdraw show ?thesis
    by (auto simp: remove_deployment_def Let_def table_ok_def distinct_map_filter)
qed

lemma run_events_simps [simp]:
  "run_events [] t = t" "run_events (e # es) t = run_events es (route_step e t)"
  by (simp_all add: run_events_def)

lemma run_keeps_ok: "table_ok t \<Longrightarrow> table_ok (run_events es t)"
  by (induction es arbitrary: t) (simp_all add: step_keeps_ok)

lemma lookup_mem: "lookup_route t host = Some r \<Longrightarrow> \<exists>h. normalize_host host = Inr h \<and> (h, r) \<in> set (tb_routes t)"
  by (auto simp: lookup_route_def split: sum.splits dest: map_of_SomeD)

text \<open>
  Whatever refreshes, revocations and withdrawals a Node has gone through, its table holds one
  route per host, and a lookup only ever returns a route whose own host is the normal form of the
  name asked for.
\<close>

theorem routes_answer_their_host:
  "table_ok (run_events es empty_table) \<and>
   (lookup_route (run_events es empty_table) host = Some r \<longrightarrow> normalize_host host = Inr (rt_host r))"
proof -
  have ok: "table_ok (run_events es empty_table)"
    by (rule run_keeps_ok) (simp add: table_ok_def empty_table_def)
  then show ?thesis
    by (auto simp: table_ok_def dest!: lookup_mem)
qed

lemma step_keeps_out:
  assumes "d \<notin> deployment_ids t"
    and "\<forall>s. e = Refresh (Answered s) \<longrightarrow> d \<notin> rt_deployment_id ` set (sn_routes s)"
  shows "d \<notin> deployment_ids (route_step e t)"
proof (cases e)
  case (Refresh a)
  show ?thesis
  proof (cases a)
    case (Answered s)
    have "d \<notin> deployment_ids \<lparr>tb_revision = v, tb_routes = out\<rparr>" if "map filed (sn_routes s) = map Some out" for v out
    proof
      assume "d \<in> deployment_ids \<lparr>tb_revision = v, tb_routes = out\<rparr>"
      then obtain h r where hr: "(h, r) \<in> set out" "rt_deployment_id r = d"
        by (auto simp: deployment_ids_def)
      then have "Some (h, r) \<in> set (map filed (sn_routes s))" unfolding that by simp
      then obtain q where q: "q \<in> set (sn_routes s)" "filed q = Some (h, r)" by auto
      then have "r = q\<lparr>rt_host := h\<rparr>" by (simp add: filed_Some)
      with q(1) hr assms(2) Refresh Answered show False by force
    qed
    with assms(1) Refresh Answered show ?thesis
      by (cases s t rule: apply_cases) (auto simp: refresh_routes_def)
  qed (use Refresh assms(1) in \<open>auto simp: refresh_routes_def clear_table_def deployment_ids_def empty_table_def\<close>)
next
  case (Withdraw d')
  with assms(1) show ?thesis
    by (auto simp: remove_deployment_def Let_def deployment_ids_def)
qed

section \<open>Withdrawal against a refresh in flight\<close>

text \<open>
  The lock \<open>refresh\<close> of the table: free, or held by a refresh whose request is on its way, or whose answer
  is. An answer holds what the control plane listed when it was made. \<open>None\<close> is a step that has to wait.
\<close>

datatype refresh_lock = Free | Requested | InFlight snapshot_answer

record route_system =
  ro_plane :: route_snapshot_response
  ro_lock :: refresh_lock
  ro_table :: route_snapshot

datatype node_event =
    PlaneChanges route_snapshot_response
  | RefreshStarts
  | PlaneAnswers
  | RequestFails bool
  | RefreshEnds
  | Invalidated uuid

fun node_step :: "node_event \<Rightarrow> route_system \<Rightarrow> route_system option" where
  "node_step (PlaneChanges p) s = Some (s\<lparr>ro_plane := p\<rparr>)"
| "node_step RefreshStarts s = (if ro_lock s = Free then Some (s\<lparr>ro_lock := Requested\<rparr>) else None)"
| "node_step PlaneAnswers s =
     (if ro_lock s = Requested then Some (s\<lparr>ro_lock := InFlight (Answered (ro_plane s))\<rparr>) else None)"
| "node_step (RequestFails revoked) s =
     (if ro_lock s = Free then None
      else Some (s\<lparr>ro_lock := InFlight (if revoked then AuthorizationRevoked else RefreshError)\<rparr>))"
| "node_step RefreshEnds s =
     (case ro_lock s of
        InFlight a \<Rightarrow> Some (s\<lparr>ro_lock := Free, ro_table := snd (refresh_routes a (ro_table s))\<rparr>)
      | _ \<Rightarrow> None)"
| "node_step (Invalidated d) s =
     (if ro_lock s = Free then Some (s\<lparr>ro_table := snd (remove_deployment d (ro_table s))\<rparr>) else None)"

fun node_run :: "node_event list \<Rightarrow> route_system \<Rightarrow> route_system option" where
  "node_run [] s = Some s"
| "node_run (e # es) s = Option.bind (node_step e s) (node_run es)"

lemma node_run_append: "node_run (xs @ ys) s = Option.bind (node_run xs s) (node_run ys)"
  by (induction xs arbitrary: s) (auto split: bind_split)

definition lists :: "uuid \<Rightarrow> route_snapshot_response \<Rightarrow> bool" where
  "lists d p \<longleftrightarrow> d \<in> rt_deployment_id ` set (sn_routes p)"

text \<open>Nothing on the Node leads to the deployment, nor will what the control plane lists.\<close>

definition gone :: "uuid \<Rightarrow> route_system \<Rightarrow> bool" where
  "gone d s \<longleftrightarrow> d \<notin> deployment_ids (ro_table s) \<and> \<not> lists d (ro_plane s) \<and>
     (\<forall>p. ro_lock s = InFlight (Answered p) \<longrightarrow> \<not> lists d p)"

lemma step_stays_gone:
  assumes "node_step e s = Some t" and "gone d s" and "\<And>p. e = PlaneChanges p \<Longrightarrow> \<not> lists d p"
  shows "gone d t"
proof (cases e)
  case RefreshEnds
  with assms(1) obtain a where a: "ro_lock s = InFlight a"
    "t = s\<lparr>ro_lock := Free, ro_table := snd (refresh_routes a (ro_table s))\<rparr>"
    by (auto split: refresh_lock.splits)
  with assms(2) have "d \<notin> deployment_ids (route_step (Refresh a) (ro_table s))"
    by (intro step_keeps_out) (auto simp: gone_def lists_def)
  with a assms(2) show ?thesis by (simp add: gone_def)
next
  case (Invalidated d')
  with assms(1) have t: "t = s\<lparr>ro_table := route_step (Withdraw d') (ro_table s)\<rparr>" by (simp split: if_splits)
  have "d \<notin> deployment_ids (route_step (Withdraw d') (ro_table s))"
    using assms(2) by (intro step_keeps_out) (auto simp: gone_def)
  with t assms(2) show ?thesis by (simp add: gone_def del: route_step.simps)
qed (use assms in \<open>auto simp: gone_def split: if_splits\<close>)

lemma run_stays_gone:
  "node_run es s = Some t \<Longrightarrow> gone d s \<Longrightarrow> (\<And>p. PlaneChanges p \<in> set es \<Longrightarrow> \<not> lists d p) \<Longrightarrow> gone d t"
proof (induction es arbitrary: s)
  case (Cons e es)
  from Cons.prems(1) obtain u where u: "node_step e s = Some u" "node_run es u = Some t"
    by (auto simp: bind_eq_Some_conv)
  have "gone d u" using step_stays_gone[OF u(1) Cons.prems(2)] Cons.prems(3) by auto
  with Cons.IH[OF u(2)] Cons.prems(3) show ?case by auto
qed simp

lemma run_keeps_unlisted:
  "node_run es s = Some t \<Longrightarrow> \<not> lists d (ro_plane s) \<Longrightarrow> (\<And>p. PlaneChanges p \<in> set es \<Longrightarrow> \<not> lists d p) \<Longrightarrow>
   \<not> lists d (ro_plane t)"
proof (induction es arbitrary: s)
  case (Cons e es)
  from Cons.prems(1) obtain u where u: "node_step e s = Some u" "node_run es u = Some t"
    by (auto simp: bind_eq_Some_conv)
  have "\<not> lists d (ro_plane u)"
    using u(1) Cons.prems(2,3) by (cases e) (auto split: if_splits refresh_lock.splits)
  with Cons.IH[OF u(2)] Cons.prems(3) show ?case by auto
qed simp

lemma removed_routes:
  assumes "table_ok t" and "lookup_route t host = Some r" and "rt_deployment_id r \<noteq> d"
  shows "lookup_route (snd (remove_deployment d t)) host = Some r"
proof -
  let ?t1 = "snd (remove_deployment d t)"
  have routes: "tb_routes ?t1 = filter (\<lambda>(_, r). rt_deployment_id r \<noteq> d) (tb_routes t)"
    by (simp add: remove_deployment_def Let_def)
  from assms(2) lookup_mem obtain h where h: "normalize_host host = Inr h" "(h, r) \<in> set (tb_routes t)" by blast
  then have "(h, r) \<in> set (tb_routes ?t1)" using assms(3) routes by simp
  moreover have "distinct (map fst (tb_routes ?t1))"
    using assms(1) routes by (simp add: table_ok_def distinct_map_filter)
  ultimately show ?thesis using h(1) by (simp add: lookup_route_def)
qed

text \<open>
  C25. A withdrawn deployment stays out, through answers that are stale. From any state of the Node, also one
  where an answer that lists the deployment is on its way, let the control plane no longer list the deployment
  and tell the Node. Once the Node has acted on that, no name leads to the deployment, however refreshes,
  failures, withdrawals and other changes follow, until the control plane lists it again: the withdrawal has
  to wait for the refresh in flight, whose answer it then undoes. It leaves the routes of other
  deployments, and when it removed one the table forgets its revision, so that the next answer is applied
  even if it carries the revision the table had.
\<close>

theorem withdrawn_stays_out:
  assumes "\<not> lists d (ro_plane s)" and "\<forall>p. PlaneChanges p \<in> set (before @ after) \<longrightarrow> \<not> lists d p"
    and "node_run before s = Some s1" and "node_step (Invalidated d) s1 = Some s2" and "node_run after s2 = Some s3"
  shows "(lookup_route (ro_table s3) host = Some r \<longrightarrow> rt_deployment_id r \<noteq> d) \<and>
    (table_ok (ro_table s1) \<and> lookup_route (ro_table s1) host = Some r \<and> rt_deployment_id r \<noteq> d \<longrightarrow>
       lookup_route (ro_table s2) host = Some r) \<and>
    (d \<in> deployment_ids (ro_table s1) \<longrightarrow> tb_revision (ro_table s2) = None)"
proof (intro conjI impI)
  have s2: "ro_lock s1 = Free" "s2 = s1\<lparr>ro_table := snd (remove_deployment d (ro_table s1))\<rparr>"
    using assms(4) by (auto split: if_splits)
  have "\<not> lists d (ro_plane s1)" using run_keeps_unlisted[OF assms(3,1)] assms(2) by auto
  then have "gone d s2" using s2 by (auto simp: gone_def deployment_ids_def remove_deployment_def Let_def)
  with run_stays_gone[OF assms(5)] assms(2) have "gone d s3" by auto
  then show "rt_deployment_id r \<noteq> d" if "lookup_route (ro_table s3) host = Some r"
    using lookup_mem[OF that] by (force simp: gone_def deployment_ids_def)
  show "lookup_route (ro_table s2) host = Some r"
    if "table_ok (ro_table s1) \<and> lookup_route (ro_table s1) host = Some r \<and> rt_deployment_id r \<noteq> d"
    using removed_routes that by (simp add: s2(2))
  show "tb_revision (ro_table s2) = None" if d: "d \<in> deployment_ids (ro_table s1)"
  proof -
    have "length (filter (\<lambda>(_, r). rt_deployment_id r \<noteq> d) (tb_routes (ro_table s1))) < length (tb_routes (ro_table s1))"
      using d by (force simp: deployment_ids_def intro: length_filter_less)
    then show ?thesis by (simp add: s2(2) remove_deployment_def Let_def)
  qed
qed

section \<open>Witnesses\<close>

definition demo_route :: "string \<Rightarrow> uuid \<Rightarrow> uuid \<Rightarrow> serve_route" where
  "demo_route host d n =
     \<lparr>rt_host = pts host, rt_region = ''default'', rt_deployment_id = d, rt_target_node_id = n,
      rt_target_base_url = pts ''http://node-a:8080'', rt_gateway_authentication = GatewayToken,
      rt_resources = \<lparr>sr_cpu_millicores = 50, sr_memory_mb = 64, sr_disk_mb = 256\<rparr>,
      rt_access = AccessPublic\<rparr>"

definition demo_snapshot :: route_snapshot_response where
  "demo_snapshot = \<lparr>sn_revision = ''revision-1'',
     sn_routes = [demo_route ''App.Example.com.'' 1 7, demo_route ''b.example.com'' 2 7]\<rparr>"

definition clashing_snapshot :: route_snapshot_response where
  "clashing_snapshot = \<lparr>sn_revision = ''revision-2'',
     sn_routes = [demo_route ''app.example.com'' 3 7, demo_route ''APP.EXAMPLE.COM'' 4 7]\<rparr>"

definition demo_table :: route_snapshot where
  "demo_table = run_events [Refresh (Answered demo_snapshot)] empty_table"

lemma demo_table_value:
  "demo_table = \<lparr>tb_revision = Some ''revision-1'',
     tb_routes = [(pts ''app.example.com'', (demo_route ''app.example.com'' 1 7)),
       (pts ''b.example.com'', demo_route ''b.example.com'' 2 7)]\<rparr>"
  by code_simp

lemma apply_snapshot_exact_witness:
  "\<exists>e. apply_snapshot clashing_snapshot demo_table = (Inl e, demo_table)"
proof -
  have "tb_revision demo_table \<noteq> Some (sn_revision clashing_snapshot)"
    by code_simp
  moreover have "\<not> distinct (map (\<lambda>r. normalize_host (rt_host r)) (sn_routes clashing_snapshot))"
    by code_simp
  ultimately show ?thesis
    using apply_snapshot_exact[of demo_table clashing_snapshot] by simp
qed

lemma demo_lookup:
  "lookup_route demo_table (pts ''APP.example.com'') = Some (demo_route ''app.example.com'' 1 7)"
  by code_simp

lemma routes_answer_their_host_witness:
  "lookup_route demo_table (pts ''APP.example.com'') = Some (demo_route ''app.example.com'' 1 7) \<and>
   normalize_host (pts ''APP.example.com'') = Inr (rt_host (demo_route ''app.example.com'' 1 7))"
  using routes_answer_their_host[of "[Refresh (Answered demo_snapshot)]" "pts ''APP.example.com''"
      "demo_route ''app.example.com'' 1 7"] demo_lookup
  by (simp add: demo_table_def)

text \<open>The answer in flight lists deployment 1, which the control plane then withdraws.\<close>

definition demo_withdrawal :: "node_event list" where
  "demo_withdrawal = [RefreshStarts, PlaneAnswers,
     PlaneChanges (demo_snapshot\<lparr>sn_revision := ''revision-2'', sn_routes := [demo_route ''b.example.com'' 2 7]\<rparr>)]"

definition demo_stale :: route_system where
  "demo_stale = the (node_run demo_withdrawal \<lparr>ro_plane = demo_snapshot, ro_lock = Free, ro_table = empty_table\<rparr>)"

definition demo_late :: route_system where
  "demo_late = the (node_run [RefreshEnds] demo_stale)"

definition demo_out :: route_system where
  "demo_out = the (node_step (Invalidated 1) demo_late)"

lemma demo_late_runs:
  "ro_lock demo_stale = InFlight (Answered demo_snapshot) \<and> node_step (Invalidated 1) demo_stale = None \<and>
   map_option ro_table (node_run [RefreshEnds] demo_stale) = Some demo_table \<and>
   node_step (Invalidated 1) demo_late \<noteq> None \<and> \<not> lists 1 (ro_plane demo_stale)"
  by code_simp

lemma withdrawn_stays_out_witness:
  "node_step (Invalidated 1) demo_stale = None \<and>
   lookup_route (ro_table demo_late) (pts ''app.example.com'') \<noteq> None \<and>
   \<not> (\<exists>r. lookup_route (ro_table demo_out) (pts ''app.example.com'') = Some r \<and> rt_deployment_id r = 1) \<and>
   tb_revision (ro_table demo_out) = None"
proof -
  have late: "node_run [RefreshEnds] demo_stale = Some demo_late" and out: "node_step (Invalidated 1) demo_late = Some demo_out"
    using demo_late_runs by (auto simp: demo_late_def demo_out_def)
  have table: "ro_table demo_late = demo_table" using demo_late_runs[unfolded late] by (simp del: node_step.simps)
  have here: "1 \<in> deployment_ids demo_table" "lookup_route demo_table (pts ''app.example.com'') \<noteq> None" by code_simp+
  have unlisted: "\<not> lists 1 (ro_plane demo_stale)" and waits: "node_step (Invalidated 1) demo_stale = None"
    using demo_late_runs by blast+
  have "(lookup_route (ro_table demo_out) (pts ''app.example.com'') = Some r \<longrightarrow> rt_deployment_id r \<noteq> 1) \<and>
      tb_revision (ro_table demo_out) = None" for r
    using withdrawn_stays_out[OF unlisted _ late out, of "[]" demo_out "pts ''app.example.com''" r] here(1)
    by (simp add: table del: node_step.simps)
  then show ?thesis using waits here(2) table by metis
qed

end
