(* ===== verification/OutputManifest.thy ===== *)
theory OutputManifest
  imports Paths "HOL-Library.Code_Target_Numeral"
begin

text \<open>
  The manifest of a Grass Output (\<open>apps/node/src/output/manifest.rs\<close>) and the target it describes for
  the server (\<open>ensure_artifact\<close> in \<open>serve/local.rs\<close>). Reading TOML and the file system are
  parameters.
\<close>

type_synonym ustr = "nat list"

section \<open>The manifest\<close>

definition output_api_version :: nat where
  "output_api_version = 1"

record server_section =
  sv_entry :: ustr
  sv_start_command :: ustr
  sv_port_env :: ustr
  sv_host_env :: ustr

record framework_section =
  fw_name :: ustr
  fw_version :: ustr

record static_section =
  ss_directory :: ustr
  ss_spa_fallback :: bool
  ss_not_found :: ustr

record build_section =
  bs_command :: ustr
  bs_output_directory :: ustr

record metadata_section =
  ms_generated_by :: ustr
  ms_generated_at :: ustr

record output_manifest =
  om_version :: nat
  om_runtime_kind :: ustr
  om_framework :: "framework_section option"
  om_static_site :: "static_section option"
  om_server :: "server_section option"
  om_build :: "build_section option"
  om_metadata :: "metadata_section option"

datatype manifest_error =
    ManifestParse ustr | UnsupportedVersion nat | RuntimeNotImplemented ustr | UnsupportedRuntime ustr
  | MissingStaticSection | UnsafeStaticDirectory ustr | MissingStaticDirectory ustr | MissingIndexHtml ustr
  | MissingServerSection | UnsafeServerEntry ustr | MissingServerEntry ustr

text \<open>The file system as the code asks for it: regular files with their bytes, and directories.\<close>

record files =
  fs_file :: "ptext \<Rightarrow> nat list option"
  fs_dir :: "ptext \<Rightarrow> bool"

definition is_file :: "files \<Rightarrow> ptext \<Rightarrow> bool" where
  "is_file fs p \<longleftrightarrow> fs_file fs p \<noteq> None"

definition has_unsafe_components :: "ustr \<Rightarrow> bool" where
  "has_unsafe_components v \<longleftrightarrow>
     v = [] \<or> list_ex (\<lambda>c. c = ParentDir \<or> c = RootDir) (path_components v)"

definition trim :: "ustr \<Rightarrow> ustr" where
  "trim s = trim_by is_ws s"

definition index_html :: ustr where
  "index_html = pts ''index.html''"

definition validate_manifest :: "files \<Rightarrow> output_manifest \<Rightarrow> ptext \<Rightarrow> manifest_error + unit" where
  "validate_manifest fs m root =
     (if om_version m \<noteq> output_api_version then Inl (UnsupportedVersion (om_version m))
      else if om_runtime_kind m = pts ''static'' then
        (case om_static_site m of
           None \<Rightarrow> Inl MissingStaticSection
         | Some site \<Rightarrow>
             (let directory = trim (ss_directory site) in
              if has_unsafe_components directory then Inl (UnsafeStaticDirectory directory)
              else
                (let static_dir = path_push root directory in
                 if \<not> fs_dir fs static_dir then Inl (MissingStaticDirectory directory)
                 else if \<not> is_file fs (path_push static_dir index_html) then Inl (MissingIndexHtml directory)
                 else Inr ())))
      else if om_runtime_kind m = pts ''ssr'' then
        (case om_server m of
           None \<Rightarrow> Inl MissingServerSection
         | Some server \<Rightarrow>
             (let entry = trim (sv_entry server) in
              if has_unsafe_components entry then Inl (UnsafeServerEntry entry)
              else if \<not> is_file fs (path_push root entry) then Inl (MissingServerEntry entry)
              else Inr ()))
      else if om_runtime_kind m \<in> {pts ''hybrid'', pts ''serverless'', pts ''edge''}
        then Inl (RuntimeNotImplemented (om_runtime_kind m))
      else Inl (UnsupportedRuntime (om_runtime_kind m)))"

definition or_empty :: "ustr option \<Rightarrow> ustr" where
  "or_empty s = (case s of Some x \<Rightarrow> x | None \<Rightarrow> [])"

definition base_manifest ::
  "ustr \<Rightarrow> ustr \<Rightarrow> (ustr \<times> ustr) option \<Rightarrow> ustr option \<Rightarrow> ustr option \<Rightarrow> output_manifest" where
  "base_manifest pkg_version kind framework build_command output_directory =
     \<lparr>om_version = output_api_version, om_runtime_kind = kind,
      om_framework = map_option (\<lambda>(n, v). \<lparr>fw_name = n, fw_version = v\<rparr>) framework,
      om_static_site = None, om_server = None,
      om_build = Some \<lparr>bs_command = or_empty build_command, bs_output_directory = or_empty output_directory\<rparr>,
      om_metadata = Some \<lparr>ms_generated_by = pts ''grass-node/'' @ pkg_version, ms_generated_at = []\<rparr>\<rparr>"

definition static_manifest ::
  "ustr \<Rightarrow> (ustr \<times> ustr) option \<Rightarrow> bool \<Rightarrow> ustr option \<Rightarrow> ustr option \<Rightarrow> output_manifest" where
  "static_manifest pkg_version framework spa_fallback build_command output_directory =
     (base_manifest pkg_version (pts ''static'') framework build_command output_directory)
       \<lparr>om_static_site := Some \<lparr>ss_directory = pts ''static'', ss_spa_fallback = spa_fallback, ss_not_found = []\<rparr>\<rparr>"

definition ssr_manifest ::
  "ustr \<Rightarrow> (ustr \<times> ustr) option \<Rightarrow> server_section \<Rightarrow> ustr option \<Rightarrow> ustr option \<Rightarrow> output_manifest" where
  "ssr_manifest pkg_version framework server build_command output_directory =
     (base_manifest pkg_version (pts ''ssr'') framework build_command output_directory)\<lparr>om_server := Some server\<rparr>"

section \<open>The target of the server\<close>

datatype resolved_target =
    StaticTarget ptext bool "ustr option"
  | SsrTarget ptext server_section

datatype artifact_error = ManifestUnreadable | InvalidManifest manifest_error | NoServerSection | NoStaticSection

definition ensure_artifact ::
  "files \<Rightarrow> (nat list \<Rightarrow> ustr + output_manifest) \<Rightarrow> ptext \<Rightarrow> artifact_error + resolved_target" where
  "ensure_artifact fs toml deployment_dir =
     (case fs_file fs (path_push deployment_dir (pts ''output.toml'')) of
        None \<Rightarrow> Inl ManifestUnreadable
      | Some content \<Rightarrow>
          (case toml content of
             Inl e \<Rightarrow> Inl (InvalidManifest (ManifestParse e))
           | Inr m \<Rightarrow>
               (case validate_manifest fs m deployment_dir of
                  Inl e \<Rightarrow> Inl (InvalidManifest e)
                | Inr _ \<Rightarrow>
                    if om_runtime_kind m = pts ''ssr'' then
                      (case om_server m of
                         None \<Rightarrow> Inl NoServerSection
                       | Some server \<Rightarrow> Inr (SsrTarget deployment_dir server))
                    else
                      (case om_static_site m of
                         None \<Rightarrow> Inl NoStaticSection
                       | Some site \<Rightarrow>
                           Inr (StaticTarget (path_push deployment_dir (ss_directory site))
                             (ss_spa_fallback site)
                             (if trim (ss_not_found site) = [] then None
                              else Some (trim (ss_not_found site))))))))"

section \<open>A validated directory stays inside\<close>

lemma trim_split:
  obtains l r where "xs = l @ trim_by p xs @ r" "\<forall>x\<in>set l. p x" "\<forall>x\<in>set r. p x"
proof -
  define d where "d = dropWhile p xs"
  define t where "t = trim_by p xs"
  define r where "r = rev (takeWhile p (rev d))"
  have "rev d = takeWhile p (rev d) @ rev t"
    by (simp add: d_def t_def trim_by_def trim_end_by_def trim_start_by_def)
  then have "d = t @ r"
    unfolding r_def by (metis rev_append rev_rev_ident)
  moreover have "xs = takeWhile p xs @ d"
    by (simp add: d_def)
  ultimately have "xs = takeWhile p xs @ t @ r" by simp
  then show ?thesis
    by (intro that[of "takeWhile p xs" r]) (auto simp: t_def r_def dest: set_takeWhileD)
qed

lemma split_on_prefix:
  "c \<notin> set l \<Longrightarrow> split_on c (l @ t) = (l @ hd (split_on c t)) # tl (split_on c t)"
proof (induction l)
  case Nil
  then show ?case by (cases "split_on c t") auto
qed auto

lemma split_on_suffix:
  "c \<notin> set r \<Longrightarrow> split_on c (t @ r) = butlast (split_on c t) @ [last (split_on c t) @ r]"
proof (induction t)
  case Nil
  then show ?case by (simp add: split_on_single)
next
  case (Cons x t)
  then show ?case by (cases "split_on c t") auto
qed

lemma ws_not_path: "is_ws x \<Longrightarrow> x \<noteq> 46 \<and> x \<noteq> 47"
  by (auto simp: is_ws_def)

lemma dots_only_ws: "l @ p = [46, 46] \<Longrightarrow> \<forall>x\<in>set l. is_ws x \<Longrightarrow> l = []"
  "p @ r = [46, 46] \<Longrightarrow> \<forall>x\<in>set r. is_ws x \<Longrightarrow> r = []"
  by (metis Un_iff insert_iff list.set(2) list.set_intros(1) neq_Nil_conv set_append singletonD
      list.set(1) ws_not_path)+

lemma inner_parent: "ParentDir \<in> set (inner_components p) \<longleftrightarrow> [46, 46] \<in> set (split_on 47 p)"
  by (auto simp: inner_components_def part_component_def split: if_splits)

lemma trimmed_parent:
  assumes "[46, 46] \<in> set (split_on 47 d)"
  shows "[46, 46] \<in> set (split_on 47 (trim d))"
proof -
  let ?t = "trim d"
  let ?ps = "split_on 47 ?t"
  obtain l r where d: "d = l @ ?t @ r" "\<forall>x\<in>set l. is_ws x" "\<forall>x\<in>set r. is_ws x"
    unfolding trim_def by (rule trim_split)
  have no: "47 \<notin> set l" "47 \<notin> set r"
    using d(2,3) ws_not_path by blast+
  have parts: "split_on 47 d =
      (l @ hd (butlast ?ps @ [last ?ps @ r])) # tl (butlast ?ps @ [last ?ps @ r])"
    using d(1) no by (metis split_on_prefix split_on_suffix)
  have last_in: "last ?ps \<in> set ?ps" by simp
  show ?thesis
  proof (cases "butlast ?ps = []")
    case True
    with parts assms have "l @ last ?ps @ r = [46, 46]" by simp
    with d(2,3) have "last ?ps = [46, 46]"
      using dots_only_ws by (metis append_Nil append_Nil2)
    with last_in show ?thesis by simp
  next
    case False
    with parts assms have "l @ hd (butlast ?ps) = [46, 46] \<or> [46, 46] \<in> set (tl (butlast ?ps)) \<or>
        last ?ps @ r = [46, 46]"
      by auto
    then show ?thesis
    proof (elim disjE)
      assume "l @ hd (butlast ?ps) = [46, 46]"
      with d(2) have "hd (butlast ?ps) = [46, 46]" using dots_only_ws(1) by fastforce
      with False show ?thesis by (metis hd_in_set in_set_butlastD)
    next
      assume "[46, 46] \<in> set (tl (butlast ?ps))"
      with False show ?thesis by (meson in_set_butlastD list.set_sel(2))
    next
      assume "last ?ps @ r = [46, 46]"
      with d(3) have "last ?ps = [46, 46]" using dots_only_ws(2) by fastforce
      with last_in show ?thesis by simp
    qed
  qed
qed

lemma safe_directory:
  assumes "\<not> has_unsafe_components (trim d)"
  shows "d \<noteq> [] \<and> \<not> starts_with [47] d \<and> ParentDir \<notin> set (inner_components d)"
proof -
  obtain l r where d: "d = l @ trim d @ r" "\<forall>x\<in>set l. is_ws x"
    unfolding trim_def by (rule trim_split)
  have t: "trim d \<noteq> []" "\<not> starts_with [47] (trim d)" "ParentDir \<notin> set (inner_components (trim d))"
    using assms by (auto simp: has_unsafe_components_def path_components_def list_ex_iff split: if_splits)
  have "d \<noteq> []" using d(1) t(1) by auto
  moreover have "\<not> starts_with [47] d"
  proof (cases l)
    case Nil
    with d(1) t(1,2) show ?thesis by (metis append_Nil hd_append2 starts_with_single)
  next
    case (Cons x l')
    with d(2) have "x \<noteq> 47" using ws_not_path by auto
    with d(1) Cons show ?thesis by (metis append_Cons list.sel(1) starts_with_single)
  qed
  moreover have "ParentDir \<notin> set (inner_components d)"
    using t(3) trimmed_parent by (auto simp: inner_parent)
  ultimately show ?thesis by blast
qed

lemma only_names:
  "\<forall>c\<in>set cs. \<exists>s. c = NormalComp s \<and> plain_name s \<Longrightarrow>
     \<exists>names. cs = map NormalComp names \<and> (\<forall>s\<in>set names. plain_name s)"
proof (induction cs)
  case (Cons c cs)
  then obtain s names where "c = NormalComp s" "plain_name s" "cs = map NormalComp names"
    "\<forall>s\<in>set names. plain_name s"
    by auto
  then show ?case by (intro exI[of _ "s # names"]) simp
qed simp

lemma inner_only_names:
  assumes "ParentDir \<notin> set (inner_components p)"
  shows "\<exists>names. inner_components p = map NormalComp names \<and> (\<forall>s\<in>set names. plain_name s)"
proof -
  have "\<forall>c\<in>set (inner_components p). \<exists>s. c = NormalComp s \<and> plain_name s"
  proof
    fix c assume c: "c \<in> set (inner_components p)"
    with assms inner_not_root[of p] show "\<exists>s. c = NormalComp s \<and> plain_name s"
      by (cases c) (auto dest: inner_normal)
  qed
  then show ?thesis by (rule only_names)
qed

lemma validated_directory_within:
  assumes "validate_manifest fs m root = Inr ()" "om_runtime_kind m \<noteq> pts ''ssr''"
    and "om_static_site m = Some site" "root \<noteq> []"
  shows "within root (path_components (path_push root (ss_directory site)))"
proof -
  have "\<not> has_unsafe_components (trim (ss_directory site))"
    using assms(1-3) by (auto simp: validate_manifest_def Let_def split: if_splits)
  from safe_directory[OF this] assms(4) inner_only_names[of "ss_directory site"] show ?thesis
    by (auto simp: within_iff components_push)
qed

end
