(* ===== verification/Utf8.thy ===== *)
theory Utf8
  imports Text "HOL-Library.Code_Target_Numeral"
begin

text \<open>
  The bytes of a Rust string (\<open>str::as_bytes\<close>) and back (\<open>String::from_utf8\<close>, which accepts exactly
  the well-formed sequences: no overlong forms, no surrogates, nothing above U+10FFFF).
\<close>

definition is_scalar :: "nat \<Rightarrow> bool" where
  "is_scalar c \<longleftrightarrow> c < 0xD800 \<or> (0xE000 \<le> c \<and> c < 0x110000)"

definition encode_char :: "nat \<Rightarrow> nat list" where
  "encode_char c =
     (if c < 0x80 then [c]
      else if c < 0x800 then [0xC0 + c div 64, 0x80 + c mod 64]
      else if c < 0x10000 then [0xE0 + c div 4096, 0x80 + c div 64 mod 64, 0x80 + c mod 64]
      else [0xF0 + c div 262144, 0x80 + c div 4096 mod 64, 0x80 + c div 64 mod 64, 0x80 + c mod 64])"

definition utf8_encode :: "nat list \<Rightarrow> nat list" where
  "utf8_encode s = concat (map encode_char s)"

definition continuation :: "nat \<Rightarrow> bool" where
  "continuation b \<longleftrightarrow> 0x80 \<le> b \<and> b < 0xC0"

text \<open>The second byte of a sequence of three or four is restricted by the first.\<close>

definition second_of_three :: "nat \<Rightarrow> nat \<Rightarrow> bool" where
  "second_of_three a b \<longleftrightarrow>
     continuation b \<and> (a = 0xE0 \<longrightarrow> 0xA0 \<le> b) \<and> (a = 0xED \<longrightarrow> b < 0xA0)"

definition second_of_four :: "nat \<Rightarrow> nat \<Rightarrow> bool" where
  "second_of_four a b \<longleftrightarrow>
     continuation b \<and> (a = 0xF0 \<longrightarrow> 0x90 \<le> b) \<and> (a = 0xF4 \<longrightarrow> b < 0x90)"

fun utf8_decode :: "nat list \<Rightarrow> nat list option" where
  "utf8_decode [] = Some []"
| "utf8_decode (a # r) =
     (if a < 0x80 then map_option (Cons a) (utf8_decode r)
      else if 0xC2 \<le> a \<and> a < 0xE0 then
        (case r of
           b # r1 \<Rightarrow>
             if continuation b then map_option (Cons ((a - 0xC0) * 64 + (b - 0x80))) (utf8_decode r1)
             else None
         | _ \<Rightarrow> None)
      else if 0xE0 \<le> a \<and> a < 0xF0 then
        (case r of
           b # c # r2 \<Rightarrow>
             if second_of_three a b \<and> continuation c
             then map_option (Cons ((a - 0xE0) * 4096 + (b - 0x80) * 64 + (c - 0x80))) (utf8_decode r2)
             else None
         | _ \<Rightarrow> None)
      else if 0xF0 \<le> a \<and> a < 0xF5 then
        (case r of
           b # c # d # r3 \<Rightarrow>
             if second_of_four a b \<and> continuation c \<and> continuation d
             then map_option (Cons ((a - 0xF0) * 262144 + (b - 0x80) * 4096 + (c - 0x80) * 64 + (d - 0x80)))
                    (utf8_decode r3)
             else None
         | _ \<Rightarrow> None)
      else None)"

lemma continuation_digit [simp]: "continuation (0x80 + r) \<longleftrightarrow> r < 64"
  by (auto simp: continuation_def)

text \<open>The digits to base 64.\<close>

lemma digits3:
  fixes c :: nat
  obtains p m r where "m < 64" "r < 64" "c = p * 4096 + m * 64 + r"
    "c div 4096 = p" "c div 64 mod 64 = m" "c mod 64 = r"
proof
  show "c = c div 4096 * 4096 + c div 64 mod 64 * 64 + c mod 64"
  proof -
    have "c div 4096 = c div 64 div 64"
      using div_mult2_eq[of c 64 64] by simp
    with div_mult_mod_eq[of "c div 64" 64] div_mult_mod_eq[of c 64] show ?thesis by linarith
  qed
qed simp_all

lemma decode_encode_char:
  assumes "is_scalar c"
  shows "utf8_decode (encode_char c @ rest) = map_option (Cons c) (utf8_decode rest)"
proof -
  obtain p m r where d: "m < 64" "r < 64" "c = p * 4096 + m * 64 + r"
    "c div 4096 = p" "c div 64 mod 64 = m" "c mod 64 = r"
    by (rule digits3)
  consider "c < 0x80" | "0x80 \<le> c" "c < 0x800" | "0x800 \<le> c" "c < 0x10000" | "0x10000 \<le> c"
    by linarith
  then show ?thesis
  proof cases
    case 1
    then show ?thesis by (simp add: encode_char_def)
  next
    case 2
    then have "p = 0" using d(3) by linarith
    then have c: "c = m * 64 + r" using d(3) by simp
    then have "c div 64 = m" "c mod 64 = r" using d(2) by simp_all
    moreover have "2 \<le> m" "m < 32" using d(2) 2 c by linarith+
    ultimately show ?thesis
      using 2 d(2) unfolding encode_char_def by (simp add: c)
  next
    case 3
    have "p < 16" using d(3) 3 by linarith
    moreover have "p = 0 \<Longrightarrow> 32 \<le> m" using d(2,3) 3 by linarith
    moreover have "p = 13 \<Longrightarrow> m < 32"
      using d(1-3) assms by (auto simp: is_scalar_def)
    ultimately have "second_of_three (0xE0 + p) (0x80 + m)" "p < 16"
      using d(1) by (auto simp: second_of_three_def)
    then show ?thesis
      using 3 d(1,2) unfolding encode_char_def d(4-6)
      by (simp add: d(3))
  next
    case 4
    obtain q k where q: "p = q * 64 + k" "k < 64" "p div 64 = q" "p mod 64 = k"
      by (metis div_mult_mod_eq mod_less_divisor zero_less_numeral)
    have top: "c div 262144 = q" "c div 4096 mod 64 = k"
      using q(3,4) d(4) div_mult2_eq[of c 4096 64] by simp_all
    have c: "c = q * 262144 + k * 4096 + m * 64 + r"
      using d(3) q(1) by simp
    have "q < 5" using c assms by (auto simp: is_scalar_def)
    moreover have "q = 0 \<Longrightarrow> 16 \<le> k" using c d(1,2) 4 by linarith
    moreover have "q = 4 \<Longrightarrow> k < 16" using c assms by (auto simp: is_scalar_def)
    ultimately have "second_of_four (0xF0 + q) (0x80 + k)" "q < 5"
      using q(2) by (auto simp: second_of_four_def)
    then show ?thesis
      using 4 d(1,2) unfolding encode_char_def d(5,6) top
      by (simp add: c)
  qed
qed

lemma utf8_decode_encode:
  "\<forall>c\<in>set s. is_scalar c \<Longrightarrow> utf8_decode (utf8_encode s) = Some s"
  by (induction s) (simp_all add: utf8_encode_def decode_encode_char)

end
