(* ===== verification/ServeStatic.thy ===== *)
theory ServeStatic
  imports OutputManifest Utf8
begin

text \<open>
  Static sites on a Node (\<open>serve/paths.rs\<close>, \<open>serve/static_files.rs\<close> and the static branch of
  \<open>serve/local.rs\<close>): from the path of a request to the file and the bytes of the response. The guess of
  the media type is a parameter.
\<close>

section \<open>Request paths\<close>

fun hex_digit :: "nat \<Rightarrow> nat option" where
  "hex_digit b =
     (if 48 \<le> b \<and> b \<le> 57 then Some (b - 48)
      else if 97 \<le> b \<and> b \<le> 102 then Some (b - 87)
      else if 65 \<le> b \<and> b \<le> 70 then Some (b - 55)
      else None)"

fun decode_bytes :: "nat list \<Rightarrow> nat list option" where
  "decode_bytes [] = Some []"
| "decode_bytes (b # r) =
     (if b = 37 then
        (case r of
           high # low # r' \<Rightarrow>
             (case hex_digit high of
                None \<Rightarrow> None
              | Some h \<Rightarrow>
                  (case hex_digit low of
                     None \<Rightarrow> None
                   | Some l \<Rightarrow> map_option (Cons ((h * 16 + l) mod 256)) (decode_bytes r')))
         | _ \<Rightarrow> None)
      else map_option (Cons b) (decode_bytes r))"

definition percent_decode :: "ustr \<Rightarrow> ustr option" where
  "percent_decode input =
     (case decode_bytes (utf8_encode input) of None \<Rightarrow> None | Some output \<Rightarrow> utf8_decode output)"

fun path_segments :: "ustr list \<Rightarrow> ustr list option" where
  "path_segments [] = Some []"
| "path_segments (s # ss) =
     (if s = [] \<or> s = [46] then path_segments ss
      else if s = [46, 46] then None
      else map_option (Cons s) (path_segments ss))"

definition normalize_public_path :: "ustr \<Rightarrow> ustr list option" where
  "normalize_public_path path =
     (if 0 \<in> set path \<or> 92 \<in> set path then None
      else
        (case percent_decode path of
           None \<Rightarrow> None
         | Some decoded \<Rightarrow>
             if 0 \<in> set decoded \<or> 92 \<in> set decoded then None
             else path_segments (split_on 47 decoded)))"

section \<open>Files\<close>

definition pretty_file :: "files \<Rightarrow> ptext \<Rightarrow> ustr list \<Rightarrow> ptext option" where
  "pretty_file fs static_dir segments =
     (if segments = [] \<or> 46 \<in> set (last segments) then None
      else
        (let with_extension =
           path_push (push_all static_dir (butlast segments)) (last segments @ pts ''.html'')
         in if is_file fs with_extension then Some with_extension else None))"

definition resolve_static_file :: "files \<Rightarrow> ptext \<Rightarrow> ustr list \<Rightarrow> bool \<Rightarrow> ptext option" where
  "resolve_static_file fs static_dir segments spa_fallback =
     (let candidate = push_all static_dir segments;
          candidate = (if fs_dir fs candidate then path_push candidate index_html else candidate)
      in if is_file fs candidate then Some candidate
         else
           (case pretty_file fs static_dir segments of
              Some p \<Rightarrow> Some p
            | None \<Rightarrow>
                if spa_fallback then
                  (let index = path_push static_dir index_html
                   in if is_file fs index then Some index else None)
                else None))"

definition resolve_not_found_file :: "files \<Rightarrow> ptext \<Rightarrow> ustr option \<Rightarrow> ptext option" where
  "resolve_not_found_file fs static_dir configured =
     (let candidate =
        (case configured of
           Some c \<Rightarrow> Some (push_all static_dir (split_on 47 (trim_start_by (\<lambda>x. x = 47) c)))
         | None \<Rightarrow> None);
          root_404 = path_push static_dir (pts ''404.html'')
      in case candidate of
           Some p \<Rightarrow>
             if is_file fs p then Some p
             else if is_file fs root_404 then Some root_404 else None
         | None \<Rightarrow> if is_file fs root_404 then Some root_404 else None)"

section \<open>Ranges and responses\<close>

text \<open>\<open>str::parse::<u64>\<close>: an optional plus sign and decimal digits.\<close>

definition digits_value :: "ustr \<Rightarrow> nat" where
  "digits_value ds = foldl (\<lambda>n d. n * 10 + (d - 48)) 0 ds"

definition parse_u64 :: "ustr \<Rightarrow> nat option" where
  "parse_u64 s =
     (let ds = (if starts_with [43] s then tl s else s) in
      if ds = [] \<or> \<not> list_all is_ascii_digit ds \<or> 2 ^ 64 \<le> digits_value ds then None
      else Some (digits_value ds))"

definition range_prefix :: ustr where
  "range_prefix = pts ''bytes=''"

definition parse_range :: "ustr \<Rightarrow> nat \<Rightarrow> (nat \<times> nat) option" where
  "parse_range value len =
     (if len = 0 then None
      else if \<not> starts_with range_prefix value then None
      else
        (let rng = drop (length range_prefix) value in
         if rng = [] \<or> 44 \<in> set rng then None
         else
           (case split_once 45 rng of
              None \<Rightarrow> None
            | Some (start, end_at) \<Rightarrow>
                if start = [] \<and> end_at = [] then None
                else if start = [] then
                  (case parse_u64 end_at of
                     None \<Rightarrow> None
                   | Some n \<Rightarrow>
                       if n = 0 then None else Some (len - min n len, len - 1))
                else if end_at = [] then
                  (case parse_u64 start of
                     None \<Rightarrow> None
                   | Some s \<Rightarrow> if len \<le> s then None else Some (s, len - 1))
                else
                  (case (parse_u64 start, parse_u64 end_at) of
                     (Some s, Some e) \<Rightarrow>
                       if e < s \<or> len \<le> s then None else Some (s, min e (len - 1))
                   | _ \<Rightarrow> None))))"

datatype http_method = Get | Head | OtherMethod string

datatype header_value =
    HText string | HNum nat | HRange nat nat nat | HUnsatisfied nat

datatype response_body = NoBody | FileBytes "nat list" | ErrorPage nat string

record response =
  rs_status :: nat
  rs_headers :: "(string \<times> header_value) list"
  rs_body :: response_body

definition error_page :: "nat \<Rightarrow> string \<Rightarrow> response" where
  "error_page status message =
     \<lparr>rs_status = status,
      rs_headers = [(''content-type'', HText ''text/html; charset=utf-8''), (''cache-control'', HText ''no-store''),
        (''referrer-policy'', HText ''no-referrer'')],
      rs_body = ErrorPage status message\<rparr>"

text \<open>\<open>HeaderValue::to_str\<close> accepts visible ASCII and tabs.\<close>

definition header_text :: "nat list \<Rightarrow> ustr option" where
  "header_text v = (if list_all (\<lambda>b. (32 \<le> b \<and> b < 127) \<or> b = 9) v then Some v else None)"

definition selected_range :: "nat list option \<Rightarrow> nat \<Rightarrow> nat \<Rightarrow> (nat \<times> nat) option option" where
  "selected_range rng status len =
     (if status = 200 then
        (case rng of
           None \<Rightarrow> None
         | Some value \<Rightarrow>
             Some (case header_text value of None \<Rightarrow> None | Some text \<Rightarrow> parse_range text len))
      else None)"

definition served_span :: "(nat \<times> nat) option option \<Rightarrow> nat \<Rightarrow> nat \<Rightarrow> nat \<times> nat \<times> nat" where
  "served_span chosen status len =
     (case chosen of Some (Some (s, e)) \<Rightarrow> (206, s, e) | _ \<Rightarrow> (status, 0, len - 1))"

definition file_response :: "string \<Rightarrow> nat \<times> nat \<times> nat \<Rightarrow> http_method \<Rightarrow> nat list \<Rightarrow> response" where
  "file_response media span method bytes =
     (let (response_status, start, end_at) = span;
          len = length bytes;
          cache_control = (if media = ''text/html''
            then ''public, max-age=0, must-revalidate'' else ''public, max-age=3600'');
          content_length = (if len = 0 then 0 else end_at - start + 1)
      in \<lparr>rs_status = response_status,
          rs_headers =
            [(''content-type'', HText media), (''cache-control'', HText cache_control),
             (''accept-ranges'', HText ''bytes''), (''content-length'', HNum content_length)] @
            (if response_status = 206 then [(''content-range'', HRange start end_at len)] else []),
          rs_body = (if method = Head then NoBody
            else FileBytes (take content_length (drop start bytes)))\<rparr>)"

definition serve_file ::
  "files \<Rightarrow> (ptext \<Rightarrow> string) \<Rightarrow> ptext \<Rightarrow> http_method \<Rightarrow> nat list option \<Rightarrow> nat \<Rightarrow> unit + response" where
  "serve_file fs mime path method rng status =
     (if method \<noteq> Get \<and> method \<noteq> Head then
        Inr \<lparr>rs_status = 405, rs_headers = [(''allow'', HText ''GET, HEAD'')], rs_body = NoBody\<rparr>
      else
        (case fs_file fs path of
           None \<Rightarrow> Inl ()
         | Some bytes \<Rightarrow>
             (let chosen = selected_range rng status (length bytes) in
              if chosen = Some None then
                Inr \<lparr>rs_status = 416,
                  rs_headers = [(''accept-ranges'', HText ''bytes''),
                    (''content-range'', HUnsatisfied (length bytes))],
                  rs_body = NoBody\<rparr>
              else Inr (file_response (mime path) (served_span chosen status (length bytes)) method bytes))))"

definition serve_or_404 ::
  "files \<Rightarrow> (ptext \<Rightarrow> string) \<Rightarrow> ptext \<Rightarrow> nat \<Rightarrow> http_method \<Rightarrow> nat list option \<Rightarrow> response" where
  "serve_or_404 fs mime path status method rng =
     (case serve_file fs mime path method rng status of
        Inr response \<Rightarrow> response
      | Inl _ \<Rightarrow> error_page 404 ''This page could not be found.'')"

definition serve_static ::
  "files \<Rightarrow> (ptext \<Rightarrow> string) \<Rightarrow> ptext \<Rightarrow> bool \<Rightarrow> ustr option \<Rightarrow> ustr \<Rightarrow> http_method \<Rightarrow> nat list option \<Rightarrow>
   response" where
  "serve_static fs mime static_dir spa_fallback not_found path method rng =
     (case normalize_public_path path of
        None \<Rightarrow> error_page 400 ''The requested path is not allowed.''
      | Some segments \<Rightarrow>
          (case resolve_static_file fs static_dir segments spa_fallback of
             Some f \<Rightarrow> serve_or_404 fs mime f 200 method rng
           | None \<Rightarrow>
               (case resolve_not_found_file fs static_dir not_found of
                  Some f \<Rightarrow> serve_or_404 fs mime f 404 method rng
                | None \<Rightarrow> error_page 404 ''This page could not be found.'')))"

section \<open>Segments are plain names\<close>

lemma path_segments_plain:
  "path_segments ss = Some r \<Longrightarrow> \<forall>s\<in>set ss. 47 \<notin> set s \<Longrightarrow> s \<in> set r \<Longrightarrow> plain_name s \<and> s \<in> set ss"
  by (induction ss arbitrary: r) (auto simp: plain_name_def split: if_splits)

lemma normalized_segments:
  assumes "normalize_public_path path = Some segments" "s \<in> set segments"
  shows "plain_name s \<and> 0 \<notin> set s \<and> 92 \<notin> set s"
proof -
  from assms(1) obtain decoded where d: "0 \<notin> set decoded" "92 \<notin> set decoded"
    "path_segments (split_on 47 decoded) = Some segments"
    by (auto simp: normalize_public_path_def split: if_splits option.splits)
  have "\<forall>t\<in>set (split_on 47 decoded). 47 \<notin> set t"
    by (intro ballI) (rule split_on_no_sep)
  then have "plain_name s \<and> s \<in> set (split_on 47 decoded)"
    by (rule path_segments_plain[OF d(3) _ assms(2)])
  moreover from this have "set s \<subseteq> set decoded"
    using set_split_on[of s 47 decoded] by simp
  ultimately show ?thesis using d(1,2) by auto
qed

lemma index_html_plain [simp]: "plain_name index_html"
  by (simp add: plain_name_def index_html_def pts_def)

lemma page_404_plain [simp]: "plain_name (pts ''404.html'')"
  by (simp add: plain_name_def pts_def)

lemma html_extension_plain: "plain_name s \<Longrightarrow> plain_name (s @ pts ''.html'')"
  by (cases s) (auto simp: plain_name_def pts_def)

lemma pretty_file_inside:
  assumes "pretty_file fs dir segments = Some f" "\<forall>s\<in>set segments. plain_name s"
  shows "is_file fs f \<and> inside dir (path_components f)"
proof -
  from assms(1) have ne: "segments \<noteq> []" and f: "f = path_push (push_all dir (butlast segments)) (last segments @ pts ''.html'')"
    and found: "is_file fs f"
    by (auto simp: pretty_file_def Let_def split: if_splits)
  have "plain_name (last segments @ pts ''.html'')"
    using assms(2) ne by (simp add: html_extension_plain)
  moreover have "within dir (path_components (push_all dir (butlast segments)))"
    using assms(2) by (intro within_push_all) (auto dest: in_set_butlastD)
  ultimately show ?thesis
    using inside_push f found by blast
qed

lemma within_refl [simp]: "within base (path_components base)"
  by (simp add: within_def)

lemma inside_within: "inside base cs \<Longrightarrow> within base cs"
  by (simp add: within_def)

lemma inside_index: "within dir (path_components p) \<Longrightarrow> inside dir (path_components (path_push p index_html))"
  by (rule inside_push) simp_all

lemma resolved_within:
  assumes "resolve_static_file fs dir segments spa = Some f" "\<forall>s\<in>set segments. plain_name s"
  shows "is_file fs f \<and> within dir (path_components f)"
proof -
  let ?c = "push_all dir segments"
  let ?candidate = "if fs_dir fs ?c then path_push ?c index_html else ?c"
  obtain c where c: "c = ?candidate" by simp
  have "(if is_file fs c then Some c
      else case pretty_file fs dir segments of Some p \<Rightarrow> Some p
        | None \<Rightarrow> if spa then (if is_file fs (path_push dir index_html) then Some (path_push dir index_html) else None)
            else None) = Some f"
    using assms(1) unfolding c resolve_static_file_def Let_def .
  then have "f = c \<and> is_file fs c \<or> pretty_file fs dir segments = Some f \<or>
      f = path_push dir index_html \<and> is_file fs f"
    by (cases "is_file fs c"; cases "pretty_file fs dir segments"; cases spa;
        cases "is_file fs (path_push dir index_html)") simp_all
  then consider "f = ?candidate" "is_file fs f" | "pretty_file fs dir segments = Some f"
    | "f = path_push dir index_html" "is_file fs f"
    using c by metis
  then show ?thesis
  proof cases
    case 1
    have "within dir (path_components ?candidate)"
      using within_push_all[OF assms(2)] inside_index by (simp add: inside_within)
    with 1 show ?thesis by simp
  next
    case 2
    with assms(2) show ?thesis using pretty_file_inside inside_within by blast
  next
    case 3
    with inside_index inside_within show ?thesis by simp
  qed
qed

lemma within_trans:
  assumes "within root (path_components dir)" "within dir cs"
  shows "within root cs"
proof -
  from assms obtain a b where "\<forall>s\<in>set a. plain_name s" "path_components dir = path_components root @ map NormalComp a"
    "\<forall>s\<in>set b. plain_name s" "cs = path_components dir @ map NormalComp b"
    by (auto simp: within_iff)
  then show ?thesis
    unfolding within_iff by (intro exI[of _ "a @ b"]) auto
qed

lemma push_onto: "b \<noteq> [] \<Longrightarrow> path_push b p \<noteq> []"
  by (auto simp: path_push_def starts_with_single)

lemma static_target_nonempty:
  assumes "ensure_artifact fs toml root = Inr (StaticTarget dir spa nf)" "root \<noteq> []"
  shows "dir \<noteq> []"
proof -
  from assms(1) obtain d where "dir = path_push root d"
    by (auto simp: ensure_artifact_def split: option.splits sum.splits if_splits)
  with push_onto[OF assms(2)] show ?thesis by simp
qed

lemma static_target_within:
  assumes "ensure_artifact fs toml root = Inr (StaticTarget dir spa nf)" "root \<noteq> []"
  shows "within root (path_components dir)"
proof -
  from assms(1) obtain content m site where m: "validate_manifest fs m root = Inr ()"
    "om_runtime_kind m \<noteq> pts ''ssr''" "om_static_site m = Some site"
    "dir = path_push root (ss_directory site)"
    by (auto simp: ensure_artifact_def split: option.splits sum.splits if_splits)
  then show ?thesis
    using validated_directory_within[OF m(1-3) assms(2)] by simp
qed

section \<open>Responses\<close>

lemma file_response_bytes:
  "rs_body (file_response media (st, start, end_at) method bytes) = FileBytes b \<Longrightarrow>
     \<exists>n. b = take n (drop start bytes)"
  by (auto simp: file_response_def Let_def split: if_splits)

lemma serve_file_bytes:
  assumes "serve_file fs mime path method rng status = Inr resp" "rs_body resp = FileBytes b"
  shows "\<exists>bytes start n. fs_file fs path = Some bytes \<and> b = take n (drop start bytes)"
proof -
  from assms obtain bytes where bytes: "fs_file fs path = Some bytes"
    by (auto simp: serve_file_def split: if_splits option.splits)
  let ?span = "served_span (selected_range rng status (length bytes)) status (length bytes)"
  have "rs_body (file_response (mime path) ?span method bytes) = FileBytes b"
    using assms bytes by (auto simp: serve_file_def Let_def split: if_splits)
  moreover obtain st start end_at where "?span = (st, start, end_at)"
    by (cases ?span) simp
  ultimately have "rs_body (file_response (mime path) (st, start, end_at) method bytes) = FileBytes b"
    by simp
  from file_response_bytes[OF this] bytes show ?thesis by blast
qed

lemma serve_or_404_bytes:
  assumes "rs_body (serve_or_404 fs mime path status method rng) = FileBytes b"
  shows "\<exists>bytes start n. fs_file fs path = Some bytes \<and> b = take n (drop start bytes)"
proof (cases "serve_file fs mime path method rng status")
  case (Inl e)
  with assms show ?thesis by (simp add: serve_or_404_def error_page_def)
next
  case (Inr resp)
  with assms show ?thesis using serve_file_bytes[OF Inr] by (simp add: serve_or_404_def)
qed

lemma not_found_inside:
  "resolve_not_found_file fs dir None = Some f \<Longrightarrow> inside dir (path_components f)"
  by (auto simp: resolve_not_found_file_def Let_def intro: inside_push split: if_splits)

lemma serve_404_status:
  "rs_body (serve_or_404 fs mime f 404 method rng) = FileBytes b \<Longrightarrow>
     rs_status (serve_or_404 fs mime f 404 method rng) = 404"
  by (auto simp: serve_or_404_def serve_file_def error_page_def selected_range_def served_span_def
      file_response_def split: sum.splits if_splits option.splits)

text \<open>
  C22. A static site serves only its own files. When the manifest of a deployment is accepted, every
  byte of a response to any request path, method and range comes from a regular file below the
  directory of the deployment, reached by plain names only: however the path is encoded, it cannot
  lead out of the deployment. (The one exception is a response with status 404 whose page the
  manifest configures.)
\<close>

theorem static_site_confined:
  assumes "ensure_artifact fs toml root = Inr (StaticTarget dir spa nf)" "root \<noteq> []"
    and "rs_body (serve_static fs mime dir spa nf path method rng) = FileBytes b"
    and "nf = None \<or> rs_status (serve_static fs mime dir spa nf path method rng) \<noteq> 404"
  shows "\<exists>f bytes start n. within root (path_components f) \<and> fs_file fs f = Some bytes \<and>
    b = take n (drop start bytes)"
proof -
  have dir: "within root (path_components dir)"
    by (rule static_target_within[OF assms(1,2)])
  from assms(3) obtain segments where seg: "normalize_public_path path = Some segments"
    by (auto simp: serve_static_def error_page_def split: option.splits)
  have plain: "\<forall>s\<in>set segments. plain_name s"
    using normalized_segments[OF seg] by blast
  show ?thesis
  proof (cases "resolve_static_file fs dir segments spa")
    case (Some f)
    have "within root (path_components f)"
      using resolved_within[OF Some plain] within_trans[OF dir] by blast
    moreover have "rs_body (serve_or_404 fs mime f 200 method rng) = FileBytes b"
      using assms(3) seg Some by (simp add: serve_static_def)
    ultimately show ?thesis
      using serve_or_404_bytes by blast
  next
    case None
    from assms(3) seg None obtain f where f: "resolve_not_found_file fs dir nf = Some f"
      "rs_body (serve_or_404 fs mime f 404 method rng) = FileBytes b"
      by (auto simp: serve_static_def error_page_def split: option.splits)
    with assms(4) serve_404_status[OF f(2)] seg None f(1) have "nf = None" by (simp add: serve_static_def)
    with f not_found_inside inside_within within_trans[OF dir] serve_or_404_bytes[OF f(2)] show ?thesis
      by blast
  qed
qed

lemma parse_range_bounds:
  assumes "parse_range v len = Some (s, e)"
  shows "s \<le> e \<and> e < len"
  using assms
  by (auto simp: parse_range_def Let_def min_def split: if_splits option.splits prod.splits)

lemma selected_range_bounds: "selected_range rng status len = Some (Some (s, e)) \<Longrightarrow> s \<le> e \<and> e < len"
  by (auto simp: selected_range_def split: if_splits option.splits dest: parse_range_bounds)

lemma whole_response:
  "rs_status (file_response media (st, 0, length bytes - Suc 0) m bytes) = st"
  "map_of (rs_headers (file_response media (st, 0, length bytes - Suc 0) m bytes)) ''content-length'' =
     Some (HNum (length bytes))"
  "rs_body (file_response media (st, 0, length bytes - Suc 0) m bytes) =
     (if m = Head then NoBody else FileBytes bytes)"
  by (cases bytes; simp add: file_response_def)+

lemma part_response:
  assumes "s \<le> e" "e < length bytes"
  shows "rs_status (file_response media (206, s, e) m bytes) = 206"
    and "map_of (rs_headers (file_response media (206, s, e) m bytes)) ''content-length'' =
      Some (HNum (Suc (e - s)))"
    and "map_of (rs_headers (file_response media (206, s, e) m bytes)) ''content-range'' =
      Some (HRange s e (length bytes))"
    and "rs_body (file_response media (206, s, e) m bytes) =
      (if m = Head then NoBody else FileBytes (take (Suc (e - s)) (drop s bytes)))"
  using assms by (cases bytes; simp add: file_response_def)+

text \<open>
  What a range header means, said without its parser: the header spells a range, and a range asks for the
  bytes at some positions of the file.
\<close>

datatype byte_range = FromTo nat nat | StartingAt nat | LastBytes nat

inductive spells :: "ustr \<Rightarrow> byte_range \<Rightarrow> bool" where
  "parse_u64 a = Some s \<Longrightarrow> parse_u64 b = Some e \<Longrightarrow> spells (range_prefix @ a @ [45] @ b) (FromTo s e)"
| "parse_u64 a = Some s \<Longrightarrow> spells (range_prefix @ a @ [45]) (StartingAt s)"
| "parse_u64 b = Some n \<Longrightarrow> spells (range_prefix @ [45] @ b) (LastBytes n)"

fun asks :: "nat \<Rightarrow> byte_range \<Rightarrow> nat \<Rightarrow> bool" where
  "asks len (FromTo s e) i \<longleftrightarrow> s \<le> i \<and> i \<le> e"
| "asks len (StartingAt s) i \<longleftrightarrow> s \<le> i"
| "asks len (LastBytes n) i \<longleftrightarrow> len \<le> i + n"

definition wanted :: "nat \<Rightarrow> byte_range \<Rightarrow> nat list" where
  "wanted len r = filter (asks len r) [0..<len]"

definition span_of :: "nat list \<Rightarrow> (nat \<times> nat) option" where
  "span_of is = (if is = [] then None else Some (hd is, last is))"

lemma filter_interval: "filter (\<lambda>i. s \<le> i \<and> i < e) [0..<n] = [s..<min e n]"
  by (induction n) (auto simp: min_def le_Suc_eq)

lemma asks_fun:
  "asks len (FromTo s e) = (\<lambda>i. s \<le> i \<and> i \<le> e)" "asks len (StartingAt s) = (\<lambda>i. s \<le> i)"
  "asks len (LastBytes n) = (\<lambda>i. len \<le> i + n)"
  by auto

lemma wanted_upt: "wanted len r = (case r of FromTo s e \<Rightarrow> [s..<min (Suc e) len]
    | StartingAt s \<Rightarrow> [s..<len] | LastBytes n \<Rightarrow> [len - n..<len])"
proof -
  have "filter (\<lambda>i. s \<le> i) [0..<len] = [s..<len]" for s
    unfolding filter_interval[of s len len, simplified, symmetric] by (rule filter_cong) auto
  moreover have "filter (\<lambda>i. len \<le> i + n) [0..<len] = filter (\<lambda>i. len - n \<le> i) [0..<len]" for n
    by (rule filter_cong) auto
  moreover have "filter (\<lambda>i. s \<le> i \<and> i \<le> e) [0..<len] = [s..<min (Suc e) len]" for s e
    using filter_interval[of s "Suc e" len] by (simp add: less_Suc_eq_le)
  ultimately show ?thesis by (cases r) (simp_all add: wanted_def asks_fun)
qed

lemma span_upt: "span_of [s..<e] = (if s < e then Some (s, e - 1) else None)"
  by (simp add: span_of_def)

lemma number_chars: "parse_u64 a = Some n \<Longrightarrow> a \<noteq> [] \<and> 45 \<notin> set a \<and> 44 \<notin> set a \<and> list_all (\<lambda>b. 32 \<le> b \<and> b < 127) a"
  by (cases a) (auto simp: parse_u64_def Let_def list_all_iff is_ascii_digit_def starts_with_single split: if_splits)

lemma prefix_drop: "starts_with range_prefix (range_prefix @ v) \<and> drop (length range_prefix) (range_prefix @ v) = v"
  by (simp add: starts_with_def)

lemma spelled_range:
  assumes "spells v r"
  shows "parse_range v len = span_of (wanted len r)"
  using assms
proof cases
  case (1 a s b e)
  then show ?thesis
    using number_chars[of a s] number_chars[of b e] prefix_drop[of "a @ 45 # b"]
    by (auto simp: parse_range_def Let_def split_once_append wanted_upt span_upt min_def)
next
  case (2 a s)
  then show ?thesis
    using number_chars[of a s] prefix_drop[of "a @ [45]"]
    by (auto simp: parse_range_def Let_def split_once_append wanted_upt span_upt)
next
  case (3 b n)
  then show ?thesis
    using number_chars[of b n] prefix_drop[of "45 # b"]
    by (auto simp: parse_range_def Let_def wanted_upt span_upt min_def)
qed

lemma parsed_is_spelled:
  assumes "parse_range v len = Some x"
  shows "\<exists>r. spells v r"
proof -
  have "starts_with range_prefix v" using assms by (simp add: parse_range_def split: if_splits)
  then have v: "v = range_prefix @ drop (length range_prefix) v" by (auto simp: starts_with_def elim!: prefixE)
  let ?rng = "drop (length range_prefix) v"
  obtain a b where split: "split_once 45 ?rng = Some (a, b)"
    using assms by (auto simp: parse_range_def Let_def split: if_splits option.splits)
  then have rng: "v = range_prefix @ a @ [45] @ b" using v split_once_Some[OF split] by simp
  consider s e where "parse_u64 a = Some s" "parse_u64 b = Some e" | s where "parse_u64 a = Some s" "b = []"
    | n where "a = []" "parse_u64 b = Some n"
    using assms split by (auto simp: parse_range_def Let_def split: if_splits option.splits)
  then show ?thesis
    unfolding rng
  proof cases
    case (1 s e)
    then show "\<exists>r. spells (range_prefix @ a @ [45] @ b) r" by (blast intro: spells.intros)
  next
    case (2 s)
    then show "\<exists>r. spells (range_prefix @ a @ [45] @ b) r" using spells.intros(2)[of a s] by (intro exI) simp
  next
    case (3 n)
    then show "\<exists>r. spells (range_prefix @ a @ [45] @ b) r" using spells.intros(3)[of b n] by (intro exI) simp
  qed
qed

lemma spelled_header: "spells v r \<Longrightarrow> header_text v = Some v"
  by (cases rule: spells.cases)
    (auto simp: header_text_def range_prefix_def pts_def list_all_iff dest!: number_chars)

lemma part_bytes:
  assumes "s \<le> e" "e < length bytes"
  shows "take (Suc (e - s)) (drop s bytes) = map (\<lambda>i. bytes ! i) [s..<Suc e]"
  using assms by (intro nth_equalityI) (auto simp del: upt_Suc)

lemma wanted_span:
  assumes "wanted (length bytes) r \<noteq> []"
  obtains s e where "wanted (length bytes) r = [s..<Suc e]" "s \<le> e" "e < length bytes"
proof -
  obtain s e where se: "wanted (length bytes) r = [s..<e]" "e \<le> length bytes"
    by (cases r) (auto simp: wanted_upt)
  with assms that[of s] show thesis by (cases e) (auto simp del: upt_Suc)
qed

text \<open>
  C23. Serving a file to GET or HEAD answers exactly the bytes that were asked for. Without a range header
  (or for another status than 200) the response carries the whole file. A header that spells a range, from
  one position to another, from a position on, or the last so many bytes, is answered with 206 and exactly
  the bytes of the file at the positions the range asks for, with their number as \<open>content-length\<close> and the
  first and the last position as \<open>content-range\<close>; when there is none, and for a header that spells no range,
  the answer is 416 with the length of the file and no body. HEAD never has a body.
\<close>

theorem serve_file_ranges:
  assumes "fs_file fs path = Some bytes" and "method = Get \<or> method = Head"
  shows "\<exists>resp. serve_file fs mime path method rng status = Inr resp \<and>
    (let refused = (rs_status resp = 416 \<and> rs_body resp = NoBody \<and>
           map_of (rs_headers resp) ''content-range'' = Some (HUnsatisfied (length bytes)))
     in case (if status = 200 then rng else None) of
       None \<Rightarrow> rs_status resp = status \<and> map_of (rs_headers resp) ''content-length'' = Some (HNum (length bytes)) \<and>
         rs_body resp = (if method = Head then NoBody else FileBytes bytes)
     | Some v \<Rightarrow>
         (\<forall>r. spells v r \<longrightarrow>
            (let is = wanted (length bytes) r in
             if is = [] then refused
             else rs_status resp = 206 \<and> map_of (rs_headers resp) ''content-length'' = Some (HNum (length is)) \<and>
               map_of (rs_headers resp) ''content-range'' = Some (HRange (hd is) (last is) (length bytes)) \<and>
               rs_body resp = (if method = Head then NoBody else FileBytes (map (\<lambda>i. bytes ! i) is)))) \<and>
         ((\<nexists>r. spells v r) \<longrightarrow> refused))"
proof -
  define chosen where "chosen = selected_range rng status (length bytes)"
  define resp where "resp = (if chosen = Some None then
      \<lparr>rs_status = 416, rs_headers = [(''accept-ranges'', HText ''bytes''),
         (''content-range'', HUnsatisfied (length bytes))], rs_body = NoBody\<rparr>
      else file_response (mime path) (served_span chosen status (length bytes)) method bytes)"
  have served: "serve_file fs mime path method rng status = Inr resp"
    using assms by (auto simp: serve_file_def chosen_def resp_def Let_def)
  show ?thesis
  proof (cases "if status = 200 then rng else None")
    case None
    then have "chosen = None" by (auto simp: chosen_def selected_range_def split: if_splits)
    with None served assms(2) show ?thesis
      by (auto simp: resp_def served_span_def whole_response)
  next
    case (Some v)
    then have chosen: "chosen = Some (case header_text v of None \<Rightarrow> None | Some t \<Rightarrow> parse_range t (length bytes))"
      by (auto simp: chosen_def selected_range_def split: if_splits)
    have none: "chosen = Some None" if "\<nexists>r. spells v r"
    proof (cases "header_text v")
      case (Some t)
      then have "t = v" by (simp add: header_text_def split: if_splits)
      with Some chosen that parsed_is_spelled[of v "length bytes"] show ?thesis
        by (cases "parse_range v (length bytes)") auto
    qed (simp add: chosen)
    have spelled: "chosen = Some (span_of (wanted (length bytes) r))" if "spells v r" for r
      using that by (simp add: chosen spelled_header spelled_range)
    have "rs_status resp = 206 \<and> map_of (rs_headers resp) ''content-length'' = Some (HNum (length is)) \<and>
        map_of (rs_headers resp) ''content-range'' = Some (HRange (hd is) (last is) (length bytes)) \<and>
        rs_body resp = (if method = Head then NoBody else FileBytes (map (\<lambda>i. bytes ! i) is))"
      if r: "spells v r" and "is": "is = wanted (length bytes) r" "is \<noteq> []" for r "is"
    proof -
      obtain s e where se: "is = [s..<Suc e]" "s \<le> e" "e < length bytes"
        using wanted_span[of bytes r] "is" by metis
      have "chosen = Some (Some (s, e))" using spelled[OF r] se "is"(1) by (simp add: span_upt del: upt_Suc)
      then show ?thesis
        using part_response[OF se(2,3), of "mime path" "method"] se part_bytes[OF se(2,3)]
        by (simp add: resp_def served_span_def Suc_diff_le del: upt_Suc)
    qed
    moreover have "chosen = Some None \<Longrightarrow> rs_status resp = 416 \<and> rs_body resp = NoBody \<and>
        map_of (rs_headers resp) ''content-range'' = Some (HUnsatisfied (length bytes))"
      by (simp add: resp_def)
    ultimately show ?thesis
      unfolding Some using served none spelled by (auto simp: Let_def span_of_def)
  qed
qed

section \<open>Spellings of a path\<close>

text \<open>
  A client may percent-encode any character of a path. \<open>spelled\<close> is the path in which the characters
  with the flag are encoded.
\<close>

definition hex_char :: "nat \<Rightarrow> nat" where
  "hex_char d = (if d < 10 then 48 + d else 55 + d)"

definition percent_char :: "nat \<Rightarrow> ustr" where
  "percent_char c = concat (map (\<lambda>b. [37, hex_char (b div 16), hex_char (b mod 16)]) (encode_char c))"

definition spelled :: "(nat \<times> bool) list \<Rightarrow> ustr" where
  "spelled ps = concat (map (\<lambda>(c, e). if e then percent_char c else [c]) ps)"

text \<open>What a path means.\<close>

definition meant_segments :: "ustr \<Rightarrow> ustr list option" where
  "meant_segments p =
     (if 0 \<in> set p \<or> 92 \<in> set p \<or> [46, 46] \<in> set (split_on 47 p) then None
      else Some (filter (\<lambda>s. s \<noteq> [] \<and> s \<noteq> [46]) (split_on 47 p)))"

lemma hex_digit_char: "d < 16 \<Longrightarrow> hex_digit (hex_char d) = Some d"
  by (auto simp: hex_char_def)

lemma encode_char_bytes: "is_scalar c \<Longrightarrow> b \<in> set (encode_char c) \<Longrightarrow> b < 256"
  by (auto simp: encode_char_def is_scalar_def less_mult_imp_div_less split: if_splits)

lemma encode_char_high: "b \<in> set (encode_char c) \<Longrightarrow> c < 128 \<and> b = c \<or> 128 \<le> b"
  by (auto simp: encode_char_def split: if_splits)

lemma decode_percent_bytes:
  "\<forall>b\<in>set bs. b < 256 \<Longrightarrow>
     decode_bytes (concat (map (\<lambda>b. [37, hex_char (b div 16), hex_char (b mod 16)]) bs) @ r) =
     map_option (\<lambda>x. bs @ x) (decode_bytes r)"
proof (induction bs)
  case Nil
  then show ?case by (cases "decode_bytes r") simp_all
next
  case (Cons b bs)
  then have "b div 16 < 16" "b mod 16 < 16" and b: "b div 16 * 16 + b mod 16 = b" "b mod 256 = b"
    by (simp_all add: less_mult_imp_div_less)
  then have "hex_digit (hex_char (b div 16)) = Some (b div 16)" "hex_digit (hex_char (b mod 16)) = Some (b mod 16)"
    using hex_digit_char by blast+
  with Cons b show ?case
    by (cases "decode_bytes r") (simp_all del: hex_digit.simps)
qed

lemma decode_plain_bytes:
  "37 \<notin> set bs \<Longrightarrow> decode_bytes (bs @ r) = map_option (\<lambda>x. bs @ x) (decode_bytes r)"
  by (cases "decode_bytes r"; induction bs) auto

lemma utf8_encode_append: "utf8_encode (s @ t) = utf8_encode s @ utf8_encode t"
  by (simp add: utf8_encode_def)

lemma utf8_encode_ascii: "\<forall>c\<in>set s. c < 128 \<Longrightarrow> utf8_encode s = s"
  by (induction s) (simp_all add: utf8_encode_def encode_char_def)

lemma percent_char_ascii: "is_scalar c \<Longrightarrow> utf8_encode (percent_char c) = percent_char c"
  by (rule utf8_encode_ascii)
    (auto simp: percent_char_def hex_char_def less_mult_imp_div_less dest: encode_char_bytes)

lemma decode_spelled:
  assumes "\<forall>(c, e)\<in>set ps. is_scalar c \<and> (c = 37 \<longrightarrow> e)"
  shows "decode_bytes (utf8_encode (spelled ps)) = Some (utf8_encode (map fst ps))"
  using assms
proof (induction ps)
  case Nil
  then show ?case by (simp add: spelled_def utf8_encode_def)
next
  case (Cons x ps)
  obtain c e where x: "x = (c, e)" by force
  have c: "is_scalar c" "c = 37 \<longrightarrow> e" using Cons.prems x by auto
  have ih: "decode_bytes (utf8_encode (spelled ps)) = Some (utf8_encode (map fst ps))"
    using Cons by auto
  have step: "utf8_encode (spelled (x # ps)) =
      (if e then percent_char c else encode_char c) @ utf8_encode (spelled ps)"
    using c x by (simp add: spelled_def utf8_encode_append percent_char_ascii) (simp add: utf8_encode_def)
  show ?case
  proof (cases e)
    case True
    then show ?thesis
      using step ih x encode_char_bytes[OF c(1)]
      by (simp add: percent_char_def decode_percent_bytes) (simp add: utf8_encode_def)
  next
    case False
    then have "37 \<notin> set (encode_char c)"
      using c(2) encode_char_high[of 37 c] by auto
    then show ?thesis
      using False step ih x by (simp add: decode_plain_bytes) (simp add: utf8_encode_def)
  qed
qed

lemma path_segments_meant:
  "path_segments ss =
     (if [46, 46] \<in> set ss then None else Some (filter (\<lambda>s. s \<noteq> [] \<and> s \<noteq> [46]) ss))"
  by (induction ss) auto

lemma spelled_chars:
  assumes "x \<in> set (spelled ps)" "\<not> x < 128 \<or> x = 0 \<or> x = 92"
    "\<forall>(c, e)\<in>set ps. is_scalar c"
  shows "x \<in> set (map fst ps)"
proof -
  from assms(1) obtain c e where ce: "(c, e) \<in> set ps" "x \<in> set (if e then percent_char c else [c])"
    by (auto simp: spelled_def)
  have "\<not> e"
  proof
    assume e
    with ce have "\<exists>b\<in>set (encode_char c). x = 37 \<or> x = hex_char (b div 16) \<or> x = hex_char (b mod 16)"
      by (cases "encode_char c") (auto simp: percent_char_def split: if_splits)
    then obtain b where b: "b \<in> set (encode_char c)"
      "x = 37 \<or> x = hex_char (b div 16) \<or> x = hex_char (b mod 16)"
      by blast
    have "is_scalar c" using ce(1) assms(3) by blast
    then have "b div 16 < 16" "b mod 16 < 16"
      using encode_char_bytes[OF _ b(1)] by (simp_all add: less_mult_imp_div_less)
    moreover have "48 \<le> hex_char d \<and> hex_char d < 71" if "d < 16" for d
      using that by (auto simp: hex_char_def)
    ultimately have "48 \<le> x \<and> x < 71 \<or> x = 37"
      using b(2) by blast
    then show False
      using assms(2) by auto
  qed
  with ce show ?thesis by (auto intro: rev_image_eqI)
qed

text \<open>
  The check of a request path cannot be evaded by percent-encoding: whichever characters of a
  path are encoded, alone or as parts of a longer sequence of bytes, the path is refused or split
  into segments exactly as the path it stands for, and one that climbs with \<open>..\<close>, holds a
  backslash or a NUL is refused.
\<close>

theorem path_spelling_irrelevant:
  assumes "\<forall>(c, e)\<in>set ps. is_scalar c \<and> (c = 37 \<longrightarrow> e)"
  shows "normalize_public_path (spelled ps) = meant_segments (map fst ps)"
proof -
  have scalar: "\<forall>c\<in>set (map fst ps). is_scalar c" "\<forall>(c, e)\<in>set ps. is_scalar c"
    using assms by auto
  have "percent_decode (spelled ps) = Some (map fst ps)"
    using decode_spelled[OF assms] utf8_decode_encode[OF scalar(1)]
    by (simp add: percent_decode_def)
  moreover have "0 \<in> set (spelled ps) \<Longrightarrow> 0 \<in> set (map fst ps)"
    "92 \<in> set (spelled ps) \<Longrightarrow> 92 \<in> set (map fst ps)"
    using spelled_chars scalar(2) by blast+
  ultimately show ?thesis
    by (auto simp: normalize_public_path_def meant_segments_def path_segments_meant)
qed

section \<open>The page for what is not found\<close>

lemma split_two_up:
  "plain_name name \<Longrightarrow> split_on 47 (pts ''../../'' @ name) = [[46, 46], [46, 46], name]"
  using split_on_append[of 47 "[46 :: nat, 46]" "[46, 46] @ 47 # name"]
    split_on_append[of 47 "[46 :: nat, 46]" name]
  by (simp add: pts_def)

lemma components_two_up:
  assumes "plain_name name" "dir \<noteq> []"
  shows "path_components (push_all dir [[46, 46], [46, 46], name]) =
    path_components dir @ [ParentDir, ParentDir, NormalComp name]"
proof -
  have up: "\<not> starts_with [47] [46 :: nat, 46]" "inner_components [46, 46] = [ParentDir]"
    by (simp_all add: starts_with_single inner_components_def part_component_def)
  have ne: "path_push b [46, 46] \<noteq> []" for b by (simp add: path_push_def starts_with_single)
  show ?thesis
    using assms by (simp add: components_push_plain components_push[OF _ up(1)] up(2) ne)
qed

text \<open>
  The page that a manifest configures for missing paths is not confined: a manifest that is
  accepted may name \<open>../../x\<close>, and then a request for a missing path is answered, with status 404,
  with the bytes of the file \<open>x\<close> two levels above the static directory, outside of it and, with the
  usual layout, next to the directories of other deployments.
\<close>

theorem not_found_page_escapes:
  assumes "ensure_artifact fs toml root = Inr (StaticTarget dir spa (Some (pts ''../../'' @ name)))"
    and "root \<noteq> []" "plain_name name"
    and "fs_file fs (push_all dir [[46, 46], [46, 46], name]) = Some bytes"
    and "normalize_public_path path = Some segments" "resolve_static_file fs dir segments spa = None"
  shows "rs_status (serve_static fs mime dir spa (Some (pts ''../../'' @ name)) path Get rng) = 404 \<and>
    rs_body (serve_static fs mime dir spa (Some (pts ''../../'' @ name)) path Get rng) = FileBytes bytes \<and>
    path_components (push_all dir [[46, 46], [46, 46], name]) =
      path_components dir @ [ParentDir, ParentDir, NormalComp name] \<and>
    \<not> within dir (path_components (push_all dir [[46, 46], [46, 46], name]))"
proof -
  let ?p = "push_all dir [[46, 46], [46, 46], name]"
  have "dir \<noteq> []"
    by (rule static_target_nonempty[OF assms(1,2)])
  then have comps: "path_components ?p = path_components dir @ [ParentDir, ParentDir, NormalComp name]"
    using components_two_up assms(3) by blast
  have strip: "trim_start_by (\<lambda>x. x = 47) (pts ''../../'' @ name) = pts ''../../'' @ name"
    by (simp add: trim_start_by_def pts_def)
  have "resolve_not_found_file fs dir (Some (pts ''../../'' @ name)) = Some ?p"
    unfolding resolve_not_found_file_def
    using assms(3,4) by (simp add: strip split_two_up is_file_def Let_def)
  then have "serve_static fs mime dir spa (Some (pts ''../../'' @ name)) path Get rng =
      serve_or_404 fs mime ?p 404 Get rng"
    using assms(5,6) by (simp add: serve_static_def)
  moreover have "\<not> within dir (path_components ?p)"
    unfolding within_iff comps by (auto simp: Cons_eq_map_conv)
  ultimately show ?thesis
    using comps assms(4)
    by (simp add: serve_or_404_def serve_file_def selected_range_def served_span_def whole_response del: push_all.simps)
qed

section \<open>Witnesses\<close>

definition demo_manifest :: "ustr \<Rightarrow> output_manifest" where
  "demo_manifest not_found =
     (static_manifest [49] None False None None)
       \<lparr>om_static_site := Some \<lparr>ss_directory = pts ''static'', ss_spa_fallback = False, ss_not_found = not_found\<rparr>\<rparr>"

definition demo_files :: files where
  "demo_files = \<lparr>fs_file = (\<lambda>p. map_of
       [(pts ''/d/output.toml'', [1]), (pts ''/d/static/index.html'', [60, 104, 62]),
        (pts ''/d/static/../../key'', [83])] p),
     fs_dir = (\<lambda>p. p = pts ''/d/static'')\<rparr>"

definition demo_mime :: "ptext \<Rightarrow> string" where
  "demo_mime p = ''text/html''"

lemma demo_target:
  "ensure_artifact demo_files (\<lambda>c. Inr (demo_manifest [])) (pts ''/d'') =
     Inr (StaticTarget (pts ''/d/static'') False None)"
  by code_simp

lemma demo_target_page:
  "ensure_artifact demo_files (\<lambda>c. Inr (demo_manifest (pts ''../../key''))) (pts ''/d'') =
     Inr (StaticTarget (pts ''/d/static'') False (Some (pts ''../../'' @ pts ''key'')))"
  by code_simp

lemma demo_response:
  "rs_body (serve_static demo_files demo_mime (pts ''/d/static'') False None (pts ''/%69ndex'') Get None) =
     FileBytes [60, 104, 62]"
  "rs_status (serve_static demo_files demo_mime (pts ''/d/static'') False None (pts ''/%69ndex'') Get None) = 200"
  by code_simp+

lemma static_site_confined_witness:
  "rs_status (serve_static demo_files demo_mime (pts ''/d/static'') False None (pts ''/%69ndex'') Get None) = 200 \<and>
   (\<exists>f bytes. within (pts ''/d'') (path_components f) \<and> fs_file demo_files f = Some bytes)"
proof -
  have "pts ''/d'' \<noteq> []" by (simp add: pts_def)
  with static_site_confined[OF demo_target _ demo_response(1)] demo_response(2) show ?thesis by blast
qed

lemma demo_range:
  "serve_file demo_files demo_mime (pts ''/d/static/index.html'') Get (Some (pts ''bytes=1-'')) 200 =
     Inr \<lparr>rs_status = 206,
       rs_headers = [(''content-type'', HText ''text/html''),
         (''cache-control'', HText ''public, max-age=0, must-revalidate''),
         (''accept-ranges'', HText ''bytes''), (''content-length'', HNum 2),
         (''content-range'', HRange 1 2 3)],
       rs_body = FileBytes [104, 62]\<rparr>"
  "fs_file demo_files (pts ''/d/static/index.html'') = Some [60, 104, 62]"
  "selected_range (Some (pts ''bytes=1-'')) 200 3 = Some (Some (1, 2))"
  by code_simp+

lemma demo_spelled: "spells (pts ''bytes=1-'') (StartingAt 1)"
proof -
  have "parse_u64 (pts ''1'') = Some 1" by code_simp
  from spells.intros(2)[OF this] show ?thesis by (simp add: range_prefix_def pts_def)
qed

lemma serve_file_ranges_witness:
  "\<exists>resp. serve_file demo_files demo_mime (pts ''/d/static/index.html'') Get (Some (pts ''bytes=1-'')) 200 = Inr resp \<and>
     rs_status resp = 206 \<and> map_of (rs_headers resp) ''content-range'' = Some (HRange 1 2 3)"
proof -
  have "wanted (Suc (Suc (Suc 0))) (StartingAt 1) = [1, 2]" by code_simp
  with serve_file_ranges[OF demo_range(2), of Get demo_mime "Some (pts ''bytes=1-'')" 200] demo_spelled demo_range(2)
  show ?thesis by (auto simp: Let_def dest!: spec[of _ "StartingAt 1"])
qed

lemma path_spelling_irrelevant_witness:
  "normalize_public_path (spelled [(47, True), (46, True), (46, False), (47, False), (233, True)]) =
     meant_segments [47, 46, 46, 47, 233]"
  using path_spelling_irrelevant[of "[(47, True), (46, True), (46, False), (47, False), (233, True)]"]
  by (simp add: is_scalar_def)

lemma demo_missing:
  "normalize_public_path (pts ''/nothing'') = Some [pts ''nothing'']"
  "resolve_static_file demo_files (pts ''/d/static'') [pts ''nothing''] False = None"
  "fs_file demo_files (push_all (pts ''/d/static'') [[46, 46], [46, 46], pts ''key'']) = Some [83]"
  "plain_name (pts ''key'') \<and> pts ''/d'' \<noteq> []"
  by code_simp+

lemma not_found_page_escapes_witness:
  "rs_body (serve_static demo_files demo_mime (pts ''/d/static'') False (Some (pts ''../../'' @ pts ''key''))
     (pts ''/nothing'') Get None) = FileBytes [83]"
  using not_found_page_escapes[OF demo_target_page _ _ demo_missing(3,1,2)] demo_missing(4) by blast

end
