(* ===== verification/Gateway.thy ===== *)
theory Gateway
  imports RouteTable ServeStatic
begin

text \<open>
  Requests between Serve Nodes (\<open>serve/routing.rs\<close>, \<open>serve/proxy.rs\<close>): who a request comes from,
  whether it is served here or forwarded to the Node of its deployment, and with which headers. URLs are
  built by the \<open>url\<close> crate, a parameter; headers are the list of their names (in lower case) and
  values, of which \<open>HeaderMap::get\<close> returns the first.
\<close>

section \<open>Requests\<close>

type_synonym headers = "(string \<times> nat list) list"

record request =
  rq_path :: "nat list"
  rq_query :: "nat list option"
  rq_headers :: headers
  rq_client_ip :: "nat list"
  rq_tls :: bool

record serve_node =
  nd_id :: uuid
  nd_gateway_token :: "nat list option"
  nd_gateway_authentication :: gateway_authentication_mode

definition gateway_token_header :: string where
  "gateway_token_header = ''x-grass-gateway-token''"

definition gateway_hop_header :: string where
  "gateway_hop_header = ''x-grass-gateway-hop''"

definition peer_proxy_prefix :: "nat list" where
  "peer_proxy_prefix = pts ''/_grass/internal/proxy''"

definition get_header :: "headers \<Rightarrow> string \<Rightarrow> nat list option" where
  "get_header hs name = map_of hs name"

definition own_token :: "serve_node \<Rightarrow> nat list" where
  "own_token n = (case nd_gateway_token n of Some t \<Rightarrow> t | None \<Rightarrow> [])"

section \<open>Origin and action\<close>

datatype gateway_origin_kind = External | Authenticated

datatype route_action_kind = RouteLocal | RouteProxy

definition gateway_origin ::
  "headers \<Rightarrow> nat list \<Rightarrow> gateway_authentication_mode \<Rightarrow> string + gateway_origin_kind" where
  "gateway_origin hs expected_token auth =
     (let token = get_header hs gateway_token_header; hop = get_header hs gateway_hop_header in
      if auth = GatewayNone then
        (case (token, hop) of
           (None, None) \<Rightarrow> Inr External
         | (None, Some h) \<Rightarrow>
             if header_text h = Some (pts ''1'') then Inr Authenticated else Inl ''invalid gateway hop''
         | (Some _, _) \<Rightarrow> Inl ''gateway token is not accepted in none mode'')
      else
        (case (token, hop) of
           (None, None) \<Rightarrow> Inr External
         | (Some t, Some h) \<Rightarrow>
             (case header_text t of
                None \<Rightarrow> Inl ''invalid gateway token''
              | Some t \<Rightarrow>
                  (case header_text h of
                     None \<Rightarrow> Inl ''invalid gateway hop''
                   | Some h \<Rightarrow>
                       if expected_token = [] \<or> t \<noteq> expected_token then Inl ''invalid gateway token''
                       else if h \<noteq> pts ''1'' then Inl ''invalid gateway hop''
                       else Inr Authenticated))
         | _ \<Rightarrow> Inl ''incomplete gateway authentication''))"

definition route_action :: "uuid \<Rightarrow> uuid \<Rightarrow> gateway_origin_kind \<Rightarrow> string + route_action_kind" where
  "route_action local_node target_node origin =
     (if local_node = target_node then Inr RouteLocal
      else if origin = Authenticated then Inl ''gateway request cannot be proxied more than once''
      else Inr RouteProxy)"

definition without_port :: "nat list \<Rightarrow> nat list" where
  "without_port raw =
     (case rsplit_once 58 raw of
        None \<Rightarrow> raw
      | Some (host, port) \<Rightarrow> if list_all is_ascii_digit port then host else raw)"

definition host_from_headers :: "headers \<Rightarrow> nat list option" where
  "host_from_headers hs =
     (if length (filter (\<lambda>(n, _). n = ''host'') hs) \<noteq> 1 then None
      else
        (case get_header hs ''host'' of
           None \<Rightarrow> None
         | Some v \<Rightarrow>
             (case header_text v of
                None \<Rightarrow> None
              | Some raw \<Rightarrow>
                  (case normalize_host (without_port raw) of Inl _ \<Rightarrow> None | Inr h \<Rightarrow> Some h))))"

definition path_and_query :: "request \<Rightarrow> nat list" where
  "path_and_query r = rq_path r @ (case rq_query r of Some q \<Rightarrow> 63 # q | None \<Rightarrow> [])"

text \<open>The restored text is read back as a URI (\<open>uri_ok\<close>), with its query after the question mark.\<close>

definition restored_path :: "nat list \<Rightarrow> string + nat list" where
  "restored_path text =
     (if \<not> starts_with peer_proxy_prefix text then Inl ''missing peer proxy prefix''
      else
        (let rest = drop (length peer_proxy_prefix) text in
         case rest of
           [] \<Rightarrow> Inr [47]
         | c # _ \<Rightarrow>
             if c = 47 then Inr rest
             else if c = 63 then Inr (47 # rest)
             else Inl ''invalid peer proxy path''))"

definition strip_peer_proxy_prefix :: "(nat list \<Rightarrow> bool) \<Rightarrow> request \<Rightarrow> string + request" where
  "strip_peer_proxy_prefix uri_ok r =
     (case restored_path (path_and_query r) of
        Inl e \<Rightarrow> Inl e
      | Inr restored \<Rightarrow>
          if \<not> uri_ok restored then Inl ''invalid peer proxy URI''
          else
            (case split_once 63 restored of
               None \<Rightarrow> Inr (r\<lparr>rq_path := restored, rq_query := None\<rparr>)
             | Some (p, q) \<Rightarrow> Inr (r\<lparr>rq_path := p, rq_query := Some q\<rparr>)))"

section \<open>Forwarding\<close>

definition is_hop_by_hop :: "string \<Rightarrow> bool" where
  "is_hop_by_hop name \<longleftrightarrow>
     name \<in> {''connection'', ''keep-alive'', ''proxy-authenticate'', ''proxy-authorization'', ''te'',
       ''trailer'', ''transfer-encoding'', ''upgrade''}"

definition is_gateway_internal :: "string \<Rightarrow> bool" where
  "is_gateway_internal name \<longleftrightarrow> name \<in> {gateway_token_header, gateway_hop_header}"

definition is_forwarded_metadata :: "string \<Rightarrow> bool" where
  "is_forwarded_metadata name \<longleftrightarrow>
     name \<in> {''x-forwarded-for'', ''x-forwarded-host'', ''x-forwarded-proto''}"

definition forwarded_metadata :: "request \<Rightarrow> headers" where
  "forwarded_metadata r =
     [(''x-forwarded-for'', rq_client_ip r),
      (''x-forwarded-proto'', if rq_tls r then pts ''https'' else pts ''http'')] @
     (case get_header (rq_headers r) ''host'' of Some h \<Rightarrow> [(''x-forwarded-host'', h)] | None \<Rightarrow> [])"

definition ssr_headers :: "gateway_origin_kind \<Rightarrow> request \<Rightarrow> headers" where
  "ssr_headers origin r =
     filter (\<lambda>(n, _). \<not> (is_hop_by_hop n \<or> is_gateway_internal n \<or>
       (origin = External \<and> is_forwarded_metadata n))) (rq_headers r) @
     (if origin = External then forwarded_metadata r else [])"

definition gateway_headers :: "gateway_authentication_mode \<Rightarrow> nat list \<Rightarrow> request \<Rightarrow> headers" where
  "gateway_headers auth token r =
     filter (\<lambda>(n, _). \<not> (is_hop_by_hop n \<or> is_gateway_internal n \<or> is_forwarded_metadata n)) (rq_headers r) @
     [(gateway_hop_header, pts ''1'')] @
     (if auth = GatewayToken then [(gateway_token_header, token)] else []) @
     forwarded_metadata r"

text \<open>The URL with its path and query set: its text and its path.\<close>

type_synonym url_lib = "nat list \<Rightarrow> nat list \<Rightarrow> nat list option \<Rightarrow> (nat list \<times> nat list) option"

definition forward_to_gateway ::
  "url_lib \<Rightarrow> nat list \<Rightarrow> nat list \<Rightarrow> gateway_authentication_mode \<Rightarrow> request \<Rightarrow> string + (nat list \<times> headers)" where
  "forward_to_gateway url base token auth r =
     (if auth = GatewayToken \<and> token = [] then Inl ''destination gateway requires an outbound credential''
      else if normalize_public_path (rq_path r) = None then Inl ''invalid gateway request path''
      else
        (case url base (peer_proxy_prefix @ rq_path r) (rq_query r) of
           None \<Rightarrow> Inl ''invalid target Serve Node URL''
         | Some (target, target_path) \<Rightarrow>
             if \<not> starts_with (peer_proxy_prefix @ [47]) target_path
             then Inl ''gateway request escaped the peer endpoint''
             else Inr (target, gateway_headers auth token r)))"

section \<open>Handlers\<close>

datatype serve_action =
    Answer response
  | SendToPeer uuid "nat list" headers
  | ServeHere serve_route gateway_origin_kind request

definition local_request :: "request \<Rightarrow> request" where
  "local_request r = r\<lparr>rq_headers := filter (\<lambda>(n, _). \<not> is_gateway_internal n) (rq_headers r)\<rparr>"

definition route_public_request ::
  "url_lib \<Rightarrow> serve_node \<Rightarrow> route_snapshot \<Rightarrow> request \<Rightarrow> serve_action" where
  "route_public_request url n t r =
     (case gateway_origin (rq_headers r) (own_token n) (nd_gateway_authentication n) of
        Inl _ \<Rightarrow> Answer (error_page 403 ''This gateway request is not authorized.'')
      | Inr origin \<Rightarrow>
          (case host_from_headers (rq_headers r) of
             None \<Rightarrow> Answer (error_page 400 ''This request has no valid Host header.'')
           | Some host \<Rightarrow>
               (case lookup_route t host of
                  None \<Rightarrow> Answer (error_page 404 ''This host is not bound to any active deployment.'')
                | Some route \<Rightarrow>
                    if normalize_public_path (rq_path r) = None
                    then Answer (error_page 400 ''The requested path is not allowed.'')
                    else
                      (case route_action (nd_id n) (rt_target_node_id route) origin of
                         Inr RouteProxy \<Rightarrow>
                           (case forward_to_gateway url (rt_target_base_url route) (own_token n)
                               (rt_gateway_authentication route) r of
                              Inr (target, hs) \<Rightarrow> SendToPeer (rt_target_node_id route) target hs
                            | Inl _ \<Rightarrow> Answer (error_page 502 ''The assigned Serve Node could not be reached.''))
                       | Inr RouteLocal \<Rightarrow> ServeHere route origin (local_request r)
                       | Inl _ \<Rightarrow>
                           Answer (error_page 502 ''The gateway route snapshot points to another Serve Node.'')))))"

definition handle_peer_proxy ::
  "(nat list \<Rightarrow> bool) \<Rightarrow> serve_node \<Rightarrow> route_snapshot \<Rightarrow> request \<Rightarrow> serve_action" where
  "handle_peer_proxy uri_ok n t r =
     (if gateway_origin (rq_headers r) (own_token n) (nd_gateway_authentication n) \<noteq> Inr Authenticated
      then Answer (error_page 403 ''This gateway request is not authorized.'')
      else
        (case strip_peer_proxy_prefix uri_ok r of
           Inl _ \<Rightarrow> Answer (error_page 400 ''This gateway path is invalid.'')
         | Inr r' \<Rightarrow>
             (case host_from_headers (rq_headers r') of
                None \<Rightarrow> Answer (error_page 400 ''This request has no valid Host header.'')
              | Some host \<Rightarrow>
                  (case lookup_route t host of
                     None \<Rightarrow>
                       Answer (error_page 502 ''The gateway route snapshot no longer contains this Host.'')
                   | Some route \<Rightarrow>
                       if route_action (nd_id n) (rt_target_node_id route) Authenticated \<noteq> Inr RouteLocal
                       then Answer (error_page 502 ''The gateway route snapshot points to another Serve Node.'')
                       else ServeHere route Authenticated (local_request r')))))"

section \<open>Headers\<close>

definition header_values :: "headers \<Rightarrow> string \<Rightarrow> nat list list" where
  "header_values hs name = map snd (filter (\<lambda>(n, _). n = name) hs)"

lemma header_values_append [simp]: "header_values (xs @ ys) name = header_values xs name @ header_values ys name"
  by (simp add: header_values_def)

lemma header_values_simps [simp]:
  "header_values [] name = []"
  "header_values ((n, v) # hs) name = (if n = name then v # header_values hs name else header_values hs name)"
  by (simp_all add: header_values_def)

lemma get_header_values: "get_header hs name = (case header_values hs name of [] \<Rightarrow> None | v # _ \<Rightarrow> Some v)"
  by (induction hs) (auto simp: get_header_def)

lemma header_values_filter:
  "header_values (filter (\<lambda>(n, _). P n) hs) name = (if P name then header_values hs name else [])"
  by (induction hs) auto

lemma host_count: "length (filter (\<lambda>(n, _). n = ''host'') hs) = length (header_values hs ''host'')"
  by (simp add: header_values_def)

lemma host_from_values:
  "header_values hs ''host'' = header_values hs' ''host'' \<Longrightarrow> host_from_headers hs = host_from_headers hs'"
  by (simp add: host_from_headers_def host_count get_header_values)

lemma header_names:
  "gateway_token_header \<noteq> gateway_hop_header" "gateway_hop_header \<noteq> gateway_token_header"
  "''host'' \<noteq> gateway_token_header" "''host'' \<noteq> gateway_hop_header"
  "gateway_token_header \<noteq> ''host''" "gateway_hop_header \<noteq> ''host''"
  "is_gateway_internal gateway_token_header" "is_gateway_internal gateway_hop_header"
  "\<not> is_hop_by_hop ''host''" "\<not> is_gateway_internal ''host''" "\<not> is_forwarded_metadata ''host''"
  "\<not> is_forwarded_metadata gateway_token_header" "\<not> is_forwarded_metadata gateway_hop_header"
  "\<not> is_hop_by_hop gateway_token_header" "\<not> is_hop_by_hop gateway_hop_header"
  by (simp_all add: gateway_token_header_def gateway_hop_header_def is_gateway_internal_def
      is_hop_by_hop_def is_forwarded_metadata_def)

lemma metadata_values:
  "header_values (forwarded_metadata r) ''x-forwarded-for'' = [rq_client_ip r]"
  "header_values (forwarded_metadata r) ''x-forwarded-proto'' = [if rq_tls r then pts ''https'' else pts ''http'']"
  "\<not> is_forwarded_metadata name \<Longrightarrow> header_values (forwarded_metadata r) name = []"
  by (auto simp: forwarded_metadata_def is_forwarded_metadata_def split: option.splits)

lemma gateway_header_values:
  "header_values (gateway_headers auth token r) gateway_hop_header = [pts ''1'']"
  "header_values (gateway_headers auth token r) gateway_token_header = (if auth = GatewayToken then [token] else [])"
  "header_values (gateway_headers auth token r) ''host'' = header_values (rq_headers r) ''host''"
  by (simp_all add: gateway_headers_def header_values_filter metadata_values header_names)

text \<open>How a Node describes the client it has seen, by header.\<close>

definition description :: "request \<Rightarrow> string \<Rightarrow> nat list list" where
  "description r name =
     (if name = ''x-forwarded-for'' then [rq_client_ip r]
      else if name = ''x-forwarded-proto'' then [if rq_tls r then pts ''https'' else pts ''http'']
      else take 1 (header_values (rq_headers r) ''host''))"

definition describing :: "string set" where
  "describing = {''x-forwarded-for'', ''x-forwarded-host'', ''x-forwarded-proto''}"

definition connection_headers :: "string set" where
  "connection_headers =
     {''connection'', ''keep-alive'', ''proxy-authenticate'', ''proxy-authorization'', ''te'', ''trailer'',
      ''transfer-encoding'', ''upgrade''}"

lemma metadata_description:
  "header_values (forwarded_metadata r) name = (if name \<in> describing then description r name else [])"
  by (auto simp: forwarded_metadata_def description_def describing_def get_header_values split: list.split)

lemma names_by_kind:
  "is_forwarded_metadata name \<longleftrightarrow> name \<in> describing"
  "is_hop_by_hop name \<longleftrightarrow> name \<in> connection_headers"
  "is_gateway_internal name \<longleftrightarrow> name = ''x-grass-gateway-token'' \<or> name = ''x-grass-gateway-hop''"
  by (simp_all add: is_forwarded_metadata_def describing_def is_hop_by_hop_def connection_headers_def
      is_gateway_internal_def gateway_token_header_def gateway_hop_header_def)

lemma kinds_apart:
  "''x-grass-gateway-hop'' \<notin> describing \<union> connection_headers"
  "''x-grass-gateway-token'' \<notin> describing \<union> connection_headers" "describing \<inter> connection_headers = {}"
  by (simp_all add: describing_def connection_headers_def)

text \<open>
  C26. Forwarded headers cannot be spoofed. Under every name, a request that a Node forwards to a peer
  carries exactly: one hop mark; the Node's own credential when the destination wants one, else none; for
  the three headers that describe the client, one address, one scheme and the first \<open>Host\<close>, as the Node saw
  them; nothing of the connection; and under any other name what the client sent. A request that goes to the
  application of a deployment carries none of the gateway's headers and, when it came from outside, the same
  description; from an authenticated peer it keeps the peer's.
\<close>

theorem forwarded_headers_not_spoofed:
  "header_values (gateway_headers auth token r) name =
     (if name = ''x-grass-gateway-hop'' then [pts ''1'']
      else if name = ''x-grass-gateway-token'' then (if auth = GatewayToken then [token] else [])
      else if name \<in> describing then description r name
      else if name \<in> connection_headers then []
      else header_values (rq_headers r) name) \<and>
   header_values (ssr_headers origin r) name =
     (if name = ''x-grass-gateway-hop'' \<or> name = ''x-grass-gateway-token'' \<or> name \<in> connection_headers then []
      else if name \<in> describing \<and> origin = External then description r name
      else header_values (rq_headers r) name)"
  using kinds_apart
  by (auto simp: gateway_headers_def ssr_headers_def header_values_filter names_by_kind metadata_description
      gateway_token_header_def gateway_hop_header_def)

section \<open>One hop\<close>

lemma header_text_Some: "header_text v = Some t \<longleftrightarrow> t = v \<and> list_all (\<lambda>b. (32 \<le> b \<and> b < 127) \<or> b = 9) v"
  by (auto simp: header_text_def)

lemma sent_to_peer:
  assumes "route_public_request url n t r = SendToPeer target text hs"
  shows "\<exists>route. gateway_origin (rq_headers r) (own_token n) (nd_gateway_authentication n) = Inr External \<and>
    rt_target_node_id route = target \<and> nd_id n \<noteq> target \<and>
    (\<exists>host. host_from_headers (rq_headers r) = Some host \<and> lookup_route t host = Some route) \<and>
    normalize_public_path (rq_path r) \<noteq> None \<and>
    (rt_gateway_authentication route = GatewayToken \<longrightarrow> own_token n \<noteq> []) \<and>
    hs = gateway_headers (rt_gateway_authentication route) (own_token n) r"
proof -
  obtain origin where o: "gateway_origin (rq_headers r) (own_token n) (nd_gateway_authentication n) = Inr origin"
    using assms by (auto simp: route_public_request_def split: sum.splits)
  obtain host where h: "host_from_headers (rq_headers r) = Some host"
    using assms o by (auto simp: route_public_request_def split: option.splits)
  obtain route where route: "lookup_route t host = Some route"
    using assms o h by (auto simp: route_public_request_def split: option.splits)
  have path: "normalize_public_path (rq_path r) \<noteq> None"
    using assms o h route by (auto simp: route_public_request_def split: if_splits)
  have act: "route_action (nd_id n) (rt_target_node_id route) origin = Inr RouteProxy"
    using assms o h route path
    by (auto simp: route_public_request_def split: sum.splits route_action_kind.splits)
  then have "origin = External" "nd_id n \<noteq> rt_target_node_id route"
    by (cases origin; auto simp: route_action_def split: if_splits)+
  moreover obtain x where "forward_to_gateway url (rt_target_base_url route) (own_token n)
      (rt_gateway_authentication route) r = Inr (x, hs)" "rt_target_node_id route = target"
    using assms o h route path act
    by (auto simp: route_public_request_def split: sum.splits)
  ultimately show ?thesis
    using o h route path
    by (intro exI[of _ route]) (auto simp: forward_to_gateway_def split: if_splits option.splits)
qed

lemma hop_never_external:
  "get_header hs gateway_hop_header \<noteq> None \<Longrightarrow> gateway_origin hs token auth \<noteq> Inr External"
  by (auto simp: gateway_origin_def Let_def split: option.splits if_splits)

text \<open>
  C27. A request crosses at most one gateway hop. A Node forwards only requests that came from outside,
  only to another Node; and the request it sends, however the peer's token, authentication mode
  and routes look, and whether it arrives at the peer endpoint or at the public one, is never
  forwarded again.
\<close>

theorem single_hop:
  assumes "route_public_request url a ta r = SendToPeer target text hs"
    and "get_header (rq_headers r') gateway_hop_header = get_header hs gateway_hop_header"
  shows "gateway_origin (rq_headers r) (own_token a) (nd_gateway_authentication a) = Inr External \<and>
    target \<noteq> nd_id a \<and>
    route_public_request url' b tb r' \<noteq> SendToPeer target' text' hs' \<and>
    handle_peer_proxy uri_ok b tb r' \<noteq> SendToPeer target' text' hs'"
proof -
  from sent_to_peer[OF assms(1)] obtain route :: serve_route where s:
    "gateway_origin (rq_headers r) (own_token a) (nd_gateway_authentication a) = Inr External"
    "nd_id a \<noteq> target" "hs = gateway_headers (rt_gateway_authentication route) (own_token a) r"
    by blast
  have "get_header hs gateway_hop_header = Some (pts ''1'')"
    by (simp add: s(3) get_header_values gateway_header_values)
  then have "get_header (rq_headers r') gateway_hop_header \<noteq> None"
    by (simp add: assms(2))
  from hop_never_external[OF this] have "route_public_request url' b tb r' \<noteq> SendToPeer target' text' hs'"
    by (auto dest: sent_to_peer)
  moreover have "handle_peer_proxy uri_ok b tb r' \<noteq> SendToPeer target' text' hs'"
    by (auto simp: handle_peer_proxy_def split: sum.splits option.splits)
  ultimately show ?thesis using s(1,2) by simp
qed

lemma host_from_headers_Some:
  "host_from_headers hs = Some host \<longleftrightarrow>
     (\<exists>v. header_values hs ''host'' = [v] \<and> header_text v = Some v \<and> normalize_host (without_port v) = Inr host)"
  by (cases "header_values hs ''host''")
    (auto simp: host_from_headers_def host_count get_header_values header_text_def length_Suc_conv
      split: option.splits sum.splits)

lemma stripped_headers: "strip_peer_proxy_prefix uri_ok r = Inr q \<Longrightarrow> rq_headers q = rq_headers r"
  by (auto simp: strip_peer_proxy_prefix_def split: sum.splits option.splits if_splits)

text \<open>
  C28. What the gateway accepts as a peer's request carries the credential and is served for its own host. On
  a Node in token mode the peer endpoint serves a request only when it presents this Node's own, non-empty
  token and the hop mark, and when it has one \<open>Host\<close> header, whose value (without a port, in its normal
  form) this Node's table routes, by the very route served, to this very Node. It is handed on with every
  header it had under its name, except the two of the gateway, which are gone.
\<close>

theorem peer_requires_credential:
  assumes "handle_peer_proxy uri_ok n t r = ServeHere route origin r'"
    and "nd_gateway_authentication n = GatewayToken"
  shows "origin = Authenticated \<and> own_token n \<noteq> [] \<and>
    get_header (rq_headers r) gateway_token_header = Some (own_token n) \<and>
    get_header (rq_headers r) gateway_hop_header = Some (pts ''1'') \<and>
    (\<exists>v host. header_values (rq_headers r) ''host'' = [v] \<and> normalize_host (without_port v) = Inr host \<and>
       lookup_route t host = Some route) \<and>
    rt_target_node_id route = nd_id n \<and>
    header_values (rq_headers r') name =
      (if name = gateway_token_header \<or> name = gateway_hop_header then [] else header_values (rq_headers r) name)"
proof -
  have o: "gateway_origin (rq_headers r) (own_token n) GatewayToken = Inr Authenticated"
    using assms by (auto simp: handle_peer_proxy_def split: if_splits)
  then have cred: "own_token n \<noteq> []" "get_header (rq_headers r) gateway_token_header = Some (own_token n)"
    "get_header (rq_headers r) gateway_hop_header = Some (pts ''1'')"
    by (auto simp: gateway_origin_def Let_def header_text_Some split: option.splits if_splits)
  from assms(1) o obtain q host where q: "r' = local_request q" "origin = Authenticated"
    "route_action (nd_id n) (rt_target_node_id route) Authenticated = Inr RouteLocal"
    and strip: "strip_peer_proxy_prefix uri_ok r = Inr q"
    and host: "host_from_headers (rq_headers q) = Some host" "lookup_route t host = Some route"
    by (auto simp: handle_peer_proxy_def assms(2) split: sum.splits option.splits if_splits)
  note same = stripped_headers[OF strip]
  have "rt_target_node_id route = nd_id n" using q(3) by (auto simp: route_action_def split: if_splits)
  moreover have "\<exists>v host. header_values (rq_headers r) ''host'' = [v] \<and> normalize_host (without_port v) = Inr host \<and>
      lookup_route t host = Some route"
    using host by (auto simp: same host_from_headers_Some)
  moreover have "header_values (rq_headers r') name =
      (if name = gateway_token_header \<or> name = gateway_hop_header then [] else header_values (rq_headers r) name)"
    by (simp add: q(1) local_request_def same header_values_filter is_gateway_internal_def)
  ultimately show ?thesis using cred q(2) by blast
qed

section \<open>From Node to Node\<close>

lemma accepted_gateway_headers:
  assumes "auth = GatewayToken \<longrightarrow> token \<noteq> [] \<and> header_text token = Some token"
  shows "gateway_origin (gateway_headers auth token r) token auth = Inr Authenticated"
proof -
  have hop: "get_header (gateway_headers auth token r) gateway_hop_header = Some (pts ''1'')"
    by (simp add: get_header_values gateway_header_values)
  have tok: "get_header (gateway_headers auth token r) gateway_token_header =
      (if auth = GatewayToken then Some token else None)"
    by (simp add: get_header_values gateway_header_values)
  have "header_text (pts ''1'') = Some (pts ''1'')" by code_simp
  with hop tok assms show ?thesis
    by (cases auth) (simp_all add: gateway_origin_def Let_def)
qed

lemma restored_prefix:
  assumes "starts_with [47] (rq_path r)" "63 \<notin> set (rq_path r)" "uri_ok (path_and_query r)"
    and "rq_path r' = peer_proxy_prefix @ rq_path r" "rq_query r' = rq_query r"
  shows "strip_peer_proxy_prefix uri_ok r' = Inr (r'\<lparr>rq_path := rq_path r, rq_query := rq_query r\<rparr>)"
proof -
  obtain p where p: "rq_path r = 47 # p"
    using assms(1) by (cases "rq_path r") (auto simp: starts_with_def)
  have sent: "path_and_query r' = peer_proxy_prefix @ path_and_query r"
    by (simp add: path_and_query_def assms(4,5))
  have "path_and_query r = 47 # (p @ (case rq_query r of Some q \<Rightarrow> 63 # q | None \<Rightarrow> []))"
    by (simp add: path_and_query_def p)
  then have rest: "restored_path (path_and_query r') = Inr (path_and_query r)"
    by (simp add: restored_path_def sent starts_with_def)
  have "split_once 63 (path_and_query r) =
      (case rq_query r of Some q \<Rightarrow> Some (rq_path r, q) | None \<Rightarrow> None)"
    using assms(2)
    by (auto simp: path_and_query_def split_once_None split_once_append split: option.splits)
  then show ?thesis
    unfolding strip_peer_proxy_prefix_def rest
    by (cases "rq_query r") (simp_all add: assms(3), simp add: path_and_query_def)
qed

text \<open>
  C29. A forwarded request is served by the peer. When a Node forwards a request and the peer holds the same
  routes, the authentication mode its routes announce and the same (printable) token, the peer
  restores the path and the query the client sent and serves the request itself, for the very route by
  which the first Node chose it.
\<close>

theorem peer_serves_the_request:
  assumes "route_public_request url a t r = SendToPeer (nd_id b) text hs"
    and "rq_path r' = peer_proxy_prefix @ rq_path r" "rq_query r' = rq_query r" "rq_headers r' = hs"
    and "starts_with [47] (rq_path r)" "63 \<notin> set (rq_path r)" "uri_ok (path_and_query r)"
    and "\<forall>host route. lookup_route t host = Some route \<and> rt_target_node_id route = nd_id b \<longrightarrow>
      rt_gateway_authentication route = nd_gateway_authentication b"
    and "own_token b = own_token a" "header_text (own_token a) = Some (own_token a)"
  shows "\<exists>host route. host_from_headers (rq_headers r) = Some host \<and> lookup_route t host = Some route \<and>
    handle_peer_proxy uri_ok b t r' =
      ServeHere route Authenticated (local_request (r'\<lparr>rq_path := rq_path r, rq_query := rq_query r\<rparr>))"
proof -
  from sent_to_peer[OF assms(1)] obtain route :: serve_route and host where s: "rt_target_node_id route = nd_id b"
    "host_from_headers (rq_headers r) = Some host" "lookup_route t host = Some route"
    "rt_gateway_authentication route = GatewayToken \<longrightarrow> own_token a \<noteq> []"
    "hs = gateway_headers (rt_gateway_authentication route) (own_token a) r"
    by blast
  have mode: "rt_gateway_authentication route = nd_gateway_authentication b"
    using assms(8) s(1,3) by simp
  have origin: "gateway_origin (rq_headers r') (own_token b) (nd_gateway_authentication b) = Inr Authenticated"
    using accepted_gateway_headers[of "rt_gateway_authentication route" "own_token a" r] s(4) assms(10)
    by (simp add: assms(4,9) s(5) mode)
  have strip: "strip_peer_proxy_prefix uri_ok r' = Inr (r'\<lparr>rq_path := rq_path r, rq_query := rq_query r\<rparr>)"
    using restored_prefix[of r uri_ok r'] assms(2,3,5-7) by simp
  have "host_from_headers hs = host_from_headers (rq_headers r)"
    by (rule host_from_values) (simp add: s(5) gateway_header_values)
  then have "host_from_headers (rq_headers r') = Some host"
    by (simp add: assms(4) s(2))
  then show ?thesis
    using s(1-3) by (intro exI[of _ host] exI[of _ route]) (simp add: handle_peer_proxy_def origin strip route_action_def)
qed

section \<open>At concrete inputs\<close>

definition demo_url :: url_lib where
  "demo_url base p q = Some (base @ p @ (case q of Some q \<Rightarrow> 63 # q | None \<Rightarrow> []), p)"

definition demo_edge :: serve_node where
  "demo_edge = \<lparr>nd_id = 5, nd_gateway_token = Some (pts ''secret''), nd_gateway_authentication = GatewayToken\<rparr>"

definition demo_peer :: serve_node where
  "demo_peer = \<lparr>nd_id = 7, nd_gateway_token = Some (pts ''secret''), nd_gateway_authentication = GatewayToken\<rparr>"

definition demo_request :: request where
  "demo_request = \<lparr>rq_path = pts ''/docs/a.html'', rq_query = Some (pts ''v=1''),
     rq_headers = [(''host'', pts ''APP.example.com:8080''), (''x-forwarded-for'', pts ''10.0.0.1'')],
     rq_client_ip = pts ''203.0.113.9'', rq_tls = True\<rparr>"

definition demo_forwarded :: request where
  "demo_forwarded = \<lparr>rq_path = peer_proxy_prefix @ rq_path demo_request, rq_query = rq_query demo_request,
     rq_headers = gateway_headers GatewayToken (pts ''secret'') demo_request,
     rq_client_ip = pts ''10.1.0.5'', rq_tls = False\<rparr>"

lemma demo_sent:
  "route_public_request demo_url demo_edge demo_table demo_request =
     SendToPeer (nd_id demo_peer) (pts ''http://node-a:8080/_grass/internal/proxy/docs/a.html?v=1'')
       (rq_headers demo_forwarded)"
  by code_simp

lemma demo_served:
  "handle_peer_proxy (\<lambda>_. True) demo_peer demo_table demo_forwarded =
     ServeHere (demo_route ''app.example.com'' 1 7) Authenticated
       (local_request (demo_forwarded\<lparr>rq_path := rq_path demo_request, rq_query := rq_query demo_request\<rparr>))"
  by code_simp

lemma single_hop_witness:
  "route_public_request demo_url demo_edge demo_table demo_forwarded \<noteq>
     SendToPeer 7 (pts ''http://node-a:8080/'') []"
  using single_hop[OF demo_sent refl, where url' = demo_url and b = demo_edge and tb = demo_table] by blast

lemma peer_requires_credential_witness:
  "get_header (rq_headers demo_forwarded) gateway_token_header = Some (own_token demo_peer)"
  using peer_requires_credential[OF demo_served] by (simp add: demo_peer_def)

lemma demo_modes:
  "\<forall>host route. lookup_route demo_table host = Some route \<and> rt_target_node_id route = nd_id demo_peer \<longrightarrow>
     rt_gateway_authentication route = nd_gateway_authentication demo_peer"
  by (auto simp: lookup_route_def demo_table_value demo_route_def demo_peer_def split: sum.splits if_splits)

lemma peer_serves_the_request_witness:
  "\<exists>host route. host_from_headers (rq_headers demo_request) = Some host \<and>
     lookup_route demo_table host = Some route \<and>
     handle_peer_proxy (\<lambda>_. True) demo_peer demo_table demo_forwarded =
       ServeHere route Authenticated
         (local_request (demo_forwarded\<lparr>rq_path := rq_path demo_request, rq_query := rq_query demo_request\<rparr>))"
proof -
  have "rq_path demo_forwarded = peer_proxy_prefix @ rq_path demo_request"
    "rq_query demo_forwarded = rq_query demo_request" by (simp_all add: demo_forwarded_def)
  moreover have "starts_with [47] (rq_path demo_request)" "63 \<notin> set (rq_path demo_request)"
    "own_token demo_peer = own_token demo_edge" "header_text (own_token demo_edge) = Some (own_token demo_edge)"
    by code_simp+
  ultimately show ?thesis
    using peer_serves_the_request[OF demo_sent _ _ refl, where uri_ok = "\<lambda>_. True"] demo_modes by blast
qed

end
