(* ===== verification/Notifications.thy ===== *)
theory Notifications
  imports Activation
begin

text \<open>
  Notifications (\<open>domain/notifications.rs\<close>): who learns of what an administrator did to a project, the
  rows written, and reading them. Pages and pop-ups are left out.
\<close>

section \<open>Recipients\<close>

record project_notification =
  cn_project :: project
  cn_actor_user_id :: uuid
  cn_action :: string
  cn_reason :: "string option"
  cn_target_url :: string

record announcement_notification =
  ca_announcement_id :: uuid
  ca_actor_user_id :: uuid
  ca_title :: string
  ca_content :: string

definition notification_title :: "string \<Rightarrow> string" where
  "notification_title action =
     (if action = ''project.slug_updated'' then ''Project slug changed''
      else if action = ''deployment.withdrawn'' then ''Deployment withdrawn''
      else if action = ''deployment.republish_review_requested'' then ''Deployment submitted for review''
      else if action \<in> {''deployment.republish_queued'', ''deployment.republished''}
        then ''Deployment republished''
      else if action = ''domain.approved'' then ''Domain approved''
      else if action = ''domain.rejected'' then ''Domain rejected''
      else if action = ''domain.deleted'' then ''Domain deleted''
      else if action = ''project.archived'' then ''Project archived''
      else if action = ''project.unarchived'' then ''Project unarchived''
      else if action = ''project.deleted'' then ''Project deleted''
      else if action = ''project.restored'' then ''Project restored''
      else if action = ''site.announcement'' then ''Announcement''
      else ''Project updated'')"

text \<open>The set \<open>seen\<close> of the code holds exactly the recipients collected so far.\<close>

fun manager_ids :: "team_member list \<Rightarrow> uuid set \<Rightarrow> uuid list \<Rightarrow> uuid list" where
  "manager_ids [] eligible recipients = recipients"
| "manager_ids (m # ms) eligible recipients =
     manager_ids ms eligible
       (if tm_deleted_at m = None \<and> tm_user_id m \<in> eligible \<and> tm_role m \<in> {RoleOwner, RoleAdmin} \<and>
           tm_user_id m \<notin> set recipients
        then recipients @ [tm_user_id m] else recipients)"

definition resolve_recipient_ids :: "team_member list \<Rightarrow> uuid set \<Rightarrow> uuid option \<Rightarrow> uuid list" where
  "resolve_recipient_ids members eligible creator =
     (let recipients = manager_ids members eligible [] in
      case creator of
        None \<Rightarrow> recipients
      | Some c \<Rightarrow>
          if list_ex (\<lambda>m. tm_deleted_at m = None \<and> tm_user_id m = c \<and> tm_user_id m \<in> eligible) members \<and>
             c \<notin> set recipients
          then recipients @ [c] else recipients)"

section \<open>Writing\<close>

definition put_notifications :: "user_notification list \<Rightarrow> world \<Rightarrow> world" where
  "put_notifications rows w = w\<lparr>notifications := rows\<rparr>"

definition insert_notifications :: "user_notification list \<Rightarrow> (dberr, unit) dbm" where
  "insert_notifications rows w =
     (case notifications_con (notifications w @ rows) of
        Some e \<Rightarrow> (Inl e, w)
      | None \<Rightarrow> (Inr (), put_notifications (notifications w @ rows) w))"

fun fresh_ids :: "nat \<Rightarrow> ('e, uuid list) dbm" where
  "fresh_ids 0 = retM []"
| "fresh_ids (Suc n) = bindM now_v7 (\<lambda>i. bindM (fresh_ids n) (\<lambda>rest. retM (i # rest)))"

definition eligible_users :: "world \<Rightarrow> team_member list \<Rightarrow> uuid set" where
  "eligible_users w members =
     set (map us_id (filter (\<lambda>u. us_id u \<in> set (map tm_user_id members) \<and> us_status u = UserActive \<and>
       us_deleted_at u = None) (users w)))"

definition platform_administrator :: string where
  "platform_administrator = ''Platform administrator''"

definition trim_string :: "string \<Rightarrow> string" where
  "trim_string s = trim_by (\<lambda>c. is_ws (of_char c)) s"

definition actor_label :: "user option \<Rightarrow> string" where
  "actor_label actor =
     (case actor of
        None \<Rightarrow> platform_administrator
      | Some u \<Rightarrow>
          (case us_display_name u of
             Some label \<Rightarrow> if trim_string label = [] then us_email u else trim_string label
           | None \<Rightarrow> us_email u))"

definition project_row ::
  "project_notification \<Rightarrow> string \<Rightarrow> time \<Rightarrow> uuid \<Rightarrow> uuid \<Rightarrow> user_notification" where
  "project_row params label now i recipient =
     \<lparr>nf_id = i, nf_recipient_user_id = recipient, nf_actor_user_id = Some (cn_actor_user_id params),
      nf_team_id = Some (p_team_id (cn_project params)), nf_project_id = Some (p_id (cn_project params)),
      nf_announcement_id = None, nf_action = cn_action params,
      nf_project_name = Some (p_name (cn_project params)), nf_project_slug = Some (p_slug (cn_project params)),
      nf_actor_label = label, nf_title = None, nf_content = None, nf_reason = cn_reason params,
      nf_target_url = cn_target_url params, nf_read_at = None, nf_created_at = now\<rparr>"

definition team_rows :: "world \<Rightarrow> uuid \<Rightarrow> team_member list" where
  "team_rows w tid = filter (\<lambda>m. tm_team_id m = tid \<and> tm_deleted_at m = None) (team_members w)"

definition project_recipients :: "world \<Rightarrow> project \<Rightarrow> uuid list" where
  "project_recipients w p =
     (let members = team_rows w (p_team_id p)
      in resolve_recipient_ids members (eligible_users w members) (p_created_by_user_id p))"

definition create_project_notification :: "project_notification \<Rightarrow> (anyhow, nat) dbm" where
  "create_project_notification params =
     bindM (getM (\<lambda>w. project_recipients w (cn_project params))) (\<lambda>recipients.
     if recipients = [] then retM 0
     else
       bindM (getM (\<lambda>w. find_row us_id (cn_actor_user_id params) (users w))) (\<lambda>actor.
       bindM now_utc (\<lambda>now.
       bindM (fresh_ids (length recipients)) (\<lambda>ids.
       bindM (mapErr AnyDb (insert_notifications
         (map (\<lambda>(i, r). project_row params (actor_label actor) now i r) (zip ids recipients)))) (\<lambda>_.
       retM (length recipients))))))"

definition announcement_label :: "user option \<Rightarrow> string" where
  "announcement_label actor =
     (case actor of
        None \<Rightarrow> platform_administrator
      | Some u \<Rightarrow>
          (case us_display_name u of
             Some label \<Rightarrow> if trim_string label = [] then us_email u else label
           | None \<Rightarrow> us_email u))"

definition announcement_row ::
  "announcement_notification \<Rightarrow> string \<Rightarrow> time \<Rightarrow> uuid \<Rightarrow> uuid \<Rightarrow> user_notification" where
  "announcement_row params label now i recipient =
     \<lparr>nf_id = i, nf_recipient_user_id = recipient, nf_actor_user_id = Some (ca_actor_user_id params),
      nf_team_id = None, nf_project_id = None, nf_announcement_id = Some (ca_announcement_id params),
      nf_action = ''site.announcement'', nf_project_name = None, nf_project_slug = None,
      nf_actor_label = label, nf_title = Some (ca_title params), nf_content = Some (ca_content params),
      nf_reason = None, nf_target_url = ''/notifications'', nf_read_at = None, nf_created_at = now\<rparr>"

definition create_announcement_notifications :: "announcement_notification \<Rightarrow> (anyhow, nat) dbm" where
  "create_announcement_notifications params =
     bindM (getM (\<lambda>w. filter (\<lambda>u. us_status u = UserActive \<and> us_deleted_at u = None) (users w))) (\<lambda>recipients.
     if recipients = [] then retM 0
     else
       bindM (getM (\<lambda>w. find_row us_id (ca_actor_user_id params) (users w))) (\<lambda>actor.
       bindM now_utc (\<lambda>now.
       bindM (fresh_ids (length recipients)) (\<lambda>ids.
       bindM (mapErr AnyDb (insert_notifications
         (map (\<lambda>(i, u). announcement_row params (announcement_label actor) now i (us_id u))
           (zip ids recipients)))) (\<lambda>_.
       retM (length recipients))))))"

section \<open>Reading\<close>

definition unread_count :: "world \<Rightarrow> uuid \<Rightarrow> nat" where
  "unread_count w recipient =
     length (filter (\<lambda>n. nf_recipient_user_id n = recipient \<and> nf_read_at n = None) (notifications w))"

definition update_notifications ::
  "(user_notification \<Rightarrow> bool) \<Rightarrow> (user_notification \<Rightarrow> user_notification) \<Rightarrow> (dberr, nat) dbm" where
  "update_notifications = exec_update_many notifications_con notifications put_notifications"

definition mark_read :: "uuid \<Rightarrow> uuid \<Rightarrow> (dberr, bool) dbm" where
  "mark_read recipient nid =
     bindM now_utc (\<lambda>now.
     bindM (update_notifications
       (\<lambda>n. nf_id n = nid \<and> nf_recipient_user_id n = recipient \<and> nf_read_at n = None)
       (\<lambda>n. n\<lparr>nf_read_at := Some now\<rparr>)) (\<lambda>updated.
     if 0 < updated then retM True
     else getM (\<lambda>w. find (\<lambda>n. nf_id n = nid \<and> nf_recipient_user_id n = recipient) (notifications w) \<noteq> None)))"

definition mark_all_read :: "uuid \<Rightarrow> (dberr, nat) dbm" where
  "mark_all_read recipient =
     bindM now_utc (\<lambda>now.
     update_notifications (\<lambda>n. nf_recipient_user_id n = recipient \<and> nf_read_at n = None)
       (\<lambda>n. n\<lparr>nf_read_at := Some now\<rparr>))"

interpretation nfs: stored_table nf_id notifications_con notifications put_notifications
  by unfold_locales (auto simp: notifications_con_def put_notifications_def split: if_splits)

end
