(* ===== verification/ReleaseHandlers.thy ===== *)
theory ReleaseHandlers
  imports Notifications
begin

text \<open>
  The requests that move a release (\<open>features/api/v1/.../promote.rs\<close>, \<open>rollback.rs\<close>, \<open>cancel.rs\<close>,
  \<open>unpublish.rs\<close>, and for administrators \<open>review/approve.rs\<close>, \<open>review/reject.rs\<close>, \<open>withdraw.rs\<close>,
  \<open>republish.rs\<close>) with the access check of \<open>domain/project_access.rs\<close>. The notice to the Nodes after
  a removal is returned as an effect; the views of the responses are left out. \<open>uuid_text\<close> is the
  text form of an identifier (the \<open>uuid\<close> crate).
\<close>

section \<open>Access to a project\<close>

datatype project_scope = ScopeActive | ScopeIncludingDeleted

record project_access =
  pa_project :: project
  pa_team :: team
  pa_role :: team_member_role

definition role_can_admin :: "team_member_role \<Rightarrow> bool" where
  "role_can_admin role \<longleftrightarrow> role \<in> {RoleOwner, RoleAdmin}"

definition require_member :: "project_access \<Rightarrow> string \<Rightarrow> app_error + unit" where
  "require_member access op =
     (if pa_role access = RoleViewer then Inl (Forbidden op ''member role required'') else Inr ())"

definition require_admin :: "project_access \<Rightarrow> string \<Rightarrow> app_error + unit" where
  "require_admin access op =
     (if \<not> role_can_admin (pa_role access) then Inl (Forbidden op ''admin role required'') else Inr ())"

definition require_owner :: "project_access \<Rightarrow> string \<Rightarrow> app_error + unit" where
  "require_owner access op =
     (if pa_role access \<noteq> RoleOwner then Inl (Forbidden op ''owner role required'') else Inr ())"

definition project_by_id_any :: "world \<Rightarrow> uuid \<Rightarrow> project option" where
  "project_by_id_any w pid = find (\<lambda>p. p_id p = pid) (projects w)"

definition project_by_id :: "world \<Rightarrow> uuid \<Rightarrow> project option" where
  "project_by_id w pid = find (\<lambda>p. p_id p = pid \<and> p_deleted_at p = None) (projects w)"

definition team_by_id :: "world \<Rightarrow> uuid \<Rightarrow> team option" where
  "team_by_id w tid = find (\<lambda>t. t_id t = tid \<and> t_deleted_at t = None) (teams w)"

definition member_role :: "world \<Rightarrow> uuid \<Rightarrow> uuid \<Rightarrow> team_member_role option" where
  "member_role w tid uid =
     map_option tm_role
       (find (\<lambda>m. tm_team_id m = tid \<and> tm_user_id m = uid \<and> tm_deleted_at m = None) (team_members w))"

definition load_access ::
  "uuid \<Rightarrow> uuid \<Rightarrow> project_scope \<Rightarrow> string \<Rightarrow> (app_error, project_access) dbm" where
  "load_access actor pid scope op =
     bindM (getM (\<lambda>w. if scope = ScopeIncludingDeleted then project_by_id_any w pid else project_by_id w pid))
       (\<lambda>found.
     bindM (okOr (NotFound op ''project not found'') found) (\<lambda>project.
     bindM (getM (\<lambda>w. team_by_id w (p_team_id project))) (\<lambda>found_team.
     bindM (okOr (NotFound op ''team not found'') found_team) (\<lambda>team.
     bindM (getM (\<lambda>w. member_role w (p_team_id project) actor)) (\<lambda>found_role.
     bindM (okOr (Forbidden op ''not a member of this team'') found_role) (\<lambda>role.
     retM \<lparr>pa_project = project, pa_team = team, pa_role = role\<rparr>))))))"

definition load_deployment :: "project_access \<Rightarrow> uuid \<Rightarrow> string \<Rightarrow> (app_error, deployment) dbm" where
  "load_deployment access did op =
     bindM (getM (\<lambda>w. get_by_id w did)) (\<lambda>found.
     bindM (okOr (NotFound op ''deployment not found'') found) (\<lambda>d.
     if d_project_id d \<noteq> p_id (pa_project access) then failM (NotFound op ''deployment not found'')
     else retM d))"

section \<open>Requests of a team\<close>

datatype release_effect = InvalidateRoutes uuid

text \<open>
  \<open>promote.rs\<close> and \<open>rollback.rs\<close> have the same private function: it reads the deployment before the
  transaction of \<open>activate_deployment\<close> starts.
\<close>

definition activate_request ::
  "uuid \<Rightarrow> uuid \<Rightarrow> uuid \<Rightarrow> release_reason \<Rightarrow> string \<Rightarrow> (app_error, activation_outcome) dbm" where
  "activate_request actor pid did reason op =
     bindM (load_access actor pid ScopeActive op) (\<lambda>access.
     bindM (liftR (require_admin access op)) (\<lambda>_.
     bindM (load_deployment access did op) (\<lambda>d.
     activate_deployment d actor reason op)))"

definition promote :: "uuid \<Rightarrow> uuid \<Rightarrow> uuid \<Rightarrow> (app_error, activation_outcome) dbm" where
  "promote actor pid did = activate_request actor pid did ReasonPromote ''deployments.promote''"

definition rollback :: "uuid \<Rightarrow> uuid \<Rightarrow> uuid \<Rightarrow> (app_error, activation_outcome) dbm" where
  "rollback actor pid did =
     bindM (getM (\<lambda>w. was_active w did)) (\<lambda>was.
     if \<not> was then
       failM (Conflict ''deployments.rollback''
         ''only previously active deployments can be rollback targets'')
     else activate_request actor pid did ReasonRollback ''deployments.rollback'')"

definition cancel :: "uuid \<Rightarrow> uuid \<Rightarrow> uuid \<Rightarrow> (app_error, deployment \<times> cancel_effect list) dbm" where
  "cancel actor pid did =
     (let op = ''deployments.cancel'' in
     bindM (load_access actor pid ScopeActive op) (\<lambda>access.
     bindM (liftR (require_member access op)) (\<lambda>_.
     bindM (load_deployment access did op) (\<lambda>d.
     cancel_deployment_core d actor op))))"

definition unpublish :: "uuid \<Rightarrow> uuid \<Rightarrow> uuid \<Rightarrow> (app_error, deployment \<times> release_effect) dbm" where
  "unpublish actor pid did =
     (let op = ''deployments.unpublish'' in
     bindM (load_access actor pid ScopeActive op) (\<lambda>access.
     bindM (liftR (require_admin access op)) (\<lambda>_.
     bindM (transaction (
       bindM (get_by_id_for_update did) (\<lambda>found.
       bindM (okOr (NotFound op ''deployment not found'')
         (case found of
            Some d \<Rightarrow> if d_project_id d = p_id (pa_project access) then Some d else None
          | None \<Rightarrow> None)) (\<lambda>d.
       bindM (mapErr (map_delivery_error op) (remove_publication (d_id d) TeamUser)) (\<lambda>d'.
       bindM (mapErr (\<lambda>e. Infrastructure op (AnyDb e)) (create_audit_event
         \<lparr>ap_actor_user_id = Some actor, ap_actor_node_id = None,
          ap_team_id = Some (t_id (pa_team access)), ap_action = ''deployment.unpublished'',
          ap_target_type = ''deployment'', ap_target_id = Some (d_id d'),
          ap_result = AuditSuccess, ap_reason = None,
          ap_metadata = JObj [(''project_id'', JUuid pid)]\<rparr>)) (\<lambda>_.
       retM d')))))) (\<lambda>d'.
     retM (d', InvalidateRoutes (d_id d'))))))"

section \<open>Decisions of an administrator\<close>

definition optional_reason :: "string option \<Rightarrow> string option" where
  "optional_reason value =
     (case value of
        Some s \<Rightarrow> if trim_string s = [] then None else Some (trim_string s)
      | None \<Rightarrow> None)"

record decision_outcome =
  do_deployment :: deployment
  do_release_pending :: bool
  do_review :: deployment_review

definition review_target :: "string \<Rightarrow> uuid \<Rightarrow> (app_error, deployment \<times> project) dbm" where
  "review_target op did =
     bindM (get_by_id_for_update did) (\<lambda>found.
     bindM (okOr (NotFound op ''deployment not found'') found) (\<lambda>d.
     bindM (getM (\<lambda>w. project_by_id_any w (d_project_id d))) (\<lambda>found_project.
     bindM (okOr (NotFound op ''project not found'') found_project) (\<lambda>project.
     if d_build_status d \<noteq> BReady \<or> d_serve_status d \<notin> {SReady, SRetired} then
       failM (Conflict op ''only deployments with ready build and Serve artifact can be reviewed'')
     else
       bindM (getM (\<lambda>w. was_serve_ready w (d_id d))) (\<lambda>served.
       if d_serve_status d = SRetired \<and> \<not> served then
         failM (Conflict op ''retired deployment never reached Serve Ready'')
       else retM (d, project))))))"

definition release_after_approval ::
  "string \<Rightarrow> uuid \<Rightarrow> project \<Rightarrow> deployment \<Rightarrow> (app_error, deployment \<times> bool) dbm" where
  "release_after_approval op user project d =
     bindM (mapErr (map_delivery_error op) (request_release (d_id d) ReasonPromote user VisPlatform)) (\<lambda>outcome.
     (let (d', pending) = outcome_parts outcome in
     bindM (mapErr (\<lambda>e. Infrastructure op (AnyDb e)) (create_platform_audit_event
       \<lparr>ap_actor_user_id = Some user, ap_actor_node_id = None, ap_team_id = Some (d_team_id d'),
        ap_action = release_audit_action ReasonPromote pending, ap_target_type = ''deployment'',
        ap_target_id = Some (d_id d'), ap_result = AuditSuccess, ap_reason = None,
        ap_metadata = JObj [(''platform_admin'', JBool True), (''project_id'', JUuid (p_id project)),
          (''release_pending'', JBool pending)]\<rparr>)) (\<lambda>_.
     retM (d', pending))))"

definition decide_body ::
  "string \<Rightarrow> uuid \<Rightarrow> uuid \<Rightarrow> bool \<Rightarrow> string option \<Rightarrow> (app_error, decision_outcome) dbm" where
  "decide_body op user did approved body_reason =
     bindM (if approved then mapErr (\<lambda>e. map_delivery_error op (DelSchedule e)) lock_placement
            else retM ()) (\<lambda>_.
     bindM (review_target op did) (\<lambda>(d, project).
     bindM (getM (\<lambda>w. latest_pending_review w (d_id d))) (\<lambda>found.
     bindM (okOr (Conflict op ''deployment has no pending review'') found) (\<lambda>pending_review.
     (let reason = optional_reason body_reason in
     bindM (mapErr (Infrastructure op) (resolve_review pending_review user approved reason)) (\<lambda>review.
     bindM (mapErr (map_state_error op) (transition_release d (if approved then RApproved else RRejected)
       (JObj [(''review_id'', JUuid (v_id review)), (''reviewer'', JUuid user),
              (''platform_admin'', JBool True), (''reason'', jopt JStr reason)]))) (\<lambda>d'.
     bindM (mapErr (Infrastructure op) (append_event (d_id d') EvReview
       (if approved then ''review approved by platform administrator''
        else ''review rejected by platform administrator'')
       (JObj [(''review_id'', JUuid (v_id review)), (''reason'', jopt JStr (v_reason review))]))) (\<lambda>_.
     bindM (mapErr (\<lambda>e. Infrastructure op (AnyDb e)) (create_platform_audit_event
       \<lparr>ap_actor_user_id = Some user, ap_actor_node_id = None, ap_team_id = Some (d_team_id d'),
        ap_action = (if approved then ''deployment.review_approved'' else ''deployment.review_rejected''),
        ap_target_type = ''deployment'', ap_target_id = Some (d_id d'), ap_result = AuditSuccess,
        ap_reason = v_reason review,
        ap_metadata = JObj [(''platform_admin'', JBool True), (''project_id'', JUuid (p_id project))]\<rparr>)) (\<lambda>_.
     if approved then
       bindM (release_after_approval op user project d') (\<lambda>(d'', pending).
       retM \<lparr>do_deployment = d'', do_release_pending = pending, do_review = review\<rparr>)
     else retM \<lparr>do_deployment = d', do_release_pending = False, do_review = review\<rparr>)))))))))"

definition decide ::
  "uuid \<Rightarrow> uuid \<Rightarrow> bool \<Rightarrow> string option \<Rightarrow> (app_error, decision_outcome) dbm" where
  "decide user did approved body_reason =
     (let op = (if approved then ''admin.reviews.approve'' else ''admin.reviews.reject'')
      in transaction (decide_body op user did approved body_reason))"

text \<open>The notice to the team: \<open>create_project_notification\<close> for the project of a deployment.\<close>

definition notify_team ::
  "(uuid \<Rightarrow> string) \<Rightarrow> string \<Rightarrow> uuid \<Rightarrow> deployment \<Rightarrow> string \<Rightarrow> string option \<Rightarrow> (app_error, unit) dbm" where
  "notify_team uuid_text op user d action reason =
     bindM (getM (\<lambda>w. project_by_id_any w (d_project_id d))) (\<lambda>found.
     bindM (okOr (NotFound op ''project not found'') found) (\<lambda>project.
     bindM (mapErr (Infrastructure op) (create_project_notification
       \<lparr>cn_project = project, cn_actor_user_id = user, cn_action = action, cn_reason = reason,
        cn_target_url = ''/projects/'' @ uuid_text (p_id project) @ ''/deployments/'' @ uuid_text (d_id d)\<rparr>))
       (\<lambda>_. retM ())))"

definition withdraw_body ::
  "(uuid \<Rightarrow> string) \<Rightarrow> string \<Rightarrow> uuid \<Rightarrow> uuid \<Rightarrow> string option \<Rightarrow> (app_error, deployment) dbm" where
  "withdraw_body uuid_text op user did body_reason =
     bindM (get_by_id_for_update did) (\<lambda>found.
     bindM (okOr (NotFound op ''deployment not found'') found) (\<lambda>d.
     (let reason = optional_reason body_reason in
     bindM (mapErr (map_delivery_error op) (remove_publication (d_id d) PlatformAdmin)) (\<lambda>d'.
     bindM (mapErr (\<lambda>e. Infrastructure op (AnyDb e)) (create_platform_audit_event
       \<lparr>ap_actor_user_id = Some user, ap_actor_node_id = None, ap_team_id = Some (d_team_id d'),
        ap_action = ''deployment.withdrawn'', ap_target_type = ''deployment'',
        ap_target_id = Some (d_id d'), ap_result = AuditSuccess, ap_reason = reason,
        ap_metadata = JObj [(''platform_admin'', JBool True), (''project_id'', JUuid (d_project_id d'))]\<rparr>)) (\<lambda>_.
     bindM (notify_team uuid_text op user d' ''deployment.withdrawn'' reason) (\<lambda>_.
     retM d'))))))"

definition withdraw ::
  "(uuid \<Rightarrow> string) \<Rightarrow> uuid \<Rightarrow> uuid \<Rightarrow> string option \<Rightarrow> (app_error, deployment \<times> release_effect) dbm" where
  "withdraw uuid_text user did body_reason =
     bindM (transaction (withdraw_body uuid_text ''admin.deployments.withdraw'' user did body_reason)) (\<lambda>d.
     retM (d, InvalidateRoutes (d_id d)))"

datatype republish_policy = PolicyManual | PolicyAuto

datatype republish_kind = RepublishRelease | RepublishReview | RepublishConflict

fun republish_action :: "release_status \<Rightarrow> republish_policy \<Rightarrow> republish_kind" where
  "republish_action RApproved _ = RepublishRelease"
| "republish_action RDraft PolicyAuto = RepublishRelease"
| "republish_action RRejected PolicyAuto = RepublishRelease"
| "republish_action RDraft PolicyManual = RepublishReview"
| "republish_action RRejected PolicyManual = RepublishReview"
| "republish_action RPendingReview _ = RepublishConflict"
| "republish_action RActive _ = RepublishConflict"

text \<open>The code never asks for the action of a conflict.\<close>

fun republish_audit_action :: "republish_kind \<Rightarrow> bool \<Rightarrow> string" where
  "republish_audit_action RepublishReview _ = ''deployment.republish_review_requested''"
| "republish_audit_action _ True = ''deployment.republish_queued''"
| "republish_audit_action _ False = ''deployment.republished''"

definition auto_republish :: json where
  "auto_republish = JObj [(''republish'', JBool True), (''policy'', JStr ''auto'')]"

definition republish_target :: "string \<Rightarrow> uuid \<Rightarrow> (app_error, deployment) dbm" where
  "republish_target op did =
     bindM (get_by_id_for_update did) (\<lambda>found.
     bindM (okOr (NotFound op ''deployment not found'') found) (\<lambda>d.
     if d_build_status d \<noteq> BReady \<or> d_serve_status d \<notin> {SReady, SRetired} then
       failM (Conflict op ''only deployments with ready build and Serve artifact can be republished'')
     else
       bindM (getM (\<lambda>w. was_serve_ready w (d_id d))) (\<lambda>served.
       if d_serve_status d = SRetired \<and> \<not> served then
         failM (Conflict op ''retired deployment never reached Serve Ready'')
       else retM d)))"

definition republish_step ::
  "string \<Rightarrow> uuid \<Rightarrow> republish_kind \<Rightarrow> deployment \<Rightarrow> (app_error, deployment \<times> bool \<times> uuid option) dbm" where
  "republish_step op user action target =
     (if action = RepublishReview then
        bindM (mapErr (map_state_error op) (request_review target (Some user))) (\<lambda>(d, review).
        retM (d, False, Some (v_id review)))
      else
        bindM (if d_release_status target = RRejected then
                 bindM (mapErr (map_state_error op)
                   (transition_release target RPendingReview auto_republish)) (\<lambda>d.
                 mapErr (map_state_error op) (transition_release d RApproved auto_republish))
               else retM target) (\<lambda>d.
        bindM (mapErr (map_delivery_error op) (request_release (d_id d) ReasonPromote user VisPlatform)) (\<lambda>outcome.
        (let (d', pending) = outcome_parts outcome in retM (d', pending, None)))))"

definition republish_body ::
  "(uuid \<Rightarrow> string) \<Rightarrow> string \<Rightarrow> uuid \<Rightarrow> uuid \<Rightarrow> string option \<Rightarrow>
   (app_error, deployment \<times> bool \<times> uuid option) dbm" where
  "republish_body uuid_text op user did body_reason =
     (let reason = optional_reason body_reason in
     bindM (republish_target op did) (\<lambda>target.
     bindM (mapErr (Infrastructure op) (review_policy_for_team (d_team_id target))) (\<lambda>policy.
     (let mode = (case mode_for policy (d_environment target) of
            ModeManual \<Rightarrow> PolicyManual | ModeAuto \<Rightarrow> PolicyAuto);
          action = republish_action (d_release_status target) mode
      in
      if action = RepublishConflict then
        failM (Conflict op ''deployment is already active or waiting for review'')
      else
        bindM (republish_step op user action target) (\<lambda>(d, pending, review_id).
        (let audit_action = republish_audit_action action pending in
        bindM (mapErr (\<lambda>e. Infrastructure op (AnyDb e)) (create_platform_audit_event
          \<lparr>ap_actor_user_id = Some user, ap_actor_node_id = None, ap_team_id = Some (d_team_id d),
           ap_action = audit_action, ap_target_type = ''deployment'', ap_target_id = Some (d_id d),
           ap_result = AuditSuccess, ap_reason = reason,
           ap_metadata = JObj [(''platform_admin'', JBool True), (''project_id'', JUuid (d_project_id d)),
             (''release_pending'', JBool pending), (''review_id'', jopt JUuid review_id)]\<rparr>)) (\<lambda>_.
        bindM (notify_team uuid_text op user d audit_action reason) (\<lambda>_.
        retM (d, pending, review_id)))))))))"

definition republish ::
  "(uuid \<Rightarrow> string) \<Rightarrow> uuid \<Rightarrow> uuid \<Rightarrow> string option \<Rightarrow> (app_error, deployment \<times> bool \<times> uuid option) dbm" where
  "republish uuid_text user did body_reason =
     transaction (republish_body uuid_text ''admin.deployments.republish'' user did body_reason)"

end
