(* ===== verification/CacheStore.thy ===== *)
theory CacheStore
  imports AuditLog Text Float64 "HOL-Library.Code_Target_Numeral"
begin

text \<open>
  The cache (\<open>src/crates/cache\<close>): the trait \<open>Cache\<close> with its two implementations, the in-process
  one (\<open>moka_backend.rs\<close>) and the one on Redis (\<open>redis_backend.rs\<close>, whose operations are Lua
  scripts). An entry is its text and the instant at which it expires. Of the \<open>moka\<close> crate the model
  uses that a read returns the last text inserted until the deadline that \<open>Expiry\<close> computed at that
  insertion; of Redis the documented effect of its commands. Entries evicted for lack of room and lost
  connections are not represented; the token bucket (\<open>consume_rate_limit\<close>) is in RateLimit. Every operation
  reads the clock once: \<open>now\<close>. Keys are kept as their parts, so their type is a parameter. A \<open>Duration\<close>
  is its number of nanoseconds.
\<close>

section \<open>Decimal text\<close>

fun show_nat :: "nat \<Rightarrow> string" where
  "show_nat n =
     (if n < 10 then [char_of (48 + n)] else show_nat (n div 10) @ [char_of (48 + n mod 10)])"

declare show_nat.simps [simp del]

definition show_i64 :: "int \<Rightarrow> string" where
  "show_i64 i = (if i < 0 then CHR ''-'' # show_nat (nat (- i)) else show_nat (nat i))"

definition decimal_value :: "string \<Rightarrow> nat" where
  "decimal_value ds = foldl (\<lambda>n d. n * 10 + (of_char d - 48)) 0 ds"

definition decimal_digits :: "string \<Rightarrow> bool" where
  "decimal_digits ds \<longleftrightarrow> ds \<noteq> [] \<and> list_all (\<lambda>c. is_ascii_digit (of_char c)) ds"

text \<open>\<open>str::parse::<i64>\<close>: an optional sign and decimal digits, within range.\<close>

definition parse_i64 :: "string \<Rightarrow> int option" where
  "parse_i64 s =
     (let (minus, ds) = (case s of
            [] \<Rightarrow> (False, [])
          | c # cs \<Rightarrow> if c = CHR ''-'' then (True, cs) else if c = CHR ''+'' then (False, cs) else (False, s));
          v = int (decimal_value ds)
      in if \<not> decimal_digits ds then None
         else if minus then (if v \<le> 2 ^ 63 then Some (- v) else None)
         else (if v < 2 ^ 63 then Some v else None))"

section \<open>The in-process cache\<close>

type_synonym 'k entries = "'k \<Rightarrow> (string \<times> time option) option"

definition unix_timestamp :: "time \<Rightarrow> int" where
  "unix_timestamp now = now div 1000000000"

definition as_secs :: "int \<Rightarrow> int" where
  "as_secs ttl = ttl div 1000000000"

definition as_millis :: "int \<Rightarrow> int" where
  "as_millis ttl = ttl div 1000000"

definition extract_value :: "string \<Rightarrow> (int \<times> string) option" where
  "extract_value raw =
     (case split_once (CHR '':'') raw of
        None \<Rightarrow> None
      | Some (ts, val) \<Rightarrow> (case parse_i64 ts of None \<Rightarrow> None | Some expiry \<Rightarrow> Some (expiry, val)))"

definition expiry_for_value :: "time \<Rightarrow> string \<Rightarrow> int option" where
  "expiry_for_value now raw =
     (case extract_value raw of
        None \<Rightarrow> None
      | Some (expiry, _) \<Rightarrow> Some (max 0 (wrap_i64 (expiry - unix_timestamp now))))"

definition expiry_from_ttl :: "time \<Rightarrow> int \<Rightarrow> int" where
  "expiry_from_ttl now ttl = wrap_i64 (unix_timestamp now + as_secs ttl)"

text \<open>The map of the \<open>moka\<close> crate: \<open>get\<close>, \<open>insert\<close>, \<open>invalidate\<close>.\<close>

definition alive_at :: "time \<Rightarrow> time option \<Rightarrow> bool" where
  "alive_at now deadline \<longleftrightarrow> (case deadline of None \<Rightarrow> True | Some t \<Rightarrow> now < t)"

definition entry_get :: "time \<Rightarrow> 'k \<Rightarrow> 'k entries \<Rightarrow> string option" where
  "entry_get now k c =
     (case c k of None \<Rightarrow> None | Some (raw, deadline) \<Rightarrow> if alive_at now deadline then Some raw else None)"

definition moka_insert :: "time \<Rightarrow> 'k \<Rightarrow> string \<Rightarrow> 'k entries \<Rightarrow> 'k entries" where
  "moka_insert now k raw c = c(k \<mapsto> (raw, map_option (\<lambda>s. now + seconds s) (expiry_for_value now raw)))"

definition entry_remove :: "'k \<Rightarrow> 'k entries \<Rightarrow> 'k entries" where
  "entry_remove k c = c(k := None)"

definition with_expiry :: "int \<Rightarrow> string \<Rightarrow> string" where
  "with_expiry expiry val = show_i64 expiry @ CHR '':'' # val"

definition stored_value :: "string \<Rightarrow> string" where
  "stored_value raw = (case extract_value raw of Some (_, val) \<Rightarrow> val | None \<Rightarrow> raw)"

definition read_counter_entry :: "time \<Rightarrow> 'k \<Rightarrow> 'k entries \<Rightarrow> int \<times> int option" where
  "read_counter_entry now k c =
     (case entry_get now k c of
        None \<Rightarrow> (0, None)
      | Some raw \<Rightarrow>
          (case extract_value raw of
             Some (expiry, val) \<Rightarrow> (case parse_i64 val of Some v \<Rightarrow> v | None \<Rightarrow> 0, Some expiry)
           | None \<Rightarrow> (case parse_i64 raw of Some v \<Rightarrow> v | None \<Rightarrow> 0, None)))"

definition read_counter :: "time \<Rightarrow> 'k \<Rightarrow> 'k entries \<Rightarrow> int" where
  "read_counter now k c = fst (read_counter_entry now k c)"

definition write_counter :: "time \<Rightarrow> 'k \<Rightarrow> int \<Rightarrow> int option \<Rightarrow> 'k entries \<Rightarrow> 'k entries" where
  "write_counter now k v expiry c =
     moka_insert now k (case expiry of Some e \<Rightarrow> with_expiry e (show_i64 v) | None \<Rightarrow> show_i64 v) c"

record 'k counter_check =
  cc_key :: 'k
  cc_amount :: int
  cc_max :: int
  cc_ttl :: "int option"

datatype 'k check_outcome = CheckAllowed | CheckDenied 'k

type_synonym ('k, 'a) cache_op = "('k entries, anyhow, 'a) oper"

definition moka_get :: "time \<Rightarrow> 'k \<Rightarrow> ('k, string option) cache_op" where
  "moka_get now k c = (Inr (map_option stored_value (entry_get now k c)), c)"

definition moka_take :: "time \<Rightarrow> 'k \<Rightarrow> ('k, string option) cache_op" where
  "moka_take now k c = (Inr (map_option stored_value (entry_get now k c)), entry_remove k c)"

definition moka_set :: "time \<Rightarrow> 'k \<Rightarrow> string \<Rightarrow> int \<Rightarrow> ('k, unit) cache_op" where
  "moka_set now k val ttl c = (Inr (), moka_insert now k (with_expiry (expiry_from_ttl now ttl) val) c)"

definition moka_update_if_present :: "time \<Rightarrow> 'k \<Rightarrow> string \<Rightarrow> int \<Rightarrow> ('k, bool) cache_op" where
  "moka_update_if_present now k val ttl c =
     (if entry_get now k c = None then (Inr False, c)
      else (Inr True, moka_insert now k (with_expiry (expiry_from_ttl now ttl) val) c))"

definition moka_delete :: "time \<Rightarrow> 'k \<Rightarrow> ('k, unit) cache_op" where
  "moka_delete now k c = (Inr (), entry_remove k c)"

definition moka_number :: "time \<Rightarrow> 'k \<Rightarrow> 'k entries \<Rightarrow> int" where
  "moka_number now k c =
     (case entry_get now k c of
        None \<Rightarrow> 0
      | Some v \<Rightarrow> (case parse_i64 (stored_value v) of Some n \<Rightarrow> n | None \<Rightarrow> 0))"

definition moka_incr :: "time \<Rightarrow> 'k \<Rightarrow> ('k, int) cache_op" where
  "moka_incr now k c =
     (let next_v = wrap_i64 (moka_number now k c + 1)
      in (Inr next_v, moka_insert now k (show_i64 next_v) c))"

definition moka_decr :: "time \<Rightarrow> 'k \<Rightarrow> ('k, int) cache_op" where
  "moka_decr now k c =
     (let next_v = wrap_i64 (moka_number now k c - 1)
      in (Inr next_v, moka_insert now k (show_i64 next_v) c))"

definition moka_set_if_absent :: "time \<Rightarrow> 'k \<Rightarrow> string \<Rightarrow> int \<Rightarrow> ('k, bool) cache_op" where
  "moka_set_if_absent now k val ttl c =
     (if entry_get now k c \<noteq> None then (Inr False, c)
      else (Inr True, moka_insert now k (with_expiry (expiry_from_ttl now ttl) val) c))"

fun moka_denied :: "time \<Rightarrow> 'k counter_check list \<Rightarrow> 'k entries \<Rightarrow> 'k option" where
  "moka_denied now [] c = None"
| "moka_denied now (x # xs) c =
     (if 0 \<le> cc_max x \<and> cc_max x < wrap_i64 (read_counter now (cc_key x) c + cc_amount x)
      then Some (cc_key x) else moka_denied now xs c)"

fun moka_consume :: "time \<Rightarrow> 'k counter_check list \<Rightarrow> 'k entries \<Rightarrow> 'k entries" where
  "moka_consume now [] c = c"
| "moka_consume now (x # xs) c =
     (let (current, existing) = read_counter_entry now (cc_key x) c;
          expiry = (case cc_ttl x of Some ttl \<Rightarrow> Some (expiry_from_ttl now ttl) | None \<Rightarrow> existing)
      in moka_consume now xs (write_counter now (cc_key x) (wrap_i64 (current + cc_amount x)) expiry c))"

definition moka_check_and_consume :: "time \<Rightarrow> 'k counter_check list \<Rightarrow> ('k, 'k check_outcome) cache_op" where
  "moka_check_and_consume now checks c =
     (case moka_denied now checks c of
        Some k \<Rightarrow> (Inr (CheckDenied k), c)
      | None \<Rightarrow> (Inr CheckAllowed, moka_consume now checks c))"

definition moka_adjust_counter :: "time \<Rightarrow> 'k \<Rightarrow> int \<Rightarrow> ('k, int) cache_op" where
  "moka_adjust_counter now k amount c =
     (let (current, expiry) = read_counter_entry now k c;
          next_v = max 0 (wrap_i64 (current + amount))
      in (Inr next_v, write_counter now k next_v expiry c))"

definition moka_acquire_slot :: "time \<Rightarrow> 'k \<Rightarrow> int \<Rightarrow> int \<Rightarrow> ('k, bool) cache_op" where
  "moka_acquire_slot now k limit ttl c =
     (let current = read_counter now k c in
      if 0 \<le> limit \<and> limit < wrap_i64 (current + 1) then (Inr False, c)
      else (Inr True, write_counter now k (wrap_i64 (current + 1)) (Some (expiry_from_ttl now ttl)) c))"

definition moka_release_slot :: "time \<Rightarrow> 'k \<Rightarrow> ('k, unit) cache_op" where
  "moka_release_slot now k c =
     (let (current, expiry) = read_counter_entry now k c
      in (Inr (), write_counter now k (max 0 (wrap_i64 (current - 1))) expiry c))"

section \<open>The cache on Redis\<close>

text \<open>
  A stored counter is decimal text. Redis itself reads it as a 64-bit integer (\<open>redis_integer\<close>); a script
  computes in doubles, so \<open>redis_number\<close>, \<open>tonumber(redis.call('GET', k) or '0')\<close>, and every sum is rounded to 53
  bits. A text that is no number fails the script, which then has no effect except for the commands it ran
  before. Numbers of \<open>10 ^ 17\<close> and more, which Lua writes with an exponent, are not represented.
\<close>

definition lua_number :: "int \<Rightarrow> int" where
  "lua_number i = sgn i * int (f64_of_u64 (nat \<bar>i\<bar>))"

definition lua_add :: "int \<Rightarrow> int \<Rightarrow> int" where
  "lua_add a b = lua_number (a + b)"

definition clock_ms :: "time \<Rightarrow> int" where
  "clock_ms now = now div 1000000"

definition deadline_ms :: "int \<Rightarrow> time" where
  "deadline_ms t = t * 1000000"

definition redis_put :: "'k \<Rightarrow> string \<Rightarrow> time option \<Rightarrow> 'k entries \<Rightarrow> 'k entries" where
  "redis_put k val deadline c = c(k \<mapsto> (val, deadline))"

definition px :: "time \<Rightarrow> int \<Rightarrow> time option" where
  "px now ttl = Some (deadline_ms (clock_ms now + max 1 (as_millis ttl)))"

definition entry_deadline :: "time \<Rightarrow> 'k \<Rightarrow> 'k entries \<Rightarrow> time option" where
  "entry_deadline now k c =
     (case c k of None \<Rightarrow> None | Some (_, deadline) \<Rightarrow> if alive_at now deadline then deadline else None)"

definition redis_integer :: "time \<Rightarrow> 'k \<Rightarrow> 'k entries \<Rightarrow> int option" where
  "redis_integer now k c = (case entry_get now k c of None \<Rightarrow> Some 0 | Some raw \<Rightarrow> parse_i64 raw)"

definition redis_number :: "time \<Rightarrow> 'k \<Rightarrow> 'k entries \<Rightarrow> int option" where
  "redis_number now k c = map_option lua_number (redis_integer now k c)"

definition redis_get :: "time \<Rightarrow> 'k \<Rightarrow> ('k, string option) cache_op" where
  "redis_get now k c = (Inr (entry_get now k c), c)"

definition redis_take :: "time \<Rightarrow> 'k \<Rightarrow> ('k, string option) cache_op" where
  "redis_take now k c = (Inr (entry_get now k c), entry_remove k c)"

definition redis_set :: "time \<Rightarrow> 'k \<Rightarrow> string \<Rightarrow> int \<Rightarrow> ('k, unit) cache_op" where
  "redis_set now k val ttl c =
     (if as_secs ttl = 0 then (Inl (AnyMsg ''redis set failed''), c)
      else (Inr (), redis_put k val (Some (deadline_ms (clock_ms now + as_secs ttl * 1000))) c))"

definition redis_update_if_present :: "time \<Rightarrow> 'k \<Rightarrow> string \<Rightarrow> int \<Rightarrow> ('k, bool) cache_op" where
  "redis_update_if_present now k val ttl c =
     (if entry_get now k c = None then (Inr False, c) else (Inr True, redis_put k val (px now ttl) c))"

definition redis_delete :: "time \<Rightarrow> 'k \<Rightarrow> ('k, unit) cache_op" where
  "redis_delete now k c = (Inr (), entry_remove k c)"

definition redis_incrby :: "string \<Rightarrow> time \<Rightarrow> 'k \<Rightarrow> int \<Rightarrow> ('k, int) cache_op" where
  "redis_incrby failure now k amount c =
     (case redis_integer now k c of
        None \<Rightarrow> (Inl (AnyMsg failure), c)
      | Some n \<Rightarrow>
          if n + amount < - (2 ^ 63) \<or> 2 ^ 63 \<le> n + amount then (Inl (AnyMsg failure), c)
          else (Inr (n + amount), redis_put k (show_i64 (n + amount)) (entry_deadline now k c) c))"

definition redis_incr :: "time \<Rightarrow> 'k \<Rightarrow> ('k, int) cache_op" where
  "redis_incr now k = redis_incrby ''redis incr failed'' now k 1"

definition redis_decr :: "time \<Rightarrow> 'k \<Rightarrow> ('k, int) cache_op" where
  "redis_decr now k = redis_incrby ''redis decr failed'' now k (- 1)"

definition redis_set_if_absent :: "time \<Rightarrow> 'k \<Rightarrow> string \<Rightarrow> int \<Rightarrow> ('k, bool) cache_op" where
  "redis_set_if_absent now k val ttl c =
     (if entry_get now k c \<noteq> None then (Inr False, c) else (Inr True, redis_put k val (px now ttl) c))"

text \<open>The two loops of the script of \<open>check_and_consume\<close>.\<close>

fun redis_denied :: "time \<Rightarrow> 'k counter_check list \<Rightarrow> 'k entries \<Rightarrow> anyhow + 'k option" where
  "redis_denied now [] c = Inr None"
| "redis_denied now (x # xs) c =
     (case redis_number now (cc_key x) c of
        None \<Rightarrow> Inl (AnyMsg ''redis quota check failed'')
      | Some current \<Rightarrow>
          if 0 \<le> lua_number (cc_max x) \<and> lua_number (cc_max x) < lua_add current (lua_number (cc_amount x))
          then Inr (Some (cc_key x))
          else redis_denied now xs c)"

definition redis_pexpire :: "time \<Rightarrow> 'k \<Rightarrow> int \<Rightarrow> 'k entries \<Rightarrow> 'k entries" where
  "redis_pexpire now k ttl_ms c =
     (case entry_get now k c of
        None \<Rightarrow> c
      | Some raw \<Rightarrow> redis_put k raw (Some (deadline_ms (clock_ms now + ttl_ms))) c)"

definition redis_first_expiry :: "time \<Rightarrow> 'k \<Rightarrow> int \<Rightarrow> 'k entries \<Rightarrow> 'k entries" where
  "redis_first_expiry now k ttl_ms c =
     (if 0 < ttl_ms \<and> entry_deadline now k c = None then redis_pexpire now k ttl_ms c else c)"

fun redis_consume :: "time \<Rightarrow> 'k counter_check list \<Rightarrow> ('k, unit) cache_op" where
  "redis_consume now [] = retM ()"
| "redis_consume now (x # xs) =
     bindM (redis_incrby ''redis quota check failed'' now (cc_key x) (lua_number (cc_amount x))) (\<lambda>_.
     bindM (putM (redis_first_expiry now (cc_key x)
       (case cc_ttl x of Some ttl \<Rightarrow> lua_number (as_millis ttl) | None \<Rightarrow> 0))) (\<lambda>_.
     redis_consume now xs))"

definition redis_check_and_consume ::
  "time \<Rightarrow> 'k counter_check list \<Rightarrow> ('k, 'k check_outcome) cache_op" where
  "redis_check_and_consume now checks =
     (if checks = [] then retM CheckAllowed
      else
        bindM (getM (redis_denied now checks)) (\<lambda>found.
        bindM (liftR found) (\<lambda>denied.
        (case denied of
           Some k \<Rightarrow> retM (CheckDenied k)
         | None \<Rightarrow> bindM (redis_consume now checks) (\<lambda>_. retM CheckAllowed)))))"

definition redis_adjust_counter :: "time \<Rightarrow> 'k \<Rightarrow> int \<Rightarrow> ('k, int) cache_op" where
  "redis_adjust_counter now k amount c =
     (case redis_number now k c of
        None \<Rightarrow> (Inl (AnyMsg ''redis counter adjust failed''), c)
      | Some n \<Rightarrow>
          (let next_v = max 0 (lua_add n (lua_number amount))
           in (Inr next_v, redis_put k (show_i64 next_v) (entry_deadline now k c) c)))"

definition redis_acquire_slot :: "time \<Rightarrow> 'k \<Rightarrow> int \<Rightarrow> int \<Rightarrow> ('k, bool) cache_op" where
  "redis_acquire_slot now k limit ttl c =
     (case redis_number now k c of
        None \<Rightarrow> (Inl (AnyMsg ''redis slot acquire failed''), c)
      | Some current \<Rightarrow>
          if 0 \<le> lua_number limit \<and> lua_number limit < lua_add current 1 then (Inr False, c)
          else
            bindM (redis_incrby ''redis slot acquire failed'' now k 1) (\<lambda>_.
            bindM (putM (redis_pexpire now k (lua_number (max 1 (as_millis ttl))))) (\<lambda>_. retM True)) c)"

definition redis_release_slot :: "time \<Rightarrow> 'k \<Rightarrow> ('k, unit) cache_op" where
  "redis_release_slot now k = bindM (redis_adjust_counter now k (- 1)) (\<lambda>_. retM ())"

section \<open>The chosen backend\<close>

datatype 'k cache_store = MokaStore "'k entries" | RedisStore "'k entries"

definition on_store ::
  "('k, 'a) cache_op \<Rightarrow> ('k, 'a) cache_op \<Rightarrow> ('k cache_store, anyhow, 'a) oper" where
  "on_store m r s =
     (case s of
        MokaStore c \<Rightarrow> (case m c of (a, c') \<Rightarrow> (a, MokaStore c'))
      | RedisStore c \<Rightarrow> (case r c of (a, c') \<Rightarrow> (a, RedisStore c')))"

type_synonym ('k, 'a) store_op = "('k cache_store, anyhow, 'a) oper"

definition cache_get :: "time \<Rightarrow> 'k \<Rightarrow> ('k, string option) store_op" where
  "cache_get now k = on_store (moka_get now k) (redis_get now k)"

definition cache_take :: "time \<Rightarrow> 'k \<Rightarrow> ('k, string option) store_op" where
  "cache_take now k = on_store (moka_take now k) (redis_take now k)"

definition cache_set :: "time \<Rightarrow> 'k \<Rightarrow> string \<Rightarrow> int \<Rightarrow> ('k, unit) store_op" where
  "cache_set now k val ttl = on_store (moka_set now k val ttl) (redis_set now k val ttl)"

definition cache_update_if_present :: "time \<Rightarrow> 'k \<Rightarrow> string \<Rightarrow> int \<Rightarrow> ('k, bool) store_op" where
  "cache_update_if_present now k val ttl =
     on_store (moka_update_if_present now k val ttl) (redis_update_if_present now k val ttl)"

definition cache_delete :: "time \<Rightarrow> 'k \<Rightarrow> ('k, unit) store_op" where
  "cache_delete now k = on_store (moka_delete now k) (redis_delete now k)"

definition cache_incr :: "time \<Rightarrow> 'k \<Rightarrow> ('k, int) store_op" where
  "cache_incr now k = on_store (moka_incr now k) (redis_incr now k)"

definition cache_decr :: "time \<Rightarrow> 'k \<Rightarrow> ('k, int) store_op" where
  "cache_decr now k = on_store (moka_decr now k) (redis_decr now k)"

definition cache_set_if_absent :: "time \<Rightarrow> 'k \<Rightarrow> string \<Rightarrow> int \<Rightarrow> ('k, bool) store_op" where
  "cache_set_if_absent now k val ttl =
     on_store (moka_set_if_absent now k val ttl) (redis_set_if_absent now k val ttl)"

definition cache_check_and_consume ::
  "time \<Rightarrow> 'k counter_check list \<Rightarrow> ('k, 'k check_outcome) store_op" where
  "cache_check_and_consume now checks =
     on_store (moka_check_and_consume now checks) (redis_check_and_consume now checks)"

definition cache_adjust_counter :: "time \<Rightarrow> 'k \<Rightarrow> int \<Rightarrow> ('k, int) store_op" where
  "cache_adjust_counter now k amount =
     on_store (moka_adjust_counter now k amount) (redis_adjust_counter now k amount)"

definition cache_acquire_slot :: "time \<Rightarrow> 'k \<Rightarrow> int \<Rightarrow> int \<Rightarrow> ('k, bool) store_op" where
  "cache_acquire_slot now k limit ttl =
     on_store (moka_acquire_slot now k limit ttl) (redis_acquire_slot now k limit ttl)"

definition cache_release_slot :: "time \<Rightarrow> 'k \<Rightarrow> ('k, unit) store_op" where
  "cache_release_slot now k = on_store (moka_release_slot now k) (redis_release_slot now k)"

end
