(* ===== verification/CacheContract.thy ===== *)
theory CacheContract
  imports CacheStore
begin

text \<open>
  The contract of the cache's counters (locale \<open>counter_store\<close>), its proof for both backends and for
  the dispatch between them (interpretations \<open>mk\<close>, \<open>rd\<close> and \<open>cs\<close>), and what callers rely on.
\<close>

section \<open>Texts of counters\<close>

lemma of_char_digit: "n < 10 \<Longrightarrow> of_char (char_of (48 + n) :: char) = (48 + n :: nat)"
  by (simp add: of_char_of)

lemma show_nat_snoc: "\<exists>ds d. show_nat n = ds @ [char_of (48 + d)] \<and> d = n mod 10 \<and>
    ds = (if n < 10 then [] else show_nat (n div 10))"
  by (subst show_nat.simps) auto

lemma show_nat_digits: "decimal_digits (show_nat n) \<and> decimal_value (show_nat n) = n"
proof (induction n rule: less_induct)
  case (less n)
  show ?case
  proof (cases "n < 10")
    case True
    then show ?thesis
      by (subst (1 2) show_nat.simps)
        (simp add: decimal_digits_def decimal_value_def is_ascii_digit_def of_char_digit)
  next
    case False
    then have "n div 10 < n" by simp
    note ih = less[OF this]
    have d: "n mod 10 < 10" by simp
    have "show_nat n = show_nat (n div 10) @ [char_of (48 + n mod 10)]"
      using False by (subst show_nat.simps) simp
    moreover have "n div 10 * 10 + n mod 10 = n" by presburger
    ultimately show ?thesis
      using ih of_char_digit[OF d]
      by (simp add: decimal_digits_def decimal_value_def is_ascii_digit_def)
  qed
qed

lemma digits_plain:
  assumes "decimal_digits ds" and "c \<in> set ds"
  shows "c \<noteq> CHR ''-'' \<and> c \<noteq> CHR ''+'' \<and> c \<noteq> CHR '':''"
proof -
  have "48 \<le> (of_char c :: nat) \<and> (of_char c :: nat) \<le> 57"
    using assms by (auto simp: decimal_digits_def list_all_iff is_ascii_digit_def)
  then show ?thesis by auto
qed

lemma parse_show_i64:
  assumes "- (2 ^ 63) \<le> i" and "i < 2 ^ 63"
  shows "parse_i64 (show_i64 i) = Some i"
proof (cases "i < 0")
  case True
  then show ?thesis
    using assms show_nat_digits[of "nat (- i)"] by (simp add: parse_i64_def show_i64_def)
next
  case False
  have ds: "decimal_digits (show_nat (nat i))" and v: "decimal_value (show_nat (nat i)) = nat i"
    using show_nat_digits by auto
  then obtain c cs where c: "show_nat (nat i) = c # cs"
    by (cases "show_nat (nat i)") (auto simp: decimal_digits_def)
  have "c \<noteq> CHR ''-'' \<and> c \<noteq> CHR ''+''"
    using digits_plain[OF ds, of c] c by simp
  then show ?thesis
    using assms False ds v c by (simp add: parse_i64_def show_i64_def)
qed

lemma show_i64_no_colon: "CHR '':'' \<notin> set (show_i64 i)"
  using show_nat_digits[of "nat i"] show_nat_digits[of "nat (- i)"] digits_plain
  by (auto simp: show_i64_def)

definition i64 :: "int \<Rightarrow> bool" where
  "i64 i \<longleftrightarrow> - (2 ^ 63) \<le> i \<and> i < 2 ^ 63"

lemma extract_with_expiry: "i64 e \<Longrightarrow> extract_value (with_expiry e val) = Some (e, val)"
  using split_once_append[OF show_i64_no_colon[of e], of val]
  by (simp add: extract_value_def with_expiry_def parse_show_i64 i64_def)

lemma stored_with_expiry: "i64 e \<Longrightarrow> stored_value (with_expiry e val) = val"
  by (simp add: stored_value_def extract_with_expiry)
section \<open>The contract of a counter store\<close>

text \<open>
  \<open>level\<close> is the number a key stands for, \<open>present\<close> whether it has an entry, \<open>sound\<close> whether that entry
  is a counter which is not in its last second. A lifetime is \<open>usable\<close> when it is at least one second
  and ends before the timestamps do.
\<close>

definition usable :: "time \<Rightarrow> int \<Rightarrow> bool" where
  "usable now ttl \<longleftrightarrow> 0 \<le> now \<and> 1000000000 \<le> ttl \<and> unix_timestamp now + as_secs ttl < 2 ^ 63"

definition sets_level ::
  "('k \<Rightarrow> 's \<Rightarrow> int) \<Rightarrow> ('k \<Rightarrow> 's \<Rightarrow> bool) \<Rightarrow> ('k \<Rightarrow> 's \<Rightarrow> bool) \<Rightarrow> 'k \<Rightarrow> int \<Rightarrow> 's \<Rightarrow> 's \<Rightarrow> bool" where
  "sets_level lv ok there k n s s' \<longleftrightarrow>
     (\<forall>j. lv j s' = (if j = k then n else lv j s)) \<and> (\<forall>j. ok j s \<longrightarrow> ok j s') \<and>
     ok k s' \<and> (\<forall>j. there j s' \<longleftrightarrow> j = k \<or> there j s)"

definition over_limit :: "('k \<Rightarrow> int) \<Rightarrow> 'k counter_check \<Rightarrow> bool" where
  "over_limit lv x \<longleftrightarrow> 0 \<le> cc_max x \<and> cc_max x < lv (cc_key x) + cc_amount x"

definition consumed :: "'k counter_check list \<Rightarrow> ('k \<Rightarrow> int) \<Rightarrow> 'k \<Rightarrow> int" where
  "consumed checks lv j =
     (case find (\<lambda>x. cc_key x = j) checks of Some x \<Rightarrow> lv j + cc_amount x | None \<Rightarrow> lv j)"

definition small_check :: "time \<Rightarrow> ('k \<Rightarrow> int) \<Rightarrow> 'k counter_check \<Rightarrow> bool" where
  "small_check now lv x \<longleftrightarrow> 0 \<le> cc_amount x \<and> lv (cc_key x) + cc_amount x < 2 ^ 53 \<and>
     (\<exists>ttl. cc_ttl x = Some ttl \<and> usable now ttl)"

locale counter_store =
  fixes level :: "time \<Rightarrow> 'k \<Rightarrow> 's \<Rightarrow> int"
    and sound :: "time \<Rightarrow> 'k \<Rightarrow> 's \<Rightarrow> bool"
    and present :: "time \<Rightarrow> 'k \<Rightarrow> 's \<Rightarrow> bool"
    and read_text :: "time \<Rightarrow> 'k \<Rightarrow> ('s, anyhow, string option) oper"
    and acquire :: "time \<Rightarrow> 'k \<Rightarrow> int \<Rightarrow> int \<Rightarrow> ('s, anyhow, bool) oper"
    and release :: "time \<Rightarrow> 'k \<Rightarrow> ('s, anyhow, unit) oper"
    and adjust :: "time \<Rightarrow> 'k \<Rightarrow> int \<Rightarrow> ('s, anyhow, int) oper"
    and store :: "time \<Rightarrow> 'k \<Rightarrow> string \<Rightarrow> int \<Rightarrow> ('s, anyhow, unit) oper"
    and seed :: "time \<Rightarrow> 'k \<Rightarrow> string \<Rightarrow> int \<Rightarrow> ('s, anyhow, bool) oper"
    and consume :: "time \<Rightarrow> 'k counter_check list \<Rightarrow> ('s, anyhow, 'k check_outcome) oper"
  assumes level_range: "sound now k s \<Longrightarrow> 0 \<le> level now k s \<and> level now k s < 2 ^ 53"
    and absent_zero: "\<not> present now k s \<Longrightarrow> sound now k s \<and> level now k s = 0"
    and read_law: "sound now k s \<Longrightarrow>
      read_text now k s = (Inr (if present now k s then Some (show_i64 (level now k s)) else None), s)"
    and acquire_law: "\<lbrakk>usable now ttl; sound now k s; level now k s < 2 ^ 52\<rbrakk> \<Longrightarrow>
      \<exists>s'. acquire now k limit ttl s = (Inr (limit < 0 \<or> level now k s < limit), s') \<and>
        (if limit < 0 \<or> level now k s < limit
         then sets_level (level now) (sound now) (present now) k (level now k s + 1) s s' else s' = s)"
    and release_law: "\<lbrakk>present now k s; sound now k s\<rbrakk> \<Longrightarrow>
      \<exists>s'. release now k s = (Inr (), s') \<and>
        sets_level (level now) (sound now) (present now) k (max 0 (level now k s - 1)) s s'"
    and adjust_law: "\<lbrakk>present now k s; sound now k s; level now k s + n < 2 ^ 53; - (2 ^ 53) < n\<rbrakk> \<Longrightarrow>
      \<exists>s'. adjust now k n s = (Inr (max 0 (level now k s + n)), s') \<and>
        sets_level (level now) (sound now) (present now) k (max 0 (level now k s + n)) s s'"
    and store_law: "\<lbrakk>usable now ttl; 0 \<le> n; n < 2 ^ 53\<rbrakk> \<Longrightarrow>
      \<exists>s'. store now k (show_i64 n) ttl s = (Inr (), s') \<and>
        sets_level (level now) (sound now) (present now) k n s s'"
    and seed_law: "\<lbrakk>usable now ttl; 0 \<le> n; n < 2 ^ 53\<rbrakk> \<Longrightarrow>
      \<exists>s'. seed now k (show_i64 n) ttl s = (Inr (\<not> present now k s), s') \<and>
        (if present now k s then s' = s
         else sets_level (level now) (sound now) (present now) k n s s')"
    and consume_law: "\<lbrakk>distinct (map cc_key checks);
        \<forall>x\<in>set checks. sound now (cc_key x) s \<and> small_check now (\<lambda>j. level now j s) x\<rbrakk> \<Longrightarrow>
      \<exists>s'. consume now checks s =
          (Inr (case find (over_limit (\<lambda>j. level now j s)) checks of
                  Some x \<Rightarrow> CheckDenied (cc_key x) | None \<Rightarrow> CheckAllowed), s') \<and>
        (if find (over_limit (\<lambda>j. level now j s)) checks = None
         then (\<forall>j. level now j s' = consumed checks (\<lambda>j. level now j s) j) \<and>
              (\<forall>j. sound now j s \<longrightarrow> sound now j s') \<and>
              (\<forall>j. present now j s' \<longleftrightarrow> present now j s \<or> j \<in> cc_key ` set checks)
         else s' = s)"
begin

text \<open>A slot is granted exactly below the limit, and giving it back restores the count.\<close>

lemma acquired_within:
  assumes "usable now ttl" "sound now k s" "level now k s < 2 ^ 52" "0 \<le> limit"
    and run: "acquire now k limit ttl s = (Inr True, s')"
  shows "level now k s' = level now k s + 1 \<and> level now k s' \<le> limit"
proof -
  obtain t where t: "acquire now k limit ttl s = (Inr (limit < 0 \<or> level now k s < limit), t)"
    "if limit < 0 \<or> level now k s < limit
     then sets_level (level now) (sound now) (present now) k (level now k s + 1) s t else t = s"
    using acquire_law[OF assms(1-3), of limit] by blast
  with run assms(4) show ?thesis by (auto simp: sets_level_def)
qed

lemma release_restores:
  assumes "usable now ttl" "sound now k s" "level now k s < 2 ^ 52"
    and run: "acquire now k limit ttl s = (Inr True, s')"
  obtains s'' where "release now k s' = (Inr (), s'')" "\<And>j. level now j s'' = level now j s"
proof -
  obtain t where t: "acquire now k limit ttl s = (Inr (limit < 0 \<or> level now k s < limit), t)"
    "if limit < 0 \<or> level now k s < limit
     then sets_level (level now) (sound now) (present now) k (level now k s + 1) s t else t = s"
    using acquire_law[OF assms(1-3), of limit] by blast
  with run have s': "sets_level (level now) (sound now) (present now) k (level now k s + 1) s s'"
    by auto
  then have "present now k s'" "sound now k s'" by (auto simp: sets_level_def)
  then obtain u where u: "release now k s' = (Inr (), u)"
    "sets_level (level now) (sound now) (present now) k (max 0 (level now k s' - 1)) s' u"
    using release_law by blast
  show ?thesis
    by (rule that[OF u(1)]) (use u(2) s' level_range[OF assms(2)] in \<open>auto simp: sets_level_def\<close>)
qed

end
section \<open>Both backends keep the contract\<close>

definition moka_present :: "time \<Rightarrow> 'k \<Rightarrow> 'k entries \<Rightarrow> bool" where
  "moka_present now k c \<longleftrightarrow> entry_get now k c \<noteq> None"

definition moka_sound :: "time \<Rightarrow> 'k \<Rightarrow> 'k entries \<Rightarrow> bool" where
  "moka_sound now k c \<longleftrightarrow>
     (case entry_get now k c of
        None \<Rightarrow> True
      | Some raw \<Rightarrow> \<exists>v e. raw = with_expiry e (show_i64 v) \<and> 0 \<le> v \<and> v < 2 ^ 53 \<and> i64 e \<and>
          0 < wrap_i64 (e - unix_timestamp now))"

lemma moka_insert_get:
  assumes "i64 e" and "0 < wrap_i64 (e - unix_timestamp now)"
  shows "entry_get now j (moka_insert now k (with_expiry e val) c) =
    (if j = k then Some (with_expiry e val) else entry_get now j c)"
  using assms
  by (simp add: entry_get_def moka_insert_def expiry_for_value_def extract_with_expiry alive_at_def
      seconds_def)

lemma read_with_expiry:
  assumes "entry_get now k c = Some (with_expiry e (show_i64 v))" "i64 e" "i64 v"
  shows "read_counter_entry now k c = (v, Some e)"
  using assms by (simp add: read_counter_entry_def extract_with_expiry parse_show_i64 i64_def)

lemma moka_write_sets:
  assumes "i64 e" "0 < wrap_i64 (e - unix_timestamp now)" "0 \<le> v" "v < 2 ^ 53"
  shows "sets_level (read_counter now) (moka_sound now) (moka_present now) k v c
    (write_counter now k v (Some e) c)"
proof -
  have v: "i64 v" using assms by (simp add: i64_def)
  note get = moka_insert_get[OF assms(1,2), of _ k "show_i64 v" c]
  have "read_counter_entry now k (moka_insert now k (with_expiry e (show_i64 v)) c) = (v, Some e)"
    by (rule read_with_expiry[OF _ assms(1) v]) (simp add: get)
  then show ?thesis
    using assms
    by (auto simp: sets_level_def write_counter_def read_counter_def moka_sound_def moka_present_def get
        read_counter_entry_def[of now _ "moka_insert _ _ _ _"] read_counter_entry_def[of now _ c])
qed

lemma expiry_usable:
  assumes "usable now ttl"
  shows "i64 (expiry_from_ttl now ttl) \<and> 0 < wrap_i64 (expiry_from_ttl now ttl - unix_timestamp now)"
proof -
  have "0 \<le> unix_timestamp now" "1 \<le> as_secs ttl" "unix_timestamp now + as_secs ttl < 2 ^ 63"
    using assms by (auto simp: usable_def unix_timestamp_def as_secs_def)
  then show ?thesis by (simp add: expiry_from_ttl_def wrap_i64_id i64_def)
qed

lemma moka_sound_entry:
  assumes "moka_sound now k c"
  shows "(entry_get now k c = None \<and> read_counter_entry now k c = (0, None)) \<or>
    (\<exists>v e. entry_get now k c = Some (with_expiry e (show_i64 v)) \<and> read_counter_entry now k c = (v, Some e) \<and>
       0 \<le> v \<and> v < 2 ^ 53 \<and> i64 e \<and> 0 < wrap_i64 (e - unix_timestamp now))"
proof (cases "entry_get now k c")
  case None
  then show ?thesis by (simp add: read_counter_entry_def)
next
  case (Some raw)
  then obtain v e where raw: "raw = with_expiry e (show_i64 v)" "0 \<le> v" "v < 2 ^ 53" "i64 e"
    "0 < wrap_i64 (e - unix_timestamp now)"
    using assms by (auto simp: moka_sound_def)
  moreover have "i64 v" using raw by (simp add: i64_def)
  ultimately show ?thesis using Some read_with_expiry[of now k c e v] by auto
qed

lemma consumed_Cons:
  assumes "cc_key x \<notin> cc_key ` set xs"
    and "\<And>j. lv' j = (if j = cc_key x then lv (cc_key x) + cc_amount x else lv j)"
  shows "consumed xs lv' j = consumed (x # xs) lv j"
proof (cases "j = cc_key x")
  case True
  then have "find (\<lambda>z. cc_key z = j) xs = None"
    using assms(1) by (auto simp: find_None_iff_ball) (metis image_eqI)
  with True assms(2) show ?thesis by (simp add: consumed_def)
next
  case False
  with assms(2) show ?thesis by (simp add: consumed_def split: option.splits)
qed

lemma moka_consume_levels:
  assumes "distinct (map cc_key checks)"
    and "\<forall>x\<in>set checks. moka_sound now (cc_key x) c \<and> small_check now (\<lambda>j. read_counter now j c) x"
  shows "(\<forall>j. read_counter now j (moka_consume now checks c) = consumed checks (\<lambda>j. read_counter now j c) j) \<and>
    (\<forall>j. moka_sound now j c \<longrightarrow> moka_sound now j (moka_consume now checks c)) \<and>
    (\<forall>j. moka_present now j (moka_consume now checks c) \<longleftrightarrow> moka_present now j c \<or> j \<in> cc_key ` set checks)"
  using assms
proof (induction checks arbitrary: c)
  case Nil
  then show ?case by (simp add: consumed_def)
next
  case (Cons x xs)
  obtain ttl where ttl: "cc_ttl x = Some ttl" "usable now ttl" and a: "0 \<le> cc_amount x"
    "read_counter now (cc_key x) c + cc_amount x < 2 ^ 53" and s: "moka_sound now (cc_key x) c"
    using Cons.prems(2) by (auto simp: small_check_def)
  let ?v = "read_counter now (cc_key x) c"
  have v: "0 \<le> ?v" using moka_sound_entry[OF s] by (auto simp: read_counter_def)
  let ?c = "write_counter now (cc_key x) (?v + cc_amount x) (Some (expiry_from_ttl now ttl)) c"
  have w: "wrap_i64 (?v + cc_amount x) = ?v + cc_amount x"
    using v a by (simp add: wrap_i64_id)
  have step: "sets_level (read_counter now) (moka_sound now) (moka_present now) (cc_key x) (?v + cc_amount x) c ?c"
    by (rule moka_write_sets) (use expiry_usable[OF ttl(2)] v a in auto)
  have rest: "\<forall>y\<in>set xs. moka_sound now (cc_key y) ?c \<and> small_check now (\<lambda>j. read_counter now j ?c) y"
  proof
    fix y assume y: "y \<in> set xs"
    then have "cc_key y \<noteq> cc_key x" using Cons.prems(1) by (metis distinct.simps(2) list.simps(9) image_eqI list.set_map)
    then show "moka_sound now (cc_key y) ?c \<and> small_check now (\<lambda>j. read_counter now j ?c) y"
      using Cons.prems(2) y step by (auto simp: sets_level_def small_check_def)
  qed
  have eq: "moka_consume now (x # xs) c = moka_consume now xs ?c"
    using ttl(1) w by (cases "read_counter_entry now (cc_key x) c") (simp add: read_counter_def)
  have levels: "consumed xs (\<lambda>j. read_counter now j ?c) j = consumed (x # xs) (\<lambda>j. read_counter now j c) j" for j
    by (rule consumed_Cons) (use Cons.prems(1) step in \<open>auto simp: sets_level_def\<close>)
  show ?case
    unfolding eq using Cons.IH[OF _ rest] Cons.prems(1) step by (auto simp: levels sets_level_def)
qed

lemma moka_denied_find:
  assumes "\<forall>x\<in>set checks. moka_sound now (cc_key x) c \<and> small_check now (\<lambda>j. read_counter now j c) x"
  shows "moka_denied now checks c = map_option cc_key (find (over_limit (\<lambda>j. read_counter now j c)) checks)"
  using assms
proof (induction checks)
  case (Cons x xs)
  have "0 \<le> read_counter now (cc_key x) c"
    using moka_sound_entry[of now "cc_key x" c] Cons.prems by (auto simp: read_counter_def)
  then have "wrap_i64 (read_counter now (cc_key x) c + cc_amount x) = read_counter now (cc_key x) c + cc_amount x"
    using Cons.prems by (auto simp: small_check_def intro!: wrap_i64_id)
  with Cons show ?case by (auto simp: over_limit_def)
qed simp

lemma entry_get_cases: "entry_get now k c = None \<or> (\<exists>raw. entry_get now k c = Some raw)"
  by (cases "entry_get now k c") auto

interpretation mk: counter_store read_counter moka_sound moka_present moka_get moka_acquire_slot
  moka_release_slot moka_adjust_counter moka_set moka_set_if_absent moka_check_and_consume
proof (unfold_locales, goal_cases range absent read acq rel adj set seed cons)
  case (range now k s)
  then show ?case using moka_sound_entry[OF range] by (auto simp: read_counter_def)
next
  case (absent now k s)
  then show ?case by (simp add: moka_present_def moka_sound_def read_counter_def read_counter_entry_def)
next
  case (read now k s)
  then show ?case
    using moka_sound_entry[OF read]
    by (auto simp: moka_get_def moka_present_def read_counter_def stored_with_expiry)
next
  case (acq now ttl k s limit)
  have v: "0 \<le> read_counter now k s" using moka_sound_entry[OF acq(2)] by (auto simp: read_counter_def)
  then have w: "wrap_i64 (read_counter now k s + 1) = read_counter now k s + 1"
    using acq(3) by (simp add: wrap_i64_id)
  have "sets_level (read_counter now) (moka_sound now) (moka_present now) k (read_counter now k s + 1) s
      (write_counter now k (read_counter now k s + 1) (Some (expiry_from_ttl now ttl)) s)"
    by (rule moka_write_sets) (use expiry_usable[OF acq(1)] v acq(3) in auto)
  then show ?case by (auto simp: moka_acquire_slot_def Let_def w)
next
  case (rel now k s)
  then obtain v e where e: "read_counter_entry now k s = (v, Some e)" "0 \<le> v" "v < 2 ^ 53" "i64 e"
    "0 < wrap_i64 (e - unix_timestamp now)"
    using moka_sound_entry[OF rel(2)] by (auto simp: moka_present_def)
  have w: "wrap_i64 (v - 1) = v - 1" using e by (simp add: wrap_i64_id)
  have "sets_level (read_counter now) (moka_sound now) (moka_present now) k (max 0 (v - 1)) s
      (write_counter now k (max 0 (v - 1)) (Some e) s)"
    by (rule moka_write_sets) (use e in auto)
  then show ?case using e(1) by (simp add: moka_release_slot_def w read_counter_def)
next
  case (adj now k s n)
  then obtain v e where e: "read_counter_entry now k s = (v, Some e)" "0 \<le> v" "v < 2 ^ 53" "i64 e"
    "0 < wrap_i64 (e - unix_timestamp now)"
    using moka_sound_entry[OF adj(2)] by (auto simp: moka_present_def)
  have w: "wrap_i64 (v + n) = v + n" using e adj by (simp add: wrap_i64_id read_counter_def)
  have "sets_level (read_counter now) (moka_sound now) (moka_present now) k (max 0 (v + n)) s
      (write_counter now k (max 0 (v + n)) (Some e) s)"
    by (rule moka_write_sets) (use e adj in \<open>auto simp: read_counter_def\<close>)
  then show ?case using e(1) by (simp add: moka_adjust_counter_def w read_counter_def Let_def)
next
  case (set now ttl n k s)
  have "sets_level (read_counter now) (moka_sound now) (moka_present now) k n s
      (write_counter now k n (Some (expiry_from_ttl now ttl)) s)"
    by (rule moka_write_sets) (use expiry_usable[OF set(1)] set in auto)
  then show ?case by (simp add: moka_set_def write_counter_def)
next
  case (seed now ttl n k s)
  have "sets_level (read_counter now) (moka_sound now) (moka_present now) k n s
      (write_counter now k n (Some (expiry_from_ttl now ttl)) s)"
    by (rule moka_write_sets) (use expiry_usable[OF seed(1)] seed in auto)
  then show ?case by (auto simp: moka_set_if_absent_def write_counter_def moka_present_def)
next
  case (cons checks now s)
  show ?case
    using moka_consume_levels[OF cons] moka_denied_find[OF cons(2)]
    by (auto simp: moka_check_and_consume_def split: option.splits)
qed

text \<open>Redis.\<close>

text \<open>Doubles are exact below \<open>2 ^ 53\<close>, and rounding moves no number across that bound or zero.\<close>

lemma double_exact: "n < 2 ^ 53 \<Longrightarrow> f64_of_u64 n = n"
  by (simp add: f64_of_u64_def down_shift.simps round_even_def)

lemma double_large:
  assumes "2 ^ 53 \<le> n"
  shows "2 ^ 53 \<le> f64_of_u64 n"
proof -
  let ?t = "down_shift n 1"
  have "2 ^ 52 * 2 ^ ?t \<le> n" using down_shift_reaches[of 1 n] assms by simp
  then have "2 ^ 52 \<le> round_even n (2 ^ ?t)" by (intro round_even_ge) simp_all
  moreover have "?t = Suc (down_shift n 2)" using assms by (subst down_shift.simps) simp
  ultimately have "2 ^ 52 * (2 * 2 ^ down_shift n 2) \<le> round_even n (2 ^ ?t) * 2 ^ ?t"
    by (intro mult_le_mono) simp_all
  then have "2 ^ 53 * 2 ^ down_shift n 2 \<le> round_even n (2 ^ ?t) * 2 ^ ?t" by simp
  moreover have "2 ^ 53 \<le> (2 ^ 53 * 2 ^ down_shift n 2 :: nat)" by simp
  ultimately show ?thesis unfolding f64_of_u64_def Let_def by (rule order_trans[rotated])
qed

lemma lua_exact: "\<bar>i\<bar> < 2 ^ 53 \<Longrightarrow> lua_number i = i"
  by (simp add: lua_number_def double_exact nat_less_iff sgn_if)

lemma double_zero: "f64_of_u64 n = 0 \<longleftrightarrow> n = 0"
  using double_exact[of n] double_large[of n] by (cases "n < 2 ^ 53") auto

lemma lua_sign: "0 < lua_number i \<longleftrightarrow> 0 < i" "lua_number i < 0 \<longleftrightarrow> i < 0" "lua_number i = 0 \<longleftrightarrow> i = 0"
  using double_zero[of "nat \<bar>i\<bar>"] by (auto simp: lua_number_def sgn_if)

lemma lua_compare:
  assumes "0 \<le> x" and "x < 2 ^ 53"
  shows "0 \<le> lua_number m \<and> lua_number m < x \<longleftrightarrow> 0 \<le> m \<and> m < x"
proof (cases "2 ^ 53 \<le> m")
  case True
  then have "2 ^ 53 \<le> f64_of_u64 (nat m)" by (intro double_large) simp
  then have "2 ^ 53 \<le> lua_number m" using True by (simp add: lua_number_def)
  with True assms show ?thesis by simp
next
  case False
  then show ?thesis using lua_sign(2)[of m] lua_exact[of m] by (cases "m < 0") auto
qed

definition redis_level :: "time \<Rightarrow> 'k \<Rightarrow> 'k entries \<Rightarrow> int" where
  "redis_level now k c = (case redis_number now k c of Some n \<Rightarrow> n | None \<Rightarrow> 0)"

definition redis_sound :: "time \<Rightarrow> 'k \<Rightarrow> 'k entries \<Rightarrow> bool" where
  "redis_sound now k c \<longleftrightarrow>
     (case entry_get now k c of
        None \<Rightarrow> True | Some raw \<Rightarrow> \<exists>v. raw = show_i64 v \<and> 0 \<le> v \<and> v < 2 ^ 53)"

lemma redis_put_sets:
  assumes "alive_at now dl" "0 \<le> v" "v < 2 ^ 53"
  shows "sets_level (redis_level now) (redis_sound now) (moka_present now) k v c (redis_put k (show_i64 v) dl c)"
proof -
  have "parse_i64 (show_i64 v) = Some v" using assms by (intro parse_show_i64) auto
  with assms show ?thesis
    by (auto simp: sets_level_def redis_put_def redis_level_def redis_number_def redis_integer_def redis_sound_def
        moka_present_def entry_get_def lua_exact)
qed

lemma redis_sound_entry:
  assumes "redis_sound now k c"
  shows "redis_integer now k c = Some (redis_level now k c) \<and> redis_number now k c = Some (redis_level now k c) \<and> 0 \<le> redis_level now k c \<and>
    redis_level now k c < 2 ^ 53 \<and>
    (entry_get now k c = None \<and> redis_level now k c = 0 \<or>
     entry_get now k c = Some (show_i64 (redis_level now k c)))"
proof (cases "entry_get now k c")
  case None
  then show ?thesis by (simp add: redis_number_def redis_integer_def redis_level_def lua_exact)
next
  case (Some raw)
  then obtain v where "raw = show_i64 v" "0 \<le> v" "v < 2 ^ 53" using assms by (auto simp: redis_sound_def)
  moreover from this have "parse_i64 (show_i64 v) = Some v" by (intro parse_show_i64) auto
  ultimately show ?thesis using Some by (simp add: redis_number_def redis_integer_def redis_level_def lua_exact)
qed

lemma px_alive: "usable now ttl \<Longrightarrow> alive_at now (px now ttl)"
  by (simp add: alive_at_def px_def deadline_ms_def clock_ms_def)

lemma deadline_alive: "alive_at now (entry_deadline now k c)"
  by (simp add: entry_deadline_def alive_at_def split: option.splits prod.splits)

lemma later_ms: "0 < n \<Longrightarrow> alive_at now (Some (deadline_ms (clock_ms now + n)))"
  by (simp add: alive_at_def deadline_ms_def clock_ms_def)

lemma redis_incrby_sets:
  assumes "redis_sound now k c" "0 \<le> n" "redis_level now k c + n < 2 ^ 53"
  shows "redis_incrby msg now k n c = (Inr (redis_level now k c + n),
      redis_put k (show_i64 (redis_level now k c + n)) (entry_deadline now k c) c)"
    "sets_level (redis_level now) (redis_sound now) (moka_present now) k (redis_level now k c + n) c
      (redis_put k (show_i64 (redis_level now k c + n)) (entry_deadline now k c) c)"
proof -
  note e = redis_sound_entry[OF assms(1)]
  then show "redis_incrby msg now k n c = (Inr (redis_level now k c + n),
      redis_put k (show_i64 (redis_level now k c + n)) (entry_deadline now k c) c)"
    using assms by (auto simp: redis_incrby_def)
  show "sets_level (redis_level now) (redis_sound now) (moka_present now) k (redis_level now k c + n) c
      (redis_put k (show_i64 (redis_level now k c + n)) (entry_deadline now k c) c)"
    by (rule redis_put_sets) (use e assms deadline_alive in auto)
qed

lemma redis_pexpire_same:
  assumes "0 < ms"
  shows "redis_level now j (redis_pexpire now k ms c) = redis_level now j c \<and>
    redis_sound now j (redis_pexpire now k ms c) = redis_sound now j c \<and>
    moka_present now j (redis_pexpire now k ms c) = moka_present now j c"
proof -
  have "entry_get now j (redis_pexpire now k ms c) = entry_get now j c"
    using later_ms[OF assms, of now]
    by (auto simp: redis_pexpire_def redis_put_def entry_get_def split: option.splits)
  then show ?thesis by (simp add: redis_level_def redis_number_def redis_integer_def redis_sound_def moka_present_def)
qed

lemma redis_first_expiry_same:
  "redis_level now j (redis_first_expiry now k ms c) = redis_level now j c \<and>
    redis_sound now j (redis_first_expiry now k ms c) = redis_sound now j c \<and>
    moka_present now j (redis_first_expiry now k ms c) = moka_present now j c"
  using redis_pexpire_same[of ms now j k c] by (simp add: redis_first_expiry_def)

lemma redis_consume_run:
  assumes "distinct (map cc_key checks)"
    and "\<forall>x\<in>set checks. redis_sound now (cc_key x) c \<and> small_check now (\<lambda>j. redis_level now j c) x"
  shows "\<exists>c'. redis_consume now checks c = (Inr (), c') \<and>
    (\<forall>j. redis_level now j c' = consumed checks (\<lambda>j. redis_level now j c) j) \<and>
    (\<forall>j. redis_sound now j c \<longrightarrow> redis_sound now j c') \<and>
    (\<forall>j. moka_present now j c' \<longleftrightarrow> moka_present now j c \<or> j \<in> cc_key ` set checks)"
  using assms
proof (induction checks arbitrary: c)
  case Nil
  then show ?case by (simp add: consumed_def retM_def)
next
  case (Cons x xs)
  have a: "0 \<le> cc_amount x" "redis_level now (cc_key x) c + cc_amount x < 2 ^ 53"
    and s: "redis_sound now (cc_key x) c"
    using Cons.prems(2) by (auto simp: small_check_def)
  note inc = redis_incrby_sets[OF s a]
  let ?c = "redis_put (cc_key x) (show_i64 (redis_level now (cc_key x) c + cc_amount x))
      (entry_deadline now (cc_key x) c) c"
  let ?d = "redis_first_expiry now (cc_key x) (case cc_ttl x of Some ttl \<Rightarrow> lua_number (as_millis ttl) | None \<Rightarrow> 0) ?c"
  have step: "sets_level (redis_level now) (redis_sound now) (moka_present now) (cc_key x)
      (redis_level now (cc_key x) c + cc_amount x) c ?d"
    using inc(2) by (simp add: sets_level_def redis_first_expiry_same)
  have rest: "\<forall>y\<in>set xs. redis_sound now (cc_key y) ?d \<and> small_check now (\<lambda>j. redis_level now j ?d) y"
  proof
    fix y assume y: "y \<in> set xs"
    then have "cc_key y \<noteq> cc_key x"
      using Cons.prems(1) by (metis distinct.simps(2) list.simps(9) image_eqI list.set_map)
    then show "redis_sound now (cc_key y) ?d \<and> small_check now (\<lambda>j. redis_level now j ?d) y"
      using Cons.prems(2) y step by (auto simp: sets_level_def small_check_def)
  qed
  have levels: "consumed xs (\<lambda>j. redis_level now j ?d) j = consumed (x # xs) (\<lambda>j. redis_level now j c) j" for j
    by (rule consumed_Cons) (use Cons.prems(1) step in \<open>auto simp: sets_level_def\<close>)
  have run: "redis_consume now (x # xs) c = redis_consume now xs ?d"
    using inc(1) lua_exact[of "cc_amount x"] a redis_sound_entry[OF s] by (simp add: bindM_def putM_def)
  show ?case
    unfolding run using Cons.IH[OF _ rest] Cons.prems(1) step by (auto simp: levels sets_level_def)
qed

lemma redis_denied_find:
  assumes "\<forall>x\<in>set checks. redis_sound now (cc_key x) c \<and> small_check now (\<lambda>j. redis_level now j c) x"
  shows "redis_denied now checks c =
    Inr (map_option cc_key (find (over_limit (\<lambda>j. redis_level now j c)) checks))"
  using assms
proof (induction checks)
  case (Cons x xs)
  then have a: "0 \<le> cc_amount x" "redis_level now (cc_key x) c + cc_amount x < 2 ^ 53"
    and e: "redis_number now (cc_key x) c = Some (redis_level now (cc_key x) c)" "0 \<le> redis_level now (cc_key x) c"
    using redis_sound_entry[of now "cc_key x" c] by (auto simp: small_check_def)
  have "lua_number (cc_amount x) = cc_amount x" using a e by (intro lua_exact) simp
  moreover have "lua_add (redis_level now (cc_key x) c) (cc_amount x) = redis_level now (cc_key x) c + cc_amount x"
    unfolding lua_add_def using a e by (intro lua_exact) simp
  ultimately show ?case
    using Cons e a lua_compare[of "redis_level now (cc_key x) c + cc_amount x" "cc_max x"]
    by (auto simp: over_limit_def)
qed simp

interpretation rd: counter_store redis_level redis_sound moka_present redis_get redis_acquire_slot
  redis_release_slot redis_adjust_counter redis_set redis_set_if_absent redis_check_and_consume
proof (unfold_locales, goal_cases range absent read acq rel adj set seed cons)
  case (range now k s)
  then show ?case using redis_sound_entry[OF range] by auto
next
  case (absent now k s)
  then show ?case by (simp add: moka_present_def redis_sound_def redis_level_def redis_number_def redis_integer_def lua_exact)
next
  case (read now k s)
  then show ?case using redis_sound_entry[OF read] by (auto simp: redis_get_def moka_present_def)
next
  case (acq now ttl k s limit)
  note e = redis_sound_entry[OF acq(2)]
  have one: "redis_level now k s + 1 < 2 ^ 53" using acq(3) by simp
  note inc = redis_incrby_sets[OF acq(2) _ one, simplified]
  let ?c = "redis_put k (show_i64 (redis_level now k s + 1)) (entry_deadline now k s) s"
  let ?d = "redis_pexpire now k (lua_number (max 1 (as_millis ttl))) ?c"
  have "0 < lua_number (max 1 (as_millis ttl))" by (simp add: lua_sign)
  then have sets: "sets_level (redis_level now) (redis_sound now) (moka_present now) k (redis_level now k s + 1) s ?d"
    using inc(2) by (simp add: sets_level_def redis_pexpire_same)
  have "redis_acquire_slot now k limit ttl s =
      (if limit < 0 \<or> redis_level now k s < limit then (Inr True, ?d) else (Inr False, s))"
    using e inc(1) lua_compare[of "redis_level now k s + 1" limit] lua_exact[of "redis_level now k s + 1"] one
    by (auto simp: redis_acquire_slot_def bindM_def putM_def retM_def lua_add_def)
  then show ?case using sets by auto
next
  case (rel now k s)
  note e = redis_sound_entry[OF rel(2)]
  have "sets_level (redis_level now) (redis_sound now) (moka_present now) k (max 0 (redis_level now k s - 1)) s
      (redis_put k (show_i64 (max 0 (redis_level now k s - 1))) (entry_deadline now k s) s)"
    by (rule redis_put_sets) (use e deadline_alive in auto)
  moreover have "lua_number (redis_level now k s - 1) = redis_level now k s - 1"
    using e by (intro lua_exact) auto
  ultimately show ?case using e
    by (simp add: redis_release_slot_def redis_adjust_counter_def bindM_def retM_def Let_def lua_add_def lua_exact)
next
  case (adj now k s n)
  note e = redis_sound_entry[OF adj(2)]
  have "sets_level (redis_level now) (redis_sound now) (moka_present now) k (max 0 (redis_level now k s + n)) s
      (redis_put k (show_i64 (max 0 (redis_level now k s + n))) (entry_deadline now k s) s)"
    by (rule redis_put_sets) (use e adj deadline_alive in auto)
  moreover have "lua_number n = n" "lua_add (redis_level now k s) n = redis_level now k s + n"
    using e adj by (auto simp: lua_add_def intro!: lua_exact)
  ultimately show ?case using e by (simp add: redis_adjust_counter_def Let_def)
next
  case (set now ttl n k s)
  have secs: "1 \<le> as_secs ttl" using set(1) by (auto simp: usable_def as_secs_def)
  have "sets_level (redis_level now) (redis_sound now) (moka_present now) k n s
      (redis_put k (show_i64 n) (Some (deadline_ms (clock_ms now + as_secs ttl * 1000))) s)"
    by (rule redis_put_sets) (use set secs later_ms in auto)
  then show ?case using secs by (simp add: redis_set_def)
next
  case (seed now ttl n k s)
  have "sets_level (redis_level now) (redis_sound now) (moka_present now) k n s
      (redis_put k (show_i64 n) (px now ttl) s)"
    by (rule redis_put_sets) (use seed px_alive in auto)
  then show ?case by (auto simp: redis_set_if_absent_def moka_present_def)
next
  case (cons checks now s)
  have d: "redis_denied now checks s =
      Inr (map_option cc_key (find (over_limit (\<lambda>j. redis_level now j s)) checks))"
    by (rule redis_denied_find) (use cons(2) in auto)
  show ?case
  proof (cases "checks = []")
    case True
    then show ?thesis by (simp add: redis_check_and_consume_def retM_def consumed_def)
  next
    case False
    then show ?thesis
      using redis_consume_run[OF cons] d
      by (auto simp: redis_check_and_consume_def oper_defs split: option.splits)
  qed
qed

text \<open>The backend in use.\<close>

definition cache_level :: "time \<Rightarrow> 'k \<Rightarrow> 'k cache_store \<Rightarrow> int" where
  "cache_level now k s =
     (case s of MokaStore c \<Rightarrow> read_counter now k c | RedisStore c \<Rightarrow> redis_level now k c)"

definition cache_sound :: "time \<Rightarrow> 'k \<Rightarrow> 'k cache_store \<Rightarrow> bool" where
  "cache_sound now k s =
     (case s of MokaStore c \<Rightarrow> moka_sound now k c | RedisStore c \<Rightarrow> redis_sound now k c)"

definition cache_present :: "time \<Rightarrow> 'k \<Rightarrow> 'k cache_store \<Rightarrow> bool" where
  "cache_present now k s =
     (case s of MokaStore c \<Rightarrow> moka_present now k c | RedisStore c \<Rightarrow> moka_present now k c)"

lemmas cache_reads = cache_level_def cache_sound_def cache_present_def

lemma sets_level_store:
  "sets_level (cache_level now) (cache_sound now) (cache_present now) k v (MokaStore c) (MokaStore c') =
     sets_level (read_counter now) (moka_sound now) (moka_present now) k v c c'"
  "sets_level (cache_level now) (cache_sound now) (cache_present now) k v (RedisStore c) (RedisStore c') =
     sets_level (redis_level now) (redis_sound now) (moka_present now) k v c c'"
  by (simp_all add: sets_level_def cache_reads)

interpretation cs: counter_store cache_level cache_sound cache_present cache_get cache_acquire_slot
  cache_release_slot cache_adjust_counter cache_set cache_set_if_absent cache_check_and_consume
proof (unfold_locales, goal_cases range absent read acq rel adj set seed cons)
  case (range now k s)
  then show ?case by (cases s) (auto simp: cache_reads dest: mk.level_range rd.level_range)
next
  case (absent now k s)
  then show ?case by (cases s) (auto simp: cache_reads mk.absent_zero rd.absent_zero)
next
  case (read now k s)
  then show ?case
    by (cases s) (auto simp: cache_reads cache_get_def on_store_def mk.read_law rd.read_law)
next
  case (acq now ttl k s limit)
  show ?case
  proof (cases s)
    case (MokaStore c)
    then show ?thesis using mk.acquire_law[of now ttl k c limit] acq
      by (auto simp: cache_reads cache_acquire_slot_def on_store_def sets_level_store)
  next
    case (RedisStore c)
    then show ?thesis using rd.acquire_law[of now ttl k c limit] acq
      by (auto simp: cache_reads cache_acquire_slot_def on_store_def sets_level_store)
  qed
next
  case (rel now k s)
  show ?case
  proof (cases s)
    case (MokaStore c)
    then show ?thesis using mk.release_law[of now k c] rel
      by (auto simp: cache_reads cache_release_slot_def on_store_def sets_level_store)
  next
    case (RedisStore c)
    then show ?thesis using rd.release_law[of now k c] rel
      by (auto simp: cache_reads cache_release_slot_def on_store_def sets_level_store)
  qed
next
  case (adj now k s n)
  show ?case
  proof (cases s)
    case (MokaStore c)
    then show ?thesis using mk.adjust_law[of now k c n] adj
      by (auto simp: cache_reads cache_adjust_counter_def on_store_def sets_level_store)
  next
    case (RedisStore c)
    then show ?thesis using rd.adjust_law[of now k c n] adj
      by (auto simp: cache_reads cache_adjust_counter_def on_store_def sets_level_store)
  qed
next
  case (set now ttl n k s)
  show ?case
  proof (cases s)
    case (MokaStore c)
    then show ?thesis using mk.store_law[OF set, of k c]
      by (auto simp: cache_reads cache_set_def on_store_def sets_level_store)
  next
    case (RedisStore c)
    then show ?thesis using rd.store_law[OF set, of k c]
      by (auto simp: cache_reads cache_set_def on_store_def sets_level_store)
  qed
next
  case (seed now ttl n k s)
  show ?case
  proof (cases s)
    case (MokaStore c)
    then show ?thesis using mk.seed_law[OF seed, of k c]
      by (auto simp: cache_reads cache_set_if_absent_def on_store_def sets_level_store)
  next
    case (RedisStore c)
    then show ?thesis using rd.seed_law[OF seed, of k c]
      by (auto simp: cache_reads cache_set_if_absent_def on_store_def sets_level_store)
  qed
next
  case (cons checks now s)
  show ?case
  proof (cases s)
    case (MokaStore c)
    then show ?thesis using mk.consume_law[of checks now c] cons
      by (auto simp: cache_reads cache_check_and_consume_def on_store_def)
  next
    case (RedisStore c)
    then show ?thesis using rd.consume_law[of checks now c] cons
      by (auto simp: cache_reads cache_check_and_consume_def on_store_def)
  qed
qed

section \<open>What callers rely on\<close>

lemma moka_kept_until:
  assumes "usable now ttl" "now \<le> t"
  shows "entry_get t k (moka_insert now k (with_expiry (expiry_from_ttl now ttl) val) c) =
    (if t < now + seconds (as_secs ttl) then Some (with_expiry (expiry_from_ttl now ttl) val) else None)"
proof -
  have "0 \<le> unix_timestamp now" "1 \<le> as_secs ttl" "unix_timestamp now + as_secs ttl < 2 ^ 63"
    using assms(1) by (auto simp: usable_def unix_timestamp_def as_secs_def)
  then have "expiry_from_ttl now ttl = unix_timestamp now + as_secs ttl" "wrap_i64 (as_secs ttl) = as_secs ttl"
    "i64 (unix_timestamp now + as_secs ttl)"
    by (simp_all add: expiry_from_ttl_def wrap_i64_id i64_def)
  with \<open>1 \<le> as_secs ttl\<close> show ?thesis
    by (simp add: entry_get_def moka_insert_def expiry_for_value_def extract_with_expiry alive_at_def)
qed

text \<open>
  C33. A value stored in the cache, whatever its text and whichever backend is in use, is read back
  exactly until one millisecond before its lifetime ends, is gone once the lifetime is over, and
  leaves every other key alone; and a one-time read (\<open>take\<close>) hands it out once.
\<close>

theorem stored_value_lives:
  fixes s :: "'k cache_store" and k :: 'k and val :: string
  assumes "usable now ttl" and "as_secs ttl * 1000000000 = ttl" and "now \<le> t"
  defines "s' \<equiv> snd (cache_set now k val ttl s)"
  shows "fst (cache_set now k val ttl s) = Inr () \<and>
    (t + 1000000 \<le> now + ttl \<longrightarrow> cache_get t k s' = (Inr (Some val), s')) \<and>
    (now + ttl \<le> t \<longrightarrow> cache_get t k s' = (Inr None, s')) \<and>
    (\<forall>j. j \<noteq> k \<longrightarrow> fst (cache_get t j s') = fst (cache_get t j s)) \<and>
    fst (cache_take t k s') = fst (cache_get t k s') \<and>
    (\<forall>u. fst (cache_take u k (snd (cache_take t k s'))) = Inr None)"
proof -
  have secs: "1 \<le> as_secs ttl" "seconds (as_secs ttl) = ttl"
    using assms(1,2) by (auto simp: usable_def as_secs_def seconds_def)
  have e: "i64 (expiry_from_ttl now ttl)" using expiry_usable[OF assms(1)] by simp
  show ?thesis
  proof (cases s)
    case (MokaStore c)
    let ?c = "moka_insert now k (with_expiry (expiry_from_ttl now ttl) val) c"
    have s': "cache_set now k val ttl (MokaStore c) = (Inr (), MokaStore ?c)"
      by (simp add: cache_set_def on_store_def moka_set_def)
    have other: "entry_get t j ?c = entry_get t j c" if "j \<noteq> k" for j
      using that by (simp add: entry_get_def moka_insert_def)
    show ?thesis
      using moka_kept_until[OF assms(1,3), of k val c] e secs other
      by (simp add: s'_def s' MokaStore cache_get_def cache_take_def on_store_def moka_get_def moka_take_def
          stored_with_expiry) (simp add: entry_get_def entry_remove_def)
  next
    case (RedisStore c)
    let ?c = "redis_put k val (Some (deadline_ms (clock_ms now + as_secs ttl * 1000))) c"
    have s': "cache_set now k val ttl (RedisStore c) = (Inr (), RedisStore ?c)"
      using secs by (simp add: cache_set_def on_store_def redis_set_def)
    have get: "entry_get t k ?c = (if t < deadline_ms (clock_ms now + as_secs ttl * 1000) then Some val else None)"
      by (simp add: entry_get_def redis_put_def alive_at_def)
    have bounds: "deadline_ms (clock_ms now + as_secs ttl * 1000) \<le> now + ttl"
      "now + ttl < deadline_ms (clock_ms now + as_secs ttl * 1000) + 1000000"
      using secs(2) by (auto simp: deadline_ms_def clock_ms_def seconds_def)
    have other: "entry_get t j ?c = entry_get t j c" if "j \<noteq> k" for j
      using that by (simp add: entry_get_def redis_put_def)
    show ?thesis
      using get bounds other
      by (simp add: s'_def s' RedisStore cache_get_def cache_take_def on_store_def redis_get_def redis_take_def)
        (simp add: entry_get_def entry_remove_def)
  qed
qed

text \<open>The counter operations as one step, to compare the backends.\<close>

datatype 'k counter_op =
    AcquireSlot 'k int int
  | ReleaseSlot 'k
  | AdjustCounter 'k int
  | SetCounter 'k int int
  | SeedCounter 'k int int
  | ReadCounter 'k
  | CheckAndConsume "'k counter_check list"

datatype 'k counter_answer =
    Granted bool | Done | Amount int | Content "string option" | Checked "'k check_outcome"

definition answered :: "('a \<Rightarrow> 'b) \<Rightarrow> ('s, anyhow, 'a) oper \<Rightarrow> ('s, anyhow, 'b) oper" where
  "answered f m = bindM m (\<lambda>a. retM (f a))"

fun counter_step :: "time \<Rightarrow> 'k counter_op \<Rightarrow> ('k cache_store, anyhow, 'k counter_answer) oper" where
  "counter_step now (AcquireSlot k limit ttl) = answered Granted (cache_acquire_slot now k limit ttl)"
| "counter_step now (ReleaseSlot k) = answered (\<lambda>_. Done) (cache_release_slot now k)"
| "counter_step now (AdjustCounter k n) = answered Amount (cache_adjust_counter now k n)"
| "counter_step now (SetCounter k n ttl) = answered (\<lambda>_. Done) (cache_set now k (show_i64 n) ttl)"
| "counter_step now (SeedCounter k n ttl) = answered Granted (cache_set_if_absent now k (show_i64 n) ttl)"
| "counter_step now (ReadCounter k) = answered Content (cache_get now k)"
| "counter_step now (CheckAndConsume checks) = answered Checked (cache_check_and_consume now checks)"

text \<open>The same counters, none in its last second.\<close>

definition same_counters :: "time \<Rightarrow> 'k cache_store \<Rightarrow> 'k cache_store \<Rightarrow> bool" where
  "same_counters now s r \<longleftrightarrow>
     (\<forall>k. cache_level now k s = cache_level now k r \<and> cache_present now k s = cache_present now k r \<and>
          cache_sound now k s \<and> cache_sound now k r)"

text \<open>What the callers of the cache keep to: lifetimes of a second at least, counters in range.\<close>

fun proper_op :: "time \<Rightarrow> ('k \<Rightarrow> int) \<Rightarrow> ('k \<Rightarrow> bool) \<Rightarrow> 'k counter_op \<Rightarrow> bool" where
  "proper_op now lv there (AcquireSlot k limit ttl) \<longleftrightarrow> usable now ttl \<and> lv k < 2 ^ 52"
| "proper_op now lv there (ReleaseSlot k) \<longleftrightarrow> there k"
| "proper_op now lv there (AdjustCounter k n) \<longleftrightarrow> there k \<and> - (2 ^ 53) < n \<and> lv k + n < 2 ^ 53"
| "proper_op now lv there (SetCounter k n ttl) \<longleftrightarrow> usable now ttl \<and> 0 \<le> n \<and> n < 2 ^ 53"
| "proper_op now lv there (SeedCounter k n ttl) \<longleftrightarrow> usable now ttl \<and> 0 \<le> n \<and> n < 2 ^ 53"
| "proper_op now lv there (ReadCounter k) \<longleftrightarrow> True"
| "proper_op now lv there (CheckAndConsume checks) \<longleftrightarrow>
     distinct (map cc_key checks) \<and> list_all (small_check now lv) checks"

text \<open>
  At one instant the two backends answer the operations of the quotas alike: on the same counters, below
  \<open>2 ^ 53\<close>, a proper operation succeeds on both, gives the same answer and leaves the same counters. Their
  lifetimes may differ afterwards: \<open>check_and_consume\<close> renews the deadline in process and sets it once on Redis.
\<close>

theorem backends_agree:
  assumes same: "same_counters now s r"
    and proper: "proper_op now (\<lambda>k. cache_level now k s) (\<lambda>k. cache_present now k s) x"
  shows "\<exists>a s' r'. counter_step now x s = (Inr a, s') \<and> counter_step now x r = (Inr a, r') \<and>
    same_counters now s' r'"
proof -
  have lv: "cache_level now k r = cache_level now k s" "cache_present now k r = cache_present now k s"
    "cache_sound now k s" "cache_sound now k r" for k
    using same by (auto simp: same_counters_def)
  have level: "(\<lambda>j. cache_level now j r) = (\<lambda>j. cache_level now j s)" using lv by auto
  have both: "same_counters now s' r'"
    if "sets_level (cache_level now) (cache_sound now) (cache_present now) k v s s'"
      "sets_level (cache_level now) (cache_sound now) (cache_present now) k v r r'" for k v s' r'
    using that lv by (auto simp: sets_level_def same_counters_def)
  show ?thesis
  proof (cases x)
    case (AcquireSlot k limit ttl)
    then have p: "usable now ttl" "cache_level now k s < 2 ^ 52" using proper by auto
    show ?thesis
      using cs.acquire_law[OF p(1) lv(3) p(2), of limit] cs.acquire_law[OF p(1) lv(4)[of k], of limit] p(2) same both
      by (auto simp: AcquireSlot answered_def bindM_def retM_def lv(1,2) split: if_splits)
  next
    case (ReleaseSlot k)
    then have p: "cache_present now k s" using proper by simp
    show ?thesis
      using cs.release_law[OF p lv(3)] cs.release_law[of now k r] p lv(4) both
      by (auto simp: ReleaseSlot answered_def bindM_def retM_def lv(1,2))
  next
    case (AdjustCounter k n)
    then have p: "cache_present now k s" "- (2 ^ 53) < n" "cache_level now k s + n < 2 ^ 53" using proper by auto
    show ?thesis
      using cs.adjust_law[OF p(1) lv(3) p(3,2)] cs.adjust_law[of now k r n] p lv(4) both
      by (auto simp: AdjustCounter answered_def bindM_def retM_def lv(1,2))
  next
    case (SetCounter k n ttl)
    then have p: "usable now ttl" "0 \<le> n" "n < 2 ^ 53" using proper by auto
    show ?thesis
      using cs.store_law[OF p, of k s] cs.store_law[OF p, of k r] both
      by (auto simp: SetCounter answered_def bindM_def retM_def)
  next
    case (SeedCounter k n ttl)
    then have p: "usable now ttl" "0 \<le> n" "n < 2 ^ 53" using proper by auto
    show ?thesis
      using cs.seed_law[OF p, of k s] cs.seed_law[OF p, of k r] same both
      by (auto simp: SeedCounter answered_def bindM_def retM_def lv(2) split: if_splits)
  next
    case (ReadCounter k)
    show ?thesis
      using cs.read_law[OF lv(3)[of k]] cs.read_law[OF lv(4)[of k]] same
      by (simp add: ReadCounter answered_def bindM_def retM_def lv(1,2))
  next
    case (CheckAndConsume checks)
    then have p: "distinct (map cc_key checks)"
      "\<forall>x\<in>set checks. small_check now (\<lambda>j. cache_level now j s) x"
      using proper by (auto simp: list_all_iff)
    obtain s' where s': "cache_check_and_consume now checks s =
        (Inr (case find (over_limit (\<lambda>j. cache_level now j s)) checks of
                Some x \<Rightarrow> CheckDenied (cc_key x) | None \<Rightarrow> CheckAllowed), s')"
      "if find (over_limit (\<lambda>j. cache_level now j s)) checks = None
       then (\<forall>j. cache_level now j s' = consumed checks (\<lambda>j. cache_level now j s) j) \<and>
            (\<forall>j. cache_sound now j s \<longrightarrow> cache_sound now j s') \<and>
            (\<forall>j. cache_present now j s' \<longleftrightarrow> cache_present now j s \<or> j \<in> cc_key ` set checks)
       else s' = s"
      using cs.consume_law[OF p(1), of now s] p(2) lv(3) by blast
    obtain r' where r': "cache_check_and_consume now checks r =
        (Inr (case find (over_limit (\<lambda>j. cache_level now j s)) checks of
                Some x \<Rightarrow> CheckDenied (cc_key x) | None \<Rightarrow> CheckAllowed), r')"
      "if find (over_limit (\<lambda>j. cache_level now j s)) checks = None
       then (\<forall>j. cache_level now j r' = consumed checks (\<lambda>j. cache_level now j s) j) \<and>
            (\<forall>j. cache_sound now j r \<longrightarrow> cache_sound now j r') \<and>
            (\<forall>j. cache_present now j r' \<longleftrightarrow> cache_present now j r \<or> j \<in> cc_key ` set checks)
       else r' = r"
      using cs.consume_law[OF p(1), of now r, unfolded level] p(2) lv(4) by blast
    have "same_counters now s' r'"
      using s'(2) r'(2) same lv by (auto simp: same_counters_def split: if_splits)
    with s'(1) r'(1) show ?thesis by (simp add: CheckAndConsume answered_def bindM_def retM_def)
  qed
qed

section \<open>Instances\<close>

theorem stored_value_lives_witness:
  "fst (cache_set 0 (1::nat) ''a:b'' 60000000000 (MokaStore (\<lambda>_. None))) = Inr () \<and>
   cache_get 59999000000 1 (snd (cache_set 0 (1::nat) ''a:b'' 60000000000 (MokaStore (\<lambda>_. None)))) =
     (Inr (Some ''a:b''), snd (cache_set 0 1 ''a:b'' 60000000000 (MokaStore (\<lambda>_. None))))"
  using stored_value_lives[of 0 60000000000 59999000000 "1::nat" "''a:b''" "MokaStore (\<lambda>_. None)"]
  by (simp add: usable_def unix_timestamp_def as_secs_def)

theorem backends_agree_witness:
  "\<exists>a s' r'. counter_step 0 (AcquireSlot (1::nat) 2 60000000000) (MokaStore (\<lambda>_. None)) = (Inr a, s') \<and>
     counter_step 0 (AcquireSlot 1 2 60000000000) (RedisStore (\<lambda>_. None)) = (Inr a, r') \<and>
     same_counters 0 s' r'"
  by (rule backends_agree)
    (simp_all add: same_counters_def cache_reads read_counter_def read_counter_entry_def redis_level_def
      redis_number_def redis_integer_def lua_exact moka_present_def moka_sound_def redis_sound_def entry_get_def usable_def
      unix_timestamp_def as_secs_def)


text \<open>
  A window of ten seconds, consumed at 0 and at 6 seconds: at 12 seconds Redis has started a new one, the
  in-process cache still counts both.
\<close>

definition window_check :: "nat counter_check" where
  "window_check = \<lparr>cc_key = 1, cc_amount = 1, cc_max = 5, cc_ttl = Some 10000000000\<rparr>"

definition consumed_twice :: "nat cache_store \<Rightarrow> nat cache_store" where
  "consumed_twice s =
     snd (cache_check_and_consume 6000000000 [window_check] (snd (cache_check_and_consume 0 [window_check] s)))"

lemma window_slides_in_process:
  "fst (cache_get 12000000000 1 (consumed_twice (MokaStore (\<lambda>_. None)))) = Inr (Some ''2'') \<and>
   fst (cache_get 12000000000 1 (consumed_twice (RedisStore (\<lambda>_. None)))) = Inr None"
  by (rule conjI) code_simp+

end
