(* ===== verification/QuotaService.thy ===== *)
theory QuotaService
  imports AppErrors Quotas CacheContract
begin

text \<open>
  Quota enforcement (\<open>infra/quota/mod.rs\<close>): counters in the cache that are checked and consumed
  atomically, seeded from the durable counters of the database, and the slots of concurrent builds.
  The state is the database together with the cache; each call on the cache reads the clock. Keys of
  the cache and idempotency keys are kept as their parts: the text with \<open>{}\<close> for an identifier or a
  number, and these. Where the code logs an error and goes on,
  \<open>ignoreM\<close> drops it.
\<close>

section \<open>State\<close>

text \<open>
  \<open>CounterKey\<close> is \<open>quota:team:{team}:{dimension}\<close>, with the year and month for monthly dimensions. The key
  of the build slots is the one that the dimension \<open>concurrent_builds\<close> would have.
\<close>

datatype cache_key =
    CounterKey uuid string "(int \<times> nat) option"
  | SlotReleasedKey uuid
  | CancelFlagKey uuid

record service =
  sv_db :: world
  sv_cache :: "cache_key cache_store"

type_synonym ('e, 'a) svm = "(service, 'e, 'a) oper"

definition on_db :: "('e, 'a) dbm \<Rightarrow> ('e, 'a) svm" where
  "on_db m s = (case m (sv_db s) of (r, w) \<Rightarrow> (r, s\<lparr>sv_db := w\<rparr>))"

definition on_cache ::
  "(time \<Rightarrow> (cache_key cache_store, anyhow, 'a) oper) \<Rightarrow> (anyhow, 'a) svm" where
  "on_cache f s =
     (case now_utc (sv_db s) of
        (Inl e, w) \<Rightarrow> (Inl e, s\<lparr>sv_db := w\<rparr>)
      | (Inr now, w) \<Rightarrow> (case f now (sv_cache s) of (r, c) \<Rightarrow> (r, s\<lparr>sv_db := w, sv_cache := c\<rparr>)))"

definition ignoreM :: "('s, 'e, 'a) oper \<Rightarrow> ('s, 'f, unit) oper" where
  "ignoreM m s = (Inr (), snd (m s))"

section \<open>Keys and lifetimes\<close>

definition static_counter_ttl :: int where
  "static_counter_ttl = seconds (60 * 60 * 24 * 30)"

definition monthly_counter_ttl :: int where
  "monthly_counter_ttl = seconds (60 * 60 * 24 * 40)"

definition build_slot_ttl :: int where
  "build_slot_ttl = seconds (60 * 30)"

definition counter_ttl :: "quota_dimension \<Rightarrow> int" where
  "counter_ttl d = (case dimension_period d of PeriodMonthly \<Rightarrow> monthly_counter_ttl | PeriodNone \<Rightarrow> static_counter_ttl)"

definition counter_key :: "calendar \<Rightarrow> time \<Rightarrow> uuid \<Rightarrow> quota_dimension \<Rightarrow> cache_key" where
  "counter_key cal now team d =
     CounterKey team (dimension_str d)
       (case dimension_period d of PeriodMonthly \<Rightarrow> Some (cal_month cal now) | PeriodNone \<Rightarrow> None)"

definition counter_keyM :: "calendar \<Rightarrow> uuid \<Rightarrow> quota_dimension \<Rightarrow> ('e, cache_key) svm" where
  "counter_keyM cal team d =
     (case dimension_period d of
        PeriodMonthly \<Rightarrow> on_db (bindM now_utc (\<lambda>now. retM (counter_key cal now team d)))
      | PeriodNone \<Rightarrow> retM (counter_key cal 0 team d))"

definition slot_key :: "uuid \<Rightarrow> cache_key" where
  "slot_key team = CounterKey team ''concurrent_builds'' None"

definition slot_release_key :: "uuid \<Rightarrow> cache_key" where
  "slot_release_key did = SlotReleasedKey did"

definition release_idempotency_key :: "string \<Rightarrow> uuid \<Rightarrow> quota_dimension \<Rightarrow> idem_key" where
  "release_idempotency_key rt rid d = IdemKey (''release:'' @ rt @ '':{}:'' @ dimension_str d) rid None"

definition release_idempotency_key_for_generation ::
  "string \<Rightarrow> uuid \<Rightarrow> quota_dimension \<Rightarrow> time \<Rightarrow> idem_key" where
  "release_idempotency_key_for_generation rt rid d generation =
     IdemKey (''release:'' @ rt @ '':{}:'' @ dimension_str d @ '':generation:{}'') rid (Some generation)"

section \<open>Reservations\<close>

record quota_charge =
  qc_dimension :: quota_dimension
  qc_amount :: int

record quota_reservation =
  rv_team_id :: uuid
  rv_entries :: "(quota_dimension \<times> int \<times> cache_key) list"

definition quota_exceeded_error :: "string \<Rightarrow> quota_dimension \<Rightarrow> app_error" where
  "quota_exceeded_error op d = QuotaExceeded op (''quota exceeded: '' @ dimension_str d @ '' limit reached'')"

definition seed_counter :: "calendar \<Rightarrow> uuid \<Rightarrow> quota_dimension \<Rightarrow> cache_key \<Rightarrow> (anyhow, unit) svm" where
  "seed_counter cal team d key =
     (if \<not> is_counted d then retM ()
      else
        bindM (on_cache (\<lambda>now. cache_get now key)) (\<lambda>found.
        if found \<noteq> None then retM ()
        else
          bindM (on_db (effective_usage cal team d)) (\<lambda>usage.
          bindM (on_cache (\<lambda>now. cache_set_if_absent now key (show_i64 usage) (counter_ttl d))) (\<lambda>_.
          retM ()))))"

definition record_denial ::
  "calendar \<Rightarrow> string \<Rightarrow> uuid \<Rightarrow> uuid option \<Rightarrow> quota_dimension \<Rightarrow> resolved_quota \<Rightarrow> ('e, unit) svm" where
  "record_denial cal op team actor d resolved =
     bindM (ignoreM (on_db (record_event cal
       \<lparr>re_team_id = team, re_dimension = d, re_kind = QDeny, re_delta_value = 0,
        re_resource_type = None, re_resource_id = None,
        re_metadata = JObj [(''op'', JStr op), (''plan'', JStr (q_code (rq_plan resolved)))]\<rparr>))) (\<lambda>_.
     ignoreM (on_db (create_audit_event
       \<lparr>ap_actor_user_id = actor, ap_actor_node_id = None, ap_team_id = Some team,
        ap_action = ''quota.denied'', ap_target_type = ''team'', ap_target_id = Some team,
        ap_result = AuditDenied, ap_reason = Some (dimension_str d @ '' limit reached''),
        ap_metadata = JObj [(''op'', JStr op), (''dimension'', JStr (dimension_str d)),
          (''plan'', JStr (q_code (rq_plan resolved)))]\<rparr>)))"

text \<open>The loop over the charges, then one atomic check.\<close>

fun prepare_charges ::
  "calendar \<Rightarrow> string \<Rightarrow> uuid \<Rightarrow> resolved_quota \<Rightarrow> quota_charge list \<Rightarrow>
   (app_error, (cache_key counter_check \<times> (quota_dimension \<times> int \<times> cache_key)) list) svm" where
  "prepare_charges cal op team resolved [] = retM []"
| "prepare_charges cal op team resolved (c # cs) =
     bindM (counter_keyM cal team (qc_dimension c)) (\<lambda>key.
     bindM (mapErr (Infrastructure op) (seed_counter cal team (qc_dimension c) key)) (\<lambda>_.
     bindM (prepare_charges cal op team resolved cs) (\<lambda>rest.
     retM ((\<lparr>cc_key = key, cc_amount = qc_amount c,
             cc_max = (case limit_for resolved (qc_dimension c) of Some m \<Rightarrow> m | None \<Rightarrow> -1),
             cc_ttl = Some (counter_ttl (qc_dimension c))\<rparr>,
            (qc_dimension c, qc_amount c, key)) # rest))))"

definition denied_dimension :: "(quota_dimension \<times> int \<times> cache_key) list \<Rightarrow> cache_key \<Rightarrow> quota_dimension" where
  "denied_dimension entries key =
     (case find (\<lambda>(_, _, k). k = key) entries of Some (d, _) \<Rightarrow> d | None \<Rightarrow> Projects)"

definition reserve ::
  "calendar \<Rightarrow> string \<Rightarrow> team \<Rightarrow> uuid option \<Rightarrow> quota_charge list \<Rightarrow> (app_error, quota_reservation) svm" where
  "reserve cal op t actor charges =
     bindM (mapErr (Infrastructure op) (on_db (resolve_team_quota t))) (\<lambda>resolved.
     bindM (prepare_charges cal op (t_id t) resolved charges) (\<lambda>prepared.
     bindM (mapErr (Infrastructure op)
       (on_cache (\<lambda>now. cache_check_and_consume now (map fst prepared)))) (\<lambda>outcome.
     case outcome of
       CheckAllowed \<Rightarrow> retM \<lparr>rv_team_id = t_id t, rv_entries = map snd prepared\<rparr>
     | CheckDenied key \<Rightarrow>
         (let denied = denied_dimension (map snd prepared) key in
          bindM (record_denial cal op (t_id t) actor denied resolved) (\<lambda>_.
          failM (quota_exceeded_error op denied))))))"

definition commit_reservation ::
  "calendar \<Rightarrow> string \<Rightarrow> quota_reservation \<Rightarrow> string \<Rightarrow> uuid option \<Rightarrow> (app_error, unit) svm" where
  "commit_reservation cal op r rt rid =
     forM (rv_entries r) (\<lambda>(d, amount, _).
       mapErr (Infrastructure op) (on_db (record_event cal
         \<lparr>re_team_id = rv_team_id r, re_dimension = d, re_kind = QConsume, re_delta_value = amount,
          re_resource_type = Some rt, re_resource_id = rid, re_metadata = JObj []\<rparr>)))"

definition rollback_reservation :: "quota_reservation \<Rightarrow> ('e, unit) svm" where
  "rollback_reservation r =
     forM (rv_entries r) (\<lambda>(_, amount, key). ignoreM (on_cache (\<lambda>now. cache_adjust_counter now key (- amount))))"

definition charge_unchecked ::
  "calendar \<Rightarrow> string \<Rightarrow> uuid \<Rightarrow> quota_charge list \<Rightarrow> string \<Rightarrow> uuid option \<Rightarrow> (app_error, unit) svm" where
  "charge_unchecked cal op team charges rt rid =
     forM charges (\<lambda>c.
       bindM (counter_keyM cal team (qc_dimension c)) (\<lambda>key.
       bindM (mapErr (Infrastructure op) (on_cache (\<lambda>now. cache_adjust_counter now key (qc_amount c)))) (\<lambda>_.
       mapErr (Infrastructure op) (on_db (record_event cal
         \<lparr>re_team_id = team, re_dimension = qc_dimension c, re_kind = QConsume,
          re_delta_value = qc_amount c, re_resource_type = Some rt, re_resource_id = rid,
          re_metadata = JObj [(''unchecked'', JBool True)]\<rparr>)))))"

definition release_usage ::
  "calendar \<Rightarrow> string \<Rightarrow> uuid \<Rightarrow> quota_charge list \<Rightarrow> string \<Rightarrow> uuid option \<Rightarrow> (app_error, unit) svm" where
  "release_usage cal op team charges rt rid =
     forM charges (\<lambda>c.
       bindM (counter_keyM cal team (qc_dimension c)) (\<lambda>key.
       bindM (mapErr (Infrastructure op) (on_cache (\<lambda>now. cache_adjust_counter now key (- qc_amount c)))) (\<lambda>_.
       mapErr (Infrastructure op) (on_db (record_event cal
         \<lparr>re_team_id = team, re_dimension = qc_dimension c, re_kind = QRelease,
          re_delta_value = - qc_amount c, re_resource_type = Some rt, re_resource_id = rid,
          re_metadata = JObj []\<rparr>)))))"

text \<open>The key of the cache is computed after the usage is read.\<close>

definition release_once_with_key ::
  "calendar \<Rightarrow> string \<Rightarrow> uuid \<Rightarrow> quota_charge list \<Rightarrow> string \<Rightarrow> uuid \<Rightarrow> (quota_dimension \<Rightarrow> idem_key) \<Rightarrow>
   (app_error, unit) svm" where
  "release_once_with_key cal op team charges rt rid key_for =
     forM charges (\<lambda>c.
       bindM (mapErr (Infrastructure op) (on_db (record_event_once cal (key_for (qc_dimension c))
         \<lparr>re_team_id = team, re_dimension = qc_dimension c, re_kind = QRelease,
          re_delta_value = - qc_amount c, re_resource_type = Some rt, re_resource_id = Some rid,
          re_metadata = JObj [(''idempotent'', JBool True)]\<rparr>))) (\<lambda>_.
       bindM (mapErr (Infrastructure op) (on_db (effective_usage cal team (qc_dimension c)))) (\<lambda>usage.
       bindM (counter_keyM cal team (qc_dimension c)) (\<lambda>key.
       mapErr (Infrastructure op)
         (on_cache (\<lambda>now. cache_set now key (show_i64 usage) (counter_ttl (qc_dimension c))))))))"

definition release_usage_once ::
  "calendar \<Rightarrow> string \<Rightarrow> uuid \<Rightarrow> quota_charge list \<Rightarrow> string \<Rightarrow> uuid \<Rightarrow> (app_error, unit) svm" where
  "release_usage_once cal op team charges rt rid =
     release_once_with_key cal op team charges rt rid (release_idempotency_key rt rid)"

definition release_usage_once_for_generation ::
  "calendar \<Rightarrow> string \<Rightarrow> uuid \<Rightarrow> quota_charge list \<Rightarrow> string \<Rightarrow> uuid \<Rightarrow> time \<Rightarrow> (app_error, unit) svm" where
  "release_usage_once_for_generation cal op team charges rt rid generation =
     release_once_with_key cal op team charges rt rid
       (\<lambda>d. release_idempotency_key_for_generation rt rid d generation)"

definition scalar_limit :: "string \<Rightarrow> team \<Rightarrow> quota_dimension \<Rightarrow> (app_error, int option) svm" where
  "scalar_limit op t d =
     bindM (mapErr (Infrastructure op) (on_db (resolve_team_quota t))) (\<lambda>resolved.
     retM (limit_for resolved d))"

section \<open>Build slots\<close>

definition acquire_build_slot :: "calendar \<Rightarrow> string \<Rightarrow> team \<Rightarrow> (app_error, bool) svm" where
  "acquire_build_slot cal op t =
     bindM (mapErr (Infrastructure op) (on_db (resolve_team_quota t))) (\<lambda>resolved.
     (let limit = (case limit_for resolved ConcurrentBuilds of Some m \<Rightarrow> m | None \<Rightarrow> -1) in
     bindM (mapErr (Infrastructure op)
       (on_cache (\<lambda>now. cache_acquire_slot now (slot_key (t_id t)) limit build_slot_ttl))) (\<lambda>acquired.
     bindM (if acquired then retM () else record_denial cal op (t_id t) None ConcurrentBuilds resolved) (\<lambda>_.
     retM acquired))))"

definition release_build_slot :: "uuid \<Rightarrow> ('e, unit) svm" where
  "release_build_slot team = ignoreM (on_cache (\<lambda>now. cache_release_slot now (slot_key team)))"

definition slot_release_once :: "uuid \<Rightarrow> uuid \<Rightarrow> (anyhow, bool) svm" where
  "slot_release_once team did =
     bindM (on_cache (\<lambda>now. cache_set_if_absent now (slot_release_key did) ''1'' static_counter_ttl)) (\<lambda>owns.
     bindM (if owns then on_cache (\<lambda>now. cache_release_slot now (slot_key team)) else retM ()) (\<lambda>_.
     retM owns))"

definition release_build_slot_once :: "uuid \<Rightarrow> uuid \<Rightarrow> ('e, unit) svm" where
  "release_build_slot_once team did = ignoreM (slot_release_once team did)"

definition refresh_build_slot :: "uuid \<Rightarrow> ('e, unit) svm" where
  "refresh_build_slot team =
     ignoreM (bindM (on_cache (\<lambda>now. cache_get now (slot_key team))) (\<lambda>found.
       case found of
         Some v \<Rightarrow> on_cache (\<lambda>now. cache_update_if_present now (slot_key team) v build_slot_ttl)
       | None \<Rightarrow> retM False))"

end
