(* ===== verification/SourceCredentials.thy ===== *)
theory SourceCredentials
  imports Quotas GitSource
begin

text \<open>
  Source credentials (\<open>domain/source_credentials.rs\<close> with \<open>encrypt_secret\<close> and \<open>decrypt_secret\<close> of
  \<open>src/crates/crypto\<close>, the key ring of \<open>infra/config/secrets.rs\<close> and \<open>src/crates/token\<close>): secrets sealed
  per version, leases that a Node redeems once. The libraries are parameters (\<open>crypto_lib\<close>): base64,
  AES-256-GCM, SHA-256 and the bytes \<open>serde_json\<close> writes for a payload; so are the random bytes of
  nonces and tokens. The associated data is kept as its parts; the second form is that of
  \<open>domain/authentication.rs\<close>.
\<close>

section \<open>Libraries\<close>

datatype assoc_data =
    AssocData uuid uuid int source_credential_kind ustr int
  | MfaAssocData uuid uuid

datatype git_credential =
    GitHttpsCredential ustr ustr
  | GitSshCredential ustr ustr "ustr option"

record crypto_lib =
  b64_encode :: "nat list \<Rightarrow> string"
  b64_decode :: "string \<Rightarrow> nat list option"
  aead_seal :: "nat list \<Rightarrow> nat list \<Rightarrow> assoc_data \<Rightarrow> nat list \<Rightarrow> nat list option"
  aead_open :: "nat list \<Rightarrow> nat list \<Rightarrow> assoc_data \<Rightarrow> nat list \<Rightarrow> nat list option"
  sha256_hex :: "string \<Rightarrow> string"
  payload_to_vec :: "git_credential \<Rightarrow> nat list option"
  payload_from_slice :: "nat list \<Rightarrow> git_credential option"

definition generate_token :: "crypto_lib \<Rightarrow> nat list \<Rightarrow> string" where
  "generate_token lib random = b64_encode lib random"

definition hash_token :: "crypto_lib \<Rightarrow> string \<Rightarrow> string" where
  "hash_token lib token = sha256_hex lib token"

section \<open>Sealed secrets\<close>

record aead_envelope =
  en_version :: nat
  en_algorithm :: string
  en_key_id :: string
  en_nonce :: string
  en_ciphertext :: string

datatype crypto_error = InvalidEncryptionKey | EncryptionFailed | InvalidEnvelope

definition aead_version :: nat where
  "aead_version = 1"

definition aead_algorithm :: string where
  "aead_algorithm = ''AES-256-GCM''"

text \<open>\<open>UnboundKey::new\<close> accepts exactly the keys of 32 bytes.\<close>

definition encryption_key :: "nat list \<Rightarrow> crypto_error + nat list" where
  "encryption_key key = (if length key = 32 then Inr key else Inl InvalidEncryptionKey)"

definition encrypt_secret ::
  "crypto_lib \<Rightarrow> nat list \<Rightarrow> string \<Rightarrow> nat list \<Rightarrow> nat list \<Rightarrow> assoc_data \<Rightarrow> crypto_error + aead_envelope" where
  "encrypt_secret lib nonce key_id key plaintext ad =
     (if key_id = [] then Inl InvalidEncryptionKey
      else
        (case encryption_key key of
           Inl e \<Rightarrow> Inl e
         | Inr k \<Rightarrow>
             (case aead_seal lib k nonce ad plaintext of
                None \<Rightarrow> Inl EncryptionFailed
              | Some ciphertext \<Rightarrow>
                  Inr \<lparr>en_version = aead_version, en_algorithm = aead_algorithm, en_key_id = key_id,
                       en_nonce = b64_encode lib nonce, en_ciphertext = b64_encode lib ciphertext\<rparr>)))"

definition decrypt_secret ::
  "crypto_lib \<Rightarrow> aead_envelope \<Rightarrow> nat list \<Rightarrow> assoc_data \<Rightarrow> crypto_error + nat list" where
  "decrypt_secret lib envelope key ad =
     (if en_version envelope \<noteq> aead_version \<or> en_algorithm envelope \<noteq> aead_algorithm \<or>
         en_key_id envelope = [] then Inl InvalidEnvelope
      else
        (case encryption_key key of
           Inl e \<Rightarrow> Inl e
         | Inr k \<Rightarrow>
             (case b64_decode lib (en_nonce envelope) of
                None \<Rightarrow> Inl InvalidEnvelope
              | Some nonce \<Rightarrow>
                  if length nonce \<noteq> 12 then Inl InvalidEnvelope
                  else
                    (case b64_decode lib (en_ciphertext envelope) of
                       None \<Rightarrow> Inl InvalidEnvelope
                     | Some ciphertext \<Rightarrow>
                         (case aead_open lib k nonce ad ciphertext of
                            None \<Rightarrow> Inl InvalidEnvelope | Some plaintext \<Rightarrow> Inr plaintext)))))"

text \<open>\<open>serde_json::to_value\<close> and \<open>from_value\<close> of an envelope.\<close>

definition envelope_json :: "aead_envelope \<Rightarrow> json" where
  "envelope_json e =
     JObj [(''version'', JNum (int (en_version e))), (''algorithm'', JStr (en_algorithm e)),
           (''key_id'', JStr (en_key_id e)), (''nonce'', JStr (en_nonce e)),
           (''ciphertext'', JStr (en_ciphertext e))]"

definition json_str :: "json option \<Rightarrow> string option" where
  "json_str v = (case v of Some (JStr s) \<Rightarrow> Some s | _ \<Rightarrow> None)"

definition json_u8 :: "json option \<Rightarrow> nat option" where
  "json_u8 v = (case v of Some (JNum n) \<Rightarrow> if 0 \<le> n \<and> n < 256 then Some (nat n) else None | _ \<Rightarrow> None)"

definition envelope_of_json :: "json \<Rightarrow> aead_envelope option" where
  "envelope_of_json v =
     (case (json_u8 (json_get ''version'' v), json_str (json_get ''algorithm'' v), json_str (json_get ''key_id'' v),
            json_str (json_get ''nonce'' v), json_str (json_get ''ciphertext'' v)) of
        (Some version, Some algorithm, Some key_id, Some nonce, Some ciphertext) \<Rightarrow>
          Some \<lparr>en_version = version, en_algorithm = algorithm, en_key_id = key_id, en_nonce = nonce,
                en_ciphertext = ciphertext\<rparr>
      | _ \<Rightarrow> None)"

section \<open>The key ring\<close>

record keyring =
  kr_active_key_id :: string
  kr_keys :: "(string \<times> string) list"

definition keyring_key :: "crypto_lib \<Rightarrow> keyring \<Rightarrow> string \<Rightarrow> nat list option" where
  "keyring_key lib ring key_id =
     (case map_of (kr_keys ring) key_id of
        None \<Rightarrow> None
      | Some encoded \<Rightarrow>
          (case b64_decode lib encoded of
             None \<Rightarrow> None | Some key \<Rightarrow> if length key = 32 then Some key else None))"

definition active_key :: "crypto_lib \<Rightarrow> keyring \<Rightarrow> (string \<times> nat list) option" where
  "active_key lib ring =
     (if kr_active_key_id ring = [] then None
      else map_option (\<lambda>key. (kr_active_key_id ring, key)) (keyring_key lib ring (kr_active_key_id ring)))"

section \<open>Payloads\<close>

datatype credential_error =
    ScNotFound | ScRevoked | EndpointMismatch | InvalidPayload | EncryptionUnavailable | InvalidLease
  | ScDatabase dberr | ScOther anyhow

fun payload_kind :: "git_credential \<Rightarrow> source_credential_kind" where
  "payload_kind (GitHttpsCredential _ _) = CredHttps"
| "payload_kind (GitSshCredential _ _ _) = CredSsh"

fun payload_username :: "git_credential \<Rightarrow> ustr" where
  "payload_username (GitHttpsCredential u _) = u"
| "payload_username (GitSshCredential u _ _) = u"

fun validate_payload :: "git_credential \<Rightarrow> credential_error + unit" where
  "validate_payload (GitHttpsCredential username secret) =
     (if trim_by is_ws username = [] \<or> 0 \<in> set username \<or> secret = [] \<or> 0 \<in> set secret
      then Inl InvalidPayload else Inr ())"
| "validate_payload (GitSshCredential username private_key passphrase) =
     (if trim_by is_ws username = [] \<or> 0 \<in> set username \<or> 0 \<in> set private_key \<or>
         (case passphrase of Some v \<Rightarrow> 0 \<in> set v | None \<Rightarrow> False) \<or>
         \<not> starts_with (pts ''-----BEGIN '') (trim_by is_ws private_key) \<or>
         \<not> ends_with (pts ''PRIVATE KEY-----'') (trim_by is_ws private_key)
      then Inl InvalidPayload else Inr ())"

fun endpoint_kind :: "git_transport \<Rightarrow> credential_error + source_credential_kind" where
  "endpoint_kind GitHttps = Inr CredHttps"
| "endpoint_kind GitSsh = Inr CredSsh"
| "endpoint_kind GitHttp = Inl EndpointMismatch"
| "endpoint_kind GitGit = Inl EndpointMismatch"

record encryption_scope =
  es_credential_id :: uuid
  es_team_id :: uuid
  es_version :: int
  es_kind :: source_credential_kind
  es_host :: ustr
  es_port :: int

definition associated_data :: "encryption_scope \<Rightarrow> assoc_data" where
  "associated_data s =
     AssocData (es_team_id s) (es_credential_id s) (es_version s) (es_kind s) (es_host s) (es_port s)"

definition encrypt_payload ::
  "crypto_lib \<Rightarrow> nat list \<Rightarrow> keyring \<Rightarrow> encryption_scope \<Rightarrow> git_credential \<Rightarrow> credential_error + (string \<times> json)" where
  "encrypt_payload lib nonce ring scope payload =
     (case validate_payload payload of
        Inl e \<Rightarrow> Inl e
      | Inr _ \<Rightarrow>
          if payload_kind payload \<noteq> es_kind scope then Inl EndpointMismatch
          else
            (case active_key lib ring of
               None \<Rightarrow> Inl EncryptionUnavailable
             | Some (key_id, key) \<Rightarrow>
                 (case payload_to_vec lib payload of
                    None \<Rightarrow> Inl InvalidPayload
                  | Some plaintext \<Rightarrow>
                      (case encrypt_secret lib nonce key_id key plaintext (associated_data scope) of
                         Inl _ \<Rightarrow> Inl EncryptionUnavailable
                       | Inr envelope \<Rightarrow> Inr (key_id, envelope_json envelope)))))"

section \<open>Tables\<close>

definition put_credentials :: "source_credential list \<Rightarrow> world \<Rightarrow> world" where
  "put_credentials rows w = w\<lparr>source_credentials := rows\<rparr>"

definition put_versions :: "source_credential_version list \<Rightarrow> world \<Rightarrow> world" where
  "put_versions rows w = w\<lparr>credential_versions := rows\<rparr>"

definition put_credential_leases :: "source_credential_lease list \<Rightarrow> world \<Rightarrow> world" where
  "put_credential_leases rows w = w\<lparr>credential_leases := rows\<rparr>"

definition put_bindings :: "project_source_credential list \<Rightarrow> world \<Rightarrow> world" where
  "put_bindings rows w = w\<lparr>project_credentials := rows\<rparr>"

definition insert_credential :: "source_credential \<Rightarrow> (credential_error, source_credential) dbm" where
  "insert_credential r = mapErr ScDatabase (exec_insert source_credentials_con source_credentials put_credentials r)"

definition update_credential ::
  "uuid \<Rightarrow> (source_credential \<Rightarrow> source_credential) \<Rightarrow> (credential_error, source_credential) dbm" where
  "update_credential i f =
     mapErr ScDatabase (exec_update source_credentials_con sc_id source_credentials put_credentials i f)"

definition insert_version :: "source_credential_version \<Rightarrow> (credential_error, source_credential_version) dbm" where
  "insert_version r = mapErr ScDatabase (exec_insert credential_versions_con credential_versions put_versions r)"

definition update_versions_where ::
  "(source_credential_version \<Rightarrow> bool) \<Rightarrow> (source_credential_version \<Rightarrow> source_credential_version) \<Rightarrow>
   (credential_error, nat) dbm" where
  "update_versions_where p f =
     mapErr ScDatabase (exec_update_many credential_versions_con credential_versions put_versions p f)"

definition insert_credential_lease ::
  "source_credential_lease \<Rightarrow> (credential_error, source_credential_lease) dbm" where
  "insert_credential_lease r =
     mapErr ScDatabase (exec_insert credential_leases_con credential_leases put_credential_leases r)"

definition update_credential_lease ::
  "uuid \<Rightarrow> (source_credential_lease \<Rightarrow> source_credential_lease) \<Rightarrow>
   (credential_error, source_credential_lease) dbm" where
  "update_credential_lease i f =
     mapErr ScDatabase (exec_update credential_leases_con cl_id credential_leases put_credential_leases i f)"

text \<open>A transaction of these functions: an early return drops it.\<close>

definition credential_tx :: "(credential_error, 'a) dbm \<Rightarrow> (credential_error, 'a) dbm" where
  "credential_tx m = db_transaction (bindM m (\<lambda>a. retM (True, a)))"

section \<open>Credentials of a team\<close>

record create_credential_params =
  cn_team_id :: uuid
  cn_name :: string
  cn_endpoint :: repository_endpoint
  cn_secret :: git_credential
  cn_created_by :: uuid

definition scope_of :: "source_credential \<Rightarrow> int \<Rightarrow> encryption_scope" where
  "scope_of c version =
     \<lparr>es_credential_id = sc_id c, es_team_id = sc_team_id c, es_version = version, es_kind = sc_kind c,
      es_host = sc_host c, es_port = sc_port c\<rparr>"

definition create_credential ::
  "crypto_lib \<Rightarrow> nat list \<Rightarrow> keyring \<Rightarrow> create_credential_params \<Rightarrow> (credential_error, source_credential) dbm" where
  "create_credential lib nonce ring params =
     bindM (liftR (endpoint_kind (ep_transport (cn_endpoint params)))) (\<lambda>kind.
     (let payload = cn_secret params in
     bindM now_v7 (\<lambda>i.
     bindM now_v7 (\<lambda>version_id.
     bindM now_utc (\<lambda>now.
     (let port = int (ep_port (cn_endpoint params)) in
     bindM (liftR (encrypt_payload lib nonce ring
       \<lparr>es_credential_id = i, es_team_id = cn_team_id params, es_version = 1, es_kind = kind,
        es_host = ep_host (cn_endpoint params), es_port = port\<rparr> payload)) (\<lambda>(key_id, sealed).
     credential_tx (
       bindM (insert_credential
         \<lparr>sc_id = i, sc_team_id = cn_team_id params, sc_name = cn_name params, sc_kind = kind,
          sc_host = ep_host (cn_endpoint params), sc_port = port,
          sc_username = Some (payload_username payload), sc_current_version_id = None,
          sc_revoked_at = None, sc_created_by_user_id = Some (cn_created_by params),
          sc_created_at = now, sc_updated_at = now\<rparr>) (\<lambda>_.
       bindM (insert_version
         \<lparr>cv_id = version_id, cv_credential_id = i, cv_version = 1, cv_key_id = key_id,
          cv_encrypted_payload = sealed, cv_revoked_at = None,
          cv_created_by_user_id = Some (cn_created_by params), cv_created_at = now\<rparr>) (\<lambda>_.
       bindM (getM (\<lambda>w. find_row sc_id i (source_credentials w))) (\<lambda>found.
       bindM (okOr ScNotFound found) (\<lambda>c.
       update_credential (sc_id c) (\<lambda>r. r\<lparr>sc_current_version_id := Some version_id\<rparr>)))))))))))))"

definition get_for_team :: "uuid \<Rightarrow> uuid \<Rightarrow> (credential_error, source_credential) dbm" where
  "get_for_team team cid =
     bindM (getM (\<lambda>w. find (\<lambda>c. sc_id c = cid \<and> sc_team_id c = team) (source_credentials w))) (\<lambda>found.
     okOr ScNotFound found)"

definition newest_version :: "world \<Rightarrow> uuid \<Rightarrow> source_credential_version option" where
  "newest_version w cid =
     find (\<lambda>_. True) (rev (sort_key cv_version (filter (\<lambda>v. cv_credential_id v = cid) (credential_versions w))))"

definition wrap_i32 :: "int \<Rightarrow> int" where
  "wrap_i32 x = (x + 2 ^ 31) mod 2 ^ 32 - 2 ^ 31"

definition rotate ::
  "crypto_lib \<Rightarrow> nat list \<Rightarrow> keyring \<Rightarrow> uuid \<Rightarrow> uuid \<Rightarrow> git_credential \<Rightarrow> uuid \<Rightarrow>
   (credential_error, source_credential) dbm" where
  "rotate lib nonce ring team cid payload actor =
     credential_tx (
       bindM (get_for_team team cid) (\<lambda>c.
       if sc_revoked_at c \<noteq> None then failM ScRevoked
       else
         bindM (getM (\<lambda>w. newest_version w (sc_id c))) (\<lambda>found.
         bindM (okOr ScNotFound found) (\<lambda>current.
         (let next_version = wrap_i32 (cv_version current + 1) in
         bindM now_v7 (\<lambda>version_id.
         bindM now_utc (\<lambda>now.
         bindM (liftR (encrypt_payload lib nonce ring (scope_of c next_version) payload)) (\<lambda>(key_id, sealed).
         bindM (insert_version
           \<lparr>cv_id = version_id, cv_credential_id = sc_id c, cv_version = next_version, cv_key_id = key_id,
            cv_encrypted_payload = sealed, cv_revoked_at = None, cv_created_by_user_id = Some actor,
            cv_created_at = now\<rparr>) (\<lambda>_.
         update_credential (sc_id c) (\<lambda>r. r\<lparr>sc_current_version_id := Some version_id,
           sc_username := Some (payload_username payload), sc_updated_at := now\<rparr>))))))))))"

definition revoke :: "uuid \<Rightarrow> uuid \<Rightarrow> (credential_error, source_credential) dbm" where
  "revoke team cid =
     credential_tx (
       bindM (get_for_team team cid) (\<lambda>c.
       bindM now_utc (\<lambda>now.
       bindM (update_versions_where (\<lambda>v. cv_credential_id v = sc_id c \<and> cv_revoked_at v = None)
         (\<lambda>v. v\<lparr>cv_revoked_at := Some now\<rparr>)) (\<lambda>_.
       update_credential (sc_id c) (\<lambda>r. r\<lparr>sc_revoked_at := Some now, sc_updated_at := now\<rparr>)))))"

section \<open>Binding to a project\<close>

fun kind_matches :: "source_credential_kind \<Rightarrow> git_transport \<Rightarrow> bool" where
  "kind_matches CredHttps GitHttps = True"
| "kind_matches CredSsh GitSsh = True"
| "kind_matches _ _ = False"

definition endpoint_matches :: "source_credential \<Rightarrow> repository_endpoint \<Rightarrow> bool" where
  "endpoint_matches c ep \<longleftrightarrow>
     kind_matches (sc_kind c) (ep_transport ep) \<and> eq_ignore_case (sc_host c) (ep_host ep) \<and>
     sc_port c = int (ep_port ep)"

definition matches_repository_url :: "net_lib \<Rightarrow> source_credential \<Rightarrow> string \<Rightarrow> bool" where
  "matches_repository_url net c url =
     (case parse_repository_url net (pts url) of Inr ep \<Rightarrow> endpoint_matches c ep | Inl _ \<Rightarrow> False)"

definition bind_project :: "net_lib \<Rightarrow> project \<Rightarrow> uuid \<Rightarrow> uuid \<Rightarrow> (credential_error, source_credential) dbm" where
  "bind_project net p cid actor =
     bindM (okOr EndpointMismatch (p_repository_url p)) (\<lambda>url.
     bindM (liftR (case parse_repository_url net (pts url) of
              Inl _ \<Rightarrow> Inl EndpointMismatch | Inr ep \<Rightarrow> Inr ep)) (\<lambda>ep.
     bindM (get_for_team (p_team_id p) cid) (\<lambda>c.
     if sc_revoked_at c \<noteq> None then failM ScRevoked
     else if \<not> endpoint_matches c ep then failM EndpointMismatch
     else
       bindM now_utc (\<lambda>now.
       bindM (getM (\<lambda>w. find_row pc_project_id (p_id p) (project_credentials w))) (\<lambda>existing.
       bindM (mapErr ScDatabase (case existing of
         Some b \<Rightarrow> exec_update project_credentials_con pc_project_id project_credentials put_bindings
           (pc_project_id b) (\<lambda>r. r\<lparr>pc_credential_id := sc_id c, pc_team_id := p_team_id p,
             pc_bound_by_user_id := Some actor, pc_updated_at := now\<rparr>)
       | None \<Rightarrow> exec_insert project_credentials_con project_credentials put_bindings
           \<lparr>pc_project_id = p_id p, pc_credential_id = sc_id c, pc_team_id = p_team_id p,
            pc_bound_by_user_id = Some actor, pc_created_at = now, pc_updated_at = now\<rparr>)) (\<lambda>_.
       retM c))))))"

definition unbind_project :: "uuid \<Rightarrow> (credential_error, unit) dbm" where
  "unbind_project pid =
     putM (\<lambda>w. put_bindings (filter (\<lambda>b. pc_project_id b \<noteq> pid) (project_credentials w)) w)"

definition bound_credential :: "world \<Rightarrow> uuid \<Rightarrow> source_credential option" where
  "bound_credential w pid =
     (case find_row pc_project_id pid (project_credentials w) of
        None \<Rightarrow> None
      | Some b \<Rightarrow> find_row sc_id (pc_credential_id b) (source_credentials w))"

definition current_version_for_project :: "net_lib \<Rightarrow> project \<Rightarrow> (credential_error, uuid option) dbm" where
  "current_version_for_project net p =
     bindM (getM (\<lambda>w. bound_credential w (p_id p))) (\<lambda>bound.
     (case bound of
        None \<Rightarrow> retM None
      | Some c \<Rightarrow>
          bindM (okOr EndpointMismatch (p_repository_url p)) (\<lambda>url.
          if \<not> matches_repository_url net c url then failM EndpointMismatch
          else if sc_revoked_at c \<noteq> None then failM ScRevoked
          else
            bindM (okOr ScNotFound (sc_current_version_id c)) (\<lambda>version_id.
            bindM (getM (\<lambda>w. find_row cv_id version_id (credential_versions w))) (\<lambda>found.
            bindM (okOr ScNotFound found) (\<lambda>version.
            if cv_revoked_at version \<noteq> None then failM ScRevoked
            else retM (Some (cv_id version))))))))"

section \<open>Leases\<close>

definition credential_lease_ttl :: int where
  "credential_lease_ttl = seconds (5 * 60)"

record redeemed_credential =
  rc_credential :: git_credential
  rc_host :: ustr
  rc_port :: nat

definition issue_lease ::
  "crypto_lib \<Rightarrow> nat list \<Rightarrow> uuid \<Rightarrow> uuid \<Rightarrow> uuid \<Rightarrow> (credential_error, string) dbm" where
  "issue_lease lib random node did version_id =
     (let token = generate_token lib random in
     bindM now_utc (\<lambda>now.
     bindM now_v7 (\<lambda>i.
     bindM (insert_credential_lease
       \<lparr>cl_id = i, cl_token_hash = hash_token lib token, cl_node_id = node, cl_deployment_id = did,
        cl_credential_version_id = version_id, cl_expires_at = now + credential_lease_ttl,
        cl_consumed_at = None, cl_created_at = now\<rparr>) (\<lambda>_.
     retM token))))"

definition lease_can_be_redeemed :: "source_credential_lease \<Rightarrow> uuid \<Rightarrow> uuid \<Rightarrow> time \<Rightarrow> bool" where
  "lease_can_be_redeemed l node did now \<longleftrightarrow>
     cl_node_id l = node \<and> cl_deployment_id l = did \<and> cl_consumed_at l = None \<and> now < cl_expires_at l"

definition credential_version_is_active :: "source_credential \<Rightarrow> source_credential_version \<Rightarrow> bool" where
  "credential_version_is_active c v \<longleftrightarrow> sc_revoked_at c = None \<and> cv_revoked_at v = None"

definition open_payload ::
  "crypto_lib \<Rightarrow> keyring \<Rightarrow> source_credential \<Rightarrow> source_credential_version \<Rightarrow> credential_error + git_credential" where
  "open_payload lib ring c v =
     (case keyring_key lib ring (cv_key_id v) of
        None \<Rightarrow> Inl EncryptionUnavailable
      | Some key \<Rightarrow>
          (case envelope_of_json (cv_encrypted_payload v) of
             None \<Rightarrow> Inl InvalidPayload
           | Some envelope \<Rightarrow>
               if en_key_id envelope \<noteq> cv_key_id v then Inl InvalidPayload
               else
                 (case decrypt_secret lib envelope key (associated_data (scope_of c (cv_version v))) of
                    Inl _ \<Rightarrow> Inl InvalidPayload
                  | Inr plaintext \<Rightarrow>
                      (case payload_from_slice lib plaintext of
                         None \<Rightarrow> Inl InvalidPayload
                       | Some payload \<Rightarrow>
                           (case validate_payload payload of Inl e \<Rightarrow> Inl e | Inr _ \<Rightarrow> Inr payload)))))"

definition redeem_lease ::
  "crypto_lib \<Rightarrow> keyring \<Rightarrow> uuid \<Rightarrow> uuid \<Rightarrow> string \<Rightarrow> (credential_error, redeemed_credential) dbm" where
  "redeem_lease lib ring node did token =
     bindM (credential_tx (
       bindM (getM (\<lambda>w. find (\<lambda>l. cl_token_hash l = hash_token lib token) (credential_leases w))) (\<lambda>found.
       bindM (okOr InvalidLease found) (\<lambda>lease.
       bindM now_utc (\<lambda>now.
       if \<not> lease_can_be_redeemed lease node did now then failM InvalidLease
       else
         bindM (getM (\<lambda>w. find_row cv_id (cl_credential_version_id lease) (credential_versions w))) (\<lambda>found.
         bindM (okOr InvalidLease found) (\<lambda>version.
         bindM (getM (\<lambda>w. find_row sc_id (cv_credential_id version) (source_credentials w))) (\<lambda>found.
         bindM (okOr InvalidLease found) (\<lambda>c.
         if \<not> credential_version_is_active c version then failM ScRevoked
         else
           bindM (liftR (open_payload lib ring c version)) (\<lambda>payload.
           bindM (update_credential_lease (cl_id lease) (\<lambda>r. r\<lparr>cl_consumed_at := Some now\<rparr>)) (\<lambda>_.
           retM (payload, c)))))))))))) (\<lambda>(payload, c).
     if sc_port c < 0 \<or> 65536 \<le> sc_port c then failM InvalidPayload
     else retM \<lparr>rc_credential = payload, rc_host = sc_host c, rc_port = nat (sc_port c)\<rparr>)"

text \<open>Two more laws of a table: the row a statement wrote is found again.\<close>

context stored_table
begin

lemma insert_found:
  "exec_insert con get put r s = (Inr q, t) \<Longrightarrow>
   q = r \<and> find_row key (key r) (get t) = Some r \<and> t = put (get s @ [r]) s"
  using row_found by (auto simp: insert_Inr get_put)

lemma update_found:
  "exec_update con key get put k f s = (Inr q, t) \<Longrightarrow> (\<And>r. key (f r) = key r) \<Longrightarrow>
   find_row key k (get t) = Some q \<and> con (get t) = None \<and>
   (\<exists>r. find_row key k (get s) = Some r \<and> q = f r) \<and> t = put (update_where (\<lambda>x. key x = k) f (get s)) s"
  by (auto simp: update_Inr get_put intro!: found_after_update)

end

interpretation scr: stored_table sc_id source_credentials_con source_credentials put_credentials
  by unfold_locales (auto simp: source_credentials_con_def put_credentials_def split: if_splits)

interpretation scv: stored_table cv_id credential_versions_con credential_versions put_versions
  by unfold_locales (auto simp: credential_versions_con_def put_versions_def split: if_splits)

interpretation scl: stored_table cl_id credential_leases_con credential_leases put_credential_leases
  by unfold_locales (auto simp: credential_leases_con_def put_credential_leases_def split: if_splits)

interpretation spc: stored_table pc_project_id project_credentials_con project_credentials put_bindings
  by unfold_locales (auto simp: project_credentials_con_def put_bindings_def split: if_splits)

section \<open>Histories\<close>

datatype credential_op =
    OpCreate "nat list" keyring create_credential_params
  | OpRotate "nat list" keyring uuid uuid git_credential uuid
  | OpRevoke uuid uuid
  | OpBind project uuid uuid
  | OpUnbind uuid
  | OpIssue "nat list" uuid uuid uuid
  | OpRedeem keyring uuid uuid string

fun credential_exec :: "crypto_lib \<Rightarrow> net_lib \<Rightarrow> credential_op \<Rightarrow> world \<Rightarrow> world" where
  "credential_exec lib net (OpCreate nonce ring params) w = snd (create_credential lib nonce ring params w)"
| "credential_exec lib net (OpRotate nonce ring team cid secret actor) w =
     snd (rotate lib nonce ring team cid secret actor w)"
| "credential_exec lib net (OpRevoke team cid) w = snd (revoke team cid w)"
| "credential_exec lib net (OpBind p cid actor) w = snd (bind_project net p cid actor w)"
| "credential_exec lib net (OpUnbind pid) w = snd (unbind_project pid w)"
| "credential_exec lib net (OpIssue random node did v) w = snd (issue_lease lib random node did v w)"
| "credential_exec lib net (OpRedeem ring node did token) w = snd (redeem_lease lib ring node did token w)"

definition credential_run :: "crypto_lib \<Rightarrow> net_lib \<Rightarrow> credential_op list \<Rightarrow> world \<Rightarrow> world" where
  "credential_run lib net ops w = foldl (\<lambda>w x. credential_exec lib net x w) w ops"

text \<open>
  What no operation undoes: a stored row stays, a version keeps its seal, a credential its endpoint,
  a lease its binding, and what is revoked or consumed stays so.
\<close>

definition kept :: "('r \<Rightarrow> 'k) \<Rightarrow> ('r \<Rightarrow> 'r \<Rightarrow> bool) \<Rightarrow> 'r list \<Rightarrow> 'r list \<Rightarrow> bool" where
  "kept key keep rows rows' \<longleftrightarrow>
     (\<forall>k r. find_row key k rows = Some r \<longrightarrow> (\<exists>r'. find_row key k rows' = Some r' \<and> keep r r'))"

definition version_kept :: "source_credential_version \<Rightarrow> source_credential_version \<Rightarrow> bool" where
  "version_kept v v' \<longleftrightarrow>
     cv_id v' = cv_id v \<and> cv_credential_id v' = cv_credential_id v \<and> cv_version v' = cv_version v \<and>
     cv_key_id v' = cv_key_id v \<and> cv_encrypted_payload v' = cv_encrypted_payload v \<and>
     (cv_revoked_at v \<noteq> None \<longrightarrow> cv_revoked_at v' \<noteq> None)"

definition credential_kept :: "source_credential \<Rightarrow> source_credential \<Rightarrow> bool" where
  "credential_kept c c' \<longleftrightarrow>
     sc_id c' = sc_id c \<and> sc_team_id c' = sc_team_id c \<and> sc_kind c' = sc_kind c \<and>
     sc_host c' = sc_host c \<and> sc_port c' = sc_port c \<and>
     (sc_revoked_at c \<noteq> None \<longrightarrow> sc_revoked_at c' \<noteq> None)"

definition lease_kept :: "source_credential_lease \<Rightarrow> source_credential_lease \<Rightarrow> bool" where
  "lease_kept l l' \<longleftrightarrow>
     cl_id l' = cl_id l \<and> cl_token_hash l' = cl_token_hash l \<and> cl_node_id l' = cl_node_id l \<and>
     cl_deployment_id l' = cl_deployment_id l \<and> cl_credential_version_id l' = cl_credential_version_id l \<and>
     cl_expires_at l' = cl_expires_at l \<and> (cl_consumed_at l \<noteq> None \<longrightarrow> cl_consumed_at l' \<noteq> None)"

definition secrets_kept :: "world \<Rightarrow> world \<Rightarrow> bool" where
  "secrets_kept w v \<longleftrightarrow>
     kept cv_id version_kept (credential_versions w) (credential_versions v) \<and>
     kept sc_id credential_kept (source_credentials w) (source_credentials v) \<and>
     kept cl_token_hash lease_kept (credential_leases w) (credential_leases v)"

lemma kept_refl: "(\<And>r. keep r r) \<Longrightarrow> kept key keep rows rows"
  by (auto simp: kept_def)

lemma kept_trans:
  "(\<And>a b c. keep a b \<Longrightarrow> keep b c \<Longrightarrow> keep a c) \<Longrightarrow> kept key keep r s \<Longrightarrow> kept key keep s t \<Longrightarrow> kept key keep r t"
  unfolding kept_def by meson

lemma kept_append: "(\<And>r. keep r r) \<Longrightarrow> kept key keep rows (rows @ [r])"
  by (auto simp: kept_def find_row_insert)

lemma kept_update:
  assumes "\<And>r. key (f r) = key r" and "\<And>r. keep r r" and "\<And>r. p r \<Longrightarrow> keep r (f r)"
  shows "kept key keep rows (update_where p f rows)"
  using assms by (auto simp: kept_def find_row_update)

lemma row_kept_refl [simp]: "version_kept v v" "credential_kept c c" "lease_kept l l"
  by (simp_all add: version_kept_def credential_kept_def lease_kept_def)

interpretation sk: run_relation secrets_kept
proof
  show "secrets_kept s s" for s by (simp add: secrets_kept_def kept_refl)
  show "secrets_kept s u" if "secrets_kept s t" "secrets_kept t u" for s t u
    using that unfolding secrets_kept_def
    by (auto intro: kept_trans[of version_kept cv_id] kept_trans[of credential_kept sc_id]
        kept_trans[of lease_kept cl_token_hash] simp: version_kept_def credential_kept_def lease_kept_def)
qed

lemma only_secrets:
  "credential_versions v = credential_versions w \<Longrightarrow> source_credentials v = source_credentials w \<Longrightarrow>
   credential_leases v = credential_leases w \<Longrightarrow> secrets_kept w v"
  by (simp add: secrets_kept_def kept_refl)

lemma statement_runs:
  assumes "\<And>s. R s s"
  shows "(\<And>s. R s (put (get s @ [r]) s)) \<Longrightarrow> runs R (exec_insert con get put r)"
    and "(\<And>s. R s (put (update_where (\<lambda>x. key x = k) f (get s)) s)) \<Longrightarrow> runs R (exec_update con key get put k f)"
    and "(\<And>s. R s (put (update_where p f (get s)) s)) \<Longrightarrow> runs R (exec_update_many con get put p f)"
  using assms
  by (auto simp: runs_def exec_insert_def exec_update_def exec_update_many_def Let_def split: option.splits)

lemma secrets_put:
  "kept sc_id credential_kept (source_credentials s) rows \<Longrightarrow> secrets_kept s (put_credentials rows s)"
  "kept cv_id version_kept (credential_versions s) vs \<Longrightarrow> secrets_kept s (put_versions vs s)"
  "kept cl_token_hash lease_kept (credential_leases s) ls \<Longrightarrow> secrets_kept s (put_credential_leases ls s)"
  "secrets_kept s (put_bindings bs s)"
  by (simp_all add: secrets_kept_def put_credentials_def put_versions_def put_credential_leases_def
      put_bindings_def kept_refl)

lemma secret_updates:
  "(\<And>r. credential_kept r (f r)) \<Longrightarrow> runs secrets_kept (update_credential i f)"
  "(\<And>r. version_kept r (g r)) \<Longrightarrow> runs secrets_kept (update_versions_where p g)"
  "(\<And>r. lease_kept r (h r)) \<Longrightarrow> runs secrets_kept (update_credential_lease j h)"
proof -
  show "runs secrets_kept (update_credential i f)" if "\<And>r. credential_kept r (f r)"
    unfolding update_credential_def
    by (intro sk.mapErr_ok statement_runs(2) sk.same secrets_put(1) kept_update that row_kept_refl)
      (use that in \<open>simp add: credential_kept_def\<close>)
  show "runs secrets_kept (update_versions_where p g)" if "\<And>r. version_kept r (g r)"
    unfolding update_versions_where_def
    by (intro sk.mapErr_ok statement_runs(3) sk.same secrets_put(2) kept_update that row_kept_refl)
      (use that in \<open>simp add: version_kept_def\<close>)
  show "runs secrets_kept (update_credential_lease j h)" if "\<And>r. lease_kept r (h r)"
    unfolding update_credential_lease_def
    by (intro sk.mapErr_ok statement_runs(2) sk.same secrets_put(3) kept_update that row_kept_refl)
      (use that in \<open>simp add: lease_kept_def\<close>)
qed

lemma secret_inserts:
  "runs secrets_kept (insert_credential c)"
  "runs secrets_kept (insert_version v)"
  "runs secrets_kept (insert_credential_lease l)"
  unfolding insert_credential_def insert_version_def insert_credential_lease_def
  by (intro sk.mapErr_ok statement_runs(1) sk.same secrets_put kept_append row_kept_refl)+

lemma secret_statements:
  "runs secrets_kept (update_credential i (\<lambda>r. r\<lparr>sc_current_version_id := a\<rparr>))"
  "runs secrets_kept (update_credential i (\<lambda>r. r\<lparr>sc_current_version_id := a, sc_username := u, sc_updated_at := t\<rparr>))"
  "runs secrets_kept (update_credential i (\<lambda>r. r\<lparr>sc_revoked_at := Some t, sc_updated_at := t\<rparr>))"
  "runs secrets_kept (update_versions_where p (\<lambda>v. v\<lparr>cv_revoked_at := Some t\<rparr>))"
  "runs secrets_kept (update_credential_lease i (\<lambda>r. r\<lparr>cl_consumed_at := Some t\<rparr>))"
  by (intro secret_updates; simp add: credential_kept_def version_kept_def lease_kept_def)+

lemma plain_statements:
  "runs secrets_kept now_utc" "runs secrets_kept now_v7"
  "runs secrets_kept (unbind_project pid)"
  by (auto simp: runs_def now_utc_def now_v7_def unbind_project_def putM_def put_bindings_def intro!: only_secrets)

lemma binding_statements:
  "runs secrets_kept (exec_insert project_credentials_con project_credentials put_bindings b)"
  "runs secrets_kept (exec_update project_credentials_con pc_project_id project_credentials put_bindings k f)"
  by (intro statement_runs sk.same secrets_put(4))+

lemma db_transaction_kept:
  assumes "runs secrets_kept m"
  shows "runs secrets_kept (db_transaction m)"
proof (rule runsI)
  fix s r t assume run: "db_transaction m s = (r, t)"
  obtain x v where m: "m (begin_tx s) = (x, v)" by (cases "m (begin_tx s)")
  have undone: "secrets_kept s (rollback_to s v)" and start: "secrets_kept s (begin_tx s)"
    by (auto intro!: only_secrets simp: begin_tx_def rollback_to_def)
  have "secrets_kept s v" by (rule sk.join[OF start runsD[OF assms m]])
  with undone show "secrets_kept s t"
    using run m by (auto simp: db_transaction_def split: sum.splits prod.splits if_splits)
qed

lemmas secret_rules = sk.rules secret_inserts secret_statements plain_statements binding_statements db_transaction_kept

lemma credential_ops_kept:
  "runs secrets_kept (create_credential lib nonce ring params)"
  "runs secrets_kept (rotate lib nonce ring team cid secret actor)"
  "runs secrets_kept (revoke team cid)"
  "runs secrets_kept (bind_project net p cid actor)"
  "runs secrets_kept (issue_lease lib random node did v)"
  "runs secrets_kept (redeem_lease lib ring node did token)"
  unfolding create_credential_def rotate_def revoke_def bind_project_def issue_lease_def redeem_lease_def
    credential_tx_def get_for_team_def Let_def
  by (intro secret_rules)+

lemma credential_run_kept: "secrets_kept w (credential_run lib net ops w)"
proof (induction ops arbitrary: w)
  case Nil
  then show ?case by (simp add: credential_run_def sk.same)
next
  case (Cons x xs)
  have "secrets_kept w (credential_exec lib net x w)"
    using credential_ops_kept plain_statements(3) by (cases x) (simp_all add: runs_def)
  with Cons.IH[of "credential_exec lib net x w"] show ?case
    by (auto simp: credential_run_def intro: sk.join)
qed

section \<open>Redeeming\<close>

definition consumed_at :: "time \<Rightarrow> uuid \<Rightarrow> source_credential_lease list \<Rightarrow> source_credential_lease list" where
  "consumed_at now i rows = update_where (\<lambda>l. cl_id l = i) (\<lambda>r. r\<lparr>cl_consumed_at := Some now\<rparr>) rows"

lemma find_hash: "find (\<lambda>l. cl_token_hash l = h) rows = find_row cl_token_hash h rows"
  by (simp add: find_row_def)

lemma redeem_Inr:
  assumes "redeem_lease lib ring node did token w = (Inr r, t)"
  obtains l v c payload where
    "find_row cl_token_hash (hash_token lib token) (credential_leases w) = Some l"
    "lease_can_be_redeemed l node did (clock w (Suc (clock_pos w)))"
    "find_row cv_id (cl_credential_version_id l) (credential_versions w) = Some v"
    "find_row sc_id (cv_credential_id v) (source_credentials w) = Some c"
    "credential_version_is_active c v"
    "open_payload lib ring c v = Inr payload"
    "r = \<lparr>rc_credential = payload, rc_host = sc_host c, rc_port = nat (sc_port c)\<rparr>"
    "t = (begin_tx w)\<lparr>clock_pos := Suc (Suc (clock_pos w)),
       credential_leases := consumed_at (clock w (Suc (clock_pos w))) (cl_id l) (credential_leases w)\<rparr>"
proof -
  have "\<exists>l v c payload.
    find_row cl_token_hash (hash_token lib token) (credential_leases w) = Some l \<and>
    lease_can_be_redeemed l node did (clock w (Suc (clock_pos w))) \<and>
    find_row cv_id (cl_credential_version_id l) (credential_versions w) = Some v \<and>
    find_row sc_id (cv_credential_id v) (source_credentials w) = Some c \<and>
    credential_version_is_active c v \<and> open_payload lib ring c v = Inr payload \<and>
    r = \<lparr>rc_credential = payload, rc_host = sc_host c, rc_port = nat (sc_port c)\<rparr> \<and>
    t = (begin_tx w)\<lparr>clock_pos := Suc (Suc (clock_pos w)),
       credential_leases := consumed_at (clock w (Suc (clock_pos w))) (cl_id l) (credential_leases w)\<rparr>"
    using assms
    by (auto simp: redeem_lease_def credential_tx_def db_transaction_def oper_Inr begin_tx_def now_utc_def
        find_hash update_credential_lease_def scl.update_Inr consumed_at_def put_credential_leases_def
        split: prod.splits sum.splits if_splits)
  with that show thesis by blast
qed

lemma redeem_consumes:
  assumes "redeem_lease lib ring node did token w = (Inr r, t)"
  shows "\<exists>l. find_row cl_token_hash (hash_token lib token) (credential_leases t) = Some l \<and> cl_consumed_at l \<noteq> None"
proof -
  obtain l where l: "find_row cl_token_hash (hash_token lib token) (credential_leases w) = Some l"
    and t: "credential_leases t = consumed_at (clock w (Suc (clock_pos w))) (cl_id l) (credential_leases w)"
    using assms by (rule redeem_Inr) auto
  show ?thesis
    by (auto simp: t consumed_at_def find_row_update l)
qed

lemma consumed_fails:
  assumes "find_row cl_token_hash (hash_token lib token) (credential_leases w) = Some l" "cl_consumed_at l \<noteq> None"
  shows "fst (redeem_lease lib ring node did token w) = Inl InvalidLease"
  using assms
  by (auto simp: redeem_lease_def credential_tx_def db_transaction_def bindM_def getM_def okOr_def retM_def
      failM_def now_utc_def begin_tx_def find_hash lease_can_be_redeemed_def)

text \<open>
  C30. A lease is redeemed once: whatever happens to the credentials afterwards, and whoever asks, the same
  token is refused.
\<close>

theorem lease_redeemed_once:
  assumes "redeem_lease lib ring node did token w = (Inr r, w1)"
  shows "fst (redeem_lease lib ring' node' did' token (credential_run lib net ops w1)) = Inl InvalidLease"
proof -
  obtain l where "find_row cl_token_hash (hash_token lib token) (credential_leases w1) = Some l"
    "cl_consumed_at l \<noteq> None"
    using redeem_consumes[OF assms] by blast
  then obtain l' where "find_row cl_token_hash (hash_token lib token)
      (credential_leases (credential_run lib net ops w1)) = Some l'" "cl_consumed_at l' \<noteq> None"
    using credential_run_kept[of w1 lib net ops] unfolding secrets_kept_def kept_def lease_kept_def by blast
  then show ?thesis by (rule consumed_fails)
qed

lemma revoke_Inr:
  assumes "revoke team cid w = (Inr c, w1)"
  shows "\<exists>r. find_row sc_id cid (source_credentials w1) = Some r \<and> sc_revoked_at r \<noteq> None"
  using assms
  by (auto simp: revoke_def credential_tx_def db_transaction_def oper_Inr get_for_team_def update_credential_def
      scr.update_Inr put_credentials_def find_row_update
      split: prod.splits sum.splits if_splits dest!: find_Some_iff_mem dest: find_row_mem)

text \<open>
  C31. Revocation is final: after \<open>revoke\<close> no lease on a version of that credential, older or newer, yields
  a secret, whatever operations happen in between.
\<close>

theorem revoked_secret_stays_sealed:
  assumes "revoke team cid w = (Inr c, w1)"
    and "find_row cl_token_hash (hash_token lib token) (credential_leases (credential_run lib net ops w1)) = Some l"
    and "find_row cv_id (cl_credential_version_id l) (credential_versions (credential_run lib net ops w1)) = Some v"
    and "cv_credential_id v = cid"
  shows "fst (redeem_lease lib ring node did token (credential_run lib net ops w1)) \<in> {Inl InvalidLease, Inl ScRevoked}"
proof -
  obtain r where "find_row sc_id cid (source_credentials w1) = Some r" "sc_revoked_at r \<noteq> None"
    using revoke_Inr[OF assms(1)] by blast
  then obtain r' where r': "find_row sc_id cid (source_credentials (credential_run lib net ops w1)) = Some r'"
    "sc_revoked_at r' \<noteq> None"
    using credential_run_kept[of w1 lib net ops] unfolding secrets_kept_def kept_def credential_kept_def by blast
  then show ?thesis
    using assms(2-4)
    by (auto simp: redeem_lease_def credential_tx_def db_transaction_def bindM_def getM_def okOr_def retM_def
        failM_def now_utc_def begin_tx_def find_hash credential_version_is_active_def)
qed

text \<open>What the libraries promise.\<close>

definition crypto_ok :: "crypto_lib \<Rightarrow> bool" where
  "crypto_ok lib \<longleftrightarrow>
     (\<forall>k n ad p x. aead_seal lib k n ad p = Some x \<longrightarrow> aead_open lib k n ad x = Some p \<and> list_all (\<lambda>b. b < 256) x) \<and>
     (\<forall>b. list_all (\<lambda>x. x < 256) b \<longrightarrow> b64_decode lib (b64_encode lib b) = Some b) \<and>
     (\<forall>p x. payload_to_vec lib p = Some x \<longrightarrow> payload_from_slice lib x = Some p)"

lemma envelope_round_trip: "en_version e < 256 \<Longrightarrow> envelope_of_json (envelope_json e) = Some e"
  by (simp add: envelope_of_json_def envelope_json_def json_u8_def json_str_def)

lemma open_sealed:
  assumes "crypto_ok lib" "length nonce = 12" "list_all (\<lambda>b. b < 256) nonce"
    and sealed: "encrypt_payload lib nonce ring scope p = Inr (key_id, sealed)"
    and key: "keyring_key lib ring' key_id = keyring_key lib ring key_id"
    and row: "scope_of c (cv_version v) = scope" "cv_key_id v = key_id" "cv_encrypted_payload v = sealed"
  shows "open_payload lib ring' c v = Inr p"
proof -
  obtain key plain envelope where parts: "validate_payload p = Inr ()" "active_key lib ring = Some (key_id, key)"
    "payload_to_vec lib p = Some plain"
    "encrypt_secret lib nonce key_id key plain (associated_data scope) = Inr envelope"
    "sealed = envelope_json envelope"
    using sealed by (auto simp: encrypt_payload_def split: sum.splits option.splits if_splits)
  have k: "keyring_key lib ring key_id = Some key" "key_id \<noteq> []"
    using parts(2) by (auto simp: active_key_def split: if_splits)
  then have len: "length key = 32" by (auto simp: keyring_key_def split: option.splits if_splits)
  obtain x where e: "aead_seal lib key nonce (associated_data scope) plain = Some x"
    "envelope = \<lparr>en_version = aead_version, en_algorithm = aead_algorithm, en_key_id = key_id,
       en_nonce = b64_encode lib nonce, en_ciphertext = b64_encode lib x\<rparr>"
    using parts(4) len by (auto simp: encrypt_secret_def encryption_key_def split: if_splits option.splits)
  have "envelope_of_json sealed = Some envelope"
    unfolding parts(5) by (rule envelope_round_trip) (simp add: e(2) aead_version_def)
  moreover have "aead_open lib key nonce (associated_data scope) x = Some plain" "list_all (\<lambda>b. b < 256) x"
    using assms(1) e(1) by (auto simp: crypto_ok_def)
  moreover from this have "decrypt_secret lib envelope key (associated_data scope) = Inr plain"
    using assms(1,2,3) e len k(2) by (simp add: decrypt_secret_def encryption_key_def crypto_ok_def)
  moreover have "payload_from_slice lib plain = Some p"
    using assms(1) parts(3) by (simp add: crypto_ok_def)
  ultimately show ?thesis
    using parts(1) k key row e(2) by (simp add: open_payload_def)
qed

text \<open>A secret is stored by creating a credential or by rotating one.\<close>

definition stores ::
  "crypto_lib \<Rightarrow> nat list \<Rightarrow> keyring \<Rightarrow> git_credential \<Rightarrow> world \<Rightarrow> source_credential \<Rightarrow> world \<Rightarrow> bool" where
  "stores lib nonce ring secret w c w1 \<longleftrightarrow>
     (\<exists>params. cn_secret params = secret \<and> create_credential lib nonce ring params w = (Inr c, w1)) \<or>
     (\<exists>team cid actor. rotate lib nonce ring team cid secret actor w = (Inr c, w1))"


definition sealed_as :: "crypto_lib \<Rightarrow> nat list \<Rightarrow> keyring \<Rightarrow> git_credential \<Rightarrow> source_credential \<Rightarrow> world \<Rightarrow> bool" where
  "sealed_as lib nonce ring secret c w \<longleftrightarrow>
     (\<exists>vid v. sc_current_version_id c = Some vid \<and> find_row cv_id vid (credential_versions w) = Some v \<and>
        cv_credential_id v = sc_id c \<and>
        encrypt_payload lib nonce ring (scope_of c (cv_version v)) secret =
          Inr (cv_key_id v, cv_encrypted_payload v)) \<and>
     find_row sc_id (sc_id c) (source_credentials w) = Some c \<and> 1 \<le> sc_port c \<and> sc_port c \<le> 65535"

lemma credential_ports: "source_credentials_con rows = None \<Longrightarrow> r \<in> set rows \<Longrightarrow> 1 \<le> sc_port r \<and> sc_port r \<le> 65535"
  by (auto simp: source_credentials_con_def list_all_iff split: if_splits)


lemma credential_tx_Inr: "credential_tx m w = (Inr a, t) \<longleftrightarrow> m (begin_tx w) = (Inr a, t)"
  by (auto simp: credential_tx_def db_transaction_def bindM_def retM_def split: prod.splits sum.splits)

lemma put_secrets [simp]:
  "source_credentials (put_versions vs w) = source_credentials w"
  "credential_versions (put_credentials cs w) = credential_versions w"
  "source_credentials (put_credentials cs w) = cs"
  "credential_versions (put_versions vs w) = vs"
  by (simp_all add: put_versions_def put_credentials_def)

lemma create_sealed:
  assumes "create_credential lib nonce ring params w = (Inr c, w1)"
  shows "sealed_as lib nonce ring (cn_secret params) c w1 \<and> sc_host c = ep_host (cn_endpoint params) \<and>
    sc_port c = int (ep_port (cn_endpoint params))"
proof -
  let ?new = "\<lambda>i kind now. \<lparr>sc_id = i, sc_team_id = cn_team_id params, sc_name = cn_name params, sc_kind = kind,
    sc_host = ep_host (cn_endpoint params), sc_port = int (ep_port (cn_endpoint params)),
    sc_username = Some (payload_username (cn_secret params)), sc_current_version_id = None,
    sc_revoked_at = None, sc_created_by_user_id = Some (cn_created_by params),
    sc_created_at = now, sc_updated_at = now\<rparr>"
  obtain kind i vid now key_id sealed ua q uc q2 ud a where
    enc: "encrypt_payload lib nonce ring
       \<lparr>es_credential_id = i, es_team_id = cn_team_id params, es_version = 1, es_kind = kind,
        es_host = ep_host (cn_endpoint params), es_port = int (ep_port (cn_endpoint params))\<rparr>
        (cn_secret params) = Inr (key_id, sealed)"
    and ins: "exec_insert source_credentials_con source_credentials put_credentials (?new i kind now) ua = (Inr q, uc)"
    and ver: "exec_insert credential_versions_con credential_versions put_versions
         \<lparr>cv_id = vid, cv_credential_id = i, cv_version = 1, cv_key_id = key_id,
          cv_encrypted_payload = sealed, cv_revoked_at = None,
          cv_created_by_user_id = Some (cn_created_by params), cv_created_at = now\<rparr> uc = (Inr q2, ud)"
    and a: "find_row sc_id i (source_credentials ud) = Some a"
    and upd: "exec_update source_credentials_con sc_id source_credentials put_credentials (sc_id a)
         (\<lambda>r. r\<lparr>sc_current_version_id := Some vid\<rparr>) ud = (Inr c, w1)"
    using assms
    by (auto simp: create_credential_def Let_def oper_Inr credential_tx_Inr insert_credential_def
        insert_version_def update_credential_def split: prod.splits)
  note new = scr.insert_found[OF ins, simplified] and vers = scv.insert_found[OF ver, simplified]
    and cred = scr.update_found[OF upd, simplified]
  have "a = ?new i kind now" using a new vers by auto
  moreover from this have "c = (?new i kind now)\<lparr>sc_current_version_id := Some vid\<rparr>"
    using cred a by auto
  moreover have "1 \<le> sc_port c \<and> sc_port c \<le> 65535"
    using cred credential_ports find_row_mem[of sc_id "sc_id a" "source_credentials w1" c] by blast
  ultimately show ?thesis
    using vers cred enc by (auto simp: sealed_as_def scope_of_def)
qed

lemma same_after_update:
  assumes "source_credentials_con (update_where (\<lambda>x. sc_id x = sc_id a) f rows) = None"
    and "\<And>r. sc_id (f r) = sc_id r" and "a \<in> set rows" and "find_row sc_id (sc_id a) rows = Some r"
  shows "r = a"
proof -
  have "distinct (map sc_id (update_where (\<lambda>x. sc_id x = sc_id a) f rows))"
    by (rule scr.ok_distinct[OF assms(1)])
  then have "distinct (map sc_id rows)" by (simp add: map_update_where assms(2))
  then show ?thesis using find_row_distinct[of sc_id rows a] assms(3,4) by simp
qed

lemma rotate_sealed:
  assumes "rotate lib nonce ring team cid secret actor w = (Inr c, w1)"
  shows "sealed_as lib nonce ring secret c w1"
proof -
  obtain a and cur :: source_credential_version and vid u now ua key_id sealed q uc where
    a: "find (\<lambda>c. sc_id c = cid \<and> sc_team_id c = team) (source_credentials (begin_tx w)) = Some a"
    and ids: "(now_v7 :: (credential_error, uuid) dbm) (begin_tx w) = (Inr vid, u)"
      "(now_utc :: (credential_error, time) dbm) u = (Inr now, ua)"
    and enc: "encrypt_payload lib nonce ring (scope_of a (wrap_i32 (cv_version cur + 1))) secret = Inr (key_id, sealed)"
    and ins: "exec_insert credential_versions_con credential_versions put_versions
       \<lparr>cv_id = vid, cv_credential_id = sc_id a, cv_version = wrap_i32 (cv_version cur + 1),
        cv_key_id = key_id, cv_encrypted_payload = sealed, cv_revoked_at = None,
        cv_created_by_user_id = Some actor, cv_created_at = now\<rparr> ua = (Inr q, uc)"
    and upd: "exec_update source_credentials_con sc_id source_credentials put_credentials (sc_id a)
       (\<lambda>r. r\<lparr>sc_current_version_id := Some vid, sc_username := Some (payload_username secret),
          sc_updated_at := now\<rparr>) uc = (Inr c, w1)"
    using assms
    by (auto simp: rotate_def Let_def oper_Inr credential_tx_Inr get_for_team_def
      insert_version_def update_credential_def split: prod.splits if_splits)
  note ver = scv.insert_found[OF ins]
  have same: "source_credentials uc = source_credentials w"
    using ver ids by (auto simp: now_v7_def now_utc_def begin_tx_def)
  note cred = scr.update_found[OF upd, simplified]
  obtain r where r: "find_row sc_id (sc_id a) (source_credentials w) = Some r"
    "c = r\<lparr>sc_current_version_id := Some vid, sc_username := Some (payload_username secret), sc_updated_at := now\<rparr>"
    using cred same by auto
  have "a \<in> set (source_credentials w)" using a by (auto simp: begin_tx_def dest: find_Some_iff_mem)
  then have "r = a"
    using same_after_update[of a _ "source_credentials w" r] cred r(1) same by auto
  moreover have "1 \<le> sc_port c \<and> sc_port c \<le> 65535"
    using cred credential_ports find_row_mem[of sc_id "sc_id a" "source_credentials w1" c] by blast
  ultimately show ?thesis
    using ver cred enc r by (auto simp: sealed_as_def scope_of_def)
qed

lemma stored_sealed: "stores lib nonce ring secret w c w1 \<Longrightarrow> sealed_as lib nonce ring secret c w1"
  unfolding stores_def using create_sealed rotate_sealed by blast

lemma consumed_con:
  "credential_leases_con rows = None \<Longrightarrow> credential_leases_con (consumed_at now i rows) = None"
  by (auto simp: credential_leases_con_def consumed_at_def map_update_where set_update_where list_all_iff
      split: if_splits)

text \<open>
  C32. The secret that was stored by creating or rotating a credential is what a Node gets for a lease on
  that version, whatever happened in between: as long as neither the credential nor the version is
  revoked, the lease is the Node's own, fresh and not yet redeemed, and the key that was active when
  the secret was stored is still in the key ring.
\<close>

theorem stored_secret_is_redeemed:
  assumes lib: "crypto_ok lib" "length nonce = 12" "list_all (\<lambda>b. b < 256) nonce"
    and stored: "stores lib nonce ring secret w c w1"
    and later: "w2 = credential_run lib net ops w1"
    and lease: "find_row cl_token_hash (hash_token lib token) (credential_leases w2) = Some l"
      "lease_can_be_redeemed l node did (clock w2 (Suc (clock_pos w2)))"
      "sc_current_version_id c = Some (cl_credential_version_id l)"
    and unrevoked: "\<forall>v. find_row cv_id (cl_credential_version_id l) (credential_versions w2) = Some v \<longrightarrow> cv_revoked_at v = None"
      "\<forall>r. find_row sc_id (sc_id c) (source_credentials w2) = Some r \<longrightarrow> sc_revoked_at r = None"
    and key: "keyring_key lib ring' (kr_active_key_id ring) = keyring_key lib ring (kr_active_key_id ring)"
    and con: "credential_leases_con (credential_leases w2) = None"
  shows "fst (redeem_lease lib ring' node did token w2) =
    Inr \<lparr>rc_credential = secret, rc_host = sc_host c, rc_port = nat (sc_port c)\<rparr>"
proof -
  have kept: "secrets_kept w1 w2" unfolding later by (rule credential_run_kept)
  obtain v where v: "find_row cv_id (cl_credential_version_id l) (credential_versions w1) = Some v"
    "cv_credential_id v = sc_id c"
    "encrypt_payload lib nonce ring (scope_of c (cv_version v)) secret = Inr (cv_key_id v, cv_encrypted_payload v)"
    and c: "find_row sc_id (sc_id c) (source_credentials w1) = Some c" "1 \<le> sc_port c" "sc_port c \<le> 65535"
    using stored_sealed[OF stored] lease(3) by (auto simp: sealed_as_def)
  obtain v2 where v2: "find_row cv_id (cl_credential_version_id l) (credential_versions w2) = Some v2"
    "version_kept v v2"
    using kept v(1) unfolding secrets_kept_def kept_def by blast
  obtain c2 where c2: "find_row sc_id (sc_id c) (source_credentials w2) = Some c2" "credential_kept c c2"
    using kept c(1) unfolding secrets_kept_def kept_def by blast
  have "kr_active_key_id ring = cv_key_id v"
    using v(3) by (auto simp: encrypt_payload_def active_key_def split: sum.splits option.splits if_splits)
  then have "open_payload lib ring' c2 v2 = Inr secret"
    using open_sealed[OF lib v(3), of ring' c2 v2] key v2(2) c2(2)
    by (simp add: version_kept_def credential_kept_def scope_of_def)
  moreover have "credential_version_is_active c2 v2"
    using unrevoked v2(1) c2(1) by (simp add: credential_version_is_active_def)
  moreover have "find_row cl_id (cl_id l) (credential_leases w2) = Some l"
    using scl.row_found[OF con] find_row_mem[OF lease(1)] by auto
  ultimately show ?thesis
    using lease(1,2) v2 c2 v(2) c(2,3) consumed_con[OF con, unfolded consumed_at_def]
    by (simp add: redeem_lease_def credential_tx_def db_transaction_def bindM_def getM_def okOr_def retM_def
        now_utc_def begin_tx_def find_hash update_credential_lease_def mapErr_def exec_update_def Let_def
        version_kept_def credential_kept_def)
qed

text \<open>
  Nobody else gets it: a lease is redeemed only by the Node and for the deployment it was issued to,
  before it expires, and only while credential and version are in force; redeeming changes nothing but
  the lease.
\<close>

theorem redeemed_only_by_holder:
  assumes "redeem_lease lib ring node did token w = (Inr r, t)"
  shows "\<exists>l v c. find_row cl_token_hash (hash_token lib token) (credential_leases w) = Some l \<and>
    cl_node_id l = node \<and> cl_deployment_id l = did \<and> cl_consumed_at l = None \<and>
    clock w (Suc (clock_pos w)) < cl_expires_at l \<and>
    find_row cv_id (cl_credential_version_id l) (credential_versions w) = Some v \<and> cv_revoked_at v = None \<and>
    find_row sc_id (cv_credential_id v) (source_credentials w) = Some c \<and> sc_revoked_at c = None \<and>
    rc_host r = sc_host c \<and> int (rc_port r) = max 0 (sc_port c) \<and>
    t = (begin_tx w)\<lparr>clock_pos := Suc (Suc (clock_pos w)),
      credential_leases := consumed_at (clock w (Suc (clock_pos w))) (cl_id l) (credential_leases w)\<rparr>"
  using assms
  by (rule redeem_Inr) (auto simp: lease_can_be_redeemed_def credential_version_is_active_def)


section \<open>Instances\<close>

definition bytes_only :: "nat list \<Rightarrow> nat list option" where
  "bytes_only bs = (if list_all (\<lambda>b. b < 256) bs then Some bs else None)"

definition demo_secret :: git_credential where
  "demo_secret = GitHttpsCredential (pts ''git'') (pts ''token'')"

definition demo_lib :: crypto_lib where
  "demo_lib =
     \<lparr>b64_encode = map char_of, b64_decode = (\<lambda>s. Some (map of_char s)),
      aead_seal = (\<lambda>k n ad p. bytes_only p), aead_open = (\<lambda>k n ad x. Some x),
      sha256_hex = (\<lambda>_. replicate 64 CHR ''0''),
      payload_to_vec = (\<lambda>p. if p = demo_secret then Some [1] else None),
      payload_from_slice = (\<lambda>_. Some demo_secret)\<rparr>"

definition demo_ring :: keyring where
  "demo_ring = \<lparr>kr_active_key_id = ''k1'', kr_keys = [(''k1'', replicate 32 CHR ''x'')]\<rparr>"

definition demo_params :: create_credential_params where
  "demo_params =
     \<lparr>cn_team_id = 200, cn_name = ''origin'',
      cn_endpoint = \<lparr>ep_transport = GitHttps, ep_host = pts ''git.example'', ep_port = 443,
        ep_path = pts ''/a.git'', ep_username = None, ep_scp_like = False\<rparr>,
      cn_secret = demo_secret, cn_created_by = 9\<rparr>"

definition no_net :: net_lib where
  "no_net = \<lparr>nl_url = (\<lambda>_. None), nl_host = (\<lambda>_. None), nl_ip = (\<lambda>_. None), nl_ip_text = (\<lambda>_. [])\<rparr>"

definition demo_created :: world where
  "demo_created = snd (create_credential demo_lib (replicate 12 0) demo_ring demo_params (sample_world [] []))"

definition demo_issued :: world where
  "demo_issued = credential_run demo_lib no_net [OpIssue [65] 5 7 1001] demo_created"

lemma demo_crypto: "crypto_ok demo_lib"
  by (auto simp: crypto_ok_def demo_lib_def bytes_only_def list_all_iff of_char_of split: if_splits intro!: map_idI)

lemma demo_create_run:
  "fst (create_credential demo_lib (replicate 12 0) demo_ring demo_params (sample_world [] [])) =
     Inr \<lparr>sc_id = 1000, sc_team_id = 200, sc_name = ''origin'', sc_kind = CredHttps,
       sc_host = pts ''git.example'', sc_port = 443, sc_username = Some (pts ''git''),
       sc_current_version_id = Some 1001, sc_revoked_at = None, sc_created_by_user_id = Some 9,
       sc_created_at = 0, sc_updated_at = 0\<rparr>"
  by code_simp

lemma demo_issued_run:
  "fst (redeem_lease demo_lib demo_ring 5 7 ''A'' demo_issued) =
     Inr \<lparr>rc_credential = demo_secret, rc_host = pts ''git.example'', rc_port = 443\<rparr>"
  by code_simp

lemma demo_redeemed:
  "redeem_lease demo_lib demo_ring 5 7 ''A'' demo_issued =
     (Inr \<lparr>rc_credential = demo_secret, rc_host = pts ''git.example'', rc_port = 443\<rparr>,
      snd (redeem_lease demo_lib demo_ring 5 7 ''A'' demo_issued))"
  by (metis demo_issued_run prod.collapse)

theorem lease_redeemed_once_witness:
  "fst (redeem_lease demo_lib demo_ring 5 7 ''A'' (credential_run demo_lib no_net [OpUnbind 1]
     (snd (redeem_lease demo_lib demo_ring 5 7 ''A'' demo_issued)))) = Inl InvalidLease"
  by (rule lease_redeemed_once[OF demo_redeemed])

theorem redeemed_only_by_holder_witness:
  "\<exists>l. find_row cl_token_hash (hash_token demo_lib ''A'') (credential_leases demo_issued) = Some l \<and>
     cl_node_id l = 5 \<and> cl_deployment_id l = 7"
  using redeemed_only_by_holder[OF demo_redeemed] by blast

definition demo_credential :: source_credential where
  "demo_credential =
     \<lparr>sc_id = 1000, sc_team_id = 200, sc_name = ''origin'', sc_kind = CredHttps,
      sc_host = pts ''git.example'', sc_port = 443, sc_username = Some (pts ''git''),
      sc_current_version_id = Some 1001, sc_revoked_at = None, sc_created_by_user_id = Some 9,
      sc_created_at = 0, sc_updated_at = 0\<rparr>"

definition demo_lease :: source_credential_lease where
  "demo_lease =
     \<lparr>cl_id = 1002, cl_token_hash = replicate 64 CHR ''0'', cl_node_id = 5, cl_deployment_id = 7,
      cl_credential_version_id = 1001, cl_expires_at = 2 + 300000000000, cl_consumed_at = None,
      cl_created_at = 2\<rparr>"

lemma demo_stores:
  "stores demo_lib (replicate 12 0) demo_ring demo_secret (sample_world [] []) demo_credential demo_created"
  unfolding stores_def demo_created_def
  by (intro disjI1 exI[of _ demo_params] conjI)
    (simp add: demo_params_def, simp add: demo_credential_def demo_create_run[symmetric])

lemma demo_tables:
  "credential_leases demo_issued = [demo_lease]"
  "list_all (\<lambda>v. cv_revoked_at v = None) (credential_versions demo_issued)"
  "list_all (\<lambda>c. sc_revoked_at c = None) (source_credentials demo_issued)"
  "lease_can_be_redeemed demo_lease 5 7 (clock demo_issued (Suc (clock_pos demo_issued)))"
  by code_simp+

theorem stored_secret_is_redeemed_witness:
  "fst (redeem_lease demo_lib demo_ring 5 7 ''A'' demo_issued) =
     Inr \<lparr>rc_credential = demo_secret, rc_host = sc_host demo_credential, rc_port = nat (sc_port demo_credential)\<rparr>"
proof (rule stored_secret_is_redeemed[OF demo_crypto _ _ demo_stores, where ops = "[OpIssue [65] 5 7 1001]"
      and net = no_net and l = demo_lease])
  show "length (replicate 12 (0::nat)) = 12" "list_all (\<lambda>b. b < 256) (replicate 12 (0::nat))" by (simp_all add: list_all_iff)
  show "demo_issued = credential_run demo_lib no_net [OpIssue [65] 5 7 1001] demo_created"
    by (rule demo_issued_def)
  show "find_row cl_token_hash (hash_token demo_lib ''A'') (credential_leases demo_issued) = Some demo_lease"
    by (simp add: demo_tables(1) find_row_def hash_token_def demo_lib_def demo_lease_def)
  show "lease_can_be_redeemed demo_lease 5 7 (clock demo_issued (Suc (clock_pos demo_issued)))"
    by (rule demo_tables(4))
  show "\<forall>v. find_row cv_id (cl_credential_version_id demo_lease) (credential_versions demo_issued) = Some v \<longrightarrow>
      cv_revoked_at v = None"
    using demo_tables(2) by (auto simp: list_all_iff dest!: find_row_mem)
  show "\<forall>r. find_row sc_id (sc_id demo_credential) (source_credentials demo_issued) = Some r \<longrightarrow> sc_revoked_at r = None"
    using demo_tables(3) by (auto simp: list_all_iff dest!: find_row_mem)
  show "credential_leases_con (credential_leases demo_issued) = None"
    by (simp add: demo_tables(1) credential_leases_con_def demo_lease_def)
qed (simp_all add: demo_credential_def demo_lease_def)

definition demo_revoked :: world where
  "demo_revoked = snd (revoke 200 1000 demo_issued)"

lemma demo_revoke_run:
  "revoke 200 1000 demo_issued = (Inr (demo_credential\<lparr>sc_revoked_at := Some 4, sc_updated_at := 4\<rparr>), demo_revoked)"
proof -
  have "fst (revoke 200 1000 demo_issued) = Inr (demo_credential\<lparr>sc_revoked_at := Some 4, sc_updated_at := 4\<rparr>)"
    by code_simp
  then show ?thesis unfolding demo_revoked_def by (metis prod.collapse)
qed

theorem revoked_secret_stays_sealed_witness:
  "fst (redeem_lease demo_lib demo_ring 5 7 ''A'' (credential_run demo_lib no_net [] demo_revoked))
     \<in> {Inl InvalidLease, Inl ScRevoked}"
proof -
  have rows: "find_row cl_token_hash (hash_token demo_lib ''A'') (credential_leases (credential_run demo_lib no_net [] demo_revoked)) = Some demo_lease"
    "map_option cv_credential_id (find_row cv_id 1001 (credential_versions (credential_run demo_lib no_net [] demo_revoked))) = Some 1000"
    by code_simp+
  then obtain v where "find_row cv_id (cl_credential_version_id demo_lease)
      (credential_versions (credential_run demo_lib no_net [] demo_revoked)) = Some v" "cv_credential_id v = 1000"
    by (auto simp: demo_lease_def)
  then show ?thesis by (rule revoked_secret_stays_sealed[OF demo_revoke_run rows(1)])
qed

end
