(* ===== verification/BuildQueue.thy ===== *)
theory BuildQueue
  imports ReleaseHandlers QuotaService SourceCredentials
begin

text \<open>
  The queue of builds (\<open>features/api/v1/internal/deployments/claim.rs\<close>, \<open>.../stage.rs\<close> and
  \<open>.../source_credential.rs\<close>): a Node claims the oldest pending deployment whose team has a free build
  slot, reports its progress, and the slot is given back when the build ends or is canceled. The
  answer of the object storage, the text of identifiers and the random bytes of a lease are parameters;
  the mail about the result is returned.
\<close>

section \<open>The deployment of a Node\<close>

definition build_owned_deployment :: "node \<Rightarrow> uuid \<Rightarrow> string \<Rightarrow> (app_error, deployment) dbm" where
  "build_owned_deployment n did op =
     bindM (getM (\<lambda>w. get_by_id w did)) (\<lambda>found.
     bindM (okOr (NotFound op ''deployment not found'') found) (\<lambda>d.
     if d_build_node_id d \<noteq> Some (n_id n)
     then failM (Forbidden op ''deployment build is not assigned to this node'')
     else retM d))"

fun credential_error_text :: "credential_error \<Rightarrow> anyhow" where
  "credential_error_text ScNotFound = AnyMsg ''source credential was not found''"
| "credential_error_text ScRevoked = AnyMsg ''source credential has been revoked''"
| "credential_error_text EndpointMismatch =
     AnyMsg ''source credential does not match the repository endpoint''"
| "credential_error_text InvalidPayload = AnyMsg ''source credential payload is invalid''"
| "credential_error_text EncryptionUnavailable = AnyMsg ''source credential encryption is not configured''"
| "credential_error_text InvalidLease = AnyMsg ''source credential lease is invalid or expired''"
| "credential_error_text (ScDatabase e) = AnyDb e"
| "credential_error_text (ScOther e) = e"

fun map_redeem_error :: "string \<Rightarrow> credential_error \<Rightarrow> app_error" where
  "map_redeem_error op InvalidLease = Unauthorized op ''source credential lease is invalid or expired''"
| "map_redeem_error op ScRevoked = Conflict op ''source credential has been revoked''"
| "map_redeem_error op (ScDatabase e) = Infrastructure op (AnyDb e)"
| "map_redeem_error op (ScOther e) = Infrastructure op e"
| "map_redeem_error op _ = Internal op ''source credential could not be decrypted''"

definition redeem_source_credential ::
  "crypto_lib \<Rightarrow> keyring \<Rightarrow> node \<Rightarrow> uuid \<Rightarrow> string \<Rightarrow> (app_error, redeemed_credential) dbm" where
  "redeem_source_credential lib ring n did token =
     (let op = ''internal.deployments.source_credential'' in
     bindM (build_owned_deployment n did op) (\<lambda>_.
     mapErr (map_redeem_error op) (redeem_lease lib ring (n_id n) did token)))"

section \<open>Claiming\<close>

record claimed_deployment =
  cd_deployment_id :: uuid
  cd_project_id :: uuid
  cd_team_id :: uuid
  cd_environment :: string
  cd_runtime_kind :: string
  cd_repository_url :: string
  cd_branch :: "string option"
  cd_commit_hash :: "string option"
  cd_root_directory :: "string option"
  cd_install_command :: "string option"
  cd_build_command :: "string option"
  cd_output_directory :: "string option"
  cd_build_timeout_seconds :: "int option"
  cd_preview_host :: "string option"
  cd_source_credential_lease :: "string option"

fun runtime_value :: "project_runtime \<Rightarrow> string" where
  "runtime_value Static = ''static''"
| "runtime_value Ssr = ''ssr''"
| "runtime_value Hybrid = ''hybrid''"
| "runtime_value Serverless = ''serverless''"
| "runtime_value Edge = ''edge''"

definition claimed_of :: "deployment \<Rightarrow> int option \<Rightarrow> string option \<Rightarrow> claimed_deployment" where
  "claimed_of d timeout lease =
     \<lparr>cd_deployment_id = d_id d, cd_project_id = d_project_id d, cd_team_id = d_team_id d,
      cd_environment = environment_value (d_environment d), cd_runtime_kind = runtime_value (d_runtime_kind d),
      cd_repository_url = (case d_source_repository_url d of Some u \<Rightarrow> u | None \<Rightarrow> []),
      cd_branch = d_source_branch d, cd_commit_hash = d_commit_hash d,
      cd_root_directory = json_str (json_get ''root_directory'' (d_source_metadata d)),
      cd_install_command = d_install_command d, cd_build_command = d_build_command d,
      cd_output_directory = d_output_directory d, cd_build_timeout_seconds = timeout,
      cd_preview_host = d_preview_host d, cd_source_credential_lease = lease\<rparr>"

definition claim_op :: string where
  "claim_op = ''internal.deployments.claim''"

definition team_for :: "uuid \<Rightarrow> (app_error, team) dbm" where
  "team_for tid =
     bindM (getM (\<lambda>w. team_by_id w tid)) (\<lambda>found. okOr (NotFound claim_op ''team not found'') found)"

definition can_claim_new_build :: "node_status \<Rightarrow> bool" where
  "can_claim_new_build status \<longleftrightarrow> status = NActive"

definition current_node_for_claim :: "world \<Rightarrow> uuid \<Rightarrow> node option" where
  "current_node_for_claim w nid =
     find (\<lambda>n. n_id n = nid \<and> n_deleted_at n = None \<and> n_status n = NActive \<and> n_build_enabled n) (nodes w)"

definition claim_candidates :: "world \<Rightarrow> deployment list" where
  "claim_candidates w =
     take 10 (sort_key d_created_at (filter (\<lambda>d. d_build_status d = BPending \<and>
       d_runtime_kind d \<in> {Static, Ssr} \<and> d_deleted_at d = None) (deployments w)))"

datatype claim_outcome =
    NodeGone
  | TakenByOther
  | ClaimedWithLease "string option"

text \<open>The transaction of one candidate; \<open>False\<close> means it is rolled back.\<close>

definition claim_body ::
  "crypto_lib \<Rightarrow> nat list \<Rightarrow> node \<Rightarrow> deployment \<Rightarrow> (app_error, bool \<times> claim_outcome) dbm" where
  "claim_body lib random n candidate =
     bindM (getM (\<lambda>w. current_node_for_claim w (n_id n))) (\<lambda>current.
     if current = None then retM (False, NodeGone)
     else
       bindM now_utc (\<lambda>now.
       bindM (mapErr (\<lambda>e. Infrastructure claim_op (AnyDb e)) (update_deployments_where
         (\<lambda>d. d_id d = d_id candidate \<and> d_build_status d = BPending)
         (\<lambda>d. d\<lparr>d_build_status := BClaimed, d_build_node_id := Some (n_id n), d_claimed_at := Some now\<rparr>))) (\<lambda>affected.
       if affected = 0 then retM (False, TakenByOther)
       else
         bindM (case d_source_credential_version_id candidate of
                  None \<Rightarrow> retM None
                | Some version \<Rightarrow>
                    bindM (mapErr (\<lambda>e. Infrastructure claim_op (credential_error_text e))
                      (issue_lease lib random (n_id n) (d_id candidate) version)) (\<lambda>lease. retM (Some lease))) (\<lambda>lease.
         bindM (tryM (append_event (d_id candidate) EvBuild ''build status changed to claimed''
           (JObj [(''status'', JStr ''claimed''), (''build_node_id'', JUuid (n_id n))]))) (\<lambda>_.
         retM (True, ClaimedWithLease lease))))))"

definition claim_transaction :: "('e, bool \<times> 'a) dbm \<Rightarrow> ('e, 'a) dbm" where
  "claim_transaction m w =
     (case m (begin_tx w) of
        (Inl e, v) \<Rightarrow> (Inl e, rollback_to w v)
      | (Inr (commit, a), v) \<Rightarrow> (Inr a, if commit then commit_audits w v else rollback_to w v))"

text \<open>
  One pass of the loop: \<open>None\<close> goes on with the next candidate. Every path after the slot was taken
  that does not claim gives it back.
\<close>

definition claim_one ::
  "calendar \<Rightarrow> crypto_lib \<Rightarrow> nat list \<Rightarrow> node \<Rightarrow> deployment \<Rightarrow>
   (app_error, claimed_deployment option option) svm" where
  "claim_one cal lib random n candidate =
     bindM (on_db (team_for (d_team_id candidate))) (\<lambda>t.
     bindM (acquire_build_slot cal claim_op t) (\<lambda>acquired.
     if \<not> acquired then retM None
     else
       bindM (tryM (scalar_limit claim_op t BuildTimeoutSeconds)) (\<lambda>limit.
       case limit of
         Inl e \<Rightarrow> bindM (release_build_slot (t_id t)) (\<lambda>_. failM e)
       | Inr timeout \<Rightarrow>
           bindM (tryM (on_db (claim_transaction (claim_body lib random n candidate)))) (\<lambda>result.
           case result of
             Inl e \<Rightarrow> bindM (release_build_slot (t_id t)) (\<lambda>_. failM e)
           | Inr NodeGone \<Rightarrow> bindM (release_build_slot (t_id t)) (\<lambda>_. retM (Some None))
           | Inr TakenByOther \<Rightarrow> bindM (release_build_slot (t_id t)) (\<lambda>_. retM None)
           | Inr (ClaimedWithLease lease) \<Rightarrow> retM (Some (Some (claimed_of candidate timeout lease)))))))"

fun claim_loop ::
  "calendar \<Rightarrow> crypto_lib \<Rightarrow> nat list \<Rightarrow> node \<Rightarrow> deployment list \<Rightarrow> (app_error, claimed_deployment option) svm" where
  "claim_loop cal lib random n [] = retM None"
| "claim_loop cal lib random n (d # ds) =
     bindM (claim_one cal lib random n d) (\<lambda>outcome.
     case outcome of Some result \<Rightarrow> retM result | None \<Rightarrow> claim_loop cal lib random n ds)"

definition claim ::
  "calendar \<Rightarrow> crypto_lib \<Rightarrow> nat list \<Rightarrow> node \<Rightarrow> nat \<Rightarrow> (app_error, claimed_deployment option) svm" where
  "claim cal lib random n capacity =
     (if \<not> n_build_enabled n then failM (Forbidden claim_op ''node does not have build capability'')
      else if capacity = 0 then retM None
      else if \<not> can_claim_new_build (n_status n) then retM None
      else
        bindM (getM (\<lambda>s. claim_candidates (sv_db s))) (\<lambda>candidates.
        claim_loop cal lib random n candidates))"

section \<open>Progress\<close>

datatype reported_status = RepQueued | RepBuilding | RepReady | RepFailed | RepCanceled

record stage_request =
  sq_status :: "reported_status option"
  sq_stage :: "string option"
  sq_failure_code :: "string option"
  sq_failure_message :: "string option"
  sq_build_minutes :: "int option"

fun reported_build_status :: "reported_status \<Rightarrow> build_status" where
  "reported_build_status RepQueued = BQueued"
| "reported_build_status RepBuilding = BBuilding"
| "reported_build_status RepReady = BReady"
| "reported_build_status RepFailed = BFailed"
| "reported_build_status RepCanceled = BCanceled"

definition stage_op :: string where
  "stage_op = ''internal.deployments.stage''"

definition finalize_op :: string where
  "finalize_op = ''internal.deployments.finalize_ready''"

definition ready_report_needs_build_transition :: "build_status \<Rightarrow> bool" where
  "ready_report_needs_build_transition status \<longleftrightarrow> status \<noteq> BReady"

text \<open>The initial release state of a build that is ready, and what its Nodes have to serve now.\<close>

definition release_ready ::
  "deployment \<Rightarrow> bool \<Rightarrow> (app_error, deployment \<times> bool \<times> ready_release_action) dbm" where
  "release_ready d transitioned =
     bindM (mapErr (Infrastructure finalize_op) (review_policy_for_team (d_team_id d))) (\<lambda>policy.
     (let action = ready_release_action (mode_for policy (d_environment d)) (d_release_status d) in
     bindM (case action of
              ActActivate \<Rightarrow> mapErr (map_state_error finalize_op) (activate d ReasonAuto None)
            | ActRequestReview \<Rightarrow>
                bindM (mapErr (map_state_error finalize_op) (request_review d None)) (\<lambda>(d, _). retM d)
            | ActNone \<Rightarrow> retM d) (\<lambda>d.
     bindM (mapErr (\<lambda>e. Infrastructure finalize_op (delivery_anyhow e))
       (reconcile_environment (d_project_id d) (d_environment d))) (\<lambda>_.
     retM (d, transitioned, action)))))"

definition finalize_ready ::
  "uuid \<Rightarrow> build_transition \<Rightarrow> (app_error, deployment \<times> bool \<times> ready_release_action) dbm" where
  "finalize_ready did t =
     bindM (mapErr (\<lambda>e. Infrastructure finalize_op (AnyDb e)) lock_placement) (\<lambda>_.
     bindM (get_by_id_for_update did) (\<lambda>found.
     bindM (okOr (NotFound finalize_op ''deployment not found'') found) (\<lambda>d.
     (let transitioned = ready_report_needs_build_transition (d_build_status d) in
     bindM (if transitioned then mapErr (map_state_error finalize_op) (transition_build d t) else retM d) (\<lambda>d.
     release_ready d transitioned)))))"

definition stage_audit :: "node \<Rightarrow> uuid \<Rightarrow> uuid \<Rightarrow> string \<Rightarrow> bool \<Rightarrow> audit_result \<Rightarrow> string option \<Rightarrow> json \<Rightarrow>
  (app_error, unit) dbm" where
  "stage_audit n team did action by_node result reason metadata =
     mapErr (\<lambda>e. Infrastructure stage_op (AnyDb e)) (create_audit_event
       \<lparr>ap_actor_user_id = None, ap_actor_node_id = (if by_node then Some (n_id n) else None),
        ap_team_id = Some team, ap_action = action, ap_target_type = ''deployment'',
        ap_target_id = Some did, ap_result = result, ap_reason = reason, ap_metadata = metadata\<rparr>)"

definition is_terminal_build :: "build_status \<Rightarrow> bool" where
  "is_terminal_build target \<longleftrightarrow> target \<in> {BReady, BFailed, BCanceled}"

text \<open>The transaction of a report; \<open>d\<close> is the row as it was read before.\<close>

definition stage_transition ::
  "node \<Rightarrow> deployment \<Rightarrow> stage_request \<Rightarrow> reported_status \<Rightarrow>
   (app_error, deployment \<times> bool \<times> ready_release_action) dbm" where
  "stage_transition n d body status =
     (let target = reported_build_status status;
          t = \<lparr>bt_to = target, bt_stage = sq_stage body, bt_failure_code = sq_failure_code body,
               bt_failure_message = sq_failure_message body, bt_build_node_id = Some (n_id n)\<rparr>
      in if target = BReady then finalize_ready (d_id d) t
         else if target \<in> {BFailed, BCanceled} then
           bindM (mapErr (map_delivery_error stage_op) (transition_unsuccessful_build (d_id d) t)) (\<lambda>u.
           retM (u, True, ActNone))
         else
           bindM (mapErr (map_state_error stage_op) (transition_build d t)) (\<lambda>u.
           retM (u, True, ActNone)))"

definition stage_audits ::
  "node \<Rightarrow> deployment \<Rightarrow> stage_request \<Rightarrow> reported_status \<Rightarrow> deployment \<Rightarrow> bool \<Rightarrow> ready_release_action \<Rightarrow>
   (app_error, unit) dbm" where
  "stage_audits n d body status updated transitioned action =
     (let target = reported_build_status status in
      bindM (if status = RepBuilding \<and> d_build_status d \<noteq> BBuilding then
               stage_audit n (d_team_id d) (d_id updated) ''deployment.build_started'' True AuditSuccess None
                 (JObj [(''build_node_id'', JUuid (n_id n))])
             else retM ()) (\<lambda>_.
      bindM (if is_terminal_build target \<and> transitioned then
               stage_audit n (d_team_id d) (d_id updated) ''deployment.build_finished'' True
                 (if target = BReady then AuditSuccess else AuditFailure) (sq_failure_message body)
                 (JObj [(''status'', JStr (build_status_value target))])
             else retM ()) (\<lambda>_.
      if action = ActRequestReview then
        stage_audit n (d_team_id d) (d_id updated) ''deployment.review_requested'' False AuditSuccess None
          (JObj [(''automatic'', JBool True)])
      else retM ())))"

definition stage_body ::
  "node \<Rightarrow> deployment \<Rightarrow> stage_request \<Rightarrow> reported_status \<Rightarrow> (app_error, deployment \<times> bool) dbm" where
  "stage_body n d body status =
     bindM (stage_transition n d body status) (\<lambda>(updated, transitioned, action).
     bindM (stage_audits n d body status updated transitioned action) (\<lambda>_.
     retM (updated, transitioned)))"

definition charge_minutes ::
  "calendar \<Rightarrow> uuid \<Rightarrow> uuid \<Rightarrow> stage_request \<Rightarrow> (app_error, unit) svm" where
  "charge_minutes cal team did body =
     (case sq_build_minutes body of
        Some minutes \<Rightarrow>
          if 0 < minutes then
            charge_unchecked cal stage_op team
              [\<lparr>qc_dimension = BuildMinutesMonthly, qc_amount = minutes\<rparr>] ''deployment'' (Some did)
          else retM ()
      | None \<Rightarrow> retM ())"

definition build_log_relative_path :: "(uuid \<Rightarrow> string) \<Rightarrow> uuid \<Rightarrow> uuid \<Rightarrow> string" where
  "build_log_relative_path uuid_text pid did =
     ''deployments/'' @ uuid_text pid @ ''/'' @ uuid_text did @ ''/build.log''"

definition put_artifacts :: "deployment_artifact list \<Rightarrow> world \<Rightarrow> world" where
  "put_artifacts rows w = w\<lparr>artifacts := rows\<rparr>"

definition record_build_log_artifact :: "(uuid \<Rightarrow> string) \<Rightarrow> deployment \<Rightarrow> (anyhow, unit) dbm" where
  "record_build_log_artifact uuid_text d =
     bindM (getM (\<lambda>w. find (\<lambda>a. a_deployment_id a = d_id d \<and> a_kind a = BuildLog \<and> a_deleted_at a = None)
       (artifacts w))) (\<lambda>existing.
     if existing \<noteq> None then retM ()
     else
       bindM now_v7 (\<lambda>i.
       bindM now_utc (\<lambda>now.
       bindM (mapErr AnyDb (exec_insert artifacts_con artifacts put_artifacts
         \<lparr>a_id = i, a_deployment_id = d_id d, a_kind = BuildLog,
          a_storage_path = build_log_relative_path uuid_text (d_project_id d) (d_id d),
          a_checksum_sha256 = None, a_size_bytes = None, a_manifest = JObj [], a_deleted_at = None,
          a_created_at = now\<rparr>)) (\<lambda>_. retM ()))))"

text \<open>
  The answer to the Node (whether to stop) and, for a finished build, the deployment that the mail is
  about. \<open>log_stored\<close> is the answer of the storage.
\<close>

definition stage_report ::
  "calendar \<Rightarrow> (uuid \<Rightarrow> string) \<Rightarrow> (uuid \<Rightarrow> uuid \<Rightarrow> bool) \<Rightarrow> node \<Rightarrow> deployment \<Rightarrow> stage_request \<Rightarrow> reported_status \<Rightarrow>
   (app_error, bool \<times> deployment option) svm" where
  "stage_report cal uuid_text log_stored n d body status =
     (let team = d_team_id d in
      bindM (on_db (transaction (stage_body n d body status))) (\<lambda>(updated, transitioned).
      if is_terminal_build (reported_build_status status) \<and> transitioned then
        bindM (release_build_slot_once team (d_id updated)) (\<lambda>_.
        bindM (charge_minutes cal team (d_id updated) body) (\<lambda>_.
        bindM (if log_stored (d_project_id updated) (d_id updated)
               then ignoreM (on_db (record_build_log_artifact uuid_text updated)) else retM ()) (\<lambda>_.
        retM (False, Some updated))))
      else retM (False, None)))"

definition stage_from ::
  "calendar \<Rightarrow> (uuid \<Rightarrow> string) \<Rightarrow> (uuid \<Rightarrow> uuid \<Rightarrow> bool) \<Rightarrow> node \<Rightarrow> deployment \<Rightarrow> stage_request \<Rightarrow>
   (app_error, bool \<times> deployment option) svm" where
  "stage_from cal uuid_text log_stored n d body =
     bindM (tryM (on_cache (\<lambda>now. cache_get now (CancelFlagKey (d_id d))))) (\<lambda>got.
     (let flagged = (case got of Inr (Some _) \<Rightarrow> True | _ \<Rightarrow> False) in
      if cancellation_was_requested (d_build_status d) flagged then
        bindM (if sq_status body = Some RepCanceled then
                 bindM (ignoreM (on_cache (\<lambda>now. cache_delete now (CancelFlagKey (d_id d))))) (\<lambda>_.
                 charge_minutes cal (d_team_id d) (d_id d) body)
               else retM ()) (\<lambda>_.
        retM (True, None))
      else
        bindM (refresh_build_slot (d_team_id d)) (\<lambda>_.
        case sq_status body of
          None \<Rightarrow>
            bindM (case sq_stage body of
                     Some stage \<Rightarrow>
                       bindM (mapErr (Infrastructure stage_op) (on_db (update_stage d stage))) (\<lambda>_. retM ())
                   | None \<Rightarrow> retM ()) (\<lambda>_.
            retM (False, None))
        | Some status \<Rightarrow> stage_report cal uuid_text log_stored n d body status)))"

definition stage ::
  "calendar \<Rightarrow> (uuid \<Rightarrow> string) \<Rightarrow> (uuid \<Rightarrow> uuid \<Rightarrow> bool) \<Rightarrow> node \<Rightarrow> uuid \<Rightarrow> stage_request \<Rightarrow>
   (app_error, bool \<times> deployment option) svm" where
  "stage cal uuid_text log_stored n did body =
     bindM (on_db (build_owned_deployment n did stage_op)) (\<lambda>d.
     stage_from cal uuid_text log_stored n d body)"

section \<open>Canceling\<close>

text \<open>The calls on the cache that \<open>cancel_deployment_core\<close> makes after its commit.\<close>

fun cancel_effect_run :: "cancel_effect \<Rightarrow> (app_error, unit) svm" where
  "cancel_effect_run (SetCancelFlag did secs) =
     ignoreM (on_cache (\<lambda>now. cache_set now (CancelFlagKey did) ''1'' (seconds secs)))"
| "cancel_effect_run (ReleaseBuildSlotOnce team did) = release_build_slot_once team did"

definition cancel_from :: "deployment \<Rightarrow> uuid \<Rightarrow> string \<Rightarrow> (app_error, deployment) svm" where
  "cancel_from d actor op =
     bindM (on_db (cancel_deployment_core d actor op)) (\<lambda>(d', effects).
     bindM (forM effects cancel_effect_run) (\<lambda>_.
     retM d'))"

definition cancel_request :: "uuid \<Rightarrow> uuid \<Rightarrow> uuid \<Rightarrow> (app_error, deployment) svm" where
  "cancel_request actor pid did =
     bindM (on_db (cancel actor pid did)) (\<lambda>(d', effects).
     bindM (forM effects cancel_effect_run) (\<lambda>_.
     retM d'))"

end
