(* ===== verification/BuildSlots.thy ===== *)
theory BuildSlots
  imports BuildQueue
begin

text \<open>
  The slots of running builds. The number of builds that a team runs is kept twice: as rows of the
  deployments table and as a counter of the cache that bounds it. This theory shows that claims,
  progress reports and cancellations keep the two equal: every step of the queue, with requests of other
  kinds and the passing of time in between, leaves the counter of each team at the number of its
  running builds. It also shows what happens when a request decides on a row that has changed since.
\<close>

section \<open>What other operations leave alone\<close>

type_synonym build_row = "uuid \<times> uuid \<times> build_status \<times> uuid option"

definition build_row :: "deployment \<Rightarrow> build_row" where
  "build_row d = (d_id d, d_team_id d, d_build_status d, d_build_node_id d)"

definition builds_of :: "world \<Rightarrow> build_row list" where
  "builds_of w = map build_row (deployments w)"

lemma build_row_in: "d \<in> set (deployments w) \<Longrightarrow> build_row d \<in> set (builds_of w)"
  by (simp add: builds_of_def)

definition build_frame :: "world \<Rightarrow> world \<Rightarrow> bool" where
  "build_frame w v \<longleftrightarrow> builds_of v = builds_of w \<and> clock v = clock w \<and> nodes v = nodes w \<and>
     teams v = teams w \<and> team_groups v = team_groups w \<and> quota_plans v = quota_plans w \<and>
     quota_limits v = quota_limits w"

interpretation bf: run_relation build_frame
  by unfold_locales (simp_all add: build_frame_def)

named_theorems build_frames

lemma frame_update_deployment:
  assumes "\<And>d. build_row (f d) = build_row d"
  shows "runs build_frame (update_deployment i f)"
proof (rule runsI)
  fix s r t
  assume run: "update_deployment i f s = (r, t)"
  have "build_row (touch_deployment now (f d)) = build_row d" for now d
    using assms[of d] by (simp add: build_row_def)
  then have same: "map build_row (update_where p (\<lambda>d. touch_deployment now (f d)) rows) = map build_row rows"
    for p now rows by (rule map_update_where)
  show "build_frame s t"
    using run by (auto simp: update_deployment_def exec_update_def Let_def build_frame_def builds_of_def
        put_deployments_def same split: option.splits)
qed

lemma frame_statements [build_frames]:
  "runs build_frame now_utc" "runs build_frame now_v7" "runs build_frame (insert_event e)"
  "runs build_frame (insert_release r)" "runs build_frame (insert_review v)"
  "runs build_frame (append_event did kind message metadata)"
  "runs build_frame (create_audit_event p)"
  "runs build_frame (insert_credential_lease l)"
  "runs build_frame (exec_insert artifacts_con artifacts put_artifacts a)"
  "runs build_frame (update_counter i g)" "runs build_frame (insert_counter c)"
  "runs build_frame (insert_quota_event q)" "runs build_frame lock_placement"
proof -
  show "runs build_frame (create_audit_event p)"
  proof (rule runsI)
    fix s r t
    assume run: "create_audit_event p s = (r, t)"
    obtain e where "create_audit_event p s = (Inr (), s\<lparr>uuid_pos := Suc (uuid_pos s),
        clock_pos := Suc (clock_pos s), audit_log := audit_log s @ [e]\<rparr>)"
      using create_audit_event_run[of p s] by blast
    with run show "build_frame s t" by (auto simp: build_frame_def builds_of_def)
  qed
qed (auto simp: runs_def build_frame_def builds_of_def now_utc_def now_v7_def insert_event_def
      insert_release_def insert_review_def append_event_run log_event_def insert_credential_lease_def mapErr_def
      exec_insert_def exec_update_def Let_def put_credential_leases_def put_artifacts_def update_counter_def
      insert_counter_def insert_quota_event_def put_counters_def put_quota_events_def put_reviews_def
      lock_placement_def retM_def split: option.splits)

lemma frame_transition_serve [build_frames]: "runs build_frame (transition_serve d st)"
proof -
  have "build_row (apply_serve now st d) = build_row d" for now d
    by (simp add: build_row_def apply_serve_def split: serve_status.splits)
  then show ?thesis
    unfolding transition_serve_def by (intro bf.rules build_frames frame_update_deployment)
qed

lemma frame_transition_release [build_frames]: "runs build_frame (transition_release d to metadata)"
  unfolding transition_release_def
  by (intro bf.rules build_frames frame_update_deployment) (simp add: build_row_def)

lemma frame_update_stage [build_frames]: "runs build_frame (update_stage d text)"
  unfolding update_stage_def
  by (intro bf.rules build_frames frame_update_deployment) (simp add: build_row_def)

lemma frame_drop_assignment: "runs build_frame (drop_assignment item)"
  unfolding drop_assignment_def retire_step_def
  by (intro bf.rules build_frames frame_update_deployment) (simp add: build_row_def)

lemma frame_reconcile [build_frames]: "runs build_frame (reconcile_environment pid env)"
  unfolding reconcile_environment_def reconcile_item_def
  by (intro bf.rules build_frames frame_drop_assignment)

lemma frame_activate [build_frames]: "runs build_frame (activate target reason actor)"
  unfolding activate_def by (intro bf.rules build_frames)

lemma frame_request_review [build_frames]: "runs build_frame (request_review d by_user)"
  unfolding request_review_def create_review_def by (intro bf.rules build_frames)

lemma frame_issue_lease [build_frames]: "runs build_frame (issue_lease lib random node did version)"
  unfolding issue_lease_def Let_def by (intro bf.rules build_frames)

lemma frame_record_artifact [build_frames]: "runs build_frame (record_build_log_artifact text d)"
  unfolding record_build_log_artifact_def by (intro bf.rules build_frames)

lemma frame_quota [build_frames]:
  "runs build_frame (resolve_team_quota t)" "runs build_frame (record_event cal p)"
  "runs build_frame (review_policy_for_team tid)"
  unfolding resolve_team_quota_def record_event_def fold_event_def apply_counter_delta_def Let_def
    review_policy_for_team_def
  by (intro bf.rules build_frames)+

lemma frame_tryM: "runs R m \<Longrightarrow> runs R (tryM m)"
  by (auto simp: runs_def tryM_def split: prod.splits) (metis snd_conv)

section \<open>One key of the cache at a time\<close>

definition other_keys :: "'k \<Rightarrow> 'k cache_store \<Rightarrow> 'k cache_store \<Rightarrow> bool" where
  "other_keys k s s' \<longleftrightarrow>
     (case (s, s') of
        (MokaStore c, MokaStore c') \<Rightarrow> \<forall>j. j \<noteq> k \<longrightarrow> c' j = c j
      | (RedisStore c, RedisStore c') \<Rightarrow> \<forall>j. j \<noteq> k \<longrightarrow> c' j = c j
      | _ \<Rightarrow> False)"

lemma other_keysD:
  assumes "other_keys k s s'" "j \<noteq> k"
  shows "cache_level now j s' = cache_level now j s" "cache_sound now j s' = cache_sound now j s"
    "cache_present now j s' = cache_present now j s"
  using assms
  by (cases s; cases s'; simp add: other_keys_def cache_reads read_counter_def read_counter_entry_def entry_get_def
      redis_level_def redis_number_def redis_integer_def moka_sound_def redis_sound_def moka_present_def)+

lemma single_key:
  "cache_get now k s = (r, t) \<Longrightarrow> other_keys k s t"
  "cache_set now k val ttl s = (u, t) \<Longrightarrow> other_keys k s t"
  "cache_delete now k s = (u, t) \<Longrightarrow> other_keys k s t"
  "cache_adjust_counter now k n s = (i, t) \<Longrightarrow> other_keys k s t"
  by (cases s; auto simp: cache_get_def cache_set_def cache_delete_def cache_adjust_counter_def on_store_def
      moka_get_def redis_get_def moka_set_def redis_set_def moka_delete_def redis_delete_def
      moka_adjust_counter_def redis_adjust_counter_def write_counter_def moka_insert_def redis_put_def
      entry_remove_def other_keys_def Let_def split: prod.splits option.splits if_splits)+

text \<open>Extending the life of a counter that is there keeps its number.\<close>

lemma refresh_law:
  assumes "usable now ttl" "cache_sound now k s" "cache_present now k s"
  shows "\<exists>s'. cache_update_if_present now k (show_i64 (cache_level now k s)) ttl s = (Inr True, s') \<and>
    sets_level (cache_level now) (cache_sound now) (cache_present now) k (cache_level now k s) s s'"
proof (cases s)
  case (MokaStore c)
  let ?v = "read_counter now k c"
  have v: "0 \<le> ?v" "?v < 2 ^ 53" and there: "entry_get now k c \<noteq> None"
    using assms(2,3) MokaStore mk.level_range[of now k c] by (auto simp: cache_reads moka_present_def)
  have "cache_update_if_present now k (show_i64 (cache_level now k s)) ttl s =
      (Inr True, MokaStore (write_counter now k ?v (Some (expiry_from_ttl now ttl)) c))"
    using there by (auto simp: MokaStore cache_update_if_present_def on_store_def moka_update_if_present_def
        write_counter_def cache_level_def)
  moreover have "sets_level (read_counter now) (moka_sound now) (moka_present now) k ?v c
      (write_counter now k ?v (Some (expiry_from_ttl now ttl)) c)"
    by (rule moka_write_sets) (use expiry_usable[OF assms(1)] v in auto)
  ultimately show ?thesis by (auto simp: MokaStore sets_level_store cache_level_def)
next
  case (RedisStore c)
  let ?v = "redis_level now k c"
  have v: "0 \<le> ?v" "?v < 2 ^ 53" and there: "entry_get now k c \<noteq> None"
    using assms(2,3) RedisStore rd.level_range[of now k c] by (auto simp: cache_reads moka_present_def)
  have "cache_update_if_present now k (show_i64 (cache_level now k s)) ttl s =
      (Inr True, RedisStore (redis_put k (show_i64 ?v) (px now ttl) c))"
    using there by (auto simp: RedisStore cache_update_if_present_def on_store_def redis_update_if_present_def
        cache_level_def)
  moreover have "sets_level (redis_level now) (redis_sound now) (moka_present now) k ?v c
      (redis_put k (show_i64 ?v) (px now ttl) c)"
    by (rule redis_put_sets[OF px_alive[OF assms(1)] v])
  ultimately show ?thesis by (auto simp: RedisStore sets_level_store cache_level_def)
qed

section \<open>Requests that leave the slots alone\<close>

text \<open>
  \<open>idle now s t\<close>: from \<open>s\<close> to \<open>t\<close> no build moved and, while the clock stands at \<open>now\<close>, neither the slot
  counters nor the marks of finished builds changed.
\<close>

definition slots_sound :: "time \<Rightarrow> cache_key cache_store \<Rightarrow> bool" where
  "slots_sound now c \<longleftrightarrow> (\<forall>T. cache_sound now (slot_key T) c)"

definition same_slots :: "time \<Rightarrow> cache_key cache_store \<Rightarrow> cache_key cache_store \<Rightarrow> bool" where
  "same_slots now c c' \<longleftrightarrow>
     (\<forall>T. cache_level now (slot_key T) c' = cache_level now (slot_key T) c) \<and> slots_sound now c' \<and>
     (\<forall>i. cache_present now (slot_release_key i) c' = cache_present now (slot_release_key i) c)"

definition idle :: "time \<Rightarrow> service \<Rightarrow> service \<Rightarrow> bool" where
  "idle now s t \<longleftrightarrow> build_frame (sv_db s) (sv_db t) \<and>
     (clock (sv_db s) = (\<lambda>_. now) \<longrightarrow> slots_sound now (sv_cache s) \<longrightarrow> same_slots now (sv_cache s) (sv_cache t))"

interpretation idl: run_relation "idle now" for now
  by unfold_locales (auto simp: idle_def same_slots_def build_frame_def)

lemma idle_on_db: "runs build_frame m \<Longrightarrow> runs (idle now) (on_db m)"
  by (auto simp: runs_def on_db_def idle_def same_slots_def split: prod.splits) (metis snd_conv)

lemma idle_ignoreM: "runs R m \<Longrightarrow> runs R (ignoreM m)"
  by (simp add: runs_def ignoreM_def)

lemma plain_keys [simp]:
  "slot_key T \<noteq> slot_release_key i" "slot_release_key i \<noteq> slot_key T"
  "slot_key T \<noteq> CancelFlagKey j" "slot_release_key i \<noteq> CancelFlagKey j"
  "slot_key T = slot_key T' \<longleftrightarrow> T = T'" "slot_release_key i = slot_release_key j \<longleftrightarrow> i = j"
  by (auto simp: slot_key_def slot_release_key_def)

lemma idle_other_key:
  assumes "\<And>T. slot_key T \<noteq> k" "\<And>i. slot_release_key i \<noteq> k"
    and "\<And>t c r c'. f t c = (r, c') \<Longrightarrow> other_keys k c c'"
  shows "runs (idle now) (on_cache f)"
proof (rule runsI)
  fix s r t
  assume run: "on_cache f s = (r, t)"
  let ?w = "(sv_db s)\<lparr>clock_pos := Suc (clock_pos (sv_db s))\<rparr>"
  obtain c where t: "t = s\<lparr>sv_db := ?w, sv_cache := c\<rparr>" and "other_keys k (sv_cache s) c"
    using run assms(3)[of "clock (sv_db s) (clock_pos (sv_db s))" "sv_cache s"]
    by (auto simp: on_cache_def now_utc_def split: prod.splits)
  then have "slots_sound now (sv_cache s) \<longrightarrow> same_slots now (sv_cache s) c"
    using other_keysD[OF \<open>other_keys k (sv_cache s) c\<close>] assms(1,2) by (auto simp: same_slots_def slots_sound_def)
  then show "idle now s t" by (simp add: t idle_def build_frame_def builds_of_def)
qed

lemma on_cache_frozen:
  assumes "clock (sv_db s) = (\<lambda>_. now)"
  shows "on_cache f s = (fst (f now (sv_cache s)),
    s\<lparr>sv_db := (sv_db s)\<lparr>clock_pos := Suc (clock_pos (sv_db s))\<rparr>, sv_cache := snd (f now (sv_cache s))\<rparr>)"
  using assms by (simp add: on_cache_def now_utc_def split: prod.splits)

lemma builds_of_tick [simp]: "builds_of (w\<lparr>clock_pos := p\<rparr>) = builds_of w"
  by (simp add: builds_of_def)

lemma frame_tick [simp]: "build_frame w (w\<lparr>clock_pos := p\<rparr>)"
  by (simp add: build_frame_def builds_of_def)

definition db_framed :: "service \<Rightarrow> service \<Rightarrow> bool" where
  "db_framed s t \<longleftrightarrow> build_frame (sv_db s) (sv_db t)"

interpretation dbf: run_relation db_framed
  by unfold_locales (auto simp: db_framed_def build_frame_def)

lemma framed_on_cache: "runs db_framed (on_cache f)"
  by (rule runsI) (auto simp: on_cache_def now_utc_def db_framed_def split: prod.splits)

lemma framed_refresh: "runs db_framed (refresh_build_slot T)"
  unfolding refresh_build_slot_def by (intro idle_ignoreM dbf.rules framed_on_cache)

lemma idle_refresh:
  assumes "usable now build_slot_ttl"
  shows "runs (idle now) (refresh_build_slot T)"
proof (rule runsI)
  fix s r t
  assume run: "refresh_build_slot T s = (r, t)"
  have frame: "build_frame (sv_db s) (sv_db t)" using runsD[OF framed_refresh run] by (simp add: db_framed_def)
  have "same_slots now (sv_cache s) (sv_cache t)"
    if frozen: "clock (sv_db s) = (\<lambda>_. now)" and sound: "slots_sound now (sv_cache s)"
  proof -
    have ok: "cache_sound now (slot_key T) (sv_cache s)" using sound by (simp add: slots_sound_def)
    note read = cs.read_law[OF ok]
    show ?thesis
    proof (cases "cache_present now (slot_key T) (sv_cache s)")
      case True
      obtain c where c: "cache_update_if_present now (slot_key T)
          (show_i64 (cache_level now (slot_key T) (sv_cache s))) build_slot_ttl (sv_cache s) = (Inr True, c)"
        "sets_level (cache_level now) (cache_sound now) (cache_present now) (slot_key T)
          (cache_level now (slot_key T) (sv_cache s)) (sv_cache s) c"
        using refresh_law[OF assms ok True] by blast
      have "sv_cache t = c"
        using run read True c(1)
        by (auto simp: refresh_build_slot_def ignoreM_def bindM_def on_cache_frozen frozen)
      with c(2) sound show ?thesis by (auto simp: same_slots_def slots_sound_def sets_level_def)
    next
      case False
      then have "sv_cache t = sv_cache s"
        using run read by (auto simp: refresh_build_slot_def ignoreM_def bindM_def on_cache_frozen frozen retM_def)
      with sound show ?thesis by (simp add: same_slots_def)
    qed
  qed
  with frame show "idle now s t" by (simp add: idle_def)
qed

lemma idle_counter_key: "runs (idle now) (counter_keyM cal team d)"
  unfolding counter_keyM_def
  by (cases "dimension_period d") (auto intro!: idl.retM_ok idle_on_db bf.rules build_frames)

lemma idle_denial: "runs (idle now) (record_denial cal op team actor d resolved)"
  unfolding record_denial_def by (intro idl.rules idle_ignoreM idle_on_db build_frames)

lemma minutes_key:
  assumes "counter_keyM cal team BuildMinutesMonthly s = (Inr k, t)"
  shows "slot_key T \<noteq> k" "slot_release_key i \<noteq> k"
  using assms
  by (auto simp: counter_keyM_def on_db_def bindM_def now_utc_def retM_def counter_key_def slot_key_def
      slot_release_key_def split: if_splits)

lemma runs_bind:
  assumes "runs R m" and "\<And>s a t. m s = (Inr a, t) \<Longrightarrow> R t (snd (k a t))"
    and "\<And>s t u. R s t \<Longrightarrow> R t u \<Longrightarrow> R s u"
  shows "runs R (bindM m k)"
  unfolding runs_def bindM_def
  using assms by (auto simp: runs_def split: prod.splits sum.splits) (metis snd_conv)+

lemma idle_minutes: "runs (idle now) (charge_minutes cal team did body)"
proof -
  have "runs (idle now) (charge_unchecked cal op team [\<lparr>qc_dimension = BuildMinutesMonthly, qc_amount = m\<rparr>] rt rid)"
    for op m rt rid
  proof -
    have tail: "idle now t (snd (bindM (mapErr (Infrastructure op) (on_cache (\<lambda>now. cache_adjust_counter now k m))) (\<lambda>_.
        mapErr (Infrastructure op) (on_db (record_event cal p))) t))"
      if "counter_keyM cal team BuildMinutesMonthly s = (Inr k, t)" for s k t p
    proof -
      have "runs (idle now) (on_cache (\<lambda>now. cache_adjust_counter now k m))"
        by (rule idle_other_key[where k = k]) (auto simp: minutes_key[OF that] intro: single_key)
      then have "runs (idle now) (bindM (mapErr (Infrastructure op) (on_cache (\<lambda>now. cache_adjust_counter now k m)))
          (\<lambda>_. mapErr (Infrastructure op) (on_db (record_event cal p))))"
        by (intro idl.bindM_ok idl.mapErr_ok idle_on_db build_frames)
      then show ?thesis by (simp add: runs_def)
    qed
    show ?thesis
      unfolding charge_unchecked_def
      by (simp del: bindM_simps, intro idl.bindM_ok[OF _ idl.retM_ok] runs_bind[OF idle_counter_key])
        (use tail idl.join in auto)
  qed
  then show ?thesis unfolding charge_minutes_def by (intro idl.rules)
qed

lemma idle_flag:
  "runs (idle now) (on_cache (\<lambda>t. cache_set t (CancelFlagKey did) val ttl))"
  "runs (idle now) (on_cache (\<lambda>t. cache_get t (CancelFlagKey did)))"
  "runs (idle now) (on_cache (\<lambda>t. cache_delete t (CancelFlagKey did)))"
  by (rule idle_other_key[where k = "CancelFlagKey did"]; auto intro: single_key)+

section \<open>The count of running builds\<close>

fun running :: "build_status \<Rightarrow> bool" where
  "running BClaimed = True"
| "running BQueued = True"
| "running BBuilding = True"
| "running _ = False"

fun held_by :: "uuid \<Rightarrow> build_row \<Rightarrow> bool" where
  "held_by T (i, t, st, n) \<longleftrightarrow> t = T \<and> running st"

definition held :: "uuid \<Rightarrow> build_row list \<Rightarrow> nat" where
  "held T rows = length (filter (held_by T) rows)"

fun moved_to :: "uuid \<Rightarrow> build_status \<Rightarrow> (uuid option \<Rightarrow> uuid option) \<Rightarrow> build_row \<Rightarrow> build_row" where
  "moved_to i st f (j, t, st', n) = (if j = i then (j, t, st, f n) else (j, t, st', n))"

lemma fst_moved [simp]: "fst (moved_to i st f r) = fst r"
  by (cases r) simp

lemma held_moved:
  assumes "distinct (map fst rows)" "(i, t, st', n) \<in> set rows"
  shows "held T (map (moved_to i st f) rows) + (if t = T \<and> running st' then 1 else 0) =
    held T rows + (if t = T \<and> running st then 1 else 0)"
  using assms
proof (induction rows)
  case (Cons r rows)
  obtain j t2 st2 n2 where r: "r = (j, t2, st2, n2)" by (cases r)
  show ?case
  proof (cases "j = i")
    case True
    then have "(i, t, st', n) = r" using Cons.prems r by (force simp: image_iff)
    moreover have "map (moved_to i st f) rows = rows"
      using Cons.prems(1) r True by (intro map_idI) (force simp: image_iff)
    ultimately show ?thesis using r by (auto simp: held_def)
  next
    case False
    then have "(i, t, st', n) \<in> set rows" using Cons.prems r by auto
    with Cons show ?thesis using r False by (auto simp: held_def)
  qed
qed simp

section \<open>The invariant\<close>

text \<open>
  \<open>queue_ok now extra s\<close>: the clock stands at \<open>now\<close>; the counter of each team is the number of its
  running builds plus the slots that a claim under way has taken (\<open>extra\<close>); no build that is not over
  is marked as having given its slot back; and a build that was not claimed has no Node.
\<close>

definition proper_time :: "time \<Rightarrow> bool" where
  "proper_time now \<longleftrightarrow> 0 \<le> now \<and> unix_timestamp now < 2 ^ 62"

definition rows_ok :: "build_row list \<Rightarrow> bool" where
  "rows_ok rows \<longleftrightarrow> distinct (map fst rows) \<and> length rows < 2 ^ 51 \<and>
     (\<forall>i t n. (i, t, BPending, n) \<in> set rows \<longrightarrow> n = None)"

definition queue_ok :: "time \<Rightarrow> (uuid \<Rightarrow> nat) \<Rightarrow> service \<Rightarrow> bool" where
  "queue_ok now extra s \<longleftrightarrow>
     clock (sv_db s) = (\<lambda>_. now) \<and> proper_time now \<and> rows_ok (builds_of (sv_db s)) \<and>
     slots_sound now (sv_cache s) \<and>
     (\<forall>T. cache_level now (slot_key T) (sv_cache s) = int (held T (builds_of (sv_db s)) + extra T)) \<and>
     (\<forall>i t st n. (i, t, st, n) \<in> set (builds_of (sv_db s)) \<longrightarrow> st = BPending \<or> running st \<longrightarrow>
        \<not> cache_present now (slot_release_key i) (sv_cache s))"

definition no_extra :: "uuid \<Rightarrow> nat" where
  "no_extra T = 0"

definition one_for :: "uuid \<Rightarrow> uuid \<Rightarrow> nat" where
  "one_for T T' = (if T' = T then 1 else 0)"

lemma usable_ttls:
  assumes "proper_time now"
  shows "usable now build_slot_ttl" "usable now static_counter_ttl"
  using assms by (simp_all add: proper_time_def usable_def build_slot_ttl_def static_counter_ttl_def seconds_def as_secs_def)

lemma held_le: "held T rows \<le> length rows"
  by (simp add: held_def)

lemma queue_ok_idle:
  assumes "queue_ok now extra s" "idle now s t"
  shows "queue_ok now extra t"
  using assms by (auto simp: queue_ok_def idle_def same_slots_def build_frame_def)

lemma queue_ok_frame:
  assumes "queue_ok now extra s" "build_frame (sv_db s) w"
  shows "queue_ok now extra (s\<lparr>sv_db := w\<rparr>)"
  using assms by (auto simp: queue_ok_def build_frame_def)

text \<open>One slot counter changes.\<close>

lemma queue_ok_set:
  assumes "queue_ok now extra s" "build_frame (sv_db s) w"
    and "sets_level (cache_level now) (cache_sound now) (cache_present now) (slot_key T) n (sv_cache s) c"
    and "n = int (held T (builds_of (sv_db s)) + extra' T)" "\<And>T'. T' \<noteq> T \<Longrightarrow> extra' T' = extra T'"
  shows "queue_ok now extra' (s\<lparr>sv_db := w, sv_cache := c\<rparr>)"
  using assms by (auto simp: queue_ok_def build_frame_def sets_level_def slots_sound_def)

definition slot_limit :: "resolved_quota \<Rightarrow> int" where
  "slot_limit resolved = (case limit_for resolved ConcurrentBuilds of Some m \<Rightarrow> m | None \<Rightarrow> -1)"

lemma resolve_unchanged: "resolve_team_quota t w = (r, v) \<Longrightarrow> v = w"
  by (auto simp: resolve_team_quota_def bindM_def getM_def liftR_def retM_def failM_def
      split: sum.splits prod.splits)

text \<open>Taking a slot: granted exactly below the limit.\<close>

lemma acquire_slot_step:
  assumes ok: "queue_ok now no_extra s" and run: "acquire_build_slot cal op t s = (r, s')"
  shows "build_frame (sv_db s) (sv_db s') \<and>
    (if r = Inr True
     then queue_ok now (one_for (t_id t)) s' \<and>
       (\<exists>q. resolve_team_quota t (sv_db s) = (Inr q, sv_db s) \<and>
          (slot_limit q < 0 \<or> int (held (t_id t) (builds_of (sv_db s))) < slot_limit q))
     else queue_ok now no_extra s')"
proof -
  let ?k = "slot_key (t_id t)" and ?w = "(sv_db s)\<lparr>clock_pos := Suc (clock_pos (sv_db s))\<rparr>"
  obtain x w where res: "resolve_team_quota t (sv_db s) = (x, w)" by (cases "resolve_team_quota t (sv_db s)")
  note w = resolve_unchanged[OF res]
  show ?thesis
  proof (cases x)
    case (Inl e)
    then have "s' = s" "r \<noteq> Inr True"
      using run res w by (auto simp: acquire_build_slot_def bindM_def mapErr_def on_db_def)
    with ok show ?thesis by (simp add: bf.same)
  next
    case (Inr q)
    have frozen: "clock (sv_db s) = (\<lambda>_. now)" and sound: "cache_sound now ?k (sv_cache s)"
      and level: "cache_level now ?k (sv_cache s) = int (held (t_id t) (builds_of (sv_db s)))"
      and u: "usable now build_slot_ttl" and small: "length (builds_of (sv_db s)) < 2 ^ 51"
      using ok usable_ttls by (auto simp: queue_ok_def slots_sound_def no_extra_def rows_ok_def)
    have "cache_level now ?k (sv_cache s) < 2 ^ 52"
      using level held_le[of "t_id t" "builds_of (sv_db s)"] small by simp
    then obtain c where c: "cache_acquire_slot now ?k (slot_limit q) build_slot_ttl (sv_cache s) =
        (Inr (slot_limit q < 0 \<or> cache_level now ?k (sv_cache s) < slot_limit q), c)"
      "if slot_limit q < 0 \<or> cache_level now ?k (sv_cache s) < slot_limit q
       then sets_level (cache_level now) (cache_sound now) (cache_present now) ?k
         (cache_level now ?k (sv_cache s) + 1) (sv_cache s) c
       else c = sv_cache s"
      using cs.acquire_law[OF u sound] by blast
    have got: "on_cache (\<lambda>now. cache_acquire_slot now ?k (slot_limit q) build_slot_ttl) s =
        (Inr (slot_limit q < 0 \<or> cache_level now ?k (sv_cache s) < slot_limit q), s\<lparr>sv_db := ?w, sv_cache := c\<rparr>)"
      using c(1) by (simp add: on_cache_frozen[OF frozen])
    show ?thesis
    proof (cases "slot_limit q < 0 \<or> cache_level now ?k (sv_cache s) < slot_limit q")
      case True
      then have out: "r = Inr True" "s' = s\<lparr>sv_db := ?w, sv_cache := c\<rparr>"
        using run res w got Inr
        by (auto simp: acquire_build_slot_def bindM_def mapErr_def on_db_def slot_limit_def[symmetric] Let_def retM_def)
      have "queue_ok now (one_for (t_id t)) s'"
        unfolding out(2)
        by (rule queue_ok_set[OF ok, where T = "t_id t" and n = "cache_level now ?k (sv_cache s) + 1"])
          (use c(2) True level in \<open>auto simp: one_for_def no_extra_def\<close>)
      with out res w Inr True level show ?thesis by auto
    next
      case False
      obtain b u where den: "(record_denial cal op (t_id t) None ConcurrentBuilds q :: (app_error, unit) svm)
          (s\<lparr>sv_db := ?w, sv_cache := c\<rparr>) = (b, u)" by fastforce
      have out: "r \<noteq> Inr True" "s' = u"
        using run res w got Inr False den
        by (cases b; auto simp: acquire_build_slot_def bindM_def mapErr_def on_db_def slot_limit_def[symmetric] Let_def
            retM_def)+
      have idle: "idle now (s\<lparr>sv_db := ?w, sv_cache := c\<rparr>) s'"
        unfolding out(2) by (rule runsD[OF idle_denial den])
      have "queue_ok now no_extra (s\<lparr>sv_db := ?w, sv_cache := c\<rparr>)"
        using queue_ok_frame[OF ok, of ?w] c(2) False by simp
      note still = queue_ok_idle[OF this idle]
      have "build_frame (sv_db s) (sv_db s')" using idle by (simp add: idle_def build_frame_def)
      with still out(1) show ?thesis by simp
    qed
  qed
qed

lemma release_slot_step:
  assumes ok: "queue_ok now (one_for T) s" and run: "release_build_slot T s = (r, s')"
  shows "r = Inr () \<and> queue_ok now no_extra s' \<and> build_frame (sv_db s) (sv_db s')"
proof -
  let ?k = "slot_key T" and ?w = "(sv_db s)\<lparr>clock_pos := Suc (clock_pos (sv_db s))\<rparr>"
  have frozen: "clock (sv_db s) = (\<lambda>_. now)" and sound: "cache_sound now ?k (sv_cache s)"
    and level: "cache_level now ?k (sv_cache s) = int (held T (builds_of (sv_db s))) + 1"
    using ok by (auto simp: queue_ok_def slots_sound_def one_for_def)
  then have "cache_present now ?k (sv_cache s)" using cs.absent_zero[of now ?k "sv_cache s"] by auto
  then obtain c where c: "cache_release_slot now ?k (sv_cache s) = (Inr (), c)"
    "sets_level (cache_level now) (cache_sound now) (cache_present now) ?k
       (max 0 (cache_level now ?k (sv_cache s) - 1)) (sv_cache s) c"
    using cs.release_law[OF _ sound] by blast
  have out: "r = Inr ()" "s' = s\<lparr>sv_db := ?w, sv_cache := c\<rparr>"
    using run c(1) by (auto simp: release_build_slot_def ignoreM_def on_cache_frozen[OF frozen])
  have "queue_ok now no_extra s'"
    unfolding out(2)
    by (rule queue_ok_set[OF ok, where T = T]) (use c(2) level in \<open>auto simp: one_for_def no_extra_def\<close>)
  with out show ?thesis by simp
qed

text \<open>Giving back the slot of a build that is over: once, under its mark.\<close>

lemma seed_mark:
  assumes "usable now ttl" "\<not> cache_present now k s"
  shows "\<exists>s'. cache_set_if_absent now k ''1'' ttl s = (Inr True, s') \<and> other_keys k s s'"
proof -
  have one: "show_i64 1 = ''1''" by code_simp
  obtain s' where s': "cache_set_if_absent now k (show_i64 1) ttl s = (Inr True, s')"
    using cs.seed_law[OF assms(1), of 1 k s] assms(2) by auto
  have "other_keys k s s'"
    using s' by (cases s) (auto simp: cache_set_if_absent_def on_store_def moka_set_if_absent_def
        redis_set_if_absent_def moka_insert_def redis_put_def other_keys_def split: if_splits)
  with s' one show ?thesis by auto
qed

lemma release_once_step:
  assumes ok: "queue_ok now (one_for T) s" and run: "release_build_slot_once T i s = (r, s')"
    and over: "\<And>t st n. (i, t, st, n) \<in> set (builds_of (sv_db s)) \<Longrightarrow> st \<noteq> BPending \<and> \<not> running st"
    and unmarked: "\<not> cache_present now (slot_release_key i) (sv_cache s)"
  shows "r = Inr () \<and> queue_ok now no_extra s' \<and> build_frame (sv_db s) (sv_db s')"
proof -
  let ?w = "(sv_db s)\<lparr>clock_pos := Suc (clock_pos (sv_db s))\<rparr>"
  have frozen: "clock (sv_db s) = (\<lambda>_. now)" and u: "usable now static_counter_ttl"
    using ok usable_ttls by (auto simp: queue_ok_def)
  obtain c where c: "cache_set_if_absent now (slot_release_key i) ''1'' static_counter_ttl (sv_cache s) = (Inr True, c)"
    "other_keys (slot_release_key i) (sv_cache s) c"
    using seed_mark[OF u unmarked] by blast
  let ?s = "s\<lparr>sv_db := ?w, sv_cache := c\<rparr>"
  note others = other_keysD[OF c(2)]
  have marks: "cache_present now (slot_release_key j) c = cache_present now (slot_release_key j) (sv_cache s)"
    if "j \<noteq> i" for j by (rule others(3)) (use that in simp)
  have "\<not> cache_present now (slot_release_key j) c"
    if row: "(j, t, st, n) \<in> set (builds_of (sv_db s))" and live: "st = BPending \<or> running st" for j t st n
  proof -
    have "j \<noteq> i" using over[of t st n] row live by auto
    moreover have "\<not> cache_present now (slot_release_key j) (sv_cache s)"
      using ok row live by (fastforce simp: queue_ok_def)
    ultimately show ?thesis by (simp add: marks)
  qed
  then have "queue_ok now (one_for T) ?s"
    using ok by (auto simp: queue_ok_def slots_sound_def others)
  moreover have "release_build_slot T ?s = (Inr (), s')" "r = Inr ()"
    using run c(1)
    by (auto simp: release_build_slot_once_def slot_release_once_def ignoreM_def bindM_def
        on_cache_frozen[OF frozen] retM_def release_build_slot_def split: prod.splits sum.splits)
  ultimately show ?thesis using release_slot_step[of now T ?s "Inr ()" s'] by (auto simp: build_frame_def builds_of_def)
qed

section \<open>Transactions on a build\<close>

lemma frame_rollback: "build_frame w (rollback_to w v)"
  by (simp add: build_frame_def builds_of_def rollback_to_def)

lemma frame_begin: "build_frame w (begin_tx w)"
  by (simp add: build_frame_def builds_of_def begin_tx_def)

lemma frame_commit: "build_frame v (commit_audits w v)"
  by (simp add: build_frame_def builds_of_def commit_audits_def)

text \<open>\<open>moves w v i st f\<close>: only the build \<open>i\<close> moved, to \<open>st\<close>.\<close>

definition moves :: "world \<Rightarrow> world \<Rightarrow> uuid \<Rightarrow> build_status \<Rightarrow> (uuid option \<Rightarrow> uuid option) \<Rightarrow> bool" where
  "moves w v i st f \<longleftrightarrow> builds_of v = map (moved_to i st f) (builds_of w) \<and> clock v = clock w"

lemma moves_frame: "moves w v i st f \<Longrightarrow> build_frame u w \<Longrightarrow> build_frame v x \<Longrightarrow> moves u x i st f"
  by (simp add: moves_def build_frame_def)

lemma builds_set_row:
  assumes "\<And>d. d_id d = i \<Longrightarrow> build_row (f d) = moved_to i st g (build_row d)"
  shows "map build_row (update_where (\<lambda>d. d_id d = i) (\<lambda>d. touch_deployment now (f d)) rows) =
    map (moved_to i st g) (map build_row rows)"
  using assms by (auto simp: update_where_def build_row_def)

lemma transition_build_moves:
  assumes run: "transition_build d bt w = (Inr q, v)" and to: "bt_to bt \<noteq> BClaimed"
  shows "moves w v (d_id d) (bt_to bt) (\<lambda>n. n) \<and> can_transition_build (d_build_status d) (bt_to bt) \<and>
    nodes v = nodes w"
proof -
  obtain r now where can: "can_transition_build (d_build_status d) (bt_to bt)" and
    rows: "deployments v = deployments (set_row (d_id d) (apply_build now bt) w)"
    using transition_build_Inr[OF run] by blast
  have "map build_row (update_where (\<lambda>x. d_id x = d_id d) (\<lambda>x. touch_deployment (sql_now w) (apply_build now bt x))
      (deployments w)) = map (moved_to (d_id d) (bt_to bt) (\<lambda>n. n)) (map build_row (deployments w))"
    by (rule builds_set_row)
      (use to in \<open>auto simp: build_row_def apply_build_def Let_def split: build_status.splits option.splits\<close>)
  then have "builds_of v = map (moved_to (d_id d) (bt_to bt) (\<lambda>n. n)) (builds_of w)"
    by (simp add: builds_of_def rows)
  moreover have "outside v = outside w"
    using runsD[OF transition_build_ok run] by (simp add: extends_def)
  ultimately show ?thesis using can outside_eqD[of v w] by (simp add: moves_def)
qed

lemma unsuccessful_moves:
  assumes run: "transition_unsuccessful_build did bt w = (Inr q, v)"
  shows "\<exists>d. get_by_id_for_update did w = (Inr (Some d), w) \<and> moves w v did (bt_to bt) (\<lambda>n. n) \<and>
    d_id d = did \<and> can_transition_build (d_build_status d) (bt_to bt) \<and> bt_to bt \<in> {BFailed, BCanceled} \<and>
    d_id q = did"
proof -
  have to: "bt_to bt \<in> {BFailed, BCanceled}"
    using run by (auto simp: transition_unsuccessful_build_def failM_def split: if_splits)
  with run obtain w1 d w2 x w3 w4 where lock: "(lock_placement :: (delivery_error, unit) dbm) w = (Inr (), w1)"
    and d: "get_for_update did w1 = (Inr d, w2)" and step: "transition_build d bt w2 = (Inr x, w3)"
    and rec: "reconcile_environment (d_project_id d) (d_environment d) w3 = (Inr (), w4)"
    and q: "find_row d_id did (deployments w4) = Some q" "v = w4"
    by (auto simp: transition_unsuccessful_build_def oper_Inr failM_def)
  have w1: "w1 = w" using lock by (auto simp: lock_placement_def retM_def)
  have w2: "w2 = w" "get_by_id_for_update did w = (Inr (Some d), w)" "d_id d = did"
    using d w1 by (auto simp: get_for_update_def oper_Inr get_by_id_for_update_def dest: get_by_id_Some)
  have m: "moves w w3 did (bt_to bt) (\<lambda>n. n)" "can_transition_build (d_build_status d) (bt_to bt)"
    using transition_build_moves[OF step] to w2 by auto
  have "build_frame w3 v" using runsD[OF frame_reconcile rec] q(2) by simp
  then have "moves w v did (bt_to bt) (\<lambda>n. n)" by (rule moves_frame[OF m(1) bf.same])
  with w2 m to find_row_mem[OF q(1)] show ?thesis by auto
qed

lemma release_ready_frame: "runs build_frame (release_ready d transitioned)"
  unfolding release_ready_def Let_def
  by (intro bf.rules build_frames) (auto intro!: bf.rules build_frames split: ready_release_action.split)

lemma release_ready_parts:
  assumes "release_ready d transitioned w = (Inr (q, tr, action), v)"
  shows "d_id q = d_id d \<and> tr = transitioned"
  using assms
  by (auto simp: release_ready_def oper_Inr Let_def request_review_def activate_def
      split: ready_release_action.splits option.splits dest!: transition_release_Inr find_row_mem)
    (metis ready_release_action.exhaust)+

lemma apply_build_id [simp]: "d_id (apply_build now bt d) = d_id d" "d_team_id (apply_build now bt d) = d_team_id d"
  by (simp_all add: apply_build_def Let_def split: build_status.split option.split)

lemma finalize_moves:
  assumes run: "finalize_ready did bt w = (Inr (q, transitioned, action), v)" and to: "bt_to bt = BReady"
  shows "\<exists>d. get_by_id w did = Some d \<and> d_id q = did \<and>
    (if transitioned then moves w v did BReady (\<lambda>n. n) \<and> can_transition_build (d_build_status d) BReady
     else build_frame w v)"
proof -
  obtain d where d: "get_by_id w did = Some d"
    using run by (auto simp: finalize_ready_def oper_Inr get_by_id_for_update_def lock_placement_def)
  obtain d1 u where
    first: "(if ready_report_needs_build_transition (d_build_status d)
       then mapErr (map_state_error finalize_op) (transition_build d bt) else retM d) w = (Inr d1, u)"
    and rest: "release_ready d1 (ready_report_needs_build_transition (d_build_status d)) u =
       (Inr (q, transitioned, action), v)"
    using run d by (auto simp: finalize_ready_def oper_Inr get_by_id_for_update_def lock_placement_def Let_def)
  have frame: "build_frame u v" by (rule runsD[OF release_ready_frame rest])
  have id1: "d_id d1 = did"
    using first get_by_id_Some[OF d] by (auto simp: oper_Inr dest!: transition_build_Inr find_row_mem split: if_splits)
  note parts = release_ready_parts[OF rest]
  show ?thesis
  proof (cases transitioned)
    case True
    then have step: "transition_build d bt w = (Inr d1, u)" using first parts by (simp add: mapErr_Inr)
    have "moves w u did BReady (\<lambda>n. n)" "can_transition_build (d_build_status d) BReady"
      using transition_build_moves[OF step] to get_by_id_Some[OF d] by auto
    with frame d parts id1 True show ?thesis using moves_frame[OF _ bf.same frame] by auto
  next
    case False
    then have "u = w" using first parts by (simp add: oper_Inr)
    with frame d parts id1 False show ?thesis by auto
  qed
qed

text \<open>The transaction of a progress report, on a row that has not changed since it was read.\<close>

lemma frame_stage_audits: "runs build_frame (stage_audits nd d body status u tr action)"
  unfolding stage_audits_def stage_audit_def Let_def by (intro bf.rules build_frames)

lemma stage_transition_moves:
  assumes run: "stage_transition nd d body status w = (Inr (u, transitioned, action), v)"
    and cur: "get_by_id w (d_id d) = Some d"
  shows "d_id u = d_id d \<and>
    (if transitioned
     then moves w v (d_id d) (reported_build_status status) (\<lambda>n. n) \<and>
       can_transition_build (d_build_status d) (reported_build_status status)
     else build_frame w v \<and> status = RepReady)"
proof -
  let ?to = "reported_build_status status"
  let ?t = "\<lparr>bt_to = ?to, bt_stage = sq_stage body, bt_failure_code = sq_failure_code body,
    bt_failure_message = sq_failure_message body, bt_build_node_id = Some (n_id nd)\<rparr>"
  consider "?to = BReady" "status = RepReady" | "?to \<in> {BFailed, BCanceled}" | "?to \<in> {BQueued, BBuilding}"
    by (cases status) auto
  then show ?thesis
  proof cases
    case 1
    with run have "finalize_ready (d_id d) ?t w = (Inr (u, transitioned, action), v)"
      by (simp add: stage_transition_def)
    from finalize_moves[OF this] 1 cur show ?thesis by (auto split: if_splits)
  next
    case 2
    with run have "transition_unsuccessful_build (d_id d) ?t w = (Inr u, v)" "transitioned"
      by (auto simp: stage_transition_def oper_Inr)
    with unsuccessful_moves[OF this(1)] cur show ?thesis
      by (auto simp: get_by_id_for_update_def oper_Inr)
  next
    case 3
    with run have step: "transition_build d ?t w = (Inr u, v)" "transitioned"
      by (auto simp: stage_transition_def oper_Inr)
    have "d_id u = d_id d" using transition_build_Inr[OF step(1)] find_row_mem by fastforce
    moreover have "moves w v (d_id d) ?to (\<lambda>n. n)" "can_transition_build (d_build_status d) ?to"
      using transition_build_moves[OF step(1)] 3 by auto
    ultimately show ?thesis using step(2) by auto
  qed
qed

lemma stage_transaction_moves:
  assumes run: "transaction (stage_body nd d body status) w = (r, v)" and cur: "get_by_id w (d_id d) = Some d"
  shows "case r of
      Inl e \<Rightarrow> build_frame w v
    | Inr (u, transitioned) \<Rightarrow> d_id u = d_id d \<and>
        (if transitioned
         then moves w v (d_id d) (reported_build_status status) (\<lambda>n. n) \<and>
           can_transition_build (d_build_status d) (reported_build_status status)
         else build_frame w v \<and> status = RepReady)"
proof (cases r)
  case (Inl e)
  then have "build_frame w v" using run frame_rollback by (auto simp: transaction_def split: prod.splits sum.splits)
  with Inl show ?thesis by simp
next
  case (Inr a)
  obtain u tr where a: "a = (u, tr)" by (cases a)
  obtain x action y where step: "stage_transition nd d body status (begin_tx w) = (Inr (u, tr, action), x)"
    and audit: "stage_audits nd d body status u tr action x = (Inr (), y)" and v: "v = commit_audits w y"
    using run Inr a by (auto simp: transaction_Inr stage_body_def oper_Inr)
  have cur': "get_by_id (begin_tx w) (d_id d) = Some d" using cur by (simp add: get_by_id_def begin_tx_def)
  have after: "build_frame x v"
    using bf.join[OF runsD[OF frame_stage_audits audit] frame_commit] v by simp
  from stage_transition_moves[OF step cur'] Inr a show ?thesis
    by (auto intro: moves_frame[OF _ frame_begin after] bf.join[OF bf.join[OF frame_begin _] after])
qed

text \<open>The transaction of a claim.\<close>

lemma claim_body_cases:
  assumes run: "claim_body lib random nd d w = (r, v)" and one: "distinct (map fst (builds_of w))"
  shows "(\<exists>lease. r = Inr (True, ClaimedWithLease lease) \<and>
       current_node_for_claim w (n_id nd) \<noteq> None \<and>
       (\<exists>T n. (d_id d, T, BPending, n) \<in> set (builds_of w)) \<and>
       moves w v (d_id d) BClaimed (\<lambda>_. Some (n_id nd))) \<or>
    (\<exists>o'. r = Inr (False, o') \<and> (o' = NodeGone \<or> o' = TakenByOther)) \<or> (\<exists>e. r = Inl e)"
proof (cases "current_node_for_claim w (n_id nd)")
  case None
  then show ?thesis using run by (auto simp: claim_body_def bindM_def getM_def retM_def)
next
  case (Some current)
  let ?now = "clock w (clock_pos w)" and ?w = "w\<lparr>clock_pos := Suc (clock_pos w)\<rparr>"
  let ?p = "\<lambda>x. d_id x = d_id d \<and> d_build_status x = BPending"
  let ?f = "\<lambda>x. x\<lparr>d_build_status := BClaimed, d_build_node_id := Some (n_id nd), d_claimed_at := Some ?now\<rparr>"
  obtain a u where upd: "update_deployments_where ?p ?f ?w = (a, u)" by fastforce
  define rest where "rest = (\<lambda>affected :: nat. if affected = 0 then retM (False, TakenByOther)
       else
         bindM (case d_source_credential_version_id d of
                  None \<Rightarrow> retM None
                | Some version \<Rightarrow>
                    bindM (mapErr (\<lambda>e. Infrastructure claim_op (credential_error_text e))
                      (issue_lease lib random (n_id nd) (d_id d) version)) (\<lambda>lease. retM (Some lease))) (\<lambda>lease.
         bindM (tryM (append_event (d_id d) EvBuild ''build status changed to claimed''
           (JObj [(''status'', JStr ''claimed''), (''build_node_id'', JUuid (n_id nd))]))) (\<lambda>_.
         retM (True, ClaimedWithLease lease))))"
  have body: "claim_body lib random nd d w =
      bindM (mapErr (\<lambda>e. Infrastructure claim_op (AnyDb e)) (update_deployments_where ?p ?f)) rest ?w"
    using Some by (simp add: claim_body_def bindM_def getM_def now_utc_def rest_def)
  show ?thesis
  proof (cases a)
    case (Inl e)
    with upd run show ?thesis by (auto simp: body bindM_def mapErr_def)
  next
    case (Inr n)
    have n: "n = length (filter ?p (deployments w))" and
      u: "u = put_deployments (update_where ?p (\<lambda>x. touch_deployment (sql_now w) (?f x)) (deployments w)) ?w"
      using upd Inr by (auto simp: update_deployments_where_def exec_update_many_def Let_def split: option.splits)
    have step: "claim_body lib random nd d w = rest n u"
      using upd Inr by (simp add: body bindM_def mapErr_def)
    show ?thesis
    proof (cases "n = 0")
      case True
      with run step show ?thesis by (auto simp: rest_def retM_def)
    next
      case False
      then obtain x where x: "x \<in> set (deployments w)" "d_id x = d_id d" "d_build_status x = BPending"
        unfolding n by (auto simp: filter_empty_conv)
      have only: "y = x" if "y \<in> set (deployments w)" "d_id y = d_id d" for y
        using one x that by (auto simp: builds_of_def distinct_map inj_on_def build_row_def o_def)
      have pending: "d_build_status y = BPending" if "y \<in> set (deployments w)" "d_id y = d_id d" for y
        using only[OF that] x(3) by simp
      have "builds_of u = map (moved_to (d_id d) BClaimed (\<lambda>_. Some (n_id nd))) (builds_of w)"
        by (auto simp: u builds_of_def update_where_def build_row_def pending)
      then have "moves w u (d_id d) BClaimed (\<lambda>_. Some (n_id nd))"
        by (simp add: moves_def u put_deployments_def)
      moreover have "runs build_frame (rest n)"
        unfolding rest_def by (intro bf.rules build_frames frame_tryM)
      then have "build_frame u v" using run step by (auto dest: runsD)
      ultimately have m: "moves w v (d_id d) BClaimed (\<lambda>_. Some (n_id nd))" by (rule moves_frame[OF _ bf.same])
      have "(\<exists>lease. r = Inr (True, ClaimedWithLease lease)) \<or> (\<exists>e. r = Inl e)"
        using run step False by (auto simp: rest_def bindM_def retM_def tryM_def split: prod.splits sum.splits)
      moreover have "(d_id d, d_team_id x, BPending, d_build_node_id x) \<in> set (builds_of w)"
        using build_row_in[OF x(1)] x by (simp add: build_row_def)
      ultimately show ?thesis using m Some by blast
    qed
  qed
qed

lemma claim_transaction_cases:
  assumes run: "claim_transaction (claim_body lib random nd d) w = (r, v)"
    and one: "distinct (map fst (builds_of w))"
  shows "(\<exists>lease. r = Inr (ClaimedWithLease lease) \<and> current_node_for_claim w (n_id nd) \<noteq> None \<and>
       (\<exists>T n. (d_id d, T, BPending, n) \<in> set (builds_of w)) \<and>
       moves w v (d_id d) BClaimed (\<lambda>_. Some (n_id nd))) \<or>
    ((r = Inr NodeGone \<or> r = Inr TakenByOther \<or> (\<exists>e. r = Inl e)) \<and> build_frame w v)"
proof -
  obtain b u where body: "claim_body lib random nd d (begin_tx w) = (b, u)" by fastforce
  have start: "builds_of (begin_tx w) = builds_of w" "current_node_for_claim (begin_tx w) n = current_node_for_claim w n" for n
    by (simp_all add: builds_of_def begin_tx_def current_node_for_claim_def)
  show ?thesis
    using claim_body_cases[OF body] one run body
    by (auto simp: claim_transaction_def start frame_rollback intro: moves_frame[OF _ frame_begin frame_commit])
qed

section \<open>Every request keeps the count\<close>

lemma queue_ok_moves:
  assumes ok: "queue_ok now extra s" and m: "moves (sv_db s) w i st f"
    and row: "(i, t, st', n) \<in> set (builds_of (sv_db s))" and st: "st \<noteq> BPending"
    and live: "running st \<Longrightarrow> st' = BPending \<or> running st'"
    and level: "\<And>T. (if t = T \<and> running st then 1 else 0) + extra' T =
      (if t = T \<and> running st' then 1 else 0) + extra T"
  shows "queue_ok now extra' (s\<lparr>sv_db := w\<rparr>)"
proof -
  let ?rows = "builds_of (sv_db s)" and ?new = "map (moved_to i st f) (builds_of (sv_db s))"
  have one: "distinct (map fst ?rows)" using ok by (simp add: queue_ok_def rows_ok_def)
  have eq: "builds_of w = ?new" "clock w = clock (sv_db s)" using m by (simp_all add: moves_def)
  have fsts: "map fst ?new = map fst ?rows" by (simp add: o_def)
  have old: "(j, t2, st2, n2) \<in> set ?rows \<and> j \<noteq> i \<or> j = i \<and> st2 = st"
    if "(j, t2, st2, n2) \<in> set ?new" for j t2 st2 n2
    using that by (auto split: if_splits)
  have pend: "n' = None" if "(j, t2, BPending, n') \<in> set ?new" for j t2 n'
    using old[OF that] st ok by (auto simp: queue_ok_def rows_ok_def)
  have "length ?new < 2 ^ 51" using ok by (simp add: queue_ok_def rows_ok_def)
  with pend one have "rows_ok ?new" unfolding rows_ok_def fsts by blast
  then have rows: "rows_ok (builds_of w)" by (simp only: eq)
  have "int (held T ?new + extra' T) = int (held T ?rows + extra T)" for T
    using held_moved[OF one row, of T st f] level[of T] by auto
  then have levels: "int (held T (builds_of w) + extra' T) = int (held T ?rows + extra T)" for T
    by (simp only: eq)
  have "\<not> cache_present now (slot_release_key j) (sv_cache s)"
    if "(j, t2, st2, n2) \<in> set ?new" "st2 = BPending \<or> running st2" for j t2 st2 n2
    using old[OF that(1)] that(2) st live row ok unfolding queue_ok_def by blast
  then have marks: "\<forall>j t2 st2 n2. (j, t2, st2, n2) \<in> set (builds_of w) \<longrightarrow> st2 = BPending \<or> running st2 \<longrightarrow>
      \<not> cache_present now (slot_release_key j) (sv_cache s)"
    unfolding eq(1) by blast
  from ok rows levels marks show ?thesis by (simp add: queue_ok_def eq(2))
qed

lemma build_row_found: "get_by_id w did = Some d \<Longrightarrow> (did, d_team_id d, d_build_status d, d_build_node_id d) \<in> set (builds_of w)"
  using build_row_in[of d w] get_by_id_Some[of w did d] by (simp add: build_row_def)

text \<open>A build that ends: its row and then its slot.\<close>

lemma end_of_build:
  assumes ok: "queue_ok now no_extra s" and d: "get_by_id (sv_db s) did = Some d"
    and live: "running (d_build_status d)" and over: "st \<noteq> BPending" "\<not> running st"
    and m: "moves (sv_db s) w did st (\<lambda>n. n)"
    and run: "release_build_slot_once (d_team_id d) did (s\<lparr>sv_db := w\<rparr>) = (r, s')"
  shows "r = Inr () \<and> queue_ok now no_extra s' \<and> build_frame w (sv_db s')"
proof -
  note row = build_row_found[OF d]
  have one: "queue_ok now (one_for (d_team_id d)) (s\<lparr>sv_db := w\<rparr>)"
    by (rule queue_ok_moves[OF ok m row]) (use live over in \<open>auto simp: one_for_def no_extra_def\<close>)
  have ended: "st2 \<noteq> BPending \<and> \<not> running st2" if "(did, t, st2, n) \<in> set (builds_of w)" for t st2 n
    using that over m by (auto simp: moves_def split: if_splits)
  have unmarked: "\<not> cache_present now (slot_release_key did) (sv_cache s)"
    using ok row live by (fastforce simp: queue_ok_def)
  from release_once_step[OF one run] ended unmarked show ?thesis by simp
qed

definition same_deployments :: "service \<Rightarrow> service \<Rightarrow> bool" where
  "same_deployments s t \<longleftrightarrow> deployments (sv_db t) = deployments (sv_db s)"

interpretation dps: run_relation same_deployments
  by unfold_locales (simp_all add: same_deployments_def)

lemma deps_on_cache: "runs same_deployments (on_cache f)"
  by (rule runsI) (auto simp: on_cache_def now_utc_def same_deployments_def split: prod.splits)

lemma deps_refresh: "runs same_deployments (refresh_build_slot T)"
  unfolding refresh_build_slot_def by (intro idle_ignoreM dps.rules deps_on_cache)

text \<open>What remains after a progress report ended a build.\<close>

lemma idle_stage_tail:
  "runs (idle now) (bindM (charge_minutes cal team (d_id u) body) (\<lambda>_.
     bindM (if log_stored (d_project_id u) (d_id u)
            then ignoreM (on_db (record_build_log_artifact text u)) else retM ()) (\<lambda>_.
     retM (False, Some u))))"
  by (intro idl.rules idle_minutes idle_ignoreM idle_on_db build_frames)

lemma stage_report_keeps:
  assumes ok: "queue_ok now no_extra s" and d: "get_by_id (sv_db s) (d_id d) = Some d"
    and mine: "d_build_node_id d = Some (n_id nd)"
    and run: "stage_report cal text log_stored nd d body status s = (r, s')"
  shows "queue_ok now no_extra s'"
proof -
  let ?to = "reported_build_status status"
  note row = build_row_found[OF d]
  have "d_build_status d = BPending \<Longrightarrow> d_build_node_id d = None"
    using ok row unfolding queue_ok_def rows_ok_def by metis
  with mine have started: "d_build_status d \<noteq> BPending" by auto
  obtain a w where tx: "transaction (stage_body nd d body status) (sv_db s) = (a, w)" by fastforce
  note cases = stage_transaction_moves[OF tx d]
  have db: "on_db (transaction (stage_body nd d body status)) s = (a, s\<lparr>sv_db := w\<rparr>)"
    using tx by (simp add: on_db_def)
  show ?thesis
  proof (cases a)
    case (Inl e)
    then have "s' = s\<lparr>sv_db := w\<rparr>" using run db by (simp add: stage_report_def Let_def bindM_def)
    with queue_ok_frame[OF ok] cases Inl show ?thesis by simp
  next
    case (Inr p)
    obtain u tr where p: "p = (u, tr)" by (cases p)
    have id: "d_id u = d_id d" using cases Inr p by simp
    show ?thesis
    proof (cases "tr \<and> is_terminal_build ?to")
      case False
      then have s': "s' = s\<lparr>sv_db := w\<rparr>"
        using run db Inr p by (auto simp: stage_report_def Let_def bindM_def retM_def split: if_splits)
      show ?thesis
      proof (cases tr)
        case True
        with cases Inr p have m: "moves (sv_db s) w (d_id d) ?to (\<lambda>n. n)"
          and can: "can_transition_build (d_build_status d) ?to" by auto
        have "running ?to" "running (d_build_status d)"
          using False True can started by (cases status; cases "d_build_status d"; simp add: is_terminal_build_def)+
        then show ?thesis unfolding s' by (intro queue_ok_moves[OF ok m row]) (auto simp: no_extra_def)
      next
        case False
        with cases Inr p queue_ok_frame[OF ok] show ?thesis unfolding s' by simp
      qed
    next
      case True
      with cases Inr p have m: "moves (sv_db s) w (d_id d) ?to (\<lambda>n. n)"
        and can: "can_transition_build (d_build_status d) ?to" by auto
      have over: "?to \<noteq> BPending" "\<not> running ?to" and live: "running (d_build_status d)"
        using True can started by (cases status; cases "d_build_status d"; simp add: is_terminal_build_def)+
      obtain b x where rel: "(release_build_slot_once (d_team_id d) (d_id d) :: (app_error, unit) svm)
          (s\<lparr>sv_db := w\<rparr>) = (b, x)" by fastforce
      note ended = end_of_build[OF ok d live over m rel]
      have "bindM (charge_minutes cal (d_team_id d) (d_id u) body) (\<lambda>_.
          bindM (if log_stored (d_project_id u) (d_id u)
            then ignoreM (on_db (record_build_log_artifact text u)) else retM ()) (\<lambda>_.
          retM (False, Some u))) x = (r, s')"
        using run db Inr p True rel ended id by (simp add: stage_report_def Let_def bindM_def)
      then have "idle now x s'" by (rule runsD[OF idle_stage_tail])
      with ended show ?thesis by (blast intro: queue_ok_idle)
    qed
  qed
qed

lemma queue_ok_usable: "queue_ok now extra s \<Longrightarrow> usable now build_slot_ttl"
  using usable_ttls by (simp add: queue_ok_def)

lemma stage_from_keeps:
  assumes ok: "queue_ok now no_extra s" and d: "get_by_id (sv_db s) (d_id d) = Some d"
    and mine: "d_build_node_id d = Some (n_id nd)"
    and run: "stage_from cal text log_stored nd d body s = (r, s')"
  shows "queue_ok now no_extra s'"
proof -
  let ?get = "on_cache (\<lambda>now. cache_get now (CancelFlagKey (d_id d)))"
  obtain got s1 where got: "?get s = (got, s1)" by fastforce
  have ok1: "queue_ok now no_extra s1" by (rule queue_ok_idle[OF ok runsD[OF idle_flag(2) got]])
  have deps1: "deployments (sv_db s1) = deployments (sv_db s)"
    using runsD[OF deps_on_cache got] by (simp add: same_deployments_def)
  define flagged where "flagged = (case got of Inr (Some _) \<Rightarrow> True | _ \<Rightarrow> False)"
  show ?thesis
  proof (cases "cancellation_was_requested (d_build_status d) flagged")
    case True
    let ?m = "bindM (if sq_status body = Some RepCanceled then
                 bindM (ignoreM (on_cache (\<lambda>now. cache_delete now (CancelFlagKey (d_id d))))) (\<lambda>_.
                 charge_minutes cal (d_team_id d) (d_id d) body)
               else retM ()) (\<lambda>_. retM (True, None :: deployment option))"
    have "?m s1 = (r, s')"
      using run got True by (simp add: stage_from_def bindM_def tryM_def flagged_def Let_def)
    moreover have "runs (idle now) ?m"
      by (intro idl.rules idle_ignoreM idle_flag idle_minutes)
    ultimately show ?thesis using queue_ok_idle[OF ok1] by (blast dest: runsD)
  next
    case False
    obtain b s2 where ref: "(refresh_build_slot (d_team_id d) :: (app_error, unit) svm) s1 = (b, s2)" by fastforce
    have b: "b = Inr ()" using ref by (auto simp: refresh_build_slot_def ignoreM_def)
    have ok2: "queue_ok now no_extra s2"
      by (rule queue_ok_idle[OF ok1 runsD[OF idle_refresh[OF queue_ok_usable[OF ok1]] ref]])
    have deps2: "deployments (sv_db s2) = deployments (sv_db s)"
      using runsD[OF deps_refresh ref] deps1 by (simp add: same_deployments_def)
    then have d2: "get_by_id (sv_db s2) (d_id d) = Some d" using d by (simp add: get_by_id_def)
    show ?thesis
    proof (cases "sq_status body")
      case None
      let ?m = "bindM (case sq_stage body of
                     Some name \<Rightarrow>
                       bindM (mapErr (Infrastructure stage_op) (on_db (update_stage d name))) (\<lambda>_. retM ())
                   | None \<Rightarrow> retM ()) (\<lambda>_. retM (False, None :: deployment option))"
      have "?m s2 = (r, s')"
        using run got False ref b None
        by (simp add: stage_from_def bindM_def[of _ _ s] bindM_def[of _ _ s1] tryM_def flagged_def Let_def)
      moreover have "runs (idle now) ?m"
        by (intro idl.rules idle_on_db build_frames)
      ultimately show ?thesis using queue_ok_idle[OF ok2] by (blast dest: runsD)
    next
      case (Some status)
      have "stage_report cal text log_stored nd d body status s2 = (r, s')"
        using run got False ref b Some
        by (simp add: stage_from_def bindM_def[of _ _ s] bindM_def[of _ _ s1] tryM_def flagged_def Let_def)
      with stage_report_keeps[OF ok2 d2 mine] show ?thesis by blast
    qed
  qed
qed

lemma stage_keeps:
  assumes ok: "queue_ok now no_extra s" and run: "stage cal text log_stored nd did body s = (r, s')"
  shows "queue_ok now no_extra s'"
proof -
  obtain a w where own: "build_owned_deployment nd did stage_op (sv_db s) = (a, w)" by fastforce
  have w: "w = sv_db s"
    using own by (auto simp: build_owned_deployment_def bindM_def getM_def okOr_def retM_def failM_def
        split: option.splits if_splits)
  show ?thesis
  proof (cases a)
    case (Inl e)
    then have "s' = s" using run own w by (simp add: stage_def bindM_def on_db_def)
    with ok show ?thesis by simp
  next
    case (Inr d)
    have d: "get_by_id (sv_db s) did = Some d" "d_build_node_id d = Some (n_id nd)"
      using own Inr w by (auto simp: build_owned_deployment_def oper_Inr split: if_splits)
    then have id: "d_id d = did" by (auto dest: get_by_id_Some)
    have "stage_from cal text log_stored nd d body s = (r, s')"
      using run own Inr w by (simp add: stage_def bindM_def on_db_def)
    from stage_from_keeps[OF ok _ d(2) this] d(1) id show ?thesis by simp
  qed
qed

text \<open>Canceling.\<close>

lemma cancel_core_moves:
  assumes run: "cancel_deployment_core d actor op w = (r, v)"
  shows "case r of
      Inl e \<Rightarrow> build_frame w v
    | Inr (q, effects) \<Rightarrow> moves w v (d_id d) BCanceled (\<lambda>n. n) \<and>
        (\<exists>t. get_by_id w (d_id d) = Some t \<and> can_transition_build (d_build_status t) BCanceled) \<and>
        effects = (if cancellation_releases_build_slot (d_build_status d)
          then [SetCancelFlag (d_id d) (60 * 60 * 24), ReleaseBuildSlotOnce (d_team_id d) (d_id d)] else [])"
proof (cases r)
  case (Inl e)
  then have "\<exists>u. v = rollback_to w u"
    using run unfolding cancel_deployment_core_def
    by (auto simp: bindM_def[of "transaction _"] transaction_def retM_def split: prod.splits sum.splits)
  with Inl frame_rollback show ?thesis by auto
next
  case (Inr a)
  obtain q effects where a: "a = (q, effects)" by (cases a)
  let ?p = "\<lambda>q. \<lparr>ap_actor_user_id = Some actor, ap_actor_node_id = None, ap_team_id = Some (d_team_id d),
     ap_action = ''deployment.canceled'', ap_target_type = ''deployment'',
     ap_target_id = Some (d_id q), ap_result = AuditSuccess, ap_reason = None, ap_metadata = JObj []\<rparr>"
  obtain x y where step: "transition_unsuccessful_build (d_id d) canceled_by_user (begin_tx w) = (Inr q, x)"
    and audit: "create_audit_event (?p q) x = (Inr (), y)" and v: "v = commit_audits w y"
    and eff: "effects = (if cancellation_releases_build_slot (d_build_status d)
          then [SetCancelFlag (d_id q) (60 * 60 * 24), ReleaseBuildSlotOnce (d_team_id d) (d_id q)] else [])"
    using run Inr a by (auto simp: cancel_deployment_core_def oper_Inr transaction_Inr)
  from unsuccessful_moves[OF step] obtain t where t: "get_by_id (begin_tx w) (d_id d) = Some t"
    and m: "moves (begin_tx w) x (d_id d) BCanceled (\<lambda>n. n)"
    and can: "can_transition_build (d_build_status t) BCanceled" and q: "d_id q = d_id d"
    by (auto simp: get_by_id_for_update_def getM_def canceled_by_user_def)
  have "build_frame x v"
    unfolding v by (rule bf.join[OF runsD[OF frame_statements(7) audit] frame_commit])
  then have "moves w v (d_id d) BCanceled (\<lambda>n. n)" by (rule moves_frame[OF m frame_begin])
  moreover have "get_by_id w (d_id d) = Some t" using t by (simp add: get_by_id_def begin_tx_def)
  ultimately show ?thesis using Inr a can eff q by auto
qed

lemma cancel_from_keeps:
  assumes ok: "queue_ok now no_extra s" and d: "get_by_id (sv_db s) (d_id d) = Some d"
    and run: "cancel_from d actor op s = (r, s')"
  shows "queue_ok now no_extra s'"
proof -
  obtain a w where core: "cancel_deployment_core d actor op (sv_db s) = (a, w)" by fastforce
  note moved = cancel_core_moves[OF core]
  note row = build_row_found[OF d]
  show ?thesis
  proof (cases a)
    case (Inl e)
    then have "s' = s\<lparr>sv_db := w\<rparr>" using run core by (simp add: cancel_from_def bindM_def on_db_def)
    with queue_ok_frame[OF ok] moved Inl show ?thesis by simp
  next
    case (Inr p)
    obtain q effects where p: "p = (q, effects)" by (cases p)
    have m: "moves (sv_db s) w (d_id d) BCanceled (\<lambda>n. n)"
      and can: "can_transition_build (d_build_status d) BCanceled"
      and eff: "effects = (if cancellation_releases_build_slot (d_build_status d)
          then [SetCancelFlag (d_id d) (60 * 60 * 24), ReleaseBuildSlotOnce (d_team_id d) (d_id d)] else [])"
      using moved Inr p d by auto
    show ?thesis
    proof (cases "cancellation_releases_build_slot (d_build_status d)")
      case False
      then have "s' = s\<lparr>sv_db := w\<rparr>"
        using run core Inr p eff by (simp add: cancel_from_def bindM_def on_db_def retM_def)
      moreover have "\<not> running (d_build_status d)"
        using False by (cases "d_build_status d") (auto simp: cancellation_releases_build_slot_def)
      ultimately show ?thesis
        by (auto simp: no_extra_def intro!: queue_ok_moves[OF ok m row])
    next
      case True
      then have live: "running (d_build_status d)"
        by (cases "d_build_status d") (auto simp: cancellation_releases_build_slot_def)
      let ?flag = "cancel_effect_run (SetCancelFlag (d_id d) (60 * 60 * 24))"
      have idle_flag': "runs (idle now) ?flag" by (simp add: idle_ignoreM idle_flag)
      have always: "\<exists>x. ?flag u = (Inr (), x)" for u by (simp add: ignoreM_def)
      have always2: "\<exists>x. (release_build_slot_once T i :: (app_error, unit) svm) u = (Inr (), x)" for T i u
        by (simp add: release_build_slot_once_def ignoreM_def)
      obtain u where flag: "?flag (s\<lparr>sv_db := w\<rparr>) = (Inr (), u)" using always by blast
      obtain x where rel: "(release_build_slot_once (d_team_id d) (d_id d) :: (app_error, unit) svm) u = (Inr (), x)"
        using always2 by blast
      have s': "s' = x"
        using run core Inr p eff True flag rel
        by (simp add: cancel_from_def bindM_def on_db_def retM_def del: cancel_effect_run.simps(1))
      have "queue_ok now (one_for (d_team_id d)) (s\<lparr>sv_db := w\<rparr>)"
        by (rule queue_ok_moves[OF ok m row]) (use live in \<open>auto simp: one_for_def no_extra_def\<close>)
      then have one: "queue_ok now (one_for (d_team_id d)) u" by (rule queue_ok_idle[OF _ runsD[OF idle_flag' flag]])
      have idle: "idle now (s\<lparr>sv_db := w\<rparr>) u" by (rule runsD[OF idle_flag' flag])
      have rows: "builds_of (sv_db u) = builds_of w" using idle by (simp add: idle_def build_frame_def)
      have sound: "clock w = (\<lambda>_. now)" "slots_sound now (sv_cache s)"
        using ok m by (simp_all add: queue_ok_def moves_def)
      have ended: "st \<noteq> BPending \<and> \<not> running st" if "(d_id d, t, st, n) \<in> set (builds_of (sv_db u))" for t st n
        using that m unfolding rows by (auto simp: moves_def split: if_splits)
      have "\<not> cache_present now (slot_release_key (d_id d)) (sv_cache s)"
        using ok row live unfolding queue_ok_def by blast
      then have "\<not> cache_present now (slot_release_key (d_id d)) (sv_cache u)"
        using idle sound by (simp add: idle_def same_slots_def)
      from release_once_step[OF one rel] ended this show ?thesis unfolding s' by blast
    qed
  qed
qed

lemma cancel_keeps:
  assumes ok: "queue_ok now no_extra s" and run: "cancel_request actor pid did s = (r, s')"
  shows "queue_ok now no_extra s'"
proof -
  let ?op = "''deployments.cancel''"
  define pre where "pre = bindM (load_access actor pid ScopeActive ?op) (\<lambda>access.
     bindM (liftR (require_member access ?op)) (\<lambda>_. load_deployment access did ?op))"
  obtain a w where a: "pre (sv_db s) = (a, w)" by fastforce
  have w: "w = sv_db s"
    using a by (auto simp: pre_def load_access_def load_deployment_def oper_defs split: option.splits sum.splits if_splits)
  have split: "cancel actor pid did = bindM pre (\<lambda>d. cancel_deployment_core d actor ?op)"
    by (auto simp: cancel_def pre_def bindM_def fun_eq_iff Let_def split: prod.splits sum.splits)
  show ?thesis
  proof (cases a)
    case (Inl e)
    then have "s' = s" using run a w by (simp add: cancel_request_def split bindM_def on_db_def)
    with ok show ?thesis by simp
  next
    case (Inr d)
    then have d: "get_by_id (sv_db s) did = Some d"
      using a by (auto simp: pre_def load_access_def load_deployment_def oper_Inr split: if_splits)
    then have id: "d_id d = did" by (auto dest: get_by_id_Some)
    have "cancel_from d actor ?op s = (r, s')"
      using run a w Inr by (simp add: cancel_request_def cancel_from_def split bindM_def on_db_def)
    from cancel_from_keeps[OF ok _ this] d id show ?thesis by simp
  qed
qed

text \<open>
  Claiming. \<open>granted w v nd cd\<close>: from \<open>w\<close> to \<open>v\<close> exactly one build moved, a pending one that the Node
  \<open>nd\<close>, active and allowed to build, now holds, and its team is within its limit of running builds.
\<close>

definition granted :: "world \<Rightarrow> world \<Rightarrow> node \<Rightarrow> claimed_deployment \<Rightarrow> bool" where
  "granted w v nd cd \<longleftrightarrow>
     (\<exists>t q n. (cd_deployment_id cd, cd_team_id cd, BPending, n) \<in> set (builds_of w) \<and>
        moves w v (cd_deployment_id cd) BClaimed (\<lambda>_. Some (n_id nd)) \<and>
        current_node_for_claim w (n_id nd) \<noteq> None \<and>
        team_by_id w (cd_team_id cd) = Some t \<and> resolve_team_quota t w = (Inr q, w) \<and>
        (0 \<le> slot_limit q \<longrightarrow> int (held (cd_team_id cd) (builds_of v)) \<le> slot_limit q))"

lemma resolve_frame:
  assumes "build_frame w v" "resolve_team_quota t v = (Inr q, v)"
  shows "resolve_team_quota t w = (Inr q, w)"
proof -
  have same: "quota_plans v = quota_plans w" "team_groups v = team_groups w" "quota_limits v = quota_limits w"
    using assms(1) by (simp_all add: build_frame_def)
  then have plans: "plan_by_id v = plan_by_id w" "default_plan v = default_plan w"
    by (simp_all add: fun_eq_iff plan_by_id_def default_plan_def)
  have group: "group_plan v = group_plan w" unfolding fun_eq_iff group_plan_def same plans by simp
  have "resolve_plan v t = resolve_plan w t" unfolding resolve_plan_def plans group by simp
  with same(3) assms(2) show ?thesis
    by (auto simp: resolve_team_quota_def bindM_def getM_def liftR_def retM_def failM_def split: sum.splits prod.splits)
qed

lemma granted_frame:
  assumes "build_frame w u" "granted u v nd cd"
  shows "granted w v nd cd"
proof -
  obtain t q n where g: "(cd_deployment_id cd, cd_team_id cd, BPending, n) \<in> set (builds_of u)"
    "moves u v (cd_deployment_id cd) BClaimed (\<lambda>_. Some (n_id nd))"
    "current_node_for_claim u (n_id nd) \<noteq> None" "team_by_id u (cd_team_id cd) = Some t"
    "resolve_team_quota t u = (Inr q, u)"
    "0 \<le> slot_limit q \<longrightarrow> int (held (cd_team_id cd) (builds_of v)) \<le> slot_limit q"
    using assms(2) by (auto simp: granted_def)
  have "builds_of u = builds_of w" "nodes u = nodes w" "teams u = teams w"
    using assms(1) by (simp_all add: build_frame_def)
  with g moves_frame[OF g(2) assms(1) bf.same] resolve_frame[OF assms(1) g(5)] show ?thesis
    unfolding granted_def by (auto simp: current_node_for_claim_def team_by_id_def)
qed

lemma release_back:
  fixes k :: "(app_error, 'a) svm"
  assumes "queue_ok now (one_for T) s" "(bindM (release_build_slot T) (\<lambda>_. k)) s = (r, s')"
    "\<And>u. snd (k u) = u"
  shows "queue_ok now no_extra s' \<and> build_frame (sv_db s) (sv_db s') \<and> (\<exists>u. r = fst (k u))"
proof -
  obtain b u where rel: "(release_build_slot T :: (app_error, unit) svm) s = (b, u)" by fastforce
  note step = release_slot_step[OF assms(1) rel]
  have "k u = (r, s')" using assms(2) rel step by (simp add: bindM_def)
  with step assms(3)[of u] show ?thesis by (metis fst_conv snd_conv)
qed

lemma claim_one_cases:
  assumes ok: "queue_ok now no_extra s" and row: "build_row d \<in> set (builds_of (sv_db s))"
    and run: "claim_one cal lib random nd d s = (r, s')"
  shows "queue_ok now no_extra s' \<and>
    ((\<exists>cd. r = Inr (Some (Some cd)) \<and> cd_deployment_id cd = d_id d \<and> granted (sv_db s) (sv_db s') nd cd) \<or>
     ((r = Inr None \<or> r = Inr (Some None) \<or> (\<exists>e. r = Inl e)) \<and> build_frame (sv_db s) (sv_db s')))"
proof (cases "team_by_id (sv_db s) (d_team_id d)")
  case None
  then have "s' = s" "\<exists>e. r = Inl e"
    using run by (auto simp: claim_one_def team_for_def on_db_def bindM_def getM_def failM_def)
  with ok show ?thesis by (auto simp: bf.same)
next
  case (Some t)
  have tid: "t_id t = d_team_id d" using Some by (auto simp: team_by_id_def find_Some_iff)
  have team: "on_db (team_for (d_team_id d)) s = (Inr t, s)"
    using Some by (simp add: team_for_def on_db_def bindM_def getM_def retM_def)
  obtain a s1 where acq: "acquire_build_slot cal claim_op t s = (a, s1)" by fastforce
  note step = acquire_slot_step[OF ok acq]
  show ?thesis
  proof (cases "a = Inr True")
    case False
    then have "s' = s1" "r = Inr None \<or> (\<exists>e. r = Inl e)"
      using run team acq by (cases a; auto simp: claim_one_def bindM_def retM_def)+
    with step False show ?thesis by auto
  next
    case True
    then obtain q where ok1: "queue_ok now (one_for (t_id t)) s1" and frame1: "build_frame (sv_db s) (sv_db s1)"
      and q: "resolve_team_quota t (sv_db s) = (Inr q, sv_db s)"
        "slot_limit q < 0 \<or> int (held (t_id t) (builds_of (sv_db s))) < slot_limit q"
      using step by auto
    obtain l s2 where lim: "scalar_limit claim_op t BuildTimeoutSeconds s1 = (l, s2)" by fastforce
    have s2: "s2 = s1"
      using lim by (auto simp: scalar_limit_def bindM_def mapErr_def on_db_def retM_def
          split: prod.splits sum.splits dest!: resolve_unchanged)
    obtain x w where tx: "claim_transaction (claim_body lib random nd d) (sv_db s1) = (x, w)" by fastforce
    have rows1: "builds_of (sv_db s1) = builds_of (sv_db s)" using frame1 by (simp add: build_frame_def)
    have one: "distinct (map fst (builds_of (sv_db s1)))" using ok1 by (simp add: queue_ok_def rows_ok_def)
    show ?thesis
    proof (cases l)
      case (Inl e)
      then have "bindM (release_build_slot (t_id t)) (\<lambda>_. failM e) s1 = (r, s')"
        using run team acq True lim s2 by (simp add: claim_one_def bindM_def tryM_def)
      from release_back[OF ok1 this] frame1 show ?thesis by (auto simp: failM_def intro: bf.join)
    next
      case (Inr timeout)
      define rest where "rest = (\<lambda>x :: app_error + claim_outcome. case x of
             Inl e \<Rightarrow> bindM (release_build_slot (t_id t)) (\<lambda>_. failM e)
           | Inr NodeGone \<Rightarrow> bindM (release_build_slot (t_id t)) (\<lambda>_. retM (Some None))
           | Inr TakenByOther \<Rightarrow> bindM (release_build_slot (t_id t)) (\<lambda>_. retM None)
           | Inr (ClaimedWithLease lease) \<Rightarrow> retM (Some (Some (claimed_of d timeout lease))))"
      have run2: "rest x (s1\<lparr>sv_db := w\<rparr>) = (r, s')"
        using run team acq True lim s2 Inr tx
        by (simp add: claim_one_def bindM_def[of _ _ s] bindM_def[of _ _ s1] tryM_def on_db_def rest_def
            cong: sum.case_cong claim_outcome.case_cong)
      from claim_transaction_cases[OF tx one] show ?thesis
      proof (elim disjE exE conjE)
        fix lease T n
        assume x: "x = Inr (ClaimedWithLease lease)"
          and node: "current_node_for_claim (sv_db s1) (n_id nd) \<noteq> None"
          and pend: "(d_id d, T, BPending, n) \<in> set (builds_of (sv_db s1))"
          and m: "moves (sv_db s1) w (d_id d) BClaimed (\<lambda>_. Some (n_id nd))"
        have out: "r = Inr (Some (Some (claimed_of d timeout lease)))" "s' = s1\<lparr>sv_db := w\<rparr>"
          using run2 x by (simp_all add: rest_def retM_def)
        have T: "T = t_id t" and bn: "n = d_build_node_id d"
          using eq_key_imp_eq_value[OF one, of "d_id d" "(T, BPending, n)"
              "(d_team_id d, d_build_status d, d_build_node_id d)"] pend row rows1 tid
          by (auto simp: build_row_def)
        have "queue_ok now no_extra (s1\<lparr>sv_db := w\<rparr>)"
          by (rule queue_ok_moves[OF ok1 m pend]) (use T in \<open>auto simp: one_for_def no_extra_def\<close>)
        moreover have "held (t_id t) (builds_of w) = held (t_id t) (builds_of (sv_db s)) + 1"
          using held_moved[OF one pend, of "t_id t" BClaimed "\<lambda>_. Some (n_id nd)"] m T rows1
          by (simp add: moves_def)
        moreover have "granted (sv_db s1) w nd (claimed_of d timeout lease)"
          unfolding granted_def
        proof (intro exI[of _ t] exI[of _ q] exI[of _ n] conjI impI)
          show "(cd_deployment_id (claimed_of d timeout lease), cd_team_id (claimed_of d timeout lease), BPending, n)
              \<in> set (builds_of (sv_db s1))"
            using pend T tid by (simp add: claimed_of_def)
          show "moves (sv_db s1) w (cd_deployment_id (claimed_of d timeout lease)) BClaimed (\<lambda>_. Some (n_id nd))"
            using m by (simp add: claimed_of_def)
          show "team_by_id (sv_db s1) (cd_team_id (claimed_of d timeout lease)) = Some t"
            using Some frame1 by (simp add: claimed_of_def team_by_id_def build_frame_def)
          have "build_frame (sv_db s1) (sv_db s)" using frame1 by (simp add: build_frame_def)
          from resolve_frame[OF this q(1)]
          show "resolve_team_quota t (sv_db s1) = (Inr q, sv_db s1)" .
          assume "0 \<le> slot_limit q"
          then show "int (held (cd_team_id (claimed_of d timeout lease)) (builds_of w)) \<le> slot_limit q"
            using q(2) \<open>held (t_id t) (builds_of w) = _\<close> tid by (simp add: claimed_of_def)
        qed (use node in simp)
        then have "granted (sv_db s) (sv_db s') nd (claimed_of d timeout lease)"
          using granted_frame[OF frame1] out(2) by simp
        ultimately show ?thesis using out by (auto simp: claimed_of_def)
      next
        assume frame: "build_frame (sv_db s1) w" and x: "x = Inr NodeGone"
        have "bindM (release_build_slot (t_id t)) (\<lambda>_. retM (Some None)) (s1\<lparr>sv_db := w\<rparr>) = (r, s')"
          using run2 x by (simp add: rest_def)
        from release_back[OF queue_ok_frame[OF ok1 frame] this] bf.join[OF frame1 frame]
        show ?thesis by (auto simp: retM_def intro: bf.join)
      next
        assume frame: "build_frame (sv_db s1) w" and x: "x = Inr TakenByOther"
        have "bindM (release_build_slot (t_id t)) (\<lambda>_. retM None) (s1\<lparr>sv_db := w\<rparr>) = (r, s')"
          using run2 x by (simp add: rest_def)
        from release_back[OF queue_ok_frame[OF ok1 frame] this] bf.join[OF frame1 frame]
        show ?thesis by (auto simp: retM_def intro: bf.join)
      next
        fix e
        assume frame: "build_frame (sv_db s1) w" and x: "x = Inl e"
        have "bindM (release_build_slot (t_id t)) (\<lambda>_. failM e) (s1\<lparr>sv_db := w\<rparr>) = (r, s')"
          using run2 x by (simp add: rest_def)
        from release_back[OF queue_ok_frame[OF ok1 frame] this] bf.join[OF frame1 frame]
        show ?thesis by (auto simp: failM_def intro: bf.join)
      qed
    qed
  qed
qed

lemma claim_loop_cases:
  assumes "queue_ok now no_extra s" "build_row ` set ds \<subseteq> set (builds_of (sv_db s))"
    and "claim_loop cal lib random nd ds s = (r, s')"
  shows "queue_ok now no_extra s' \<and>
    (\<forall>cd. r = Inr (Some cd) \<longrightarrow> granted (sv_db s) (sv_db s') nd cd) \<and>
    ((\<nexists>cd. r = Inr (Some cd)) \<longrightarrow> build_frame (sv_db s) (sv_db s'))"
  using assms
proof (induction ds arbitrary: s)
  case Nil
  then show ?case by (auto simp: retM_def bf.same)
next
  case (Cons d ds)
  obtain x u where step: "claim_one cal lib random nd d s = (x, u)" by fastforce
  note one = claim_one_cases[OF Cons.prems(1) _ step]
  have row: "build_row d \<in> set (builds_of (sv_db s))" using Cons.prems(2) by simp
  show ?case
  proof (cases "x = Inr None")
    case True
    then have rest: "claim_loop cal lib random nd ds u = (r, s')"
      using Cons.prems(3) step by (simp add: bindM_def)
    have u: "queue_ok now no_extra u" "build_frame (sv_db s) (sv_db u)" using one[OF row] True by auto
    then have "build_row ` set ds \<subseteq> set (builds_of (sv_db u))"
      using Cons.prems(2) by (simp add: build_frame_def)
    from Cons.IH[OF u(1) this rest] u(2) show ?thesis
      by (auto intro: granted_frame bf.join)
  next
    case False
    then have "s' = u" "(r = Inr None \<and> x = Inr (Some None)) \<or> (\<exists>e. r = Inl e \<and> x = Inl e) \<or>
        (\<exists>cd. r = Inr (Some cd) \<and> x = Inr (Some (Some cd)))"
      using Cons.prems(3) step by (cases x; auto simp: bindM_def retM_def split: option.splits)+
    with one[OF row] show ?thesis by auto
  qed
qed

lemma claim_cases:
  assumes ok: "queue_ok now no_extra s" and run: "claim cal lib random nd capacity s = (r, s')"
  shows "queue_ok now no_extra s' \<and>
    (\<forall>cd. r = Inr (Some cd) \<longrightarrow> granted (sv_db s) (sv_db s') nd cd) \<and>
    ((\<nexists>cd. r = Inr (Some cd)) \<longrightarrow> build_frame (sv_db s) (sv_db s'))"
proof (cases "n_build_enabled nd \<and> capacity \<noteq> 0 \<and> can_claim_new_build (n_status nd)")
  case True
  then have loop: "claim_loop cal lib random nd (claim_candidates (sv_db s)) s = (r, s')"
    using run by (simp add: claim_def bindM_def getM_def)
  have "set (claim_candidates (sv_db s)) \<subseteq> set (deployments (sv_db s))"
    by (auto simp: claim_candidates_def dest: in_set_takeD)
  then have "build_row ` set (claim_candidates (sv_db s)) \<subseteq> set (builds_of (sv_db s))"
    by (auto simp: builds_of_def)
  from claim_loop_cases[OF ok this loop] show ?thesis .
next
  case False
  then have "s' = s" "\<nexists>cd. r = Inr (Some cd)"
    using run by (auto simp: claim_def failM_def retM_def split: if_splits)
  with ok show ?thesis by (auto simp: bf.same)
qed

section \<open>Histories of the queue\<close>

text \<open>
  A history of the control plane as the queue sees it: claims, progress reports and cancellations
  as the handlers run them, new pending deployments, any other request that is \<open>idle\<close> for the queue, and
  time. Two assumptions are built in: a request reads one time, as a request is short against the lifetime of
  a slot (30 minutes, renewed by every report); and \<open>later\<close>, the passing of time, is a step only while no slot
  counter expires, that is while every running build reports in time.
\<close>

definition enqueued :: "service \<Rightarrow> service \<Rightarrow> bool" where
  "enqueued s t \<longleftrightarrow> (\<exists>i T. builds_of (sv_db t) = builds_of (sv_db s) @ [(i, T, BPending, None)] \<and>
     clock (sv_db t) = clock (sv_db s) \<and> sv_cache t = sv_cache s \<and>
     i \<notin> fst ` set (builds_of (sv_db s)) \<and> length (builds_of (sv_db s)) < 2 ^ 51 - 1 \<and>
     (\<forall>now. \<not> cache_present now (slot_release_key i) (sv_cache s)))"

definition later :: "time \<Rightarrow> time \<Rightarrow> service \<Rightarrow> service \<Rightarrow> bool" where
  "later now now' s t \<longleftrightarrow> now \<le> now' \<and> unix_timestamp now' < 2 ^ 62 \<and>
     t = s\<lparr>sv_db := (sv_db s)\<lparr>clock := (\<lambda>_. now')\<rparr>\<rparr> \<and>
     (\<forall>T. cache_sound now' (slot_key T) (sv_cache s) \<and>
          cache_level now' (slot_key T) (sv_cache s) = cache_level now (slot_key T) (sv_cache s)) \<and>
     (\<forall>i. cache_present now' (slot_release_key i) (sv_cache s) \<longrightarrow>
          cache_present now (slot_release_key i) (sv_cache s))"

definition empty_queue :: "time \<Rightarrow> service \<Rightarrow> bool" where
  "empty_queue now s \<longleftrightarrow> clock (sv_db s) = (\<lambda>_. now) \<and> 0 \<le> now \<and> unix_timestamp now < 2 ^ 62 \<and>
     deployments (sv_db s) = [] \<and> (sv_cache s = MokaStore (\<lambda>_. None) \<or> sv_cache s = RedisStore (\<lambda>_. None))"

inductive queue_reachable :: "time \<Rightarrow> service \<Rightarrow> bool" where
  start: "empty_queue now s \<Longrightarrow> queue_reachable now s"
| claimed: "queue_reachable now s \<Longrightarrow> claim cal lib random nd capacity s = (r, t) \<Longrightarrow> queue_reachable now t"
| reported: "queue_reachable now s \<Longrightarrow> stage cal text log_stored nd did body s = (r, t) \<Longrightarrow> queue_reachable now t"
| canceled: "queue_reachable now s \<Longrightarrow> cancel_request actor pid did s = (r, t) \<Longrightarrow> queue_reachable now t"
| created: "queue_reachable now s \<Longrightarrow> enqueued s t \<Longrightarrow> queue_reachable now t"
| other: "queue_reachable now s \<Longrightarrow> idle now s t \<Longrightarrow> queue_reachable now t"
| passed: "queue_reachable now s \<Longrightarrow> later now now' s t \<Longrightarrow> queue_reachable now' t"

lemma queue_ok_start:
  assumes "empty_queue now s"
  shows "queue_ok now no_extra s"
proof -
  have "\<not> cache_present now k (sv_cache s)" for k
    using assms by (auto simp: empty_queue_def cache_present_def moka_present_def entry_get_def)
  then have "cache_sound now k (sv_cache s) \<and> cache_level now k (sv_cache s) = 0" for k
    by (rule cs.absent_zero)
  with assms show ?thesis
    by (simp add: queue_ok_def empty_queue_def proper_time_def rows_ok_def builds_of_def slots_sound_def held_def
        no_extra_def)
qed

lemma queue_ok_enqueued:
  assumes ok: "queue_ok now no_extra s" and new: "enqueued s t"
  shows "queue_ok now no_extra t"
proof -
  obtain i T where rows: "builds_of (sv_db t) = builds_of (sv_db s) @ [(i, T, BPending, None)]"
    and same: "clock (sv_db t) = clock (sv_db s)" "sv_cache t = sv_cache s"
    and fresh: "i \<notin> fst ` set (builds_of (sv_db s))" and room: "length (builds_of (sv_db s)) < 2 ^ 51 - 1"
    and unmarked: "\<forall>now. \<not> cache_present now (slot_release_key i) (sv_cache s)"
    using new by (auto simp: enqueued_def)
  have "rows_ok (builds_of (sv_db t))" using ok fresh room by (auto simp: rows queue_ok_def rows_ok_def)
  moreover have "held T' (builds_of (sv_db t)) = held T' (builds_of (sv_db s))" for T'
    by (simp add: rows held_def)
  ultimately show ?thesis using ok unmarked by (auto simp: queue_ok_def same rows)
qed

lemma queue_ok_later:
  assumes ok: "queue_ok now no_extra s" and time: "later now now' s t"
  shows "queue_ok now' no_extra t"
proof -
  have t: "sv_cache t = sv_cache s" "clock (sv_db t) = (\<lambda>_. now')" "builds_of (sv_db t) = builds_of (sv_db s)"
    using time by (auto simp: later_def builds_of_def)
  have "proper_time now'" using ok time by (simp add: queue_ok_def later_def proper_time_def)
  moreover have "slots_sound now' (sv_cache s)"
    "\<And>T. cache_level now' (slot_key T) (sv_cache s) = cache_level now (slot_key T) (sv_cache s)"
    "\<And>i. cache_present now' (slot_release_key i) (sv_cache s) \<Longrightarrow> cache_present now (slot_release_key i) (sv_cache s)"
    using time by (simp_all add: later_def slots_sound_def)
  ultimately show ?thesis using ok unfolding queue_ok_def t by metis
qed

lemma queue_reachable_ok: "queue_reachable now s \<Longrightarrow> queue_ok now no_extra s"
  by (induction rule: queue_reachable.induct)
  (auto intro: queue_ok_start queue_ok_enqueued queue_ok_idle queue_ok_later stage_keeps cancel_keeps
    dest: claim_cases)

text \<open>
  Along such a history, with its requests one after the other and no slot counter expired, the slot counter
  of a team is exactly the number of deployments of the team that are claimed, queued or building: no slot is
  lost when a build ends or is canceled, and none is given back twice. A counter that expires while a build
  runs (no report for 30 minutes) starts again at zero, and \<open>stale_cancel_leaks_slot\<close> and
  \<open>stale_report_revives\<close> below show what interleaved requests do.
\<close>

theorem build_slots_exact:
  assumes "queue_reachable now s"
  shows "cache_level now (slot_key T) (sv_cache s) =
    int (length (filter (\<lambda>d. d_team_id d = T \<and> d_build_status d \<in> {BClaimed, BQueued, BBuilding})
      (deployments (sv_db s))))"
proof -
  have "held_by T (build_row d) \<longleftrightarrow> d_team_id d = T \<and> d_build_status d \<in> {BClaimed, BQueued, BBuilding}" for d
    by (cases "d_build_status d") (auto simp: build_row_def)
  then have "held T (builds_of (sv_db s)) =
      length (filter (\<lambda>d. d_team_id d = T \<and> d_build_status d \<in> {BClaimed, BQueued, BBuilding}) (deployments (sv_db s)))"
    by (simp add: held_def builds_of_def filter_map o_def)
  with queue_reachable_ok[OF assms] show ?thesis by (simp add: queue_ok_def no_extra_def)
qed

text \<open>
  C34. A claim that is granted takes exactly one pending build of the queue, gives it to the Node that asked,
  which is active and may build, and keeps the team within the builds its plan lets it run at once; a
  claim that is not granted leaves every build as it was.
\<close>

theorem claim_within_limit:
  assumes "queue_reachable now s" and "claim cal lib random nd capacity s = (r, s')"
  shows "(\<forall>cd. r = Inr (Some cd) \<longrightarrow> granted (sv_db s) (sv_db s') nd cd) \<and>
    ((\<nexists>cd. r = Inr (Some cd)) \<longrightarrow> build_frame (sv_db s) (sv_db s'))"
  using claim_cases[OF queue_reachable_ok[OF assms(1)] assms(2)] by blast

section \<open>Decisions on a row that has changed\<close>

text \<open>
  The handlers read the deployment before their transaction. \<open>cancel_deployment_core\<close> decides from that
  row whether the build holds a slot: when a Node claims the build in between, the build is canceled, and
  its slot stays taken. No later report gives it back, because a canceled build answers every report
  before the slot is released.
\<close>

lemma canceled_reports_idle:
  assumes canceled: "\<And>d. get_by_id (sv_db s) did = Some d \<Longrightarrow> d_build_status d = BCanceled"
    and run: "stage cal text log_stored nd did body s = (r, u)"
  shows "idle now s u"
proof -
  obtain a w where own: "build_owned_deployment nd did stage_op (sv_db s) = (a, w)" by fastforce
  have w: "w = sv_db s"
    using own by (auto simp: build_owned_deployment_def bindM_def getM_def okOr_def retM_def failM_def
        split: option.splits if_splits)
  show ?thesis
  proof (cases a)
    case (Inl e)
    then have "u = s" using run own w by (simp add: stage_def bindM_def on_db_def)
    then show ?thesis by (simp add: idl.same)
  next
    case (Inr d)
    have "get_by_id (sv_db s) did = Some d"
      using own Inr w by (auto simp: build_owned_deployment_def oper_Inr split: if_splits)
    then have gone: "cancellation_was_requested (d_build_status d) flagged" for flagged
      using canceled by (simp add: cancellation_was_requested_def)
    let ?get = "on_cache (\<lambda>now. cache_get now (CancelFlagKey (d_id d)))"
    let ?m = "bindM (if sq_status body = Some RepCanceled then
                 bindM (ignoreM (on_cache (\<lambda>now. cache_delete now (CancelFlagKey (d_id d))))) (\<lambda>_.
                 charge_minutes cal (d_team_id d) (d_id d) body)
               else retM ()) (\<lambda>_. retM (True, None :: deployment option))"
    have "bindM (tryM ?get) (\<lambda>_ :: anyhow + string option. ?m) s = (r, u)"
      using run own Inr w gone
      by (simp add: stage_def stage_from_def Let_def bindM_def[of "on_db _"] on_db_def bindM_def[of "tryM _"] tryM_def)
    moreover have "runs (idle now) (bindM (tryM ?get) (\<lambda>_ :: anyhow + string option. ?m))"
      by (intro idl.rules frame_tryM idle_ignoreM idle_flag idle_minutes)
    ultimately show ?thesis by (blast dest: runsD)
  qed
qed

theorem stale_cancel_leaks_slot:
  assumes con: "deployments_con (deployments (sv_db s)) = None"
    and now_claimed: "get_by_id (sv_db s) (d_id d) = Some t" "d_build_status t = BClaimed"
    and was_pending: "d_build_status d = BPending"
    and idle: "d_pending_release_reason t = None" "d_release_status t \<noteq> RActive"
  shows "\<exists>q s'. cancel_from d actor op s = (Inr q, s') \<and> d_build_status q = BCanceled \<and>
    sv_cache s' = sv_cache s \<and>
    (\<forall>cal text log_stored nd body r u now.
       stage cal text log_stored nd (d_id d) body s' = (r, u) \<longrightarrow> idle now s' u)"
proof -
  obtain q v where core: "cancel_deployment_core d actor op (sv_db s) = (Inr (q, []), v)" "d_build_status q = BCanceled"
    using cancel_frees_capacity[OF con now_claimed(1) _ idle, of actor op] now_claimed(2) was_pending by auto
  have moved: "moves (sv_db s) v (d_id d) BCanceled (\<lambda>n. n)" using cancel_core_moves[OF core(1)] by simp
  have "cancel_from d actor op s = (Inr q, s\<lparr>sv_db := v\<rparr>)"
    using core(1) by (simp add: cancel_from_def bindM_def on_db_def retM_def)
  moreover have "d_build_status x = BCanceled" if "get_by_id v (d_id d) = Some x" for x
    using build_row_found[OF that] moved by (auto simp: moves_def split: if_splits)
  ultimately show ?thesis
    using core(2) canceled_reports_idle[of "s\<lparr>sv_db := v\<rparr>" "d_id d"] by auto
qed

text \<open>
  The transaction of a progress report writes the status over the row it read before: when the build is
  canceled in between, a report of progress brings it back.
\<close>

lemma stage_audit_writes:
  "\<exists>y. stage_audit nd team did action by_node result reason metadata v = (Inr (), y) \<and> deployments y = deployments v"
proof -
  let ?p = "\<lparr>ap_actor_user_id = None, ap_actor_node_id = (if by_node then Some (n_id nd) else None),
        ap_team_id = Some team, ap_action = action, ap_target_type = ''deployment'',
        ap_target_id = Some did, ap_result = result, ap_reason = reason, ap_metadata = metadata\<rparr>"
  obtain e where "create_audit_event ?p v = (Inr (), v\<lparr>uuid_pos := Suc (uuid_pos v),
      clock_pos := Suc (clock_pos v), audit_log := audit_log v @ [e]\<rparr>)"
    using create_audit_event_run[of ?p v] by blast
  then show ?thesis unfolding stage_audit_def by (simp add: mapErr_def)
qed

lemma find_live_update:
  assumes "\<And>x. d_id (f x) = d_id x" "\<And>x. d_deleted_at (f x) = d_deleted_at x"
  shows "find (\<lambda>x. d_id x = i \<and> d_deleted_at x = None) (update_where (\<lambda>x. d_id x = i) f rows) =
    map_option f (find (\<lambda>x. d_id x = i \<and> d_deleted_at x = None) rows)"
  using assms by (induction rows) (auto simp: update_where_def)

lemma progress_audits_write:
  "\<exists>y. stage_audits nd d body RepBuilding u True ActNone v = (Inr (), y) \<and> deployments y = deployments v"
proof (cases "d_build_status d = BBuilding")
  case True
  then show ?thesis by (simp add: stage_audits_def is_terminal_build_def retM_def)
next
  case False
  obtain y where "stage_audit nd (d_team_id d) (d_id u) ''deployment.build_started'' True AuditSuccess None
      (JObj [(''build_node_id'', JUuid (n_id nd))]) v = (Inr (), y)" "deployments y = deployments v"
    using stage_audit_writes by blast
  with False show ?thesis by (simp add: stage_audits_def is_terminal_build_def retM_def bindM_def)
qed

theorem stale_report_revives:
  assumes con: "deployments_con (deployments (sv_db s)) = None"
    and now_canceled: "get_by_id (sv_db s) (d_id d) = Some t" "d_build_status t = BCanceled"
    and was_running: "d_build_status d = BQueued \<or> d_build_status d = BClaimed"
  shows "\<exists>s' x. stage_report cal text log_stored nd d body RepBuilding s = (Inr (False, None), s') \<and>
    get_by_id (sv_db s') (d_id d) = Some x \<and> d_build_status x = BBuilding"
proof -
  let ?w = "begin_tx (sv_db s)"
  let ?t = "\<lparr>bt_to = BBuilding, bt_stage = sq_stage body, bt_failure_code = sq_failure_code body,
    bt_failure_message = sq_failure_message body, bt_build_node_id = Some (n_id nd)\<rparr>"
  have row: "find_row d_id (d_id d) (deployments (sv_db s)) = Some t"
    using dep.row_found[OF con] get_by_id_Some[OF now_canceled(1)] by metis
  then have "find_row d_id (d_id d) (deployments ?w) = Some t" "deployments_con (deployments ?w) = None"
    using con by simp_all
  from transition_build_run[OF _ this, of ?t] was_running
  obtain u v where step: "transition_build d ?t ?w = (Inr u, v)" by auto
  obtain y where audits: "stage_audits nd d body RepBuilding u True ActNone v = (Inr (), y)" "deployments y = deployments v"
    using progress_audits_write by blast
  have body: "stage_body nd d body RepBuilding ?w = (Inr (u, True), y)"
    using step audits(1) by (simp add: stage_body_def stage_transition_def bindM_def mapErr_def retM_def)
  let ?s' = "s\<lparr>sv_db := commit_audits (sv_db s) y\<rparr>"
  have "stage_report cal text log_stored nd d body RepBuilding s = (Inr (False, None), ?s')"
    using body by (simp add: stage_report_def Let_def bindM_def on_db_def transaction_def is_terminal_build_def retM_def)
  moreover have "\<exists>x. get_by_id (commit_audits (sv_db s) y) (d_id d) = Some x \<and> d_build_status x = BBuilding"
  proof -
    obtain r now where r: "find_row d_id (d_id d) (deployments ?w) = Some r"
      "deployments v = deployments (set_row (d_id d) (apply_build now ?t) ?w)"
      using transition_build_Inr[OF step] by blast
    have dels: "d_deleted_at (apply_build now ?t x) = d_deleted_at x" "d_build_status (apply_build now ?t x) = BBuilding" for x
      by (simp_all add: apply_build_def Let_def split: option.split)
    have "get_by_id v (d_id d) = map_option (\<lambda>x. touch_deployment (sql_now ?w) (apply_build now ?t x)) (get_by_id ?w (d_id d))"
      unfolding get_by_id_def r(2) set_row_simps
      by (rule find_live_update) (simp_all add: dels)
    then show ?thesis using now_canceled(1) audits(2)
      by (simp add: get_by_id_def begin_tx_def commit_audits_def dels)
  qed
  ultimately show ?thesis by auto
qed

section \<open>A history\<close>

text \<open>A team that may run one build, with two pending builds, and a Node that asks for them.\<close>

definition queue_demo :: "deployment list \<Rightarrow> service" where
  "queue_demo ds =
     \<lparr>sv_db = (sample_world ds [sample_node 7])
        \<lparr>teams := [sample_team], clock := (\<lambda>_. 0),
         quota_plans := [\<lparr>q_id = 1, q_code = ''free'', q_name = ''Free'', q_description = None,
           q_is_default = True, q_enabled = True, q_created_at = 0, q_updated_at = 0\<rparr>],
         quota_limits := [\<lparr>l_id = 2, l_quota_plan_id = 1, l_dimension = ''concurrent_builds'', l_limit_value = 1,
           l_period = PeriodNone, l_created_at = 0, l_updated_at = 0\<rparr>]\<rparr>,
      sv_cache = MokaStore (\<lambda>_. None)\<rparr>"

definition demo_pending :: "uuid \<Rightarrow> deployment" where
  "demo_pending i = sample_deployment i Preview BPending SPending RDraft None"

definition demo_claim :: "(app_error + claimed_deployment option) \<times> service" where
  "demo_claim = claim plain_calendar demo_lib [65] (sample_node 7) 1 (queue_demo [demo_pending 5, demo_pending 6])"

lemma demo_enqueued:
  "d_id d = i \<Longrightarrow> d_build_status d = BPending \<Longrightarrow> d_build_node_id d = None \<Longrightarrow> i \<notin> d_id ` set ds \<Longrightarrow>
   length ds < 2 ^ 51 - 1 \<Longrightarrow> enqueued (queue_demo ds) (queue_demo (ds @ [d]))"
  unfolding enqueued_def
  by (rule exI[of _ i], rule exI[of _ "d_team_id d"])
    (force simp: queue_demo_def builds_of_def build_row_def cache_present_def moka_present_def entry_get_def)

lemma demo_reachable: "queue_reachable 0 (queue_demo [demo_pending 5, demo_pending 6])"
proof -
  have "queue_reachable 0 (queue_demo [])"
    by (rule queue_reachable.start) (simp add: empty_queue_def queue_demo_def unix_timestamp_def)
  moreover have "enqueued (queue_demo []) (queue_demo [demo_pending 5])"
    "enqueued (queue_demo [demo_pending 5]) (queue_demo [demo_pending 5, demo_pending 6])"
    using demo_enqueued[of "demo_pending 5" 5 "[]"] demo_enqueued[of "demo_pending 6" 6 "[demo_pending 5]"]
    by (simp_all add: demo_pending_def sample_deployment_def)
  ultimately show ?thesis by (blast intro: queue_reachable.created)
qed

lemma demo_claimed:
  "(case fst demo_claim of Inr (Some cd) \<Rightarrow> cd_deployment_id cd = 5 | _ \<Rightarrow> False)"
  "map d_build_status (deployments (sv_db (snd demo_claim))) = [BClaimed, BPending]"
  "map d_team_id (deployments (sv_db (snd demo_claim))) = [200, 200]"
  by code_simp+

theorem build_slots_exact_witness:
  "cache_level 0 (slot_key 200) (sv_cache (snd demo_claim)) = 1"
proof -
  have reach: "queue_reachable 0 (snd demo_claim)"
    using queue_reachable.claimed[OF demo_reachable prod.collapse[symmetric]] by (simp add: demo_claim_def)
  obtain x y where rows: "deployments (sv_db (snd demo_claim)) = [x, y]"
    "d_build_status x = BClaimed" "d_build_status y = BPending" "d_team_id x = 200" "d_team_id y = 200"
    using demo_claimed(2,3) by (auto simp: map_eq_Cons_conv)
  show ?thesis using build_slots_exact[OF reach, of 200] rows by simp
qed

theorem claim_within_limit_witness:
  "\<exists>cd. fst demo_claim = Inr (Some cd) \<and> cd_deployment_id cd = 5 \<and>
     granted (sv_db (queue_demo [demo_pending 5, demo_pending 6])) (sv_db (snd demo_claim)) (sample_node 7) cd"
proof -
  obtain cd where cd: "fst demo_claim = Inr (Some cd)" "cd_deployment_id cd = 5"
    using demo_claimed(1) by (cases "fst demo_claim") (auto split: option.splits)
  have "claim plain_calendar demo_lib [65] (sample_node 7) 1 (queue_demo [demo_pending 5, demo_pending 6]) =
      (Inr (Some cd), snd demo_claim)"
    using cd(1) by (metis demo_claim_def prod.collapse)
  from claim_within_limit[OF demo_reachable this] cd show ?thesis by blast
qed

end
