(* ===== verification/ServeRoutes.thy ===== *)
theory ServeRoutes
  imports BuildQueue RouteTable "HOL-Library.List_Lexorder"
begin

text \<open>
  What the control plane tells the Nodes to serve
  (\<open>features/api/v1/internal/serve/routes.rs\<close>, \<open>.../resolve_host.rs\<close> and \<open>.../assignments.rs\<close>): the snapshot of the
  public routes, the answer for one host and the list of a Node's assignments. The digest of a snapshot and
  the decoder of a Node's effective configuration are parameters. A hash map filled from rows with distinct
  keys is the row found under the key.
\<close>

section \<open>Host bindings\<close>

datatype ownership_status = OwnPending | OwnVerified | OwnFailed | OwnNotRequired

fun ownership_as_str :: "ownership_status \<Rightarrow> string" where
  "ownership_as_str OwnPending = ''pending''"
| "ownership_as_str OwnVerified = ''verified''"
| "ownership_as_str OwnFailed = ''failed''"
| "ownership_as_str OwnNotRequired = ''not_required''"

definition ownership_parse :: "string \<Rightarrow> ownership_status option" where
  "ownership_parse value =
     (if value = ''pending'' then Some OwnPending
      else if value = ''verified'' then Some OwnVerified
      else if value = ''failed'' then Some OwnFailed
      else if value = ''not_required'' then Some OwnNotRequired
      else None)"

definition binding_eligible :: "host_binding \<Rightarrow> bool" where
  "binding_eligible b \<longleftrightarrow>
     h_deleted_at b = None \<and> h_kind b = HostCustom \<and> h_status b = HActive \<and>
     ownership_parse (h_ownership_status b) = Some OwnVerified \<and>
     h_review_status b \<in> {HrApproved, HrNotRequired}"

definition find_binding_by_host :: "world \<Rightarrow> ustr \<Rightarrow> host_binding option" where
  "find_binding_by_host w host =
     find (\<lambda>b. pts (h_host b) = host \<and> h_deleted_at b = None) (host_bindings w)"

text \<open>\<open>matches!(binding.kind, Custom) && !binding_eligible(&binding)\<close>, the guard of both handlers.\<close>

definition binding_blocked :: "host_binding \<Rightarrow> bool" where
  "binding_blocked b \<longleftrightarrow> h_kind b = HostCustom \<and> \<not> binding_eligible b"

section \<open>The snapshot of routes\<close>

definition gateway_authentication ::
  "(json \<Rightarrow> gateway_authentication_mode option) \<Rightarrow> node \<Rightarrow> gateway_authentication_mode" where
  "gateway_authentication config_mode n =
     (case Option.bind (n_effective_config n) config_mode of Some m \<Rightarrow> m | None \<Rightarrow> GatewayToken)"

text \<open>The order of \<open>sort_by\<close> on texts is that of their code points.\<close>

type_synonym route_key = "nat list \<times> nat list \<times> uuid \<times> uuid \<times> nat list"

definition route_key :: "serve_route \<Rightarrow> route_key" where
  "route_key r =
     (rt_host r, map of_char (rt_region r), rt_deployment_id r, rt_target_node_id r, rt_target_base_url r)"

definition route_revision :: "(serve_route list \<Rightarrow> string) \<Rightarrow> serve_route list \<Rightarrow> string" where
  "route_revision digest routes = digest (sort_key route_key routes)"

definition routes_op :: string where
  "routes_op = ''internal.serve.routes''"

definition route_deployments :: "world \<Rightarrow> deployment list" where
  "route_deployments w =
     filter (\<lambda>d. d_build_status d = BReady \<and> d_serve_status d \<in> {SReady, SRetired} \<and>
       d_deleted_at d = None \<and> (d_preview_host d \<noteq> None \<or> d_release_status d = RActive)) (deployments w)"

definition route_nodes :: "world \<Rightarrow> deployment list \<Rightarrow> node list" where
  "route_nodes w ds =
     filter (\<lambda>n. n_id n \<in> set (List.map_filter d_serve_node_id ds) \<and> n_serve_enabled n \<and>
       n_status n \<noteq> NDisabled \<and> n_deleted_at n = None) (nodes w)"

definition publishes :: "deployment \<Rightarrow> bool" where
  "publishes d \<longleftrightarrow> d_environment d = Production \<and> d_release_status d = RActive"

definition route_bindings :: "world \<Rightarrow> deployment list \<Rightarrow> host_binding list" where
  "route_bindings w ds =
     filter (\<lambda>b. h_project_id b \<in> set (map d_project_id (filter publishes ds)) \<and> h_status b = HActive \<and>
       h_environment b \<noteq> HostPreview \<and> h_deleted_at b = None) (host_bindings w)"

text \<open>\<open>hosts_by_project\<close>: a missing entry is the empty vector.\<close>

definition hosts_by_project :: "host_binding list \<Rightarrow> uuid \<Rightarrow> string list" where
  "hosts_by_project bs pid =
     map h_host (filter (\<lambda>b. h_project_id b = pid) (filter (\<lambda>b. \<not> binding_blocked b) bs))"

definition preview_key :: "deployment \<Rightarrow> uuid \<times> bool" where
  "preview_key d = (d_project_id d, d_environment d = Production)"

definition preview_group :: "deployment list \<Rightarrow> uuid \<times> bool \<Rightarrow> delivery_candidate list" where
  "preview_group ds k =
     map candidate_from_model (filter (\<lambda>d. preview_key d = k) (filter (\<lambda>d. d_preview_host d \<noteq> None) ds))"

definition effective_preview_ids :: "deployment list \<Rightarrow> uuid set" where
  "effective_preview_ids ds =
     set (List.map_filter (\<lambda>k. effective_preview_id (preview_group ds k))
       (remdups (map preview_key (filter (\<lambda>d. d_preview_host d \<noteq> None) ds))))"

definition route_resources :: "string \<Rightarrow> string \<Rightarrow> deployment \<Rightarrow> app_error + serve_resources" where
  "route_resources op message d =
     (case try_u64 (d_serve_cpu_millicores d) of
        None \<Rightarrow> Inl (Internal op message)
      | Some cpu \<Rightarrow>
          (case try_u64 (d_serve_memory_mb d) of
             None \<Rightarrow> Inl (Internal op message)
           | Some memory \<Rightarrow>
               (case try_u64 (d_serve_disk_mb d) of
                  None \<Rightarrow> Inl (Internal op message)
                | Some disk \<Rightarrow> Inr \<lparr>sr_cpu_millicores = cpu, sr_memory_mb = memory, sr_disk_mb = disk\<rparr>)))"

definition deployment_hosts ::
  "uuid set \<Rightarrow> (uuid \<Rightarrow> string list) \<Rightarrow> deployment \<Rightarrow> (string \<times> serve_access) list" where
  "deployment_hosts previews hosts d =
     (if d_id d \<in> previews
      then (case d_preview_host d of Some h \<Rightarrow> [(h, AccessTeamOrPlatformAdmin)] | None \<Rightarrow> []) else []) @
     (if publishes d then map (\<lambda>h. (h, AccessPublic)) (hosts (d_project_id d)) else [])"

definition serve_route_of ::
  "(json \<Rightarrow> gateway_authentication_mode option) \<Rightarrow> deployment \<Rightarrow> node \<Rightarrow> nat list \<Rightarrow> serve_resources \<Rightarrow>
   string \<times> serve_access \<Rightarrow> serve_route" where
  "serve_route_of config_mode d n url res ha =
     \<lparr>rt_host = pts (fst ha), rt_region = d_region d, rt_deployment_id = d_id d, rt_target_node_id = n_id n,
      rt_target_base_url = url, rt_gateway_authentication = gateway_authentication config_mode n,
      rt_resources = res, rt_access = snd ha\<rparr>"

text \<open>The body of the loop; \<open>remove\<close> leaves no hosts for the project's later deployments.\<close>

fun route_loop ::
  "(json \<Rightarrow> gateway_authentication_mode option) \<Rightarrow> node list \<Rightarrow> uuid set \<Rightarrow> (uuid \<Rightarrow> string list) \<Rightarrow>
   deployment list \<Rightarrow> app_error + serve_route list" where
  "route_loop config_mode ns previews hosts [] = Inr []"
| "route_loop config_mode ns previews hosts (d # ds) =
     (case Option.bind (d_serve_node_id d) (\<lambda>nid. find_row n_id nid ns) of
        None \<Rightarrow> route_loop config_mode ns previews hosts ds
      | Some n \<Rightarrow>
          (case n_base_url n of
             None \<Rightarrow> Inl (Internal routes_op ''assigned Serve Node has no public base URL'')
           | Some url \<Rightarrow>
               (case route_resources routes_op
                   ''assigned deployment has invalid Serve resource metadata'' d of
                  Inl e \<Rightarrow> Inl e
                | Inr res \<Rightarrow>
                    (case route_loop config_mode ns previews
                        (if publishes d then hosts(d_project_id d := []) else hosts) ds of
                       Inl e \<Rightarrow> Inl e
                     | Inr rest \<Rightarrow>
                         Inr (map (serve_route_of config_mode d n url res)
                                (deployment_hosts previews hosts d) @ rest)))))"

definition serve_routes ::
  "(json \<Rightarrow> gateway_authentication_mode option) \<Rightarrow> (serve_route list \<Rightarrow> string) \<Rightarrow> node \<Rightarrow> world \<Rightarrow>
   app_error + route_snapshot_response" where
  "serve_routes config_mode digest requesting w =
     (case ensure_serve_node requesting routes_op of
        Inl e \<Rightarrow> Inl e
      | Inr _ \<Rightarrow>
          (let ds = route_deployments w in
           if ds = [] then Inr \<lparr>sn_revision = route_revision digest [], sn_routes = []\<rparr>
           else
             (case route_loop config_mode (route_nodes w ds) (effective_preview_ids ds)
                 (hosts_by_project (route_bindings w ds)) ds of
                Inl e \<Rightarrow> Inl e
              | Inr rs \<Rightarrow>
                  (let routes = sort_key rt_host rs
                   in Inr \<lparr>sn_revision = route_revision digest routes, sn_routes = routes\<rparr>))))"

section \<open>The answer for one host\<close>

record resolve_host_response =
  rh_deployment_id :: uuid
  rh_project_id :: uuid
  rh_team_id :: uuid
  rh_host :: ustr
  rh_environment :: string
  rh_artifact_available :: bool
  rh_access :: serve_access

definition resolve_op :: string where
  "resolve_op = ''internal.serve.resolve_host''"

definition artifact_available :: "world \<Rightarrow> uuid \<Rightarrow> bool" where
  "artifact_available w did \<longleftrightarrow>
     find (\<lambda>a. a_deployment_id a = did \<and> a_kind a = GrassOutput \<and> a_deleted_at a = None) (artifacts w) \<noteq> None"

definition resolved :: "world \<Rightarrow> deployment \<Rightarrow> ustr \<Rightarrow> string \<Rightarrow> serve_access \<Rightarrow> resolve_host_response" where
  "resolved w d host env access =
     \<lparr>rh_deployment_id = d_id d, rh_project_id = d_project_id d, rh_team_id = d_team_id d, rh_host = host,
      rh_environment = env, rh_artifact_available = artifact_available w (d_id d), rh_access = access\<rparr>"

definition resolve_binding :: "world \<Rightarrow> ustr \<Rightarrow> host_binding \<Rightarrow> app_error + resolve_host_response" where
  "resolve_binding w host b =
     (if h_status b \<noteq> HActive then Inl (NotFound resolve_op ''host binding is not active'')
      else if binding_blocked b
        then Inl (NotFound resolve_op ''host ownership or review is not approved'')
      else if h_environment b = HostPreview
        then Inl (NotFound resolve_op ''preview-only bindings resolve through deployment hosts'')
      else
        (case find_active w (h_project_id b) Production of
           None \<Rightarrow> Inl (NotFound resolve_op ''no active production deployment for this host'')
         | Some d \<Rightarrow> Inr (resolved w d host ''production'' AccessPublic)))"

definition find_preview :: "world \<Rightarrow> ustr \<Rightarrow> deployment option" where
  "find_preview w host =
     find (\<lambda>d. map_option pts (d_preview_host d) = Some host \<and> d_deleted_at d = None) (deployments w)"

definition resolve_preview :: "world \<Rightarrow> ustr \<Rightarrow> app_error + resolve_host_response" where
  "resolve_preview w host =
     (case find_preview w host of
        None \<Rightarrow> Inl (NotFound resolve_op ''host is not bound'')
      | Some d \<Rightarrow>
          if d_build_status d \<noteq> BReady \<or> d_serve_status d \<noteq> SReady
          then Inl (NotFound resolve_op ''preview deployment is not ready'')
          else if map_option d_id (effective_preview w (d_project_id d) (d_environment d)) \<noteq> Some (d_id d)
          then Inl (NotFound resolve_op ''preview deployment has been superseded'')
          else Inr (resolved w d host (environment_value (d_environment d)) AccessTeamOrPlatformAdmin))"

fun host_error_text :: "host_error \<Rightarrow> string" where
  "host_error_text HostEmpty = ''host is required''"
| "host_error_text HostInvalidCharacter =
     ''host may contain only ASCII letters, numbers, dots, and dashes''"
| "host_error_text HostInvalidLabel =
     ''host labels must be 1-63 characters and cannot start or end with a dash''"
| "host_error_text HostTooLong = ''host must not exceed 253 characters''"

definition resolve_host :: "ustr \<Rightarrow> world \<Rightarrow> app_error + resolve_host_response" where
  "resolve_host query w =
     (case normalize_host query of
        Inl e \<Rightarrow> Inl (Validation resolve_op (host_error_text e))
      | Inr host \<Rightarrow>
          (case find_binding_by_host w host of
             Some b \<Rightarrow> resolve_binding w host b
           | None \<Rightarrow> resolve_preview w host))"

section \<open>The assignments of a Node\<close>

datatype assignment_status = AsPending | AsSyncing | AsReady | AsFailed

record serve_artifact =
  sa_artifact_id :: uuid
  sa_checksum_sha256 :: string
  sa_packed_size_bytes :: nat
  sa_unpacked_size_bytes :: nat

record serve_assignment =
  as_deployment_id :: uuid
  as_project_id :: uuid
  as_runtime_kind :: string
  as_status :: assignment_status
  as_artifact :: serve_artifact
  as_resources :: serve_resources

definition assignments_op :: string where
  "assignments_op = ''internal.serve.assignments''"

definition assigned_rows :: "world \<Rightarrow> uuid \<Rightarrow> deployment list" where
  "assigned_rows w nid =
     sort_key d_created_at
       (filter (\<lambda>d. d_serve_node_id d = Some nid \<and> d_build_status d = BReady \<and> d_serve_status d \<noteq> SRetired \<and>
         d_deleted_at d = None) (deployments w))"

definition shadow_rows :: "world \<Rightarrow> uuid \<Rightarrow> migration list" where
  "shadow_rows w nid =
     sort_key m_created_at
       (filter (\<lambda>m. m_target_node_id m = nid \<and> m_status m \<in> set shadow_migration_statuses) (migrations w))"

definition shadow_deployments :: "world \<Rightarrow> uuid \<Rightarrow> migration list \<Rightarrow> deployment list" where
  "shadow_deployments w nid ms =
     (if ms = [] then []
      else filter (\<lambda>d. d_id d \<in> set (map m_deployment_id ms) \<and> d_serve_node_id d \<noteq> Some nid \<and>
        d_build_status d = BReady \<and> d_deleted_at d = None) (deployments w))"

text \<open>The rows of the artifacts by deployment; of rows with equal keys the last one stays in the hash map.\<close>

definition artifact_of :: "world \<Rightarrow> deployment list \<Rightarrow> uuid \<Rightarrow> deployment_artifact option" where
  "artifact_of w ds did =
     map_of (rev (map (\<lambda>a. (a_deployment_id a, a))
       (filter (\<lambda>a. a_deployment_id a \<in> set (map d_id ds) \<and> a_kind a = GrassOutput \<and> a_deleted_at a = None)
         (artifacts w)))) did"

fun assignment_status_of :: "migration_status option \<Rightarrow> serve_status \<Rightarrow> assignment_status option" where
  "assignment_status_of (Some MPending) _ = Some AsPending"
| "assignment_status_of (Some MSyncing) _ = Some AsSyncing"
| "assignment_status_of (Some MFailed) _ = Some AsFailed"
| "assignment_status_of (Some MReady) _ = Some AsReady"
| "assignment_status_of None SPending = Some AsPending"
| "assignment_status_of None SSyncing = Some AsSyncing"
| "assignment_status_of None SReady = Some AsReady"
| "assignment_status_of None SFailed = Some AsFailed"
| "assignment_status_of None SRetired = None"

definition metadata_error :: app_error where
  "metadata_error = Internal assignments_op ''assigned deployment has invalid artifact metadata''"

text \<open>The digest and the sizes of an artifact, read in this order.\<close>

definition serve_artifact_of :: "deployment_artifact \<Rightarrow> app_error + serve_artifact" where
  "serve_artifact_of a =
     (case a_checksum_sha256 a of
        None \<Rightarrow> Inl metadata_error
      | Some checksum \<Rightarrow>
          (case Option.bind (a_size_bytes a) try_u64 of
             None \<Rightarrow> Inl metadata_error
           | Some packed \<Rightarrow>
               (case artifact_unpacked_size_bytes (a_manifest a) of
                  None \<Rightarrow> Inl metadata_error
                | Some unpacked \<Rightarrow>
                    Inr \<lparr>sa_artifact_id = a_id a, sa_checksum_sha256 = checksum, sa_packed_size_bytes = packed,
                      sa_unpacked_size_bytes = unpacked\<rparr>)))"

text \<open>The loop over the rows with the status of their migration.\<close>

fun assignment_loop ::
  "(uuid \<Rightarrow> deployment_artifact option) \<Rightarrow> (deployment \<times> migration_status option) list \<Rightarrow>
   app_error + serve_assignment list" where
  "assignment_loop found [] = Inr []"
| "assignment_loop found ((d, ms) # rest) =
     (case found (d_id d) of
        None \<Rightarrow> assignment_loop found rest
      | Some a \<Rightarrow>
          (case assignment_status_of ms (d_serve_status d) of
             None \<Rightarrow> assignment_loop found rest
           | Some status \<Rightarrow>
               (case serve_artifact_of a of
                  Inl e \<Rightarrow> Inl e
                | Inr art \<Rightarrow>
                    (case route_resources assignments_op
                        ''assigned deployment has invalid artifact metadata'' d of
                       Inl e \<Rightarrow> Inl e
                     | Inr res \<Rightarrow>
                         (case assignment_loop found rest of
                            Inl e \<Rightarrow> Inl e
                          | Inr others \<Rightarrow>
                              Inr (\<lparr>as_deployment_id = d_id d, as_project_id = d_project_id d,
                                as_runtime_kind = runtime_value (d_runtime_kind d), as_status = status,
                                as_artifact = art, as_resources = res\<rparr> # others))))))"

text \<open>The statuses of the migrations by deployment: the newest one stays in the hash map.\<close>

definition migration_status_in :: "migration list \<Rightarrow> uuid \<Rightarrow> migration_status option" where
  "migration_status_in ms did = map_of (rev (map (\<lambda>m. (m_deployment_id m, m_status m)) ms)) did"

definition serve_assignments :: "node \<Rightarrow> world \<Rightarrow> app_error + serve_assignment list" where
  "serve_assignments n w =
     (case ensure_serve_node n assignments_op of
        Inl e \<Rightarrow> Inl e
      | Inr _ \<Rightarrow>
          (let own = assigned_rows w (n_id n);
               ms = shadow_rows w (n_id n);
               shadow = shadow_deployments w (n_id n) ms
           in if own = [] \<and> shadow = [] then Inr []
              else assignment_loop (artifact_of w (own @ shadow))
                     (map (\<lambda>d. (d, None)) own @ map (\<lambda>d. (d, migration_status_in ms (d_id d))) shadow)))"

section \<open>What the snapshot holds\<close>

text \<open>The rows and the hosts as the database relates them.\<close>

definition servable :: "deployment \<Rightarrow> bool" where
  "servable d \<longleftrightarrow> d_build_status d = BReady \<and> d_serve_status d \<in> {SReady, SRetired} \<and> d_deleted_at d = None"

definition carries :: "world \<Rightarrow> node \<Rightarrow> deployment \<Rightarrow> bool" where
  "carries w n d \<longleftrightarrow>
     n \<in> set (nodes w) \<and> d_serve_node_id d = Some (n_id n) \<and> n_serve_enabled n \<and> n_status n \<noteq> NDisabled \<and>
     n_deleted_at n = None"

definition newest_servable :: "world \<Rightarrow> deployment \<Rightarrow> bool" where
  "newest_servable w d \<longleftrightarrow>
     servable d \<and> d_preview_host d \<noteq> None \<and>
     (\<forall>e\<in>set (deployments w). servable e \<and> d_preview_host e \<noteq> None \<and> env_key e = env_key d \<longrightarrow>
        (d_created_at e, d_id e) \<le> (d_created_at d, d_id d))"

definition binds :: "world \<Rightarrow> host_binding \<Rightarrow> deployment \<Rightarrow> bool" where
  "binds w b d \<longleftrightarrow>
     b \<in> set (host_bindings w) \<and> h_project_id b = d_project_id d \<and> h_status b = HActive \<and>
     h_environment b \<noteq> HostPreview \<and> h_deleted_at b = None \<and> \<not> binding_blocked b"

fun serves_host :: "world \<Rightarrow> deployment \<Rightarrow> string \<Rightarrow> serve_access \<Rightarrow> bool" where
  "serves_host w d h AccessTeamOrPlatformAdmin \<longleftrightarrow>
     newest_servable w d \<and> d_serve_status d = SReady \<and> d_preview_host d = Some h"
| "serves_host w d h AccessPublic \<longleftrightarrow> publishes d \<and> (\<exists>b. binds w b d \<and> h_host b = h)"

definition route_for ::
  "(json \<Rightarrow> gateway_authentication_mode option) \<Rightarrow> world \<Rightarrow> deployment \<Rightarrow> string \<Rightarrow> serve_route \<Rightarrow> bool" where
  "route_for config_mode w d h r \<longleftrightarrow>
     rt_host r = pts h \<and> rt_region r = d_region d \<and> rt_deployment_id r = d_id d \<and>
     (\<exists>n. carries w n d \<and> rt_target_node_id r = n_id n \<and> n_base_url n = Some (rt_target_base_url r) \<and>
        rt_gateway_authentication r = gateway_authentication config_mode n) \<and>
     rt_resources r = \<lparr>sr_cpu_millicores = nat (d_serve_cpu_millicores d),
       sr_memory_mb = nat (d_serve_memory_mb d), sr_disk_mb = nat (d_serve_disk_mb d)\<rparr>"

lemma route_resources_Inr:
  "route_resources op m d = Inr res \<longleftrightarrow>
     0 \<le> d_serve_cpu_millicores d \<and> 0 \<le> d_serve_memory_mb d \<and> 0 \<le> d_serve_disk_mb d \<and>
     res = \<lparr>sr_cpu_millicores = nat (d_serve_cpu_millicores d), sr_memory_mb = nat (d_serve_memory_mb d),
       sr_disk_mb = nat (d_serve_disk_mb d)\<rparr>"
  by (auto simp: route_resources_def try_u64_def)

lemma max_by_key_Some:
  assumes "inj_on f (set xs)"
  shows "max_by_key f xs = Some x \<longleftrightarrow> x \<in> set xs \<and> (\<forall>y\<in>set xs. f y \<le> f x)"
  using assms
proof (induction xs arbitrary: x)
  case (Cons a xs)
  then have inj: "inj_on f (set xs)" by (simp add: inj_on_def)
  show ?case
  proof (cases "max_by_key f xs")
    case None
    then have "xs = []" by (cases xs) (auto split: option.splits if_splits)
    then show ?thesis by auto
  next
    case (Some y)
    then have y: "y \<in> set xs" "\<forall>z\<in>set xs. f z \<le> f y" using Cons.IH[OF inj] by auto
    show ?thesis
    proof (cases "f y < f a")
      case True
      with Some y Cons.prems show ?thesis by (auto dest: inj_onD)
    next
      case False
      then have "f a \<le> f y" by simp
      then have "x = y" if "x \<in> set (a # xs)" "\<forall>z\<in>set (a # xs). f z \<le> f x"
        using that y by (intro inj_onD[OF Cons.prems]) (auto intro: antisym)
      with Some False y \<open>f a \<le> f y\<close> show ?thesis by auto
    qed
  qed
qed simp

text \<open>The candidates of one group have distinct keys, so the group's effective preview is its greatest row.\<close>

lemma preview_group_iff:
  "c \<in> set (preview_group ds k) \<longleftrightarrow>
     (\<exists>d\<in>set ds. preview_key d = k \<and> d_preview_host d \<noteq> None \<and> c = candidate_from_model d)"
  by (auto simp: preview_group_def)

lemma age_key_of [simp]: "age_key (candidate_from_model d) = (d_created_at d, d_id d)"
  by (simp add: age_key_def candidate_from_model_def)

lemma effective_preview_id_iff:
  assumes "distinct (map d_id ds)"
  shows "effective_preview_id (preview_group ds k) = Some i \<longleftrightarrow>
    (\<exists>d\<in>set ds. d_id d = i \<and> preview_key d = k \<and> d_preview_host d \<noteq> None \<and> d_build_status d = BReady \<and>
       d_serve_status d = SReady \<and>
       (\<forall>e\<in>set ds. preview_key e = k \<and> d_preview_host e \<noteq> None \<and> d_build_status e = BReady \<longrightarrow>
          (d_created_at e, d_id e) \<le> (d_created_at d, d_id d)))"
proof -
  let ?rs = "filter (\<lambda>d. preview_key d = k \<and> d_preview_host d \<noteq> None \<and> d_build_status d = BReady) ds"
  have cs: "filter (\<lambda>c. dc_build_status c = BReady) (preview_group ds k) = map candidate_from_model ?rs"
    by (simp add: preview_group_def filter_map o_def candidate_from_model_def conj_ac cong: conj_cong)
  have inj: "inj_on age_key (set (map candidate_from_model ?rs))"
    using assms by (auto simp: distinct_map inj_on_def)
  have "effective_preview_id (preview_group ds k) = Some i \<longleftrightarrow>
      (\<exists>c. max_by_key age_key (map candidate_from_model ?rs) = Some c \<and> dc_serve_status c = SReady \<and> dc_id c = i)"
    unfolding effective_preview_id_def cs by (auto split: option.splits)
  also have "\<dots> \<longleftrightarrow>
      (\<exists>d\<in>set ?rs. (\<forall>e\<in>set ?rs. age_key (candidate_from_model e) \<le> age_key (candidate_from_model d)) \<and>
        dc_serve_status (candidate_from_model d) = SReady \<and> dc_id (candidate_from_model d) = i)"
    unfolding max_by_key_Some[OF inj] by auto
  also have "\<dots> \<longleftrightarrow>
      (\<exists>d\<in>set ?rs. (\<forall>e\<in>set ?rs. (d_created_at e, d_id e) \<le> (d_created_at d, d_id d)) \<and>
        d_serve_status d = SReady \<and> d_id d = i)"
    unfolding age_key_of by (simp add: candidate_from_model_def)
  finally show ?thesis by auto
qed

lemma set_map_filter: "set (List.map_filter f xs) = {y. \<exists>x\<in>set xs. f x = Some y}"
  by (induction xs) (auto simp: List.map_filter_simps split: option.splits)

lemma preview_ids_iff:
  "i \<in> effective_preview_ids ds \<longleftrightarrow> (\<exists>k. effective_preview_id (preview_group ds k) = Some i)"
proof -
  have "k \<in> preview_key ` {d \<in> set ds. d_preview_host d \<noteq> None}"
    if "effective_preview_id (preview_group ds k) = Some i" for k
  proof (rule ccontr)
    assume "\<not> ?thesis"
    then have "preview_group ds k = []" by (auto simp: preview_group_def filter_empty_conv)
    with that show False by (simp add: effective_preview_id_def)
  qed
  then have "effective_preview_id (preview_group ds k) = Some i \<Longrightarrow>
      k \<in> set (map preview_key (filter (\<lambda>d. d_preview_host d \<noteq> None) ds))" for k by auto
  then show ?thesis
    unfolding effective_preview_ids_def set_map_filter set_remdups by blast
qed

lemma preview_key_env: "preview_key d = preview_key e \<longleftrightarrow> env_key d = env_key e"
  by (cases "d_environment d"; cases "d_environment e") (simp_all add: preview_key_def env_key_def)

lemma servable_ready: "servable d \<Longrightarrow> d_build_status d = BReady"
  by (simp add: servable_def)

lemma route_row: "d \<in> set (route_deployments w) \<longleftrightarrow>
    d \<in> set (deployments w) \<and> servable d \<and> (d_preview_host d \<noteq> None \<or> d_release_status d = RActive)"
  by (auto simp: route_deployments_def servable_def)

lemma preview_served:
  assumes ids: "distinct (map d_id (deployments w))" and d: "d \<in> set (route_deployments w)"
  shows "d_id d \<in> effective_preview_ids (route_deployments w) \<longleftrightarrow>
    newest_servable w d \<and> d_serve_status d = SReady"
proof -
  let ?ds = "route_deployments w"
  have dist: "distinct (map d_id ?ds)"
    unfolding route_deployments_def using ids by (simp add: distinct_map_filter)
  have same: "e = d" if "e \<in> set ?ds" "d_id e = d_id d" for e
    using dist that d by (auto simp: distinct_map dest: inj_onD)
  have "d_id d \<in> effective_preview_ids ?ds \<longleftrightarrow>
      d_preview_host d \<noteq> None \<and> d_build_status d = BReady \<and> d_serve_status d = SReady \<and>
      (\<forall>e\<in>set ?ds. preview_key e = preview_key d \<and> d_preview_host e \<noteq> None \<and> d_build_status e = BReady \<longrightarrow>
         (d_created_at e, d_id e) \<le> (d_created_at d, d_id d))"
    unfolding preview_ids_iff effective_preview_id_iff[OF dist] using d same by blast
  also have "\<dots> \<longleftrightarrow> newest_servable w d \<and> d_serve_status d = SReady"
    unfolding newest_servable_def preview_key_env using d route_row[of _ w] servable_ready by blast
  finally show ?thesis .
qed

lemma publishing_projects_distinct:
  assumes "deployments_con (deployments w) = None"
  shows "distinct (map d_project_id (filter publishes (route_deployments w)))"
proof -
  have "distinct (map env_key (filter is_active (deployments w)))"
    using assms by (simp add: deployments_con_def one_active_index_def split: if_splits)
  moreover have "filter publishes (route_deployments w) =
      filter (\<lambda>d. publishes d \<and> d \<in> set (route_deployments w)) (filter is_active (deployments w))"
    unfolding route_deployments_def filter_filter
    by (rule filter_cong) (auto simp: publishes_def is_active_def)
  ultimately have "distinct (map env_key (filter publishes (route_deployments w)))"
    by (metis distinct_map_filter)
  then show ?thesis
    by (auto simp: distinct_map inj_on_def env_key_def publishes_def)
qed

lemma route_loop_Inr:
  assumes "route_loop config_mode ns previews hosts ds = Inr rs"
    and "distinct (map d_project_id (filter publishes ds))"
  shows "r \<in> set rs \<longleftrightarrow>
    (\<exists>d\<in>set ds. \<exists>n url res ha. Option.bind (d_serve_node_id d) (\<lambda>nid. find_row n_id nid ns) = Some n \<and>
       n_base_url n = Some url \<and>
       route_resources routes_op ''assigned deployment has invalid Serve resource metadata'' d = Inr res \<and>
       ha \<in> set (deployment_hosts previews hosts d) \<and> r = serve_route_of config_mode d n url res ha)"
  using assms
proof (induction config_mode ns previews hosts ds arbitrary: rs rule: route_loop.induct)
  case (2 config_mode ns previews hosts d ds)
  have later: "deployment_hosts previews (hosts(d_project_id d := [])) e = deployment_hosts previews hosts e"
    if "publishes d" "e \<in> set ds" for e
    using "2.prems"(2) that by (auto simp: deployment_hosts_def image_iff)
  show ?case
  proof (cases "Option.bind (d_serve_node_id d) (\<lambda>nid. find_row n_id nid ns)")
    case None
    with "2.IH"(1)[OF None] "2.prems" show ?thesis by (auto split: if_splits)
  next
    case (Some n)
    from "2.prems"(1) Some obtain url res rest where ok: "n_base_url n = Some url"
      "route_resources routes_op ''assigned deployment has invalid Serve resource metadata'' d = Inr res"
      "route_loop config_mode ns previews (if publishes d then hosts(d_project_id d := []) else hosts) ds = Inr rest"
      "rs = map (serve_route_of config_mode d n url res) (deployment_hosts previews hosts d) @ rest"
      by (auto split: option.splits sum.splits)
    have "distinct (map d_project_id (filter publishes ds))"
      using "2.prems"(2) by (auto split: if_splits)
    note ih = "2.IH"(2)[OF Some ok(1) ok(2) ok(3) this]
    have "deployment_hosts previews (if publishes d then hosts(d_project_id d := []) else hosts) e =
        deployment_hosts previews hosts e" if "e \<in> set ds" for e
      using later that by simp
    with ih show ?thesis
      unfolding ok(4) by (auto simp: Some ok(1,2) image_iff)
  qed
qed simp

text \<open>The rows of the tables the handlers read, with the keys the database keeps unique.\<close>

definition route_tables_ok :: "world \<Rightarrow> bool" where
  "route_tables_ok w \<longleftrightarrow>
     deployments_con (deployments w) = None \<and> nodes_con (nodes w) = None \<and>
     distinct (map h_host (filter (\<lambda>b. h_deleted_at b = None) (host_bindings w))) \<and>
     distinct (map d_preview_host (filter (\<lambda>d. d_preview_host d \<noteq> None \<and> d_deleted_at d = None) (deployments w)))"

lemma route_node_iff:
  assumes "distinct (map n_id (nodes w))" "d \<in> set ds"
  shows "Option.bind (d_serve_node_id d) (\<lambda>nid. find_row n_id nid (route_nodes w ds)) = Some n \<longleftrightarrow> carries w n d"
proof -
  have "distinct (map n_id (route_nodes w ds))"
    unfolding route_nodes_def by (rule distinct_map_filter[OF assms(1)])
  then have "find_row n_id nid (route_nodes w ds) = Some n \<longleftrightarrow> n \<in> set (route_nodes w ds) \<and> n_id n = nid" for nid
    using find_row_mem find_row_distinct by metis
  then show ?thesis
    using assms(2) by (auto simp: carries_def route_nodes_def set_map_filter bind_eq_Some_conv)
qed

lemma set_deployment_hosts:
  "(h, a) \<in> set (deployment_hosts previews hosts d) \<longleftrightarrow>
     (case a of
        AccessPublic \<Rightarrow> publishes d \<and> h \<in> set (hosts (d_project_id d))
      | AccessTeamOrPlatformAdmin \<Rightarrow> d_id d \<in> previews \<and> d_preview_host d = Some h)"
  by (cases "d_id d \<in> previews"; cases "d_preview_host d"; cases "publishes d")
    (auto simp: deployment_hosts_def split: serve_access.splits)

lemma deployment_hosts_iff:
  assumes "distinct (map d_id (deployments w))" "d \<in> set (route_deployments w)"
  shows "(h, a) \<in> set (deployment_hosts (effective_preview_ids (route_deployments w))
      (hosts_by_project (route_bindings w (route_deployments w))) d) \<longleftrightarrow> serves_host w d h a"
proof (cases a)
  case AccessPublic
  have "h \<in> set (hosts_by_project (route_bindings w (route_deployments w)) (d_project_id d)) \<longleftrightarrow>
      (\<exists>b. binds w b d \<and> h_host b = h)" if "publishes d"
    using assms(2) that by (auto simp: hosts_by_project_def route_bindings_def binds_def)
  then show ?thesis using AccessPublic by (auto simp: set_deployment_hosts)
next
  case AccessTeamOrPlatformAdmin
  then show ?thesis
    using preview_served[OF assms] by (auto simp: set_deployment_hosts)
qed

lemma serves_host_row: "serves_host w d h a \<Longrightarrow> d_preview_host d \<noteq> None \<or> d_release_status d = RActive"
  by (cases a) (auto simp: newest_servable_def publishes_def)

lemma serve_routes_Inr:
  assumes "serve_routes config_mode digest requesting w = Inr snap"
  obtains rs where "route_loop config_mode (route_nodes w (route_deployments w))
      (effective_preview_ids (route_deployments w))
      (hosts_by_project (route_bindings w (route_deployments w))) (route_deployments w) = Inr rs"
    "sn_routes snap = sort_key rt_host rs"
    "sn_revision snap = route_revision digest (sn_routes snap)"
  using assms
  by (cases "route_deployments w = []")
    (auto simp: serve_routes_def Let_def split: sum.splits if_splits)

lemma routes_mem:
  assumes ok: "route_tables_ok w" and run: "serve_routes config_mode digest requesting w = Inr snap"
  shows "r \<in> set (sn_routes snap) \<longleftrightarrow>
    (\<exists>d\<in>set (deployments w). \<exists>h. servable d \<and> serves_host w d h (rt_access r) \<and> route_for config_mode w d h r)"
    (is "_ \<longleftrightarrow> ?spec")
proof -
  let ?ds = "route_deployments w"
  let ?hosts = "deployment_hosts (effective_preview_ids ?ds) (hosts_by_project (route_bindings w ?ds))"
  have ids: "distinct (map d_id (deployments w))" "distinct (map n_id (nodes w))"
    using ok by (auto simp: route_tables_ok_def deployments_con_def nodes_con_def split: if_splits)
  obtain rs where rs: "route_loop config_mode (route_nodes w ?ds) (effective_preview_ids ?ds)
      (hosts_by_project (route_bindings w ?ds)) ?ds = Inr rs" "sn_routes snap = sort_key rt_host rs"
    using serve_routes_Inr[OF run] by metis
  have proj: "distinct (map d_project_id (filter publishes ?ds))"
    using ok by (simp add: route_tables_ok_def publishing_projects_distinct)
  have "r \<in> set (sn_routes snap) \<longleftrightarrow>
      (\<exists>d\<in>set ?ds. \<exists>n url res ha. carries w n d \<and> n_base_url n = Some url \<and>
         route_resources routes_op ''assigned deployment has invalid Serve resource metadata'' d = Inr res \<and>
         ha \<in> set (?hosts d) \<and> r = serve_route_of config_mode d n url res ha)"
    using route_loop_Inr[OF rs(1) proj] route_node_iff[OF ids(2)] unfolding rs(2) set_sort by simp
  also have "\<dots> \<longleftrightarrow>
      (\<exists>d\<in>set ?ds. \<exists>n url res h a. carries w n d \<and> n_base_url n = Some url \<and>
         route_resources routes_op ''assigned deployment has invalid Serve resource metadata'' d = Inr res \<and>
         serves_host w d h a \<and> r = serve_route_of config_mode d n url res (h, a))"
    unfolding split_paired_Ex using deployment_hosts_iff[OF ids(1)] by simp
  also have "\<dots> \<longleftrightarrow> ?spec"
  proof
    assume "\<exists>d\<in>set ?ds. \<exists>n url res h a. carries w n d \<and> n_base_url n = Some url \<and>
         route_resources routes_op ''assigned deployment has invalid Serve resource metadata'' d = Inr res \<and>
         serves_host w d h a \<and> r = serve_route_of config_mode d n url res (h, a)"
    then show ?spec
      by (fastforce simp: route_row route_resources_Inr serve_route_of_def route_for_def)
  next
    assume ?spec
    then obtain d h n where d: "d \<in> set (deployments w)" "servable d" "serves_host w d h (rt_access r)"
      "route_for config_mode w d h r" "carries w n d" "rt_target_node_id r = n_id n"
      "n_base_url n = Some (rt_target_base_url r)"
      "rt_gateway_authentication r = gateway_authentication config_mode n"
      by (auto simp: route_for_def)
    have "deployment_checks d"
      using ok d(1) by (auto simp: route_tables_ok_def deployments_con_def list_all_iff split: if_splits)
    then have "route_resources routes_op ''assigned deployment has invalid Serve resource metadata'' d =
        Inr (rt_resources r)"
      using d(4) by (simp add: route_resources_Inr route_for_def deployment_checks_def)
    moreover have "d \<in> set ?ds" using d serves_host_row by (simp add: route_row)
    moreover have "r = serve_route_of config_mode d n (rt_target_base_url r) (rt_resources r) (h, rt_access r)"
      using d(4,6,8) by (simp add: serve_route_of_def route_for_def)
    ultimately show "\<exists>d\<in>set ?ds. \<exists>n url res h a. carries w n d \<and> n_base_url n = Some url \<and>
         route_resources routes_op ''assigned deployment has invalid Serve resource metadata'' d = Inr res \<and>
         serves_host w d h a \<and> r = serve_route_of config_mode d n url res (h, a)"
      using d(3,5,7) by blast
  qed
  finally show ?thesis .
qed

section \<open>The table of a Node\<close>

text \<open>Every stored host name is in its normal form (it is normalized before it is stored).\<close>

definition hosts_normal :: "world \<Rightarrow> bool" where
  "hosts_normal w \<longleftrightarrow>
     (\<forall>b\<in>set (host_bindings w). normalize_host (pts (h_host b)) = Inr (pts (h_host b))) \<and>
     (\<forall>d\<in>set (deployments w).
        case d_preview_host d of None \<Rightarrow> True | Some h \<Rightarrow> normalize_host (pts h) = Inr (pts h))"

lemma pts_inj [simp]: "pts x = pts y \<longleftrightarrow> x = y"
  by (auto simp: pts_def inj_map_eq_map[OF inj_of_char])

lemma serves_host_normal:
  assumes "hosts_normal w" "d \<in> set (deployments w)" "serves_host w d h a"
  shows "normalize_host (pts h) = Inr (pts h)"
  using assms by (cases a) (auto simp: hosts_normal_def binds_def split: option.splits)

lemma route_host_normal:
  assumes "route_tables_ok w" "serve_routes config_mode digest requesting w = Inr snap" "hosts_normal w"
    "r \<in> set (sn_routes snap)"
  shows "normalize_host (rt_host r) = Inr (rt_host r)"
proof -
  obtain d h where d: "d \<in> set (deployments w)" "serves_host w d h (rt_access r)" "route_for config_mode w d h r"
    using routes_mem[OF assms(1,2)] assms(4) by blast
  then show ?thesis
    using serves_host_normal[OF assms(3) d(1,2)] by (simp add: route_for_def)
qed

lemma applied_lookup:
  assumes "apply_snapshot snap t = (Inr True, t')"
    and normal: "\<And>r. r \<in> set (sn_routes snap) \<Longrightarrow> normalize_host (rt_host r) = Inr (rt_host r)"
  shows "lookup_route t' q = Some r \<longleftrightarrow> r \<in> set (sn_routes snap) \<and> normalize_host q = Inr (rt_host r)"
proof -
  obtain out where out: "collect_routes (sn_routes snap) [] = Inr out" "tb_routes t' = out"
    using assms(1) by (auto simp: apply_snapshot_def split: if_splits sum.splits)
  then have files: "map filed (sn_routes snap) = map Some out" "distinct (map fst out)"
    by (simp_all add: collect_start)
  have "(h, r) \<in> set out \<longleftrightarrow> r \<in> set (sn_routes snap) \<and> rt_host r = h" for h
  proof -
    have "(h, r) \<in> set out \<longleftrightarrow> Some (h, r) \<in> set (map filed (sn_routes snap))"
      unfolding files(1) by auto
    also have "\<dots> \<longleftrightarrow> (\<exists>s\<in>set (sn_routes snap). filed s = Some (h, r))" by force
    also have "\<dots> \<longleftrightarrow> r \<in> set (sn_routes snap) \<and> rt_host r = h"
      using normal by (fastforce simp: filed_Some)
    finally show ?thesis .
  qed
  then show ?thesis
    using out(2) files(2) by (auto simp: lookup_route_def split: sum.splits)
qed

text \<open>The hosts of the rows the loop adds differ, unless a host is both a preview's and a binding's.\<close>

lemma route_loop_hosts:
  assumes "route_loop config_mode ns previews hosts ds = Inr rs" "r \<in> set rs"
  shows "if rt_access r = AccessPublic then \<exists>pid. rt_host r \<in> pts ` set (hosts pid)
    else \<exists>d\<in>set ds. d_id d \<in> previews \<and> map_option pts (d_preview_host d) = Some (rt_host r)"
  using assms
proof (induction config_mode ns previews hosts ds arbitrary: rs rule: route_loop.induct)
  case (2 config_mode ns previews hosts d ds)
  show ?case
  proof (cases "Option.bind (d_serve_node_id d) (\<lambda>nid. find_row n_id nid ns)")
    case None
    with "2.IH"(1)[OF None] "2.prems" show ?thesis by (auto split: if_splits)
  next
    case (Some n)
    from "2.prems"(1) Some obtain url res rest where ok: "n_base_url n = Some url"
      "route_resources routes_op ''assigned deployment has invalid Serve resource metadata'' d = Inr res"
      "route_loop config_mode ns previews (if publishes d then hosts(d_project_id d := []) else hosts) ds = Inr rest"
      "rs = map (serve_route_of config_mode d n url res) (deployment_hosts previews hosts d) @ rest"
      by (auto split: option.splits sum.splits)
    consider (own) h a where "(h, a) \<in> set (deployment_hosts previews hosts d)"
        "r = serve_route_of config_mode d n url res (h, a)"
      | (later) "r \<in> set rest"
      using "2.prems"(2) unfolding ok(4) by auto
    then show ?thesis
    proof cases
      case own
      then show ?thesis
        by (cases a) (auto simp: set_deployment_hosts serve_route_of_def)
    next
      case later
      with "2.IH"(2)[OF Some ok(1) ok(2) ok(3)] show ?thesis
        by (auto split: if_splits)
    qed
  qed
qed simp

definition route_name :: "serve_route \<Rightarrow> serve_access \<times> nat list" where
  "route_name r = (rt_access r, rt_host r)"

lemma own_names:
  assumes "distinct (hosts (d_project_id d))"
  shows "distinct (map route_name (map (serve_route_of config_mode d n url res) (deployment_hosts previews hosts d)))"
proof -
  have "map route_name (map (serve_route_of config_mode d n url res) (deployment_hosts previews hosts d)) =
      map (\<lambda>(h, a). (a, pts h)) (deployment_hosts previews hosts d)"
    by (simp add: serve_route_of_def route_name_def case_prod_beta)
  moreover have "distinct (deployment_hosts previews hosts d)"
    using assms
    by (cases "d_id d \<in> previews"; cases "d_preview_host d"; cases "publishes d")
      (auto simp: deployment_hosts_def distinct_map inj_on_def)
  ultimately show ?thesis
    by (simp add: distinct_map inj_on_def case_prod_beta prod_eq_iff)
qed

lemma route_loop_names:
  assumes "route_loop config_mode ns previews hosts ds = Inr rs"
    and "\<And>pid. distinct (hosts pid)"
    and "\<And>pid pid' h. h \<in> set (hosts pid) \<Longrightarrow> h \<in> set (hosts pid') \<Longrightarrow> pid = pid'"
    and "distinct (map d_preview_host (filter (\<lambda>d. d_preview_host d \<noteq> None) ds))"
  shows "distinct (map route_name rs)"
  using assms
proof (induction config_mode ns previews hosts ds arbitrary: rs rule: route_loop.induct)
  case (2 config_mode ns previews hosts d ds)
  have dist: "distinct (map d_preview_host (filter (\<lambda>d. d_preview_host d \<noteq> None) ds))"
    using "2.prems"(4) by (auto split: if_splits)
  show ?case
  proof (cases "Option.bind (d_serve_node_id d) (\<lambda>nid. find_row n_id nid ns)")
    case None
    with "2.IH"(1)[OF None _ "2.prems"(2,3) dist] "2.prems"(1) show ?thesis by simp
  next
    case (Some n)
    let ?hosts = "if publishes d then hosts(d_project_id d := []) else hosts"
    from "2.prems"(1) Some obtain url res rest where ok: "n_base_url n = Some url"
      "route_resources routes_op ''assigned deployment has invalid Serve resource metadata'' d = Inr res"
      "route_loop config_mode ns previews ?hosts ds = Inr rest"
      "rs = map (serve_route_of config_mode d n url res) (deployment_hosts previews hosts d) @ rest"
      by (auto split: option.splits sum.splits)
    have "distinct (map route_name rest)"
      by (rule "2.IH"(2)[OF Some ok(1) ok(2) ok(3) _ _ dist])
        (use "2.prems"(2,3) in \<open>auto split: if_splits\<close>)
    moreover have "route_name q \<noteq> route_name r"
      if q: "q \<in> set (map (serve_route_of config_mode d n url res) (deployment_hosts previews hosts d))"
        and r: "r \<in> set rest" for q r
    proof
      assume same: "route_name q = route_name r"
      from q obtain h a where h: "(h, a) \<in> set (deployment_hosts previews hosts d)"
        "q = serve_route_of config_mode d n url res (h, a)" by auto
      note later = route_loop_hosts[OF ok(3) r]
      show False
      proof (cases a)
        case AccessPublic
        then have "publishes d" "h \<in> set (hosts (d_project_id d))"
          using h(1) by (simp_all add: set_deployment_hosts)
        moreover have "rt_access r = AccessPublic" "rt_host r = pts h"
          using same h(2) AccessPublic by (simp_all add: route_name_def serve_route_of_def)
        then obtain pid where "h \<in> set (?hosts pid)" using later by auto
        ultimately have "pid \<noteq> d_project_id d" "h \<in> set (hosts pid)"
          by (auto split: if_splits)
        then show False
          using "2.prems"(3) \<open>h \<in> set (hosts (d_project_id d))\<close> by blast
      next
        case AccessTeamOrPlatformAdmin
        then have "d_preview_host d = Some h" using h(1) by (simp add: set_deployment_hosts)
        moreover have "rt_access r = AccessTeamOrPlatformAdmin" "rt_host r = pts h"
          using same h(2) AccessTeamOrPlatformAdmin by (simp_all add: route_name_def serve_route_of_def)
        then have "\<exists>e\<in>set ds. d_preview_host e = Some h" using later by auto
        ultimately show False using "2.prems"(4) by (force simp: image_iff)
      qed
    qed
    then have "route_name ` set (map (serve_route_of config_mode d n url res) (deployment_hosts previews hosts d)) \<inter>
        route_name ` set rest = {}" by blast
    ultimately show ?thesis
      unfolding ok(4) map_append distinct_append using own_names[OF "2.prems"(2)] by (simp only: set_map)
  qed
qed simp

lemma distinct_map_filter_mono:
  "distinct (map f (filter Q xs)) \<Longrightarrow> (\<And>x. P x \<Longrightarrow> Q x) \<Longrightarrow> distinct (map f (filter P xs))"
  by (induction xs) (auto split: if_splits)

lemma snapshot_names:
  assumes ok: "route_tables_ok w" and run: "serve_routes config_mode digest requesting w = Inr snap"
  shows "distinct (map route_name (sn_routes snap))"
proof -
  let ?ds = "route_deployments w" and ?bs = "route_bindings w (route_deployments w)"
  obtain rs where rs: "route_loop config_mode (route_nodes w ?ds) (effective_preview_ids ?ds)
      (hosts_by_project ?bs) ?ds = Inr rs" "sn_routes snap = sort_key rt_host rs"
    using serve_routes_Inr[OF run] by metis
  have host: "distinct (map h_host ?bs)"
    unfolding route_bindings_def
    by (rule distinct_map_filter_mono[OF conjunct1[OF conjunct2[OF conjunct2[OF ok[unfolded route_tables_ok_def]]]]])
      simp
  have prev: "distinct (map d_preview_host (filter (\<lambda>d. d_preview_host d \<noteq> None) ?ds))"
    unfolding route_deployments_def filter_filter
    by (rule distinct_map_filter_mono[OF conjunct2[OF conjunct2[OF conjunct2[OF ok[unfolded route_tables_ok_def]]]]])
      simp
  have "distinct (map route_name rs)"
  proof (rule route_loop_names[OF rs(1) _ _ prev])
    show "distinct (hosts_by_project ?bs pid)" for pid
      unfolding hosts_by_project_def by (intro distinct_map_filter host)
    show "pid = pid'" if "h \<in> set (hosts_by_project ?bs pid)" "h \<in> set (hosts_by_project ?bs pid')" for pid pid' h
      using that host by (auto simp: hosts_by_project_def distinct_map dest: inj_onD)
  qed
  then show ?thesis unfolding rs(2) by (simp add: distinct_map)
qed

text \<open>
  C35. The routes of the control plane. For tables that keep their unique keys, the snapshot a Serve Node
  receives holds exactly the routes the rows call for: a built, served deployment on an enabled Node is
  routed from its preview host, for the team only, when it is the newest of its environment and ready, and
  from every active, eligible host of its project, for the public, when it is the active production
  deployment; each route carries that Node's address and the deployment's reservation, and no
  route appears twice.
\<close>

theorem routes_exact:
  assumes "route_tables_ok w"
    and "serve_routes config_mode digest requesting w = Inr snap"
  shows "(\<forall>r. r \<in> set (sn_routes snap) \<longleftrightarrow>
      (\<exists>d\<in>set (deployments w). \<exists>h. servable d \<and> serves_host w d h (rt_access r) \<and> route_for config_mode w d h r)) \<and>
    distinct (map (\<lambda>r. (rt_access r, rt_host r)) (sn_routes snap)) \<and>
    sorted (map rt_host (sn_routes snap))"
proof (intro conjI allI)
  show "r \<in> set (sn_routes snap) \<longleftrightarrow>
      (\<exists>d\<in>set (deployments w). \<exists>h. servable d \<and> serves_host w d h (rt_access r) \<and> route_for config_mode w d h r)" for r
    by (rule routes_mem[OF assms])
  show "distinct (map (\<lambda>r. (rt_access r, rt_host r)) (sn_routes snap))"
    using snapshot_names[OF assms] by (simp add: route_name_def[abs_def])
  show "sorted (map rt_host (sn_routes snap))"
    using serve_routes_Inr[OF assms(2)] sorted_sort_key by metis
qed

text \<open>
  C36. When the Nodes accept the snapshot. A Node takes over a new snapshot of the control plane unless one
  host name is at the same time a routed preview host and a routed binding of some project; in that
  case, and only then, the whole snapshot is refused and the Node goes on with its old routes.
\<close>

theorem snapshot_accepted_iff:
  assumes "route_tables_ok w" and "hosts_normal w"
    and "serve_routes config_mode digest requesting w = Inr snap"
    and "tb_revision t \<noteq> Some (sn_revision snap)"
  shows "(\<exists>t'. apply_snapshot snap t = (Inr True, t')) \<longleftrightarrow>
    (\<forall>r\<in>set (sn_routes snap). \<forall>q\<in>set (sn_routes snap). rt_host r = rt_host q \<longrightarrow> rt_access r = rt_access q)"
proof -
  have norm: "normalize_host (rt_host r) = Inr (rt_host r)" if "r \<in> set (sn_routes snap)" for r
    by (rule route_host_normal[OF assms(1,3,2) that])
  have "(\<exists>t'. apply_snapshot snap t = (Inr True, t')) \<longleftrightarrow>
      (\<exists>out. map filed (sn_routes snap) = map Some out \<and> distinct (map fst out))"
    using assms(4) by (auto simp: apply_snapshot_def collect_start[symmetric] split: sum.splits)
  also have "\<dots> \<longleftrightarrow> distinct (map (\<lambda>r. normalize_host (rt_host r)) (sn_routes snap))"
    unfolding filed_exists using norm by blast
  also have "map (\<lambda>r. normalize_host (rt_host r)) (sn_routes snap) =
      map (Inr :: _ \<Rightarrow> host_error + _) (map rt_host (sn_routes snap))"
    using norm by simp
  also have "distinct \<dots> \<longleftrightarrow> distinct (map rt_host (sn_routes snap))"
    by (simp add: distinct_map inj_on_def)
  also have "\<dots> \<longleftrightarrow>
      (\<forall>r\<in>set (sn_routes snap). \<forall>q\<in>set (sn_routes snap). rt_host r = rt_host q \<longrightarrow> rt_access r = rt_access q)"
    using snapshot_names[OF assms(1,3)] by (auto simp: distinct_map inj_on_def route_name_def)
  finally show ?thesis .
qed

section \<open>The route table and the answer for one host\<close>

text \<open>No name is both a binding's and a preview's, whatever their states.\<close>

definition names_apart :: "world \<Rightarrow> bool" where
  "names_apart w \<longleftrightarrow>
     (\<forall>b\<in>set (host_bindings w). \<forall>d\<in>set (deployments w).
        h_deleted_at b = None \<and> d_deleted_at d = None \<longrightarrow> d_preview_host d \<noteq> Some (h_host b))"

lemma filter_key_unique:
  "distinct (map f (filter Q xs)) \<Longrightarrow> x \<in> set xs \<Longrightarrow> y \<in> set xs \<Longrightarrow> Q x \<Longrightarrow> Q y \<Longrightarrow> f x = f y \<Longrightarrow> x = y"
  by (simp add: distinct_map inj_on_def)

lemma find_only:
  assumes "c \<in> set xs" "p c" "\<And>y. y \<in> set xs \<Longrightarrow> p y \<Longrightarrow> y = c"
  shows "find p xs = Some c"
proof (cases "find p xs")
  case None
  then show ?thesis using assms(1,2) by (auto simp: find_None_iff_ball)
next
  case (Some y)
  then show ?thesis using assms(3) find_Some_iff_mem[OF Some] by simp
qed

lemma find_binding_row:
  assumes "route_tables_ok w" "b \<in> set (host_bindings w)" "h_deleted_at b = None"
  shows "find_binding_by_host w (pts (h_host b)) = Some b"
  unfolding find_binding_by_host_def
proof (rule find_only)
  fix c
  assume c: "c \<in> set (host_bindings w)" "pts (h_host c) = pts (h_host b) \<and> h_deleted_at c = None"
  have "distinct (map h_host (filter (\<lambda>b. h_deleted_at b = None) (host_bindings w)))"
    using assms(1) by (simp add: route_tables_ok_def)
  from filter_key_unique[OF this c(1) assms(2)] c(2) assms(3) show "c = b" by simp
qed (use assms in auto)

lemma find_preview_row:
  assumes "route_tables_ok w" "d \<in> set (deployments w)" "d_deleted_at d = None" "d_preview_host d = Some h"
  shows "find_preview w (pts h) = Some d"
  unfolding find_preview_def
proof (rule find_only)
  fix e
  assume e: "e \<in> set (deployments w)" "map_option pts (d_preview_host e) = Some (pts h) \<and> d_deleted_at e = None"
  have "distinct (map d_preview_host
      (filter (\<lambda>d. d_preview_host d \<noteq> None \<and> d_deleted_at d = None) (deployments w)))"
    using assms(1) by (simp add: route_tables_ok_def)
  from filter_key_unique[OF this e(1) assms(2)] e(2) assms(3,4) show "e = d" by auto
qed (use assms in auto)

text \<open>The rows the database query of \<open>effective_preview\<close> ranges over, and its answer.\<close>

definition ready_preview :: "deployment \<Rightarrow> bool" where
  "ready_preview d \<longleftrightarrow> d_build_status d = BReady \<and> d_preview_host d \<noteq> None \<and> d_deleted_at d = None"

lemma head_sort_key:
  assumes "sort_key f xs = y # ys"
  shows "y \<in> set xs" "\<And>x. x \<in> set xs \<Longrightarrow> f y \<le> f x"
proof -
  have "set (y # ys) = set xs" using assms set_sort[of f xs] by simp
  moreover have "sorted (map f (y # ys))" using assms sorted_sort_key[of f xs] by simp
  ultimately show "y \<in> set xs" "\<And>x. x \<in> set xs \<Longrightarrow> f y \<le> f x" by auto
qed

lemma effective_preview_iff:
  assumes ids: "distinct (map d_id (deployments w))"
  shows "effective_preview w pid env = Some d \<longleftrightarrow>
    d \<in> set (deployments w) \<and> ready_preview d \<and> env_key d = (pid, env) \<and> d_serve_status d = SReady \<and>
    (\<forall>e\<in>set (deployments w). ready_preview e \<and> env_key e = (pid, env) \<longrightarrow>
       (d_created_at e, d_id e) \<le> (d_created_at d, d_id d))"
proof -
  let ?xs = "filter (\<lambda>d. d_project_id d = pid \<and> d_environment d = env \<and> d_build_status d = BReady \<and>
             d_preview_host d \<noteq> None \<and> d_deleted_at d = None) (deployments w)"
  let ?key = "\<lambda>d. (- d_created_at d, - int (d_id d))"
  have mem: "e \<in> set ?xs \<longleftrightarrow> e \<in> set (deployments w) \<and> ready_preview e \<and> env_key e = (pid, env)" for e
    by (auto simp: ready_preview_def env_key_def)
  have key: "?key x \<le> ?key y \<longleftrightarrow> (d_created_at y, d_id y) \<le> (d_created_at x, d_id x)" for x y
    by auto
  have same: "x = y" if "x \<in> set ?xs" "y \<in> set ?xs" "?key x \<le> ?key y" "?key y \<le> ?key x" for x y
  proof -
    have "d_id x = d_id y" using that(3,4) by auto
    then show ?thesis using ids that(1,2) by (auto simp: distinct_map dest: inj_onD)
  qed
  show ?thesis
  proof (cases "sort_key ?key ?xs")
    case Nil
    then have "set ?xs = {}" using arg_cong[OF Nil, of set] unfolding set_sort by (simp only: list.set)
    then have "\<not> (d \<in> set (deployments w) \<and> ready_preview d \<and> env_key d = (pid, env))"
      using mem[of d] by (simp only: empty_iff) simp
    then show ?thesis using Nil by (auto simp: effective_preview_def)
  next
    case (Cons y ys)
    note y = head_sort_key[OF Cons]
    have "effective_preview w pid env = Some d \<longleftrightarrow> d = y \<and> d_serve_status d = SReady"
      unfolding effective_preview_def Cons by auto
    also have "\<dots> \<longleftrightarrow> d \<in> set ?xs \<and> d_serve_status d = SReady \<and> (\<forall>e\<in>set ?xs. ?key d \<le> ?key e)"
      using y same by blast
    finally show ?thesis unfolding Ball_def mem key by (simp only: imp_conjL conj_assoc)
  qed
qed

lemma publishes_found:
  assumes "route_tables_ok w" "d \<in> set (deployments w)" "publishes d" "d_deleted_at d = None"
  shows "find_active w (d_project_id d) Production = Some d"
proof -
  have "deployments_con (deployments w) = None" using assms(1) by (simp add: route_tables_ok_def)
  from find_active_row[OF this assms(2)] assms(3,4) show ?thesis
    by (simp add: publishes_def is_active_def)
qed

lemma public_resolves:
  assumes "route_tables_ok w" "d \<in> set (deployments w)" "publishes d" "d_deleted_at d = None" "binds w b d"
    and "normalize_host q = Inr (pts (h_host b))"
  shows "resolve_host q w = Inr (resolved w d (pts (h_host b)) ''production'' AccessPublic)"
proof -
  have b: "b \<in> set (host_bindings w)" "h_deleted_at b = None" "h_status b = HActive"
    "h_environment b \<noteq> HostPreview" "\<not> binding_blocked b" "h_project_id b = d_project_id d"
    using assms(5) by (simp_all add: binds_def)
  show ?thesis
    unfolding resolve_host_def
    using assms(6) find_binding_row[OF assms(1) b(1,2)] publishes_found[OF assms(1-4)] b(3-6)
    by (simp add: resolve_binding_def)
qed

lemma preview_unbound:
  assumes "names_apart w" "d \<in> set (deployments w)" "d_deleted_at d = None" "d_preview_host d = Some h"
  shows "find_binding_by_host w (pts h) = None"
proof -
  have "\<not> (h_host b = h \<and> h_deleted_at b = None)" if "b \<in> set (host_bindings w)" for b
    using assms that unfolding names_apart_def by blast
  then show ?thesis by (simp add: find_binding_by_host_def find_None_iff_ball)
qed

lemma preview_resolves:
  assumes "route_tables_ok w" "names_apart w" "d \<in> set (deployments w)" "servable d"
    "d_preview_host d = Some h" "d_serve_status d = SReady" "normalize_host q = Inr (pts h)"
  shows "resolve_host q w =
    (if map_option d_id (effective_preview w (d_project_id d) (d_environment d)) = Some (d_id d)
     then Inr (resolved w d (pts h) (environment_value (d_environment d)) AccessTeamOrPlatformAdmin)
     else Inl (NotFound resolve_op ''preview deployment has been superseded''))"
proof -
  have "d_deleted_at d = None" "d_build_status d = BReady" using assms(4) by (simp_all add: servable_def)
  then show ?thesis
    using assms(6,7) preview_unbound[OF assms(2,3) _ assms(5)] find_preview_row[OF assms(1,3) _ assms(5)]
    by (simp add: resolve_host_def resolve_preview_def)
qed

text \<open>A newer build of the environment that is not (yet) in service.\<close>

definition newer_waiting :: "world \<Rightarrow> deployment \<Rightarrow> bool" where
  "newer_waiting w d \<longleftrightarrow>
     (\<exists>e\<in>set (deployments w). ready_preview e \<and> env_key e = env_key d \<and>
        d_serve_status e \<in> {SPending, SSyncing, SFailed} \<and>
        (d_created_at d, d_id d) < (d_created_at e, d_id e))"

lemma superseded_iff:
  assumes "route_tables_ok w" "d \<in> set (deployments w)" "newest_servable w d" "d_serve_status d = SReady"
  shows "map_option d_id (effective_preview w (d_project_id d) (d_environment d)) = Some (d_id d) \<longleftrightarrow>
    \<not> newer_waiting w d"
proof -
  have ids: "distinct (map d_id (deployments w))"
    using assms(1) by (auto simp: route_tables_ok_def deployments_con_def split: if_splits)
  have row: "ready_preview d" "\<And>e. servable e \<longleftrightarrow> d_build_status e = BReady \<and> d_deleted_at e = None \<and>
      d_serve_status e \<notin> {SPending, SSyncing, SFailed}"
    using assms(3) by (auto simp: newest_servable_def servable_def ready_preview_def)
      (case_tac "d_serve_status e"; simp)+
  have "map_option d_id (effective_preview w (d_project_id d) (d_environment d)) = Some (d_id d) \<longleftrightarrow>
      effective_preview w (d_project_id d) (d_environment d) = Some d"
  proof
    assume "map_option d_id (effective_preview w (d_project_id d) (d_environment d)) = Some (d_id d)"
    then obtain e where e: "effective_preview w (d_project_id d) (d_environment d) = Some e" "d_id e = d_id d"
      by auto
    then have "e = d"
      using ids assms(2) unfolding effective_preview_iff[OF ids] by (auto simp: distinct_map dest: inj_onD)
    with e(1) show "effective_preview w (d_project_id d) (d_environment d) = Some d" by simp
  qed simp
  also have "\<dots> \<longleftrightarrow> (\<forall>e\<in>set (deployments w). ready_preview e \<and> env_key e = env_key d \<longrightarrow>
       (d_created_at e, d_id e) \<le> (d_created_at d, d_id d))"
    unfolding effective_preview_iff[OF ids] using assms(2,4) row(1) by (simp add: env_key_def)
  also have "\<dots> \<longleftrightarrow> \<not> newer_waiting w d"
  proof -
    have "(d_created_at e, d_id e) \<le> (d_created_at d, d_id d)"
      if "e \<in> set (deployments w)" "ready_preview e" "env_key e = env_key d"
        "d_serve_status e \<notin> {SPending, SSyncing, SFailed}" for e
      using assms(3) that row(2)[of e] unfolding newest_servable_def ready_preview_def by blast
    then show ?thesis
      unfolding newer_waiting_def not_le[symmetric] by blast
  qed
  finally show ?thesis .
qed

text \<open>
  C37. The route table and the answer for one host agree. Let a Node apply the control plane's snapshot, and let
  its table route a host. Then \<open>resolve-host\<close> names the same deployment with the same access, with one
  exception: a protected preview host whose deployment is still the newest in service while a newer build of the
  environment waits for its Node; the table goes on routing it, and \<open>resolve-host\<close> answers that it has been
  superseded.
\<close>

theorem routed_host_resolves:
  assumes ok: "route_tables_ok w" and norm: "hosts_normal w" and apart: "names_apart w"
    and run: "serve_routes config_mode digest requesting w = Inr snap"
    and app: "apply_snapshot snap t = (Inr True, t')" and look: "lookup_route t' q = Some r"
  shows "\<exists>d\<in>set (deployments w). d_id d = rt_deployment_id r \<and>
    (if rt_access r = AccessTeamOrPlatformAdmin \<and> newer_waiting w d
     then resolve_host q w = Inl (NotFound resolve_op ''preview deployment has been superseded'')
     else \<exists>env. resolve_host q w = Inr (resolved w d (rt_host r) env (rt_access r)))"
proof -
  have "r \<in> set (sn_routes snap)" and q: "normalize_host q = Inr (rt_host r)"
    using applied_lookup[OF app route_host_normal[OF ok run norm]] look by auto
  then obtain d h where d: "d \<in> set (deployments w)" "servable d" "serves_host w d h (rt_access r)"
    "rt_host r = pts h" "d_id d = rt_deployment_id r"
    using routes_mem[OF ok run] by (auto simp: route_for_def)
  show ?thesis
  proof (intro bexI[OF _ d(1)] conjI d(5), cases "rt_access r")
    case AccessPublic
    then obtain b where b: "publishes d" "binds w b d" "h_host b = h" using d(3) by auto
    have "d_deleted_at d = None" using d(2) by (simp add: servable_def)
    from public_resolves[OF ok d(1) b(1) this b(2)] q
    show "if rt_access r = AccessTeamOrPlatformAdmin \<and> newer_waiting w d
     then resolve_host q w = Inl (NotFound resolve_op ''preview deployment has been superseded'')
     else \<exists>env. resolve_host q w = Inr (resolved w d (rt_host r) env (rt_access r))"
      using AccessPublic d(4) b(3) by auto
  next
    case AccessTeamOrPlatformAdmin
    then have p: "newest_servable w d" "d_serve_status d = SReady" "d_preview_host d = Some h"
      using d(3) by auto
    have "normalize_host q = Inr (pts h)" using q d(4) by simp
    from preview_resolves[OF ok apart d(1,2) p(3,2) this]
    show "if rt_access r = AccessTeamOrPlatformAdmin \<and> newer_waiting w d
     then resolve_host q w = Inl (NotFound resolve_op ''preview deployment has been superseded'')
     else \<exists>env. resolve_host q w = Inr (resolved w d (rt_host r) env (rt_access r))"
      unfolding superseded_iff[OF ok d(1) p(1,2)] using AccessTeamOrPlatformAdmin d(4) by auto
  qed
qed

lemma route_loop_urls:
  "route_loop config_mode ns previews hosts ds = Inr rs \<Longrightarrow> d \<in> set ds \<Longrightarrow>
   Option.bind (d_serve_node_id d) (\<lambda>nid. find_row n_id nid ns) = Some n \<Longrightarrow> n_base_url n \<noteq> None"
  by (induction config_mode ns previews hosts ds arbitrary: rs rule: route_loop.induct)
    (auto split: option.splits sum.splits)

lemma route_for_exists:
  assumes "carries w n d" "n_base_url n = Some url"
  shows "\<exists>r. route_for config_mode w d h r \<and> rt_access r = a \<and> rt_target_node_id r = n_id n"
  using assms
  by (intro exI[of _ "serve_route_of config_mode d n url \<lparr>sr_cpu_millicores = nat (d_serve_cpu_millicores d),
      sr_memory_mb = nat (d_serve_memory_mb d), sr_disk_mb = nat (d_serve_disk_mb d)\<rparr> (h, a)"])
    (auto simp: route_for_def serve_route_of_def)

text \<open>
  What \<open>resolve-host\<close> answers, the table routes: whenever it names a deployment that is in service on an
  enabled Node, the table a Node made of the same state's snapshot sends that host to that deployment on that
  Node, with the access the answer states.
\<close>

theorem resolved_host_routed:
  assumes ok: "route_tables_ok w" and norm: "hosts_normal w"
    and run: "serve_routes config_mode digest requesting w = Inr snap"
    and app: "apply_snapshot snap t = (Inr True, t')"
    and res: "resolve_host q w = Inr resp"
    and d: "d \<in> set (deployments w)" "d_id d = rh_deployment_id resp" "servable d" "carries w n d"
  shows "\<exists>r. lookup_route t' q = Some r \<and> rt_deployment_id r = rh_deployment_id resp \<and>
    rt_target_node_id r = n_id n \<and> rt_access r = rh_access resp"
proof -
  have ids: "distinct (map d_id (deployments w))" and nids: "distinct (map n_id (nodes w))"
    using ok by (auto simp: route_tables_ok_def deployments_con_def nodes_con_def split: if_splits)
  have same: "e = d" if "e \<in> set (deployments w)" "d_id e = d_id d" for e
    using ids d(1) that by (auto simp: distinct_map dest: inj_onD)
  obtain host where host: "normalize_host q = Inr host" using res by (auto simp: resolve_host_def split: sum.splits)
  have served: "\<exists>h. host = pts h \<and> serves_host w d h (rh_access resp)"
  proof (cases "find_binding_by_host w host")
    case (Some b)
    then have b: "b \<in> set (host_bindings w)" "pts (h_host b) = host" "h_deleted_at b = None"
      using find_Some_iff_mem by (fastforce simp: find_binding_by_host_def)+
    obtain e where e: "find_active w (h_project_id b) Production = Some e" "d_id e = d_id d"
      "rh_access resp = AccessPublic" "h_status b = HActive" "\<not> binding_blocked b" "h_environment b \<noteq> HostPreview"
      using res host Some d(2)
      by (auto simp: resolve_host_def resolve_binding_def resolved_def split: if_splits option.splits)
    have "e \<in> set (deployments w) \<and> d_project_id e = h_project_id b \<and> publishes e"
      using find_Some_iff_mem[OF e(1)[unfolded find_active_def]] by (simp add: publishes_def)
    moreover from this same e(2) have "e = d" by blast
    ultimately show ?thesis using e b by (auto simp: binds_def)
  next
    case None
    then obtain e where e: "find_preview w host = Some e" "d_id e = d_id d"
      "rh_access resp = AccessTeamOrPlatformAdmin" "d_serve_status e = SReady"
      "map_option d_id (effective_preview w (d_project_id e) (d_environment e)) = Some (d_id e)"
      using res host d(2)
      by (auto simp: resolve_host_def resolve_preview_def resolved_def split: if_splits option.splits)
    have mem: "e \<in> set (deployments w)" "map_option pts (d_preview_host e) = Some host"
      using find_Some_iff_mem[OF e(1)[unfolded find_preview_def]] by auto
    have ed: "e = d" using same mem(1) e(2) by simp
    obtain x where "effective_preview w (d_project_id d) (d_environment d) = Some x" "d_id x = d_id d"
      using e(5) ed by auto
    then have "effective_preview w (d_project_id d) (d_environment d) = Some d"
      using same unfolding effective_preview_iff[OF ids] by blast
    then have "newest_servable w d"
      using d(3) mem(2) ed unfolding effective_preview_iff[OF ids] newest_servable_def ready_preview_def servable_def
      by (auto simp: env_key_def)
    with e(3,4) mem(2) ed show ?thesis by auto
  qed
  then obtain h where h: "host = pts h" "serves_host w d h (rh_access resp)" by blast
  have "d \<in> set (route_deployments w)" using d(1,3) h(2) serves_host_row by (simp add: route_row)
  then have found: "Option.bind (d_serve_node_id d) (\<lambda>nid. find_row n_id nid (route_nodes w (route_deployments w))) = Some n"
    using d(4) route_node_iff[OF nids] by blast
  obtain rs where "route_loop config_mode (route_nodes w (route_deployments w))
      (effective_preview_ids (route_deployments w))
      (hosts_by_project (route_bindings w (route_deployments w))) (route_deployments w) = Inr rs"
    by (rule serve_routes_Inr[OF run])
  from route_loop_urls[OF this \<open>d \<in> set (route_deployments w)\<close> found]
  obtain url where "n_base_url n = Some url" by blast
  from route_for_exists[OF d(4) this] obtain r where
    r: "route_for config_mode w d h r" "rt_access r = rh_access resp" "rt_target_node_id r = n_id n"
    by blast
  then have "r \<in> set (sn_routes snap)" using routes_mem[OF ok run] d(1,3) h(2) by auto
  moreover have "rt_host r = host" "rt_deployment_id r = d_id d" using r(1) h(1) by (simp_all add: route_for_def)
  ultimately show ?thesis
    using applied_lookup[OF app route_host_normal[OF ok run norm]] host r(2,3) d(2) by auto
qed

section \<open>Witnesses\<close>

definition demo_binding :: "uuid \<Rightarrow> string \<Rightarrow> host_binding" where
  "demo_binding i host =
     \<lparr>h_id = i, h_project_id = 100, h_team_id = 200, h_host_source_id = Some 300, h_host = host, h_region = ''eu'',
      h_kind = HostPlatform, h_environment = HostProduction, h_status = HActive, h_failure_reason = None,
      h_is_primary = True, h_review_status = HrNotRequired, h_reviewed_by_user_id = None, h_reviewed_at = None,
      h_review_reason = None, h_ownership_status = ''not_required'', h_ownership_checked_at = None,
      h_ownership_error = None, h_deleted_at = None, h_created_at = 0, h_updated_at = 0\<rparr>"

text \<open>
  An active production deployment with its host, a preview in service and a newer preview that still
  synchronizes.
\<close>

definition demo_deployments :: "deployment list" where
  "demo_deployments =
     [sample_deployment 1 Production BReady SReady RActive (Some 10),
      (sample_deployment 2 Preview BReady SReady RDraft (Some 10))\<lparr>d_preview_host := Some ''site-2.example.com''\<rparr>,
      (sample_deployment 3 Preview BReady SSyncing RDraft (Some 10))\<lparr>d_preview_host := Some ''site-3.example.com''\<rparr>]"

definition demo_routing :: "string \<Rightarrow> world" where
  "demo_routing host =
     (sample_world demo_deployments [sample_node 10])\<lparr>host_bindings := [demo_binding 50 host]\<rparr>"

definition demo_routes :: "string \<Rightarrow> route_snapshot_response" where
  "demo_routes host =
     (case serve_routes (\<lambda>_. None) (\<lambda>rs. map (\<lambda>r. CHR ''x'') rs) (sample_node 10) (demo_routing host) of
        Inr snap \<Rightarrow> snap | Inl _ \<Rightarrow> \<lparr>sn_revision = ''none'', sn_routes = []\<rparr>)"

lemma demo_routes_run:
  "serve_routes (\<lambda>_. None) (\<lambda>rs. map (\<lambda>r. CHR ''x'') rs) (sample_node 10) (demo_routing ''site.example.com'') =
     Inr (demo_routes ''site.example.com'')"
  "serve_routes (\<lambda>_. None) (\<lambda>rs. map (\<lambda>r. CHR ''x'') rs) (sample_node 10) (demo_routing ''site-2.example.com'') =
     Inr (demo_routes ''site-2.example.com'')"
  by code_simp+

lemma demo_routing_ok:
  "route_tables_ok (demo_routing ''site.example.com'')" "hosts_normal (demo_routing ''site.example.com'')"
  "names_apart (demo_routing ''site.example.com'')"
  "route_tables_ok (demo_routing ''site-2.example.com'')" "hosts_normal (demo_routing ''site-2.example.com'')"
  by code_simp+

lemma routes_exact_witness:
  "(\<forall>r. r \<in> set (sn_routes (demo_routes ''site.example.com'')) \<longleftrightarrow>
      (\<exists>d\<in>set (deployments (demo_routing ''site.example.com'')). \<exists>h. servable d \<and>
         serves_host (demo_routing ''site.example.com'') d h (rt_access r) \<and>
         route_for (\<lambda>_. None) (demo_routing ''site.example.com'') d h r)) \<and>
   length (sn_routes (demo_routes ''site.example.com'')) = 2"
proof -
  have "length (sn_routes (demo_routes ''site.example.com'')) = 2" by code_simp
  with routes_exact[OF demo_routing_ok(1) demo_routes_run(1)] show ?thesis by blast
qed

lemma snapshot_accepted_iff_witness:
  "\<not> (\<exists>t'. apply_snapshot (demo_routes ''site-2.example.com'') empty_table = (Inr True, t'))"
proof -
  have "tb_revision empty_table \<noteq> Some (sn_revision (demo_routes ''site-2.example.com''))" by code_simp
  moreover have "\<not> (\<forall>r\<in>set (sn_routes (demo_routes ''site-2.example.com'')).
      \<forall>q\<in>set (sn_routes (demo_routes ''site-2.example.com'')). rt_host r = rt_host q \<longrightarrow> rt_access r = rt_access q)"
    by code_simp
  ultimately show ?thesis
    using snapshot_accepted_iff[OF demo_routing_ok(4,5) demo_routes_run(2), of empty_table] by blast
qed

definition demo_serving :: route_snapshot where
  "demo_serving = snd (apply_snapshot (demo_routes ''site.example.com'') empty_table)"

lemma demo_serving_applied:
  "apply_snapshot (demo_routes ''site.example.com'') empty_table = (Inr True, demo_serving)"
  by code_simp

lemma demo_serving_preview:
  "case lookup_route demo_serving (pts ''site-2.example.com'') of
     Some r \<Rightarrow> rt_access r = AccessTeamOrPlatformAdmin \<and> rt_deployment_id r = 2 | None \<Rightarrow> False"
  by code_simp

lemma routed_host_resolves_witness:
  "resolve_host (pts ''site-2.example.com'') (demo_routing ''site.example.com'') =
     Inl (NotFound resolve_op ''preview deployment has been superseded'')"
proof -
  obtain r where r: "lookup_route demo_serving (pts ''site-2.example.com'') = Some r"
    "rt_access r = AccessTeamOrPlatformAdmin" "rt_deployment_id r = 2"
    using demo_serving_preview by (auto split: option.splits)
  have "\<forall>d\<in>set (deployments (demo_routing ''site.example.com'')). d_id d = 2 \<longrightarrow>
      newer_waiting (demo_routing ''site.example.com'') d"
    by code_simp
  with routed_host_resolves[OF demo_routing_ok(1-3) demo_routes_run(1) demo_serving_applied r(1)] r(2,3)
  show ?thesis by auto
qed

lemma resolved_host_routed_witness:
  "\<exists>r. lookup_route demo_serving (pts ''Site.Example.com'') = Some r \<and> rt_deployment_id r = 1 \<and>
     rt_target_node_id r = 10 \<and> rt_access r = AccessPublic"
proof -
  let ?d = "sample_deployment 1 Production BReady SReady RActive (Some 10)"
  let ?w = "demo_routing ''site.example.com''"
  have res: "resolve_host (pts ''Site.Example.com'') ?w =
      Inr (resolved ?w ?d (pts ''site.example.com'') ''production'' AccessPublic)"
    by code_simp
  have "?d \<in> set (deployments ?w)" "servable ?d" "carries ?w (sample_node 10) ?d"
    by (simp_all add: demo_routing_def demo_deployments_def servable_def carries_def sample_node_def)
  with resolved_host_routed[OF demo_routing_ok(1,2) demo_routes_run(1) demo_serving_applied res, of ?d "sample_node 10"]
  show ?thesis by (simp add: resolved_def sample_node_def)
qed

end
