(* ===== verification/Accounts.thy ===== *)
theory Accounts
  imports AppErrors SourceCredentials Validator
begin

text \<open>
  Accounts (\<open>domain/users.rs\<close>, \<open>domain/admin_users.rs\<close>), redeemable codes (\<open>domain/codes.rs\<close>) and who may
  register (\<open>domain/registration.rs\<close>): the tables with their constraints, the operations, and what an
  administrator can and cannot do to an account. E-mail addresses are normalized, hence ASCII. The
  password hash (Argon2id of \<open>src/crates/crypto\<close>) is a library: its hash and its verification are parameters,
  the random salt is an argument, like the random bytes of a token.
\<close>

section \<open>Tables\<close>

definition users_con :: "user list \<Rightarrow> dberr option" where
  "users_con rows =
     (if \<not> distinct (map us_id rows) then Some (UniqueViolation ''users_pkey'')
      else if \<not> distinct (map us_email (filter (\<lambda>u. us_deleted_at u = None) rows))
        then Some (UniqueViolation ''ux_users_email'')
      else if \<not> list_all (\<lambda>u. 0 < us_auth_version u) rows then Some (CheckViolation ''users'')
      else None)"

definition password_credentials_con :: "password_credential list \<Rightarrow> dberr option" where
  "password_credentials_con rows =
     (if \<not> distinct (map pw_id rows) then Some (UniqueViolation ''user_password_credentials_pkey'')
      else if \<not> distinct (map pw_user_id rows)
        then Some (UniqueViolation ''ux_user_password_credentials_user_id'')
      else None)"

definition password_histories_con :: "password_history list \<Rightarrow> dberr option" where
  "password_histories_con rows =
     (if distinct (map ph_id rows) then None else Some (UniqueViolation ''user_password_history_pkey''))"

definition code_checks :: "code_row \<Rightarrow> bool" where
  "code_checks c \<longleftrightarrow>
     trim_by (\<lambda>x. x = CHR '' '') (co_scope c) \<noteq> [] \<and> length (co_scope c) \<le> 64 \<and>
     length (co_token_prefix c) = 6 \<and> length (co_token_suffix c) = 4 \<and>
     (co_used_by_user_id c = None \<or> co_used_at c \<noteq> None)"

definition codes_con :: "code_row list \<Rightarrow> dberr option" where
  "codes_con rows =
     (if \<not> distinct (map co_id rows) then Some (UniqueViolation ''codes_pkey'')
      else if \<not> distinct (map co_token_hash rows) then Some (UniqueViolation ''codes_token_hash_key'')
      else if \<not> list_all code_checks rows then Some (CheckViolation ''codes'')
      else None)"

definition put_users :: "user list \<Rightarrow> world \<Rightarrow> world" where
  "put_users rows w = w\<lparr>users := rows\<rparr>"

definition put_password_credentials :: "password_credential list \<Rightarrow> world \<Rightarrow> world" where
  "put_password_credentials rows w = w\<lparr>password_credentials := rows\<rparr>"

definition put_password_histories :: "password_history list \<Rightarrow> world \<Rightarrow> world" where
  "put_password_histories rows w = w\<lparr>password_histories := rows\<rparr>"

definition put_codes :: "code_row list \<Rightarrow> world \<Rightarrow> world" where
  "put_codes rows w = w\<lparr>codes := rows\<rparr>"

definition insert_user :: "user \<Rightarrow> (dberr, user) dbm" where
  "insert_user = exec_insert users_con users put_users"

definition update_user_row :: "uuid \<Rightarrow> (user \<Rightarrow> user) \<Rightarrow> (dberr, user) dbm" where
  "update_user_row i f w =
     exec_update users_con us_id users put_users i (\<lambda>u. (f u)\<lparr>us_updated_at := sql_now w\<rparr>) w"

text \<open>
  \<open>update_many\<close> with \<open>auth_version = auth_version + 1\<close>: the sum is computed in \<open>bigint\<close>.
\<close>

definition revoke_users_where :: "(user \<Rightarrow> bool) \<Rightarrow> (user \<Rightarrow> user) \<Rightarrow> (dberr, nat) dbm" where
  "revoke_users_where p f w =
     (if list_ex (\<lambda>u. p u \<and> us_auth_version u = 2 ^ 63 - 1) (users w) then (Inl BigintOutOfRange, w)
      else exec_update_many users_con users put_users p
             (\<lambda>u. (f u)\<lparr>us_auth_version := us_auth_version u + 1, us_updated_at := sql_now w\<rparr>) w)"

definition insert_password_credential :: "password_credential \<Rightarrow> (dberr, password_credential) dbm" where
  "insert_password_credential =
     exec_insert password_credentials_con password_credentials put_password_credentials"

definition update_password_credential ::
  "uuid \<Rightarrow> (password_credential \<Rightarrow> password_credential) \<Rightarrow> (dberr, password_credential) dbm" where
  "update_password_credential i f w =
     exec_update password_credentials_con pw_id password_credentials put_password_credentials i
       (\<lambda>p. (f p)\<lparr>pw_updated_at := sql_now w\<rparr>) w"

definition insert_code :: "code_row \<Rightarrow> (dberr, code_row) dbm" where
  "insert_code = exec_insert codes_con codes put_codes"

definition update_code :: "uuid \<Rightarrow> (code_row \<Rightarrow> code_row) \<Rightarrow> (dberr, code_row) dbm" where
  "update_code = exec_update codes_con co_id codes put_codes"

lemma users_con_None:
  "users_con rows = None \<longleftrightarrow> distinct (map us_id rows) \<and>
   distinct (map us_email (filter (\<lambda>u. us_deleted_at u = None) rows)) \<and>
   list_all (\<lambda>u. 0 < us_auth_version u) rows"
  by (simp add: users_con_def)

lemma codes_con_None:
  "codes_con rows = None \<longleftrightarrow> distinct (map co_id rows) \<and> distinct (map co_token_hash rows) \<and>
   list_all code_checks rows"
  by (simp add: codes_con_def)

lemma account_tables_put [simp]:
  "users (put_users us w) = us"
  "password_credentials (put_password_credentials ps w) = ps"
  "password_histories (put_password_histories hs w) = hs"
  "codes (put_codes cs w) = cs"
  by (simp_all add: put_users_def put_password_credentials_def put_password_histories_def put_codes_def)

interpretation usr: stored_table us_id users_con users put_users
  by unfold_locales (simp_all add: users_con_None)

interpretation pwd: stored_table pw_id password_credentials_con password_credentials put_password_credentials
  by unfold_locales (simp_all add: password_credentials_con_def split: if_splits)

interpretation pwh: stored_table ph_id password_histories_con password_histories put_password_histories
  by unfold_locales (simp_all add: password_histories_con_def split: if_splits)

interpretation cod: stored_table co_id codes_con codes put_codes
  by unfold_locales (simp_all add: codes_con_None)

section \<open>Passwords\<close>

record password_lib =
  argon2_hash :: "nat list \<Rightarrow> ustr \<Rightarrow> string option"
  argon2_verify :: "ustr \<Rightarrow> string \<Rightarrow> bool option"

definition hash_password :: "password_lib \<Rightarrow> nat list \<Rightarrow> ustr \<Rightarrow> string option" where
  "hash_password pl salt password = argon2_hash pl salt password"

text \<open>\<open>verify_password(..).unwrap_or(false)\<close>: a text that is no hash matches nothing.\<close>

definition password_matches :: "password_lib \<Rightarrow> ustr \<Rightarrow> string \<Rightarrow> bool" where
  "password_matches pl password hash = (argon2_verify pl password hash = Some True)"

section \<open>Users\<close>

record create_user_params =
  cu_email :: string
  cu_display_name :: "string option"
  cu_password_hash :: "string option"
  cu_platform_role :: platform_role
  cu_email_verified_at :: "time option"

definition insert_password_history :: "uuid \<Rightarrow> string \<Rightarrow> time \<Rightarrow> (anyhow, unit) dbm" where
  "insert_password_history uid hash created =
     bindM now_v7 (\<lambda>i.
     bindM (mapErr AnyDb (exec_insert password_histories_con password_histories put_password_histories
       \<lparr>ph_id = i, ph_user_id = uid, ph_password_hash = hash, ph_created_at = created\<rparr>)) (\<lambda>_.
     retM ()))"

definition create_user :: "create_user_params \<Rightarrow> (anyhow, user) dbm" where
  "create_user params =
     bindM now_utc (\<lambda>now.
     bindM now_v7 (\<lambda>uid.
     bindM (mapErr AnyDb (insert_user
       \<lparr>us_id = uid, us_email = cu_email params, us_display_name = cu_display_name params,
        us_avatar_version = None, us_status = UserActive, us_auth_version = 1,
        us_platform_role = cu_platform_role params, us_email_verified_at = cu_email_verified_at params,
        us_last_login_at = None, us_deleted_at = None, us_created_at = now, us_updated_at = now\<rparr>)) (\<lambda>u.
     case cu_password_hash params of
       None \<Rightarrow> retM u
     | Some hash \<Rightarrow>
         bindM now_v7 (\<lambda>pid.
         bindM (mapErr AnyDb (insert_password_credential
           \<lparr>pw_id = pid, pw_user_id = uid, pw_password_hash = hash, pw_must_change_password = False,
            pw_created_at = now, pw_updated_at = now\<rparr>)) (\<lambda>_.
         bindM (insert_password_history uid hash now) (\<lambda>_.
         retM u))))))"

definition any_user_exists :: "world \<Rightarrow> bool" where
  "any_user_exists w \<longleftrightarrow> find (\<lambda>u. us_deleted_at u = None) (users w) \<noteq> None"

definition get_user_by_email :: "world \<Rightarrow> string \<Rightarrow> user option" where
  "get_user_by_email w email = find (\<lambda>u. us_email u = email \<and> us_deleted_at u = None) (users w)"

definition get_user_by_id :: "world \<Rightarrow> uuid \<Rightarrow> user option" where
  "get_user_by_id w uid = find (\<lambda>u. us_id u = uid \<and> us_deleted_at u = None) (users w)"

definition update_last_login :: "uuid \<Rightarrow> (anyhow, unit) dbm" where
  "update_last_login uid =
     bindM now_utc (\<lambda>now.
     bindM (mapErr AnyDb (update_user_row uid (\<lambda>u. u\<lparr>us_last_login_at := Some now\<rparr>))) (\<lambda>_.
     retM ()))"

record update_user_params =
  uu_display_name :: "string option option"
  uu_status :: "user_status option"
  uu_platform_role :: "platform_role option"

definition apply_user_changes :: "update_user_params \<Rightarrow> user \<Rightarrow> user" where
  "apply_user_changes params u =
     u\<lparr>us_display_name := (case uu_display_name params of Some n \<Rightarrow> n | None \<Rightarrow> us_display_name u),
       us_status := (case uu_status params of Some s \<Rightarrow> s | None \<Rightarrow> us_status u),
       us_platform_role := (case uu_platform_role params of Some r \<Rightarrow> r | None \<Rightarrow> us_platform_role u)\<rparr>"

text \<open>
  Disabling goes through \<open>update_many\<close>, which counts the authentication version up in the database.
  A change of nothing reads the row back and writes none.
\<close>

definition update_user :: "user \<Rightarrow> update_user_params \<Rightarrow> (anyhow, user) dbm" where
  "update_user u params =
     (if uu_status params = Some UserDisabled then
        bindM (mapErr AnyDb (revoke_users_where (\<lambda>x. us_id x = us_id u) (apply_user_changes params))) (\<lambda>_.
        bindM (getM (\<lambda>w. find_row us_id (us_id u) (users w))) (\<lambda>row.
        okOr (AnyMsg ''user no longer exists'') row))
      else if uu_display_name params = None \<and> uu_status params = None \<and> uu_platform_role params = None then
        bindM (getM (\<lambda>w. find_row us_id (us_id u) (users w))) (\<lambda>row.
        okOr (AnyDb RecordNotUpdated) row)
      else mapErr AnyDb (update_user_row (us_id u) (apply_user_changes params)))"

definition active_admin :: "user \<Rightarrow> bool" where
  "active_admin u \<longleftrightarrow>
     us_deleted_at u = None \<and> us_status u = UserActive \<and> us_platform_role u = PlatformAdministrator"

definition count_active_admins :: "world \<Rightarrow> nat" where
  "count_active_admins w = length (filter active_admin (users w))"

text \<open>\<open>transaction\<close> here is the savepoint of a nested \<open>begin\<close>: it keeps the start of the outer one.\<close>

definition set_password_steps :: "uuid \<Rightarrow> string \<Rightarrow> (anyhow, unit) dbm" where
  "set_password_steps uid hash =
     bindM (getM (\<lambda>w. find (\<lambda>p. pw_user_id p = uid) (password_credentials w))) (\<lambda>existing.
     bindM
       (case existing of
          Some credential \<Rightarrow>
            bindM now_utc (\<lambda>now.
            bindM (mapErr AnyDb (update_password_credential (pw_id credential)
              (\<lambda>p. p\<lparr>pw_password_hash := hash, pw_updated_at := now\<rparr>))) (\<lambda>_. retM ()))
        | None \<Rightarrow>
            bindM now_utc (\<lambda>now.
            bindM now_v7 (\<lambda>pid.
            bindM (mapErr AnyDb (insert_password_credential
              \<lparr>pw_id = pid, pw_user_id = uid, pw_password_hash = hash, pw_must_change_password = False,
               pw_created_at = now, pw_updated_at = now\<rparr>)) (\<lambda>_. retM ())))) (\<lambda>_.
     bindM now_utc (\<lambda>now.
     bindM (insert_password_history uid hash now) (\<lambda>_.
     bindM (mapErr AnyDb (revoke_users_where (\<lambda>u. us_id u = uid) (\<lambda>u. u))) (\<lambda>affected.
     if affected = 1 then retM () else failM (AnyMsg ''password owner no longer exists''))))))"

definition set_password :: "uuid \<Rightarrow> string \<Rightarrow> (anyhow, unit) dbm" where
  "set_password uid hash = transaction (set_password_steps uid hash)"

definition credentials_are_valid :: "user_status option \<Rightarrow> bool \<Rightarrow> bool" where
  "credentials_are_valid status password_ok \<longleftrightarrow> status = Some UserActive \<and> password_ok"

definition verify_user_password ::
  "password_lib \<Rightarrow> string \<Rightarrow> world \<Rightarrow> string \<Rightarrow> ustr \<Rightarrow> user option" where
  "verify_user_password pl dummy_hash w email password =
     (let u = get_user_by_email w email;
          credential = (case u of
            Some u \<Rightarrow> find (\<lambda>p. pw_user_id p = us_id u) (password_credentials w) | None \<Rightarrow> None);
          hash = (case credential of Some c \<Rightarrow> pw_password_hash c | None \<Rightarrow> dummy_hash);
          password_ok = password_matches pl password hash
      in if \<not> credentials_are_valid (map_option us_status u) password_ok \<or> credential = None then None else u)"

section \<open>Searching users\<close>

text \<open>\<open>LIKE\<close> of PostgreSQL: a percent sign is any text, an underscore any character, a backslash quotes.\<close>

fun sql_like :: "string \<Rightarrow> string \<Rightarrow> bool" where
  "sql_like [] text = (text = [])"
| "sql_like (p # ps) text =
     (if p = CHR ''%'' then sql_like ps text \<or> (case text of [] \<Rightarrow> False | _ # rest \<Rightarrow> sql_like (p # ps) rest)
      else if p = CHR ''_'' then (case text of [] \<Rightarrow> False | _ # rest \<Rightarrow> sql_like ps rest)
      else if p = CHR 0x5C then
        (case ps of [] \<Rightarrow> False
         | q # qs \<Rightarrow> (case text of [] \<Rightarrow> False | c # rest \<Rightarrow> c = q \<and> sql_like qs rest))
      else (case text of [] \<Rightarrow> False | c # rest \<Rightarrow> c = p \<and> sql_like ps rest))"

text \<open>Three passes of \<open>str::replace\<close> with one-character patterns.\<close>

definition replace_char :: "char \<Rightarrow> string \<Rightarrow> string \<Rightarrow> string" where
  "replace_char c by text = concat (map (\<lambda>x. if x = c then by else [x]) text)"

definition escape_like :: "string \<Rightarrow> string" where
  "escape_like term =
     replace_char (CHR ''_'') [CHR 0x5C, CHR ''_'']
       (replace_char (CHR ''%'') [CHR 0x5C, CHR ''%'']
         (replace_char (CHR 0x5C) [CHR 0x5C, CHR 0x5C] term))"

definition search_pattern :: "string \<Rightarrow> string" where
  "search_pattern term = CHR ''%'' # escape_like term @ [CHR ''%'']"

record user_list_filter =
  uf_query :: "string option"
  uf_status :: "user_status option"
  uf_platform_role :: "platform_role option"
  uf_limit :: nat

text \<open>\<open>.as_deref().map(str::trim).filter(|t| !t.is_empty())\<close>.\<close>

definition trimmed_text :: "string option \<Rightarrow> string option" where
  "trimmed_text q =
     (case q of None \<Rightarrow> None | Some t \<Rightarrow> (let t = trim_by char_ws t in if t = [] then None else Some t))"

definition listed_user :: "user_list_filter \<Rightarrow> user \<Rightarrow> bool" where
  "listed_user flt u \<longleftrightarrow>
     us_deleted_at u = None \<and>
     (case uf_status flt of None \<Rightarrow> True | Some s \<Rightarrow> us_status u = s) \<and>
     (case uf_platform_role flt of None \<Rightarrow> True | Some r \<Rightarrow> us_platform_role u = r) \<and>
     (case trimmed_text (uf_query flt) of
        None \<Rightarrow> True
      | Some t \<Rightarrow>
          sql_like (search_pattern t) (us_email u) \<or>
          (case us_display_name u of None \<Rightarrow> False | Some n \<Rightarrow> sql_like (search_pattern t) n))"

definition list_users :: "world \<Rightarrow> user_list_filter \<Rightarrow> user list" where
  "list_users w flt =
     take (max 1 (min 500 (uf_limit flt)))
       (sort_key (\<lambda>u. - us_created_at u) (filter (listed_user flt) (users w)))"

section \<open>Administration of users\<close>

definition ensure_admin_remains :: "string \<Rightarrow> user \<Rightarrow> bool \<Rightarrow> (app_error, unit) dbm" where
  "ensure_admin_remains op target loses =
     (if us_platform_role target = PlatformAdministrator \<and> us_status target = UserActive \<and> loses
      then bindM (getM count_active_admins) (\<lambda>admins.
        if admins \<le> 1
        then failM (Validation op ''the platform must keep at least one active administrator'')
        else retM ())
      else retM ())"

definition changed_fields :: "update_user_params \<Rightarrow> json" where
  "changed_fields changes =
     JArr ((if uu_display_name changes \<noteq> None then [JStr ''display_name''] else []) @
           (if uu_status changes \<noteq> None then [JStr ''status''] else []) @
           (if uu_platform_role changes \<noteq> None then [JStr ''platform_role''] else []))"

definition loses_admin :: "user \<Rightarrow> update_user_params \<Rightarrow> bool" where
  "loses_admin target changes \<longleftrightarrow>
     us_platform_role target = PlatformAdministrator \<and> uu_platform_role changes = Some PlatformUser \<or>
     uu_status changes = Some UserDisabled"

definition checked_target :: "uuid \<Rightarrow> uuid \<Rightarrow> update_user_params \<Rightarrow> (app_error, user) dbm" where
  "checked_target actor uid changes =
     (let op = ''admin.users.update''
      in bindM (getM (\<lambda>w. get_user_by_id w uid)) (\<lambda>found.
         bindM (okOr (NotFound op ''user not found'') found) (\<lambda>target.
         if us_id target = actor \<and> loses_admin target changes
         then failM (Validation op ''you cannot disable or demote your own account'')
         else bindM (ensure_admin_remains op target (loses_admin target changes)) (\<lambda>_. retM target))))"

definition admin_update_user :: "uuid \<Rightarrow> uuid \<Rightarrow> update_user_params \<Rightarrow> (app_error, user) dbm" where
  "admin_update_user actor uid changes =
     (let op = ''admin.users.update''
      in transaction (
        bindM (checked_target actor uid changes) (\<lambda>target.
        bindM (mapErr (Infrastructure op) (update_user target changes)) (\<lambda>updated.
        bindM (mapErr (\<lambda>e. Infrastructure op (AnyDb e)) (create_platform_audit_event
          \<lparr>ap_actor_user_id = Some actor, ap_actor_node_id = None, ap_team_id = None,
           ap_action = ''user.updated'', ap_target_type = ''user'', ap_target_id = Some (us_id updated),
           ap_result = AuditSuccess, ap_reason = None,
           ap_metadata = JObj [(''changed'', changed_fields changes)]\<rparr>)) (\<lambda>_.
        retM updated)))))"

section \<open>A search finds the text as it is typed\<close>

lemma escape_like_Cons:
  "escape_like (c # t) =
     (if c = CHR ''%'' \<or> c = CHR ''_'' \<or> c = CHR 0x5C then [CHR 0x5C, c] else [c]) @ escape_like t"
  by (simp add: escape_like_def replace_char_def)

lemma like_any: "sql_like [CHR ''%''] s"
  by (induction s) auto

lemma like_prefix: "sql_like (escape_like t @ [CHR ''%'']) s \<longleftrightarrow> prefix t s"
proof (induction t arbitrary: s)
  case Nil
  show ?case using like_any by (simp add: escape_like_def replace_char_def)
next
  case (Cons c t)
  then show ?case
    by (cases s) (auto simp: escape_like_Cons)
qed

lemma like_anywhere: "sql_like (CHR ''%'' # p) s \<longleftrightarrow> (\<exists>a b. s = a @ b \<and> sql_like p b)"
proof (induction s)
  case Nil
  show ?case by simp
next
  case (Cons c s)
  have "sql_like (CHR ''%'' # p) (c # s) \<longleftrightarrow> sql_like p (c # s) \<or> sql_like (CHR ''%'' # p) s"
    by simp
  also have "\<dots> \<longleftrightarrow> sql_like p (c # s) \<or> (\<exists>a b. s = a @ b \<and> sql_like p b)"
    by (simp only: Cons.IH)
  also have "\<dots> \<longleftrightarrow> (\<exists>a b. c # s = a @ b \<and> sql_like p b)"
    by (auto simp: Cons_eq_append_conv) 
  finally show ?case .
qed

text \<open>The escaped pattern matches exactly the texts that hold the term: no wildcard of it counts.\<close>

lemma search_is_literal: "sql_like (search_pattern t) s \<longleftrightarrow> sublist t s"
  unfolding search_pattern_def like_anywhere like_prefix sublist_def prefix_def by auto

text \<open>The search distinguishes case, against the comment of \<open>list_users\<close>.\<close>

lemma search_is_case_sensitive:
  "\<not> sql_like (search_pattern ''ada'') ''Ada Lovelace'' \<and> sql_like (search_pattern ''Ada'') ''Ada Lovelace''"
  unfolding search_is_literal by (simp add: sublist_Cons_right)

section \<open>The last administrator\<close>

lemma get_user_by_id_Some:
  "get_user_by_id w uid = Some u \<Longrightarrow> u \<in> set (users w) \<and> us_id u = uid \<and> us_deleted_at u = None"
  unfolding get_user_by_id_def by (rule find_Some_iff_mem)

lemma count_update_other:
  assumes "\<And>u. u \<in> set rows \<Longrightarrow> p u \<Longrightarrow> \<not> active_admin u \<or> active_admin (f u)"
  shows "length (filter active_admin rows) \<le> length (filter active_admin (update_where p f rows))"
  using assms by (induction rows) (auto simp: update_where_def)

lemma count_update_one:
  assumes "distinct (map us_id rows)"
  shows "length (filter active_admin rows) \<le>
    Suc (length (filter active_admin (update_where (\<lambda>u. us_id u = k) f rows)))"
  using assms
proof (induction rows)
  case (Cons u rows)
  show ?case
  proof (cases "us_id u = k")
    case True
    with Cons.prems have "update_where (\<lambda>u. us_id u = k) f rows = rows"
      by (auto simp: update_where_def image_iff intro!: map_idI)
    then show ?thesis by (simp add: update_where_def)
  next
    case False
    with Cons show ?thesis by (simp add: update_where_def)
  qed
qed (simp add: update_where_def)

lemma revoke_users_where_Inr:
  "revoke_users_where p f w = (Inr n, v) \<Longrightarrow>
   n = length (filter p (users w)) \<and> v = put_users (update_where p
     (\<lambda>u. (f u)\<lparr>us_auth_version := us_auth_version u + 1, us_updated_at := sql_now w\<rparr>) (users w)) w"
  by (auto simp: revoke_users_where_def usr.update_many_Inr split: if_splits)

lemma active_admin_touched [simp]:
  "active_admin (u\<lparr>us_auth_version := a\<rparr>) = active_admin u"
  "active_admin (u\<lparr>us_updated_at := t\<rparr>) = active_admin u"
  by (simp_all add: active_admin_def)

lemma update_user_effect:
  assumes "update_user u p w = (Inr q, v)"
  shows "\<exists>f. users v = update_where (\<lambda>x. us_id x = us_id u) f (users w) \<and>
    (\<forall>x. active_admin (f x) = active_admin (apply_user_changes p x))"
proof (cases "uu_status p = Some UserDisabled")
  case True
  then show ?thesis
    using assms unfolding update_user_def
    by (auto simp: oper_Inr dest!: revoke_users_where_Inr intro!: exI[of _ "\<lambda>x. (apply_user_changes p x)
          \<lparr>us_auth_version := us_auth_version x + 1, us_updated_at := sql_now w\<rparr>"])
next
  case False
  show ?thesis
  proof (cases "uu_display_name p = None \<and> uu_status p = None \<and> uu_platform_role p = None")
    case True
    then have "v = w" and "\<And>x. apply_user_changes p x = x"
      using assms False by (auto simp: update_user_def oper_Inr apply_user_changes_def)
    then show ?thesis by (auto simp: update_where_def intro!: exI[of _ "\<lambda>x. x"])
  next
    case changes: False
    then show ?thesis
      using assms False unfolding update_user_def update_user_row_def
      by (auto simp: oper_Inr usr.update_Inr intro!: exI[of _ "\<lambda>x. (apply_user_changes p x)
            \<lparr>us_updated_at := sql_now w\<rparr>"])
  qed
qed

lemma transaction_users: "users (begin_tx w) = users w" "users (commit_audits w v) = users v"
  by (simp_all add: begin_tx_def commit_audits_def)

lemma audit_keeps_users:
  "create_platform_audit_event p w = (Inr x, v) \<Longrightarrow> users v = users w"
  using create_domain_audit_event_ok[of p "Some VisPlatform" "JObj []" w]
  by (auto simp: create_platform_audit_event_def)

lemma checked_target_Inr:
  assumes "checked_target actor uid changes w = (Inr target, v)"
  shows "v = w \<and> get_user_by_id w uid = Some target \<and>
    (loses_admin target changes \<and> active_admin target \<longrightarrow> 1 < count_active_admins w)"
proof -
  have found: "get_user_by_id w uid = Some target"
    and "ensure_admin_remains ''admin.users.update'' target (loses_admin target changes) w = (Inr (), v)"
    using assms unfolding checked_target_def Let_def
    by (auto simp: bindM_Inr getM_Inr retM_Inr okOr_Inr failM_Inr split: if_splits)
  then show ?thesis
    by (auto simp: ensure_admin_remains_def oper_Inr active_admin_def split: if_splits)
qed

text \<open>
  An administrator can never be talked out of the last one: whatever an update of a user changes, and
  whoever asks for it, if it succeeds on a platform with an active administrator, the platform has one
  afterwards.
\<close>

theorem admin_update_keeps_an_admin:
  assumes "users_con (users w) = None" and "0 < count_active_admins w"
    and "admin_update_user actor uid changes w = (Inr u, v)"
  shows "0 < count_active_admins v"
proof -
  have ids: "distinct (map us_id (users w))" using assms(1) by (simp add: users_con_None)
  have counts: "count_active_admins (begin_tx w) = count_active_admins w"
    by (simp add: count_active_admins_def transaction_users)
  obtain target w1 w2 s where checked: "checked_target actor uid changes (begin_tx w) = (Inr target, w1)"
    and upd: "update_user target changes w1 = (Inr u, w2)" and s: "users s = users w2"
    and v: "v = commit_audits w s"
    using assms(3) unfolding admin_update_user_def Let_def transaction_Inr
    by (auto simp: bindM_Inr retM_Inr mapErr_Inr dest: audit_keeps_users)
  have same: "w1 = begin_tx w" and target: "get_user_by_id (begin_tx w) uid = Some target"
    and many: "loses_admin target changes \<Longrightarrow> active_admin target \<Longrightarrow> 1 < count_active_admins w"
    using checked_target_Inr[OF checked] counts by auto
  have t: "target \<in> set (users w)"
    using get_user_by_id_Some[OF target] by (simp add: transaction_users)
  obtain f where rows: "users w2 = update_where (\<lambda>x. us_id x = us_id target) f (users w)"
    and f: "\<And>x. active_admin (f x) = active_admin (apply_user_changes changes x)"
    using update_user_effect[OF upd] same by (auto simp: transaction_users)
  have after: "count_active_admins v = length (filter active_admin (update_where (\<lambda>x. us_id x = us_id target) f (users w)))"
    by (simp add: v count_active_admins_def transaction_users s rows)
  show ?thesis
  proof (cases "loses_admin target changes \<and> active_admin target")
    case True
    then have "1 < count_active_admins w" using many by simp
    moreover have "count_active_admins w \<le> Suc (count_active_admins v)"
      unfolding after unfolding count_active_admins_def by (rule count_update_one[OF ids])
    ultimately show ?thesis by linarith
  next
    case False
    have "\<not> active_admin x \<or> active_admin (f x)" if "x \<in> set (users w)" "us_id x = us_id target" for x
    proof -
      have "x = target" using ids t that by (auto simp: distinct_map inj_on_def)
      with False show ?thesis
        unfolding f by (auto simp: active_admin_def apply_user_changes_def loses_admin_def split: option.splits)
          (metis platform_role.exhaust user_status.exhaust)+
    qed
    then have "count_active_admins w \<le> count_active_admins v"
      unfolding after unfolding count_active_admins_def by (intro count_update_other) auto
    with assms(2) show ?thesis by simp
  qed
qed

definition sample_user :: "uuid \<Rightarrow> string \<Rightarrow> platform_role \<Rightarrow> user" where
  "sample_user i email role =
     \<lparr>us_id = i, us_email = email, us_display_name = None, us_avatar_version = None, us_status = UserActive,
      us_auth_version = 1, us_platform_role = role, us_email_verified_at = Some 0, us_last_login_at = None,
      us_deleted_at = None, us_created_at = 0, us_updated_at = 0\<rparr>"

definition user_world :: "user list \<Rightarrow> world" where
  "user_world us = (sample_world [] [])\<lparr>users := us\<rparr>"

definition two_admins :: world where
  "two_admins = user_world [sample_user 1 ''a@x.org'' PlatformAdministrator, sample_user 2 ''b@x.org'' PlatformAdministrator]"

definition demotion :: update_user_params where
  "demotion = \<lparr>uu_display_name = None, uu_status = None, uu_platform_role = Some PlatformUser\<rparr>"

lemma sum_run:
  assumes "\<not> isl (fst (m w))"
  shows "\<exists>a v. m w = (Inr a, v) \<and> v = snd (m w)"
  using assms by (cases "m w"; cases "fst (m w)") auto

theorem admin_update_keeps_an_admin_witness:
  "0 < count_active_admins (snd (admin_update_user 1 2 demotion two_admins)) \<and>
   count_active_admins two_admins = 2 \<and> fst (admin_update_user 1 1 demotion
     (snd (admin_update_user 1 2 demotion two_admins))) =
     Inl (Validation ''admin.users.update'' ''you cannot disable or demote your own account'')"
proof (intro conjI)
  have ok: "users_con (users two_admins) = None" and n: "count_active_admins two_admins = 2"
    and run: "\<not> isl (fst (admin_update_user 1 2 demotion two_admins))"
    by code_simp+
  obtain u v where "admin_update_user 1 2 demotion two_admins = (Inr u, v)"
    using sum_run[of "admin_update_user 1 2 demotion", OF run] by blast
  then show "0 < count_active_admins (snd (admin_update_user 1 2 demotion two_admins))"
    using admin_update_keeps_an_admin[OF ok, of 1 2 demotion] n by simp
  show "count_active_admins two_admins = 2" by (rule n)
  show "fst (admin_update_user 1 1 demotion (snd (admin_update_user 1 2 demotion two_admins))) =
     Inl (Validation ''admin.users.update'' ''you cannot disable or demote your own account'')"
    by code_simp
qed

text \<open>
  Two administrators who demote each other at the same time: a transaction of the model is atomic, but at
  the isolation level of the code (READ COMMITTED, the count takes no lock) both may count before either
  writes. They write different rows, so neither waits, and nobody is left.
\<close>

lemma concurrent_demotions_leave_no_admin:
  "\<exists>a b. fst (checked_target 1 2 demotion two_admins) = Inr b \<and>
     fst (checked_target 2 1 demotion two_admins) = Inr a \<and>
     count_active_admins (snd (update_user a demotion (snd (update_user b demotion two_admins)))) = 0"
proof -
  let ?a = "sample_user 1 ''a@x.org'' PlatformAdministrator"
  let ?b = "sample_user 2 ''b@x.org'' PlatformAdministrator"
  have "fst (checked_target 1 2 demotion two_admins) = Inr ?b"
    and "fst (checked_target 2 1 demotion two_admins) = Inr ?a"
    and "count_active_admins (snd (update_user ?a demotion (snd (update_user ?b demotion two_admins)))) = 0"
    by code_simp+
  then show ?thesis by blast
qed

end
