(* ===== verification/OneTime.thy ===== *)
theory OneTime
  imports Prelude
begin

text \<open>
  The contract of a secret that is good for one use: a registration code, a team invitation, a token
  that was mailed to a user. \<open>redeem t u\<close> presents the secret \<open>t\<close> on behalf of \<open>u\<close>; \<open>spent t\<close> says of a
  state that \<open>t\<close> has been used; \<open>step t\<close> is what else may happen to the state, up to issuing \<open>t\<close> anew.
  From the laws of one redemption follows what the program promises of all of them.
\<close>

text \<open>
  Rows that are never deleted and never become unused again: every row of the earlier table is still
  there under its key, and still used if it was.
\<close>

definition aged :: "('r \<Rightarrow> 'k) \<Rightarrow> ('r \<Rightarrow> bool) \<Rightarrow> 'r list \<Rightarrow> 'r list \<Rightarrow> bool" where
  "aged key use rs ss \<longleftrightarrow> (\<forall>r\<in>set rs. \<exists>s\<in>set ss. key s = key r \<and> (use r \<longrightarrow> use s))"

lemma aged_refl [simp]: "aged key use rs rs"
  by (auto simp: aged_def)

lemma aged_trans: "aged key use rs ss \<Longrightarrow> aged key use ss ts \<Longrightarrow> aged key use rs ts"
  unfolding aged_def by metis

lemma aged_append [simp]: "aged key use rs (rs @ ss)"
  by (auto simp: aged_def)

lemma aged_update:
  assumes "\<And>r. key (f r) = key r" and "\<And>r. use r \<Longrightarrow> use (f r)"
  shows "aged key use rs (update_where p f rs)"
  unfolding aged_def set_update_where
proof
  fix r
  assume "r \<in> set rs"
  then show "\<exists>s\<in>(\<lambda>x. if p x then f x else x) ` set rs. key s = key r \<and> (use r \<longrightarrow> use s)"
    by (intro bexI[OF _ imageI]) (auto simp: assms)
qed

lemma aged_used: "aged key use rs ss \<Longrightarrow> r \<in> set rs \<Longrightarrow> use r \<Longrightarrow> \<exists>s\<in>set ss. key s = key r \<and> use s"
  by (auto simp: aged_def)

locale one_time =
  fixes redeem :: "'t \<Rightarrow> 'u \<Rightarrow> ('s, 'e, 'a) oper"
    and spent :: "'t \<Rightarrow> 's \<Rightarrow> bool"
    and ok :: "'s \<Rightarrow> bool"
    and step :: "'t \<Rightarrow> 's \<Rightarrow> 's \<Rightarrow> bool"
  assumes redeem_spends: "ok s \<Longrightarrow> redeem t u s = (Inr a, s') \<Longrightarrow> spent t s' \<and> ok s'"
    and spent_refused: "ok s \<Longrightarrow> spent t s \<Longrightarrow> redeem t u s \<noteq> (Inr a, s')"
    and step_keeps: "ok s \<Longrightarrow> step t s s' \<Longrightarrow> ok s' \<and> (spent t s \<longrightarrow> spent t s')"
begin

lemma stays_spent: "(step t)\<^sup>*\<^sup>* s s' \<Longrightarrow> ok s \<Longrightarrow> spent t s \<Longrightarrow> ok s' \<and> spent t s'"
  by (induction rule: rtranclp_induct) (auto dest: step_keeps)

lemma redeemed_once:
  assumes "ok s" and "redeem t u s = (Inr a, s1)" and "(step t)\<^sup>*\<^sup>* s1 s2"
  shows "\<exists>e. fst (redeem t u' s2) = Inl e"
proof -
  have "ok s2 \<and> spent t s2"
    using stays_spent[OF assms(3)] redeem_spends[OF assms(1,2)] by blast
  then have "redeem t u' s2 \<noteq> (Inr b, z)" for b z by (blast dest: spent_refused)
  then show ?thesis
    by (cases "redeem t u' s2"; cases "fst (redeem t u' s2)") auto
qed

text \<open>Among any requests that present the secret one after the other, at most one succeeds.\<close>

fun successes :: "'t \<Rightarrow> 'u list \<Rightarrow> 's \<Rightarrow> nat" where
  "successes t [] s = 0"
| "successes t (u # us) s =
     (case redeem t u s of (r, s') \<Rightarrow> (if isl r then 0 else 1) + successes t us s')"

lemma at_most_one:
  assumes "ok s" and redeem_steps: "\<And>u s. step t s (snd (redeem t u s))"
  shows "successes t us s \<le> 1 \<and> (spent t s \<longrightarrow> successes t us s = 0)"
  using assms(1)
proof (induction us arbitrary: s)
  case (Cons u us)
  obtain r s' where run: "redeem t u s = (r, s')" by (cases "redeem t u s")
  then have keep: "ok s' \<and> (spent t s \<longrightarrow> spent t s')"
    using step_keeps[OF Cons.prems, of t s'] redeem_steps[of s u] by simp
  show ?case
  proof (cases r)
    case (Inl e)
    with Cons.IH[of s'] keep run show ?thesis by auto
  next
    case (Inr a)
    with run have "spent t s'" and "\<not> spent t s"
      using redeem_spends[OF Cons.prems] spent_refused[OF Cons.prems] by auto
    with Cons.IH[of s'] keep run Inr show ?thesis by auto
  qed
qed simp

end

end
