(* ===== verification/Registration.thy ===== *)
theory Registration
  imports Accounts OneTime
begin

text \<open>
  Redeemable codes (\<open>domain/codes.rs\<close>) and who may register (\<open>domain/registration.rs\<close> with
  \<open>infra/http/registration_errors.rs\<close>): a code is a secret of 40 characters of which the table keeps the
  hash; it is available, used, expired or revoked, and is redeemed once.
\<close>

section \<open>Codes\<close>

definition CODE_LENGTH :: nat where
  "CODE_LENGTH = 40"

datatype code_scope = ScopeRegistration

definition parse_code_scope :: "string \<Rightarrow> code_scope option" where
  "parse_code_scope v = (if v = ''registration'' then Some ScopeRegistration else None)"

definition code_scope_str :: "code_scope \<Rightarrow> string" where
  "code_scope_str s = (case s of ScopeRegistration \<Rightarrow> ''registration'')"

datatype code_status = CodeAvailable | CodeUsed | CodeExpired | CodeRevoked

definition parse_code_status :: "string \<Rightarrow> code_status option" where
  "parse_code_status v =
     (if v = ''available'' then Some CodeAvailable else if v = ''used'' then Some CodeUsed
      else if v = ''expired'' then Some CodeExpired else if v = ''revoked'' then Some CodeRevoked else None)"

definition code_status_str :: "code_status \<Rightarrow> string" where
  "code_status_str s =
     (case s of CodeAvailable \<Rightarrow> ''available'' | CodeUsed \<Rightarrow> ''used'' | CodeExpired \<Rightarrow> ''expired''
      | CodeRevoked \<Rightarrow> ''revoked'')"

definition lifecycle_status :: "time option \<Rightarrow> time option \<Rightarrow> time option \<Rightarrow> time \<Rightarrow> code_status" where
  "lifecycle_status used_at revoked_at expires_at now =
     (if used_at \<noteq> None then CodeUsed
      else if revoked_at \<noteq> None then CodeRevoked
      else if (case expires_at of Some t \<Rightarrow> t \<le> now | None \<Rightarrow> False) then CodeExpired
      else CodeAvailable)"

definition code_value :: "crypto_lib \<Rightarrow> nat list \<Rightarrow> string" where
  "code_value lib random = take CODE_LENGTH (generate_token lib random)"

definition code_prefix :: "string \<Rightarrow> string" where
  "code_prefix v = take 6 v"

definition code_suffix :: "string \<Rightarrow> string" where
  "code_suffix v = drop (length v - 4) v"

definition prepare_code ::
  "crypto_lib \<Rightarrow> nat list \<Rightarrow> code_scope \<Rightarrow> time option \<Rightarrow> uuid option \<Rightarrow> ('e, string \<times> code_row) dbm" where
  "prepare_code lib random scope expires created_by =
     (let v = code_value lib random
      in bindM now_v7 (\<lambda>i. bindM now_utc (\<lambda>now.
         retM (v, \<lparr>co_id = i, co_scope = code_scope_str scope, co_token_hash = hash_token lib v,
                   co_token_prefix = code_prefix v, co_token_suffix = code_suffix v,
                   co_expires_at = expires, co_used_at = None, co_used_by_user_id = None,
                   co_revoked_at = None, co_created_by_user_id = created_by, co_created_at = now\<rparr>))))"

datatype code_use_error =
    CodeNotFound | CodeWrongScope | CodeAlreadyUsed | CodeHasExpired | CodeWasRevoked | CodeDatabase anyhow

definition validate_redemption :: "code_row \<Rightarrow> code_scope \<Rightarrow> time \<Rightarrow> code_use_error + unit" where
  "validate_redemption c scope now =
     (if co_scope c \<noteq> code_scope_str scope then Inl CodeWrongScope
      else
        (case lifecycle_status (co_used_at c) (co_revoked_at c) (co_expires_at c) now of
           CodeAvailable \<Rightarrow> Inr ()
         | CodeUsed \<Rightarrow> Inl CodeAlreadyUsed
         | CodeExpired \<Rightarrow> Inl CodeHasExpired
         | CodeRevoked \<Rightarrow> Inl CodeWasRevoked))"

definition code_matches :: "code_scope option \<Rightarrow> code_status option \<Rightarrow> time \<Rightarrow> code_row \<Rightarrow> bool" where
  "code_matches scope status now c \<longleftrightarrow>
     (case scope of None \<Rightarrow> True | Some s \<Rightarrow> co_scope c = code_scope_str s) \<and>
     (case status of
        None \<Rightarrow> True
      | Some CodeAvailable \<Rightarrow> co_used_at c = None \<and> co_revoked_at c = None \<and>
          (case co_expires_at c of None \<Rightarrow> True | Some t \<Rightarrow> now < t)
      | Some CodeUsed \<Rightarrow> co_used_at c \<noteq> None
      | Some CodeExpired \<Rightarrow> co_used_at c = None \<and> co_revoked_at c = None \<and>
          (case co_expires_at c of None \<Rightarrow> False | Some t \<Rightarrow> t \<le> now)
      | Some CodeRevoked \<Rightarrow> co_revoked_at c \<noteq> None)"

definition query_codes :: "world \<Rightarrow> code_scope option \<Rightarrow> code_status option \<Rightarrow> time \<Rightarrow> code_row list" where
  "query_codes w scope status now =
     rev (sort_key (\<lambda>c. co_created_at c) (sort_key co_id (filter (code_matches scope status now) (codes w))))"

text \<open>\<open>generate_codes\<close> prepares every code and inserts them in one statement.\<close>

fun prepare_codes ::
  "crypto_lib \<Rightarrow> nat list list \<Rightarrow> code_scope \<Rightarrow> time option \<Rightarrow> uuid option \<Rightarrow>
   ('e, (string \<times> code_row) list) dbm" where
  "prepare_codes lib [] scope expires created_by = retM []"
| "prepare_codes lib (r # rs) scope expires created_by =
     bindM (prepare_code lib r scope expires created_by) (\<lambda>g.
     bindM (prepare_codes lib rs scope expires created_by) (\<lambda>gs. retM (g # gs)))"

definition insert_codes :: "code_row list \<Rightarrow> (dberr, unit) dbm" where
  "insert_codes rows w =
     (case codes_con (codes w @ rows) of
        Some e \<Rightarrow> (Inl e, w) | None \<Rightarrow> (Inr (), put_codes (codes w @ rows) w))"

definition generate_codes ::
  "crypto_lib \<Rightarrow> nat list list \<Rightarrow> code_scope \<Rightarrow> time option \<Rightarrow> uuid option \<Rightarrow>
   (anyhow, (string \<times> code_row) list) dbm" where
  "generate_codes lib randoms scope expires created_by =
     bindM (prepare_codes lib randoms scope expires created_by) (\<lambda>generated.
     bindM (mapErr AnyDb (insert_codes (map snd generated))) (\<lambda>_.
     retM generated))"

definition lock_code_for_redemption ::
  "crypto_lib \<Rightarrow> string \<Rightarrow> code_scope \<Rightarrow> (code_use_error, code_row) dbm" where
  "lock_code_for_redemption lib v scope =
     bindM (getM (\<lambda>w. find (\<lambda>c. co_token_hash c = hash_token lib (trim_by char_ws v)) (codes w))) (\<lambda>found.
     bindM (okOr CodeNotFound found) (\<lambda>c.
     bindM now_utc (\<lambda>now.
     bindM (liftR (validate_redemption c scope now)) (\<lambda>_.
     retM c))))"

definition consume_locked_code :: "code_row \<Rightarrow> uuid \<Rightarrow> (code_use_error, code_row) dbm" where
  "consume_locked_code c uid =
     bindM now_utc (\<lambda>now.
     mapErr (\<lambda>e. CodeDatabase (AnyDb e)) (update_code (co_id c)
       (\<lambda>c. c\<lparr>co_used_at := Some now, co_used_by_user_id := Some uid\<rparr>)))"

definition revoke_code :: "uuid \<Rightarrow> (code_use_error, code_row) dbm" where
  "revoke_code i =
     bindM (getM (\<lambda>w. find_row co_id i (codes w))) (\<lambda>found.
     bindM (okOr CodeNotFound found) (\<lambda>c.
     bindM (okOr CodeWrongScope (parse_code_scope (co_scope c))) (\<lambda>scope.
     bindM now_utc (\<lambda>now.
     bindM (liftR (validate_redemption c scope now)) (\<lambda>_.
     bindM now_utc (\<lambda>later.
     mapErr (\<lambda>e. CodeDatabase (AnyDb e)) (update_code (co_id c)
       (\<lambda>c. c\<lparr>co_revoked_at := Some later\<rparr>))))))))"

section \<open>Who may register\<close>

datatype signup_policy = SignupOpen | SignupInviteOnly | SignupClosed

datatype registration_grant = GrantOpen | GrantCode code_row | GrantEmail allowlist_entry

datatype registration_access_error =
    RegInvalidPolicy | RegClosed | RegCredentialRequired | RegCode code_use_error | RegDatabase anyhow

definition parse_signup_policy :: "string option \<Rightarrow> registration_access_error + signup_policy" where
  "parse_signup_policy v =
     (let s = (case v of Some s \<Rightarrow> s | None \<Rightarrow> ''open'')
      in if s = ''open'' then Inr SignupOpen
         else if s = ''invite_only'' then Inr SignupInviteOnly
         else if s = ''closed'' then Inr SignupClosed
         else Inl RegInvalidPolicy)"

definition authorize_registration ::
  "crypto_lib \<Rightarrow> signup_policy \<Rightarrow> string \<Rightarrow> string option \<Rightarrow> (registration_access_error, registration_grant) dbm" where
  "authorize_registration lib policy email registration_code =
     (case policy of
        SignupOpen \<Rightarrow> retM GrantOpen
      | SignupClosed \<Rightarrow> failM RegClosed
      | SignupInviteOnly \<Rightarrow>
          (case trimmed_text registration_code of
             Some v \<Rightarrow>
               bindM (mapErr RegCode (lock_code_for_redemption lib v ScopeRegistration)) (\<lambda>c. retM (GrantCode c))
           | None \<Rightarrow>
               bindM (getM (\<lambda>w. find (\<lambda>a. al_email a = email) (email_allowlist w))) (\<lambda>found.
               bindM (okOr RegCredentialRequired found) (\<lambda>a. retM (GrantEmail a)))))"

definition delete_allowlist_entry :: "uuid \<Rightarrow> ('e, nat) dbm" where
  "delete_allowlist_entry i w =
     (Inr (length (filter (\<lambda>a. al_id a = i) (email_allowlist w))),
      w\<lparr>email_allowlist := filter (\<lambda>a. al_id a \<noteq> i) (email_allowlist w)\<rparr>)"

definition consume_registration_grant ::
  "registration_grant \<Rightarrow> uuid \<Rightarrow> (registration_access_error, unit) dbm" where
  "consume_registration_grant grant uid =
     (case grant of
        GrantOpen \<Rightarrow> retM ()
      | GrantCode c \<Rightarrow> bindM (mapErr RegCode (consume_locked_code c uid)) (\<lambda>_. retM ())
      | GrantEmail a \<Rightarrow> bindM (delete_allowlist_entry (al_id a)) (\<lambda>_. retM ()))"

text \<open>\<open>personal_team_slug\<close>: an address is ASCII, so \<open>to_lowercase\<close> is the ASCII one.\<close>

definition personal_team_slug :: "string \<Rightarrow> string" where
  "personal_team_slug email =
     (let slug = take 40 (filter (\<lambda>c. is_ascii_alnum (of_char c)) (map lower_char (hd (split_on (CHR 0x40) email))))
      in if slug = [] then ''user'' else slug)"

fun code_use_text :: "code_use_error \<Rightarrow> string" where
  "code_use_text CodeNotFound = ''code was not found''"
| "code_use_text CodeWrongScope = ''code belongs to a different scope''"
| "code_use_text CodeAlreadyUsed = ''code has already been used''"
| "code_use_text CodeHasExpired = ''code has expired''"
| "code_use_text CodeWasRevoked = ''code has been revoked''"
| "code_use_text (CodeDatabase _) = ''database error''"

fun map_registration_access_error :: "string \<Rightarrow> registration_access_error \<Rightarrow> app_error" where
  "map_registration_access_error op RegInvalidPolicy = Internal op ''signup policy setting is invalid''"
| "map_registration_access_error op RegClosed = Forbidden op ''user registration is closed''"
| "map_registration_access_error op RegCredentialRequired =
     Forbidden op ''a registration code or allowed email is required''"
| "map_registration_access_error op (RegCode CodeNotFound) = Forbidden op ''registration code is invalid''"
| "map_registration_access_error op (RegCode CodeWrongScope) = Forbidden op ''registration code is invalid''"
| "map_registration_access_error op (RegCode CodeAlreadyUsed) = Conflict op (code_use_text CodeAlreadyUsed)"
| "map_registration_access_error op (RegCode CodeHasExpired) = Gone op (code_use_text CodeHasExpired)"
| "map_registration_access_error op (RegCode CodeWasRevoked) = Forbidden op (code_use_text CodeWasRevoked)"
| "map_registration_access_error op (RegCode (CodeDatabase e)) = Infrastructure op e"
| "map_registration_access_error op (RegDatabase e) = Infrastructure op e"

section \<open>Each listing is the codes of one status\<close>

text \<open>
  The filters of the listing against the status of a code: used, available and expired are exactly the
  codes with that status; the revoked listing also holds codes that were used before.
\<close>

lemma listed_status:
  "code_matches None (Some s) now c \<longleftrightarrow>
   lifecycle_status (co_used_at c) (co_revoked_at c) (co_expires_at c) now = s \<or>
   (s = CodeRevoked \<and> co_revoked_at c \<noteq> None)"
  by (cases s) (auto simp: code_matches_def lifecycle_status_def split: option.splits)

lemma code_status_roundtrip:
  "parse_code_status (code_status_str s) = Some s"
  "parse_code_scope (code_scope_str k) = Some k"
  by (cases s; cases k; simp add: parse_code_status_def code_status_str_def parse_code_scope_def
      code_scope_str_def)+

section \<open>A code admits one registration\<close>

definition redeem_code :: "crypto_lib \<Rightarrow> string \<Rightarrow> uuid \<Rightarrow> (code_use_error, code_row) dbm" where
  "redeem_code lib v uid =
     bindM (lock_code_for_redemption lib v ScopeRegistration) (\<lambda>c. consume_locked_code c uid)"

definition code_spent :: "crypto_lib \<Rightarrow> string \<Rightarrow> world \<Rightarrow> bool" where
  "code_spent lib v w \<longleftrightarrow>
     (\<exists>c\<in>set (codes w). co_token_hash c = hash_token lib (trim_by char_ws v) \<and> co_used_at c \<noteq> None)"

definition codes_ok :: "world \<Rightarrow> bool" where
  "codes_ok w \<longleftrightarrow> codes_con (codes w) = None"

inductive code_step :: "crypto_lib \<Rightarrow> world \<Rightarrow> world \<Rightarrow> bool" for lib where
  generated: "generate_codes lib randoms scope expires by_user w = (r, v) \<Longrightarrow> code_step lib w v"
| redeemed: "redeem_code lib text uid w = (r, v) \<Longrightarrow> code_step lib w v"
| revoked: "revoke_code i w = (r, v) \<Longrightarrow> code_step lib w v"
| elsewhere: "codes v = codes w \<Longrightarrow> code_step lib w v"

text \<open>\<open>ages w v\<close>: the constraints hold on, every code is still there, and a used one is still used.\<close>

definition ages :: "world \<Rightarrow> world \<Rightarrow> bool" where
  "ages w v \<longleftrightarrow>
     (codes_con (codes w) = None \<longrightarrow> codes_con (codes v) = None) \<and>
     aged co_token_hash (\<lambda>c. co_used_at c \<noteq> None) (codes w) (codes v)"

lemma ages_same: "codes v = codes w \<Longrightarrow> ages w v"
  by (simp add: ages_def)

lemma ages_join: "ages w v \<Longrightarrow> ages v x \<Longrightarrow> ages w x"
  unfolding ages_def by (blast intro: aged_trans)

interpretation ag: run_relation ages
  by unfold_locales (auto simp: ages_same intro: ages_join)

lemma reads_age [intro]: "runs ages now_utc" "runs ages now_v7"
  by (auto simp: runs_def now_utc_def now_v7_def intro: ages_same)

lemma prepare_codes_age [intro]: "runs ages (prepare_codes lib rs scope e by_user)"
  by (induction rs) (auto simp: prepare_code_def Let_def intro!: ag.rules reads_age)

lemma insert_codes_age [intro]: "runs ages (insert_codes rows)"
  by (auto simp: runs_def insert_codes_def ages_def split: option.splits)

lemma update_code_age [intro]:
  assumes "\<And>c. co_token_hash (f c) = co_token_hash c" and "\<And>c. co_used_at c \<noteq> None \<Longrightarrow> co_used_at (f c) \<noteq> None"
  shows "runs ages (update_code i f)"
proof (rule runsI)
  fix w r v
  assume "update_code i f w = (r, v)"
  then have "v = w \<or> codes v = update_where (\<lambda>x. co_id x = i) f (codes w) \<and> codes_con (codes v) = None"
    by (auto simp: update_code_def exec_update_def Let_def split: option.splits)
  then show "ages w v"
    using aged_update[of co_token_hash f "\<lambda>c. co_used_at c \<noteq> None"] assms by (auto simp: ages_same ages_def)
qed

lemma code_ops_age:
  "runs ages (generate_codes lib rs scope e by_user)"
  "runs ages (redeem_code lib v uid)"
  "runs ages (revoke_code i)"
  unfolding generate_codes_def redeem_code_def revoke_code_def lock_code_for_redemption_def consume_locked_code_def
  by (intro ag.rules prepare_codes_age insert_codes_age update_code_age reads_age; simp)+

lemma code_step_ages: "code_step lib w v \<Longrightarrow> ages w v"
  by (induction rule: code_step.induct) (auto intro: runsD[OF code_ops_age(1)] runsD[OF code_ops_age(2)]
      runsD[OF code_ops_age(3)] ages_same)

lemma lock_code_Inr:
  "lock_code_for_redemption lib v scope w = (Inr c, u) \<longleftrightarrow>
   find_row co_token_hash (hash_token lib (trim_by char_ws v)) (codes w) = Some c \<and>
   validate_redemption c scope (clock w (clock_pos w)) = Inr () \<and> u = w\<lparr>clock_pos := Suc (clock_pos w)\<rparr>"
  by (auto simp: lock_code_for_redemption_def oper_Inr now_utc_def find_row_def)

lemma redeem_code_Inr:
  assumes ok: "codes_con (codes w) = None" and run: "redeem_code lib v uid w = (Inr c, u)"
  shows "\<exists>d. find_row co_token_hash (hash_token lib (trim_by char_ws v)) (codes w) = Some d \<and>
    validate_redemption d ScopeRegistration (clock w (clock_pos w)) = Inr () \<and>
    c = d\<lparr>co_used_at := Some (clock w (Suc (clock_pos w))), co_used_by_user_id := Some uid\<rparr> \<and>
    c \<in> set (codes u) \<and> codes_con (codes u) = None"
proof -
  let ?f = "\<lambda>d. d\<lparr>co_used_at := Some (clock w (Suc (clock_pos w))), co_used_by_user_id := Some uid\<rparr>"
  obtain d where d: "find_row co_token_hash (hash_token lib (trim_by char_ws v)) (codes w) = Some d"
    "validate_redemption d ScopeRegistration (clock w (clock_pos w)) = Inr ()"
    and "consume_locked_code d uid (w\<lparr>clock_pos := Suc (clock_pos w)\<rparr>) = (Inr c, u)"
    using run by (auto simp: redeem_code_def bindM_Inr lock_code_Inr)
  then obtain e where e: "find_row co_id (co_id d) (codes w) = Some e" and c: "c = ?f e"
    and u: "codes u = update_where (\<lambda>x. co_id x = co_id d) ?f (codes w)" "codes_con (codes u) = None"
    unfolding consume_locked_code_def bindM_Inr mapErr_Inr now_utc_def update_code_def cod.update_Inr by auto
  have mem: "d \<in> set (codes w)" using find_row_mem[OF d(1)] by simp
  have same: "e = d" using cod.row_found[OF ok mem] e by simp
  have "?f d \<in> set (codes u)" using mem by (auto simp: u(1) set_update_where)
  with d c u(2) same show ?thesis by blast
qed

lemma code_spent_refused:
  assumes "codes_con (codes w) = None" and "code_spent lib v w"
  shows "redeem_code lib v uid w \<noteq> (Inr c, u)"
proof
  assume run: "redeem_code lib v uid w = (Inr c, u)"
  obtain d where d: "find_row co_token_hash (hash_token lib (trim_by char_ws v)) (codes w) = Some d"
    "validate_redemption d ScopeRegistration (clock w (clock_pos w)) = Inr ()"
    using redeem_code_Inr[OF assms(1) run] by blast
  obtain x where x: "x \<in> set (codes w)" "co_token_hash x = hash_token lib (trim_by char_ws v)" "co_used_at x \<noteq> None"
    using assms(2) by (auto simp: code_spent_def)
  have "distinct (map co_token_hash (codes w))" using assms(1) by (simp add: codes_con_None)
  from find_row_distinct[OF this x(1)] d(1) x(2) have "d = x" by simp
  with d(2) x(3) show False by (auto simp: validate_redemption_def lifecycle_status_def split: if_splits)
qed

lemma code_redeemed_spends:
  assumes "codes_con (codes w) = None" and "redeem_code lib v uid w = (Inr c, u)"
  shows "code_spent lib v u \<and> codes_con (codes u) = None"
proof -
  obtain d where "find_row co_token_hash (hash_token lib (trim_by char_ws v)) (codes w) = Some d"
    "c = d\<lparr>co_used_at := Some (clock w (Suc (clock_pos w))), co_used_by_user_id := Some uid\<rparr>"
    "c \<in> set (codes u)" "codes_con (codes u) = None"
    using redeem_code_Inr[OF assms] by blast
  then show ?thesis by (auto simp: code_spent_def dest!: find_row_mem intro!: bexI[of _ c])
qed

interpretation ot: one_time "redeem_code lib" "code_spent lib" codes_ok "\<lambda>_. code_step lib"
proof unfold_locales
  show "code_spent lib t s' \<and> codes_ok s'" if "codes_ok s" "redeem_code lib t u s = (Inr a, s')" for s t u a s'
    using code_redeemed_spends[OF _ that(2)] that(1) by (simp add: codes_ok_def)
  show "redeem_code lib t u s \<noteq> (Inr a, s')" if "codes_ok s" "code_spent lib t s" for s t u a s'
    using code_spent_refused that by (simp add: codes_ok_def)
  show "codes_ok s' \<and> (code_spent lib t s \<longrightarrow> code_spent lib t s')" if "codes_ok s" "code_step lib s s'" for s t s'
  proof -
    have "ages s s'" by (rule code_step_ages[OF that(2)])
    then show ?thesis using that(1) unfolding ages_def codes_ok_def code_spent_def aged_def by metis
  qed
qed

text \<open>
  A registration code admits one registration. Once it has been redeemed, no request redeems it again,
  whatever happens to the codes in between: redemptions, revocations, new codes.
\<close>

theorem code_admits_one_registration:
  assumes "codes_con (codes w) = None" and "redeem_code lib v uid w = (Inr c, w1)"
    and "(code_step lib)\<^sup>*\<^sup>* w1 w2"
  shows "co_used_by_user_id c = Some uid \<and> (\<exists>e. fst (redeem_code lib v uid' w2) = Inl e)"
proof -
  have "co_used_by_user_id c = Some uid" using redeem_code_Inr[OF assms(1,2)] by auto
  moreover have "\<exists>e. fst (redeem_code lib v uid' w2) = Inl e"
    by (rule ot.redeemed_once[OF _ assms(2,3)]) (simp add: codes_ok_def assms(1))
  ultimately show ?thesis ..
qed

text \<open>A library in which texts are their own hashes, for the examples.\<close>

definition plain_crypto :: crypto_lib where
  "plain_crypto =
     \<lparr>b64_encode = map char_of, b64_decode = (\<lambda>s. Some (map of_char s)), aead_seal = (\<lambda>_ _ _ p. Some p),
      aead_open = (\<lambda>_ _ _ c. Some c), sha256_hex = (\<lambda>s. s), payload_to_vec = (\<lambda>_. None),
      payload_from_slice = (\<lambda>_. None)\<rparr>"

definition sample_code :: code_row where
  "sample_code =
     \<lparr>co_id = 7, co_scope = ''registration'', co_token_hash = ''open-sesame'', co_token_prefix = ''open-s'',
      co_token_suffix = ''same'', co_expires_at = None, co_used_at = None, co_used_by_user_id = None,
      co_revoked_at = None, co_created_by_user_id = None, co_created_at = 0\<rparr>"

definition code_world :: world where
  "code_world = (sample_world [] [])\<lparr>codes := [sample_code]\<rparr>"

theorem code_admits_one_registration_witness:
  "\<exists>c w1 w2. redeem_code plain_crypto ''open-sesame'' 1 code_world = (Inr c, w1) \<and>
     revoke_code 7 w1 = (Inl CodeAlreadyUsed, w2) \<and> co_used_by_user_id c = Some 1 \<and>
     (\<exists>e. fst (redeem_code plain_crypto ''open-sesame'' 2 w2) = Inl e)"
proof -
  have ok: "codes_con (codes code_world) = None"
    and run: "\<not> isl (fst (redeem_code plain_crypto ''open-sesame'' 1 code_world))"
    and rev: "fst (revoke_code 7 (snd (redeem_code plain_crypto ''open-sesame'' 1 code_world))) = Inl CodeAlreadyUsed"
    by code_simp+
  obtain c w1 where c: "redeem_code plain_crypto ''open-sesame'' 1 code_world = (Inr c, w1)"
    using sum_run[of "redeem_code plain_crypto ''open-sesame'' 1", OF run] by blast
  obtain w2 where w2: "revoke_code 7 w1 = (Inl CodeAlreadyUsed, w2)"
    using rev c by (cases "revoke_code 7 w1") simp
  then have "(code_step plain_crypto)\<^sup>*\<^sup>* w1 w2" by (blast intro: code_step.revoked)
  from code_admits_one_registration[OF ok c this, of 2] c w2 show ?thesis by blast
qed

end
