(* ===== verification/Teams.thy ===== *)
theory Teams
  imports Registration QuotaService
begin

text \<open>
  Teams (\<open>domain/teams.rs\<close>, \<open>domain/admin_teams.rs\<close>): creation, members, invitations, and the requests
  for members and invitations (\<open>features/api/v1/teams/by_team_id/members/by_user_id.rs\<close>,
  \<open>invitations.rs\<close>, \<open>features/api/v1/team_invitations/accept.rs\<close>) together with the member quota they
  reserve, commit and release. The checks of path and session that precede a request
  (\<open>http/extractors/team_role.rs\<close>) are its guards here; the mails are left out.
\<close>

section \<open>Tables\<close>

definition teams_con :: "team list \<Rightarrow> dberr option" where
  "teams_con rows =
     (if \<not> distinct (map t_id rows) then Some (UniqueViolation ''teams_pkey'')
      else if \<not> distinct (map t_slug (filter (\<lambda>t. t_deleted_at t = None) rows))
        then Some (UniqueViolation ''ux_teams_slug'')
      else None)"

definition live_member :: "team_member \<Rightarrow> bool" where
  "live_member m \<longleftrightarrow> tm_deleted_at m = None"

definition team_members_con :: "team_member list \<Rightarrow> dberr option" where
  "team_members_con rows =
     (if \<not> distinct (map tm_id rows) then Some (UniqueViolation ''team_members_pkey'')
      else if \<not> distinct (map (\<lambda>m. (tm_team_id m, tm_user_id m)) (filter live_member rows))
        then Some (UniqueViolation ''ux_team_members_team_user'')
      else None)"

definition invitations_con :: "team_invitation list \<Rightarrow> dberr option" where
  "invitations_con rows =
     (if \<not> distinct (map ti_id rows) then Some (UniqueViolation ''team_invitations_pkey'')
      else if \<not> distinct (map (\<lambda>i. (ti_team_id i, ti_email i)) rows)
        then Some (UniqueViolation ''ux_team_invitations_team_email'')
      else if \<not> distinct (List.map_filter ti_token_hash rows)
        then Some (UniqueViolation ''ux_team_invitations_token_hash'')
      else None)"

definition put_teams :: "team list \<Rightarrow> world \<Rightarrow> world" where
  "put_teams rows w = w\<lparr>teams := rows\<rparr>"

definition put_team_members :: "team_member list \<Rightarrow> world \<Rightarrow> world" where
  "put_team_members rows w = w\<lparr>team_members := rows\<rparr>"

definition put_invitations :: "team_invitation list \<Rightarrow> world \<Rightarrow> world" where
  "put_invitations rows w = w\<lparr>invitations := rows\<rparr>"

definition insert_team :: "team \<Rightarrow> (dberr, team) dbm" where
  "insert_team = exec_insert teams_con teams put_teams"

definition update_team_row :: "uuid \<Rightarrow> (team \<Rightarrow> team) \<Rightarrow> (dberr, team) dbm" where
  "update_team_row i f w =
     exec_update teams_con t_id teams put_teams i (\<lambda>t. (f t)\<lparr>t_updated_at := sql_now w\<rparr>) w"

definition insert_member_row :: "team_member \<Rightarrow> (dberr, team_member) dbm" where
  "insert_member_row = exec_insert team_members_con team_members put_team_members"

definition update_member_row :: "uuid \<Rightarrow> (team_member \<Rightarrow> team_member) \<Rightarrow> (dberr, team_member) dbm" where
  "update_member_row i f w =
     exec_update team_members_con tm_id team_members put_team_members i
       (\<lambda>m. (f m)\<lparr>tm_updated_at := sql_now w\<rparr>) w"

definition insert_invitation_row :: "team_invitation \<Rightarrow> (dberr, team_invitation) dbm" where
  "insert_invitation_row = exec_insert invitations_con invitations put_invitations"

definition update_invitation_row ::
  "uuid \<Rightarrow> (team_invitation \<Rightarrow> team_invitation) \<Rightarrow> (dberr, team_invitation) dbm" where
  "update_invitation_row i f w =
     exec_update invitations_con ti_id invitations put_invitations i
       (\<lambda>x. (f x)\<lparr>ti_updated_at := sql_now w\<rparr>) w"

lemma teams_con_None:
  "teams_con rows = None \<longleftrightarrow> distinct (map t_id rows) \<and>
   distinct (map t_slug (filter (\<lambda>t. t_deleted_at t = None) rows))"
  by (simp add: teams_con_def)

lemma team_members_con_None:
  "team_members_con rows = None \<longleftrightarrow> distinct (map tm_id rows) \<and>
   distinct (map (\<lambda>m. (tm_team_id m, tm_user_id m)) (filter live_member rows))"
  by (simp add: team_members_con_def)

lemma invitations_con_None:
  "invitations_con rows = None \<longleftrightarrow> distinct (map ti_id rows) \<and>
   distinct (map (\<lambda>i. (ti_team_id i, ti_email i)) rows) \<and> distinct (List.map_filter ti_token_hash rows)"
  by (simp add: invitations_con_def)

lemma team_tables_put [simp]:
  "teams (put_teams ts w) = ts" "team_members (put_teams ts w) = team_members w"
  "invitations (put_teams ts w) = invitations w"
  "team_members (put_team_members ms w) = ms" "teams (put_team_members ms w) = teams w"
  "invitations (put_team_members ms w) = invitations w"
  "invitations (put_invitations is w) = is" "teams (put_invitations is w) = teams w"
  "team_members (put_invitations is w) = team_members w"
  by (simp_all add: put_teams_def put_team_members_def put_invitations_def)

interpretation tea: stored_table t_id teams_con teams put_teams
  by unfold_locales (simp_all add: teams_con_None)

interpretation mem: stored_table tm_id team_members_con team_members put_team_members
  by unfold_locales (simp_all add: team_members_con_None)

interpretation inv: stored_table ti_id invitations_con invitations put_invitations
  by unfold_locales (simp_all add: invitations_con_None)

section \<open>Teams and members\<close>

record create_team_params =
  ct_slug :: string
  ct_name :: string
  ct_kind :: team_kind
  ct_owner_user_id :: uuid
  ct_group_id :: "uuid option"

definition get_default_team_group_id :: "world \<Rightarrow> uuid option" where
  "get_default_team_group_id w =
     map_option g_id (find (\<lambda>g. g_is_default g \<and> g_deleted_at g = None) (team_groups w))"

definition insert_team_member ::
  "uuid \<Rightarrow> uuid \<Rightarrow> team_member_role \<Rightarrow> uuid option \<Rightarrow> (dberr, unit) dbm" where
  "insert_team_member team uid role invited_by =
     bindM now_utc (\<lambda>now.
     bindM now_v7 (\<lambda>i.
     bindM (insert_member_row
       \<lparr>tm_id = i, tm_team_id = team, tm_user_id = uid, tm_role = role, tm_invited_by_user_id = invited_by,
        tm_joined_at = now, tm_deleted_at = None, tm_created_at = now, tm_updated_at = now\<rparr>) (\<lambda>_.
     retM ())))"

definition create_team_with_connection :: "create_team_params \<Rightarrow> (anyhow, team) dbm" where
  "create_team_with_connection params =
     bindM now_utc (\<lambda>now.
     bindM now_v7 (\<lambda>tid.
     bindM (case ct_group_id params of Some i \<Rightarrow> retM (Some i) | None \<Rightarrow> getM get_default_team_group_id) (\<lambda>group.
     bindM (mapErr AnyDb (insert_team
       \<lparr>t_id = tid, t_slug = ct_slug params, t_name = ct_name params, t_avatar_version = None,
        t_kind = ct_kind params, t_group_id = group, t_explicit_quota_plan_id = None,
        t_owner_user_id = Some (ct_owner_user_id params), t_deleted_at = None, t_created_at = now,
        t_updated_at = now\<rparr>)) (\<lambda>t.
     bindM (mapErr AnyDb (insert_team_member tid (ct_owner_user_id params) RoleOwner None)) (\<lambda>_.
     retM t)))))"

definition create_team :: "create_team_params \<Rightarrow> (anyhow, team) dbm" where
  "create_team params = transaction (create_team_with_connection params)"

definition membership :: "uuid \<Rightarrow> uuid \<Rightarrow> team_member \<Rightarrow> bool" where
  "membership team uid m \<longleftrightarrow> tm_team_id m = team \<and> tm_user_id m = uid \<and> tm_deleted_at m = None"

definition list_for_user :: "world \<Rightarrow> uuid \<Rightarrow> team list" where
  "list_for_user w uid =
     (let ids = map tm_team_id (filter (\<lambda>m. tm_user_id m = uid \<and> tm_deleted_at m = None) (team_members w))
      in if ids = [] then []
         else filter (\<lambda>t. t_id t \<in> set ids \<and> t_deleted_at t = None) (teams w))"

definition get_team_by_id :: "world \<Rightarrow> uuid \<Rightarrow> team option" where
  "get_team_by_id w team = find (\<lambda>t. t_id t = team \<and> t_deleted_at t = None) (teams w)"

definition update_team :: "uuid \<Rightarrow> string option \<Rightarrow> string option \<Rightarrow> (anyhow, team) dbm" where
  "update_team team slug name =
     bindM (getM (\<lambda>w. get_team_by_id w team)) (\<lambda>found.
     bindM (okOr (AnyMsg ''team not found'') found) (\<lambda>t.
     if slug = None \<and> name = None then retM t
     else mapErr AnyDb (update_team_row team
       (\<lambda>t. t\<lparr>t_slug := (case slug of Some s \<Rightarrow> s | None \<Rightarrow> t_slug t),
               t_name := (case name of Some n \<Rightarrow> n | None \<Rightarrow> t_name t)\<rparr>))))"

definition soft_delete_team :: "uuid \<Rightarrow> (anyhow, unit) dbm" where
  "soft_delete_team team =
     bindM (getM (\<lambda>w. get_team_by_id w team)) (\<lambda>found.
     bindM (okOr (AnyMsg ''team not found'') found) (\<lambda>t.
     bindM now_utc (\<lambda>now.
     bindM (mapErr AnyDb (update_team_row team (\<lambda>t. t\<lparr>t_deleted_at := Some now\<rparr>))) (\<lambda>_.
     retM ()))))"

definition list_members :: "world \<Rightarrow> uuid \<Rightarrow> (team_member \<times> user) list" where
  "list_members w team =
     (let members = filter (\<lambda>m. tm_team_id m = team \<and> tm_deleted_at m = None) (team_members w);
          ids = map tm_user_id members;
          us = filter (\<lambda>u. us_id u \<in> set ids \<and> us_deleted_at u = None) (users w)
      in List.map_filter (\<lambda>m. map_option (\<lambda>u. (m, u)) (find (\<lambda>u. us_id u = tm_user_id m) us)) members)"

definition member_role :: "world \<Rightarrow> uuid \<Rightarrow> uuid \<Rightarrow> team_member_role option" where
  "member_role w team uid = map_option tm_role (find (membership team uid) (team_members w))"

datatype member_mutation_error = MemberNotFound | MemberOwnerConflict string | MemberDatabase dberr

definition active_member_for_update :: "uuid \<Rightarrow> uuid \<Rightarrow> (member_mutation_error, team_member) dbm" where
  "active_member_for_update team uid =
     bindM (getM (\<lambda>w. find (membership team uid) (team_members w))) (okOr MemberNotFound)"

definition validate_managed_member_role :: "team_member_role \<Rightarrow> string + unit" where
  "validate_managed_member_role role =
     (if role = RoleOwner then Inl ''owner role can only be assigned through ownership transfer'' else Inr ())"

definition validate_member_change :: "team_member_role \<Rightarrow> team_member_role option \<Rightarrow> string + unit" where
  "validate_member_change current requested =
     (if current = RoleOwner then Inl ''team owner cannot be changed through member management''
      else (case requested of Some role \<Rightarrow> validate_managed_member_role role | None \<Rightarrow> Inr ()))"

definition update_member_role ::
  "uuid \<Rightarrow> uuid \<Rightarrow> team_member_role \<Rightarrow> (member_mutation_error, team_member) dbm" where
  "update_member_role team uid role =
     transaction (
       bindM (active_member_for_update team uid) (\<lambda>m.
       bindM (mapErr MemberOwnerConflict (liftR (validate_member_change (tm_role m) (Some role)))) (\<lambda>_.
       mapErr MemberDatabase (update_member_row (tm_id m) (\<lambda>m. m\<lparr>tm_role := role\<rparr>)))))"

definition remove_member :: "uuid \<Rightarrow> uuid \<Rightarrow> (member_mutation_error, unit) dbm" where
  "remove_member team uid =
     transaction (
       bindM (active_member_for_update team uid) (\<lambda>m.
       bindM (mapErr MemberOwnerConflict (liftR (validate_member_change (tm_role m) None))) (\<lambda>_.
       bindM now_utc (\<lambda>now.
       bindM (mapErr MemberDatabase (update_member_row (tm_id m) (\<lambda>m. m\<lparr>tm_deleted_at := Some now\<rparr>))) (\<lambda>_.
       retM ())))))"

section \<open>Invitations\<close>

datatype invitation_error =
    InviteNotFound | InviteNotPending | InviteExpired | InviteEmailMismatch | InviteOwnerRole
  | InviteAlreadyMember | InviteUserNotFound | InviteDatabase dberr

record create_invitation_params =
  ci_team_id :: uuid
  ci_email :: string
  ci_role :: team_member_role
  ci_invited_by_user_id :: uuid
  ci_token_hash :: string
  ci_signup_policy :: signup_policy

definition invitation_lifetime :: int where
  "invitation_lifetime = seconds (7 * 86400)"

definition reissued :: "create_invitation_params \<Rightarrow> time \<Rightarrow> team_invitation \<Rightarrow> team_invitation" where
  "reissued params now i =
     i\<lparr>ti_role := ci_role params, ti_status := InvPending,
       ti_invited_by_user_id := Some (ci_invited_by_user_id params),
       ti_token_hash := Some (ci_token_hash params),
       ti_expires_at := now + invitation_lifetime, ti_accepted_at := None\<rparr>"

definition new_invitation :: "create_invitation_params \<Rightarrow> time \<Rightarrow> uuid \<Rightarrow> team_invitation" where
  "new_invitation params now i =
     \<lparr>ti_id = i, ti_team_id = ci_team_id params, ti_email = ci_email params, ti_role = ci_role params,
      ti_status = InvPending, ti_invited_by_user_id = Some (ci_invited_by_user_id params),
      ti_token_hash = Some (ci_token_hash params), ti_expires_at = now + invitation_lifetime,
      ti_accepted_at = None, ti_created_at = now, ti_updated_at = now\<rparr>"

definition create_invitation :: "create_invitation_params \<Rightarrow> (invitation_error, team_invitation) dbm" where
  "create_invitation params =
     bindM (mapErr (\<lambda>_. InviteOwnerRole) (liftR (validate_managed_member_role (ci_role params)))) (\<lambda>_.
     transaction (
       bindM (getM (\<lambda>w. get_user_by_email w (ci_email params))) (\<lambda>invited.
       if (case invited of Some u \<Rightarrow> us_status u \<noteq> UserActive | None \<Rightarrow> ci_signup_policy params \<noteq> SignupOpen)
       then failM InviteUserNotFound
       else
         bindM (getM (\<lambda>w. case invited of
             Some u \<Rightarrow> find (membership (ci_team_id params) (us_id u)) (team_members w) | None \<Rightarrow> None)) (\<lambda>member.
         if member \<noteq> None then failM InviteAlreadyMember
         else
           bindM now_utc (\<lambda>now.
           bindM (getM (\<lambda>w. find (\<lambda>i. ti_team_id i = ci_team_id params \<and> ti_email i = ci_email params)
             (invitations w))) (\<lambda>existing.
           mapErr InviteDatabase (case existing of
             Some e \<Rightarrow> update_invitation_row (ti_id e) (reissued params now)
           | None \<Rightarrow> bindM now_v7 (\<lambda>i. insert_invitation_row (new_invitation params now i)))))))))"

definition same_text_ignoring_case :: "string \<Rightarrow> string \<Rightarrow> bool" where
  "same_text_ignoring_case a b \<longleftrightarrow> map lower_char a = map lower_char b"

definition validate_invitation_acceptance ::
  "invitation_status \<Rightarrow> time \<Rightarrow> string \<Rightarrow> string \<Rightarrow> time \<Rightarrow> invitation_error + unit" where
  "validate_invitation_acceptance status expires invitation_email user_email now =
     (if status \<noteq> InvPending then Inl InviteNotPending
      else if expires \<le> now then Inl InviteExpired
      else if \<not> same_text_ignoring_case invitation_email user_email then Inl InviteEmailMismatch
      else Inr ())"

definition accept_invitation_with_connection ::
  "string \<Rightarrow> uuid \<Rightarrow> (invitation_error, team_member) dbm" where
  "accept_invitation_with_connection token_hash uid =
     bindM (getM (\<lambda>w. find (\<lambda>i. ti_token_hash i = Some token_hash) (invitations w))) (\<lambda>found.
     bindM (okOr InviteNotFound found) (\<lambda>i.
     bindM (getM (\<lambda>w. get_user_by_id w uid)) (\<lambda>found_user.
     bindM (okOr InviteNotFound found_user) (\<lambda>u.
     bindM now_utc (\<lambda>t0.
     bindM (liftR (validate_invitation_acceptance (ti_status i) (ti_expires_at i) (ti_email i) (us_email u) t0)) (\<lambda>_.
     bindM (getM (\<lambda>w. find (membership (ti_team_id i) uid) (team_members w))) (\<lambda>member.
     if member \<noteq> None then failM InviteAlreadyMember
     else
       bindM now_utc (\<lambda>now.
       bindM now_v7 (\<lambda>mid.
       bindM (mapErr InviteDatabase (insert_member_row
         \<lparr>tm_id = mid, tm_team_id = ti_team_id i, tm_user_id = uid, tm_role = ti_role i,
          tm_invited_by_user_id = ti_invited_by_user_id i, tm_joined_at = now, tm_deleted_at = None,
          tm_created_at = now, tm_updated_at = now\<rparr>)) (\<lambda>m.
       bindM (mapErr InviteDatabase (update_invitation_row (ti_id i)
         (\<lambda>i. i\<lparr>ti_status := InvAccepted, ti_accepted_at := Some now\<rparr>))) (\<lambda>_.
       retM m)))))))))))"

definition accept_invitation :: "string \<Rightarrow> uuid \<Rightarrow> (invitation_error, team_member) dbm" where
  "accept_invitation token_hash uid = transaction (accept_invitation_with_connection token_hash uid)"

section \<open>Administration of teams\<close>

definition admin_remove_team :: "uuid \<Rightarrow> uuid \<Rightarrow> (app_error, unit) dbm" where
  "admin_remove_team actor team =
     (let op = ''admin.teams.remove''
      in transaction (
        bindM (getM (\<lambda>w. get_team_by_id w team)) (\<lambda>found.
        bindM (okOr (NotFound op ''team not found'') found) (\<lambda>t.
        if t_kind t = Personal then failM (Validation op ''personal teams cannot be deleted'')
        else
          bindM (getM (\<lambda>w. length (filter (\<lambda>p. p_team_id p = t_id t \<and> p_deleted_at p = None) (projects w)))) (\<lambda>n.
          if 0 < n then failM (Conflict op ''team still owns project(s); delete or transfer them first'')
          else
            bindM (mapErr (Infrastructure op) (soft_delete_team (t_id t))) (\<lambda>_.
            mapErr (\<lambda>e. Infrastructure op (AnyDb e)) (create_platform_audit_event
              \<lparr>ap_actor_user_id = Some actor, ap_actor_node_id = None, ap_team_id = Some (t_id t),
               ap_action = ''team.deleted'', ap_target_type = ''team'', ap_target_id = Some (t_id t),
               ap_result = AuditSuccess, ap_reason = Some ''deleted by platform administrator'',
               ap_metadata = JObj [(''slug'', JStr (t_slug t))]\<rparr>)))))))"

definition admin_set_quota_plan :: "uuid \<Rightarrow> uuid \<Rightarrow> uuid option \<Rightarrow> (app_error, team) dbm" where
  "admin_set_quota_plan actor team plan_id =
     (let op = ''admin.teams.set_quota_plan''
      in transaction (
        bindM (getM (\<lambda>w. get_team_by_id w team)) (\<lambda>found.
        bindM (okOr (NotFound op ''team not found'') found) (\<lambda>t.
        bindM
          (case plan_id of
             None \<Rightarrow> retM ()
           | Some i \<Rightarrow>
               bindM (getM (\<lambda>w. get_plan w i)) (\<lambda>plan.
               case plan of
                 Some p \<Rightarrow> if q_enabled p then retM () else failM (Validation op ''quota plan is disabled'')
               | None \<Rightarrow> failM (Validation op ''quota plan not found''))) (\<lambda>_.
        bindM (mapErr (\<lambda>e. Infrastructure op (AnyDb e)) (update_team_row (t_id t)
          (\<lambda>t. t\<lparr>t_explicit_quota_plan_id := plan_id\<rparr>))) (\<lambda>updated.
        bindM (mapErr (\<lambda>e. Infrastructure op (AnyDb e)) (create_platform_audit_event
          \<lparr>ap_actor_user_id = Some actor, ap_actor_node_id = None, ap_team_id = Some (t_id updated),
           ap_action = ''team.quota_plan_overridden'', ap_target_type = ''team'',
           ap_target_id = Some (t_id updated), ap_result = AuditSuccess, ap_reason = None,
           ap_metadata = JObj [(''plan_id'', jopt JUuid plan_id)]\<rparr>)) (\<lambda>_.
        retM updated)))))))"

section \<open>Requests for members and invitations\<close>

definition require_owner :: "string \<Rightarrow> team_member_role \<Rightarrow> app_error + unit" where
  "require_owner op role = (if role \<noteq> RoleOwner then Inl (Forbidden op ''owner role required'') else Inr ())"

definition require_admin :: "string \<Rightarrow> team_member_role \<Rightarrow> app_error + unit" where
  "require_admin op role =
     (if role \<noteq> RoleOwner \<and> role \<noteq> RoleAdmin then Inl (Forbidden op ''admin role required'') else Inr ())"

text \<open>\<open>TeamRole::from_request_parts\<close>: the role of the session's user in the team of the path.\<close>

definition team_role :: "world \<Rightarrow> uuid \<Rightarrow> uuid \<Rightarrow> app_error + team_member_role" where
  "team_role w team uid =
     (case member_role w team uid of
        None \<Rightarrow> Inl (Forbidden ''team.role.not_member'' ''not a member of this team'')
      | Some role \<Rightarrow> Inr role)"

definition parse_role :: "string \<Rightarrow> string \<Rightarrow> app_error + team_member_role" where
  "parse_role op role =
     (let r = map lower_char (trim_by char_ws role)
      in if r = ''owner'' then Inr RoleOwner else if r = ''admin'' then Inr RoleAdmin
         else if r = ''member'' then Inr RoleMember else if r = ''viewer'' then Inr RoleViewer
         else Inl (Validation op (''invalid role: '' @ role)))"

definition one_member :: "quota_charge list" where
  "one_member = [\<lparr>qc_dimension = Members, qc_amount = 1\<rparr>]"

definition map_member_mutation_error :: "member_mutation_error \<Rightarrow> app_error" where
  "map_member_mutation_error e =
     (case e of
        MemberNotFound \<Rightarrow> NotFound ''teams.members.not_found'' ''team member not found''
      | MemberOwnerConflict m \<Rightarrow> Conflict ''teams.members.owner_conflict'' m
      | MemberDatabase d \<Rightarrow> Infrastructure ''teams.members.database'' (AnyDb d))"

definition map_invitation_error :: "invitation_error \<Rightarrow> app_error" where
  "map_invitation_error e =
     (case e of
        InviteNotFound \<Rightarrow> NotFound ''teams.invitations.not_found'' ''invitation not found''
      | InviteNotPending \<Rightarrow> Conflict ''teams.invitations.not_pending'' ''invitation is not pending''
      | InviteExpired \<Rightarrow> Gone ''teams.invitations.expired'' ''invitation has expired''
      | InviteEmailMismatch \<Rightarrow>
          Forbidden ''teams.invitations.email_mismatch'' ''invitation email does not match current user''
      | InviteOwnerRole \<Rightarrow>
          Validation ''teams.invitations.owner_role'' ''owner role can only be assigned through ownership transfer''
      | InviteAlreadyMember \<Rightarrow> Conflict ''teams.invitations.already_member'' ''user is already a team member''
      | InviteUserNotFound \<Rightarrow> NotFound ''teams.invitations.user_not_found'' ''user does not exist''
      | InviteDatabase d \<Rightarrow> Infrastructure ''teams.invitations.database'' (AnyDb d))"

definition request_update_role :: "uuid \<Rightarrow> uuid \<Rightarrow> uuid \<Rightarrow> string \<Rightarrow> (app_error, team_member) dbm" where
  "request_update_role actor team uid role =
     bindM (getM (\<lambda>w. team_role w team actor)) (\<lambda>found.
     bindM (liftR found) (\<lambda>own_role.
     bindM (liftR (require_admin ''teams.members.update_role.admin_required'' own_role)) (\<lambda>_.
     bindM (liftR (parse_role ''teams.members.update_role.invalid_role'' role)) (\<lambda>role.
     mapErr map_member_mutation_error (update_member_role team uid role)))))"

definition request_remove_member :: "calendar \<Rightarrow> uuid \<Rightarrow> uuid \<Rightarrow> uuid \<Rightarrow> (app_error, unit) svm" where
  "request_remove_member cal actor team uid =
     bindM (on_db (getM (\<lambda>w. team_role w team actor))) (\<lambda>found.
     bindM (liftR found) (\<lambda>own_role.
     bindM (liftR (require_admin ''teams.members.remove.admin_required'' own_role)) (\<lambda>_.
     bindM (mapErr map_member_mutation_error (on_db (remove_member team uid))) (\<lambda>_.
     release_usage cal ''teams.members.remove.quota_release'' team one_member ''team_member'' (Some uid)))))"

definition email_error_text :: "email_error \<Rightarrow> string" where
  "email_error_text e =
     (case e of EmailInvalid \<Rightarrow> ''invalid email address''
      | EmailTooLong \<Rightarrow> ''email address must not exceed 320 characters'')"

definition ascii_text :: "ustr \<Rightarrow> string" where
  "ascii_text s = map char_of s"

definition request_invitation ::
  "crypto_lib \<Rightarrow> nat list \<Rightarrow> calendar \<Rightarrow> uuid \<Rightarrow> uuid \<Rightarrow> ustr \<Rightarrow> string \<Rightarrow> (app_error, team_invitation \<times> string) svm" where
  "request_invitation lib random cal actor team email role =
     bindM (on_db (getM (\<lambda>w. team_role w team actor))) (\<lambda>found.
     bindM (liftR found) (\<lambda>own_role.
     bindM (liftR (require_admin ''teams.invitations.create.admin_required'' own_role)) (\<lambda>_.
     bindM (mapErr (\<lambda>e. Validation ''teams.invitations.create.invalid_email'' (email_error_text e))
       (liftR (normalize_email email))) (\<lambda>email.
     bindM (liftR (parse_role ''teams.invitations.create.invalid_role'' role)) (\<lambda>role.
     bindM (mapErr (Validation ''teams.invitations.create.owner_role'') (liftR (validate_managed_member_role role))) (\<lambda>_.
     bindM (on_db (getM (\<lambda>w. parse_signup_policy
       (Option.bind (get_setting w ''signup.policy'') (\<lambda>s. json_as_str (s_value s)))))) (\<lambda>parsed.
     bindM (mapErr (\<lambda>_. Internal ''teams.invitations.create.invalid_policy'' ''signup policy setting is invalid'')
       (liftR parsed)) (\<lambda>policy.
     bindM (on_db (getM (\<lambda>w. get_team_by_id w team))) (\<lambda>found_team.
     bindM (okOr (NotFound ''teams.invitations.create.team_not_found'' ''team not found'') found_team) (\<lambda>t.
     bindM (reserve cal ''teams.invitations.create.quota'' t (Some actor) one_member) (\<lambda>precheck.
     bindM (rollback_reservation precheck) (\<lambda>_.
     (let token = generate_token lib random
      in bindM (mapErr map_invitation_error (on_db (create_invitation
           \<lparr>ci_team_id = team, ci_email = ascii_text email, ci_role = role, ci_invited_by_user_id = actor,
            ci_token_hash = hash_token lib token, ci_signup_policy = policy\<rparr>))) (\<lambda>i.
         retM (i, token)))))))))))))))"

definition request_accept_invitation :: "crypto_lib \<Rightarrow> calendar \<Rightarrow> uuid \<Rightarrow> string \<Rightarrow> (app_error, team_member) svm" where
  "request_accept_invitation lib cal actor token =
     (if trim_by char_ws token = []
      then failM (Validation ''teams.invitations.accept.invalid_token'' ''invitation token is required'')
      else
        (let token_hash = hash_token lib (trim_by char_ws token)
         in bindM (on_db (getM (\<lambda>w. map_option ti_team_id
              (find (\<lambda>i. ti_token_hash i = Some token_hash) (invitations w))))) (\<lambda>found.
            bindM (okOr (NotFound ''teams.invitations.not_found'' ''invitation not found'') found) (\<lambda>team.
            bindM (on_db (getM (\<lambda>w. get_team_by_id w team))) (\<lambda>found_team.
            bindM (okOr (NotFound ''teams.invitations.accept.team_not_found'' ''team not found'') found_team) (\<lambda>t.
            bindM (reserve cal ''teams.invitations.accept.quota'' t (Some actor) one_member) (\<lambda>reservation s.
            case on_db (accept_invitation token_hash actor) s of
              (Inl e, s') \<Rightarrow> bindM (rollback_reservation reservation) (\<lambda>_. failM (map_invitation_error e)) s'
            | (Inr m, s') \<Rightarrow>
                bindM (commit_reservation cal ''teams.invitations.accept.quota_commit'' reservation
                  ''team_member'' (Some (tm_id m))) (\<lambda>_. retM m) s')))))))"

end
