(* ===== verification/TeamOwnership.thy ===== *)
theory TeamOwnership
  imports Teams
begin

text \<open>
  What the operations on teams keep (\<open>domain/teams.rs\<close>, \<open>domain/admin_teams.rs\<close>): every team has exactly
  one owner, its \<open>owner_user_id\<close>, whatever members and invitations do; an invitation admits one member;
  and the counter of members in the cache against the members there are.
\<close>

section \<open>The shape of the team tables\<close>

definition owners :: "team_member list \<Rightarrow> uuid \<Rightarrow> team_member list" where
  "owners ms team = filter (\<lambda>m. tm_team_id m = team \<and> live_member m \<and> tm_role m = RoleOwner) ms"

definition owned :: "team_member list \<Rightarrow> team \<Rightarrow> bool" where
  "owned ms t \<longleftrightarrow> (case owners ms (t_id t) of [m] \<Rightarrow> t_owner_user_id t = Some (tm_user_id m) | _ \<Rightarrow> False)"

lemma owned_iff: "owned ms t \<longleftrightarrow> (\<exists>m. owners ms (t_id t) = [m] \<and> t_owner_user_id t = Some (tm_user_id m))"
  by (auto simp: owned_def split: list.splits)

definition shape :: "team list \<Rightarrow> team_member list \<Rightarrow> team_invitation list \<Rightarrow> bool" where
  "shape ts ms is \<longleftrightarrow>
     teams_con ts = None \<and> team_members_con ms = None \<and> invitations_con is = None \<and>
     list_all (owned ms) ts \<and>
     list_all (\<lambda>m. tm_team_id m \<in> t_id ` set ts) ms \<and>
     list_all (\<lambda>i. ti_role i \<noteq> RoleOwner \<and> ti_team_id i \<in> t_id ` set ts) is"

definition team_shape :: "world \<Rightarrow> bool" where
  "team_shape w \<longleftrightarrow> shape (teams w) (team_members w) (invitations w)"

text \<open>
  \<open>issued\<close>: the hashes of the tokens that invitations are issued with meanwhile. A registration creates the
  personal team of its user inside its own transaction (\<open>registered\<close>); when it fails nothing is left of it.
\<close>

inductive team_step :: "string set \<Rightarrow> world \<Rightarrow> world \<Rightarrow> bool" for issued where
  created: "create_team params w = (r, v) \<Longrightarrow> team_step issued w v"
| registered: "create_team_with_connection params w = (Inr t, v) \<Longrightarrow> team_step issued w v"
| renamed: "update_team team slug name w = (r, v) \<Longrightarrow> team_step issued w v"
| deleted: "admin_remove_team actor team w = (r, v) \<Longrightarrow> team_step issued w v"
| planned: "admin_set_quota_plan actor team plan w = (r, v) \<Longrightarrow> team_step issued w v"
| role_set: "update_member_role team uid role w = (r, v) \<Longrightarrow> team_step issued w v"
| left: "remove_member team uid w = (r, v) \<Longrightarrow> team_step issued w v"
| invited: "create_invitation invite w = (r, v) \<Longrightarrow> ci_team_id invite \<in> t_id ` set (teams w) \<Longrightarrow>
    ci_token_hash invite \<in> issued \<Longrightarrow> team_step issued w v"
| accepted: "accept_invitation token uid w = (r, v) \<Longrightarrow> team_step issued w v"
| elsewhere: "teams v = teams w \<Longrightarrow> team_members v = team_members w \<Longrightarrow> invitations v = invitations w \<Longrightarrow>
    team_step issued w v"

lemma tx_tables [simp]:
  "teams (begin_tx w) = teams w" "team_members (begin_tx w) = team_members w"
  "invitations (begin_tx w) = invitations w"
  "teams (commit_audits w v) = teams v" "team_members (commit_audits w v) = team_members v"
  "invitations (commit_audits w v) = invitations v"
  "teams (rollback_to w v) = teams w" "team_members (rollback_to w v) = team_members w"
  "invitations (rollback_to w v) = invitations w"
  by (simp_all add: begin_tx_def commit_audits_def rollback_to_def)

lemma clock_tables [simp]:
  "now_utc w = (Inr t, v) \<longleftrightarrow> t = clock w (clock_pos w) \<and> v = w\<lparr>clock_pos := Suc (clock_pos w)\<rparr>"
  "now_v7 w = (Inr i, v) \<longleftrightarrow> i = uuids w (uuid_pos w) \<and> v = w\<lparr>uuid_pos := Suc (uuid_pos w)\<rparr>"
  by (auto simp: now_utc_def now_v7_def)

text \<open>A failed operation is rolled back; what remains is to look at the successful ones.\<close>

lemma failed_keeps:
  "transaction m w = (Inl e, v) \<Longrightarrow>
   teams v = teams w \<and> team_members v = team_members w \<and> invitations v = invitations w"
  by (auto simp: transaction_Inl)

lemma owners_update:
  assumes "\<And>m. m \<in> set ms \<Longrightarrow> p m \<Longrightarrow> tm_role m \<noteq> RoleOwner \<and> \<not> (live_member (f m) \<and> tm_role (f m) = RoleOwner)"
  shows "owners (update_where p f ms) team = owners ms team"
  using assms by (induction ms) (auto simp: owners_def update_where_def)

lemma shape_update_team:
  assumes "shape ts ms is" and "teams_con (update_where p f ts) = None"
    and "\<And>t. t_id (f t) = t_id t" and "\<And>t. t_owner_user_id (f t) = t_owner_user_id t"
  shows "shape (update_where p f ts) ms is"
proof -
  have "t_id ` set (update_where p f ts) = t_id ` set ts"
    unfolding set_update_where image_image by (rule image_cong) (auto simp: assms(3))
  moreover have "list_all (owned ms) (update_where p f ts)"
    using assms(1) by (auto simp: shape_def list_all_iff set_update_where owned_iff assms(3,4))
  ultimately show ?thesis using assms(1,2) by (simp add: shape_def)
qed

lemma shape_update_member:
  assumes "shape ts ms is" and "team_members_con (update_where p f ms) = None"
    and "\<And>m. m \<in> set ms \<Longrightarrow> p m \<Longrightarrow> tm_role m \<noteq> RoleOwner \<and> \<not> (live_member (f m) \<and> tm_role (f m) = RoleOwner)"
    and "\<And>m. tm_team_id (f m) = tm_team_id m"
  shows "shape ts (update_where p f ms) is"
proof -
  have "owners (update_where p f ms) team = owners ms team" for team
    by (rule owners_update) (rule assms(3))
  then have "list_all (owned (update_where p f ms)) ts"
    using assms(1) by (simp add: shape_def list_all_iff owned_iff)
  moreover have "list_all (\<lambda>m. tm_team_id m \<in> t_id ` set ts) (update_where p f ms)"
    using assms(1) by (auto simp: shape_def list_all_iff set_update_where assms(4))
  ultimately show ?thesis using assms(1,2) by (simp add: shape_def)
qed

lemma shape_add_member:
  assumes "shape ts ms is" and "team_members_con (ms @ [m]) = None"
    and "tm_role m \<noteq> RoleOwner" and "tm_team_id m \<in> t_id ` set ts"
  shows "shape ts (ms @ [m]) is"
  using assms by (simp add: shape_def list_all_iff owned_iff owners_def)

lemma shape_update_invitation:
  assumes "shape ts ms is" and "invitations_con (update_where p f is) = None"
    and "\<And>i. ti_role i \<noteq> RoleOwner \<Longrightarrow> ti_role (f i) \<noteq> RoleOwner" and "\<And>i. ti_team_id (f i) = ti_team_id i"
  shows "shape ts ms (update_where p f is)"
  using assms by (auto simp: shape_def list_all_iff set_update_where)

lemma shape_add_invitation:
  assumes "shape ts ms is" and "invitations_con (is @ [i]) = None"
    and "ti_role i \<noteq> RoleOwner" and "ti_team_id i \<in> t_id ` set ts"
  shows "shape ts ms (is @ [i])"
  using assms by (simp add: shape_def)

lemma shape_add_team:
  assumes "shape ts ms is" and "teams_con (ts @ [t]) = None" and "team_members_con (ms @ [m]) = None"
    and "tm_team_id m = t_id t" "tm_role m = RoleOwner" "live_member m" "t_owner_user_id t = Some (tm_user_id m)"
  shows "shape (ts @ [t]) (ms @ [m]) is"
proof -
  have new: "t_id t \<notin> t_id ` set ts" using assms(2) by (auto simp: teams_con_None)
  have "tm_team_id x \<noteq> t_id t" if "x \<in> set ms" for x
  proof -
    have "tm_team_id x \<in> t_id ` set ts" using assms(1) that by (simp add: shape_def list_all_iff)
    with new show ?thesis by auto
  qed
  then have "owners ms (t_id t) = []" by (auto simp: owners_def filter_empty_conv)
  then have "owned (ms @ [m]) t" using assms(4-7) by (auto simp: owned_iff owners_def)
  moreover have "owners (ms @ [m]) (t_id s) = owners ms (t_id s)" if "s \<in> set ts" for s
    using new that assms(4) by (auto simp: owners_def)
  then have "list_all (owned (ms @ [m])) ts"
    using assms(1) by (simp add: shape_def list_all_iff owned_iff)
  ultimately show ?thesis
    using assms by (auto simp: shape_def list_all_iff)
qed

section \<open>Every operation keeps the shape\<close>

lemma insert_team_member_effect:
  "insert_team_member team uid role inviter w = (Inr u, v) \<Longrightarrow>
   \<exists>m. team_members v = team_members w @ [m] \<and> team_members_con (team_members w @ [m]) = None \<and>
     tm_team_id m = team \<and> tm_user_id m = uid \<and> tm_role m = role \<and> live_member m \<and>
     teams v = teams w \<and> invitations v = invitations w"
  by (auto simp: insert_team_member_def oper_Inr insert_member_row_def mem.insert_Inr live_member_def)

lemma create_team_effect:
  assumes "create_team_with_connection params w = (Inr t, v)"
  shows "\<exists>m. teams v = teams w @ [t] \<and> team_members v = team_members w @ [m] \<and> invitations v = invitations w \<and>
    teams_con (teams w @ [t]) = None \<and> team_members_con (team_members w @ [m]) = None \<and>
    tm_team_id m = t_id t \<and> tm_role m = RoleOwner \<and> live_member m \<and>
    tm_user_id m = ct_owner_user_id params \<and> t_owner_user_id t = Some (ct_owner_user_id params) \<and>
    t_slug t = ct_slug params \<and> t_kind t = ct_kind params"
proof -
  obtain g w1 w2 u where g: "(case ct_group_id params of Some i \<Rightarrow> retM (Some i) | None \<Rightarrow> getM get_default_team_group_id)
      (w\<lparr>clock_pos := Suc (clock_pos w), uuid_pos := Suc (uuid_pos w)\<rparr>) =
      ((Inr g, w1) :: (anyhow + uuid option) \<times> world)"
    and ins: "insert_team \<lparr>t_id = uuids w (uuid_pos w), t_slug = ct_slug params, t_name = ct_name params,
        t_avatar_version = None, t_kind = ct_kind params, t_group_id = g, t_explicit_quota_plan_id = None,
        t_owner_user_id = Some (ct_owner_user_id params), t_deleted_at = None,
        t_created_at = clock w (clock_pos w), t_updated_at = clock w (clock_pos w)\<rparr> w1 = (Inr t, w2)"
    and mem: "insert_team_member (uuids w (uuid_pos w)) (ct_owner_user_id params) RoleOwner None w2 = (Inr u, v)"
    using assms unfolding create_team_with_connection_def by (auto simp: bindM_Inr mapErr_Inr retM_Inr)
  have "w1 = w\<lparr>clock_pos := Suc (clock_pos w), uuid_pos := Suc (uuid_pos w)\<rparr>"
    using g by (auto simp: oper_Inr split: option.splits)
  with ins insert_team_member_effect[OF mem] show ?thesis
    by (auto simp: insert_team_def tea.insert_Inr)
qed

lemma create_team_shape:
  assumes "team_shape w" and "create_team_with_connection params w = (Inr t, v)"
  shows "team_shape v"
proof -
  obtain m where "teams v = teams w @ [t]" "team_members v = team_members w @ [m]" "invitations v = invitations w"
    "teams_con (teams w @ [t]) = None" "team_members_con (team_members w @ [m]) = None"
    "tm_team_id m = t_id t" "tm_role m = RoleOwner" "live_member m" "t_owner_user_id t = Some (tm_user_id m)"
    using create_team_effect[OF assms(2)] by auto
  with assms(1) show ?thesis unfolding team_shape_def by (simp add: shape_add_team)
qed

lemma update_team_row_shape:
  assumes "team_shape w" and "update_team_row i f w = (Inr t, v)"
    and "\<And>t. t_id (f t) = t_id t" and "\<And>t. t_owner_user_id (f t) = t_owner_user_id t"
  shows "team_shape v"
  using assms(1,2) unfolding team_shape_def update_team_row_def tea.update_Inr
  by (auto intro!: shape_update_team simp: assms(3,4))

lemma find_member: "find (membership team uid) ms = Some m \<Longrightarrow> m \<in> set ms \<and> membership team uid m"
  by (rule find_Some_iff_mem)

lemma change_member_shape:
  assumes shape: "team_shape w" and found: "find (membership team uid) (team_members w) = Some m"
    and change: "validate_member_change (tm_role m) requested = Inr ()"
    and run: "update_member_row (tm_id m) f w = (Inr q, v)"
    and f: "\<And>x. tm_team_id (f x) = tm_team_id x" "\<And>x. tm_role x \<noteq> RoleOwner \<Longrightarrow> tm_role (f x) \<noteq> RoleOwner"
  shows "team_shape v"
proof -
  have m: "m \<in> set (team_members w)" using find_member[OF found] by simp
  have role: "tm_role m \<noteq> RoleOwner"
    using change by (auto simp: validate_member_change_def split: if_splits)
  have only: "x = m" if "x \<in> set (team_members w)" "tm_id x = tm_id m" for x
    using mem.row_unique[of "team_members w" x m] shape m that by (simp add: team_shape_def shape_def)
  have side: "tm_role x \<noteq> RoleOwner \<and> tm_role (f x) \<noteq> RoleOwner"
    if "x \<in> set (team_members w)" "tm_id x = tm_id m" for x
    using only[OF that] role f(2) by simp
  show ?thesis
    using shape run unfolding team_shape_def update_member_row_def mem.update_Inr
    by (auto intro!: shape_update_member simp: f(1) side)
qed

lemma tables_after_reads [simp]:
  "team_shape (w\<lparr>clock_pos := n\<rparr>) = team_shape w" "team_shape (w\<lparr>uuid_pos := n\<rparr>) = team_shape w"
  "team_shape (begin_tx w) = team_shape w" "team_shape (commit_audits x w) = team_shape w"
  by (simp_all add: team_shape_def)

lemma update_member_role_inner:
  assumes "team_shape w"
    and "bindM (active_member_for_update team uid) (\<lambda>m.
       bindM (mapErr MemberOwnerConflict (liftR (validate_member_change (tm_role m) (Some role)))) (\<lambda>_.
       mapErr MemberDatabase (update_member_row (tm_id m) (\<lambda>m. m\<lparr>tm_role := role\<rparr>)))) (begin_tx w) = (Inr q, v)"
  shows "team_shape v"
proof -
  obtain m where found: "find (membership team uid) (team_members (begin_tx w)) = Some m"
    and ok: "validate_member_change (tm_role m) (Some role) = Inr ()"
    and run: "update_member_row (tm_id m) (\<lambda>m. m\<lparr>tm_role := role\<rparr>) (begin_tx w) = (Inr q, v)"
    using assms(2) unfolding active_member_for_update_def by (auto simp: oper_Inr)
  have "role \<noteq> RoleOwner"
    using ok by (auto simp: validate_member_change_def validate_managed_member_role_def split: if_splits)
  with change_member_shape[OF _ found ok run] assms(1) show ?thesis by simp
qed

lemma remove_member_inner:
  assumes "team_shape w"
    and "bindM (active_member_for_update team uid) (\<lambda>m.
       bindM (mapErr MemberOwnerConflict (liftR (validate_member_change (tm_role m) None))) (\<lambda>_.
       bindM now_utc (\<lambda>now.
       bindM (mapErr MemberDatabase (update_member_row (tm_id m) (\<lambda>m. m\<lparr>tm_deleted_at := Some now\<rparr>))) (\<lambda>_.
       retM ())))) (begin_tx w) = (Inr q, v)"
  shows "team_shape v"
proof -
  obtain m now x where found: "find (membership team uid) (team_members (begin_tx w)) = Some m"
    and ok: "validate_member_change (tm_role m) None = Inr ()"
    and run: "update_member_row (tm_id m) (\<lambda>m. m\<lparr>tm_deleted_at := Some now\<rparr>)
      ((begin_tx w)\<lparr>clock_pos := Suc (clock_pos (begin_tx w))\<rparr>) = (Inr x, v)"
    using assms(2) unfolding active_member_for_update_def by (auto simp: oper_Inr)
  with change_member_shape[OF _ _ ok run] found assms(1) show ?thesis by simp
qed

lemma create_invitation_effect:
  assumes "create_invitation p w = (Inr i, v)"
  shows "ci_role p \<noteq> RoleOwner \<and> teams v = teams w \<and> team_members v = team_members w \<and>
    invitations_con (invitations v) = None \<and>
    ((\<exists>k now t. invitations v = update_where (\<lambda>x. ti_id x = k) (\<lambda>x. (reissued p now x)\<lparr>ti_updated_at := t\<rparr>) (invitations w)) \<or>
     (\<exists>j now. invitations v = invitations w @ [new_invitation p now j]))"
proof -
  have role: "ci_role p \<noteq> RoleOwner"
    using assms unfolding create_invitation_def
    by (auto simp: oper_Inr validate_managed_member_role_def split: if_splits)
  define existing where "existing = find (\<lambda>i. ti_team_id i = ci_team_id p \<and> ti_email i = ci_email p) (invitations w)"
  define now where "now = clock (begin_tx w) (clock_pos (begin_tx w))"
  obtain u where run: "(case existing of
             Some e \<Rightarrow> update_invitation_row (ti_id e) (reissued p now)
           | None \<Rightarrow> bindM now_v7 (\<lambda>i. insert_invitation_row (new_invitation p now i)))
        ((begin_tx w)\<lparr>clock_pos := Suc (clock_pos (begin_tx w))\<rparr>) = (Inr i, u)"
    and v: "v = commit_audits w u"
    using assms unfolding create_invitation_def existing_def now_def
    by (auto simp: bindM_Inr transaction_Inr getM_Inr failM_Inr mapErr_Inr liftR_Inr split: if_splits)
  show ?thesis
  proof (cases existing)
    case None
    with run role show ?thesis
      by (auto simp: v oper_Inr insert_invitation_row_def inv.insert_Inr)
  next
    case (Some e)
    with run role show ?thesis
      by (auto simp: v oper_Inr update_invitation_row_def inv.update_Inr) blast
  qed
qed

lemma create_invitation_shape:
  assumes "team_shape w" and "create_invitation p w = (Inr i, v)" and "ci_team_id p \<in> t_id ` set (teams w)"
  shows "team_shape v"
  using assms(1,3) create_invitation_effect[OF assms(2)]
  unfolding team_shape_def
  by (auto intro!: shape_update_invitation shape_add_invitation simp: reissued_def new_invitation_def)

definition closed :: "time \<Rightarrow> time \<Rightarrow> team_invitation \<Rightarrow> team_invitation" where
  "closed now touched i = i\<lparr>ti_status := InvAccepted, ti_accepted_at := Some now, ti_updated_at := touched\<rparr>"

lemma accept_effect:
  assumes "accept_invitation_with_connection h uid w = (Inr m, v)"
  shows "\<exists>i u now t. find (\<lambda>i. ti_token_hash i = Some h) (invitations w) = Some i \<and>
    ti_status i = InvPending \<and> get_user_by_id w uid = Some u \<and> same_text_ignoring_case (ti_email i) (us_email u) \<and>
    find (membership (ti_team_id i) uid) (team_members w) = None \<and>
    teams v = teams w \<and> team_members v = team_members w @ [m] \<and> team_members_con (team_members w @ [m]) = None \<and>
    tm_team_id m = ti_team_id i \<and> tm_user_id m = uid \<and> tm_role m = ti_role i \<and> live_member m \<and>
    invitations v = update_where (\<lambda>x. ti_id x = ti_id i) (closed now t) (invitations w) \<and>
    invitations_con (invitations v) = None"
proof -
  obtain i u where i: "find (\<lambda>i. ti_token_hash i = Some h) (invitations w) = Some i"
    and u: "get_user_by_id w uid = Some u"
    and ok: "validate_invitation_acceptance (ti_status i) (ti_expires_at i) (ti_email i) (us_email u)
      (clock w (clock_pos w)) = Inr ()"
    and no: "find (membership (ti_team_id i) uid) (team_members w) = None"
    and rest: "\<exists>w1 w2 x. w1 = w\<lparr>clock_pos := Suc (Suc (clock_pos w)), uuid_pos := Suc (uuid_pos w)\<rparr> \<and>
      insert_member_row \<lparr>tm_id = uuids w (uuid_pos w), tm_team_id = ti_team_id i, tm_user_id = uid,
        tm_role = ti_role i, tm_invited_by_user_id = ti_invited_by_user_id i,
        tm_joined_at = clock w (Suc (clock_pos w)), tm_deleted_at = None,
        tm_created_at = clock w (Suc (clock_pos w)), tm_updated_at = clock w (Suc (clock_pos w))\<rparr> w1 = (Inr m, w2) \<and>
      update_invitation_row (ti_id i) (\<lambda>x. x\<lparr>ti_status := InvAccepted, ti_accepted_at := Some (clock w (Suc (clock_pos w)))\<rparr>)
        w2 = (Inr x, v)"
    using assms unfolding accept_invitation_with_connection_def
    by (auto simp: bindM_Inr getM_Inr okOr_Inr liftR_Inr mapErr_Inr retM_Inr failM_Inr split: if_splits)
  obtain w1 w2 x where w1: "w1 = w\<lparr>clock_pos := Suc (Suc (clock_pos w)), uuid_pos := Suc (uuid_pos w)\<rparr>"
    and ins: "insert_member_row \<lparr>tm_id = uuids w (uuid_pos w), tm_team_id = ti_team_id i, tm_user_id = uid,
        tm_role = ti_role i, tm_invited_by_user_id = ti_invited_by_user_id i,
        tm_joined_at = clock w (Suc (clock_pos w)), tm_deleted_at = None,
        tm_created_at = clock w (Suc (clock_pos w)), tm_updated_at = clock w (Suc (clock_pos w))\<rparr> w1 = (Inr m, w2)"
    and upd: "update_invitation_row (ti_id i)
        (\<lambda>x. x\<lparr>ti_status := InvAccepted, ti_accepted_at := Some (clock w (Suc (clock_pos w)))\<rparr>) w2 = (Inr x, v)"
    using rest by blast
  have m: "team_members w2 = team_members w @ [m]" "team_members_con (team_members w @ [m]) = None"
    "teams w2 = teams w" "invitations w2 = invitations w"
    "tm_team_id m = ti_team_id i" "tm_user_id m = uid" "tm_role m = ti_role i" "live_member m"
    using ins by (auto simp: w1 insert_member_row_def mem.insert_Inr live_member_def)
  have "invitations v = update_where (\<lambda>x. ti_id x = ti_id i)
      (closed (clock w (Suc (clock_pos w))) (sql_now w2)) (invitations w)"
    "invitations_con (invitations v) = None" "teams v = teams w2" "team_members v = team_members w2"
    using upd m(4) by (auto simp: update_invitation_row_def inv.update_Inr closed_def[abs_def])
  moreover have "ti_status i = InvPending" "same_text_ignoring_case (ti_email i) (us_email u)"
    using ok by (auto simp: validate_invitation_acceptance_def split: if_splits)
  ultimately show ?thesis using i u no m by auto
qed

lemma accept_invitation_shape:
  assumes "team_shape w" and "accept_invitation_with_connection h uid w = (Inr m, v)"
  shows "team_shape v"
proof -
  obtain i now t where i: "find (\<lambda>i. ti_token_hash i = Some h) (invitations w) = Some i"
    and v: "teams v = teams w" "team_members v = team_members w @ [m]" "team_members_con (team_members w @ [m]) = None"
    "invitations v = update_where (\<lambda>x. ti_id x = ti_id i) (closed now t) (invitations w)"
    "invitations_con (invitations v) = None"
    and m: "tm_team_id m = ti_team_id i" "tm_role m = ti_role i"
    using accept_effect[OF assms(2)] by auto
  have "i \<in> set (invitations w)" using i by (auto dest: find_Some_iff_mem)
  then have "ti_role i \<noteq> RoleOwner" "ti_team_id i \<in> t_id ` set (teams w)"
    using assms(1) by (simp_all add: team_shape_def shape_def list_all_iff)
  with assms(1) v m show ?thesis
    unfolding team_shape_def by (auto intro!: shape_update_invitation shape_add_member simp: closed_def)
qed

lemma tx_shape:
  assumes "transaction m w = (r, v)" and "team_shape w" and "\<And>a u. m (begin_tx w) = (Inr a, u) \<Longrightarrow> team_shape u"
  shows "team_shape v"
proof (cases r)
  case (Inl e)
  with assms(1,2) show ?thesis by (auto dest!: failed_keeps simp: team_shape_def)
next
  case (Inr a)
  with assms show ?thesis by (auto simp: transaction_Inr)
qed

lemma update_team_shape:
  assumes "team_shape w" and "update_team team slug name w = (r, v)"
  shows "team_shape v"
proof (cases r)
  case (Inl e)
  with assms(2) have "v = w"
    by (auto simp: update_team_def bindM_def getM_def okOr_def failM_def retM_def mapErr_def update_team_row_def
        exec_update_def Let_def split: option.splits if_splits prod.splits sum.splits)
  with assms(1) show ?thesis by simp
next
  case (Inr t)
  then consider "v = w" | f where "update_team_row team f w = (Inr t, v)"
      "\<And>x. t_id (f x) = t_id x" "\<And>x. t_owner_user_id (f x) = t_owner_user_id x"
    using assms(2) by (auto simp: update_team_def oper_Inr split: if_splits)
  then show ?thesis
    using assms(1) by cases (auto intro: update_team_row_shape)
qed

lemma audit_team_tables:
  "create_platform_audit_event p w = (Inr x, v) \<Longrightarrow>
   teams v = teams w \<and> team_members v = team_members w \<and> invitations v = invitations w"
  using create_domain_audit_event_ok[of p "Some VisPlatform" "JObj []" w]
  by (auto simp: create_platform_audit_event_def)

lemma update_team_row_keeps:
  "(\<And>t. t_id (f t) = t_id t) \<Longrightarrow> (\<And>t. t_owner_user_id (f t) = t_owner_user_id t) \<Longrightarrow>
   keeps team_shape (update_team_row i f)"
  by (auto intro: keepsI update_team_row_shape)

lemma audit_keeps: "keeps team_shape (create_platform_audit_event p)"
  by (rule keepsI) (use audit_team_tables in \<open>force simp: team_shape_def\<close>)

lemma clock_keeps: "keeps team_shape now_utc"
  by (rule keepsI) auto

lemma tx_keeps: "keeps team_shape m \<Longrightarrow> transaction m w = (r, v) \<Longrightarrow> team_shape w \<Longrightarrow> team_shape v"
  by (erule tx_shape) (auto dest: keepsD)

lemma admin_team_ops_shape:
  "admin_remove_team actor team w = (r, v) \<Longrightarrow> team_shape w \<Longrightarrow> team_shape v"
  "admin_set_quota_plan actor team plan w = (q, v) \<Longrightarrow> team_shape w \<Longrightarrow> team_shape v"
  unfolding admin_remove_team_def admin_set_quota_plan_def Let_def soft_delete_team_def
  by (erule tx_keeps[rotated]; auto intro!: keeps_rules update_team_row_keeps audit_keeps clock_keeps)+

lemma invitation_fails:
  assumes "create_invitation p w = (Inl e, v)" and "team_shape w"
  shows "team_shape v"
proof (cases "validate_managed_member_role (ci_role p)")
  case (Inl x)
  with assms show ?thesis
    by (simp add: create_invitation_def bindM_def mapErr_def failM_def)
next
  case (Inr x)
  with assms(1) have "\<exists>m. transaction m w = ((Inl e, v) :: (invitation_error + team_invitation) \<times> world)"
    unfolding create_invitation_def by (auto simp: bindM_def mapErr_def retM_def)
  with assms(2) show ?thesis by (auto dest!: failed_keeps simp: team_shape_def)
qed

lemma team_step_shape: "team_step issued w v \<Longrightarrow> team_shape w \<Longrightarrow> team_shape v"
proof (induction rule: team_step.induct)
  case (created params w r v)
  show ?case
    by (rule tx_shape[OF created(1)[unfolded create_team_def] created(2)])
       (rule create_team_shape[rotated], assumption, simp add: created(2))
next
  case (registered params w t v)
  then show ?case by (blast intro: create_team_shape)
next
  case (renamed team slug name w r v)
  then show ?case by (blast intro: update_team_shape)
next
  case (deleted actor team w r v)
  then show ?case by (blast intro: admin_team_ops_shape(1))
next
  case (planned actor team plan w r v)
  then show ?case by (blast intro: admin_team_ops_shape(2))
next
  case (role_set team uid role w r v)
  show ?case
    using role_set(1) unfolding update_member_role_def
    by (rule tx_shape[OF _ role_set(2)]) (rule update_member_role_inner[OF role_set(2)])
next
  case (left team uid w r v)
  show ?case
    using left(1) unfolding remove_member_def
    by (rule tx_shape[OF _ left(2)]) (rule remove_member_inner[OF left(2)])
next
  case (invited invite w r v)
  then show ?case
    by (cases r) (auto intro: create_invitation_shape invitation_fails)
next
  case (accepted token uid w r v)
  show ?case
    by (rule tx_shape[OF accepted(1)[unfolded accept_invitation_def] accepted(2)])
       (rule accept_invitation_shape[rotated], assumption, simp add: accepted(2))
next
  case (elsewhere v w)
  then show ?case by (simp add: team_shape_def)
qed

lemma owner_role:
  assumes "team_shape w" and "t \<in> set (teams w)"
  shows "\<exists>m. owners (team_members w) (t_id t) = [m] \<and> t_owner_user_id t = Some (tm_user_id m) \<and>
    (\<forall>uid. member_role w (t_id t) uid = Some RoleOwner \<longleftrightarrow> uid = tm_user_id m)"
proof -
  obtain m where own: "owners (team_members w) (t_id t) = [m]" and id: "t_owner_user_id t = Some (tm_user_id m)"
    using assms by (auto simp: team_shape_def shape_def list_all_iff owned_iff)
  have mem: "m \<in> set (team_members w)" "membership (t_id t) (tm_user_id m) m" "tm_role m = RoleOwner"
    using own by (auto simp: owners_def membership_def live_member_def dest!: arg_cong[of _ _ set])
  have only: "x = m" if "x \<in> set (team_members w)" "membership (t_id t) uid x" "tm_role x = RoleOwner" for x uid
  proof -
    have "x \<in> set (owners (team_members w) (t_id t))"
      using that by (simp add: owners_def membership_def live_member_def)
    then show ?thesis by (simp add: own)
  qed
  have one: "x = y" if "x \<in> set (team_members w)" "y \<in> set (team_members w)" "membership (t_id t) uid x"
    "membership (t_id t) uid y" for x y uid
  proof -
    have "distinct (map (\<lambda>m. (tm_team_id m, tm_user_id m)) (filter live_member (team_members w)))"
      using assms(1) by (simp add: team_shape_def shape_def team_members_con_None)
    with that show ?thesis by (auto simp: distinct_map inj_on_def membership_def live_member_def)
  qed
  have "member_role w (t_id t) uid = Some RoleOwner \<longleftrightarrow> uid = tm_user_id m" for uid
  proof
    assume "member_role w (t_id t) uid = Some RoleOwner"
    then obtain x where x: "find (membership (t_id t) uid) (team_members w) = Some x" "tm_role x = RoleOwner"
      by (auto simp: member_role_def)
    from find_member[OF x(1)] only[of x uid] x(2) show "uid = tm_user_id m"
      by (auto simp: membership_def)
  next
    assume uid: "uid = tm_user_id m"
    obtain x where x: "find (membership (t_id t) uid) (team_members w) = Some x"
      using mem(1,2) uid by (cases "find (membership (t_id t) uid) (team_members w)")
        (auto simp: find_None_iff_ball)
    from find_member[OF x] have "x = m" using one[OF _ mem(1)] mem(2) uid by blast
    with x mem(3) show "member_role w (t_id t) uid = Some RoleOwner" by (simp add: member_role_def)
  qed
  with own id show ?thesis by blast
qed

text \<open>
  C39. Every team has exactly one owner, and it is the one its row names: starting from no teams, after any
  sequence of registering users with their personal teams, creating, renaming and deleting teams, inviting,
  accepting, changing roles and removing members, there is no team without an owner, none with two, and nobody else holds the owner's role.
\<close>

theorem every_team_has_its_owner:
  assumes "teams w = []" and "team_members w = []" and "invitations w = []"
    and "(team_step issued)\<^sup>*\<^sup>* w v" and "t \<in> set (teams v)"
  shows "\<exists>m. owners (team_members v) (t_id t) = [m] \<and> t_owner_user_id t = Some (tm_user_id m) \<and>
    (\<forall>uid. member_role v (t_id t) uid = Some RoleOwner \<longleftrightarrow> uid = tm_user_id m)"
proof -
  have "team_shape w"
    using assms(1-3) by (simp add: team_shape_def shape_def teams_con_def team_members_con_def invitations_con_def
        map_filter_def)
  with assms(4) have "team_shape v" by (induction rule: rtranclp_induct) (auto dest: team_step_shape)
  then show ?thesis using assms(5) by (rule owner_role)
qed

section \<open>An invitation admits one member\<close>

definition invitation_spent :: "string \<Rightarrow> world \<Rightarrow> bool" where
  "invitation_spent h w \<longleftrightarrow> (\<forall>i\<in>set (invitations w). ti_token_hash i = Some h \<longrightarrow> ti_status i \<noteq> InvPending)"

definition invitations_ok :: "world \<Rightarrow> bool" where
  "invitations_ok w \<longleftrightarrow> invitations_con (invitations w) = None"

definition same_invitations :: "world \<Rightarrow> world \<Rightarrow> bool" where
  "same_invitations w v \<longleftrightarrow> invitations v = invitations w"

interpretation si: run_relation same_invitations
  by unfold_locales (simp_all add: same_invitations_def)

lemma reads_same: "runs same_invitations now_utc" "runs same_invitations now_v7"
  by (auto simp: runs_def same_invitations_def now_utc_def now_v7_def)

lemma audit_same: "runs same_invitations (create_platform_audit_event p)"
  by (auto simp: runs_def same_invitations_def create_platform_audit_event_def create_domain_audit_event_def
      bindM_def now_v7_def now_utc_def getM_def persist_audit_def Let_def)

lemma tx_same: "runs same_invitations m \<Longrightarrow> runs same_invitations (transaction m)"
  by (rule runsI) (auto simp: transaction_def same_invitations_def split: prod.splits sum.splits dest!: runsD)

lemma rows_same:
  "runs same_invitations (insert_team t)" "runs same_invitations (update_team_row i f)"
  "runs same_invitations (insert_member_row m)" "runs same_invitations (update_member_row i g)"
  by (auto simp: runs_def same_invitations_def insert_team_def update_team_row_def insert_member_row_def
      update_member_row_def exec_insert_def exec_update_def Let_def split: option.splits)

lemmas same_rules = si.rules reads_same audit_same tx_same rows_same

lemma other_ops_same:
  "runs same_invitations (create_team params)"
  "runs same_invitations (create_team_with_connection params)"
  "runs same_invitations (update_team team slug name)"
  "runs same_invitations (admin_remove_team actor team)"
  "runs same_invitations (admin_set_quota_plan actor team plan)"
  "runs same_invitations (update_member_role team uid role)"
  "runs same_invitations (remove_member team uid)"
  unfolding create_team_def create_team_with_connection_def insert_team_member_def update_team_def
    admin_remove_team_def admin_set_quota_plan_def update_member_role_def remove_member_def
    active_member_for_update_def soft_delete_team_def Let_def
  by (intro same_rules; simp split: option.splits)+

lemma failed_invitation_same:
  "create_invitation p w = (Inl e, v) \<Longrightarrow> invitations v = invitations w"
  unfolding create_invitation_def
  by (auto simp: bindM_def mapErr_def liftR_def failM_def retM_def validate_managed_member_role_def transaction_Inl
      split: if_splits)

lemma find_token_unique:
  assumes "invitations_con is = None" and "i \<in> set is" and "j \<in> set is"
    and "ti_token_hash i = Some h" and "ti_token_hash j = Some h"
  shows "i = j"
proof -
  have "distinct (List.map_filter ti_token_hash is)" using assms(1) by (simp add: invitations_con_None)
  then show ?thesis using assms(2-5)
  proof (induction "is")
    case (Cons x xs)
    have there: "h \<in> set (List.map_filter ti_token_hash xs)" if "y \<in> set xs" "ti_token_hash y = Some h" for y
      using that by (force simp: List.map_filter_def)
    from Cons there show ?case
      by (cases "ti_token_hash x") (auto simp: map_filter_simps)
  qed simp
qed

lemmas other_kept = other_ops_same[THEN runsD, unfolded same_invitations_def]

lemma get_user_tx [simp]: "get_user_by_id (begin_tx w) uid = get_user_by_id w uid"
  by (simp add: get_user_by_id_def transaction_users)

lemma accepted_effect:
  assumes "accept_invitation h uid w = (Inr m, v)"
  shows "\<exists>i u now t. find (\<lambda>i. ti_token_hash i = Some h) (invitations w) = Some i \<and>
    ti_status i = InvPending \<and> get_user_by_id w uid = Some u \<and> same_text_ignoring_case (ti_email i) (us_email u) \<and>
    tm_team_id m = ti_team_id i \<and> tm_user_id m = uid \<and> tm_role m = ti_role i \<and>
    invitations v = update_where (\<lambda>x. ti_id x = ti_id i) (closed now t) (invitations w) \<and>
    invitations_con (invitations v) = None"
proof -
  obtain x where x: "accept_invitation_with_connection h uid (begin_tx w) = (Inr m, x)" "v = commit_audits w x"
    using assms unfolding accept_invitation_def transaction_Inr by blast
  from accept_effect[OF x(1)] show ?thesis unfolding x(2) by auto
qed

lemma accept_spends:
  assumes "invitations_ok w" and "accept_invitation h uid w = (Inr m, v)"
  shows "invitation_spent h v \<and> invitations_ok v"
proof -
  obtain i now t where i: "find (\<lambda>i. ti_token_hash i = Some h) (invitations w) = Some i"
    and v: "invitations v = update_where (\<lambda>x. ti_id x = ti_id i) (closed now t) (invitations w)"
    and con: "invitations_con (invitations v) = None"
    using accepted_effect[OF assms(2)] by blast
  have mem: "i \<in> set (invitations w)" "ti_token_hash i = Some h" using i by (auto dest: find_Some_iff_mem)
  have "x = i" if "x \<in> set (invitations w)" "ti_token_hash x = Some h" for x
    using find_token_unique[of "invitations w" x i h] assms(1) that mem by (simp add: invitations_ok_def)
  then have "invitation_spent h v"
    by (auto simp: invitation_spent_def v set_update_where closed_def)
  with con show ?thesis by (simp add: invitations_ok_def)
qed

lemma spent_not_accepted:
  assumes "invitation_spent h w"
  shows "accept_invitation h uid w \<noteq> (Inr m, v)"
proof
  assume "accept_invitation h uid w = (Inr m, v)"
  then obtain i where i: "find (\<lambda>i. ti_token_hash i = Some h) (invitations w) = Some i" and "ti_status i = InvPending"
    using accepted_effect by blast
  then show False using assms by (auto simp: invitation_spent_def dest: find_Some_iff_mem)
qed

lemma accept_keeps_spent:
  assumes "accept_invitation h' uid w = (r, v)" and "invitations_ok w"
  shows "invitations_ok v \<and> (invitation_spent h w \<longrightarrow> invitation_spent h v)"
proof (cases r)
  case (Inl e)
  then have "invitations v = invitations w"
    using assms(1) by (auto simp: accept_invitation_def transaction_Inl)
  with assms(2) show ?thesis by (simp add: invitations_ok_def invitation_spent_def)
next
  case (Inr m)
  then have "accept_invitation h' uid w = (Inr m, v)" using assms(1) by simp
  from accepted_effect[OF this]
  obtain i :: team_invitation and now t
    where v: "invitations v = update_where (\<lambda>x. ti_id x = ti_id i) (closed now t) (invitations w)"
    and con: "invitations_con (invitations v) = None" by blast
  from con show ?thesis by (auto simp: invitations_ok_def invitation_spent_def v set_update_where closed_def)
qed

lemma team_step_spent:
  assumes "team_step issued w v" and "h \<notin> issued" and "invitations_ok w"
  shows "invitations_ok v \<and> (invitation_spent h w \<longrightarrow> invitation_spent h v)"
  using assms(1)
proof cases
  case (invited invite r)
  show ?thesis
  proof (cases r)
    case (Inl e)
    with failed_invitation_same invited(1) have "invitations v = invitations w" by blast
    with assms(3) show ?thesis by (simp add: invitations_ok_def invitation_spent_def)
  next
    case (Inr i)
    with create_invitation_effect invited(1)
    have con: "invitations_con (invitations v) = None"
      and "(\<exists>k now t. invitations v = update_where (\<lambda>x. ti_id x = k) (\<lambda>x. (reissued invite now x)\<lparr>ti_updated_at := t\<rparr>) (invitations w)) \<or>
        (\<exists>j now. invitations v = invitations w @ [new_invitation invite now j])"
      by blast+
    moreover have "ci_token_hash invite \<noteq> h" using invited(3) assms(2) by blast
    ultimately have "invitation_spent h w \<longrightarrow> invitation_spent h v"
      by (auto simp: invitation_spent_def set_update_where reissued_def new_invitation_def)
    with con show ?thesis by (simp add: invitations_ok_def)
  qed
next
  case (accepted token uid r)
  then show ?thesis using accept_keeps_spent assms(3) by blast
qed (use assms(3) in \<open>auto simp: invitations_ok_def invitation_spent_def dest!: other_kept\<close>)

interpretation oi: one_time accept_invitation invitation_spent invitations_ok
  "\<lambda>h w v. \<exists>issued. h \<notin> issued \<and> team_step issued w v"
  by unfold_locales (use accept_spends spent_not_accepted team_step_spent in blast)+

text \<open>
  An invitation admits one member, and only the person it names. Whoever accepted it has the address it
  was sent to (up to case) and gets the role it offers, never the owner's; afterwards its token is refused,
  whatever happens to the teams, unless an invitation is issued with the same token again.
\<close>

theorem invitation_admits_one_member:
  assumes "team_shape w" and "accept_invitation h uid w = (Inr m, w1)"
    and "(team_step issued)\<^sup>*\<^sup>* w1 w2" and "h \<notin> issued"
  shows "(\<exists>i u. i \<in> set (invitations w) \<and> ti_token_hash i = Some h \<and> ti_status i = InvPending \<and>
      u \<in> set (users w) \<and> us_id u = uid \<and> same_text_ignoring_case (ti_email i) (us_email u) \<and>
      tm_team_id m = ti_team_id i \<and> tm_user_id m = uid \<and> tm_role m = ti_role i \<and> tm_role m \<noteq> RoleOwner) \<and>
    (\<exists>e. fst (accept_invitation h uid' w2) = Inl e)"
proof
  obtain i u where "find (\<lambda>i. ti_token_hash i = Some h) (invitations w) = Some i" "ti_status i = InvPending"
    "get_user_by_id w uid = Some u" "same_text_ignoring_case (ti_email i) (us_email u)"
    "tm_team_id m = ti_team_id i" "tm_user_id m = uid" "tm_role m = ti_role i"
    using accepted_effect[OF assms(2)] by blast
  moreover from this have "i \<in> set (invitations w)" "ti_token_hash i = Some h" by (auto dest: find_Some_iff_mem)
  moreover from this have "ti_role i \<noteq> RoleOwner"
    using assms(1) by (simp add: team_shape_def shape_def list_all_iff)
  ultimately show "\<exists>i u. i \<in> set (invitations w) \<and> ti_token_hash i = Some h \<and> ti_status i = InvPending \<and>
      u \<in> set (users w) \<and> us_id u = uid \<and> same_text_ignoring_case (ti_email i) (us_email u) \<and>
      tm_team_id m = ti_team_id i \<and> tm_user_id m = uid \<and> tm_role m = ti_role i \<and> tm_role m \<noteq> RoleOwner"
    using get_user_by_id_Some[of w uid u] by auto
  have ok: "invitations_ok w" using assms(1) by (simp add: invitations_ok_def team_shape_def shape_def)
  have "(\<lambda>w v. \<exists>issued. h \<notin> issued \<and> team_step issued w v)\<^sup>*\<^sup>* w1 w2"
    using assms(3) by (rule rtranclp_mono[THEN predicate2D, rotated]) (use assms(4) in blast)
  then show "\<exists>e. fst (accept_invitation h uid' w2) = Inl e"
    by (rule oi.redeemed_once[OF ok assms(2)])
qed


section \<open>A team with an owner and a member\<close>

definition member_user :: "uuid \<Rightarrow> string \<Rightarrow> user" where
  "member_user i email = sample_user i email PlatformUser"

definition people :: world where
  "people = (sample_world [] [])\<lparr>users := [member_user 1 ''ann@example.org'', member_user 2 ''bob@example.org'']\<rparr>"

definition new_team :: create_team_params where
  "new_team = \<lparr>ct_slug = ''crew'', ct_name = ''Crew'', ct_kind = SharedTeam, ct_owner_user_id = 1, ct_group_id = None\<rparr>"

definition founded :: world where
  "founded = snd (create_team new_team people)"

definition invite_bob :: create_invitation_params where
  "invite_bob =
     \<lparr>ci_team_id = 1000, ci_email = ''bob@example.org'', ci_role = RoleAdmin, ci_invited_by_user_id = 1,
      ci_token_hash = ''hash'', ci_signup_policy = SignupClosed\<rparr>"

definition bob_invited :: world where
  "bob_invited = snd (create_invitation invite_bob founded)"

definition bob_joined :: world where
  "bob_joined = snd (accept_invitation ''hash'' 2 bob_invited)"

lemma bob_history: "(team_step {''hash''})\<^sup>*\<^sup>* people bob_invited"
proof -
  have "team_step {''hash''} people founded"
    unfolding founded_def by (rule team_step.created[of new_team _ "fst (create_team new_team people)"]) simp
  moreover have "ci_team_id invite_bob \<in> t_id ` set (teams founded)" by code_simp
  then have "team_step {''hash''} founded bob_invited"
    unfolding bob_invited_def
    by (intro team_step.invited[of invite_bob _ "fst (create_invitation invite_bob founded)"])
      (simp_all add: invite_bob_def)
  ultimately show ?thesis by simp
qed

lemma bob_accepts: "\<exists>m. accept_invitation ''hash'' 2 bob_invited = (Inr m, bob_joined)"
proof -
  have "\<not> isl (fst (accept_invitation ''hash'' 2 bob_invited))" by code_simp
  from sum_run[of "accept_invitation ''hash'' 2", OF this] show ?thesis by (auto simp: bob_joined_def)
qed

theorem every_team_has_its_owner_witness:
  "\<exists>t m. t \<in> set (teams bob_joined) \<and> owners (team_members bob_joined) (t_id t) = [m] \<and>
     t_owner_user_id t = Some (tm_user_id m) \<and> member_role bob_joined (t_id t) 2 = Some RoleAdmin \<and>
     (\<forall>uid. member_role bob_joined (t_id t) uid = Some RoleOwner \<longleftrightarrow> uid = tm_user_id m)"
proof -
  have none: "teams people = []" "team_members people = []" "invitations people = []" by code_simp+
  have run: "(team_step {''hash''})\<^sup>*\<^sup>* people bob_joined"
    using bob_history bob_accepts by (meson rtranclp.rtrancl_into_rtrancl team_step.accepted)
  have "list_ex (\<lambda>t. member_role bob_joined (t_id t) 2 = Some RoleAdmin) (teams bob_joined)" by code_simp
  then obtain t where t: "t \<in> set (teams bob_joined)" "member_role bob_joined (t_id t) 2 = Some RoleAdmin"
    by (auto simp: list_ex_iff)
  from every_team_has_its_owner[OF none run t(1)] t show ?thesis by blast
qed

theorem invitation_admits_one_member_witness:
  "\<exists>m. accept_invitation ''hash'' 2 bob_invited = (Inr m, bob_joined) \<and> tm_user_id m = 2 \<and>
     (\<exists>e. fst (accept_invitation ''hash'' 1 bob_joined) = Inl e)"
proof -
  have shape: "team_shape bob_invited" by code_simp
  obtain m where m: "accept_invitation ''hash'' 2 bob_invited = (Inr m, bob_joined)" using bob_accepts by blast
  from invitation_admits_one_member[OF shape m rtranclp.rtrancl_refl[of "team_step {}"], of 1] m
  show ?thesis by blast
qed

section \<open>The counter of members\<close>

definition cache_entries :: "'k cache_store \<Rightarrow> 'k entries" where
  "cache_entries s = (case s of MokaStore c \<Rightarrow> c | RedisStore c \<Rightarrow> c)"

lemma on_db_cache: "on_db m s = (r, s') \<Longrightarrow> sv_cache s' = sv_cache s"
  by (auto simp: on_db_def split: prod.splits)

lemma parse_zero: "parse_i64 ''0'' = Some 0" and show_zero: "show_i64 0 = ''0''"
  by code_simp+

lemma adjust_missing_counter:
  assumes "cache_entries s k = None" and "amount \<le> 0" and "- (2 ^ 63) \<le> amount"
  shows "\<exists>s'. cache_adjust_counter now k amount s = (Inr 0, s') \<and> cache_entries s' = (cache_entries s)(k \<mapsto> (''0'', None))"
proof (cases s)
  case (MokaStore c)
  have "wrap_i64 amount = amount" using assms(2,3) by (simp add: wrap_i64_def)
  moreover have "extract_value ''0'' = None" by code_simp
  ultimately show ?thesis using assms MokaStore
    by (simp add: cache_entries_def cache_adjust_counter_def on_store_def moka_adjust_counter_def
        read_counter_entry_def entry_get_def write_counter_def moka_insert_def expiry_for_value_def show_zero)
next
  case (RedisStore c)
  have "lua_number amount \<le> 0" using lua_sign(1)[of amount] assms(2) by linarith
  then have "lua_number (lua_number amount) \<le> 0" using lua_sign(1)[of "lua_number amount"] by linarith
  with assms RedisStore lua_exact[of 0] show ?thesis
    by (simp add: cache_entries_def cache_adjust_counter_def on_store_def redis_adjust_counter_def
        redis_number_def redis_integer_def lua_add_def entry_get_def entry_deadline_def redis_put_def show_zero max_def)
qed

text \<open>
  Removing a member while the cache has no counter (it was lost, or expired after thirty days): the counter
  comes back as zero, whatever members remain, and without a deadline, so it is never seeded again.
\<close>

theorem removal_resets_lost_counter:
  assumes "cache_entries (sv_cache s) (counter_key cal 0 team Members) = None"
    and "request_remove_member cal actor team uid s = (Inr (), s')"
  shows "cache_entries (sv_cache s') (counter_key cal 0 team Members) = Some (''0'', None)"
proof -
  obtain s1 where s1: "sv_cache s1 = sv_cache s"
    and rel: "release_usage cal ''teams.members.remove.quota_release'' team one_member ''team_member'' (Some uid) s1 = (Inr (), s')"
    using assms(2) unfolding request_remove_member_def bindM_Inr mapErr_Inr liftR_Inr
    by (auto dest!: on_db_cache)
  obtain s2 n s3 where s2: "sv_cache s2 = sv_cache s1"
    and adj: "on_cache (\<lambda>now. cache_adjust_counter now (counter_key cal 0 team Members) (- 1)) s2 = (Inr n, s3)"
    and s': "sv_cache s' = sv_cache s3"
    using rel unfolding release_usage_def one_member_def forM.simps bindM_Inr mapErr_Inr counter_keyM_def
    by (auto simp: retM_def dest!: on_db_cache)
  obtain now c where "cache_adjust_counter now (counter_key cal 0 team Members) (- 1) (sv_cache s2) = (Inr n, c)"
    and "sv_cache s3 = c"
    using adj by (auto simp: on_cache_def split: prod.splits sum.splits)
  with adjust_missing_counter[of "sv_cache s2" "counter_key cal 0 team Members" "- 1" now] assms(1) s1 s2 s'
  show ?thesis by auto
qed

end
