(* ===== verification/AuthPolicy.thy ===== *)
theory AuthPolicy
  imports Store Text
begin

text \<open>
  The password and multi-factor policies (\<open>domain/authentication.rs\<close>): what a policy may say, what it
  demands of a password, the password an administrator's reset generates, and the factors a user must
  have enrolled. Passwords are code points. The Unicode tables behind \<open>char::is_lowercase\<close>,
  \<open>is_uppercase\<close> and \<open>is_alphanumeric\<close> are a parameter; what the theorems use of them is their documented
  value on ASCII. The tokens that fill a generated password are the answers of a random source.
\<close>

section \<open>Passwords\<close>

record char_tables =
  is_lowercase :: "nat \<Rightarrow> bool"
  is_uppercase :: "nat \<Rightarrow> bool"
  is_alphanumeric :: "nat \<Rightarrow> bool"

definition ascii_tables :: "char_tables \<Rightarrow> bool" where
  "ascii_tables ct \<longleftrightarrow>
     (\<forall>c<128. (is_lowercase ct c \<longleftrightarrow> is_ascii_lower c) \<and> (is_uppercase ct c \<longleftrightarrow> is_ascii_upper c) \<and>
       (is_alphanumeric ct c \<longleftrightarrow> is_ascii_alnum c))"

record password_policy =
  min_length :: nat
  max_length :: nat
  require_lowercase :: bool
  require_uppercase :: bool
  require_number :: bool
  require_symbol :: bool
  history_count :: nat

definition default_password_policy :: password_policy where
  "default_password_policy =
     \<lparr>min_length = 8, max_length = 1024, require_lowercase = False, require_uppercase = False,
      require_number = False, require_symbol = False, history_count = 0\<rparr>"

definition validate_config :: "password_policy \<Rightarrow> string + unit" where
  "validate_config p =
     (if min_length p < 8 \<or> 128 < min_length p
      then Inl ''password minimum length must be between 8 and 128''
      else if max_length p < min_length p \<or> 1024 < max_length p
      then Inl ''password maximum length must be between the minimum and 1024''
      else if 20 < history_count p then Inl ''password history count must not exceed 20''
      else Inr ())"

definition validate_password :: "char_tables \<Rightarrow> password_policy \<Rightarrow> ustr \<Rightarrow> string + unit" where
  "validate_password ct p password =
     (case validate_config p of
        Inl e \<Rightarrow> Inl e
      | Inr _ \<Rightarrow>
          if length password < min_length p \<or> max_length p < utf8_len password
          then Inl ''password does not satisfy the configured length policy''
          else if require_lowercase p \<and> \<not> list_ex (is_lowercase ct) password
          then Inl ''password must contain a lowercase letter''
          else if require_uppercase p \<and> \<not> list_ex (is_uppercase ct) password
          then Inl ''password must contain an uppercase letter''
          else if require_number p \<and> \<not> list_ex is_ascii_digit password
          then Inl ''password must contain a number''
          else if require_symbol p \<and> \<not> list_ex (\<lambda>c. \<not> is_alphanumeric ct c) password
          then Inl ''password must contain a symbol''
          else Inr ())"

text \<open>
  The loop that fills a generated password with tokens: it ends only if the tokens that come are not
  all empty, so it is partial; \<open>tokens i\<close> is the i-th answer of the generator.
\<close>

partial_function (option) fill_password :: "(nat \<Rightarrow> ustr) \<Rightarrow> nat \<Rightarrow> nat \<Rightarrow> ustr \<Rightarrow> ustr option" where
  "fill_password tokens i target password =
     (if utf8_len password < target
      then fill_password tokens (Suc i) target (password @ take (target - utf8_len password) (tokens i))
      else Some password)"

declare fill_password.simps [code]

definition password_seed :: "password_policy \<Rightarrow> ustr" where
  "password_seed p =
     (if require_lowercase p then [97] else []) @ (if require_uppercase p then [65] else []) @
     (if require_number p then [49] else []) @ (if require_symbol p then [33] else [])"

definition generate_password :: "(nat \<Rightarrow> ustr) \<Rightarrow> password_policy \<Rightarrow> (string + ustr) option" where
  "generate_password tokens p =
     (case validate_config p of
        Inl e \<Rightarrow> Some (Inl e)
      | Inr _ \<Rightarrow>
          map_option Inr (fill_password tokens 0 (min (max (min_length p) 24) (max_length p)) (password_seed p)))"

text \<open>A token is ASCII text that is not empty (43 characters of base64).\<close>

definition token_source :: "(nat \<Rightarrow> ustr) \<Rightarrow> bool" where
  "token_source tokens \<longleftrightarrow> (\<forall>i. tokens i \<noteq> [] \<and> list_all (\<lambda>c. c < 128) (tokens i))"

lemma fill_password_returns:
  assumes "token_source tokens" and "list_all (\<lambda>c. c < 128) password" and "utf8_len password \<le> target"
  shows "\<exists>q. fill_password tokens i target password = Some (password @ q) \<and>
    list_all (\<lambda>c. c < 128) q \<and> utf8_len (password @ q) = target"
  using assms(2,3)
proof (induction "target - utf8_len password" arbitrary: i password rule: less_induct)
  case less
  show ?case
  proof (cases "utf8_len password < target")
    case False
    with less.prems have "fill_password tokens i target password = Some (password @ [])"
      by (subst fill_password.simps) simp
    moreover have "utf8_len (password @ []) = target" using False less.prems(2) by simp
    ultimately show ?thesis by (metis list.pred_inject(1))
  next
    case True
    let ?q = "take (target - utf8_len password) (tokens i)"
    have tok: "tokens i \<noteq> []" "list_all (\<lambda>c. c < 128) (tokens i)"
      using assms(1) by (simp_all add: token_source_def)
    then have q: "list_all (\<lambda>c. c < 128) ?q"
      by (auto simp: list_all_iff dest: in_set_takeD)
    have lens: "utf8_len ?q = length ?q" "utf8_len (password @ ?q) = utf8_len password + length ?q"
      using utf8_len_ascii[of ?q] q unfolding utf8_len_simps list_all_iff by simp_all
    have "0 < length ?q" using tok True by simp
    moreover have "length ?q \<le> target - utf8_len password" by simp
    ultimately have "target - utf8_len (password @ ?q) < target - utf8_len password"
      and "utf8_len (password @ ?q) \<le> target"
      using True lens by linarith+
    then obtain r where r: "fill_password tokens (Suc i) target (password @ ?q) = Some ((password @ ?q) @ r)"
      "list_all (\<lambda>c. c < 128) r" "utf8_len ((password @ ?q) @ r) = target"
      using less.hyps[of "password @ ?q" "Suc i"] less.prems q by auto
    have "fill_password tokens i target password = Some (password @ (?q @ r))"
      using r(1) True by (subst fill_password.simps) simp
    moreover have "list_all (\<lambda>c. c < 128) (?q @ r)" using q r(2) by simp
    moreover have "utf8_len (password @ (?q @ r)) = target" using r(3) by simp
    ultimately show ?thesis by blast
  qed
qed

lemma password_seed_ascii: "list_all (\<lambda>c. c < 128) (password_seed p)"
  by (simp add: password_seed_def)

lemma password_seed_len: "utf8_len (password_seed p) = length (password_seed p)"
  using password_seed_ascii[of p] by (simp add: utf8_len_ascii list_all_iff)

lemma password_seed_short: "length (password_seed p) \<le> 4"
  by (simp add: password_seed_def)

text \<open>
  The password generated for a reset always comes into being, has the length the policy asks for
  (24, or what the policy's bounds leave of it) and is accepted by the same policy.
\<close>

theorem generated_password_accepted:
  assumes "validate_config p = Inr ()" and "token_source tokens" and "ascii_tables ct"
  shows "\<exists>w. generate_password tokens p = Some (Inr w) \<and> validate_password ct p w = Inr () \<and>
    length w = min (max (min_length p) 24) (max_length p)"
proof -
  let ?target = "min (max (min_length p) 24) (max_length p)"
  have bounds: "8 \<le> min_length p" "min_length p \<le> max_length p" "max_length p \<le> 1024"
    using assms(1) by (auto simp: validate_config_def split: if_splits)
  then have "utf8_len (password_seed p) \<le> ?target"
    using password_seed_short[of p] by (simp add: password_seed_len)
  then obtain q where fill: "fill_password tokens 0 ?target (password_seed p) = Some (password_seed p @ q)"
    and q: "list_all (\<lambda>c. c < 128) q" and len: "utf8_len (password_seed p @ q) = ?target"
    using fill_password_returns[OF assms(2) password_seed_ascii] by blast
  let ?w = "password_seed p @ q"
  have chars: "length ?w = ?target"
    using len q password_seed_ascii[of p] by (subst (asm) utf8_len_ascii) (auto simp: list_all_iff)
  have "validate_password ct p ?w = Inr ()"
    using assms(1,3) chars len bounds
    by (auto simp: validate_password_def password_seed_def ascii_tables_def is_ascii_lower_def
        is_ascii_upper_def is_ascii_digit_def is_ascii_alnum_def)
  with fill chars assms(1) show ?thesis by (simp add: generate_password_def)
qed


definition strict_policy :: password_policy where
  "strict_policy =
     \<lparr>min_length = 12, max_length = 64, require_lowercase = True, require_uppercase = True,
      require_number = True, require_symbol = True, history_count = 5\<rparr>"

definition ascii_chars :: char_tables where
  "ascii_chars =
     \<lparr>is_lowercase = is_ascii_lower, is_uppercase = is_ascii_upper, is_alphanumeric = is_ascii_alnum\<rparr>"

theorem generated_password_accepted_witness:
  "\<exists>w. generate_password (\<lambda>i. pts ''Zm9vYmFy'') strict_policy = Some (Inr w) \<and>
     validate_password ascii_chars strict_policy w = Inr () \<and> length w = 24"
proof -
  have ok: "validate_config strict_policy = Inr ()" by code_simp
  have tokens: "token_source (\<lambda>i. pts ''Zm9vYmFy'')" by (simp add: token_source_def pts_def)
  have tables: "ascii_tables ascii_chars" by (simp add: ascii_tables_def ascii_chars_def)
  have "min (max (min_length strict_policy) 24) (max_length strict_policy) = 24" by code_simp
  with generated_password_accepted[OF ok tokens tables] show ?thesis by simp
qed

section \<open>Multi-factor policies\<close>

fun mfa_kind_str :: "mfa_factor_kind \<Rightarrow> string" where
  "mfa_kind_str FactorTotp = ''totp''"
| "mfa_kind_str FactorEmail = ''email''"

definition mfa_kind_parse :: "string \<Rightarrow> mfa_factor_kind option" where
  "mfa_kind_parse v =
     (if v = ''totp'' then Some FactorTotp else if v = ''email'' then Some FactorEmail else None)"

datatype mfa_enforcement = EnforceNone | EnforceAdmins | EnforceAll

record mfa_policy =
  mp_allowed :: "string list"
  mp_enforcement :: mfa_enforcement
  mp_minimum :: nat
  mp_required :: "string list"

definition default_mfa_policy :: mfa_policy where
  "default_mfa_policy = \<lparr>mp_allowed = [], mp_enforcement = EnforceNone, mp_minimum = 0, mp_required = []\<rparr>"

record user_mfa_policy =
  up_inherit :: bool
  up_minimum :: nat
  up_required :: "string list"

definition default_user_mfa_policy :: user_mfa_policy where
  "default_user_mfa_policy = \<lparr>up_inherit = True, up_minimum = 0, up_required = []\<rparr>"

definition unknown_factor :: "string list \<Rightarrow> string \<Rightarrow> bool" where
  "unknown_factor allowed f \<longleftrightarrow> mfa_kind_parse f = None \<or> f \<notin> set allowed"

definition validate_user_mfa :: "user_mfa_policy \<Rightarrow> mfa_policy \<Rightarrow> string + unit" where
  "validate_user_mfa u p =
     (if up_inherit u
      then (if up_minimum u \<noteq> 0 \<or> up_required u \<noteq> []
            then Inl ''inherited user MFA policy cannot define custom requirements'' else Inr ())
      else if length (mp_allowed p) < up_minimum u
      then Inl ''user minimum MFA factors cannot exceed the enabled methods''
      else if length (mp_allowed p) < length (up_required u)
      then Inl ''user required MFA factors cannot exceed the enabled methods''
      else if list_ex (unknown_factor (mp_allowed p)) (up_required u)
      then Inl ''user required MFA factors must be enabled methods''
      else if \<not> distinct (up_required u)
      then Inl ''user required MFA factors must not contain duplicates''
      else Inr ())"

record mfa_requirements =
  rq_minimum_factors :: nat
  rq_required_factors :: "mfa_factor_kind list"

definition is_enforced :: "mfa_requirements \<Rightarrow> bool" where
  "is_enforced r \<longleftrightarrow> 0 < rq_minimum_factors r \<or> rq_required_factors r \<noteq> []"

definition verified_kinds :: "mfa_factor list \<Rightarrow> mfa_factor_kind list" where
  "verified_kinds fs =
     foldl (\<lambda>kinds f. if mf_kind f \<in> set kinds then kinds else kinds @ [mf_kind f]) []
       (filter (\<lambda>f. mf_verified_at f \<noteq> None) fs)"

definition met_by :: "mfa_requirements \<Rightarrow> mfa_factor list \<Rightarrow> bool" where
  "met_by r fs \<longleftrightarrow>
     (let kinds = verified_kinds fs
      in list_all (\<lambda>k. k \<in> set kinds) (rq_required_factors r) \<and> rq_minimum_factors r \<le> length kinds)"

definition validate_mfa :: "mfa_policy \<Rightarrow> bool \<Rightarrow> string + unit" where
  "validate_mfa p mail_enabled =
     (if 2 < length (mp_allowed p) then Inl ''allowed MFA factors must not contain duplicates''
      else if mp_allowed p = [] \<and> mp_enforcement p \<noteq> EnforceNone
      then Inl ''enforced MFA requires at least one allowed factor''
      else if mp_enforcement p \<noteq> EnforceNone \<and> mp_minimum p = 0 \<and> mp_required p = []
      then Inl ''enforced MFA requires a minimum or required method''
      else if list_ex (\<lambda>f. mfa_kind_parse f = None) (mp_allowed p)
      then Inl ''allowed MFA factors must be totp or email''
      else if \<not> distinct (mp_allowed p) then Inl ''allowed MFA factors must not contain duplicates''
      else if ''email'' \<in> set (mp_allowed p) \<and> \<not> mail_enabled
      then Inl ''email MFA requires an enabled mail transport''
      else if length (mp_allowed p) < mp_minimum p
      then Inl ''minimum MFA factors cannot exceed the enabled methods''
      else if length (mp_allowed p) < length (mp_required p)
      then Inl ''required MFA factors cannot exceed the enabled methods''
      else if list_ex (unknown_factor (mp_allowed p)) (mp_required p)
      then Inl ''required MFA factors must be enabled methods''
      else if \<not> distinct (mp_required p) then Inl ''required MFA factors must not contain duplicates''
      else Inr ())"

definition allows :: "mfa_policy \<Rightarrow> mfa_factor_kind \<Rightarrow> bool" where
  "allows p k \<longleftrightarrow> mfa_kind_str k \<in> set (mp_allowed p)"

definition platform_applies :: "mfa_policy \<Rightarrow> platform_role \<Rightarrow> bool" where
  "platform_applies p role =
     (case mp_enforcement p of
        EnforceNone \<Rightarrow> False | EnforceAdmins \<Rightarrow> role = PlatformAdministrator | EnforceAll \<Rightarrow> True)"

definition add_required :: "mfa_factor_kind list \<Rightarrow> string \<Rightarrow> mfa_factor_kind list" where
  "add_required kinds f =
     (case mfa_kind_parse f of
        Some k \<Rightarrow> if k \<in> set kinds then kinds else kinds @ [k]
      | None \<Rightarrow> kinds)"

definition requirements_for :: "mfa_policy \<Rightarrow> user_mfa_policy \<Rightarrow> platform_role \<Rightarrow> mfa_requirements" where
  "requirements_for p u role =
     (let applies = platform_applies p role;
          minimum = (if applies then mp_minimum p else 0);
          required = List.map_filter mfa_kind_parse (if applies then mp_required p else []);
          (minimum, required) =
            (if up_inherit u then (minimum, required)
             else (max minimum (up_minimum u), foldl add_required required (up_required u)))
      in \<lparr>rq_minimum_factors = max minimum (length required), rq_required_factors = required\<rparr>)"

lemma mfa_kind_parse_str [simp]: "mfa_kind_parse (mfa_kind_str k) = Some k"
  by (cases k) (simp_all add: mfa_kind_parse_def)

lemma mfa_kind_parse_Some: "mfa_kind_parse v = Some k \<longleftrightarrow> v = mfa_kind_str k"
  by (cases k) (auto simp: mfa_kind_parse_def)

lemma mfa_kind_str_inject [simp]: "mfa_kind_str j = mfa_kind_str k \<longleftrightarrow> j = k"
  by (cases j; cases k) simp_all

lemma push_new_set:
  "set (foldl (\<lambda>kinds f. if g f \<in> set kinds then kinds else kinds @ [g f]) ks fs) = set ks \<union> g ` set fs"
  by (induction fs arbitrary: ks) auto

lemma push_new_distinct:
  "distinct ks \<Longrightarrow> distinct (foldl (\<lambda>kinds f. if g f \<in> set kinds then kinds else kinds @ [g f]) ks fs)"
  by (induction fs arbitrary: ks) auto

lemma verified_kinds_set: "set (verified_kinds fs) = mf_kind ` {f \<in> set fs. mf_verified_at f \<noteq> None}"
  by (simp add: verified_kinds_def push_new_set)

lemma verified_kinds_distinct: "distinct (verified_kinds fs)"
  by (simp add: verified_kinds_def push_new_distinct)

lemma add_required_fold:
  "set (foldl add_required ks fs) = set ks \<union> {k. mfa_kind_str k \<in> set fs}"
  "distinct ks \<Longrightarrow> distinct (foldl add_required ks fs)"
  by (induction fs arbitrary: ks) (auto simp: add_required_def mfa_kind_parse_Some split: option.splits)

lemma add_required_Nil: "foldl add_required ks fs = [] \<Longrightarrow> ks = []"
  using add_required_fold(1)[of ks fs] by simp

lemma map_filter_kinds:
  "set (List.map_filter mfa_kind_parse fs) = {k. mfa_kind_str k \<in> set fs}"
  "distinct fs \<Longrightarrow> distinct (List.map_filter mfa_kind_parse fs)"
  by (induction fs) (auto simp: map_filter_simps mfa_kind_parse_Some split: option.splits)


text \<open>The requirements, whichever policies they come from, ask for at most the enabled methods.\<close>

lemma requirements_within:
  assumes "validate_mfa p mail = Inr ()" and "validate_user_mfa u p = Inr ()"
  shows "\<forall>k\<in>set (rq_required_factors (requirements_for p u role)). mfa_kind_str k \<in> set (mp_allowed p)"
    and "distinct (rq_required_factors (requirements_for p u role))"
    and "rq_minimum_factors (requirements_for p u role) \<le>
      max (length (mp_allowed p)) (length (rq_required_factors (requirements_for p u role)))"
proof -
  have p: "mp_minimum p \<le> length (mp_allowed p)" "distinct (mp_required p)" "set (mp_required p) \<subseteq> set (mp_allowed p)"
    using assms(1) by (auto simp: validate_mfa_def unknown_factor_def list_ex_iff split: if_splits)
  have u: "up_inherit u \<or> (up_minimum u \<le> length (mp_allowed p) \<and> set (up_required u) \<subseteq> set (mp_allowed p))"
    using assms(2) by (auto simp: validate_user_mfa_def unknown_factor_def list_ex_iff split: if_splits)
  note rf = requirements_for_def Let_def map_filter_kinds add_required_fold
  show "\<forall>k\<in>set (rq_required_factors (requirements_for p u role)). mfa_kind_str k \<in> set (mp_allowed p)"
    using p(3) u by (auto simp: rf split: if_splits)
  show "distinct (rq_required_factors (requirements_for p u role))"
    using p(2) by (simp add: rf map_filter_simps)
  show "rq_minimum_factors (requirements_for p u role) \<le>
      max (length (mp_allowed p)) (length (rq_required_factors (requirements_for p u role)))"
    using p(1) u by (auto simp: rf)
qed

lemma kinds_cover:
  assumes "list_all (\<lambda>f. mfa_kind_parse f \<noteq> None) fs" and "distinct fs"
  shows "length (List.map_filter mfa_kind_parse fs) = length fs"
  using assms(1) by (induction fs) (auto simp: map_filter_simps)

text \<open>
  A policy that validates can be met, and one that is enforced cannot be met by nothing: whatever the
  platform and the user's own policy require, a user who has verified every enabled method meets it, and a
  user without a verified method meets it only if nothing is enforced for them.
\<close>

theorem valid_policies_can_be_met:
  assumes "validate_mfa p mail = Inr ()" and "validate_user_mfa u p = Inr ()"
  shows "(\<forall>fs. (\<forall>k. allows p k \<longrightarrow> k \<in> set (verified_kinds fs)) \<longrightarrow> met_by (requirements_for p u role) fs) \<and>
    (met_by (requirements_for p u role) [] \<longleftrightarrow> \<not> is_enforced (requirements_for p u role)) \<and>
    (platform_applies p role \<longrightarrow> is_enforced (requirements_for p u role))"
proof (intro conjI allI impI)
  fix fs
  assume all: "\<forall>k. allows p k \<longrightarrow> k \<in> set (verified_kinds fs)"
  let ?r = "requirements_for p u role"
  note r = requirements_within[OF assms, of role]
  have p: "list_all (\<lambda>f. mfa_kind_parse f \<noteq> None) (mp_allowed p)" "distinct (mp_allowed p)"
    using assms(1) by (auto simp: validate_mfa_def list_all_iff list_ex_iff split: if_splits)
  have "length (mp_allowed p) = card (set (List.map_filter mfa_kind_parse (mp_allowed p)))"
    using kinds_cover[OF p] distinct_card[OF map_filter_kinds(2)[OF p(2)]] by simp
  also have "\<dots> \<le> card (set (verified_kinds fs))"
    using all by (intro card_mono) (auto simp: map_filter_kinds(1) allows_def)
  finally have kinds: "length (mp_allowed p) \<le> length (verified_kinds fs)"
    by (simp add: distinct_card[OF verified_kinds_distinct])
  have req: "set (rq_required_factors ?r) \<subseteq> set (verified_kinds fs)"
    using r(1) all by (auto simp: allows_def)
  then have "length (rq_required_factors ?r) \<le> length (verified_kinds fs)"
    using card_mono[OF _ req] by (simp add: distinct_card[OF verified_kinds_distinct] distinct_card[OF r(2)])
  with kinds r(3) req show "met_by ?r fs"
    by (auto simp: met_by_def Let_def list_all_iff)
next
  show "met_by (requirements_for p u role) [] \<longleftrightarrow> \<not> is_enforced (requirements_for p u role)"
    by (auto simp: met_by_def verified_kinds_def is_enforced_def list_all_iff)
next
  assume "platform_applies p role"
  moreover from this have "0 < mp_minimum p \<or> mp_required p \<noteq> []"
    using assms(1) by (auto simp: validate_mfa_def platform_applies_def split: if_splits mfa_enforcement.splits)
  moreover have "List.map_filter mfa_kind_parse (mp_required p) \<noteq> []" if "mp_required p \<noteq> []"
    using that assms(1)
    by (cases "mp_required p") (auto simp: validate_mfa_def unknown_factor_def map_filter_simps split: if_splits)
  ultimately show "is_enforced (requirements_for p u role)"
    by (auto simp: is_enforced_def requirements_for_def Let_def less_max_iff_disj dest: add_required_Nil)
qed

definition totp_or_mail :: mfa_policy where
  "totp_or_mail = \<lparr>mp_allowed = [''totp'', ''email''], mp_enforcement = EnforceAdmins, mp_minimum = 1, mp_required = []\<rparr>"

definition wants_totp :: user_mfa_policy where
  "wants_totp = \<lparr>up_inherit = False, up_minimum = 1, up_required = [''totp'']\<rparr>"

theorem valid_policies_can_be_met_witness:
  "\<not> met_by (requirements_for totp_or_mail wants_totp PlatformAdministrator) [] \<and>
   \<not> met_by (requirements_for totp_or_mail wants_totp PlatformUser) [] \<and>
   met_by (requirements_for totp_or_mail default_user_mfa_policy PlatformUser) []"
proof -
  have ok: "validate_mfa totp_or_mail True = Inr ()" "validate_user_mfa wants_totp totp_or_mail = Inr ()"
    "validate_user_mfa default_user_mfa_policy totp_or_mail = Inr ()" by code_simp+
  have forced: "is_enforced (requirements_for totp_or_mail wants_totp PlatformAdministrator)"
    "is_enforced (requirements_for totp_or_mail wants_totp PlatformUser)"
    "\<not> is_enforced (requirements_for totp_or_mail default_user_mfa_policy PlatformUser)" by code_simp+
  from valid_policies_can_be_met[OF ok(1,2)] valid_policies_can_be_met[OF ok(1,3)] forced
  show ?thesis by simp
qed

end
