(* ===== verification/AuthTokens.thy ===== *)
theory AuthTokens
  imports Registration AuthPolicy
begin

text \<open>
  What signing in rests on (\<open>domain/authentication.rs\<close>): the tokens mailed for a verification or a
  password reset, the history of passwords, second factors with their sealed secrets, and the policies
  kept as settings. Libraries are the parameters of \<open>auth_lib\<close>: those of \<open>SourceCredentials\<close> and
  \<open>Accounts\<close>, SHA-256 as bytes, TOTP (\<open>None\<close> when the crate refuses the secret) and what
  \<open>serde_json\<close> reads out of a stored setting.
\<close>

section \<open>Libraries and tables\<close>

record auth_lib =
  au_crypto :: crypto_lib
  au_password :: password_lib
  au_tables :: char_tables
  au_sha256 :: "string \<Rightarrow> nat list"
  au_totp :: "nat list \<Rightarrow> time \<Rightarrow> string \<Rightarrow> bool option"
  au_password_policy :: "json \<Rightarrow> string + password_policy"
  au_mfa_policy :: "json \<Rightarrow> string + mfa_policy"
  au_strings :: "json \<Rightarrow> string + string list"

definition auth_tokens_con :: "auth_token list \<Rightarrow> dberr option" where
  "auth_tokens_con rows =
     (if \<not> distinct (map at_id rows) then Some (UniqueViolation ''user_auth_tokens_pkey'')
      else if \<not> distinct (map at_token_hash rows) then Some (UniqueViolation ''user_auth_tokens_token_hash_key'')
      else None)"

definition factor_checks :: "mfa_factor \<Rightarrow> bool" where
  "factor_checks f \<longleftrightarrow> (mf_kind f = FactorTotp \<longleftrightarrow> mf_secret_envelope f \<noteq> None)"

definition mfa_factors_con :: "mfa_factor list \<Rightarrow> dberr option" where
  "mfa_factors_con rows =
     (if \<not> distinct (map mf_id rows) then Some (UniqueViolation ''user_mfa_factors_pkey'')
      else if \<not> distinct (map (\<lambda>f. (mf_user_id f, mf_kind f)) rows)
        then Some (UniqueViolation ''uq_user_mfa_factors_user_kind'')
      else if \<not> list_all factor_checks rows then Some (CheckViolation ''ck_user_mfa_factors_secret'')
      else None)"

definition user_mfa_con :: "user_mfa_row list \<Rightarrow> dberr option" where
  "user_mfa_con rows =
     (if \<not> distinct (map um_user_id rows) then Some (UniqueViolation ''user_mfa_policies_pkey'')
      else if \<not> list_all (\<lambda>r. 0 \<le> um_minimum_factors r \<and> um_minimum_factors r \<le> 2) rows
        then Some (CheckViolation ''ck_user_mfa_policies_minimum_factors'')
      else if \<not> list_all (\<lambda>r. case um_required_factors r of JArr _ \<Rightarrow> True | _ \<Rightarrow> False) rows
        then Some (CheckViolation ''ck_user_mfa_policies_required_factors'')
      else None)"

definition put_auth_tokens :: "auth_token list \<Rightarrow> world \<Rightarrow> world" where
  "put_auth_tokens rows w = w\<lparr>auth_tokens := rows\<rparr>"

definition put_mfa_factors :: "mfa_factor list \<Rightarrow> world \<Rightarrow> world" where
  "put_mfa_factors rows w = w\<lparr>mfa_factors := rows\<rparr>"

definition put_user_mfa_rows :: "user_mfa_row list \<Rightarrow> world \<Rightarrow> world" where
  "put_user_mfa_rows rows w = w\<lparr>user_mfa_rows := rows\<rparr>"

definition insert_auth_token :: "auth_token \<Rightarrow> (dberr, auth_token) dbm" where
  "insert_auth_token = exec_insert auth_tokens_con auth_tokens put_auth_tokens"

definition update_auth_token :: "uuid \<Rightarrow> (auth_token \<Rightarrow> auth_token) \<Rightarrow> (dberr, auth_token) dbm" where
  "update_auth_token = exec_update auth_tokens_con at_id auth_tokens put_auth_tokens"

definition update_auth_tokens_where ::
  "(auth_token \<Rightarrow> bool) \<Rightarrow> (auth_token \<Rightarrow> auth_token) \<Rightarrow> (dberr, nat) dbm" where
  "update_auth_tokens_where = exec_update_many auth_tokens_con auth_tokens put_auth_tokens"

definition insert_mfa_factor :: "mfa_factor \<Rightarrow> (dberr, mfa_factor) dbm" where
  "insert_mfa_factor = exec_insert mfa_factors_con mfa_factors put_mfa_factors"

definition update_mfa_factor :: "uuid \<Rightarrow> (mfa_factor \<Rightarrow> mfa_factor) \<Rightarrow> (dberr, mfa_factor) dbm" where
  "update_mfa_factor = exec_update mfa_factors_con mf_id mfa_factors put_mfa_factors"

definition insert_user_mfa_row :: "user_mfa_row \<Rightarrow> (dberr, user_mfa_row) dbm" where
  "insert_user_mfa_row = exec_insert user_mfa_con user_mfa_rows put_user_mfa_rows"

definition update_user_mfa_row :: "uuid \<Rightarrow> (user_mfa_row \<Rightarrow> user_mfa_row) \<Rightarrow> (dberr, user_mfa_row) dbm" where
  "update_user_mfa_row = exec_update user_mfa_con um_user_id user_mfa_rows put_user_mfa_rows"


lemma auth_tokens_con_None:
  "auth_tokens_con rows = None \<longleftrightarrow> distinct (map at_id rows) \<and> distinct (map at_token_hash rows)"
  by (simp add: auth_tokens_con_def)

lemma auth_tables_put [simp]:
  "auth_tokens (put_auth_tokens ts w) = ts" "mfa_factors (put_mfa_factors fs w) = fs"
  "user_mfa_rows (put_user_mfa_rows rs w) = rs"
  by (simp_all add: put_auth_tokens_def put_mfa_factors_def put_user_mfa_rows_def)

interpretation aut: stored_table at_id auth_tokens_con auth_tokens put_auth_tokens
  by unfold_locales (simp_all add: auth_tokens_con_None)

interpretation mff: stored_table mf_id mfa_factors_con mfa_factors put_mfa_factors
  by unfold_locales (simp_all add: mfa_factors_con_def split: if_splits)

interpretation umr: stored_table um_user_id user_mfa_con user_mfa_rows put_user_mfa_rows
  by unfold_locales (simp_all add: user_mfa_con_def split: if_splits)

section \<open>Policies kept as settings\<close>

definition load_json_setting :: "(json \<Rightarrow> string + 'a) \<Rightarrow> 'a \<Rightarrow> string \<Rightarrow> (anyhow, 'a) dbm" where
  "load_json_setting parse dflt key =
     bindM (getM (\<lambda>w. get_setting w key)) (\<lambda>setting.
     case setting of
       None \<Rightarrow> retM dflt
     | Some s \<Rightarrow> mapErr AnyMsg (liftR (parse (s_value s))))"

definition load_password_policy :: "auth_lib \<Rightarrow> (anyhow, password_policy) dbm" where
  "load_password_policy lib =
     load_json_setting (au_password_policy lib) default_password_policy ''auth.password_policy''"

definition load_mfa_policy :: "auth_lib \<Rightarrow> (anyhow, mfa_policy) dbm" where
  "load_mfa_policy lib = load_json_setting (au_mfa_policy lib) default_mfa_policy ''auth.mfa_policy''"

definition user_mfa_policy_from_record :: "auth_lib \<Rightarrow> user_mfa_row \<Rightarrow> anyhow + user_mfa_policy" where
  "user_mfa_policy_from_record lib r =
     (case au_strings lib (um_required_factors r) of
        Inl e \<Rightarrow> Inl (AnyMsg (''invalid stored user MFA policy: '' @ e))
      | Inr required \<Rightarrow>
          Inr \<lparr>up_inherit = um_inherit_platform r, up_minimum = nat (max (um_minimum_factors r) 0),
               up_required = required\<rparr>)"

definition load_user_mfa_policy :: "auth_lib \<Rightarrow> uuid \<Rightarrow> (anyhow, user_mfa_policy) dbm" where
  "load_user_mfa_policy lib uid =
     bindM (getM (\<lambda>w. find_row um_user_id uid (user_mfa_rows w))) (\<lambda>found.
     case found of
       None \<Rightarrow> retM default_user_mfa_policy
     | Some r \<Rightarrow> liftR (user_mfa_policy_from_record lib r))"

fun compatible_rows :: "auth_lib \<Rightarrow> mfa_policy \<Rightarrow> user_mfa_row list \<Rightarrow> anyhow + bool" where
  "compatible_rows lib p [] = Inr True"
| "compatible_rows lib p (r # rs) =
     (case user_mfa_policy_from_record lib r of
        Inl e \<Rightarrow> Inl e
      | Inr u \<Rightarrow> if isl (validate_user_mfa u p) then Inr False else compatible_rows lib p rs)"

definition user_mfa_policies_are_compatible :: "auth_lib \<Rightarrow> mfa_policy \<Rightarrow> (anyhow, bool) dbm" where
  "user_mfa_policies_are_compatible lib p =
     bindM (getM (\<lambda>w. compatible_rows lib p (user_mfa_rows w))) liftR"

text \<open>\<open>as i16\<close>.\<close>

definition wrap_i16 :: "nat \<Rightarrow> int" where
  "wrap_i16 n = (int n + 2 ^ 15) mod 2 ^ 16 - 2 ^ 15"

definition set_user_mfa_policy :: "uuid \<Rightarrow> user_mfa_policy \<Rightarrow> (anyhow, unit) dbm" where
  "set_user_mfa_policy uid p =
     bindM now_utc (\<lambda>now.
     (let required = JArr (map JStr (up_required p)) in
     bindM (getM (\<lambda>w. find_row um_user_id uid (user_mfa_rows w))) (\<lambda>found.
     bindM (mapErr AnyDb (case found of
         Some r \<Rightarrow> update_user_mfa_row uid
           (\<lambda>r. r\<lparr>um_inherit_platform := up_inherit p, um_minimum_factors := wrap_i16 (up_minimum p),
                  um_required_factors := required, um_updated_at := now\<rparr>)
       | None \<Rightarrow> insert_user_mfa_row
           \<lparr>um_user_id = uid, um_inherit_platform = up_inherit p, um_minimum_factors = wrap_i16 (up_minimum p),
            um_required_factors = required, um_created_at = now, um_updated_at = now\<rparr>)) (\<lambda>_.
     retM ()))))"

definition registration_verification_required :: "world \<Rightarrow> bool" where
  "registration_verification_required w =
     (case map_option s_value (get_setting w ''auth.registration_email_verification'') of
        Some (JBool b) \<Rightarrow> b | _ \<Rightarrow> False)"

section \<open>Passwords\<close>

definition password_was_used_recently :: "password_lib \<Rightarrow> world \<Rightarrow> uuid \<Rightarrow> ustr \<Rightarrow> nat \<Rightarrow> bool" where
  "password_was_used_recently pl w uid password count =
     (if count = 0 then False
      else list_ex (\<lambda>h. password_matches pl password (ph_password_hash h))
        (take count (rev (sort_key (\<lambda>h. (ph_created_at h, ph_id h))
          (filter (\<lambda>h. ph_user_id h = uid) (password_histories w))))))"

definition verify_password_for_user :: "password_lib \<Rightarrow> world \<Rightarrow> uuid \<Rightarrow> ustr \<Rightarrow> bool" where
  "verify_password_for_user pl w uid password =
     (case find (\<lambda>p. pw_user_id p = uid) (password_credentials w) of
        Some c \<Rightarrow> password_matches pl password (pw_password_hash c)
      | None \<Rightarrow> False)"

section \<open>Mailed tokens\<close>

definition create_auth_token ::
  "auth_lib \<Rightarrow> nat list \<Rightarrow> uuid \<Rightarrow> auth_token_kind \<Rightarrow> int \<Rightarrow> (anyhow, string) dbm" where
  "create_auth_token lib random uid kind ttl =
     bindM now_utc (\<lambda>now.
     transaction (
       bindM (mapErr AnyDb (update_auth_tokens_where
         (\<lambda>t. at_user_id t = uid \<and> at_kind t = kind \<and> at_used_at t = None)
         (\<lambda>t. t\<lparr>at_used_at := Some now\<rparr>))) (\<lambda>_.
       (let token = generate_token (au_crypto lib) random in
       bindM now_v7 (\<lambda>i.
       bindM (mapErr AnyDb (insert_auth_token
         \<lparr>at_id = i, at_user_id = uid, at_kind = kind, at_token_hash = hash_token (au_crypto lib) token,
          at_expires_at = now + ttl, at_used_at = None, at_created_at = now\<rparr>)) (\<lambda>_.
       retM token))))))"

definition consume_auth_token :: "auth_lib \<Rightarrow> string \<Rightarrow> auth_token_kind \<Rightarrow> (anyhow, uuid option) dbm" where
  "consume_auth_token lib token kind =
     transaction (
       bindM (getM (\<lambda>w. find (\<lambda>t. at_token_hash t = hash_token (au_crypto lib) token \<and> at_kind t = kind)
         (auth_tokens w))) (\<lambda>record.
       case record of
         None \<Rightarrow> retM None
       | Some t \<Rightarrow>
           if at_used_at t \<noteq> None then retM None
           else
             bindM now_utc (\<lambda>now.
             if at_expires_at t \<le> now then retM None
             else
               bindM now_utc (\<lambda>used.
               bindM (mapErr AnyDb (update_auth_token (at_id t) (\<lambda>t. t\<lparr>at_used_at := Some used\<rparr>))) (\<lambda>_.
               retM (Some (at_user_id t)))))))"

definition auth_token_user :: "auth_lib \<Rightarrow> string \<Rightarrow> auth_token_kind \<Rightarrow> (anyhow, uuid option) dbm" where
  "auth_token_user lib token kind =
     bindM now_utc (\<lambda>now.
     getM (\<lambda>w. map_option at_user_id (find (\<lambda>t. at_token_hash t = hash_token (au_crypto lib) token \<and>
       at_kind t = kind \<and> at_used_at t = None \<and> now < at_expires_at t) (auth_tokens w))))"

section \<open>Second factors\<close>

definition factors_of :: "world \<Rightarrow> uuid \<Rightarrow> mfa_factor list" where
  "factors_of w uid = sort_key mf_created_at (filter (\<lambda>f. mf_user_id f = uid) (mfa_factors w))"

definition verified_mfa_factors :: "world \<Rightarrow> uuid \<Rightarrow> mfa_factor list" where
  "verified_mfa_factors w uid =
     sort_key mf_created_at (filter (\<lambda>f. mf_user_id f = uid \<and> mf_verified_at f \<noteq> None) (mfa_factors w))"

definition find_mfa_factor :: "world \<Rightarrow> uuid \<Rightarrow> uuid \<Rightarrow> mfa_factor option" where
  "find_mfa_factor w uid fid = find (\<lambda>f. mf_id f = fid \<and> mf_user_id f = uid) (mfa_factors w)"

fun crypto_error_text :: "crypto_error \<Rightarrow> string" where
  "crypto_error_text InvalidEncryptionKey = ''invalid encryption key''"
| "crypto_error_text EncryptionFailed = ''secret encryption failed''"
| "crypto_error_text InvalidEnvelope = ''secret envelope is invalid or authentication failed''"

definition authentication_key :: "auth_lib \<Rightarrow> string \<Rightarrow> nat list" where
  "authentication_key lib platform_secret = au_sha256 lib (''grass-authentication:v1:'' @ platform_secret)"

definition mfa_associated_data :: "uuid \<Rightarrow> uuid \<Rightarrow> assoc_data" where
  "mfa_associated_data uid fid = MfaAssocData uid fid"

definition encrypt_mfa_secret ::
  "auth_lib \<Rightarrow> nat list \<Rightarrow> string \<Rightarrow> uuid \<Rightarrow> uuid \<Rightarrow> nat list \<Rightarrow> anyhow + json" where
  "encrypt_mfa_secret lib nonce platform_secret uid fid secret =
     (case encrypt_secret (au_crypto lib) nonce ''platform-secret-v1'' (authentication_key lib platform_secret)
         secret (mfa_associated_data uid fid) of
        Inl e \<Rightarrow> Inl (AnyMsg (crypto_error_text e))
      | Inr envelope \<Rightarrow> Inr (envelope_json envelope))"

definition decrypt_mfa_secret :: "auth_lib \<Rightarrow> string \<Rightarrow> mfa_factor \<Rightarrow> anyhow + nat list" where
  "decrypt_mfa_secret lib platform_secret f =
     (case mf_secret_envelope f of
        None \<Rightarrow> Inl (AnyMsg ''MFA factor has no secret'')
      | Some v \<Rightarrow>
          (case envelope_of_json v of
             None \<Rightarrow> Inl (AnyMsg ''invalid secret envelope'')
           | Some envelope \<Rightarrow>
               (case decrypt_secret (au_crypto lib) envelope (authentication_key lib platform_secret)
                   (mfa_associated_data (mf_user_id f) (mf_id f)) of
                  Inl e \<Rightarrow> Inl (AnyMsg (crypto_error_text e))
                | Inr secret \<Rightarrow> Inr secret)))"

definition start_mfa_factor ::
  "auth_lib \<Rightarrow> nat list \<Rightarrow> uuid \<Rightarrow> mfa_factor_kind \<Rightarrow> nat list option \<Rightarrow> string \<Rightarrow> (anyhow, mfa_factor) dbm" where
  "start_mfa_factor lib nonce uid kind secret platform_secret =
     bindM now_utc (\<lambda>now.
     bindM (getM (\<lambda>w. find (\<lambda>f. mf_user_id f = uid \<and> mf_kind f = kind) (mfa_factors w))) (\<lambda>existing.
     if (case existing of Some f \<Rightarrow> mf_verified_at f \<noteq> None | None \<Rightarrow> False)
     then failM (AnyMsg ''MFA factor is already enrolled'')
     else
       bindM (case existing of Some f \<Rightarrow> retM (mf_id f) | None \<Rightarrow> now_v7) (\<lambda>fid.
       bindM (case secret of
           None \<Rightarrow> retM None
         | Some s \<Rightarrow> bindM (liftR (encrypt_mfa_secret lib nonce platform_secret uid fid s)) (\<lambda>v. retM (Some v))) (\<lambda>envelope.
       mapErr AnyDb (case existing of
           Some f \<Rightarrow> update_mfa_factor (mf_id f) (\<lambda>f. f\<lparr>mf_secret_envelope := envelope, mf_updated_at := now\<rparr>)
         | None \<Rightarrow> insert_mfa_factor
             \<lparr>mf_id = fid, mf_user_id = uid, mf_kind = kind, mf_label = None, mf_secret_envelope = envelope,
              mf_verified_at = None, mf_last_used_at = None, mf_created_at = now, mf_updated_at = now\<rparr>)))))"

definition verify_mfa_factor :: "mfa_factor \<Rightarrow> (anyhow, mfa_factor) dbm" where
  "verify_mfa_factor f =
     bindM now_utc (\<lambda>now.
     mapErr AnyDb (update_mfa_factor (mf_id f)
       (\<lambda>f. f\<lparr>mf_verified_at := Some now, mf_last_used_at := Some now, mf_updated_at := now\<rparr>)))"

definition mark_mfa_factor_used :: "mfa_factor \<Rightarrow> (anyhow, unit) dbm" where
  "mark_mfa_factor_used f =
     bindM now_utc (\<lambda>now.
     bindM (mapErr AnyDb (update_mfa_factor (mf_id f) (\<lambda>f. f\<lparr>mf_last_used_at := Some now\<rparr>))) (\<lambda>_.
     retM ()))"

definition delete_mfa_factor :: "uuid \<Rightarrow> uuid \<Rightarrow> ('e, bool) dbm" where
  "delete_mfa_factor uid fid w =
     (Inr (list_ex (\<lambda>f. mf_id f = fid \<and> mf_user_id f = uid) (mfa_factors w)),
      put_mfa_factors (filter (\<lambda>f. \<not> (mf_id f = fid \<and> mf_user_id f = uid)) (mfa_factors w)) w)"


section \<open>A token is good for one use\<close>

text \<open>How the requests present a token: one that is not accepted ends them.\<close>

definition redeem_auth_token ::
  "auth_lib \<Rightarrow> string \<Rightarrow> string \<Rightarrow> string \<Rightarrow> auth_token_kind \<Rightarrow> (app_error, uuid) dbm" where
  "redeem_auth_token lib op refusal token kind =
     bindM (mapErr (Infrastructure op) (consume_auth_token lib token kind)) (okOr (Validation op refusal))"

definition token_spent :: "auth_lib \<Rightarrow> string \<times> auth_token_kind \<Rightarrow> world \<Rightarrow> bool" where
  "token_spent lib tk w \<longleftrightarrow>
     (\<exists>t\<in>set (auth_tokens w). at_token_hash t = hash_token (au_crypto lib) (fst tk) \<and> at_used_at t \<noteq> None)"

definition tokens_ok :: "world \<Rightarrow> bool" where
  "tokens_ok w \<longleftrightarrow> auth_tokens_con (auth_tokens w) = None"

inductive token_step :: "auth_lib \<Rightarrow> world \<Rightarrow> world \<Rightarrow> bool" for lib where
  created: "create_auth_token lib random uid kind ttl w = (r, v) \<Longrightarrow> token_step lib w v"
| consumed: "consume_auth_token lib token kind w = (r, v) \<Longrightarrow> token_step lib w v"
| elsewhere: "auth_tokens v = auth_tokens w \<Longrightarrow> token_step lib w v"

definition tokens_age :: "world \<Rightarrow> world \<Rightarrow> bool" where
  "tokens_age w v \<longleftrightarrow>
     (auth_tokens_con (auth_tokens w) = None \<longrightarrow> auth_tokens_con (auth_tokens v) = None) \<and>
     aged at_token_hash (\<lambda>t. at_used_at t \<noteq> None) (auth_tokens w) (auth_tokens v)"

lemma tokens_same: "auth_tokens v = auth_tokens w \<Longrightarrow> tokens_age w v"
  by (simp add: tokens_age_def)

interpretation ta: run_relation tokens_age
  by unfold_locales (auto simp: tokens_same tokens_age_def intro: aged_trans)

lemma token_reads: "runs tokens_age now_utc" "runs tokens_age now_v7"
  by (auto simp: runs_def now_utc_def now_v7_def intro: tokens_same)

lemma tx_tokens [simp]:
  "auth_tokens (begin_tx w) = auth_tokens w" "auth_tokens (commit_audits w v) = auth_tokens v"
  "auth_tokens (rollback_to w v) = auth_tokens w"
  by (simp_all add: begin_tx_def commit_audits_def rollback_to_def)

lemma transaction_ages: "runs tokens_age m \<Longrightarrow> runs tokens_age (transaction m)"
proof (rule runsI)
  fix w r v
  assume m: "runs tokens_age m" and "transaction m w = (r, v)"
  then obtain q x where x: "m (begin_tx w) = (q, x)" "auth_tokens v = auth_tokens x \<or> auth_tokens v = auth_tokens w"
    by (auto simp: transaction_def split: prod.splits sum.splits)
  from runsD[OF m x(1)] x(2) show "tokens_age w v" by (auto simp: tokens_age_def)
qed

lemma update_tokens_age:
  assumes "\<And>t. at_token_hash (f t) = at_token_hash t" and "\<And>t. at_used_at t \<noteq> None \<Longrightarrow> at_used_at (f t) \<noteq> None"
  shows "runs tokens_age (update_auth_token i f)" and "runs tokens_age (update_auth_tokens_where p f)"
proof -
  note up = aged_update[of at_token_hash f "\<lambda>t. at_used_at t \<noteq> None", OF assms]
  show "runs tokens_age (update_auth_token i f)"
    by (rule runsI) (auto simp: update_auth_token_def exec_update_def Let_def tokens_same tokens_age_def up
        simp del: not_None_eq split: option.splits)
  show "runs tokens_age (update_auth_tokens_where p f)"
    by (rule runsI) (auto simp: update_auth_tokens_where_def exec_update_many_def Let_def tokens_same tokens_age_def up
        simp del: not_None_eq split: option.splits)
qed

lemma insert_token_ages: "runs tokens_age (insert_auth_token t)"
  by (rule runsI) (auto simp: insert_auth_token_def exec_insert_def Let_def tokens_same tokens_age_def
      split: option.splits)

lemma token_ops_age:
  "runs tokens_age (create_auth_token lib random uid kind ttl)"
  "runs tokens_age (consume_auth_token lib token kind)"
  unfolding create_auth_token_def consume_auth_token_def Let_def
  by (intro ta.rules transaction_ages update_tokens_age insert_token_ages token_reads; simp)+


lemma token_step_ages: "token_step lib w v \<Longrightarrow> tokens_age w v"
  by (induction rule: token_step.induct)
    (auto intro: runsD[OF token_ops_age(1)] runsD[OF token_ops_age(2)] tokens_same)

lemma consumed_effect:
  assumes "consume_auth_token lib token kind w = (Inr (Some uid), v)"
  shows "\<exists>t used. t \<in> set (auth_tokens w) \<and> at_token_hash t = hash_token (au_crypto lib) token \<and> at_kind t = kind \<and>
    at_used_at t = None \<and> clock w (Suc (clock_pos w)) < at_expires_at t \<and> at_user_id t = uid \<and>
    auth_tokens v = update_where (\<lambda>x. at_id x = at_id t) (\<lambda>x. x\<lparr>at_used_at := Some used\<rparr>) (auth_tokens w) \<and>
    auth_tokens_con (auth_tokens v) = None \<and> users v = users w"
proof -
  obtain t where t: "find (\<lambda>t. at_token_hash t = hash_token (au_crypto lib) token \<and> at_kind t = kind) (auth_tokens w) = Some t"
    using assms by (auto simp: consume_auth_token_def transaction_Inr oper_Inr split: option.splits)
  have "t \<in> set (auth_tokens w)" "at_token_hash t = hash_token (au_crypto lib) token" "at_kind t = kind"
    using find_Some_iff_mem[OF t] by auto
  moreover have "\<exists>used. at_used_at t = None \<and> clock w (Suc (clock_pos w)) < at_expires_at t \<and> at_user_id t = uid \<and>
      auth_tokens v = update_where (\<lambda>x. at_id x = at_id t) (\<lambda>x. x\<lparr>at_used_at := Some used\<rparr>) (auth_tokens w) \<and>
      auth_tokens_con (auth_tokens v) = None \<and> users v = users w"
    using assms t
    by (auto simp: consume_auth_token_def transaction_Inr oper_Inr now_utc_def update_auth_token_def aut.update_Inr
        put_auth_tokens_def transaction_users begin_tx_def commit_audits_def split: if_splits)
  ultimately show ?thesis by blast
qed

lemma redeem_auth_token_Inr:
  "redeem_auth_token lib op refusal token kind w = (Inr uid, v) \<longleftrightarrow> consume_auth_token lib token kind w = (Inr (Some uid), v)"
  by (auto simp: redeem_auth_token_def oper_Inr)

lemma token_redeemed_spends:
  assumes "redeem_auth_token lib op refusal token kind w = (Inr uid, v)"
  shows "token_spent lib (token, kind) v \<and> tokens_ok v"
proof -
  obtain t used where t: "t \<in> set (auth_tokens w)" "at_token_hash t = hash_token (au_crypto lib) token"
    and v: "auth_tokens v = update_where (\<lambda>x. at_id x = at_id t) (\<lambda>x. x\<lparr>at_used_at := Some used\<rparr>) (auth_tokens w)"
    "auth_tokens_con (auth_tokens v) = None"
    using consumed_effect assms unfolding redeem_auth_token_Inr by metis
  have "t\<lparr>at_used_at := Some used\<rparr> \<in> set (auth_tokens v)" using t(1) by (auto simp: v(1) set_update_where)
  then have "token_spent lib (token, kind) v"
    unfolding token_spent_def by (rule rev_bexI) (simp add: t(2))
  with v(2) show ?thesis by (simp add: tokens_ok_def)
qed

lemma spent_token_refused:
  assumes "tokens_ok w" and "token_spent lib (token, kind) w"
  shows "redeem_auth_token lib op refusal token kind w \<noteq> (Inr uid, v)"
proof
  assume "redeem_auth_token lib op refusal token kind w = (Inr uid, v)"
  then obtain t where t: "t \<in> set (auth_tokens w)" "at_token_hash t = hash_token (au_crypto lib) token" "at_used_at t = None"
    using consumed_effect unfolding redeem_auth_token_Inr by metis
  obtain x where x: "x \<in> set (auth_tokens w)" "at_token_hash x = hash_token (au_crypto lib) token" "at_used_at x \<noteq> None"
    using assms(2) by (auto simp: token_spent_def)
  have "inj_on at_token_hash (set (auth_tokens w))"
    using assms(1) by (simp add: tokens_ok_def auth_tokens_con_None distinct_map)
  with t x show False by (metis inj_onD)
qed

interpretation om: one_time "\<lambda>tk (_::unit). redeem_auth_token lib op refusal (fst tk) (snd tk)" "token_spent lib" tokens_ok
  "\<lambda>_. token_step lib"
proof unfold_locales
  show "token_spent lib tk v \<and> tokens_ok v"
    if "redeem_auth_token lib op refusal (fst tk) (snd tk) w = (Inr a, v)" for tk w a v
    using token_redeemed_spends[OF that] by simp
  show "redeem_auth_token lib op refusal (fst tk) (snd tk) w \<noteq> (Inr a, v)"
    if "tokens_ok w" "token_spent lib tk w" for tk w a v
    using spent_token_refused[OF that(1), of lib "fst tk" "snd tk"] that(2) by simp
  show "tokens_ok v \<and> (token_spent lib tk w \<longrightarrow> token_spent lib tk v)" if "tokens_ok w" "token_step lib w v" for tk w v
  proof -
    have "tokens_age w v" by (rule token_step_ages[OF that(2)])
    with that(1) have ok: "tokens_ok v"
      and aged: "aged at_token_hash (\<lambda>t. at_used_at t \<noteq> None) (auth_tokens w) (auth_tokens v)"
      by (simp_all add: tokens_age_def tokens_ok_def)
    have "token_spent lib tk v" if "token_spent lib tk w"
    proof -
      from that obtain t where "t \<in> set (auth_tokens w)" "at_used_at t \<noteq> None"
        "at_token_hash t = hash_token (au_crypto lib) (fst tk)" unfolding token_spent_def by blast
      with aged_used[OF aged this(1,2)] show ?thesis unfolding token_spent_def by metis
    qed
    with ok show ?thesis by blast
  qed
qed

text \<open>
  A mailed token is good for one use. Only a live token of the right kind is accepted, and it stands for
  the user it was made for; after that it is refused, whatever happens to the tokens in between.
\<close>

theorem mailed_token_works_once:
  assumes "tokens_ok w" and "redeem_auth_token lib op refusal token kind w = (Inr uid, w1)"
    and "(token_step lib)\<^sup>*\<^sup>* w1 w2"
  shows "(\<exists>t\<in>set (auth_tokens w). at_token_hash t = hash_token (au_crypto lib) token \<and> at_kind t = kind \<and>
      at_user_id t = uid \<and> at_used_at t = None \<and> clock w (Suc (clock_pos w)) < at_expires_at t) \<and>
    (\<exists>e. fst (redeem_auth_token lib op refusal token kind w2) = Inl e)"
proof
  show "\<exists>t\<in>set (auth_tokens w). at_token_hash t = hash_token (au_crypto lib) token \<and> at_kind t = kind \<and>
      at_user_id t = uid \<and> at_used_at t = None \<and> clock w (Suc (clock_pos w)) < at_expires_at t"
    using consumed_effect assms(2) unfolding redeem_auth_token_Inr by metis
  show "\<exists>e. fst (redeem_auth_token lib op refusal token kind w2) = Inl e"
    using om.redeemed_once[of w lib op refusal "(token, kind)" uid w1 w2] assms by simp
qed


text \<open>Libraries in which texts are their own hashes, for the examples.\<close>

definition plain_password :: password_lib where
  "plain_password =
     \<lparr>argon2_hash = (\<lambda>_ p. Some (map char_of p)), argon2_verify = (\<lambda>p h. Some (map char_of p = h))\<rparr>"

definition plain_auth :: auth_lib where
  "plain_auth =
     \<lparr>au_crypto = plain_crypto, au_password = plain_password, au_tables = ascii_chars, au_sha256 = (\<lambda>_. replicate 32 0),
      au_totp = (\<lambda>_ _ code. Some (code = ''123456'')), au_password_policy = (\<lambda>_. Inr default_password_policy),
      au_mfa_policy = (\<lambda>_. Inr default_mfa_policy), au_strings = (\<lambda>_. Inr [])\<rparr>"

definition ann :: user where
  "ann = sample_user 1 ''ann@example.org'' PlatformUser"

definition mailed :: world where
  "mailed = snd (create_auth_token plain_auth (pts ''secret'') 1 TokenPasswordReset (seconds 3600) (user_world [ann]))"

theorem mailed_token_works_once_witness:
  "\<exists>v. redeem_auth_token plain_auth ''op'' ''no'' ''secret'' TokenPasswordReset mailed = (Inr 1, v) \<and>
     (\<exists>e. fst (redeem_auth_token plain_auth ''op'' ''no'' ''secret'' TokenPasswordReset v) = Inl e)"
proof -
  have ok: "tokens_ok mailed"
    and run: "fst (redeem_auth_token plain_auth ''op'' ''no'' ''secret'' TokenPasswordReset mailed) = Inr 1"
    by code_simp+
  then obtain v where v: "redeem_auth_token plain_auth ''op'' ''no'' ''secret'' TokenPasswordReset mailed = (Inr 1, v)"
    by (cases "redeem_auth_token plain_auth ''op'' ''no'' ''secret'' TokenPasswordReset mailed") simp
  with mailed_token_works_once[OF ok v rtranclp.rtrancl_refl] show ?thesis by blast
qed

end
