(* ===== verification/RateLimit.thy ===== *)
theory RateLimit
  imports Float64 CacheStore
begin

text \<open>
  The token buckets of the cache (\<open>consume_rate_limit\<close> of \<open>src/crates/cache\<close>): the in-process backend
  and the Lua script of the Redis backend, with the double precision arithmetic both compute in. A bucket
  holds the tokens left, the instant of the last request in milliseconds and the instant at which the entry
  expires; both backends write the two numbers as text that reads back as the same number, so the model
  keeps the numbers. The in-process backend reads the clock twice. Periods are far below \<open>2 ^ 52\<close>
  milliseconds, so the doubles for them are exact.

  The locale \<open>limiter\<close> states what one request does to a bucket; its lemma bounds what passes in a window
  and is used for both backends.
\<close>

section \<open>Double precision\<close>

text \<open>The double nearest to a rational number, ties to even.\<close>

definition rnd :: "rat \<Rightarrow> rat" where
  "rnd q =
     (let (n, d) = quotient_of q
      in (case f64_div (nat \<bar>n\<bar>) (nat d) of
            Fin r \<Rightarrow> if n < 0 then - r else r
          | Infinite \<Rightarrow> 0))"

section \<open>Buckets\<close>

record bucket =
  bk_tokens :: rat
  bk_updated_at :: rat
  bk_deadline :: time

type_synonym 'k buckets = "'k \<Rightarrow> bucket option"

definition bucket_get :: "time \<Rightarrow> 'k \<Rightarrow> 'k buckets \<Rightarrow> bucket option" where
  "bucket_get now k c = (case c k of None \<Rightarrow> None | Some b \<Rightarrow> if now < bk_deadline b then Some b else None)"

text \<open>\<open>(stored + elapsed * refill_rate).min(capacity)\<close> with \<open>elapsed = (now - last).max(0)\<close>.\<close>

definition refill :: "rat \<Rightarrow> rat \<Rightarrow> rat \<Rightarrow> rat \<Rightarrow> rat \<Rightarrow> rat" where
  "refill capacity rate now_ms last_ms stored =
     min (rnd (stored + rnd (max 0 (rnd (now_ms - last_ms)) * rate))) capacity"

definition spend :: "rat \<Rightarrow> bool \<times> rat" where
  "spend tokens = (if 1 \<le> tokens then (True, rnd (tokens - 1)) else (False, tokens))"

section \<open>The in-process backend\<close>

definition moka_now_ms :: "time \<Rightarrow> rat" where
  "moka_now_ms now = rnd (rnd (of_int now) / 1000000)"

definition moka_bucket_ttl :: "int \<Rightarrow> int" where
  "moka_bucket_ttl period = (if 2 * period < 2 ^ 64 * 1000000000 then 2 * period else period)"

text \<open>A period below a millisecond divides by zero: \<open>NaN\<close> and infinity both end as the capacity.\<close>

definition moka_tokens :: "nat \<Rightarrow> int \<Rightarrow> rat \<Rightarrow> rat \<Rightarrow> rat \<Rightarrow> rat" where
  "moka_tokens capacity period now_ms last_ms stored =
     (if as_millis period = 0 then of_nat capacity
      else refill (of_nat capacity) (rnd (of_nat capacity / rnd (of_int (as_millis period)))) now_ms last_ms stored)"

definition moka_consume_rate_limit ::
  "time \<Rightarrow> time \<Rightarrow> 'k \<Rightarrow> nat \<Rightarrow> int \<Rightarrow> ('k buckets, anyhow, bool) oper" where
  "moka_consume_rate_limit now later k capacity period c =
     (if capacity = 0 \<or> period = 0
      then (Inl (AnyMsg ''rate limit capacity and refill period must be positive''), c)
      else
        (let now_ms = moka_now_ms now;
             (last_ms, stored) = (case bucket_get now k c of
                Some b \<Rightarrow> (bk_updated_at b, bk_tokens b) | None \<Rightarrow> (now_ms, of_nat capacity));
             (allowed, tokens) = spend (moka_tokens capacity period now_ms last_ms stored);
             expiry = expiry_from_ttl later (moka_bucket_ttl period)
         in (Inr allowed,
             c(k \<mapsto> \<lparr>bk_tokens = tokens, bk_updated_at = now_ms,
                    bk_deadline = later + seconds (max 0 (wrap_i64 (expiry - unix_timestamp later)))\<rparr>))))"

section \<open>The backend on Redis\<close>

definition redis_period_ms :: "int \<Rightarrow> int" where
  "redis_period_ms period = max 1 (as_millis period) mod 2 ^ 64"

definition redis_consume_rate_limit :: "time \<Rightarrow> 'k \<Rightarrow> nat \<Rightarrow> int \<Rightarrow> ('k buckets, anyhow, bool) oper" where
  "redis_consume_rate_limit now k capacity period c =
     (if capacity = 0 \<or> period = 0
      then (Inl (AnyMsg ''rate limit capacity and refill period must be positive''), c)
      else
        (let now_ms = of_int (clock_ms now);
             (last_ms, stored) = (case bucket_get now k c of
                Some b \<Rightarrow> (bk_updated_at b, bk_tokens b) | None \<Rightarrow> (now_ms, of_nat capacity));
             rate = rnd (of_nat capacity / rnd (of_int (redis_period_ms period)));
             (allowed, tokens) = spend (refill (of_nat capacity) rate now_ms last_ms stored)
         in (Inr allowed,
             c(k \<mapsto> \<lparr>bk_tokens = tokens, bk_updated_at = now_ms,
                    bk_deadline = deadline_ms (clock_ms now + 2 * redis_period_ms period)\<rparr>))))"

section \<open>The chosen backend\<close>

datatype 'k bucket_store = MokaBuckets "'k buckets" | RedisBuckets "'k buckets"

definition consume_rate_limit ::
  "time \<Rightarrow> time \<Rightarrow> 'k \<Rightarrow> nat \<Rightarrow> int \<Rightarrow> ('k bucket_store, anyhow, bool) oper" where
  "consume_rate_limit now later k capacity period s =
     (case s of
        MokaBuckets c \<Rightarrow> (case moka_consume_rate_limit now later k capacity period c of (a, c') \<Rightarrow> (a, MokaBuckets c'))
      | RedisBuckets c \<Rightarrow> (case redis_consume_rate_limit now k capacity period c of (a, c') \<Rightarrow> (a, RedisBuckets c')))"

section \<open>Rounding errors\<close>

lemma round_even_err:
  assumes "0 < d"
  shows "\<bar>2 * (int (round_even n d) * int d) - 2 * int n\<bar> \<le> int d"
proof -
  let ?q = "n div d" and ?r = "n mod d"
  have n: "int n = int ?q * int d + int ?r"
    by (metis div_mult_mod_eq of_nat_add of_nat_mult)
  have r: "int ?r < int d" using assms by simp
  show ?thesis
  proof (cases "2 * ?r < d \<or> (2 * ?r = d \<and> even ?q)")
    case True
    then have "round_even n d = ?q" by (simp add: round_even_def Let_def)
    moreover have "2 * int ?r \<le> int d" using True by auto
    ultimately show ?thesis using n by simp
  next
    case False
    then have "round_even n d = Suc ?q" by (simp add: round_even_def Let_def)
    moreover have "int d \<le> 2 * int ?r" using False by auto
    ultimately show ?thesis using n r by (simp add: algebra_simps)
  qed
qed

abbreviation unit_roundoff :: rat where
  "unit_roundoff \<equiv> 1 / 2 ^ 53"

lemma half_ulp:
  fixes m x :: rat
  assumes "\<bar>2 * m - 2 * x\<bar> \<le> 1" and "2 ^ 52 \<le> x"
  shows "\<bar>m - x\<bar> \<le> x * unit_roundoff"
proof -
  have "2 * m - 2 * x \<le> 1" "2 * x - 2 * m \<le> 1" using assms(1) by (simp_all only: abs_le_iff minus_diff_eq)
  moreover have "1 / 2 \<le> x * unit_roundoff" using assms(2) by simp
  ultimately have "m - x \<le> x * unit_roundoff" "- (m - x) \<le> x * unit_roundoff" by linarith+
  then show ?thesis by (rule abs_leI)
qed

lemma f64_div_err:
  assumes "0 < d"
  shows "\<exists>r. f64_div n d = Fin r \<and> 0 \<le> r \<and>
    \<bar>r - of_nat n / of_nat d\<bar> \<le> of_nat n / of_nat d * unit_roundoff"
proof (cases "n = 0")
  case True
  then show ?thesis using assms
    by (simp add: f64_div_def Let_def round_even_def)
next
  case False
  define s t where "s = up_shift n d" and "t = down_shift n d"
  define a b where "a = n * 2 ^ s" and "b = d * 2 ^ t"
  define m where "m = round_even a b"
  have b: "0 < b" using assms by (simp add: b_def)
  have big: "2 ^ 52 * b \<le> a"
  proof (cases "2 ^ 52 * d \<le> n")
    case True
    then have "s = 0" unfolding s_def by (subst up_shift.simps) simp
    with down_shift_reaches[OF assms True] show ?thesis by (simp add: a_def b_def t_def)
  next
    case False
    then have "t = 0" unfolding t_def by (intro down_shift_small) simp
    with up_shift_reaches[of n d] \<open>n \<noteq> 0\<close> show ?thesis by (simp add: a_def b_def s_def)
  qed
  define x where "x = (of_nat a / of_nat b :: rat)"
  have "\<bar>2 * (int m * int b) - 2 * int a\<bar> \<le> int b"
    unfolding m_def by (rule round_even_err[OF b])
  then have "of_int \<bar>2 * (int m * int b) - 2 * int a\<bar> \<le> (of_int (int b) :: rat)"
    by (subst of_int_le_iff)
  then have "\<bar>2 * (of_nat m * of_nat b) - 2 * of_nat a\<bar> \<le> (of_nat b :: rat)" by simp
  moreover have "(of_nat a :: rat) = x * of_nat b" using b by (simp add: x_def)
  ultimately have "\<bar>(2 * of_nat m - 2 * x) * of_nat b\<bar> \<le> 1 * (of_nat b :: rat)"
    by (simp add: algebra_simps)
  then have "\<bar>2 * of_nat m - 2 * x\<bar> \<le> (1 :: rat)"
    using b by (simp add: abs_mult)
  moreover have "2 ^ 52 \<le> x"
  proof -
    have "(of_nat (2 ^ 52 * b) :: rat) \<le> of_nat a" using big by (subst of_nat_le_iff)
    then show ?thesis using b by (simp add: x_def pos_le_divide_eq)
  qed
  ultimately have close: "\<bar>of_nat m - x\<bar> \<le> x * unit_roundoff" by (rule half_ulp)
  define k where "k = (2 ^ t / 2 ^ s :: rat)"
  have k: "0 < k" by (simp add: k_def)
  have val: "f64_div n d = Fin (of_nat m * k)"
    by (simp add: f64_div_def Let_def m_def a_def b_def s_def t_def k_def)
  have true: "of_nat n / of_nat d = x * k"
    using assms by (simp add: x_def k_def a_def b_def)
  have "\<bar>of_nat m * k - x * k\<bar> = \<bar>of_nat m - x\<bar> * k"
    using k by (simp flip: left_diff_distrib add: abs_mult)
  also have "\<dots> \<le> x * unit_roundoff * k"
    using close k by (intro mult_right_mono) auto
  finally show ?thesis using val true k by (simp add: mult.assoc mult.left_commute mult.commute)
qed

lemma rnd_err: "\<bar>rnd q - q\<bar> \<le> \<bar>q\<bar> * unit_roundoff"
proof -
  obtain n d where nd: "quotient_of q = (n, d)" by (cases "quotient_of q")
  have d: "0 < d" and q: "q = of_int n / of_int d"
    using nd quotient_of_denom_pos quotient_of_div by auto
  obtain r where r: "f64_div (nat \<bar>n\<bar>) (nat d) = Fin r"
    "\<bar>r - of_nat (nat \<bar>n\<bar>) / of_nat (nat d)\<bar> \<le> of_nat (nat \<bar>n\<bar>) / of_nat (nat d) * unit_roundoff"
    using f64_div_err[of "nat d" "nat \<bar>n\<bar>"] d by auto
  have abs: "of_nat (nat \<bar>n\<bar>) / of_nat (nat d) = \<bar>q\<bar>"
    using d by (simp add: q)
  show ?thesis
  proof (cases "n < 0")
    case True
    then have "rnd q = - r" and "\<bar>q\<bar> = - q"
      using nd r(1) d by (auto simp: rnd_def q divide_neg_pos)
    with r(2) show ?thesis unfolding abs by (simp add: abs_minus_commute)
  next
    case False
    then have "rnd q = r" and "\<bar>q\<bar> = q"
      using nd r(1) d by (auto simp: rnd_def q)
    with r(2) show ?thesis unfolding abs by simp
  qed
qed

lemma rnd_bounds:
  assumes "0 \<le> q"
  shows "rnd q \<le> q * (1 + unit_roundoff)" "q * (1 - unit_roundoff) \<le> rnd q" "0 \<le> rnd q"
proof -
  have "\<bar>rnd q - q\<bar> \<le> q * unit_roundoff" using rnd_err[of q] assms by simp
  then show "rnd q \<le> q * (1 + unit_roundoff)" and lower: "q * (1 - unit_roundoff) \<le> rnd q"
    unfolding distrib_left right_diff_distrib mult_1_right by linarith+
  have "0 \<le> q * (1 - unit_roundoff)" using assms by simp
  with lower show "0 \<le> rnd q" by linarith
qed


section \<open>What a limiter promises\<close>

record 'k rate_request =
  rq_now :: time
  rq_later :: time
  rq_key :: 'k
  rq_capacity :: nat
  rq_period :: int

text \<open>
  The requests considered: clocks between 1970 and 2116, a capacity that fits \<open>u32\<close>, a period below fifty
  days that leaves at least a second for each token.
\<close>

definition fit :: "'k rate_request \<Rightarrow> bool" where
  "fit r \<longleftrightarrow> 0 \<le> rq_now r \<and> rq_now r \<le> rq_later r \<and> rq_later r < 2 ^ 62 \<and> 0 < rq_capacity r \<and>
     rq_capacity r < 2 ^ 32 \<and> int (rq_capacity r) * 1000000000 \<le> rq_period r \<and> rq_period r < 2 ^ 52"

text \<open>A later request under the same limit, before the bucket of the earlier one is forgotten.\<close>

definition follows :: "'k rate_request \<Rightarrow> 'k rate_request \<Rightarrow> bool" where
  "follows p r \<longleftrightarrow> rq_key r = rq_key p \<and> rq_capacity r = rq_capacity p \<and> rq_period r = rq_period p \<and>
     rq_now p \<le> rq_now r \<and> rq_now r \<le> rq_now p + rq_period p"

definition refill_rate :: "'k rate_request \<Rightarrow> rat" where
  "refill_rate r = of_nat (rq_capacity r) / of_int (as_millis (rq_period r))"

abbreviation slack :: rat where
  "slack \<equiv> 1 / 200000"

fun admissions :: "('r \<Rightarrow> 's \<Rightarrow> bool \<times> 's) \<Rightarrow> ('r \<Rightarrow> bool) \<Rightarrow> 'r list \<Rightarrow> 's \<Rightarrow> nat \<times> 's" where
  "admissions request mine [] s = (0, s)"
| "admissions request mine (r # rs) s =
     (case request r s of
        (allowed, s1) \<Rightarrow>
          (case admissions request mine rs s1 of
             (n, s2) \<Rightarrow> (if allowed \<and> mine r then Suc n else n, s2)))"

locale limiter =
  fixes request :: "'k rate_request \<Rightarrow> 's \<Rightarrow> bool \<times> 's"
    and stamp :: "'k rate_request \<Rightarrow> rat"
    and valid :: "'s \<Rightarrow> bool"
    and holds :: "'k rate_request \<Rightarrow> rat \<Rightarrow> 's \<Rightarrow> bool"
  assumes valid_step: "valid s \<Longrightarrow> 0 \<le> rq_period r \<Longrightarrow> request r s = (a, s') \<Longrightarrow> valid s'"
    and holds_nonneg: "holds p x s \<Longrightarrow> 0 \<le> x"
    and first_step: "valid s \<Longrightarrow> fit r \<Longrightarrow> request r s = (a, s') \<Longrightarrow>
      \<exists>x. holds r x s' \<and> x + of_bool a \<le> of_nat (rq_capacity r) + slack"
    and next_step: "fit p \<Longrightarrow> fit r \<Longrightarrow> follows p r \<Longrightarrow> holds p x s \<Longrightarrow> request r s = (a, s') \<Longrightarrow>
      \<exists>y. holds r y s' \<and> y + of_bool a \<le> x + refill_rate r * (stamp r - stamp p) + slack"
    and other_step: "rq_key r \<noteq> rq_key p \<Longrightarrow> holds p x s \<Longrightarrow> request r s = (a, s') \<Longrightarrow> holds p x s'"
begin

lemma after_first:
  assumes "holds p x s" and "fit p" and "\<forall>r\<in>set rs. fit r" and "sorted (map rq_now (p # rs))"
    and "\<forall>r\<in>set rs. rq_key r = rq_key p \<longrightarrow> rq_capacity r = rq_capacity p \<and> rq_period r = rq_period p"
    and "\<forall>r\<in>set rs. rq_now r \<le> rq_now p + rq_period p"
    and "admissions request (\<lambda>r. rq_key r = rq_key p) rs s = (n, s')"
  shows "\<exists>q\<in>set (p # rs). of_nat n \<le> x + refill_rate p * (stamp q - stamp p) +
    of_nat (length (filter (\<lambda>r. rq_key r = rq_key p) rs)) * slack"
  using assms
proof (induction rs arbitrary: p x s n s')
  case Nil
  then show ?case using holds_nonneg by simp
next
  case (Cons r rs)
  obtain a s1 where r: "request r s = (a, s1)" by (cases "request r s")
  obtain m s2 where rs: "admissions request (\<lambda>r. rq_key r = rq_key p) rs s1 = (m, s2)"
    by (cases "admissions request (\<lambda>r. rq_key r = rq_key p) rs s1")
  show ?case
  proof (cases "rq_key r = rq_key p")
    case False
    have "holds p x s1" using other_step[OF False Cons.prems(1) r] .
    moreover have "\<forall>r\<in>set rs. fit r" "sorted (map rq_now (p # rs))"
      "\<forall>r\<in>set rs. rq_key r = rq_key p \<longrightarrow> rq_capacity r = rq_capacity p \<and> rq_period r = rq_period p"
      "\<forall>r\<in>set rs. rq_now r \<le> rq_now p + rq_period p"
      using Cons.prems(3-6) by simp_all
    ultimately obtain q where "q \<in> set (p # rs)" "of_nat m \<le> x + refill_rate p * (stamp q - stamp p) +
        of_nat (length (filter (\<lambda>r. rq_key r = rq_key p) rs)) * slack"
      using Cons.IH[OF _ Cons.prems(2) _ _ _ _ rs] by blast
    moreover have "n = m" using Cons.prems(7) r rs False by simp
    ultimately show ?thesis using False by auto
  next
    case True
    have follows: "follows p r"
      using True Cons.prems(4-6) by (simp add: follows_def)
    from next_step[OF Cons.prems(2) _ follows Cons.prems(1) r] Cons.prems(3)
    obtain y where y: "holds r y s1" "y + of_bool a \<le> x + refill_rate r * (stamp r - stamp p) + slack"
      by auto
    have same: "rq_key r = rq_key p" "rq_capacity r = rq_capacity p" "rq_period r = rq_period p"
      using follows by (simp_all add: follows_def)
    then have rate: "refill_rate r = refill_rate p" by (simp add: refill_rate_def)
    have "fit r" "\<forall>r\<in>set rs. fit r" "sorted (map rq_now (r # rs))"
      "\<forall>q\<in>set rs. rq_key q = rq_key r \<longrightarrow> rq_capacity q = rq_capacity r \<and> rq_period q = rq_period r"
      "\<forall>q\<in>set rs. rq_now q \<le> rq_now r + rq_period r"
      using Cons.prems(3-6) same by fastforce+
    from Cons.IH[OF y(1) this, unfolded same rate, OF rs]
    obtain q where q: "q \<in> set (r # rs)" "of_nat m \<le> y + refill_rate p * (stamp q - stamp r) +
        of_nat (length (filter (\<lambda>r. rq_key r = rq_key p) rs)) * slack"
      by blast
    have n: "of_nat n = of_nat m + (of_bool a :: rat)" using Cons.prems(7) r rs True by auto
    have "refill_rate p * (stamp q - stamp p) =
        refill_rate p * (stamp q - stamp r) + refill_rate p * (stamp r - stamp p)"
      by (simp add: algebra_simps)
    moreover have "of_nat (length (filter (\<lambda>r. rq_key r = rq_key p) (r # rs))) * slack =
        of_nat (length (filter (\<lambda>r. rq_key r = rq_key p) rs)) * slack + slack"
      using True by (simp add: add_divide_distrib)
    ultimately have "of_nat n \<le> x + refill_rate p * (stamp q - stamp p) +
        of_nat (length (filter (\<lambda>r. rq_key r = rq_key p) (r # rs))) * slack"
      using n y(2) q(2) unfolding rate by linarith
    with q(1) show ?thesis by auto
  qed
qed


text \<open>What passes in a window of requests, whatever the state before it.\<close>

lemma window:
  assumes "valid s" and "\<forall>r\<in>set (p # rs). fit r" and "sorted (map rq_now (p # rs))"
    and "\<forall>r\<in>set rs. rq_key r = rq_key p \<longrightarrow> rq_capacity r = rq_capacity p \<and> rq_period r = rq_period p"
    and "\<forall>r\<in>set rs. rq_now r \<le> rq_now p + rq_period p"
    and "admissions request (\<lambda>r. rq_key r = rq_key p) (p # rs) s = (n, s')"
  shows "\<exists>q\<in>set (p # rs). of_nat n \<le> of_nat (rq_capacity p) + refill_rate p * (stamp q - stamp p) +
    of_nat (length (filter (\<lambda>r. rq_key r = rq_key p) (p # rs))) * slack"
proof -
  obtain a s1 where r: "request p s = (a, s1)" by (cases "request p s")
  obtain m s2 where rs: "admissions request (\<lambda>r. rq_key r = rq_key p) rs s1 = (m, s2)"
    by (cases "admissions request (\<lambda>r. rq_key r = rq_key p) rs s1")
  have fits: "fit p" "\<forall>r\<in>set rs. fit r" using assms(2) by simp_all
  obtain x where x: "holds p x s1" "x + of_bool a \<le> of_nat (rq_capacity p) + slack"
    using first_step[OF assms(1) fits(1) r] by blast
  from after_first[OF x(1) fits assms(3-5) rs]
  obtain q where q: "q \<in> set (p # rs)" "of_nat m \<le> x + refill_rate p * (stamp q - stamp p) +
      of_nat (length (filter (\<lambda>r. rq_key r = rq_key p) rs)) * slack" by blast
  have "of_nat n = of_nat m + (of_bool a :: rat)" using assms(6) r rs by auto
  moreover have "of_nat (length (filter (\<lambda>r. rq_key r = rq_key p) (p # rs))) * slack =
      of_nat (length (filter (\<lambda>r. rq_key r = rq_key p) rs)) * slack + slack"
    by (simp add: add_divide_distrib)
  ultimately have "of_nat n \<le> of_nat (rq_capacity p) + refill_rate p * (stamp q - stamp p) +
      of_nat (length (filter (\<lambda>r. rq_key r = rq_key p) (p # rs))) * slack"
    using x(2) q(2) by linarith
  with q(1) show ?thesis by blast
qed

end

section \<open>Both backends keep the promise\<close>

lemma rnd_upper:
  assumes "0 \<le> q" and "q \<le> b"
  shows "rnd q \<le> q + b * unit_roundoff"
proof -
  have "rnd q \<le> q + q * unit_roundoff" using rnd_bounds(1)[OF assms(1)] by (simp add: distrib_left)
  with assms(2) show ?thesis by simp
qed

lemma rate_bound:
  assumes "0 < c" and "1000 * c \<le> p" and "p \<le> 2 ^ 33"
  shows "0 \<le> rnd (c / rnd p)" "rnd (c / rnd p) \<le> c / p + unit_roundoff / 200" "c / p \<le> 1 / 1000"
proof -
  have p: "0 < p" using assms by linarith
  have low: "p * (1 - unit_roundoff) \<le> rnd p" and pos: "0 < rnd p"
    using rnd_bounds(2)[of p] p by simp_all
  show small: "c / p \<le> 1 / 1000" using assms(2) p by (simp add: field_simps)
  have "c / rnd p \<le> c / (p * (1 - unit_roundoff))"
    using assms(1) low p by (intro divide_left_mono) simp_all
  also have "\<dots> = c / p * (1 / (1 - unit_roundoff))" by simp
  also have "\<dots> \<le> c / p * (1 + 2 * unit_roundoff)"
    using assms(1) p by (intro mult_left_mono) simp_all
  finally have "c / rnd p \<le> c / p + c / p * (2 * unit_roundoff)" by (simp add: distrib_left)
  with small have q: "c / rnd p \<le> c / p + unit_roundoff / 500" by simp
  have nonneg: "0 \<le> c / rnd p" using assms(1) pos by simp
  show "0 \<le> rnd (c / rnd p)" using nonneg by (rule rnd_bounds(3))
  have "rnd (c / rnd p) \<le> c / rnd p + 1 / 500 * unit_roundoff"
    using nonneg q small by (intro rnd_upper) simp_all
  with q show "rnd (c / rnd p) \<le> c / p + unit_roundoff / 200" by simp
qed


lemma elapsed_bound:
  assumes "- (1 / 400) \<le> d" and "d \<le> 2 ^ 33"
  shows "0 \<le> max 0 (rnd d)" "max 0 (rnd d) \<le> d + 1 / 400 + 1 / 2 ^ 20"
proof -
  show "max 0 (rnd d) \<le> d + 1 / 400 + 1 / 2 ^ 20"
  proof (cases "0 \<le> d")
    case True
    with assms(2) have "rnd d \<le> d + 2 ^ 33 * unit_roundoff" by (intro rnd_upper)
    with True show ?thesis by simp
  next
    case False
    have "rnd d - d \<le> \<bar>d\<bar> * unit_roundoff" using rnd_err[of d] by linarith
    with False have "rnd d \<le> d * (1 - unit_roundoff)" by (simp add: right_diff_distrib)
    also have "\<dots> \<le> 0" using False by (intro mult_nonpos_nonneg) simp_all
    finally show ?thesis using assms(1) by simp
  qed
qed simp

lemma product_of_sums: "(d + a) * (g + b) = g * d + g * a + (d + a) * (b :: rat)"
  by (simp add: algebra_simps)

lemma refill_bound:
  assumes "0 \<le> stored" "stored \<le> c" and "0 < c" "c < 2 ^ 32" "1000 * c \<le> p" "p \<le> 2 ^ 33"
    and "- (1 / 400) \<le> x - y" "x - y \<le> 2 ^ 33"
  defines "tokens \<equiv> refill c (rnd (c / rnd p)) x y stored"
  shows "0 \<le> tokens" "tokens \<le> c" "tokens \<le> stored + c / p * (x - y) + 4 / 1000000"
proof -
  define e r where "e = max 0 (rnd (x - y))" and "r = rnd (c / rnd p)"
  have e: "0 \<le> e" "e \<le> (x - y) + (1 / 400 + 1 / 2 ^ 20)"
    using elapsed_bound[OF assms(7,8)] by (simp_all add: e_def add.assoc)
  have r: "0 \<le> r" "r \<le> c / p + unit_roundoff / 200" and g: "c / p \<le> 1 / 1000"
    using rate_bound[OF assms(3,5,6)] by (simp_all add: r_def)
  have g0: "0 \<le> c / p" using assms(3,5) by simp
  have "e * r \<le> ((x - y) + (1 / 400 + 1 / 2 ^ 20)) * (c / p + unit_roundoff / 200)"
    using e r by (intro mult_mono) simp_all
  also have "\<dots> = c / p * (x - y) + c / p * (1 / 400 + 1 / 2 ^ 20)
      + ((x - y) + (1 / 400 + 1 / 2 ^ 20)) * (unit_roundoff / 200)"
    by (rule product_of_sums)
  also have "\<dots> \<le> c / p * (x - y) + 1 / 1000 * (1 / 400 + 1 / 2 ^ 20) + 2 ^ 34 * (unit_roundoff / 200)"
  proof (intro add_mono order_refl mult_right_mono)
    show "(x - y) + (1 / 400 + 1 / 2 ^ 20) \<le> 2 ^ 34" using assms(8) by simp
  qed (use g in simp_all)
  finally have prod: "e * r \<le> c / p * (x - y) + 26 / 10000000" by simp
  have prod0: "0 \<le> e * r" using e(1) r(1) by simp
  have "c / p * (x - y) \<le> 1 / 1000 * 2 ^ 33"
  proof (cases "0 \<le> x - y")
    case True
    with g assms(8) show ?thesis by (intro mult_mono) simp_all
  next
    case False
    then have "c / p * (x - y) \<le> 0" using g0 by (intro mult_nonneg_nonpos) simp_all
    then show ?thesis by (rule order_trans) simp
  qed
  with prod have small: "e * r \<le> 2 ^ 24" by simp
  have "rnd (e * r) \<le> e * r + 2 ^ 24 * unit_roundoff" using prod0 small by (rule rnd_upper)
  then have rp: "rnd (e * r) \<le> e * r + 1 / 2 ^ 29" by simp
  have rp0: "0 \<le> rnd (e * r)" using prod0 by (rule rnd_bounds(3))
  have "rnd (stored + rnd (e * r)) \<le> stored + rnd (e * r) + 2 ^ 33 * unit_roundoff"
    using assms(1,2,4) rp0 rp small by (intro rnd_upper) simp_all
  with rp prod have sum: "rnd (stored + rnd (e * r)) \<le> stored + c / p * (x - y) + 4 / 1000000" by simp
  have sum0: "0 \<le> rnd (stored + rnd (e * r))" using assms(1) rp0 by (intro rnd_bounds(3)) simp
  have tokens: "tokens = min (rnd (stored + rnd (e * r))) c" by (simp add: tokens_def refill_def e_def r_def)
  show "0 \<le> tokens" using sum0 assms(3) by (simp add: tokens)
  show "tokens \<le> c" by (simp add: tokens)
  show "tokens \<le> stored + c / p * (x - y) + 4 / 1000000" using sum by (simp add: tokens)
qed

lemma spend_bound:
  assumes "0 \<le> t" and "t < 2 ^ 32" and "spend t = (a, t')"
  shows "0 \<le> t'" "t' + of_bool a \<le> t + 1 / 1000000"
proof -
  have "0 \<le> rnd (t - 1) \<and> rnd (t - 1) \<le> t - 1 + 2 ^ 32 * unit_roundoff" if "1 \<le> t"
    using that assms(2) rnd_bounds(3)[of "t - 1"] by (intro conjI rnd_upper) simp_all
  then show "0 \<le> t'" and "t' + of_bool a \<le> t + 1 / 1000000"
    using assms(1,3) by (auto simp: spend_def split: if_splits)
qed


definition answer :: "('s, 'e, bool) oper \<Rightarrow> 's \<Rightarrow> bool \<times> 's" where
  "answer m s = (case m s of (Inr a, s') \<Rightarrow> (a, s') | (Inl _, s') \<Rightarrow> (False, s'))"

definition moka_admit :: "'k rate_request \<Rightarrow> 'k buckets \<Rightarrow> bool \<times> 'k buckets" where
  "moka_admit r = answer (moka_consume_rate_limit (rq_now r) (rq_later r) (rq_key r) (rq_capacity r) (rq_period r))"

definition redis_admit :: "'k rate_request \<Rightarrow> 'k buckets \<Rightarrow> bool \<times> 'k buckets" where
  "redis_admit r = answer (redis_consume_rate_limit (rq_now r) (rq_key r) (rq_capacity r) (rq_period r))"

definition moka_stamp :: "'k rate_request \<Rightarrow> rat" where
  "moka_stamp r = moka_now_ms (rq_now r)"

definition redis_stamp :: "'k rate_request \<Rightarrow> rat" where
  "redis_stamp r = of_int (clock_ms (rq_now r))"

definition buckets_valid :: "'k buckets \<Rightarrow> bool" where
  "buckets_valid c \<longleftrightarrow> (\<forall>k b. c k = Some b \<longrightarrow> 0 \<le> bk_tokens b)"

definition bucket_holds :: "('k rate_request \<Rightarrow> rat) \<Rightarrow> 'k rate_request \<Rightarrow> rat \<Rightarrow> 'k buckets \<Rightarrow> bool" where
  "bucket_holds stamp p x c \<longleftrightarrow>
     (\<exists>b. c (rq_key p) = Some b \<and> bk_tokens b = x \<and> bk_updated_at b = stamp p \<and>
        rq_now p + rq_period p < bk_deadline b \<and> 0 \<le> x \<and> x \<le> of_nat (rq_capacity p))"

lemma fit_period:
  assumes "fit r"
  shows "1000 * of_nat (rq_capacity r) \<le> (of_int (as_millis (rq_period r)) :: rat)"
    and "(of_int (as_millis (rq_period r)) :: rat) \<le> 2 ^ 33" and "0 < (of_nat (rq_capacity r) :: rat)"
    and "(of_nat (rq_capacity r) :: rat) < 2 ^ 32" and "as_millis (rq_period r) \<noteq> 0"
    and "redis_period_ms (rq_period r) = as_millis (rq_period r)"
proof -
  have fit: "0 < rq_capacity r" "rq_capacity r < 2 ^ 32" "int (rq_capacity r) * 1000000000 \<le> rq_period r"
    "rq_period r < 2 ^ 52" using assms by (simp_all add: fit_def)
  have low: "1000 * int (rq_capacity r) \<le> as_millis (rq_period r)" and high: "as_millis (rq_period r) \<le> 2 ^ 33"
    using fit(3,4) by (simp_all add: as_millis_def)
  have "of_int (1000 * int (rq_capacity r)) \<le> (of_int (as_millis (rq_period r)) :: rat)"
    using low by (subst of_int_le_iff)
  then show "1000 * of_nat (rq_capacity r) \<le> (of_int (as_millis (rq_period r)) :: rat)" by simp
  have "of_int (as_millis (rq_period r)) \<le> (of_int (2 ^ 33) :: rat)"
    using high by (subst of_int_le_iff)
  then show "(of_int (as_millis (rq_period r)) :: rat) \<le> 2 ^ 33" by simp
  show "0 < (of_nat (rq_capacity r) :: rat)" using fit(1) by simp
  have "(of_nat (rq_capacity r) :: rat) < of_nat (2 ^ 32)" using fit(2) by (subst of_nat_less_iff)
  then show "(of_nat (rq_capacity r) :: rat) < 2 ^ 32" by simp
  have one: "1 \<le> as_millis (rq_period r)" using low fit(1) by linarith
  then show "as_millis (rq_period r) \<noteq> 0" by simp
  show "redis_period_ms (rq_period r) = as_millis (rq_period r)"
    using one high by (simp add: redis_period_ms_def)
qed

lemma refill_nonneg:
  assumes "0 \<le> stored" and "0 \<le> c" and "0 \<le> p"
  shows "0 \<le> refill c (rnd (c / rnd p)) x y stored"
  using assms by (simp add: refill_def rnd_bounds(3))

lemma refill_cap: "refill c rate x y stored \<le> c"
  by (simp add: refill_def)

lemma spend_nonneg: "0 \<le> t \<Longrightarrow> spend t = (a, t') \<Longrightarrow> 0 \<le> t'"
  by (auto simp: spend_def rnd_bounds(3) split: if_splits)

text \<open>One request on one bucket, as both backends do it.\<close>

definition take_token :: "rat \<Rightarrow> rat \<Rightarrow> rat \<Rightarrow> rat \<Rightarrow> rat \<Rightarrow> bool \<times> rat" where
  "take_token c p x y stored = spend (refill c (rnd (c / rnd p)) x y stored)"

lemma take_token_first:
  assumes "fit r" and "0 \<le> stored"
    and "take_token (of_nat (rq_capacity r)) (of_int (as_millis (rq_period r))) x y stored = (a, t)"
  shows "0 \<le> t" "t \<le> of_nat (rq_capacity r)" "t + of_bool a \<le> of_nat (rq_capacity r) + slack"
proof -
  note f = fit_period[OF assms(1)]
  let ?t = "refill (of_nat (rq_capacity r))
    (rnd (of_nat (rq_capacity r) / rnd (of_int (as_millis (rq_period r))))) x y stored"
  have t: "0 \<le> ?t" "?t \<le> of_nat (rq_capacity r)"
    using f(1,3) assms(2) by (auto intro!: refill_nonneg refill_cap)
  moreover have "?t < 2 ^ 32" using t(2) f(4) by linarith
  ultimately have s: "0 \<le> t" "t + of_bool a \<le> ?t + 1 / 1000000"
    using spend_bound[of ?t a t] assms(3) by (simp_all add: take_token_def)
  then show "0 \<le> t" "t + of_bool a \<le> of_nat (rq_capacity r) + slack" using t(2) by linarith+
  show "t \<le> of_nat (rq_capacity r)"
  proof (cases a)
    case True
    with s(2) have "t + 1 \<le> ?t + 1 / 1000000" by simp
    with t(2) show ?thesis by linarith
  next
    case False
    with assms(3) have "t = ?t" by (simp add: take_token_def spend_def split: if_splits)
    with t(2) show ?thesis by simp
  qed
qed

lemma take_token_next:
  assumes "fit r" and "0 \<le> stored" and "stored \<le> of_nat (rq_capacity r)"
    and "- (1 / 400) \<le> x - y" "x - y \<le> 2 ^ 33"
    and "take_token (of_nat (rq_capacity r)) (of_int (as_millis (rq_period r))) x y stored = (a, t)"
  shows "t + of_bool a \<le> stored + refill_rate r * (x - y) + slack"
proof -
  note f = fit_period[OF assms(1)]
  let ?t = "refill (of_nat (rq_capacity r))
    (rnd (of_nat (rq_capacity r) / rnd (of_int (as_millis (rq_period r))))) x y stored"
  have t: "0 \<le> ?t" "?t \<le> of_nat (rq_capacity r)" "?t \<le> stored + refill_rate r * (x - y) + 4 / 1000000"
    unfolding refill_rate_def using refill_bound[OF assms(2,3) f(3,4,1,2) assms(4,5)] by blast+
  moreover have "?t < 2 ^ 32" using t(2) f(4) by linarith
  ultimately have "t + of_bool a \<le> ?t + 1 / 1000000"
    using spend_bound[of ?t a t] assms(6) by (simp add: take_token_def)
  with t(3) show ?thesis by linarith
qed


lemma moka_admit_eq:
  assumes "rq_capacity r \<noteq> 0" and "rq_period r \<noteq> 0" and "as_millis (rq_period r) \<noteq> 0"
  shows "moka_admit r c =
    (let (y, stored) = (case bucket_get (rq_now r) (rq_key r) c of
           Some b \<Rightarrow> (bk_updated_at b, bk_tokens b) | None \<Rightarrow> (moka_stamp r, of_nat (rq_capacity r)));
         (a, t) = take_token (of_nat (rq_capacity r)) (of_int (as_millis (rq_period r))) (moka_stamp r) y stored;
         expiry = expiry_from_ttl (rq_later r) (moka_bucket_ttl (rq_period r))
     in (a, c(rq_key r \<mapsto> \<lparr>bk_tokens = t, bk_updated_at = moka_stamp r,
              bk_deadline = rq_later r + seconds (max 0 (wrap_i64 (expiry - unix_timestamp (rq_later r))))\<rparr>)))"
  using assms by (cases "bucket_get (rq_now r) (rq_key r) c")
    (simp_all add: moka_admit_def answer_def moka_consume_rate_limit_def Let_def moka_stamp_def
      take_token_def moka_tokens_def split: prod.splits)

lemma redis_admit_eq:
  assumes "rq_capacity r \<noteq> 0" and "rq_period r \<noteq> 0"
  shows "redis_admit r c =
    (let (y, stored) = (case bucket_get (rq_now r) (rq_key r) c of
           Some b \<Rightarrow> (bk_updated_at b, bk_tokens b) | None \<Rightarrow> (redis_stamp r, of_nat (rq_capacity r)));
         (a, t) = take_token (of_nat (rq_capacity r)) (of_int (redis_period_ms (rq_period r))) (redis_stamp r) y stored
     in (a, c(rq_key r \<mapsto> \<lparr>bk_tokens = t, bk_updated_at = redis_stamp r,
              bk_deadline = deadline_ms (clock_ms (rq_now r) + 2 * redis_period_ms (rq_period r))\<rparr>)))"
  using assms by (cases "bucket_get (rq_now r) (rq_key r) c")
    (simp_all add: redis_admit_def answer_def redis_consume_rate_limit_def Let_def redis_stamp_def
      take_token_def split: prod.splits)

lemma moka_deadline:
  assumes "fit r"
  shows "rq_now r + rq_period r <
    rq_later r + seconds (max 0 (wrap_i64 (expiry_from_ttl (rq_later r) (moka_bucket_ttl (rq_period r)) -
      unix_timestamp (rq_later r))))"
proof -
  have f: "0 \<le> rq_now r" "rq_now r \<le> rq_later r" "rq_later r < 2 ^ 62" "1000000000 \<le> rq_period r"
    "rq_period r < 2 ^ 52" using assms by (auto simp: fit_def)
  have ttl: "moka_bucket_ttl (rq_period r) = 2 * rq_period r" using f(5) by (simp add: moka_bucket_ttl_def)
  have secs: "0 \<le> as_secs (2 * rq_period r)" "as_secs (2 * rq_period r) < 2 ^ 53"
    "2 * rq_period r - 1000000000 < as_secs (2 * rq_period r) * 1000000000"
    using f(4,5) by (simp_all add: as_secs_def)
  have unix: "0 \<le> unix_timestamp (rq_later r)" "unix_timestamp (rq_later r) < 2 ^ 62"
    using f(1-3) by (simp_all add: unix_timestamp_def)
  have "expiry_from_ttl (rq_later r) (2 * rq_period r) = unix_timestamp (rq_later r) + as_secs (2 * rq_period r)"
    using secs unix by (simp add: expiry_from_ttl_def wrap_i64_def)
  moreover have "wrap_i64 (as_secs (2 * rq_period r)) = as_secs (2 * rq_period r)"
    using secs by (simp add: wrap_i64_def)
  ultimately show ?thesis using f secs unfolding ttl by (simp add: seconds_def)
qed

lemma redis_deadline:
  assumes "fit r"
  shows "rq_now r + rq_period r < deadline_ms (clock_ms (rq_now r) + 2 * as_millis (rq_period r))"
proof -
  have "1000000000 \<le> rq_period r" using assms by (auto simp: fit_def)
  moreover have "rq_now r < rq_now r div 1000000 * 1000000 + 1000000"
    and "rq_period r < rq_period r div 1000000 * 1000000 + 1000000" by presburger+
  ultimately show ?thesis by (simp add: deadline_ms_def clock_ms_def as_millis_def algebra_simps)
qed


lemma million:
  fixes a b c :: rat
  shows "a \<le> b / 1000000 + c \<longleftrightarrow> a * 1000000 \<le> b + c * 1000000"
    and "b / 1000000 \<le> a \<longleftrightarrow> b \<le> a * 1000000"
  by (simp_all add: field_simps)

lemma moka_stamp_close:
  assumes "0 \<le> now" and "now < 2 ^ 62"
  shows "\<bar>moka_now_ms now - of_int now / 1000000\<bar> \<le> 1 / 800"
proof -
  define q where "q = (of_int now :: rat)"
  have "(of_int now :: rat) \<le> of_int (2 ^ 62)" using assms(2) by (subst of_int_le_iff) simp
  then have q: "0 \<le> q" "q \<le> 2 ^ 62" using assms(1) by (simp_all add: q_def)
  have "\<bar>rnd q - q\<bar> \<le> q * unit_roundoff" using rnd_err[of q] q(1) by simp
  also have "\<dots> \<le> 2 ^ 62 * unit_roundoff" using q(2) by (rule mult_right_mono) simp
  finally have e1: "\<bar>rnd q - q\<bar> \<le> 512" by simp
  define x where "x = rnd q / 1000000"
  have x: "0 \<le> x" "x \<le> 4700000000000" using rnd_bounds(3)[OF q(1)] e1 q(2) by (simp_all add: x_def)
  have "\<bar>rnd x - x\<bar> \<le> x * unit_roundoff" using rnd_err[of x] x(1) by simp
  also have "\<dots> \<le> 4700000000000 * unit_roundoff" using x(2) by (rule mult_right_mono) simp
  finally have e2: "\<bar>rnd x - x\<bar> \<le> 4700000000000 * unit_roundoff" .
  have "\<bar>x - q / 1000000\<bar> = \<bar>rnd q - q\<bar> / 1000000" by (simp add: x_def flip: diff_divide_distrib)
  with e1 have "\<bar>x - q / 1000000\<bar> \<le> 512 / 1000000" by simp
  with e2 have "\<bar>rnd x - q / 1000000\<bar> \<le> 4700000000000 * unit_roundoff + 512 / 1000000" by linarith
  then have "\<bar>rnd x - q / 1000000\<bar> \<le> 1 / 800" by (rule order_trans) simp
  then show ?thesis unfolding moka_now_ms_def x_def q_def .
qed

text \<open>Within a period the stamps of a backend differ by the time that passed, up to two milliseconds.\<close>

definition stamps_close :: "('k rate_request \<Rightarrow> rat) \<Rightarrow> bool" where
  "stamps_close stamp \<longleftrightarrow>
     (\<forall>p r. fit p \<longrightarrow> fit r \<longrightarrow> rq_now p \<le> rq_now r \<longrightarrow>
        - (1 / 400) \<le> stamp r - stamp p \<and>
        stamp r - stamp p \<le> of_int (rq_now r - rq_now p) / 1000000 + 2)"

lemma nearby_stamps:
  fixes a b x y :: rat
  assumes "\<bar>x - a\<bar> \<le> 1 / 800" and "\<bar>y - b\<bar> \<le> 1 / 800" and "a \<le> b"
  shows "- (1 / 400) \<le> y - x \<and> y - x \<le> b - a + 2"
proof -
  have "x - a \<le> 1 / 800" "a - x \<le> 1 / 800" "y - b \<le> 1 / 800" "b - y \<le> 1 / 800"
    using assms(1,2) by (simp_all only: abs_le_iff minus_diff_eq)
  with assms(3) show ?thesis by linarith
qed

lemma moka_stamps_close: "stamps_close moka_stamp"
  unfolding stamps_close_def
proof (intro allI impI)
  fix p r :: "'a rate_request"
  assume "fit p" "fit r" and le: "rq_now p \<le> rq_now r"
  then have "0 \<le> rq_now p" "rq_now p < 2 ^ 62" "0 \<le> rq_now r" "rq_now r < 2 ^ 62"
    by (auto simp: fit_def)
  then have "\<bar>moka_stamp p - of_int (rq_now p) / 1000000\<bar> \<le> 1 / 800"
    and "\<bar>moka_stamp r - of_int (rq_now r) / 1000000\<bar> \<le> 1 / 800"
    unfolding moka_stamp_def using moka_stamp_close by blast+
  moreover have "of_int (rq_now p) / 1000000 \<le> (of_int (rq_now r) / 1000000 :: rat)"
    using le by (simp add: divide_right_mono)
  moreover have "(of_int (rq_now r - rq_now p) / 1000000 :: rat) = of_int (rq_now r) / 1000000 - of_int (rq_now p) / 1000000"
    by (simp add: diff_divide_distrib)
  ultimately show "- (1 / 400) \<le> moka_stamp r - moka_stamp p \<and>
      moka_stamp r - moka_stamp p \<le> of_int (rq_now r - rq_now p) / 1000000 + 2"
    using nearby_stamps by metis
qed

lemma redis_stamps_close: "stamps_close redis_stamp"
  unfolding stamps_close_def
proof (intro allI impI)
  fix p r :: "'a rate_request"
  assume le: "rq_now p \<le> rq_now r"
  have mono: "clock_ms (rq_now p) \<le> clock_ms (rq_now r)" using le by (simp add: clock_ms_def zdiv_mono1)
  have "(clock_ms (rq_now r) - clock_ms (rq_now p)) * 1000000 \<le> rq_now r - rq_now p + 2 * 1000000"
    unfolding clock_ms_def by presburger
  then have "of_int ((clock_ms (rq_now r) - clock_ms (rq_now p)) * 1000000) \<le>
      (of_int (rq_now r - rq_now p + 2 * 1000000) :: rat)"
    by (subst of_int_le_iff)
  then have "(redis_stamp r - redis_stamp p) * 1000000 \<le> of_int (rq_now r - rq_now p) + 2000000"
    by (simp add: redis_stamp_def)
  then have "redis_stamp r - redis_stamp p \<le> of_int (rq_now r - rq_now p) / 1000000 + 2"
    by (simp add: million)
  moreover have "redis_stamp p \<le> redis_stamp r" using mono by (simp add: redis_stamp_def)
  ultimately show "- (1 / 400) \<le> redis_stamp r - redis_stamp p \<and>
      redis_stamp r - redis_stamp p \<le> of_int (rq_now r - rq_now p) / 1000000 + 2"
    by simp
qed

lemma stamps_within_period:
  assumes "stamps_close stamp" and "fit p" "fit r" and "rq_now p \<le> rq_now r" "rq_now r \<le> rq_now p + rq_period p"
  shows "- (1 / 400) \<le> stamp r - stamp p" "stamp r - stamp p \<le> of_int (as_millis (rq_period p)) + 3"
    "stamp r - stamp p \<le> 2 ^ 33"
proof -
  have c: "- (1 / 400) \<le> stamp r - stamp p" "stamp r - stamp p \<le> of_int (rq_now r - rq_now p) / 1000000 + 2"
    using assms by (auto simp: stamps_close_def)
  show "- (1 / 400) \<le> stamp r - stamp p" by (rule c)
  have "rq_now r - rq_now p \<le> as_millis (rq_period p) * 1000000 + 1000000"
  proof -
    have "rq_period p < rq_period p div 1000000 * 1000000 + 1000000" by presburger
    with assms(5) show ?thesis by (simp add: as_millis_def)
  qed
  then have "of_int (rq_now r - rq_now p) \<le> (of_int (as_millis (rq_period p) * 1000000 + 1000000) :: rat)"
    by (subst of_int_le_iff)
  then have "of_int (rq_now r - rq_now p) / 1000000 \<le> (of_int (as_millis (rq_period p)) + 1 :: rat)"
    by (simp add: million)
  with c(2) show "stamp r - stamp p \<le> of_int (as_millis (rq_period p)) + 3" by linarith
  have "rq_now r - rq_now p \<le> 2 ^ 52" using assms(2,5) by (simp add: fit_def)
  then have "of_int (rq_now r - rq_now p) \<le> (of_int (2 ^ 52) :: rat)" by (subst of_int_le_iff)
  then have "of_int (rq_now r - rq_now p) / 1000000 \<le> (4600000000 :: rat)" by (simp add: million)
  with c(2) have "stamp r - stamp p \<le> 4600000002" by linarith
  then show "stamp r - stamp p \<le> 2 ^ 33" by simp
qed


text \<open>What one request does to its bucket, for either backend.\<close>

definition bucket_step :: "('k rate_request \<Rightarrow> rat) \<Rightarrow> 'k rate_request \<Rightarrow> 'k buckets \<Rightarrow> bool \<times> 'k buckets \<Rightarrow> bool" where
  "bucket_step stamp r c result \<longleftrightarrow>
     (\<exists>y stored a t deadline.
        (case bucket_get (rq_now r) (rq_key r) c of
           Some b \<Rightarrow> (bk_updated_at b, bk_tokens b) | None \<Rightarrow> (stamp r, of_nat (rq_capacity r))) = (y, stored) \<and>
        take_token (of_nat (rq_capacity r)) (of_int (as_millis (rq_period r))) (stamp r) y stored = (a, t) \<and>
        rq_now r + rq_period r < deadline \<and>
        result = (a, c(rq_key r \<mapsto> \<lparr>bk_tokens = t, bk_updated_at = stamp r, bk_deadline = deadline\<rparr>)))"

lemma moka_bucket_step:
  assumes "fit r"
  shows "bucket_step moka_stamp r c (moka_admit r c)"
proof -
  have "rq_capacity r \<noteq> 0" "rq_period r \<noteq> 0" "as_millis (rq_period r) \<noteq> 0"
    using assms fit_period(5)[OF assms] by (auto simp: fit_def)
  from moka_admit_eq[OF this] show ?thesis
    using moka_deadline[OF assms] unfolding bucket_step_def by (auto simp: Let_def split: prod.splits)
qed

lemma redis_bucket_step:
  assumes "fit r"
  shows "bucket_step redis_stamp r c (redis_admit r c)"
proof -
  have "rq_capacity r \<noteq> 0" "rq_period r \<noteq> 0"
    using assms by (auto simp: fit_def)
  from redis_admit_eq[OF this] show ?thesis
    using redis_deadline[OF assms] fit_period(6)[OF assms]
    unfolding bucket_step_def by (auto simp: Let_def split: prod.splits)
qed

lemma bucket_first:
  assumes "buckets_valid c" and "fit r" and "bucket_step stamp r c (a, c')"
  shows "\<exists>x. bucket_holds stamp r x c' \<and> x + of_bool a \<le> of_nat (rq_capacity r) + slack"
proof -
  obtain y stored t deadline where
    start: "(case bucket_get (rq_now r) (rq_key r) c of
       Some b \<Rightarrow> (bk_updated_at b, bk_tokens b) | None \<Rightarrow> (stamp r, of_nat (rq_capacity r))) = (y, stored)"
    and take: "take_token (of_nat (rq_capacity r)) (of_int (as_millis (rq_period r))) (stamp r) y stored = (a, t)"
    and "rq_now r + rq_period r < deadline"
    and c': "c' = c(rq_key r \<mapsto> \<lparr>bk_tokens = t, bk_updated_at = stamp r, bk_deadline = deadline\<rparr>)"
    using assms(3) by (auto simp: bucket_step_def)
  have "0 \<le> stored"
    using start assms(1) by (auto simp: buckets_valid_def bucket_get_def split: option.splits if_splits)
  from take_token_first[OF assms(2) this take] have "bucket_holds stamp r t c'"
    "t + of_bool a \<le> of_nat (rq_capacity r) + slack"
    using \<open>rq_now r + rq_period r < deadline\<close> by (simp_all add: bucket_holds_def c')
  then show ?thesis by blast
qed

lemma bucket_next:
  assumes "stamps_close stamp" and "fit p" and "fit r" and "follows p r" and "bucket_holds stamp p x c"
    and "bucket_step stamp r c (a, c')"
  shows "\<exists>y. bucket_holds stamp r y c' \<and> y + of_bool a \<le> x + refill_rate r * (stamp r - stamp p) + slack"
proof -
  have same: "rq_key r = rq_key p" "rq_capacity r = rq_capacity p" "rq_period r = rq_period p"
    and times: "rq_now p \<le> rq_now r" "rq_now r \<le> rq_now p + rq_period p"
    using assms(4) by (simp_all add: follows_def)
  obtain b where b: "c (rq_key p) = Some b" "bk_tokens b = x" "bk_updated_at b = stamp p"
    "rq_now p + rq_period p < bk_deadline b" "0 \<le> x" "x \<le> of_nat (rq_capacity p)"
    using assms(5) by (auto simp: bucket_holds_def)
  then have "bucket_get (rq_now r) (rq_key r) c = Some b"
    using times same by (simp add: bucket_get_def)
  then obtain t deadline where
    take: "take_token (of_nat (rq_capacity r)) (of_int (as_millis (rq_period r))) (stamp r) (stamp p) x = (a, t)"
    and dl: "rq_now r + rq_period r < deadline"
    and c': "c' = c(rq_key r \<mapsto> \<lparr>bk_tokens = t, bk_updated_at = stamp r, bk_deadline = deadline\<rparr>)"
    using assms(6) b(2,3) by (auto simp: bucket_step_def)
  have x: "x \<le> of_nat (rq_capacity r)" using b(6) same by simp
  note near = stamps_within_period[OF assms(1-3) times]
  from take_token_first[OF assms(3) b(5) take] have "bucket_holds stamp r t c'"
    using dl by (simp add: bucket_holds_def c')
  with take_token_next[OF assms(3) b(5) x near(1,3) take] show ?thesis by blast
qed


lemma bucket_other:
  assumes "rq_key r \<noteq> rq_key p" and "bucket_holds stamp p x c" and "c' (rq_key p) = c (rq_key p)"
  shows "bucket_holds stamp p x c'"
  using assms by (simp add: bucket_holds_def)

lemma moka_other: "k \<noteq> rq_key r \<Longrightarrow> moka_admit r c = (a, c') \<Longrightarrow> c' k = c k"
  by (auto simp: moka_admit_def answer_def moka_consume_rate_limit_def Let_def split: prod.splits if_splits)

lemma redis_other: "k \<noteq> rq_key r \<Longrightarrow> redis_admit r c = (a, c') \<Longrightarrow> c' k = c k"
  by (auto simp: redis_admit_def answer_def redis_consume_rate_limit_def Let_def split: prod.splits if_splits)

lemma stored_nonneg:
  "buckets_valid c \<Longrightarrow> 0 \<le> snd (case bucket_get now k c of Some b \<Rightarrow> (bk_updated_at b, bk_tokens b) | None \<Rightarrow> (z, of_nat n))"
  by (auto simp: buckets_valid_def bucket_get_def split: option.splits)

lemma valid_upd: "buckets_valid c \<Longrightarrow> 0 \<le> bk_tokens b \<Longrightarrow> buckets_valid (c(k \<mapsto> b))"
  by (simp add: buckets_valid_def)

lemma moka_valid:
  assumes "buckets_valid c" and "0 \<le> rq_period r" and "moka_admit r c = (a, c')"
  shows "buckets_valid c'"
proof (cases "rq_capacity r = 0 \<or> rq_period r = 0")
  case True
  then show ?thesis using assms(1,3) by (auto simp: moka_admit_def answer_def moka_consume_rate_limit_def)
next
  case False
  obtain y stored where start: "(case bucket_get (rq_now r) (rq_key r) c of
      Some b \<Rightarrow> (bk_updated_at b, bk_tokens b) | None \<Rightarrow> (moka_now_ms (rq_now r), of_nat (rq_capacity r))) = (y, stored)"
    by fastforce
  then have "0 \<le> stored"
    using stored_nonneg[OF assms(1), where now = "rq_now r" and k = "rq_key r" and
      z = "moka_now_ms (rq_now r)" and n = "rq_capacity r"] by simp
  then have t0: "0 \<le> moka_tokens (rq_capacity r) (rq_period r) (moka_now_ms (rq_now r)) y stored"
    using assms(2) by (simp add: moka_tokens_def refill_nonneg as_millis_def pos_imp_zdiv_nonneg_iff)
  obtain b t where spend: "spend (moka_tokens (rq_capacity r) (rq_period r) (moka_now_ms (rq_now r)) y stored) = (b, t)"
    by fastforce
  have "0 \<le> t" by (rule spend_nonneg[OF t0 spend])
  moreover have "\<exists>m d. c' = c(rq_key r \<mapsto> \<lparr>bk_tokens = t, bk_updated_at = m, bk_deadline = d\<rparr>)"
    using False assms(3) start spend
    by (auto simp: moka_admit_def answer_def moka_consume_rate_limit_def Let_def)
  ultimately show ?thesis using valid_upd[OF assms(1)] by fastforce
qed

lemma redis_valid:
  assumes "buckets_valid c" and "redis_admit r c = (a, c')"
  shows "buckets_valid c'"
proof (cases "rq_capacity r = 0 \<or> rq_period r = 0")
  case True
  then show ?thesis using assms by (auto simp: redis_admit_def answer_def redis_consume_rate_limit_def)
next
  case False
  obtain y stored where start: "(case bucket_get (rq_now r) (rq_key r) c of
      Some b \<Rightarrow> (bk_updated_at b, bk_tokens b) | None \<Rightarrow> (redis_stamp r, of_nat (rq_capacity r))) = (y, stored)"
    by fastforce
  then have "0 \<le> stored"
    using stored_nonneg[OF assms(1), where now = "rq_now r" and k = "rq_key r" and
      z = "redis_stamp r" and n = "rq_capacity r"] by simp
  moreover have "0 \<le> redis_period_ms (rq_period r)" by (simp add: redis_period_ms_def)
  ultimately have t0: "0 \<le> refill (of_nat (rq_capacity r))
      (rnd (of_nat (rq_capacity r) / rnd (of_int (redis_period_ms (rq_period r))))) (redis_stamp r) y stored"
    by (intro refill_nonneg) simp_all
  obtain b t where spend: "take_token (of_nat (rq_capacity r)) (of_int (redis_period_ms (rq_period r))) (redis_stamp r) y stored = (b, t)"
    by fastforce
  have "0 \<le> t" by (rule spend_nonneg[OF t0 spend[unfolded take_token_def]])
  moreover have "\<exists>m d. c' = c(rq_key r \<mapsto> \<lparr>bk_tokens = t, bk_updated_at = m, bk_deadline = d\<rparr>)"
    using False assms(2) redis_admit_eq[of r c] by (auto simp: Let_def start spend)
  ultimately show ?thesis using valid_upd[OF assms(1)] by fastforce
qed

interpretation ml: limiter moka_admit moka_stamp buckets_valid "bucket_holds moka_stamp"
proof
  show "buckets_valid c'" if "buckets_valid c" "0 \<le> rq_period r" "moka_admit r c = (a, c')" for c c' a and r :: "'k rate_request"
    using that by (rule moka_valid)
  show "0 \<le> x" if "bucket_holds moka_stamp p x c" for p :: "'k rate_request" and x c
    using that by (auto simp: bucket_holds_def)
  show "\<exists>x. bucket_holds moka_stamp r x c' \<and> x + of_bool a \<le> of_nat (rq_capacity r) + slack"
    if "buckets_valid c" "fit r" "moka_admit r c = (a, c')" for c c' a and r :: "'k rate_request"
    using bucket_first[OF that(1,2)] moka_bucket_step[OF that(2), of c] that(3) by simp
  show "\<exists>y. bucket_holds moka_stamp r y c' \<and> y + of_bool a \<le> x + refill_rate r * (moka_stamp r - moka_stamp p) + slack"
    if "fit p" "fit r" "follows p r" "bucket_holds moka_stamp p x c" "moka_admit r c = (a, c')"
    for c c' a x and p r :: "'k rate_request"
    using bucket_next[OF moka_stamps_close that(1-4)] moka_bucket_step[OF that(2), of c] that(5) by simp
  show "bucket_holds moka_stamp p x c'"
    if "rq_key r \<noteq> rq_key p" "bucket_holds moka_stamp p x c" "moka_admit r c = (a, c')"
    for c c' a x and p r :: "'k rate_request"
    using bucket_other[OF that(1,2)] moka_other[OF _ that(3)] that(1) by metis
qed

interpretation rl: limiter redis_admit redis_stamp buckets_valid "bucket_holds redis_stamp"
proof
  show "buckets_valid c'" if "buckets_valid c" "0 \<le> rq_period r" "redis_admit r c = (a, c')" for c c' a and r :: "'k rate_request"
    using that(1,3) by (rule redis_valid)
  show "0 \<le> x" if "bucket_holds redis_stamp p x c" for p :: "'k rate_request" and x c
    using that by (auto simp: bucket_holds_def)
  show "\<exists>x. bucket_holds redis_stamp r x c' \<and> x + of_bool a \<le> of_nat (rq_capacity r) + slack"
    if "buckets_valid c" "fit r" "redis_admit r c = (a, c')" for c c' a and r :: "'k rate_request"
    using bucket_first[OF that(1,2)] redis_bucket_step[OF that(2), of c] that(3) by simp
  show "\<exists>y. bucket_holds redis_stamp r y c' \<and> y + of_bool a \<le> x + refill_rate r * (redis_stamp r - redis_stamp p) + slack"
    if "fit p" "fit r" "follows p r" "bucket_holds redis_stamp p x c" "redis_admit r c = (a, c')"
    for c c' a x and p r :: "'k rate_request"
    using bucket_next[OF redis_stamps_close that(1-4)] redis_bucket_step[OF that(2), of c] that(5) by simp
  show "bucket_holds redis_stamp p x c'"
    if "rq_key r \<noteq> rq_key p" "bucket_holds redis_stamp p x c" "redis_admit r c = (a, c')"
    for c c' a x and p r :: "'k rate_request"
    using bucket_other[OF that(1,2)] redis_other[OF _ that(3)] that(1) by metis
qed


section \<open>The limit holds\<close>

definition admit :: "'k rate_request \<Rightarrow> 'k bucket_store \<Rightarrow> bool \<times> 'k bucket_store" where
  "admit r = answer (consume_rate_limit (rq_now r) (rq_later r) (rq_key r) (rq_capacity r) (rq_period r))"

lemma admit_moka: "admit r (MokaBuckets c) = (case moka_admit r c of (a, c') \<Rightarrow> (a, MokaBuckets c'))"
  by (simp add: admit_def moka_admit_def answer_def consume_rate_limit_def split: prod.splits sum.splits)

lemma admit_redis: "admit r (RedisBuckets c) = (case redis_admit r c of (a, c') \<Rightarrow> (a, RedisBuckets c'))"
  by (simp add: admit_def redis_admit_def answer_def consume_rate_limit_def split: prod.splits sum.splits)

lemma admissions_moka:
  "admissions admit mine rs (MokaBuckets c) =
   (case admissions moka_admit mine rs c of (n, c') \<Rightarrow> (n, MokaBuckets c'))"
  by (induction rs arbitrary: c) (simp_all add: admit_moka split: prod.splits)

lemma admissions_redis:
  "admissions admit mine rs (RedisBuckets c) =
   (case admissions redis_admit mine rs c of (n, c') \<Rightarrow> (n, RedisBuckets c'))"
  by (induction rs arbitrary: c) (simp_all add: admit_redis split: prod.splits)

lemma moka_history:
  "buckets_valid c \<Longrightarrow> \<forall>r\<in>set rs. 0 \<le> rq_period r \<Longrightarrow> buckets_valid (snd (admissions moka_admit mine rs c))"
proof (induction rs arbitrary: c)
  case (Cons r rs)
  obtain a c1 where "moka_admit r c = (a, c1)" by (cases "moka_admit r c")
  with Cons.prems Cons.IH[of c1] moka_valid[of c r a c1] show ?case by (auto split: prod.splits)
qed simp

lemma redis_history:
  "buckets_valid c \<Longrightarrow> buckets_valid (snd (admissions redis_admit mine rs c))"
proof (induction rs arbitrary: c)
  case (Cons r rs)
  obtain a c1 where "redis_admit r c = (a, c1)" by (cases "redis_admit r c")
  with Cons.prems Cons.IH[of c1] redis_valid[of c r a c1] show ?case by (auto split: prod.splits)
qed simp

text \<open>The bound of the locale, counted in requests.\<close>

lemma twice_capacity:
  assumes "stamps_close stamp" and "fit p" and "q \<in> set (p # rs)" and "\<forall>r\<in>set (p # rs). fit r"
    and "sorted (map rq_now (p # rs))" and "\<forall>r\<in>set rs. rq_now r \<le> rq_now p + rq_period p"
    and "length (p # rs) \<le> 100000"
    and "of_nat n \<le> of_nat (rq_capacity p) + refill_rate p * (stamp q - stamp p) +
      of_nat (length (filter mine (p # rs))) * slack"
  shows "n \<le> 2 * rq_capacity p"
proof -
  note f = fit_period[OF assms(2)]
  let ?c = "of_nat (rq_capacity p) :: rat" and ?p = "of_int (as_millis (rq_period p)) :: rat"
  have "rq_now p \<le> rq_now q" "rq_now q \<le> rq_now p + rq_period p"
    using assms(2,3,5,6) by (auto simp: fit_def)
  with assms(1-4) have "stamp q - stamp p \<le> ?p + 3" using stamps_within_period(2) by blast
  moreover have rate: "0 \<le> refill_rate p" "refill_rate p * ?p = ?c" "refill_rate p \<le> 1 / 1000"
    using f(1,3,5) by (auto simp: refill_rate_def field_simps)
  ultimately have "refill_rate p * (stamp q - stamp p) \<le> refill_rate p * (?p + 3)"
    by (intro mult_left_mono)
  then have "refill_rate p * (stamp q - stamp p) \<le> ?c + 3 / 1000"
    using rate by (simp add: distrib_left)
  moreover have "of_nat (length (filter mine (p # rs))) \<le> (100000 :: rat)"
  proof -
    have "length (filter mine (p # rs)) \<le> 100000" using length_filter_le[of mine "p # rs"] assms(7) by linarith
    then have "of_nat (length (filter mine (p # rs))) \<le> (of_nat 100000 :: rat)" by (subst of_nat_le_iff)
    then show ?thesis by simp
  qed
  then have "of_nat (length (filter mine (p # rs))) * slack \<le> 100000 * slack"
    by (rule mult_right_mono) simp
  then have "of_nat (length (filter mine (p # rs))) * slack \<le> 1 / 2" by simp
  ultimately have "of_nat n \<le> ?c + (?c + 3 / 1000) + 1 / 2" using assms(8) by linarith
  then have "of_nat n < 2 * ?c + 1" by simp
  then have "(of_nat n :: rat) < of_nat (2 * rq_capacity p + 1)" by simp
  then show ?thesis unfolding of_nat_less_iff by simp
qed

text \<open>A key without a bucket starts with a full one: its first request passes.\<close>

lemma rnd_of_nat:
  assumes "n < 2 ^ 53"
  shows "rnd (of_nat n) = of_nat n"
proof -
  have "quotient_of (of_nat n) = (int n, 1)" using quotient_of_int[of "int n"] by simp
  moreover have "f64_div n 1 = Fin (of_nat n)"
    using assms by (simp add: f64_div_def Let_def down_shift_small)
  ultimately show ?thesis by (simp add: rnd_def)
qed

lemma full_bucket_pays:
  assumes "0 < c" and "c < 2 ^ 32"
  shows "1 \<le> refill (of_nat c) rate x x (of_nat c)"
proof -
  have "rnd 0 = 0" using rnd_of_nat[of 0] by simp
  then have "refill (of_nat c) rate x x (of_nat c) = of_nat c"
    using assms(2) by (simp add: refill_def rnd_of_nat)
  then show ?thesis using assms(1) by simp
qed

lemma fresh_key_admitted:
  assumes "0 < rq_capacity r" and "rq_capacity r < 2 ^ 32" and "0 < rq_period r" and "c (rq_key r) = None"
  shows "fst (admit r (MokaBuckets c))" and "fst (admit r (RedisBuckets c))"
  using assms full_bucket_pays[OF assms(1,2)]
  by (simp_all add: admit_moka admit_redis moka_admit_def redis_admit_def answer_def moka_consume_rate_limit_def
      redis_consume_rate_limit_def bucket_get_def moka_tokens_def spend_def Let_def)

text \<open>
  C40. The rate limit is a limit. Whatever was asked before, within one period at most twice the capacity of
  the requests for a key pass (a full bucket and what refills), on both backends and in the double
  precision the code computes in, for up to 100,000 requests under limits that leave at least a second for
  each token (\<open>fit\<close>).
\<close>

theorem rate_limit_holds:
  assumes "store = MokaBuckets Map.empty \<or> store = RedisBuckets Map.empty"
    and "\<forall>r\<in>set history. 0 \<le> rq_period r"
    and "\<forall>r\<in>set (p # rs). fit r" and "sorted (map rq_now (p # rs))"
    and "\<forall>r\<in>set rs. rq_key r = rq_key p \<longrightarrow> rq_capacity r = rq_capacity p \<and> rq_period r = rq_period p"
    and "\<forall>r\<in>set rs. rq_now r \<le> rq_now p + rq_period p" and "length (p # rs) \<le> 100000"
  shows "fst (admissions admit (\<lambda>r. rq_key r = rq_key p) (p # rs) (snd (admissions admit (\<lambda>r. True) history store)))
    \<le> 2 * rq_capacity p"
proof -
  let ?mine = "\<lambda>r. rq_key r = rq_key p"
  have fit: "fit p" using assms(3) by simp
  have empty: "buckets_valid Map.empty" by (simp add: buckets_valid_def)
  from assms(1) show ?thesis
  proof
    assume store: "store = MokaBuckets Map.empty"
    define c where "c = snd (admissions moka_admit (\<lambda>r. True) history Map.empty)"
    have valid: "buckets_valid c" unfolding c_def using empty assms(2) by (rule moka_history)
    obtain n c' where n: "admissions moka_admit ?mine (p # rs) c = (n, c')" by fastforce
    from ml.window[OF valid assms(3-6) n] obtain q where "q \<in> set (p # rs)"
      "of_nat n \<le> of_nat (rq_capacity p) + refill_rate p * (moka_stamp q - moka_stamp p) +
        of_nat (length (filter ?mine (p # rs))) * slack" by blast
    from twice_capacity[OF moka_stamps_close fit this(1) assms(3,4,6,7) this(2)] show ?thesis
      using n by (simp only: store admissions_moka c_def[symmetric] split_beta snd_conv fst_conv)
  next
    assume store: "store = RedisBuckets Map.empty"
    define c where "c = snd (admissions redis_admit (\<lambda>r. True) history Map.empty)"
    have valid: "buckets_valid c" unfolding c_def using empty by (rule redis_history)
    obtain n c' where n: "admissions redis_admit ?mine (p # rs) c = (n, c')" by fastforce
    from rl.window[OF valid assms(3-6) n] obtain q where "q \<in> set (p # rs)"
      "of_nat n \<le> of_nat (rq_capacity p) + refill_rate p * (redis_stamp q - redis_stamp p) +
        of_nat (length (filter ?mine (p # rs))) * slack" by blast
    from twice_capacity[OF redis_stamps_close fit this(1) assms(3,4,6,7) this(2)] show ?thesis
      using n by (simp only: store admissions_redis c_def[symmetric] split_beta snd_conv fst_conv)
  qed
qed

definition ask :: "time \<Rightarrow> string rate_request" where
  "ask now = \<lparr>rq_now = now, rq_later = now, rq_key = ''login'', rq_capacity = 2, rq_period = seconds 60\<rparr>"

definition burst :: "string rate_request list" where
  "burst = map (\<lambda>n. ask (1000 * 10 ^ 9 + seconds n)) [0, 1, 2, 30, 31, 60]"

theorem rate_limit_holds_witness:
  "fst (admissions admit (\<lambda>r. rq_key r = ''login'') burst (MokaBuckets Map.empty)) \<le> 4 \<and>
   fst (admissions admit (\<lambda>r. rq_key r = ''login'') burst (RedisBuckets Map.empty)) \<le> 4"
proof -
  have "fst (admissions admit (\<lambda>r. rq_key r = rq_key (hd burst)) (hd burst # tl burst)
    (snd (admissions admit (\<lambda>r. True) [] store))) \<le> 2 * rq_capacity (hd burst)"
    if "store = MokaBuckets Map.empty \<or> store = RedisBuckets Map.empty" for store :: "string bucket_store"
    using that by (rule rate_limit_holds) (simp_all add: burst_def ask_def fit_def seconds_def)
  then show ?thesis by (simp add: burst_def ask_def)
qed

end
