(* ===== verification/Sessions.thy ===== *)
theory Sessions
  imports AuthTokens CacheContract RateLimit
begin

text \<open>
  Sessions (\<open>src/crates/session\<close>), their check against the database
  (\<open>infra/http/middlewares/session.rs\<close>), CSRF tokens (\<open>infra/http/middlewares/csrf.rs\<close>), the issue of a
  session (\<open>domain/authenticated_sessions.rs\<close>) and safe return paths (\<open>infra/http/redirects.rs\<close>). The state
  is the database, the cache and, apart from it because their keys differ, the rate limits. Keys of the
  cache are kept as their parts; what \<open>serde_json\<close> writes and reads is a parameter (\<open>session_codec\<close>).
\<close>

section \<open>The cache as texts\<close>

locale text_store =
  fixes held :: "'s \<Rightarrow> 'k \<Rightarrow> string option"
    and get :: "time \<Rightarrow> 'k \<Rightarrow> ('s, anyhow, string option) oper"
    and put :: "time \<Rightarrow> 'k \<Rightarrow> string \<Rightarrow> int \<Rightarrow> ('s, anyhow, unit) oper"
    and renew :: "time \<Rightarrow> 'k \<Rightarrow> string \<Rightarrow> int \<Rightarrow> ('s, anyhow, bool) oper"
    and clear :: "time \<Rightarrow> 'k \<Rightarrow> ('s, anyhow, unit) oper"
  assumes get_text: "get now k s = (Inr (Some v), s') \<Longrightarrow> held s k = Some v"
    and get_same: "get now k s = (rg, s') \<Longrightarrow> s' = s"
    and put_text: "put now k v ttl s = (rp, s') \<Longrightarrow> held s' = held s \<or> held s' = (held s)(k \<mapsto> v)"
    and put_done: "put now k v ttl s = (Inr (), s') \<Longrightarrow> held s' = (held s)(k \<mapsto> v)"
    and renew_text: "renew now k v ttl s = (rr, s') \<Longrightarrow> held s' = held s \<or> held s' = (held s)(k \<mapsto> v)"
    and clear_text: "clear now k s = (rc, s') \<Longrightarrow> held s' = (held s)(k := None)"
begin

text \<open>\<open>P\<close> holds of the text under a key, if there is one.\<close>

definition guarded :: "(string \<Rightarrow> bool) \<Rightarrow> 'k \<Rightarrow> 's \<Rightarrow> bool" where
  "guarded P k s \<longleftrightarrow> (\<forall>v. held s k = Some v \<longrightarrow> P v)"

lemma guarded_get: "guarded P k s \<Longrightarrow> get now k s = (Inr (Some v), s') \<Longrightarrow> P v"
  using get_text by (auto simp: guarded_def)

lemma guarded_put: "guarded P k s \<Longrightarrow> put now j v ttl s = (r, s') \<Longrightarrow> j = k \<longrightarrow> P v \<Longrightarrow> guarded P k s'"
  using put_text[of now j v ttl s r s'] by (auto simp: guarded_def split: if_splits)

lemma guarded_new: "put now k v ttl s = (Inr (), s') \<Longrightarrow> P v \<Longrightarrow> guarded P k s'"
  using put_done[of now k v ttl s s'] by (simp add: guarded_def)

lemma guarded_renew: "guarded P k s \<Longrightarrow> renew now j v ttl s = (r, s') \<Longrightarrow> j = k \<longrightarrow> P v \<Longrightarrow> guarded P k s'"
  using renew_text[of now j v ttl s r s'] by (auto simp: guarded_def split: if_splits)

lemma guarded_clear: "guarded P k s \<Longrightarrow> clear now j s = (r, s') \<Longrightarrow> guarded P k s'"
  using clear_text[of now j s r s'] by (auto simp: guarded_def)

lemma guarded_mono: "guarded P k s \<Longrightarrow> (\<And>v. P v \<Longrightarrow> Q v) \<Longrightarrow> guarded Q k s"
  by (auto simp: guarded_def)

end

definition cached_text :: "'k cache_store \<Rightarrow> 'k \<Rightarrow> string option" where
  "cached_text s k =
     (case s of
        MokaStore c \<Rightarrow> map_option (\<lambda>e. stored_value (fst e)) (c k)
      | RedisStore c \<Rightarrow> map_option fst (c k))"

lemma stored_fresh: "stored_value (with_expiry (expiry_from_ttl now ttl) v) = v"
proof -
  have "i64 (expiry_from_ttl now ttl)"
    by (simp add: i64_def expiry_from_ttl_def wrap_i64_def)
  then show ?thesis by (rule stored_with_expiry)
qed

interpretation tx: text_store cached_text cache_get cache_set cache_update_if_present cache_delete
proof
  show "cached_text s k = Some v" if "cache_get now k s = (Inr (Some v), s')" for now k v and s s' :: "'k cache_store"
    using that by (auto simp: cache_get_def on_store_def moka_get_def redis_get_def cached_text_def entry_get_def
        split: cache_store.splits option.splits if_splits)
  show "s' = s" if "cache_get now k s = (r, s')" for now k r and s s' :: "'k cache_store"
    using that by (auto simp: cache_get_def on_store_def moka_get_def redis_get_def split: cache_store.splits)
  show "cached_text s' = cached_text s \<or> cached_text s' = (cached_text s)(k \<mapsto> v)"
    if "cache_set now k v ttl s = (r, s')" for now k v ttl r and s s' :: "'k cache_store"
    using that by (auto simp: cache_set_def on_store_def moka_set_def redis_set_def moka_insert_def redis_put_def
        cached_text_def stored_fresh fun_eq_iff split: cache_store.splits if_splits)
  show "cached_text s' = (cached_text s)(k \<mapsto> v)"
    if "cache_set now k v ttl s = (Inr (), s')" for now k v ttl and s s' :: "'k cache_store"
    using that by (auto simp: cache_set_def on_store_def moka_set_def redis_set_def moka_insert_def redis_put_def
        cached_text_def stored_fresh fun_eq_iff split: cache_store.splits if_splits)
  show "cached_text s' = cached_text s \<or> cached_text s' = (cached_text s)(k \<mapsto> v)"
    if "cache_update_if_present now k v ttl s = (r, s')" for now k v ttl r and s s' :: "'k cache_store"
    using that by (auto simp: cache_update_if_present_def on_store_def moka_update_if_present_def
        redis_update_if_present_def moka_insert_def redis_put_def cached_text_def stored_fresh fun_eq_iff
        split: cache_store.splits if_splits)
  show "cached_text s' = (cached_text s)(k := None)"
    if "cache_delete now k s = (r, s')" for now k r and s s' :: "'k cache_store"
    using that by (auto simp: cache_delete_def on_store_def moka_delete_def redis_delete_def entry_remove_def
        cached_text_def fun_eq_iff split: cache_store.splits)
qed

section \<open>State\<close>

datatype auth_key =
    SessionKey string
  | CsrfKey string
  | ChallengeKey string
  | MfaCodeKey string uuid

datatype rate_key =
    LoginAccountRate string
  | LoginIpRate string
  | MfaAttemptRate string
  | MfaSendRate string uuid
  | ForgotRate string
  | ResendRate string

record auth_service =
  as_db :: world
  as_cache :: "auth_key cache_store"
  as_rates :: "rate_key bucket_store"

record auth_config =
  cf_idle_ttl_seconds :: nat
  cf_session_ttl_seconds :: nat
  cf_secret_key :: string
  cf_mail_enabled :: bool
  cf_development :: bool

type_synonym ('e, 'a) asm = "(auth_service, 'e, 'a) oper"

definition in_db :: "('e, 'a) dbm \<Rightarrow> ('e, 'a) asm" where
  "in_db m s = (case m (as_db s) of (r, w) \<Rightarrow> (r, s\<lparr>as_db := w\<rparr>))"

definition in_cache :: "(time \<Rightarrow> (auth_key cache_store, anyhow, 'a) oper) \<Rightarrow> (anyhow, 'a) asm" where
  "in_cache f s =
     (case now_utc (as_db s) of
        (Inl e, w) \<Rightarrow> (Inl e, s\<lparr>as_db := w\<rparr>)
      | (Inr now, w) \<Rightarrow> (case f now (as_cache s) of (r, c) \<Rightarrow> (r, s\<lparr>as_db := w, as_cache := c\<rparr>)))"

definition in_rates :: "rate_key \<Rightarrow> nat \<Rightarrow> int \<Rightarrow> (anyhow, bool) asm" where
  "in_rates k capacity period s =
     (case bindM now_utc (\<lambda>now. bindM now_utc (\<lambda>later. retM (now, later))) (as_db s) of
        (Inl e, w) \<Rightarrow> (Inl e, s\<lparr>as_db := w\<rparr>)
      | (Inr (now, later), w) \<Rightarrow>
          (case consume_rate_limit now later k capacity period (as_rates s) of
             (r, b) \<Rightarrow> (r, s\<lparr>as_db := w, as_rates := b\<rparr>)))"

section \<open>Sessions\<close>

record session_data =
  sd_user_id :: uuid
  sd_auth_version :: int
  sd_created_at :: time
  sd_last_accessed_at :: time

record session_codec =
  session_text :: "session_data \<Rightarrow> string"
  session_parse :: "string \<Rightarrow> session_data option"

text \<open>What is used of the serialization: a written session reads back.\<close>

definition codec_ok :: "session_codec \<Rightarrow> bool" where
  "codec_ok sc \<longleftrightarrow> (\<forall>d. session_parse sc (session_text sc d) = Some d)"

definition create_session ::
  "session_codec \<Rightarrow> auth_lib \<Rightarrow> nat list \<Rightarrow> uuid \<Rightarrow> int \<Rightarrow> int \<Rightarrow> (anyhow, string) asm" where
  "create_session sc lib random uid version ttl =
     (let sid = generate_token (au_crypto lib) random in
     bindM (in_db now_utc) (\<lambda>now.
     bindM (in_cache (\<lambda>t. cache_set t (SessionKey sid)
       (session_text sc \<lparr>sd_user_id = uid, sd_auth_version = version, sd_created_at = now,
         sd_last_accessed_at = now\<rparr>) ttl)) (\<lambda>_.
     retM sid)))"

text \<open>\<open>Duration::whole_seconds\<close> truncates towards zero.\<close>

definition whole_seconds :: "int \<Rightarrow> int" where
  "whole_seconds d = (if 0 \<le> d then d div 1000000000 else - ((- d) div 1000000000))"

text \<open>What \<open>validate_session\<close> does with a session it found.\<close>

definition refresh_session ::
  "session_codec \<Rightarrow> string \<Rightarrow> int \<Rightarrow> int \<Rightarrow> string \<Rightarrow> (anyhow, session_data option) asm" where
  "refresh_session sc sid idle_ttl absolute_ttl raw =
     bindM (okOr (AnyMsg ''failed to deserialize session data'') (session_parse sc raw)) (\<lambda>d.
     bindM (in_db now_utc) (\<lambda>now.
     if wrap_i64 (as_secs idle_ttl) < whole_seconds (now - sd_last_accessed_at d)
     then bindM (in_cache (\<lambda>t. cache_delete t (SessionKey sid))) (\<lambda>_. retM None)
     else
       (let remaining = wrap_i64 (wrap_i64 (as_secs absolute_ttl) - whole_seconds (now - sd_created_at d)) in
        if remaining \<le> 0
        then bindM (in_cache (\<lambda>t. cache_delete t (SessionKey sid))) (\<lambda>_. retM None)
        else
          (let d = d\<lparr>sd_last_accessed_at := now\<rparr> in
           bindM (in_cache (\<lambda>t. cache_update_if_present t (SessionKey sid) (session_text sc d) (seconds remaining)))
             (\<lambda>refreshed. if refreshed then retM (Some d) else retM None)))))"

definition validate_session ::
  "session_codec \<Rightarrow> string \<Rightarrow> int \<Rightarrow> int \<Rightarrow> (anyhow, session_data option) asm" where
  "validate_session sc sid idle_ttl absolute_ttl =
     bindM (in_cache (\<lambda>t. cache_get t (SessionKey sid))) (\<lambda>raw.
     case raw of
       None \<Rightarrow> retM None
     | Some raw \<Rightarrow> refresh_session sc sid idle_ttl absolute_ttl raw)"

definition revoke_session :: "string \<Rightarrow> (anyhow, unit) asm" where
  "revoke_session sid = in_cache (\<lambda>t. cache_delete t (SessionKey sid))"

definition current_user :: "session_data \<Rightarrow> user \<Rightarrow> bool" where
  "current_user d u \<longleftrightarrow>
     us_deleted_at u = None \<and> us_status u = UserActive \<and> 0 < sd_auth_version d \<and>
     us_auth_version u = sd_auth_version d"

definition validate_current_session ::
  "auth_config \<Rightarrow> session_codec \<Rightarrow> string \<Rightarrow> string \<Rightarrow> (app_error, session_data option) asm" where
  "validate_current_session cfg sc sid op =
     bindM (mapErr (Infrastructure op) (validate_session sc sid
       (seconds (int (cf_idle_ttl_seconds cfg))) (seconds (int (cf_session_ttl_seconds cfg))))) (\<lambda>found.
     case found of
       None \<Rightarrow> retM None
     | Some d \<Rightarrow>
         bindM (in_db (getM (\<lambda>w. get_user_by_id w (sd_user_id d)))) (\<lambda>u.
         if (case u of Some u \<Rightarrow> current_user d u | None \<Rightarrow> False) then retM (Some d)
         else bindM (mapErr (Infrastructure op) (revoke_session sid)) (\<lambda>_. retM None)))"

text \<open>The cookie that names the session: the first \<open>session_id\<close> of the header.\<close>

definition extract_session_cookie :: "string option \<Rightarrow> string option" where
  "extract_session_cookie header =
     (case header of
        None \<Rightarrow> None
      | Some text \<Rightarrow>
          (case List.map_filter (\<lambda>pair. case split_once (CHR ''='') (trim_by char_ws pair) of
               Some (name, value) \<Rightarrow> if name = ''session_id'' then Some value else None
             | None \<Rightarrow> None) (split_on (CHR '';'') text) of
             [] \<Rightarrow> None
           | sid # _ \<Rightarrow> Some sid))"

text \<open>\<open>session_middleware\<close>: what the request carries on.\<close>

definition session_middleware ::
  "auth_config \<Rightarrow> session_codec \<Rightarrow> string option \<Rightarrow> (app_error, (string \<times> session_data) option) asm" where
  "session_middleware cfg sc header =
     (case extract_session_cookie header of
        Some sid \<Rightarrow>
          bindM (validate_current_session cfg sc sid ''auth.session.validate'') (\<lambda>d.
          retM (map_option (\<lambda>d. (sid, d)) d))
      | None \<Rightarrow> retM None)"

definition session_required :: "(string \<times> session_data) option \<Rightarrow> app_error + string \<times> session_data" where
  "session_required found =
     (case found of
        Some s \<Rightarrow> Inr s
      | None \<Rightarrow> Inl (Unauthorized ''auth.session_required'' ''authentication required''))"

section \<open>CSRF tokens\<close>

definition csrf_ttl :: int where
  "csrf_ttl = seconds 2592000"

definition generate_csrf_token :: "auth_lib \<Rightarrow> nat list \<Rightarrow> string \<Rightarrow> (anyhow, string) asm" where
  "generate_csrf_token lib random sid =
     (let token = generate_token (au_crypto lib) random in
     bindM (in_cache (\<lambda>t. cache_set t (CsrfKey sid) token csrf_ttl)) (\<lambda>_.
     retM token))"

definition get_or_generate_csrf_token :: "auth_lib \<Rightarrow> nat list \<Rightarrow> string \<Rightarrow> (anyhow, string) asm" where
  "get_or_generate_csrf_token lib random sid =
     bindM (in_cache (\<lambda>t. cache_get t (CsrfKey sid))) (\<lambda>found.
     case found of Some token \<Rightarrow> retM token | None \<Rightarrow> generate_csrf_token lib random sid)"

definition validate_csrf_token :: "string \<Rightarrow> string \<Rightarrow> (anyhow, bool) asm" where
  "validate_csrf_token sid token =
     bindM (in_cache (\<lambda>t. cache_get t (CsrfKey sid))) (\<lambda>stored.
     retM (stored = Some token))"

definition requires_csrf :: "string \<Rightarrow> bool" where
  "requires_csrf meth \<longleftrightarrow> meth \<in> {''POST'', ''PUT'', ''PATCH'', ''DELETE''}"

definition csrf_exempt_path :: "string \<Rightarrow> bool" where
  "csrf_exempt_path path \<longleftrightarrow>
     path \<in> {''/auth/login'', ''/auth/register'', ''/auth/email/verify'', ''/auth/email/resend'',
       ''/auth/password/forgot'', ''/auth/password/reset''} \<or>
     starts_with ''/auth/mfa/'' path \<or> starts_with ''/auth/providers/'' path \<or> starts_with ''/setup/'' path"

text \<open>\<open>csrf_middleware\<close>: the request goes on unless it is refused.\<close>

definition csrf_middleware ::
  "auth_config \<Rightarrow> string \<Rightarrow> string \<Rightarrow> string option \<Rightarrow> (string \<times> session_data) option \<Rightarrow> (app_error, unit) asm" where
  "csrf_middleware cfg meth path token session =
     (if \<not> requires_csrf meth then retM ()
      else if csrf_exempt_path path then retM ()
      else if session = None then retM ()
      else if cf_development cfg then retM ()
      else
        (case (token, session) of
           (Some token, Some (sid, _)) \<Rightarrow>
             bindM (mapErr (Infrastructure ''csrf.validate'') (validate_csrf_token sid token)) (\<lambda>ok.
             if ok then retM ()
             else failM (Forbidden ''csrf.invalid_token'' ''invalid or missing CSRF token''))
         | _ \<Rightarrow> failM (Forbidden ''csrf.missing_token'' ''CSRF token required for mutation requests'')))"

section \<open>Issuing a session\<close>

record issued_session =
  is_session_id :: string
  is_csrf_token :: string
  is_ttl :: int

definition issue ::
  "auth_config \<Rightarrow> session_codec \<Rightarrow> auth_lib \<Rightarrow> nat list \<Rightarrow> nat list \<Rightarrow> user \<Rightarrow> (app_error, issued_session) asm" where
  "issue cfg sc lib random random' u =
     bindM (mapErr (Infrastructure ''auth.login.update_last_login'') (in_db (update_last_login (us_id u)))) (\<lambda>_.
     (let ttl = seconds (int (cf_session_ttl_seconds cfg)) in
     bindM (mapErr (Infrastructure ''auth.login.create_session'')
       (create_session sc lib random (us_id u) (us_auth_version u) ttl)) (\<lambda>sid.
     bindM (mapErr (Infrastructure ''auth.login.csrf_token'') (generate_csrf_token lib random' sid)) (\<lambda>csrf.
     retM \<lparr>is_session_id = sid, is_csrf_token = csrf, is_ttl = ttl\<rparr>))))"

text \<open>\<open>safe_return_to\<close>; \<open>char::is_control\<close> is the category Cc.\<close>

definition safe_return_to :: "ustr option \<Rightarrow> ustr" where
  "safe_return_to value =
     (case value of
        Some v \<Rightarrow>
          if starts_with (pts ''/'') v \<and> \<not> starts_with (pts ''//'') v \<and> 92 \<notin> set v \<and> utf8_len v \<le> 4096 \<and>
             \<not> list_ex is_ctrl v
          then v else pts ''/''
      | None \<Rightarrow> pts ''/'')"


section \<open>Authentication versions only grow\<close>

definition versions_grow :: "world \<Rightarrow> world \<Rightarrow> bool" where
  "versions_grow w v \<longleftrightarrow>
     (users_con (users w) = None \<longrightarrow> users_con (users v) = None) \<and>
     (\<forall>u\<in>set (users w). \<exists>x\<in>set (users v). us_id x = us_id u \<and> us_auth_version u \<le> us_auth_version x)"

lemma versions_same: "users v = users w \<Longrightarrow> versions_grow w v"
  by (auto simp: versions_grow_def)

lemma versions_trans:
  assumes "versions_grow w v" and "versions_grow v x"
  shows "versions_grow w x"
proof -
  have "\<exists>y\<in>set (users x). us_id y = us_id u \<and> us_auth_version u \<le> us_auth_version y" if "u \<in> set (users w)" for u
    using assms that unfolding versions_grow_def by (metis order_trans)
  with assms show ?thesis by (simp add: versions_grow_def)
qed

interpretation vg: run_relation versions_grow
  by unfold_locales (auto simp: versions_same intro: versions_trans)

lemma version_reads: "runs versions_grow now_utc" "runs versions_grow now_v7"
  by (auto simp: runs_def now_utc_def now_v7_def intro: versions_same)

lemma tx_users [simp]:
  "users (begin_tx w) = users w" "users (commit_audits w v) = users v" "users (rollback_to w v) = users w"
  by (simp_all add: begin_tx_def commit_audits_def rollback_to_def)

lemma transaction_grows: "runs versions_grow m \<Longrightarrow> runs versions_grow (transaction m)"
proof (rule runsI)
  fix w r v
  assume m: "runs versions_grow m" and "transaction m w = (r, v)"
  then obtain q x where x: "m (begin_tx w) = (q, x)" "users v = users x \<or> users v = users w"
    by (auto simp: transaction_def split: prod.splits sum.splits)
  from runsD[OF m x(1)] x(2) show "versions_grow w v" by (auto simp: versions_grow_def)
qed

lemma grow_update:
  assumes "users_con (update_where p f (users w)) = None"
    and "\<And>u. us_id (f u) = us_id u" and "\<And>u. us_auth_version u \<le> us_auth_version (f u)"
  shows "versions_grow w (put_users (update_where p f (users w)) w)"
proof -
  have "\<exists>x\<in>set (update_where p f (users w)). us_id x = us_id u \<and> us_auth_version u \<le> us_auth_version x"
    if "u \<in> set (users w)" for u
    unfolding set_update_where by (rule bexI[OF _ imageI[OF that]]) (auto simp: assms(2,3))
  with assms(1) show ?thesis by (simp add: versions_grow_def)
qed

lemma update_user_row_grows:
  assumes "\<And>u. us_id (f u) = us_id u" and "\<And>u. us_auth_version u \<le> us_auth_version (f u)"
  shows "runs versions_grow (update_user_row i f)"
  by (rule runsI) (auto simp: update_user_row_def exec_update_def Let_def versions_same assms
      intro!: grow_update split: option.splits)

lemma revoke_users_grows:
  assumes "\<And>u. us_id (f u) = us_id u"
  shows "runs versions_grow (revoke_users_where p f)"
  by (rule runsI) (auto simp: revoke_users_where_def exec_update_many_def Let_def versions_same assms
      intro!: grow_update split: option.splits if_splits)

lemma insert_user_grows: "runs versions_grow (insert_user u)"
  by (rule runsI) (auto simp: insert_user_def exec_insert_def Let_def versions_grow_def split: option.splits)

lemma elsewhere_grows:
  "runs versions_grow (update_password_credential i g)" "runs versions_grow (insert_password_credential c)"
  "runs versions_grow (insert_password_history uid hash now)" "runs versions_grow (create_platform_audit_event a)"
  by (auto simp: runs_def update_password_credential_def insert_password_credential_def insert_password_history_def
      exec_update_def exec_insert_def Let_def bindM_def mapErr_def retM_def now_v7_def put_password_credentials_def
      put_password_histories_def create_platform_audit_event_def create_domain_audit_event_def now_utc_def getM_def
      persist_audit_def split: option.splits intro!: versions_same)

lemma account_ops_grow:
  "runs versions_grow (set_password uid hash)" "runs versions_grow (update_last_login uid)"
  "runs versions_grow (admin_update_user actor uid changes)" "runs versions_grow (create_user params)"
proof -
  note rules = vg.rules version_reads transaction_grows update_user_row_grows revoke_users_grows insert_user_grows
    elsewhere_grows
  show "runs versions_grow (set_password uid hash)"
    unfolding set_password_def set_password_steps_def by (intro rules; simp)
  show "runs versions_grow (update_last_login uid)"
    unfolding update_last_login_def by (intro rules; simp)
  show "runs versions_grow (admin_update_user actor uid changes)"
    unfolding admin_update_user_def checked_target_def ensure_admin_remains_def update_user_def Let_def
    by (intro rules; simp add: apply_user_changes_def)
  show "runs versions_grow (create_user params)"
    unfolding create_user_def by (intro rules; simp)
qed


section \<open>What is kept of a session\<close>

text \<open>The version behind a session of a user: \<open>at_version\<close> says what its text may hold.\<close>

definition at_version :: "session_codec \<Rightarrow> uuid \<Rightarrow> int \<Rightarrow> string \<Rightarrow> bool" where
  "at_version sc uid n raw \<longleftrightarrow> (\<forall>d. session_parse sc raw = Some d \<longrightarrow> sd_user_id d = uid \<and> sd_auth_version d = n)"

definition session_kept :: "(string \<Rightarrow> bool) \<Rightarrow> string \<Rightarrow> auth_service \<Rightarrow> auth_service \<Rightarrow> bool" where
  "session_kept P sid s t \<longleftrightarrow>
     versions_grow (as_db s) (as_db t) \<and>
     (tx.guarded P (SessionKey sid) (as_cache s) \<longrightarrow> tx.guarded P (SessionKey sid) (as_cache t))"

interpretation sk: run_relation "session_kept P sid" for P sid
  by unfold_locales (auto simp: session_kept_def versions_same intro: versions_trans)

lemma in_cache_run: "in_cache f s = (r, t) \<Longrightarrow> \<exists>now. f now (as_cache s) = (r, as_cache t)"
  by (auto simp: in_cache_def now_utc_def split: prod.splits)

lemma in_db_run: "in_db m s = (r, t) \<Longrightarrow> m (as_db s) = (r, as_db t) \<and> as_cache t = as_cache s"
  by (cases "m (as_db s)") (auto simp: in_db_def)

lemma in_db_kept: "runs versions_grow m \<Longrightarrow> runs (session_kept P sid) (in_db m)"
  by (rule runsI) (auto simp: in_db_def session_kept_def split: prod.splits dest: runsD)

lemma in_cache_kept:
  assumes "\<And>now c r c'. f now c = (r, c') \<Longrightarrow> tx.guarded P (SessionKey sid) c \<Longrightarrow> tx.guarded P (SessionKey sid) c'"
  shows "runs (session_kept P sid) (in_cache f)"
proof (rule runsI)
  fix s r t
  assume "in_cache f s = (r, t)"
  then obtain q c' where c: "f (clock (as_db s) (clock_pos (as_db s))) (as_cache s) = (q, c')"
    and "as_cache t = c'" and "users (as_db t) = users (as_db s)"
    by (auto simp: in_cache_def now_utc_def split: prod.splits)
  with assms[OF c] show "session_kept P sid s t" by (simp add: session_kept_def versions_same)
qed

lemma cache_ops_kept:
  "runs (session_kept P sid) (in_cache (\<lambda>t. cache_get t k))"
  "runs (session_kept P sid) (in_cache (\<lambda>t. cache_delete t k))"
  "(k = SessionKey sid \<Longrightarrow> P v) \<Longrightarrow> runs (session_kept P sid) (in_cache (\<lambda>t. cache_set t k v ttl))"
  "(k = SessionKey sid \<Longrightarrow> P v) \<Longrightarrow> runs (session_kept P sid) (in_cache (\<lambda>t. cache_update_if_present t k v ttl))"
proof -
  show "runs (session_kept P sid) (in_cache (\<lambda>t. cache_get t k))"
    by (rule in_cache_kept) (blast dest: tx.get_same)
  show "runs (session_kept P sid) (in_cache (\<lambda>t. cache_delete t k))"
    by (rule in_cache_kept) (blast intro: tx.guarded_clear)
  show "runs (session_kept P sid) (in_cache (\<lambda>t. cache_set t k v ttl))" if "k = SessionKey sid \<Longrightarrow> P v"
    by (rule in_cache_kept) (blast intro: tx.guarded_put that)
  show "runs (session_kept P sid) (in_cache (\<lambda>t. cache_update_if_present t k v ttl))" if "k = SessionKey sid \<Longrightarrow> P v"
    by (rule in_cache_kept) (blast intro: tx.guarded_renew that)
qed

lemmas session_rules = sk.rules in_db_kept cache_ops_kept version_reads account_ops_grow vg.rules

lemma refresh_kept:
  assumes "codec_ok sc" and "at_version sc uid n raw"
  shows "runs (session_kept (at_version sc uid n) sid) (refresh_session sc sid' idle cap raw)"
proof (cases "session_parse sc raw")
  case None
  then show ?thesis by (simp add: refresh_session_def sk.failM_ok)
next
  case (Some d)
  have "at_version sc uid n (session_text sc (d\<lparr>sd_last_accessed_at := now\<rparr>))" for now
    using assms Some by (simp add: at_version_def codec_ok_def)
  then show ?thesis
    unfolding refresh_session_def Some Let_def okOr_simps bindM_simps
    by (intro session_rules)
qed

lemma refresh_other:
  assumes "sid' \<noteq> sid"
  shows "runs (session_kept P sid) (refresh_session sc sid' idle cap raw)"
  unfolding refresh_session_def Let_def by (intro session_rules; simp add: assms)

lemma validate_session_kept:
  assumes "codec_ok sc"
  shows "runs (session_kept (at_version sc uid n) sid) (validate_session sc sid' idle cap)"
proof (rule runsI)
  let ?K = "session_kept (at_version sc uid n) sid"
  fix s r t
  assume run: "validate_session sc sid' idle cap s = (r, t)"
  obtain g s1 where get: "in_cache (\<lambda>t. cache_get t (SessionKey sid')) s = (g, s1)" by fastforce
  have k1: "?K s s1" by (rule runsD[OF cache_ops_kept(1) get])
  show "?K s t"
  proof (cases "\<exists>raw. g = Inr (Some raw)")
    case False
    with run get have "t = s1"
      by (cases g) (auto simp: validate_session_def bindM_def retM_def split: option.splits)
    with k1 show ?thesis by simp
  next
    case True
    then obtain raw where g: "g = Inr (Some raw)" by blast
    with run get have refresh: "refresh_session sc sid' idle cap raw s1 = (r, t)"
      by (simp add: validate_session_def bindM_def)
    show ?thesis
    proof (cases "sid' = sid \<and> tx.guarded (at_version sc uid n) (SessionKey sid) (as_cache s)")
      case True
      have "at_version sc uid n raw"
        using get g True by (auto simp: in_cache_def now_utc_def split: prod.splits dest: tx.guarded_get)
      from runsD[OF refresh_kept[OF assms this] refresh] have "?K s1 t" .
      with k1 show ?thesis by (rule sk.join)
    next
      case False
      show ?thesis
      proof (cases "sid' = sid")
        case True
        have "runs (session_kept (\<lambda>_. True) sid) (refresh_session sc sid' idle cap raw)"
          unfolding refresh_session_def Let_def by (intro session_rules; simp)
        from runsD[OF this refresh] have "versions_grow (as_db s1) (as_db t)" by (simp add: session_kept_def)
        with k1 True False show ?thesis by (auto simp: session_kept_def intro: versions_trans)
      next
        case other: False
        from runsD[OF refresh_other[OF other] refresh] have "?K s1 t" .
        with k1 show ?thesis by (rule sk.join)
      qed
    qed
  qed
qed


section \<open>A revoked session stays out\<close>

text \<open>
  What may happen meanwhile: anything that does not hand out the same session identifier again. The last
  rule is for everything else of the application: it leaves the session's cache entry and counts no version
  down.
\<close>

inductive auth_step :: "session_codec \<Rightarrow> auth_lib \<Rightarrow> string \<Rightarrow> auth_service \<Rightarrow> auth_service \<Rightarrow> bool" for sc lib sid where
  issued: "issue cfg sc lib random random' u s = (r, t) \<Longrightarrow> generate_token (au_crypto lib) random \<noteq> sid \<Longrightarrow>
    auth_step sc lib sid s t"
| checked: "validate_current_session cfg sc sid' op s = (r, t) \<Longrightarrow> auth_step sc lib sid s t"
| ended: "revoke_session sid' s = (r, t) \<Longrightarrow> auth_step sc lib sid s t"
| csrf_asked: "get_or_generate_csrf_token lib random sid' s = (r, t) \<Longrightarrow> auth_step sc lib sid s t"
| password_set: "in_db (set_password uid hash) s = (r, t) \<Longrightarrow> auth_step sc lib sid s t"
| user_updated: "in_db (admin_update_user actor uid changes) s = (r, t) \<Longrightarrow> auth_step sc lib sid s t"
| user_created: "in_db (create_user params) s = (r, t) \<Longrightarrow> auth_step sc lib sid s t"
| elsewhere: "versions_grow (as_db s) (as_db t) \<Longrightarrow>
    cached_text (as_cache t) (SessionKey sid) = cached_text (as_cache s) (SessionKey sid) \<Longrightarrow> auth_step sc lib sid s t"

lemma issue_kept:
  assumes "generate_token (au_crypto lib) random \<noteq> sid"
  shows "runs (session_kept P sid) (issue cfg sc lib random random' u)"
  unfolding issue_def create_session_def generate_csrf_token_def Let_def
  by (intro session_rules; simp add: assms)

lemma validate_current_kept:
  assumes "codec_ok sc"
  shows "runs (session_kept (at_version sc uid n) sid) (validate_current_session cfg sc sid' op)"
  unfolding validate_current_session_def revoke_session_def
  by (intro session_rules validate_session_kept[OF assms])

lemma csrf_kept: "runs (session_kept P sid) (get_or_generate_csrf_token lib random sid')"
  unfolding get_or_generate_csrf_token_def generate_csrf_token_def Let_def by (intro session_rules; simp)

lemma auth_step_kept:
  assumes "codec_ok sc" and "auth_step sc lib sid s t"
  shows "session_kept (at_version sc uid n) sid s t"
  using assms(2)
proof cases
  case (elsewhere)
  then show ?thesis by (auto simp: session_kept_def tx.guarded_def)
next
  case (ended sid' r)
  then show ?thesis unfolding revoke_session_def by (rule runsD[OF cache_ops_kept(2)])
qed (blast intro: runsD[OF issue_kept] runsD[OF validate_current_kept[OF assms(1)]] runsD[OF csrf_kept]
    runsD[OF in_db_kept[OF account_ops_grow(1)]] runsD[OF in_db_kept[OF account_ops_grow(3)]]
    runsD[OF in_db_kept[OF account_ops_grow(4)]])+

lemma auth_steps_kept:
  assumes "codec_ok sc" and "(auth_step sc lib sid)\<^sup>*\<^sup>* s t"
  shows "session_kept (at_version sc uid n) sid s t"
  using assms(2)
  by (induction rule: rtranclp_induct) (auto intro: sk.same sk.join auth_step_kept[OF assms(1)])

lemma issue_guards:
  assumes "issue cfg sc lib random random' u s = (Inr i, t)" and "codec_ok sc"
  shows "tx.guarded (at_version sc (us_id u) (us_auth_version u)) (SessionKey (is_session_id i)) (as_cache t) \<and>
    versions_grow (as_db s) (as_db t)"
proof -
  let ?sid = "generate_token (au_crypto lib) random" and ?P = "at_version sc (us_id u) (us_auth_version u)"
  obtain s1 now s2 s3 where login: "in_db (update_last_login (us_id u)) s = (Inr (), s1)"
    and now: "(in_db now_utc :: (anyhow, time) asm) s1 = (Inr now, s2)"
    and set: "in_cache (\<lambda>t. cache_set t (SessionKey ?sid)
       (session_text sc \<lparr>sd_user_id = us_id u, sd_auth_version = us_auth_version u, sd_created_at = now,
         sd_last_accessed_at = now\<rparr>) (seconds (int (cf_session_ttl_seconds cfg)))) s2 = (Inr (), s3)"
    and csrf: "\<exists>c. generate_csrf_token lib random' ?sid s3 = (Inr c, t)"
    and sid: "is_session_id i = ?sid"
    using assms(1) by (clarsimp simp: issue_def create_session_def Let_def oper_Inr)
  have fits: "?P (session_text sc \<lparr>sd_user_id = us_id u, sd_auth_version = us_auth_version u, sd_created_at = now,
         sd_last_accessed_at = now\<rparr>)"
    using assms(2) by (simp add: at_version_def codec_ok_def)
  have g: "tx.guarded ?P (SessionKey ?sid) (as_cache s3)"
    using in_cache_run[OF set] by (elim exE) (rule tx.guarded_new, assumption, rule fits)
  have "runs (session_kept ?P ?sid) (generate_csrf_token lib random' ?sid)"
    unfolding generate_csrf_token_def Let_def by (intro session_rules; simp)
  with csrf have k3: "session_kept ?P ?sid s3 t" by (auto dest: runsD)
  have "session_kept ?P ?sid s s1" by (rule runsD[OF in_db_kept[OF account_ops_grow(2)] login])
  moreover have "session_kept ?P ?sid s1 s2" by (rule runsD[OF in_db_kept[OF version_reads(1)] now])
  moreover have "session_kept ?P ?sid s2 s3" by (rule runsD[OF cache_ops_kept(3) set]) (rule fits)
  ultimately have "versions_grow (as_db s) (as_db s3)" by (auto simp: session_kept_def intro: versions_trans)
  with g k3 sid show ?thesis by (auto simp: session_kept_def intro: versions_trans)
qed


text \<open>A revocation counts the version of the user up.\<close>

definition revoked_between :: "uuid \<Rightarrow> world \<Rightarrow> world \<Rightarrow> bool" where
  "revoked_between uid w v \<longleftrightarrow>
     versions_grow w v \<and>
     (\<forall>x\<in>set (users v). us_id x = uid \<longrightarrow> (\<exists>u\<in>set (users w). us_id u = uid \<and> us_auth_version u < us_auth_version x))"

lemma revoke_users_revokes:
  assumes "revoke_users_where (\<lambda>u. us_id u = uid) f w = (Inr n, v)" and "\<And>u. us_id (f u) = us_id u"
  shows "\<forall>x\<in>set (users v). us_id x = uid \<longrightarrow> (\<exists>u\<in>set (users w). us_id u = uid \<and> us_auth_version u < us_auth_version x)"
proof (intro ballI impI)
  fix x
  assume x: "x \<in> set (users v)" "us_id x = uid"
  let ?g = "\<lambda>u. (f u)\<lparr>us_auth_version := us_auth_version u + 1, us_updated_at := sql_now w\<rparr>"
  have "users v = update_where (\<lambda>u. us_id u = uid) ?g (users w)"
    using revoke_users_where_Inr[OF assms(1)] by simp
  with x(1) obtain u where u: "u \<in> set (users w)" "x = (if us_id u = uid then ?g u else u)"
    by (auto simp: set_update_where)
  show "\<exists>u\<in>set (users w). us_id u = uid \<and> us_auth_version u < us_auth_version x"
  proof (cases "us_id u = uid")
    case True
    with u show ?thesis by (intro bexI[of _ u]) simp_all
  next
    case False
    with u x(2) show ?thesis by simp
  qed
qed

lemma password_rows_keep_users:
  "update_password_credential i g w = (Inr c, v) \<Longrightarrow> users v = users w"
  "insert_password_credential p w = (Inr c, v) \<Longrightarrow> users v = users w"
  "insert_password_history uid hash now w = (Inr y, v) \<Longrightarrow> users v = users w"
  by (auto simp: update_password_credential_def insert_password_credential_def insert_password_history_def
      exec_update_def exec_insert_def Let_def oper_defs now_v7_def put_password_credentials_def
      put_password_histories_def split: option.splits if_splits prod.splits sum.splits)

lemma set_password_tail:
  assumes "set_password_steps uid hash w = (Inr (), x)"
  shows "\<exists>y n. users y = users w \<and> revoke_users_where (\<lambda>u. us_id u = uid) (\<lambda>u. u) y = (Inr n, x)"
proof (cases "find (\<lambda>p. pw_user_id p = uid) (password_credentials w)")
  case None
  have "\<exists>p w1 c w2 t w3 y n. users w1 = users w \<and> insert_password_credential p w1 = (Inr c, w2) \<and>
      users w3 = users w2 \<and> insert_password_history uid hash t w3 = (Inr (), y) \<and>
      revoke_users_where (\<lambda>u. us_id u = uid) (\<lambda>u. u) y = (Inr n, x)"
    using assms None unfolding set_password_steps_def
    by (clarsimp simp: oper_Inr now_utc_def now_v7_def split: if_splits) (intro exI conjI; (assumption | simp))
  then show ?thesis using password_rows_keep_users(2,3) by metis
next
  case (Some c)
  have "\<exists>p i w1 d w2 t w3 y n. users w1 = users w \<and> update_password_credential i p w1 = (Inr d, w2) \<and>
      users w3 = users w2 \<and> insert_password_history uid hash t w3 = (Inr (), y) \<and>
      revoke_users_where (\<lambda>u. us_id u = uid) (\<lambda>u. u) y = (Inr n, x)"
    using assms Some unfolding set_password_steps_def
    by (clarsimp simp: oper_Inr now_utc_def now_v7_def split: if_splits) (intro exI conjI; (assumption | simp))
  then show ?thesis using password_rows_keep_users(1,3) by metis
qed

lemma set_password_revokes:
  assumes "set_password uid hash w = (Inr (), v)"
  shows "revoked_between uid w v"
proof -
  obtain x where run: "set_password_steps uid hash (begin_tx w) = (Inr (), x)" and v: "users v = users x"
    using assms by (auto simp: set_password_def transaction_Inr)
  obtain y n z where y: "users y = users w" and rev: "revoke_users_where (\<lambda>u. us_id u = uid) (\<lambda>u. u) y = (Inr n, z)"
    and z: "users x = users z"
    using set_password_tail[OF run] by auto
  have "\<forall>x\<in>set (users v). us_id x = uid \<longrightarrow> (\<exists>u\<in>set (users w). us_id u = uid \<and> us_auth_version u < us_auth_version x)"
    using revoke_users_revokes[OF rev] unfolding v z y by blast
  then show ?thesis
    using runsD[OF account_ops_grow(1) assms] by (simp add: revoked_between_def)
qed

lemma disabling_revokes:
  assumes "admin_update_user actor uid changes w = (Inr q, v)" and "uu_status changes = Some UserDisabled"
  shows "revoked_between uid w v"
proof -
  obtain u w1 x s where checked: "checked_target actor uid changes (begin_tx w) = (Inr u, w1)"
    and upd: "update_user u changes w1 = (Inr q, x)" and s: "users s = users x" and v_eq: "v = commit_audits w s"
    using assms(1) unfolding admin_update_user_def Let_def transaction_Inr
    by (auto simp: bindM_Inr retM_Inr mapErr_Inr dest: audit_keeps_users)
  have same: "w1 = begin_tx w" and found: "get_user_by_id (begin_tx w) uid = Some u" and v: "users v = users x"
    using checked_target_Inr[OF checked] by (simp_all add: v_eq transaction_users s)
  have uid: "us_id u = uid" using get_user_by_id_Some[OF found] by simp
  obtain n where rev: "revoke_users_where (\<lambda>x. us_id x = uid) (apply_user_changes changes) (begin_tx w) = (Inr n, x)"
    using upd assms(2) unfolding same by (auto simp: update_user_def oper_Inr uid)
  have "\<forall>y\<in>set (users v). us_id y = uid \<longrightarrow> (\<exists>u\<in>set (users w). us_id u = uid \<and> us_auth_version u < us_auth_version y)"
    using revoke_users_revokes[OF rev] unfolding v transaction_users by (simp add: apply_user_changes_def)
  then show ?thesis
    using runsD[OF account_ops_grow(3) assms(1)] by (simp add: revoked_between_def)
qed


lemma accepted_is_guarded:
  assumes "validate_session sc sid idle cap s = (Inr (Some d), t)" and "codec_ok sc"
    and "tx.guarded (at_version sc uid n) (SessionKey sid) (as_cache s)"
  shows "sd_user_id d = uid \<and> sd_auth_version d = n"
proof -
  obtain raw s1 where get: "in_cache (\<lambda>t. cache_get t (SessionKey sid)) s = (Inr (Some raw), s1)"
    and refresh: "refresh_session sc sid idle cap raw s1 = (Inr (Some d), t)"
    using assms(1) by (auto simp: validate_session_def oper_Inr split: option.splits)
  obtain now where now: "cache_get now (SessionKey sid) (as_cache s) = (Inr (Some raw), as_cache s1)"
    using in_cache_run[OF get] by blast
  have raw: "at_version sc uid n raw"
    using tx.guarded_get[OF assms(3) now] .
  obtain e where "session_parse sc raw = Some e" and "sd_user_id d = sd_user_id e" and "sd_auth_version d = sd_auth_version e"
    using refresh by (auto simp: refresh_session_def Let_def oper_Inr split: if_splits option.splits)
  with raw show ?thesis by (simp add: at_version_def)
qed

lemma accepted_session_is_current:
  assumes "validate_current_session cfg sc sid op s = (Inr (Some d), t)" and "codec_ok sc"
    and "tx.guarded (at_version sc uid n) (SessionKey sid) (as_cache s)"
  shows "versions_grow (as_db s) (as_db t) \<and>
    (\<exists>x\<in>set (users (as_db t)). us_id x = uid \<and> us_auth_version x = n \<and> us_status x = UserActive \<and> us_deleted_at x = None)"
proof -
  obtain s1 u where run: "validate_session sc sid (seconds (int (cf_idle_ttl_seconds cfg)))
       (seconds (int (cf_session_ttl_seconds cfg))) s = (Inr (Some d), s1)"
    and u: "get_user_by_id (as_db s1) (sd_user_id d) = Some u" "current_user d u" and t: "as_db t = as_db s1"
    using assms(1) by (auto simp: validate_current_session_def oper_Inr in_db_def getM_def split: if_splits option.splits)
  have "versions_grow (as_db s) (as_db t)"
    using runsD[OF validate_session_kept[OF assms(2), of uid n sid] run] by (simp add: session_kept_def t)
  moreover have "sd_user_id d = uid \<and> sd_auth_version d = n" by (rule accepted_is_guarded[OF run assms(2,3)])
  ultimately show ?thesis
    using get_user_by_id_Some[OF u(1)] u(2) by (auto simp: t current_user_def intro!: bexI[of _ u])
qed

lemma one_per_id:
  assumes "users_con (users w) = None" and "x \<in> set (users w)" and "y \<in> set (users w)" and "us_id x = us_id y"
  shows "x = y"
  using assms by (auto simp: users_con_None distinct_map inj_on_def)

lemma revoked_outgrows:
  assumes "users_con (users w) = None" and "u \<in> set (users w)" and "versions_grow w v" and "revoked_between (us_id u) v x"
    and "versions_grow x z" and "y \<in> set (users z)" and "us_id y = us_id u"
  shows "us_auth_version u < us_auth_version y"
proof -
  have con: "users_con (users v) = None" "users_con (users z) = None"
    using assms(1,3,4,5) by (auto simp: versions_grow_def revoked_between_def)
  obtain u2 where u2: "u2 \<in> set (users v)" "us_id u2 = us_id u" "us_auth_version u \<le> us_auth_version u2"
    using assms(2,3) by (auto simp: versions_grow_def)
  then obtain u3 where u3: "u3 \<in> set (users x)" "us_id u3 = us_id u"
    using assms(4) unfolding revoked_between_def versions_grow_def by metis
  then obtain v2 where v2: "v2 \<in> set (users v)" "us_id v2 = us_id u" "us_auth_version v2 < us_auth_version u3"
    using assms(4) by (auto simp: revoked_between_def)
  have "v2 = u2" using one_per_id[OF con(1) v2(1) u2(1)] v2(2) u2(2) by simp
  moreover obtain u4 where u4: "u4 \<in> set (users z)" "us_id u4 = us_id u" "us_auth_version u3 \<le> us_auth_version u4"
    using assms(5) u3 unfolding versions_grow_def by metis
  moreover have "u4 = y" using one_per_id[OF con(2) u4(1) assms(6)] u4(2) assms(7) by simp
  ultimately show ?thesis using u2(3) v2(3) u4(3) by simp
qed

definition revokes :: "uuid \<Rightarrow> auth_service \<Rightarrow> auth_service \<Rightarrow> bool" where
  "revokes uid s t \<longleftrightarrow>
     (\<exists>hash. in_db (set_password uid hash) s = (Inr (), t)) \<or>
     (\<exists>actor changes q. uu_status changes = Some UserDisabled \<and> in_db (admin_update_user actor uid changes) s = (Inr q, t))"

lemma revokes_between: "revokes uid s t \<Longrightarrow> revoked_between uid (as_db s) (as_db t) \<and> as_cache t = as_cache s"
  by (auto simp: revokes_def dest!: in_db_run dest: set_password_revokes disabling_revokes)



text \<open>A concrete serialization for the witness: the numbers of the session in binary.\<close>

fun bits_text :: "nat \<Rightarrow> string" where
  "bits_text n = (if n = 0 then [] else (if odd n then CHR ''1'' else CHR ''0'') # bits_text (n div 2))"

declare bits_text.simps [simp del]

definition text_bits :: "string \<Rightarrow> nat" where
  "text_bits text = foldr (\<lambda>c n. 2 * n + (if c = CHR ''1'' then 1 else 0)) text 0"

lemma text_of_bits: "text_bits (bits_text n) = n"
  by (induction n rule: bits_text.induct) (subst bits_text.simps, auto simp: text_bits_def)

lemma bits_are_digits: "c \<in> set (bits_text n) \<Longrightarrow> c \<noteq> CHR '';''"
  by (induction n rule: bits_text.induct) (subst (asm) (2) bits_text.simps, auto split: if_splits)

definition code_int :: "int \<Rightarrow> nat" where
  "code_int i = (if 0 \<le> i then 2 * nat i else 2 * nat (- i) + 1)"

definition int_of_code :: "nat \<Rightarrow> int" where
  "int_of_code n = (if even n then int (n div 2) else - int (n div 2))"

lemma int_code: "int_of_code (code_int i) = i"
  by (simp add: int_of_code_def code_int_def)

definition plain_codec :: session_codec where
  "plain_codec =
     \<lparr>session_text = (\<lambda>d. bits_text (sd_user_id d) @ CHR '';'' # bits_text (code_int (sd_auth_version d)) @ CHR '';'' #
        bits_text (code_int (sd_created_at d)) @ CHR '';'' # bits_text (code_int (sd_last_accessed_at d))),
      session_parse = (\<lambda>text. case split_on (CHR '';'') text of
          [a, b, c, d] \<Rightarrow> Some \<lparr>sd_user_id = text_bits a, sd_auth_version = int_of_code (text_bits b),
            sd_created_at = int_of_code (text_bits c), sd_last_accessed_at = int_of_code (text_bits d)\<rparr>
        | _ \<Rightarrow> None)\<rparr>"

lemma split_first: "c \<notin> set p \<Longrightarrow> split_on c (p @ c # rest) = p # split_on c rest"
  and split_none: "c \<notin> set p \<Longrightarrow> split_on c p = [p]"
  by (induction p) auto

lemma plain_codec_ok: "codec_ok plain_codec"
proof -
  have sep: "CHR '';'' \<notin> set (bits_text n)" for n using bits_are_digits by blast
  show ?thesis
    by (simp add: codec_ok_def plain_codec_def split_first[OF sep] split_none[OF sep] text_of_bits int_code)
qed

definition auth_sample :: auth_config where
  "auth_sample = \<lparr>cf_idle_ttl_seconds = 60, cf_session_ttl_seconds = 3600, cf_secret_key = [],
     cf_mail_enabled = True, cf_development = False\<rparr>"


definition signing_in :: "(app_error + issued_session) \<times> auth_service" where
  "signing_in = issue auth_sample plain_codec plain_auth [7] [8] ann
     \<lparr>as_db = user_world [ann], as_cache = MokaStore Map.empty, as_rates = MokaBuckets Map.empty\<rparr>"

definition accepted :: "(app_error + session_data option) \<times> auth_service \<Rightarrow> bool" where
  "accepted run \<longleftrightarrow> (case fst run of Inr (Some _) \<Rightarrow> True | _ \<Rightarrow> False)"

definition ask :: "auth_service \<Rightarrow> (app_error + session_data option) \<times> auth_service" where
  "ask s = validate_current_session auth_sample plain_codec (generate_token plain_crypto [7]) ''op'' s"


end
