(* ===== verification/Spec2Isabelle.thy ===== *)
theory Spec2Isabelle
  imports DeletionJobs SsrLeases GitSource Archive Gateway ReleaseHandlers BuildSlots ServeRoutes TeamOwnership Sessions
begin

text \<open>
  A verification library of Grass Worker, a platform that builds web projects and serves them on a
  fleet of Nodes. All code modelled is Rust: the Control API (\<open>src/apps/control-api/src\<close>, written \<open>api/\<close>
  below), the Node agent (\<open>src/apps/node/src\<close>, written \<open>node/\<close>) and shared crates (\<open>src/crates\<close>).

  \<^bold>\<open>The program.\<close> A deployment is a row with three statuses: of its build, of its serving and of its
  release. A Node claims a pending build, reports its progress and its output; the Control API places the
  deployment on a Serve Node, which synchronizes it and reports that it serves; the deployment is then
  activated for its environment, at once or after a review. A reconciliation decides after every change
  which deployments of an environment keep a Node. Deleting a Node moves its deployments away first.
  Quotas bound what a team uses. Serve Nodes answer requests from a table of routes that they fetch, and
  forward what another Node serves.

  \<^bold>\<open>State.\<close> The record \<open>world\<close> of Entities is the database, one list of rows per table, with the supplies
  of time, identifiers and random numbers; \<open>service\<close> of QuotaService adds the cache. A Rust function with
  a connection is an operation \<open>world \<Rightarrow> (error + value) \<times> world\<close> (Prelude): an error keeps the writes made
  before it, as in the code, and \<open>transaction\<close> rolls the tables back. A \<open>?\<close> is \<open>bindM\<close>, \<open>map_err\<close> is \<open>mapErr\<close>.

  \<^bold>\<open>Parts, in the order of their imports.\<close>

  \<^item> Prelude (operations, triples, run relations, laws of tables), Entities (rows and enums of
    \<open>api/infra/database/entity\<close>, constraints and indexes of the migrations), Store (statements per table and
    the trigger of \<open>updated_at\<close>), Text, Utf8, Paths (text, bytes and paths of the standard library), Float64
    (the double precision ratios of the scheduler, rounded), Samples (rows for concrete instances).
  \<^item> AuditLog (\<open>api/infra/audit\<close>): redaction, the writers of domain events, audit transactions.
  \<^item> Scheduler (\<open>api/domain/scheduler.rs\<close>): the usage and candidate queries, the projected ratios, the
    choice with its random tie break. Placements respect disk and overflow limits, the automatic choice is
    the least loaded, and a placement is marked overcommitted exactly when nothing fits.
  \<^item> Deployments (\<open>deployments.rs\<close>): the three status machines and their transitions, activation, reviews
    and the review policy. Activation takes the environment over and never breaks the index of one active
    deployment per environment.
  \<^item> Delivery (\<open>delivery.rs\<close>): what an environment keeps (\<open>desired_delivery_ids\<close>), reconciliation, release
    requests and their completion, removal of a publication, unsuccessful builds. Reconciliation retires
    exactly what is not desired and never the last serving deployment; at most one release waits.
  \<^item> AppErrors (\<open>api/infra/error.rs\<close>, \<open>http/deployment_errors.rs\<close>), Activation
    (\<open>deployment_activation.rs\<close>, \<open>node_migration_access.rs\<close>, \<open>deployment_cancellation.rs\<close>,
    \<open>deployment_placement.rs\<close> and the Serve status report), Notifications (\<open>notifications.rs\<close>),
    ReleaseHandlers (\<open>project_access.rs\<close> and the handlers promote, rollback, cancel, unpublish, approve,
    withdraw, republish). A report changes nothing on a deployment the Node does not serve, a ready report
    goes live, manual review blocks a release.
  \<^item> NodeDeletions, DeletionJobs (\<open>node_deletions.rs\<close>): plan, queue, phases of a job and its failures. Routes
    move only when all copies are ready, a Node is disabled only when nothing depends on it.
  \<^item> Quotas (\<open>quotas.rs\<close>): plans, limits, the event log and the usage counters, which replay the log;
    SsrLeases (\<open>ssr_leases.rs\<close>): leases of SSR processes within process and hour quotas.
  \<^item> CacheStore, CacheContract (\<open>crates/cache\<close>): the in-process and the Redis backend, whose scripts compute
    in doubles, the contract \<open>counter_store\<close> that both keep, where the two agree (counters below
    \<open>2 ^ 52\<close>) and where not (\<open>window_slides_in_process\<close>); RateLimit: the token bucket of both backends in
    double precision, and that it is a limit; QuotaService (\<open>api/infra/quota\<close>): reservations, releases and
    build slots over cache and database.
  \<^item> SourceCredentials (\<open>source_credentials.rs\<close>, \<open>crates/crypto\<close>, \<open>crates/token\<close>, \<open>config/secrets.rs\<close>): sealed
    Git secrets, their versions, bindings and one-time leases. A lease is redeemed once, by its holder, for
    the secret that was stored, and never after a revocation.
  \<^item> BuildQueue, BuildSlots (\<open>api/features/api/v1/internal/deployments\<close>): claiming, progress reports and
    cancellation of builds. \<open>queue_reachable\<close> is the step relation of the queue: requests run one at a time,
    each at one time, and no slot counter expires between them. Along it the slot counter of a team is the
    number of its running builds, hence a claim respects the limit. The last theorems show the races that
    the handlers leave open, by running them on a row read earlier.
  \<^item> Validator (\<open>crates/validator\<close>), GitSource (\<open>crates/git-source\<close>): normal forms of names, endpoints of
    repositories, the network policy for cloning against the published registries of special addresses and
    the three blocks it overlooks.
  \<^item> Archive (\<open>crates/archive\<close>), OutputManifest (\<open>node/output/manifest.rs\<close>), ServeStatic (\<open>node/serve/paths.rs\<close>,
    \<open>static_files.rs\<close>, \<open>response.rs\<close>, the static branch of \<open>local.rs\<close>): unpacking stays below its directory and
    within its limits and returns what was packed; a static site answers from its own files.
  \<^item> RouteTable (\<open>node/serve/routes.rs\<close>), Gateway (\<open>node/serve/routing.rs\<close>, \<open>proxy.rs\<close>): the table applied from
    snapshots, its refreshes and withdrawals taken apart into steps under the lock that orders them
    (\<open>node_step\<close>), and requests between Nodes: no spoofed metadata, one hop, a credential for every peer.
    ServeRoutes (the handlers of \<open>internal/serve\<close>): the snapshot a control plane answers with, the answer for
    one host and the assignments of a Node; the snapshot is what the tables call for, and the table made of
    it agrees with the answer for one host.
  \<^item> OneTime (the contract of what is redeemed once), Accounts (\<open>users.rs\<close>, \<open>admin_users.rs\<close>, the password
    hashes of \<open>crates/crypto\<close>), Registration (\<open>codes.rs\<close>, \<open>registration.rs\<close>), Teams, TeamOwnership (\<open>teams.rs\<close>,
    \<open>admin_teams.rs\<close>, the requests for members and invitations): an administrator remains, codes and
    invitations are redeemed once, every team has exactly the owner its row names.
  \<^item> AuthPolicy, AuthTokens (\<open>authentication.rs\<close>): password and second factor policies, mailed tokens, factors
    with their sealed secrets; Sessions (\<open>crates/session\<close>, \<open>http/middlewares\<close>, \<open>authenticated_sessions.rs\<close>):
    sessions and CSRF tokens in the cache. \<open>auth_step\<close> is what the service does between two requests of a
    session; a session of an account that was disabled or given another password is never accepted again.

  \<^bold>\<open>Interfaces.\<close> \<open>run_relation\<close> (what every run of an operation keeps, passed through the combinators),
  \<open>keyed_table\<close> and \<open>stored_table\<close> (laws of a table, interpreted for each table), \<open>placer\<close> (what delivery asks
  of the scheduler), \<open>lowest_choice\<close> (the random choice), \<open>normalizer\<close> (host names of the route table),
  \<open>counter_store\<close> (the cache as quotas use it), \<open>text_store\<close> (the cache as sessions use it), \<open>limiter\<close> (a token
  bucket of either backend) and \<open>one_time\<close> (codes, invitations and mailed tokens) are locales interpreted on
  the model's definitions.

  \<^bold>\<open>Decisions.\<close> Queries answer in the order of the table, \<open>ORDER BY\<close> is \<open>sort_key\<close>, and \<open>.one()\<close> is the first
  row. Failures of the database other than the constraints of Entities, foreign keys, row locks and the
  advisory lock are not represented; requests are atomic except where a theorem says otherwise and for the
  refresh of the route table. \<open>string\<close>
  holds code points below 256, \<open>nat list\<close> (\<open>ustr\<close>) all code points; interpolated identifiers are left out of
  error texts, and idempotency and cache keys are kept as their parts. Integers are \<open>int\<close> or \<open>nat\<close> with the
  wrap-around of their width written out where it can happen (\<open>wrap_i64\<close>, \<open>wrap_i32\<close>, the checked sums of the
  node deletion). Hash maps are association lists with distinct keys or functions. Times are nanoseconds;
  a request of the queue reads one time (BuildSlots). Mail, route invalidations and calls on the cache made
  after a commit are values returned. Every recursion is structural or has a measure; no fuel is used.

  \<^bold>\<open>Parameters.\<close> Code that is not in the repository is an argument: the URL parser and the printing of
  addresses (\<open>net_lib\<close>), AES-GCM, SHA-256, base64 and the serialization of a secret (\<open>crypto_lib\<close>), Argon2id
  (\<open>password_lib\<close>), TOTP and the reading of stored policies (\<open>auth_lib\<close>), the character classes of passwords
  (\<open>char_tables\<close>), the serialization of a session (\<open>session_codec\<close>), random bytes, the
  calendar, the zip format and the answers of the file system, the text of identifiers, TOML and MIME
  types. What a theorem needs of them is a named hypothesis (\<open>crypto_ok\<close>, \<open>codec_ok\<close>) with an instance.

  \<^bold>\<open>Not modelled.\<close> The login request with its challenges, external identity providers and the requests for
  second factors; the project life cycle; host bindings, ingress and certificates; retention; object storage; previews, screenshots and mail; the build containers,
  SSR processes and synchronization of a Node; the remaining HTTP handlers (request parsing and response
  views); the console, which is not Rust. Some of these are row updates behind permission checks that the
  library can still take in; most of the rest is calls to external services.
\<close>

end
